(* ===== verification/Prelude.thy ===== *)
theory Prelude
  imports Main "HOL-Library.Word" "HOL-Library.Char_ord" "HOL-Library.List_Lexorder"
begin

text \<open>
  What every component of the development shares: the names of the Rust integer types, the
  saturating arithmetic of \<open>usize\<close> counters, the identifier type \<open>uuid\<close> with the order Rust
  derives for it, the JSON value type, the result type of fallible operations, and the
  collections of facts the component proofs use.
\<close>

unbundle bit_operations_syntax

named_theorems table_simps \<open>equations of the table operations (lookup after an insert or update)\<close>
named_theorems text_simps \<open>equations of the string operations on literals and concatenations\<close>
named_theorems enum_tables \<open>the variant tables of the text enumerations\<close>

section \<open>Machine integers\<close>

type_synonym u8 = "8 word"
type_synonym u32 = "32 word"
type_synonym u64 = "64 word"

text \<open>Counters of type \<open>usize\<close> are naturals below \<open>usize_bound\<close>; the code adds to them with
  \<open>saturating_add\<close>.\<close>

definition usize_max :: nat where
  "usize_max = 2 ^ 64 - 1"

definition sat_add :: "nat \<Rightarrow> nat \<Rightarrow> nat" where
  "sat_add a b = min (a + b) usize_max"

definition sat_sub :: "nat \<Rightarrow> nat \<Rightarrow> nat" where
  "sat_sub a b = a - b"

lemma sat_add_le: "a \<le> usize_max \<Longrightarrow> a \<le> sat_add a b"
  by (simp add: sat_add_def)

lemma sat_add_mono: "a \<le> c \<Longrightarrow> b \<le> d \<Longrightarrow> sat_add a b \<le> sat_add c d"
  by (auto simp: sat_add_def)

lemma sat_add_exact: "a + b \<le> usize_max \<Longrightarrow> sat_add a b = a + b"
  by (simp add: sat_add_def)

lemma sat_add_bound [simp]: "sat_add a b \<le> usize_max"
  by (simp add: sat_add_def)

definition i64_max :: int where
  "i64_max = 2 ^ 63 - 1"

section \<open>Identifiers\<close>

text \<open>
  A \<open>Uuid\<close> is 16 bytes, ordered by its bytes from the first on. The order of the hyphenated
  lower-case text, by which the SQL statements sort, is the same one.
\<close>

datatype uuid = Uuid (octets: "u8 list")

instantiation uuid :: linorder
begin

definition less_eq_uuid :: "uuid \<Rightarrow> uuid \<Rightarrow> bool" where
  "less_eq_uuid a b \<longleftrightarrow> octets a \<le> octets b"

definition less_uuid :: "uuid \<Rightarrow> uuid \<Rightarrow> bool" where
  "less_uuid a b \<longleftrightarrow> octets a < octets b"

instance
  by standard (auto simp: less_eq_uuid_def less_uuid_def intro: uuid.expand)

end

section \<open>JSON values\<close>

text \<open>\<open>serde_json::Value\<close>: a number is an unsigned or a negative 64-bit integer or a float
  (its bits); an object is its list of members.\<close>

datatype jnum = PosInt u64 | NegInt int | Float u64

datatype json =
    JNull
  | JBool bool
  | JNum jnum
  | JStr string
  | JArr "json list"
  | JObj "(string \<times> json) list"

text \<open>\<open>Value::get\<close> on a key, and the accessors the code uses.\<close>

fun jget :: "json \<Rightarrow> string \<Rightarrow> json option" where
  "jget (JObj ms) k = map_of ms k"
| "jget _ k = None"

fun as_str :: "json \<Rightarrow> string option" where
  "as_str (JStr s) = Some s"
| "as_str _ = None"

fun as_bool :: "json \<Rightarrow> bool option" where
  "as_bool (JBool b) = Some b"
| "as_bool _ = None"

fun as_u64 :: "json \<Rightarrow> u64 option" where
  "as_u64 (JNum (PosInt n)) = Some n"
| "as_u64 _ = None"

fun as_i64 :: "json \<Rightarrow> int option" where
  "as_i64 (JNum (PosInt n)) = (if uint n \<le> i64_max then Some (uint n) else None)"
| "as_i64 (JNum (NegInt i)) = Some i"
| "as_i64 _ = None"

fun is_null :: "json \<Rightarrow> bool" where
  "is_null JNull = True"
| "is_null _ = False"

abbreviation jget_str :: "json \<Rightarrow> string \<Rightarrow> string option" where
  "jget_str v k \<equiv> Option.bind (jget v k) as_str"

section \<open>Times\<close>

text \<open>\<open>DateTime<Utc>\<close> is an instant, counted here in nanoseconds from the Unix epoch;
  \<open>timestamp_millis\<close> is its millisecond, rounded down.\<close>

type_synonym datetime = int

definition timestamp_ms :: "datetime \<Rightarrow> int" where
  "timestamp_ms t = t div 1000000"

section \<open>Options and results\<close>

text \<open>\<open>Option::or_else\<close> and \<open>Option::filter\<close>.\<close>

fun or_else :: "'a option \<Rightarrow> 'a option \<Rightarrow> 'a option" where
  "or_else (Some x) _ = Some x"
| "or_else None y = y"

fun opt_filter :: "('a \<Rightarrow> bool) \<Rightarrow> 'a option \<Rightarrow> 'a option" where
  "opt_filter p None = None"
| "opt_filter p (Some x) = (if p x then Some x else None)"

fun unwrap_or :: "'a option \<Rightarrow> 'a \<Rightarrow> 'a" where
  "unwrap_or (Some x) _ = x"
| "unwrap_or None d = d"

lemma or_else_eq_Some:
  "or_else a b = Some x \<longleftrightarrow> a = Some x \<or> (a = None \<and> b = Some x)"
  by (cases a) auto

lemma or_else_None [simp]: "or_else a None = a"
  by (cases a) auto

lemma opt_filter_eq_Some: "opt_filter p a = Some x \<longleftrightarrow> a = Some x \<and> p x"
  by (cases a) auto

text \<open>The \<open>?\<close> operator on a result.\<close>

fun bind_result :: "'e + 'a \<Rightarrow> ('a \<Rightarrow> 'e + 'b) \<Rightarrow> 'e + 'b" where
  "bind_result (Inl e) f = Inl e"
| "bind_result (Inr x) f = f x"

lemma bind_result_eq_Inr:
  "bind_result r f = Inr y \<longleftrightarrow> (\<exists>x. r = Inr x \<and> f x = Inr y)"
  by (cases r) auto

lemma bind_result_cong [fundef_cong]:
  "r = r' \<Longrightarrow> (\<And>x. r' = Inr x \<Longrightarrow> f x = g x) \<Longrightarrow> bind_result r f = bind_result r' g"
  by (cases r') auto

section \<open>Lists\<close>

text \<open>The first element that satisfies a predicate is \<open>List.find\<close>. Replacing the rows of a
  table that satisfy a predicate is a \<open>map\<close>; these facts carry the table proofs.\<close>

lemma find_append: "List.find p (xs @ ys) = or_else (List.find p xs) (List.find p ys)"
  by (induction xs) auto

lemma find_eq_Some_set: "List.find p xs = Some x \<Longrightarrow> x \<in> set xs \<and> p x"
  by (induction xs) (auto split: if_splits)

lemma find_eq_None: "List.find p xs = None \<longleftrightarrow> (\<forall>x \<in> set xs. \<not> p x)"
  by (induction xs) auto

lemma find_map_key:
  "(\<And>x. x \<in> set xs \<Longrightarrow> p (f x) = p x) \<Longrightarrow> List.find p (map f xs) = map_option f (List.find p xs)"
  by (induction xs) auto

lemma find_is_Some: "x \<in> set xs \<Longrightarrow> p x \<Longrightarrow> \<exists>y. List.find p xs = Some y"
  by (induction xs) auto

lemma find_unique:
  "distinct (map f xs) \<Longrightarrow> x \<in> set xs \<Longrightarrow> List.find (\<lambda>y. f y = f x) xs = Some x"
  by (induction xs) (auto simp: rev_image_eqI)

lemma distinct_map_inj:
  "distinct (map f xs) \<Longrightarrow> x \<in> set xs \<Longrightarrow> y \<in> set xs \<Longrightarrow> f x = f y \<Longrightarrow> x = y"
  by (metis distinct_map inj_onD)

end
