(* ===== verification/Rust_Text.thy ===== *)
theory Rust_Text
  imports Prelude
begin

text \<open>
  The string operations of the Rust standard library that the program uses. A \<open>str\<close> is its
  UTF-8 bytes, one \<open>char\<close> each; splitting, stripping and replacing at an ASCII character act on
  the bytes. The lemmas are the laws the key formats rest on: a split undoes a join, a parsed
  decimal is the number that was printed, an escaped text contains no bare quote.
\<close>

section \<open>Prefixes and splits\<close>

definition starts_with :: "string \<Rightarrow> string \<Rightarrow> bool" where
  "starts_with p s \<longleftrightarrow> take (length p) s = p"

definition strip_prefix :: "string \<Rightarrow> string \<Rightarrow> string option" where
  "strip_prefix p s = (if starts_with p s then Some (drop (length p) s) else None)"

lemma starts_with_append [simp, text_simps]: "starts_with p (p @ s)"
  by (simp add: starts_with_def)

lemma strip_prefix_append [simp, text_simps]: "strip_prefix p (p @ s) = Some s"
  by (simp add: strip_prefix_def)

lemma strip_prefix_eq_Some: "strip_prefix p s = Some r \<longleftrightarrow> s = p @ r"
  by (auto simp: strip_prefix_def starts_with_def) (metis append_take_drop_id)

lemma starts_with_iff: "starts_with p s \<longleftrightarrow> (\<exists>r. s = p @ r)"
  by (auto simp: starts_with_def) (metis append_take_drop_id)

text \<open>\<open>str::contains\<close> and \<open>str::find\<close>, which gives a byte offset.\<close>

fun text_contains :: "string \<Rightarrow> string \<Rightarrow> bool" where
  "text_contains p [] \<longleftrightarrow> p = []"
| "text_contains p (c # s) \<longleftrightarrow> starts_with p (c # s) \<or> text_contains p s"

fun find_text :: "string \<Rightarrow> string \<Rightarrow> nat option" where
  "find_text p [] = (if p = [] then Some 0 else None)"
| "find_text p (c # s) = (if starts_with p (c # s) then Some 0 else map_option Suc (find_text p s))"

lemma text_contains_find: "text_contains p s \<longleftrightarrow> find_text p s \<noteq> None"
  by (induction s) auto

lemma find_text_append: "find_text p s = Some n \<Longrightarrow> \<exists>r. drop n s = p @ r"
  by (induction s arbitrary: n) (auto simp: starts_with_iff split: if_splits)

fun split_once :: "char \<Rightarrow> string \<Rightarrow> (string \<times> string) option" where
  "split_once c [] = None"
| "split_once c (x # xs) =
     (if x = c then Some ([], xs)
      else map_option (\<lambda>(a, b). (x # a, b)) (split_once c xs))"

lemma split_once_join [simp, text_simps]:
  "c \<notin> set a \<Longrightarrow> split_once c (a @ c # b) = Some (a, b)"
  by (induction a) auto

lemma split_once_eq_Some: "split_once c s = Some (a, b) \<longleftrightarrow> s = a @ c # b \<and> c \<notin> set a"
proof (induction s arbitrary: a)
  case Nil
  then show ?case by simp
next
  case (Cons x s)
  then show ?case by (cases a) auto
qed

lemma split_once_eq_None: "split_once c s = None \<longleftrightarrow> c \<notin> set s"
  by (induction s) auto

text \<open>\<open>splitn n c\<close> yields at most \<open>n\<close> pieces, the last one holding the rest.\<close>

fun splitn :: "nat \<Rightarrow> char \<Rightarrow> string \<Rightarrow> string list" where
  "splitn 0 c s = []"
| "splitn (Suc 0) c s = [s]"
| "splitn (Suc (Suc n)) c s =
     (case split_once c s of None \<Rightarrow> [s] | Some (a, b) \<Rightarrow> a # splitn (Suc n) c b)"

fun join :: "string \<Rightarrow> string list \<Rightarrow> string" where
  "join sep [] = []"
| "join sep [x] = x"
| "join sep (x # y # zs) = x @ sep @ join sep (y # zs)"

lemma splitn_nonempty: "0 < n \<Longrightarrow> splitn n c s \<noteq> []"
  by (induction n c s rule: splitn.induct) (auto split: option.splits)

lemma join_splitn: "0 < n \<Longrightarrow> join [c] (splitn n c s) = s"
proof (induction n c s rule: splitn.induct)
  case (3 n c s)
  show ?case
  proof (cases "split_once c s")
    case None
    then show ?thesis by simp
  next
    case (Some ab)
    then obtain a b where ab: "split_once c s = Some (a, b)" by (cases ab) auto
    have IH: "join [c] (splitn (Suc n) c b) = b"
      using "3.IH" ab by simp
    have "splitn (Suc n) c b \<noteq> []" by (simp add: splitn_nonempty)
    then obtain z zs where "splitn (Suc n) c b = z # zs" by (cases "splitn (Suc n) c b") auto
    with IH ab show ?thesis by (simp add: split_once_eq_Some)
  qed
qed auto

section \<open>Replacement\<close>

text \<open>\<open>str::replace\<close> with a one-character pattern.\<close>

definition replace_char :: "char \<Rightarrow> string \<Rightarrow> string \<Rightarrow> string" where
  "replace_char c r s = concat (map (\<lambda>x. if x = c then r else [x]) s)"

lemma replace_char_Nil [simp, text_simps]: "replace_char c r [] = []"
  by (simp add: replace_char_def)

lemma replace_char_Cons [simp, text_simps]:
  "replace_char c r (x # s) = (if x = c then r else [x]) @ replace_char c r s"
  by (simp add: replace_char_def)

lemma replace_char_append: "replace_char c r (s @ t) = replace_char c r s @ replace_char c r t"
  by (simp add: replace_char_def)

section \<open>White space\<close>

text \<open>The UTF-8 encodings of the characters with the Unicode property \<open>White_Space\<close>, which is
  what \<open>char::is_whitespace\<close> tests.\<close>

definition utf8 :: "nat list \<Rightarrow> string" where
  "utf8 ns = map char_of ns"

definition white_space :: "string list" where
  "white_space =
     [[CHR 0x09], [CHR 0x0A], [CHR 0x0B], [CHR 0x0C], [CHR 0x0D], [CHR 0x20],
      [CHR 0xC2, CHR 0x85], [CHR 0xC2, CHR 0xA0], [CHR 0xE1, CHR 0x9A, CHR 0x80],
      [CHR 0xE2, CHR 0x80, CHR 0x80], [CHR 0xE2, CHR 0x80, CHR 0x81],
      [CHR 0xE2, CHR 0x80, CHR 0x82], [CHR 0xE2, CHR 0x80, CHR 0x83],
      [CHR 0xE2, CHR 0x80, CHR 0x84], [CHR 0xE2, CHR 0x80, CHR 0x85],
      [CHR 0xE2, CHR 0x80, CHR 0x86], [CHR 0xE2, CHR 0x80, CHR 0x87],
      [CHR 0xE2, CHR 0x80, CHR 0x88], [CHR 0xE2, CHR 0x80, CHR 0x89],
      [CHR 0xE2, CHR 0x80, CHR 0x8A], [CHR 0xE2, CHR 0x80, CHR 0xA8],
      [CHR 0xE2, CHR 0x80, CHR 0xA9], [CHR 0xE2, CHR 0x80, CHR 0xAF],
      [CHR 0xE2, CHR 0x81, CHR 0x9F], [CHR 0xE3, CHR 0x80, CHR 0x80]]"

definition leading_space :: "string \<Rightarrow> string option" where
  "leading_space s = List.find (\<lambda>w. starts_with w s) white_space"

definition trailing_space :: "string \<Rightarrow> string option" where
  "trailing_space s = List.find (\<lambda>w. starts_with (rev w) (rev s)) white_space"

lemma white_space_nonempty: "w \<in> set white_space \<Longrightarrow> 0 < length w"
  by (auto simp: white_space_def utf8_def)

function trim_start :: "string \<Rightarrow> string" where
  "trim_start s = (case leading_space s of None \<Rightarrow> s | Some w \<Rightarrow> trim_start (drop (length w) s))"
  by pat_completeness auto
termination
proof (relation "measure length")
  fix s w
  assume "leading_space s = Some w"
  then have "w \<in> set white_space" "starts_with w s"
    by (auto simp: leading_space_def dest: find_eq_Some_set)
  moreover then have "0 < length w" by (auto dest: white_space_nonempty)
  ultimately show "(drop (length w) s, s) \<in> measure length"
    by (auto simp: starts_with_iff)
qed simp

declare trim_start.simps [simp del]

function trim_end :: "string \<Rightarrow> string" where
  "trim_end s =
     (case trailing_space s of None \<Rightarrow> s | Some w \<Rightarrow> trim_end (take (length s - length w) s))"
  by pat_completeness auto
termination
proof (relation "measure length")
  fix s w
  assume "trailing_space s = Some w"
  then have w: "w \<in> set white_space" "starts_with (rev w) (rev s)"
    by (auto simp: trailing_space_def dest: find_eq_Some_set)
  then have "0 < length w" by (auto dest: white_space_nonempty)
  moreover from w(2) have "length w \<le> length s"
    by (auto simp: starts_with_iff) (metis length_append length_rev le_add1)
  ultimately show "(take (length s - length w) s, s) \<in> measure length"
    by (cases s) auto
qed simp

declare trim_end.simps [simp del]

definition trim :: "string \<Rightarrow> string" where
  "trim s = trim_end (trim_start s)"

lemma trim_start_no_leading: "leading_space (trim_start s) = None"
proof (induction s rule: trim_start.induct)
  case (1 s)
  then show ?case
    by (cases "leading_space s") (auto simp: trim_start.simps [of s])
qed

lemma trim_end_no_trailing: "trailing_space (trim_end s) = None"
proof (induction s rule: trim_end.induct)
  case (1 s)
  then show ?case
    by (cases "trailing_space s") (auto simp: trim_end.simps [of s])
qed

lemma trim_end_prefix: "\<exists>n. trim_end s = take n s"
proof (induction s rule: trim_end.induct)
  case (1 s)
  show ?case
  proof (cases "trailing_space s")
    case None
    then show ?thesis by (metis trim_end.simps option.case(1) take_all order_refl)
  next
    case (Some w)
    with 1 obtain n where "trim_end (take (length s - length w) s) = take n (take (length s - length w) s)"
      by blast
    with Some show ?thesis by (auto simp: trim_end.simps [of s] take_take)
  qed
qed

lemma trim_start_id: "leading_space s = None \<Longrightarrow> trim_start s = s"
  by (simp add: trim_start.simps)

lemma trim_end_id: "trailing_space s = None \<Longrightarrow> trim_end s = s"
  by (simp add: trim_end.simps)

lemma leading_space_take_None:
  assumes "leading_space s = None"
  shows "leading_space (take n s) = None"
proof -
  have "\<not> starts_with w (take n s)" if "w \<in> set white_space" for w
  proof
    assume "starts_with w (take n s)"
    then obtain r where "take n s = w @ r" by (auto simp: starts_with_iff)
    then have "s = w @ r @ drop n s" by (metis append.assoc append_take_drop_id)
    then have "starts_with w s" by (auto simp: starts_with_iff)
    with assms that show False by (auto simp: leading_space_def find_eq_None)
  qed
  then show ?thesis by (auto simp: leading_space_def find_eq_None)
qed

lemma trim_idem [simp]: "trim (trim s) = trim s"
proof -
  obtain n where n: "trim s = take n (trim_start s)"
    using trim_end_prefix [of "trim_start s"] by (auto simp: trim_def)
  have "leading_space (trim s) = None"
    unfolding n by (rule leading_space_take_None) (rule trim_start_no_leading)
  then have "trim_start (trim s) = trim s" by (rule trim_start_id)
  moreover have "trim_end (trim s) = trim s"
    by (rule trim_end_id) (simp add: trim_def trim_end_no_trailing)
  ultimately show ?thesis by (simp add: trim_def)
qed

lemma trim_Nil [simp]: "trim [] = []"
proof -
  have "\<not> starts_with w []" if "w \<in> set white_space" for w
    using white_space_nonempty [OF that] by (auto simp: starts_with_iff)
  then have "leading_space [] = None"
    by (auto simp: leading_space_def find_eq_None)
  moreover have "\<not> starts_with (rev w) []" if "w \<in> set white_space" for w
    using white_space_nonempty [OF that] by (auto simp: starts_with_iff)
  then have "trailing_space [] = None"
    by (auto simp: trailing_space_def find_eq_None)
  ultimately show ?thesis by (simp add: trim_def trim_start_id trim_end_id)
qed

text \<open>A byte of a UTF-8 sequence after its first.\<close>

definition is_continuation :: "char \<Rightarrow> bool" where
  "is_continuation c \<longleftrightarrow> 128 \<le> (of_char c :: nat) \<and> (of_char c :: nat) < 192"

text \<open>A text whose first and last bytes are visible ASCII characters is left alone.\<close>

definition is_graph :: "char \<Rightarrow> bool" where
  "is_graph c \<longleftrightarrow> 33 \<le> (of_char c :: nat) \<and> (of_char c :: nat) \<le> 126"

lemma white_space_not_graph:
  "w \<in> set white_space \<Longrightarrow> \<not> is_graph (hd w) \<and> \<not> is_graph (last w)"
  by (auto simp: white_space_def is_graph_def)

lemma trim_graph:
  assumes "s \<noteq> []" "is_graph (hd s)" "is_graph (last s)"
  shows "trim s = s"
proof -
  have "\<not> starts_with w s \<and> \<not> starts_with (rev w) (rev s)" if w: "w \<in> set white_space" for w
  proof -
    have ne: "w \<noteq> []" using white_space_nonempty [OF w] by simp
    have "hd s = hd w" if "starts_with w s" using that ne by (auto simp: starts_with_iff)
    moreover have "last s = last w" if "starts_with (rev w) (rev s)"
      using that ne assms(1) by (auto simp: starts_with_iff simp flip: hd_rev)
    ultimately show ?thesis using white_space_not_graph [OF w] assms(2,3) by metis
  qed
  then have "leading_space s = None" "trailing_space s = None"
    by (auto simp: leading_space_def trailing_space_def find_eq_None)
  then show ?thesis by (simp add: trim_def trim_start_id trim_end_id)
qed

section \<open>Decimal numbers\<close>

definition digit_char :: "nat \<Rightarrow> char" where
  "digit_char d = char_of (48 + d)"

definition is_digit :: "char \<Rightarrow> bool" where
  "is_digit c \<longleftrightarrow> 48 \<le> (of_char c :: nat) \<and> (of_char c :: nat) \<le> 57"

definition digit_val :: "char \<Rightarrow> nat" where
  "digit_val c = of_char c - 48"

text \<open>\<open>Display\<close> of an unsigned integer.\<close>

fun dec :: "nat \<Rightarrow> string" where
  "dec n = (if n < 10 then [digit_char n] else dec (n div 10) @ [digit_char (n mod 10)])"

declare dec.simps [simp del]

definition digits_value :: "string \<Rightarrow> nat" where
  "digits_value s = foldl (\<lambda>acc c. acc * 10 + digit_val c) 0 s"

text \<open>\<open>str::parse\<close> for an unsigned type of the given bound: an optional plus sign, then one or
  more digits, then the range check.\<close>

definition parse_unsigned :: "nat \<Rightarrow> string \<Rightarrow> nat option" where
  "parse_unsigned bound s =
     (let ds = (if starts_with ''+'' s then drop 1 s else s)
      in if ds = [] \<or> \<not> list_all is_digit ds then None
         else if digits_value ds < bound then Some (digits_value ds) else None)"

definition parse_u64 :: "string \<Rightarrow> u64 option" where
  "parse_u64 s = map_option of_nat (parse_unsigned (2 ^ 64) s)"

lemma of_char_digit_char: "d < 10 \<Longrightarrow> (of_char (digit_char d) :: nat) = 48 + d"
  by (simp add: digit_char_def)

lemma is_digit_digit_char [simp]: "d < 10 \<Longrightarrow> is_digit (digit_char d)"
  by (simp add: is_digit_def of_char_digit_char)

lemma digit_val_digit_char [simp]: "d < 10 \<Longrightarrow> digit_val (digit_char d) = d"
  by (simp add: digit_val_def of_char_digit_char)

lemma dec_digits: "list_all is_digit (dec n)"
proof (induction n rule: dec.induct)
  case (1 n)
  then show ?case by (cases "n < 10") (auto simp: dec.simps [of n])
qed

lemma dec_nonempty [simp]: "dec n \<noteq> []"
  by (subst dec.simps) auto

lemma digits_value_dec: "digits_value (dec n) = n"
proof (induction n rule: dec.induct)
  case (1 n)
  show ?case
  proof (cases "n < 10")
    case True
    then show ?thesis by (simp add: dec.simps [of n] digits_value_def)
  next
    case False
    with 1 have "digits_value (dec (n div 10)) = n div 10" by simp
    with False show ?thesis by (simp add: dec.simps [of n] digits_value_def)
  qed
qed

lemma dec_not_char: "\<not> is_digit c \<Longrightarrow> c \<notin> set (dec n)"
  using dec_digits [of n] by (auto simp: list_all_iff)

lemma colon_notin_dec [simp]: "CHR '':'' \<notin> set (dec n)"
  by (rule dec_not_char) (simp add: is_digit_def)

lemma dec_inj: "dec m = dec n \<Longrightarrow> m = n"
  by (metis digits_value_dec)

lemma plus_not_first_dec: "\<not> starts_with ''+'' (dec n)"
proof
  assume "starts_with ''+'' (dec n)"
  then have "CHR ''+'' \<in> set (dec n)" by (auto simp: starts_with_iff)
  moreover have "CHR ''+'' \<notin> set (dec n)" by (rule dec_not_char) (simp add: is_digit_def)
  ultimately show False by simp
qed

lemma parse_unsigned_dec: "n < b \<Longrightarrow> parse_unsigned b (dec n) = Some n"
  by (simp add: parse_unsigned_def plus_not_first_dec dec_digits digits_value_dec)

lemma parse_u64_dec [simp]: "parse_u64 (dec (unat n)) = Some n"
proof -
  have "unat n < 2 ^ 64" by (rule order_less_le_trans, rule unsigned_less) simp
  then show ?thesis by (simp add: parse_u64_def parse_unsigned_dec)
qed

text \<open>What \<open>parse_u64\<close> accepts: a nonempty run of digits, perhaps after a plus sign.\<close>

lemma parse_u64_colon_free: "parse_u64 s = Some n \<Longrightarrow> CHR '':'' \<notin> set s"
proof -
  assume "parse_u64 s = Some n"
  then have "list_all is_digit (if starts_with ''+'' s then drop 1 s else s)"
    by (auto simp: parse_u64_def parse_unsigned_def Let_def split: if_splits)
  moreover have "\<not> is_digit CHR '':''" by (simp add: is_digit_def)
  ultimately show ?thesis
    by (auto simp: list_all_iff starts_with_iff split: if_splits)
qed

end
