(* ===== verification/Text_Enums.thy ===== *)
theory Text_Enums
  imports Rust_Text
begin

text \<open>
  The text enumerations of \<open>ctx-history-core\<close>. The macro \<open>text_enum!\<close> of \<open>lib.rs\<close> turns a list
  of variants and literals into an enumeration with \<open>as_str\<close>, \<open>variants\<close>, \<open>Default\<close> and
  \<open>FromStr\<close>. Here the list is a table and the macro's functions take it; the locale
  \<open>text_enum\<close> states what a table must satisfy (every variant listed once, no literal used
  twice) and proves the round trips once. Every enumeration the model uses interprets it.
\<close>

section \<open>The macro\<close>

datatype core_error = MissingHome | InvalidEnumValue (enum_name: string) (enum_value: string)

definition enum_as_str :: "('a \<times> string) list \<Rightarrow> 'a \<Rightarrow> string" where
  "enum_as_str table v = (case map_of table v of Some l \<Rightarrow> l | None \<Rightarrow> [])"

definition enum_variants :: "('a \<times> string) list \<Rightarrow> string list" where
  "enum_variants table = map snd table"

definition enum_from_str :: "string \<Rightarrow> ('a \<times> string) list \<Rightarrow> string \<Rightarrow> core_error + 'a" where
  "enum_from_str name table s =
     (case List.find (\<lambda>(v, l). l = s) table of
        Some (v, l) \<Rightarrow> Inr v
      | None \<Rightarrow> Inl (InvalidEnumValue name s))"

locale text_enum =
  fixes table :: "('a \<times> string) list" and name :: string
  assumes complete: "map_of table v \<noteq> None"
    and distinct_variants: "distinct (map fst table)"
    and distinct_literals: "distinct (map snd table)"
begin

lemma entry: "(v, enum_as_str table v) \<in> set table"
proof -
  from complete obtain l where "map_of table v = Some l" by auto
  then show ?thesis by (simp add: enum_as_str_def map_of_SomeD)
qed

lemma as_str_of_entry: "(v, l) \<in> set table \<Longrightarrow> enum_as_str table v = l"
  using distinct_variants by (simp add: enum_as_str_def)

lemma find_entry: "(v, l) \<in> set table \<Longrightarrow> List.find (\<lambda>(v, l'). l' = l) table = Some (v, l)"
  using find_unique [OF distinct_literals, of "(v, l)"] by (simp add: case_prod_beta')

lemma from_str_as_str [simp]: "enum_from_str name table (enum_as_str table v) = Inr v"
  using find_entry [OF entry [of v]] by (simp add: enum_from_str_def)

lemma as_str_inj: "enum_as_str table v = enum_as_str table w \<Longrightarrow> v = w"
  by (metis from_str_as_str sum.inject(2))

lemma as_str_eq_iff [simp]: "enum_as_str table v = enum_as_str table w \<longleftrightarrow> v = w"
  by (auto dest: as_str_inj)

lemma variants_iff: "s \<in> set (enum_variants table) \<longleftrightarrow> (\<exists>v. s = enum_as_str table v)"
  using entry by (force simp: enum_variants_def dest: as_str_of_entry)

lemma from_str_eq_Inr: "enum_from_str name table s = Inr v \<longleftrightarrow> s = enum_as_str table v"
proof
  assume "enum_from_str name table s = Inr v"
  then obtain l where "List.find (\<lambda>(v, l). l = s) table = Some (v, l)"
    by (auto simp: enum_from_str_def split: option.splits)
  then have "(v, l) \<in> set table" "l = s" by (auto dest: find_eq_Some_set)
  then show "s = enum_as_str table v" by (auto dest: as_str_of_entry)
qed simp

lemma from_str_unknown:
  "s \<notin> set (enum_variants table) \<Longrightarrow> enum_from_str name table s = Inl (InvalidEnumValue name s)"
proof -
  assume "s \<notin> set (enum_variants table)"
  then have "List.find (\<lambda>(v, l). l = s) table = None"
    by (auto simp: find_eq_None enum_variants_def image_iff)
  then show ?thesis by (simp add: enum_from_str_def)
qed

lemma from_str_cases:
  "enum_from_str name table s =
     (if s \<in> set (enum_variants table) then Inr (THE v. enum_as_str table v = s)
      else Inl (InvalidEnumValue name s))"
proof (cases "s \<in> set (enum_variants table)")
  case True
  then obtain v where v: "s = enum_as_str table v" by (auto simp: variants_iff)
  then have "(THE v. enum_as_str table v = s) = v" by (auto intro: the_equality as_str_inj)
  with v True show ?thesis by simp
qed (simp add: from_str_unknown)

end

text \<open>An enumeration whose literals serve as components of a key: they are not empty and have
  no colon.\<close>

locale key_enum = text_enum +
  assumes plain_literals: "list_all (\<lambda>(v, l). l \<noteq> [] \<and> CHR '':'' \<notin> set l) table"
begin

lemma as_str_nonempty [simp]: "enum_as_str table v \<noteq> []"
  using plain_literals entry [of v] by (force simp: list_all_iff)

lemma as_str_no_colon [simp]: "CHR '':'' \<notin> set (enum_as_str table v)"
  using plain_literals entry [of v] by (force simp: list_all_iff)

end

section \<open>The enumerations\<close>

datatype capture_source_kind =
    CaptureSourceKind_ProviderImport | CaptureSourceKind_ProviderHook |
    CaptureSourceKind_DirectCli | CaptureSourceKind_Manual

definition capture_source_kind_table :: "(capture_source_kind \<times> string) list" where
  "capture_source_kind_table =
     [(CaptureSourceKind_ProviderImport, ''provider_import''),
      (CaptureSourceKind_ProviderHook, ''provider_hook''),
      (CaptureSourceKind_DirectCli, ''direct_cli''), (CaptureSourceKind_Manual, ''manual'')]"

definition capture_source_kind_default :: capture_source_kind where
  "capture_source_kind_default = CaptureSourceKind_Manual"

datatype capture_provider =
    CaptureProvider_Codex | CaptureProvider_Claude | CaptureProvider_Pi |
    CaptureProvider_OpenCode | CaptureProvider_Kilo | CaptureProvider_KiroCli |
    CaptureProvider_Antigravity | CaptureProvider_Gemini | CaptureProvider_Tabnine |
    CaptureProvider_Cursor | CaptureProvider_Windsurf | CaptureProvider_Zed |
    CaptureProvider_CopilotCli | CaptureProvider_FactoryAiDroid | CaptureProvider_QwenCode |
    CaptureProvider_KimiCodeCli | CaptureProvider_Auggie | CaptureProvider_Junie |
    CaptureProvider_Firebender | CaptureProvider_ForgeCode | CaptureProvider_DeepAgents |
    CaptureProvider_MistralVibe | CaptureProvider_Mux | CaptureProvider_RovoDev |
    CaptureProvider_OpenClaw | CaptureProvider_Hermes | CaptureProvider_NanoClaw |
    CaptureProvider_AstrBot | CaptureProvider_Shelley | CaptureProvider_Continue |
    CaptureProvider_OpenHands | CaptureProvider_Cline | CaptureProvider_RooCode |
    CaptureProvider_Crush | CaptureProvider_Goose | CaptureProvider_Lingma |
    CaptureProvider_Qoder | CaptureProvider_Warp | CaptureProvider_CodeBuddy |
    CaptureProvider_Trae | CaptureProvider_Shell | CaptureProvider_Git | CaptureProvider_Jj |
    CaptureProvider_Gh | CaptureProvider_Custom | CaptureProvider_Unknown |
    CaptureProvider_MiMoCode

definition capture_provider_table :: "(capture_provider \<times> string) list" where
  "capture_provider_table =
     [(CaptureProvider_Codex, ''codex''), (CaptureProvider_Claude, ''claude''),
      (CaptureProvider_Pi, ''pi''), (CaptureProvider_OpenCode, ''opencode''),
      (CaptureProvider_Kilo, ''kilo''), (CaptureProvider_KiroCli, ''kiro_cli''),
      (CaptureProvider_Antigravity, ''antigravity''), (CaptureProvider_Gemini, ''gemini''),
      (CaptureProvider_Tabnine, ''tabnine''), (CaptureProvider_Cursor, ''cursor''),
      (CaptureProvider_Windsurf, ''windsurf''), (CaptureProvider_Zed, ''zed''),
      (CaptureProvider_CopilotCli, ''copilot_cli''),
      (CaptureProvider_FactoryAiDroid, ''factory_ai_droid''),
      (CaptureProvider_QwenCode, ''qwen_code''),
      (CaptureProvider_KimiCodeCli, ''kimi_code_cli''), (CaptureProvider_Auggie, ''auggie''),
      (CaptureProvider_Junie, ''junie''), (CaptureProvider_Firebender, ''firebender''),
      (CaptureProvider_ForgeCode, ''forgecode''), (CaptureProvider_DeepAgents, ''deepagents''),
      (CaptureProvider_MistralVibe, ''mistral_vibe''), (CaptureProvider_Mux, ''mux''),
      (CaptureProvider_RovoDev, ''rovodev''), (CaptureProvider_OpenClaw, ''openclaw''),
      (CaptureProvider_Hermes, ''hermes''), (CaptureProvider_NanoClaw, ''nanoclaw''),
      (CaptureProvider_AstrBot, ''astrbot''), (CaptureProvider_Shelley, ''shelley''),
      (CaptureProvider_Continue, ''continue''), (CaptureProvider_OpenHands, ''openhands''),
      (CaptureProvider_Cline, ''cline''), (CaptureProvider_RooCode, ''roo_code''),
      (CaptureProvider_Crush, ''crush''), (CaptureProvider_Goose, ''goose''),
      (CaptureProvider_Lingma, ''lingma''), (CaptureProvider_Qoder, ''qoder''),
      (CaptureProvider_Warp, ''warp''), (CaptureProvider_CodeBuddy, ''codebuddy''),
      (CaptureProvider_Trae, ''trae''), (CaptureProvider_Shell, ''shell''),
      (CaptureProvider_Git, ''git''), (CaptureProvider_Jj, ''jj''),
      (CaptureProvider_Gh, ''gh''), (CaptureProvider_Custom, ''custom''),
      (CaptureProvider_Unknown, ''unknown''), (CaptureProvider_MiMoCode, ''mimocode'')]"

definition capture_provider_default :: capture_provider where
  "capture_provider_default = CaptureProvider_Unknown"

datatype visibility =
    Visibility_LocalOnly | Visibility_Reportable | Visibility_SyncMetadata | Visibility_SyncFull
    | Visibility_Withheld

definition visibility_table :: "(visibility \<times> string) list" where
  "visibility_table =
     [(Visibility_LocalOnly, ''local_only''), (Visibility_Reportable, ''reportable''),
      (Visibility_SyncMetadata, ''sync_metadata''), (Visibility_SyncFull, ''sync_full''),
      (Visibility_Withheld, ''withheld'')]"

definition visibility_default :: visibility where
  "visibility_default = Visibility_LocalOnly"

datatype fidelity =
    Fidelity_Full | Fidelity_Partial | Fidelity_Imported | Fidelity_Inferred |
    Fidelity_SummaryOnly

definition fidelity_table :: "(fidelity \<times> string) list" where
  "fidelity_table =
     [(Fidelity_Full, ''full''), (Fidelity_Partial, ''partial''),
      (Fidelity_Imported, ''imported''), (Fidelity_Inferred, ''inferred''),
      (Fidelity_SummaryOnly, ''summary_only'')]"

definition fidelity_default :: fidelity where
  "fidelity_default = Fidelity_Partial"

datatype sync_state =
    SyncState_LocalOnly | SyncState_Pending | SyncState_Synced | SyncState_Failed |
    SyncState_Withheld

definition sync_state_table :: "(sync_state \<times> string) list" where
  "sync_state_table =
     [(SyncState_LocalOnly, ''local_only''), (SyncState_Pending, ''pending''),
      (SyncState_Synced, ''synced''), (SyncState_Failed, ''failed''),
      (SyncState_Withheld, ''withheld'')]"

definition sync_state_default :: sync_state where
  "sync_state_default = SyncState_LocalOnly"

datatype confidence =
    Confidence_Explicit | Confidence_High | Confidence_Medium | Confidence_Low |
    Confidence_Unknown

definition confidence_table :: "(confidence \<times> string) list" where
  "confidence_table =
     [(Confidence_Explicit, ''explicit''), (Confidence_High, ''high''),
      (Confidence_Medium, ''medium''), (Confidence_Low, ''low''),
      (Confidence_Unknown, ''unknown'')]"

definition confidence_default :: confidence where
  "confidence_default = Confidence_Unknown"

datatype agent_type =
    AgentType_Primary | AgentType_Subagent | AgentType_AgentTeamMember | AgentType_Reviewer |
    AgentType_Implementer | AgentType_Unknown

definition agent_type_table :: "(agent_type \<times> string) list" where
  "agent_type_table =
     [(AgentType_Primary, ''primary''), (AgentType_Subagent, ''subagent''),
      (AgentType_AgentTeamMember, ''agent_team_member''), (AgentType_Reviewer, ''reviewer''),
      (AgentType_Implementer, ''implementer''), (AgentType_Unknown, ''unknown'')]"

definition agent_type_default :: agent_type where
  "agent_type_default = AgentType_Unknown"

datatype session_status =
    SessionStatus_Started | SessionStatus_Active | SessionStatus_Idle | SessionStatus_Completed
    | SessionStatus_Failed | SessionStatus_Interrupted | SessionStatus_Imported

definition session_status_table :: "(session_status \<times> string) list" where
  "session_status_table =
     [(SessionStatus_Started, ''started''), (SessionStatus_Active, ''active''),
      (SessionStatus_Idle, ''idle''), (SessionStatus_Completed, ''completed''),
      (SessionStatus_Failed, ''failed''), (SessionStatus_Interrupted, ''interrupted''),
      (SessionStatus_Imported, ''imported'')]"

definition session_status_default :: session_status where
  "session_status_default = SessionStatus_Started"

datatype session_edge_type =
    SessionEdgeType_ParentChild | SessionEdgeType_Delegated | SessionEdgeType_Reviewed |
    SessionEdgeType_Spawned | SessionEdgeType_ResumedFrom | SessionEdgeType_ImportedRelated

definition session_edge_type_table :: "(session_edge_type \<times> string) list" where
  "session_edge_type_table =
     [(SessionEdgeType_ParentChild, ''parent_child''),
      (SessionEdgeType_Delegated, ''delegated''), (SessionEdgeType_Reviewed, ''reviewed''),
      (SessionEdgeType_Spawned, ''spawned''), (SessionEdgeType_ResumedFrom, ''resumed_from''),
      (SessionEdgeType_ImportedRelated, ''imported_related'')]"

definition session_edge_type_default :: session_edge_type where
  "session_edge_type_default = SessionEdgeType_ImportedRelated"

datatype run_type =
    RunType_AgentTurn | RunType_Command | RunType_ToolCall | RunType_Review | RunType_Import |
    RunType_Summary

definition run_type_table :: "(run_type \<times> string) list" where
  "run_type_table =
     [(RunType_AgentTurn, ''agent_turn''), (RunType_Command, ''command''),
      (RunType_ToolCall, ''tool_call''), (RunType_Review, ''review''),
      (RunType_Import, ''import''), (RunType_Summary, ''summary'')]"

definition run_type_default :: run_type where
  "run_type_default = RunType_Command"

datatype run_status =
    RunStatus_Queued | RunStatus_Running | RunStatus_Succeeded | RunStatus_Failed |
    RunStatus_Cancelled | RunStatus_Partial

definition run_status_table :: "(run_status \<times> string) list" where
  "run_status_table =
     [(RunStatus_Queued, ''queued''), (RunStatus_Running, ''running''),
      (RunStatus_Succeeded, ''succeeded''), (RunStatus_Failed, ''failed''),
      (RunStatus_Cancelled, ''cancelled''), (RunStatus_Partial, ''partial'')]"

definition run_status_default :: run_status where
  "run_status_default = RunStatus_Queued"

datatype event_type =
    EventType_Message | EventType_ToolCall | EventType_ToolOutput | EventType_CommandStarted |
    EventType_CommandOutput | EventType_CommandFinished | EventType_FileTouched |
    EventType_VcsChange | EventType_Artifact | EventType_Summary | EventType_Notice

definition event_type_table :: "(event_type \<times> string) list" where
  "event_type_table =
     [(EventType_Message, ''message''), (EventType_ToolCall, ''tool_call''),
      (EventType_ToolOutput, ''tool_output''), (EventType_CommandStarted, ''command_started''),
      (EventType_CommandOutput, ''command_output''),
      (EventType_CommandFinished, ''command_finished''),
      (EventType_FileTouched, ''file_touched''), (EventType_VcsChange, ''vcs_change''),
      (EventType_Artifact, ''artifact''), (EventType_Summary, ''summary''),
      (EventType_Notice, ''notice'')]"

definition event_type_default :: event_type where
  "event_type_default = EventType_Notice"

datatype event_role =
    EventRole_User | EventRole_Assistant | EventRole_System | EventRole_Tool | EventRole_Unknown

definition event_role_table :: "(event_role \<times> string) list" where
  "event_role_table =
     [(EventRole_User, ''user''), (EventRole_Assistant, ''assistant''),
      (EventRole_System, ''system''), (EventRole_Tool, ''tool''),
      (EventRole_Unknown, ''unknown'')]"

definition event_role_default :: event_role where
  "event_role_default = EventRole_Unknown"

datatype vcs_kind =
    VcsKind_Git | VcsKind_Jj

definition vcs_kind_table :: "(vcs_kind \<times> string) list" where
  "vcs_kind_table =
     [(VcsKind_Git, ''git''), (VcsKind_Jj, ''jj'')]"

definition vcs_kind_default :: vcs_kind where
  "vcs_kind_default = VcsKind_Git"

datatype vcs_host =
    VcsHost_Github | VcsHost_Gitlab | VcsHost_Bitbucket | VcsHost_Local | VcsHost_Unknown

definition vcs_host_table :: "(vcs_host \<times> string) list" where
  "vcs_host_table =
     [(VcsHost_Github, ''github''), (VcsHost_Gitlab, ''gitlab''),
      (VcsHost_Bitbucket, ''bitbucket''), (VcsHost_Local, ''local''),
      (VcsHost_Unknown, ''unknown'')]"

definition vcs_host_default :: vcs_host where
  "vcs_host_default = VcsHost_Unknown"

datatype vcs_change_kind =
    VcsChangeKind_GitCommit | VcsChangeKind_GitBranch | VcsChangeKind_GitWorktree |
    VcsChangeKind_JjChange | VcsChangeKind_JjBookmark | VcsChangeKind_Patch |
    VcsChangeKind_WorkingCopy

definition vcs_change_kind_table :: "(vcs_change_kind \<times> string) list" where
  "vcs_change_kind_table =
     [(VcsChangeKind_GitCommit, ''git_commit''), (VcsChangeKind_GitBranch, ''git_branch''),
      (VcsChangeKind_GitWorktree, ''git_worktree''), (VcsChangeKind_JjChange, ''jj_change''),
      (VcsChangeKind_JjBookmark, ''jj_bookmark''), (VcsChangeKind_Patch, ''patch''),
      (VcsChangeKind_WorkingCopy, ''working_copy'')]"

definition vcs_change_kind_default :: vcs_change_kind where
  "vcs_change_kind_default = VcsChangeKind_WorkingCopy"

datatype artifact_kind =
    ArtifactKind_Transcript | ArtifactKind_Stdout | ArtifactKind_Stderr |
    ArtifactKind_Screenshot | ArtifactKind_Report | ArtifactKind_Diff |
    ArtifactKind_FileSnapshot | ArtifactKind_Json | ArtifactKind_Markdown | ArtifactKind_Binary

definition artifact_kind_table :: "(artifact_kind \<times> string) list" where
  "artifact_kind_table =
     [(ArtifactKind_Transcript, ''transcript''), (ArtifactKind_Stdout, ''stdout''),
      (ArtifactKind_Stderr, ''stderr''), (ArtifactKind_Screenshot, ''screenshot''),
      (ArtifactKind_Report, ''report''), (ArtifactKind_Diff, ''diff''),
      (ArtifactKind_FileSnapshot, ''file_snapshot''), (ArtifactKind_Json, ''json''),
      (ArtifactKind_Markdown, ''markdown''), (ArtifactKind_Binary, ''binary'')]"

definition artifact_kind_default :: artifact_kind where
  "artifact_kind_default = ArtifactKind_Binary"

datatype summary_kind =
    SummaryKind_ImportedProviderSummary | SummaryKind_CtxGenerated | SummaryKind_AgentSupplied |
    SummaryKind_HumanNote

definition summary_kind_table :: "(summary_kind \<times> string) list" where
  "summary_kind_table =
     [(SummaryKind_ImportedProviderSummary, ''imported_provider_summary''),
      (SummaryKind_CtxGenerated, ''ctx_generated''),
      (SummaryKind_AgentSupplied, ''agent_supplied''), (SummaryKind_HumanNote, ''human_note'')]"

definition summary_kind_default :: summary_kind where
  "summary_kind_default = SummaryKind_HumanNote"

datatype file_change_kind =
    FileChangeKind_Read | FileChangeKind_Created | FileChangeKind_Modified |
    FileChangeKind_Deleted | FileChangeKind_Renamed | FileChangeKind_Unknown

definition file_change_kind_table :: "(file_change_kind \<times> string) list" where
  "file_change_kind_table =
     [(FileChangeKind_Read, ''read''), (FileChangeKind_Created, ''created''),
      (FileChangeKind_Modified, ''modified''), (FileChangeKind_Deleted, ''deleted''),
      (FileChangeKind_Renamed, ''renamed''), (FileChangeKind_Unknown, ''unknown'')]"

definition file_change_kind_default :: file_change_kind where
  "file_change_kind_default = FileChangeKind_Unknown"

section \<open>Every table is a text enumeration\<close>

interpretation capture_source_kind_text: text_enum capture_source_kind_table "''CaptureSourceKind''"
  by unfold_locales (subst capture_source_kind_table_def, (case_tac v; simp), simp_all add: capture_source_kind_table_def)

interpretation capture_provider_text: key_enum capture_provider_table "''CaptureProvider''"
  by unfold_locales (subst capture_provider_table_def, (case_tac v; simp), simp_all add: capture_provider_table_def)

interpretation visibility_text: text_enum visibility_table "''Visibility''"
  by unfold_locales (subst visibility_table_def, (case_tac v; simp), simp_all add: visibility_table_def)

interpretation fidelity_text: text_enum fidelity_table "''Fidelity''"
  by unfold_locales (subst fidelity_table_def, (case_tac v; simp), simp_all add: fidelity_table_def)

interpretation sync_state_text: text_enum sync_state_table "''SyncState''"
  by unfold_locales (subst sync_state_table_def, (case_tac v; simp), simp_all add: sync_state_table_def)

interpretation confidence_text: text_enum confidence_table "''Confidence''"
  by unfold_locales (subst confidence_table_def, (case_tac v; simp), simp_all add: confidence_table_def)

interpretation agent_type_text: text_enum agent_type_table "''AgentType''"
  by unfold_locales (subst agent_type_table_def, (case_tac v; simp), simp_all add: agent_type_table_def)

interpretation session_status_text: text_enum session_status_table "''SessionStatus''"
  by unfold_locales (subst session_status_table_def, (case_tac v; simp), simp_all add: session_status_table_def)

interpretation session_edge_type_text: text_enum session_edge_type_table "''SessionEdgeType''"
  by unfold_locales (subst session_edge_type_table_def, (case_tac v; simp), simp_all add: session_edge_type_table_def)

interpretation run_type_text: text_enum run_type_table "''RunType''"
  by unfold_locales (subst run_type_table_def, (case_tac v; simp), simp_all add: run_type_table_def)

interpretation run_status_text: text_enum run_status_table "''RunStatus''"
  by unfold_locales (subst run_status_table_def, (case_tac v; simp), simp_all add: run_status_table_def)

interpretation event_type_text: text_enum event_type_table "''EventType''"
  by unfold_locales (subst event_type_table_def, (case_tac v; simp), simp_all add: event_type_table_def)

interpretation event_role_text: text_enum event_role_table "''EventRole''"
  by unfold_locales (subst event_role_table_def, (case_tac v; simp), simp_all add: event_role_table_def)

interpretation vcs_kind_text: text_enum vcs_kind_table "''VcsKind''"
  by unfold_locales (subst vcs_kind_table_def, (case_tac v; simp), simp_all add: vcs_kind_table_def)

interpretation vcs_host_text: text_enum vcs_host_table "''VcsHost''"
  by unfold_locales (subst vcs_host_table_def, (case_tac v; simp), simp_all add: vcs_host_table_def)

interpretation vcs_change_kind_text: text_enum vcs_change_kind_table "''VcsChangeKind''"
  by unfold_locales (subst vcs_change_kind_table_def, (case_tac v; simp), simp_all add: vcs_change_kind_table_def)

interpretation artifact_kind_text: text_enum artifact_kind_table "''ArtifactKind''"
  by unfold_locales (subst artifact_kind_table_def, (case_tac v; simp), simp_all add: artifact_kind_table_def)

interpretation summary_kind_text: text_enum summary_kind_table "''SummaryKind''"
  by unfold_locales (subst summary_kind_table_def, (case_tac v; simp), simp_all add: summary_kind_table_def)

interpretation file_change_kind_text: text_enum file_change_kind_table "''FileChangeKind''"
  by unfold_locales (subst file_change_kind_table_def, (case_tac v; simp), simp_all add: file_change_kind_table_def)

end
