(* ===== verification/Core_Types.thy ===== *)
theory Core_Types
  imports Text_Enums
begin

text \<open>
  The data of the history store and of the provider import: the structs of \<open>ctx-history-core\<close>
  (\<open>dtos.rs\<close>, \<open>source.rs\<close>, \<open>sync.rs\<close>, \<open>provider.rs\<close>) and of the importer's interface
  (\<open>adapter.rs\<close>, \<open>summaries.rs\<close> of \<open>ctx-history-capture\<close>) as records, field for field in the
  source's order. A field is written with a prefix for its struct, since selectors are global.
  The last section collects the third-party functions the code calls in one record; every
  definition that needs one of them takes the record as its argument \<open>X\<close>.
\<close>

section \<open>Store entities\<close>

record sync_metadata =
  sm_visibility :: visibility
  sm_fidelity :: fidelity
  sm_sync_state :: sync_state
  sm_sync_version :: u64
  sm_deleted_at :: "datetime option"
  sm_metadata :: json

record entity_timestamps =
  et_created_at :: datetime
  et_updated_at :: datetime

record capture_source_descriptor =
  csd_kind :: capture_source_kind
  csd_provider :: capture_provider
  csd_machine_id :: string
  csd_process_id :: "u32 option"
  csd_cwd :: "string option"
  csd_raw_source_path :: "string option"
  csd_source_format :: "string option"
  csd_source_root :: "string option"
  csd_source_identity :: "string option"
  csd_external_session_id :: "string option"

record capture_source =
  cs_id :: uuid
  cs_descriptor :: capture_source_descriptor
  cs_started_at :: datetime
  cs_ended_at :: "datetime option"
  cs_sync :: sync_metadata

record session =
  se_id :: uuid
  se_history_record_id :: "uuid option"
  se_parent_session_id :: "uuid option"
  se_root_session_id :: "uuid option"
  se_capture_source_id :: "uuid option"
  se_provider :: capture_provider
  se_external_session_id :: "string option"
  se_external_agent_id :: "string option"
  se_agent_type :: agent_type
  se_role_hint :: "string option"
  se_is_primary :: bool
  se_status :: session_status
  se_transcript_blob_id :: "uuid option"
  se_started_at :: datetime
  se_ended_at :: "datetime option"
  se_timestamps :: entity_timestamps
  se_sync :: sync_metadata

record session_edge =
  sg_id :: uuid
  sg_from_session_id :: uuid
  sg_to_session_id :: uuid
  sg_edge_type :: session_edge_type
  sg_confidence :: confidence
  sg_source_id :: "uuid option"
  sg_timestamps :: entity_timestamps
  sg_sync :: sync_metadata

record run =
  rn_id :: uuid
  rn_history_record_id :: "uuid option"
  rn_session_id :: "uuid option"
  rn_run_type :: run_type
  rn_status :: run_status
  rn_started_at :: datetime
  rn_ended_at :: "datetime option"
  rn_exit_code :: "int option"
  rn_cwd :: "string option"
  rn_command_preview :: "string option"
  rn_input_blob_id :: "uuid option"
  rn_output_blob_id :: "uuid option"
  rn_timestamps :: entity_timestamps
  rn_source_id :: "uuid option"
  rn_sync :: sync_metadata

record event =
  ev_id :: uuid
  ev_seq :: u64
  ev_history_record_id :: "uuid option"
  ev_session_id :: "uuid option"
  ev_run_id :: "uuid option"
  ev_event_type :: event_type
  ev_role :: "event_role option"
  ev_occurred_at :: datetime
  ev_capture_source_id :: "uuid option"
  ev_payload :: json
  ev_payload_blob_id :: "uuid option"
  ev_dedupe_key :: "string option"
  ev_sync :: sync_metadata

record file_touched =
  ft_id :: uuid
  ft_history_record_id :: "uuid option"
  ft_run_id :: "uuid option"
  ft_event_id :: "uuid option"
  ft_vcs_workspace_id :: "uuid option"
  ft_path :: string
  ft_change_kind :: "file_change_kind option"
  ft_old_path :: "string option"
  ft_line_count_delta :: "int option"
  ft_confidence :: confidence
  ft_timestamps :: entity_timestamps
  ft_source_id :: "uuid option"
  ft_sync :: sync_metadata

record sync_cursor =
  sc_id :: uuid
  sc_team_id :: "string option"
  sc_device_id :: string
  sc_stream :: string
  sc_cursor :: string
  sc_last_synced_at :: "datetime option"
  sc_timestamps :: entity_timestamps

text \<open>\<open>SyncMetadata::default\<close> and its empty JSON object.\<close>

definition default_metadata :: json where
  "default_metadata = JObj []"

definition default_sync_metadata :: sync_metadata where
  "default_sync_metadata =
     \<lparr>sm_visibility = visibility_default, sm_fidelity = fidelity_default,
      sm_sync_state = sync_state_default, sm_sync_version = 0, sm_deleted_at = None,
      sm_metadata = default_metadata\<rparr>"

section \<open>Provider envelopes\<close>

datatype provider_source_trust =
  ProviderNative | ProviderExport | WrapperObserved | TrustFixture | Synthetic | TrustUnknown

text \<open>The serialised names (\<open>rename_all = "snake_case"\<close>).\<close>

fun trust_text :: "provider_source_trust \<Rightarrow> string" where
  "trust_text ProviderNative = ''provider_native''"
| "trust_text ProviderExport = ''provider_export''"
| "trust_text WrapperObserved = ''wrapper_observed''"
| "trust_text TrustFixture = ''fixture''"
| "trust_text Synthetic = ''synthetic''"
| "trust_text TrustUnknown = ''unknown''"

definition PROVIDER_CAPTURE_ENVELOPE_SCHEMA_VERSION :: u32 where
  "PROVIDER_CAPTURE_ENVELOPE_SCHEMA_VERSION = 2"

definition PROVIDER_CAPTURE_ENVELOPE_MIN_SUPPORTED_SCHEMA_VERSION :: u32 where
  "PROVIDER_CAPTURE_ENVELOPE_MIN_SUPPORTED_SCHEMA_VERSION = 1"

record provider_cursor_checkpoint =
  pcc_stream :: string
  pcc_cursor :: string
  pcc_observed_at :: datetime

record provider_cursor_range =
  pcr_before :: "provider_cursor_checkpoint option"
  pcr_after :: "provider_cursor_checkpoint option"

record provider_artifact_descriptor =
  pad_provider_artifact_id :: string
  pad_kind :: artifact_kind
  pad_media_type :: "string option"
  pad_source_path :: "string option"
  pad_preview_text :: "string option"
  pad_byte_size :: "u64 option"
  pad_metadata :: json

record provider_source_envelope =
  pso_source_format :: string
  pso_machine_id :: string
  pso_observed_at :: datetime
  pso_raw_source_path :: "string option"
  pso_source_root :: "string option"
  pso_trust :: provider_source_trust
  pso_fidelity :: fidelity
  pso_cursor :: "provider_cursor_range option"
  pso_idempotency_key :: "string option"
  pso_metadata :: json

record provider_session_envelope =
  pse_provider_session_id :: string
  pse_parent_provider_session_id :: "string option"
  pse_root_provider_session_id :: "string option"
  pse_external_agent_id :: "string option"
  pse_agent_type :: agent_type
  pse_role_hint :: "string option"
  pse_is_primary :: bool
  pse_status :: session_status
  pse_started_at :: datetime
  pse_ended_at :: "datetime option"
  pse_cwd :: "string option"
  pse_fidelity :: fidelity
  pse_idempotency_key :: "string option"
  pse_artifacts :: "provider_artifact_descriptor list"
  pse_metadata :: json

record provider_event_envelope =
  pev_provider_event_index :: u64
  pev_provider_event_hash :: "string option"
  pev_cursor :: "string option"
  pev_event_type :: event_type
  pev_role :: "event_role option"
  pev_occurred_at :: datetime
  pev_fidelity :: fidelity
  pev_idempotency_key :: "string option"
  pev_artifacts :: "provider_artifact_descriptor list"
  pev_payload :: json
  pev_metadata :: json

record provider_capture_envelope =
  pce_schema_version :: u32
  pce_provider :: capture_provider
  pce_source :: provider_source_envelope
  pce_session :: provider_session_envelope
  pce_event :: "provider_event_envelope option"

record provider_file_touched_envelope =
  pft_provider :: capture_provider
  pft_provider_session_id :: string
  pft_provider_touch_index :: u64
  pft_provider_event_index :: "u64 option"
  pft_raw_source_path :: "string option"
  pft_source_root :: "string option"
  pft_path :: string
  pft_change_kind :: "file_change_kind option"
  pft_old_path :: "string option"
  pft_line_count_delta :: "int option"
  pft_confidence :: confidence
  pft_occurred_at :: datetime
  pft_source_format :: string
  pft_metadata :: json

section \<open>The importer's options and summary\<close>

record normalized_provider_import_options =
  opt_history_record_id :: "uuid option"
  opt_persist_cursors :: bool
  opt_wrap_transaction :: bool
  opt_fast_event_inserts :: bool

record provider_import_failure =
  pif_line :: nat
  pif_error :: string

record provider_import_summary =
  pis_imported :: nat
  pis_skipped :: nat
  pis_failed :: nat
  pis_imported_sessions :: nat
  pis_skipped_sessions :: nat
  pis_imported_events :: nat
  pis_skipped_events :: nat
  pis_imported_edges :: nat
  pis_skipped_edges :: nat
  pis_accepted_content_records :: nat
  pis_failures :: "provider_import_failure list"

definition empty_summary :: provider_import_summary where
  "empty_summary =
     \<lparr>pis_imported = 0, pis_skipped = 0, pis_failed = 0, pis_imported_sessions = 0,
      pis_skipped_sessions = 0, pis_imported_events = 0, pis_skipped_events = 0,
      pis_imported_edges = 0, pis_skipped_edges = 0, pis_accepted_content_records = 0,
      pis_failures = []\<rparr>"

definition has_accepted_content :: "provider_import_summary \<Rightarrow> bool" where
  "has_accepted_content s \<longleftrightarrow>
     pis_accepted_content_records s > 0 \<or> pis_imported_events s > 0 \<or> pis_imported_edges s > 0"

definition merge_from :: "provider_import_summary \<Rightarrow> provider_import_summary \<Rightarrow> provider_import_summary" where
  "merge_from a b =
     \<lparr>pis_imported = pis_imported a + pis_imported b,
      pis_skipped = pis_skipped a + pis_skipped b,
      pis_failed = pis_failed a + pis_failed b,
      pis_imported_sessions = pis_imported_sessions a + pis_imported_sessions b,
      pis_skipped_sessions = pis_skipped_sessions a + pis_skipped_sessions b,
      pis_imported_events = pis_imported_events a + pis_imported_events b,
      pis_skipped_events = pis_skipped_events a + pis_skipped_events b,
      pis_imported_edges = pis_imported_edges a + pis_imported_edges b,
      pis_skipped_edges = pis_skipped_edges a + pis_skipped_edges b,
      pis_accepted_content_records =
        pis_accepted_content_records a + pis_accepted_content_records b,
      pis_failures = pis_failures a @ pis_failures b\<rparr>"

lemma merge_from_assoc: "merge_from (merge_from a b) c = merge_from a (merge_from b c)"
  by (simp add: merge_from_def)

lemma merge_from_empty [simp]: "merge_from a empty_summary = a" "merge_from empty_summary a = a"
  by (simp_all add: merge_from_def empty_summary_def)

lemma has_accepted_content_merge:
  "has_accepted_content (merge_from a b) \<longleftrightarrow> has_accepted_content a \<or> has_accepted_content b"
  by (auto simp: has_accepted_content_def merge_from_def)

section \<open>Third-party functions\<close>

text \<open>
  What the code calls outside the repository, as the fields of a record: the text of a
  \<open>Uuid\<close> (hyphenated, and the \<open>simple\<close> form), \<open>serde_json::to_string\<close> of a value and of a
  tuple of (optional) strings, the serialised text of a time, and \<open>checked_sub_signed\<close> by
  \<open>Duration::try_milliseconds\<close> of \<open>chrono\<close>. \<open>externals_ok\<close> is what the code relies on: a
  \<open>Uuid\<close> is printed as a nonempty text without a colon, and different ones, or different
  tuples, get different texts.
\<close>

record externals =
  uuid_text :: "uuid \<Rightarrow> string"
  uuid_simple :: "uuid \<Rightarrow> string"
  json_text :: "json \<Rightarrow> string option"
  tuple_text :: "string option list \<Rightarrow> string"
  time_text :: "datetime \<Rightarrow> string"
  checked_sub_millis :: "datetime \<Rightarrow> int \<Rightarrow> datetime option"

definition externals_ok :: "externals \<Rightarrow> bool" where
  "externals_ok X \<longleftrightarrow>
     inj (uuid_text X) \<and> inj (tuple_text X)
     \<and> (\<forall>u. uuid_text X u \<noteq> [] \<and> CHR '':'' \<notin> set (uuid_text X u))"

lemma uuid_text_eq_iff: "externals_ok X \<Longrightarrow> uuid_text X a = uuid_text X b \<longleftrightarrow> a = b"
  by (auto simp: externals_ok_def inj_eq)

lemma uuid_text_plain:
  "externals_ok X \<Longrightarrow> uuid_text X u \<noteq> []"
  "externals_ok X \<Longrightarrow> CHR '':'' \<notin> set (uuid_text X u)"
  by (auto simp: externals_ok_def)

text \<open>A concrete record for the witnesses: identifiers in hexadecimal, tuples joined with
  length prefixes.\<close>

definition hex_digit :: "nat \<Rightarrow> char" where
  "hex_digit d = char_of (if d < 10 then 48 + d else 87 + d)"

definition hex_byte :: "u8 \<Rightarrow> string" where
  "hex_byte b = [hex_digit (unat b div 16), hex_digit (unat b mod 16)]"

fun demo_part :: "string option \<Rightarrow> string" where
  "demo_part None = ''n''"
| "demo_part (Some s) = dec (length s) @ '':'' @ s"

definition demo_externals :: externals where
  "demo_externals =
     \<lparr>uuid_text = (\<lambda>u. ''u'' @ concat (map hex_byte (octets u))),
      uuid_simple = (\<lambda>u. concat (map hex_byte (octets u))),
      json_text = (\<lambda>v. case v of JStr s \<Rightarrow> Some s | _ \<Rightarrow> Some ''{}''),
      tuple_text = (\<lambda>ps. concat (map demo_part ps)),
      time_text = (\<lambda>t. dec (nat t)),
      checked_sub_millis = (\<lambda>t d. Some (t - d * 1000000))\<rparr>"

lemma of_char_hex_digit:
  "d < 16 \<Longrightarrow> (of_char (hex_digit d) :: nat) = (if d < 10 then 48 + d else 87 + d)"
  by (simp add: hex_digit_def take_bit_eq_mod)

lemma hex_digit_inj:
  assumes "a < 16" "b < 16" "hex_digit a = hex_digit b"
  shows "a = b"
proof -
  have "(of_char (hex_digit a) :: nat) = of_char (hex_digit b)" using assms(3) by simp
  then show ?thesis using assms(1,2) by (auto simp: of_char_hex_digit split: if_splits)
qed

lemma unat_u8_less: "unat (b :: u8) < 256"
  by (rule order_less_le_trans, rule unsigned_less) simp

lemma hex_byte_inj: "hex_byte a = hex_byte b \<Longrightarrow> a = b"
proof -
  assume "hex_byte a = hex_byte b"
  then have "unat a div 16 = unat b div 16" "unat a mod 16 = unat b mod 16"
    using unat_u8_less [of a] unat_u8_less [of b]
    by (auto simp: hex_byte_def dest!: hex_digit_inj [rotated 2])
  then have "unat a = unat b" by (metis div_mult_mod_eq)
  then show ?thesis by (simp add: word_unat_eq_iff)
qed

lemma hex_digit_no_colon: "d < 16 \<Longrightarrow> hex_digit d \<noteq> CHR '':''"
proof
  assume "d < 16" "hex_digit d = CHR '':''"
  then have "(of_char (hex_digit d) :: nat) = 58" by simp
  with \<open>d < 16\<close> show False by (auto simp: of_char_hex_digit split: if_splits)
qed

lemma hex_byte_no_colon: "CHR '':'' \<notin> set (hex_byte b)"
proof -
  have "unat b div 16 < 16" "unat b mod 16 < 16" using unat_u8_less [of b] by auto
  then have "hex_digit (unat b div 16) \<noteq> CHR '':''" "hex_digit (unat b mod 16) \<noteq> CHR '':''"
    by (simp_all add: hex_digit_no_colon)
  then show ?thesis unfolding hex_byte_def by (auto dest: sym)
qed

lemma concat_hex_inj: "concat (map hex_byte xs) = concat (map hex_byte ys) \<Longrightarrow> xs = ys"
proof (induction xs arbitrary: ys)
  case Nil
  then show ?case by (cases ys) (auto simp: hex_byte_def)
next
  case (Cons x xs)
  then obtain y zs where ys: "ys = y # zs" by (cases ys) (auto simp: hex_byte_def)
  have "length (hex_byte x) = length (hex_byte y)" by (simp add: hex_byte_def)
  with Cons.prems ys
  have "hex_byte x = hex_byte y" and "concat (map hex_byte xs) = concat (map hex_byte zs)"
    by simp_all
  then show ?case using Cons.IH ys by (auto dest: hex_byte_inj)
qed

lemma demo_part_prefix: "demo_part a @ r = demo_part b @ s \<Longrightarrow> a = b \<and> r = s"
proof -
  assume eq: "demo_part a @ r = demo_part b @ s"
  have nd: "CHR ''n'' \<notin> set (dec k)" for k by (rule dec_not_char) (simp add: is_digit_def)
  have hd_dec: "\<exists>d ds. dec k = d # ds \<and> d \<noteq> CHR ''n''" for k
    using nd [of k] by (cases "dec k") auto
  show ?thesis
  proof (cases a; cases b)
    fix x y
    assume ab: "a = Some x" "b = Some y"
    with eq have "split_once CHR '':'' (dec (length x) @ CHR '':'' # (x @ r))
        = split_once CHR '':'' (dec (length y) @ CHR '':'' # (y @ s))" by simp
    then have "dec (length x) = dec (length y)" "x @ r = y @ s"
      by (simp_all add: split_once_join del: append_assoc)
    then show ?thesis using ab by (auto dest: dec_inj)
  next
    fix y
    assume "a = None" "b = Some y"
    with eq hd_dec [of "length y"] show ?thesis by auto
  next
    fix x
    assume "a = Some x" "b = None"
    with eq hd_dec [of "length x"] show ?thesis by auto
  qed (use eq in auto)
qed

lemma demo_part_nonempty: "demo_part a \<noteq> []"
  by (cases a) auto

lemma concat_demo_inj: "concat (map demo_part xs) = concat (map demo_part ys) \<Longrightarrow> xs = ys"
proof (induction xs arbitrary: ys)
  case Nil
  then show ?case by (cases ys) (auto simp: demo_part_nonempty)
next
  case (Cons x xs)
  then obtain y zs where ys: "ys = y # zs" by (cases ys) (auto simp: demo_part_nonempty)
  with Cons.prems have "x = y \<and> concat (map demo_part xs) = concat (map demo_part zs)"
    by (intro demo_part_prefix) simp
  then show ?case using Cons.IH ys by auto
qed

lemma demo_externals_ok: "externals_ok demo_externals"
proof -
  have "inj (uuid_text demo_externals)"
    by (rule injI) (auto simp: demo_externals_def dest: concat_hex_inj intro: uuid.expand)
  moreover have "inj (tuple_text demo_externals)"
    by (rule injI) (auto simp: demo_externals_def dest: concat_demo_inj)
  ultimately show ?thesis
    by (auto simp: externals_ok_def demo_externals_def hex_byte_no_colon)
qed

end
