(* ===== verification/Stable_Ids.thy ===== *)
theory Stable_Ids
  imports Core_Types
begin

text \<open>
  The deterministic identifiers of the provider import: \<open>common/identity.rs\<close> (the FNV-1a hash,
  the stable UUID, the payload hash, file name sanitising) and \<open>provider/importer/ids.rs\<close> (the
  keys the identifiers are derived from, and the sequence numbers). The lemmas say that the
  hash step loses nothing, that a sequence number fits a non-negative SQLite integer and
  determines the event index it was made from, and that the keys keep their components apart.
\<close>

section \<open>The FNV-1a hash\<close>

definition str_bytes :: "string \<Rightarrow> u8 list" where
  "str_bytes s = map of_char s"

definition fnv_step :: "u64 \<Rightarrow> u8 \<Rightarrow> u64" where
  "fnv_step hash byte = (hash XOR ucast byte) * 0x00000100000001b3"

definition fnv1a64 :: "u8 list \<Rightarrow> u64" where
  "fnv1a64 bytes = foldl fnv_step 0xcbf29ce484222325 bytes"

lemma fnv1a64_append: "fnv1a64 (xs @ ys) = foldl fnv_step (fnv1a64 xs) ys"
  by (simp add: fnv1a64_def)

text \<open>The multiplier is odd; this is its inverse.\<close>

lemma fnv_prime_inverse: "(0x00000100000001b3 :: u64) * 0xce965057aff6957b = 1"
  by simp

lemma fnv_mult_inj: "(x :: u64) * 0x00000100000001b3 = y * 0x00000100000001b3 \<Longrightarrow> x = y"
proof -
  assume eq: "x * 0x00000100000001b3 = y * 0x00000100000001b3"
  have "x * (0x00000100000001b3 * 0xce965057aff6957b) = y * (0x00000100000001b3 * 0xce965057aff6957b)"
    using arg_cong [OF eq, of "\<lambda>z. z * 0xce965057aff6957b"] by (simp only: mult.assoc)
  then show "x = y" by (simp only: fnv_prime_inverse mult_1_right)
qed

lemma xor_cancel_left: "(x :: u64) XOR y = x XOR z \<Longrightarrow> y = z"
proof -
  assume "x XOR y = x XOR z"
  then have "(x XOR x) XOR y = (x XOR x) XOR z" by (simp only: xor.assoc)
  then show "y = z" by simp
qed

lemma xor_cancel_right: "(y :: u64) XOR x = z XOR x \<Longrightarrow> y = z"
  by (rule xor_cancel_left [of x]) (simp only: xor.commute)

lemma ucast_u8_inj: "(ucast (a :: u8) :: u64) = ucast b \<Longrightarrow> a = b"
proof -
  assume "(ucast a :: u64) = ucast b"
  then have "uint (ucast a :: u64) = uint (ucast b :: u64)" by simp
  moreover have "uint (ucast c :: u64) = uint c" for c :: u8
    by (rule uint_up_ucast) (simp add: is_up)
  ultimately show "a = b" by (simp add: word_uint_eq_iff)
qed

lemma fnv_step_inj_byte: "fnv_step h a = fnv_step h b \<Longrightarrow> a = b"
  unfolding fnv_step_def by (drule fnv_mult_inj, drule xor_cancel_left, erule ucast_u8_inj)

lemma fnv_step_inj_hash: "fnv_step g a = fnv_step h a \<Longrightarrow> g = h"
  unfolding fnv_step_def by (drule fnv_mult_inj, erule xor_cancel_right)

lemma foldl_fnv_inj: "foldl fnv_step g xs = foldl fnv_step h xs \<Longrightarrow> g = h"
  by (induction xs arbitrary: g h) (auto dest: fnv_step_inj_hash)

text \<open>A common suffix neither creates nor hides a collision.\<close>

lemma fnv1a64_suffix: "fnv1a64 (xs @ zs) = fnv1a64 (ys @ zs) \<longleftrightarrow> fnv1a64 xs = fnv1a64 ys"
  by (auto simp: fnv1a64_append dest: foldl_fnv_inj)

section \<open>Stable UUIDs and hashes\<close>

definition to_be_bytes :: "u64 \<Rightarrow> u8 list" where
  "to_be_bytes w = map (\<lambda>k. ucast (drop_bit k w)) [56, 48, 40, 32, 24, 16, 8, 0]"

lemma length_to_be_bytes [simp]: "length (to_be_bytes w) = 8"
  by (simp add: to_be_bytes_def)

definition stable_capture_uuid :: "string \<Rightarrow> string \<Rightarrow> uuid" where
  "stable_capture_uuid dedupe_key role =
     (let name = ''ctx-ctx-history-capture:'' @ dedupe_key @ '':'' @ role;
          first = to_be_bytes (fnv1a64 (str_bytes name));
          second = to_be_bytes (fnv1a64 (str_bytes (name @ '':uuid-v7'')))
      in Uuid (take 6 first
               @ [0x70 OR (first ! 6 AND 0x0f), first ! 7, 0x80 OR (second ! 0 AND 0x3f)]
               @ drop 1 second))"

lemma length_stable_capture_uuid: "length (octets (stable_capture_uuid k r)) = 16"
  by (simp add: stable_capture_uuid_def Let_def)

lemma stable_capture_uuid_octets:
  "octets (stable_capture_uuid k r) ! 6 = 0x70 OR
     (to_be_bytes (fnv1a64 (str_bytes (''ctx-ctx-history-capture:'' @ k @ '':'' @ r))) ! 6 AND 0x0f)"
  "octets (stable_capture_uuid k r) ! 8 = 0x80 OR
     (to_be_bytes (fnv1a64 (str_bytes (''ctx-ctx-history-capture:'' @ k @ '':'' @ r @ '':uuid-v7''))) ! 0
      AND 0x3f)"
  by (simp_all add: stable_capture_uuid_def Let_def nth_append)

lemma version_nibble: "drop_bit 4 (0x70 OR ((b :: u8) AND 0x0f)) = 7"
  by (simp add: drop_bit_or drop_bit_and)

lemma variant_bits: "drop_bit 6 (0x80 OR ((b :: u8) AND 0x3f)) = 2"
  by (simp add: drop_bit_or drop_bit_and)

definition compute_payload_hash :: "externals \<Rightarrow> json \<Rightarrow> string option" where
  "compute_payload_hash X payload =
     map_option (\<lambda>bytes. ''fnv1a64:'' @ concat (map hex_byte (to_be_bytes (fnv1a64 (str_bytes bytes)))))
       (json_text X payload)"

lemma compute_payload_hash_nonempty: "compute_payload_hash X v = Some h \<Longrightarrow> h \<noteq> []"
  by (auto simp: compute_payload_hash_def)

section \<open>File name components\<close>

definition is_ascii_alphanumeric :: "char \<Rightarrow> bool" where
  "is_ascii_alphanumeric c \<longleftrightarrow>
     (let n = (of_char c :: nat)
      in 48 \<le> n \<and> n \<le> 57 \<or> 65 \<le> n \<and> n \<le> 90 \<or> 97 \<le> n \<and> n \<le> 122)"

text \<open>The map runs over characters: one replacement for each, so the bytes of a longer UTF-8
  sequence after its first are dropped with it.\<close>

definition sanitize_char :: "char \<Rightarrow> char" where
  "sanitize_char c =
     (if is_ascii_alphanumeric c \<or> c \<in> {CHR ''-'', CHR ''_'', CHR ''.''} then c else CHR ''-'')"

definition trim_matches :: "char \<Rightarrow> string \<Rightarrow> string" where
  "trim_matches c s = rev (dropWhile (\<lambda>x. x = c) (rev (dropWhile (\<lambda>x. x = c) s)))"

definition sanitize_filename_component :: "string \<Rightarrow> string" where
  "sanitize_filename_component value =
     (let sanitized = trim_matches (CHR ''-'')
            (map sanitize_char (filter (\<lambda>c. \<not> is_continuation c) value))
      in if sanitized = [] then ''unknown'' else sanitized)"

lemma set_trim_matches: "set (trim_matches c s) \<subseteq> set s"
proof -
  have "set (dropWhile p ys) \<subseteq> set ys" for p and ys :: string
    by (auto dest: set_dropWhileD)
  then show ?thesis unfolding trim_matches_def by (metis set_rev subset_trans)
qed

lemma sanitize_char_safe:
  "is_ascii_alphanumeric (sanitize_char c) \<or> sanitize_char c \<in> {CHR ''-'', CHR ''_'', CHR ''.''}"
  by (simp add: sanitize_char_def)

section \<open>Keys of sources and sessions\<close>

abbreviation provider_str :: "capture_provider \<Rightarrow> string" where
  "provider_str \<equiv> enum_as_str capture_provider_table"

definition provider_scoped_source_identity_key ::
    "externals \<Rightarrow> capture_provider \<Rightarrow> string \<Rightarrow> string \<Rightarrow> string option \<Rightarrow> string" where
  "provider_scoped_source_identity_key X provider provider_session_id source_format raw_source_path =
     tuple_text X [Some ''provider-source-v2'', Some (provider_str provider),
       Some provider_session_id, Some source_format, raw_source_path]"

definition provider_scoped_source_uuid ::
    "externals \<Rightarrow> capture_provider \<Rightarrow> string \<Rightarrow> string \<Rightarrow> string option \<Rightarrow> uuid" where
  "provider_scoped_source_uuid X provider provider_session_id source_format raw_source_path =
     stable_capture_uuid
       (provider_scoped_source_identity_key X provider provider_session_id source_format raw_source_path)
       ''source''"

definition provider_source_root :: "string option \<Rightarrow> string option \<Rightarrow> string option" where
  "provider_source_root source_root raw_source_path =
     or_else (opt_filter (\<lambda>root. root \<noteq> []) (map_option trim source_root))
       (opt_filter (\<lambda>path. path \<noteq> []) (map_option trim raw_source_path))"

text \<open>The loop \<open>while normalized.len() > 1 && normalized.ends_with('/')\<close>, on the reversed text.\<close>

fun drop_slashes :: "string \<Rightarrow> string" where
  "drop_slashes (c # d # r) = (if c = CHR ''/'' then drop_slashes (d # r) else c # d # r)"
| "drop_slashes s = s"

definition normalized_source_identity_value :: "string \<Rightarrow> string option" where
  "normalized_source_identity_value value =
     (let value = trim value
      in if value = [] then None
         else Some (rev (drop_slashes (rev (replace_char (CHR 0x5C) ''/'' value)))))"

lemma drop_slashes_nonempty: "s \<noteq> [] \<Longrightarrow> drop_slashes s \<noteq> []"
  by (induction s rule: drop_slashes.induct) auto

lemma drop_slashes_head:
  "drop_slashes s = c # r \<Longrightarrow> c = CHR ''/'' \<Longrightarrow> r = []"
  by (induction s rule: drop_slashes.induct) (auto split: if_splits)

lemma set_drop_slashes: "set (drop_slashes s) \<subseteq> set s"
  by (induction s rule: drop_slashes.induct) auto

lemma replace_backslash_free: "CHR 0x5C \<notin> set (replace_char (CHR 0x5C) ''/'' s)"
  by (induction s) auto

lemma replace_char_nonempty: "r \<noteq> [] \<Longrightarrow> s \<noteq> [] \<Longrightarrow> replace_char c r s \<noteq> []"
  by (cases s) auto

definition source_metadata_keys :: "string list" where
  "source_metadata_keys =
     [''source_id'', ''native_source_id'', ''workspace_id'', ''native_workspace_id'', ''root_id'']"

fun first_metadata_component :: "string list \<Rightarrow> json \<Rightarrow> (string \<times> string) option" where
  "first_metadata_component [] m = None"
| "first_metadata_component (k # ks) m =
     (case Option.bind (jget_str m k) normalized_source_identity_value of
        Some value \<Rightarrow> Some (k, value)
      | None \<Rightarrow> first_metadata_component ks m)"

definition provider_source_identity_component ::
    "string option \<Rightarrow> string option \<Rightarrow> string option \<Rightarrow> json \<Rightarrow> (string \<times> string) option" where
  "provider_source_identity_component source_root raw_source_path source_idempotency_key source_metadata =
     (case Option.bind source_root normalized_source_identity_value of
        Some root \<Rightarrow> Some (''root'', root)
      | None \<Rightarrow>
        (case Option.bind raw_source_path normalized_source_identity_value of
           Some path \<Rightarrow> Some (''path'', path)
         | None \<Rightarrow>
           (case first_metadata_component source_metadata_keys source_metadata of
              Some kv \<Rightarrow> Some kv
            | None \<Rightarrow>
              map_option (\<lambda>k. (''idempotency_key'', k))
                (Option.bind source_idempotency_key normalized_source_identity_value))))"

definition provider_source_identity_key ::
    "externals \<Rightarrow> capture_provider \<Rightarrow> string \<Rightarrow> string \<Rightarrow> string \<Rightarrow> string" where
  "provider_source_identity_key X provider source_format component_kind component_value =
     tuple_text X [Some ''provider-source-identity-v1'', Some (provider_str provider),
       Some source_format, Some component_kind, Some component_value]"

definition provider_source_identity_from_component ::
    "externals \<Rightarrow> capture_provider \<Rightarrow> string \<Rightarrow> string \<Rightarrow> string \<Rightarrow> string" where
  "provider_source_identity_from_component X provider source_format component_kind component_value =
     uuid_text X (stable_capture_uuid
       (provider_source_identity_key X provider source_format component_kind component_value)
       ''provider-source-root'')"

definition provider_source_identity ::
    "externals \<Rightarrow> capture_provider \<Rightarrow> string \<Rightarrow> string option \<Rightarrow> string option \<Rightarrow> string option
     \<Rightarrow> json \<Rightarrow> string option" where
  "provider_source_identity X provider source_format source_root raw_source_path
       source_idempotency_key source_metadata =
     map_option (\<lambda>(component_kind, component_value).
         provider_source_identity_from_component X provider source_format component_kind component_value)
       (provider_source_identity_component source_root raw_source_path source_idempotency_key
          source_metadata)"

section \<open>UUIDs of sessions, runs, events, edges and file touches\<close>

definition provider_session_uuid :: "capture_provider \<Rightarrow> string \<Rightarrow> uuid" where
  "provider_session_uuid provider provider_session_id =
     stable_capture_uuid (''provider:'' @ provider_str provider @ '':'' @ provider_session_id) ''session''"

definition provider_source_session_uuid :: "string \<Rightarrow> string \<Rightarrow> uuid" where
  "provider_source_session_uuid source_identity provider_session_id =
     stable_capture_uuid
       (''provider-source-root:'' @ source_identity @ '':session:'' @ provider_session_id) ''session''"

definition provider_source_edge_uuid :: "string \<Rightarrow> string \<Rightarrow> string \<Rightarrow> uuid" where
  "provider_source_edge_uuid source_identity provider_session_id edge_kind =
     stable_capture_uuid
       (''provider-source-root:'' @ source_identity @ '':session:'' @ provider_session_id
          @ '':'' @ edge_kind) ''session-edge''"

definition provider_run_uuid :: "capture_provider \<Rightarrow> string \<Rightarrow> string \<Rightarrow> uuid" where
  "provider_run_uuid provider provider_session_id run_key =
     stable_capture_uuid
       (''provider:'' @ provider_str provider @ '':'' @ provider_session_id @ '':run:'' @ run_key) ''run''"

definition provider_source_run_uuid :: "externals \<Rightarrow> uuid \<Rightarrow> string \<Rightarrow> uuid" where
  "provider_source_run_uuid X source_id run_key =
     stable_capture_uuid (''provider-source:'' @ uuid_text X source_id @ '':run:'' @ run_key) ''run''"

definition provider_event_uuid :: "capture_provider \<Rightarrow> string \<Rightarrow> u64 \<Rightarrow> uuid" where
  "provider_event_uuid provider provider_session_id provider_event_index =
     stable_capture_uuid
       (''provider:'' @ provider_str provider @ '':'' @ provider_session_id @ '':''
          @ dec (unat provider_event_index)) ''event''"

definition provider_source_event_uuid :: "externals \<Rightarrow> uuid \<Rightarrow> u64 \<Rightarrow> uuid" where
  "provider_source_event_uuid X source_id provider_event_index =
     stable_capture_uuid
       (''provider-source:'' @ uuid_text X source_id @ '':event:'' @ dec (unat provider_event_index))
       ''event''"

definition provider_file_touch_uuid :: "capture_provider \<Rightarrow> string \<Rightarrow> u64 \<Rightarrow> uuid" where
  "provider_file_touch_uuid provider provider_session_id provider_touch_index =
     stable_capture_uuid
       (''provider:'' @ provider_str provider @ '':'' @ provider_session_id @ '':file-touch:''
          @ dec (unat provider_touch_index)) ''file-touch''"

definition provider_source_file_touch_uuid :: "externals \<Rightarrow> uuid \<Rightarrow> u64 \<Rightarrow> uuid" where
  "provider_source_file_touch_uuid X source_id provider_touch_index =
     stable_capture_uuid
       (''provider-source:'' @ uuid_text X source_id @ '':file-touch:'' @ dec (unat provider_touch_index))
       ''file-touch''"

definition provider_edge_uuid :: "capture_provider \<Rightarrow> string \<Rightarrow> string \<Rightarrow> uuid" where
  "provider_edge_uuid provider provider_session_id edge_kind =
     stable_capture_uuid
       (''provider:'' @ provider_str provider @ '':'' @ provider_session_id @ '':'' @ edge_kind)
       ''session-edge''"

section \<open>Sequence numbers\<close>

definition provider_event_seq :: "capture_provider \<Rightarrow> string \<Rightarrow> u64 \<Rightarrow> u64" where
  "provider_event_seq provider provider_session_id provider_event_index =
     (let session_key = ''provider:'' @ provider_str provider @ '':'' @ provider_session_id
      in push_bit 20 (fnv1a64 (str_bytes session_key) AND 0x000007ffffffffff)
         OR (provider_event_index AND 0x000fffff))"

definition provider_source_event_seq :: "externals \<Rightarrow> uuid \<Rightarrow> u64 \<Rightarrow> u64" where
  "provider_source_event_seq X source_id provider_event_index =
     (let source_key = uuid_text X source_id
      in push_bit 32 (fnv1a64 (str_bytes source_key) AND 0x000000007fffffff)
         OR (provider_event_index AND 0xffffffff))"

lemma seq_masks:
  "(0x000007ffffffffff :: u64) = mask 43" "(0x000fffff :: u64) = mask 20"
  "(0x000000007fffffff :: u64) = mask 31" "(0xffffffff :: u64) = mask 32"
  by (simp_all add: mask_eq_exp_minus_1)

text \<open>A hash in the high bits, an index in the low ones: the layout of both numbers.\<close>

lemma packed_low:
  "take_bit n (push_bit n (h AND m) OR (i AND mask n)) = (take_bit n i :: u64)"
  by (rule bit_word_eqI)
    (auto simp: bit_take_bit_iff bit_or_iff bit_and_iff bit_push_bit_iff bit_mask_iff
       dest: bit_imp_le_length)

lemma unat_below_of_take_bit: "take_bit n (w :: u64) = w \<Longrightarrow> unat w < 2 ^ n"
  by (metis take_bit_nat_less_exp unsigned_take_bit_eq)

lemma packed_bound:
  assumes "k + n \<le> 63"
  shows "unat (push_bit n (h AND mask k) OR (i AND mask n) :: u64) < 2 ^ 63"
proof -
  have "take_bit 63 (push_bit n (h AND mask k) OR (i AND mask n))
      = (push_bit n (h AND mask k) OR (i AND mask n) :: u64)"
    using assms
    by (intro bit_word_eqI)
      (auto simp: bit_take_bit_iff bit_or_iff bit_and_iff bit_push_bit_iff bit_mask_iff
         dest: bit_imp_le_length)
  then show ?thesis by (rule unat_below_of_take_bit)
qed

lemma packed_determines_index:
  assumes "push_bit n (h AND m) OR (i AND mask n) = push_bit n (h AND m) OR (j AND mask n)"
    and "unat i < 2 ^ n" "unat j < 2 ^ n"
  shows "(i :: u64) = j"
proof -
  have "take_bit n i = take_bit n j"
    using arg_cong [OF assms(1), of "take_bit n"] by (simp only: packed_low)
  moreover have "take_bit n w = w" if "unat w < 2 ^ n" for w :: u64
    using that by (simp add: word_unat_eq_iff unsigned_take_bit_eq take_bit_nat_eq_self_iff)
  ultimately show ?thesis using assms(2,3) by metis
qed

section \<open>Metadata\<close>

definition timestamps :: "datetime \<Rightarrow> entity_timestamps" where
  "timestamps at = \<lparr>et_created_at = at, et_updated_at = at\<rparr>"

definition provider_sync_metadata :: "fidelity \<Rightarrow> json \<Rightarrow> sync_metadata" where
  "provider_sync_metadata fid metadata =
     \<lparr>sm_visibility = visibility_default, sm_fidelity = fid, sm_sync_state = sync_state_default,
      sm_sync_version = 0, sm_deleted_at = None, sm_metadata = metadata\<rparr>"

section \<open>Properties\<close>

text \<open>C24: Every stable identifier is a well-formed version 7 UUID of the RFC 4122 variant:
  sixteen bytes, 7 in the version nibble, binary 10 in the variant bits.\<close>

theorem stable_uuid_wellformed:
  "length (octets (stable_capture_uuid key record_id)) = 16
   \<and> drop_bit 4 (octets (stable_capture_uuid key record_id) ! 6) = 7
   \<and> drop_bit 6 (octets (stable_capture_uuid key record_id) ! 8) = 2"
  by (simp only: length_stable_capture_uuid stable_capture_uuid_octets version_nibble variant_bits
      simp_thms)

text \<open>C23: Event sequence numbers fit the signed 64-bit column of the store, and two events of one
  source (or of one session of a provider) get the same number exactly when their indices are
  equal, for indices below the bits the layout gives them.\<close>

theorem event_seq_layout:
  "unat (provider_event_seq p sid i) < 2 ^ 63 \<and> unat (provider_source_event_seq X src i) < 2 ^ 63
   \<and> (unat i < 2 ^ 20 \<and> unat j < 2 ^ 20 \<longrightarrow>
        (provider_event_seq p sid i = provider_event_seq p sid j \<longleftrightarrow> i = j))
   \<and> (unat i < 2 ^ 32 \<and> unat j < 2 ^ 32 \<longrightarrow>
        (provider_source_event_seq X src i = provider_source_event_seq X src j \<longleftrightarrow> i = j))"
  unfolding provider_event_seq_def provider_source_event_seq_def Let_def seq_masks
  by (intro conjI impI iffI packed_bound;
      (erule packed_determines_index, blast, blast)?; simp)

theorem event_seq_layout_witness:
  "provider_source_event_seq demo_externals (Uuid [1]) 3 \<noteq> provider_source_event_seq demo_externals (Uuid [1]) 4
   \<and> provider_event_seq CaptureProvider_Codex ''s1'' 3 \<noteq> provider_event_seq CaptureProvider_Codex ''s1'' 4"
  using event_seq_layout [of CaptureProvider_Codex "''s1''" 3 demo_externals "Uuid [1]" 4]
  by simp

text \<open>The hash detects every change of a single byte, wherever it stands: two texts that
  differ in exactly one byte get different hashes.\<close>

theorem fnv1a64_detects_one_byte:
  "fnv1a64 (xs @ a # zs) = fnv1a64 (xs @ b # zs) \<longleftrightarrow> a = b"
proof -
  have "fnv1a64 (xs @ a # zs) = fnv1a64 (xs @ b # zs) \<longleftrightarrow> fnv1a64 (xs @ [a]) = fnv1a64 (xs @ [b])"
    using fnv1a64_suffix [of "xs @ [a]" zs "xs @ [b]"] by simp
  then show ?thesis by (auto simp: fnv1a64_append dest: fnv_step_inj_byte)
qed

text \<open>A sanitised file name component is never empty and holds only ASCII letters, digits,
  hyphens, underscores and dots (so neither a path separator nor a NUL byte).\<close>

theorem sanitize_filename_component_safe:
  "sanitize_filename_component s \<noteq> []
   \<and> list_all (\<lambda>c. is_ascii_alphanumeric c \<or> c = CHR ''-'' \<or> c = CHR ''_'' \<or> c = CHR ''.'')
       (sanitize_filename_component s)"
proof -
  let ?safe = "\<lambda>c. is_ascii_alphanumeric c \<or> c = CHR ''-'' \<or> c = CHR ''_'' \<or> c = CHR ''.''"
  have "?safe c" if "c \<in> set (trim_matches CHR ''-'' (map sanitize_char t))" for c t
    using that set_trim_matches sanitize_char_safe by fastforce
  moreover have "list_all ?safe ''unknown''" by (simp add: is_ascii_alphanumeric_def)
  ultimately show ?thesis
    unfolding sanitize_filename_component_def Let_def
    by (auto simp: list_all_iff simp del: set_simps)
qed

end
