(* ===== verification/Dedupe_Keys.thy ===== *)
theory Dedupe_Keys
  imports Stable_Ids
begin

text \<open>
  The deduplication keys of provider events: how \<open>ctx-history-store/src/events.rs\<close> prints and
  parses them, the range scan that looks for an event with the same identity and another payload
  hash, and the canonical key under which \<open>ctx-cli/src/commands/turso.rs\<close> merges the same event
  read on two machines.
\<close>

section \<open>Errors of the store\<close>

text \<open>\<open>StoreError\<close> variant for variant. Of the wrapped library errors, the database's is kept
  apart into the missing row, which the code matches on, and every other failure.\<close>

datatype sql_error = QueryReturnedNoRows | SqlFailure string

datatype store_error =
    Sql sql_error
  | IoError string
  | JsonError
  | TimeError
  | UuidError
  | NotFound uuid
  | UnsupportedSchemaVersion int
  | UnsupportedArchiveVersion u32
  | WalCheckpointBusy (log_frames: int) (checkpointed_frames: int)
  | BulkSearchImportBusy
  | InvalidBulkSearchGuard
  | ImportConflict string uuid
  | ArchiveArtifactHashMismatch uuid
  | UnsafeBlobPath string
  | ArchiveArtifactSizeMismatch uuid
  | ArchiveArtifactPathMismatch uuid
  | ArchiveArtifactNonRegularFile uuid string
  | ArchiveArtifactMissingContent uuid
  | ProviderEventConflict string string u64 string string
  | RawSqlEmpty
  | RawSqlInteriorNul
  | RawSqlNotReadOnly
  | RawSqlHasParameters
  | RawSqlNoColumns
  | RawSqlTooManyColumns nat nat
  | RawSqlLimitOutOfRange string nat nat nat
  | RawSqlResultBudgetTooLarge nat nat
  | RawSqlTimedOut u64

section \<open>Printing\<close>

definition provider_event_dedupe_key :: "capture_provider \<Rightarrow> string \<Rightarrow> u64 \<Rightarrow> string \<Rightarrow> string" where
  "provider_event_dedupe_key provider external_session_id provider_index payload_hash =
     ''provider:'' @ provider_str provider @ '':'' @ external_session_id @ '':''
       @ dec (unat provider_index) @ '':'' @ payload_hash"

definition provider_source_event_dedupe_key :: "externals \<Rightarrow> uuid \<Rightarrow> u64 \<Rightarrow> string \<Rightarrow> string" where
  "provider_source_event_dedupe_key X source_id provider_index payload_hash =
     ''provider-source:'' @ uuid_text X source_id @ '':'' @ dec (unat provider_index) @ '':''
       @ payload_hash"

section \<open>Parsing\<close>

record parsed_key =
  pk_provider :: string
  pk_external_session_id :: string
  pk_source_id :: "string option"
  pk_provider_index :: u64
  pk_payload_hash :: string

fun parse_source_parts :: "string list \<Rightarrow> parsed_key option" where
  "parse_source_parts [source_id, index, payload_hash] =
     (case parse_u64 index of
        None \<Rightarrow> None
      | Some provider_index \<Rightarrow>
          if source_id = [] \<or> payload_hash = [] then None
          else Some \<lparr>pk_provider = ''provider-source'', pk_external_session_id = source_id,
                     pk_source_id = Some source_id, pk_provider_index = provider_index,
                     pk_payload_hash = payload_hash\<rparr>)"
| "parse_source_parts _ = None"

fun parse_provider_parts :: "string list \<Rightarrow> parsed_key option" where
  "parse_provider_parts [prefix, provider, external_session_id, index, payload_hash] =
     (if prefix \<noteq> ''provider'' then None
      else case parse_u64 index of
        None \<Rightarrow> None
      | Some provider_index \<Rightarrow>
          if provider = [] \<or> external_session_id = [] \<or> payload_hash = [] then None
          else Some \<lparr>pk_provider = provider, pk_external_session_id = external_session_id,
                     pk_source_id = None, pk_provider_index = provider_index,
                     pk_payload_hash = payload_hash\<rparr>)"
| "parse_provider_parts _ = None"

definition parse_provider_event_dedupe_key :: "string \<Rightarrow> parsed_key option" where
  "parse_provider_event_dedupe_key dedupe_key =
     (case strip_prefix ''provider-source:'' dedupe_key of
        Some rest \<Rightarrow> parse_source_parts (splitn 3 (CHR '':'') rest)
      | None \<Rightarrow> parse_provider_parts (splitn 5 (CHR '':'') dedupe_key))"

definition has_same_event_identity :: "parsed_key \<Rightarrow> parsed_key \<Rightarrow> bool" where
  "has_same_event_identity a b \<longleftrightarrow>
     pk_provider a = pk_provider b \<and> pk_external_session_id a = pk_external_session_id b
     \<and> pk_source_id a = pk_source_id b \<and> pk_provider_index a = pk_provider_index b"

lemma parse_source_key:
  assumes "externals_ok X" "payload_hash \<noteq> []"
  shows "parse_provider_event_dedupe_key (provider_source_event_dedupe_key X source_id i payload_hash)
    = Some \<lparr>pk_provider = ''provider-source'', pk_external_session_id = uuid_text X source_id,
            pk_source_id = Some (uuid_text X source_id), pk_provider_index = i,
            pk_payload_hash = payload_hash\<rparr>"
proof -
  note plain = uuid_text_plain [OF assms(1), of source_id]
  have "splitn 3 (CHR '':'') (uuid_text X source_id @ CHR '':'' # (dec (unat i) @ CHR '':'' # payload_hash))
    = [uuid_text X source_id, dec (unat i), payload_hash]"
    using plain by (simp add: numeral_3_eq_3)
  then show ?thesis
    using assms plain
    by (simp add: parse_provider_event_dedupe_key_def provider_source_event_dedupe_key_def
        strip_prefix_def starts_with_def)
qed

lemma parse_provider_key:
  assumes "external_session_id \<noteq> []" "CHR '':'' \<notin> set external_session_id" "payload_hash \<noteq> []"
  shows "parse_provider_event_dedupe_key (provider_event_dedupe_key p external_session_id i payload_hash)
    = Some \<lparr>pk_provider = provider_str p, pk_external_session_id = external_session_id,
            pk_source_id = None, pk_provider_index = i, pk_payload_hash = payload_hash\<rparr>"
proof -
  have "splitn 5 (CHR '':'') (''provider'' @ CHR '':'' # (provider_str p @ CHR '':'' #
      (external_session_id @ CHR '':'' # (dec (unat i) @ CHR '':'' # payload_hash))))
    = [''provider'', provider_str p, external_session_id, dec (unat i), payload_hash]"
    using assms by (simp add: eval_nat_numeral split_once_join del: append.simps)
  then show ?thesis
    using assms
    by (simp add: parse_provider_event_dedupe_key_def provider_event_dedupe_key_def
        strip_prefix_def starts_with_def)
qed

section \<open>The conflict scan\<close>

definition provider_event_dedupe_key_prefix :: "parsed_key \<Rightarrow> string" where
  "provider_event_dedupe_key_prefix parsed =
     (case pk_source_id parsed of
        Some source_id \<Rightarrow>
          ''provider-source:'' @ source_id @ '':'' @ dec (unat (pk_provider_index parsed)) @ '':''
      | None \<Rightarrow>
          ''provider:'' @ pk_provider parsed @ '':'' @ pk_external_session_id parsed @ '':''
            @ dec (unat (pk_provider_index parsed)) @ '':'')"

text \<open>\<open>char::MAX\<close> is U+10FFFF.\<close>

definition char_max :: string where
  "char_max = utf8 [244, 143, 191, 191]"

definition provider_event_dedupe_key_upper_bound :: "string \<Rightarrow> string" where
  "provider_event_dedupe_key_upper_bound prefix = prefix @ char_max"

fun reject_provider_event_hash_conflict_from_rows ::
    "string \<Rightarrow> string list \<Rightarrow> store_error + unit" where
  "reject_provider_event_hash_conflict_from_rows dedupe_key rows =
     (case parse_provider_event_dedupe_key dedupe_key of
        None \<Rightarrow> Inr ()
      | Some incoming \<Rightarrow>
          (case rows of
             [] \<Rightarrow> Inr ()
           | existing_key # rest \<Rightarrow>
               (case parse_provider_event_dedupe_key existing_key of
                  None \<Rightarrow> reject_provider_event_hash_conflict_from_rows dedupe_key rest
                | Some existing \<Rightarrow>
                    if has_same_event_identity existing incoming
                       \<and> pk_payload_hash existing \<noteq> pk_payload_hash incoming
                    then Inl (ProviderEventConflict (pk_provider incoming)
                           (pk_external_session_id incoming) (pk_provider_index incoming)
                           (pk_payload_hash existing) (pk_payload_hash incoming))
                    else reject_provider_event_hash_conflict_from_rows dedupe_key rest)))"

declare reject_provider_event_hash_conflict_from_rows.simps [simp del]

text \<open>The statement selects the keys of the table in \<open>[prefix, upper_bound)\<close>, in order.\<close>

definition reject_provider_event_hash_conflict :: "string list \<Rightarrow> string \<Rightarrow> store_error + unit" where
  "reject_provider_event_hash_conflict keys dedupe_key =
     (case parse_provider_event_dedupe_key dedupe_key of
        None \<Rightarrow> Inr ()
      | Some parsed \<Rightarrow>
          (let prefix = provider_event_dedupe_key_prefix parsed;
               upper_bound = provider_event_dedupe_key_upper_bound prefix
           in reject_provider_event_hash_conflict_from_rows dedupe_key
                (sort (filter (\<lambda>k. prefix \<le> k \<and> k < upper_bound) keys))))"

definition conflicting_key :: "parsed_key \<Rightarrow> string \<Rightarrow> bool" where
  "conflicting_key incoming k \<longleftrightarrow>
     (\<exists>existing. parse_provider_event_dedupe_key k = Some existing
        \<and> has_same_event_identity existing incoming
        \<and> pk_payload_hash existing \<noteq> pk_payload_hash incoming)"

lemma conflict_from_rows:
  assumes "parse_provider_event_dedupe_key key = Some incoming"
  shows "reject_provider_event_hash_conflict_from_rows key rows = Inr ()
    \<longleftrightarrow> (\<forall>k \<in> set rows. \<not> conflicting_key incoming k)"
proof (induction rows)
  case Nil
  then show ?case
    using assms by (simp add: reject_provider_event_hash_conflict_from_rows.simps)
next
  case (Cons k rows)
  show ?case
    using assms Cons
    by (subst reject_provider_event_hash_conflict_from_rows.simps)
      (auto simp: conflicting_key_def split: option.splits)
qed

text \<open>A failed scan names the incoming event.\<close>

lemma conflict_from_rows_error:
  assumes "parse_provider_event_dedupe_key key = Some incoming"
    and "reject_provider_event_hash_conflict_from_rows key rows = Inl e"
  shows "\<exists>h. e = ProviderEventConflict (pk_provider incoming) (pk_external_session_id incoming)
                   (pk_provider_index incoming) h (pk_payload_hash incoming)
             \<and> h \<noteq> pk_payload_hash incoming"
  using assms(2)
proof (induction rows)
  case Nil
  then show ?case
    using assms(1) by (simp add: reject_provider_event_hash_conflict_from_rows.simps)
next
  case (Cons k rows)
  then show ?case
    using assms(1)
    by (subst (asm) (2) reject_provider_event_hash_conflict_from_rows.simps)
      (auto split: option.splits if_splits)
qed

lemma append_less_append: "(p @ r < p @ (s :: string)) \<longleftrightarrow> r < s"
  by (induction p) auto

lemma append_le_append: "(p @ r \<le> p @ (s :: string)) \<longleftrightarrow> r \<le> s"
  by (induction p) auto

text \<open>The scan's range holds every text that starts with the prefix, as long as the next byte
  is below the first byte of \<open>char::MAX\<close> (any ASCII text).\<close>

definition below_char_max :: "string \<Rightarrow> bool" where
  "below_char_max r \<longleftrightarrow> r < char_max"

lemma range_of_prefix:
  "prefix \<le> prefix @ r \<and> prefix @ r < provider_event_dedupe_key_upper_bound prefix
     \<longleftrightarrow> below_char_max r"
  using append_le_append [of prefix "[]" r]
  by (simp add: provider_event_dedupe_key_upper_bound_def below_char_max_def append_less_append)

lemma below_char_max_ascii: "r = [] \<or> (of_char (hd r) :: nat) < 244 \<Longrightarrow> below_char_max r"
  by (cases r) (auto simp: below_char_max_def char_max_def utf8_def less_char_def)

section \<open>The canonical key of the remote merge\<close>

definition canonical_provider_source_dedupe_key ::
    "string \<Rightarrow> string option \<Rightarrow> string \<Rightarrow> string option" where
  "canonical_provider_source_dedupe_key provider external_session_id source_dedupe_key =
     (case map_option trim external_session_id of
        None \<Rightarrow> None
      | Some external_session_id \<Rightarrow>
          if external_session_id = [] then None
          else case strip_prefix ''provider-source:'' source_dedupe_key of
            None \<Rightarrow> None
          | Some source_dedupe_key \<Rightarrow>
              (case split_once (CHR '':'') source_dedupe_key of
                 None \<Rightarrow> None
               | Some (_, event_identity) \<Rightarrow>
                   (case split_once (CHR '':'') event_identity of
                      None \<Rightarrow> None
                    | Some (provider_event_index, payload_hash) \<Rightarrow>
                        if provider_event_index = [] \<or> payload_hash = [] then None
                        else Some (''provider:'' @ provider @ '':'' @ external_session_id @ '':''
                               @ provider_event_index @ '':'' @ payload_hash))))"

lemma canonical_of_source_key:
  assumes "externals_ok X" "payload_hash \<noteq> []" "trim external_session_id \<noteq> []"
  shows "canonical_provider_source_dedupe_key provider (Some external_session_id)
      (provider_source_event_dedupe_key X source_id i payload_hash)
    = Some (''provider:'' @ provider @ '':'' @ trim external_session_id @ '':'' @ dec (unat i)
        @ '':'' @ payload_hash)"
  using assms uuid_text_plain [OF assms(1), of source_id]
  by (simp add: canonical_provider_source_dedupe_key_def provider_source_event_dedupe_key_def
      strip_prefix_def starts_with_def)

lemma canonical_key_eq_iff:
  assumes "e1 \<noteq> []" "CHR '':'' \<notin> set e1" "CHR '':'' \<notin> set e2"
  shows "''provider:'' @ provider_str p1 @ '':'' @ e1 @ '':'' @ dec (unat i1) @ '':'' @ h1
       = ''provider:'' @ provider_str p2 @ '':'' @ e2 @ '':'' @ dec (unat i2) @ '':'' @ h2
     \<longleftrightarrow> p1 = p2 \<and> e1 = e2 \<and> i1 = i2 \<and> h1 = h2"
proof
  assume "''provider:'' @ provider_str p1 @ '':'' @ e1 @ '':'' @ dec (unat i1) @ '':'' @ h1
       = ''provider:'' @ provider_str p2 @ '':'' @ e2 @ '':'' @ dec (unat i2) @ '':'' @ h2"
  then have a: "split_once CHR '':'' (provider_str p1 @ CHR '':'' # (e1 @ CHR '':'' # (dec (unat i1) @ CHR '':'' # h1)))
      = split_once CHR '':'' (provider_str p2 @ CHR '':'' # (e2 @ CHR '':'' # (dec (unat i2) @ CHR '':'' # h2)))"
    by simp
  then have b: "split_once CHR '':'' (e1 @ CHR '':'' # (dec (unat i1) @ CHR '':'' # h1))
      = split_once CHR '':'' (e2 @ CHR '':'' # (dec (unat i2) @ CHR '':'' # h2))"
    by (simp add: split_once_join)
  then have c: "split_once CHR '':'' (dec (unat i1) @ CHR '':'' # h1)
      = split_once CHR '':'' (dec (unat i2) @ CHR '':'' # h2)"
    using assms by (simp add: split_once_join)
  show "p1 = p2 \<and> e1 = e2 \<and> i1 = i2 \<and> h1 = h2"
    using a b c assms by (auto simp: split_once_join word_unat_eq_iff dest!: dec_inj)
qed simp

section \<open>Properties\<close>

text \<open>C20: Printing and parsing a deduplication key are inverse: the source-scoped key of any
  event with a nonempty payload hash parses back to its source, index and hash, and so does the
  provider key when the external session id is nonempty and has no colon.\<close>

theorem dedupe_key_roundtrip:
  assumes "externals_ok X" and "payload_hash \<noteq> []"
  shows "parse_provider_event_dedupe_key (provider_source_event_dedupe_key X source_id i payload_hash)
      = Some \<lparr>pk_provider = ''provider-source'', pk_external_session_id = uuid_text X source_id,
              pk_source_id = Some (uuid_text X source_id), pk_provider_index = i,
              pk_payload_hash = payload_hash\<rparr>
    \<and> (external_session_id \<noteq> [] \<and> CHR '':'' \<notin> set external_session_id \<longrightarrow>
       parse_provider_event_dedupe_key (provider_event_dedupe_key p external_session_id i payload_hash)
      = Some \<lparr>pk_provider = provider_str p, pk_external_session_id = external_session_id,
              pk_source_id = None, pk_provider_index = i, pk_payload_hash = payload_hash\<rparr>)"
  using assms by (simp add: parse_source_key parse_provider_key)

theorem dedupe_key_roundtrip_witness:
  "parse_provider_event_dedupe_key
     (provider_event_dedupe_key CaptureProvider_Codex ''s1'' 5 ''fnv1a64:00ff'')
   = Some \<lparr>pk_provider = ''codex'', pk_external_session_id = ''s1'', pk_source_id = None,
           pk_provider_index = 5, pk_payload_hash = ''fnv1a64:00ff''\<rparr>"
  using dedupe_key_roundtrip [OF demo_externals_ok, of "''fnv1a64:00ff''" "Uuid [1]" 5 "''s1''"
      CaptureProvider_Codex]
  by (simp add: enum_as_str_def capture_provider_table_def)

text \<open>The range scan finds every conflict and nothing else: against a table whose keys are
  source-scoped keys (with payload hashes in the scan's range), it accepts an event exactly when no
  row has the same source and index with a different payload hash.\<close>

theorem conflict_scan_exact:
  assumes X: "externals_ok X" and hash: "payload_hash \<noteq> []"
    and table: "\<forall>k \<in> set keys. \<exists>s j h. k = provider_source_event_dedupe_key X s j h
      \<and> h \<noteq> [] \<and> below_char_max h"
  shows "reject_provider_event_hash_conflict keys
      (provider_source_event_dedupe_key X source_id i payload_hash) = Inr ()
    \<longleftrightarrow> (\<forall>h. provider_source_event_dedupe_key X source_id i h \<in> set keys \<longrightarrow> h = payload_hash)"
    (is "?accepted \<longleftrightarrow> ?no_other")
proof -
  note parse = parse_source_key [OF X]
  let ?pre = "''provider-source:'' @ uuid_text X source_id @ '':'' @ dec (unat i) @ '':''"
  let ?in_range = "\<lambda>k. ?pre \<le> k \<and> k < provider_event_dedupe_key_upper_bound ?pre"
  let ?inc = "\<lparr>pk_provider = ''provider-source'', pk_external_session_id = uuid_text X source_id,
      pk_source_id = Some (uuid_text X source_id), pk_provider_index = i, pk_payload_hash = payload_hash\<rparr>"
  have key: "provider_source_event_dedupe_key X source_id i h = ?pre @ h" for h
    by (simp add: provider_source_event_dedupe_key_def)
  have "?accepted \<longleftrightarrow> (\<forall>k \<in> set keys. ?in_range k \<longrightarrow> \<not> conflicting_key ?inc k)"
    by (auto simp: reject_provider_event_hash_conflict_def parse [OF hash] Let_def
        provider_event_dedupe_key_prefix_def conflict_from_rows [OF parse [OF hash]])
  also have "\<dots> \<longleftrightarrow> ?no_other"
  proof
    assume clean: "\<forall>k \<in> set keys. ?in_range k \<longrightarrow> \<not> conflicting_key ?inc k"
    show ?no_other
    proof (intro allI impI)
      fix h assume row: "provider_source_event_dedupe_key X source_id i h \<in> set keys"
      with table obtain s j h' where h': "provider_source_event_dedupe_key X source_id i h
          = provider_source_event_dedupe_key X s j h'" "h' \<noteq> []" "below_char_max h'" by blast
      have "parse_source_parts (splitn 3 CHR '':'' (uuid_text X source_id @ CHR '':'' # (dec (unat i) @ CHR '':'' # h)))
          = parse_source_parts (splitn 3 CHR '':'' (uuid_text X s @ CHR '':'' # (dec (unat j) @ CHR '':'' # h')))"
        using h'(1) by (simp add: provider_source_event_dedupe_key_def)
      then have hh: "h = h'"
        using uuid_text_plain [OF X] h'(2) by (auto simp: numeral_3_eq_3 split: if_splits)
      with h' row clean have "\<not> conflicting_key ?inc (?pre @ h)"
        using range_of_prefix [of ?pre h] by (simp add: key)
      with hh h'(2) show "h = payload_hash"
        using parse [of h source_id i]
        by (auto simp: conflicting_key_def has_same_event_identity_def key)
    qed
  next
    assume only: ?no_other
    show "\<forall>k \<in> set keys. ?in_range k \<longrightarrow> \<not> conflicting_key ?inc k"
    proof (intro ballI impI notI)
      fix k assume k: "k \<in> set keys" "conflicting_key ?inc k"
      with table obtain s j h where sjh: "k = provider_source_event_dedupe_key X s j h" "h \<noteq> []"
        by blast
      with k(2) have "uuid_text X s = uuid_text X source_id" "j = i" "h \<noteq> payload_hash"
        by (auto simp: conflicting_key_def has_same_event_identity_def parse)
      with only k(1) sjh uuid_text_eq_iff [OF X] show False by metis
    qed
  qed
  finally show ?thesis .
qed

theorem conflict_scan_exact_witness:
  "reject_provider_event_hash_conflict
     [provider_source_event_dedupe_key demo_externals (Uuid [1]) 5 ''fnv1a64:aa'']
     (provider_source_event_dedupe_key demo_externals (Uuid [1]) 5 ''fnv1a64:bb'') \<noteq> Inr ()"
proof -
  let ?keys = "[provider_source_event_dedupe_key demo_externals (Uuid [1]) 5 ''fnv1a64:aa'']"
  have "\<forall>k \<in> set ?keys. \<exists>s j h. k = provider_source_event_dedupe_key demo_externals s j h
      \<and> h \<noteq> [] \<and> below_char_max h"
    by (auto intro!: exI [of _ "Uuid [1]"] exI [of _ 5] exI [of _ "''fnv1a64:aa''"] below_char_max_ascii)
  from conflict_scan_exact [OF demo_externals_ok _ this, of "''fnv1a64:bb''" "Uuid [1]" 5]
  show ?thesis by auto
qed

text \<open>C21: An external session id that ends in a colon and digits is misread by the parser, and the
  scan then reports a conflict between two different events of that session: with the first one
  stored, the second, of another index, is refused for its payload hash although no event of
  that index is stored.\<close>

theorem colon_session_false_conflict:
  assumes "i \<noteq> j"
  shows "reject_provider_event_hash_conflict
      [provider_event_dedupe_key CaptureProvider_Codex ''a:7'' i ''h'']
      (provider_event_dedupe_key CaptureProvider_Codex ''a:7'' j ''h'')
    = Inl (ProviderEventConflict ''codex'' ''a'' 7 (dec (unat i) @ '':h'') (dec (unat j) @ '':h''))"
proof -
  let ?K = "\<lambda>k. provider_event_dedupe_key CaptureProvider_Codex ''a:7'' k ''h''"
  let ?P = "''provider:codex:a:7:''"
  let ?parsed = "\<lambda>k. \<lparr>pk_provider = ''codex'', pk_external_session_id = ''a'', pk_source_id = None,
      pk_provider_index = 7, pk_payload_hash = dec (unat k) @ '':h''\<rparr>"
  have key: "?K k = ?P @ dec (unat k) @ '':h''" for k
    by (simp add: provider_event_dedupe_key_def enum_as_str_def capture_provider_table_def)
  have parse: "parse_provider_event_dedupe_key (?K k) = Some (?parsed k)" for k
  proof -
    have "splitn 5 CHR '':'' (?P @ dec (unat k) @ '':h'')
        = [''provider'', ''codex'', ''a'', ''7'', dec (unat k) @ '':h'']"
      by (simp add: eval_nat_numeral)
    moreover have "parse_u64 ''7'' = Some 7"
      by (simp add: parse_u64_def parse_unsigned_def starts_with_def is_digit_def digits_value_def
          digit_val_def)
    ultimately show ?thesis
      by (simp add: key parse_provider_event_dedupe_key_def strip_prefix_def starts_with_def)
  qed
  have prefix: "provider_event_dedupe_key_prefix (?parsed k) = ?P" for k
  proof -
    have "dec 7 = ''7''" by code_simp
    then show ?thesis by (simp add: provider_event_dedupe_key_prefix_def)
  qed
  have range: "?P \<le> ?K i \<and> ?K i < provider_event_dedupe_key_upper_bound ?P"
  proof -
    have "below_char_max (dec (unat i) @ '':h'')"
      using dec_digits [of "unat i"]
      by (intro below_char_max_ascii) (cases "dec (unat i)"; auto simp: is_digit_def)
    then show ?thesis unfolding key range_of_prefix .
  qed
  have "dec (unat i) \<noteq> dec (unat j)"
    using assms by (auto simp: word_unat_eq_iff dest: dec_inj)
  then have rows: "reject_provider_event_hash_conflict_from_rows (?K j) [?K i]
      = Inl (ProviderEventConflict ''codex'' ''a'' 7 (dec (unat i) @ '':h'') (dec (unat j) @ '':h''))"
    by (simp add: reject_provider_event_hash_conflict_from_rows.simps parse
        has_same_event_identity_def)
  show ?thesis
    unfolding reject_provider_event_hash_conflict_def parse option.case prefix Let_def
    using range rows by simp
qed

theorem colon_session_false_conflict_witness:
  "reject_provider_event_hash_conflict
      [provider_event_dedupe_key CaptureProvider_Codex ''a:7'' 1 ''h'']
      (provider_event_dedupe_key CaptureProvider_Codex ''a:7'' 2 ''h'')
    = Inl (ProviderEventConflict ''codex'' ''a'' 7 (dec (unat (1 :: u64)) @ '':h'')
        (dec (unat (2 :: u64)) @ '':h''))"
  by (rule colon_session_false_conflict) simp

text \<open>The canonical key merges across machines exactly the copies of one event: two
  source-scoped keys, whatever their sources, get the same canonical key if and only if provider,
  trimmed external session id, event index and payload hash agree (ids without a colon).\<close>

theorem canonical_key_identity:
  assumes X: "externals_ok X" and hashes: "h1 \<noteq> []" "h2 \<noteq> []"
    and ids: "trim e1 \<noteq> []" "trim e2 \<noteq> []" "CHR '':'' \<notin> set (trim e1)" "CHR '':'' \<notin> set (trim e2)"
  shows "canonical_provider_source_dedupe_key (provider_str p1) (Some e1)
      (provider_source_event_dedupe_key X s1 i1 h1)
    = canonical_provider_source_dedupe_key (provider_str p2) (Some e2)
      (provider_source_event_dedupe_key X s2 i2 h2)
    \<longleftrightarrow> p1 = p2 \<and> trim e1 = trim e2 \<and> i1 = i2 \<and> h1 = h2"
  unfolding canonical_of_source_key [OF X hashes(1) ids(1)]
    canonical_of_source_key [OF X hashes(2) ids(2)] option.inject
  by (rule canonical_key_eq_iff [OF ids(1,3,4)])

theorem canonical_key_identity_witness:
  "canonical_provider_source_dedupe_key (provider_str CaptureProvider_Codex) (Some ''s1'')
      (provider_source_event_dedupe_key demo_externals (Uuid [1]) 2 ''h'')
    = canonical_provider_source_dedupe_key (provider_str CaptureProvider_Codex) (Some ''s1'')
      (provider_source_event_dedupe_key demo_externals (Uuid [9]) 2 ''h'')"
proof -
  have t: "trim ''s1'' = ''s1''" by (rule trim_graph) (simp_all add: is_graph_def)
  show ?thesis
    using canonical_key_identity [OF demo_externals_ok, of "''h''" "''h''" "''s1''" "''s1''"
        CaptureProvider_Codex "Uuid [1]" 2 CaptureProvider_Codex "Uuid [9]" 2]
    by (simp add: t)
qed

end
