(* ===== verification/Search_Analyzer.thy ===== *)
theory Search_Analyzer
  imports Rust_Text
begin

text \<open>
  The text analyzer of the search index (\<open>search/analyzer.rs\<close> of \<open>ctx-history-store\<close>): scripts that
  are written without spaces are indexed by overlapping pairs of grapheme-like units. Texts are
  lists of code points here; \<open>decode_utf8\<close> and \<open>encode_utf8\<close> lead to and from the byte strings of the
  other theories. The tables of \<open>char::is_alphanumeric\<close> and of \<open>str::to_lowercase\<close> are the fields
  of a record \<open>unicode\<close>, an argument of the definitions that consult them.
\<close>

section \<open>Code points\<close>

type_synonym cps = "nat list"

record unicode =
  uc_alphanumeric :: "nat \<Rightarrow> bool"
  uc_lowercase :: "cps \<Rightarrow> cps"

definition is_whitespace :: "nat \<Rightarrow> bool" where
  "is_whitespace c \<longleftrightarrow>
     9 \<le> c \<and> c \<le> 13 \<or> 0x2000 \<le> c \<and> c \<le> 0x200A
     \<or> c \<in> {0x20, 0x85, 0xA0, 0x1680, 0x2028, 0x2029, 0x202F, 0x205F, 0x3000}"

fun words_from :: "cps \<Rightarrow> cps \<Rightarrow> cps list" where
  "words_from cur [] = (if cur = [] then [] else [cur])"
| "words_from cur (c # cs) =
     (if is_whitespace c then (if cur = [] then words_from [] cs else cur # words_from [] cs)
      else words_from (cur @ [c]) cs)"

definition split_whitespace :: "cps \<Rightarrow> cps list" where
  "split_whitespace s = words_from [] s"

definition encode_char :: "nat \<Rightarrow> string" where
  "encode_char c =
     (if c < 0x80 then utf8 [c]
      else if c < 0x800 then utf8 [0xC0 + c div 64, 0x80 + c mod 64]
      else if c < 0x10000 then utf8 [0xE0 + c div 4096, 0x80 + c div 64 mod 64, 0x80 + c mod 64]
      else utf8 [0xF0 + c div 262144, 0x80 + c div 4096 mod 64, 0x80 + c div 64 mod 64, 0x80 + c mod 64])"

definition encode_utf8 :: "cps \<Rightarrow> string" where
  "encode_utf8 cs = concat (map encode_char cs)"

text \<open>Decoding of well-formed UTF-8, which every \<open>str\<close> is: the lead byte gives the length.\<close>

fun decode_bytes :: "nat list \<Rightarrow> cps" where
  "decode_bytes (a # b # c # d # r) =
     (if a < 0x80 then a # decode_bytes (b # c # d # r)
      else if a < 0xE0 then ((a - 0xC0) * 64 + (b - 0x80)) # decode_bytes (c # d # r)
      else if a < 0xF0 then ((a - 0xE0) * 4096 + (b - 0x80) * 64 + (c - 0x80)) # decode_bytes (d # r)
      else ((a - 0xF0) * 262144 + (b - 0x80) * 4096 + (c - 0x80) * 64 + (d - 0x80)) # decode_bytes r)"
| "decode_bytes [a, b, c] =
     (if a < 0x80 then a # decode_bytes [b, c]
      else if a < 0xE0 then ((a - 0xC0) * 64 + (b - 0x80)) # decode_bytes [c]
      else [(a - 0xE0) * 4096 + (b - 0x80) * 64 + (c - 0x80)])"
| "decode_bytes [a, b] =
     (if a < 0x80 then a # decode_bytes [b] else [(a - 0xC0) * 64 + (b - 0x80)])"
| "decode_bytes [a] = [a]"
| "decode_bytes [] = []"

definition decode_utf8 :: "string \<Rightarrow> cps" where
  "decode_utf8 s = decode_bytes (map of_char s)"

section \<open>Scripts\<close>

definition in_ranges :: "nat \<Rightarrow> (nat \<times> nat) list \<Rightarrow> bool" where
  "in_ranges code ranges \<longleftrightarrow> list_ex (\<lambda>(start, last). start \<le> code \<and> code \<le> last) ranges"

datatype search_script =
    Han | Hiragana | Katakana | Hangul | Thai | Lao | Khmer | Myanmar | Bengali | Devanagari
  | Gujarati | Gurmukhi | Kannada | Malayalam | Oriya | Sinhala | Tamil | Telugu

definition script_from_char :: "nat \<Rightarrow> search_script option" where
  "script_from_char code =
    (if in_ranges code [(0x3400, 0x4DBF), (0x4E00, 0x9FFF), (0xF900, 0xFAFF), (0x20000,
         0x2A6DF), (0x2A700, 0x2B73F), (0x2B740, 0x2B81F), (0x2B820, 0x2CEAF), (0x2CEB0,
         0x2EBEF), (0x30000, 0x3134F), (0x31350, 0x323AF)] then Some Han
     else if in_ranges code [(0x3040, 0x309F)] then Some Hiragana
     else if in_ranges code [(0x30A0, 0x30FF), (0x31F0, 0x31FF), (0xFF66, 0xFF9F)] then Some
         Katakana
     else if in_ranges code [(0x1100, 0x11FF), (0x3130, 0x318F), (0xA960, 0xA97F), (0xAC00,
         0xD7AF), (0xD7B0, 0xD7FF)] then Some Hangul
     else if in_ranges code [(0x0E00, 0x0E7F)] then Some Thai
     else if in_ranges code [(0x0E80, 0x0EFF)] then Some Lao
     else if in_ranges code [(0x1780, 0x17FF), (0x19E0, 0x19FF)] then Some Khmer
     else if in_ranges code [(0x1000, 0x109F), (0xAA60, 0xAA7F), (0xA9E0, 0xA9FF)] then Some
         Myanmar
     else if in_ranges code [(0x0980, 0x09FF)] then Some Bengali
     else if in_ranges code [(0x0900, 0x097F), (0xA8E0, 0xA8FF)] then Some Devanagari
     else if in_ranges code [(0x0A80, 0x0AFF)] then Some Gujarati
     else if in_ranges code [(0x0A00, 0x0A7F)] then Some Gurmukhi
     else if in_ranges code [(0x0C80, 0x0CFF)] then Some Kannada
     else if in_ranges code [(0x0D00, 0x0D7F)] then Some Malayalam
     else if in_ranges code [(0x0B00, 0x0B7F)] then Some Oriya
     else if in_ranges code [(0x0D80, 0x0DFF)] then Some Sinhala
     else if in_ranges code [(0x0B80, 0x0BFF)] then Some Tamil
     else if in_ranges code [(0x0C00, 0x0C7F)] then Some Telugu
     else None)"

lemma in_ranges_simps:
  "in_ranges c [] \<longleftrightarrow> False"
  "in_ranges c ((a, b) # r) \<longleftrightarrow> a \<le> c \<and> c \<le> b \<or> in_ranges c r"
  by (simp_all add: in_ranges_def)

text \<open>Every script of the enumeration is grammed.\<close>

definition is_grammed :: "search_script \<Rightarrow> bool" where
  "is_grammed script = True"

text \<open>The ranges of marks: below U+0F00, up to U+FFFF, and beyond.\<close>

definition mark_ranges_low :: "(nat \<times> nat) list" where
  "mark_ranges_low = [
    (0x0300, 0x036F), (0x0483, 0x0489), (0x0591, 0x05BD), (0x05BF, 0x05BF), (0x05C1, 0x05C2),
    (0x05C4, 0x05C5), (0x05C7, 0x05C7), (0x0610, 0x061A), (0x064B, 0x065F), (0x0670, 0x0670),
    (0x06D6, 0x06DC), (0x06DF, 0x06E4), (0x06E7, 0x06E8), (0x06EA, 0x06ED), (0x0711, 0x0711),
    (0x0730, 0x074A), (0x07A6, 0x07B0), (0x07EB, 0x07F3), (0x0816, 0x0819), (0x081B, 0x0823),
    (0x0825, 0x0827), (0x0829, 0x082D), (0x0859, 0x085B), (0x08D3, 0x08E1), (0x08E3, 0x0903),
    (0x093A, 0x093C), (0x093E, 0x094F), (0x0951, 0x0957), (0x0962, 0x0963), (0x0981, 0x0983),
    (0x09BC, 0x09BC), (0x09BE, 0x09C4), (0x09C7, 0x09C8), (0x09CB, 0x09CD), (0x09D7, 0x09D7),
    (0x09E2, 0x09E3), (0x0A01, 0x0A03), (0x0A3C, 0x0A3C), (0x0A3E, 0x0A42), (0x0A47, 0x0A48),
    (0x0A4B, 0x0A4D), (0x0A51, 0x0A51), (0x0A70, 0x0A71), (0x0A75, 0x0A75), (0x0A81, 0x0A83),
    (0x0ABC, 0x0ABC), (0x0ABE, 0x0AC5), (0x0AC7, 0x0AC9), (0x0ACB, 0x0ACD), (0x0AE2, 0x0AE3),
    (0x0AFA, 0x0AFF), (0x0B01, 0x0B03), (0x0B3C, 0x0B3C), (0x0B3E, 0x0B44), (0x0B47, 0x0B48),
    (0x0B4B, 0x0B4D), (0x0B55, 0x0B57), (0x0B62, 0x0B63), (0x0B82, 0x0B82), (0x0BBE, 0x0BC2),
    (0x0BC6, 0x0BC8), (0x0BCA, 0x0BCD), (0x0BD7, 0x0BD7), (0x0C00, 0x0C04), (0x0C3C, 0x0C3C),
    (0x0C3E, 0x0C44), (0x0C46, 0x0C48), (0x0C4A, 0x0C4D), (0x0C55, 0x0C56), (0x0C62, 0x0C63),
    (0x0C81, 0x0C83), (0x0CBC, 0x0CBC), (0x0CBE, 0x0CC4), (0x0CC6, 0x0CC8), (0x0CCA, 0x0CCD),
    (0x0CD5, 0x0CD6), (0x0CE2, 0x0CE3), (0x0D00, 0x0D03), (0x0D3B, 0x0D3C), (0x0D3E, 0x0D44),
    (0x0D46, 0x0D48), (0x0D4A, 0x0D4D), (0x0D57, 0x0D57), (0x0D62, 0x0D63), (0x0D81, 0x0D83),
    (0x0DCA, 0x0DCA), (0x0DCF, 0x0DD4), (0x0DD6, 0x0DD6), (0x0DD8, 0x0DDF), (0x0DF2, 0x0DF3),
    (0x0E31, 0x0E31), (0x0E34, 0x0E3A), (0x0E47, 0x0E4E), (0x0EB1, 0x0EB1), (0x0EB4, 0x0EBC),
    (0x0EC8, 0x0ECD)]"

definition mark_ranges_bmp :: "(nat \<times> nat) list" where
  "mark_ranges_bmp = [
    (0x0F18, 0x0F19), (0x0F35, 0x0F35), (0x0F37, 0x0F37), (0x0F39, 0x0F39), (0x0F3E, 0x0F3F),
    (0x0F71, 0x0F84), (0x0F86, 0x0F87), (0x0F8D, 0x0FBC), (0x0FC6, 0x0FC6), (0x102B, 0x103E),
    (0x1056, 0x1059), (0x105E, 0x1060), (0x1062, 0x1064), (0x1067, 0x106D), (0x1071, 0x1074),
    (0x1082, 0x108D), (0x108F, 0x108F), (0x109A, 0x109D), (0x135D, 0x135F), (0x1712, 0x1715),
    (0x1732, 0x1734), (0x1752, 0x1753), (0x1772, 0x1773), (0x17B4, 0x17D3), (0x17DD, 0x17DD),
    (0x180B, 0x180F), (0x1885, 0x1886), (0x18A9, 0x18A9), (0x1920, 0x192B), (0x1930, 0x193B),
    (0x1A17, 0x1A1B), (0x1A55, 0x1A5E), (0x1A60, 0x1A7C), (0x1A7F, 0x1A7F), (0x1AB0, 0x1AFF),
    (0x1B00, 0x1B04), (0x1B34, 0x1B44), (0x1B6B, 0x1B73), (0x1B80, 0x1B82), (0x1BA1, 0x1BAD),
    (0x1BE6, 0x1BF3), (0x1C24, 0x1C37), (0x1CD0, 0x1CD2), (0x1CD4, 0x1CE8), (0x1CED, 0x1CED),
    (0x1CF4, 0x1CF4), (0x1CF7, 0x1CF9), (0x1DC0, 0x1DFF), (0x20D0, 0x20FF), (0x2CEF, 0x2CF1),
    (0x2D7F, 0x2D7F), (0x2DE0, 0x2DFF), (0x302A, 0x302F), (0x3099, 0x309A), (0xA66F, 0xA672),
    (0xA674, 0xA67D), (0xA69E, 0xA69F), (0xA6F0, 0xA6F1), (0xA802, 0xA802), (0xA806, 0xA806),
    (0xA80B, 0xA80B), (0xA823, 0xA827), (0xA880, 0xA881), (0xA8B4, 0xA8C5), (0xA8E0, 0xA8F1),
    (0xA8FF, 0xA8FF), (0xA926, 0xA92D), (0xA947, 0xA953), (0xA980, 0xA983), (0xA9B3, 0xA9C0),
    (0xA9E5, 0xA9E5), (0xAA29, 0xAA36), (0xAA43, 0xAA43), (0xAA4C, 0xAA4D), (0xAA7B, 0xAA7D),
    (0xAAB0, 0xAAB0), (0xAAB2, 0xAAB4), (0xAAB7, 0xAAB8), (0xAABE, 0xAABF), (0xAAC1, 0xAAC1),
    (0xAAEB, 0xAAEF), (0xAAF5, 0xAAF6), (0xABE3, 0xABEA), (0xABEC, 0xABED), (0xFB1E, 0xFB1E),
    (0xFE00, 0xFE0F), (0xFE20, 0xFE2F)]"

definition mark_ranges_astral :: "(nat \<times> nat) list" where
  "mark_ranges_astral = [
    (0x101FD, 0x101FD), (0x102E0, 0x102E0), (0x10376, 0x1037A), (0x10A01, 0x10A03),
    (0x10A05, 0x10A06), (0x10A0C, 0x10A0F), (0x10A38, 0x10A3A), (0x10A3F, 0x10A3F),
    (0x10AE5, 0x10AE6), (0x10D24, 0x10D27), (0x10EAB, 0x10EAC), (0x10F46, 0x10F50),
    (0x10F82, 0x10F85), (0x11000, 0x11002), (0x11038, 0x11046), (0x11070, 0x11070),
    (0x11073, 0x11074), (0x1107F, 0x11082), (0x110B0, 0x110BA), (0x11100, 0x11102),
    (0x11127, 0x11134), (0x11145, 0x11146), (0x11173, 0x11173), (0x11180, 0x11182),
    (0x111B3, 0x111C0), (0x111CA, 0x111CC), (0x1122C, 0x11237), (0x1123E, 0x1123E),
    (0x112DF, 0x112EA), (0x11300, 0x11303), (0x1133B, 0x1133C), (0x1133E, 0x11344),
    (0x11347, 0x11348), (0x1134B, 0x1134D), (0x11357, 0x11357), (0x11362, 0x11363),
    (0x11366, 0x1136C), (0x11370, 0x11374), (0x11435, 0x11446), (0x1145E, 0x1145E),
    (0x114B0, 0x114C3), (0x115AF, 0x115B5), (0x115B8, 0x115C0), (0x115DC, 0x115DD),
    (0x11630, 0x11640), (0x116AB, 0x116B7), (0x1171D, 0x1172B), (0x1182C, 0x1183A),
    (0x11930, 0x11935), (0x11937, 0x11938), (0x1193B, 0x1193E), (0x11940, 0x11940),
    (0x11942, 0x11943), (0x119D1, 0x119D7), (0x119DA, 0x119E0), (0x119E4, 0x119E4),
    (0x11A01, 0x11A0A), (0x11A33, 0x11A39), (0x11A3B, 0x11A3E), (0x11A47, 0x11A47),
    (0x11A51, 0x11A5B), (0x11A8A, 0x11A99), (0x11C2F, 0x11C36), (0x11C38, 0x11C3F),
    (0x11C92, 0x11CA7), (0x11CA9, 0x11CB6), (0x11D31, 0x11D36), (0x11D3A, 0x11D3A),
    (0x11D3C, 0x11D3D), (0x11D3F, 0x11D45), (0x11D47, 0x11D47), (0x11D8A, 0x11D8E),
    (0x11D90, 0x11D91), (0x11D93, 0x11D97), (0x11EF3, 0x11EF6), (0x16AF0, 0x16AF4),
    (0x16B30, 0x16B36), (0x16F4F, 0x16F4F), (0x16F51, 0x16F87), (0x16F8F, 0x16F92),
    (0x16FE4, 0x16FE4), (0x1BC9D, 0x1BC9E), (0x1CF00, 0x1CF2D), (0x1CF30, 0x1CF46),
    (0x1D165, 0x1D169), (0x1D16D, 0x1D172), (0x1D17B, 0x1D182), (0x1D185, 0x1D18B),
    (0x1D1AA, 0x1D1AD), (0x1D242, 0x1D244), (0x1DA00, 0x1DA36), (0x1DA3B, 0x1DA6C),
    (0x1DA75, 0x1DA75), (0x1DA84, 0x1DA84), (0x1DA9B, 0x1DA9F), (0x1DAA1, 0x1DAAF),
    (0x1E000, 0x1E006), (0x1E008, 0x1E018), (0x1E01B, 0x1E021), (0x1E023, 0x1E024),
    (0x1E026, 0x1E02A), (0x1E130, 0x1E136), (0x1E2EC, 0x1E2EF), (0x1E8D0, 0x1E8D6),
    (0x1E944, 0x1E94A), (0xE0100, 0xE01EF)]"

definition mark_ranges :: "(nat \<times> nat) list" where
  "mark_ranges = mark_ranges_low @ mark_ranges_bmp @ mark_ranges_astral"

definition char_is_mark :: "nat \<Rightarrow> bool" where
  "char_is_mark code = in_ranges code mark_ranges"

definition char_is_joiner :: "nat \<Rightarrow> bool" where
  "char_is_joiner ch \<longleftrightarrow> ch = 0x200C \<or> ch = 0x200D"

definition is_hangul_jamo :: "nat \<Rightarrow> bool" where
  "is_hangul_jamo ch =
     in_ranges ch [(0x1100, 0x11FF), (0x3130, 0x318F), (0xA960, 0xA97F), (0xD7B0, 0xD7FF)]"

definition is_hangul_leading_jamo :: "nat \<Rightarrow> bool" where
  "is_hangul_leading_jamo ch = in_ranges ch [(0x1100, 0x115F), (0xA960, 0xA97C)]"

definition grammed_char :: "nat \<Rightarrow> bool" where
  "grammed_char ch \<longleftrightarrow> (case script_from_char ch of None \<Rightarrow> False | Some script \<Rightarrow> is_grammed script)"

definition contains_grammed_script :: "cps \<Rightarrow> bool" where
  "contains_grammed_script s = list_ex grammed_char s"

text \<open>\<open>IndexRunKind\<close> and \<open>QueryRunKind\<close>, which have the same variants and the same \<open>from_char\<close>.\<close>

datatype run_kind = Word | Gram | Mark | Separator

definition run_kind_of :: "unicode \<Rightarrow> nat \<Rightarrow> run_kind" where
  "run_kind_of U ch =
     (if char_is_mark ch \<or> char_is_joiner ch then Mark
      else if grammed_char ch then Gram
      else if uc_alphanumeric U ch \<or> ch = 0x5F \<or> ch = 0x2D then Word
      else Separator)"

section \<open>Units and grams\<close>

text \<open>A mark is appended to the last unit; before the first unit it is dropped.\<close>

fun units_loop :: "cps list \<Rightarrow> cps \<Rightarrow> cps list" where
  "units_loop units [] = units"
| "units_loop units (ch # cs) =
     (if char_is_mark ch \<or> char_is_joiner ch
      then units_loop (if units = [] then [] else butlast units @ [last units @ [ch]]) cs
      else units_loop (units @ [[ch]]) cs)"

definition joins_previous :: "cps \<Rightarrow> cps \<Rightarrow> bool" where
  "joins_previous previous unit \<longleftrightarrow>
     unit \<noteq> [] \<and> is_hangul_jamo (hd unit) \<and> \<not> is_hangul_leading_jamo (hd unit)
     \<and> previous \<noteq> [] \<and> is_hangul_jamo (hd previous)"

fun merge_loop :: "cps list \<Rightarrow> cps list \<Rightarrow> cps list" where
  "merge_loop merged [] = merged"
| "merge_loop merged (unit # units) =
     (if unit = [] then merge_loop merged units
      else if merged \<noteq> [] \<and> joins_previous (last merged) unit
      then merge_loop (butlast merged @ [last merged @ unit]) units
      else merge_loop (merged @ [unit]) units)"

definition merge_hangul_jamo_units :: "cps list \<Rightarrow> cps list" where
  "merge_hangul_jamo_units units = merge_loop [] units"

definition graphemeish_units :: "cps \<Rightarrow> cps list" where
  "graphemeish_units run = merge_hangul_jamo_units (units_loop [] run)"

fun adjacent_grams_from_units :: "cps list \<Rightarrow> cps list" where
  "adjacent_grams_from_units (u # v # r) = (u @ v) # adjacent_grams_from_units (v # r)"
| "adjacent_grams_from_units _ = []"

definition adjacent_grams :: "cps \<Rightarrow> cps list" where
  "adjacent_grams run = adjacent_grams_from_units (graphemeish_units run)"

definition grammed_query_terms :: "cps \<Rightarrow> cps list" where
  "grammed_query_terms run =
     (let units = graphemeish_units run
      in if units = [] then [] else if length units \<le> 2 then [run] else adjacent_grams_from_units units)"

section \<open>Runs\<close>

text \<open>The loop of \<open>generated_index_terms\<close> and of \<open>query_term_clauses\<close>: the terms collected so far,
  the current run and its kind. The two functions differ in what they do with a finished run.\<close>

fun run_loop :: "unicode \<Rightarrow> (run_kind option \<Rightarrow> cps \<Rightarrow> cps list) \<Rightarrow> cps list \<Rightarrow> cps \<Rightarrow> run_kind option
    \<Rightarrow> cps \<Rightarrow> cps list" where
  "run_loop U flush terms current current_kind [] = terms @ flush current_kind current"
| "run_loop U flush terms current current_kind (ch # cs) =
     (case run_kind_of U ch of
        Mark \<Rightarrow>
          if current = [] then run_loop U flush terms current current_kind cs
          else run_loop U flush terms (current @ [ch]) current_kind cs
      | Separator \<Rightarrow> run_loop U flush (terms @ flush current_kind current) [] None cs
      | kind \<Rightarrow>
          if current_kind = Some kind then run_loop U flush terms (current @ [ch]) current_kind cs
          else run_loop U flush (terms @ flush current_kind current) [ch] (Some kind) cs)"

definition flush_index_run :: "unicode \<Rightarrow> run_kind option \<Rightarrow> cps \<Rightarrow> cps list" where
  "flush_index_run U current_kind current =
     (if current = [] then []
      else case current_kind of
        Some Gram \<Rightarrow> current # adjacent_grams current
      | Some Word \<Rightarrow> if list_ex (uc_alphanumeric U) current then [current] else []
      | _ \<Rightarrow> [])"

definition generated_index_terms :: "unicode \<Rightarrow> cps \<Rightarrow> cps list" where
  "generated_index_terms U s = run_loop U (flush_index_run U) [] [] None s"

fun join_cps :: "cps \<Rightarrow> cps list \<Rightarrow> cps" where
  "join_cps sep [] = []"
| "join_cps sep [x] = x"
| "join_cps sep (x # y # r) = x @ sep @ join_cps sep (y # r)"

definition scriptgram_index_text :: "unicode \<Rightarrow> cps \<Rightarrow> cps" where
  "scriptgram_index_text U s =
     (if contains_grammed_script s then join_cps [0x20] (generated_index_terms U s) else [])"

section \<open>Queries\<close>

definition quoted_fts_term :: "cps \<Rightarrow> cps" where
  "quoted_fts_term term = [0x22] @ concat (map (\<lambda>c. if c = 0x22 then [0x22, 0x22] else [c]) term) @ [0x22]"

definition trim_fts_term :: "unicode \<Rightarrow> cps \<Rightarrow> cps" where
  "trim_fts_term U term =
     (let outer = (\<lambda>ch. \<not> uc_alphanumeric U ch \<and> ch \<noteq> 0x5F \<and> ch \<noteq> 0x2D)
      in rev (dropWhile outer (rev (dropWhile outer term))))"

definition flush_query_run :: "unicode \<Rightarrow> run_kind option \<Rightarrow> cps \<Rightarrow> cps list" where
  "flush_query_run U current_kind current =
     (if current = [] then []
      else case current_kind of
        Some Gram \<Rightarrow> map quoted_fts_term (grammed_query_terms current)
      | Some Word \<Rightarrow> if list_ex (uc_alphanumeric U) current then [quoted_fts_term current] else []
      | _ \<Rightarrow> [])"

definition query_term_clauses :: "unicode \<Rightarrow> cps \<Rightarrow> cps list" where
  "query_term_clauses U term = run_loop U (flush_query_run U) [] [] None term"

definition and_text :: cps where "and_text = [0x20, 0x41, 0x4E, 0x44, 0x20]"
definition or_text :: cps where "or_text = [0x20, 0x4F, 0x52, 0x20]"

definition query_term_clause :: "unicode \<Rightarrow> cps \<Rightarrow> cps option" where
  "query_term_clause U term =
     (let trimmed = trim_fts_term U term
      in if \<not> list_ex (uc_alphanumeric U) trimmed then None
         else if \<not> contains_grammed_script trimmed then Some (quoted_fts_term trimmed)
         else let clauses = query_term_clauses U trimmed
           in if clauses = [] then Some (quoted_fts_term trimmed)
              else if length clauses = 1 then Some (hd clauses)
              else Some (join_cps and_text clauses))"

fun lexical_loop :: "unicode \<Rightarrow> cps list \<Rightarrow> cps list \<Rightarrow> cps list" where
  "lexical_loop U seen [] = []"
| "lexical_loop U seen (w # ws) =
     (let term = trim_fts_term U w; normalized = uc_lowercase U term
      in if \<not> list_ex (uc_alphanumeric U) term \<or> normalized \<in> set seen then lexical_loop U seen ws
         else term # lexical_loop U (seen @ [normalized]) ws)"

definition lexical_query_terms :: "unicode \<Rightarrow> cps \<Rightarrow> cps list" where
  "lexical_query_terms U query = lexical_loop U [] (split_whitespace query)"

definition scriptgram_match_clauses :: "unicode \<Rightarrow> cps \<Rightarrow> (nat \<times> cps) list" where
  "scriptgram_match_clauses U query =
     (if \<not> contains_grammed_script query then []
      else List.map_filter (\<lambda>(term_index, term). map_option (Pair term_index) (query_term_clause U term))
        (enumerate 0 (lexical_query_terms U query)))"

definition scriptgram_match_query :: "unicode \<Rightarrow> cps \<Rightarrow> cps option" where
  "scriptgram_match_query U query =
     (let clauses = scriptgram_match_clauses U query
      in if clauses = [] then None else Some (join_cps or_text (map snd clauses)))"

text \<open>\<open>fts_match_query\<close> of \<open>search/projections.rs\<close>, for the index of whole words.\<close>

definition fts_match_clauses :: "unicode \<Rightarrow> cps \<Rightarrow> cps list" where
  "fts_match_clauses U query = map quoted_fts_term (lexical_query_terms U query)"

definition fts_match_query :: "unicode \<Rightarrow> cps \<Rightarrow> cps option" where
  "fts_match_query U query =
     (let terms = fts_match_clauses U query in if terms = [] then None else Some (join_cps or_text terms))"

section \<open>Runs of grammed text\<close>

lemma run_loop_terms: "run_loop U f T cur k s = T @ run_loop U f [] cur k s"
proof (induction s arbitrary: T cur k)
  case (Cons ch cs)
  show ?case
    by (cases "run_kind_of U ch")
      (simp_all add: Cons.IH [of T] Cons.IH [of "T @ f k cur"] Cons.IH [of "f k cur"])
qed simp

definition gram_run :: "unicode \<Rightarrow> cps \<Rightarrow> bool" where
  "gram_run U s \<longleftrightarrow> list_all (\<lambda>c. run_kind_of U c = Gram \<or> run_kind_of U c = Mark) s"

definition starts_unit :: "cps \<Rightarrow> bool" where
  "starts_unit s \<longleftrightarrow> s \<noteq> [] \<and> \<not> char_is_mark (hd s) \<and> \<not> char_is_joiner (hd s)
     \<and> (is_hangul_jamo (hd s) \<longrightarrow> is_hangul_leading_jamo (hd s))"

lemma run_loop_gram:
  "cur \<noteq> [] \<Longrightarrow> gram_run U s \<Longrightarrow>
   run_loop U f T cur (Some Gram) (s @ r) = run_loop U f T (cur @ s) (Some Gram) r"
  by (induction s arbitrary: cur) (auto simp: gram_run_def)

lemma run_loop_prefix:
  assumes "k = Some Gram \<longrightarrow> starts_unit cur \<or> cur \<noteq> []"
  obtains T' cur' k' where "\<And>r. run_loop U f T cur k (a @ r) = run_loop U f T' cur' k' r"
    "k' = Some Gram \<longrightarrow> cur' \<noteq> []"
proof -
  from assms have "k = Some Gram \<longrightarrow> cur \<noteq> []" by (auto simp: starts_unit_def)
  then have "\<exists>T' cur' k'. (\<forall>r. run_loop U f T cur k (a @ r) = run_loop U f T' cur' k' r)
      \<and> (k' = Some Gram \<longrightarrow> cur' \<noteq> [])"
  proof (induction a arbitrary: T cur k)
    case (Cons ch cs)
    let ?kind = "run_kind_of U ch"
    have "\<exists>T1 cur1 k1. (\<forall>r. run_loop U f T cur k (ch # r) = run_loop U f T1 cur1 k1 r)
        \<and> (k1 = Some Gram \<longrightarrow> cur1 \<noteq> [])"
    proof (cases "?kind = Mark \<or> ?kind = Separator")
      case True
      then show ?thesis
        by (rule_tac x = "if ?kind = Mark then T else T @ f k cur" in exI,
            rule_tac x = "if ?kind = Mark \<and> cur \<noteq> [] then cur @ [ch] else []" in exI,
            rule_tac x = "if ?kind = Mark then k else None" in exI) (use Cons.prems in auto)
    next
      case False
      then show ?thesis
        by (rule_tac x = "if k = Some ?kind then T else T @ f k cur" in exI,
            rule_tac x = "if k = Some ?kind then cur @ [ch] else [ch]" in exI,
            rule_tac x = "Some ?kind" in exI) (cases ?kind; auto)
    qed
    then obtain T1 cur1 k1 where
      step: "\<And>r. run_loop U f T cur k (ch # r) = run_loop U f T1 cur1 k1 r" "k1 = Some Gram \<longrightarrow> cur1 \<noteq> []"
      by blast
    from Cons.IH [OF step(2)] show ?case by (simp only: append_Cons step(1))
  qed auto
  then show ?thesis using that by blast
qed

lemma run_loop_flushes:
  "cur \<noteq> [] \<Longrightarrow> \<exists>b1 b2. b = b1 @ b2 \<and> set (f (Some Gram) (cur @ b1)) \<subseteq> set (run_loop U f T cur (Some Gram) b)"
proof (induction b arbitrary: T cur)
  case (Cons ch b)
  show ?case
  proof (cases "run_kind_of U ch = Gram \<or> run_kind_of U ch = Mark")
    case True
    from Cons.IH [of "cur @ [ch]" T] obtain b1 b2 where
      "b = b1 @ b2" "set (f (Some Gram) ((cur @ [ch]) @ b1)) \<subseteq> set (run_loop U f T (cur @ [ch]) (Some Gram) b)"
      by auto
    with True Cons.prems show ?thesis by (rule_tac x = "ch # b1" in exI, rule_tac x = b2 in exI) auto
  next
    case False
    have keeps: "set (f (Some Gram) cur) \<subseteq> set (run_loop U f (T @ f (Some Gram) cur) c k b)" for c k
      by (subst run_loop_terms) auto
    from False have "set (f (Some Gram) cur) \<subseteq> set (run_loop U f T cur (Some Gram) (ch # b))"
      by (cases "run_kind_of U ch") (use keeps in auto)
    then show ?thesis by (rule_tac x = "[]" in exI) simp
  qed
qed auto

text \<open>A grammed text inside another one ends up in the flush of one run around it.\<close>

lemma index_terms_of_run:
  assumes "gram_run U q" "q \<noteq> []" "run_kind_of U (hd q) = Gram"
  obtains pre b1 b2 where "b = b1 @ b2"
    "set (flush_index_run U (Some Gram) (pre @ q @ b1)) \<subseteq> set (generated_index_terms U (a @ q @ b))"
proof -
  let ?f = "flush_index_run U"
  obtain T cur k where a: "\<And>r. run_loop U ?f [] [] None (a @ r) = run_loop U ?f T cur k r"
      "k = Some Gram \<longrightarrow> cur \<noteq> []"
    using run_loop_prefix [of None "[]" U ?f "[]" a] by blast
  from assms(2) obtain g q' where q: "q = g # q'" by (cases q) auto
  with assms have g: "run_kind_of U g = Gram" "gram_run U q'" by (simp_all add: gram_run_def)
  have "\<exists>T' pre. run_loop U ?f T cur k (q @ b) = run_loop U ?f T' (pre @ q) (Some Gram) b"
  proof (cases "k = Some Gram")
    case True
    with a(2) assms(1) show ?thesis using run_loop_gram [of cur U q ?f T b] by blast
  next
    case False
    with g have "run_loop U ?f T cur k (q @ b) = run_loop U ?f (T @ ?f k cur) [g] (Some Gram) (q' @ b)"
      by (simp add: q)
    also have "\<dots> = run_loop U ?f (T @ ?f k cur) ([] @ q) (Some Gram) b"
      using run_loop_gram [of "[g]" U q' ?f _ b] g(2) by (simp add: q)
    finally show ?thesis by blast
  qed
  then obtain T' pre where pre: "run_loop U ?f T cur k (q @ b) = run_loop U ?f T' (pre @ q) (Some Gram) b"
    by blast
  moreover obtain b1 b2 where "b = b1 @ b2"
    "set (?f (Some Gram) ((pre @ q) @ b1)) \<subseteq> set (run_loop U ?f T' (pre @ q) (Some Gram) b)"
    using run_loop_flushes [of "pre @ q" b ?f U T'] assms(2) by auto
  ultimately show ?thesis
    using a(1) [of "q @ b"] that [of b1 b2 pre] by (simp add: generated_index_terms_def)
qed

section \<open>Units of a concatenation\<close>

lemma units_loop_append: "units_loop us (s @ t) = units_loop (units_loop us s) t"
  by (induction us s rule: units_loop.induct) auto

lemma units_loop_last: "units_loop (us @ [v]) cs = us @ units_loop [v] cs"
proof (induction cs arbitrary: us v)
  case (Cons ch cs)
  have "units_loop (us @ [w, [ch]]) cs = us @ units_loop [w, [ch]] cs" for w
    using Cons.IH [of "us @ [w]" "[ch]"] Cons.IH [of "[w]" "[ch]"] by simp
  with Cons.IH show ?case by auto
qed simp

lemma units_loop_starts:
  assumes "starts_unit s" shows "units_loop us s = us @ units_loop [] s"
  using assms units_loop_last [of us "[hd s]" "tl s"] by (cases s) (auto simp: starts_unit_def)

lemma units_loop_head: "\<exists>u' us'. units_loop ((c # u) # us) cs = (c # u') # us'"
proof (induction cs arbitrary: u us)
  case (Cons ch cs)
  show ?case
    using Cons.IH [of "u @ [ch]" "[]"] Cons.IH [of u "butlast us @ [last us @ [ch]]"]
      Cons.IH [of u "us @ [[ch]]"]
    by (cases "us = []") auto
qed simp

lemma merge_loop_append: "merge_loop m (us @ vs) = merge_loop (merge_loop m us) vs"
  by (induction m us rule: merge_loop.induct) auto

lemma merge_loop_last: "merge_loop (m @ [v]) us = m @ merge_loop [v] us"
proof (induction us arbitrary: m v)
  case (Cons u us)
  have "merge_loop (m @ [v, u]) us = m @ merge_loop [v, u] us"
    using Cons.IH [of "m @ [v]" u] Cons.IH [of "[v]" u] by simp
  with Cons.IH show ?case by auto
qed simp

lemma graphemeish_units_append:
  assumes "t = [] \<or> starts_unit t"
  shows "graphemeish_units (s @ t) = graphemeish_units s @ graphemeish_units t"
proof (cases "t = []")
  case True
  then show ?thesis by (simp add: graphemeish_units_def merge_hangul_jamo_units_def)
next
  case False
  with assms have t: "starts_unit t" by simp
  then have mark: "\<not> char_is_mark (hd t)" "\<not> char_is_joiner (hd t)"
    by (auto simp: starts_unit_def)
  obtain u us where units: "units_loop [] t = (hd t # u) # us"
    using units_loop_head [of "hd t" "[]" "[]" "tl t"] mark False by (cases t) auto
  have "merge_loop m ((hd t # u) # us) = m @ merge_loop [] ((hd t # u) # us)" for m
    using t merge_loop_last [of m "hd t # u" us] by (auto simp: joins_previous_def starts_unit_def)
  then show ?thesis
    using units_loop_starts [OF t, of "units_loop [] s"]
    by (simp add: graphemeish_units_def merge_hangul_jamo_units_def units_loop_append
        merge_loop_append units)
qed

lemma concat_units_loop: "us \<noteq> [] \<Longrightarrow> concat (units_loop us s) = concat us @ s"
proof (induction us s rule: units_loop.induct)
  case (2 units ch cs)
  then have "concat (butlast units) @ last units = concat units"
    by (metis append_butlast_last_id concat.simps concat_append append_Nil2)
  with 2 show ?case by simp
qed simp

lemma concat_merge_loop: "concat (merge_loop m us) = concat m @ concat us"
proof (induction m us rule: merge_loop.induct)
  case (2 merged unit units)
  moreover have "concat (butlast merged) @ last merged = concat merged" if "merged \<noteq> []"
    using that by (metis append_butlast_last_id concat.simps concat_append append_Nil2)
  ultimately show ?case by (auto simp flip: append_assoc)
qed simp

lemma concat_graphemeish_units: "starts_unit s \<Longrightarrow> concat (graphemeish_units s) = s"
  using concat_units_loop [of "[[hd s]]" "tl s"]
  by (cases s) (auto simp: graphemeish_units_def merge_hangul_jamo_units_def concat_merge_loop
      starts_unit_def)

lemma grams_Cons: "set (adjacent_grams_from_units us) \<subseteq> set (adjacent_grams_from_units (u # us))"
  by (cases us) auto

lemma grams_append_left: "set (adjacent_grams_from_units us) \<subseteq> set (adjacent_grams_from_units (vs @ us))"
  by (induction vs) (use grams_Cons in auto)

lemma grams_append_right: "set (adjacent_grams_from_units us) \<subseteq> set (adjacent_grams_from_units (us @ vs))"
  by (induction us rule: adjacent_grams_from_units.induct) auto

text \<open>The terms of a query of two or more units are grams of every run that has it at unit
  boundaries.\<close>

lemma query_terms_are_grams:
  assumes "starts_unit q" "b = [] \<or> starts_unit b" "2 \<le> length (graphemeish_units q)"
  shows "set (grammed_query_terms q) \<subseteq> set (adjacent_grams (a @ q @ b))"
proof -
  have "graphemeish_units (a @ q @ b) = graphemeish_units a @ graphemeish_units q @ graphemeish_units b"
    using graphemeish_units_append [of "q @ b" a] graphemeish_units_append [OF assms(2), of q] assms(1)
    by (simp add: starts_unit_def)
  then have "set (adjacent_grams_from_units (graphemeish_units q)) \<subseteq> set (adjacent_grams (a @ q @ b))"
    using grams_append_left grams_append_right unfolding adjacent_grams_def
    by (metis subset_trans)
  moreover have "set (grammed_query_terms q) \<subseteq> set (adjacent_grams_from_units (graphemeish_units q))"
  proof (cases "length (graphemeish_units q) = 2")
    case True
    then obtain u v where "graphemeish_units q = [u, v]"
      by (metis One_nat_def length_0_conv length_Suc_conv numeral_2_eq_2)
    with concat_graphemeish_units [OF assms(1)] show ?thesis
      by (simp add: grammed_query_terms_def)
  qed (use assms(3) in \<open>auto simp: grammed_query_terms_def Let_def\<close>)
  ultimately show ?thesis by blast
qed

section \<open>Properties\<close>

lemma gram_starts:
  assumes "gram_run U q" "starts_unit q"
  shows "q \<noteq> []" "run_kind_of U (hd q) = Gram"
  using assms by (cases q; auto simp: gram_run_def starts_unit_def run_kind_of_def split: if_splits)+

lemma query_clauses_of_run:
  assumes "gram_run U q" "starts_unit q"
  shows "query_term_clauses U q = map quoted_fts_term (grammed_query_terms q)"
proof -
  note q = gram_starts [OF assms]
  have tl: "gram_run U (tl q)" using assms(1) q(1) by (cases q) (simp_all add: gram_run_def)
  have "query_term_clauses U q = run_loop U (flush_query_run U) [] [] None (hd q # tl q)"
    using q(1) by (simp add: query_term_clauses_def)
  also have "\<dots> = run_loop U (flush_query_run U) [] [hd q] (Some Gram) (tl q @ [])"
    using q(2) by (simp add: flush_query_run_def)
  also have "\<dots> = run_loop U (flush_query_run U) [] ([hd q] @ tl q) (Some Gram) []"
    using run_loop_gram [of "[hd q]" U "tl q" _ _ "[]"] tl by simp
  finally show ?thesis using q(1) by (simp add: flush_query_run_def)
qed

text \<open>C26: Substring search of text in a grammed script is complete: every full-text clause made for
  a query of two or more units is a quoted term of the index of any document that contains the
  query at unit boundaries, whatever surrounds it.\<close>

theorem scriptgram_search_complete:
  assumes "gram_run U q" "starts_unit q" "b = [] \<or> starts_unit b" "2 \<le> length (graphemeish_units q)"
  shows "set (query_term_clauses U q) \<subseteq> quoted_fts_term ` set (generated_index_terms U (a @ q @ b))"
proof -
  note q = gram_starts [OF assms(1,2)]
  obtain pre b1 b2 where b: "b = b1 @ b2"
    "set (flush_index_run U (Some Gram) (pre @ q @ b1)) \<subseteq> set (generated_index_terms U (a @ q @ b))"
    by (rule index_terms_of_run [OF assms(1) q, where a = a and b = b])
  have "b1 = [] \<or> starts_unit b1"
    using assms(3) b(1) by (cases b1) (auto simp: starts_unit_def)
  from query_terms_are_grams [OF assms(2) this assms(4), of pre] b(2) q(1)
  have "set (grammed_query_terms q) \<subseteq> set (generated_index_terms U (a @ q @ b))"
    by (auto simp: flush_index_run_def)
  then show ?thesis by (auto simp: query_clauses_of_run [OF assms(1,2)])
qed

text \<open>ASCII letters and digits, and the scripts above, for the witnesses.\<close>

definition demo_unicode :: unicode where
  "demo_unicode =
     \<lparr>uc_alphanumeric = (\<lambda>c. 48 \<le> c \<and> c \<le> 57 \<or> 65 \<le> c \<and> c \<le> 90 \<or> 97 \<le> c \<and> c \<le> 122
        \<or> grammed_char c),
      uc_lowercase = map (\<lambda>c. if 65 \<le> c \<and> c \<le> 90 then c + 32 else c)\<rparr>"

theorem scriptgram_search_complete_witness:
  "set (query_term_clauses demo_unicode [0x6771, 0x4EAC, 0x90FD])
   \<subseteq> quoted_fts_term ` set (generated_index_terms demo_unicode
        ([0x61, 0x20, 0x5927] @ [0x6771, 0x4EAC, 0x90FD] @ [0x3042, 0x62]))"
proof (rule scriptgram_search_complete)
  note kind_defs = run_kind_of_def char_is_mark_def mark_ranges_def mark_ranges_low_def
    mark_ranges_bmp_def mark_ranges_astral_def char_is_joiner_def
    grammed_char_def is_grammed_def script_from_char_def is_hangul_jamo_def in_ranges_simps
  have kinds: "run_kind_of demo_unicode 0x6771 = Gram" "run_kind_of demo_unicode 0x4EAC = Gram"
      "run_kind_of demo_unicode 0x90FD = Gram"
    by (simp_all add: kind_defs)
  have units: "\<not> char_is_mark 0x6771" "\<not> char_is_mark 0x4EAC" "\<not> char_is_mark 0x90FD" "\<not> char_is_mark 0x3042"
      "\<not> char_is_joiner 0x6771" "\<not> char_is_joiner 0x4EAC" "\<not> char_is_joiner 0x90FD" "\<not> char_is_joiner 0x3042"
      "\<not> is_hangul_jamo 0x6771" "\<not> is_hangul_jamo 0x4EAC" "\<not> is_hangul_jamo 0x90FD" "\<not> is_hangul_jamo 0x3042"
    by (simp_all add: kind_defs)
  show "gram_run demo_unicode [0x6771, 0x4EAC, 0x90FD]"
    by (simp add: gram_run_def kinds)
  show "starts_unit [0x6771, 0x4EAC, 0x90FD]" "[0x3042, 0x62] = ([] :: cps) \<or> starts_unit [0x3042, 0x62]"
    by (simp_all add: starts_unit_def units)
  show "2 \<le> length (graphemeish_units [0x6771, 0x4EAC, 0x90FD])"
    by (simp add: graphemeish_units_def merge_hangul_jamo_units_def joins_previous_def units)
qed

lemma lexical_loop_terms:
  "distinct (map (uc_lowercase U) (lexical_loop U seen ws))
   \<and> uc_lowercase U ` set (lexical_loop U seen ws)
     = uc_lowercase U ` trim_fts_term U ` {w \<in> set ws. list_ex (uc_alphanumeric U) (trim_fts_term U w)}
       - set seen"
proof (induction ws arbitrary: seen)
  case (Cons w ws)
  let ?t = "trim_fts_term U w" and ?alnum = "\<lambda>w. list_ex (uc_alphanumeric U) (trim_fts_term U w)"
  let ?A = "\<lambda>ws. uc_lowercase U ` trim_fts_term U ` {w \<in> set ws. ?alnum w}"
  show ?case
  proof (cases "?alnum w \<and> uc_lowercase U ?t \<notin> set seen")
    case True
    then have loop: "lexical_loop U seen (w # ws) = ?t # lexical_loop U (seen @ [uc_lowercase U ?t]) ws"
      by (simp add: Let_def)
    have "?A (w # ws) = insert (uc_lowercase U ?t) (?A ws)" using True by auto
    with True Cons.IH [of "seen @ [uc_lowercase U ?t]"] show ?thesis
      unfolding loop by auto
  next
    case False
    then have loop: "lexical_loop U seen (w # ws) = lexical_loop U seen ws"
      by (auto simp: Let_def)
    have "?A (w # ws) - set seen = ?A ws - set seen" using False by auto
    with Cons.IH [of seen] show ?thesis unfolding loop by simp
  qed
qed simp

text \<open>The terms of a lexical query are distinct up to case, and up to case they are exactly the
  trimmed whitespace-separated words of the query that hold a letter or digit: none is lost,
  none is searched twice.\<close>

theorem lexical_query_terms_exact:
  "distinct (map (uc_lowercase U) (lexical_query_terms U query))
   \<and> uc_lowercase U ` set (lexical_query_terms U query)
     = uc_lowercase U ` trim_fts_term U
         ` {w \<in> set (split_whitespace query). list_ex (uc_alphanumeric U) (trim_fts_term U w)}"
  using lexical_loop_terms [of U "[]" "split_whitespace query"]
  by (simp only: lexical_query_terms_def list.set Diff_empty)

end
