(* ===== verification/Sql_Text.thy ===== *)
theory Sql_Text
  imports Rust_Text
begin

text \<open>
  The texts the program writes into SQL: literals (\<open>commands/turso.rs\<close> of \<open>ctx-cli\<close>), LIKE
  patterns (\<open>commands/turso.rs\<close>, \<open>files.rs\<close> of \<open>ctx-history-store\<close>) and full-text queries, with
  SQLite's documented reading of a literal and of LIKE, against which they are proved.
\<close>

section \<open>Literals\<close>

definition sql_text_literal :: "string \<Rightarrow> string" where
  "sql_text_literal value = [CHR 0x27] @ replace_char (CHR 0x27) [CHR 0x27, CHR 0x27] value @ [CHR 0x27]"

definition optional_sql_text_literal :: "string option \<Rightarrow> string" where
  "optional_sql_text_literal value =
     (case value of Some v \<Rightarrow> sql_text_literal v | None \<Rightarrow> ''NULL'')"

text \<open>Reading a literal: after the opening quote, a doubled quote is one, a single one ends it. A NUL byte is
  read like any other; that the reader of the SQL text does not stop there is taken for granted.\<close>

fun literal_body :: "string \<Rightarrow> (string \<times> string) option" where
  "literal_body [] = None"
| "literal_body [c] = (if c = CHR 0x27 then Some ([], []) else None)"
| "literal_body (c # d # r) =
     (if c \<noteq> CHR 0x27 then map_option (\<lambda>(v, rest). (c # v, rest)) (literal_body (d # r))
      else if d = CHR 0x27 then map_option (\<lambda>(v, rest). (c # v, rest)) (literal_body r)
      else Some ([], d # r))"

fun lex_literal :: "string \<Rightarrow> (string \<times> string) option" where
  "lex_literal (c # r) = (if c = CHR 0x27 then literal_body r else None)"
| "lex_literal [] = None"

lemma literal_body_escaped:
  assumes "rest = [] \<or> hd rest \<noteq> CHR 0x27"
  shows "literal_body (replace_char (CHR 0x27) [CHR 0x27, CHR 0x27] v @ CHR 0x27 # rest) = Some (v, rest)"
proof (induction v)
  case Nil
  then show ?case using assms by (cases rest) auto
next
  case (Cons c v)
  have step: "literal_body (c # s) = map_option (\<lambda>(v, rest). (c # v, rest)) (literal_body s)"
    if "c \<noteq> CHR 0x27" "s \<noteq> []" for s
    using that by (cases s) auto
  show ?case using Cons.IH by (cases "c = CHR 0x27") (auto simp: step)
qed

section \<open>LIKE\<close>

text \<open>ASCII letters compare without case; \<open>%\<close> stands for any text, \<open>_\<close> for one character.\<close>

definition fold_ascii :: "char \<Rightarrow> char" where
  "fold_ascii c = (let n = (of_char c :: nat) in if 65 \<le> n \<and> n \<le> 90 then char_of (n + 32) else c)"

function like_match :: "char option \<Rightarrow> string \<Rightarrow> string \<Rightarrow> bool" where
  "like_match esc [] s \<longleftrightarrow> s = []"
| "like_match esc (p # ps) s \<longleftrightarrow>
     (if esc = Some p then
        (case (ps, s) of
           (q # qs, c # cs) \<Rightarrow> fold_ascii c = fold_ascii q \<and> like_match esc qs cs
         | _ \<Rightarrow> False)
      else if p = CHR ''%'' then
        like_match esc ps s \<or> (case s of [] \<Rightarrow> False | c # cs \<Rightarrow> like_match esc (p # ps) cs)
      else if p = CHR ''_'' then
        (case s of [] \<Rightarrow> False | c # cs \<Rightarrow> like_match esc ps (dropWhile is_continuation cs))
      else (case s of [] \<Rightarrow> False | c # cs \<Rightarrow> fold_ascii c = fold_ascii p \<and> like_match esc ps cs))"
  by pat_completeness auto
termination
  by (relation "measure (\<lambda>(e, p, s). length p + length s)")
    (auto simp: less_Suc_eq_le le_SucI length_dropWhile_le)

definition same_ascii :: "string \<Rightarrow> string \<Rightarrow> bool" where
  "same_ascii s t \<longleftrightarrow> map fold_ascii s = map fold_ascii t"

lemma like_percent:
  assumes "esc \<noteq> Some (CHR ''%'')"
  shows "like_match esc (CHR ''%'' # ps) s \<longleftrightarrow> (\<exists>a b. s = a @ b \<and> like_match esc ps b)"
proof (induction s)
  case Nil
  then show ?case using assms by simp
next
  case (Cons c s)
  have "like_match esc (CHR ''%'' # ps) (c # s)
      \<longleftrightarrow> like_match esc ps (c # s) \<or> like_match esc (CHR ''%'' # ps) s"
    using assms by (subst like_match.simps) simp
  also have "\<dots> \<longleftrightarrow> (\<exists>a b. c # s = a @ b \<and> like_match esc ps b)"
    unfolding Cons.IH by (auto simp: Cons_eq_append_conv)
  finally show ?case .
qed

declare like_match.simps [simp del]

section \<open>Substring and suffix patterns\<close>

definition substring_pattern :: "string \<Rightarrow> string" where
  "substring_pattern query =
     ''%'' @ replace_char (CHR ''_'') [CHR 0x5C, CHR ''_'']
       (replace_char (CHR ''%'') [CHR 0x5C, CHR ''%'']
         (replace_char (CHR 0x5C) [CHR 0x5C, CHR 0x5C] query)) @ ''%''"

definition escape_like_pattern :: "string \<Rightarrow> string" where
  "escape_like_pattern value =
     concat (map (\<lambda>ch. if ch \<in> {CHR 0x5C, CHR ''%'', CHR ''_''} then [CHR 0x5C, ch] else [ch]) value)"

text \<open>Three passes of replacement escape what one pass does.\<close>

lemma three_replacements:
  "replace_char (CHR ''_'') [CHR 0x5C, CHR ''_'']
     (replace_char (CHR ''%'') [CHR 0x5C, CHR ''%'']
       (replace_char (CHR 0x5C) [CHR 0x5C, CHR 0x5C] q)) = escape_like_pattern q"
  by (induction q) (auto simp: escape_like_pattern_def replace_char_def)

lemma like_escaped:
  "like_match (Some (CHR 0x5C)) (escape_like_pattern q @ ps) s
   \<longleftrightarrow> (\<exists>a b. s = a @ b \<and> same_ascii a q \<and> like_match (Some (CHR 0x5C)) ps b)"
proof (induction q arbitrary: s)
  case Nil
  then show ?case by (simp add: escape_like_pattern_def same_ascii_def)
next
  case (Cons c q)
  have pat: "escape_like_pattern (c # q) @ ps
      = (if c \<in> {CHR 0x5C, CHR ''%'', CHR ''_''} then [CHR 0x5C, c] else [c]) @ escape_like_pattern q @ ps"
    by (simp add: escape_like_pattern_def)
  have "like_match (Some (CHR 0x5C)) (escape_like_pattern (c # q) @ ps) s
      \<longleftrightarrow> (\<exists>d r. s = d # r \<and> fold_ascii d = fold_ascii c
            \<and> like_match (Some (CHR 0x5C)) (escape_like_pattern q @ ps) r)"
    unfolding pat by (cases s) (auto simp: like_match.simps(2))
  also have "\<dots> \<longleftrightarrow> (\<exists>d a b. s = d # a @ b \<and> fold_ascii d = fold_ascii c \<and> same_ascii a q
            \<and> like_match (Some (CHR 0x5C)) ps b)"
    unfolding Cons.IH by blast
  also have "\<dots> \<longleftrightarrow> (\<exists>a b. s = a @ b \<and> same_ascii a (c # q) \<and> like_match (Some (CHR 0x5C)) ps b)"
    by (auto simp: same_ascii_def map_eq_Cons_conv) (metis append_Cons list.simps(9))+
  finally show ?case .
qed

lemma like_escaped_end: "like_match (Some (CHR 0x5C)) (escape_like_pattern q) s \<longleftrightarrow> same_ascii s q"
  using like_escaped [of q "[]" s] by (simp add: like_match.simps(1))

text \<open>\<open>file_touch_match_values\<close>: the exact path and the pattern of its suffix.\<close>

definition file_touch_match_values :: "string \<Rightarrow> (string \<times> string) option" where
  "file_touch_match_values file =
     (let exact = trim file
      in if exact = [] then None
         else let suffix = dropWhile (\<lambda>c. c = CHR ''/'' \<or> c = CHR 0x5C) exact
           in Some (exact, ''%/'' @ escape_like_pattern suffix))"

section \<open>Full-text queries\<close>

text \<open>Every word becomes a quoted string, its quotes doubled; the words are joined with \<open>AND\<close>.\<close>

fun split_words :: "string \<Rightarrow> string \<Rightarrow> string list" where
  "split_words cur [] = (if cur = [] then [] else [cur])"
| "split_words cur (c # s) =
     (case leading_space (c # s) of
        Some w \<Rightarrow> (if cur = [] then [] else [cur]) @ split_words [] (drop (length w - 1) s)
      | None \<Rightarrow> split_words (cur @ [c]) s)"

definition remote_fts_match_query :: "string \<Rightarrow> string" where
  "remote_fts_match_query query =
     join '' AND ''
       (map (\<lambda>term. [CHR 0x22] @ replace_char (CHR 0x22) [CHR 0x22, CHR 0x22] term @ [CHR 0x22])
         (filter (\<lambda>term. term \<noteq> []) (split_words [] query)))"

section \<open>Bounded arguments\<close>

definition parse_usize :: "string \<Rightarrow> nat option" where
  "parse_usize s = parse_unsigned (2 ^ 64) s"

definition bounded_argument :: "nat \<Rightarrow> nat \<Rightarrow> string \<Rightarrow> nat option" where
  "bounded_argument low high value =
     (case parse_usize value of
        None \<Rightarrow> None
      | Some n \<Rightarrow> if low \<le> n \<and> n \<le> high then Some n else None)"

definition MAX_PUSH_BATCH_SIZE :: nat where "MAX_PUSH_BATCH_SIZE = 1000"
definition MAX_SEARCH_LIMIT :: nat where "MAX_SEARCH_LIMIT = 200"
definition MIN_REMOTE_SYNC_INTERVAL_SECONDS :: nat where "MIN_REMOTE_SYNC_INTERVAL_SECONDS = 15"
definition MAX_REMOTE_SYNC_INTERVAL_SECONDS :: nat where "MAX_REMOTE_SYNC_INTERVAL_SECONDS = 3600"

definition parse_push_batch_size :: "string \<Rightarrow> nat option" where
  "parse_push_batch_size value = bounded_argument 1 MAX_PUSH_BATCH_SIZE value"

definition parse_remote_sync_interval_seconds :: "string \<Rightarrow> nat option" where
  "parse_remote_sync_interval_seconds value =
     bounded_argument MIN_REMOTE_SYNC_INTERVAL_SECONDS MAX_REMOTE_SYNC_INTERVAL_SECONDS value"

definition parse_search_limit :: "string \<Rightarrow> nat option" where
  "parse_search_limit value = bounded_argument 1 MAX_SEARCH_LIMIT value"

section \<open>Properties\<close>

text \<open>C25: A text literal the program writes is read back as the value, however many quotes the value
  holds, and the reader stops right behind it: no text can close its literal early and become
  SQL.\<close>

theorem sql_literal_reads_back:
  assumes "rest = [] \<or> hd rest \<noteq> CHR 0x27"
  shows "lex_literal (sql_text_literal value @ rest) = Some (value, rest)"
  using literal_body_escaped [OF assms, of "value"] by (simp add: sql_text_literal_def)

theorem sql_literal_reads_back_witness:
  "lex_literal (sql_text_literal [CHR 0x27, CHR '')'', CHR '';''] @ '');'')
   = Some ([CHR 0x27, CHR '')'', CHR '';''], '');'')"
  by (rule sql_literal_reads_back) simp

text \<open>The pattern of a substring search matches exactly the texts that contain the query (up to
  the case of ASCII letters): percent signs, underscores and backslashes of the query stand for
  themselves.\<close>

theorem substring_pattern_exact:
  "like_match (Some (CHR 0x5C)) (substring_pattern query) s
   \<longleftrightarrow> (\<exists>before found after. s = before @ found @ after \<and> same_ascii found query)"
proof -
  have tail: "like_match (Some (CHR 0x5C)) ''%'' r" for r
    by (auto simp: like_percent like_match.simps(1))
  have "substring_pattern query = CHR ''%'' # escape_like_pattern query @ ''%''"
    by (simp add: substring_pattern_def three_replacements)
  then show ?thesis by (auto simp: like_percent like_escaped tail)
qed

text \<open>The suffix pattern of a file filter matches exactly the paths that end in a slash and the
  trimmed filter without its leading slashes (up to the case of ASCII letters).\<close>

theorem file_suffix_pattern_exact:
  assumes "file_touch_match_values file = Some (exact, pattern)"
  shows "like_match (Some (CHR 0x5C)) pattern path
    \<longleftrightarrow> (\<exists>dir name. path = dir @ CHR ''/'' # name
          \<and> same_ascii name (dropWhile (\<lambda>c. c = CHR ''/'' \<or> c = CHR 0x5C) exact))"
proof -
  let ?suffix = "dropWhile (\<lambda>c. c = CHR ''/'' \<or> c = CHR 0x5C) exact"
  have fold: "fold_ascii c = fold_ascii CHR ''/'' \<longleftrightarrow> c = CHR ''/''" for c
  proof
    assume eq: "fold_ascii c = fold_ascii CHR ''/''"
    show "c = CHR ''/''"
    proof (cases "65 \<le> (of_char c :: nat) \<and> (of_char c :: nat) \<le> 90")
      case True
      then have "(of_char (fold_ascii c) :: nat) = of_char c + 32"
        by (simp add: fold_ascii_def)
      with eq True show ?thesis by (simp add: fold_ascii_def)
    qed (use eq in \<open>auto simp: fold_ascii_def\<close>)
  qed simp
  have pattern: "pattern = CHR ''%'' # CHR ''/'' # escape_like_pattern ?suffix"
    using assms by (auto simp: file_touch_match_values_def Let_def split: if_splits)
  have "like_match (Some (CHR 0x5C)) (CHR ''/'' # escape_like_pattern ?suffix) s
      \<longleftrightarrow> (\<exists>name. s = CHR ''/'' # name \<and> same_ascii name ?suffix)" for s
    by (cases s) (auto simp: fold like_escaped_end like_match.simps)
  then show ?thesis unfolding pattern by (auto simp: like_percent)
qed

theorem file_suffix_pattern_exact_witness:
  "like_match (Some (CHR 0x5C)) ''%/a'' ''src/A''"
proof -
  have t: "trim ''/a'' = ''/a''" by (rule trim_graph) (simp_all add: is_graph_def)
  have "file_touch_match_values ''/a'' = Some (''/a'', ''%/a'')"
    by (simp add: file_touch_match_values_def t escape_like_pattern_def Let_def)
  moreover have case_less: "same_ascii ''A'' ''a''" by code_simp
  ultimately show ?thesis using file_suffix_pattern_exact [of "''/a''" "''/a''" "''%/a''" "''src/A''"]
    by auto
qed

text \<open>The three bounded arguments accept the decimal texts of exactly the numbers in their
  ranges, and every value they accept, however written, is in the range.\<close>

theorem bounded_arguments:
  "(parse_push_batch_size (dec n) = Some n \<longleftrightarrow> 1 \<le> n \<and> n \<le> 1000)
   \<and> (parse_search_limit (dec n) = Some n \<longleftrightarrow> 1 \<le> n \<and> n \<le> 200)
   \<and> (parse_remote_sync_interval_seconds (dec n) = Some n \<longleftrightarrow> 15 \<le> n \<and> n \<le> 3600)
   \<and> list_all (\<lambda>m. 1 \<le> m \<and> m \<le> 1000) (case parse_push_batch_size v of None \<Rightarrow> [] | Some m \<Rightarrow> [m])
   \<and> list_all (\<lambda>m. 1 \<le> m \<and> m \<le> 200) (case parse_search_limit v of None \<Rightarrow> [] | Some m \<Rightarrow> [m])
   \<and> list_all (\<lambda>m. 15 \<le> m \<and> m \<le> 3600)
       (case parse_remote_sync_interval_seconds v of None \<Rightarrow> [] | Some m \<Rightarrow> [m])"
proof -
  have accepted: "bounded_argument lo hi s = Some m \<Longrightarrow> lo \<le> m \<and> m \<le> hi" for lo hi s m
    by (auto simp: bounded_argument_def split: option.splits if_splits)
  have decimal: "bounded_argument lo hi (dec n) = Some n \<longleftrightarrow> lo \<le> n \<and> n \<le> hi" if "hi < 2 ^ 64" for lo hi
  proof
    assume "lo \<le> n \<and> n \<le> hi"
    with that have "parse_usize (dec n) = Some n" by (simp add: parse_usize_def parse_unsigned_dec)
    with \<open>lo \<le> n \<and> n \<le> hi\<close> show "bounded_argument lo hi (dec n) = Some n"
      by (simp add: bounded_argument_def)
  qed (rule accepted)
  show ?thesis
    by (auto simp: parse_push_batch_size_def parse_search_limit_def
        parse_remote_sync_interval_seconds_def MAX_PUSH_BATCH_SIZE_def MAX_SEARCH_LIMIT_def
        MIN_REMOTE_SYNC_INTERVAL_SECONDS_def MAX_REMOTE_SYNC_INTERVAL_SECONDS_def decimal
        dest: accepted split: option.splits)
qed

end
