(* ===== verification/Event_Search.thy ===== *)
theory Event_Search
  imports Dedupe_Keys Search_Analyzer Sql_Text
begin

text \<open>
  The search projection of events (\<open>search/projections.rs\<close> of \<open>ctx-history-store\<close>): the preview
  text of an event, whether it is searchable, the rows of the three projection tables
  (\<open>event_search\<close>, \<open>event_search_scriptgram\<close>, \<open>event_search_lookup\<close>) that an insert or an upsert
  writes, and the cached count of semantic documents.
\<close>

section \<open>Previews\<close>

datatype redaction_state =
    RedactionState_Raw | RedactionState_Redacted | RedactionState_SafePreview | RedactionState_Withheld

text \<open>\<open>Value::to_string\<close> is the serialised text.\<close>

definition value_to_string :: "externals \<Rightarrow> json \<Rightarrow> string" where
  "value_to_string X v = unwrap_or (json_text X v) []"

definition non_blank :: "string \<Rightarrow> string option" where
  "non_blank value = (let trimmed = trim value in if trimmed = [] then None else Some trimmed)"

fun event_preview_fragment :: "externals \<Rightarrow> json \<Rightarrow> string option" where
  "event_preview_fragment X (JStr value) = non_blank value"
| "event_preview_fragment X (JNum n) = Some (value_to_string X (JNum n))"
| "event_preview_fragment X (JBool b) = Some (value_to_string X (JBool b))"
| "event_preview_fragment X _ = None"

definition field_fragment :: "externals \<Rightarrow> json \<Rightarrow> string \<Rightarrow> string option" where
  "field_fragment X v key = Option.bind (jget v key) (event_preview_fragment X)"

fun first_fragment :: "externals \<Rightarrow> json \<Rightarrow> string list \<Rightarrow> string option" where
  "first_fragment X v [] = None"
| "first_fragment X v (k # ks) = or_else (field_fragment X v k) (first_fragment X v ks)"

definition event_text_value_preview :: "externals \<Rightarrow> json \<Rightarrow> string option" where
  "event_text_value_preview X v =
     (case v of
        JStr s \<Rightarrow> non_blank s
      | JObj ms \<Rightarrow> first_fragment X v [''text'', ''preview'', ''summary'', ''message'']
      | _ \<Rightarrow> None)"

definition event_payload_text_preview :: "externals \<Rightarrow> json \<Rightarrow> string option" where
  "event_payload_text_preview X payload =
     or_else (Option.bind (jget payload ''body'') (event_text_value_preview X))
       (event_text_value_preview X payload)"

definition event_tool_call_preview_fields :: "externals \<Rightarrow> json \<Rightarrow> string option" where
  "event_tool_call_preview_fields X payload =
     (case payload of
        JObj ms \<Rightarrow>
          (case field_fragment X payload ''command'' of
             Some command \<Rightarrow> Some command
           | None \<Rightarrow>
             (case field_fragment X payload ''text'' of
                Some s \<Rightarrow> Some s
              | None \<Rightarrow>
                let structured = List.map_filter
                      (\<lambda>key. map_option (\<lambda>value. key @ '': '' @ value) (field_fragment X payload key))
                      [''tool'', ''name'', ''arguments_preview'', ''status'']
                in if structured = [] then None else Some (join '' | '' structured)))
      | _ \<Rightarrow> None)"

definition event_tool_call_preview :: "externals \<Rightarrow> json \<Rightarrow> string option" where
  "event_tool_call_preview X payload =
     or_else (Option.bind (jget payload ''body'') (event_tool_call_preview_fields X))
       (event_tool_call_preview_fields X payload)"

definition event_failed_output_preview :: "externals \<Rightarrow> json \<Rightarrow> string option" where
  "event_failed_output_preview X payload =
     or_else (field_fragment X payload ''output_preview'')
       (or_else (Option.bind (jget payload ''body'') (\<lambda>body. field_fragment X body ''output_preview''))
          (event_payload_text_preview X payload))"

definition event_output_fields_indicate_failure :: "json \<Rightarrow> bool" where
  "event_output_fields_indicate_failure payload \<longleftrightarrow>
     Option.bind (jget payload ''timed_out'') as_bool = Some True
     \<or> (case Option.bind (jget payload ''exit_code'') as_i64 of None \<Rightarrow> False | Some code \<Rightarrow> code \<noteq> 0)
     \<or> jget_str payload ''output_retention'' = Some ''failed_preview''
     \<or> Option.bind (jget payload ''text_retention'') (\<lambda>retention. jget_str retention ''omission_policy'')
         = Some ''patch_or_diff''
     \<or> jget_str payload ''content_retention'' = Some ''failed_output_preview''"

definition event_output_is_failure :: "json \<Rightarrow> bool" where
  "event_output_is_failure payload \<longleftrightarrow>
     event_output_fields_indicate_failure payload
     \<or> (case jget payload ''body'' of
          None \<Rightarrow> False | Some body \<Rightarrow> event_output_fields_indicate_failure body)"

definition event_role_is_searchable_conversation :: "event_role option \<Rightarrow> bool" where
  "event_role_is_searchable_conversation role \<longleftrightarrow>
     role \<in> {Some EventRole_User, Some EventRole_Assistant, Some EventRole_System, None}"

text \<open>\<open>text.chars().take(max_chars)\<close>: a character is a byte that is no continuation byte, with the
  continuation bytes after it.\<close>

fun local_preview :: "string \<Rightarrow> nat \<Rightarrow> string" where
  "local_preview [] max_chars = []"
| "local_preview (c # cs) max_chars =
     (if is_continuation c then c # local_preview cs max_chars
      else if max_chars = 0 then []
      else c # local_preview cs (max_chars - 1))"

definition event_search_preview_from_payload ::
    "externals \<Rightarrow> event_type \<Rightarrow> event_role option \<Rightarrow> json \<Rightarrow> redaction_state \<Rightarrow> string" where
  "event_search_preview_from_payload X et role payload redaction =
     (if redaction = RedactionState_Raw \<or> redaction = RedactionState_Withheld then []
      else let preview =
          (if et = EventType_Message \<and> event_role_is_searchable_conversation role
           then event_payload_text_preview X payload
           else if et = EventType_Summary then event_payload_text_preview X payload
           else if et \<in> {EventType_ToolCall, EventType_CommandStarted, EventType_CommandFinished}
           then event_tool_call_preview X payload
           else if et \<in> {EventType_ToolOutput, EventType_CommandOutput} \<and> event_output_is_failure payload
           then event_failed_output_preview X payload
           else None)
        in local_preview (unwrap_or preview []) 2048)"

definition event_searchable_event_parts ::
    "externals \<Rightarrow> json \<Rightarrow> redaction_state \<Rightarrow> event_type \<Rightarrow> event_role option \<Rightarrow> visibility \<Rightarrow> sync_state
     \<Rightarrow> bool \<Rightarrow> bool" where
  "event_searchable_event_parts X payload redaction et role vis st deleted =
     (if deleted \<or> vis = Visibility_Withheld \<or> st = SyncState_Withheld
         \<or> redaction = RedactionState_Raw \<or> redaction = RedactionState_Withheld then False
      else trim (event_search_preview_from_payload X et role payload redaction) \<noteq> [])"

definition semantic_lite_turn_preview_is_control :: "string \<Rightarrow> bool" where
  "semantic_lite_turn_preview_is_control preview \<longleftrightarrow>
     (let trimmed = trim preview
      in starts_with ''<environment_context>'' trimmed
         \<or> starts_with ''<turn_aborted>'' trimmed
         \<or> starts_with ''<subagent_notification>'' trimmed
         \<or> starts_with ''Warning: The maximum number of unified exec processes'' trimmed)"

definition semantic_searchable_event_parts ::
    "externals \<Rightarrow> json \<Rightarrow> redaction_state \<Rightarrow> event_type \<Rightarrow> event_role option \<Rightarrow> visibility \<Rightarrow> sync_state
     \<Rightarrow> bool \<Rightarrow> bool" where
  "semantic_searchable_event_parts X payload redaction et role vis st deleted =
     (if et \<noteq> EventType_Message \<or> role \<noteq> Some EventRole_User then False
      else if \<not> event_searchable_event_parts X payload redaction et role vis st deleted then False
      else \<not> semantic_lite_turn_preview_is_control
             (event_search_preview_from_payload X et role payload redaction))"

definition semantic_searchable_event_count_for_event :: "externals \<Rightarrow> event \<Rightarrow> nat" where
  "semantic_searchable_event_count_for_event X e =
     of_bool (semantic_searchable_event_parts X (ev_payload e) RedactionState_SafePreview (ev_event_type e) (ev_role e)
       (sm_visibility (ev_sync e)) (sm_sync_state (ev_sync e)) (sm_deleted_at (ev_sync e) \<noteq> None))"

section \<open>Projection tables\<close>

text \<open>A table that may be missing is an option; the cached count is a row of
  \<open>search_projection_stats\<close>.\<close>

record search_row =
  sr_event_id :: uuid
  sr_history_record_id :: "uuid option"
  sr_session_id :: "uuid option"
  sr_role :: "event_role option"
  sr_text :: string
  sr_rank_bucket :: event_type

record search_tables =
  st_search :: "search_row list option"
  st_scriptgram :: "search_row list option"
  st_lookup :: "search_row list option"
  st_stat :: "int option"

definition no_projection :: "search_tables \<Rightarrow> bool" where
  "no_projection T \<longleftrightarrow> st_search T = None \<and> st_lookup T = None \<and> st_scriptgram T = None"

definition delete_event_rows :: "uuid \<Rightarrow> search_tables \<Rightarrow> search_tables" where
  "delete_event_rows eid T =
     T\<lparr>st_search := map_option (filter (\<lambda>r. sr_event_id r \<noteq> eid)) (st_search T),
       st_scriptgram := map_option (filter (\<lambda>r. sr_event_id r \<noteq> eid)) (st_scriptgram T),
       st_lookup := map_option (filter (\<lambda>r. sr_event_id r \<noteq> eid)) (st_lookup T)\<rparr>"

definition semantic_lookup_event_parts :: "event_type \<Rightarrow> event_role option \<Rightarrow> bool" where
  "semantic_lookup_event_parts et role \<longleftrightarrow>
     et = EventType_Message \<and> role \<in> {Some EventRole_User, Some EventRole_Assistant}"

definition scriptgram_text :: "unicode \<Rightarrow> string \<Rightarrow> string" where
  "scriptgram_text U preview = encode_utf8 (scriptgram_index_text U (decode_utf8 preview))"

text \<open>The three INSERTs for one event. The lookup table has the event id as its primary key.\<close>

definition insert_projection_rows ::
    "unicode \<Rightarrow> uuid \<Rightarrow> uuid option \<Rightarrow> uuid option \<Rightarrow> event_role option \<Rightarrow> event_type \<Rightarrow> string
     \<Rightarrow> search_tables \<Rightarrow> store_error + search_tables" where
  "insert_projection_rows U eid hist sess role et preview T =
     (let row = \<lparr>sr_event_id = eid, sr_history_record_id = hist, sr_session_id = sess, sr_role = role,
                 sr_text = preview, sr_rank_bucket = et\<rparr>;
          token_text = scriptgram_text U preview;
          T1 = T\<lparr>st_search := map_option (\<lambda>rows. rows @ [row]) (st_search T)\<rparr>;
          T2 = (if token_text = [] then T1
                else T1\<lparr>st_scriptgram := map_option (\<lambda>rows. rows @ [row\<lparr>sr_text := token_text\<rparr>])
                                           (st_scriptgram T1)\<rparr>)
      in case st_lookup T2 of
           Some rows \<Rightarrow>
             if \<not> semantic_lookup_event_parts et role then Inr T2
             else if eid \<in> sr_event_id ` set rows
             then Inl (Sql (SqlFailure ''UNIQUE constraint failed: event_search_lookup.event_id''))
             else Inr (T2\<lparr>st_lookup := Some (rows @ [row])\<rparr>)
         | None \<Rightarrow> Inr T2)"

definition insert_event_search_projection_for_event_id ::
    "externals \<Rightarrow> unicode \<Rightarrow> uuid \<Rightarrow> event \<Rightarrow> search_tables \<Rightarrow> store_error + search_tables" where
  "insert_event_search_projection_for_event_id X U eid e T =
     (if no_projection T then Inr T
      else if \<not> event_searchable_event_parts X (ev_payload e) RedactionState_SafePreview (ev_event_type e) (ev_role e)
          (sm_visibility (ev_sync e)) (sm_sync_state (ev_sync e)) (sm_deleted_at (ev_sync e) \<noteq> None)
      then Inr T
      else let preview = event_search_preview_from_payload X (ev_event_type e) (ev_role e) (ev_payload e)
                 RedactionState_SafePreview
        in if trim preview = [] then Inr T
           else insert_projection_rows U eid (ev_history_record_id e) (ev_session_id e) (ev_role e)
                  (ev_event_type e) preview T)"

definition insert_event_search_projection_for_event ::
    "externals \<Rightarrow> unicode \<Rightarrow> event \<Rightarrow> search_tables \<Rightarrow> store_error + search_tables" where
  "insert_event_search_projection_for_event X U e T =
     insert_event_search_projection_for_event_id X U (ev_id e) e T"

definition upsert_event_search_projection_for_event ::
    "externals \<Rightarrow> unicode \<Rightarrow> uuid \<Rightarrow> event \<Rightarrow> search_tables \<Rightarrow> store_error + search_tables" where
  "upsert_event_search_projection_for_event X U eid e T =
     (if no_projection T then Inr T
      else insert_event_search_projection_for_event_id X U eid e (delete_event_rows eid T))"

section \<open>The cached count of semantic documents\<close>

text \<open>SQL's \<open>trim\<close> removes spaces only; \<open>length\<close> counts characters.\<close>

definition sql_trim :: "string \<Rightarrow> string" where
  "sql_trim s = trim_matches (CHR '' '') s"

definition char_count :: "string \<Rightarrow> nat" where
  "char_count s = length (filter (\<lambda>c. \<not> is_continuation c) s)"

definition semantic_anchor_eligible :: "externals \<Rightarrow> event \<Rightarrow> string \<Rightarrow> bool" where
  "semantic_anchor_eligible X e preview_text \<longleftrightarrow>
     ev_event_type e = EventType_Message \<and> ev_role e = Some EventRole_User
     \<and> sm_deleted_at (ev_sync e) = None
     \<and> sm_visibility (ev_sync e) \<noteq> Visibility_Withheld \<and> sm_sync_state (ev_sync e) \<noteq> SyncState_Withheld
     \<and> char_count (sql_trim (value_to_string X (ev_payload e))) > 2
     \<and> \<not> like_match None ''<environment_context>%'' (sql_trim preview_text)
     \<and> \<not> like_match None ''<turn_aborted>%'' (sql_trim preview_text)
     \<and> \<not> like_match None ''<subagent_notification>%'' (sql_trim preview_text)
     \<and> \<not> like_match None ''Warning: The maximum number of unified exec processes%'' (sql_trim preview_text)"

definition semantic_searchable_item_count_exact :: "externals \<Rightarrow> event list \<Rightarrow> search_tables \<Rightarrow> nat" where
  "semantic_searchable_item_count_exact X events T =
     (case st_lookup T of
        None \<Rightarrow> 0
      | Some rows \<Rightarrow>
          length (filter (\<lambda>(e, r). sr_event_id r = ev_id e \<and> char_count (sql_trim (sr_text r)) > 0
                    \<and> semantic_anchor_eligible X e (sr_text r))
            (List.product events rows)))"

definition refresh_semantic_searchable_item_stats ::
    "externals \<Rightarrow> event list \<Rightarrow> search_tables \<Rightarrow> search_tables" where
  "refresh_semantic_searchable_item_stats X events T =
     T\<lparr>st_stat := Some (int (semantic_searchable_item_count_exact X events T))\<rparr>"

definition adjust_semantic_searchable_item_stats ::
    "externals \<Rightarrow> event list \<Rightarrow> nat \<Rightarrow> nat \<Rightarrow> search_tables \<Rightarrow> search_tables" where
  "adjust_semantic_searchable_item_stats X events previous_count current_count T =
     (if previous_count = current_count then T
      else case st_stat T of
        None \<Rightarrow> refresh_semantic_searchable_item_stats X events T
      | Some n \<Rightarrow> T\<lparr>st_stat := Some (max (n + (int current_count - int previous_count)) 0)\<rparr>)"

section \<open>What the operations write\<close>

lemma local_preview_le: "char_count (local_preview s n) \<le> n"
  by (induction s n rule: local_preview.induct) (auto simp: char_count_def)

lemma local_preview_short: "char_count s \<le> n \<Longrightarrow> local_preview s n = s"
  by (induction s n rule: local_preview.induct) (auto simp: char_count_def split: if_splits)

abbreviation event_preview :: "externals \<Rightarrow> event \<Rightarrow> string" where
  "event_preview X e \<equiv>
     event_search_preview_from_payload X (ev_event_type e) (ev_role e) (ev_payload e) RedactionState_SafePreview"

definition event_hidden :: "event \<Rightarrow> bool" where
  "event_hidden e \<longleftrightarrow> sm_deleted_at (ev_sync e) \<noteq> None
     \<or> sm_visibility (ev_sync e) = Visibility_Withheld \<or> sm_sync_state (ev_sync e) = SyncState_Withheld"

lemma event_searchable_iff:
  "event_searchable_event_parts X (ev_payload e) RedactionState_SafePreview (ev_event_type e) (ev_role e)
     (sm_visibility (ev_sync e)) (sm_sync_state (ev_sync e)) (sm_deleted_at (ev_sync e) \<noteq> None)
   \<longleftrightarrow> \<not> event_hidden e \<and> trim (event_preview X e) \<noteq> []"
  by (auto simp: event_searchable_event_parts_def event_hidden_def)

definition preview_row :: "uuid \<Rightarrow> uuid option \<Rightarrow> event \<Rightarrow> string \<Rightarrow> search_row" where
  "preview_row eid hist e s =
     \<lparr>sr_event_id = eid, sr_history_record_id = hist, sr_session_id = ev_session_id e, sr_role = ev_role e,
      sr_text = s, sr_rank_bucket = ev_event_type e\<rparr>"

lemma sr_event_id_preview_row [simp]: "sr_event_id (preview_row eid hist e s) = eid"
  by (simp add: preview_row_def)

text \<open>The rows of an event with a preview, appended to each table that exists.\<close>

definition with_rows :: "unicode \<Rightarrow> uuid \<Rightarrow> uuid option \<Rightarrow> event \<Rightarrow> string \<Rightarrow> search_tables \<Rightarrow> search_tables" where
  "with_rows U eid hist e s T =
     T\<lparr>st_search := map_option (\<lambda>rows. rows @ [preview_row eid hist e s]) (st_search T),
       st_scriptgram := map_option (\<lambda>rows. rows @
           (if scriptgram_text U s = [] then [] else [preview_row eid hist e (scriptgram_text U s)])) (st_scriptgram T),
       st_lookup := map_option (\<lambda>rows. rows @
           (if semantic_lookup_event_parts (ev_event_type e) (ev_role e)
            then [preview_row eid hist e s] else [])) (st_lookup T)\<rparr>"

lemma insert_projection_rows_eq:
  assumes "semantic_lookup_event_parts (ev_event_type e) (ev_role e) \<longrightarrow>
    (\<forall>rows. st_lookup T = Some rows \<longrightarrow> eid \<notin> sr_event_id ` set rows)"
  shows "insert_projection_rows U eid hist (ev_session_id e) (ev_role e) (ev_event_type e) s T
    = Inr (with_rows U eid hist e s T)"
  using assms
  by (cases "st_lookup T"; cases "st_scriptgram T"; cases T)
    (auto simp: insert_projection_rows_def with_rows_def preview_row_def Let_def)

lemma no_projection_delete [simp]: "no_projection (delete_event_rows eid T) = no_projection T"
  by (simp add: no_projection_def delete_event_rows_def)

lemma lookup_after_delete:
  "st_lookup (delete_event_rows eid T) = Some rows \<Longrightarrow> eid \<notin> sr_event_id ` set rows"
  by (auto simp: delete_event_rows_def)

lemma upsert_projection_eq:
  "upsert_event_search_projection_for_event X U eid e T
   = Inr (if event_hidden e \<or> trim (event_preview X e) = [] then delete_event_rows eid T
          else with_rows U eid (ev_history_record_id e) e (event_preview X e) (delete_event_rows eid T))"
proof (cases "no_projection T")
  case True
  then have "delete_event_rows eid T = T" "with_rows U eid h e s T = T" for h s
    by (cases T; simp add: no_projection_def delete_event_rows_def with_rows_def)+
  with True show ?thesis by (simp add: upsert_event_search_projection_for_event_def)
next
  case False
  then show ?thesis
    using insert_projection_rows_eq [of e "delete_event_rows eid T" eid U] lookup_after_delete [of eid T]
    unfolding upsert_event_search_projection_for_event_def
      insert_event_search_projection_for_event_id_def event_searchable_iff Let_def by simp
qed

lemma insert_projection_eq:
  "insert_event_search_projection_for_event_id X U eid e T
   = (if event_hidden e \<or> trim (event_preview X e) = [] then Inr T
      else insert_projection_rows U eid (ev_history_record_id e) (ev_session_id e) (ev_role e)
             (ev_event_type e) (event_preview X e) T)"
proof (cases "no_projection T")
  case True
  then have "insert_projection_rows U eid h s r et p T = Inr T" for h s r et p
    by (cases T) (auto simp: insert_projection_rows_def no_projection_def Let_def)
  with True show ?thesis by (simp add: insert_event_search_projection_for_event_id_def)
next
  case False
  then show ?thesis
    unfolding insert_event_search_projection_for_event_id_def event_searchable_iff Let_def by simp
qed

section \<open>Properties\<close>

definition demo_event :: event where
  "demo_event = \<lparr>ev_id = Uuid [1], ev_seq = 1, ev_history_record_id = None, ev_session_id = None,
      ev_run_id = None, ev_event_type = EventType_Notice, ev_role = None,
      ev_occurred_at = 0, ev_capture_source_id = None, ev_payload = JStr ''hi'',
      ev_payload_blob_id = None, ev_dedupe_key = Some ''k'', ev_sync = default_sync_metadata\<rparr>"

definition demo_tables :: search_tables where
  "demo_tables = \<lparr>st_search = Some [], st_scriptgram = None, st_lookup = Some [], st_stat = None\<rparr>"

text \<open>What an upsert leaves in the projection: the rows of other events as they were, and for the
  event itself one \<open>event_search\<close> row with its preview if it is neither deleted nor withheld and
  has a nonblank preview, none otherwise; the lookup and scriptgram tables hold no row of a
  hidden event either. It never fails.\<close>

theorem upsert_projection_exact:
  "\<exists>T'. upsert_event_search_projection_for_event X U eid e T = Inr T'
    \<and> st_search T' = map_option (\<lambda>rows. filter (\<lambda>r. sr_event_id r \<noteq> eid) rows
         @ (if event_hidden e \<or> trim (event_preview X e) = [] then []
            else [preview_row eid (ev_history_record_id e) e (event_preview X e)])) (st_search T)
    \<and> (\<forall>other. other \<noteq> eid \<longrightarrow>
         map_option (filter (\<lambda>r. sr_event_id r = other)) (st_lookup T')
           = map_option (filter (\<lambda>r. sr_event_id r = other)) (st_lookup T)
         \<and> map_option (filter (\<lambda>r. sr_event_id r = other)) (st_scriptgram T')
           = map_option (filter (\<lambda>r. sr_event_id r = other)) (st_scriptgram T))
    \<and> (event_hidden e \<longrightarrow>
         list_all (\<lambda>r. sr_event_id r \<noteq> eid) (unwrap_or (st_lookup T') [] @ unwrap_or (st_scriptgram T') []))"
  unfolding upsert_projection_eq
  by (cases "st_search T"; cases "st_lookup T"; cases "st_scriptgram T")
    (auto simp: delete_event_rows_def with_rows_def list_all_iff intro!: filter_cong)

theorem upsert_projection_exact_witness:
  "\<exists>T'. upsert_event_search_projection_for_event demo_externals demo_unicode (Uuid [1]) demo_event demo_tables = Inr T'"
  using upsert_projection_exact [of demo_externals demo_unicode "Uuid [1]" demo_event demo_tables] by blast

text \<open>The preview that is indexed is bounded and selective: it has at most 2048 characters, and it
  is empty for a tool message, for the output of a command or tool that did not fail, and for
  every event type without a text.\<close>

theorem preview_policy:
  "char_count (event_preview X e) \<le> 2048
   \<and> (ev_event_type e = EventType_Message \<and> ev_role e \<in> {Some EventRole_Tool, Some EventRole_Unknown}
      \<or> ev_event_type e \<in> {EventType_ToolOutput, EventType_CommandOutput}
          \<and> \<not> event_output_is_failure (ev_payload e)
      \<or> ev_event_type e \<in> {EventType_FileTouched, EventType_VcsChange, EventType_Artifact, EventType_Notice}
      \<longrightarrow> event_preview X e = [])"
  by (auto simp: event_search_preview_from_payload_def local_preview_le Let_def
      event_role_is_searchable_conversation_def)

theorem preview_policy_witness:
  "event_preview demo_externals (demo_event\<lparr>ev_event_type := EventType_Notice\<rparr>) = []"
  using preview_policy [of demo_externals "demo_event\<lparr>ev_event_type := EventType_Notice\<rparr>"] by simp

end
