(* ===== verification/Store_Tables.thy ===== *)
theory Store_Tables
  imports Event_Search "HOL-Library.Product_Lexorder"
begin

text \<open>
  The tables of the history store (\<open>schema/ddl.rs\<close>, \<open>schema/indexes.rs\<close> of \<open>ctx-history-store\<close>)
  and what SQLite checks on a write: primary keys, CHECK and UNIQUE constraints, foreign keys.
  A table is the list of its rows in row order; a row is the struct it was written from, with
  its times cut to milliseconds, which is what the columns hold. The locale \<open>keyed_rows\<close> states
  what \<open>INSERT ... ON CONFLICT(id) DO UPDATE\<close> promises to every component.
\<close>

section \<open>Rows with a primary key\<close>

definition row_with :: "('r \<Rightarrow> 'k) \<Rightarrow> 'k \<Rightarrow> 'r list \<Rightarrow> 'r option" where
  "row_with key k rows = List.find (\<lambda>r. key r = k) rows"

text \<open>\<open>INSERT ... ON CONFLICT(id) DO UPDATE\<close>: \<open>merge old new\<close> is the updated row.\<close>

definition upsert_row :: "('r \<Rightarrow> 'k) \<Rightarrow> ('r \<Rightarrow> 'r \<Rightarrow> 'r) \<Rightarrow> 'r \<Rightarrow> 'r list \<Rightarrow> 'r list" where
  "upsert_row key merge new rows =
     (if key new \<in> key ` set rows
      then map (\<lambda>old. if key old = key new then merge old new else old) rows
      else rows @ [new])"

locale keyed_rows =
  fixes key :: "'r \<Rightarrow> 'k" and merge :: "'r \<Rightarrow> 'r \<Rightarrow> 'r"
  assumes key_merge: "key old = key new \<Longrightarrow> key (merge old new) = key new"
begin

lemma keys_upsert:
  "map key (upsert_row key merge new rows)
   = (if key new \<in> key ` set rows then map key rows else map key rows @ [key new])"
  by (simp add: upsert_row_def key_merge cong: map_cong)

lemma key_set_upsert: "key ` set (upsert_row key merge new rows) = insert (key new) (key ` set rows)"
proof -
  have "set (map key (upsert_row key merge new rows)) = insert (key new) (set (map key rows))"
    unfolding keys_upsert by auto
  then show ?thesis by simp
qed

lemma distinct_upsert:
  "distinct (map key rows) \<Longrightarrow> distinct (map key (upsert_row key merge new rows))"
  by (auto simp: keys_upsert)

lemma lookup_upsert:
  "row_with key k (upsert_row key merge new rows)
   = (if k \<noteq> key new then row_with key k rows
      else case row_with key k rows of None \<Rightarrow> Some new | Some old \<Rightarrow> Some (merge old new))"
proof (cases "key new \<in> key ` set rows")
  case True
  have "List.find (\<lambda>r. key r = k) (map (\<lambda>old. if key old = key new then merge old new else old) rows)
      = map_option (\<lambda>old. if key old = key new then merge old new else old) (List.find (\<lambda>r. key r = k) rows)"
    by (rule find_map_key) (auto simp: key_merge)
  moreover have "\<exists>old. List.find (\<lambda>r. key r = key new) rows = Some old"
    using True by (auto intro: find_is_Some)
  ultimately show ?thesis
    using True unfolding row_with_def upsert_row_def
    by (cases "List.find (\<lambda>r. key r = k) rows") (auto dest: find_eq_Some_set)
next
  case False
  then have "List.find (\<lambda>r. key r = key new) rows = None"
    unfolding find_eq_None by (metis imageI)
  with False show ?thesis
    by (auto simp: row_with_def upsert_row_def find_append split: option.splits)
qed

lemma upsert_member:
  "r \<in> set (upsert_row key merge new rows) \<Longrightarrow>
   r \<in> set rows \<or> r = new \<or> (\<exists>old \<in> set rows. key old = key new \<and> r = merge old new)"
  by (auto simp: upsert_row_def split: if_splits)

lemma length_upsert:
  "length (upsert_row key merge new rows) = (if key new \<in> key ` set rows then 0 else 1) + length rows"
  by (simp add: upsert_row_def)

end

section \<open>The database\<close>

text \<open>The tables the import writes. Of \<open>history_records\<close>, \<open>artifacts\<close> and \<open>vcs_workspaces\<close> the
  model keeps the ids, which the foreign keys refer to; an alias is its id and its target.\<close>

record db =
  db_sources :: "capture_source list"
  db_sessions :: "session list"
  db_session_aliases :: "(uuid \<times> uuid) list"
  db_edges :: "session_edge list"
  db_runs :: "run list"
  db_events :: "event list"
  db_event_aliases :: "(uuid \<times> uuid) list"
  db_files :: "file_touched list"
  db_cursors :: "sync_cursor list"
  db_records :: "uuid list"
  db_artifacts :: "uuid list"
  db_workspaces :: "uuid list"
  db_projection :: search_tables

definition empty_projection :: search_tables where
  "empty_projection =
     \<lparr>st_search = Some [], st_scriptgram = Some [], st_lookup = Some [], st_stat = Some 0\<rparr>"

definition empty_db :: db where
  "empty_db =
     \<lparr>db_sources = [], db_sessions = [], db_session_aliases = [], db_edges = [], db_runs = [],
      db_events = [], db_event_aliases = [], db_files = [], db_cursors = [], db_records = [],
      db_artifacts = [], db_workspaces = [], db_projection = empty_projection\<rparr>"

section \<open>Constraints\<close>

definition constraint_failed :: "string \<Rightarrow> store_error + 'a" where
  "constraint_failed what = Inl (Sql (SqlFailure (what @ '' constraint failed'')))"

definition guard_sql :: "bool \<Rightarrow> string \<Rightarrow> (store_error + 'a) \<Rightarrow> store_error + 'a" where
  "guard_sql ok what next_check = (if ok then next_check else constraint_failed what)"

lemma guard_sql_eq_Inr: "guard_sql ok what r = Inr x \<longleftrightarrow> ok \<and> r = Inr x"
  by (simp add: guard_sql_def constraint_failed_def)

text \<open>The CHECKs on the enumerated columns list every text of the enumeration, but for
  \<open>visibility\<close> and \<open>sync_state\<close>, whose \<open>withheld\<close> they leave out.\<close>

definition sync_check :: "sync_metadata \<Rightarrow> bool" where
  "sync_check s \<longleftrightarrow> sm_visibility s \<noteq> Visibility_Withheld \<and> sm_sync_state s \<noteq> SyncState_Withheld"

definition references :: "uuid option \<Rightarrow> uuid list \<Rightarrow> bool" where
  "references ref ids \<longleftrightarrow> (case ref of None \<Rightarrow> True | Some i \<Rightarrow> i \<in> set ids)"

lemma references_mono: "references ref ids \<Longrightarrow> set ids \<subseteq> set ids' \<Longrightarrow> references ref ids'"
  by (auto simp: references_def split: option.splits)

abbreviation "source_ids d \<equiv> map cs_id (db_sources d)"
abbreviation "session_ids d \<equiv> map se_id (db_sessions d)"
abbreviation "edge_ids d \<equiv> map sg_id (db_edges d)"
abbreviation "run_ids d \<equiv> map rn_id (db_runs d)"
abbreviation "event_ids d \<equiv> map ev_id (db_events d)"
abbreviation "file_ids d \<equiv> map ft_id (db_files d)"
abbreviation "cursor_ids d \<equiv> map sc_id (db_cursors d)"

definition session_refs_ok :: "db \<Rightarrow> session \<Rightarrow> bool" where
  "session_refs_ok d s \<longleftrightarrow>
     references (se_history_record_id s) (db_records d)
     \<and> references (se_parent_session_id s) (session_ids d)
     \<and> references (se_root_session_id s) (session_ids d)
     \<and> references (se_capture_source_id s) (source_ids d)
     \<and> references (se_transcript_blob_id s) (db_artifacts d)"

definition edge_refs_ok :: "db \<Rightarrow> session_edge \<Rightarrow> bool" where
  "edge_refs_ok d g \<longleftrightarrow>
     sg_from_session_id g \<in> set (session_ids d) \<and> sg_to_session_id g \<in> set (session_ids d)
     \<and> references (sg_source_id g) (source_ids d)"

definition run_refs_ok :: "db \<Rightarrow> run \<Rightarrow> bool" where
  "run_refs_ok d r \<longleftrightarrow>
     references (rn_history_record_id r) (db_records d)
     \<and> references (rn_session_id r) (session_ids d)
     \<and> references (rn_input_blob_id r) (db_artifacts d)
     \<and> references (rn_output_blob_id r) (db_artifacts d)
     \<and> references (rn_source_id r) (source_ids d)"

definition event_refs_ok :: "db \<Rightarrow> event \<Rightarrow> bool" where
  "event_refs_ok d e \<longleftrightarrow>
     references (ev_history_record_id e) (db_records d)
     \<and> references (ev_session_id e) (session_ids d)
     \<and> references (ev_run_id e) (run_ids d)
     \<and> references (ev_capture_source_id e) (source_ids d)
     \<and> references (ev_payload_blob_id e) (db_artifacts d)"

definition file_refs_ok :: "db \<Rightarrow> file_touched \<Rightarrow> bool" where
  "file_refs_ok d f \<longleftrightarrow>
     references (ft_history_record_id f) (db_records d)
     \<and> references (ft_run_id f) (run_ids d)
     \<and> references (ft_event_id f) (event_ids d)
     \<and> references (ft_vcs_workspace_id f) (db_workspaces d)
     \<and> references (ft_source_id f) (source_ids d)"

lemmas refs_ok_defs = session_refs_ok_def edge_refs_ok_def run_refs_ok_def event_refs_ok_def file_refs_ok_def

section \<open>Stored values\<close>

text \<open>\<open>timestamp_ms\<close> on the way in, \<open>ms_to_time\<close> on the way out.\<close>

definition ms_to_time :: "int \<Rightarrow> datetime" where
  "ms_to_time t = t * 1000000"

definition stored_time :: "datetime \<Rightarrow> datetime" where
  "stored_time t = ms_to_time (timestamp_ms t)"

lemma stored_time_idem [simp]: "stored_time (stored_time t) = stored_time t"
  by (simp add: stored_time_def ms_to_time_def timestamp_ms_def)

lemma timestamp_stored [simp]: "timestamp_ms (stored_time t) = timestamp_ms t"
  by (simp add: stored_time_def ms_to_time_def timestamp_ms_def)

definition stored_sync :: "sync_metadata \<Rightarrow> sync_metadata" where
  "stored_sync s = s\<lparr>sm_deleted_at := map_option stored_time (sm_deleted_at s)\<rparr>"

definition stored_timestamps :: "entity_timestamps \<Rightarrow> entity_timestamps" where
  "stored_timestamps t =
     \<lparr>et_created_at = stored_time (et_created_at t), et_updated_at = stored_time (et_updated_at t)\<rparr>"

lemma stored_sync_idem [simp]: "stored_sync (stored_sync s) = stored_sync s"
  by (cases "sm_deleted_at s") (simp_all add: stored_sync_def)

lemma sync_check_stored [simp]: "sync_check (stored_sync s) = sync_check s"
  by (simp add: sync_check_def stored_sync_def)

text \<open>\<open>created_at_ms\<close> is not among the columns an upsert updates.\<close>

definition keep_created :: "entity_timestamps \<Rightarrow> entity_timestamps \<Rightarrow> entity_timestamps" where
  "keep_created old new = new\<lparr>et_created_at := et_created_at old\<rparr>"

text \<open>An unsigned 64-bit column is written with \<open>as i64\<close> and read with \<open>try_from\<close>.\<close>

definition readable_u64 :: "u64 \<Rightarrow> bool" where
  "readable_u64 w \<longleftrightarrow> unat w < 2 ^ 63"

definition unreadable :: "store_error + 'a" where
  "unreadable = Inl (Sql (SqlFailure ''out of range integral type conversion attempted''))"

text \<open>\<open>collect_rows\<close>: the first row that cannot be read is the error.\<close>

fun collect_rows :: "('r \<Rightarrow> store_error + 'a) \<Rightarrow> 'r list \<Rightarrow> store_error + 'a list" where
  "collect_rows from_row [] = Inr []"
| "collect_rows from_row (r # rows) =
     bind_result (from_row r) (\<lambda>x. bind_result (collect_rows from_row rows) (\<lambda>xs. Inr (x # xs)))"

lemma collect_rows_all:
  "(\<And>r. r \<in> set rows \<Longrightarrow> from_row r = Inr (f r)) \<Longrightarrow> collect_rows from_row rows = Inr (map f rows)"
  by (induction rows) auto

end
