(* ===== verification/Store_Entities.thy ===== *)
theory Store_Entities
  imports Store_Tables
begin

text \<open>
  The store's operations on capture sources, sessions, session edges, runs, touched files and sync
  cursors (\<open>sources.rs\<close>, \<open>sessions.rs\<close>, \<open>runs.rs\<close>, \<open>files.rs\<close>, \<open>sync.rs\<close> and the triggers of
  \<open>schema/provider_session_identity.rs\<close>). A write returns the new database or the error; a read
  returns its rows or the error. Every table of the model interprets \<open>keyed_rows\<close>.
\<close>

section \<open>Capture sources\<close>

definition stored_source :: "capture_source \<Rightarrow> capture_source" where
  "stored_source s =
     s\<lparr>cs_started_at := stored_time (cs_started_at s), cs_ended_at := map_option stored_time (cs_ended_at s)\<rparr>"

definition replace_source :: "capture_source \<Rightarrow> capture_source \<Rightarrow> capture_source" where
  "replace_source old new = new"

definition upsert_capture_source :: "capture_source \<Rightarrow> db \<Rightarrow> store_error + db" where
  "upsert_capture_source s d =
     guard_sql (sync_check (cs_sync s)) ''CHECK''
       (Inr (d\<lparr>db_sources := upsert_row cs_id replace_source (stored_source s) (db_sources d)\<rparr>))"

text \<open>There is no deletion column: a read gives \<open>deleted_at: None\<close>.\<close>

definition capture_source_from_row :: "capture_source \<Rightarrow> store_error + capture_source" where
  "capture_source_from_row s =
     (if readable_u64 (sm_sync_version (cs_sync s))
      then Inr (s\<lparr>cs_sync := (cs_sync s)\<lparr>sm_deleted_at := None\<rparr>\<rparr>) else unreadable)"

definition get_capture_source :: "uuid \<Rightarrow> db \<Rightarrow> store_error + capture_source" where
  "get_capture_source i d =
     (case row_with cs_id i (db_sources d) of
        None \<Rightarrow> Inl (NotFound i)
      | Some s \<Rightarrow> capture_source_from_row s)"

definition list_capture_sources :: "db \<Rightarrow> store_error + capture_source list" where
  "list_capture_sources d =
     collect_rows capture_source_from_row (sort_key (\<lambda>s. (cs_started_at s, cs_id s)) (db_sources d))"

definition capture_source_count :: "db \<Rightarrow> nat" where
  "capture_source_count d = length (db_sources d)"

text \<open>\<open>ORDER BY started_at_ms DESC LIMIT 1\<close>; rows that tie stay in row order.\<close>

definition latest_first :: "('r \<Rightarrow> datetime) \<Rightarrow> 'r list \<Rightarrow> 'r list" where
  "latest_first started rows = sort_key (\<lambda>r. - started r) rows"

definition capture_source_by_external_session ::
    "capture_provider \<Rightarrow> string \<Rightarrow> db \<Rightarrow> store_error + capture_source option" where
  "capture_source_by_external_session provider ext d =
     (case latest_first cs_started_at
        (filter (\<lambda>s. csd_provider (cs_descriptor s) = provider
                   \<and> csd_external_session_id (cs_descriptor s) = Some ext) (db_sources d)) of
        [] \<Rightarrow> Inr None
      | s # _ \<Rightarrow> bind_result (capture_source_from_row s) (\<lambda>s. Inr (Some s)))"

definition has_provider_data :: "capture_provider \<Rightarrow> db \<Rightarrow> bool" where
  "has_provider_data provider d \<longleftrightarrow>
     list_ex (\<lambda>s. se_provider s = provider) (db_sessions d)
     \<or> list_ex (\<lambda>s. csd_provider (cs_descriptor s) = provider) (db_sources d)"

interpretation sources: keyed_rows cs_id replace_source
  by unfold_locales (simp add: replace_source_def)

section \<open>Sessions\<close>

definition stored_session :: "session \<Rightarrow> session" where
  "stored_session s =
     s\<lparr>se_started_at := stored_time (se_started_at s), se_ended_at := map_option stored_time (se_ended_at s),
       se_timestamps := stored_timestamps (se_timestamps s), se_sync := stored_sync (se_sync s)\<rparr>"

definition merge_session :: "session \<Rightarrow> session \<Rightarrow> session" where
  "merge_session old new = new\<lparr>se_timestamps := keep_created (se_timestamps old) (se_timestamps new)\<rparr>"

text \<open>The triggers \<open>trg_sessions_provider_source_identity_insert\<close> and \<open>_update\<close>: a live session of
  another id with the same provider and external id, whose source is the same one, or has the
  same source identity, or the same raw path with a compatible format.\<close>

definition same_source :: "capture_source \<Rightarrow> capture_source \<Rightarrow> bool" where
  "same_source existing incoming \<longleftrightarrow>
     (let e = cs_descriptor existing; i = cs_descriptor incoming
      in cs_id existing = cs_id incoming
         \<or> csd_source_identity e \<noteq> None \<and> csd_source_identity e = csd_source_identity i
         \<or> csd_raw_source_path e \<noteq> None \<and> csd_raw_source_path e = csd_raw_source_path i
           \<and> (csd_source_format e = csd_source_format i
              \<or> csd_source_format e = None \<or> csd_source_format i = None))"

definition live_provider_session :: "session \<Rightarrow> bool" where
  "live_provider_session s \<longleftrightarrow>
     se_capture_source_id s \<noteq> None \<and> se_external_session_id s \<noteq> None \<and> sm_deleted_at (se_sync s) = None"

definition source_of :: "db \<Rightarrow> session \<Rightarrow> capture_source option" where
  "source_of d s = Option.bind (se_capture_source_id s) (\<lambda>i. row_with cs_id i (db_sources d))"

definition duplicate_provider_session :: "db \<Rightarrow> session \<Rightarrow> session \<Rightarrow> bool" where
  "duplicate_provider_session d new existing \<longleftrightarrow>
     se_id existing \<noteq> se_id new \<and> se_provider existing = se_provider new
     \<and> se_external_session_id existing = se_external_session_id new
     \<and> sm_deleted_at (se_sync existing) = None
     \<and> (case (source_of d existing, source_of d new) of
          (Some e, Some i) \<Rightarrow> same_source e i
        | _ \<Rightarrow> False)"

definition identity_trigger :: "db \<Rightarrow> session \<Rightarrow> bool" where
  "identity_trigger d new \<longleftrightarrow>
     live_provider_session new \<and> list_ex (duplicate_provider_session d new) (db_sessions d)"

text \<open>The unique index \<open>idx_sessions_unique_capture_source_external_session\<close>.\<close>

definition session_key :: "session \<Rightarrow> uuid option \<times> capture_provider \<times> string option" where
  "session_key s = (se_capture_source_id s, se_provider s, se_external_session_id s)"

definition session_index_conflict :: "db \<Rightarrow> session \<Rightarrow> bool" where
  "session_index_conflict d new \<longleftrightarrow>
     live_provider_session new
     \<and> list_ex (\<lambda>s. se_id s \<noteq> se_id new \<and> live_provider_session s \<and> session_key s = session_key new)
         (db_sessions d)"

definition upsert_session :: "session \<Rightarrow> db \<Rightarrow> store_error + db" where
  "upsert_session s d =
     (let new = stored_session s;
          d' = d\<lparr>db_sessions := upsert_row se_id merge_session new (db_sessions d)\<rparr>
      in if identity_trigger d new
         then Inl (Sql (SqlFailure ''duplicate provider session for capture source identity''))
         else guard_sql (sync_check (se_sync new)) ''CHECK''
           (guard_sql (\<not> session_index_conflict d new) ''UNIQUE''
             (guard_sql (session_refs_ok d' new) ''FOREIGN KEY'' (Inr d'))))"

definition session_from_row :: "session \<Rightarrow> store_error + session" where
  "session_from_row s = (if readable_u64 (sm_sync_version (se_sync s)) then Inr s else unreadable)"

definition resolve_alias :: "(uuid \<times> uuid) list \<Rightarrow> uuid \<Rightarrow> uuid" where
  "resolve_alias aliases i = (case map_of aliases i of Some target \<Rightarrow> target | None \<Rightarrow> i)"

definition get_session :: "uuid \<Rightarrow> db \<Rightarrow> store_error + session" where
  "get_session i d =
     (case row_with se_id (resolve_alias (db_session_aliases d) i) (db_sessions d) of
        None \<Rightarrow> Inl (NotFound i)
      | Some s \<Rightarrow> session_from_row s)"

definition sessions_by_id_prefix :: "externals \<Rightarrow> string \<Rightarrow> db \<Rightarrow> store_error + session list" where
  "sessions_by_id_prefix X prefix d =
     (let matches = (\<lambda>i. like_match None (prefix @ ''%'') (uuid_text X i));
          targets = map snd (filter (\<lambda>(alias_id, _). matches alias_id) (db_session_aliases d))
      in collect_rows session_from_row
           (take 2 (sort_key se_id
             (filter (\<lambda>s. matches (se_id s) \<or> se_id s \<in> set targets) (db_sessions d)))))"

definition session_by_external_session ::
    "capture_provider \<Rightarrow> string \<Rightarrow> db \<Rightarrow> store_error + session option" where
  "session_by_external_session provider ext d =
     (case latest_first se_started_at
        (filter (\<lambda>s. se_provider s = provider \<and> se_external_session_id s = Some ext) (db_sessions d)) of
        [] \<Rightarrow> Inr None
      | s # _ \<Rightarrow> bind_result (session_from_row s) (\<lambda>s. Inr (Some s)))"

definition session_by_capture_source_and_external_session ::
    "uuid \<Rightarrow> capture_provider \<Rightarrow> string \<Rightarrow> db \<Rightarrow> store_error + session option" where
  "session_by_capture_source_and_external_session source_id provider ext d =
     (case sort_key (\<lambda>s. (et_created_at (se_timestamps s), se_id s))
        (filter (\<lambda>s. se_capture_source_id s = Some source_id \<and> se_provider s = provider
                   \<and> se_external_session_id s = Some ext) (db_sessions d)) of
        [] \<Rightarrow> Inr None
      | s # _ \<Rightarrow> bind_result (session_from_row s) (\<lambda>s. Inr (Some s)))"

definition sessions_by_external_session_limited ::
    "capture_provider \<Rightarrow> string \<Rightarrow> nat \<Rightarrow> db \<Rightarrow> store_error + session list" where
  "sessions_by_external_session_limited provider ext limit d =
     collect_rows session_from_row
       (take limit (latest_first se_started_at
         (filter (\<lambda>s. se_provider s = provider \<and> se_external_session_id s = Some ext) (db_sessions d))))"

definition sessions_for_record :: "uuid \<Rightarrow> db \<Rightarrow> store_error + session list" where
  "sessions_for_record record_id d =
     collect_rows session_from_row
       (sort_key (\<lambda>s. (se_started_at s, se_id s))
         (filter (\<lambda>s. se_history_record_id s = Some record_id) (db_sessions d)))"

definition list_sessions :: "db \<Rightarrow> store_error + session list" where
  "list_sessions d =
     collect_rows session_from_row (sort_key (\<lambda>s. (se_started_at s, se_id s)) (db_sessions d))"

text \<open>Three UPDATE statements; a foreign key fails when a row is changed to a missing record.\<close>

definition assign_session_to_record :: "uuid \<Rightarrow> uuid \<Rightarrow> db \<Rightarrow> store_error + db" where
  "assign_session_to_record session_id record_id d =
     guard_sql (session_id \<notin> set (session_ids d) \<or> record_id \<in> set (db_records d)) ''FOREIGN KEY''
     (let d1 = d\<lparr>db_sessions := map (\<lambda>s. if se_id s = session_id
                    then s\<lparr>se_history_record_id := Some record_id\<rparr> else s) (db_sessions d)\<rparr>
      in guard_sql (\<not> list_ex (\<lambda>e. ev_session_id e = Some session_id) (db_events d1)
                    \<or> record_id \<in> set (db_records d1)) ''FOREIGN KEY''
      (let d2 = d1\<lparr>db_events := map (\<lambda>e. if ev_session_id e = Some session_id
                     then e\<lparr>ev_history_record_id := Some record_id\<rparr> else e) (db_events d1)\<rparr>
       in guard_sql (\<not> list_ex (\<lambda>r. rn_session_id r = Some session_id) (db_runs d2)
                     \<or> record_id \<in> set (db_records d2)) ''FOREIGN KEY''
          (Inr (d2\<lparr>db_runs := map (\<lambda>r. if rn_session_id r = Some session_id
                      then r\<lparr>rn_history_record_id := Some record_id\<rparr> else r) (db_runs d2)\<rparr>))))"

interpretation sessions: keyed_rows se_id merge_session
  by unfold_locales (simp add: merge_session_def)

section \<open>Session edges\<close>

definition stored_edge :: "session_edge \<Rightarrow> session_edge" where
  "stored_edge g =
     g\<lparr>sg_timestamps := stored_timestamps (sg_timestamps g), sg_sync := stored_sync (sg_sync g)\<rparr>"

definition merge_edge :: "session_edge \<Rightarrow> session_edge \<Rightarrow> session_edge" where
  "merge_edge old new = new\<lparr>sg_timestamps := keep_created (sg_timestamps old) (sg_timestamps new)\<rparr>"

definition upsert_session_edge :: "session_edge \<Rightarrow> db \<Rightarrow> store_error + db" where
  "upsert_session_edge g d =
     (let new = stored_edge g
      in guard_sql (sync_check (sg_sync new)) ''CHECK''
        (guard_sql (edge_refs_ok d new) ''FOREIGN KEY''
          (Inr (d\<lparr>db_edges := upsert_row sg_id merge_edge new (db_edges d)\<rparr>))))"

definition session_edge_exists :: "uuid \<Rightarrow> db \<Rightarrow> bool" where
  "session_edge_exists i d \<longleftrightarrow> row_with sg_id i (db_edges d) \<noteq> None"

interpretation edges: keyed_rows sg_id merge_edge
  by unfold_locales (simp add: merge_edge_def)

section \<open>Runs\<close>

definition stored_run :: "run \<Rightarrow> run" where
  "stored_run r =
     r\<lparr>rn_started_at := stored_time (rn_started_at r), rn_ended_at := map_option stored_time (rn_ended_at r),
       rn_timestamps := stored_timestamps (rn_timestamps r), rn_sync := stored_sync (rn_sync r)\<rparr>"

definition merge_run :: "run \<Rightarrow> run \<Rightarrow> run" where
  "merge_run old new = new\<lparr>rn_timestamps := keep_created (rn_timestamps old) (rn_timestamps new)\<rparr>"

definition upsert_run :: "run \<Rightarrow> db \<Rightarrow> store_error + db" where
  "upsert_run r d =
     (let new = stored_run r
      in guard_sql (sync_check (rn_sync new)) ''CHECK''
        (guard_sql (run_refs_ok d new) ''FOREIGN KEY''
          (Inr (d\<lparr>db_runs := upsert_row rn_id merge_run new (db_runs d)\<rparr>))))"

text \<open>\<open>INSERT OR IGNORE\<close> skips a row that violates a CHECK or a UNIQUE constraint; a foreign key
  still fails.\<close>

definition insert_run_if_absent :: "run \<Rightarrow> db \<Rightarrow> store_error + (bool \<times> db)" where
  "insert_run_if_absent r d =
     (let new = stored_run r
      in if \<not> sync_check (rn_sync new) \<or> rn_id new \<in> set (run_ids d) then Inr (False, d)
         else guard_sql (run_refs_ok d new) ''FOREIGN KEY''
           (Inr (True, d\<lparr>db_runs := db_runs d @ [new]\<rparr>)))"

definition run_from_row :: "run \<Rightarrow> store_error + run" where
  "run_from_row r = (if readable_u64 (sm_sync_version (rn_sync r)) then Inr r else unreadable)"

definition get_run :: "uuid \<Rightarrow> db \<Rightarrow> store_error + run" where
  "get_run i d =
     (case row_with rn_id i (db_runs d) of None \<Rightarrow> Inl (NotFound i) | Some r \<Rightarrow> run_from_row r)"

definition runs_for_session :: "uuid \<Rightarrow> db \<Rightarrow> store_error + run list" where
  "runs_for_session session_id d =
     collect_rows run_from_row
       (sort_key (\<lambda>r. (rn_started_at r, rn_id r))
         (filter (\<lambda>r. rn_session_id r = Some session_id) (db_runs d)))"

definition in_record_session :: "uuid \<Rightarrow> db \<Rightarrow> uuid option \<Rightarrow> bool" where
  "in_record_session record_id d session_ref \<longleftrightarrow>
     list_ex (\<lambda>s. se_history_record_id s = Some record_id \<and> session_ref = Some (se_id s)) (db_sessions d)"

definition run_of_record :: "uuid \<Rightarrow> db \<Rightarrow> run \<Rightarrow> bool" where
  "run_of_record record_id d r \<longleftrightarrow>
     rn_history_record_id r = Some record_id \<or> in_record_session record_id d (rn_session_id r)"

definition runs_for_record :: "uuid \<Rightarrow> db \<Rightarrow> store_error + run list" where
  "runs_for_record record_id d =
     collect_rows run_from_row
       (sort_key (\<lambda>r. (rn_started_at r, rn_id r)) (filter (run_of_record record_id d) (db_runs d)))"

definition list_runs :: "db \<Rightarrow> store_error + run list" where
  "list_runs d =
     collect_rows run_from_row (sort_key (\<lambda>r. (rn_started_at r, rn_id r)) (db_runs d))"

interpretation runs: keyed_rows rn_id merge_run
  by unfold_locales (simp add: merge_run_def)

section \<open>Touched files\<close>

definition stored_file :: "file_touched \<Rightarrow> file_touched" where
  "stored_file f =
     f\<lparr>ft_timestamps := stored_timestamps (ft_timestamps f), ft_sync := stored_sync (ft_sync f)\<rparr>"

definition merge_file :: "file_touched \<Rightarrow> file_touched \<Rightarrow> file_touched" where
  "merge_file old new = new\<lparr>ft_timestamps := keep_created (ft_timestamps old) (ft_timestamps new)\<rparr>"

definition upsert_file_touched :: "file_touched \<Rightarrow> db \<Rightarrow> store_error + db" where
  "upsert_file_touched f d =
     (let new = stored_file f
      in guard_sql (sync_check (ft_sync new)) ''CHECK''
        (guard_sql (file_refs_ok d new) ''FOREIGN KEY''
          (Inr (d\<lparr>db_files := upsert_row ft_id merge_file new (db_files d)\<rparr>))))"

definition file_touched_exists :: "uuid \<Rightarrow> db \<Rightarrow> bool" where
  "file_touched_exists i d \<longleftrightarrow> row_with ft_id i (db_files d) \<noteq> None"

definition file_touched_from_row :: "file_touched \<Rightarrow> store_error + file_touched" where
  "file_touched_from_row f = (if readable_u64 (sm_sync_version (ft_sync f)) then Inr f else unreadable)"

definition list_files_touched :: "db \<Rightarrow> store_error + file_touched list" where
  "list_files_touched d =
     collect_rows file_touched_from_row
       (sort_key (\<lambda>f. (et_updated_at (ft_timestamps f), ft_id f)) (db_files d))"

definition event_of_record :: "uuid \<Rightarrow> db \<Rightarrow> event \<Rightarrow> bool" where
  "event_of_record record_id d e \<longleftrightarrow>
     ev_history_record_id e = Some record_id \<or> in_record_session record_id d (ev_session_id e)"

definition file_of_record :: "uuid \<Rightarrow> db \<Rightarrow> file_touched \<Rightarrow> bool" where
  "file_of_record record_id d f \<longleftrightarrow>
     ft_history_record_id f = Some record_id
     \<or> list_ex (\<lambda>r. run_of_record record_id d r \<and> ft_run_id f = Some (rn_id r)) (db_runs d)
     \<or> list_ex (\<lambda>e. event_of_record record_id d e \<and> ft_event_id f = Some (ev_id e)) (db_events d)"

text \<open>\<open>ORDER BY updated_at_ms DESC, id\<close>.\<close>

definition recent_files :: "file_touched list \<Rightarrow> file_touched list" where
  "recent_files fs = sort_key (\<lambda>f. (- et_updated_at (ft_timestamps f), ft_id f)) fs"

definition files_touched_for_record :: "uuid \<Rightarrow> db \<Rightarrow> store_error + file_touched list" where
  "files_touched_for_record record_id d =
     collect_rows file_touched_from_row (recent_files (filter (file_of_record record_id d) (db_files d)))"

definition file_matches :: "string \<Rightarrow> string \<Rightarrow> file_touched \<Rightarrow> bool" where
  "file_matches exact suffix f \<longleftrightarrow>
     ft_path f = exact \<or> ft_old_path f = Some exact
     \<or> like_match (Some (CHR 0x5C)) suffix (ft_path f)
     \<or> (case ft_old_path f of None \<Rightarrow> False | Some old \<Rightarrow> like_match (Some (CHR 0x5C)) suffix old)"

definition files_touched_for_record_matching ::
    "uuid \<Rightarrow> string \<Rightarrow> db \<Rightarrow> store_error + file_touched list" where
  "files_touched_for_record_matching record_id file d =
     (case file_touch_match_values file of
        None \<Rightarrow> Inr []
      | Some (exact, suffix) \<Rightarrow>
          collect_rows file_touched_from_row
            (recent_files (filter (\<lambda>f. file_of_record record_id d f \<and> file_matches exact suffix f)
              (db_files d))))"

interpretation files: keyed_rows ft_id merge_file
  by unfold_locales (simp add: merge_file_def)

section \<open>Sync cursors\<close>

definition stored_cursor :: "sync_cursor \<Rightarrow> sync_cursor" where
  "stored_cursor c =
     c\<lparr>sc_last_synced_at := map_option stored_time (sc_last_synced_at c),
       sc_timestamps := stored_timestamps (sc_timestamps c)\<rparr>"

definition cursor_key :: "sync_cursor \<Rightarrow> string option \<times> string \<times> string" where
  "cursor_key c = (sc_team_id c, sc_device_id c, sc_stream c)"

definition get_sync_cursor :: "string option \<Rightarrow> string \<Rightarrow> string \<Rightarrow> db \<Rightarrow> sync_cursor option" where
  "get_sync_cursor team_id device_id stream d =
     row_with cursor_key (team_id, device_id, stream) (db_cursors d)"

text \<open>An existing cursor is advanced, keeping its id and creation time; else the row is inserted,
  and its id is read back.\<close>

definition upsert_sync_cursor :: "sync_cursor \<Rightarrow> db \<Rightarrow> store_error + (uuid \<times> db)" where
  "upsert_sync_cursor c d =
     (let new = stored_cursor c
      in case get_sync_cursor (sc_team_id c) (sc_device_id c) (sc_stream c) d of
           Some existing \<Rightarrow>
             Inr (sc_id existing,
               d\<lparr>db_cursors := map (\<lambda>row. if sc_id row = sc_id existing
                   then row\<lparr>sc_cursor := sc_cursor new, sc_last_synced_at := sc_last_synced_at new,
                     sc_timestamps := (sc_timestamps row)\<lparr>et_updated_at := et_updated_at (sc_timestamps new)\<rparr>\<rparr>
                   else row) (db_cursors d)\<rparr>)
         | None \<Rightarrow>
             guard_sql (sc_id new \<notin> set (cursor_ids d)) ''UNIQUE''
               (Inr (sc_id new, d\<lparr>db_cursors := db_cursors d @ [new]\<rparr>)))"

end
