(* ===== verification/Store_Events.thy ===== *)
theory Store_Events
  imports Store_Entities
begin

text \<open>
  The store's operations on events (\<open>events.rs\<close>): the two ways to write one, the record an
  event belongs to, and the reads. A write also maintains the search projection and the
  cached count of semantic documents.
\<close>

section \<open>Rows\<close>

definition stored_event :: "event \<Rightarrow> event" where
  "stored_event e =
     e\<lparr>ev_occurred_at := stored_time (ev_occurred_at e), ev_sync := stored_sync (ev_sync e)\<rparr>"

definition replace_event :: "event \<Rightarrow> event \<Rightarrow> event" where
  "replace_event old new = new"

interpretation events: keyed_rows ev_id replace_event
  by unfold_locales (simp add: replace_event_def)

definition event_from_row :: "event \<Rightarrow> store_error + event" where
  "event_from_row e =
     (if readable_u64 (ev_seq e) \<and> readable_u64 (sm_sync_version (ev_sync e)) then Inr e else unreadable)"

definition dedupe_keys :: "db \<Rightarrow> string list" where
  "dedupe_keys d = List.map_filter ev_dedupe_key (db_events d)"

definition event_with_dedupe_key :: "string \<Rightarrow> db \<Rightarrow> event option" where
  "event_with_dedupe_key k d = row_with ev_dedupe_key (Some k) (db_events d)"

definition event_id_by_dedupe_key :: "string \<Rightarrow> db \<Rightarrow> store_error + uuid" where
  "event_id_by_dedupe_key k d =
     (case event_with_dedupe_key k d of
        Some e \<Rightarrow> Inr (ev_id e) | None \<Rightarrow> Inl (Sql QueryReturnedNoRows))"

definition event_id_by_seq :: "u64 \<Rightarrow> db \<Rightarrow> store_error + uuid" where
  "event_id_by_seq seq d =
     (case row_with ev_seq seq (db_events d) of
        Some e \<Rightarrow> Inr (ev_id e) | None \<Rightarrow> Inl (Sql QueryReturnedNoRows))"

text \<open>The unique columns \<open>seq\<close> and \<open>dedupe_key\<close> (nulls apart), against the rows of other ids.\<close>

definition event_unique_conflict :: "db \<Rightarrow> event \<Rightarrow> bool" where
  "event_unique_conflict d new \<longleftrightarrow>
     list_ex (\<lambda>e. ev_id e \<noteq> ev_id new
       \<and> (ev_seq e = ev_seq new \<or> ev_dedupe_key e \<noteq> None \<and> ev_dedupe_key e = ev_dedupe_key new))
       (db_events d)"

section \<open>Writes\<close>

definition semantic_count_from_stored_event :: "externals \<Rightarrow> db \<Rightarrow> uuid \<Rightarrow> nat" where
  "semantic_count_from_stored_event X d i =
     (case row_with ev_id i (db_events d) of
        None \<Rightarrow> 0
      | Some e \<Rightarrow> semantic_searchable_event_count_for_event X e)"

definition write_event :: "externals \<Rightarrow> unicode \<Rightarrow> event \<Rightarrow> db \<Rightarrow> store_error + (uuid \<times> db)" where
  "write_event X U e d =
     (let previous = semantic_count_from_stored_event X d (ev_id e);
          new = stored_event e;
          d1 = d\<lparr>db_events := upsert_row ev_id replace_event new (db_events d)\<rparr>
      in guard_sql (sync_check (ev_sync new)) ''CHECK''
        (guard_sql (\<not> event_unique_conflict d new) ''UNIQUE''
          (guard_sql (event_refs_ok d1 new) ''FOREIGN KEY''
            (bind_result (upsert_event_search_projection_for_event X U (ev_id e) e (db_projection d1))
              (\<lambda>T. let d2 = d1\<lparr>db_projection := adjust_semantic_searchable_item_stats X (db_events d1)
                            previous (semantic_searchable_event_count_for_event X e) T\<rparr>
                in case ev_dedupe_key e of
                     Some k \<Rightarrow> bind_result (event_id_by_dedupe_key k d2) (\<lambda>i. Inr (i, d2))
                   | None \<Rightarrow> Inr (ev_id e, d2))))))"

definition upsert_event :: "externals \<Rightarrow> unicode \<Rightarrow> event \<Rightarrow> db \<Rightarrow> store_error + (uuid \<times> db)" where
  "upsert_event X U e d =
     (case ev_dedupe_key e of
        Some k \<Rightarrow>
          bind_result (reject_provider_event_hash_conflict (dedupe_keys d) k)
            (\<lambda>_. case event_with_dedupe_key k d of
                   Some existing \<Rightarrow> Inr (ev_id existing, d)
                 | None \<Rightarrow> write_event X U e d)
      | None \<Rightarrow> write_event X U e d)"

text \<open>\<open>INSERT OR IGNORE\<close>: a row that violates a CHECK or a unique column is skipped; then only a
  payload hash conflict is an error.\<close>

definition event_insert_ignored :: "db \<Rightarrow> event \<Rightarrow> bool" where
  "event_insert_ignored d new \<longleftrightarrow>
     \<not> sync_check (ev_sync new) \<or> ev_id new \<in> set (event_ids d) \<or> event_unique_conflict d new"

definition insert_event_if_absent ::
    "externals \<Rightarrow> unicode \<Rightarrow> event \<Rightarrow> db \<Rightarrow> store_error + (bool \<times> db)" where
  "insert_event_if_absent X U e d =
     (let new = stored_event e
      in if event_insert_ignored d new
         then case ev_dedupe_key e of
                Some k \<Rightarrow> bind_result (reject_provider_event_hash_conflict (dedupe_keys d) k)
                            (\<lambda>_. Inr (False, d))
              | None \<Rightarrow> Inr (False, d)
         else let d1 = d\<lparr>db_events := db_events d @ [new]\<rparr>
           in guard_sql (event_refs_ok d1 new) ''FOREIGN KEY''
             (bind_result (insert_event_search_projection_for_event X U e (db_projection d1))
               (\<lambda>T. Inr (True, d1\<lparr>db_projection := adjust_semantic_searchable_item_stats X (db_events d1)
                             0 (semantic_searchable_event_count_for_event X e) T\<rparr>))))"

text \<open>The history record a rebuild gives to the rows of an event.\<close>

definition resolved_history_record :: "db \<Rightarrow> event \<Rightarrow> uuid option" where
  "resolved_history_record d e =
     (let run = Option.bind (ev_run_id e) (\<lambda>i. row_with rn_id i (db_runs d));
          sess = Option.bind (ev_session_id e) (\<lambda>i. row_with se_id i (db_sessions d));
          run_sess = Option.bind (Option.bind run rn_session_id) (\<lambda>i. row_with se_id i (db_sessions d))
      in or_else (ev_history_record_id e)
          (or_else (Option.bind run rn_history_record_id)
            (or_else (Option.bind sess se_history_record_id)
              (Option.bind run_sess se_history_record_id))))"

section \<open>Reads\<close>

definition get_event :: "uuid \<Rightarrow> db \<Rightarrow> store_error + event" where
  "get_event i d =
     (case row_with ev_id (resolve_alias (db_event_aliases d) i) (db_events d) of
        None \<Rightarrow> Inl (NotFound i)
      | Some e \<Rightarrow> event_from_row e)"

definition event_alias_target_id :: "uuid \<Rightarrow> db \<Rightarrow> uuid option" where
  "event_alias_target_id alias_id d = map_of (db_event_aliases d) alias_id"

definition events_by_id_prefix :: "externals \<Rightarrow> string \<Rightarrow> db \<Rightarrow> store_error + event list" where
  "events_by_id_prefix X prefix d =
     (let matches = (\<lambda>i. like_match None (prefix @ ''%'') (uuid_text X i));
          targets = map snd (filter (\<lambda>(alias_id, _). matches alias_id) (db_event_aliases d))
      in collect_rows event_from_row
           (take 2 (sort_key ev_id
             (filter (\<lambda>e. matches (ev_id e) \<or> ev_id e \<in> set targets) (db_events d)))))"

text \<open>\<open>ORDER BY seq, occurred_at_ms\<close>, on the signed column.\<close>

definition seq_order :: "event \<Rightarrow> int \<times> datetime" where
  "seq_order e = (sint (ev_seq e), ev_occurred_at e)"

definition session_events :: "uuid \<Rightarrow> db \<Rightarrow> event list" where
  "session_events session_id d =
     sort_key seq_order (filter (\<lambda>e. ev_session_id e = Some session_id) (db_events d))"

definition events_for_session :: "uuid \<Rightarrow> db \<Rightarrow> store_error + event list" where
  "events_for_session session_id d = collect_rows event_from_row (session_events session_id d)"

definition events_for_session_limited :: "uuid \<Rightarrow> nat \<Rightarrow> db \<Rightarrow> store_error + event list" where
  "events_for_session_limited session_id limit d =
     collect_rows event_from_row (take limit (session_events session_id d))"

definition capped_seq :: "u64 \<Rightarrow> int" where
  "capped_seq w = (if unat w < 2 ^ 63 then int (unat w) else i64_max)"

text \<open>The rows before the event are read backwards (\<open>ORDER BY seq DESC, occurred_at_ms DESC\<close>) and
  reversed.\<close>

definition events_for_session_window :: "event \<Rightarrow> nat \<Rightarrow> nat \<Rightarrow> db \<Rightarrow> store_error + event list" where
  "events_for_session_window e before after d =
     (case ev_session_id e of
        None \<Rightarrow> Inr [e]
      | Some session_id \<Rightarrow>
          let event_seq = capped_seq (ev_seq e)
          in bind_result
              (if before = 0 then Inr []
               else bind_result
                 (collect_rows event_from_row (take before
                   (sort_key (\<lambda>r. (- sint (ev_seq r), - ev_occurred_at r))
                     (filter (\<lambda>r. ev_session_id r = Some session_id \<and> sint (ev_seq r) < event_seq)
                       (db_events d)))))
                 (\<lambda>rows. Inr (rev rows)))
              (\<lambda>rows_before. bind_result
                (if after > 0 then
                   collect_rows event_from_row (take after
                     (sort_key seq_order
                       (filter (\<lambda>r. ev_session_id r = Some session_id \<and> sint (ev_seq r) > event_seq)
                         (db_events d))))
                 else Inr [])
                (\<lambda>rows_after. Inr (rows_before @ [e] @ rows_after))))"

definition events_for_record :: "uuid \<Rightarrow> db \<Rightarrow> store_error + event list" where
  "events_for_record record_id d =
     collect_rows event_from_row
       (sort_key seq_order
         (filter (\<lambda>e. event_of_record record_id d e
             \<or> list_ex (\<lambda>r. run_of_record record_id d r \<and> ev_run_id e = Some (rn_id r)) (db_runs d))
           (db_events d)))"

definition list_events :: "db \<Rightarrow> store_error + event list" where
  "list_events d =
     collect_rows event_from_row
       (sort_key (\<lambda>e. (sint (ev_seq e), ev_occurred_at e, ev_id e)) (db_events d))"

definition events_after :: "uuid option \<Rightarrow> db \<Rightarrow> event list" where
  "events_after after_id d =
     sort_key ev_id
       (filter (\<lambda>e. case after_id of None \<Rightarrow> True | Some i \<Rightarrow> i < ev_id e) (db_events d))"

definition list_events_page_after :: "uuid option \<Rightarrow> nat \<Rightarrow> db \<Rightarrow> store_error + event list" where
  "list_events_page_after after_id limit d =
     collect_rows event_from_row (take limit (events_after after_id d))"

definition max_events_per_history_record :: "db \<Rightarrow> nat" where
  "max_events_per_history_record d =
     foldr max (map (\<lambda>e. length (filter (\<lambda>f. ev_history_record_id f = ev_history_record_id e) (db_events d)))
       (db_events d)) 0"

definition has_at_least_events :: "int \<Rightarrow> db \<Rightarrow> bool" where
  "has_at_least_events threshold d \<longleftrightarrow> threshold \<le> 0 \<or> nat (threshold - 1) < length (db_events d)"

end
