(* ===== verification/Store_Invariant.thy ===== *)
theory Store_Invariant
  imports Store_Events
begin

text \<open>
  What every reachable state of the store satisfies. \<open>store_step\<close> is the relation of one
  successful write, \<open>store_ok\<close> the invariant: primary keys and unique columns are unique, foreign
  keys point to rows, no stored row is withheld, live sessions are unique per source, provider and
  external id, and the lookup projection has at most one row for each event.
\<close>

section \<open>The invariant, table by table\<close>

definition ids_grow :: "db \<Rightarrow> db \<Rightarrow> bool" where
  "ids_grow d d' \<longleftrightarrow>
     set (source_ids d) \<subseteq> set (source_ids d') \<and> set (session_ids d) \<subseteq> set (session_ids d')
     \<and> set (run_ids d) \<subseteq> set (run_ids d') \<and> set (event_ids d) \<subseteq> set (event_ids d')
     \<and> set (db_records d) \<subseteq> set (db_records d') \<and> set (db_artifacts d) \<subseteq> set (db_artifacts d')
     \<and> set (db_workspaces d) \<subseteq> set (db_workspaces d')"

lemma refs_ok_grow:
  assumes "ids_grow d d'"
  shows "session_refs_ok d s \<Longrightarrow> session_refs_ok d' s" "edge_refs_ok d g \<Longrightarrow> edge_refs_ok d' g"
    "run_refs_ok d r \<Longrightarrow> run_refs_ok d' r" "event_refs_ok d e \<Longrightarrow> event_refs_ok d' e"
    "file_refs_ok d f \<Longrightarrow> file_refs_ok d' f"
  using assms unfolding ids_grow_def refs_ok_defs by (blast intro: references_mono)+

definition sources_ok :: "db \<Rightarrow> bool" where
  "sources_ok d \<longleftrightarrow> distinct (source_ids d) \<and> (\<forall>s \<in> set (db_sources d). sync_check (cs_sync s))"

definition unique_live_sessions :: "session list \<Rightarrow> bool" where
  "unique_live_sessions rows \<longleftrightarrow>
     (\<forall>s \<in> set rows. \<forall>t \<in> set rows. live_provider_session s \<longrightarrow> live_provider_session t
        \<longrightarrow> session_key s = session_key t \<longrightarrow> se_id s = se_id t)"

definition sessions_ok :: "db \<Rightarrow> bool" where
  "sessions_ok d \<longleftrightarrow>
     distinct (session_ids d) \<and> unique_live_sessions (db_sessions d)
     \<and> (\<forall>s \<in> set (db_sessions d). session_refs_ok d s \<and> sync_check (se_sync s))"

definition edges_ok :: "db \<Rightarrow> bool" where
  "edges_ok d \<longleftrightarrow> distinct (edge_ids d) \<and> (\<forall>g \<in> set (db_edges d). edge_refs_ok d g \<and> sync_check (sg_sync g))"

definition runs_ok :: "db \<Rightarrow> bool" where
  "runs_ok d \<longleftrightarrow> distinct (run_ids d) \<and> (\<forall>r \<in> set (db_runs d). run_refs_ok d r \<and> sync_check (rn_sync r))"

definition unique_dedupe :: "event list \<Rightarrow> bool" where
  "unique_dedupe rows \<longleftrightarrow>
     (\<forall>e \<in> set rows. \<forall>f \<in> set rows. ev_dedupe_key e \<noteq> None \<longrightarrow> ev_dedupe_key e = ev_dedupe_key f
        \<longrightarrow> ev_id e = ev_id f)"

definition unique_seq :: "event list \<Rightarrow> bool" where
  "unique_seq rows \<longleftrightarrow>
     (\<forall>e \<in> set rows. \<forall>f \<in> set rows. ev_seq e = ev_seq f \<longrightarrow> ev_id e = ev_id f)"

definition events_ok :: "db \<Rightarrow> bool" where
  "events_ok d \<longleftrightarrow>
     distinct (event_ids d) \<and> unique_seq (db_events d) \<and> unique_dedupe (db_events d)
     \<and> (\<forall>e \<in> set (db_events d). event_refs_ok d e \<and> sync_check (ev_sync e))"

definition files_ok :: "db \<Rightarrow> bool" where
  "files_ok d \<longleftrightarrow> distinct (file_ids d) \<and> (\<forall>f \<in> set (db_files d). file_refs_ok d f \<and> sync_check (ft_sync f))"

definition cursors_ok :: "db \<Rightarrow> bool" where
  "cursors_ok d \<longleftrightarrow> distinct (cursor_ids d) \<and> distinct (map cursor_key (db_cursors d))"

definition lookup_rows :: "db \<Rightarrow> search_row list" where
  "lookup_rows d = unwrap_or (st_lookup (db_projection d)) []"

definition lookup_ok :: "db \<Rightarrow> bool" where
  "lookup_ok d \<longleftrightarrow> distinct (map sr_event_id (lookup_rows d))
     \<and> (\<forall>r \<in> set (lookup_rows d). sr_event_id r \<in> set (event_ids d))"

definition store_ok :: "db \<Rightarrow> bool" where
  "store_ok d \<longleftrightarrow> sources_ok d \<and> sessions_ok d \<and> edges_ok d \<and> runs_ok d \<and> events_ok d \<and> files_ok d
     \<and> cursors_ok d \<and> lookup_ok d"

lemmas table_ok_defs = sources_ok_def sessions_ok_def edges_ok_def runs_ok_def events_ok_def files_ok_def
  cursors_ok_def lookup_ok_def

text \<open>A table that a write leaves alone stays well-formed when the ids only grow.\<close>

lemma tables_frame:
  assumes "ids_grow d d'"
  shows "db_sources d' = db_sources d \<Longrightarrow> sources_ok d \<Longrightarrow> sources_ok d'"
    "db_sessions d' = db_sessions d \<Longrightarrow> sessions_ok d \<Longrightarrow> sessions_ok d'"
    "db_edges d' = db_edges d \<Longrightarrow> edges_ok d \<Longrightarrow> edges_ok d'"
    "db_runs d' = db_runs d \<Longrightarrow> runs_ok d \<Longrightarrow> runs_ok d'"
    "db_events d' = db_events d \<Longrightarrow> events_ok d \<Longrightarrow> events_ok d'"
    "db_files d' = db_files d \<Longrightarrow> files_ok d \<Longrightarrow> files_ok d'"
    "db_cursors d' = db_cursors d \<Longrightarrow> cursors_ok d \<Longrightarrow> cursors_ok d'"
    "db_projection d' = db_projection d \<Longrightarrow> lookup_ok d \<Longrightarrow> lookup_ok d'"
proof -
  note grow = refs_ok_grow [OF assms]
  have ids: "set (event_ids d) \<subseteq> set (event_ids d')" using assms by (simp add: ids_grow_def)
  show "db_sources d' = db_sources d \<Longrightarrow> sources_ok d \<Longrightarrow> sources_ok d'" by (simp add: sources_ok_def)
  show "db_sessions d' = db_sessions d \<Longrightarrow> sessions_ok d \<Longrightarrow> sessions_ok d'"
    using grow(1) by (simp add: sessions_ok_def)
  show "db_edges d' = db_edges d \<Longrightarrow> edges_ok d \<Longrightarrow> edges_ok d'" using grow(2) by (simp add: edges_ok_def)
  show "db_runs d' = db_runs d \<Longrightarrow> runs_ok d \<Longrightarrow> runs_ok d'" using grow(3) by (simp add: runs_ok_def)
  show "db_events d' = db_events d \<Longrightarrow> events_ok d \<Longrightarrow> events_ok d'" using grow(4) by (simp add: events_ok_def)
  show "db_files d' = db_files d \<Longrightarrow> files_ok d \<Longrightarrow> files_ok d'" using grow(5) by (simp add: files_ok_def)
  show "db_cursors d' = db_cursors d \<Longrightarrow> cursors_ok d \<Longrightarrow> cursors_ok d'" by (simp add: cursors_ok_def)
  show "db_projection d' = db_projection d \<Longrightarrow> lookup_ok d \<Longrightarrow> lookup_ok d'"
    using ids unfolding lookup_ok_def lookup_rows_def by (metis subsetD)
qed

section \<open>Preservation\<close>

lemma upsert_capture_source_ok:
  assumes "upsert_capture_source s d = Inr d'" "store_ok d"
  shows "store_ok d'"
proof -
  from assms(1) have check: "sync_check (cs_sync s)"
    and d': "d' = d\<lparr>db_sources := upsert_row cs_id replace_source (stored_source s) (db_sources d)\<rparr>"
    by (auto simp: upsert_capture_source_def guard_sql_eq_Inr)
  have grow: "ids_grow d d'"
    using sources.key_set_upsert [of "stored_source s" "db_sources d"] by (auto simp: ids_grow_def d')
  have "sources_ok d'"
    using assms(2) check sources.distinct_upsert [of "db_sources d" "stored_source s"]
    unfolding store_ok_def sources_ok_def d'
    by (auto simp: stored_source_def replace_source_def dest!: sources.upsert_member)
  with tables_frame [OF grow] assms(2) show ?thesis by (simp add: store_ok_def d')
qed

lemma upsert_session_ok:
  assumes "upsert_session s d = Inr d'" "store_ok d"
  shows "store_ok d'"
proof -
  let ?new = "stored_session s"
  from assms(1) have d': "d' = d\<lparr>db_sessions := upsert_row se_id merge_session ?new (db_sessions d)\<rparr>"
    and check: "sync_check (se_sync ?new)" and refs: "session_refs_ok d' ?new"
    and unique: "\<not> session_index_conflict d ?new"
    by (auto simp: upsert_session_def Let_def guard_sql_eq_Inr split: if_splits)
  have ids: "set (session_ids d') = insert (se_id ?new) (set (session_ids d))"
    using sessions.key_set_upsert [of ?new "db_sessions d"] by (simp add: d')
  then have grow: "ids_grow d d'" by (auto simp: ids_grow_def d')
  have merged: "session_refs_ok d'' (merge_session old t) = session_refs_ok d'' t"
      "sync_check (se_sync (merge_session old t)) = sync_check (se_sync t)"
      "live_provider_session (merge_session old t) = live_provider_session t"
      "session_key (merge_session old t) = session_key t" "se_id (merge_session old t) = se_id t" for d'' old t
    by (simp_all add: merge_session_def session_refs_ok_def live_provider_session_def session_key_def)
  have rows: "r \<in> set (db_sessions d') \<Longrightarrow> (r \<in> set (db_sessions d) \<and> se_id r \<noteq> se_id ?new)
      \<or> r = ?new \<or> (\<exists>old \<in> set (db_sessions d). r = merge_session old ?new)" for r
    by (cases "se_id r = se_id ?new") (auto simp: d' upsert_row_def image_iff split: if_splits)
  have "sessions_ok d'"
    unfolding sessions_ok_def
  proof (intro conjI ballI)
    show "distinct (session_ids d')"
      using assms(2) sessions.distinct_upsert by (simp add: store_ok_def sessions_ok_def d')
    show "session_refs_ok d' r" "sync_check (se_sync r)" if "r \<in> set (db_sessions d')" for r
      using rows [OF that] refs check merged assms(2) refs_ok_grow(1) [OF grow]
      by (auto simp: store_ok_def sessions_ok_def)
    have other: "se_id r = se_id ?new" if "r \<in> set (db_sessions d)" "live_provider_session r"
        "live_provider_session ?new" "session_key r = session_key ?new" for r
      using unique that by (auto simp: session_index_conflict_def list_ex_iff)
    have origin: "r \<in> set (db_sessions d) \<or> se_id r = se_id ?new
        \<and> live_provider_session r = live_provider_session ?new \<and> session_key r = session_key ?new"
      if "r \<in> set (db_sessions d')" for r
      using rows [OF that] merged by auto
    have old: "unique_live_sessions (db_sessions d)"
      using assms(2) by (simp add: store_ok_def sessions_ok_def)
    show "unique_live_sessions (db_sessions d')"
      unfolding unique_live_sessions_def
    proof (intro ballI impI)
      fix r t assume r: "r \<in> set (db_sessions d')" and t: "t \<in> set (db_sessions d')" and live:
        "live_provider_session r" "live_provider_session t" "session_key r = session_key t"
      from origin [OF r] show "se_id r = se_id t"
      proof
        assume r: "r \<in> set (db_sessions d)"
        from origin [OF t] show ?thesis
        proof
          assume "t \<in> set (db_sessions d)"
          with r live old show ?thesis unfolding unique_live_sessions_def by blast
        qed (use r live other [of r] in simp)
      next
        assume new: "se_id r = se_id ?new \<and> live_provider_session r = live_provider_session ?new
          \<and> session_key r = session_key ?new"
        from origin [OF t] show ?thesis
          by (rule disjE) (use new live other [of t] in simp_all)
      qed
    qed
  qed
  with tables_frame [OF grow] assms(2) show ?thesis by (simp add: store_ok_def d')
qed

lemma upsert_session_edge_ok:
  assumes "upsert_session_edge g d = Inr d'" "store_ok d"
  shows "store_ok d'"
proof -
  from assms(1) have d': "d' = d\<lparr>db_edges := upsert_row sg_id merge_edge (stored_edge g) (db_edges d)\<rparr>"
    and ok: "sync_check (sg_sync (stored_edge g))" "edge_refs_ok d (stored_edge g)"
    by (auto simp: upsert_session_edge_def Let_def guard_sql_eq_Inr)
  have grow: "ids_grow d d'" by (simp add: ids_grow_def d')
  have "edges_ok d'"
    using assms(2) ok edges.distinct_upsert [of "db_edges d" "stored_edge g"]
    unfolding store_ok_def edges_ok_def d'
    by (auto simp: merge_edge_def edge_refs_ok_def dest!: edges.upsert_member)
  with tables_frame [OF grow] assms(2) show ?thesis by (simp add: store_ok_def d')
qed

lemma runs_ok_upsert:
  assumes "store_ok d" "sync_check (rn_sync new)" "run_refs_ok d new"
  shows "store_ok (d\<lparr>db_runs := upsert_row rn_id merge_run new (db_runs d)\<rparr>)" (is "store_ok ?d'")
proof -
  have grow: "ids_grow d ?d'"
    using runs.key_set_upsert [of new "db_runs d"] by (auto simp: ids_grow_def)
  have "runs_ok ?d'"
    using assms runs.distinct_upsert [of "db_runs d" new]
    unfolding store_ok_def runs_ok_def
    by (auto simp: merge_run_def run_refs_ok_def dest!: runs.upsert_member)
  with tables_frame [OF grow] assms(1) show ?thesis by (simp add: store_ok_def)
qed

lemma upsert_run_ok: "upsert_run r d = Inr d' \<Longrightarrow> store_ok d \<Longrightarrow> store_ok d'"
  by (auto simp: upsert_run_def Let_def guard_sql_eq_Inr intro: runs_ok_upsert)

lemma insert_run_if_absent_ok: "insert_run_if_absent r d = Inr (b, d') \<Longrightarrow> store_ok d \<Longrightarrow> store_ok d'"
proof -
  assume step: "insert_run_if_absent r d = Inr (b, d')" and ok: "store_ok d"
  show ?thesis
  proof (cases "\<not> sync_check (rn_sync (stored_run r)) \<or> rn_id (stored_run r) \<in> set (run_ids d)")
    case True
    with step ok show ?thesis by (auto simp: insert_run_if_absent_def Let_def)
  next
    case False
    then have "upsert_row rn_id merge_run (stored_run r) (db_runs d) = db_runs d @ [stored_run r]"
      by (auto simp: upsert_row_def)
    with False step ok runs_ok_upsert [of d "stored_run r"] show ?thesis
      by (auto simp: insert_run_if_absent_def Let_def guard_sql_eq_Inr)
  qed
qed

lemma upsert_file_touched_ok:
  assumes "upsert_file_touched f d = Inr d'" "store_ok d"
  shows "store_ok d'"
proof -
  from assms(1) have d': "d' = d\<lparr>db_files := upsert_row ft_id merge_file (stored_file f) (db_files d)\<rparr>"
    and ok: "sync_check (ft_sync (stored_file f))" "file_refs_ok d (stored_file f)"
    by (auto simp: upsert_file_touched_def Let_def guard_sql_eq_Inr)
  have grow: "ids_grow d d'" by (simp add: ids_grow_def d')
  have "files_ok d'"
    using assms(2) ok files.distinct_upsert [of "db_files d" "stored_file f"]
    unfolding store_ok_def files_ok_def d'
    by (auto simp: merge_file_def file_refs_ok_def dest!: files.upsert_member)
  with tables_frame [OF grow] assms(2) show ?thesis by (simp add: store_ok_def d')
qed

lemma upsert_sync_cursor_ok:
  assumes "upsert_sync_cursor c d = Inr (i, d')" "store_ok d"
  shows "store_ok d'"
proof -
  from assms(1) have d': "\<exists>rows. d' = d\<lparr>db_cursors := rows\<rparr>"
    by (auto simp: upsert_sync_cursor_def Let_def guard_sql_eq_Inr split: option.splits)
  then have grow: "ids_grow d d'" by (auto simp: ids_grow_def)
  have "cursors_ok d'"
  proof (cases "get_sync_cursor (sc_team_id c) (sc_device_id c) (sc_stream c) d")
    case None
    then have "cursor_key c \<notin> set (map cursor_key (db_cursors d))"
      by (auto simp: get_sync_cursor_def row_with_def find_eq_None cursor_key_def)
    with None assms show ?thesis
      by (auto simp: upsert_sync_cursor_def Let_def guard_sql_eq_Inr cursors_ok_def store_ok_def
          stored_cursor_def cursor_key_def)
  next
    case (Some existing)
    let ?upd = "\<lambda>row. if sc_id row = sc_id existing
        then row\<lparr>sc_cursor := sc_cursor (stored_cursor c),
          sc_last_synced_at := sc_last_synced_at (stored_cursor c),
          sc_timestamps := (sc_timestamps row)\<lparr>et_updated_at := et_updated_at (sc_timestamps (stored_cursor c))\<rparr>\<rparr>
        else row"
    have "db_cursors d' = map ?upd (db_cursors d)"
      using assms(1) Some by (auto simp: upsert_sync_cursor_def Let_def)
    moreover have "sc_id (?upd row) = sc_id row" "cursor_key (?upd row) = cursor_key row" for row
      by (simp_all add: cursor_key_def)
    ultimately show ?thesis
      using assms(2) by (simp add: cursors_ok_def store_ok_def comp_def)
  qed
  with tables_frame [OF grow] assms(2) d' show ?thesis by (auto simp: store_ok_def)
qed

lemma lookup_after_upsert:
  assumes "upsert_event_search_projection_for_event X U eid e T = Inr T'"
  shows "unwrap_or (st_lookup T') [] = filter (\<lambda>r. sr_event_id r \<noteq> eid) (unwrap_or (st_lookup T) [])
    \<or> (\<exists>row. sr_event_id row = eid \<and> unwrap_or (st_lookup T') []
         = filter (\<lambda>r. sr_event_id r \<noteq> eid) (unwrap_or (st_lookup T) []) @ [row])"
  using assms
  by (cases "st_lookup T")
    (auto simp: upsert_projection_eq delete_event_rows_def with_rows_def split: if_splits)

lemma adjust_lookup [simp]:
  "st_lookup (adjust_semantic_searchable_item_stats X es p c T) = st_lookup T"
  by (simp add: adjust_semantic_searchable_item_stats_def refresh_semantic_searchable_item_stats_def
      split: option.split)

text \<open>Writing the row of an event that has no conflict.\<close>

lemma events_ok_upsert:
  assumes "store_ok d" "sync_check (ev_sync new)" "\<not> event_unique_conflict d new"
    and d1: "d1 = d\<lparr>db_events := upsert_row ev_id replace_event new (db_events d)\<rparr>"
    and refs: "event_refs_ok d1 new"
  shows "ids_grow d d1" "events_ok d1" "set (event_ids d1) = insert (ev_id new) (set (event_ids d))"
proof -
  show ids: "set (event_ids d1) = insert (ev_id new) (set (event_ids d))"
    using events.key_set_upsert [of new "db_events d"] by (simp add: d1)
  then show grow: "ids_grow d d1" by (auto simp: ids_grow_def d1)
  have old: "distinct (event_ids d)" "unique_seq (db_events d)" "unique_dedupe (db_events d)"
      "\<And>e. e \<in> set (db_events d) \<Longrightarrow> event_refs_ok d e \<and> sync_check (ev_sync e)"
    using assms(1) by (auto simp: store_ok_def events_ok_def)
  have rows: "e \<in> set (db_events d) \<or> e = new" if "e \<in> set (db_events d1)" for e
    using that by (auto simp: d1 replace_event_def dest!: events.upsert_member)
  have fresh: "ev_id e = ev_id new" if "e \<in> set (db_events d)"
      "ev_seq e = ev_seq new \<or> ev_dedupe_key e \<noteq> None \<and> ev_dedupe_key e = ev_dedupe_key new" for e
    using assms(3) that by (auto simp: event_unique_conflict_def list_ex_iff)
  show "events_ok d1"
    unfolding events_ok_def
  proof (intro conjI ballI)
    show "distinct (event_ids d1)" using old(1) events.distinct_upsert by (simp add: d1)
    show "unique_seq (db_events d1)"
      unfolding unique_seq_def using old(2) fresh by (metis rows unique_seq_def)
    show "unique_dedupe (db_events d1)"
      unfolding unique_dedupe_def using old(3) fresh by (metis rows unique_dedupe_def)
    show "event_refs_ok d1 e" "sync_check (ev_sync e)" if "e \<in> set (db_events d1)" for e
      using rows [OF that] old(4) refs assms(2) refs_ok_grow(4) [OF grow] by blast+
  qed
qed

text \<open>The projection of a write keeps the lookup table well-formed.\<close>

lemma store_ok_projection:
  assumes "store_ok d" "ids_grow d d1" "events_ok d1" "set (event_ids d1) = insert i (set (event_ids d))"
    and d1: "d1 = d\<lparr>db_events := rows\<rparr>"
    and lookup: "unwrap_or (st_lookup T) [] = filter (\<lambda>r. sr_event_id r \<noteq> i) (lookup_rows d)
      \<or> (\<exists>row. sr_event_id row = i
          \<and> unwrap_or (st_lookup T) [] = filter (\<lambda>r. sr_event_id r \<noteq> i) (lookup_rows d) @ [row])"
  shows "store_ok (d1\<lparr>db_projection := T\<rparr>)" (is "store_ok ?d2")
proof -
  have grow: "ids_grow d1 ?d2" by (simp add: ids_grow_def)
  have "ids_grow d ?d2" using assms(2) by (simp add: ids_grow_def)
  note frame = tables_frame [OF this]
  have "lookup_ok d" using assms(1) by (simp add: store_ok_def)
  then have "lookup_ok ?d2"
    using lookup assms(4) unfolding lookup_ok_def
    by (auto simp: lookup_rows_def distinct_map_filter)
  moreover have "events_ok ?d2" by (rule tables_frame(5) [OF grow]) (simp_all add: assms(3))
  ultimately show ?thesis using frame assms(1) by (simp add: store_ok_def d1)
qed

lemma write_event_ok:
  assumes "write_event X U e d = Inr (i, d')" "store_ok d"
  shows "store_ok d'"
proof -
  let ?new = "stored_event e"
  define d1 where "d1 = d\<lparr>db_events := upsert_row ev_id replace_event ?new (db_events d)\<rparr>"
  from assms(1) obtain T T' where T: "upsert_event_search_projection_for_event X U (ev_id e) e (db_projection d1) = Inr T"
    and d': "d' = d1\<lparr>db_projection := T'\<rparr>" "st_lookup T' = st_lookup T"
    and checks: "sync_check (ev_sync ?new)" "\<not> event_unique_conflict d ?new" "event_refs_ok d1 ?new"
    unfolding write_event_def Let_def d1_def [symmetric]
    by (auto simp: guard_sql_eq_Inr bind_result_eq_Inr split: option.splits)
  note ok = events_ok_upsert [OF assms(2) checks(1,2) d1_def checks(3)]
  have "ev_id ?new = ev_id e" by (simp add: stored_event_def)
  with lookup_after_upsert [OF T] show ?thesis
    unfolding d'(1)
    by (intro store_ok_projection [OF assms(2) ok d1_def]) (simp add: d'(2) lookup_rows_def d1_def)
qed

lemma upsert_event_ok: "upsert_event X U e d = Inr (i, d') \<Longrightarrow> store_ok d \<Longrightarrow> store_ok d'"
  by (auto simp: upsert_event_def bind_result_eq_Inr write_event_ok split: option.splits)

lemma insert_event_if_absent_ok:
  assumes "insert_event_if_absent X U e d = Inr (b, d')" "store_ok d"
  shows "store_ok d'"
proof (cases "event_insert_ignored d (stored_event e)")
  case True
  with assms show ?thesis
    by (auto simp: insert_event_if_absent_def bind_result_eq_Inr split: option.splits)
next
  case False
  let ?new = "stored_event e"
  define d1 where "d1 = d\<lparr>db_events := db_events d @ [?new]\<rparr>"
  have absent: "ev_id ?new \<notin> set (event_ids d)" "ev_id ?new = ev_id e"
    using False by (auto simp: event_insert_ignored_def stored_event_def)
  then have d1': "d1 = d\<lparr>db_events := upsert_row ev_id replace_event ?new (db_events d)\<rparr>"
    by (auto simp: d1_def upsert_row_def)
  from assms(1) False obtain T T' where T: "insert_event_search_projection_for_event X U e (db_projection d1) = Inr T"
    and d': "d' = d1\<lparr>db_projection := T'\<rparr>" "st_lookup T' = st_lookup T" and refs: "event_refs_ok d1 ?new"
    unfolding insert_event_if_absent_def Let_def d1_def [symmetric]
    by (auto simp: guard_sql_eq_Inr bind_result_eq_Inr)
  have checks: "sync_check (ev_sync ?new)" "\<not> event_unique_conflict d ?new"
    using False by (auto simp: event_insert_ignored_def)
  note ok = events_ok_upsert [OF assms(2) checks d1' refs]
  have no_row: "sr_event_id r \<noteq> ev_id e" if "r \<in> set (lookup_rows d)" for r
    using that assms(2) absent unfolding store_ok_def lookup_ok_def by metis
  then have "ev_id e \<notin> sr_event_id ` set (lookup_rows d)" by (metis imageE)
  then have "insert_projection_rows U (ev_id e) h (ev_session_id e) (ev_role e) (ev_event_type e) s (db_projection d1)
      = Inr (with_rows U (ev_id e) h e s (db_projection d1))" for h s
    by (intro insert_projection_rows_eq) (auto simp: lookup_rows_def d1_def)
  with T have "T = db_projection d \<or> (\<exists>h s. T = with_rows U (ev_id e) h e s (db_projection d))"
    by (auto simp: insert_event_search_projection_for_event_def insert_projection_eq d1_def split: if_splits)
  moreover have "filter (\<lambda>r. sr_event_id r \<noteq> ev_id e) (lookup_rows d) = lookup_rows d"
    using no_row by (simp add: filter_id_conv)
  ultimately have "unwrap_or (st_lookup T) [] = filter (\<lambda>r. sr_event_id r \<noteq> ev_id e) (lookup_rows d)
      \<or> (\<exists>row. sr_event_id row = ev_id e
          \<and> unwrap_or (st_lookup T) [] = filter (\<lambda>r. sr_event_id r \<noteq> ev_id e) (lookup_rows d) @ [row])"
    by (cases "st_lookup (db_projection d)")
      (auto simp: with_rows_def lookup_rows_def, metis sr_event_id_preview_row)
  then show ?thesis
    unfolding d'(1) using absent
    by (intro store_ok_projection [OF assms(2) ok d1']) (simp add: d'(2))
qed

lemma assign_session_to_record_ok:
  assumes "assign_session_to_record session_id record_id d = Inr d'" "store_ok d"
  shows "store_ok d'"
proof -
  define fs where "fs = (\<lambda>s :: session. if se_id s = session_id then s\<lparr>se_history_record_id := Some record_id\<rparr> else s)"
  define fe where "fe = (\<lambda>e :: event. if ev_session_id e = Some session_id then e\<lparr>ev_history_record_id := Some record_id\<rparr> else e)"
  define fr where "fr = (\<lambda>r :: run. if rn_session_id r = Some session_id then r\<lparr>rn_history_record_id := Some record_id\<rparr> else r)"
  note defs = fs_def fe_def fr_def
  have d': "d' = d\<lparr>db_sessions := map fs (db_sessions d), db_events := map fe (db_events d),
      db_runs := map fr (db_runs d)\<rparr>"
    using assms(1) unfolding defs by (simp add: assign_session_to_record_def guard_sql_eq_Inr Let_def)
  have ref: "session_id \<notin> set (session_ids d) \<or> record_id \<in> set (db_records d)"
      "(\<forall>e \<in> set (db_events d). ev_session_id e \<noteq> Some session_id) \<or> record_id \<in> set (db_records d)"
      "(\<forall>r \<in> set (db_runs d). rn_session_id r \<noteq> Some session_id) \<or> record_id \<in> set (db_records d)"
    using assms(1) by (simp_all add: assign_session_to_record_def guard_sql_eq_Inr Let_def list_ex_iff)
  have rows: "db_sessions d' = map fs (db_sessions d)" "db_events d' = map fe (db_events d)"
      "db_runs d' = map fr (db_runs d)"
    and frame: "db_sources d' = db_sources d" "db_edges d' = db_edges d" "db_files d' = db_files d"
      "db_cursors d' = db_cursors d" "db_projection d' = db_projection d" "db_records d' = db_records d"
      "db_artifacts d' = db_artifacts d" "db_workspaces d' = db_workspaces d"
    by (simp_all add: d')
  have keys: "se_id (fs s) = se_id s" "ev_id (fe e) = ev_id e" "ev_seq (fe e) = ev_seq e"
      "ev_dedupe_key (fe e) = ev_dedupe_key e" "ev_sync (fe e) = ev_sync e" "rn_id (fr r) = rn_id r"
      "rn_sync (fr r) = rn_sync r" "se_sync (fs s) = se_sync s" "session_key (fs s) = session_key s"
      "live_provider_session (fs s) = live_provider_session s" for s e r
    by (simp_all add: defs session_key_def live_provider_session_def)
  have ids: "session_ids d' = session_ids d" "event_ids d' = event_ids d" "run_ids d' = run_ids d"
    by (simp_all add: rows comp_def keys)
  then have grow: "ids_grow d d'" by (simp add: ids_grow_def frame)
  note refs = refs_ok_grow [OF grow]
  have sref: "session_refs_ok d' (fs s)" if "s \<in> set (db_sessions d)" "session_refs_ok d s" for s
    using refs(1) [OF that(2)] that(1) ref(1) frame
    by (auto simp: session_refs_ok_def references_def fs_def)
  have eref: "event_refs_ok d' (fe e)" if "e \<in> set (db_events d)" "event_refs_ok d e" for e
    using refs(4) [OF that(2)] that(1) ref(2) frame
    by (auto simp: event_refs_ok_def references_def fe_def)
  have rref: "run_refs_ok d' (fr r)" if "r \<in> set (db_runs d)" "run_refs_ok d r" for r
    using refs(3) [OF that(2)] that(1) ref(3) frame
    by (auto simp: run_refs_ok_def references_def fr_def)
  have old: "unique_live_sessions (db_sessions d)" "unique_seq (db_events d)" "unique_dedupe (db_events d)"
    using assms(2) by (simp_all add: store_ok_def sessions_ok_def events_ok_def)
  have "unique_live_sessions (db_sessions d')"
    unfolding unique_live_sessions_def rows set_map ball_simps keys
    using old(1) unfolding unique_live_sessions_def by blast
  then have "sessions_ok d'"
    using assms(2) sref ids(1) unfolding store_ok_def sessions_ok_def
    by (auto simp: keys rows comp_def)
  moreover have "unique_seq (db_events d')" "unique_dedupe (db_events d')"
    unfolding unique_seq_def unique_dedupe_def rows set_map ball_simps keys
    using old(2,3) unfolding unique_seq_def unique_dedupe_def by blast+
  then have "events_ok d'"
    using assms(2) eref ids(2) unfolding store_ok_def events_ok_def
    by (auto simp: keys rows comp_def)
  moreover have "runs_ok d'"
    using assms(2) rref ids(3) unfolding store_ok_def runs_ok_def by (simp add: keys rows comp_def)
  ultimately show ?thesis using tables_frame [OF grow] assms(2) by (simp add: store_ok_def frame)
qed

text \<open>A key does not conflict with itself: the scan still accepts it once it is stored.\<close>

lemma conflict_scan_mono:
  assumes "reject_provider_event_hash_conflict keys k = Inr ()" "set keys' \<subseteq> insert k (set keys)"
  shows "reject_provider_event_hash_conflict keys' k = Inr ()"
proof (cases "parse_provider_event_dedupe_key k")
  case (Some parsed)
  then have "\<not> conflicting_key parsed k" by (simp add: conflicting_key_def)
  then show ?thesis
    using assms Some by (auto simp: reject_provider_event_hash_conflict_def Let_def conflict_from_rows)
qed (simp add: reject_provider_event_hash_conflict_def)

section \<open>Reachable databases\<close>

text \<open>One successful write. The last rule is a write of the other components (records, artifacts and
  workspaces), of which the model keeps the ids.\<close>

inductive store_step :: "externals \<Rightarrow> unicode \<Rightarrow> db \<Rightarrow> db \<Rightarrow> bool" for X U where
  write_source: "upsert_capture_source s d = Inr d' \<Longrightarrow> store_step X U d d'"
| write_session: "upsert_session s d = Inr d' \<Longrightarrow> store_step X U d d'"
| write_assign: "assign_session_to_record i r d = Inr d' \<Longrightarrow> store_step X U d d'"
| write_edge: "upsert_session_edge g d = Inr d' \<Longrightarrow> store_step X U d d'"
| write_run: "upsert_run r d = Inr d' \<Longrightarrow> store_step X U d d'"
| write_run_if_absent: "insert_run_if_absent r d = Inr (b, d') \<Longrightarrow> store_step X U d d'"
| write_event: "upsert_event X U e d = Inr (i, d') \<Longrightarrow> store_step X U d d'"
| write_event_if_absent: "insert_event_if_absent X U e d = Inr (b, d') \<Longrightarrow> store_step X U d d'"
| write_file: "upsert_file_touched f d = Inr d' \<Longrightarrow> store_step X U d d'"
| write_cursor: "upsert_sync_cursor c d = Inr (i, d') \<Longrightarrow> store_step X U d d'"
| write_other: "set (db_records d) \<subseteq> set rs \<Longrightarrow> set (db_artifacts d) \<subseteq> set bs \<Longrightarrow> set (db_workspaces d) \<subseteq> set ws \<Longrightarrow>
    store_step X U d (d\<lparr>db_records := rs, db_artifacts := bs, db_workspaces := ws\<rparr>)"

lemma store_step_ok: "store_step X U d d' \<Longrightarrow> store_ok d \<Longrightarrow> store_ok d'"
proof (induction rule: store_step.induct)
  case (write_other d rs bs ws)
  let ?d' = "d\<lparr>db_records := rs, db_artifacts := bs, db_workspaces := ws\<rparr>"
  have "ids_grow d ?d'" using write_other by (simp add: ids_grow_def)
  from tables_frame [OF this] write_other show ?case by (simp add: store_ok_def)
qed (auto intro: upsert_capture_source_ok upsert_session_ok assign_session_to_record_ok
    upsert_session_edge_ok upsert_run_ok insert_run_if_absent_ok upsert_event_ok
    insert_event_if_absent_ok upsert_file_touched_ok upsert_sync_cursor_ok)

lemma empty_db_ok: "store_ok empty_db"
  by (simp add: store_ok_def table_ok_defs lookup_rows_def empty_db_def empty_projection_def
      unique_live_sessions_def unique_seq_def unique_dedupe_def)

inductive reachable :: "externals \<Rightarrow> unicode \<Rightarrow> db \<Rightarrow> bool" for X U where
  start: "reachable X U empty_db"
| step: "reachable X U d \<Longrightarrow> store_step X U d d' \<Longrightarrow> reachable X U d'"

lemma reachable_ok: "reachable X U d \<Longrightarrow> store_ok d"
  by (induction rule: reachable.induct) (auto intro: empty_db_ok store_step_ok)

section \<open>Properties\<close>

text \<open>C3: Every database the store's writes can reach from the empty one is well-formed: ids,
  sequence numbers and deduplication keys are unique, live provider sessions are unique, every
  foreign key points to a row, nothing withheld is stored and the lookup projection has at most
  one row for each event.\<close>

theorem reachable_store_ok:
  assumes "reachable X U d"
  shows "store_ok d"
  using assms by (rule reachable_ok)

theorem reachable_store_ok_witness:
  "store_ok (empty_db\<lparr>db_records := [Uuid [1]]\<rparr>)"
proof -
  have "store_step demo_externals demo_unicode empty_db
      (empty_db\<lparr>db_records := [Uuid [1]], db_artifacts := [], db_workspaces := []\<rparr>)"
    by (rule store_step.write_other) (simp_all add: empty_db_def)
  then have "reachable demo_externals demo_unicode
      (empty_db\<lparr>db_records := [Uuid [1]], db_artifacts := [], db_workspaces := []\<rparr>)"
    by (rule reachable.step [OF reachable.start])
  from reachable_store_ok [OF this] show ?thesis by (simp add: empty_db_def)
qed

text \<open>C8: Writing an event with a deduplication key is idempotent: once it succeeded, writing it again
  returns the same id and leaves the database as it is.\<close>

theorem upsert_event_idempotent:
  assumes "upsert_event X U e d = Inr (i, d')" "ev_dedupe_key e = Some k"
  shows "upsert_event X U e d' = Inr (i, d')"
proof -
  let ?check = "\<lambda>d. reject_provider_event_hash_conflict (dedupe_keys d) k"
  from assms have accepted: "?check d = Inr ()"
    by (auto simp: upsert_event_def bind_result_eq_Inr)
  show ?thesis
  proof (cases "event_with_dedupe_key k d")
    case (Some existing)
    with assms accepted show ?thesis by (simp add: upsert_event_def)
  next
    case None
    with assms accepted have written: "write_event X U e d = Inr (i, d')" by (simp add: upsert_event_def)
    then have stored: "event_id_by_dedupe_key k d' = Inr i"
      using assms(2) by (auto simp: write_event_def Let_def guard_sql_eq_Inr bind_result_eq_Inr)
    from written have rows: "db_events d' = upsert_row ev_id replace_event (stored_event e) (db_events d)"
      by (auto simp: write_event_def Let_def guard_sql_eq_Inr bind_result_eq_Inr split: option.splits)
    have "set (dedupe_keys d') \<subseteq> insert k (set (dedupe_keys d))"
      using assms(2) unfolding dedupe_keys_def rows
      by (auto simp: List.map_filter_def replace_event_def stored_event_def dest!: events.upsert_member)
    with accepted have "?check d' = Inr ()" by (rule conflict_scan_mono)
    with stored assms(2) show ?thesis
      by (auto simp: upsert_event_def event_id_by_dedupe_key_def split: option.splits)
  qed
qed

theorem upsert_event_idempotent_witness:
  "\<exists>e d'. ev_dedupe_key e = Some ''k'' \<and> upsert_event demo_externals demo_unicode e empty_db = Inr (Uuid [1], d')
     \<and> upsert_event demo_externals demo_unicode e d' = Inr (Uuid [1], d')"
proof -
  let ?e = "\<lparr>ev_id = Uuid [1], ev_seq = 1, ev_history_record_id = None, ev_session_id = None,
      ev_run_id = None, ev_event_type = EventType_Notice, ev_role = None,
      ev_occurred_at = 0, ev_capture_source_id = None, ev_payload = JNull,
      ev_payload_blob_id = None, ev_dedupe_key = Some ''k'', ev_sync = default_sync_metadata\<rparr>"
  have "parse_provider_event_dedupe_key ''k'' = None"
    by (simp add: parse_provider_event_dedupe_key_def strip_prefix_def starts_with_def numeral_eq_Suc)
  then have scan: "reject_provider_event_hash_conflict keys ''k'' = Inr ()" for keys
    by (simp add: reject_provider_event_hash_conflict_def)
  have blank: "trim [] = ([] :: string)" by (rule trim_Nil)
  have "\<exists>d'. upsert_event demo_externals demo_unicode ?e empty_db = Inr (Uuid [1], d')"
    by (simp add: upsert_event_def scan event_with_dedupe_key_def write_event_def Let_def
        guard_sql_def event_unique_conflict_def event_refs_ok_def references_def row_with_def
        upsert_projection_eq bind_result_eq_Inr event_id_by_dedupe_key_def stored_event_def stored_sync_def
        default_sync_metadata_def sync_check_def empty_db_def upsert_row_def visibility_default_def
        sync_state_default_def)
  then obtain d' where "upsert_event demo_externals demo_unicode ?e empty_db = Inr (Uuid [1], d')" by blast
  with upsert_event_idempotent [OF this, of "''k''"] show ?thesis
    by (intro exI [of _ ?e] exI [of _ d']) simp
qed

lemma row_with_new:
  "key new \<notin> key ` set rows \<Longrightarrow>
   row_with key k (rows @ [new]) = (if k = key new then Some new else row_with key k rows)"
proof -
  assume "key new \<notin> key ` set rows"
  then have "List.find (\<lambda>r. key r = key new) rows = None" unfolding find_eq_None by (metis imageI)
  then show ?thesis by (auto simp: row_with_def find_append or_else_eq_Some split: option.splits)
qed

text \<open>In a well-formed store, \<open>insert_event_if_absent\<close> of an event whose references exist inserts
  it if and only if it is not withheld and neither its id, nor its sequence number, nor its
  deduplication key is taken; then the event reads back as stored, and no other event changed.
  In particular an event whose sequence number alone collides is dropped without an error.\<close>

theorem insert_event_if_absent_exact:
  assumes "store_ok d" "event_refs_ok d e"
  shows "(\<exists>d'. insert_event_if_absent X U e d = Inr (True, d')
      \<and> row_with ev_id (ev_id e) (db_events d') = Some (stored_event e)
      \<and> (\<forall>i. i \<noteq> ev_id e \<longrightarrow> row_with ev_id i (db_events d') = row_with ev_id i (db_events d)))
    \<longleftrightarrow> sync_check (ev_sync e) \<and> ev_id e \<notin> set (event_ids d) \<and> ev_seq e \<notin> ev_seq ` set (db_events d)
        \<and> (ev_dedupe_key e = None \<or> ev_dedupe_key e \<notin> ev_dedupe_key ` set (db_events d))"
    (is "?inserted \<longleftrightarrow> ?free")
proof -
  let ?new = "stored_event e"
  have new: "ev_id ?new = ev_id e" "ev_seq ?new = ev_seq e" "ev_dedupe_key ?new = ev_dedupe_key e"
      "sync_check (ev_sync ?new) = sync_check (ev_sync e)"
    by (simp_all add: stored_event_def)
  have ignored: "event_insert_ignored d ?new \<longleftrightarrow> \<not> ?free"
    by (auto simp: event_insert_ignored_def event_unique_conflict_def list_ex_iff new image_iff; metis option.distinct(1))
  show ?thesis
  proof (cases ?free)
    case False
    with ignored show ?thesis
      by (auto simp: insert_event_if_absent_def Let_def bind_result_eq_Inr split: option.splits)
  next
    case True
    let ?d1 = "d\<lparr>db_events := db_events d @ [?new]\<rparr>"
    have "ids_grow d ?d1" by (auto simp: ids_grow_def)
    then have "event_refs_ok ?d1 e" by (rule refs_ok_grow(4)) (rule assms(2))
    then have refs: "event_refs_ok ?d1 ?new" by (simp add: event_refs_ok_def stored_event_def)
    have "ev_id e \<notin> sr_event_id ` set (lookup_rows d)"
      using True assms(1) unfolding store_ok_def lookup_ok_def by (metis imageE)
    then have "\<exists>T. insert_event_search_projection_for_event X U e (db_projection ?d1) = Inr T"
      using insert_projection_rows_eq [of e "db_projection d" "ev_id e" U]
      by (cases "st_lookup (db_projection d)")
        (simp_all add: insert_event_search_projection_for_event_def insert_projection_eq lookup_rows_def)
    then have "\<exists>T. insert_event_if_absent X U e d = Inr (True, ?d1\<lparr>db_projection := T\<rparr>)"
      using True ignored refs by (auto simp: insert_event_if_absent_def Let_def guard_sql_def)
    moreover have "row_with ev_id i (db_events d @ [?new])
        = (if i = ev_id e then Some ?new else row_with ev_id i (db_events d))" for i
      using row_with_new [of ev_id ?new "db_events d" i] True new(1) by simp
    ultimately show ?thesis using True by force
  qed
qed

theorem insert_event_if_absent_exact_witness:
  "\<exists>e. ev_seq e = 7 \<and> (\<exists>d'. insert_event_if_absent demo_externals demo_unicode e empty_db = Inr (True, d'))"
proof -
  let ?e = "\<lparr>ev_id = Uuid [1], ev_seq = 7, ev_history_record_id = None, ev_session_id = None,
      ev_run_id = None, ev_event_type = EventType_Notice, ev_role = None,
      ev_occurred_at = 0, ev_capture_source_id = None, ev_payload = JNull,
      ev_payload_blob_id = None, ev_dedupe_key = Some ''k'', ev_sync = default_sync_metadata\<rparr>"
  have "event_refs_ok empty_db ?e" by (simp add: event_refs_ok_def references_def)
  from insert_event_if_absent_exact [OF empty_db_ok this, of demo_externals demo_unicode]
  have "\<exists>d'. insert_event_if_absent demo_externals demo_unicode ?e empty_db = Inr (True, d')"
    by (auto simp: sync_check_def default_sync_metadata_def visibility_default_def sync_state_default_def
        empty_db_def)
  then show ?thesis by (intro exI [of _ ?e]) simp
qed

text \<open>A session reads back as it was written, with its times in milliseconds and, when the id was
  known, its first creation time; no other session changes.\<close>

theorem session_upsert_reads_back:
  assumes "upsert_session s d = Inr d'"
  shows "row_with se_id i (db_sessions d')
    = (if i \<noteq> se_id s then row_with se_id i (db_sessions d)
       else Some (case row_with se_id i (db_sessions d) of
           None \<Rightarrow> stored_session s
         | Some old \<Rightarrow> (stored_session s)\<lparr>se_timestamps :=
             \<lparr>et_created_at = et_created_at (se_timestamps old),
              et_updated_at = stored_time (et_updated_at (se_timestamps s))\<rparr>\<rparr>))"
proof -
  have "db_sessions d' = upsert_row se_id merge_session (stored_session s) (db_sessions d)"
    using assms by (auto simp: upsert_session_def Let_def guard_sql_eq_Inr split: if_splits)
  then show ?thesis
    using sessions.lookup_upsert [of i "stored_session s" "db_sessions d"]
    by (auto simp: stored_session_def merge_session_def keep_created_def stored_timestamps_def
        split: option.splits)
qed

theorem session_upsert_reads_back_witness:
  "\<exists>s d'. upsert_session s empty_db = Inr d' \<and> row_with se_id (Uuid [1]) (db_sessions d') = Some (stored_session s)"
proof -
  let ?s = "\<lparr>se_id = Uuid [1], se_history_record_id = None, se_parent_session_id = None,
      se_root_session_id = None, se_capture_source_id = None, se_provider = CaptureProvider_Codex,
      se_external_session_id = None, se_external_agent_id = None, se_agent_type = AgentType_Primary,
      se_role_hint = None, se_is_primary = True, se_status = SessionStatus_Imported,
      se_transcript_blob_id = None, se_started_at = 5, se_ended_at = None,
      se_timestamps = timestamps 5, se_sync = default_sync_metadata\<rparr>"
  have "\<exists>d'. upsert_session ?s empty_db = Inr d'"
    by (simp add: upsert_session_def Let_def guard_sql_def identity_trigger_def live_provider_session_def
        session_index_conflict_def session_refs_ok_def references_def stored_session_def stored_sync_def
        sync_check_def default_sync_metadata_def visibility_default_def sync_state_default_def)
  then obtain d' where "upsert_session ?s empty_db = Inr d'" by blast
  with session_upsert_reads_back [OF this, of "Uuid [1]"] show ?thesis
    by (intro exI [of _ ?s] exI [of _ d']) (simp add: empty_db_def row_with_def)
qed

end
