(* ===== verification/Turso_Remote.thy ===== *)
theory Turso_Remote
  imports Store_Events "HOL-Library.Multiset"
begin

text \<open>
  The remote projection and the push of a local store into it (\<open>commands/turso.rs\<close> of \<open>ctx-cli\<close>).
  A batch of SQL statements is a list of \<open>remote_stmt\<close>, each with the text the program sends
  (\<open>stmt_sql\<close>) and its effect on the remote tables (\<open>exec_stmt\<close>); the batch is a transaction. Every
  remote call ends in one of three ways, given by a list: it completes, it is refused, or it is
  applied and its answer is lost (a timeout).
\<close>

section \<open>Remote tables and statements\<close>

record remote_event =
  re_event_id :: string
  re_session_id :: "string option"
  re_provider :: string
  re_role :: "string option"
  re_event_type :: string
  re_occurred_at_ms :: int
  re_dedupe_key :: "string option"
  re_payload_json :: string
  re_search_text :: string

text \<open>\<open>ctx_turso_events\<close>, \<open>ctx_turso_event_keys\<close> (key and owning event), \<open>ctx_turso_search\<close> (event and
  text) and \<open>ctx_turso_source_checkpoints\<close> (source key, fingerprint and time).\<close>

record remote_db =
  rd_events :: "remote_event list"
  rd_keys :: "(string \<times> string) list"
  rd_search :: "(string \<times> string) list"
  rd_checkpoints :: "(string \<times> string \<times> int) list"

definition empty_remote :: remote_db where
  "empty_remote = \<lparr>rd_events = [], rd_keys = [], rd_search = [], rd_checkpoints = []\<rparr>"

datatype remote_stmt =
    InsertKey string string
  | InsertEvent remote_event
  | DeleteSearch "string list"
  | InsertSearch "string list"

definition int_text :: "int \<Rightarrow> string" where
  "int_text i = (if i < 0 then CHR ''-'' # dec (nat (- i)) else dec (nat i))"

fun stmt_sql :: "remote_stmt \<Rightarrow> string" where
  "stmt_sql (InsertKey key owner) =
     ''INSERT OR IGNORE INTO ctx_turso_event_keys(dedupe_key, event_id) VALUES (''
       @ sql_text_literal key @ '','' @ sql_text_literal owner @ '');''"
| "stmt_sql (InsertEvent r) =
     ''INSERT OR IGNORE INTO ctx_turso_events (event_id, session_id, provider, role, event_type, occurred_at_ms, dedupe_key, payload_json, search_text) SELECT ''
       @ sql_text_literal (re_event_id r) @ '','' @ optional_sql_text_literal (re_session_id r)
       @ '','' @ sql_text_literal (re_provider r) @ '','' @ optional_sql_text_literal (re_role r)
       @ '','' @ sql_text_literal (re_event_type r) @ '','' @ int_text (re_occurred_at_ms r)
       @ '','' @ optional_sql_text_literal (re_dedupe_key r)
       @ '','' @ sql_text_literal (re_payload_json r) @ '','' @ sql_text_literal (re_search_text r)
       @ (case re_dedupe_key r of
            None \<Rightarrow> []
          | Some key \<Rightarrow> '' WHERE (SELECT event_id FROM ctx_turso_event_keys WHERE dedupe_key = ''
              @ sql_text_literal key @ '') = '' @ sql_text_literal (re_event_id r))
       @ '';''"
| "stmt_sql (DeleteSearch ids) =
     ''DELETE FROM ctx_turso_search WHERE event_id IN ('' @ join '','' (map sql_text_literal ids) @ '');''"
| "stmt_sql (InsertSearch ids) =
     ''INSERT INTO ctx_turso_search(event_id, search_text) SELECT event_id, search_text FROM ctx_turso_events WHERE event_id IN (''
       @ join '','' (map sql_text_literal ids) @ '');''"

definition batch_sql :: "remote_stmt list \<Rightarrow> string" where
  "batch_sql stmts = concat (map stmt_sql stmts)"

abbreviation "remote_ids D \<equiv> map re_event_id (rd_events D)"

fun exec_stmt :: "remote_stmt \<Rightarrow> remote_db \<Rightarrow> remote_db" where
  "exec_stmt (InsertKey key owner) D =
     (if key \<in> fst ` set (rd_keys D) then D else D\<lparr>rd_keys := rd_keys D @ [(key, owner)]\<rparr>)"
| "exec_stmt (InsertEvent r) D =
     (if (case re_dedupe_key r of None \<Rightarrow> False | Some key \<Rightarrow> map_of (rd_keys D) key \<noteq> Some (re_event_id r))
      then D
      else if re_event_id r \<in> set (remote_ids D)
          \<or> re_dedupe_key r \<noteq> None \<and> re_dedupe_key r \<in> re_dedupe_key ` set (rd_events D)
      then D
      else D\<lparr>rd_events := rd_events D @ [r]\<rparr>)"
| "exec_stmt (DeleteSearch ids) D = D\<lparr>rd_search := filter (\<lambda>row. fst row \<notin> set ids) (rd_search D)\<rparr>"
| "exec_stmt (InsertSearch ids) D =
     D\<lparr>rd_search := rd_search D
         @ map (\<lambda>r. (re_event_id r, re_search_text r)) (filter (\<lambda>r. re_event_id r \<in> set ids) (rd_events D))\<rparr>"

definition exec_batch :: "remote_stmt list \<Rightarrow> remote_db \<Rightarrow> remote_db" where
  "exec_batch stmts D = fold exec_stmt stmts D"

section \<open>What is exported\<close>

definition remote_export_allowed :: "event \<Rightarrow> bool \<Rightarrow> bool" where
  "remote_export_allowed e include_local_only =
     (if sm_visibility (ev_sync e) = Visibility_Withheld \<or> sm_sync_state (ev_sync e) = SyncState_Withheld
      then False
      else sm_visibility (ev_sync e) = Visibility_SyncFull \<or> include_local_only)"

text \<open>The identities of the sessions, by id: provider and external id.\<close>

type_synonym session_identities = "uuid \<Rightarrow> (string \<times> string option) option"

definition session_identity_map :: "session list \<Rightarrow> session_identities" where
  "session_identity_map ss =
     map_of (rev (map (\<lambda>s. (se_id s, (provider_str (se_provider s), se_external_session_id s))) ss))"

definition source_provider_map :: "capture_source list \<Rightarrow> uuid \<Rightarrow> string option" where
  "source_provider_map cs = map_of (rev (map (\<lambda>s. (cs_id s, provider_str (csd_provider (cs_descriptor s)))) cs))"

definition remote_dedupe_key :: "session_identities \<Rightarrow> event \<Rightarrow> string option" where
  "remote_dedupe_key ids e =
     (case ev_dedupe_key e of
        None \<Rightarrow> None
      | Some source_key \<Rightarrow>
          (case Option.bind (ev_session_id e) ids of
             None \<Rightarrow> None
           | Some (provider, external_session_id) \<Rightarrow>
               or_else (canonical_provider_source_dedupe_key provider external_session_id source_key)
                 (Some source_key)))"

definition remote_dedupe_candidate :: "session_identities \<Rightarrow> event \<Rightarrow> string option" where
  "remote_dedupe_candidate ids e =
     (case ev_dedupe_key e of
        None \<Rightarrow> None
      | Some source_key \<Rightarrow>
          (case Option.bind (ev_session_id e) ids of
             None \<Rightarrow> None
           | Some (provider, external_session_id) \<Rightarrow>
               (case map_option trim external_session_id of
                  None \<Rightarrow> None
                | Some external \<Rightarrow>
                    if external = [] then None
                    else canonical_provider_source_dedupe_key provider (Some external) source_key)))"

definition remote_provider :: "session_identities \<Rightarrow> (uuid \<Rightarrow> string option) \<Rightarrow> event \<Rightarrow> string" where
  "remote_provider ids sources e =
     unwrap_or (or_else (map_option fst (Option.bind (ev_session_id e) ids))
       (Option.bind (ev_capture_source_id e) sources)) ''unknown''"

definition remote_row ::
    "externals \<Rightarrow> session_identities \<Rightarrow> (uuid \<Rightarrow> string option) \<Rightarrow> event \<Rightarrow> string \<Rightarrow> remote_event" where
  "remote_row X ids sources e payload_json =
     \<lparr>re_event_id = uuid_text X (ev_id e),
      re_session_id = map_option (uuid_text X) (ev_session_id e),
      re_provider = remote_provider ids sources e,
      re_role = map_option (enum_as_str event_role_table) (ev_role e),
      re_event_type = enum_as_str event_type_table (ev_event_type e),
      re_occurred_at_ms = timestamp_ms (ev_occurred_at e),
      re_dedupe_key = remote_dedupe_key ids e,
      re_payload_json = payload_json,
      re_search_text = payload_json\<rparr>"

definition event_statements :: "remote_event \<Rightarrow> remote_stmt list" where
  "event_statements r =
     (case re_dedupe_key r of None \<Rightarrow> [] | Some key \<Rightarrow> [InsertKey key (re_event_id r)]) @ [InsertEvent r]"

section \<open>Push\<close>

datatype call_outcome = Completed | Refused | AppliedThenLost

fun next_call :: "call_outcome list \<Rightarrow> call_outcome \<times> call_outcome list" where
  "next_call [] = (Completed, [])"
| "next_call (c # net) = (c, net)"

datatype push_error =
  ConnectFailed | StoreFailed store_error | KeyQueryFailed | SerializeFailed | UploadFailed

record push_args =
  pa_batch_size :: nat
  pa_limit :: "nat option"
  pa_after_event_id :: "uuid option"
  pa_include_local_only :: bool

record push_report =
  pr_uploaded_events :: nat
  pr_skipped_events :: nat
  pr_scanned_events :: nat
  pr_batches :: nat

definition empty_report :: push_report where
  "empty_report = \<lparr>pr_uploaded_events = 0, pr_skipped_events = 0, pr_scanned_events = 0, pr_batches = 0\<rparr>"

text \<open>The keys of a page that the remote table holds; no call without candidates.\<close>

definition remote_existing_dedupe_keys ::
    "string list \<Rightarrow> call_outcome list \<Rightarrow> remote_db \<Rightarrow> string list option \<times> call_outcome list" where
  "remote_existing_dedupe_keys candidates net D =
     (if candidates = [] then (Some [], net)
      else let unique = remdups (sort candidates); (outcome, net) = next_call net
        in if outcome = Completed
           then (Some (filter (\<lambda>key. key \<in> set unique) (map fst (rd_keys D))), net)
           else (None, net))"

text \<open>The rows of a page and the number of skipped events.\<close>

fun page_rows ::
    "externals \<Rightarrow> bool \<Rightarrow> session_identities \<Rightarrow> (uuid \<Rightarrow> string option) \<Rightarrow> string list \<Rightarrow> event list
     \<Rightarrow> push_error + (remote_event list \<times> nat)" where
  "page_rows X include_local_only ids sources known [] = Inr ([], 0)"
| "page_rows X include_local_only ids sources known (e # es) =
     (if \<not> remote_export_allowed e include_local_only
      then bind_result (page_rows X include_local_only ids sources known es)
             (\<lambda>(rows, skipped). Inr (rows, skipped + 1))
      else case json_text X (ev_payload e) of
             None \<Rightarrow> Inl SerializeFailed
           | Some payload_json \<Rightarrow>
               if (case remote_dedupe_key ids e of None \<Rightarrow> False | Some key \<Rightarrow> key \<in> set known)
               then bind_result (page_rows X include_local_only ids sources known es)
                      (\<lambda>(rows, skipped). Inr (rows, skipped + 1))
               else bind_result (page_rows X include_local_only ids sources known es)
                      (\<lambda>(rows, skipped). Inr (remote_row X ids sources e payload_json # rows, skipped)))"

definition page_batch :: "remote_event list \<Rightarrow> remote_stmt list" where
  "page_batch rows =
     concat (map event_statements rows)
     @ (let ids = map re_event_id rows in if rows = [] then [] else [DeleteSearch ids, InsertSearch ids])"

text \<open>One batch call: its outcome decides whether it is applied and whether the program hears of it.\<close>

definition upload_batch :: "remote_event list \<Rightarrow> call_outcome list \<Rightarrow> remote_db
    \<Rightarrow> bool \<times> call_outcome list \<times> remote_db" where
  "upload_batch rows net D =
     (if rows = [] then (True, net, D)
      else let (outcome, net) = next_call net
        in (outcome = Completed, net, if outcome = Refused then D else exec_batch (page_batch rows) D))"

lemma events_after_decreases:
  assumes "list_events_page_after after n d = Inr page" "page \<noteq> []"
  shows "length (events_after (Some (ev_id (last page))) d) < length (events_after after d)"
proof -
  have eq: "page = take n (events_after after d)"
  proof -
    have "collect_rows event_from_row rows = Inr page \<Longrightarrow> page = rows" for rows
      by (induction rows arbitrary: page)
        (auto simp: bind_result_eq_Inr event_from_row_def unreadable_def split: if_splits)
    with assms(1) show ?thesis by (simp add: list_events_page_after_def)
  qed
  let ?p = "\<lambda>i e. case i of None \<Rightarrow> True | Some j \<Rightarrow> j < ev_id e"
  let ?last = "last page"
  have last: "?last \<in> set (events_after after d)"
    using assms(2) eq by (metis in_set_takeD last_in_set)
  then have mem: "?last \<in> set (db_events d)" "?p after ?last" by (auto simp: events_after_def)
  have "length (filter (?p (Some (ev_id ?last))) (db_events d)) < length (filter (?p after) (db_events d))"
  proof -
    have "filter (?p (Some (ev_id ?last))) (db_events d)
        = filter (?p (Some (ev_id ?last))) (filter (?p after) (db_events d))"
      using mem(2) by (auto simp: filter_filter intro!: filter_cong split: option.splits)
    moreover have "length (filter (?p (Some (ev_id ?last))) (filter (?p after) (db_events d)))
        < length (filter (?p after) (db_events d))"
      by (rule length_filter_less [of ?last]) (use mem in auto)
    ultimately show ?thesis by simp
  qed
  then show ?thesis by (simp add: events_after_def)
qed

text \<open>The loop of \<open>push\<close>: \<open>R\<close> is the report so far.\<close>

function push_loop ::
    "externals \<Rightarrow> push_args \<Rightarrow> session_identities \<Rightarrow> (uuid \<Rightarrow> string option) \<Rightarrow> db \<Rightarrow> uuid option
     \<Rightarrow> push_report \<Rightarrow> call_outcome list \<Rightarrow> remote_db
     \<Rightarrow> (push_error + push_report) \<times> call_outcome list \<times> remote_db" where
  "push_loop X args ids sources store after R net D =
     (let remaining = map_option (\<lambda>limit. limit - pr_scanned_events R) (pa_limit args)
      in if remaining = Some 0 then (Inr R, net, D)
      else let page_size = (case remaining of Some n \<Rightarrow> min n (pa_batch_size args) | None \<Rightarrow> pa_batch_size args)
      in case list_events_page_after after page_size store of
           Inl err \<Rightarrow> (Inl (StoreFailed err), net, D)
         | Inr page \<Rightarrow>
             if page = [] then (Inr R, net, D)
             else
               case remote_existing_dedupe_keys (List.map_filter (remote_dedupe_candidate ids) page) net D of
                 (None, net1) \<Rightarrow> (Inl KeyQueryFailed, net1, D)
               | (Some known, net1) \<Rightarrow>
                   (case page_rows X (pa_include_local_only args) ids sources known page of
                      Inl err \<Rightarrow> (Inl err, net1, D)
                    | Inr (rows, skipped) \<Rightarrow>
                        (case upload_batch rows net1 D of
                           (False, net2, D2) \<Rightarrow> (Inl UploadFailed, net2, D2)
                         | (True, net2, D2) \<Rightarrow>
                             push_loop X args ids sources store (Some (ev_id (last page)))
                               \<lparr>pr_uploaded_events = pr_uploaded_events R + length rows,
                                pr_skipped_events = pr_skipped_events R + skipped,
                                pr_scanned_events = pr_scanned_events R + length page,
                                pr_batches = pr_batches R + 1\<rparr>
                               net2 D2)))"
  by pat_completeness auto
termination
  by (relation "measure (\<lambda>(X, args, ids, sources, store, after, R, net, D). length (events_after after store))")
    (auto dest: events_after_decreases)

declare push_loop.simps [simp del]

definition push ::
    "externals \<Rightarrow> push_args \<Rightarrow> db \<Rightarrow> call_outcome list \<Rightarrow> remote_db
     \<Rightarrow> (push_error + push_report) \<times> call_outcome list \<times> remote_db" where
  "push X args store net D =
     (case next_call net of
        (Completed, net) \<Rightarrow>
          (case list_sessions store of
             Inl err \<Rightarrow> (Inl (StoreFailed err), net, D)
           | Inr ss \<Rightarrow>
               (case list_capture_sources store of
                  Inl err \<Rightarrow> (Inl (StoreFailed err), net, D)
                | Inr cs \<Rightarrow>
                    push_loop X args (session_identity_map ss) (source_provider_map cs) store
                      (pa_after_event_id args) empty_report net D))
      | (_, net) \<Rightarrow> (Inl ConnectFailed, net, D))"

end
