(* ===== verification/Turso_Merge.thy ===== *)
theory Turso_Merge
  imports Turso_Remote
begin

text \<open>
  What a push does to the remote database. \<open>remote_ok\<close> is the invariant of the remote tables;
  \<open>put\<close>, the merge of one row, is the abstract operation that the batches of \<open>push\<close> implement:
  whatever the page size, the keys known at the start of a page and the outcome of the calls, the
  events and keys of the remote database are those of merging a prefix of the exported rows.
\<close>

section \<open>The remote invariant\<close>

definition keys_ok :: "remote_db \<Rightarrow> bool" where
  "keys_ok D \<longleftrightarrow>
     distinct (remote_ids D) \<and> distinct (map fst (rd_keys D))
     \<and> (\<forall>r \<in> set (rd_events D). \<forall>k. re_dedupe_key r = Some k \<longrightarrow> map_of (rd_keys D) k = Some (re_event_id r))
     \<and> snd ` set (rd_keys D) \<subseteq> set (remote_ids D)"

definition search_rows :: "remote_event list \<Rightarrow> (string \<times> string) list" where
  "search_rows rows = map (\<lambda>r. (re_event_id r, re_search_text r)) rows"

definition search_in_sync :: "remote_db \<Rightarrow> bool" where
  "search_in_sync D \<longleftrightarrow> mset (rd_search D) = mset (search_rows (rd_events D))"

definition remote_ok :: "remote_db \<Rightarrow> bool" where
  "remote_ok D \<longleftrightarrow> keys_ok D \<and> search_in_sync D"

lemma empty_remote_ok: "remote_ok empty_remote"
  by (simp add: remote_ok_def keys_ok_def search_in_sync_def empty_remote_def search_rows_def)

section \<open>Merging one row\<close>

definition put :: "remote_event \<Rightarrow> remote_db \<Rightarrow> remote_db" where
  "put r D = fold exec_stmt (event_statements r) D"

text \<open>A row is covered when merging it again changes nothing.\<close>

definition covered :: "remote_event \<Rightarrow> remote_db \<Rightarrow> bool" where
  "covered r D \<longleftrightarrow> (case re_dedupe_key r of
       None \<Rightarrow> re_event_id r \<in> set (remote_ids D)
     | Some k \<Rightarrow> k \<in> fst ` set (rd_keys D))"

lemma map_of_key: "k \<in> fst ` set kvs \<Longrightarrow> \<exists>v. map_of kvs k = Some v \<and> v \<in> snd ` set kvs"
  by (induction kvs) auto

lemma put_covered:
  assumes "keys_ok D" "covered r D"
  shows "put r D = D"
proof (cases "re_dedupe_key r")
  case None
  with assms(2) show ?thesis by (simp add: put_def event_statements_def covered_def)
next
  case (Some k)
  with assms(2) have k: "k \<in> fst ` set (rd_keys D)" by (simp add: covered_def)
  then obtain owner where "map_of (rd_keys D) k = Some owner" "owner \<in> snd ` set (rd_keys D)"
    by (metis map_of_key)
  with assms(1) have "map_of (rd_keys D) k = Some owner" "owner \<in> set (remote_ids D)"
    by (auto simp: keys_ok_def)
  with k Some show ?thesis by (cases "owner = re_event_id r") (auto simp: put_def event_statements_def)
qed

lemma put_uncovered:
  assumes "keys_ok D" "\<not> covered r D"
  shows "put r D =
    D\<lparr>rd_keys := rd_keys D @ (case re_dedupe_key r of None \<Rightarrow> [] | Some k \<Rightarrow> [(k, re_event_id r)]),
      rd_events := rd_events D @ (if re_event_id r \<in> set (remote_ids D) then [] else [r])\<rparr>"
proof (cases "re_dedupe_key r")
  case None
  with assms(2) show ?thesis by (simp add: put_def event_statements_def covered_def)
next
  case (Some k)
  with assms(2) have k: "k \<notin> fst ` set (rd_keys D)" by (simp add: covered_def)
  then have "map_of (rd_keys D) k = None" by (simp add: map_of_eq_None_iff)
  with assms(1) have "Some k \<notin> re_dedupe_key ` set (rd_events D)"
    unfolding keys_ok_def by (metis imageE option.distinct(1))
  with k Some \<open>map_of (rd_keys D) k = None\<close> show ?thesis
    by (auto simp: put_def event_statements_def map_add_def)
qed

lemma put_keys_ok:
  assumes "keys_ok D" shows "keys_ok (put r D)"
proof (cases "covered r D")
  case True
  with assms put_covered show ?thesis by simp
next
  case False
  show ?thesis
  proof (cases "re_dedupe_key r")
    case None
    with assms False show ?thesis
      by (auto simp: put_uncovered keys_ok_def covered_def)
  next
    case (Some k)
    with False have k: "k \<notin> fst ` set (rd_keys D)" by (simp add: covered_def)
    then have none: "map_of (rd_keys D) k = None" by (simp add: map_of_eq_None_iff)
    have kept: "map_of (rd_keys D @ [(k, i)]) k' = Some v" if "map_of (rd_keys D) k' = Some v" for k' v i
      using that none by (auto simp: map_add_def)
    have own: "map_of (rd_keys D @ [(k, i)]) k = Some i" for i
      using none by (simp add: map_add_def)
    from assms have old: "distinct (remote_ids D)" "distinct (map fst (rd_keys D))"
        "\<And>r k. r \<in> set (rd_events D) \<Longrightarrow> re_dedupe_key r = Some k \<Longrightarrow> map_of (rd_keys D) k = Some (re_event_id r)"
        "snd ` set (rd_keys D) \<subseteq> set (remote_ids D)"
      by (auto simp: keys_ok_def)
    show ?thesis
      unfolding put_uncovered [OF assms False] keys_ok_def
      using old k Some kept own by (auto simp del: map_of_append)
  qed
qed

lemma put_covers: "keys_ok D \<Longrightarrow> covered r (put r D)"
  by (cases "covered r D") (auto simp: put_covered put_uncovered covered_def split: option.splits)

lemma put_grows:
  assumes "keys_ok D"
  shows "set (remote_ids D) \<subseteq> set (remote_ids (put r D))" "fst ` set (rd_keys D) \<subseteq> fst ` set (rd_keys (put r D))"
  by (cases "covered r D"; auto simp: put_covered put_uncovered assms)+

lemma covered_mono: "keys_ok D \<Longrightarrow> covered s D \<Longrightarrow> covered s (put r D)"
  using put_grows [of D r] by (auto simp: covered_def split: option.splits)

lemma put_rows: "set (rd_events (put r D)) \<subseteq> insert r (set (rd_events D))"
  by (auto simp: put_def event_statements_def split: option.splits if_splits)

lemma put_search [simp]: "rd_search (put r D) = rd_search D" "rd_checkpoints (put r D) = rd_checkpoints D"
  by (auto simp: put_def event_statements_def split: option.splits)

section \<open>Merging many\<close>

lemma fold_put_keys_ok: "keys_ok D \<Longrightarrow> keys_ok (fold put rs D)"
  by (induction rs arbitrary: D) (auto simp: put_keys_ok)

lemma fold_put_covered_mono: "keys_ok D \<Longrightarrow> covered s D \<Longrightarrow> covered s (fold put rs D)"
  by (induction rs arbitrary: D) (auto simp: put_keys_ok covered_mono)

lemma fold_put_covers: "keys_ok D \<Longrightarrow> r \<in> set rs \<Longrightarrow> covered r (fold put rs D)"
  by (induction rs arbitrary: D) (auto simp: put_keys_ok fold_put_covered_mono put_covers)

lemma fold_put_noop: "keys_ok D \<Longrightarrow> \<forall>r \<in> set rs. covered r D \<Longrightarrow> fold put rs D = D"
  by (induction rs) (auto simp: put_covered)

lemma fold_put_rows: "set (rd_events (fold put rs D)) \<subseteq> set rs \<union> set (rd_events D)"
  by (induction rs arbitrary: D) (use put_rows in fastforce)+

lemma fold_put_search [simp]:
  "rd_search (fold put rs D) = rd_search D" "rd_checkpoints (fold put rs D) = rd_checkpoints D"
  by (induction rs arbitrary: D) simp_all

lemma fold_put_appends: "keys_ok D \<Longrightarrow> \<exists>new. rd_events (fold put rs D) = rd_events D @ new \<and> set new \<subseteq> set rs"
proof (induction rs arbitrary: D)
  case (Cons r rs)
  from Cons.IH [OF put_keys_ok [OF Cons.prems]] obtain new where
    "rd_events (fold put rs (put r D)) = rd_events (put r D) @ new" "set new \<subseteq> set rs" by blast
  moreover have "\<exists>n. rd_events (put r D) = rd_events D @ n \<and> set n \<subseteq> {r}"
    using Cons.prems by (cases "covered r D") (auto simp: put_covered put_uncovered)
  ultimately show ?case by fastforce
qed simp

text \<open>Merging again what was merged, or all of it after a part, changes nothing more.\<close>

lemma fold_put_idem: "keys_ok D \<Longrightarrow> fold put rs (fold put rs D) = fold put rs D"
  by (rule fold_put_noop) (auto intro: fold_put_keys_ok fold_put_covers)

lemma fold_put_resume: "keys_ok D \<Longrightarrow> fold put rs (fold put (take n rs) D) = fold put rs D"
proof -
  assume ok: "keys_ok D"
  have "fold put rs (fold put (take n rs) D) = fold put (take n rs @ drop n rs) (fold put (take n rs) D)"
    by simp
  also have "\<dots> = fold put (drop n rs) (fold put (take n rs) D)"
    unfolding fold_append comp_def by (simp only: fold_put_idem [OF ok])
  also have "\<dots> = fold put (take n rs @ drop n rs) D" by (simp only: fold_append comp_def)
  finally show ?thesis by simp
qed

text \<open>Which keys there are in the end, in whatever order the rows come.\<close>

lemma fold_put_key_set:
  "keys_ok D \<Longrightarrow> fst ` set (rd_keys (fold put rs D)) = fst ` set (rd_keys D) \<union> {k. Some k \<in> re_dedupe_key ` set rs}"
proof (induction rs arbitrary: D)
  case (Cons r rs)
  have "fst ` set (rd_keys (put r D)) = fst ` set (rd_keys D) \<union> {k. Some k = re_dedupe_key r}"
    using Cons.prems
    by (cases "covered r D") (auto simp: put_covered put_uncovered covered_def split: option.splits)
  with Cons.IH [OF put_keys_ok [OF Cons.prems]] show ?case by auto
qed simp

section \<open>Batches\<close>

lemma exec_event_statements: "fold exec_stmt (concat (map event_statements rows)) D = fold put rows D"
  by (induction rows arbitrary: D) (simp_all add: put_def)

lemma search_rows_without:
  "filter_mset (\<lambda>row. fst row \<notin> S) (mset (search_rows rows)) = mset (search_rows (filter (\<lambda>r. re_event_id r \<notin> S) rows))"
  by (induction rows) (simp_all add: search_rows_def)

lemma search_rows_split:
  "mset (search_rows (filter (\<lambda>r. re_event_id r \<notin> S) rows)) + mset (search_rows (filter (\<lambda>r. re_event_id r \<in> S) rows))
     = mset (search_rows rows)"
  by (induction rows) (simp_all add: search_rows_def)

lemma search_after_batch:
  assumes "search_in_sync D" "keys_ok D" "rows \<noteq> []"
  shows "search_in_sync (exec_batch (page_batch rows) D)"
    and "rd_events (exec_batch (page_batch rows) D) = rd_events (fold put rows D)"
    and "rd_keys (exec_batch (page_batch rows) D) = rd_keys (fold put rows D)"
    and "rd_checkpoints (exec_batch (page_batch rows) D) = rd_checkpoints D"
proof -
  define D1 where "D1 = fold put rows D"
  define ids where "ids = map re_event_id rows"
  have batch: "exec_batch (page_batch rows) D = exec_stmt (InsertSearch ids) (exec_stmt (DeleteSearch ids) D1)"
    using assms(3) by (simp add: exec_batch_def page_batch_def exec_event_statements D1_def ids_def Let_def)
  then show "rd_events (exec_batch (page_batch rows) D) = rd_events (fold put rows D)"
    "rd_keys (exec_batch (page_batch rows) D) = rd_keys (fold put rows D)"
    "rd_checkpoints (exec_batch (page_batch rows) D) = rd_checkpoints D"
    by (simp_all add: D1_def)
  obtain new where new: "rd_events D1 = rd_events D @ new" "set new \<subseteq> set rows"
    using fold_put_appends [OF assms(2)] D1_def by blast
  have "filter (\<lambda>r. re_event_id r \<notin> set ids) new = []"
    using new(2) by (auto simp: filter_empty_conv ids_def)
  then have kept: "filter (\<lambda>r. re_event_id r \<notin> set ids) (rd_events D1)
      = filter (\<lambda>r. re_event_id r \<notin> set ids) (rd_events D)"
    by (simp add: new(1))
  have "mset (rd_search (exec_batch (page_batch rows) D))
      = filter_mset (\<lambda>row. fst row \<notin> set ids) (mset (rd_search D))
        + mset (search_rows (filter (\<lambda>r. re_event_id r \<in> set ids) (rd_events D1)))"
    by (simp add: batch search_rows_def D1_def)
  also have "filter_mset (\<lambda>row. fst row \<notin> set ids) (mset (rd_search D))
      = mset (search_rows (filter (\<lambda>r. re_event_id r \<notin> set ids) (rd_events D)))"
    using assms(1) by (simp only: search_in_sync_def search_rows_without)
  also have "\<dots> = mset (search_rows (filter (\<lambda>r. re_event_id r \<notin> set ids) (rd_events D1)))"
    by (simp only: kept)
  also have "\<dots> + mset (search_rows (filter (\<lambda>r. re_event_id r \<in> set ids) (rd_events D1)))
      = mset (search_rows (rd_events D1))"
    by (rule search_rows_split)
  finally show "search_in_sync (exec_batch (page_batch rows) D)"
    by (simp add: search_in_sync_def batch D1_def)
qed

section \<open>Pages\<close>

text \<open>The remote row of an event, when it is exported: the reference for what a push uploads.\<close>

definition export_row ::
    "externals \<Rightarrow> bool \<Rightarrow> session_identities \<Rightarrow> (uuid \<Rightarrow> string option) \<Rightarrow> event \<Rightarrow> remote_event option" where
  "export_row X include_local_only ids sources e =
     (if remote_export_allowed e include_local_only
      then map_option (remote_row X ids sources e) (json_text X (ev_payload e)) else None)"

definition exported ::
    "externals \<Rightarrow> bool \<Rightarrow> session_identities \<Rightarrow> (uuid \<Rightarrow> string option) \<Rightarrow> event list \<Rightarrow> remote_event list" where
  "exported X include_local_only ids sources es =
     List.map_filter (export_row X include_local_only ids sources) es"

lemma exported_simps [simp]:
  "exported X b ids sources [] = []"
  "exported X b ids sources (es @ fs) = exported X b ids sources es @ exported X b ids sources fs"
  by (simp_all add: exported_def List.map_filter_def)

lemma exported_Cons:
  "exported X b ids sources (e # es) = (case export_row X b ids sources e of None \<Rightarrow> [] | Some r \<Rightarrow> [r])
     @ exported X b ids sources es"
  by (simp add: exported_def List.map_filter_def split: option.splits)

definition fresh :: "string list \<Rightarrow> remote_event \<Rightarrow> bool" where
  "fresh known r \<longleftrightarrow> (case re_dedupe_key r of None \<Rightarrow> True | Some k \<Rightarrow> k \<notin> set known)"

lemma page_rows_spec:
  "page_rows X b ids sources known es = Inr (rows, skipped) \<Longrightarrow>
     rows = filter (fresh known) (exported X b ids sources es) \<and> length rows + skipped = length es"
proof (induction es arbitrary: rows skipped)
  case (Cons e es)
  have key: "re_dedupe_key (remote_row X ids sources e p) = remote_dedupe_key ids e" for p
    by (simp add: remote_row_def)
  show ?case
    using Cons.prems
    by (auto simp: bind_result_eq_Inr exported_Cons export_row_def fresh_def key
        split: if_splits option.splits dest!: Cons.IH)
qed simp

lemma fold_put_fresh:
  "keys_ok D \<Longrightarrow> set known \<subseteq> fst ` set (rd_keys D) \<Longrightarrow> fold put (filter (fresh known) rs) D = fold put rs D"
proof (induction rs arbitrary: D)
  case (Cons r rs)
  have later: "set known \<subseteq> fst ` set (rd_keys (put r D))"
    using Cons.prems put_grows(2) [of D r] by blast
  show ?case
  proof (cases "fresh known r")
    case True
    with Cons.IH [OF put_keys_ok [OF Cons.prems(1)] later] show ?thesis by simp
  next
    case False
    with Cons.prems have "covered r D" by (auto simp: fresh_def covered_def split: option.splits)
    with False Cons.IH [OF Cons.prems] put_covered [OF Cons.prems(1)] show ?thesis by simp
  qed
qed simp

definition upload :: "remote_event list \<Rightarrow> remote_db \<Rightarrow> remote_db" where
  "upload rows D = (if rows = [] then D else exec_batch (page_batch rows) D)"

text \<open>Up to the order of the search rows, uploading the fresh rows of a page is merging all of its rows.\<close>

definition merges :: "remote_event list \<Rightarrow> remote_db \<Rightarrow> remote_db \<Rightarrow> bool" where
  "merges rows D D' \<longleftrightarrow> rd_events D' = rd_events (fold put rows D) \<and> rd_keys D' = rd_keys (fold put rows D)
     \<and> rd_checkpoints D' = rd_checkpoints D"

lemma upload_merges:
  assumes "remote_ok D" "set known \<subseteq> fst ` set (rd_keys D)"
  shows "remote_ok (upload (filter (fresh known) rs) D)" and "merges rs D (upload (filter (fresh known) rs) D)"
proof -
  let ?rows = "filter (fresh known) rs"
  have ok: "keys_ok D" "search_in_sync D" using assms(1) by (simp_all add: remote_ok_def)
  have same: "fold put ?rows D = fold put rs D" by (rule fold_put_fresh [OF ok(1) assms(2)])
  have core: "rd_events (upload ?rows D) = rd_events (fold put rs D)"
      "rd_keys (upload ?rows D) = rd_keys (fold put rs D)" "rd_checkpoints (upload ?rows D) = rd_checkpoints D"
      "search_in_sync (upload ?rows D)"
    using search_after_batch [OF ok(2,1), of ?rows] ok(2) same [symmetric] by (auto simp: upload_def)
  then show "merges rs D (upload ?rows D)" by (simp add: merges_def)
  have "keys_ok (fold put rs D)" using ok(1) by (rule fold_put_keys_ok)
  with core show "remote_ok (upload ?rows D)" by (simp add: remote_ok_def keys_ok_def)
qed

lemma put_cong:
  "rd_events D = rd_events D' \<Longrightarrow> rd_keys D = rd_keys D' \<Longrightarrow>
     rd_events (put r D) = rd_events (put r D') \<and> rd_keys (put r D) = rd_keys (put r D')"
  by (simp add: put_def event_statements_def split: option.splits)

lemma fold_put_cong:
  "rd_events D = rd_events D' \<Longrightarrow> rd_keys D = rd_keys D' \<Longrightarrow>
     rd_events (fold put rs D) = rd_events (fold put rs D') \<and> rd_keys (fold put rs D) = rd_keys (fold put rs D')"
proof (induction rs arbitrary: D D')
  case (Cons r rs)
  from put_cong [OF Cons.prems, of r] Cons.IH [of "put r D" "put r D'"] show ?case by simp
qed simp

lemma merges_Nil [simp]: "merges [] D D" by (simp add: merges_def)

lemma merges_append: "merges rs D D1 \<Longrightarrow> merges ss D1 D2 \<Longrightarrow> merges (rs @ ss) D D2"
  using fold_put_cong [of D1 "fold put rs D" ss] by (simp add: merges_def)

end
