(* ===== verification/Turso_Push.thy ===== *)
theory Turso_Push
  imports Turso_Merge
begin

text \<open>
  The push of \<open>commands/turso.rs\<close> as a whole: what its loop leaves in the remote database and in its
  report, for every outcome of every remote call, and the properties of repeated, interrupted and
  concurrent pushes that follow.
\<close>

section \<open>Pages of the local store\<close>

lemma collect_events: "collect_rows event_from_row rows = Inr page \<Longrightarrow> page = rows"
  by (induction rows arbitrary: page)
    (auto simp: bind_result_eq_Inr event_from_row_def unreadable_def split: if_splits)

lemma filter_after_last:
  fixes f :: "'a \<Rightarrow> 'b::linorder"
  assumes "sorted (map f L)" "distinct (map f L)" "take n L \<noteq> []"
  shows "filter (\<lambda>e. f (last (take n L)) < f e) L = drop n L"
proof -
  let ?last = "f (last (take n L))"
  have split: "sorted (map f (take n L) @ map f (drop n L))" "distinct (map f (take n L) @ map f (drop n L))"
    using assms(1,2) by (simp_all flip: map_append)
  have mem: "last (take n L) \<in> set (take n L)" using assms(3) by simp
  have "f e \<le> ?last" if "e \<in> set (take n L)" for e
  proof -
    from assms(3) have "map f (take n L) = map f (butlast (take n L)) @ [?last]"
      by (metis append_butlast_last_id list.simps(8,9) map_append)
    moreover from this that have "f e \<in> insert ?last (set (map f (butlast (take n L))))"
      by (metis image_eqI list.set_map rotate1.simps(2) set_rotate1 list.simps(15) append_butlast_last_id assms(3))
    ultimately show ?thesis using split(1) by (auto simp: sorted_append)
  qed
  then have "filter (\<lambda>e. ?last < f e) (take n L) = []" by (auto simp: filter_empty_conv not_less)
  moreover have "?last < f e" if "e \<in> set (drop n L)" for e
  proof -
    have "?last \<le> f e" using split(1) mem that by (auto simp: sorted_append)
    moreover have "?last \<noteq> f e" using split(2) mem that by auto
    ultimately show ?thesis by simp
  qed
  then have "filter (\<lambda>e. ?last < f e) (drop n L) = drop n L" by (auto simp: filter_id_conv)
  ultimately show ?thesis by (metis append_Nil append_take_drop_id filter_append)
qed

lemma events_after_next:
  assumes "distinct (event_ids store)" "take n (events_after after store) \<noteq> []"
  shows "events_after (Some (ev_id (last (take n (events_after after store))))) store
    = drop n (events_after after store)"
proof -
  let ?L = "events_after after store" and ?p = "\<lambda>i e. case i of None \<Rightarrow> True | Some j \<Rightarrow> j < ev_id e"
  let ?last = "last (take n ?L)"
  have "set ?L = {e \<in> set (db_events store). ?p after e}" by (simp add: events_after_def)
  moreover have "?last \<in> set ?L" using assms(2) by (metis in_set_takeD last_in_set)
  ultimately have "?p after ?last" by blast
  then have "filter (?p (Some (ev_id ?last))) (db_events store)
      = filter (\<lambda>e. ev_id ?last < ev_id e) (filter (?p after) (db_events store))"
    by (auto simp: filter_filter intro!: filter_cong split: option.splits)
  then have "events_after (Some (ev_id ?last)) store = filter (\<lambda>e. ev_id ?last < ev_id e) ?L"
    by (simp add: events_after_def filter_sort)
  also have "\<dots> = drop n ?L"
  proof (rule filter_after_last)
    show "sorted (map ev_id ?L)" by (simp add: events_after_def)
    have "distinct (map ev_id (filter (?p after) (db_events store)))"
      using assms(1) by (rule distinct_map_filter)
    then show "distinct (map ev_id ?L)"
      by (simp only: events_after_def distinct_map distinct_sort set_sort)
  qed (rule assms(2))
  finally show ?thesis .
qed

section \<open>One turn of the loop\<close>

definition page_size :: "push_args \<Rightarrow> push_report \<Rightarrow> nat" where
  "page_size args R = (case pa_limit args of
       None \<Rightarrow> pa_batch_size args
     | Some limit \<Rightarrow> min (limit - pr_scanned_events R) (pa_batch_size args))"

definition count_page :: "push_report \<Rightarrow> nat \<Rightarrow> nat \<Rightarrow> nat \<Rightarrow> push_report" where
  "count_page R uploaded skipped scanned =
     \<lparr>pr_uploaded_events = pr_uploaded_events R + uploaded,
      pr_skipped_events = pr_skipped_events R + skipped,
      pr_scanned_events = pr_scanned_events R + scanned,
      pr_batches = pr_batches R + 1\<rparr>"

lemma known_keys:
  "remote_existing_dedupe_keys candidates net D = (Some known, net') \<Longrightarrow> set known \<subseteq> fst ` set (rd_keys D)"
  by (auto simp: remote_existing_dedupe_keys_def Let_def split: if_splits prod.splits)

lemma upload_batch_cases:
  assumes "upload_batch rows net D = (ok, net', D')"
  shows "ok \<Longrightarrow> D' = upload rows D" "D' = D \<or> D' = upload rows D"
  using assms by (auto simp: upload_batch_def upload_def Let_def split: if_splits prod.splits)

lemma push_loop_turn:
  assumes "push_loop X args ids sources store after R net D = (res, net', D')"
    and "page = take (page_size args R) (events_after after store)"
  obtains (stop) "res = Inr R" "D' = D" "page = []"
  | (failed) err where "res = Inl err" "D' = D"
  | (lost) err known rows skipped where "res = Inl err" "set known \<subseteq> fst ` set (rd_keys D)"
      "page_rows X (pa_include_local_only args) ids sources known page = Inr (rows, skipped)"
      "D' = upload rows D"
  | (advance) known rows skipped net1 where "page \<noteq> []" "set known \<subseteq> fst ` set (rd_keys D)"
      "page_rows X (pa_include_local_only args) ids sources known page = Inr (rows, skipped)"
      "push_loop X args ids sources store (Some (ev_id (last page)))
         (count_page R (length rows) skipped (length page)) net1 (upload rows D) = (res, net', D')"
proof -
  let ?remaining = "map_option (\<lambda>limit. limit - pr_scanned_events R) (pa_limit args)"
  note run = assms(1) [unfolded push_loop.simps [of X args ids sources store after R net D]]
  show ?thesis
  proof (cases "?remaining = Some 0")
    case True
    then have "page_size args R = 0" by (auto simp: page_size_def split: option.splits)
    with assms(2) have "page = []" by simp
    with True run stop show ?thesis by (simp add: Let_def)
  next
    case go: False
    have size: "(case ?remaining of Some n \<Rightarrow> min n (pa_batch_size args) | None \<Rightarrow> pa_batch_size args) = page_size args R"
      by (simp add: page_size_def split: option.splits)
    note run0 = run [unfolded Let_def if_not_P [OF go] size]
    show ?thesis
    proof (cases "list_events_page_after after (page_size args R) store")
      case (Inl err)
      with run0 have "res = Inl (StoreFailed err)" "D' = D" by simp_all
      then show ?thesis by (rule failed)
    next
      case (Inr p)
      then have "p = page" using assms(2) collect_events by (simp add: list_events_page_after_def)
      with Inr have page: "list_events_page_after after (page_size args R) store = Inr page" by simp
      from run0 have run1: "(if page = [] then (Inr R, net, D) else
           case remote_existing_dedupe_keys (List.map_filter (remote_dedupe_candidate ids) page) net D of
             (None, net1) \<Rightarrow> (Inl KeyQueryFailed, net1, D)
           | (Some known, net1) \<Rightarrow>
               (case page_rows X (pa_include_local_only args) ids sources known page of
                  Inl err \<Rightarrow> (Inl err, net1, D)
                | Inr (rows, skipped) \<Rightarrow>
                    (case upload_batch rows net1 D of
                       (False, net2, D2) \<Rightarrow> (Inl UploadFailed, net2, D2)
                     | (True, net2, D2) \<Rightarrow>
                         push_loop X args ids sources store (Some (ev_id (last page)))
                           (count_page R (length rows) skipped (length page)) net2 D2)))
           = (res, net', D')"
        by (simp only: page sum.case count_page_def)
      show ?thesis
      proof (cases "page = []")
        case True
        with run1 stop show ?thesis by simp
      next
        case False
        obtain known net1 where keys: "remote_existing_dedupe_keys
            (List.map_filter (remote_dedupe_candidate ids) page) net D = (known, net1)" by force
        show ?thesis
        proof (cases known)
          case None
          with run1 False keys have "res = Inl KeyQueryFailed" "D' = D" by simp_all
          then show ?thesis by (rule failed)
        next
          case (Some k)
          note sub = known_keys [OF keys [unfolded Some]]
          show ?thesis
          proof (cases "page_rows X (pa_include_local_only args) ids sources k page")
            case (Inl err)
            with run1 False keys Some have "res = Inl err" "D' = D" by simp_all
            then show ?thesis by (rule failed)
          next
            case rows: (Inr rs)
            obtain rows skipped where rs: "rs = (rows, skipped)" by force
            obtain ok net2 D2 where up: "upload_batch rows net1 D = (ok, net2, D2)" by (metis prod_cases3)
            from run1 False keys Some rows rs up
            have "(if ok then push_loop X args ids sources store (Some (ev_id (last page)))
                (count_page R (length rows) skipped (length page)) net2 D2 else (Inl UploadFailed, net2, D2))
                = (res, net', D')"
              by (cases ok) simp_all
            with upload_batch_cases [OF up] False sub rows rs show ?thesis
              by (cases ok) (auto intro: failed lost advance)
          qed
        qed
      qed
    qed
  qed
qed

section \<open>The loop\<close>

text \<open>The events that the rest of a push still scans.\<close>

definition push_window :: "push_args \<Rightarrow> uuid option \<Rightarrow> push_report \<Rightarrow> db \<Rightarrow> event list" where
  "push_window args after R store = (case pa_limit args of
       None \<Rightarrow> events_after after store
     | Some limit \<Rightarrow> take (limit - pr_scanned_events R) (events_after after store))"

abbreviation "window_rows X args ids sources after R store \<equiv>
  exported X (pa_include_local_only args) ids sources (push_window args after R store)"

lemma window_page:
  assumes "distinct (event_ids store)" "page = take (page_size args R) (events_after after store)" "page \<noteq> []"
  shows "push_window args after R store
    = page @ push_window args (Some (ev_id (last page))) (count_page R u s (length page)) store"
proof -
  let ?L = "events_after after store"
  have rest: "events_after (Some (ev_id (last page))) store = drop (length page) ?L"
    using events_after_next [OF assms(1), of "page_size args R" after] assms(2,3) by (cases "page_size args R \<le> length ?L") auto
  have page: "page = take (length page) ?L" using assms(2) by (simp add: min_def)
  show ?thesis
  proof (cases "pa_limit args")
    case None
    with rest page show ?thesis by (simp add: push_window_def) (metis append_take_drop_id)
  next
    case (Some limit)
    then have "length page \<le> limit - pr_scanned_events R" by (simp add: assms(2) page_size_def)
    then have "take (limit - pr_scanned_events R) ?L
        = page @ take (limit - (pr_scanned_events R + length page)) (drop (length page) ?L)"
      using page by (metis diff_diff_left le_add_diff_inverse take_add)
    with Some rest show ?thesis by (simp add: push_window_def count_page_def)
  qed
qed

lemma window_end:
  "take (page_size args R) (events_after after store) = [] \<Longrightarrow> 0 < pa_batch_size args \<Longrightarrow>
     push_window args after R store = []"
  by (auto simp: push_window_def page_size_def split: option.splits)

text \<open>Whatever the calls do, the remote database has merged a prefix of the rows; a push that
  returns a report has merged all of them and counted every event of the window once.\<close>

definition push_result :: "push_args \<Rightarrow> remote_event list \<Rightarrow> nat \<Rightarrow> push_report \<Rightarrow> remote_db
    \<Rightarrow> push_error + push_report \<Rightarrow> remote_db \<Rightarrow> bool" where
  "push_result args rows scanned R D res D' \<longleftrightarrow>
     remote_ok D'
     \<and> (\<exists>n. merges (take n rows) D D')
     \<and> (\<forall>R'. res = Inr R' \<longrightarrow> 0 < pa_batch_size args \<longrightarrow>
          merges rows D D'
          \<and> pr_scanned_events R' = pr_scanned_events R + scanned
          \<and> pr_uploaded_events R' + pr_skipped_events R' = pr_uploaded_events R + pr_skipped_events R + scanned
          \<and> pr_uploaded_events R' \<le> pr_uploaded_events R + length rows)"

lemma push_loop_result:
  assumes "distinct (event_ids store)"
  shows "remote_ok D \<Longrightarrow> push_loop X args ids sources store after R net D = (res, net', D') \<Longrightarrow>
    push_result args (window_rows X args ids sources after R store)
      (length (push_window args after R store)) R D res D'"
proof (induction "length (events_after after store)" arbitrary: after R net D rule: less_induct)
  case less
  let ?rows = "window_rows X args ids sources after R store"
  define page where "page = take (page_size args R) (events_after after store)"
  have none: "\<exists>n. merges (take n ?rows) D D" by (rule exI [of _ 0]) simp
  from less.prems(2) page_def show ?case
  proof (cases rule: push_loop_turn)
    case stop
    then have "push_window args after R store = []" if "0 < pa_batch_size args"
      using window_end that page_def by simp
    with stop none less.prems(1) show ?thesis by (auto simp: push_result_def)
  next
    case (failed err)
    with none less.prems(1) show ?thesis by (simp add: push_result_def)
  next
    case (lost err known rows skipped)
    let ?page = "exported X (pa_include_local_only args) ids sources page"
    have rows: "rows = filter (fresh known) ?page" using page_rows_spec [OF lost(3)] by simp
    have "page \<noteq> [] \<Longrightarrow> \<exists>rest. ?rows = ?page @ rest"
      using window_page [OF assms page_def] by (metis exported_simps(2))
    then have "\<exists>n. ?page = take n ?rows"
      by (cases "page = []") (auto intro: exI [of _ 0] exI [of _ "length ?page"])
    with upload_merges [OF less.prems(1) lost(2), of ?page] rows lost show ?thesis
      by (auto simp: push_result_def)
  next
    case (advance known rows skipped net1)
    let ?page = "exported X (pa_include_local_only args) ids sources page"
    let ?R = "count_page R (length rows) skipped (length page)"
    let ?after = "Some (ev_id (last page))"
    have rows: "rows = filter (fresh known) ?page" "length rows + skipped = length page"
      using page_rows_spec [OF advance(3)] by blast+
    note window = window_page [OF assms page_def advance(1), of "length rows" skipped]
    have "events_after ?after store = drop (length page) (events_after after store)"
      using events_after_next [OF assms, of "page_size args R" after] advance(1) page_def
      by (cases "page_size args R \<le> length (events_after after store)") auto
    moreover have "page \<noteq> []" "length page \<le> length (events_after after store)"
      using advance(1) by (simp_all add: page_def)
    ultimately have smaller: "length (events_after ?after store) < length (events_after after store)"
      by (cases page) auto
    note merged = upload_merges [OF less.prems(1) advance(2), of ?page, folded rows(1)]
    from less.hyps [OF smaller merged(1) advance(4)]
    have later: "push_result args (window_rows X args ids sources ?after ?R store)
        (length (push_window args ?after ?R store)) ?R (upload rows D) res D'" .
    have all: "?rows = ?page @ window_rows X args ids sources ?after ?R store"
      "length (push_window args after R store) = length page + length (push_window args ?after ?R store)"
      by (simp_all add: window)
    from later obtain n where n: "merges (take n (window_rows X args ids sources ?after ?R store)) (upload rows D) D'"
      by (auto simp: push_result_def)
    have "merges (take (length ?page + n) ?rows) D D'"
      unfolding all(1) using merges_append [OF merged(2) n] by simp
    then have prefix: "\<exists>n. merges (take n ?rows) D D'" by blast
    have "length rows \<le> length ?page" by (simp add: rows(1))
    then have "\<forall>R'. res = Inr R' \<longrightarrow> 0 < pa_batch_size args \<longrightarrow>
        merges ?rows D D'
        \<and> pr_scanned_events R' = pr_scanned_events R + length (push_window args after R store)
        \<and> pr_uploaded_events R' + pr_skipped_events R'
          = pr_uploaded_events R + pr_skipped_events R + length (push_window args after R store)
        \<and> pr_uploaded_events R' \<le> pr_uploaded_events R + length ?rows"
      using later merges_append [OF merged(2)] rows(2) unfolding push_result_def all
      by (auto simp: count_page_def)
    with prefix later show ?thesis by (simp add: push_result_def)
  qed
qed

section \<open>A whole push\<close>

text \<open>The events a push scans, and the rows of those it exports.\<close>

definition push_events :: "push_args \<Rightarrow> db \<Rightarrow> event list" where
  "push_events args store = push_window args (pa_after_event_id args) empty_report store"

definition push_rows :: "externals \<Rightarrow> push_args \<Rightarrow> db \<Rightarrow> remote_event list" where
  "push_rows X args store = (case (list_sessions store, list_capture_sources store) of
       (Inr ss, Inr cs) \<Rightarrow> exported X (pa_include_local_only args) (session_identity_map ss)
          (source_provider_map cs) (push_events args store)
     | _ \<Rightarrow> [])"

lemma push_outcome:
  assumes "distinct (event_ids store)" "remote_ok D" "push X args store net D = (res, net', D')"
  shows "push_result args (push_rows X args store) (length (push_events args store)) empty_report D res D'"
proof -
  let ?result = "push_result args (push_rows X args store) (length (push_events args store)) empty_report D"
  have unchanged: "?result (Inl err) D" for err
    using assms(2) by (auto simp: push_result_def intro: exI [of _ 0])
  obtain outcome net1 where net: "next_call net = (outcome, net1)" by force
  show ?thesis
  proof (cases "outcome = Completed")
    case False
    with assms(3) net have "res = Inl ConnectFailed" "D' = D" by (cases outcome; simp add: push_def)+
    with unchanged show ?thesis by simp
  next
    case True
    show ?thesis
    proof (cases "list_sessions store")
      case (Inl err)
      with True net assms(3) unchanged show ?thesis by (auto simp: push_def)
    next
      case ss: (Inr ss)
      show ?thesis
      proof (cases "list_capture_sources store")
        case (Inl err)
        with ss True net assms(3) unchanged show ?thesis by (auto simp: push_def)
      next
        case (Inr cs)
        with ss True net assms(3) push_loop_result [OF assms(1,2)] show ?thesis
          by (simp add: push_def push_rows_def push_events_def)
      qed
    qed
  qed
qed

lemma push_ok:
  "distinct (event_ids store) \<Longrightarrow> remote_ok D \<Longrightarrow> push X args store net D = (res, net', D') \<Longrightarrow> remote_ok D'"
  using push_outcome by (simp add: push_result_def)

lemma push_prefix:
  "distinct (event_ids store) \<Longrightarrow> remote_ok D \<Longrightarrow> push X args store net D = (res, net', D') \<Longrightarrow>
     \<exists>n. merges (take n (push_rows X args store)) D D'"
  using push_outcome by (simp add: push_result_def)

lemma push_complete:
  assumes "distinct (event_ids store)" "remote_ok D" "0 < pa_batch_size args"
    and "push X args store net D = (Inr R, net', D')"
  shows "merges (push_rows X args store) D D'"
  using push_outcome [OF assms(1,2,4)] assms(3) by (simp add: push_result_def)

lemma merges_covers:
  assumes "remote_ok D" "merges rs D D'" "r \<in> set rs"
  shows "covered r D'"
  using fold_put_covers [of D r rs] assms
  by (cases "re_dedupe_key r") (auto simp: remote_ok_def merges_def covered_def)

lemma merges_appends:
  assumes "remote_ok D" "merges rs D D'"
  shows "\<exists>new. rd_events D' = rd_events D @ new \<and> set new \<subseteq> set rs"
  using fold_put_appends [of D rs] assms by (simp add: remote_ok_def merges_def)

lemma merges_covered:
  assumes "remote_ok D" "merges rs D D'" "\<forall>r \<in> set rs. covered r D"
  shows "rd_events D' = rd_events D" "rd_keys D' = rd_keys D"
  using fold_put_noop [of D rs] assms by (simp_all add: remote_ok_def merges_def)

lemma merges_keys:
  "remote_ok D \<Longrightarrow> merges rs D D' \<Longrightarrow>
     fst ` set (rd_keys D') = fst ` set (rd_keys D) \<union> {k. Some k \<in> re_dedupe_key ` set rs}"
  using fold_put_key_set [of D rs] by (simp add: remote_ok_def merges_def)

definition remote_grows :: "remote_db \<Rightarrow> remote_db \<Rightarrow> bool" where
  "remote_grows D D' \<longleftrightarrow> set (remote_ids D) \<subseteq> set (remote_ids D') \<and> fst ` set (rd_keys D) \<subseteq> fst ` set (rd_keys D')"

lemma covered_grows: "remote_grows D D' \<Longrightarrow> covered r D \<Longrightarrow> covered r D'"
  by (cases "re_dedupe_key r") (auto simp: remote_grows_def covered_def)

lemma all_covered_grows: "remote_grows D D' \<Longrightarrow> \<forall>r \<in> set rs. covered r D \<Longrightarrow> \<forall>r \<in> set rs. covered r D'"
  using covered_grows by blast

lemma merges_grows: "remote_ok D \<Longrightarrow> merges rs D D' \<Longrightarrow> remote_grows D D'"
  using merges_appends [of D rs D'] merges_keys [of D rs D'] by (auto simp: remote_grows_def)

lemma one_event_per_key:
  assumes "remote_ok D" "r \<in> set (rd_events D)" "s \<in> set (rd_events D)"
    "re_dedupe_key r = Some k" "re_dedupe_key s = Some k"
  shows "r = s"
proof -
  from assms have "Some (re_event_id r) = Some (re_event_id s)"
    unfolding remote_ok_def keys_ok_def by metis
  then have "re_event_id r = re_event_id s" by simp
  with assms(1-3) show ?thesis by (auto simp: remote_ok_def keys_ok_def distinct_map dest: inj_onD)
qed

lemma in_exported: "r \<in> set (exported X b ids sources es) \<longleftrightarrow> (\<exists>e \<in> set es. export_row X b ids sources e = Some r)"
  by (induction es) (auto simp: exported_Cons split: option.splits)

lemma in_push_rows: "r \<in> set (push_rows X args store) \<longleftrightarrow>
    (\<exists>ss cs. list_sessions store = Inr ss \<and> list_capture_sources store = Inr cs
      \<and> (\<exists>e \<in> set (push_events args store). export_row X (pa_include_local_only args)
          (session_identity_map ss) (source_provider_map cs) e = Some r))"
  by (cases "list_sessions store"; cases "list_capture_sources store"; simp add: push_rows_def in_exported)

lemma push_rows_source:
  assumes "r \<in> set (push_rows X args store)"
  shows "\<exists>e ids sources p. e \<in> set (db_events store) \<and> remote_export_allowed e (pa_include_local_only args)
    \<and> json_text X (ev_payload e) = Some p \<and> r = remote_row X ids sources e p"
proof -
  have "set (push_events args store) \<subseteq> set (db_events store)"
    by (auto simp: push_events_def push_window_def events_after_def split: option.splits dest: in_set_takeD)
  with assms show ?thesis
    by (auto simp: in_push_rows export_row_def split: if_splits)
qed

lemma push_rows_subset:
  assumes "pa_limit args = None" "pa_after_event_id args = None"
    and "pa_include_local_only args' \<Longrightarrow> pa_include_local_only args"
  shows "set (push_rows X args' store) \<subseteq> set (push_rows X args store)"
proof -
  have events: "set (push_events args' store) \<subseteq> set (push_events args store)"
    using assms(1,2) by (auto simp: push_events_def push_window_def events_after_def
        split: option.splits dest: in_set_takeD)
  have row: "export_row X (pa_include_local_only args) ids sources e = Some r"
    if "export_row X (pa_include_local_only args') ids sources e = Some r" for ids sources e r
    using that assms(3) by (auto simp: export_row_def remote_export_allowed_def split: if_splits)
  show ?thesis
    using events row unfolding subset_iff in_push_rows by blast
qed

section \<open>A push of one event\<close>

definition demo_store :: db where
  "demo_store = empty_db\<lparr>db_events := [demo_event]\<rparr>"

definition demo_args :: push_args where
  "demo_args = \<lparr>pa_batch_size = 100, pa_limit = None, pa_after_event_id = None, pa_include_local_only = True\<rparr>"

definition demo_row :: remote_event where
  "demo_row = \<lparr>re_event_id = ''u01'', re_session_id = None, re_provider = ''unknown'', re_role = None,
      re_event_type = ''notice'', re_occurred_at_ms = 0, re_dedupe_key = None,
      re_payload_json = ''hi'', re_search_text = ''hi''\<rparr>"

definition demo_remote :: remote_db where
  "demo_remote = \<lparr>rd_events = [demo_row], rd_keys = [], rd_search = [(''u01'', ''hi'')], rd_checkpoints = []\<rparr>"

definition one_event :: push_report where
  "one_event = \<lparr>pr_uploaded_events = 1, pr_skipped_events = 0, pr_scanned_events = 1, pr_batches = 1\<rparr>"

lemma demo_distinct: "distinct (event_ids demo_store)"
  by (simp add: demo_store_def)

lemma demo_uuid_text: "uuid_text demo_externals (Uuid [1]) = ''u01''"
  by (simp add: demo_externals_def) code_simp

lemma demo_remote_row:
  "remote_row demo_externals ids sources demo_event ''hi'' = demo_row"
  using demo_uuid_text by (simp add: remote_row_def demo_event_def demo_row_def remote_provider_def
      remote_dedupe_key_def timestamp_ms_def enum_as_str_def event_type_table_def)

lemma demo_json: "json_text demo_externals (JStr s) = Some s"
  by (simp add: demo_externals_def)

lemma demo_pages:
  "list_events_page_after None 100 demo_store = Inr [demo_event]"
  "list_events_page_after (Some (Uuid [1])) 100 demo_store = Inr []"
  by (simp_all add: list_events_page_after_def events_after_def demo_store_def demo_event_def event_from_row_def
      readable_u64_def default_sync_metadata_def)

lemma demo_candidate: "remote_dedupe_candidate ids demo_event = None"
  by (simp add: remote_dedupe_candidate_def demo_event_def)

lemma demo_page_rows:
  "page_rows demo_externals True ids sources known [demo_event] = Inr ([demo_row], 0)"
proof -
  have "remote_export_allowed demo_event True"
    by (simp add: remote_export_allowed_def demo_event_def default_sync_metadata_def visibility_default_def
        sync_state_default_def)
  moreover have "json_text demo_externals (ev_payload demo_event) = Some ''hi''"
    by (simp add: demo_event_def demo_json)
  moreover have "remote_dedupe_key ids demo_event = None" by (simp add: remote_dedupe_key_def demo_event_def)
  ultimately show ?thesis by (simp add: demo_remote_row)
qed

lemma demo_upload:
  "exec_batch (page_batch [demo_row]) empty_remote = demo_remote"
  "exec_batch (page_batch [demo_row]) demo_remote = demo_remote"
  by (simp_all add: exec_batch_def page_batch_def event_statements_def demo_row_def empty_remote_def demo_remote_def
      Let_def)

lemma demo_id: "ev_id demo_event = Uuid [1]"
  by (simp add: demo_event_def)

text \<open>The push of the one event makes two calls, the connection and the batch.\<close>

lemma demo_push:
  "push demo_externals demo_args demo_store [] D = (Inr one_event, [], exec_batch (page_batch [demo_row]) D)"
  "push demo_externals demo_args demo_store [Completed, AppliedThenLost] D
     = (Inl UploadFailed, [], exec_batch (page_batch [demo_row]) D)"
proof -
  have empty: "push_loop demo_externals demo_args ids sources demo_store (Some (Uuid [1])) R net D = (Inr R, net, D)"
    for ids sources R net D
    by (simp add: push_loop.simps Let_def demo_pages demo_args_def)
  have loop: "push_loop demo_externals demo_args ids sources demo_store None empty_report net D
      = (case next_call net of (outcome, net) \<Rightarrow>
           (if outcome = Completed then Inr one_event else Inl UploadFailed, net,
            if outcome = Refused then D else exec_batch (page_batch [demo_row]) D))" for ids sources net D
    by (simp add: push_loop.simps [of _ _ _ _ _ None] Let_def demo_pages demo_page_rows demo_candidate
        remote_existing_dedupe_keys_def upload_batch_def map_filter_def demo_args_def
        empty [unfolded demo_args_def] empty_report_def one_event_def demo_id del: page_rows.simps
        split: prod.splits)
  have "list_sessions demo_store = Inr []" "list_capture_sources demo_store = Inr []"
    "pa_after_event_id demo_args = None"
    by (simp_all add: list_sessions_def list_capture_sources_def demo_store_def demo_args_def empty_db_def)
  then show "push demo_externals demo_args demo_store [] D = (Inr one_event, [], exec_batch (page_batch [demo_row]) D)"
    "push demo_externals demo_args demo_store [Completed, AppliedThenLost] D
       = (Inl UploadFailed, [], exec_batch (page_batch [demo_row]) D)"
    by (simp_all add: push_def loop)
qed

section \<open>Properties\<close>

text \<open>C2: Whatever the remote calls do, a push leaves the remote database well-formed (event ids and
  keys unique, the key of every event owned by it, the search table in step with the events) and the
  checkpoints alone; it only appends events, and each new one is an event of the local store that is
  not withheld and, unless local-only events are included, is marked for full sync.\<close>

theorem push_exports_only_allowed:
  assumes "distinct (event_ids store)" "remote_ok D" "push X args store net D = (res, net', D')"
  shows "remote_ok D' \<and> rd_checkpoints D' = rd_checkpoints D
    \<and> (\<exists>new. rd_events D' = rd_events D @ new
        \<and> (\<forall>r \<in> set new. \<exists>e \<in> set (db_events store).
             re_event_id r = uuid_text X (ev_id e) \<and> json_text X (ev_payload e) = Some (re_payload_json r)
             \<and> sm_visibility (ev_sync e) \<noteq> Visibility_Withheld \<and> sm_sync_state (ev_sync e) \<noteq> SyncState_Withheld
             \<and> (sm_visibility (ev_sync e) = Visibility_SyncFull \<or> pa_include_local_only args)))"
proof -
  from push_prefix [OF assms] obtain n where n: "merges (take n (push_rows X args store)) D D'" by blast
  from merges_appends [OF assms(2) n] obtain new where
    new: "rd_events D' = rd_events D @ new" "set new \<subseteq> set (push_rows X args store)"
    by (auto dest: in_set_takeD)
  have "\<exists>e \<in> set (db_events store). re_event_id r = uuid_text X (ev_id e)
      \<and> json_text X (ev_payload e) = Some (re_payload_json r)
      \<and> sm_visibility (ev_sync e) \<noteq> Visibility_Withheld \<and> sm_sync_state (ev_sync e) \<noteq> SyncState_Withheld
      \<and> (sm_visibility (ev_sync e) = Visibility_SyncFull \<or> pa_include_local_only args)"
    if "r \<in> set new" for r
  proof -
    from that new(2) have "r \<in> set (push_rows X args store)" by blast
    from push_rows_source [OF this] obtain e ids sources p where
      "e \<in> set (db_events store)" "remote_export_allowed e (pa_include_local_only args)"
      "json_text X (ev_payload e) = Some p" "r = remote_row X ids sources e p" by blast
    then show ?thesis
      by (intro bexI [of _ e]) (simp_all add: remote_export_allowed_def remote_row_def split: if_splits)
  qed
  moreover have "rd_checkpoints D' = rd_checkpoints D" using n by (simp add: merges_def)
  ultimately show ?thesis using push_ok [OF assms] new(1) by blast
qed

theorem push_exports_only_allowed_witness: "remote_ok demo_remote"
  using push_exports_only_allowed [OF demo_distinct empty_remote_ok demo_push(2) [of empty_remote]]
  by (simp add: demo_upload)

lemma search_same:
  "remote_ok D \<Longrightarrow> remote_ok E \<Longrightarrow> rd_events D = rd_events E \<Longrightarrow> mset (rd_search D) = mset (rd_search E)"
  by (simp add: remote_ok_def search_in_sync_def)

text \<open>C4: A push that returns its report has exported everything it was asked to: the event of every
  exportable row of its window is in the remote database, or another event owns its key there, and
  the report counts every scanned event exactly once, as uploaded or as skipped.\<close>

theorem push_complete_report:
  assumes "distinct (event_ids store)" "remote_ok D" "0 < pa_batch_size args"
    and "push X args store net D = (Inr R, net', D')"
  shows "(\<forall>r \<in> set (push_rows X args store).
       case re_dedupe_key r of
         None \<Rightarrow> re_event_id r \<in> set (remote_ids D')
       | Some k \<Rightarrow> \<exists>owner \<in> set (rd_events D'). map_of (rd_keys D') k = Some (re_event_id owner))
    \<and> pr_scanned_events R = length (push_events args store)
    \<and> pr_uploaded_events R + pr_skipped_events R = pr_scanned_events R
    \<and> pr_uploaded_events R \<le> length (push_rows X args store)"
proof -
  have owned: "\<exists>owner \<in> set (rd_events D'). map_of (rd_keys D') k = Some (re_event_id owner)"
    if "k \<in> fst ` set (rd_keys D')" for k
    using map_of_key [OF that] push_ok [OF assms(1,2,4)] by (fastforce simp: remote_ok_def keys_ok_def)
  have "case re_dedupe_key r of
         None \<Rightarrow> re_event_id r \<in> set (remote_ids D')
       | Some k \<Rightarrow> \<exists>owner \<in> set (rd_events D'). map_of (rd_keys D') k = Some (re_event_id owner)"
    if "r \<in> set (push_rows X args store)" for r
    using merges_covers [OF assms(2) push_complete [OF assms] that] owned
    by (cases "re_dedupe_key r") (simp_all add: covered_def)
  moreover have "pr_scanned_events R = length (push_events args store)
    \<and> pr_uploaded_events R + pr_skipped_events R = pr_scanned_events R
    \<and> pr_uploaded_events R \<le> length (push_rows X args store)"
    using push_outcome [OF assms(1,2,4)] assms(3) by (simp add: push_result_def empty_report_def)
  ultimately show ?thesis by blast
qed

theorem push_complete_report_witness:
  "pr_scanned_events one_event = length (push_events demo_args demo_store)"
  using push_complete_report [OF demo_distinct empty_remote_ok _ demo_push(1) [of empty_remote]]
  by (simp add: demo_args_def)

text \<open>After a complete push of the whole store, every later push of it, with any page size, window
  and outcome of its calls, leaves the remote events and keys as they are and the search table equal
  up to order.\<close>

theorem push_twice_is_once:
  assumes "distinct (event_ids store)" "remote_ok D" "0 < pa_batch_size args"
    and "pa_limit args = None" "pa_after_event_id args = None"
    and "pa_include_local_only args' \<Longrightarrow> pa_include_local_only args"
    and "push X args store net D = (Inr R, net1, D1)"
    and "push X args' store net' D1 = (res, net2, D2)"
  shows "rd_events D2 = rd_events D1 \<and> rd_keys D2 = rd_keys D1 \<and> mset (rd_search D2) = mset (rd_search D1)"
proof -
  note ok = push_ok [OF assms(1,2,7)]
  from push_prefix [OF assms(1) ok assms(8)] obtain n where
    n: "merges (take n (push_rows X args' store)) D1 D2" by blast
  have "covered r D1" if "r \<in> set (take n (push_rows X args' store))" for r
  proof (rule merges_covers [OF assms(2) push_complete [OF assms(1-3,7)]])
    from that have "r \<in> set (push_rows X args' store)" by (rule in_set_takeD)
    with push_rows_subset [OF assms(4-6)] show "r \<in> set (push_rows X args store)" by blast
  qed
  with merges_covered [OF ok n] have same: "rd_events D2 = rd_events D1" "rd_keys D2 = rd_keys D1" by blast+
  with search_same [OF push_ok [OF assms(1) ok assms(8)] ok] show ?thesis by simp
qed

theorem push_twice_is_once_witness:
  "\<exists>R D2. push demo_externals demo_args demo_store [] demo_remote = (R, [], D2) \<and> rd_events D2 = rd_events demo_remote"
  using push_twice_is_once [OF demo_distinct empty_remote_ok _ _ _ _ demo_push(1) [of empty_remote]
      demo_push(1) [of demo_remote, folded demo_upload(1)]] demo_push(1) [of demo_remote]
  by (simp add: demo_args_def demo_upload)

text \<open>C7: An interrupted push is repaired by repeating it: a push that stops anywhere, followed by a
  complete one with any page size, leaves the events and keys that a complete push alone leaves, and
  the search table up to order.\<close>

theorem push_retry_is_one_push:
  assumes "distinct (event_ids store)" "remote_ok D" "0 < pa_batch_size args" "0 < n"
    and "push X (args\<lparr>pa_batch_size := m\<rparr>) store net D = (res, net1, D1)"
    and "push X args store net' D1 = (Inr R, net2, D2)"
    and "push X (args\<lparr>pa_batch_size := n\<rparr>) store net'' D = (Inr R', net3, E)"
  shows "rd_events D2 = rd_events E \<and> rd_keys D2 = rd_keys E \<and> mset (rd_search D2) = mset (rd_search E)"
proof -
  let ?rows = "push_rows X args store"
  have rows: "push_rows X (args\<lparr>pa_batch_size := s\<rparr>) store = ?rows" for s
    by (simp add: push_rows_def push_events_def push_window_def cong: sum.case_cong)
  note ok = push_ok [OF assms(1,2,5)]
  from push_prefix [OF assms(1,2,5)] obtain i where i: "merges (take i ?rows) D D1" unfolding rows by blast
  have retry: "merges ?rows D1 D2" by (rule push_complete [OF assms(1) ok assms(3,6)])
  have clean: "merges ?rows D E"
    using push_complete [OF assms(1,2) _ assms(7)] assms(4) unfolding rows by simp
  have "rd_events D2 = rd_events (fold put ?rows (fold put (take i ?rows) D))
      \<and> rd_keys D2 = rd_keys (fold put ?rows (fold put (take i ?rows) D))"
    using retry i fold_put_cong [of D1 "fold put (take i ?rows) D" ?rows] by (simp add: merges_def)
  moreover have "fold put ?rows (fold put (take i ?rows) D) = fold put ?rows D"
    using assms(2) by (simp add: remote_ok_def fold_put_resume)
  ultimately have same: "rd_events D2 = rd_events E" "rd_keys D2 = rd_keys E"
    using clean by (simp_all add: merges_def)
  with search_same [OF push_ok [OF assms(1) ok assms(6)] push_ok [OF assms(1,2,7)]] show ?thesis by simp
qed

theorem push_retry_is_one_push_witness:
  "\<exists>R D2. push demo_externals demo_args demo_store [] (snd (snd
       (push demo_externals demo_args demo_store [Completed, AppliedThenLost] empty_remote))) = (Inr R, [], D2)
     \<and> rd_events D2 = rd_events demo_remote"
proof -
  have args: "demo_args\<lparr>pa_batch_size := 100\<rparr> = demo_args" by (simp add: demo_args_def)
  have lost: "push demo_externals (demo_args\<lparr>pa_batch_size := 100\<rparr>) demo_store [Completed, AppliedThenLost] empty_remote
      = (Inl UploadFailed, [], demo_remote)"
    and retry: "push demo_externals demo_args demo_store [] demo_remote = (Inr one_event, [], demo_remote)"
    and clean: "push demo_externals (demo_args\<lparr>pa_batch_size := 100\<rparr>) demo_store [] empty_remote
      = (Inr one_event, [], demo_remote)"
    unfolding args by (simp_all add: demo_push demo_upload)
  have "0 < pa_batch_size demo_args" "0 < (100 :: nat)" by (simp_all add: demo_args_def)
  from push_retry_is_one_push [OF demo_distinct empty_remote_ok this lost retry clean] lost retry
  show ?thesis unfolding args by simp
qed

text \<open>Machines that push one after the other converge in either order: the remote database ends with
  the keys it had and those of both machines' rows, and no key has two events.\<close>

theorem pushes_converge:
  assumes "distinct (event_ids A)" "distinct (event_ids B)" "remote_ok D"
    and "0 < pa_batch_size a" "0 < pa_batch_size b"
    and "push X a A n1 D = (Inr R1, m1, D1)" "push X b B n2 D1 = (Inr R2, m2, D2)"
    and "push X b B n3 D = (Inr R3, m3, E1)" "push X a A n4 E1 = (Inr R4, m4, E2)"
  shows "fst ` set (rd_keys D2) = fst ` set (rd_keys D)
        \<union> {k. Some k \<in> re_dedupe_key ` (set (push_rows X a A) \<union> set (push_rows X b B))}
    \<and> fst ` set (rd_keys E2) = fst ` set (rd_keys D2)
    \<and> (\<forall>r \<in> set (rd_events D2). \<forall>s \<in> set (rd_events D2).
         re_dedupe_key r \<noteq> None \<and> re_dedupe_key r = re_dedupe_key s \<longrightarrow> r = s)"
proof -
  note okD1 = push_ok [OF assms(1,3,6)] and okE1 = push_ok [OF assms(2,3,8)]
  note okD2 = push_ok [OF assms(2) okD1 assms(7)]
  note keys = merges_keys [OF assms(3) push_complete [OF assms(1,3,4,6)]]
    merges_keys [OF okD1 push_complete [OF assms(2) okD1 assms(5,7)]]
    merges_keys [OF assms(3) push_complete [OF assms(2,3,5,8)]]
    merges_keys [OF okE1 push_complete [OF assms(1) okE1 assms(4,9)]]
  have "fst ` set (rd_keys D2) = fst ` set (rd_keys D)
        \<union> {k. Some k \<in> re_dedupe_key ` (set (push_rows X a A) \<union> set (push_rows X b B))}"
    unfolding keys by auto
  moreover have "fst ` set (rd_keys E2) = fst ` set (rd_keys D2)" unfolding keys by auto
  moreover have "\<forall>r \<in> set (rd_events D2). \<forall>s \<in> set (rd_events D2).
      re_dedupe_key r \<noteq> None \<and> re_dedupe_key r = re_dedupe_key s \<longrightarrow> r = s"
    using one_event_per_key [OF okD2] by (metis not_None_eq)
  ultimately show ?thesis by blast
qed

theorem pushes_converge_witness:
  "\<exists>D2. push demo_externals demo_args demo_store [] demo_remote = (Inr one_event, [], D2) \<and> rd_keys D2 = []"
proof -
  have "push demo_externals demo_args demo_store [] demo_remote = (Inr one_event, [], demo_remote)"
    "push demo_externals demo_args demo_store [] empty_remote = (Inr one_event, [], demo_remote)"
    using demo_push(1) by (simp_all add: demo_upload)
  from pushes_converge [OF demo_distinct demo_distinct empty_remote_ok _ _ this(2,1) this(2,1)] this(1)
  show ?thesis by (simp add: demo_args_def demo_remote_def)
qed

end
