(* ===== verification/Turso_Race.thy ===== *)
theory Turso_Race
  imports Turso_Push
begin

text \<open>
  Concurrent pushes. The loop of \<open>push\<close> touches the remote database twice in each turn, when it reads
  the known keys of its page and when it sends the batch; other machines may write in between. A
  client is the loop cut at these points, \<open>race\<close> is the interleaving of the steps of several
  clients, any of which may also be interrupted.
\<close>

section \<open>A client\<close>

datatype push_client =
    Reading "uuid option" push_report
  | Writing "uuid option" push_report "remote_event list"
  | Finished push_report
  | Failed push_error

record machine =
  mc_args :: push_args
  mc_identities :: session_identities
  mc_providers :: "uuid \<Rightarrow> string option"
  mc_store :: db

definition client_read :: "externals \<Rightarrow> machine \<Rightarrow> uuid option \<Rightarrow> push_report \<Rightarrow> remote_db \<Rightarrow> push_client" where
  "client_read X m after R D =
     (let remaining = map_option (\<lambda>limit. limit - pr_scanned_events R) (pa_limit (mc_args m))
      in if remaining = Some 0 then Finished R
      else let size = (case remaining of Some n \<Rightarrow> min n (pa_batch_size (mc_args m)) | None \<Rightarrow> pa_batch_size (mc_args m))
      in case list_events_page_after after size (mc_store m) of
           Inl err \<Rightarrow> Failed (StoreFailed err)
         | Inr page \<Rightarrow>
             if page = [] then Finished R
             else
               case remote_existing_dedupe_keys
                   (List.map_filter (remote_dedupe_candidate (mc_identities m)) page) [] D of
                 (None, _) \<Rightarrow> Failed KeyQueryFailed
               | (Some known, _) \<Rightarrow>
                   (case page_rows X (pa_include_local_only (mc_args m)) (mc_identities m) (mc_providers m) known page of
                      Inl err \<Rightarrow> Failed err
                    | Inr (rows, skipped) \<Rightarrow>
                        Writing (Some (ev_id (last page))) (count_page R (length rows) skipped (length page)) rows))"

fun client_step :: "externals \<Rightarrow> machine \<Rightarrow> push_client \<Rightarrow> remote_db \<Rightarrow> push_client \<times> remote_db" where
  "client_step X m (Reading after R) D = (client_read X m after R D, D)"
| "client_step X m (Writing after R rows) D = (Reading after R, upload rows D)"
| "client_step X m c D = (c, D)"

text \<open>What \<open>push_loop\<close> makes of the rest of a client's work when nobody interferes.\<close>

definition loop_rest :: "externals \<Rightarrow> machine \<Rightarrow> uuid option \<Rightarrow> push_report \<Rightarrow> remote_db
    \<Rightarrow> (push_error + push_report) \<times> remote_db" where
  "loop_rest X m after R D =
     (case push_loop X (mc_args m) (mc_identities m) (mc_providers m) (mc_store m) after R [] D of
        (res, _, D') \<Rightarrow> (res, D'))"

fun client_rest :: "externals \<Rightarrow> machine \<Rightarrow> push_client \<Rightarrow> remote_db \<Rightarrow> (push_error + push_report) \<times> remote_db" where
  "client_rest X m (Reading after R) D = loop_rest X m after R D"
| "client_rest X m (Writing after R rows) D = loop_rest X m after R (upload rows D)"
| "client_rest X m (Finished R) D = (Inr R, D)"
| "client_rest X m (Failed err) D = (Inl err, D)"

lemma known_keys_alone: "\<exists>known. remote_existing_dedupe_keys candidates [] D = (Some known, [])"
  by (simp add: remote_existing_dedupe_keys_def)

lemma upload_batch_alone: "upload_batch rows [] D = (True, [], upload rows D)"
  by (simp add: upload_batch_def upload_def)

lemma client_step_rest: "client_step X m c D = (c', D') \<Longrightarrow> client_rest X m c' D' = client_rest X m c D"
proof (cases c)
  case (Reading after R)
  assume "client_step X m c D = (c', D')"
  with Reading have c': "c' = client_read X m after R D" "D' = D" by auto
  define known where "known candidates = the (fst (remote_existing_dedupe_keys candidates [] D))" for candidates
  have known: "remote_existing_dedupe_keys candidates [] D = (Some (known candidates), [])" for candidates
    using known_keys_alone [of candidates D] by (auto simp: known_def)
  show ?thesis
    unfolding c' Reading client_rest.simps loop_rest_def push_loop.simps [of _ _ _ _ _ after] client_read_def
    by (auto simp: Let_def known upload_batch_alone count_page_def loop_rest_def split: sum.split)
qed auto

section \<open>Interleaving\<close>

text \<open>A step of one client, or its interruption: while it waits for its keys, or for the answer of its
  batch, which may have been applied.\<close>

inductive race :: "externals \<Rightarrow> machine list \<Rightarrow> push_client list \<times> remote_db \<Rightarrow> push_client list \<times> remote_db \<Rightarrow> bool"
  for X ms where
  turn: "i < length cs \<Longrightarrow> client_step X (ms ! i) (cs ! i) D = (c', D') \<Longrightarrow> race X ms (cs, D) (cs[i := c'], D')"
| key_query_fails: "i < length cs \<Longrightarrow> cs ! i = Reading after R \<Longrightarrow>
    race X ms (cs, D) (cs[i := Failed KeyQueryFailed], D)"
| batch_refused: "i < length cs \<Longrightarrow> cs ! i = Writing after R rows \<Longrightarrow>
    race X ms (cs, D) (cs[i := Failed UploadFailed], D)"
| answer_lost: "i < length cs \<Longrightarrow> cs ! i = Writing after R rows \<Longrightarrow>
    race X ms (cs, D) (cs[i := Failed UploadFailed], upload rows D)"

inductive_cases race_cases: "race X ms (cs, D) s'"

definition start_client :: "machine \<Rightarrow> push_client" where
  "start_client m = Reading (pa_after_event_id (mc_args m)) empty_report"

text \<open>The rows that a client still has to upload, and all of them.\<close>

definition rows_from :: "externals \<Rightarrow> machine \<Rightarrow> uuid option \<Rightarrow> push_report \<Rightarrow> remote_event list" where
  "rows_from X m after R = window_rows X (mc_args m) (mc_identities m) (mc_providers m) after R (mc_store m)"

definition machine_rows :: "externals \<Rightarrow> machine \<Rightarrow> remote_event list" where
  "machine_rows X m = rows_from X m (pa_after_event_id (mc_args m)) empty_report"

text \<open>What is true of each client at any time.\<close>

fun client_ok :: "externals \<Rightarrow> machine \<Rightarrow> push_client \<Rightarrow> remote_db \<Rightarrow> bool" where
  "client_ok X m (Reading after R) D \<longleftrightarrow>
     (\<exists>sent. machine_rows X m = sent @ rows_from X m after R \<and> (\<forall>r \<in> set sent. covered r D))"
| "client_ok X m (Writing after R rows) D \<longleftrightarrow>
     (\<exists>sent page known. machine_rows X m = sent @ page @ rows_from X m after R \<and> (\<forall>r \<in> set sent. covered r D)
        \<and> rows = filter (fresh known) page \<and> set known \<subseteq> fst ` set (rd_keys D))"
| "client_ok X m (Finished R) D \<longleftrightarrow> (\<forall>r \<in> set (machine_rows X m). covered r D)"
| "client_ok X m (Failed err) D \<longleftrightarrow> True"

lemma client_ok_grows:
  assumes "remote_grows D D'" "client_ok X m c D"
  shows "client_ok X m c D'"
proof (cases c)
  case (Reading after R)
  with assms(2) all_covered_grows [OF assms(1)] show ?thesis by (simp del: ball_simps) blast
next
  case (Writing after R rows)
  from assms(1) have "set known \<subseteq> fst ` set (rd_keys D')" if "set known \<subseteq> fst ` set (rd_keys D)" for known
    using that by (auto simp: remote_grows_def)
  with assms(2) Writing all_covered_grows [OF assms(1)] show ?thesis by (simp del: ball_simps) blast
next
  case (Finished R)
  with assms(2) all_covered_grows [OF assms(1)] show ?thesis by simp
qed simp

lemma client_read_ok:
  assumes "distinct (event_ids (mc_store m))" "0 < pa_batch_size (mc_args m)" "client_ok X m (Reading after R) D"
  shows "client_ok X m (client_read X m after R D) D"
proof -
  let ?args = "mc_args m" and ?store = "mc_store m"
  define page where "page = take (page_size ?args R) (events_after after ?store)"
  have last_turn: "client_ok X m (Finished R) D" if "page = []"
  proof -
    have "rows_from X m after R = []"
      using window_end [OF _ assms(2)] that by (simp add: page_def rows_from_def)
    with assms(3) show ?thesis by auto
  qed
  show ?thesis
  proof (cases "map_option (\<lambda>limit. limit - pr_scanned_events R) (pa_limit ?args) = Some 0")
    case True
    then have "page = []" by (auto simp: page_def page_size_def split: option.splits)
    with True last_turn show ?thesis by (simp add: client_read_def)
  next
    case go: False
    have size: "(case map_option (\<lambda>limit. limit - pr_scanned_events R) (pa_limit ?args) of
        Some n \<Rightarrow> min n (pa_batch_size ?args) | None \<Rightarrow> pa_batch_size ?args) = page_size ?args R"
      by (simp add: page_size_def split: option.splits)
    obtain known where known: "remote_existing_dedupe_keys
        (List.map_filter (remote_dedupe_candidate (mc_identities m)) page) [] D = (Some known, [])"
      using known_keys_alone by blast
    note read = client_read_def [of X m after R D, unfolded Let_def if_not_P [OF go] size]
    show ?thesis
    proof (cases "list_events_page_after after (page_size ?args R) ?store")
      case (Inr p)
      then have p: "p = page" using collect_events by (simp add: list_events_page_after_def page_def)
      show ?thesis
      proof (cases "page = []")
        case True
        with Inr p read last_turn show ?thesis by simp
      next
        case False
        show ?thesis
        proof (cases "page_rows X (pa_include_local_only ?args) (mc_identities m) (mc_providers m) known page")
          case rows: (Inr rs)
          obtain rows skipped where rs: "rs = (rows, skipped)" by force
          let ?R = "count_page R (length rows) skipped (length page)"
          let ?page = "exported X (pa_include_local_only ?args) (mc_identities m) (mc_providers m) page"
          have "rows_from X m after R = ?page @ rows_from X m (Some (ev_id (last page))) ?R"
            unfolding rows_from_def window_page [OF assms(1) page_def False, of "length rows" skipped]
            by (rule exported_simps(2))
          moreover have "rows = filter (fresh known) ?page" using page_rows_spec [OF rows [unfolded rs]] by simp
          ultimately have "client_ok X m (Writing (Some (ev_id (last page))) ?R rows) D"
            using assms(3) known_keys [OF known] by auto
          with Inr p read False known rows rs show ?thesis by simp
        qed (use Inr p read False known in simp)
      qed
    qed (use read in simp)
  qed
qed

text \<open>What is true of the whole at any time.\<close>

definition race_ok :: "externals \<Rightarrow> machine list \<Rightarrow> remote_db \<Rightarrow> push_client list \<times> remote_db \<Rightarrow> bool" where
  "race_ok X ms D0 s \<longleftrightarrow> (case s of (cs, D) \<Rightarrow>
     length cs = length ms \<and> remote_ok D
     \<and> (\<forall>i < length ms. client_ok X (ms ! i) (cs ! i) D)
     \<and> (\<exists>new. rd_events D = rd_events D0 @ new \<and> set new \<subseteq> (\<Union>m \<in> set ms. set (machine_rows X m))))"

lemma race_ok_update:
  assumes "race_ok X ms D0 (cs, D)" "i < length cs" "remote_ok D'" "merges rs D D'"
    and "set rs \<subseteq> set (machine_rows X (ms ! i))" "client_ok X (ms ! i) c' D'"
  shows "race_ok X ms D0 (cs[i := c'], D')"
proof -
  from assms(1) have ok: "length cs = length ms" "remote_ok D"
      "\<And>j. j < length ms \<Longrightarrow> client_ok X (ms ! j) (cs ! j) D" by (simp_all add: race_ok_def)
  have "client_ok X (ms ! j) (cs[i := c'] ! j) D'" if "j < length ms" for j
    using that ok assms(2,6) client_ok_grows [OF merges_grows [OF ok(2) assms(4)]]
    by (cases "i = j") simp_all
  moreover have "\<exists>new. rd_events D' = rd_events D0 @ new \<and> set new \<subseteq> (\<Union>m \<in> set ms. set (machine_rows X m))"
  proof -
    from assms(1) obtain old where old: "rd_events D = rd_events D0 @ old"
        "set old \<subseteq> (\<Union>m \<in> set ms. set (machine_rows X m))" by (auto simp: race_ok_def)
    from merges_appends [OF ok(2) assms(4)] obtain new where
      new: "rd_events D' = rd_events D @ new" "set new \<subseteq> set rs" by blast
    have "set rs \<subseteq> (\<Union>m \<in> set ms. set (machine_rows X m))"
      using assms(2,5) nth_mem [of i ms, folded ok(1)] by blast
    with old new show ?thesis by (intro exI [of _ "old @ new"]) auto
  qed
  ultimately show ?thesis using ok(1) assms(3) by (simp add: race_ok_def)
qed

lemma writing_uploads:
  assumes "remote_ok D" "client_ok X m (Writing after R rows) D"
  shows "\<exists>page. set page \<subseteq> set (machine_rows X m) \<and> merges page D (upload rows D) \<and> remote_ok (upload rows D)
     \<and> client_ok X m (Reading after R) (upload rows D)"
proof -
  from assms(2) obtain sent page known where
    w: "machine_rows X m = (sent @ page) @ rows_from X m after R" "\<forall>r \<in> set sent. covered r D"
      "rows = filter (fresh known) page" "set known \<subseteq> fst ` set (rd_keys D)" by auto
  note up = upload_merges [OF assms(1) w(4), of page, folded w(3)]
  have "\<forall>r \<in> set (sent @ page). covered r (upload rows D)"
    using covered_grows [OF merges_grows [OF assms(1) up(2)]] w(2) merges_covers [OF assms(1) up(2)] by auto
  with w(1) up show ?thesis by (intro exI [of _ page]) (auto simp del: append_assoc)
qed

lemma race_ok_step:
  assumes "\<forall>m \<in> set ms. distinct (event_ids (mc_store m)) \<and> 0 < pa_batch_size (mc_args m)"
    and "race X ms s s'" "race_ok X ms D0 s"
  shows "race_ok X ms D0 s'"
  using assms(2,3)
proof (cases rule: race.cases)
  case (turn i cs D c' D')
  with assms(3) have ok: "length cs = length ms" "remote_ok D" "client_ok X (ms ! i) (cs ! i) D"
    by (auto simp: race_ok_def)
  note keep = race_ok_update [OF assms(3) [unfolded turn(1)] turn(3)]
  have m: "distinct (event_ids (mc_store (ms ! i)))" "0 < pa_batch_size (mc_args (ms ! i))"
    using assms(1) turn(3) ok(1) by auto
  show ?thesis
  proof (cases "cs ! i")
    case (Reading after R)
    with turn(4) ok(3) client_read_ok [OF m] have "D' = D" "client_ok X (ms ! i) c' D" by auto
    with keep [OF ok(2) merges_Nil] turn(2) show ?thesis by simp
  next
    case (Writing after R rows)
    with turn(4) have step: "D' = upload rows D" "c' = Reading after R" by auto
    from writing_uploads [OF ok(2) ok(3) [unfolded Writing]] obtain page where
      "set page \<subseteq> set (machine_rows X (ms ! i))" "merges page D D'" "remote_ok D'" "client_ok X (ms ! i) c' D'"
      unfolding step by blast
    with keep turn(2) show ?thesis by simp
  next
    case (Finished R)
    with turn(4) ok(3) have "D' = D" "client_ok X (ms ! i) c' D" by auto
    with keep [OF ok(2) merges_Nil] turn(2) show ?thesis by simp
  next
    case (Failed err)
    with turn(4) ok(3) have "D' = D" "client_ok X (ms ! i) c' D" by auto
    with keep [OF ok(2) merges_Nil] turn(2) show ?thesis by simp
  qed
next
  case (key_query_fails i cs after R D)
  with assms(3) race_ok_update [OF assms(3) [unfolded key_query_fails(1)], of i D "[]"] show ?thesis
    by (auto simp: race_ok_def)
next
  case (batch_refused i cs after R rows D)
  with assms(3) race_ok_update [OF assms(3) [unfolded batch_refused(1)], of i D "[]"] show ?thesis
    by (auto simp: race_ok_def)
next
  case (answer_lost i cs after R rows D)
  with assms(3) have ok: "remote_ok D" "client_ok X (ms ! i) (Writing after R rows) D"
    by (auto simp: race_ok_def)
  from writing_uploads [OF this] obtain page where
    "set page \<subseteq> set (machine_rows X (ms ! i))" "merges page D (upload rows D)" "remote_ok (upload rows D)" by blast
  with race_ok_update [OF assms(3) [unfolded answer_lost(1)] answer_lost(3)] answer_lost(2) show ?thesis by simp
qed

lemma race_ok_reachable:
  assumes "\<forall>m \<in> set ms. distinct (event_ids (mc_store m)) \<and> 0 < pa_batch_size (mc_args m)"
    and "(race X ms)\<^sup>*\<^sup>* s s'" "race_ok X ms D0 s"
  shows "race_ok X ms D0 s'"
  using assms(2,3) by (induction rule: rtranclp_induct) (auto intro: race_ok_step [OF assms(1)])

lemma race_ok_start: "remote_ok D \<Longrightarrow> race_ok X ms D (map start_client ms, D)"
  by (simp add: race_ok_def start_client_def machine_rows_def)

section \<open>A client alone\<close>

lemma client_read_advances:
  assumes "client_read X m after R D = Writing after' R' rows"
  shows "length (events_after after' (mc_store m)) < length (events_after after (mc_store m))"
  using assms
  by (auto simp: client_read_def Let_def dest!: events_after_decreases split: if_splits sum.splits option.splits prod.splits)

abbreviation "alone X m n s \<equiv> ((\<lambda>(c, D). client_step X m c D) ^^ n) s"

fun client_end :: "(push_error + push_report) \<times> remote_db \<Rightarrow> push_client \<times> remote_db" where
  "client_end (Inr R, D) = (Finished R, D)"
| "client_end (Inl err, D) = (Failed err, D)"

lemma client_alone: "\<exists>n. alone X m n (Reading after R, D) = client_end (loop_rest X m after R D)"
proof (induction "length (events_after after (mc_store m))" arbitrary: after R D rule: less_induct)
  case less
  have rest: "loop_rest X m after R D = client_rest X m (client_read X m after R D) D"
    using client_step_rest [of X m "Reading after R" D] by simp
  show ?case
  proof (cases "client_read X m after R D")
    case (Reading after' R')
    then show ?thesis
      by (auto simp: client_read_def Let_def split: if_splits sum.splits option.splits prod.splits)
  next
    case (Writing after' R' rows)
    from less [OF client_read_advances [OF Writing]] obtain n where
      "alone X m n (Reading after' R', upload rows D) = client_end (loop_rest X m after' R' (upload rows D))" by blast
    then have "alone X m (Suc (Suc n)) (Reading after R, D) = client_end (loop_rest X m after R D)"
      by (simp add: funpow_Suc_right rest Writing del: funpow.simps)
    then show ?thesis by blast
  qed (auto simp: rest intro!: exI [of _ "Suc 0"])
qed

section \<open>Properties\<close>

text \<open>A client whose steps nobody interleaves with ends after finitely many of them, in the report or
  error and with the remote database of the uninterrupted loop of \<open>push\<close>.\<close>

theorem client_alone_is_push:
  "\<exists>n. alone X m n (Reading after R, D)
     = (case push_loop X (mc_args m) (mc_identities m) (mc_providers m) (mc_store m) after R [] D of
          (Inr R', _, D') \<Rightarrow> (Finished R', D')
        | (Inl err, _, D') \<Rightarrow> (Failed err, D'))"
  using client_alone [of X m after R D]
  by (auto simp: loop_rest_def split: prod.splits sum.splits)

text \<open>C1: Pushes of several machines converge under every interleaving of their reads and batches and
  every interruption: at any time the remote database is well-formed, with one event for each key,
  and holds beyond its first events only rows of the machines; and once a machine has finished,
  every row it had to export is there or its key belongs to an event that is.\<close>

theorem racing_pushes_converge:
  assumes "\<forall>m \<in> set ms. distinct (event_ids (mc_store m)) \<and> 0 < pa_batch_size (mc_args m)"
    and "remote_ok D0" "(race X ms)\<^sup>*\<^sup>* (map start_client ms, D0) (cs, D)"
  shows "remote_ok D
    \<and> (\<exists>new. rd_events D = rd_events D0 @ new \<and> set new \<subseteq> (\<Union>m \<in> set ms. set (machine_rows X m)))
    \<and> (\<forall>r \<in> set (rd_events D). \<forall>s \<in> set (rd_events D).
         re_dedupe_key r \<noteq> None \<and> re_dedupe_key r = re_dedupe_key s \<longrightarrow> r = s)
    \<and> (\<forall>i < length ms. \<forall>R. cs ! i = Finished R \<longrightarrow> (\<forall>r \<in> set (machine_rows X (ms ! i)).
         case re_dedupe_key r of
           None \<Rightarrow> re_event_id r \<in> set (remote_ids D)
         | Some k \<Rightarrow> \<exists>owner \<in> set (rd_events D). map_of (rd_keys D) k = Some (re_event_id owner)))"
proof -
  from race_ok_reachable [OF assms(1,3) race_ok_start [OF assms(2)]]
  have ok: "race_ok X ms D0 (cs, D)" .
  then have remote: "remote_ok D" by (simp add: race_ok_def)
  have owned: "\<exists>owner \<in> set (rd_events D). map_of (rd_keys D) k = Some (re_event_id owner)"
    if "k \<in> fst ` set (rd_keys D)" for k
    using map_of_key [OF that] remote by (fastforce simp: remote_ok_def keys_ok_def)
  have "case re_dedupe_key r of
           None \<Rightarrow> re_event_id r \<in> set (remote_ids D)
         | Some k \<Rightarrow> \<exists>owner \<in> set (rd_events D). map_of (rd_keys D) k = Some (re_event_id owner)"
    if "i < length ms" "cs ! i = Finished R" "r \<in> set (machine_rows X (ms ! i))" for i R r
  proof -
    from ok that(1,2) have "client_ok X (ms ! i) (Finished R) D" by (auto simp: race_ok_def)
    with that(3) have "covered r D" by simp
    with owned show ?thesis by (cases "re_dedupe_key r") (simp_all add: covered_def)
  qed
  moreover have "\<forall>r \<in> set (rd_events D). \<forall>s \<in> set (rd_events D).
      re_dedupe_key r \<noteq> None \<and> re_dedupe_key r = re_dedupe_key s \<longrightarrow> r = s"
    using one_event_per_key [OF remote] by (metis not_None_eq)
  ultimately show ?thesis using ok remote by (auto simp: race_ok_def)
qed

theorem racing_pushes_converge_witness:
  "\<exists>D. remote_ok D \<and> rd_events D = [demo_row]"
proof -
  let ?m = "\<lparr>mc_args = demo_args, mc_identities = (\<lambda>_. None), mc_providers = (\<lambda>_. None), mc_store = demo_store\<rparr>"
  have read: "client_read demo_externals ?m None empty_report D = Writing (Some (Uuid [1])) one_event [demo_row]" for D
    by (simp add: client_read_def demo_pages demo_page_rows demo_candidate remote_existing_dedupe_keys_def
        map_filter_def demo_args_def demo_id count_page_def empty_report_def one_event_def del: page_rows.simps)
  have start: "map start_client [?m, ?m] = [Reading None empty_report, Reading None empty_report]"
    by (simp add: start_client_def demo_args_def)
  let ?w = "Writing (Some (Uuid [1])) one_event [demo_row]" and ?r = "Reading (Some (Uuid [1])) one_event"
  have upload: "upload [demo_row] empty_remote = demo_remote" "upload [demo_row] demo_remote = demo_remote"
    by (simp_all add: upload_def demo_upload)
  note step = race.turn [of _ _ demo_externals "[?m, ?m]"]
  have steps: "race demo_externals [?m, ?m] (map start_client [?m, ?m], empty_remote)
        ([?w, Reading None empty_report], empty_remote)"
      "race demo_externals [?m, ?m] ([?w, Reading None empty_report], empty_remote) ([?w, ?w], empty_remote)"
      "race demo_externals [?m, ?m] ([?w, ?w], empty_remote) ([?r, ?w], demo_remote)"
      "race demo_externals [?m, ?m] ([?r, ?w], demo_remote) ([?r, ?r], demo_remote)"
    unfolding start
    using step [of 0 "[Reading None empty_report, Reading None empty_report]" empty_remote ?w empty_remote]
      step [of 1 "[?w, Reading None empty_report]" empty_remote ?w empty_remote]
      step [of 0 "[?w, ?w]" empty_remote ?r demo_remote] step [of 1 "[?r, ?w]" demo_remote ?r demo_remote]
    by (simp_all add: read upload)
  then have "(race demo_externals [?m, ?m])\<^sup>*\<^sup>* (map start_client [?m, ?m], empty_remote) ([?r, ?r], demo_remote)"
    by (meson converse_rtranclp_into_rtranclp rtranclp.rtrancl_refl)
  from racing_pushes_converge [OF _ empty_remote_ok this]
  show ?thesis by (intro exI [of _ demo_remote]) (simp add: demo_distinct demo_args_def demo_remote_def)
qed

end
