(* ===== verification/Turso_Sync.thy ===== *)
theory Turso_Sync
  imports Turso_Push
begin

text \<open>
  The import straight into the remote database (\<open>commands/turso.rs\<close> with
  \<open>import_all_providers_in_memory_by_source\<close> of \<open>commands/import.rs\<close>): source checkpoints, the choice
  of the files to import, the push of each transient store, the watch loop and the adoption of a
  snapshot. What the run sees of a provider's files is a \<open>source_scan\<close>; the provider readers that
  turn files into a store are its argument \<open>sc_import\<close>.
\<close>

section \<open>Sources and checkpoints\<close>

datatype import_error =
    SchemaFailed | NoChangeToken | CheckpointReadFailed | CheckpointWriteFailed | StatFailed
  | PushFailed push_error | SourceImportFailed | SystemImportFailed | NoSnapshot

datatype source_kind = CodexTree | ClaudeTree | SingleSource

text \<open>A source as one run sees it: its key, its fingerprint when the run starts and after its import
  (none when no change token can be computed), whether its inventory succeeds, its files with their modification times (none when
  the file cannot be read), the readers' result for a list of its files, and the time at which the
  checkpoint is written.\<close>

record source_scan =
  sc_key :: string
  sc_kind :: source_kind
  sc_before :: "string option"
  sc_after :: "string option"
  sc_inventoried :: bool
  sc_files :: "(string \<times> int option) list"
  sc_import :: "string list \<Rightarrow> import_error + db"
  sc_now :: int

record checkpoint_state =
  ck_fingerprint :: string
  ck_updated_at_ms :: int

record pending_checkpoint =
  pc_fingerprint :: string
  pc_previous_updated_at_ms :: "int option"

type_synonym checkpoint_row = "string \<times> string \<times> int"

definition replace_checkpoint :: "checkpoint_row \<Rightarrow> checkpoint_row \<Rightarrow> checkpoint_row" where
  "replace_checkpoint old new = new"

interpretation checkpoints: keyed_rows fst replace_checkpoint
  by unfold_locales (simp add: replace_checkpoint_def)

text \<open>The state of a run: the remote database, the outcomes of the calls to come, the pending
  checkpoints and the counters.\<close>

record run_state =
  rs_remote :: remote_db
  rs_calls :: "call_outcome list"
  rs_pending :: "string \<Rightarrow> pending_checkpoint option"
  rs_unchanged :: nat
  rs_report :: push_report
  rs_imported :: nat
  rs_failed :: nat

definition start_run :: "call_outcome list \<Rightarrow> remote_db \<Rightarrow> run_state" where
  "start_run net D = \<lparr>rs_remote = D, rs_calls = net, rs_pending = (\<lambda>_. None), rs_unchanged = 0,
     rs_report = empty_report, rs_imported = 0, rs_failed = 0\<rparr>"

type_synonym 'a run = "run_state \<Rightarrow> (import_error + 'a) \<times> run_state"

definition and_then :: "'a run \<Rightarrow> ('a \<Rightarrow> 'b run) \<Rightarrow> 'b run" where
  "and_then f g s = (case f s of (Inl err, s') \<Rightarrow> (Inl err, s') | (Inr x, s') \<Rightarrow> g x s')"

definition finish :: "'a \<Rightarrow> 'a run" where
  "finish x s = (Inr x, s)"

text \<open>A read is one call; it fails unless it completes. A write may be applied and its answer lost.\<close>

definition remote_read :: "import_error \<Rightarrow> unit run" where
  "remote_read err s = (case next_call (rs_calls s) of (outcome, net) \<Rightarrow>
     (if outcome = Completed then Inr () else Inl err, s\<lparr>rs_calls := net\<rparr>))"

definition remote_checkpoint_state :: "string \<Rightarrow> checkpoint_state option run" where
  "remote_checkpoint_state key = and_then (remote_read CheckpointReadFailed)
     (\<lambda>_ s. (Inr (map_option (\<lambda>(_, fingerprint, updated_at).
          \<lparr>ck_fingerprint = fingerprint, ck_updated_at_ms = updated_at\<rparr>)
        (row_with fst key (rd_checkpoints (rs_remote s)))), s))"

definition remote_store_checkpoint :: "string \<Rightarrow> string \<Rightarrow> int \<Rightarrow> unit run" where
  "remote_store_checkpoint key fingerprint now s =
     (case next_call (rs_calls s) of (outcome, net) \<Rightarrow>
        (if outcome = Completed then Inr () else Inl CheckpointWriteFailed,
         if outcome = Refused then s\<lparr>rs_calls := net\<rparr>
         else s\<lparr>rs_calls := net, rs_remote := (rs_remote s)\<lparr>rd_checkpoints :=
             upsert_row fst replace_checkpoint (key, fingerprint, now) (rd_checkpoints (rs_remote s))\<rparr>\<rparr>))"

definition remote_source_checkpoint :: "string option \<Rightarrow> string run" where
  "remote_source_checkpoint fingerprint s = (case fingerprint of
       None \<Rightarrow> (Inl NoChangeToken, s)
     | Some f \<Rightarrow> (Inr f, s))"

section \<open>The closures of a run\<close>

definition should_import :: "source_scan \<Rightarrow> bool run" where
  "should_import sc =
     and_then (remote_source_checkpoint (sc_before sc)) (\<lambda>fingerprint.
     and_then (remote_checkpoint_state (sc_key sc)) (\<lambda>previous s.
       let s' = (if (case previous of None \<Rightarrow> False | Some state \<Rightarrow> ck_fingerprint state = fingerprint)
           then s\<lparr>rs_unchanged := rs_unchanged s + 1\<rparr>
           else s\<lparr>rs_pending := (rs_pending s)(sc_key sc \<mapsto>
               \<lparr>pc_fingerprint = fingerprint,
                pc_previous_updated_at_ms = map_option ck_updated_at_ms previous\<rparr>)\<rparr>)
       in (Inr (rs_pending s' (sc_key sc) \<noteq> None), s')))"

definition import_push_args :: "nat \<Rightarrow> push_args" where
  "import_push_args batch_size = \<lparr>pa_batch_size = batch_size, pa_limit = None, pa_after_event_id = None,
     pa_include_local_only = True\<rparr>"

definition add_report :: "push_report \<Rightarrow> push_report \<Rightarrow> push_report" where
  "add_report R S =
     \<lparr>pr_uploaded_events = pr_uploaded_events R + pr_uploaded_events S,
      pr_skipped_events = pr_skipped_events R + pr_skipped_events S,
      pr_scanned_events = pr_scanned_events R + pr_scanned_events S,
      pr_batches = pr_batches R + pr_batches S\<rparr>"

definition persist :: "externals \<Rightarrow> nat \<Rightarrow> db \<Rightarrow> unit run" where
  "persist X batch_size store s =
     (case push X (import_push_args batch_size) store (rs_calls s) (rs_remote s) of
        (Inl err, net, D) \<Rightarrow> (Inl (PushFailed err), s\<lparr>rs_calls := net, rs_remote := D\<rparr>)
      | (Inr R, net, D) \<Rightarrow>
          (Inr (), s\<lparr>rs_calls := net, rs_remote := D, rs_report := add_report (rs_report s) R\<rparr>))"

definition complete_source :: "source_scan \<Rightarrow> unit run" where
  "complete_source sc =
     and_then (remote_source_checkpoint (sc_after sc)) (\<lambda>current s.
       case rs_pending s (sc_key sc) of
         None \<Rightarrow> (Inr (), s)
       | Some before \<Rightarrow>
           let s' = s\<lparr>rs_pending := (rs_pending s)(sc_key sc := None)\<rparr>
           in if pc_fingerprint before = current
              then remote_store_checkpoint (sc_key sc) current (sc_now sc) s'
              else (Inr (), s'))"

definition should_import_file :: "source_scan \<Rightarrow> int option \<Rightarrow> bool run" where
  "should_import_file sc modified_at s =
     (case rs_pending s (sc_key sc) of
        None \<Rightarrow> (Inr False, s)
      | Some pending \<Rightarrow>
          (case pc_previous_updated_at_ms pending of
             None \<Rightarrow> (Inr True, s)
           | Some updated_at \<Rightarrow>
               (case modified_at of
                  None \<Rightarrow> (Inl StatFailed, s)
                | Some modified \<Rightarrow> (Inr (updated_at < modified), s))))"

section \<open>Importing the changed sources\<close>

fun files_to_import :: "source_scan \<Rightarrow> (string \<times> int option) list \<Rightarrow> string list run" where
  "files_to_import sc [] = finish []"
| "files_to_import sc ((path, modified_at) # files) =
     and_then (should_import_file sc modified_at) (\<lambda>wanted.
     and_then (files_to_import sc files) (\<lambda>paths. finish (if wanted then path # paths else paths)))"

definition import_paths :: "externals \<Rightarrow> nat \<Rightarrow> source_scan \<Rightarrow> string list \<Rightarrow> unit run" where
  "import_paths X batch_size sc paths s =
     (case sc_import sc paths of
        Inl err \<Rightarrow> (Inl err, s)
      | Inr store \<Rightarrow> persist X batch_size store s)"

fun import_chunks :: "externals \<Rightarrow> nat \<Rightarrow> source_scan \<Rightarrow> string list list \<Rightarrow> unit run" where
  "import_chunks X batch_size sc [] = finish ()"
| "import_chunks X batch_size sc (paths # chunks) =
     and_then (import_paths X batch_size sc paths) (\<lambda>_. import_chunks X batch_size sc chunks)"

fun chunks_of :: "nat \<Rightarrow> 'a list \<Rightarrow> 'a list list" where
  "chunks_of n [] = []"
| "chunks_of n (x # xs) = (x # take (n - 1) xs) # chunks_of n (drop (n - 1) xs)"

definition import_codex_tree_in_memory_chunks :: "externals \<Rightarrow> nat \<Rightarrow> source_scan \<Rightarrow> unit run" where
  "import_codex_tree_in_memory_chunks X batch_size sc =
     and_then (files_to_import sc (sc_files sc)) (\<lambda>paths. import_chunks X batch_size sc (chunks_of 8 paths))"

fun import_claude_files :: "externals \<Rightarrow> nat \<Rightarrow> source_scan \<Rightarrow> (string \<times> int option) list \<Rightarrow> unit run" where
  "import_claude_files X batch_size sc [] = finish ()"
| "import_claude_files X batch_size sc ((path, modified_at) # files) =
     and_then (should_import_file sc modified_at) (\<lambda>wanted.
     and_then (if wanted then import_paths X batch_size sc [path] else finish ())
       (\<lambda>_. import_claude_files X batch_size sc files))"

definition count_imported :: "unit run" where
  "count_imported s = (Inr (), s\<lparr>rs_imported := rs_imported s + 1\<rparr>)"

text \<open>A source that is a single unit fails alone when the failure is its own; in a tree every failure
  ends the run.\<close>

definition import_source :: "externals \<Rightarrow> nat \<Rightarrow> source_scan \<Rightarrow> unit run" where
  "import_source X batch_size sc s =
     (case sc_kind sc of
        CodexTree \<Rightarrow> and_then (import_codex_tree_in_memory_chunks X batch_size sc)
          (\<lambda>_. and_then (complete_source sc) (\<lambda>_. count_imported)) s
      | ClaudeTree \<Rightarrow> and_then (import_claude_files X batch_size sc (sc_files sc))
          (\<lambda>_. and_then (complete_source sc) (\<lambda>_. count_imported)) s
      | SingleSource \<Rightarrow>
          (case sc_import sc (map fst (sc_files sc)) of
             Inl SourceImportFailed \<Rightarrow> (Inr (), s\<lparr>rs_failed := rs_failed s + 1\<rparr>)
           | Inl err \<Rightarrow> (Inl err, s)
           | Inr store \<Rightarrow> and_then (persist X batch_size store)
               (\<lambda>_. and_then (complete_source sc) (\<lambda>_. count_imported)) s))"

fun changed_sources :: "source_scan list \<Rightarrow> source_scan list run" where
  "changed_sources [] = finish []"
| "changed_sources (sc # scans) =
     and_then (should_import sc) (\<lambda>wanted.
     and_then (changed_sources scans) (\<lambda>rest. finish (if wanted then sc # rest else rest)))"

fun import_sources :: "externals \<Rightarrow> nat \<Rightarrow> source_scan list \<Rightarrow> unit run" where
  "import_sources X batch_size [] = finish ()"
| "import_sources X batch_size (sc # scans) =
     and_then (import_source X batch_size sc) (\<lambda>_. import_sources X batch_size scans)"

definition inventory_import_sources :: "source_scan list \<Rightarrow> source_scan list run" where
  "inventory_import_sources scans s =
     (Inr (filter sc_inventoried scans),
      s\<lparr>rs_failed := rs_failed s + length (filter (\<lambda>sc. \<not> sc_inventoried sc) scans)\<rparr>)"

definition run_turso_import_once :: "externals \<Rightarrow> nat \<Rightarrow> source_scan list \<Rightarrow> push_report run" where
  "run_turso_import_once X batch_size scans =
     and_then (remote_read SchemaFailed) (\<lambda>_.
     and_then (changed_sources scans) (\<lambda>changed.
     and_then (inventory_import_sources changed) (\<lambda>plans.
     and_then (import_sources X batch_size plans) (\<lambda>_ s. (Inr (rs_report s), s)))))"

section \<open>The watch loop and the adoption of a snapshot\<close>

definition REMOTE_SYNC_MAX_CONSECUTIVE_FAILURES :: nat where
  "REMOTE_SYNC_MAX_CONSECUTIVE_FAILURES = 3"

text \<open>The loop over the results of its rounds: the number of rounds after which it gives up and the
  error, or none while it goes on.\<close>

fun watch_loop :: "nat \<Rightarrow> (import_error + 'a) list \<Rightarrow> (nat \<times> import_error) option" where
  "watch_loop consecutive_failures [] = None"
| "watch_loop consecutive_failures (Inr _ # results) = map_option (apfst Suc) (watch_loop 0 results)"
| "watch_loop consecutive_failures (Inl err # results) =
     (if REMOTE_SYNC_MAX_CONSECUTIVE_FAILURES \<le> consecutive_failures + 1 then Some (1, err)
      else map_option (apfst Suc) (watch_loop (consecutive_failures + 1) results))"

fun adopt_sources :: "source_scan list \<Rightarrow> nat \<Rightarrow> nat run" where
  "adopt_sources [] adopted = finish adopted"
| "adopt_sources (sc # scans) adopted =
     and_then (remote_source_checkpoint (sc_before sc)) (\<lambda>fingerprint.
     and_then (remote_store_checkpoint (sc_key sc) fingerprint (sc_now sc)) (\<lambda>_.
       adopt_sources scans (adopted + 1)))"

definition run_turso_adopt_snapshot :: "bool \<Rightarrow> source_scan list \<Rightarrow> nat run" where
  "run_turso_adopt_snapshot has_snapshot scans =
     and_then (remote_read SchemaFailed) (\<lambda>_.
     and_then (remote_read NoSnapshot) (\<lambda>_.
       if has_snapshot then adopt_sources scans 0 else (\<lambda>s. (Inl NoSnapshot, s))))"

section \<open>What every step of a run keeps\<close>

definition obeys :: "(run_state \<Rightarrow> run_state \<Rightarrow> bool) \<Rightarrow> 'a run \<Rightarrow> bool" where
  "obeys I f \<longleftrightarrow> (\<forall>s. I s (snd (f s)))"

text \<open>A relation that the local steps, the pushes of good stores and the checkpoint writes of good keys
  respect is respected by the whole run, however it ends.\<close>

locale run_relation =
  fixes I :: "run_state \<Rightarrow> run_state \<Rightarrow> bool" and good_store :: "db \<Rightarrow> bool" and good_key :: "string \<Rightarrow> bool"
  assumes trans: "I s s1 \<Longrightarrow> I s1 s2 \<Longrightarrow> I s s2"
    and local_step: "rs_remote s' = rs_remote s \<Longrightarrow> I s s'"
    and push_step: "good_store store \<Longrightarrow> I s (snd (persist X n store s))"
    and checkpoint_step: "good_key key \<Longrightarrow> I s (snd (remote_store_checkpoint key fingerprint now s))"
begin

definition good_scan :: "source_scan \<Rightarrow> bool" where
  "good_scan sc \<longleftrightarrow> good_key (sc_key sc) \<and> (\<forall>paths store. sc_import sc paths = Inr store \<longrightarrow> good_store store)"

lemma and_then [intro]: "obeys I f \<Longrightarrow> (\<And>x. obeys I (g x)) \<Longrightarrow> obeys I (and_then f g)"
  by (auto simp: obeys_def and_then_def split: prod.splits sum.splits)
    (metis snd_conv trans)+

lemma local_run: "(\<And>s. rs_remote (snd (f s)) = rs_remote s) \<Longrightarrow> obeys I f"
  by (simp add: obeys_def local_step)

lemma finish [intro]: "obeys I (finish x)"
  by (rule local_run) (simp add: finish_def)

lemma reads:
  "obeys I (remote_read err)" "obeys I (remote_source_checkpoint fp)" "obeys I (should_import_file sc m)"
  "obeys I count_imported" "obeys I (inventory_import_sources scans)"
  by (rule local_run; simp add: remote_read_def remote_source_checkpoint_def should_import_file_def
      count_imported_def inventory_import_sources_def split: prod.splits option.splits)+

lemma should_import: "obeys I (should_import sc)"
proof -
  have read: "obeys I (remote_checkpoint_state key)" for key
    unfolding remote_checkpoint_state_def by (intro and_then reads local_run) simp
  show ?thesis
    unfolding should_import_def by (intro and_then reads read, rule local_run) (auto simp: Let_def)
qed

lemma complete_source:
  assumes "good_key (sc_key sc)"
  shows "obeys I (complete_source sc)"
  unfolding complete_source_def
proof (intro and_then reads)
  fix current
  have "I s (snd (remote_store_checkpoint (sc_key sc) current (sc_now sc) s'))"
    if "rs_remote s' = rs_remote s" for s s'
    using local_step [OF that] checkpoint_step [OF assms] by (rule trans)
  then show "obeys I (\<lambda>s. case rs_pending s (sc_key sc) of
         None \<Rightarrow> (Inr (), s)
       | Some before \<Rightarrow>
           let s' = s\<lparr>rs_pending := (rs_pending s)(sc_key sc := None)\<rparr>
           in if pc_fingerprint before = current
              then remote_store_checkpoint (sc_key sc) current (sc_now sc) s'
              else (Inr (), s'))"
    by (auto simp: obeys_def Let_def local_step split: option.split)
qed

lemma files_to_import: "obeys I (files_to_import sc files)"
  by (induction files) (auto intro!: and_then finish reads)

lemma import_paths:
  assumes "good_scan sc"
  shows "obeys I (import_paths X n sc paths)"
  using assms push_step by (auto simp: obeys_def import_paths_def good_scan_def local_step split: sum.splits)

lemma import_chunks: "good_scan sc \<Longrightarrow> obeys I (import_chunks X n sc chunks)"
  by (induction chunks) (auto intro!: and_then finish import_paths)

lemma import_claude_files: "good_scan sc \<Longrightarrow> obeys I (import_claude_files X n sc files)"
  by (induction files) (auto intro!: and_then finish import_paths reads)

lemma import_source:
  assumes "good_scan sc"
  shows "obeys I (import_source X n sc)"
proof -
  note whole = complete_source [of sc] reads(4)
  have "obeys I (and_then (import_codex_tree_in_memory_chunks X n sc)
      (\<lambda>_. and_then (complete_source sc) (\<lambda>_. count_imported)))"
    "obeys I (and_then (import_claude_files X n sc (sc_files sc))
      (\<lambda>_. and_then (complete_source sc) (\<lambda>_. count_imported)))"
    unfolding import_codex_tree_in_memory_chunks_def
    using assms by (auto intro!: and_then whole files_to_import import_chunks import_claude_files simp: good_scan_def)
  moreover have "obeys I (and_then (persist X n store) (\<lambda>_. and_then (complete_source sc) (\<lambda>_. count_imported)))"
    if "sc_import sc paths = Inr store" for paths store
    using assms that by (intro and_then whole) (auto simp: obeys_def good_scan_def intro: push_step)
  ultimately show ?thesis
    unfolding obeys_def import_source_def
    by (auto simp: local_step split: source_kind.split sum.split import_error.split)
qed

lemma changed_sources: "obeys I (changed_sources scans)"
  by (induction scans) (auto intro!: and_then finish should_import)

lemma import_sources: "(\<And>sc. sc \<in> set scans \<Longrightarrow> good_scan sc) \<Longrightarrow> obeys I (import_sources X n scans)"
  by (induction scans) (auto intro!: and_then finish import_source)

lemma and_then_result:
  "obeys I f \<Longrightarrow> (\<And>s x s'. f s = (Inr x, s') \<Longrightarrow> obeys I (g x)) \<Longrightarrow> obeys I (and_then f g)"
  unfolding obeys_def and_then_def
  by (auto split: prod.splits sum.splits) (metis snd_conv trans)+

lemma changed_subset: "changed_sources scans s = (Inr changed, s') \<Longrightarrow> set changed \<subseteq> set scans"
  by (induction scans arbitrary: s changed s')
    (force simp: and_then_def finish_def split: prod.splits sum.splits if_splits)+

lemma whole_run:
  assumes "\<And>sc. sc \<in> set scans \<Longrightarrow> good_scan sc"
  shows "obeys I (run_turso_import_once X n scans)"
  unfolding run_turso_import_once_def
proof (intro and_then_result reads changed_sources)
  fix s changed s' s1 plans s2
  assume "changed_sources scans s = (Inr changed, s')" "inventory_import_sources changed s1 = (Inr plans, s2)"
  from changed_subset [OF this(1)] this(2) have "set plans \<subseteq> set scans"
    by (auto simp: inventory_import_sources_def)
  with assms show "obeys I (import_sources X n plans)" by (intro import_sources) auto
qed (rule local_run, simp)

end

definition remote_keeps :: "run_state \<Rightarrow> run_state \<Rightarrow> bool" where
  "remote_keeps s s' \<longleftrightarrow> (remote_ok (rs_remote s) \<longrightarrow>
     remote_ok (rs_remote s') \<and> remote_grows (rs_remote s) (rs_remote s'))"

definition checkpoint_of :: "string \<Rightarrow> run_state \<Rightarrow> checkpoint_row option" where
  "checkpoint_of key s = row_with fst key (rd_checkpoints (rs_remote s))"

lemma remote_grows_refl [simp]: "remote_grows D D" by (simp add: remote_grows_def)

lemma remote_grows_trans: "remote_grows D D1 \<Longrightarrow> remote_grows D1 D2 \<Longrightarrow> remote_grows D D2"
  unfolding remote_grows_def by (intro conjI; elim conjE; rule order_trans)

lemma push_grows:
  assumes "distinct (event_ids store)" "remote_ok D" "push X args store net D = (res, net', D')"
  shows "remote_grows D D'"
proof -
  from push_prefix [OF assms] obtain i where "merges (take i (push_rows X args store)) D D'" by blast
  with assms(2) show ?thesis by (rule merges_grows)
qed

lemma checkpoint_write_remote:
  "rd_events (rs_remote (snd (remote_store_checkpoint key f now s))) = rd_events (rs_remote s)"
  "rd_keys (rs_remote (snd (remote_store_checkpoint key f now s))) = rd_keys (rs_remote s)"
  "rd_search (rs_remote (snd (remote_store_checkpoint key f now s))) = rd_search (rs_remote s)"
  by (auto simp: remote_store_checkpoint_def split: prod.splits)

lemma persist_remote:
  "\<exists>res net. push X (import_push_args n) store (rs_calls s) (rs_remote s) = (res, net, rs_remote (snd (persist X n store s)))"
  by (auto simp: persist_def split: prod.splits sum.splits)

interpretation kept: run_relation remote_keeps "\<lambda>store. distinct (event_ids store)" "\<lambda>_. True"
proof
  show "remote_keeps s s1 \<Longrightarrow> remote_keeps s1 s2 \<Longrightarrow> remote_keeps s s2" for s s1 s2
    using remote_grows_trans by (auto simp: remote_keeps_def)
  show "rs_remote s' = rs_remote s \<Longrightarrow> remote_keeps s s'" for s s' by (simp add: remote_keeps_def)
  show "remote_keeps s (snd (persist X n store s))" if "distinct (event_ids store)" for X n store s
  proof -
    from persist_remote [of X n store s] obtain res net where pushed:
      "push X (import_push_args n) store (rs_calls s) (rs_remote s) = (res, net, rs_remote (snd (persist X n store s)))" by blast
    show ?thesis
      using push_ok [OF that _ pushed] push_grows [OF that _ pushed] by (simp add: remote_keeps_def)
  qed
  show "remote_keeps s (snd (remote_store_checkpoint key f now s))" for key f now s
    using checkpoint_write_remote [of key f now s]
    by (simp add: remote_keeps_def remote_ok_def keys_ok_def search_in_sync_def remote_grows_def)
qed

lemma persist_checkpoints:
  assumes "distinct (event_ids store)" "remote_ok (rs_remote s)"
  shows "rd_checkpoints (rs_remote (snd (persist X n store s))) = rd_checkpoints (rs_remote s)"
proof -
  from persist_remote [of X n store s] obtain res net where
    "push X (import_push_args n) store (rs_calls s) (rs_remote s) = (res, net, rs_remote (snd (persist X n store s)))" by blast
  from push_prefix [OF assms this] show ?thesis by (auto simp: merges_def)
qed

lemma checkpoint_write_row:
  "checkpoint_of k (snd (remote_store_checkpoint key f now s))
     \<in> {checkpoint_of k s, if k = key then Some (key, f, now) else checkpoint_of k s}"
  by (auto simp: remote_store_checkpoint_def checkpoint_of_def checkpoints.lookup_upsert replace_checkpoint_def
      split: prod.splits option.splits)

text \<open>A run touches the checkpoints of its own sources only.\<close>

interpretation other_checkpoints: run_relation
  "\<lambda>s s'. remote_keeps s s' \<and> (remote_ok (rs_remote s) \<longrightarrow> checkpoint_of k s' = checkpoint_of k s)"
  "\<lambda>store. distinct (event_ids store)" "\<lambda>key. key \<noteq> k" for k
proof
  let ?I = "\<lambda>s s'. remote_keeps s s' \<and> (remote_ok (rs_remote s) \<longrightarrow> checkpoint_of k s' = checkpoint_of k s)"
  show "?I s s1 \<Longrightarrow> ?I s1 s2 \<Longrightarrow> ?I s s2" for s s1 s2
    using kept.trans [of s s1 s2] by (auto simp: remote_keeps_def)
  show "rs_remote s' = rs_remote s \<Longrightarrow> ?I s s'" for s s' by (simp add: remote_keeps_def checkpoint_of_def)
  show "?I s (snd (persist X n store s))" if "distinct (event_ids store)" for X n store s
    using kept.push_step [OF that] persist_checkpoints [OF that] by (simp add: checkpoint_of_def)
  show "?I s (snd (remote_store_checkpoint key f now s))" if "key \<noteq> k" for key f now s
    using kept.checkpoint_step checkpoint_write_row [of k key f now s] that by auto
qed

section \<open>One source\<close>

definition wanted_file :: "pending_checkpoint \<Rightarrow> int option \<Rightarrow> bool" where
  "wanted_file p modified_at \<longleftrightarrow> (case pc_previous_updated_at_ms p of
       None \<Rightarrow> True
     | Some updated_at \<Rightarrow> (case modified_at of None \<Rightarrow> False | Some modified \<Rightarrow> updated_at < modified))"

definition wanted_paths :: "pending_checkpoint \<Rightarrow> (string \<times> int option) list \<Rightarrow> string list" where
  "wanted_paths p files = map fst (filter (\<lambda>file. wanted_file p (snd file)) files)"

text \<open>The batches of files that make the stores of a source.\<close>

definition source_batches :: "source_scan \<Rightarrow> pending_checkpoint \<Rightarrow> string list list" where
  "source_batches sc p = (case sc_kind sc of
       CodexTree \<Rightarrow> chunks_of 8 (wanted_paths p (sc_files sc))
     | ClaudeTree \<Rightarrow> map (\<lambda>path. [path]) (wanted_paths p (sc_files sc))
     | SingleSource \<Rightarrow> [map fst (sc_files sc)])"

definition all_uploaded :: "externals \<Rightarrow> nat \<Rightarrow> source_scan \<Rightarrow> string list list \<Rightarrow> remote_db \<Rightarrow> bool" where
  "all_uploaded X n sc batches D \<longleftrightarrow> (\<forall>paths \<in> set batches. \<exists>store. sc_import sc paths = Inr store
     \<and> (\<forall>r \<in> set (push_rows X (import_push_args n) store). covered r D))"

lemma all_uploaded_simps:
  "all_uploaded X n sc [] D"
  "all_uploaded X n sc (paths # batches) D \<longleftrightarrow> all_uploaded X n sc [paths] D \<and> all_uploaded X n sc batches D"
  by (simp_all add: all_uploaded_def)

lemma all_uploaded_grows: "remote_grows D D' \<Longrightarrow> all_uploaded X n sc batches D \<Longrightarrow> all_uploaded X n sc batches D'"
  unfolding all_uploaded_def using all_covered_grows by blast

text \<open>What a part of the work on a source leaves: the pending checkpoint and the checkpoints as they are,
  the remote database well-formed and grown.\<close>

definition quiet :: "run_state \<Rightarrow> run_state \<Rightarrow> bool" where
  "quiet s s' \<longleftrightarrow> rs_pending s' = rs_pending s \<and> rd_checkpoints (rs_remote s') = rd_checkpoints (rs_remote s)
     \<and> remote_ok (rs_remote s') \<and> remote_grows (rs_remote s) (rs_remote s')"

lemma quiet_trans: "quiet s s1 \<Longrightarrow> quiet s1 s2 \<Longrightarrow> quiet s s2"
  using remote_grows_trans by (auto simp: quiet_def)

lemma quiet_refl: "remote_ok (rs_remote s) \<Longrightarrow> quiet s s"
  by (simp add: quiet_def)

lemma and_then_eq:
  "and_then f g s = (r, s') \<longleftrightarrow>
     (\<exists>err. f s = (Inl err, s') \<and> r = Inl err) \<or> (\<exists>x s1. f s = (Inr x, s1) \<and> g x s1 = (r, s'))"
  by (auto simp: and_then_def split: prod.splits sum.splits)

lemma finish_eq: "finish x s = (r, s') \<longleftrightarrow> r = Inr x \<and> s' = s"
  by (auto simp: finish_def)

lemma should_import_file_eq:
  assumes "rs_pending s (sc_key sc) = Some p"
  shows "should_import_file sc m s =
    (if pc_previous_updated_at_ms p \<noteq> None \<and> m = None then Inl StatFailed else Inr (wanted_file p m), s)"
  using assms by (auto simp: should_import_file_def wanted_file_def split: option.splits)

lemma files_to_import_result:
  "files_to_import sc files s = (r, s') \<Longrightarrow> rs_pending s (sc_key sc) = Some p \<Longrightarrow>
     s' = s \<and> (\<forall>paths. r = Inr paths \<longrightarrow> paths = wanted_paths p files)"
  by (induction sc files arbitrary: r s' rule: files_to_import.induct)
    (auto simp: and_then_eq finish_eq should_import_file_eq wanted_paths_def split: if_splits)

lemma persist_result:
  assumes "persist X n store s = (r, s')" "distinct (event_ids store)" "remote_ok (rs_remote s)" "0 < n"
  shows "quiet s s' \<and> (r = Inr () \<longrightarrow> (\<forall>row \<in> set (push_rows X (import_push_args n) store). covered row (rs_remote s')))"
proof -
  obtain res net D where pushed: "push X (import_push_args n) store (rs_calls s) (rs_remote s) = (res, net, D)"
    by (metis prod_cases3)
  have s': "rs_remote s' = D" "rs_pending s' = rs_pending s" "r = Inr () \<Longrightarrow> \<exists>R. res = Inr R"
    using assms(1) pushed by (auto simp: persist_def split: sum.splits)
  have same: "rd_checkpoints (rs_remote s') = rd_checkpoints (rs_remote s)"
    using persist_checkpoints [OF assms(2,3), of X n] assms(1) by simp
  have size: "0 < pa_batch_size (import_push_args n)" using assms(4) by (simp add: import_push_args_def)
  have "\<forall>row \<in> set (push_rows X (import_push_args n) store). covered row D" if "res = Inr R" for R
    using merges_covers [OF assms(3) push_complete [OF assms(2,3) size pushed [unfolded that]]] by blast
  with s' same push_ok [OF assms(2,3) pushed] push_grows [OF assms(2,3) pushed] show ?thesis
    by (auto simp: quiet_def)
qed

definition good_stores :: "source_scan \<Rightarrow> bool" where
  "good_stores sc \<longleftrightarrow> (\<forall>paths store. sc_import sc paths = Inr store \<longrightarrow> distinct (event_ids store))"

lemma import_paths_result:
  assumes "import_paths X n sc paths s = (r, s')" "good_stores sc" "remote_ok (rs_remote s)" "0 < n"
  shows "quiet s s' \<and> (r = Inr () \<longrightarrow> all_uploaded X n sc [paths] (rs_remote s'))"
  using assms persist_result [of X n _ s r s'] quiet_refl
  by (auto simp: import_paths_def good_stores_def all_uploaded_def split: sum.splits)

lemma import_chunks_result:
  assumes "good_stores sc" "0 < n"
  shows "import_chunks X n sc chunks s = (r, s') \<Longrightarrow> remote_ok (rs_remote s) \<Longrightarrow>
    quiet s s' \<and> (r = Inr () \<longrightarrow> all_uploaded X n sc chunks (rs_remote s'))"
proof (induction chunks arbitrary: s r s')
  case Nil
  then show ?case by (simp add: finish_eq quiet_refl all_uploaded_simps)
next
  case (Cons paths chunks)
  obtain r1 s1 where first: "import_paths X n sc paths s = (r1, s1)" by force
  note one = import_paths_result [OF first assms(1) Cons.prems(2) assms(2)]
  show ?case
  proof (cases r1)
    case (Inl err)
    with Cons.prems(1) first one show ?thesis by (auto simp: and_then_eq)
  next
    case (Inr u)
    with Cons.prems(1) first have rest: "import_chunks X n sc chunks s1 = (r, s')" by (auto simp: and_then_eq)
    from one have "remote_ok (rs_remote s1)" by (simp add: quiet_def)
    note later = Cons.IH [OF rest this]
    then have "remote_grows (rs_remote s1) (rs_remote s')" by (simp add: quiet_def)
    with one later Inr quiet_trans all_uploaded_grows all_uploaded_simps(2) show ?thesis by (metis (full_types) old.unit.exhaust)
  qed
qed

lemma import_claude_result:
  assumes "good_stores sc" "0 < n"
  shows "import_claude_files X n sc files s = (r, s') \<Longrightarrow> rs_pending s (sc_key sc) = Some p \<Longrightarrow> remote_ok (rs_remote s) \<Longrightarrow>
    quiet s s' \<and> (r = Inr () \<longrightarrow>
      all_uploaded X n sc (map (\<lambda>path. [path]) (wanted_paths p files)) (rs_remote s'))"
proof (induction files arbitrary: s r s')
  case Nil
  then show ?case by (simp add: finish_eq quiet_refl all_uploaded_simps wanted_paths_def)
next
  case (Cons entry files)
  obtain path m where entry: "entry = (path, m)" by force
  show ?case
  proof (cases "pc_previous_updated_at_ms p \<noteq> None \<and> m = None")
    case True
    with Cons.prems entry show ?thesis by (auto simp: and_then_eq should_import_file_eq quiet_refl)
  next
    case False
    with Cons.prems entry have run: "and_then (if wanted_file p m then import_paths X n sc [path] else finish ())
        (\<lambda>_. import_claude_files X n sc files) s = (r, s')"
      by (auto simp: and_then_eq should_import_file_eq)
    show ?thesis
    proof (cases "wanted_file p m")
      case False
      with run have "import_claude_files X n sc files s = (r, s')" by (auto simp: and_then_eq finish_eq)
      from Cons.IH [OF this Cons.prems(2,3)] False entry show ?thesis by (simp add: wanted_paths_def)
    next
      case True
      obtain r1 s1 where first: "import_paths X n sc [path] s = (r1, s1)" by force
      note one = import_paths_result [OF first assms(1) Cons.prems(3) assms(2)]
      show ?thesis
      proof (cases r1)
        case (Inl err)
        with run True first one show ?thesis by (auto simp: and_then_eq)
      next
        case (Inr u)
        with run True first have rest: "import_claude_files X n sc files s1 = (r, s')" by (auto simp: and_then_eq)
        from one Cons.prems(2) have s1: "rs_pending s1 (sc_key sc) = Some p" "remote_ok (rs_remote s1)"
          by (simp_all add: quiet_def)
        note later = Cons.IH [OF rest this]
        then have grow: "remote_grows (rs_remote s1) (rs_remote s')" by (simp add: quiet_def)
        have paths: "wanted_paths p (entry # files) = path # wanted_paths p files"
          using True entry by (simp add: wanted_paths_def)
        have "quiet s s'" using one later quiet_trans by blast
        moreover have "all_uploaded X n sc ([path] # map (\<lambda>path. [path]) (wanted_paths p files)) (rs_remote s')"
          if "r = Inr ()"
        proof (rule iffD2 [OF all_uploaded_simps(2)])
          show "all_uploaded X n sc [[path]] (rs_remote s')
              \<and> all_uploaded X n sc (map (\<lambda>path. [path]) (wanted_paths p files)) (rs_remote s')"
            using that one later Inr all_uploaded_grows [OF grow] by simp
        qed
        ultimately show ?thesis by (simp add: paths)
      qed
    qed
  qed
qed

lemma complete_source_result:
  assumes "complete_source sc s = (r, s')" "rs_pending s (sc_key sc) = Some p"
  shows "rd_events (rs_remote s') = rd_events (rs_remote s) \<and> rd_keys (rs_remote s') = rd_keys (rs_remote s)
    \<and> (checkpoint_of (sc_key sc) s' = checkpoint_of (sc_key sc) s
       \<or> sc_after sc = Some (pc_fingerprint p)
         \<and> checkpoint_of (sc_key sc) s' = Some (sc_key sc, pc_fingerprint p, sc_now sc))"
proof (cases "sc_after sc")
  case None
  with assms show ?thesis by (auto simp: complete_source_def and_then_eq remote_source_checkpoint_def)
next
  case (Some current)
  let ?s = "s\<lparr>rs_pending := (rs_pending s)(sc_key sc := None)\<rparr>"
  have run: "(if pc_fingerprint p = current then remote_store_checkpoint (sc_key sc) current (sc_now sc) ?s
      else (Inr (), ?s)) = (r, s')"
    using assms Some by (auto simp: complete_source_def and_then_eq remote_source_checkpoint_def Let_def)
  show ?thesis
  proof (cases "pc_fingerprint p = current")
    case True
    with run have "s' = snd (remote_store_checkpoint (sc_key sc) current (sc_now sc) ?s)" by simp
    with True Some checkpoint_write_row [of "sc_key sc" "sc_key sc" current "sc_now sc" ?s]
      checkpoint_write_remote [of "sc_key sc" current "sc_now sc" ?s]
    show ?thesis by (auto simp: checkpoint_of_def)
  next
    case False
    with run show ?thesis by (auto simp: checkpoint_of_def)
  qed
qed

lemma all_uploaded_cong:
  "rd_events D = rd_events D' \<Longrightarrow> rd_keys D = rd_keys D' \<Longrightarrow> all_uploaded X n sc bs D = all_uploaded X n sc bs D'"
proof -
  assume "rd_events D = rd_events D'" "rd_keys D = rd_keys D'"
  then have "covered r D = covered r D'" for r by (cases "re_dedupe_key r") (simp_all add: covered_def)
  then show ?thesis by (simp add: all_uploaded_def)
qed

lemma work_result:
  assumes "and_then work (\<lambda>_. and_then (complete_source sc) (\<lambda>_. count_imported)) s = (r, s')"
    and "rs_pending s (sc_key sc) = Some p" "checkpoint_of (sc_key sc) s' \<noteq> checkpoint_of (sc_key sc) s"
    and "\<And>r1 s1. work s = (r1, s1) \<Longrightarrow> quiet s s1 \<and> (r1 = Inr () \<longrightarrow> all_uploaded X n sc batches (rs_remote s1))"
  shows "sc_after sc = Some (pc_fingerprint p)
    \<and> checkpoint_of (sc_key sc) s' = Some (sc_key sc, pc_fingerprint p, sc_now sc)
    \<and> all_uploaded X n sc batches (rs_remote s')"
proof -
  obtain r1 s1 where first: "work s = (r1, s1)" by force
  note one = assms(4) [OF first]
  then have same: "checkpoint_of (sc_key sc) s1 = checkpoint_of (sc_key sc) s" "rs_pending s1 (sc_key sc) = Some p"
    using assms(2) by (simp_all add: quiet_def checkpoint_of_def)
  show ?thesis
  proof (cases r1)
    case (Inl err)
    with assms(1) first have "s' = s1" by (auto simp: and_then_eq)
    with same(1) assms(3) show ?thesis by simp
  next
    case (Inr u)
    obtain r2 s2 where second: "complete_source sc s1 = (r2, s2)" by force
    have "rs_remote s' = rs_remote s2"
      using assms(1) first Inr second by (auto simp: and_then_eq count_imported_def)
    with complete_source_result [OF second same(2)] one Inr same(1) assms(3)
      all_uploaded_cong [of "rs_remote s'" "rs_remote s1" X n sc batches]
    show ?thesis by (auto simp: checkpoint_of_def)
  qed
qed

lemma import_source_result:
  assumes "import_source X n sc s = (r, s')" "rs_pending s (sc_key sc) = Some p"
    and "checkpoint_of (sc_key sc) s' \<noteq> checkpoint_of (sc_key sc) s"
    and "good_stores sc" "remote_ok (rs_remote s)" "0 < n"
  shows "sc_after sc = Some (pc_fingerprint p)
    \<and> checkpoint_of (sc_key sc) s' = Some (sc_key sc, pc_fingerprint p, sc_now sc)
    \<and> all_uploaded X n sc (source_batches sc p) (rs_remote s')"
proof (cases "sc_kind sc")
  case CodexTree
  have "quiet s s1 \<and> (r1 = Inr () \<longrightarrow> all_uploaded X n sc (source_batches sc p) (rs_remote s1))"
    if "import_codex_tree_in_memory_chunks X n sc s = (r1, s1)" for r1 s1
  proof -
    obtain r2 s2 where files: "files_to_import sc (sc_files sc) s = (r2, s2)" by force
    note spec = files_to_import_result [OF files assms(2)]
    show ?thesis
    proof (cases r2)
      case (Inl err)
      with that files spec assms(5) show ?thesis
        by (auto simp: import_codex_tree_in_memory_chunks_def and_then_eq quiet_refl)
    next
      case (Inr paths)
      with that files spec have "import_chunks X n sc (source_batches sc p) s = (r1, s1)"
        by (auto simp: import_codex_tree_in_memory_chunks_def and_then_eq source_batches_def CodexTree)
      from import_chunks_result [OF assms(4,6) this assms(5)] show ?thesis .
    qed
  qed
  with assms(1-3) CodexTree show ?thesis by (intro work_result) (simp_all add: import_source_def)
next
  case ClaudeTree
  have "quiet s s1 \<and> (r1 = Inr () \<longrightarrow> all_uploaded X n sc (source_batches sc p) (rs_remote s1))"
    if "import_claude_files X n sc (sc_files sc) s = (r1, s1)" for r1 s1
    using import_claude_result [OF assms(4,6) that assms(2,5)] by (simp add: source_batches_def ClaudeTree)
  with assms(1-3) ClaudeTree show ?thesis by (intro work_result) (simp_all add: import_source_def)
next
  case SingleSource
  let ?paths = "map fst (sc_files sc)"
  show ?thesis
  proof (cases "sc_import sc ?paths")
    case (Inl err)
    with assms(1,3) SingleSource show ?thesis
      by (cases err) (auto simp: import_source_def checkpoint_of_def)
  next
    case (Inr store)
    have "quiet s s1 \<and> (r1 = Inr () \<longrightarrow> all_uploaded X n sc (source_batches sc p) (rs_remote s1))"
      if "persist X n store s = (r1, s1)" for r1 s1
      using persist_result [OF that _ assms(5,6)] Inr assms(4)
      by (auto simp: source_batches_def SingleSource all_uploaded_def good_stores_def)
    with assms(1-3) SingleSource Inr show ?thesis by (intro work_result) (simp_all add: import_source_def)
  qed
qed

section \<open>Sources without changes\<close>

definition up_to_date :: "remote_db \<Rightarrow> source_scan \<Rightarrow> bool" where
  "up_to_date D sc \<longleftrightarrow> (\<exists>f t. sc_before sc = Some f \<and> row_with fst (sc_key sc) (rd_checkpoints D) = Some (sc_key sc, f, t))"

lemma remote_read_alone: "rs_calls s = [] \<Longrightarrow> remote_read err s = (Inr (), s)"
  by (simp add: remote_read_def)

lemma should_import_unchanged:
  "rs_calls s = [] \<Longrightarrow> rs_pending s = (\<lambda>_. None) \<Longrightarrow> up_to_date (rs_remote s) sc \<Longrightarrow>
     should_import sc s = (Inr False, s\<lparr>rs_unchanged := rs_unchanged s + 1\<rparr>)"
  by (auto simp: up_to_date_def should_import_def and_then_def remote_source_checkpoint_def remote_checkpoint_state_def
      remote_read_alone Let_def)

lemma changed_sources_unchanged:
  "rs_calls s = [] \<Longrightarrow> rs_pending s = (\<lambda>_. None) \<Longrightarrow> (\<And>sc. sc \<in> set scans \<Longrightarrow> up_to_date (rs_remote s) sc) \<Longrightarrow>
     changed_sources scans s = (Inr [], s\<lparr>rs_unchanged := rs_unchanged s + length scans\<rparr>)"
proof (induction scans arbitrary: s)
  case (Cons sc scans)
  have "changed_sources scans (s\<lparr>rs_unchanged := rs_unchanged s + 1\<rparr>)
      = (Inr [], s\<lparr>rs_unchanged := rs_unchanged s + 1 + length scans\<rparr>)"
    using Cons.prems by (subst Cons.IH) simp_all
  with should_import_unchanged [OF Cons.prems(1,2)] Cons.prems(3) show ?case
    by (simp add: and_then_def finish_def)
qed (simp add: finish_def)

lemma run_unchanged:
  assumes "\<And>sc. sc \<in> set scans \<Longrightarrow> up_to_date D sc"
  shows "run_turso_import_once X n scans (start_run [] D)
    = (Inr empty_report, (start_run [] D)\<lparr>rs_unchanged := length scans\<rparr>)"
  using changed_sources_unchanged [of "start_run [] D" scans] assms
  by (simp add: run_turso_import_once_def and_then_def remote_read_alone inventory_import_sources_def finish_def start_run_def)

lemma adopt_result:
  "rs_calls s = [] \<Longrightarrow> distinct (map sc_key scans) \<Longrightarrow> \<forall>sc \<in> set scans. sc_before sc \<noteq> None \<Longrightarrow>
     \<exists>s'. adopt_sources scans k s = (Inr (k + length scans), s')
       \<and> (\<forall>sc \<in> set scans. up_to_date (rs_remote s') sc)
       \<and> (\<forall>key. key \<notin> sc_key ` set scans \<longrightarrow> checkpoint_of key s' = checkpoint_of key s)"
proof (induction scans arbitrary: k s)
  case (Cons sc scans)
  then obtain f where f: "sc_before sc = Some f" by auto
  define s1 where "s1 = snd (remote_store_checkpoint (sc_key sc) f (sc_now sc) s)"
  have wrote: "remote_store_checkpoint (sc_key sc) f (sc_now sc) s = (Inr (), s1)" "rs_calls s1 = []"
      "checkpoint_of key s1 = (if key = sc_key sc then Some (sc_key sc, f, sc_now sc) else checkpoint_of key s)" for key
    using Cons.prems(1) by (auto simp: s1_def remote_store_checkpoint_def checkpoint_of_def checkpoints.lookup_upsert
        replace_checkpoint_def split: option.split)
  from Cons.IH [OF wrote(2), of "k + 1"] Cons.prems(2,3) obtain s' where s':
      "adopt_sources scans (k + 1) s1 = (Inr (k + 1 + length scans), s')"
      "\<forall>sc \<in> set scans. up_to_date (rs_remote s') sc"
      "\<forall>key. key \<notin> sc_key ` set scans \<longrightarrow> checkpoint_of key s' = checkpoint_of key s1" by auto
  have "sc_key sc \<notin> sc_key ` set scans" using Cons.prems(2) by simp
  with s'(3) wrote(3) have "checkpoint_of (sc_key sc) s' = Some (sc_key sc, f, sc_now sc)" by simp
  with f have "up_to_date (rs_remote s') sc" by (auto simp: up_to_date_def checkpoint_of_def)
  moreover have "adopt_sources (sc # scans) k s = (Inr (k + length (sc # scans)), s')"
    using f wrote(1) s'(1) by (simp add: and_then_def remote_source_checkpoint_def)
  ultimately show ?case using s'(2,3) wrote(3) by (intro exI [of _ s']) auto
qed (simp add: finish_def)

section \<open>The watch loop\<close>

definition gives_up :: "nat \<Rightarrow> (import_error + 'a) list \<Rightarrow> nat \<Rightarrow> bool" where
  "gives_up c results n \<longleftrightarrow> 1 \<le> n \<and> n \<le> length results \<and> 3 \<le> n + c \<and> (\<forall>i < n. n \<le> i + 3 \<longrightarrow> isl (results ! i))"

lemma less_Suc_all: "(\<forall>i < Suc n. P i) \<longleftrightarrow> P 0 \<and> (\<forall>i < n. P (Suc i))"
  by (metis less_Suc_eq_0_disj)

lemma gives_up_Inr: "gives_up c (Inr x # results) (Suc n) \<longleftrightarrow> gives_up 0 results n"
  unfolding gives_up_def less_Suc_all by auto

lemma gives_up_Inl: "c < 2 \<Longrightarrow> gives_up c (Inl x # results) (Suc n) \<longleftrightarrow> gives_up (Suc c) results n"
  unfolding gives_up_def less_Suc_all by auto

lemma gives_up_0 [simp]: "\<not> gives_up c results 0"
  by (simp add: gives_up_def)

lemma watch_loop_gives_up:
  "c < 3 \<Longrightarrow> watch_loop c results = Some (n, err) \<longleftrightarrow>
     gives_up c results n \<and> results ! (n - 1) = Inl err \<and> (\<forall>m < n. \<not> gives_up c results m)"
proof (induction c results arbitrary: n err rule: watch_loop.induct)
  case (1 c)
  then show ?case by (auto simp: gives_up_def)
next
  case (2 c x results)
  show ?case
  proof (cases n)
    case (Suc n')
    have "watch_loop c (Inr x # results) = Some (n, err) \<longleftrightarrow> watch_loop 0 results = Some (n', err)"
      using Suc by (auto simp: apfst_def)
    also have "\<dots> \<longleftrightarrow> gives_up 0 results n' \<and> results ! (n' - 1) = Inl err \<and> (\<forall>m < n'. \<not> gives_up 0 results m)"
      by (rule 2) simp
    finally show ?thesis
      by (cases n') (simp_all add: Suc gives_up_Inr less_Suc_all)
  qed auto
next
  case (3 c x results)
  show ?case
  proof (cases "c = 2")
    case True
    then have "gives_up c (Inl x # results) (Suc 0)" by (simp add: gives_up_def)
    with True show ?thesis
      by (cases n; cases "n - 1") (auto simp: REMOTE_SYNC_MAX_CONSECUTIVE_FAILURES_def less_Suc_all)
  next
    case False
    with 3 have c: "c < 2" "\<not> REMOTE_SYNC_MAX_CONSECUTIVE_FAILURES \<le> c + 1"
      by (simp_all add: REMOTE_SYNC_MAX_CONSECUTIVE_FAILURES_def)
    show ?thesis
    proof (cases n)
      case (Suc n')
      have "watch_loop c (Inl x # results) = Some (n, err) \<longleftrightarrow> watch_loop (c + 1) results = Some (n', err)"
        using Suc c(2) by (auto simp: apfst_def)
      also have "\<dots> \<longleftrightarrow> gives_up (c + 1) results n' \<and> results ! (n' - 1) = Inl err
          \<and> (\<forall>m < n'. \<not> gives_up (c + 1) results m)"
        by (rule 3(1)) (use c in auto)
      finally show ?thesis
        using c(1) by (cases n') (simp_all add: Suc gives_up_Inl less_Suc_all)
    qed (use c(2) in auto)
  qed
qed

section \<open>A source with one file\<close>

definition demo_scan :: "source_kind \<Rightarrow> string \<Rightarrow> int \<Rightarrow> source_scan" where
  "demo_scan kind fingerprint modified =
     \<lparr>sc_key = ''src'', sc_kind = kind, sc_before = Some fingerprint, sc_after = Some fingerprint,
      sc_inventoried = True, sc_files = [(''a'', Some modified)], sc_import = (\<lambda>_. Inr demo_store), sc_now = 50\<rparr>"

definition checkpointed :: "remote_db \<Rightarrow> string \<Rightarrow> int \<Rightarrow> remote_db" where
  "checkpointed D fingerprint now = D\<lparr>rd_checkpoints := [(''src'', fingerprint, now)]\<rparr>"

section \<open>Properties\<close>

text \<open>However an import into the remote database ends (a refused call, a lost answer, a failing
  source), the remote database stays well-formed, loses no event and no key, and the checkpoints of
  the sources it did not look at stay as they are.\<close>

theorem import_run_is_safe:
  assumes "\<And>sc paths store. sc \<in> set scans \<Longrightarrow> sc_import sc paths = Inr store \<Longrightarrow> distinct (event_ids store)"
    and "remote_ok (rs_remote s)" "run_turso_import_once X n scans s = (r, s')"
  shows "remote_ok (rs_remote s')
    \<and> set (remote_ids (rs_remote s)) \<subseteq> set (remote_ids (rs_remote s'))
    \<and> fst ` set (rd_keys (rs_remote s)) \<subseteq> fst ` set (rd_keys (rs_remote s'))
    \<and> (\<forall>k. k \<notin> sc_key ` set scans \<longrightarrow>
         row_with fst k (rd_checkpoints (rs_remote s')) = row_with fst k (rd_checkpoints (rs_remote s)))"
proof -
  have "obeys remote_keeps (run_turso_import_once X n scans)"
    by (rule kept.whole_run) (auto simp: kept.good_scan_def dest: assms(1))
  then have "remote_keeps s s'" using assms(3) unfolding obeys_def by (metis snd_conv)
  moreover have "row_with fst k (rd_checkpoints (rs_remote s')) = row_with fst k (rd_checkpoints (rs_remote s))"
    if "k \<notin> sc_key ` set scans" for k
  proof -
    have "obeys (\<lambda>s s'. remote_keeps s s' \<and> (remote_ok (rs_remote s) \<longrightarrow> checkpoint_of k s' = checkpoint_of k s))
        (run_turso_import_once X n scans)"
      by (rule other_checkpoints.whole_run) (use that in \<open>auto simp: other_checkpoints.good_scan_def dest: assms(1)\<close>)
    then show ?thesis using assms(2,3) unfolding obeys_def by (metis checkpoint_of_def snd_conv)
  qed
  ultimately show ?thesis using assms(2) by (simp add: remote_keeps_def remote_grows_def)
qed

theorem import_run_is_safe_witness:
  "remote_ok (rs_remote (snd (run_turso_import_once demo_externals 100 [demo_scan ClaudeTree ''f'' 7] (start_run [] demo_remote))))"
proof -
  have ok: "remote_ok (rs_remote (start_run [] demo_remote))"
    using push_ok [OF demo_distinct empty_remote_ok demo_push(1)] by (simp add: start_run_def demo_upload)
  obtain r s' where "run_turso_import_once demo_externals 100 [demo_scan ClaudeTree ''f'' 7] (start_run [] demo_remote) = (r, s')"
    by force
  from import_run_is_safe [OF _ ok this] this show ?thesis by (auto simp: demo_scan_def demo_distinct)
qed

text \<open>C14: The checkpoint of a source changes only when the source did not change during its import and
  everything the import chose was uploaded: the new checkpoint has the fingerprint of the start of
  the run, and every exportable event of every batch of chosen files is in the remote database or
  its key belongs to an event that is.\<close>

theorem checkpoint_only_after_upload:
  assumes "import_source X n sc s = (r, s')" "rs_pending s (sc_key sc) = Some p"
    and "row_with fst (sc_key sc) (rd_checkpoints (rs_remote s')) \<noteq> row_with fst (sc_key sc) (rd_checkpoints (rs_remote s))"
    and "\<And>paths store. sc_import sc paths = Inr store \<Longrightarrow> distinct (event_ids store)"
    and "remote_ok (rs_remote s)" "0 < n"
  shows "sc_after sc = Some (pc_fingerprint p)
    \<and> row_with fst (sc_key sc) (rd_checkpoints (rs_remote s')) = Some (sc_key sc, pc_fingerprint p, sc_now sc)
    \<and> (\<forall>paths \<in> set (source_batches sc p). \<exists>store. sc_import sc paths = Inr store
        \<and> (\<forall>r \<in> set (push_rows X (import_push_args n) store).
             case re_dedupe_key r of
               None \<Rightarrow> re_event_id r \<in> set (remote_ids (rs_remote s'))
             | Some k \<Rightarrow> k \<in> fst ` set (rd_keys (rs_remote s'))))"
proof -
  have "checkpoint_of (sc_key sc) s' \<noteq> checkpoint_of (sc_key sc) s" using assms(3) by (simp add: checkpoint_of_def)
  from import_source_result [OF assms(1,2) this _ assms(5,6)] assms(4) show ?thesis
    unfolding good_stores_def checkpoint_of_def all_uploaded_def covered_def by blast
qed

lemma demo_persist:
  "rs_calls s = [] \<Longrightarrow> rs_remote s = empty_remote \<Longrightarrow> persist demo_externals 100 demo_store s
     = (Inr (), s\<lparr>rs_calls := [], rs_remote := demo_remote, rs_report := add_report (rs_report s) one_event\<rparr>)"
  using demo_push(1) [of empty_remote] by (simp add: persist_def import_push_args_def demo_args_def demo_upload)

theorem checkpoint_only_after_upload_witness:
  "\<exists>s'. import_source demo_externals 100 (demo_scan SingleSource ''f'' 7)
      ((start_run [] empty_remote)\<lparr>rs_pending := (\<lambda>_. None)(''src'' \<mapsto>
         \<lparr>pc_fingerprint = ''f'', pc_previous_updated_at_ms = None\<rparr>)\<rparr>) = (Inr (), s')
    \<and> row_with fst ''src'' (rd_checkpoints (rs_remote s')) = Some (''src'', ''f'', 50)"
proof -
  let ?sc = "demo_scan SingleSource ''f'' 7" and ?p = "\<lparr>pc_fingerprint = ''f'', pc_previous_updated_at_ms = None\<rparr>"
  let ?s = "(start_run [] empty_remote)\<lparr>rs_pending := (\<lambda>_. None)(''src'' \<mapsto> ?p)\<rparr>"
  obtain s' where run: "import_source demo_externals 100 ?sc ?s = (Inr (), s')"
    and row: "rd_checkpoints (rs_remote s') = [(''src'', ''f'', 50)]"
    by (auto simp: import_source_def demo_scan_def and_then_def demo_persist start_run_def complete_source_def
        remote_source_checkpoint_def Let_def remote_store_checkpoint_def count_imported_def demo_remote_def upsert_row_def)
  have pending: "rs_pending ?s (sc_key ?sc) = Some ?p" by (simp add: demo_scan_def)
  have changed: "row_with fst (sc_key ?sc) (rd_checkpoints (rs_remote s'))
      \<noteq> row_with fst (sc_key ?sc) (rd_checkpoints (rs_remote ?s))"
    by (simp add: row row_with_def demo_scan_def start_run_def empty_remote_def)
  have stores: "distinct (event_ids store)" if "sc_import ?sc paths = Inr store" for paths store
    using that by (auto simp: demo_scan_def demo_distinct)
  have ok: "remote_ok (rs_remote ?s)" by (simp add: start_run_def empty_remote_ok)
  have "row_with fst (sc_key ?sc) (rd_checkpoints (rs_remote s')) = Some (sc_key ?sc, pc_fingerprint ?p, sc_now ?sc)"
    using checkpoint_only_after_upload [OF run pending changed stores ok] by simp
  with run show ?thesis by (intro exI [of _ s']) (simp add: demo_scan_def)
qed

text \<open>A run over sources whose fingerprints are those of their checkpoints changes nothing: it skips
  every source and uploads no event.\<close>

theorem unchanged_sources_are_skipped:
  assumes "\<And>sc. sc \<in> set scans \<Longrightarrow> \<exists>f t. sc_before sc = Some f
      \<and> row_with fst (sc_key sc) (rd_checkpoints D) = Some (sc_key sc, f, t)"
  shows "run_turso_import_once X n scans (start_run [] D)
    = (Inr empty_report, (start_run [] D)\<lparr>rs_unchanged := length scans\<rparr>)"
  using assms by (intro run_unchanged) (simp add: up_to_date_def)

theorem unchanged_sources_are_skipped_witness:
  "run_turso_import_once demo_externals 100 [demo_scan ClaudeTree ''f'' 7] (start_run [] (checkpointed demo_remote ''f'' 3))
     = (Inr empty_report, (start_run [] (checkpointed demo_remote ''f'' 3))\<lparr>rs_unchanged := 1\<rparr>)"
  using unchanged_sources_are_skipped [of "[demo_scan ClaudeTree ''f'' 7]" "checkpointed demo_remote ''f'' 3" demo_externals 100]
  by (simp add: demo_scan_def checkpointed_def row_with_def)

text \<open>C15: Files that were last modified no later than the checkpoint of their tree was written are taken
  as imported, whatever the fingerprint says: when the fingerprint of the tree changed by such files
  alone, a run uploads nothing, reports success and moves the checkpoint to the new fingerprint. A
  file that is written after the run computed its last fingerprint and before it took the time of the
  checkpoint, or that arrives with an old modification time, is never uploaded.\<close>

theorem late_file_is_marked_imported:
  assumes "row_with fst (sc_key sc) (rd_checkpoints D) = Some (sc_key sc, old, written)"
    and "sc_before sc = Some fingerprint" "sc_after sc = Some fingerprint" "fingerprint \<noteq> old"
    and "sc_kind sc \<noteq> SingleSource" "sc_inventoried sc"
    and "\<And>path m. (path, m) \<in> set (sc_files sc) \<Longrightarrow> \<exists>t. m = Some t \<and> t \<le> written"
  shows "\<exists>s'. run_turso_import_once X n [sc] (start_run [] D) = (Inr empty_report, s')
    \<and> rd_events (rs_remote s') = rd_events D \<and> rd_keys (rs_remote s') = rd_keys D \<and> rs_imported s' = 1
    \<and> row_with fst (sc_key sc) (rd_checkpoints (rs_remote s')) = Some (sc_key sc, fingerprint, sc_now sc)"
proof -
  let ?p = "\<lparr>pc_fingerprint = fingerprint, pc_previous_updated_at_ms = Some written\<rparr>"
  define s where "s = (start_run [] D)\<lparr>rs_pending := (\<lambda>_. None)(sc_key sc \<mapsto> ?p)\<rparr>"
  have s: "rs_pending s (sc_key sc) = Some ?p" "rs_calls s = []" "rs_remote s = D" by (simp_all add: s_def start_run_def)
  have "should_import sc (start_run [] D) = (Inr True, s)"
    using assms(1,2,4) by (simp add: s_def start_run_def should_import_def and_then_def remote_source_checkpoint_def
        remote_checkpoint_state_def remote_read_alone Let_def)
  then have changed: "changed_sources [sc] (start_run [] D) = (Inr [sc], s)"
    by (simp add: and_then_def finish_def)
  have unwanted: "should_import_file sc m s = (Inr False, s)" if "(path, m) \<in> set (sc_files sc)" for path m
    using assms(7) [OF that] s(1) by (auto simp: should_import_file_def)
  have "files_to_import sc files s = (Inr [], s)" if "set files \<subseteq> set (sc_files sc)" for files
    using that unwanted by (induction files) (auto simp: and_then_def finish_def)
  moreover have "import_claude_files X n sc files s = (Inr (), s)" if "set files \<subseteq> set (sc_files sc)" for files
    using that unwanted by (induction files) (auto simp: and_then_def finish_def)
  ultimately have "import_source X n sc s
      = and_then (complete_source sc) (\<lambda>_. count_imported) s"
    using assms(5) by (cases "sc_kind sc") (simp_all add: import_source_def and_then_def finish_def
        import_codex_tree_in_memory_chunks_def)
  then obtain s' where after: "import_source X n sc s = (Inr (), s')" "rs_imported s' = 1"
      "rs_report s' = empty_report" "rs_remote s' = D\<lparr>rd_checkpoints :=
         upsert_row fst replace_checkpoint (sc_key sc, fingerprint, sc_now sc) (rd_checkpoints D)\<rparr>"
    using assms(3) s by (simp add: and_then_def complete_source_def remote_source_checkpoint_def Let_def
        remote_store_checkpoint_def count_imported_def s_def start_run_def)
  then have "run_turso_import_once X n [sc] (start_run [] D) = (Inr empty_report, s')"
    unfolding run_turso_import_once_def and_then_def remote_read_alone [of "start_run [] D", unfolded start_run_def, simplified, folded start_run_def]
    using changed assms(6) by (simp add: inventory_import_sources_def finish_def and_then_def)
  with after assms(1) show ?thesis
    by (intro exI [of _ s']) (simp add: checkpoints.lookup_upsert replace_checkpoint_def)
qed

theorem late_file_is_marked_imported_witness:
  "\<exists>s'. run_turso_import_once demo_externals 100 [demo_scan ClaudeTree ''new'' 48] (start_run [] (checkpointed empty_remote ''old'' 49))
       = (Inr empty_report, s')
     \<and> rd_events (rs_remote s') = [] \<and> row_with fst ''src'' (rd_checkpoints (rs_remote s')) = Some (''src'', ''new'', 50)"
  using late_file_is_marked_imported [of "demo_scan ClaudeTree ''new'' 48" "checkpointed empty_remote ''old'' 49" "''old''" 49
      "''new''" demo_externals 100]
  by (auto simp: demo_scan_def checkpointed_def row_with_def empty_remote_def)

text \<open>Sources that were adopted as a snapshot's baseline are skipped by the next import as long as
  their fingerprints stay.\<close>

theorem adopted_sources_are_skipped:
  assumes "distinct (map sc_key scans)" "\<forall>sc \<in> set scans. sc_before sc \<noteq> None"
  shows "\<exists>s'. run_turso_adopt_snapshot True scans (start_run [] D) = (Inr (length scans), s')
    \<and> rd_events (rs_remote s') = rd_events D
    \<and> run_turso_import_once X n scans (start_run [] (rs_remote s'))
      = (Inr empty_report, (start_run [] (rs_remote s'))\<lparr>rs_unchanged := length scans\<rparr>)"
proof -
  have events: "rd_events (rs_remote (snd (adopt_sources scans k s))) = rd_events (rs_remote s)" for k s
  proof (induction scans arbitrary: k s)
    case (Cons sc scans)
    then show ?case
      using checkpoint_write_remote(1) [of "sc_key sc" _ "sc_now sc" s]
      by (auto simp: and_then_def remote_source_checkpoint_def split: prod.splits sum.splits option.splits)
        (metis snd_conv)+
  qed (simp add: finish_def)
  have "rs_calls (start_run [] D) = []" by (simp add: start_run_def)
  from adopt_result [OF this assms, of 0] obtain s' where s':
    "adopt_sources scans 0 (start_run [] D) = (Inr (length scans), s')" "\<forall>sc \<in> set scans. up_to_date (rs_remote s') sc"
    by auto
  have "run_turso_adopt_snapshot True scans (start_run [] D) = (Inr (length scans), s')"
    using s'(1) by (simp add: run_turso_adopt_snapshot_def and_then_def remote_read_alone start_run_def)
  moreover have "rd_events (rs_remote s') = rd_events D"
    using events [of 0 "start_run [] D"] s'(1) by (simp add: start_run_def)
  ultimately show ?thesis using run_unchanged [of scans "rs_remote s'"] s'(2) by blast
qed

theorem adopted_sources_are_skipped_witness:
  "\<exists>s'. run_turso_adopt_snapshot True [demo_scan CodexTree ''f'' 7] (start_run [] demo_remote) = (Inr 1, s')
     \<and> rd_events (rs_remote s') = [demo_row]"
  using adopted_sources_are_skipped [of "[demo_scan CodexTree ''f'' 7]" demo_remote demo_externals 100]
  by (auto simp: demo_scan_def demo_remote_def)

text \<open>The watch loop gives up after round \<open>n\<close>, with its error, exactly when rounds \<open>n - 2\<close>, \<open>n - 1\<close> and
  \<open>n\<close> failed and no earlier three rounds in a row did; a success in between resets the count.\<close>

theorem watch_loop_gives_up_after_three:
  "watch_loop 0 results = Some (n, err) \<longleftrightarrow>
     3 \<le> n \<and> n \<le> length results \<and> (\<forall>i < n. n \<le> i + 3 \<longrightarrow> isl (results ! i)) \<and> results ! (n - 1) = Inl err
     \<and> (\<forall>m < n. \<not> (3 \<le> m \<and> (\<forall>i < m. m \<le> i + 3 \<longrightarrow> isl (results ! i))))"
  using watch_loop_gives_up [of 0 results n err] unfolding gives_up_def by auto

theorem watch_loop_gives_up_after_three_witness:
  "watch_loop 0 [Inl SchemaFailed, Inl SchemaFailed, Inr (), Inl StatFailed, Inl StatFailed, Inl SchemaFailed, Inr ()]
     = Some (6, SchemaFailed)"
proof -
  let ?r = "[Inl SchemaFailed, Inl SchemaFailed, Inr (), Inl StatFailed, Inl StatFailed, Inl SchemaFailed, Inr ()]"
  have later: "i \<in> {3, 4, 5}" if "i < 6" "6 \<le> i + 3" for i :: nat using that by auto
  have "\<not> (\<forall>i < m. m \<le> i + 3 \<longrightarrow> isl (?r ! i))" if "3 \<le> m" "m < 6" for m
    using that by (intro notI) (drule spec [of _ 2], auto)
  moreover have "\<forall>i < 6. 6 \<le> i + 3 \<longrightarrow> isl (?r ! i)" using later by fastforce
  ultimately show ?thesis
    unfolding watch_loop_gives_up_after_three by auto
qed

end
