(* ===== verification/Turso_Project.thy ===== *)
theory Turso_Project
  imports Turso_Push Sql_Text
begin

text \<open>
  The projection of an imported snapshot (\<open>project\<close> of \<open>commands/turso.rs\<close>) and the search over snapshot
  and projection together (\<open>remote_snapshot_search\<close>, \<open>remote_projection_search\<close>). Full-text matching is
  SQLite's and is an argument, \<open>fts_match pattern text\<close>. Rows that SQL orders by time alone keep the
  order of their table.
\<close>

section \<open>The snapshot\<close>

text \<open>A row of the snapshot's \<open>events\<close> joined with the provider of its session, if it has one.\<close>

record snapshot_event =
  sv_id :: string
  sv_session_id :: "string option"
  sv_provider :: "string option"
  sv_role :: "string option"
  sv_event_type :: string
  sv_occurred_at_ms :: int
  sv_payload_json :: string
  sv_search_text :: string
  sv_deleted_at_ms :: "int option"

definition snapshot_row :: "snapshot_event \<Rightarrow> remote_event" where
  "snapshot_row e =
     \<lparr>re_event_id = sv_id e, re_session_id = sv_session_id e, re_provider = unwrap_or (sv_provider e) ''unknown'',
      re_role = sv_role e, re_event_type = sv_event_type e, re_occurred_at_ms = sv_occurred_at_ms e,
      re_dedupe_key = None, re_payload_json = sv_payload_json e, re_search_text = sv_payload_json e\<rparr>"

section \<open>Projecting\<close>

definition remote_max_event_id :: "remote_db \<Rightarrow> string option" where
  "remote_max_event_id D = (if rd_events D = [] then None else Some (Max (set (remote_ids D))))"

definition above :: "string option \<Rightarrow> string \<Rightarrow> bool" where
  "above after i = (case after of None \<Rightarrow> True | Some j \<Rightarrow> j < i)"

definition live_above :: "string option \<Rightarrow> snapshot_event list \<Rightarrow> snapshot_event list" where
  "live_above after S = sort_key sv_id (filter (\<lambda>e. sv_deleted_at_ms e = None \<and> above after (sv_id e)) S)"

text \<open>The two statements of a batch.\<close>

definition project_batch :: "nat \<Rightarrow> string option \<Rightarrow> snapshot_event list \<Rightarrow> remote_db \<Rightarrow> remote_db" where
  "project_batch n after S D =
     (let D1 = fold exec_stmt (map (\<lambda>e. InsertEvent (snapshot_row e)) (take n (live_above after S))) D;
          found = take n (sort_key re_event_id (filter (\<lambda>r. above after (re_event_id r)) (rd_events D1)))
      in D1\<lparr>rd_search := rd_search D1 @ map (\<lambda>r. (re_event_id r, re_search_text r)) found\<rparr>)"

datatype project_error = ProjectReadFailed | ProjectWriteFailed

text \<open>The loop, with a bound on its rounds; \<open>None\<close> stands for the bound being reached.\<close>

fun project_loop :: "nat \<Rightarrow> nat \<Rightarrow> nat option \<Rightarrow> snapshot_event list \<Rightarrow> nat \<Rightarrow> call_outcome list \<Rightarrow> remote_db
    \<Rightarrow> ((project_error + unit) \<times> call_outcome list \<times> remote_db) option" where
  "project_loop 0 n limit S projected net D = None"
| "project_loop (Suc rounds) n limit S projected net D =
     (if (case limit of None \<Rightarrow> False | Some l \<Rightarrow> l \<le> projected) then Some (Inr (), net, D)
      else case next_call net of
        (first, net1) \<Rightarrow> if first \<noteq> Completed then Some (Inl ProjectReadFailed, net1, D)
      else let after = remote_max_event_id D in case next_call net1 of
        (second, net2) \<Rightarrow>
          let D2 = (if second = Refused then D else project_batch n after S D)
          in if second \<noteq> Completed then Some (Inl ProjectWriteFailed, net2, D2)
          else case next_call net2 of
            (third, net3) \<Rightarrow> if third \<noteq> Completed then Some (Inl ProjectReadFailed, net3, D2)
          else if remote_max_event_id D2 = after then Some (Inr (), net3, D2)
          else project_loop rounds n limit S (projected + n) net3 D2)"

section \<open>Searching\<close>

definition by_time_desc :: "remote_event list \<Rightarrow> remote_event list" where
  "by_time_desc rows = sort_key (\<lambda>r. - re_occurred_at_ms r) rows"

record search_request =
  rq_query :: string
  rq_terms :: "string list"
  rq_limit :: nat
  rq_provider :: "string option"
  rq_session :: "string option"
  rq_event_type :: "string option"

definition request_terms :: "search_request \<Rightarrow> string list" where
  "request_terms q = map remote_fts_match_query (filter (\<lambda>t. t \<noteq> []) (map trim (rq_query q # rq_terms q)))"

definition passes :: "search_request \<Rightarrow> string option \<Rightarrow> string option \<Rightarrow> string \<Rightarrow> bool" where
  "passes q provider session event_type \<longleftrightarrow>
     (rq_provider q = None \<or> provider = rq_provider q)
     \<and> (case rq_session q of None \<Rightarrow> True
         | Some prefix \<Rightarrow> (case session of None \<Rightarrow> False | Some i \<Rightarrow> like_match None (prefix @ ''%'') i))
     \<and> (rq_event_type q = None \<or> rq_event_type q = Some event_type)"

definition request_pattern :: "search_request \<Rightarrow> string" where
  "request_pattern q = join '' OR '' (request_terms q)"

definition snapshot_passes :: "search_request \<Rightarrow> snapshot_event \<Rightarrow> bool" where
  "snapshot_passes q e \<longleftrightarrow> sv_deleted_at_ms e = None
     \<and> (rq_provider q = None \<or> sv_provider e = rq_provider q)
     \<and> passes (q\<lparr>rq_provider := None\<rparr>) None (sv_session_id e) (sv_event_type e)"

definition snapshot_hits :: "(string \<Rightarrow> string \<Rightarrow> bool) \<Rightarrow> snapshot_event list \<Rightarrow> search_request \<Rightarrow> remote_event list" where
  "snapshot_hits fts_match S q =
     map snapshot_row (filter (\<lambda>e. snapshot_passes q e
       \<and> (request_terms q = [] \<or> fts_match (request_pattern q) (sv_search_text e))) S)"

text \<open>The projection's part leaves out what the snapshot holds, deleted or not, and the events that do not
  own their key.\<close>

definition search_join :: "(string \<Rightarrow> string \<Rightarrow> bool) \<Rightarrow> string \<Rightarrow> remote_db \<Rightarrow> remote_event list" where
  "search_join fts_match pattern D =
     concat (map (\<lambda>(i, text). if fts_match pattern text then filter (\<lambda>r. re_event_id r = i) (rd_events D) else [])
       (rd_search D))"

definition remote_passes :: "search_request \<Rightarrow> remote_event \<Rightarrow> bool" where
  "remote_passes q r \<longleftrightarrow> passes q (Some (re_provider r)) (re_session_id r) (re_event_type r)"

definition projection_hits ::
    "(string \<Rightarrow> string \<Rightarrow> bool) \<Rightarrow> snapshot_event list \<Rightarrow> remote_db \<Rightarrow> search_request \<Rightarrow> remote_event list" where
  "projection_hits fts_match S D q =
     filter (\<lambda>r. re_event_id r \<notin> sv_id ` set S
         \<and> (case re_dedupe_key r of None \<Rightarrow> True | Some k \<Rightarrow> map_of (rd_keys D) k = Some (re_event_id r))
         \<and> remote_passes q r)
       (search_join fts_match (request_pattern q) D)"

definition remote_snapshot_search ::
    "(string \<Rightarrow> string \<Rightarrow> bool) \<Rightarrow> bool \<Rightarrow> snapshot_event list \<Rightarrow> remote_db \<Rightarrow> search_request \<Rightarrow> remote_event list" where
  "remote_snapshot_search fts_match has_projection S D q =
     (let results = take (rq_limit q) (by_time_desc (snapshot_hits fts_match S q))
      in if request_terms q \<noteq> [] \<and> has_projection
         then take (rq_limit q)
           (by_time_desc (results @ take (rq_limit q) (by_time_desc (projection_hits fts_match S D q))))
         else results)"

definition remote_projection_search ::
    "(string \<Rightarrow> string \<Rightarrow> bool) \<Rightarrow> bool \<Rightarrow> remote_db \<Rightarrow> search_request \<Rightarrow> remote_event list option" where
  "remote_projection_search fts_match has_projection D q =
     (if \<not> has_projection then None
      else Some (take (rq_limit q) (by_time_desc (filter (remote_passes q)
        (if request_terms q = [] then rd_events D else search_join fts_match (request_pattern q) D)))))"

section \<open>Lemmas on stable sorting\<close>

lemma sort_key_pivot:
  fixes f :: "'a \<Rightarrow> 'b::linorder"
  shows "sort_key f xs = sort_key f (filter (\<lambda>y. f y < c) xs) @ filter (\<lambda>y. f y = c) xs
    @ sort_key f (filter (\<lambda>y. c < f y) xs)" (is "_ = ?parts")
proof (rule properties_for_sort_key)
  show "mset ?parts = mset xs" by (rule multiset_eqI) auto
  show "filter (\<lambda>x. f k = f x) ?parts = filter (\<lambda>x. f k = f x) xs" for k
  proof -
    have "filter (\<lambda>x. f k = f x) (sort_key f ys) = filter (\<lambda>x. f k = f x) ys" for ys
      using sort_key_stable [of f "f k" ys] by (simp add: eq_commute)
    moreover have "filter (\<lambda>x. f x < c \<and> f k = f x) xs @ filter (\<lambda>x. f x = c \<and> f k = f x) xs
        @ filter (\<lambda>x. c < f x \<and> f k = f x) xs = filter (\<lambda>x. f k = f x) xs"
    proof -
      have "filter (\<lambda>x. R (f x) \<and> f k = f x) xs = (if R (f k) then filter (\<lambda>x. f k = f x) xs else [])" for R
        by (induction xs) auto
      from this [of "\<lambda>y. y < c"] this [of "\<lambda>y. y = c"] this [of "\<lambda>y. c < y"] show ?thesis
        by (cases "f k" c rule: linorder_cases) auto
    qed
    ultimately show ?thesis by simp
  qed
  show "sorted (map f ?parts)" by (auto simp: sorted_append intro: sorted_map_same)
qed

text \<open>An element with \<open>k\<close> predecessors that are not greater does not come among the first \<open>k\<close>.\<close>

lemma take_sort_key_drop:
  fixes f :: "'a \<Rightarrow> 'b::linorder"
  assumes "k \<le> length (filter (\<lambda>p. f p \<le> f x) P)"
  shows "take k (sort_key f (P @ x # Q)) = take k (sort_key f (P @ Q))"
proof -
  let ?low = "sort_key f (filter (\<lambda>y. f y < f x) (P @ Q))" and ?eq = "filter (\<lambda>y. f y = f x)"
  have "length (filter (\<lambda>p. f p \<le> f x) P) = length (filter (\<lambda>y. f y < f x) P) + length (?eq P)"
    by (induction P) auto
  with assms have "k \<le> length (?low @ ?eq P)" by simp
  moreover have "sort_key f (P @ x # Q) = (?low @ ?eq P) @ [x] @ ?eq Q @ sort_key f (filter (\<lambda>y. f x < f y) (P @ Q))"
    using sort_key_pivot [of f "P @ x # Q" "f x"] by simp
  moreover have "sort_key f (P @ Q) = (?low @ ?eq P) @ ?eq Q @ sort_key f (filter (\<lambda>y. f x < f y) (P @ Q))"
    using sort_key_pivot [of f "P @ Q" "f x"] by simp
  ultimately show ?thesis by (metis take_append diff_is_0_eq' take_0 append_Nil2)
qed

lemma take_sort_key_drop_all:
  fixes f :: "'a \<Rightarrow> 'b::linorder"
  assumes "k \<le> length P" "\<forall>p \<in> set P. \<forall>x \<in> set xs. f p \<le> f x"
  shows "take k (sort_key f (P' @ P @ xs @ Q)) = take k (sort_key f (P' @ P @ Q))"
  using assms(2)
proof (induction xs)
  case (Cons x xs)
  then have "filter (\<lambda>p. f p \<le> f x) P = P" by (simp add: filter_id_conv)
  with assms(1) have "k \<le> length (filter (\<lambda>p. f p \<le> f x) (P' @ P))" by simp
  from take_sort_key_drop [OF this, of "xs @ Q"] Cons show ?case by simp
qed simp

lemma sort_key_sorted_parts: "sort_key f (sort_key f A @ sort_key f B) = sort_key f (A @ B)"
proof (rule properties_for_sort_key)
  show "filter (\<lambda>x. f k = f x) (sort_key f (A @ B)) = filter (\<lambda>x. f k = f x) (sort_key f A @ sort_key f B)" for k
    using sort_key_stable [of f "f k"] by (simp add: eq_commute [of "f k"])
qed simp_all

text \<open>The first \<open>k\<close> of two sorted results are found among the first \<open>k\<close> of each.\<close>

lemma top_of_parts:
  fixes f :: "'a \<Rightarrow> 'b::linorder"
  shows "take k (sort_key f (take k (sort_key f A) @ take k (sort_key f B))) = take k (sort_key f (A @ B))"
proof -
  let ?A = "sort_key f A" and ?B = "sort_key f B"
  have parts: "\<forall>p \<in> set (take k xs). \<forall>x \<in> set (drop k xs). f p \<le> f x" if "sorted (map f xs)" for xs
  proof -
    have "sorted (map f (take k xs) @ map f (drop k xs))" using that by (simp flip: map_append)
    then show ?thesis by (auto simp: sorted_append)
  qed
  have "take k (sort_key f (A @ B)) = take k (sort_key f (take k ?A @ drop k ?A @ ?B))"
    by (simp add: sort_key_sorted_parts flip: append_assoc)
  also have "\<dots> = take k (sort_key f (take k ?A @ ?B))"
  proof (cases "k \<le> length ?A")
    case True
    then show ?thesis using take_sort_key_drop_all [of k "take k ?A" "drop k ?A" f "[]" ?B] parts [of ?A] by simp
  qed simp
  also have "\<dots> = take k (sort_key f (take k ?A @ take k ?B @ drop k ?B @ []))" by simp
  also have "\<dots> = take k (sort_key f (take k ?A @ take k ?B @ []))"
  proof (cases "k \<le> length ?B")
    case True
    then show ?thesis by (intro take_sort_key_drop_all parts) simp_all
  qed simp
  finally show ?thesis by simp
qed

section \<open>What a projection adds\<close>

lemma live_above_props:
  assumes "distinct (map sv_id S)"
  shows "sorted (map sv_id (live_above after S))" "distinct (map sv_id (live_above after S))"
    "e \<in> set (live_above after S) \<Longrightarrow> above after (sv_id e)"
proof -
  show "sorted (map sv_id (live_above after S))" by (simp add: live_above_def)
  have "distinct (map sv_id (filter (\<lambda>e. sv_deleted_at_ms e = None \<and> above after (sv_id e)) S))"
    using assms by (rule distinct_map_filter)
  then show "distinct (map sv_id (live_above after S))"
    by (simp only: live_above_def distinct_map distinct_sort set_sort)
  show "e \<in> set (live_above after S) \<Longrightarrow> above after (sv_id e)" by (simp add: live_above_def)
qed

lemma above_max_fresh: "above (remote_max_event_id D) i \<Longrightarrow> i \<notin> set (remote_ids D)"
proof
  assume above: "above (remote_max_event_id D) i" and old: "i \<in> set (remote_ids D)"
  from old have "rd_events D \<noteq> []" by auto
  with above have "Max (set (remote_ids D)) < i" by (simp add: above_def remote_max_event_id_def)
  with Max_ge [OF _ old] show False by simp
qed

lemma insert_rows:
  "distinct (map sv_id es) \<Longrightarrow> \<forall>e \<in> set es. sv_id e \<notin> set (remote_ids D) \<Longrightarrow>
     fold exec_stmt (map (\<lambda>e. InsertEvent (snapshot_row e)) es) D = D\<lparr>rd_events := rd_events D @ map snapshot_row es\<rparr>"
proof (induction es arbitrary: D)
  case (Cons e es)
  have "exec_stmt (InsertEvent (snapshot_row e)) D = D\<lparr>rd_events := rd_events D @ [snapshot_row e]\<rparr>"
    using Cons.prems by (simp add: snapshot_row_def)
  moreover have "\<forall>x \<in> set es. sv_id x \<notin> set (remote_ids (D\<lparr>rd_events := rd_events D @ [snapshot_row e]\<rparr>))"
    using Cons.prems by (auto simp: snapshot_row_def) (metis imageI)
  ultimately show ?case using Cons.IH Cons.prems by simp
qed simp

abbreviation "search_row_of r \<equiv> (re_event_id r, re_search_text r)"

lemma project_batch_adds:
  assumes "distinct (map sv_id S)" "rows = map snapshot_row (take n (live_above (remote_max_event_id D) S))"
  shows "project_batch n (remote_max_event_id D) S D
    = D\<lparr>rd_events := rd_events D @ rows, rd_search := rd_search D @ map search_row_of rows\<rparr>"
proof -
  let ?after = "remote_max_event_id D" and ?es = "take n (live_above (remote_max_event_id D) S)"
  note live = live_above_props [OF assms(1), where after = ?after]
  have ids: "distinct (map sv_id ?es)" "sorted (map sv_id ?es)" "\<forall>e \<in> set ?es. above ?after (sv_id e)"
    using live by (auto simp: take_map [symmetric] sorted_wrt_take dest: in_set_takeD)
  have old: "\<not> above ?after (re_event_id r)" if "r \<in> set (rd_events D)" for r
    using above_max_fresh [of D "re_event_id r"] that by auto
  have "filter (\<lambda>r. above ?after (re_event_id r)) (rd_events D @ rows) = rows"
    using old ids(3) by (auto simp: assms(2) filter_empty_conv filter_id_conv snapshot_row_def)
  moreover have "sort_key re_event_id rows = rows"
    using ids(2) by (intro sort_key_id_if_sorted) (simp add: assms(2) snapshot_row_def comp_def)
  moreover have "length rows \<le> n" by (simp add: assms(2))
  ultimately show ?thesis
    using insert_rows [OF ids(1), of D] ids(3) above_max_fresh [of D]
    by (simp add: project_batch_def Let_def assms(2))
qed

lemma sorted_le_last: "sorted xs \<Longrightarrow> x \<in> set xs \<Longrightarrow> x \<le> last xs"
  by (induction xs) auto

lemma max_after_project:
  assumes "distinct (map sv_id S)" "take n (live_above (remote_max_event_id D) S) \<noteq> []"
  shows "remote_max_event_id (project_batch n (remote_max_event_id D) S D)
    = Some (sv_id (last (take n (live_above (remote_max_event_id D) S))))"
proof -
  let ?after = "remote_max_event_id D" and ?es = "take n (live_above (remote_max_event_id D) S)"
  let ?last = "sv_id (last ?es)"
  note live = live_above_props [OF assms(1), where after = ?after]
  have ids: "remote_ids (project_batch n ?after S D) = remote_ids D @ map sv_id ?es"
    unfolding project_batch_adds [OF assms(1) refl] by (simp add: snapshot_row_def comp_def)
  have mem: "last ?es \<in> set ?es" using assms(2) by simp
  have "sorted (map sv_id ?es)" using live(1) by (simp add: take_map [symmetric] sorted_wrt_take)
  then have "i \<le> ?last" if "i \<in> sv_id ` set ?es" for i
    using sorted_le_last [of "map sv_id ?es" i] that assms(2) by (simp add: last_map)
  moreover have "i \<le> ?last" if "i \<in> set (remote_ids D)" for i
  proof -
    from mem live(3) have "above ?after ?last" by (blast dest: in_set_takeD)
    with that have "Max (set (remote_ids D)) < ?last" by (auto simp: above_def remote_max_event_id_def split: if_splits)
    with Max_ge [OF _ that] show ?thesis by simp
  qed
  ultimately have "Max (set (remote_ids (project_batch n ?after S D))) = ?last"
    using mem by (intro Max_eqI) (auto simp only: ids set_append set_map image_iff Un_iff List.finite_set)
  moreover have "rd_events (project_batch n ?after S D) \<noteq> []" using ids assms(2) by auto
  ultimately show ?thesis by (simp add: remote_max_event_id_def)
qed

lemma live_above_next:
  assumes "distinct (map sv_id S)" "take n (live_above after S) \<noteq> []"
  shows "live_above (Some (sv_id (last (take n (live_above after S))))) S = drop n (live_above after S)"
proof -
  let ?L = "live_above after S"
  let ?last = "sv_id (last (take n ?L))"
  note live = live_above_props [OF assms(1), where after = after]
  have "last (take n ?L) \<in> set ?L" using assms(2) by (metis in_set_takeD last_in_set)
  then have "above after ?last" by (rule live(3))
  then have "filter (\<lambda>e. sv_deleted_at_ms e = None \<and> above (Some ?last) (sv_id e)) S
      = filter (\<lambda>e. ?last < sv_id e) (filter (\<lambda>e. sv_deleted_at_ms e = None \<and> above after (sv_id e)) S)"
    by (auto simp: filter_filter above_def intro!: filter_cong split: option.splits)
  then have "live_above (Some ?last) S = filter (\<lambda>e. ?last < sv_id e) ?L"
    by (simp add: live_above_def filter_sort)
  also have "\<dots> = drop n ?L" by (rule filter_after_last [OF live(1,2) assms(2)])
  finally show ?thesis .
qed

lemma project_loop_adds:
  assumes "distinct (map sv_id S)" "0 < n"
  shows "length (live_above (remote_max_event_id D) S) < rounds \<Longrightarrow>
    rows = map snapshot_row (live_above (remote_max_event_id D) S) \<Longrightarrow>
    project_loop rounds n None S projected [] D
      = Some (Inr (), [], D\<lparr>rd_events := rd_events D @ rows, rd_search := rd_search D @ map search_row_of rows\<rparr>)"
proof (induction rounds arbitrary: D projected rows)
  case (Suc rounds)
  let ?after = "remote_max_event_id D"
  let ?L = "live_above ?after S" and ?D2 = "project_batch n ?after S D"
  note batch = project_batch_adds [OF assms(1) refl, of n D]
  show ?case
  proof (cases "?L = []")
    case True
    then have "?D2 = D" using batch by simp
    with True Suc.prems(2) show ?thesis by (simp add: Let_def)
  next
    case False
    with assms(2) have some: "take n ?L \<noteq> []" by simp
    note max = max_after_project [OF assms(1) some]
    have "above ?after (sv_id (last (take n ?L)))"
      using live_above_props(3) [OF assms(1)] some by (metis in_set_takeD last_in_set)
    then have moved: "remote_max_event_id ?D2 \<noteq> ?after"
      by (auto simp: max above_def split: option.splits)
    have rest: "live_above (remote_max_event_id ?D2) S = drop n ?L"
      unfolding max by (rule live_above_next [OF assms(1) some])
    have "length (drop n ?L) < rounds" using Suc.prems(1) assms(2) False by (cases ?L) auto
    from Suc.IH [OF this [folded rest], of _ "projected + n", OF refl]
    have later: "project_loop rounds n None S (projected + n) [] ?D2 = Some (Inr (), [],
        ?D2\<lparr>rd_events := rd_events ?D2 @ map snapshot_row (drop n ?L),
          rd_search := rd_search ?D2 @ map search_row_of (map snapshot_row (drop n ?L))\<rparr>)"
      unfolding rest .
    have rows: "rows = map snapshot_row (take n ?L) @ map snapshot_row (drop n ?L)"
      using Suc.prems(2) by (simp flip: map_append)
    have "project_loop (Suc rounds) n None S projected [] D = project_loop rounds n None S (projected + n) [] ?D2"
      using moved by (simp add: Let_def)
    then show ?thesis unfolding later rows by (simp add: batch)
  qed
qed simp

text \<open>With the search table in step, the join finds every matching event once.\<close>

lemma filter_own_id: "distinct (map re_event_id rows) \<Longrightarrow> r \<in> set rows \<Longrightarrow> filter (\<lambda>s. re_event_id s = re_event_id r) rows = [r]"
proof (induction rows)
  case (Cons s rows)
  have fresh: "filter (\<lambda>t. re_event_id t = re_event_id s) rows = []"
    using Cons.prems(1) by (simp add: filter_empty_conv) (metis imageI)
  show ?case
  proof (cases "r = s")
    case True
    with fresh show ?thesis by simp
  next
    case False
    with Cons.prems have "r \<in> set rows" "re_event_id s \<noteq> re_event_id r" by auto
    with Cons show ?thesis by simp
  qed
qed simp

lemma search_join_mset:
  assumes "remote_ok D"
  shows "mset (search_join fts_match pattern D) = mset (filter (\<lambda>r. fts_match pattern (re_search_text r)) (rd_events D))"
proof -
  define g where "g = (\<lambda>(i, text). if fts_match pattern text then filter (\<lambda>r. re_event_id r = i) (rd_events D) else [])"
  from assms have ids: "distinct (remote_ids D)" and rows: "mset (rd_search D) = mset (search_rows (rd_events D))"
    by (simp_all add: remote_ok_def keys_ok_def search_in_sync_def)
  have "mset (concat (map g xs)) = (\<Sum>x\<in>#mset xs. mset (g x))" for xs by (induction xs) simp_all
  then have "mset (search_join fts_match pattern D) = mset (concat (map g (search_rows (rd_events D))))"
    by (simp add: search_join_def rows flip: g_def)
  also have "concat (map g (search_rows es)) = filter (\<lambda>r. fts_match pattern (re_search_text r)) es"
    if "set es \<subseteq> set (rd_events D)" for es
    using that by (induction es) (auto simp: search_rows_def g_def filter_own_id [OF ids])
  finally show ?thesis by simp
qed

lemma search_join_distinct:
  assumes "remote_ok D"
  shows "distinct (map re_event_id (search_join fts_match pattern D))"
proof -
  have "mset (map re_event_id (search_join fts_match pattern D))
      = mset (map re_event_id (filter (\<lambda>r. fts_match pattern (re_search_text r)) (rd_events D)))"
    using search_join_mset [OF assms, of fts_match pattern] by (metis mset_map)
  moreover have "distinct (remote_ids D)" using assms by (simp add: remote_ok_def keys_ok_def)
  ultimately show ?thesis using distinct_map_filter mset_eq_imp_distinct_iff by blast
qed

section \<open>Properties\<close>

text \<open>C22: The projection of a snapshot ends, and appends to the remote events and to the search table
  exactly the live events of the snapshot whose ids are above every remote id, in id order. On a
  fresh projection these are all live events; after a push has stored a high id, the snapshot's
  events below it are never projected.\<close>

theorem project_appends_above_max:
  assumes "distinct (map sv_id S)" "0 < n" "length S < rounds"
    and "rows = map snapshot_row (sort_key sv_id (filter (\<lambda>e. sv_deleted_at_ms e = None
           \<and> (\<forall>i \<in> set (remote_ids D). i < sv_id e)) S))"
  shows "project_loop rounds n None S 0 [] D
    = Some (Inr (), [], D\<lparr>rd_events := rd_events D @ rows,
        rd_search := rd_search D @ map (\<lambda>r. (re_event_id r, re_search_text r)) rows\<rparr>)"
proof -
  have "above (remote_max_event_id D) i \<longleftrightarrow> (\<forall>j \<in> set (remote_ids D). j < i)" for i
    by (cases "rd_events D = []") (auto simp: above_def remote_max_event_id_def)
  then have "rows = map snapshot_row (live_above (remote_max_event_id D) S)"
    by (simp add: assms(4) live_above_def)
  moreover have "length (live_above (remote_max_event_id D) S) < rounds"
    using assms(3) by (simp add: live_above_def order_le_less_trans [OF length_filter_le])
  ultimately show ?thesis by (intro project_loop_adds assms(1,2))
qed

definition demo_snapshot :: "string \<Rightarrow> snapshot_event" where
  "demo_snapshot i = \<lparr>sv_id = i, sv_session_id = None, sv_provider = Some ''codex'', sv_role = None,
     sv_event_type = ''notice'', sv_occurred_at_ms = 5, sv_payload_json = ''text'', sv_search_text = ''text'',
     sv_deleted_at_ms = None\<rparr>"

theorem project_appends_above_max_witness:
  "\<exists>D'. project_loop 3 1 None [demo_snapshot ''z'', demo_snapshot ''a''] 0 [] demo_remote = Some (Inr (), [], D')
     \<and> rd_events D' = [demo_row, snapshot_row (demo_snapshot ''z'')]"
proof -
  have order: "''u01'' < (''z'' :: string)" "\<not> ''u01'' < (''a'' :: string)" by simp_all
  have "distinct (map sv_id [demo_snapshot ''z'', demo_snapshot ''a''])" by (simp add: demo_snapshot_def)
  from project_appends_above_max [OF this, of 1 3 _ demo_remote, OF _ _ refl]
  show ?thesis by (simp add: demo_snapshot_def demo_remote_def demo_row_def order)
qed

text \<open>A search over snapshot and projection, which cuts each part at the limit before it merges them,
  finds what sorting all hits of both by time and cutting once would find; the answer is sorted, no
  longer than the limit, shows no event twice and only events that pass the filters of the request.\<close>

theorem remote_search_is_top_of_union:
  assumes "request_terms q \<noteq> []" "distinct (map sv_id S)" "remote_ok D"
    and "hits = snapshot_hits fts_match S q @ projection_hits fts_match S D q"
    and "results = remote_snapshot_search fts_match True S D q"
  shows "results = take (rq_limit q) (by_time_desc hits)
    \<and> sorted_wrt (\<lambda>r s. re_occurred_at_ms s \<le> re_occurred_at_ms r) results
    \<and> length results \<le> rq_limit q \<and> distinct (map re_event_id results)
    \<and> (\<forall>r \<in> set results. rq_event_type q = None \<or> rq_event_type q = Some (re_event_type r))"
proof -
  have results: "results = take (rq_limit q) (by_time_desc hits)"
    using assms(1) by (simp add: assms(4,5) remote_snapshot_search_def by_time_desc_def top_of_parts)
  have "sorted (map (\<lambda>r. - re_occurred_at_ms r) (by_time_desc hits))" by (simp add: by_time_desc_def)
  then have "sorted_wrt (\<lambda>r s. re_occurred_at_ms s \<le> re_occurred_at_ms r) (by_time_desc hits)"
    by (simp add: sorted_map)
  then have sorted: "sorted_wrt (\<lambda>r s. re_occurred_at_ms s \<le> re_occurred_at_ms r) results"
    unfolding results by (rule sorted_wrt_take)
  have "distinct (map re_event_id (snapshot_hits fts_match S q))"
    using distinct_map_filter [OF assms(2)] by (simp add: snapshot_hits_def snapshot_row_def comp_def)
  moreover have "distinct (map re_event_id (projection_hits fts_match S D q))"
    unfolding projection_hits_def by (rule distinct_map_filter [OF search_join_distinct [OF assms(3)]])
  moreover have "re_event_id ` set (snapshot_hits fts_match S q) \<inter> re_event_id ` set (projection_hits fts_match S D q) = {}"
  proof -
    have "re_event_id ` set (snapshot_hits fts_match S q) \<subseteq> sv_id ` set S"
      by (auto simp: snapshot_hits_def snapshot_row_def)
    moreover have "re_event_id ` set (projection_hits fts_match S D q) \<inter> sv_id ` set S = {}"
      by (auto simp: projection_hits_def)
    ultimately show ?thesis by blast
  qed
  ultimately have "distinct (map re_event_id hits)" by (simp add: assms(4))
  then have "distinct (map re_event_id (by_time_desc hits))"
    by (simp only: by_time_desc_def distinct_map distinct_sort set_sort)
  then have "distinct (map re_event_id results)" unfolding results by (simp add: take_map [symmetric])
  moreover have "\<forall>r \<in> set hits. rq_event_type q = None \<or> rq_event_type q = Some (re_event_type r)"
    by (auto simp: assms(4) snapshot_hits_def projection_hits_def snapshot_passes_def remote_passes_def passes_def
        snapshot_row_def)
  ultimately show ?thesis
    using results sorted by (auto simp: by_time_desc_def dest: in_set_takeD)
qed

theorem remote_search_is_top_of_union_witness:
  "length (remote_snapshot_search (\<lambda>_ _. True) True [demo_snapshot ''a'']
     (demo_remote) \<lparr>rq_query = ''hi'', rq_terms = [], rq_limit = 1, rq_provider = None, rq_session = None,
       rq_event_type = None\<rparr>) \<le> 1"
proof -
  let ?q = "\<lparr>rq_query = ''hi'', rq_terms = [], rq_limit = 1, rq_provider = None, rq_session = None,
       rq_event_type = None\<rparr>"
  have "trim ''hi'' = ''hi''" by (rule trim_graph) (simp_all add: is_graph_def)
  then have terms: "request_terms ?q \<noteq> []" by (simp add: request_terms_def)
  have "distinct (map sv_id [demo_snapshot ''a''])" by simp
  moreover have "remote_ok demo_remote"
    using push_ok [OF demo_distinct empty_remote_ok demo_push(1)] by (simp add: demo_upload)
  ultimately show ?thesis
    using remote_search_is_top_of_union [OF terms _ _ refl refl, of "[demo_snapshot ''a'']" demo_remote "\<lambda>_ _. True"]
    by simp
qed

end
