(* ===== verification/Search_Types.thy ===== *)
theory Search_Types
  imports Complex_Main Store_Events "HOL-Library.Multiset" "HOL-Library.Sublist"
begin

text \<open>
  The data of a search (crate \<open>ctx-history-search\<close>: \<open>model.rs\<close>, \<open>query.rs\<close>, \<open>packet.rs\<close>, and the
  records of \<open>ctx-history-core\<close> and \<open>ctx-history-store\<close> it reads): filters, options, hits, packets; and
  what a search takes from outside, the arithmetic of \<open>f32\<close>, the file system, the clock, and the
  queries that SQLite's full-text engine answers.
\<close>

section \<open>What a search takes from outside\<close>

text \<open>The operations of \<open>f32\<close> and \<open>f64\<close> are fields: \<open>en_num\<close> is the float next to a literal or to
  \<open>n as f32\<close>, \<open>en_less\<close> the comparison (false on NaN), \<open>en_total_less\<close> that of \<open>total_cmp\<close>.\<close>

record 'f search_env =
  en_unicode :: unicode
  en_externals :: externals
  en_path_exists :: "string \<Rightarrow> bool"
  en_now :: datetime
  en_num :: "rat \<Rightarrow> 'f"
  en_lowest :: "'f"
  en_add :: "'f \<Rightarrow> 'f \<Rightarrow> 'f"
  en_mul :: "'f \<Rightarrow> 'f \<Rightarrow> 'f"
  en_div :: "'f \<Rightarrow> 'f \<Rightarrow> 'f"
  en_neg :: "'f \<Rightarrow> 'f"
  en_as_f32 :: "'f \<Rightarrow> 'f"
  en_ln_1p :: "'f \<Rightarrow> 'f"
  en_max :: "'f \<Rightarrow> 'f \<Rightarrow> 'f"
  en_min :: "'f \<Rightarrow> 'f \<Rightarrow> 'f"
  en_less :: "'f \<Rightarrow> 'f \<Rightarrow> bool"
  en_total_less :: "'f \<Rightarrow> 'f \<Rightarrow> bool"

abbreviation en_zero :: "'f search_env \<Rightarrow> 'f" where
  "en_zero E \<equiv> en_num E 0"

definition en_clamp :: "'f search_env \<Rightarrow> rat \<Rightarrow> rat \<Rightarrow> 'f \<Rightarrow> 'f" where
  "en_clamp E lo hi x =
     (let x = (if en_less E x (en_num E lo) then en_num E lo else x)
      in if en_less E (en_num E hi) x then en_num E hi else x)"

definition en_of_nat :: "'f search_env \<Rightarrow> nat \<Rightarrow> 'f" where
  "en_of_nat E n = en_num E (of_nat n)"

text \<open>\<open>str::to_lowercase\<close>.\<close>

definition to_lowercase :: "'f search_env \<Rightarrow> string \<Rightarrow> string" where
  "to_lowercase E s = encode_utf8 (uc_lowercase (en_unicode E) (decode_utf8 s))"

section \<open>Orders\<close>

text \<open>\<open>Ordering\<close> with \<open>then_with\<close>, and the stable sort by a comparison.\<close>

datatype ordering = Less | Equal | Greater

definition then_with :: "ordering \<Rightarrow> ordering \<Rightarrow> ordering" where
  "then_with a b = (if a = Equal then b else a)"

definition compare_by :: "('a \<Rightarrow> 'a \<Rightarrow> bool) \<Rightarrow> 'a \<Rightarrow> 'a \<Rightarrow> ordering" where
  "compare_by lt a b = (if lt a b then Less else if lt b a then Greater else Equal)"

definition compare_ord :: "'a::linorder \<Rightarrow> 'a \<Rightarrow> ordering" where
  "compare_ord = compare_by (<)"

text \<open>\<open>None\<close> is below every \<open>Some\<close>.\<close>

definition compare_option :: "'a::linorder option \<Rightarrow> 'a option \<Rightarrow> ordering" where
  "compare_option a b =
     (case (a, b) of (None, None) \<Rightarrow> Equal | (None, Some _) \<Rightarrow> Less | (Some _, None) \<Rightarrow> Greater
      | (Some x, Some y) \<Rightarrow> compare_ord x y)"

fun insert_by :: "('a \<Rightarrow> 'a \<Rightarrow> ordering) \<Rightarrow> 'a \<Rightarrow> 'a list \<Rightarrow> 'a list" where
  "insert_by cmp x [] = [x]"
| "insert_by cmp x (y # ys) = (if cmp x y = Greater then y # insert_by cmp x ys else x # y # ys)"

definition sort_by :: "('a \<Rightarrow> 'a \<Rightarrow> ordering) \<Rightarrow> 'a list \<Rightarrow> 'a list" where
  "sort_by cmp xs = foldr (insert_by cmp) xs []"

lemma mset_insert_by [simp]: "mset (insert_by cmp x ys) = add_mset x (mset ys)"
  by (induction ys) auto

lemma mset_sort_by [simp]: "mset (sort_by cmp xs) = mset xs"
  by (induction xs) (simp_all add: sort_by_def)

lemma set_sort_by [simp]: "set (sort_by cmp xs) = set xs"
  by (metis mset_sort_by set_mset_mset)

lemma length_sort_by [simp]: "length (sort_by cmp xs) = length xs"
  by (metis mset_sort_by size_mset)

lemma distinct_map_sort_by [simp]: "distinct (map f (sort_by cmp xs)) = distinct (map f xs)"
  by (metis mset_map mset_sort_by mset_eq_imp_distinct_iff)

section \<open>Records\<close>

datatype context_citation_type =
    Citation_HistoryRecord | Citation_Session | Citation_Run | Citation_Event | Citation_VcsChange
  | Citation_Artifact | Citation_Summary | Citation_File

datatype history_record_link_target_type =
    LinkTarget_Session | LinkTarget_Run | LinkTarget_Event | LinkTarget_VcsWorkspace
  | LinkTarget_VcsChange | LinkTarget_Artifact

datatype search_result_mode = SessionsMode | EventsMode

datatype search_result_scope = SessionScope | EventScope

type_synonym context_links = unit

record history_record =
  hr_id :: uuid
  hr_title :: string
  hr_body :: string
  hr_tags :: "string list"
  hr_kind :: string
  hr_workspace :: "string option"
  hr_created_at :: datetime
  hr_updated_at :: datetime

record vcs_change =
  vc_id :: uuid
  vc_vcs_workspace_id :: uuid
  vc_kind :: vcs_change_kind
  vc_change_id :: string
  vc_parent_change_ids :: "string list"
  vc_branch_or_bookmark :: "string option"
  vc_tree_hash :: "string option"
  vc_author_time :: "datetime option"
  vc_confidence :: confidence
  vc_timestamps :: entity_timestamps
  vc_source_id :: "uuid option"
  vc_sync :: sync_metadata

record artifact =
  ar_id :: uuid
  ar_kind :: artifact_kind
  ar_blob_hash :: string
  ar_blob_path :: string
  ar_byte_size :: u64
  ar_media_type :: "string option"
  ar_preview_text :: "string option"
  ar_timestamps :: entity_timestamps
  ar_source_id :: "uuid option"
  ar_sync :: sync_metadata

record citation_reference =
  cr_target_type :: history_record_link_target_type
  cr_target_id :: uuid
  cr_label :: "string option"

record summary =
  su_id :: uuid
  su_history_record_id :: "uuid option"
  su_session_id :: "uuid option"
  su_kind :: summary_kind
  su_model_or_source :: "string option"
  su_text :: string
  su_citations :: "citation_reference list"
  su_timestamps :: entity_timestamps
  su_source_id :: "uuid option"
  su_sync :: sync_metadata

record context_citation =
  cc_citation_type :: context_citation_type
  cc_id :: uuid
  cc_label :: string
  cc_time :: datetime
  cc_provider :: "capture_provider option"
  cc_session_id :: "uuid option"
  cc_event_seq :: "u64 option"
  cc_raw_source_path :: "string option"
  cc_raw_source_exists :: "bool option"
  cc_cursor :: "string option"

record context_pagination =
  cp_cursor :: "string option"
  cp_has_more :: bool

record context_truncation =
  ct_truncated :: bool
  ct_omitted_results :: u32
  ct_reason :: "string option"

record 'f event_search_hit =
  eh_event_id :: uuid
  eh_history_record_id :: "uuid option"
  eh_session_id :: "uuid option"
  eh_session_parent_session_id :: "uuid option"
  eh_session_root_session_id :: "uuid option"
  eh_run_id :: "uuid option"
  eh_seq :: u64
  eh_event_type :: event_type
  eh_role :: "event_role option"
  eh_occurred_at :: datetime
  eh_preview :: string
  eh_score :: "'f"
  eh_provider :: "capture_provider option"
  eh_session_external_session_id :: "string option"
  eh_history_source :: "string option"
  eh_history_source_plugin :: "string option"
  eh_provider_key :: "string option"
  eh_source_id :: "string option"
  eh_source_format :: "string option"
  eh_agent_type :: "agent_type option"
  eh_session_is_primary :: "bool option"
  eh_cwd :: "string option"
  eh_raw_source_path :: "string option"
  eh_cursor :: "string option"
  eh_record_title :: "string option"
  eh_record_kind :: "string option"
  eh_record_workspace :: "string option"

record file_touch_scope =
  fs_history_record_ids :: "uuid set"
  fs_session_ids :: "uuid set"
  fs_run_ids :: "uuid set"
  fs_event_ids :: "uuid set"
  fs_source_ids :: "uuid set"

record provider_session_filter =
  psf_provider :: capture_provider
  psf_provider_session_id :: string
  psf_session_id :: "uuid option"

record search_filters =
  sf_session :: "uuid option"
  sf_provider :: "capture_provider option"
  sf_history_source :: "string option"
  sf_provider_key :: "string option"
  sf_source_id :: "string option"
  sf_source_format :: "string option"
  sf_repo :: "string option"
  sf_since :: "datetime option"
  sf_primary_only :: bool
  sf_include_subagents :: bool
  sf_event_type :: "event_type option"
  sf_file :: "string option"
  sf_exclude_provider_session :: "provider_session_filter option"

record packet_options =
  po_limit :: nat
  po_snippet_chars :: nat
  po_filters :: search_filters
  po_result_mode :: search_result_mode

record 'f search_packet_result =
  spr_record_id :: uuid
  spr_session_id :: "uuid option"
  spr_event_id :: "uuid option"
  spr_event_seq :: "u64 option"
  spr_title :: string
  spr_snippet :: string
  spr_rank :: "'f"
  spr_result_scope :: search_result_scope
  spr_more_matches_in_session :: nat
  spr_session_importance :: "'f"
  spr_provider :: "capture_provider option"
  spr_provider_session_id :: "string option"
  spr_history_source :: "string option"
  spr_history_source_plugin :: "string option"
  spr_provider_key :: "string option"
  spr_source_id :: "string option"
  spr_source_format :: "string option"
  spr_timestamp :: "datetime option"
  spr_cwd :: "string option"
  spr_raw_source_path :: "string option"
  spr_raw_source_exists :: "bool option"
  spr_cursor :: "string option"
  spr_why_matched :: "string list"
  spr_citations :: "context_citation list"
  spr_links :: context_links
  spr_visibility :: visibility

record 'f search_packet_t =
  sp_schema_version :: u32
  sp_query :: string
  sp_filters :: search_filters
  sp_generated_at :: datetime
  sp_results :: "'f search_packet_result list"
  sp_pagination :: context_pagination
  sp_truncation :: context_truncation

record 'f semantic_event_hit =
  seh_hit :: "'f event_search_hit"
  seh_similarity :: "'f"

record source_history_identity =
  shi_history_source :: "string option"
  shi_history_source_plugin :: "string option"
  shi_provider_key :: "string option"
  shi_source_id :: "string option"
  shi_source_format :: "string option"

record hit_metadata =
  hm_time :: datetime
  hm_provider :: "capture_provider option"
  hm_provider_session_id :: "string option"
  hm_history_source :: "string option"
  hm_history_source_plugin :: "string option"
  hm_provider_key :: "string option"
  hm_source_id :: "string option"
  hm_source_format :: "string option"
  hm_session_id :: "uuid option"
  hm_parent_session_id :: "uuid option"
  hm_root_session_id :: "uuid option"
  hm_event_id :: "uuid option"
  hm_event_seq :: "u64 option"
  hm_cwd :: "string option"
  hm_raw_source_path :: "string option"
  hm_raw_source_exists :: "bool option"
  hm_cursor :: "string option"

record record_context =
  rc_sessions :: "session list"
  rc_runs :: "run list"
  rc_events :: "event list"
  rc_artifacts :: "artifact list"
  rc_files_touched :: "file_touched list"
  rc_vcs_changes :: "vcs_change list"
  rc_summaries :: "summary list"
  rc_sources :: "(uuid \<times> capture_source) list"

record 'f search_section =
  ssn_reason :: string
  ssn_weight :: "'f"
  ssn_text :: string
  ssn_citation :: context_citation
  ssn_hit :: hit_metadata

record 'f candidate =
  ca_record :: history_record
  ca_context :: record_context
  ca_score :: "'f"
  ca_matched_term_count :: nat
  ca_why_matched :: "string list"
  ca_citations :: "context_citation list"
  ca_primary_hit :: "hit_metadata option"

record 'f candidate_search =
  cas_candidates :: "'f candidate list"
  cas_scan_budget_exhausted :: bool

record 'f hybrid_candidate =
  hc_result :: "'f search_packet_result"
  hc_lexical_score :: "'f option"
  hc_semantic_score :: "'f option"
  hc_occurred_at :: datetime
  hc_seq :: u64

section \<open>The store as a search sees it\<close>

text \<open>Sessions, runs, events, touched files and sources are read from the database; the other fields
  are the queries over tables that the model of the store leaves out and those of the full-text
  engine.\<close>

record 'f search_store =
  so_db :: db
  so_get_record :: "uuid \<Rightarrow> store_error + history_record"
  so_artifacts_for_record :: "uuid \<Rightarrow> store_error + artifact list"
  so_vcs_changes_for_record :: "uuid \<Rightarrow> store_error + vcs_change list"
  so_summaries_for_record :: "uuid \<Rightarrow> store_error + summary list"
  so_search_event_hits_page :: "string \<Rightarrow> nat \<Rightarrow> nat \<Rightarrow> store_error + 'f event_search_hit list"
  so_search_event_hits_page_prefer_conversation ::
    "string \<Rightarrow> nat \<Rightarrow> nat \<Rightarrow> store_error + 'f event_search_hit list"
  so_search_records :: "string \<Rightarrow> nat \<Rightarrow> store_error + history_record list"
  so_search_records_page :: "string \<Rightarrow> nat \<Rightarrow> nat \<Rightarrow> store_error + history_record list"

end
