(* ===== verification/Search_Filters.thy ===== *)
theory Search_Filters
  imports Search_Types
begin

text \<open>
  The filters of a search (\<open>filters.rs\<close>), the scope of a file filter (\<open>file_touch_scope\<close> in \<open>files.rs\<close> of
  the store) and the metadata a result shows of the source, session or event it comes from
  (\<open>source.rs\<close>).
\<close>

section \<open>The scope of a file filter\<close>

definition empty_scope :: file_touch_scope where
  "empty_scope = \<lparr>fs_history_record_ids = {}, fs_session_ids = {}, fs_run_ids = {}, fs_event_ids = {},
     fs_source_ids = {}\<rparr>"

definition scope_is_empty :: "file_touch_scope \<Rightarrow> bool" where
  "scope_is_empty sc \<longleftrightarrow>
     fs_history_record_ids sc = {} \<and> fs_session_ids sc = {} \<and> fs_run_ids sc = {} \<and> fs_event_ids sc = {}
     \<and> fs_source_ids sc = {}"

text \<open>The rows of the join for one touched file; a missing row of a \<open>LEFT JOIN\<close> is \<open>None\<close>, and there is
  one row for each session of the file's source.\<close>

definition joined_session :: "db \<Rightarrow> uuid option \<Rightarrow> session option" where
  "joined_session d i = Option.bind i (\<lambda>i. row_with se_id i (db_sessions d))"

definition file_scope_rows ::
    "db \<Rightarrow> file_touched \<Rightarrow> (uuid option \<times> uuid option \<times> uuid option \<times> uuid option \<times> uuid option) list" where
  "file_scope_rows d ft =
     (let e = Option.bind (ft_event_id ft) (\<lambda>i. row_with ev_id i (db_events d));
          r = Option.bind (ft_run_id ft) (\<lambda>i. row_with rn_id i (db_runs d));
          event_session = joined_session d (Option.bind e ev_session_id);
          run_session = joined_session d (Option.bind r rn_session_id);
          of_source = (if ft_source_id ft = None then []
             else filter (\<lambda>s. se_capture_source_id s = ft_source_id ft) (db_sessions d));
          source_sessions = (if of_source = [] then [None] else map Some of_source)
      in map (\<lambda>source_session.
           (or_else (ft_history_record_id ft)
              (or_else (Option.bind e ev_history_record_id)
              (or_else (Option.bind r rn_history_record_id)
              (or_else (Option.bind event_session se_history_record_id)
              (or_else (Option.bind run_session se_history_record_id)
                (Option.bind source_session se_history_record_id))))),
            or_else (Option.bind e ev_session_id)
              (or_else (Option.bind r rn_session_id) (map_option se_id source_session)),
            ft_run_id ft, ft_event_id ft, ft_source_id ft)) source_sessions)"

definition file_touch_scope_of :: "db \<Rightarrow> string \<Rightarrow> file_touch_scope" where
  "file_touch_scope_of d file =
     (case file_touch_match_values file of
        None \<Rightarrow> empty_scope
      | Some (exact, pat) \<Rightarrow>
          (let rows = concat (map (file_scope_rows d) (filter (file_matches exact pat) (db_files d)))
           in \<lparr>fs_history_record_ids = set (List.map_filter (\<lambda>(record_id, _). record_id) rows),
               fs_session_ids = set (List.map_filter (\<lambda>(_, session_id, _). session_id) rows),
               fs_run_ids = set (List.map_filter (\<lambda>(_, _, run_id, _). run_id) rows),
               fs_event_ids = set (List.map_filter (\<lambda>(_, _, _, event_id, _). event_id) rows),
               fs_source_ids = set (List.map_filter (\<lambda>(_, _, _, _, source_id). source_id) rows)\<rparr>))"

definition file_filter_scope :: "'f search_store \<Rightarrow> search_filters \<Rightarrow> file_touch_scope option" where
  "file_filter_scope S filters = map_option (file_touch_scope_of (so_db S)) (sf_file filters)"

section \<open>Sources and sessions\<close>

definition source_of_context :: "record_context \<Rightarrow> uuid \<Rightarrow> capture_source option" where
  "source_of_context context i = map_of (rc_sources context) i"

definition context_session :: "record_context \<Rightarrow> uuid \<Rightarrow> session option" where
  "context_session context i = row_with se_id i (rc_sessions context)"

definition as_object :: "json \<Rightarrow> json option" where
  "as_object v = (case v of JObj ms \<Rightarrow> Some v | _ \<Rightarrow> None)"

definition source_history_identity :: "capture_source \<Rightarrow> source_history_identity" where
  "source_history_identity source =
     (let metadata = sm_metadata (cs_sync source);
          source_metadata = Option.bind (jget metadata ''source_metadata'') as_object;
          of_source = (\<lambda>key. Option.bind source_metadata (\<lambda>m. jget m key));
          plugin = Option.bind (or_else (of_source ''ctx_history_plugin'') (jget metadata ''ctx_history_plugin''))
            as_object;
          custom = Option.bind (or_else (of_source ''ctx_history_jsonl_v1'') (jget metadata ''ctx_history_jsonl_v1''))
            as_object;
          str_of = (\<lambda>obj key. Option.bind obj (\<lambda>m. jget_str m key));
          plugin_name = str_of plugin ''plugin_name'';
          plugin_source_id = str_of plugin ''plugin_source_id''
      in \<lparr>shi_history_source = or_else (str_of plugin ''history_source'')
            (case (plugin_name, plugin_source_id) of
               (Some name, Some source_id) \<Rightarrow> Some (name @ ''/'' @ source_id) | _ \<Rightarrow> None),
          shi_history_source_plugin = plugin_name,
          shi_provider_key = str_of custom ''provider_key'',
          shi_source_id = str_of custom ''source_id'',
          shi_source_format = or_else (str_of custom ''source_format'')
            (or_else (str_of source_metadata ''source_format'') (jget_str metadata ''source_format''))\<rparr>)"

definition associated_session_for_source :: "uuid \<Rightarrow> record_context \<Rightarrow> session option" where
  "associated_session_for_source source_id context =
     or_else (List.find (\<lambda>s. se_capture_source_id s = Some source_id) (rc_sessions context))
       (Option.bind (source_of_context context source_id)
         (\<lambda>source. List.find
           (\<lambda>s. se_capture_source_id s = None \<and> se_provider s = csd_provider (cs_descriptor source)
             \<and> se_external_session_id s = csd_external_session_id (cs_descriptor source))
           (rc_sessions context)))"

definition associated_session :: "uuid option \<Rightarrow> uuid option \<Rightarrow> record_context \<Rightarrow> session option" where
  "associated_session session_id source_id context =
     or_else (Option.bind session_id (context_session context))
       (Option.bind source_id (\<lambda>i. associated_session_for_source i context))"

section \<open>Text filters\<close>

definition given_text :: "string option \<Rightarrow> string option" where
  "given_text v = opt_filter (\<lambda>t. t \<noteq> []) (map_option trim v)"

definition has_history_source_filter :: "search_filters \<Rightarrow> bool" where
  "has_history_source_filter filters \<longleftrightarrow>
     given_text (sf_history_source filters) \<noteq> None \<or> given_text (sf_provider_key filters) \<noteq> None
     \<or> given_text (sf_source_id filters) \<noteq> None \<or> given_text (sf_source_format filters) \<noteq> None"

definition equals_if_given :: "string option \<Rightarrow> string option \<Rightarrow> bool" where
  "equals_if_given wanted actual \<longleftrightarrow>
     (case given_text wanted of None \<Rightarrow> True | Some t \<Rightarrow> actual = Some t)"

definition source_identity_matches_history_source_filter ::
    "source_history_identity \<Rightarrow> search_filters \<Rightarrow> bool" where
  "source_identity_matches_history_source_filter identity filters \<longleftrightarrow>
     (case given_text (sf_history_source filters) of
        None \<Rightarrow> True
      | Some selector \<Rightarrow>
          shi_history_source identity = Some selector
          \<or> (case (shi_provider_key identity, shi_source_id identity) of
               (Some provider_key, Some source_id) \<Rightarrow> selector = provider_key @ ''/'' @ source_id
             | _ \<Rightarrow> False))
     \<and> equals_if_given (sf_provider_key filters) (shi_provider_key identity)
     \<and> equals_if_given (sf_source_id filters) (shi_source_id identity)
     \<and> equals_if_given (sf_source_format filters) (shi_source_format identity)"

definition source_matches_history_source_filter :: "capture_source \<Rightarrow> search_filters \<Rightarrow> bool" where
  "source_matches_history_source_filter source filters \<longleftrightarrow>
     source_identity_matches_history_source_filter (source_history_identity source) filters"

definition hit_matches_history_source_filter :: "hit_metadata \<Rightarrow> search_filters \<Rightarrow> bool" where
  "hit_matches_history_source_filter hit filters \<longleftrightarrow>
     \<not> has_history_source_filter filters
     \<or> source_identity_matches_history_source_filter
         \<lparr>shi_history_source = hm_history_source hit, shi_history_source_plugin = hm_history_source_plugin hit,
          shi_provider_key = hm_provider_key hit, shi_source_id = hm_source_id hit,
          shi_source_format = hm_source_format hit\<rparr> filters"

definition source_id_matches_history_source_filter ::
    "uuid option \<Rightarrow> record_context \<Rightarrow> search_filters \<Rightarrow> bool" where
  "source_id_matches_history_source_filter source_id context filters \<longleftrightarrow>
     \<not> has_history_source_filter filters
     \<or> (case Option.bind source_id (source_of_context context) of
          None \<Rightarrow> False | Some source \<Rightarrow> source_matches_history_source_filter source filters)"

section \<open>Excluded sessions and agents\<close>

definition excluded_session_tree_matches ::
    "provider_session_filter \<Rightarrow> uuid option \<Rightarrow> uuid option \<Rightarrow> uuid option \<Rightarrow> bool" where
  "excluded_session_tree_matches excluded session_id parent_session_id root_session_id \<longleftrightarrow>
     (case psf_session_id excluded of
        None \<Rightarrow> False
      | Some i \<Rightarrow> session_id = Some i \<or> parent_session_id = Some i \<or> root_session_id = Some i)"

definition event_hit_matches_excluded_provider_session ::
    "'f event_search_hit \<Rightarrow> search_filters \<Rightarrow> bool" where
  "event_hit_matches_excluded_provider_session hit filters \<longleftrightarrow>
     (case sf_exclude_provider_session filters of
        None \<Rightarrow> False
      | Some excluded \<Rightarrow>
          eh_provider hit = Some (psf_provider excluded)
            \<and> eh_session_external_session_id hit = Some (psf_provider_session_id excluded)
          \<or> excluded_session_tree_matches excluded (eh_session_id hit) (eh_session_parent_session_id hit)
              (eh_session_root_session_id hit))"

definition hit_matches_excluded_provider_session :: "hit_metadata \<Rightarrow> search_filters \<Rightarrow> bool" where
  "hit_matches_excluded_provider_session hit filters \<longleftrightarrow>
     (case sf_exclude_provider_session filters of
        None \<Rightarrow> False
      | Some excluded \<Rightarrow>
          hm_provider hit = Some (psf_provider excluded)
            \<and> hm_provider_session_id hit = Some (psf_provider_session_id excluded)
          \<or> excluded_session_tree_matches excluded (hm_session_id hit) (hm_parent_session_id hit)
              (hm_root_session_id hit))"

definition session_excluded :: "provider_session_filter \<Rightarrow> session \<Rightarrow> bool" where
  "session_excluded excluded s \<longleftrightarrow>
     se_provider s = psf_provider excluded
       \<and> se_external_session_id s = Some (psf_provider_session_id excluded)
     \<or> excluded_session_tree_matches excluded (Some (se_id s)) (se_parent_session_id s) (se_root_session_id s)"

definition context_has_excluded_provider_session :: "record_context \<Rightarrow> search_filters \<Rightarrow> bool" where
  "context_has_excluded_provider_session context filters \<longleftrightarrow>
     (case sf_exclude_provider_session filters of
        None \<Rightarrow> False | Some excluded \<Rightarrow> list_ex (session_excluded excluded) (rc_sessions context))"

definition session_is_primary :: "session \<Rightarrow> bool" where
  "session_is_primary s \<longleftrightarrow> se_is_primary s \<or> se_agent_type s = AgentType_Primary"

definition session_matches_agent_scope :: "session \<Rightarrow> search_filters \<Rightarrow> bool" where
  "session_matches_agent_scope s filters \<longleftrightarrow>
     sf_session filters = Some (se_id s)
     \<or> sf_include_subagents filters \<and> \<not> sf_primary_only filters
     \<or> session_is_primary s
     \<or> \<not> sf_primary_only filters \<and> se_agent_type s = AgentType_Unknown \<and> se_parent_session_id s = None"

definition event_hit_matches_agent_scope :: "'f event_search_hit \<Rightarrow> search_filters \<Rightarrow> bool" where
  "event_hit_matches_agent_scope hit filters \<longleftrightarrow>
     (if sf_session filters \<noteq> None \<and> sf_session filters = eh_session_id hit then True
      else if sf_include_subagents filters \<and> \<not> sf_primary_only filters then True
      else if eh_session_is_primary hit = Some True \<or> eh_agent_type hit = Some AgentType_Primary then True
      else if sf_primary_only filters then False
      else eh_session_is_primary hit = None \<and> eh_agent_type hit = None)"

definition record_text_matches_agent_scope :: "record_context \<Rightarrow> search_filters \<Rightarrow> bool" where
  "record_text_matches_agent_scope context filters \<longleftrightarrow>
     \<not> has_history_source_filter filters
     \<and> list_all (\<lambda>s. session_matches_agent_scope s filters) (rc_sessions context)"

definition item_matches_agent_scope ::
    "uuid option \<Rightarrow> uuid option \<Rightarrow> record_context \<Rightarrow> search_filters \<Rightarrow> bool" where
  "item_matches_agent_scope session_id source_id context filters \<longleftrightarrow>
     source_id_matches_history_source_filter
       (or_else source_id
         (Option.bind (Option.bind session_id (context_session context)) se_capture_source_id))
       context filters
     \<and> (case associated_session session_id source_id context of
          None \<Rightarrow> True | Some s \<Rightarrow> session_matches_agent_scope s filters)"

definition is_agent_history_bookkeeping_record :: "history_record \<Rightarrow> bool" where
  "is_agent_history_bookkeeping_record r \<longleftrightarrow>
     hr_kind r = ''agent_history'' \<or> list_ex (\<lambda>tag. tag = ''agent-history'') (hr_tags r)
     \<or> starts_with ''Indexed local agent history from '' (trim_start (hr_body r))
     \<or> starts_with ''Indexed custom agent history from '' (trim_start (hr_body r))"

section \<open>Events\<close>

definition file_scope_matches_hit :: "file_touch_scope \<Rightarrow> 'f event_search_hit \<Rightarrow> bool" where
  "file_scope_matches_hit sc hit \<longleftrightarrow>
     eh_event_id hit \<in> fs_event_ids sc
     \<or> (case eh_run_id hit of None \<Rightarrow> False | Some i \<Rightarrow> i \<in> fs_run_ids sc)
     \<or> (case eh_session_id hit of None \<Rightarrow> False | Some i \<Rightarrow> i \<in> fs_session_ids sc)
     \<or> (case eh_history_record_id hit of None \<Rightarrow> False | Some i \<Rightarrow> i \<in> fs_history_record_ids sc)"

definition contains_folded :: "'f search_env \<Rightarrow> string \<Rightarrow> string option \<Rightarrow> bool" where
  "contains_folded E part v =
     (case v of None \<Rightarrow> False | Some t \<Rightarrow> text_contains (to_lowercase E part) (to_lowercase E t))"

definition event_hit_matches_filters ::
    "'f search_env \<Rightarrow> 'f event_search_hit \<Rightarrow> search_filters \<Rightarrow> file_touch_scope option \<Rightarrow> bool" where
  "event_hit_matches_filters E hit filters file_scope =
     (if (case sf_session filters of None \<Rightarrow> False | Some i \<Rightarrow> eh_session_id hit \<noteq> Some i) then False
      else if event_hit_matches_excluded_provider_session hit filters then False
      else if (case sf_provider filters of None \<Rightarrow> False | Some p \<Rightarrow> eh_provider hit \<noteq> Some p) then False
      else if (case sf_since filters of None \<Rightarrow> False | Some t \<Rightarrow> eh_occurred_at hit < t) then False
      else if \<not> event_hit_matches_agent_scope hit filters then False
      else if (case sf_event_type filters of None \<Rightarrow> False | Some t \<Rightarrow> eh_event_type hit \<noteq> t) then False
      else if (case sf_repo filters of
            None \<Rightarrow> False
          | Some repo \<Rightarrow> \<not> list_ex (contains_folded E repo)
              [eh_cwd hit, eh_raw_source_path hit, eh_record_workspace hit]) then False
      else case file_scope of None \<Rightarrow> True | Some sc \<Rightarrow> file_scope_matches_hit sc hit)"

definition has_filters :: "search_filters \<Rightarrow> bool" where
  "has_filters filters \<longleftrightarrow>
     sf_session filters \<noteq> None \<or> sf_provider filters \<noteq> None \<or> sf_repo filters \<noteq> None
     \<or> sf_since filters \<noteq> None \<or> sf_primary_only filters \<or> \<not> sf_include_subagents filters
     \<or> sf_event_type filters \<noteq> None \<or> sf_file filters \<noteq> None
     \<or> sf_exclude_provider_session filters \<noteq> None \<or> has_history_source_filter filters"

section \<open>Records\<close>

definition in_scope :: "uuid option \<Rightarrow> uuid set \<Rightarrow> bool" where
  "in_scope i ids \<longleftrightarrow> (case i of None \<Rightarrow> False | Some i \<Rightarrow> i \<in> ids)"

definition record_context_matches_file_scope ::
    "file_touch_scope \<Rightarrow> history_record \<Rightarrow> record_context \<Rightarrow> bool" where
  "record_context_matches_file_scope sc r context \<longleftrightarrow>
     hr_id r \<in> fs_history_record_ids sc
     \<or> list_ex (\<lambda>s. se_id s \<in> fs_session_ids sc \<or> in_scope (se_capture_source_id s) (fs_source_ids sc))
         (rc_sessions context)
     \<or> list_ex (\<lambda>r. rn_id r \<in> fs_run_ids sc \<or> in_scope (rn_session_id r) (fs_session_ids sc)
           \<or> in_scope (rn_source_id r) (fs_source_ids sc)) (rc_runs context)
     \<or> list_ex (\<lambda>e. ev_id e \<in> fs_event_ids sc \<or> in_scope (ev_session_id e) (fs_session_ids sc)
           \<or> in_scope (ev_run_id e) (fs_run_ids sc) \<or> in_scope (ev_capture_source_id e) (fs_source_ids sc))
         (rc_events context)
     \<or> list_ex (\<lambda>f. in_scope (ft_source_id f) (fs_source_ids sc)) (rc_files_touched context)"

definition session_metadata_contains :: "'f search_env \<Rightarrow> string \<Rightarrow> session \<Rightarrow> bool" where
  "session_metadata_contains E repo s \<longleftrightarrow>
     (case jget (sm_metadata (se_sync s)) ''metadata'' of
        Some (JObj ms) \<Rightarrow>
          list_ex (\<lambda>(_, v). contains_folded E repo (Some (value_to_string (en_externals E) v))) ms
      | _ \<Rightarrow> False)"

definition record_matches_filters ::
    "'f search_env \<Rightarrow> history_record \<Rightarrow> record_context \<Rightarrow> search_filters \<Rightarrow> file_touch_scope option \<Rightarrow> bool" where
  "record_matches_filters E r context filters file_scope \<longleftrightarrow>
     (case sf_session filters of
        None \<Rightarrow> True
      | Some i \<Rightarrow>
          list_ex (\<lambda>s. se_id s = i) (rc_sessions context)
          \<or> list_ex (\<lambda>e. ev_session_id e = Some i) (rc_events context)
          \<or> list_ex (\<lambda>r. rn_session_id r = Some i) (rc_runs context))
     \<and> (case sf_exclude_provider_session filters of
          None \<Rightarrow> True
        | Some excluded \<Rightarrow>
            (let matched = length (filter (session_excluded excluded) (rc_sessions context))
             in \<not> (matched > 0 \<and> matched = length (rc_sessions context))))
     \<and> (case sf_provider filters of
          None \<Rightarrow> True
        | Some p \<Rightarrow>
            list_ex (\<lambda>s. se_provider s = p) (rc_sessions context)
            \<or> list_ex (\<lambda>(_, source). csd_provider (cs_descriptor source) = p) (rc_sources context))
     \<and> (\<not> has_history_source_filter filters
        \<or> list_ex (\<lambda>(_, source). source_matches_history_source_filter source filters) (rc_sources context))
     \<and> (case sf_since filters of
          None \<Rightarrow> True
        | Some since \<Rightarrow>
            since \<le> hr_updated_at r
            \<or> list_ex (\<lambda>e. since \<le> ev_occurred_at e) (rc_events context)
            \<or> list_ex (\<lambda>s. since \<le> se_started_at s
                \<or> (case se_ended_at s of None \<Rightarrow> False | Some ended \<Rightarrow> since \<le> ended)) (rc_sessions context))
     \<and> (\<not> (sf_primary_only filters \<or> \<not> sf_include_subagents filters)
        \<or> rc_sessions context = []
        \<or> list_ex (\<lambda>s. session_matches_agent_scope s filters) (rc_sessions context))
     \<and> (case sf_event_type filters of
          None \<Rightarrow> True | Some t \<Rightarrow> list_ex (\<lambda>e. ev_event_type e = t) (rc_events context))
     \<and> (case sf_repo filters of
          None \<Rightarrow> True
        | Some repo \<Rightarrow>
            contains_folded E repo (hr_workspace r)
            \<or> list_ex (session_metadata_contains E repo) (rc_sessions context)
            \<or> list_ex (\<lambda>(_, source). contains_folded E repo (csd_cwd (cs_descriptor source)))
                (rc_sources context))
     \<and> (case sf_file filters of
          None \<Rightarrow> True
        | Some file \<Rightarrow>
            (case file_scope of
               Some sc \<Rightarrow> record_context_matches_file_scope sc r context
             | None \<Rightarrow> list_ex (\<lambda>t. ft_path t = file \<or> suffix file (ft_path t) \<or> ft_old_path t = Some file)
                 (rc_files_touched context)))"

section \<open>Metadata of a hit\<close>

definition empty_hit :: "datetime \<Rightarrow> hit_metadata" where
  "empty_hit time =
     \<lparr>hm_time = time, hm_provider = None, hm_provider_session_id = None, hm_history_source = None,
      hm_history_source_plugin = None, hm_provider_key = None, hm_source_id = None, hm_source_format = None,
      hm_session_id = None, hm_parent_session_id = None, hm_root_session_id = None, hm_event_id = None,
      hm_event_seq = None, hm_cwd = None, hm_raw_source_path = None, hm_raw_source_exists = None,
      hm_cursor = None\<rparr>"

definition source_cursor :: "capture_source \<Rightarrow> string option" where
  "source_cursor source =
     Option.bind (jget (sm_metadata (cs_sync source)) ''cursor'')
       (\<lambda>cursor. Option.bind (jget cursor ''after'') (\<lambda>after. jget_str after ''cursor''))"

definition event_cursor :: "event \<Rightarrow> string option" where
  "event_cursor e =
     or_else (jget_str (ev_payload e) ''cursor'') (jget_str (sm_metadata (ev_sync e)) ''cursor'')"

text \<open>The session a hit belongs to, with and without its provider fields.\<close>

definition set_tree :: "session \<Rightarrow> hit_metadata \<Rightarrow> hit_metadata" where
  "set_tree s hit =
     hit\<lparr>hm_parent_session_id := se_parent_session_id s, hm_root_session_id := se_root_session_id s\<rparr>"

definition set_session :: "session \<Rightarrow> hit_metadata \<Rightarrow> hit_metadata" where
  "set_session s hit =
     (set_tree s hit)\<lparr>hm_provider := Some (se_provider s), hm_provider_session_id := se_external_session_id s\<rparr>"

definition source_hit :: "'f search_env \<Rightarrow> uuid option \<Rightarrow> datetime \<Rightarrow> record_context \<Rightarrow> hit_metadata" where
  "source_hit E source_id time context =
     (case Option.bind source_id (source_of_context context) of
        None \<Rightarrow> empty_hit time
      | Some source \<Rightarrow>
          (let descriptor = cs_descriptor source; identity = source_history_identity source;
               hit = (empty_hit time)
                 \<lparr>hm_provider := Some (csd_provider descriptor),
                  hm_provider_session_id := csd_external_session_id descriptor,
                  hm_history_source := shi_history_source identity,
                  hm_history_source_plugin := shi_history_source_plugin identity,
                  hm_provider_key := shi_provider_key identity, hm_source_id := shi_source_id identity,
                  hm_source_format := shi_source_format identity, hm_cwd := csd_cwd descriptor,
                  hm_raw_source_exists := map_option (en_path_exists E) (csd_raw_source_path descriptor),
                  hm_raw_source_path := csd_raw_source_path descriptor, hm_cursor := source_cursor source\<rparr>
           in case associated_session_for_source (cs_id source) context of
                None \<Rightarrow> hit
              | Some s \<Rightarrow> (set_session s hit)\<lparr>hm_session_id := Some (se_id s)\<rparr>))"

definition session_hit :: "'f search_env \<Rightarrow> session \<Rightarrow> record_context \<Rightarrow> hit_metadata" where
  "session_hit E s context =
     (let hit = (set_session s (source_hit E (se_capture_source_id s) (se_started_at s) context))
            \<lparr>hm_session_id := Some (se_id s)\<rparr>
      in if hm_cwd hit = None
         then hit\<lparr>hm_cwd := Option.bind (Option.bind (se_capture_source_id s) (source_of_context context))
                (\<lambda>source. csd_cwd (cs_descriptor source))\<rparr>
         else hit)"

definition run_hit :: "'f search_env \<Rightarrow> run \<Rightarrow> record_context \<Rightarrow> hit_metadata" where
  "run_hit E r context =
     (let hit = (source_hit E (rn_source_id r) (rn_started_at r) context)\<lparr>hm_session_id := rn_session_id r\<rparr>;
          hit = (case Option.bind (rn_session_id r) (context_session context) of
              None \<Rightarrow> hit
            | Some s \<Rightarrow> (set_tree s hit)
                \<lparr>hm_provider := or_else (hm_provider hit) (Some (se_provider s)),
                 hm_provider_session_id := or_else (hm_provider_session_id hit) (se_external_session_id s)\<rparr>)
      in hit\<lparr>hm_cwd := or_else (hm_cwd hit) (rn_cwd r)\<rparr>)"

definition event_hit :: "'f search_env \<Rightarrow> event \<Rightarrow> record_context \<Rightarrow> hit_metadata" where
  "event_hit E e context =
     (let source = source_hit E (ev_capture_source_id e) (ev_occurred_at e) context;
          hit = source\<lparr>hm_session_id := ev_session_id e, hm_event_id := Some (ev_id e),
            hm_event_seq := Some (ev_seq e), hm_cursor := or_else (event_cursor e) (hm_cursor source)\<rparr>
      in if hm_provider hit \<noteq> None then hit
         else case Option.bind (ev_session_id e) (context_session context) of
             None \<Rightarrow> hit
           | Some s \<Rightarrow> (set_tree s hit)
               \<lparr>hm_provider := Some (se_provider s),
                hm_provider_session_id := or_else (hm_provider_session_id hit) (se_external_session_id s)\<rparr>)"

definition artifact_hit :: "'f search_env \<Rightarrow> artifact \<Rightarrow> record_context \<Rightarrow> hit_metadata" where
  "artifact_hit E a context = source_hit E (ar_source_id a) (et_updated_at (ar_timestamps a)) context"

definition session_of_file_event :: "record_context \<Rightarrow> file_touched \<Rightarrow> uuid option" where
  "session_of_file_event context f =
     Option.bind (ft_event_id f) (\<lambda>i. Option.bind (row_with ev_id i (rc_events context)) ev_session_id)"

definition file_hit :: "'f search_env \<Rightarrow> file_touched \<Rightarrow> record_context \<Rightarrow> hit_metadata" where
  "file_hit E f context =
     (let hit = (source_hit E (ft_source_id f) (et_updated_at (ft_timestamps f)) context)
            \<lparr>hm_event_id := ft_event_id f, hm_session_id := session_of_file_event context f\<rparr>
      in case Option.bind (hm_session_id hit) (context_session context) of
           None \<Rightarrow> hit | Some s \<Rightarrow> set_session s hit)"

definition fits_provider_and_session :: "search_filters \<Rightarrow> capture_provider \<Rightarrow> uuid \<Rightarrow> bool" where
  "fits_provider_and_session filters p i \<longleftrightarrow>
     sf_provider filters \<in> {None, Some p} \<and> sf_session filters \<in> {None, Some i}"

definition record_context_display_hit ::
    "'f search_env \<Rightarrow> record_context \<Rightarrow> search_filters \<Rightarrow> datetime \<Rightarrow> hit_metadata" where
  "record_context_display_hit E context filters time =
     (case or_else
         (List.find (\<lambda>s. session_matches_agent_scope s filters
             \<and> fits_provider_and_session filters (se_provider s) (se_id s)
             \<and> hit_matches_history_source_filter (session_hit E s context) filters) (rc_sessions context))
         (List.find (\<lambda>s. session_matches_agent_scope s filters) (rc_sessions context)) of
        None \<Rightarrow> empty_hit time
      | Some s \<Rightarrow> session_hit E s context)"

section \<open>Lemmas\<close>

lemma no_filters_match:
  "\<not> has_filters filters \<Longrightarrow> event_hit_matches_filters E hit filters None"
  by (auto simp: has_filters_def event_hit_matches_filters_def event_hit_matches_excluded_provider_session_def
      event_hit_matches_agent_scope_def)

lemma matching_hit_not_excluded:
  "event_hit_matches_filters E hit filters sc \<Longrightarrow> \<not> event_hit_matches_excluded_provider_session hit filters"
  by (simp add: event_hit_matches_filters_def split: if_splits)

end
