(* ===== verification/Search_Ranking.thy ===== *)
theory Search_Ranking
  imports Search_Filters
begin

text \<open>
  The candidates of a search over history records: the terms of a query (\<open>query.rs\<close>), previews and
  snippets (\<open>snippets.rs\<close>), the sections of a record that are searched, their scores and the scan that
  collects candidates (\<open>ranking.rs\<close>).
\<close>

section \<open>Terms\<close>

text \<open>\<open>str::split\<close> by a predicate on characters.\<close>

fun split_where :: "(nat \<Rightarrow> bool) \<Rightarrow> cps \<Rightarrow> cps list" where
  "split_where p [] = [[]]"
| "split_where p (c # cs) =
     (if p c then [] # split_where p cs
      else case split_where p cs of [] \<Rightarrow> [[c]] | w # ws \<Rightarrow> (c # w) # ws)"

fun term_loop :: "'f search_env \<Rightarrow> string list \<Rightarrow> cps list \<Rightarrow> string list" where
  "term_loop E terms [] = terms"
| "term_loop E terms (w # ws) =
     (let term = to_lowercase E (trim (encode_utf8 w))
      in if term = [] \<or> \<not> list_ex (uc_alphanumeric (en_unicode E)) (decode_utf8 term) \<or> term \<in> set terms
         then term_loop E terms ws
         else term_loop E (terms @ [term]) ws)"

definition query_terms :: "'f search_env \<Rightarrow> string \<Rightarrow> string list" where
  "query_terms E query =
     term_loop E [] (split_where (\<lambda>c. \<not> uc_alphanumeric (en_unicode E) c \<and> c \<noteq> 95 \<and> c \<noteq> 45)
       (decode_utf8 query))"

fun composed_loop :: "'f search_env \<Rightarrow> string list \<Rightarrow> string list \<Rightarrow> string list" where
  "composed_loop E seen [] = []"
| "composed_loop E seen (v # vs) =
     (case non_blank v of
        None \<Rightarrow> composed_loop E seen vs
      | Some term \<Rightarrow>
          (let key = to_lowercase E term
           in if key \<in> set seen then composed_loop E seen vs else term # composed_loop E (key # seen) vs))"

definition composed_search_terms :: "'f search_env \<Rightarrow> string \<Rightarrow> string list \<Rightarrow> string list" where
  "composed_search_terms E query terms = composed_loop E [] (query # terms)"

section \<open>Snippets\<close>

definition joined :: "string list \<Rightarrow> string" where
  "joined parts = join '' '' (filter (\<lambda>p. trim p \<noteq> []) parts)"

definition truncate_chars :: "string \<Rightarrow> nat \<Rightarrow> string" where
  "truncate_chars input max_chars =
     (let chars = decode_utf8 input
      in if length chars \<le> max_chars then encode_utf8 chars else encode_utf8 (take max_chars chars) @ ''...'')"

definition take_chars_from :: "string \<Rightarrow> nat \<Rightarrow> nat \<Rightarrow> string" where
  "take_chars_from input start max_chars = encode_utf8 (take max_chars (drop start (decode_utf8 input)))"

definition local_snippet :: "string \<Rightarrow> nat \<Rightarrow> string" where
  "local_snippet input max_chars = truncate_chars (trim input) max_chars"

definition display_snippet :: "string \<Rightarrow> nat \<Rightarrow> string" where
  "display_snippet input max_chars = local_snippet input max_chars"

definition snippet_start :: "string list \<Rightarrow> string \<Rightarrow> nat" where
  "snippet_start terms lower =
     (case List.map_filter (\<lambda>t. find_text t lower) terms of [] \<Rightarrow> 0 | p # ps \<Rightarrow> foldl min p ps)"

definition matched_snippet :: "'f search_env \<Rightarrow> string \<Rightarrow> string list \<Rightarrow> nat \<Rightarrow> string" where
  "matched_snippet E input terms max_chars =
     (let body = trim input
      in if body = [] then []
         else
           let start = snippet_start terms (to_lowercase E body) - max_chars div 4;
               snippet = take_chars_from body start max_chars
           in local_snippet snippet max_chars)"

definition matching_term_count :: "'f search_env \<Rightarrow> string \<Rightarrow> string list \<Rightarrow> nat" where
  "matching_term_count E v terms =
     (let haystack = to_lowercase E v in length (filter (\<lambda>t. text_contains t haystack) terms))"

text \<open>\<open>preview_fragment\<close> is the \<open>event_preview_fragment\<close> of the projection, written out twice in the code.\<close>

definition event_value_preview :: "externals \<Rightarrow> json \<Rightarrow> string option" where
  "event_value_preview X v =
     (case v of
        JStr s \<Rightarrow> non_blank s
      | JObj ms \<Rightarrow>
          or_else (first_fragment X v
              [''text'', ''preview'', ''summary'', ''command'', ''output_preview'', ''output'', ''message''])
            (let structured = List.map_filter
                   (\<lambda>key. map_option (\<lambda>t. key @ '': '' @ t) (field_fragment X v key))
                   [''tool'', ''name'', ''arguments_preview'', ''status'']
             in if structured = [] then None else Some (join '' | '' structured))
      | _ \<Rightarrow> None)"

definition event_payload_preview :: "externals \<Rightarrow> json \<Rightarrow> string option" where
  "event_payload_preview X payload =
     or_else (Option.bind (jget payload ''body'') (event_value_preview X)) (event_value_preview X payload)"

definition event_preview_text :: "externals \<Rightarrow> event \<Rightarrow> string" where
  "event_preview_text X e =
     (case event_payload_preview X (ev_payload e) of
        Some preview \<Rightarrow> local_snippet preview 900
      | None \<Rightarrow>
          (case ev_payload e of
             JObj ms \<Rightarrow> local_snippet (value_to_string X (ev_payload e)) 900
           | JArr vs \<Rightarrow> local_snippet (value_to_string X (ev_payload e)) 900
           | _ \<Rightarrow> []))"

definition str_or_empty :: "string option \<Rightarrow> string" where
  "str_or_empty v = unwrap_or v []"

definition event_text :: "externals \<Rightarrow> event \<Rightarrow> string" where
  "event_text X e =
     joined [enum_as_str event_type_table (ev_event_type e),
       str_or_empty (map_option (enum_as_str event_role_table) (ev_role e)),
       event_preview_text X e, str_or_empty (ev_dedupe_key e)]"

definition event_weight :: "'f search_env \<Rightarrow> event \<Rightarrow> 'f" where
  "event_weight E e =
     (if ev_event_type e \<in> {EventType_Message, EventType_Summary} then en_num E 4
      else if ev_event_type e \<in> {EventType_ToolCall, EventType_ToolOutput} then en_num E (7 / 2)
      else if ev_event_type e \<in> {EventType_CommandStarted, EventType_CommandOutput, EventType_CommandFinished}
      then en_num E 3
      else en_num E 2)"

section \<open>The sections of a record\<close>

definition citation :: "context_citation_type \<Rightarrow> uuid \<Rightarrow> string \<Rightarrow> datetime \<Rightarrow> context_citation" where
  "citation citation_type i label time =
     \<lparr>cc_citation_type = citation_type, cc_id = i, cc_label = label, cc_time = time, cc_provider = None,
      cc_session_id = None, cc_event_seq = None, cc_raw_source_path = None, cc_raw_source_exists = None,
      cc_cursor = None\<rparr>"

definition record_section ::
    "'f search_env \<Rightarrow> history_record \<Rightarrow> hit_metadata \<Rightarrow> string \<Rightarrow> rat \<Rightarrow> string \<Rightarrow> string \<Rightarrow> 'f search_section" where
  "record_section E r record_hit reason weight text label =
     \<lparr>ssn_reason = reason, ssn_weight = en_num E weight, ssn_text = text,
      ssn_citation = citation Citation_HistoryRecord (hr_id r) label (hr_updated_at r), ssn_hit = record_hit\<rparr>"

definition record_sections ::
    "'f search_env \<Rightarrow> history_record \<Rightarrow> record_context \<Rightarrow> search_filters \<Rightarrow> 'f search_section list" where
  "record_sections E r context filters =
     (let event_type_search = sf_event_type filters \<noteq> None;
          record_hit = record_context_display_hit E context filters (hr_updated_at r);
          include_bookkeeping = \<not> is_agent_history_bookkeeping_record r;
          include_text = \<not> event_type_search \<and> include_bookkeeping
            \<and> record_text_matches_agent_scope context filters
            \<and> \<not> context_has_excluded_provider_session context filters
      in (if include_bookkeeping \<and> \<not> event_type_search
          then [record_section E r record_hit ''title'' 8 (hr_title r) ''session title''] else [])
       @ (if include_text
          then record_section E r record_hit ''primary_user_message'' 5 (hr_body r) ''session text''
            # map (\<lambda>tag. record_section E r record_hit ''tag'' 3 tag ''session tag'') (hr_tags r)
          else []))"

definition session_section :: "'f search_env \<Rightarrow> record_context \<Rightarrow> session \<Rightarrow> 'f search_section" where
  "session_section E context s =
     \<lparr>ssn_reason = ''session_metadata'', ssn_weight = en_num E (5 / 2),
      ssn_text = joined [provider_str (se_provider s), enum_as_str agent_type_table (se_agent_type s),
        enum_as_str session_status_table (se_status s), str_or_empty (se_external_session_id s),
        str_or_empty (se_external_agent_id s), str_or_empty (se_role_hint s)],
      ssn_citation = citation Citation_Session (se_id s) ''session'' (se_started_at s),
      ssn_hit = session_hit E s context\<rparr>"

definition run_section :: "'f search_env \<Rightarrow> record_context \<Rightarrow> run \<Rightarrow> 'f search_section" where
  "run_section E context r =
     \<lparr>ssn_reason = ''run_command'',
      ssn_weight = (if unwrap_or (rn_exit_code r) 0 = 0 then en_num E 3 else en_num E 4),
      ssn_text = joined [enum_as_str run_type_table (rn_run_type r), enum_as_str run_status_table (rn_status r),
        str_or_empty (rn_cwd r), str_or_empty (rn_command_preview r)],
      ssn_citation = citation Citation_Run (rn_id r) ''run command'' (rn_started_at r),
      ssn_hit = run_hit E r context\<rparr>"

definition event_section_reason :: "event_type \<Rightarrow> string" where
  "event_section_reason t =
     (case t of
        EventType_Message \<Rightarrow> ''message'' | EventType_ToolCall \<Rightarrow> ''tool_call''
      | EventType_ToolOutput \<Rightarrow> ''tool_output'' | EventType_CommandStarted \<Rightarrow> ''command_event''
      | EventType_CommandOutput \<Rightarrow> ''command_event'' | EventType_CommandFinished \<Rightarrow> ''command_event''
      | EventType_Summary \<Rightarrow> ''summary'' | EventType_Notice \<Rightarrow> ''notice'' | _ \<Rightarrow> ''event'')"

definition event_section :: "'f search_env \<Rightarrow> record_context \<Rightarrow> event \<Rightarrow> 'f search_section" where
  "event_section E context e =
     \<lparr>ssn_reason = event_section_reason (ev_event_type e), ssn_weight = event_weight E e,
      ssn_text = event_text (en_externals E) e,
      ssn_citation = citation Citation_Event (ev_id e) ''event'' (ev_occurred_at e),
      ssn_hit = event_hit E e context\<rparr>"

definition artifact_section :: "'f search_env \<Rightarrow> record_context \<Rightarrow> artifact \<Rightarrow> 'f search_section" where
  "artifact_section E context a =
     \<lparr>ssn_reason = ''artifact'', ssn_weight = en_num E (5 / 2),
      ssn_text = joined [enum_as_str artifact_kind_table (ar_kind a), str_or_empty (ar_media_type a),
        str_or_empty (ar_preview_text a), ar_blob_path a],
      ssn_citation = citation Citation_Artifact (ar_id a) ''artifact'' (et_updated_at (ar_timestamps a)),
      ssn_hit = artifact_hit E a context\<rparr>"

definition file_touched_search_text :: "file_touched \<Rightarrow> string" where
  "file_touched_search_text f =
     joined [ft_path f, str_or_empty (ft_old_path f),
       str_or_empty (map_option (enum_as_str file_change_kind_table) (ft_change_kind f))]"

definition file_section :: "'f search_env \<Rightarrow> record_context \<Rightarrow> file_touched \<Rightarrow> 'f search_section" where
  "file_section E context f =
     \<lparr>ssn_reason = ''file_touched'', ssn_weight = en_num E 3, ssn_text = file_touched_search_text f,
      ssn_citation = citation Citation_File (ft_id f) ''file touched'' (et_updated_at (ft_timestamps f)),
      ssn_hit = file_hit E f context\<rparr>"

definition vcs_section :: "'f search_env \<Rightarrow> record_context \<Rightarrow> vcs_change \<Rightarrow> 'f search_section" where
  "vcs_section E context c =
     (let time = unwrap_or (vc_author_time c) (et_updated_at (vc_timestamps c))
      in \<lparr>ssn_reason = ''vcs_change'', ssn_weight = en_num E 3,
          ssn_text = joined [enum_as_str vcs_change_kind_table (vc_kind c), vc_change_id c,
            str_or_empty (vc_branch_or_bookmark c), str_or_empty (vc_tree_hash c),
            join '' '' (vc_parent_change_ids c)],
          ssn_citation = citation Citation_VcsChange (vc_id c) ''vcs change'' time,
          ssn_hit = source_hit E (vc_source_id c) time context\<rparr>)"

definition summary_section :: "'f search_env \<Rightarrow> record_context \<Rightarrow> summary \<Rightarrow> 'f search_section" where
  "summary_section E context s =
     \<lparr>ssn_reason = ''summary'', ssn_weight = en_num E 4, ssn_text = su_text s,
      ssn_citation = citation Citation_Summary (su_id s) ''summary'' (et_updated_at (su_timestamps s)),
      ssn_hit = source_hit E (su_source_id s) (et_updated_at (su_timestamps s)) context\<rparr>"

definition search_sections ::
    "'f search_env \<Rightarrow> history_record \<Rightarrow> record_context \<Rightarrow> search_filters \<Rightarrow> 'f search_section list" where
  "search_sections E r context filters =
     (let event_type_search = sf_event_type filters \<noteq> None;
          unless_event_search = (\<lambda>xs. if event_type_search then [] else xs);
          in_agent_scope = (\<lambda>session_id source_id. item_matches_agent_scope session_id source_id context filters)
      in record_sections E r context filters
       @ unless_event_search (map (session_section E context)
           (filter (\<lambda>s. session_matches_agent_scope s filters
              \<and> source_id_matches_history_source_filter (se_capture_source_id s) context filters)
             (rc_sessions context)))
       @ unless_event_search (map (run_section E context)
           (filter (\<lambda>r. in_agent_scope (rn_session_id r) (rn_source_id r)) (rc_runs context)))
       @ map (event_section E context)
           (filter (\<lambda>e. sf_event_type filters \<in> {None, Some (ev_event_type e)}
              \<and> in_agent_scope (ev_session_id e) (ev_capture_source_id e)) (rc_events context))
       @ unless_event_search (map (artifact_section E context)
           (filter (\<lambda>a. in_agent_scope None (ar_source_id a)) (rc_artifacts context)))
       @ unless_event_search (map (file_section E context)
           (filter (\<lambda>f. in_agent_scope (session_of_file_event context f) (ft_source_id f))
             (rc_files_touched context)))
       @ unless_event_search (map (vcs_section E context)
           (filter (\<lambda>c. in_agent_scope None (vc_source_id c)) (rc_vcs_changes context)))
       @ unless_event_search (map (summary_section E context)
           (filter (\<lambda>s. in_agent_scope None (su_source_id s)) (rc_summaries context))))"

section \<open>Snippet of a record\<close>

fun best_section ::
    "'f search_env \<Rightarrow> string list \<Rightarrow> search_filters \<Rightarrow> nat \<Rightarrow> 'f search_section option \<Rightarrow> 'f search_section list
     \<Rightarrow> 'f search_section option" where
  "best_section E terms filters best_count best [] = best"
| "best_section E terms filters best_count best (s # ss) =
     (if hit_matches_excluded_provider_session (ssn_hit s) filters
      then best_section E terms filters best_count best ss
      else
        let match_count = matching_term_count E (ssn_text s) terms
        in if match_count > best_count then best_section E terms filters match_count (Some s) ss
           else best_section E terms filters best_count best ss)"

definition search_snippet ::
    "'f search_env \<Rightarrow> history_record \<Rightarrow> record_context \<Rightarrow> string \<Rightarrow> nat \<Rightarrow> search_filters \<Rightarrow> string" where
  "search_snippet E r context query max_chars filters =
     (let terms = query_terms E query
      in case best_section E terms filters 0 None (search_sections E r context filters) of
           Some s \<Rightarrow> matched_snippet E (ssn_text s) terms max_chars
         | None \<Rightarrow>
             if trim (hr_body r) \<noteq> [] \<and> \<not> is_agent_history_bookkeeping_record r
                \<and> record_text_matches_agent_scope context filters
                \<and> \<not> context_has_excluded_provider_session context filters
             then local_snippet (hr_body r) max_chars
             else [])"

section \<open>Scores\<close>

definition push_unique_why :: "string list \<Rightarrow> string \<Rightarrow> string list" where
  "push_unique_why why reason = (if reason \<in> set why then why else why @ [reason])"

definition same_citation :: "context_citation \<Rightarrow> context_citation \<Rightarrow> bool" where
  "same_citation a b \<longleftrightarrow> cc_citation_type a = cc_citation_type b \<and> cc_id a = cc_id b"

definition push_unique_citation :: "context_citation list \<Rightarrow> context_citation \<Rightarrow> context_citation list" where
  "push_unique_citation cs c = (if list_ex (\<lambda>e. same_citation e c) cs then cs else cs @ [c])"

definition cite_hit :: "hit_metadata \<Rightarrow> context_citation \<Rightarrow> context_citation" where
  "cite_hit hit c =
     c\<lparr>cc_provider := hm_provider hit, cc_session_id := hm_session_id hit, cc_event_seq := hm_event_seq hit,
       cc_raw_source_path := hm_raw_source_path hit, cc_raw_source_exists := hm_raw_source_exists hit,
       cc_cursor := or_else (hm_cursor hit)
         (map_option (\<lambda>session_id. ''session:'' @ session_id) (hm_provider_session_id hit))\<rparr>"

record 'f match_analysis =
  ma_score :: "'f"
  ma_matched_term_count :: nat
  ma_why_matched :: "string list"
  ma_citations :: "context_citation list"
  ma_primary_hit :: "hit_metadata option"

definition add_match :: "string \<Rightarrow> context_citation \<Rightarrow> hit_metadata \<Rightarrow> 'f match_analysis \<Rightarrow> 'f match_analysis" where
  "add_match reason c hit a =
     a\<lparr>ma_why_matched := push_unique_why (ma_why_matched a) reason,
       ma_citations := push_unique_citation (ma_citations a) (cite_hit hit c)\<rparr>"

definition no_match :: "'f search_env \<Rightarrow> 'f match_analysis" where
  "no_match E = \<lparr>ma_score = en_zero E, ma_matched_term_count = 0, ma_why_matched = [], ma_citations = [],
     ma_primary_hit = None\<rparr>"

text \<open>A search for files without terms counts the sections of touched files.\<close>

definition add_file_section ::
    "'f search_env \<Rightarrow> 'f match_analysis \<Rightarrow> 'f search_section \<Rightarrow> 'f match_analysis" where
  "add_file_section E a s =
     add_match (ssn_reason s) (ssn_citation s) (ssn_hit s)
       (a\<lparr>ma_primary_hit := or_else (ma_primary_hit a) (Some (ssn_hit s)),
          ma_score := en_add E (ma_score a) (ssn_weight s)\<rparr>)"

definition recent_match :: "'f search_env \<Rightarrow> history_record \<Rightarrow> 'f match_analysis" where
  "recent_match E r =
     (add_match ''recent_activity''
        (citation Citation_HistoryRecord (hr_id r) ''recent session'' (hr_updated_at r))
        (empty_hit (hr_updated_at r)) (no_match E))\<lparr>ma_score := en_num E 1\<rparr>"

text \<open>A section with more terms, or as many and more weight, is the primary hit.\<close>

definition better_match :: "'f search_env \<Rightarrow> nat \<times> 'f \<Rightarrow> nat \<times> 'f \<Rightarrow> bool" where
  "better_match E = (\<lambda>(n, w) (m, v). m < n \<or> m = n \<and> en_less E v w)"

fun add_sections ::
    "'f search_env \<Rightarrow> string list \<Rightarrow> search_filters \<Rightarrow> nat \<times> 'f \<Rightarrow> string list \<Rightarrow> 'f search_section list
     \<Rightarrow> 'f match_analysis \<Rightarrow> string list \<times> 'f match_analysis" where
  "add_sections E terms filters primary matched [] a = (matched, a)"
| "add_sections E terms filters primary matched (s # ss) a =
     (let count = matching_term_count E (ssn_text s) terms
      in if hit_matches_excluded_provider_session (ssn_hit s) filters \<or> count = 0
         then add_sections E terms filters primary matched ss a
         else
           let haystack = to_lowercase E (ssn_text s);
               matched' = filter (\<lambda>t. t \<in> set matched \<or> text_contains t haystack) terms;
               a1 = a\<lparr>ma_score := en_add E (ma_score a) (en_mul E (ssn_weight s) (en_of_nat E count))\<rparr>;
               better = better_match E (count, ssn_weight s) primary;
               a2 = (if better then a1\<lparr>ma_primary_hit := Some (ssn_hit s)\<rparr> else a1);
               primary' = (if better then (count, ssn_weight s) else primary)
           in add_sections E terms filters primary' matched' ss
                (add_match (ssn_reason s) (ssn_citation s) (ssn_hit s) a2))"

definition analyze_record ::
    "'f search_env \<Rightarrow> history_record \<Rightarrow> record_context \<Rightarrow> string list \<Rightarrow> search_filters \<Rightarrow> 'f match_analysis" where
  "analyze_record E r context terms filters =
     (if terms = []
      then
        let touched = foldl (add_file_section E) (no_match E)
              (filter (\<lambda>s. ssn_reason s = ''file_touched'') (search_sections E r context filters))
        in if sf_file filters \<noteq> None \<and> ma_why_matched touched \<noteq> [] then touched else recent_match E r
      else
        let (matched, a) = add_sections E terms filters (0, en_lowest E) [] (search_sections E r context filters)
              (no_match E)
        in a\<lparr>ma_matched_term_count := length matched\<rparr>)"

section \<open>Candidates\<close>

definition hydrate_record_context ::
    "'f search_store \<Rightarrow> uuid \<Rightarrow> string option \<Rightarrow> store_error + record_context" where
  "hydrate_record_context S record_id file_filter =
     (let d = so_db S
      in bind_result (sessions_for_record record_id d) (\<lambda>sessions.
         bind_result (runs_for_record record_id d) (\<lambda>runs.
         bind_result (events_for_record record_id d) (\<lambda>events.
         bind_result (so_artifacts_for_record S record_id) (\<lambda>artifacts.
         bind_result (case file_filter of
             Some f \<Rightarrow> files_touched_for_record_matching record_id f d
           | None \<Rightarrow> files_touched_for_record record_id d) (\<lambda>files_touched.
         bind_result (so_vcs_changes_for_record S record_id) (\<lambda>vcs_changes.
         bind_result (so_summaries_for_record S record_id) (\<lambda>summaries.
         let source_ids = sort (remdups
               (List.map_filter se_capture_source_id sessions @ List.map_filter rn_source_id runs
                @ List.map_filter ev_capture_source_id events @ List.map_filter ar_source_id artifacts
                @ List.map_filter ft_source_id files_touched @ List.map_filter vc_source_id vcs_changes
                @ List.map_filter su_source_id summaries));
             sources = List.map_filter
               (\<lambda>i. case get_capture_source i d of Inr s \<Rightarrow> Some (i, s) | Inl _ \<Rightarrow> None) source_ids
         in Inr \<lparr>rc_sessions = sessions, rc_runs = runs, rc_events = events, rc_artifacts = artifacts,
              rc_files_touched = files_touched, rc_vcs_changes = vcs_changes, rc_summaries = summaries,
              rc_sources = sources\<rparr>))))))))"

definition candidate_for_record ::
    "'f search_env \<Rightarrow> 'f search_store \<Rightarrow> history_record \<Rightarrow> string list \<Rightarrow> search_filters
     \<Rightarrow> file_touch_scope option \<Rightarrow> store_error + 'f candidate option" where
  "candidate_for_record E S r terms filters file_scope =
     bind_result (hydrate_record_context S (hr_id r) (sf_file filters)) (\<lambda>context.
       if \<not> record_matches_filters E r context filters file_scope then Inr None
       else
         let a = analyze_record E r context terms filters
         in if terms = [] \<or> en_less E (en_zero E) (ma_score a)
            then Inr (Some \<lparr>ca_record = r, ca_context = context, ca_score = ma_score a,
              ca_matched_term_count = ma_matched_term_count a, ca_why_matched = ma_why_matched a,
              ca_citations = ma_citations a, ca_primary_hit = ma_primary_hit a\<rparr>)
            else Inr None)"

definition compare_candidates :: "'f search_env \<Rightarrow> 'f candidate \<Rightarrow> 'f candidate \<Rightarrow> ordering" where
  "compare_candidates E left right =
     then_with (compare_by (en_total_less E) (ca_score right) (ca_score left))
       (then_with (compare_ord (hr_updated_at (ca_record right)) (hr_updated_at (ca_record left)))
         (then_with (compare_ord (hr_title (ca_record left)) (hr_title (ca_record right)))
           (compare_ord (hr_id (ca_record left)) (hr_id (ca_record right)))))"

definition normalize_scores :: "'f search_env \<Rightarrow> 'f candidate list \<Rightarrow> 'f candidate list" where
  "normalize_scores E cs =
     (let max_relevance = foldl (en_max E) (en_zero E) (map ca_score cs);
          stride = en_add E max_relevance (en_num E 1);
          cs1 = map (\<lambda>c. c\<lparr>ca_score := en_add E (ca_score c)
                  (en_mul E (en_of_nat E (ca_matched_term_count c)) stride)\<rparr>) cs;
          max_score = foldl (en_max E) (en_zero E) (map ca_score cs1)
      in if \<not> en_less E (en_zero E) max_score then cs1
         else map (\<lambda>c. c\<lparr>ca_score := en_clamp E 0 1 (en_div E (ca_score c) max_score)\<rparr>) cs1)"

definition best_candidates :: "'f search_env \<Rightarrow> nat \<Rightarrow> 'f candidate list \<Rightarrow> 'f candidate list" where
  "best_candidates E target cs = take target (sort_by (compare_candidates E) (normalize_scores E cs))"

text \<open>The records of a page that were not seen before and that \<open>wanted\<close> admits.\<close>

fun collect_candidates ::
    "'f search_env \<Rightarrow> 'f search_store \<Rightarrow> string list \<Rightarrow> search_filters \<Rightarrow> file_touch_scope option
     \<Rightarrow> (uuid \<Rightarrow> bool) \<Rightarrow> uuid list \<Rightarrow> history_record list \<Rightarrow> store_error + (uuid list \<times> 'f candidate list)" where
  "collect_candidates E S terms filters file_scope wanted seen [] = Inr (seen, [])"
| "collect_candidates E S terms filters file_scope wanted seen (r # rs) =
     (if hr_id r \<in> set seen then collect_candidates E S terms filters file_scope wanted seen rs
      else if \<not> wanted (hr_id r)
      then collect_candidates E S terms filters file_scope wanted (hr_id r # seen) rs
      else bind_result (candidate_for_record E S r terms filters file_scope) (\<lambda>c.
        bind_result (collect_candidates E S terms filters file_scope wanted (hr_id r # seen) rs)
          (\<lambda>(seen', cs). Inr (seen', (case c of None \<Rightarrow> cs | Some c \<Rightarrow> c # cs)))))"

definition FILTERED_SEARCH_PAGE_SIZE :: nat where "FILTERED_SEARCH_PAGE_SIZE = 500"
definition FILTERED_SEARCH_MAX_PAGES :: nat where "FILTERED_SEARCH_MAX_PAGES = 20"

text \<open>The scan of a filtered search; the first argument is the number of pages it may still read.\<close>

fun candidate_pages ::
    "nat \<Rightarrow> 'f search_env \<Rightarrow> 'f search_store \<Rightarrow> string \<Rightarrow> string list \<Rightarrow> search_filters
     \<Rightarrow> file_touch_scope option \<Rightarrow> nat \<Rightarrow> nat \<Rightarrow> nat \<Rightarrow> uuid list \<Rightarrow> 'f candidate list
     \<Rightarrow> store_error + ('f candidate list \<times> bool)" where
  "candidate_pages 0 E S query terms filters file_scope target page_size offset seen cs = Inr (cs, True)"
| "candidate_pages (Suc left) E S query terms filters file_scope target page_size offset seen cs =
     bind_result (if trim query = [] then Inr [] else so_search_records_page S query page_size offset) (\<lambda>page.
     bind_result (collect_candidates E S terms filters file_scope
         (\<lambda>i. case file_scope of None \<Rightarrow> True
            | Some sc \<Rightarrow> fs_history_record_ids sc = {} \<or> i \<in> fs_history_record_ids sc) seen page)
       (\<lambda>(seen', new).
       let cs' = cs @ new
       in if length cs' \<ge> target \<or> length page < page_size then Inr (cs', False)
          else if left = 0 then Inr (cs', True)
          else
            let next_offset = sat_add offset page_size
            in if next_offset = offset then Inr (cs', False)
               else candidate_pages left E S query terms filters file_scope target page_size next_offset seen' cs'))"

text \<open>The records of a file filter without terms, in the order of their identifiers.\<close>

fun file_candidates ::
    "'f search_env \<Rightarrow> 'f search_store \<Rightarrow> search_filters \<Rightarrow> file_touch_scope option \<Rightarrow> uuid list
     \<Rightarrow> store_error + 'f candidate list" where
  "file_candidates E S filters file_scope [] = Inr []"
| "file_candidates E S filters file_scope (i # is) =
     bind_result (so_get_record S i) (\<lambda>r.
     bind_result (candidate_for_record E S r [] filters file_scope) (\<lambda>c.
     bind_result (file_candidates E S filters file_scope is) (\<lambda>cs.
       Inr (case c of None \<Rightarrow> cs | Some c \<Rightarrow> c # cs))))"

definition ranked_candidates ::
    "'f search_env \<Rightarrow> 'f search_store \<Rightarrow> string option \<Rightarrow> packet_options \<Rightarrow> file_touch_scope option
     \<Rightarrow> store_error + 'f candidate_search" where
  "ranked_candidates E S query options file_scope =
     (let target = sat_add (po_limit options) 1;
          filters = po_filters options;
          q = str_or_empty query;
          terms = query_terms E q
      in case (terms, file_scope) of
           ([], None) \<Rightarrow> Inr \<lparr>cas_candidates = [], cas_scan_budget_exhausted = False\<rparr>
         | ([], Some sc) \<Rightarrow>
             bind_result (file_candidates E S filters file_scope (sorted_list_of_set (fs_history_record_ids sc)))
               (\<lambda>cs. Inr \<lparr>cas_candidates = best_candidates E target cs, cas_scan_budget_exhausted = False\<rparr>)
         | _ \<Rightarrow>
             bind_result
               (if has_filters filters
                then candidate_pages FILTERED_SEARCH_MAX_PAGES E S q terms filters file_scope target
                       (max FILTERED_SEARCH_PAGE_SIZE target) 0 [] []
                else
                  bind_result (if trim q = [] then Inr [] else so_search_records S q target) (\<lambda>rs.
                  bind_result (collect_candidates E S terms filters file_scope
                      (\<lambda>i. case file_scope of None \<Rightarrow> True | Some sc \<Rightarrow> i \<in> fs_history_record_ids sc) [] rs)
                    (\<lambda>(_, cs). Inr (cs, False))))
               (\<lambda>(cs, exhausted).
                 Inr \<lparr>cas_candidates = best_candidates E target cs, cas_scan_budget_exhausted = exhausted\<rparr>))"

end
