(* ===== verification/Search_Packet.thy ===== *)
theory Search_Packet
  imports Search_Ranking Store_Entities
begin

text \<open>
  The packets a search returns (\<open>search.rs\<close>, \<open>results.rs\<close>, \<open>packet.rs\<close> and the options of \<open>query.rs\<close>): the
  fast search over event hits with its page budget, the search over record candidates, the hybrid
  of lexical and semantic hits, and the merge of the packets of several terms.
\<close>

section \<open>Options\<close>

definition DEFAULT_RESULT_LIMIT :: nat where "DEFAULT_RESULT_LIMIT = 10"
definition MAX_RESULT_LIMIT :: nat where "MAX_RESULT_LIMIT = 200"
definition DEFAULT_SNIPPET_CHARS :: nat where "DEFAULT_SNIPPET_CHARS = 320"
definition LARGE_EVENT_CORPUS_THRESHOLD :: int where "LARGE_EVENT_CORPUS_THRESHOLD = 1024"
definition SEARCH_PACKET_SCHEMA_VERSION :: u32 where "SEARCH_PACKET_SCHEMA_VERSION = 1"

definition sat_mul :: "nat \<Rightarrow> nat \<Rightarrow> nat" where
  "sat_mul a b = min (a * b) usize_max"

definition clamp_nat :: "nat \<Rightarrow> nat \<Rightarrow> nat \<Rightarrow> nat" where
  "clamp_nat lo hi n = (if n < lo then lo else if hi < n then hi else n)"

definition normalized_text_filter :: "string option \<Rightarrow> string option" where
  "normalized_text_filter v = opt_filter (\<lambda>t. t \<noteq> []) (map_option trim v)"

definition normalized_filters :: "search_filters \<Rightarrow> search_filters" where
  "normalized_filters f =
     f\<lparr>sf_repo := normalized_text_filter (sf_repo f), sf_file := normalized_text_filter (sf_file f)\<rparr>"

definition normalized_options :: "packet_options \<Rightarrow> packet_options" where
  "normalized_options p =
     \<lparr>po_limit = clamp_nat 1 MAX_RESULT_LIMIT (po_limit p),
      po_snippet_chars = clamp_nat 32 2000 (po_snippet_chars p),
      po_filters = normalized_filters (po_filters p), po_result_mode = po_result_mode p\<rparr>"

section \<open>Packets\<close>

definition no_truncation :: context_truncation where
  "no_truncation = \<lparr>ct_truncated = False, ct_omitted_results = 0, ct_reason = None\<rparr>"

definition truncation_for :: "string \<Rightarrow> u32 \<Rightarrow> context_truncation" where
  "truncation_for reason omitted =
     \<lparr>ct_truncated = True, ct_omitted_results = omitted, ct_reason = Some reason\<rparr>"

definition pagination :: "nat option \<Rightarrow> bool \<Rightarrow> context_pagination" where
  "pagination cursor_base has_more =
     \<lparr>cp_cursor = (if has_more then map_option (\<lambda>n. ''offset:'' @ dec n) cursor_base else None),
      cp_has_more = has_more\<rparr>"

definition packet_of ::
    "'f search_env \<Rightarrow> string \<Rightarrow> search_filters \<Rightarrow> 'f search_packet_result list \<Rightarrow> bool \<Rightarrow> context_truncation
     \<Rightarrow> 'f search_packet_t" where
  "packet_of E query filters results has_more truncation =
     \<lparr>sp_schema_version = SEARCH_PACKET_SCHEMA_VERSION, sp_query = query, sp_filters = filters,
      sp_generated_at = en_now E, sp_results = results,
      sp_pagination = pagination (Some (length results)) has_more, sp_truncation = truncation\<rparr>"

definition empty_search_packet :: "'f search_env \<Rightarrow> string \<Rightarrow> packet_options \<Rightarrow> 'f search_packet_t" where
  "empty_search_packet E query options = packet_of E query (po_filters options) [] False no_truncation"

section \<open>Results of event hits\<close>

definition event_reason :: "event_type \<Rightarrow> string" where
  "event_reason t =
     (case t of
        EventType_Message \<Rightarrow> ''message'' | EventType_ToolCall \<Rightarrow> ''tool_call''
      | EventType_ToolOutput \<Rightarrow> ''tool_output'' | EventType_CommandStarted \<Rightarrow> ''command_event''
      | EventType_CommandOutput \<Rightarrow> ''command_event'' | EventType_CommandFinished \<Rightarrow> ''command_event''
      | EventType_FileTouched \<Rightarrow> ''file_touched'' | EventType_VcsChange \<Rightarrow> ''vcs_change''
      | EventType_Artifact \<Rightarrow> ''artifact'' | EventType_Summary \<Rightarrow> ''summary''
      | EventType_Notice \<Rightarrow> ''notice'')"

definition event_result_label :: "'f event_search_hit \<Rightarrow> string" where
  "event_result_label hit =
     (case eh_event_type hit of
        EventType_Message \<Rightarrow>
          (case eh_role hit of
             Some EventRole_User \<Rightarrow> ''user message'' | Some EventRole_Assistant \<Rightarrow> ''assistant message''
           | Some EventRole_System \<Rightarrow> ''system message'' | _ \<Rightarrow> ''message'')
      | EventType_ToolCall \<Rightarrow> ''tool call'' | EventType_ToolOutput \<Rightarrow> ''tool output''
      | EventType_CommandStarted \<Rightarrow> ''command started'' | EventType_CommandOutput \<Rightarrow> ''command output''
      | EventType_CommandFinished \<Rightarrow> ''command finished'' | EventType_FileTouched \<Rightarrow> ''file touched''
      | EventType_VcsChange \<Rightarrow> ''vcs change'' | EventType_Artifact \<Rightarrow> ''artifact''
      | EventType_Summary \<Rightarrow> ''summary'' | EventType_Notice \<Rightarrow> ''notice'')"

text \<open>\<open>Path::file_name\<close>: the last component unless it is \<open>..\<close>; empty components and \<open>.\<close> do not count.\<close>

fun slash_parts :: "string \<Rightarrow> string list" where
  "slash_parts [] = [[]]"
| "slash_parts (c # cs) =
     (if c = CHR ''/'' then [] # slash_parts cs
      else case slash_parts cs of [] \<Rightarrow> [[c]] | w # ws \<Rightarrow> (c # w) # ws)"

definition path_file_name :: "string \<Rightarrow> string option" where
  "path_file_name path =
     (case rev (filter (\<lambda>p. p \<noteq> [] \<and> p \<noteq> ''.'') (slash_parts path)) of
        [] \<Rightarrow> None | p # ps \<Rightarrow> if p = ''..'' then None else Some p)"

definition event_result_title :: "'f event_search_hit \<Rightarrow> string" where
  "event_result_title hit =
     (let provider = unwrap_or (map_option provider_str (eh_provider hit)) ''agent'';
          source = map_option (\<lambda>v. local_snippet v 80)
            (or_else (eh_session_external_session_id hit)
              (Option.bind (eh_raw_source_path hit) path_file_name));
          label = provider @ '' '' @ event_result_label hit
      in case source of Some source \<Rightarrow> label @ '' - '' @ source | None \<Rightarrow> label)"

definition hit_citation ::
    "'f search_env \<Rightarrow> 'f event_search_hit \<Rightarrow> context_citation_type \<Rightarrow> uuid \<Rightarrow> string \<Rightarrow> u64 option
     \<Rightarrow> context_citation" where
  "hit_citation E hit citation_type i label seq =
     \<lparr>cc_citation_type = citation_type, cc_id = i, cc_label = label, cc_time = eh_occurred_at hit,
      cc_provider = eh_provider hit, cc_session_id = eh_session_id hit, cc_event_seq = seq,
      cc_raw_source_path = eh_raw_source_path hit,
      cc_raw_source_exists = map_option (en_path_exists E) (eh_raw_source_path hit),
      cc_cursor = eh_cursor hit\<rparr>"

definition event_search_result ::
    "'f search_env \<Rightarrow> 'f event_search_hit \<Rightarrow> string \<Rightarrow> nat \<Rightarrow> 'f search_packet_result" where
  "event_search_result E hit query snippet_chars =
     \<lparr>spr_record_id = eh_event_id hit, spr_session_id = eh_session_id hit,
      spr_event_id = Some (eh_event_id hit), spr_event_seq = Some (eh_seq hit),
      spr_title = event_result_title hit,
      spr_snippet = matched_snippet E (eh_preview hit) (query_terms E query) snippet_chars,
      spr_rank = en_max E (en_as_f32 E (en_neg E (eh_score hit))) (en_zero E),
      spr_result_scope = EventScope, spr_more_matches_in_session = 0,
      spr_session_importance = en_zero E, spr_provider = eh_provider hit,
      spr_provider_session_id = eh_session_external_session_id hit,
      spr_history_source = eh_history_source hit,
      spr_history_source_plugin = eh_history_source_plugin hit,
      spr_provider_key = eh_provider_key hit, spr_source_id = eh_source_id hit,
      spr_source_format = eh_source_format hit, spr_timestamp = Some (eh_occurred_at hit),
      spr_cwd = eh_cwd hit, spr_raw_source_path = eh_raw_source_path hit,
      spr_raw_source_exists = map_option (en_path_exists E) (eh_raw_source_path hit),
      spr_cursor = eh_cursor hit, spr_why_matched = [event_reason (eh_event_type hit)],
      spr_citations =
        hit_citation E hit Citation_Event (eh_event_id hit) (event_result_label hit) (Some (eh_seq hit))
        # (case eh_session_id hit of
             None \<Rightarrow> [] | Some i \<Rightarrow> [hit_citation E hit Citation_Session i ''session'' None]),
      spr_links = (), spr_visibility = Visibility_LocalOnly\<rparr>"

section \<open>Ranks\<close>

definition session_importance :: "'f search_env \<Rightarrow> 'f \<Rightarrow> nat \<Rightarrow> 'f" where
  "session_importance E rank more_matches =
     en_clamp E 0 1
       (en_add E rank
         (en_min E (en_mul E (en_ln_1p E (en_of_nat E more_matches)) (en_num E (8 / 100)))
           (en_num E (24 / 100))))"

definition normalize_search_result_ranks ::
    "'f search_env \<Rightarrow> 'f search_packet_result list \<Rightarrow> 'f search_packet_result list" where
  "normalize_search_result_ranks E rs =
     (let max_rank = foldl (en_max E) (en_zero E) (map spr_rank rs)
      in if \<not> en_less E (en_zero E) max_rank then rs
         else
           map (\<lambda>r. r\<lparr>spr_session_importance :=
                  (if spr_result_scope r = SessionScope
                   then session_importance E (spr_rank r) (spr_more_matches_in_session r)
                   else en_zero E)\<rparr>)
             (map (\<lambda>r. r\<lparr>spr_rank := en_clamp E 0 1 (en_div E (spr_rank r) max_rank)\<rparr>) rs))"

definition compare_search_results ::
    "'f search_env \<Rightarrow> 'f search_packet_result \<Rightarrow> 'f search_packet_result \<Rightarrow> ordering" where
  "compare_search_results E left right =
     then_with (compare_by (en_less E) (spr_rank right) (spr_rank left))
       (then_with (compare_option (spr_timestamp right) (spr_timestamp left))
         (compare_ord (spr_record_id left) (spr_record_id right)))"

section \<open>Results by cluster\<close>

text \<open>A vector of results and the map from a cluster to its position in it.\<close>

type_synonym 'r indexed = "'r list \<times> (uuid \<rightharpoonup> nat)"

definition put_indexed :: "uuid \<Rightarrow> ('r \<Rightarrow> 'r) \<Rightarrow> 'r \<Rightarrow> 'r indexed \<Rightarrow> 'r indexed" where
  "put_indexed k update fresh = (\<lambda>(rs, index).
     (case index k of
        Some i \<Rightarrow> (rs[i := update (rs ! i)], index)
      | None \<Rightarrow> (rs @ [fresh], index(k \<mapsto> length rs))))"

definition one_more_match :: "'f search_env \<Rightarrow> 'f search_packet_result \<Rightarrow> 'f search_packet_result" where
  "one_more_match E r =
     (let more = sat_add (spr_more_matches_in_session r) 1
      in r\<lparr>spr_more_matches_in_session := more,
           spr_session_importance := session_importance E (spr_rank r) more\<rparr>)"

definition scope_of_result :: "'f search_packet_result \<Rightarrow> search_result_scope" where
  "scope_of_result r = (if spr_session_id r \<noteq> None then SessionScope else EventScope)"

section \<open>The fast search over events\<close>

definition hit_cluster :: "'f event_search_hit \<Rightarrow> uuid" where
  "hit_cluster hit = unwrap_or (eh_session_id hit) (eh_event_id hit)"

definition clustered_event_result ::
    "'f search_env \<Rightarrow> 'f event_search_hit \<Rightarrow> string \<Rightarrow> nat \<Rightarrow> 'f search_packet_result" where
  "clustered_event_result E hit query snippet_chars =
     (let r = event_search_result E hit query snippet_chars
      in r\<lparr>spr_result_scope := scope_of_result r,
           spr_session_importance := session_importance E (spr_rank r) 0\<rparr>)"

definition add_fast_hit ::
    "'f search_env \<Rightarrow> string \<Rightarrow> packet_options \<Rightarrow> 'f event_search_hit \<Rightarrow> 'f search_packet_result indexed
     \<Rightarrow> 'f search_packet_result indexed" where
  "add_fast_hit E query options hit acc =
     (if po_result_mode options = SessionsMode
      then put_indexed (hit_cluster hit) (one_more_match E)
             (clustered_event_result E hit query (po_snippet_chars options)) acc
      else (fst acc @ [event_search_result E hit query (po_snippet_chars options)], snd acc))"

text \<open>The hits of a page, until there are enough results.\<close>

fun add_fast_hits ::
    "'f search_env \<Rightarrow> string \<Rightarrow> packet_options \<Rightarrow> file_touch_scope option \<Rightarrow> nat \<Rightarrow> 'f event_search_hit list
     \<Rightarrow> 'f search_packet_result indexed \<Rightarrow> 'f search_packet_result indexed" where
  "add_fast_hits E query options file_scope target [] acc = acc"
| "add_fast_hits E query options file_scope target (hit # hits) acc =
     (if \<not> event_hit_matches_filters E hit (po_filters options) file_scope
      then add_fast_hits E query options file_scope target hits acc
      else
        let acc' = add_fast_hit E query options hit acc
        in if target \<le> length (fst acc') then acc'
           else add_fast_hits E query options file_scope target hits acc')"

definition event_hits_page ::
    "'f search_store \<Rightarrow> search_filters \<Rightarrow> string \<Rightarrow> nat \<Rightarrow> nat \<Rightarrow> store_error + 'f event_search_hit list" where
  "event_hits_page S filters query page_size offset =
     (if sf_event_type filters \<noteq> None then so_search_event_hits_page S query page_size offset
      else so_search_event_hits_page_prefer_conversation S query page_size offset)"

text \<open>The loop over pages; the first argument is the number of pages it may still read.\<close>

fun fast_pages ::
    "nat \<Rightarrow> 'f search_env \<Rightarrow> 'f search_store \<Rightarrow> string \<Rightarrow> packet_options \<Rightarrow> file_touch_scope option \<Rightarrow> nat \<Rightarrow> nat
     \<Rightarrow> nat \<Rightarrow> 'f search_packet_result indexed \<Rightarrow> store_error + ('f search_packet_result list \<times> bool)" where
  "fast_pages 0 E S query options file_scope target page_size offset acc = Inr (fst acc, True)"
| "fast_pages (Suc left) E S query options file_scope target page_size offset acc =
     bind_result (event_hits_page S (po_filters options) query page_size offset) (\<lambda>hits.
       let acc' = add_fast_hits E query options file_scope target hits acc
       in if \<not> has_filters (po_filters options) \<and> po_result_mode options \<noteq> SessionsMode
             \<or> target \<le> length (fst acc') \<or> length hits < page_size
          then Inr (fst acc', False)
          else if left = 0 then Inr (fst acc', True)
          else
            let next_offset = sat_add offset page_size
            in if next_offset = offset then Inr (fst acc', False)
               else fast_pages left E S query options file_scope target page_size next_offset acc')"

definition fast_page_size :: "packet_options \<Rightarrow> nat" where
  "fast_page_size options =
     (let target = sat_add (po_limit options) 1
      in if po_result_mode options = SessionsMode
         then max FILTERED_SEARCH_PAGE_SIZE (max (sat_mul target 8) 50)
         else if has_filters (po_filters options) then max FILTERED_SEARCH_PAGE_SIZE target
         else target)"

definition fast_packet ::
    "'f search_env \<Rightarrow> string \<Rightarrow> packet_options \<Rightarrow> 'f search_packet_result list \<Rightarrow> bool \<Rightarrow> 'f search_packet_t" where
  "fast_packet E query options results exhausted =
     (let has_more = po_limit options < length results \<or> exhausted
      in packet_of E query (po_filters options)
           (normalize_search_result_ranks E (take (po_limit options) results)) has_more
           (if exhausted then truncation_for ''scan_budget'' 1
            else if has_more then truncation_for ''limit'' 1 else no_truncation))"

definition fast_event_search_packet ::
    "'f search_env \<Rightarrow> 'f search_store \<Rightarrow> string \<Rightarrow> packet_options \<Rightarrow> file_touch_scope option
     \<Rightarrow> store_error + 'f search_packet_t option" where
  "fast_event_search_packet E S query options file_scope =
     (if trim query = [] then Inr None
      else if has_history_source_filter (po_filters options) then Inr None
      else if \<not> has_at_least_events LARGE_EVENT_CORPUS_THRESHOLD (so_db S) then Inr None
      else
        bind_result
          (fast_pages FILTERED_SEARCH_MAX_PAGES E S query options file_scope (sat_add (po_limit options) 1)
            (fast_page_size options) 0 ([], Map.empty))
          (\<lambda>(results, exhausted). Inr (Some (fast_packet E query options results exhausted))))"

section \<open>Results of record candidates\<close>

definition candidate_display_hit ::
    "'f search_env \<Rightarrow> 'f candidate \<Rightarrow> search_filters \<Rightarrow> hit_metadata option" where
  "candidate_display_hit E c filters =
     (let context = ca_context c;
          of_event = opt_filter (\<lambda>hit. hm_event_id hit \<noteq> None) (ca_primary_hit c);
          by_event = map_option (\<lambda>e. event_hit E e context)
            (List.find (\<lambda>e. let hit = event_hit E e context
               in (case sf_provider filters of None \<Rightarrow> True | Some p \<Rightarrow> hm_provider hit = Some p)
                  \<and> (case sf_session filters of None \<Rightarrow> True | Some i \<Rightarrow> hm_session_id hit = Some i)
                  \<and> hit_matches_history_source_filter hit filters) (rc_events context));
          known = opt_filter (\<lambda>hit. hm_provider hit \<noteq> None \<or> hm_session_id hit \<noteq> None) (ca_primary_hit c);
          by_session = map_option (\<lambda>s. session_hit E s context)
            (or_else
              (List.find (\<lambda>s. fits_provider_and_session filters (se_provider s) (se_id s)
                 \<and> hit_matches_history_source_filter (session_hit E s context) filters)
                (rc_sessions context))
              (case rc_sessions context of [] \<Rightarrow> None | s # _ \<Rightarrow> Some s))
      in or_else of_event (or_else by_event (or_else known by_session)))"

definition candidate_search_result ::
    "'f search_env \<Rightarrow> 'f candidate \<Rightarrow> string \<Rightarrow> packet_options \<Rightarrow> 'f search_packet_result" where
  "candidate_search_result E c query options =
     (let hit = candidate_display_hit E c (po_filters options)
      in \<lparr>spr_record_id = unwrap_or (Option.bind (ca_primary_hit c) hm_event_id) (hr_id (ca_record c)),
          spr_session_id = Option.bind hit hm_session_id, spr_event_id = Option.bind hit hm_event_id,
          spr_event_seq = Option.bind hit hm_event_seq,
          spr_title = local_snippet (hr_title (ca_record c)) 240,
          spr_snippet = search_snippet E (ca_record c) (ca_context c) query (po_snippet_chars options)
            (po_filters options),
          spr_rank = ca_score c, spr_result_scope = EventScope, spr_more_matches_in_session = 0,
          spr_session_importance = en_zero E, spr_provider = Option.bind hit hm_provider,
          spr_provider_session_id = Option.bind hit hm_provider_session_id,
          spr_history_source = Option.bind hit hm_history_source,
          spr_history_source_plugin = Option.bind hit hm_history_source_plugin,
          spr_provider_key = Option.bind hit hm_provider_key, spr_source_id = Option.bind hit hm_source_id,
          spr_source_format = Option.bind hit hm_source_format, spr_timestamp = map_option hm_time hit,
          spr_cwd = Option.bind hit hm_cwd, spr_raw_source_path = Option.bind hit hm_raw_source_path,
          spr_raw_source_exists = Option.bind hit hm_raw_source_exists,
          spr_cursor = Option.bind hit hm_cursor, spr_why_matched = ca_why_matched c,
          spr_citations = ca_citations c, spr_links = (), spr_visibility = Visibility_LocalOnly\<rparr>)"

definition result_cluster :: "'f search_packet_result \<Rightarrow> uuid" where
  "result_cluster r = unwrap_or (spr_session_id r) (spr_record_id r)"

definition clustered_candidate_result ::
    "'f search_env \<Rightarrow> 'f search_packet_result \<Rightarrow> 'f search_packet_result" where
  "clustered_candidate_result E r =
     (if spr_session_id r = None then r
      else r\<lparr>spr_result_scope := SessionScope,
             spr_session_importance := session_importance E (spr_rank r) 0\<rparr>)"

fun push_candidate_results ::
    "'f search_env \<Rightarrow> string \<Rightarrow> packet_options \<Rightarrow> 'f candidate list \<Rightarrow> 'f search_packet_result indexed
     \<Rightarrow> 'f search_packet_result list" where
  "push_candidate_results E query options [] acc = fst acc"
| "push_candidate_results E query options (c # cs) acc =
     (let r = candidate_search_result E c query options;
          clustered = po_result_mode options = SessionsMode
      in if clustered \<and> snd acc (result_cluster r) \<noteq> None
         then push_candidate_results E query options cs
                (put_indexed (result_cluster r) (one_more_match E) r acc)
         else
           let acc' = (if clustered
                 then put_indexed (result_cluster r) (one_more_match E) (clustered_candidate_result E r) acc
                 else (fst acc @ [r], snd acc))
           in if po_limit options \<le> length (fst acc') then fst acc'
              else push_candidate_results E query options cs acc')"

definition candidate_packet ::
    "'f search_env \<Rightarrow> string \<Rightarrow> packet_options \<Rightarrow> 'f candidate_search \<Rightarrow> 'f search_packet_t" where
  "candidate_packet E query options found =
     (let candidates = cas_candidates found;
          exhausted = cas_scan_budget_exhausted found;
          results = push_candidate_results E query options candidates ([], Map.empty);
          omitted = length candidates - length results
      in packet_of E query (po_filters options) results (0 < omitted \<or> exhausted)
           (if exhausted then truncation_for ''scan_budget'' 1
            else if 0 < omitted then truncation_for ''limit'' (of_nat omitted)
            else no_truncation))"

definition search_packet ::
    "'f search_env \<Rightarrow> 'f search_store \<Rightarrow> string \<Rightarrow> packet_options \<Rightarrow> store_error + 'f search_packet_t" where
  "search_packet E S query given_options =
     (let options = normalized_options given_options;
          filters = po_filters options;
          file_scope = file_filter_scope S filters
      in if (case sf_provider filters of None \<Rightarrow> False | Some p \<Rightarrow> \<not> has_provider_data p (so_db S))
         then Inr (empty_search_packet E query options)
         else if (case file_scope of None \<Rightarrow> False | Some sc \<Rightarrow> scope_is_empty sc)
         then Inr (empty_search_packet E query options)
         else
           bind_result (fast_event_search_packet E S query options file_scope) (\<lambda>packet.
             case packet of
               Some packet \<Rightarrow> Inr packet
             | None \<Rightarrow>
                 bind_result (ranked_candidates E S (Some query) options file_scope)
                   (\<lambda>found. Inr (candidate_packet E query options found))))"

section \<open>Lexical and semantic hits together\<close>

definition reciprocal_rank :: "'f search_env \<Rightarrow> nat \<Rightarrow> 'f" where
  "reciprocal_rank E rank =
     en_div E (en_num E 1) (en_add E (en_num E 60) (en_of_nat E (max rank 1)))"

definition compare_hybrid_candidates ::
    "'f search_env \<Rightarrow> 'f hybrid_candidate \<Rightarrow> 'f hybrid_candidate \<Rightarrow> ordering" where
  "compare_hybrid_candidates E left right =
     then_with (compare_by (en_less E) (spr_rank (hc_result right)) (spr_rank (hc_result left)))
       (then_with (compare_ord (hc_occurred_at right) (hc_occurred_at left))
         (then_with (compare_ord (hc_seq right) (hc_seq left))
           (compare_ord (spr_record_id (hc_result left)) (spr_record_id (hc_result right)))))"

text \<open>The candidates by event, in a list sorted by the event's identifier.\<close>

definition hybrid_entry ::
    "'f search_env \<Rightarrow> string \<Rightarrow> packet_options \<Rightarrow> 'f event_search_hit \<Rightarrow> 'f option \<Rightarrow> 'f hybrid_candidate" where
  "hybrid_entry E query options hit lexical =
     \<lparr>hc_result = (event_search_result E hit query (po_snippet_chars options))
        \<lparr>spr_result_scope := EventScope\<rparr>,
      hc_lexical_score = lexical, hc_semantic_score = None, hc_occurred_at = eh_occurred_at hit,
      hc_seq = eh_seq hit\<rparr>"

fun lexical_candidates ::
    "'f search_env \<Rightarrow> string \<Rightarrow> packet_options \<Rightarrow> file_touch_scope option \<Rightarrow> nat \<Rightarrow> 'f event_search_hit list
     \<Rightarrow> (uuid \<rightharpoonup> 'f hybrid_candidate) \<Rightarrow> (uuid \<rightharpoonup> 'f hybrid_candidate)" where
  "lexical_candidates E query options file_scope rank [] m = m"
| "lexical_candidates E query options file_scope rank (hit # hits) m =
     (if \<not> event_hit_matches_filters E hit (po_filters options) file_scope
      then lexical_candidates E query options file_scope rank hits m
      else
        let rank' = sat_add rank 1
        in lexical_candidates E query options file_scope rank' hits
             (m(eh_event_id hit \<mapsto> hybrid_entry E query options hit (Some (reciprocal_rank E rank')))))"

definition add_semantic_score ::
    "'f search_env \<Rightarrow> event_type \<Rightarrow> 'f \<Rightarrow> 'f hybrid_candidate \<Rightarrow> 'f hybrid_candidate" where
  "add_semantic_score E t score c =
     c\<lparr>hc_semantic_score := Some (case hc_semantic_score c of
          None \<Rightarrow> score | Some existing \<Rightarrow> en_max E existing score),
       hc_result := (hc_result c)\<lparr>spr_why_matched :=
          push_unique_why (push_unique_why (spr_why_matched (hc_result c)) ''semantic_similarity'')
            (''semantic:'' @ event_reason t)\<rparr>\<rparr>"

fun semantic_candidates ::
    "'f search_env \<Rightarrow> string \<Rightarrow> packet_options \<Rightarrow> file_touch_scope option \<Rightarrow> bool \<Rightarrow> nat
     \<Rightarrow> 'f semantic_event_hit list \<Rightarrow> (uuid \<rightharpoonup> 'f hybrid_candidate) \<Rightarrow> (uuid \<rightharpoonup> 'f hybrid_candidate)" where
  "semantic_candidates E query options file_scope hybrid rank [] m = m"
| "semantic_candidates E query options file_scope hybrid rank (h # hs) m =
     (let hit = seh_hit h
      in if \<not> event_hit_matches_filters E hit (po_filters options) file_scope
         then semantic_candidates E query options file_scope hybrid rank hs m
         else
           let rank' = sat_add rank 1;
               score = (if hybrid then reciprocal_rank E rank' else en_max E (seh_similarity h) (en_zero E));
               entry = (case m (eh_event_id hit) of
                 Some c \<Rightarrow> c | None \<Rightarrow> hybrid_entry E query options hit None)
           in semantic_candidates E query options file_scope hybrid rank' hs
                (m(eh_event_id hit \<mapsto> add_semantic_score E (eh_event_type hit) score entry)))"

definition hybrid_rank :: "'f search_env \<Rightarrow> bool \<Rightarrow> 'f \<Rightarrow> 'f hybrid_candidate \<Rightarrow> 'f hybrid_candidate" where
  "hybrid_rank E hybrid weight c =
     c\<lparr>hc_result := (hc_result c)\<lparr>spr_rank :=
       (if hybrid
        then en_add E
          (en_mul E (en_add E (en_num E 1) (en_neg E weight)) (unwrap_or (hc_lexical_score c) (en_zero E)))
          (en_mul E weight (unwrap_or (hc_semantic_score c) (en_zero E)))
        else unwrap_or (hc_semantic_score c) (spr_rank (hc_result c)))\<rparr>\<rparr>"

definition hybrid_cluster :: "'f hybrid_candidate \<Rightarrow> uuid" where
  "hybrid_cluster c =
     unwrap_or (or_else (spr_session_id (hc_result c)) (spr_event_id (hc_result c)))
       (spr_record_id (hc_result c))"

definition hybrid_one_more :: "'f hybrid_candidate \<Rightarrow> 'f hybrid_candidate" where
  "hybrid_one_more c =
     c\<lparr>hc_result := (hc_result c)\<lparr>spr_more_matches_in_session :=
       sat_add (spr_more_matches_in_session (hc_result c)) 1\<rparr>\<rparr>"

definition clustered_hybrid :: "'f search_env \<Rightarrow> 'f hybrid_candidate \<Rightarrow> 'f hybrid_candidate" where
  "clustered_hybrid E c =
     (let r = hc_result c
      in c\<lparr>hc_result := r\<lparr>spr_result_scope := scope_of_result r,
           spr_session_importance :=
             session_importance E (spr_rank r) (spr_more_matches_in_session r)\<rparr>\<rparr>)"

definition cluster_hybrid_candidates_by_session ::
    "'f search_env \<Rightarrow> 'f hybrid_candidate list \<Rightarrow> 'f hybrid_candidate list" where
  "cluster_hybrid_candidates_by_session E cs =
     fst (foldl (\<lambda>acc c. put_indexed (hybrid_cluster c) hybrid_one_more (clustered_hybrid E c) acc)
       ([], Map.empty) cs)"

definition hybrid_results ::
    "'f search_env \<Rightarrow> packet_options \<Rightarrow> bool \<Rightarrow> 'f \<Rightarrow> (uuid \<rightharpoonup> 'f hybrid_candidate) \<Rightarrow> 'f hybrid_candidate list" where
  "hybrid_results E options hybrid weight m =
     (let cs = sort_by (compare_hybrid_candidates E)
            (map (\<lambda>i. hybrid_rank E hybrid (en_clamp E 0 1 weight) (the (m i))) (sorted_list_of_set (dom m)))
      in if po_result_mode options = SessionsMode then cluster_hybrid_candidates_by_session E cs else cs)"

definition semantic_event_search_packet ::
    "'f search_env \<Rightarrow> 'f search_store \<Rightarrow> string \<Rightarrow> packet_options \<Rightarrow> 'f semantic_event_hit list \<Rightarrow> 'f \<Rightarrow> bool
     \<Rightarrow> store_error + 'f search_packet_t" where
  "semantic_event_search_packet E S query given_options semantic_hits semantic_weight hybrid =
     (let options = normalized_options given_options;
          filters = po_filters options;
          file_scope = file_filter_scope S filters;
          page_size = max FILTERED_SEARCH_PAGE_SIZE
            (max (sat_mul (sat_add (po_limit options) 1) 8) 50)
      in if trim query = [] then Inr (empty_search_packet E query options)
         else if (case file_scope of None \<Rightarrow> False | Some sc \<Rightarrow> scope_is_empty sc)
         then Inr (empty_search_packet E query options)
         else
           bind_result (if hybrid then event_hits_page S filters query page_size 0 else Inr [])
             (\<lambda>lexical_hits.
             let m = semantic_candidates E query options file_scope hybrid 0 semantic_hits
                   (lexical_candidates E query options file_scope 0 lexical_hits Map.empty);
                 results = hybrid_results E options hybrid semantic_weight m;
                 has_more = po_limit options < length results
             in Inr (packet_of E query filters
                  (normalize_search_result_ranks E (map hc_result (take (po_limit options) results)))
                  has_more (if has_more then truncation_for ''limit'' 1 else no_truncation))))"

section \<open>Several terms\<close>

definition search_result_merge_key :: "'f search_packet_result \<Rightarrow> search_result_mode \<Rightarrow> uuid" where
  "search_result_merge_key r mode =
     (if mode = SessionsMode then unwrap_or (spr_session_id r) (spr_record_id r)
      else unwrap_or (spr_event_id r) (spr_record_id r))"

definition shown_of :: "'f search_packet_result \<Rightarrow> 'f search_packet_result \<Rightarrow> 'f search_packet_result" where
  "shown_of incoming existing =
     existing\<lparr>spr_title := spr_title incoming, spr_snippet := spr_snippet incoming,
       spr_record_id := spr_record_id incoming, spr_event_id := spr_event_id incoming,
       spr_event_seq := spr_event_seq incoming, spr_timestamp := spr_timestamp incoming,
       spr_cwd := spr_cwd incoming, spr_provider := spr_provider incoming,
       spr_provider_session_id := spr_provider_session_id incoming,
       spr_history_source := spr_history_source incoming,
       spr_history_source_plugin := spr_history_source_plugin incoming,
       spr_provider_key := spr_provider_key incoming, spr_source_id := spr_source_id incoming,
       spr_source_format := spr_source_format incoming,
       spr_raw_source_path := spr_raw_source_path incoming,
       spr_raw_source_exists := spr_raw_source_exists incoming, spr_cursor := spr_cursor incoming\<rparr>"

definition source_filled_from ::
    "'f search_packet_result \<Rightarrow> 'f search_packet_result \<Rightarrow> 'f search_packet_result" where
  "source_filled_from incoming existing =
     existing\<lparr>spr_history_source := or_else (spr_history_source existing) (spr_history_source incoming),
       spr_history_source_plugin :=
         or_else (spr_history_source_plugin existing) (spr_history_source_plugin incoming),
       spr_provider_key := or_else (spr_provider_key existing) (spr_provider_key incoming),
       spr_source_id := or_else (spr_source_id existing) (spr_source_id incoming),
       spr_source_format := or_else (spr_source_format existing) (spr_source_format incoming)\<rparr>"

definition merge_search_result ::
    "'f search_env \<Rightarrow> 'f search_packet_result \<Rightarrow> 'f search_packet_result \<Rightarrow> 'f search_packet_result" where
  "merge_search_result E incoming existing =
     (let shown = (if en_less E (spr_rank existing) (spr_rank incoming) then shown_of incoming existing
                   else source_filled_from incoming existing);
          rank = en_add E (en_max E (spr_rank existing) (spr_rank incoming)) (en_num E (8 / 100));
          more = sat_add (sat_add (spr_more_matches_in_session existing) 1)
            (spr_more_matches_in_session incoming)
      in shown\<lparr>spr_rank := rank, spr_more_matches_in_session := more,
           spr_session_importance :=
             (if spr_result_scope existing = SessionScope then session_importance E rank more
              else spr_session_importance existing),
           spr_why_matched := foldl push_unique_why (spr_why_matched existing) (spr_why_matched incoming),
           spr_citations := foldl push_unique_citation (spr_citations existing) (spr_citations incoming)\<rparr>)"

definition add_term_result ::
    "'f search_env \<Rightarrow> search_result_mode \<Rightarrow> string \<Rightarrow> 'f search_packet_result indexed \<Rightarrow> 'f search_packet_result
     \<Rightarrow> 'f search_packet_result indexed" where
  "add_term_result E mode term acc r =
     (let r' = r\<lparr>spr_why_matched := push_unique_why (spr_why_matched r) (''term:'' @ term)\<rparr>
      in put_indexed (search_result_merge_key r' mode) (merge_search_result E r') r' acc)"

definition sat_add_u32 :: "u32 \<Rightarrow> u32 \<Rightarrow> u32" where
  "sat_add_u32 a b = (if unat a + unat b < 2 ^ 32 then a + b else 0xFFFFFFFF)"

fun merge_term_packets ::
    "'f search_env \<Rightarrow> 'f search_store \<Rightarrow> packet_options \<Rightarrow> string list
     \<Rightarrow> 'f search_packet_result indexed \<times> bool \<times> u32
     \<Rightarrow> store_error + ('f search_packet_result indexed \<times> bool \<times> u32)" where
  "merge_term_packets E S child_options [] acc = Inr acc"
| "merge_term_packets E S child_options (term # terms) (merged, truncated, omitted) =
     bind_result (search_packet E S term child_options) (\<lambda>packet.
       merge_term_packets E S child_options terms
         (foldl (add_term_result E (po_result_mode child_options) term) merged (sp_results packet),
          truncated \<or> ct_truncated (sp_truncation packet),
          sat_add_u32 omitted (ct_omitted_results (sp_truncation packet))))"

definition merged_packet ::
    "'f search_env \<Rightarrow> string list \<Rightarrow> packet_options \<Rightarrow> 'f search_packet_result list \<Rightarrow> bool \<Rightarrow> u32
     \<Rightarrow> 'f search_packet_t" where
  "merged_packet E terms options merged truncated omitted =
     (let limit = po_limit options;
          sorted = sort_by (compare_search_results E) merged;
          has_more = limit < length sorted \<or> truncated;
          omitted = (if limit < length sorted then sat_add_u32 omitted (of_nat (length sorted - limit))
                     else omitted)
      in packet_of E (join '' OR '' terms) (po_filters options)
           (normalize_search_result_ranks E (take limit sorted)) has_more
           (if has_more
            then truncation_for (if truncated then ''source_limit'' else ''limit'') (max omitted 1)
            else no_truncation))"

definition search_packet_terms ::
    "'f search_env \<Rightarrow> 'f search_store \<Rightarrow> string \<Rightarrow> string list \<Rightarrow> packet_options
     \<Rightarrow> store_error + 'f search_packet_t" where
  "search_packet_terms E S query terms given_options =
     (let options = normalized_options given_options;
          search_terms = composed_search_terms E query terms
      in case search_terms of
           [] \<Rightarrow> search_packet E S query options
         | [term] \<Rightarrow> search_packet E S term options
         | _ \<Rightarrow>
             bind_result
               (merge_term_packets E S
                 (options\<lparr>po_limit := min (max (sat_mul (po_limit options) 2) (po_limit options))
                    MAX_RESULT_LIMIT\<rparr>) search_terms (([], Map.empty), False, 0))
               (\<lambda>((merged, _), truncated, omitted).
                 Inr (merged_packet E search_terms options merged truncated omitted)))"

end
