(* ===== verification/Search_Snippets.thy ===== *)
theory Search_Snippets
  imports Search_Ranking
begin

text \<open>
  What \<open>matched_snippet\<close> shows. It looks for the first term in the lower-case text and skips as many
  characters as the match has bytes before it: for ASCII text the snippet shows the match, for other
  text it can lie behind it.
\<close>

text \<open>An environment for concrete searches.\<close>

definition demo_search_env :: "int search_env" where
  "demo_search_env = \<lparr>en_unicode = demo_unicode, en_externals = demo_externals,
     en_path_exists = (\<lambda>_. False), en_now = 0, en_num = floor, en_lowest = -1000, en_add = (+), en_mul = (*),
     en_div = (div), en_neg = uminus, en_as_f32 = id, en_ln_1p = id, en_max = max, en_min = min,
     en_less = (<), en_total_less = (<)\<rparr>"

section \<open>Trimming keeps what is visible\<close>

lemma white_space_no_graph: "w \<in> set white_space \<Longrightarrow> c \<in> set w \<Longrightarrow> \<not> is_graph c"
  by (auto simp: white_space_def is_graph_def)

text \<open>A blank at the start of a text ends before the first visible character.\<close>

lemma blank_before_graph:
  assumes "w \<in> set white_space" "u @ t @ v = w @ r" "t \<noteq> []" "is_graph (hd t)"
  shows "length w \<le> length u"
proof (rule ccontr)
  assume "\<not> length w \<le> length u"
  then have "w ! length u = (u @ t @ v) ! length u" using assms(2) by (simp add: nth_append)
  also have "\<dots> = hd t" using assms(3) by (cases t) (simp_all add: nth_append)
  finally have "hd t \<in> set w" using \<open>\<not> length w \<le> length u\<close> by (metis not_le nth_mem)
  then show False using white_space_no_graph [OF assms(1)] assms(4) by blast
qed

lemma trim_start_keeps:
  assumes "t \<noteq> []" "is_graph (hd t)"
  shows "\<exists>u'. trim_start (u @ t @ v) = u' @ t @ v"
proof (induction "length u" arbitrary: u rule: less_induct)
  case less
  show ?case
  proof (cases "leading_space (u @ t @ v)")
    case None
    then show ?thesis by (auto simp: trim_start_id)
  next
    case (Some w)
    then obtain r where w: "w \<in> set white_space" "u @ t @ v = w @ r"
      by (auto simp: leading_space_def starts_with_iff dest!: find_eq_Some_set)
    then have le: "length w \<le> length u" using blank_before_graph assms by blast
    have "0 < length w" using w(1) white_space_nonempty by blast
    then have "length (drop (length w) u) < length u" using le by (cases w) auto
    then obtain u' where "trim_start (drop (length w) u @ t @ v) = u' @ t @ v"
      using less [of "drop (length w) u"] by auto
    then show ?thesis using Some le by (auto simp: trim_start.simps [of "u @ t @ v"])
  qed
qed

lemma trim_end_keeps:
  assumes "t \<noteq> []" "is_graph (last t)"
  shows "\<exists>v'. trim_end (u @ t @ v) = u @ t @ v'"
proof (induction "length v" arbitrary: v rule: less_induct)
  case less
  show ?case
  proof (cases "trailing_space (u @ t @ v)")
    case None
    then show ?thesis by (auto simp: trim_end_id)
  next
    case (Some w)
    then obtain r where w: "w \<in> set white_space" "rev v @ rev t @ rev u = rev w @ r"
      by (auto simp: trailing_space_def starts_with_iff dest!: find_eq_Some_set)
    have le: "length w \<le> length v"
    proof (rule ccontr)
      assume neg: "\<not> length w \<le> length v"
      then have "rev w ! length v = (rev v @ rev t @ rev u) ! length v" using w(2) by (simp add: nth_append)
      also have "\<dots> = last t" using assms(1) by (cases t rule: rev_cases) (simp_all add: nth_append)
      finally have "last t \<in> set w" using neg by (metis length_rev not_le nth_mem set_rev)
      then show False using white_space_no_graph [OF w(1)] assms(2) by blast
    qed
    have "0 < length w" using w(1) white_space_nonempty by blast
    then have "length (take (length v - length w) v) < length v" using le by (cases w) auto
    then obtain v' where "trim_end (u @ t @ take (length v - length w) v) = u @ t @ v'"
      using less [of "take (length v - length w) v"] by auto
    then show ?thesis using Some le by (auto simp: trim_end.simps [of "u @ t @ v"])
  qed
qed

lemma trim_keeps:
  assumes "t \<noteq> []" "\<forall>c \<in> set t. is_graph c"
  shows "\<exists>u' v'. trim (u @ t @ v) = u' @ t @ v'"
proof -
  obtain u' where "trim_start (u @ t @ v) = u' @ t @ v" using trim_start_keeps [of t u v] assms by auto
  moreover obtain v' where "trim_end (u' @ t @ v) = u' @ t @ v'" using trim_end_keeps [of t u' v] assms by auto
  ultimately show ?thesis by (auto simp: trim_def)
qed

section \<open>ASCII texts\<close>

definition ascii :: "string \<Rightarrow> bool" where
  "ascii s \<longleftrightarrow> (\<forall>c \<in> set s. (of_char c :: nat) < 128)"

lemma decode_ascii_bytes: "\<forall>b \<in> set bs. b < 128 \<Longrightarrow> decode_bytes bs = bs"
  by (induction bs rule: decode_bytes.induct) auto

lemma decode_ascii: "ascii s \<Longrightarrow> decode_utf8 s = map of_char s"
  by (simp add: decode_utf8_def ascii_def decode_ascii_bytes)

lemma encode_ascii: "\<forall>c \<in> set cs. c < 128 \<Longrightarrow> encode_utf8 cs = map char_of cs"
  by (induction cs) (simp_all add: encode_utf8_def encode_char_def utf8_def)

lemma encode_decoded_ascii: "ascii s \<Longrightarrow> encode_utf8 (map of_char s) = s"
  by (subst encode_ascii) (auto simp: ascii_def o_def)

definition lower_code :: "nat \<Rightarrow> nat" where
  "lower_code c = (if 65 \<le> c \<and> c \<le> 90 then c + 32 else c)"

definition lower_char :: "char \<Rightarrow> char" where
  "lower_char c = char_of (lower_code (of_char c))"

text \<open>Lower case of ASCII texts is that of their letters.\<close>

definition lowers_ascii :: "unicode \<Rightarrow> bool" where
  "lowers_ascii U \<longleftrightarrow> (\<forall>cs. (\<forall>c \<in> set cs. c < 128) \<longrightarrow> uc_lowercase U cs = map lower_code cs)"

lemma lower_ascii:
  assumes "ascii s" "lowers_ascii (en_unicode E)"
  shows "to_lowercase E s = map lower_char s"
proof -
  have "uc_lowercase (en_unicode E) (map of_char s) = map lower_code (map of_char s)"
    using assms by (simp add: lowers_ascii_def ascii_def)
  moreover have "encode_utf8 (map lower_code (map of_char s)) = map char_of (map lower_code (map of_char s))"
    using assms(1) by (intro encode_ascii) (auto simp: lower_code_def ascii_def)
  ultimately show ?thesis by (simp add: to_lowercase_def decode_ascii [OF assms(1)] lower_char_def)
qed

lemma lower_char_graph: "(of_char c :: nat) < 128 \<Longrightarrow> is_graph (lower_char c) \<Longrightarrow> is_graph c"
  by (auto simp: is_graph_def lower_char_def lower_code_def split: if_splits)

lemma ascii_sub: "ascii s \<Longrightarrow> set t \<subseteq> set s \<Longrightarrow> ascii t"
  by (auto simp: ascii_def)

lemma take_chars_ascii: "ascii s \<Longrightarrow> take_chars_from s n m = take m (drop n s)"
  by (subst encode_decoded_ascii [symmetric, of "take m (drop n s)"])
    (auto simp: take_chars_from_def decode_ascii take_map drop_map intro: ascii_sub dest: in_set_takeD in_set_dropD)

lemma truncate_ascii: "ascii s \<Longrightarrow> length s \<le> m \<Longrightarrow> truncate_chars s m = s"
  by (simp add: truncate_chars_def decode_ascii encode_decoded_ascii)

lemma trim_start_suffix: "\<exists>n. trim_start s = drop n s"
proof (induction s rule: trim_start.induct)
  case (1 s)
  show ?case
  proof (cases "leading_space s")
    case None
    then have "trim_start s = drop 0 s" by (simp add: trim_start_id)
    then show ?thesis by blast
  next
    case (Some w)
    with 1 obtain n where "trim_start (drop (length w) s) = drop n (drop (length w) s)" by blast
    with Some show ?thesis by (auto simp: trim_start.simps [of s])
  qed
qed

lemma trim_part: "\<exists>m n. trim s = take m (drop n s)"
  using trim_start_suffix [of s] trim_end_prefix [of "trim_start s"] by (fastforce simp: trim_def)

lemma length_trim_le: "length (trim s) \<le> length s"
  using trim_part [of s] by auto

lemma ascii_trim: "ascii s \<Longrightarrow> ascii (trim s)"
  using trim_part [of s] by (metis ascii_sub set_drop_subset set_take_subset subset_trans)

section \<open>Snippets of ASCII texts\<close>

lemma text_contains_iff: "text_contains p s \<longleftrightarrow> (\<exists>u v. s = u @ p @ v)"
proof
  assume "text_contains p s"
  then obtain n where "find_text p s = Some n" using text_contains_find by blast
  then obtain r where "drop n s = p @ r" using find_text_append by blast
  then show "\<exists>u v. s = u @ p @ v" by (metis append_take_drop_id)
next
  have "text_contains p (u @ p @ v)" for u v
    by (induction u) (cases p; cases v; simp add: starts_with_def)+
  then show "\<exists>u v. s = u @ p @ v \<Longrightarrow> text_contains p s" by blast
qed

lemma foldl_min_mem: "foldl min (p::nat) ps \<in> set (p # ps)"
  by (induction ps arbitrary: p) (auto simp: min_def)

lemma snippet_start_finds:
  assumes "t \<in> set terms" "text_contains t lower"
  shows "\<exists>t' \<in> set terms. find_text t' lower = Some (snippet_start terms lower)"
proof -
  have "List.map_filter (\<lambda>t. find_text t lower) terms \<noteq> []"
    using assms by (induction terms) (auto simp: List.map_filter_simps text_contains_find split: option.splits)
  then have "snippet_start terms lower \<in> set (List.map_filter (\<lambda>t. find_text t lower) terms)"
    using foldl_min_mem by (auto simp: snippet_start_def split: list.splits)
  then show ?thesis by (auto simp: map_filter_def)
qed

lemma snippet_window:
  fixes B :: string
  assumes "drop p B = b @ r" "length b + k \<le> m"
  shows "\<exists>x y. take m (drop (p - k) B) = x @ b @ y"
proof -
  have "drop (p - k) B = take (p - (p - k)) (drop (p - k) B) @ drop p B"
    by (metis append_take_drop_id drop_drop le_add_diff_inverse2 diff_le_self)
  then have "drop (p - k) B = take (p - (p - k)) (drop (p - k) B) @ b @ r" by (simp add: assms(1))
  moreover have "length (take (p - (p - k)) (drop (p - k) B)) \<le> k" by simp
  moreover have "take m (x @ b @ r) = x @ b @ take (m - length x - length b) r" if "length x \<le> k" for x
    using that assms(2) by simp
  ultimately show ?thesis by metis
qed

text \<open>the snippet of an ASCII text shows a match: if some term of the query occurs in the lower-case
  text and the terms are visible ASCII words of at most three quarters of the snippet's length, the
  lower-case snippet contains one of them, wherever in the text it stands.\<close>

theorem ascii_snippet_shows_match:
  assumes "ascii text" "lowers_ascii (en_unicode E)"
    and "\<forall>t \<in> set terms. t \<noteq> [] \<and> (\<forall>c \<in> set t. is_graph c) \<and> length t \<le> max_chars - max_chars div 4"
    and "t \<in> set terms" "text_contains t (to_lowercase E (trim text))"
  shows "\<exists>t' \<in> set terms. text_contains t' (to_lowercase E (matched_snippet E text terms max_chars))"
proof -
  let ?B = "trim text"
  have B: "ascii ?B" "to_lowercase E ?B = map lower_char ?B"
    using ascii_trim [OF assms(1)] lower_ascii assms(2) by auto
  obtain t' where t': "t' \<in> set terms" and found: "find_text t' (map lower_char ?B)
      = Some (snippet_start terms (map lower_char ?B))"
    using snippet_start_finds [OF assms(4)] assms(5) B(2) by auto
  let ?p = "snippet_start terms (map lower_char ?B)"
  obtain r where "drop ?p (map lower_char ?B) = t' @ r" using find_text_append [OF found] by blast
  then obtain b r' where br: "drop ?p ?B = b @ r'" "map lower_char b = t'"
    by (auto simp: drop_map map_eq_append_conv)
  have len: "length b + max_chars div 4 \<le> max_chars"
    using assms(3) t' br(2) by (metis length_map le_diff_conv2 div_le_dividend)
  have "set b \<subseteq> set ?B" using br(1) by (metis set_append set_drop_subset le_sup_iff)
  then have graph: "b \<noteq> []" "\<forall>c \<in> set b. is_graph c"
    using assms(3) t' br(2) lower_char_graph B(1) by (auto simp: ascii_def)
  let ?w = "take max_chars (drop (?p - max_chars div 4) ?B)"
  have w: "ascii ?w" by (rule ascii_sub [OF B(1)]) (auto dest: in_set_takeD in_set_dropD)
  obtain x y where "?w = x @ b @ y" using snippet_window [OF br(1) len] by blast
  then obtain x' y' where shown: "trim ?w = x' @ b @ y'" using trim_keeps graph by metis
  have "?B \<noteq> []" using br(1) graph(1) by auto
  moreover have "length (trim ?w) \<le> max_chars" using length_trim_le [of ?w] by simp
  ultimately have "matched_snippet E text terms max_chars = trim ?w"
    using B w by (simp add: matched_snippet_def Let_def take_chars_ascii local_snippet_def truncate_ascii ascii_trim)
  then have "to_lowercase E (matched_snippet E text terms max_chars) = map lower_char (trim ?w)"
    using lower_ascii [OF ascii_trim [OF w] assms(2)] by simp
  then show ?thesis using t' br(2) shown text_contains_iff by (metis map_append)
qed

theorem ascii_snippet_shows_match_witness:
  "\<exists>t' \<in> {''deploy''}.
     text_contains t' (to_lowercase demo_search_env (matched_snippet demo_search_env ''to Deploy'' [''deploy''] 32))"
proof -
  have "lowers_ascii (en_unicode demo_search_env)"
    by (auto simp: demo_search_env_def demo_unicode_def lowers_ascii_def lower_code_def)
  moreover have "ascii ''to Deploy''" by (simp add: ascii_def)
  moreover have "trim ''to Deploy'' = ''to Deploy''" by (rule trim_graph) (simp_all add: is_graph_def)
  moreover have "map lower_char ''to Deploy'' = ''to deploy''" by code_simp
  then have "text_contains ''deploy'' (to_lowercase demo_search_env ''to Deploy'')"
    using lower_ascii [OF calculation(2,1)] by (simp add: starts_with_def)
  ultimately show ?thesis
    using ascii_snippet_shows_match [of "''to Deploy''" demo_search_env "[''deploy'']" 32 "''deploy''"]
    by (simp add: is_graph_def)
qed

section \<open>Snippets of other texts\<close>

lemma decode_two_bytes:
  "decode_bytes (concat (replicate n [195, 169]) @ bs) = replicate n 233 @ decode_bytes bs"
proof (induction n)
  case (Suc n)
  have "decode_bytes (195 # 169 # r) = 233 # decode_bytes r" for r
    by (cases r; cases "tl r") auto
  then show ?case using Suc by simp
qed simp

text \<open>A text of one \<open>x\<close>, \<open>n\<close> letters of two bytes each and \<open>needle\<close>.\<close>

definition accented :: "nat \<Rightarrow> cps" where
  "accented n = 120 # replicate n 233 @ map of_char ''needle''"

definition accented_text :: "nat \<Rightarrow> string" where
  "accented_text n = CHR ''x'' # concat (replicate n [CHR 0xC3, CHR 0xA9]) @ ''needle''"

lemma decode_accented: "decode_utf8 (accented_text n) = accented n"
proof -
  have "decode_bytes (120 # bs) = 120 # decode_bytes bs" for bs
    by (cases bs; cases "tl bs"; cases "tl (tl bs)") auto
  moreover have "map of_char (accented_text n)
      = 120 # concat (replicate n [195, 169]) @ map (of_char :: char \<Rightarrow> nat) ''needle''"
    by (simp add: accented_text_def map_concat map_replicate)
  ultimately show ?thesis
    by (simp add: decode_utf8_def decode_two_bytes accented_def decode_ascii_bytes)
qed

lemma char_codes:
  "char_of (120::nat) = CHR ''x''" "char_of (195::nat) = CHR 0xC3" "char_of (169::nat) = CHR 0xA9"
  "char_of (110::nat) = CHR ''n''" "char_of (101::nat) = CHR ''e''" "char_of (100::nat) = CHR ''d''"
  "char_of (108::nat) = CHR ''l''"
  by code_simp+

lemma encode_accented: "encode_utf8 (accented n) = accented_text n"
  by (simp add: char_codes encode_utf8_def accented_def accented_text_def encode_char_def utf8_def map_replicate)

lemma find_needle: "find_text ''needle'' (accented_text n) = Some (2 * n + 1)"
proof -
  have "find_text ''needle'' (concat (replicate n [CHR 0xC3, CHR 0xA9]) @ ''needle'') = Some (2 * n)"
    by (induction n) (simp_all add: starts_with_def)
  then show ?thesis by (simp add: accented_text_def starts_with_def)
qed

text \<open>C13: the snippet of a text that is not ASCII need not show the match: \<open>lower.find\<close> gives a number of
  bytes, \<open>take_chars_from\<close> skips that many characters. If at least \<open>max_chars / 4 + 6\<close> letters of two
  bytes stand before the only match, the snippet of a matching text is empty.\<close>

theorem multibyte_snippet_is_empty:
  assumes "uc_lowercase (en_unicode E) (accented n) = accented n" "max_chars div 4 + 6 \<le> n"
  shows "matching_term_count E (accented_text n) [''needle''] = 1
    \<and> matched_snippet E (accented_text n) [''needle''] max_chars = []"
proof -
  have lower: "to_lowercase E (accented_text n) = accented_text n"
    using assms(1) by (simp add: to_lowercase_def decode_accented encode_accented)
  have trim: "trim (accented_text n) = accented_text n"
    by (rule trim_graph) (simp_all add: accented_text_def is_graph_def)
  have "snippet_start [''needle''] (accented_text n) = 2 * n + 1"
    by (simp add: snippet_start_def find_needle List.map_filter_simps)
  moreover have "take_chars_from (accented_text n) (2 * n + 1 - max_chars div 4) max_chars = []"
    using assms(2) by (simp add: take_chars_from_def decode_accented) (simp add: accented_def encode_utf8_def)
  moreover have "local_snippet [] max_chars = []"
    by (simp add: local_snippet_def truncate_chars_def decode_utf8_def encode_utf8_def)
  moreover have "accented_text n \<noteq> []" by (simp add: accented_text_def)
  ultimately have "matched_snippet E (accented_text n) [''needle''] max_chars = []"
    by (simp add: matched_snippet_def trim lower Let_def)
  moreover have "matching_term_count E (accented_text n) [''needle''] = 1"
    by (simp add: matching_term_count_def lower text_contains_find find_needle)
  ultimately show ?thesis by simp
qed

theorem multibyte_snippet_is_empty_witness:
  "matched_snippet demo_search_env (accented_text 86) [''needle''] 320 = []"
proof -
  have "uc_lowercase (en_unicode demo_search_env) (accented 86) = accented 86"
    by (simp add: demo_search_env_def demo_unicode_def accented_def)
  then show ?thesis using multibyte_snippet_is_empty [of demo_search_env 86 320] by simp
qed

end
