(* ===== verification/Search_Results.thy ===== *)
theory Search_Results
  imports Search_Packet Search_Snippets
begin

text \<open>
  What the packets of a search satisfy: in a search by sessions no two results share a session, no
  packet is longer than its limit, the fast search over events returns the first matching hits in
  order, and none of its results belongs to the excluded session.
\<close>

section \<open>A store for concrete searches\<close>

definition plain_filters :: search_filters where
  "plain_filters = \<lparr>sf_session = None, sf_provider = None, sf_history_source = None, sf_provider_key = None,
     sf_source_id = None, sf_source_format = None, sf_repo = None, sf_since = None, sf_primary_only = False,
     sf_include_subagents = True, sf_event_type = None, sf_file = None, sf_exclude_provider_session = None\<rparr>"

definition demo_search_store :: "db \<Rightarrow> history_record list \<Rightarrow> int event_search_hit list \<Rightarrow> int search_store" where
  "demo_search_store d rs hits = \<lparr>so_db = d, so_get_record = (\<lambda>i. Inl (NotFound i)),
     so_artifacts_for_record = (\<lambda>_. Inr []), so_vcs_changes_for_record = (\<lambda>_. Inr []),
     so_summaries_for_record = (\<lambda>_. Inr []),
     so_search_event_hits_page = (\<lambda>_ n off. Inr (take n (drop off hits))),
     so_search_event_hits_page_prefer_conversation = (\<lambda>_ n off. Inr (take n (drop off hits))),
     so_search_records = (\<lambda>_ n. Inr (take n rs)),
     so_search_records_page = (\<lambda>_ n off. Inr (take n (drop off rs)))\<rparr>"

definition demo_hit :: "uuid \<Rightarrow> int event_search_hit" where
  "demo_hit i = \<lparr>eh_event_id = i, eh_history_record_id = None, eh_session_id = Some (Uuid [7]),
     eh_session_parent_session_id = None, eh_session_root_session_id = None, eh_run_id = None, eh_seq = 1,
     eh_event_type = EventType_Message, eh_role = None, eh_occurred_at = 0, eh_preview = ''deploy'', eh_score = -1,
     eh_provider = None, eh_session_external_session_id = None, eh_history_source = None,
     eh_history_source_plugin = None, eh_provider_key = None, eh_source_id = None, eh_source_format = None,
     eh_agent_type = None, eh_session_is_primary = None, eh_cwd = None, eh_raw_source_path = None,
     eh_cursor = None, eh_record_title = None, eh_record_kind = None, eh_record_workspace = None\<rparr>"

definition demo_packet_options :: "search_result_mode \<Rightarrow> packet_options" where
  "demo_packet_options mode = \<lparr>po_limit = 1, po_snippet_chars = 320, po_filters = plain_filters,
     po_result_mode = mode\<rparr>"

abbreviation "demo_large_store \<equiv> demo_search_store (empty_db\<lparr>db_events := replicate 1024 demo_event\<rparr>) []
  [demo_hit (Uuid [1]), demo_hit (Uuid [2])]"

lemma demo_fast_search:
  "\<exists>rs. fast_event_search_packet demo_search_env demo_large_store ''deploy'' (demo_packet_options mode) None
     = Inr (Some (fast_packet demo_search_env ''deploy'' (demo_packet_options mode) rs False)) \<and> rs \<noteq> []"
proof -
  have "\<not> has_filters plain_filters" "\<not> has_history_source_filter plain_filters" "sf_event_type plain_filters = None"
    by (simp_all add: has_filters_def plain_filters_def has_history_source_filter_def given_text_def)
  moreover have "trim ''deploy'' \<noteq> []" by (simp add: trim_graph is_graph_def)
  moreover have "has_at_least_events 1024 (empty_db\<lparr>db_events := replicate 1024 demo_event\<rparr>)"
    by (simp add: has_at_least_events_def)
  moreover have "\<exists>rs. fast_pages FILTERED_SEARCH_MAX_PAGES demo_search_env demo_large_store ''deploy''
      (demo_packet_options mode) None (sat_add (po_limit (demo_packet_options mode)) 1)
      (fast_page_size (demo_packet_options mode)) 0 ([], Map.empty) = Inr (rs, False) \<and> rs \<noteq> []"
  proof -
    obtain n where pages: "FILTERED_SEARCH_MAX_PAGES = Suc n"
      by (cases FILTERED_SEARCH_MAX_PAGES) (simp_all add: FILTERED_SEARCH_MAX_PAGES_def)
    have limit: "sat_add (po_limit (demo_packet_options mode)) 1 = 2"
      by (simp add: demo_packet_options_def sat_add_exact usize_max_def)
    have size: "fast_page_size (demo_packet_options mode) = (if mode = SessionsMode then 500 else 2)"
      using calculation(1) limit
      by (simp add: fast_page_size_def FILTERED_SEARCH_PAGE_SIZE_def sat_mul_def usize_max_def)
        (simp add: demo_packet_options_def)
    have options: "po_filters (demo_packet_options m) = plain_filters"
      "po_result_mode (demo_packet_options m) = m" for m by (simp_all add: demo_packet_options_def)
    show ?thesis
      unfolding pages limit size using calculation(1,3)
      by (cases mode) (simp_all add: options event_hits_page_def demo_search_store_def no_filters_match
          add_fast_hit_def put_indexed_def Let_def take_Cons' split: option.splits)
  qed
  ultimately show ?thesis
    by (auto simp: fast_event_search_packet_def demo_packet_options_def demo_search_store_def
        LARGE_EVENT_CORPUS_THRESHOLD_def simp del: fast_pages.simps)
qed

section \<open>Indexed results\<close>

text \<open>The index leads from the key of each result to its position.\<close>

definition index_ok :: "('r \<Rightarrow> uuid) \<Rightarrow> 'r indexed \<Rightarrow> bool" where
  "index_ok key acc \<longleftrightarrow> (\<forall>k i. snd acc k = Some i \<longleftrightarrow> i < length (fst acc) \<and> key (fst acc ! i) = k)"

lemma index_ok_empty [intro, simp]: "index_ok key ([], Map.empty)"
  by (simp add: index_ok_def)

lemma index_ok_iff:
  "index_ok key acc \<Longrightarrow> snd acc k = Some i \<longleftrightarrow> i < length (fst acc) \<and> key (fst acc ! i) = k"
  unfolding index_ok_def by (elim allE)

lemma index_ok_distinct:
  assumes "index_ok key acc"
  shows "distinct (map key (fst acc))"
proof -
  have "i = j" if "i < length (fst acc)" "j < length (fst acc)" "key (fst acc ! i) = key (fst acc ! j)" for i j
  proof -
    have "snd acc (key (fst acc ! i)) = Some i" "snd acc (key (fst acc ! j)) = Some j"
      using index_ok_iff [OF assms, of "key (fst acc ! i)" i] index_ok_iff [OF assms, of "key (fst acc ! j)" j]
        that(1,2) by simp_all
    then have "Some i = Some j" unfolding that(3) by (rule trans [OF sym])
    then show ?thesis by simp
  qed
  note same = this
  show ?thesis
    unfolding distinct_conv_nth length_map
  proof (intro allI impI notI)
    fix i j
    assume "i < length (fst acc)" "j < length (fst acc)" "i \<noteq> j"
      "map key (fst acc) ! i = map key (fst acc) ! j"
    then show False using same [of i j] by simp
  qed
qed

text \<open>Results that are merged under a key: an update by a result of the same key keeps the key.\<close>

locale indexed_results =
  fixes key :: "'r \<Rightarrow> uuid"
    and update :: "'r \<Rightarrow> 'r \<Rightarrow> 'r"
  assumes update_keeps: "key x = key r \<Longrightarrow> key (update x r) = key r"
begin

lemma put_keeps_index:
  assumes ok: "index_ok key acc" and fresh: "key fresh = key x"
  shows "index_ok key (put_indexed (key x) (update x) fresh acc)"
proof -
  obtain rs index where acc: "acc = (rs, index)" by (rule prod.exhaust)
  show ?thesis
  proof (cases "index (key x)")
    case None
    have "\<not> (i < length rs \<and> key (rs ! i) = key x)" for i
      using ok None unfolding index_ok_def acc by (metis fst_conv option.distinct(1) snd_conv)
    then have "index_ok key (rs @ [fresh], index(key x \<mapsto> length rs))"
      using ok fresh by (auto simp: index_ok_def acc nth_append less_Suc_eq)
    then show ?thesis by (simp add: put_indexed_def acc None)
  next
    case (Some i)
    then have i: "i < length rs" "key (rs ! i) = key x" using ok by (auto simp: index_ok_def acc)
    then have "key (update x (rs ! i)) = key (rs ! i)" by (simp add: update_keeps)
    then have "key (rs[i := update x (rs ! i)] ! j) = key (rs ! j)" for j
      using i by (cases "i = j") (auto simp: nth_list_update)
    then have "index_ok key (rs[i := update x (rs ! i)], index)"
      using ok by (simp add: index_ok_def acc)
    then show ?thesis by (simp add: put_indexed_def acc Some)
  qed
qed

lemma fold_keeps_index:
  assumes "index_ok key acc" "\<And>x. key (fresh x) = key x"
  shows "index_ok key (foldl (\<lambda>acc x. put_indexed (key x) (update x) (fresh x) acc) acc xs)"
  using assms(1)
proof (induction xs arbitrary: acc)
  case (Cons x xs)
  show ?case using Cons.IH [OF put_keeps_index [OF Cons.prems assms(2)]] by simp
qed simp

lemma fold_keys_distinct:
  assumes "\<And>x. key (fresh x) = key x"
  shows "distinct (map key (fst (foldl (\<lambda>acc x. put_indexed (key x) (update x) (fresh x) acc) ([], Map.empty) xs)))"
  by (rule index_ok_distinct, rule fold_keeps_index) (simp_all add: assms)

end

interpretation fast: indexed_results result_cluster "\<lambda>_. one_more_match E" for E :: "'f search_env"
  by unfold_locales (simp add: one_more_match_def result_cluster_def Let_def)

interpretation hybrid: indexed_results hybrid_cluster "\<lambda>_. hybrid_one_more"
  by unfold_locales (simp add: hybrid_one_more_def hybrid_cluster_def)

definition event_key :: "'f search_packet_result \<Rightarrow> uuid" where
  "event_key r = search_result_merge_key r EventsMode"

interpretation terms: indexed_results event_key "\<lambda>x. merge_search_result E x" for E :: "'f search_env"
  by unfold_locales
    (simp add: event_key_def search_result_merge_key_def merge_search_result_def shown_of_def
      source_filled_from_def Let_def)

lemma length_put_indexed:
  "length (fst (put_indexed k u fresh acc)) \<le> Suc (length (fst acc))"
  by (cases acc) (simp add: put_indexed_def split: option.splits)

section \<open>Normalized ranks keep everything else\<close>

lemma normalize_keeps:
  assumes "\<And>r x y. g (r\<lparr>spr_rank := x, spr_session_importance := y\<rparr>) = g r"
  shows "map g (normalize_search_result_ranks E rs) = map g rs"
  using assms by (simp add: normalize_search_result_ranks_def Let_def)

lemma length_normalize [simp]: "length (normalize_search_result_ranks E rs) = length rs"
  by (simp add: normalize_search_result_ranks_def Let_def)

lemma normalize_clusters [simp]:
  "map result_cluster (normalize_search_result_ranks E rs) = map result_cluster rs"
  by (rule normalize_keeps) (simp add: result_cluster_def)

lemma normalize_event_ids [simp]:
  "map spr_event_id (normalize_search_result_ranks E rs) = map spr_event_id rs"
  by (rule normalize_keeps) simp

section \<open>The fast search\<close>

lemma fast_hit_keeps_index:
  assumes "index_ok result_cluster acc" "po_result_mode options = SessionsMode"
  shows "index_ok result_cluster (add_fast_hit E query options hit acc)"
proof -
  let ?r = "clustered_event_result E hit query (po_snippet_chars options)"
  have "result_cluster ?r = hit_cluster hit"
    by (simp add: clustered_event_result_def event_search_result_def result_cluster_def hit_cluster_def Let_def)
  then show ?thesis
    using fast.put_keeps_index [where fresh = ?r and x = ?r and E = E, OF assms(1) refl] assms(2)
    by (simp add: add_fast_hit_def)
qed

lemma add_fast_hits_keeps:
  assumes "P acc"
    and "\<And>hit acc. event_hit_matches_filters E hit (po_filters options) file_scope \<Longrightarrow> P acc
      \<Longrightarrow> P (add_fast_hit E query options hit acc)"
  shows "P (add_fast_hits E query options file_scope target hits acc)"
  using assms(1) by (induction hits arbitrary: acc) (simp_all add: Let_def assms(2))

lemma fast_pages_keeps:
  assumes "fast_pages n E S query options file_scope target page_size offset acc = Inr (rs, exhausted)" "P acc"
    and keeps: "\<And>hit acc. event_hit_matches_filters E hit (po_filters options) file_scope \<Longrightarrow> P acc
      \<Longrightarrow> P (add_fast_hit E query options hit acc)"
  shows "\<exists>index. P (rs, index)"
  using assms(1,2)
proof (induction n arbitrary: offset acc)
  case (Suc n)
  from Suc.prems(1) obtain hits where
    "event_hits_page S (po_filters options) query page_size offset = Inr hits"
    by (auto simp: bind_result_eq_Inr)
  moreover have "P (add_fast_hits E query options file_scope target hits acc)"
    by (rule add_fast_hits_keeps [where P = P, OF Suc.prems(2) keeps])
  moreover from this have "\<exists>index. P (fst (add_fast_hits E query options file_scope target hits acc), index)"
    by (metis prod.collapse)
  ultimately show ?case
    using Suc.prems(1) Suc.IH by (auto simp: Let_def split: if_splits)
next
  case 0
  then show ?case by (auto intro: exI [of _ "snd acc"])
qed

text \<open>A result stands for a hit when it shows its event and session.\<close>

definition shows_hit :: "'f search_packet_result \<Rightarrow> 'f event_search_hit \<Rightarrow> bool" where
  "shows_hit r hit \<longleftrightarrow>
     spr_event_id r = Some (eh_event_id hit) \<and> spr_session_id r = eh_session_id hit
     \<and> spr_provider r = eh_provider hit \<and> spr_provider_session_id r = eh_session_external_session_id hit"

definition from_hits ::
    "'f search_env \<Rightarrow> search_filters \<Rightarrow> file_touch_scope option \<Rightarrow> 'f search_packet_result list \<Rightarrow> bool" where
  "from_hits E filters file_scope rs \<longleftrightarrow>
     (\<forall>r \<in> set rs. \<exists>hit. event_hit_matches_filters E hit filters file_scope \<and> shows_hit r hit)"

lemma set_put_indexed:
  assumes "index_ok key acc" "r \<in> set (fst (put_indexed k u fresh acc))"
  shows "r = fresh \<or> r \<in> set (fst acc) \<or> (\<exists>s \<in> set (fst acc). r = u s)"
proof (cases "snd acc k")
  case None
  then show ?thesis using assms(2) by (cases acc) (auto simp: put_indexed_def)
next
  case (Some i)
  then have "i < length (fst acc)" using assms(1) unfolding index_ok_def by blast
  then show ?thesis
    using assms(2) Some by (cases acc) (auto simp: put_indexed_def dest!: subsetD [OF set_update_subset_insert])
qed

lemma fast_hit_from_hits:
  assumes "event_hit_matches_filters E hit filters file_scope"
    "from_hits E filters file_scope (fst acc) \<and> (po_result_mode options = SessionsMode \<longrightarrow> index_ok result_cluster acc)"
  shows "from_hits E filters file_scope (fst (add_fast_hit E query options hit acc))
    \<and> (po_result_mode options = SessionsMode \<longrightarrow> index_ok result_cluster (add_fast_hit E query options hit acc))"
proof -
  let ?r = "event_search_result E hit query (po_snippet_chars options)"
  have fresh: "shows_hit ?r hit" "shows_hit (clustered_event_result E hit query (po_snippet_chars options)) hit"
    by (simp_all add: shows_hit_def clustered_event_result_def event_search_result_def Let_def)
  have more: "shows_hit (one_more_match E r) h = shows_hit r h" for r :: "'a search_packet_result" and h
    by (simp add: shows_hit_def one_more_match_def Let_def)
  show ?thesis
  proof (cases "po_result_mode options = SessionsMode")
    case True
    then have "index_ok result_cluster acc" using assms(2) by simp
    have "\<exists>h. event_hit_matches_filters E h filters file_scope \<and> shows_hit r h"
      if "r \<in> set (fst (add_fast_hit E query options hit acc))" for r
    proof -
      have "r = clustered_event_result E hit query (po_snippet_chars options) \<or> r \<in> set (fst acc)
          \<or> (\<exists>s \<in> set (fst acc). r = one_more_match E s)"
        using set_put_indexed [OF \<open>index_ok result_cluster acc\<close>] that True by (simp add: add_fast_hit_def)
      then show ?thesis using assms fresh(2) more unfolding from_hits_def by blast
    qed
    then show ?thesis
      using fast_hit_keeps_index [OF \<open>index_ok result_cluster acc\<close> True] by (simp add: from_hits_def)
  next
    case False
    then show ?thesis using assms fresh(1) by (auto simp: from_hits_def add_fast_hit_def)
  qed
qed

lemma fast_pages_from_hits:
  assumes "fast_pages n E S query options file_scope target page_size offset ([], Map.empty) = Inr (rs, exhausted)"
  shows "from_hits E (po_filters options) file_scope rs
    \<and> (po_result_mode options = SessionsMode \<longrightarrow> distinct (map result_cluster rs))"
proof -
  let ?P = "\<lambda>acc. from_hits E (po_filters options) file_scope (fst acc)
    \<and> (po_result_mode options = SessionsMode \<longrightarrow> index_ok result_cluster acc)"
  have "?P ([], Map.empty)" by (simp add: from_hits_def)
  from fast_pages_keeps [where P = ?P, OF assms this fast_hit_from_hits]
  obtain index where "?P (rs, index)" by blast
  then show ?thesis using index_ok_distinct [of result_cluster "(rs, index)"] by simp
qed

lemma from_hits_take: "from_hits E filters file_scope rs \<Longrightarrow> from_hits E filters file_scope (take n rs)"
  by (auto simp: from_hits_def dest: in_set_takeD)

lemma set_normalize:
  assumes "r' \<in> set (normalize_search_result_ranks E rs)"
  shows "\<exists>r \<in> set rs. \<exists>x y. r' = r\<lparr>spr_rank := x, spr_session_importance := y\<rparr>"
proof (cases "en_less E (en_zero E) (foldl (en_max E) (en_zero E) (map spr_rank rs))")
  case True
  then show ?thesis using assms by (auto simp: normalize_search_result_ranks_def Let_def)
next
  case False
  then have "r' \<in> set rs" "r' = r'\<lparr>spr_rank := spr_rank r', spr_session_importance := spr_session_importance r'\<rparr>"
    using assms by (simp_all add: normalize_search_result_ranks_def)
  then show ?thesis by blast
qed

lemma from_hits_normalize:
  assumes "from_hits E filters file_scope rs"
  shows "from_hits E filters file_scope (normalize_search_result_ranks E rs)"
proof -
  have "shows_hit (r\<lparr>spr_rank := x, spr_session_importance := y\<rparr>) hit = shows_hit r hit" for r x y hit
    by (simp add: shows_hit_def)
  then show ?thesis using assms unfolding from_hits_def by (metis set_normalize)
qed

section \<open>The search over records\<close>

lemma push_candidates_clusters:
  assumes "po_result_mode options = SessionsMode" "index_ok result_cluster acc"
  shows "distinct (map result_cluster (push_candidate_results E query options cs acc))"
  using assms(2)
proof (induction cs arbitrary: acc)
  case Nil
  then show ?case by (simp add: index_ok_distinct)
next
  case (Cons c cs)
  let ?r = "candidate_search_result E c query options"
  have "index_ok result_cluster (put_indexed (result_cluster ?r) (one_more_match E) ?r acc)"
    "index_ok result_cluster
       (put_indexed (result_cluster ?r) (one_more_match E) (clustered_candidate_result E ?r) acc)"
    by (rule fast.put_keeps_index, rule Cons.prems,
        simp add: clustered_candidate_result_def result_cluster_def)+
  note index = this
  show ?case
    using Cons.IH [OF index(1)] Cons.IH [OF index(2)] index_ok_distinct [OF index(2)] assms(1)
    by (simp add: Let_def)
qed

lemma push_candidates_length:
  assumes "length (fst acc) < po_limit options"
  shows "length (push_candidate_results E query options cs acc) \<le> po_limit options"
  using assms
proof (induction cs arbitrary: acc)
  case (Cons c cs)
  let ?r = "candidate_search_result E c query options"
  have "length (fst (put_indexed k u fresh acc)) = length (fst acc)" if "snd acc k \<noteq> None" for k u fresh
    using that by (cases acc) (auto simp: put_indexed_def)
  moreover have "length (fst (put_indexed k u fresh acc)) \<le> po_limit options" for k u fresh
    using length_put_indexed [of k u fresh acc] Cons.prems by linarith
  ultimately show ?case
    using Cons.IH Cons.prems by (auto simp: Let_def not_le intro!: le_antisym)
qed simp

section \<open>Every packet of a search\<close>

lemma normalized_limit: "1 \<le> po_limit (normalized_options options)" "po_limit (normalized_options options) \<le> 200"
  "po_limit options \<noteq> 0 \<Longrightarrow> po_limit (normalized_options options) \<le> po_limit options"
  by (simp_all add: normalized_options_def clamp_nat_def MAX_RESULT_LIMIT_def)

lemma search_packet_cases:
  assumes "search_packet E S query given = Inr p"
  obtains (none) "sp_results p = []"
  | (fast) rs exhausted target size where
      "fast_pages FILTERED_SEARCH_MAX_PAGES E S query (normalized_options given)
         (file_filter_scope S (po_filters (normalized_options given))) target size 0 ([], Map.empty)
       = Inr (rs, exhausted)"
      "sp_results p
       = normalize_search_result_ranks E (take (po_limit (normalized_options given)) rs)"
  | (candidates) cs where
      "sp_results p = push_candidate_results E query (normalized_options given) cs ([], Map.empty)"
proof -
  note unfold = search_packet_def Let_def bind_result_eq_Inr fast_event_search_packet_def
    fast_packet_def candidate_packet_def packet_of_def empty_search_packet_def
  show ?thesis
    using assms by (auto simp: unfold split: if_splits option.splits prod.splits intro: that)
qed

text \<open>C12: however it is answered, a search returns at most its limit of results, and never more than 200; in
  a search by sessions no two results belong to the same session (results without a session count as
  their record), so that a session is listed once however many of its events match.\<close>

theorem sessions_listed_once:
  assumes "search_packet E S query options = Inr p"
  shows "length (sp_results p) \<le> po_limit (normalized_options options) \<and> length (sp_results p) \<le> 200
    \<and> (po_result_mode options = SessionsMode \<longrightarrow> distinct (map result_cluster (sp_results p)))"
proof -
  have mode: "po_result_mode (normalized_options options) = po_result_mode options"
    by (simp add: normalized_options_def)
  have "length (sp_results p) \<le> po_limit (normalized_options options)"
    "po_result_mode options = SessionsMode \<Longrightarrow> distinct (map result_cluster (sp_results p))"
    using assms
  proof (atomize (full), cases rule: search_packet_cases)
    case (fast rs exhausted target size)
    then show "length (sp_results p) \<le> po_limit (normalized_options options)
      \<and> (po_result_mode options = SessionsMode \<longrightarrow> distinct (map result_cluster (sp_results p)))"
      using fast_pages_from_hits [OF fast(1)] by (simp add: mode distinct_take flip: take_map)
  next
    case (candidates cs)
    then show "length (sp_results p) \<le> po_limit (normalized_options options)
      \<and> (po_result_mode options = SessionsMode \<longrightarrow> distinct (map result_cluster (sp_results p)))"
      using normalized_limit(1) [of options]
        push_candidates_clusters [of "normalized_options options" "([], Map.empty)" E query cs]
        push_candidates_length [of "([], Map.empty)" "normalized_options options" E query cs]
      by (auto simp: mode)
  qed simp
  then show ?thesis using normalized_limit(2) [of options] by simp
qed

theorem sessions_listed_once_witness:
  "\<exists>p. search_packet demo_search_env demo_large_store ''deploy'' (demo_packet_options SessionsMode) = Inr p
     \<and> length (sp_results p) \<le> 1 \<and> distinct (map result_cluster (sp_results p))"
proof -
  have options: "normalized_options (demo_packet_options SessionsMode) = demo_packet_options SessionsMode"
    by (simp add: normalized_options_def demo_packet_options_def clamp_nat_def MAX_RESULT_LIMIT_def
        normalized_filters_def normalized_text_filter_def plain_filters_def)
  obtain rs where "fast_event_search_packet demo_search_env demo_large_store ''deploy''
      (demo_packet_options SessionsMode) None
      = Inr (Some (fast_packet demo_search_env ''deploy'' (demo_packet_options SessionsMode) rs False))"
    using demo_fast_search [of SessionsMode] by blast
  moreover have "sf_file (po_filters (demo_packet_options SessionsMode)) = None"
    "sf_provider (po_filters (demo_packet_options SessionsMode)) = None"
    by (simp_all add: demo_packet_options_def plain_filters_def)
  ultimately obtain p where
    p: "search_packet demo_search_env demo_large_store ''deploy'' (demo_packet_options SessionsMode) = Inr p"
    by (simp add: search_packet_def options file_filter_scope_def)
  from sessions_listed_once [OF p] p show ?thesis
    by (auto simp: options) (simp_all add: demo_packet_options_def)
qed

section \<open>The fast search in order\<close>

lemma add_fast_hits_in_order:
  assumes "po_result_mode options = EventsMode" "length (fst acc) < target"
  shows "fst (add_fast_hits E query options file_scope target hits acc)
    = take target (fst acc @ map (\<lambda>hit. event_search_result E hit query (po_snippet_chars options))
        (filter (\<lambda>hit. event_hit_matches_filters E hit (po_filters options) file_scope) hits))"
  using assms(2)
proof (induction hits arbitrary: acc)
  case (Cons hit hits)
  then show ?case
    using assms(1) by (auto simp: Let_def add_fast_hit_def take_Cons')
qed simp

lemma drop_take_page:
  "take (ps + n) (drop off xs) = take ps (drop off xs) @ take n (drop (off + ps) xs)"
  by (simp only: take_add drop_drop add.commute [of ps off])

lemma page_short: "0 < ps \<Longrightarrow> length (take ps (drop off xs)) < ps \<longleftrightarrow> length xs < off + ps"
  by auto

lemma fast_pages_in_order:
  fixes options :: packet_options
  defines "wanted \<equiv> \<lambda>E file_scope hit. event_hit_matches_filters E hit (po_filters options) file_scope"
  assumes pages: "\<And>n off. event_hits_page S (po_filters options) query n off = Inr (take n (drop off hits))"
    and mode: "po_result_mode options = EventsMode" and filtered: "has_filters (po_filters options)"
    and ps: "0 < ps"
  shows "length (fst acc) < target \<Longrightarrow> off + Suc n * ps \<le> usize_max \<Longrightarrow>
    fast_pages (Suc n) E S query options file_scope target ps off acc =
    Inr (take target (fst acc @ map (\<lambda>hit. event_search_result E hit query (po_snippet_chars options))
           (filter (wanted E file_scope) (take (Suc n * ps) (drop off hits)))),
         length (fst acc) + length (filter (wanted E file_scope) (take (Suc n * ps) (drop off hits))) < target
         \<and> off + Suc n * ps \<le> length hits)"
proof (induction n arbitrary: off acc)
  case 0
  let ?page = "take ps (drop off hits)"
  let ?acc = "add_fast_hits E query options file_scope target ?page acc"
  have acc: "fst ?acc = take target (fst acc @ map (\<lambda>hit. event_search_result E hit query (po_snippet_chars options))
      (filter (wanted E file_scope) ?page))"
    using add_fast_hits_in_order [OF mode 0(1), of E query file_scope ?page] by (simp add: wanted_def)
  then have "target \<le> length (fst ?acc) \<longleftrightarrow>
      \<not> length (fst acc) + length (filter (wanted E file_scope) ?page) < target" by auto
  moreover have "length ?page < ps \<longleftrightarrow> length hits < off + ps" using page_short [OF ps] .
  ultimately show ?case
    unfolding acc [symmetric] using pages [of ps off] filtered
    by (auto simp: Let_def mode acc simp del: length_take length_drop)
next
  case (Suc n)
  let ?page = "take ps (drop off hits)"
  let ?acc = "add_fast_hits E query options file_scope target ?page acc"
  have acc: "fst ?acc = take target (fst acc @ map (\<lambda>hit. event_search_result E hit query (po_snippet_chars options))
      (filter (wanted E file_scope) ?page))"
    using add_fast_hits_in_order [OF mode Suc.prems(1), of E query file_scope ?page] by (simp add: wanted_def)
  have all: "take (Suc (Suc n) * ps) (drop off hits) = ?page @ take (Suc n * ps) (drop (off + ps) hits)"
    by (simp only: mult_Suc [of "Suc n"] drop_take_page)
  have step: "sat_add off ps = off + ps" using Suc.prems(2) by (simp add: sat_add_def)
  have unfold: "fast_pages (Suc (Suc n)) E S query options file_scope target ps off acc =
      (if target \<le> length (fst ?acc) \<or> length ?page < ps then Inr (fst ?acc, False)
       else fast_pages (Suc n) E S query options file_scope target ps (off + ps) ?acc)"
    using pages [of ps off] filtered ps
    by (simp add: mode step Let_def del: fast_pages.simps(2) add: fast_pages.simps(2) [of "Suc n"])
  consider (enough) "target \<le> length (fst ?acc)" | (short) "length (fst ?acc) < target" "length ?page < ps"
    | (more) "length (fst ?acc) < target" "\<not> length ?page < ps" by linarith
  then show ?case
  proof cases
    case enough
    then have "target \<le> length (fst acc) + length (filter (wanted E file_scope) ?page)"
      unfolding acc by simp
    then show ?thesis unfolding unfold all using enough acc by (simp del: length_take length_drop)
  next
    case short
    then have "drop (off + ps) hits = []" "\<not> off + Suc (Suc n) * ps \<le> length hits"
      using page_short [OF ps] by auto
    then show ?thesis unfolding unfold all using short acc by (auto simp del: length_take length_drop)
  next
    case more
    have le: "off + ps + Suc n * ps \<le> usize_max" using Suc.prems(2) by simp
    have "fst ?acc = fst acc @ map (\<lambda>hit. event_search_result E hit query (po_snippet_chars options))
      (filter (wanted E file_scope) ?page)"
      using acc more(1) by (simp add: min_def split: if_splits)
    then show ?thesis
      unfolding unfold all using more Suc.IH [OF more(1) le] by (simp add: add.assoc)
  qed
qed

text \<open>C11: a search over events returns the first matching hits, in the order of the full-text engine and
  none twice or left out: its event identifiers are those of the first \<open>limit\<close> hits that match the filters
  among the 10,000 that the page budget allows to read; and it reports more results exactly when
  there are more matching ones among these, or when the engine has 10,000 hits, the budget is spent
  and fewer than \<open>limit + 1\<close> matched.\<close>

theorem event_search_in_order:
  assumes "\<And>n off. event_hits_page S (po_filters options) query n off = Inr (take n (drop off hits))"
    and "po_result_mode options = EventsMode" "1 \<le> po_limit options" "po_limit options \<le> 200"
    and "sf_file (po_filters options) = None \<longrightarrow> file_scope = None"
    and "fast_event_search_packet E S query options file_scope = Inr (Some p)"
  shows "let found = filter (\<lambda>hit. event_hit_matches_filters E hit (po_filters options) file_scope)
             (take 10000 hits)
         in map spr_event_id (sp_results p) = map (\<lambda>hit. Some (eh_event_id hit)) (take (po_limit options) found)
            \<and> (cp_has_more (sp_pagination p) \<longleftrightarrow> po_limit options < length found
                \<or> has_filters (po_filters options) \<and> 10000 \<le> length hits)"
proof -
  let ?wanted = "\<lambda>hit. event_hit_matches_filters E hit (po_filters options) file_scope"
  let ?result = "\<lambda>hit. event_search_result E hit query (po_snippet_chars options)"
  let ?found = "filter ?wanted (take 10000 hits)"
  let ?target = "po_limit options + 1"
  have target: "sat_add (po_limit options) 1 = ?target" "sat_add (po_limit options) (Suc 0) = ?target"
    using assms(4) by (simp_all add: sat_add_def usize_max_def)
  obtain rs exhausted where
    pages: "fast_pages 20 E S query options file_scope ?target (fast_page_size options) 0 ([], Map.empty)
      = Inr (rs, exhausted)"
    and p: "p = fast_packet E query options rs exhausted"
    using assms(6) target
    by (auto simp: fast_event_search_packet_def bind_result_eq_Inr FILTERED_SEARCH_MAX_PAGES_def split: if_splits)
  have rs: "take (po_limit options) rs = map ?result (take (po_limit options) ?found)
      \<and> (po_limit options < length rs \<or> exhausted \<longleftrightarrow> po_limit options < length ?found
         \<or> has_filters (po_filters options) \<and> 10000 \<le> length hits)"
  proof (cases "has_filters (po_filters options)")
    case True
    have "fast_page_size options = 500"
      using True assms(2,4) by (simp add: fast_page_size_def FILTERED_SEARCH_PAGE_SIZE_def target)
    then have "rs = take ?target (map ?result ?found)"
      "exhausted \<longleftrightarrow> length ?found < ?target \<and> 10000 \<le> length hits"
      using fast_pages_in_order [OF assms(1,2) True, of 500 "([], Map.empty)" ?target 0 19 E file_scope] pages
      by (auto simp: usize_max_def)
    then show ?thesis using True by (auto simp: take_map min_def)
  next
    case False
    then have "?wanted hit" for hit
      using assms(5) no_filters_match [OF False] by (simp add: has_filters_def)
    moreover have "fast_page_size options = ?target"
      using False assms(2) by (simp add: fast_page_size_def target)
    ultimately have "rs = map ?result (take ?target hits)" "\<not> exhausted"
      using pages False assms(1,2) add_fast_hits_in_order [OF assms(2), of "([], Map.empty)" ?target E query file_scope "take ?target hits"]
      by (auto simp: Let_def numeral_eq_Suc take_map)
    moreover have "?found = take 10000 hits" using \<open>\<And>hit. ?wanted hit\<close> by simp
    ultimately show ?thesis using False assms(4) by (auto simp: take_map min_def)
  qed
  have "map spr_event_id (sp_results p) = map spr_event_id (take (po_limit options) rs)"
    by (simp add: p fast_packet_def packet_of_def Let_def)
  then show ?thesis
    using rs by (simp add: p fast_packet_def packet_of_def pagination_def Let_def event_search_result_def o_def)
qed

theorem event_search_in_order_witness:
  "\<exists>p. fast_event_search_packet demo_search_env demo_large_store ''deploy'' (demo_packet_options EventsMode) None
       = Inr (Some p)
     \<and> map spr_event_id (sp_results p) = [Some (Uuid [1])] \<and> cp_has_more (sp_pagination p)"
proof -
  obtain p where p: "fast_event_search_packet demo_search_env demo_large_store ''deploy''
      (demo_packet_options EventsMode) None = Inr (Some p)"
    using demo_fast_search [of EventsMode] by blast
  have "\<not> has_filters plain_filters"
    by (simp add: has_filters_def plain_filters_def has_history_source_filter_def given_text_def)
  moreover note event_search_in_order [OF _ _ _ _ _ p, of "[demo_hit (Uuid [1]), demo_hit (Uuid [2])]"]
  ultimately show ?thesis
    using p by (simp add: demo_packet_options_def event_hits_page_def demo_search_store_def no_filters_match)
      (simp add: demo_hit_def)
qed

text \<open>every result of the fast search over events stands for a hit that passed all filters: it shows
  that hit's event, session and provider, whichever page it came from and however many hits of its
  session were counted into it. In particular it shows no event of an excluded session.\<close>

theorem event_results_match_filters:
  assumes "fast_event_search_packet E S query options file_scope = Inr (Some p)" "r \<in> set (sp_results p)"
  shows "\<exists>hit. event_hit_matches_filters E hit (po_filters options) file_scope \<and> shows_hit r hit
    \<and> \<not> event_hit_matches_excluded_provider_session hit (po_filters options)"
proof -
  obtain rs exhausted where
    "fast_pages FILTERED_SEARCH_MAX_PAGES E S query options file_scope (sat_add (po_limit options) 1)
       (fast_page_size options) 0 ([], Map.empty) = Inr (rs, exhausted)"
    and p: "p = fast_packet E query options rs exhausted"
    using assms(1) by (auto simp: fast_event_search_packet_def bind_result_eq_Inr split: if_splits)
  then have "from_hits E (po_filters options) file_scope rs" using fast_pages_from_hits by blast
  then have "from_hits E (po_filters options) file_scope (sp_results p)"
    using from_hits_normalize [OF from_hits_take] by (simp add: p fast_packet_def packet_of_def Let_def)
  then show ?thesis using assms(2) matching_hit_not_excluded unfolding from_hits_def by blast
qed

theorem event_results_match_filters_witness:
  "\<exists>p r. fast_event_search_packet demo_search_env demo_large_store ''deploy'' (demo_packet_options SessionsMode) None
       = Inr (Some p)
     \<and> r \<in> set (sp_results p) \<and> (\<exists>hit. shows_hit r hit
       \<and> event_hit_matches_filters demo_search_env hit plain_filters None)"
proof -
  obtain rs where rs: "fast_event_search_packet demo_search_env demo_large_store ''deploy''
      (demo_packet_options SessionsMode) None
      = Inr (Some (fast_packet demo_search_env ''deploy'' (demo_packet_options SessionsMode) rs False))" "rs \<noteq> []"
    using demo_fast_search [of SessionsMode] by blast
  let ?p = "fast_packet demo_search_env ''deploy'' (demo_packet_options SessionsMode) rs False"
  have "length (sp_results ?p) = min (length rs) 1"
    by (simp add: fast_packet_def packet_of_def Let_def demo_packet_options_def)
  then have "sp_results ?p \<noteq> []" using rs(2) by (cases rs) auto
  then obtain r where "r \<in> set (sp_results ?p)" by (meson last_in_set)
  moreover have "po_filters (demo_packet_options SessionsMode) = plain_filters"
    by (simp add: demo_packet_options_def)
  ultimately show ?thesis using event_results_match_filters [OF rs(1)] rs(1) by metis
qed

section \<open>A record with two sessions, one of them excluded\<close>

definition two_sessions_record :: history_record where
  "two_sessions_record = \<lparr>hr_id = Uuid [9], hr_title = ''deploy'', hr_body = '''', hr_tags = [],
     hr_kind = ''note'', hr_workspace = None, hr_created_at = 0, hr_updated_at = 0\<rparr>"

definition session_of_two :: "uuid \<Rightarrow> datetime \<Rightarrow> session" where
  "session_of_two i t = \<lparr>se_id = i, se_history_record_id = Some (Uuid [9]), se_parent_session_id = None,
     se_root_session_id = None, se_capture_source_id = None, se_provider = CaptureProvider_Codex,
     se_external_session_id = None, se_external_agent_id = None, se_agent_type = AgentType_Primary,
     se_role_hint = None, se_is_primary = True, se_status = SessionStatus_Imported,
     se_transcript_blob_id = None, se_started_at = t, se_ended_at = None,
     se_timestamps = \<lparr>et_created_at = 0, et_updated_at = 0\<rparr>, se_sync = default_sync_metadata\<rparr>"

definition two_sessions_db :: db where
  "two_sessions_db = empty_db\<lparr>db_sessions := [session_of_two (Uuid [1]) 1, session_of_two (Uuid [2]) 2],
     db_events := [demo_event\<lparr>ev_id := Uuid [3], ev_history_record_id := Some (Uuid [9]),
       ev_session_id := Some (Uuid [2])\<rparr>]\<rparr>"

definition excluding :: "uuid \<Rightarrow> packet_options" where
  "excluding i = \<lparr>po_limit = 10, po_snippet_chars = 320,
     po_filters = plain_filters\<lparr>sf_exclude_provider_session :=
       Some \<lparr>psf_provider = CaptureProvider_Codex, psf_provider_session_id = ''x'', psf_session_id = Some i\<rparr>\<rparr>,
     po_result_mode = SessionsMode\<rparr>"



definition two_sessions_context :: record_context where
  "two_sessions_context = \<lparr>rc_sessions = db_sessions two_sessions_db, rc_runs = [],
     rc_events = db_events two_sessions_db, rc_artifacts = [], rc_files_touched = [], rc_vcs_changes = [],
     rc_summaries = [], rc_sources = []\<rparr>"

lemma default_sync_readable: "unat (sm_sync_version default_sync_metadata) < 9223372036854775808"
  by (simp add: default_sync_metadata_def)

lemma hydrate_two:
  "hydrate_record_context (demo_search_store two_sessions_db rs []) (Uuid [9]) None = Inr two_sessions_context"
  by (simp add: hydrate_record_context_def demo_search_store_def two_sessions_db_def two_sessions_context_def
      sessions_for_record_def runs_for_record_def events_for_record_def files_touched_for_record_def empty_db_def
      session_of_two_def session_from_row_def default_sync_readable recent_files_def event_of_record_def
      event_from_row_def demo_event_def Let_def readable_u64_def less_uuid_def less_eq_uuid_def)

lemma two_sessions_matched:
  "record_matches_filters demo_search_env two_sessions_record two_sessions_context (po_filters (excluding (Uuid [2]))) None"
  by code_simp

lemma two_sessions_analyzed:
  "let a = analyze_record demo_search_env two_sessions_record two_sessions_context [''deploy'']
       (po_filters (excluding (Uuid [2])))
   in 0 < ma_score a \<and> map_option hm_event_id (ma_primary_hit a) = Some None"
  by code_simp

lemma deploy_terms: "query_terms demo_search_env ''deploy'' = [''deploy'']"
  by code_simp

lemma two_sessions_candidate:
  "\<exists>c. candidate_for_record demo_search_env (demo_search_store two_sessions_db rs []) two_sessions_record [''deploy'']
     (po_filters (excluding (Uuid [2]))) None = Inr (Some c)
   \<and> ca_context c = two_sessions_context \<and> map_option hm_event_id (ca_primary_hit c) = Some None"
proof -
  have "hr_id two_sessions_record = Uuid [9]" "sf_file (po_filters (excluding (Uuid [2]))) = None"
    "en_less demo_search_env = (<)" "en_zero demo_search_env = 0"
    by (simp_all add: two_sessions_record_def excluding_def plain_filters_def demo_search_env_def)
  then show ?thesis
    using two_sessions_matched two_sessions_analyzed
    by (simp add: candidate_for_record_def hydrate_two Let_def)
qed

lemma two_sessions_shown:
  assumes "ca_context c = two_sessions_context" "map_option hm_event_id (ca_primary_hit c) = Some None"
  shows "spr_session_id (candidate_search_result E c query (excluding (Uuid [2]))) = Some (Uuid [2])"
proof -
  obtain hit where "ca_primary_hit c = Some hit" "hm_event_id hit = None" using assms(2) by auto
  then show ?thesis
    using assms(1)
    by (simp add: candidate_search_result_def candidate_display_hit_def two_sessions_context_def two_sessions_db_def
        excluding_def plain_filters_def event_hit_def source_hit_def demo_event_def empty_hit_def context_session_def
        row_with_def session_of_two_def set_tree_def hit_matches_history_source_filter_def
        has_history_source_filter_def given_text_def Let_def)
qed

lemma best_candidates_single:
  "0 < n \<Longrightarrow> \<exists>s. best_candidates E n [c] = [c\<lparr>ca_score := s\<rparr>]"
  by (cases n) (auto simp: best_candidates_def normalize_scores_def sort_by_def Let_def)

text \<open>the search over records can show a result of the session it was told to exclude. A record has two
  sessions and matches by its title, which is shown for the first one; the hit has no event, so
  \<open>candidate_display_hit\<close> takes the first event of the record, without asking whose session it is: the
  result for \<open>deploy\<close> that excludes the second session carries the second session's identifier.\<close>

theorem excluded_session_is_shown:
  "\<exists>p r. search_packet demo_search_env (demo_search_store two_sessions_db [two_sessions_record] []) ''deploy''
       (excluding (Uuid [2])) = Inr p
     \<and> r \<in> set (sp_results p) \<and> spr_session_id r = Some (Uuid [2])"
proof -
  let ?S = "demo_search_store two_sessions_db [two_sessions_record] []"
  let ?options = "excluding (Uuid [2])"
  have options: "normalized_options ?options = ?options"
    by (simp add: normalized_options_def excluding_def clamp_nat_def MAX_RESULT_LIMIT_def normalized_filters_def
        normalized_text_filter_def plain_filters_def)
  have filters: "has_filters (po_filters ?options)" "sf_provider (po_filters ?options) = None"
    "sf_file (po_filters ?options) = None" "po_limit ?options = 10" "po_result_mode ?options = SessionsMode"
    by (simp_all add: has_filters_def excluding_def plain_filters_def)
  have fast: "fast_event_search_packet demo_search_env ?S ''deploy'' ?options None = Inr None"
    by (simp add: fast_event_search_packet_def demo_search_store_def two_sessions_db_def has_at_least_events_def
        LARGE_EVENT_CORPUS_THRESHOLD_def)
  obtain c where c: "candidate_for_record demo_search_env ?S two_sessions_record [''deploy''] (po_filters ?options) None
      = Inr (Some c)" "ca_context c = two_sessions_context" "map_option hm_event_id (ca_primary_hit c) = Some None"
    using two_sessions_candidate by blast
  have pages: "candidate_pages 20 demo_search_env ?S ''deploy'' [''deploy''] (po_filters ?options) None 11 500 0 [] []
      = Inr ([c], False)"
    using c(1) by (simp add: numeral_eq_Suc demo_search_store_def trim_graph is_graph_def)
  obtain s where best: "best_candidates demo_search_env 11 [c] = [c\<lparr>ca_score := s\<rparr>]"
    using best_candidates_single [of 11 demo_search_env c] by auto
  let ?c = "c\<lparr>ca_score := s\<rparr>"
  let ?r = "candidate_search_result demo_search_env ?c ''deploy'' ?options"
  have ranked: "ranked_candidates demo_search_env ?S (Some ''deploy'') ?options None
      = Inr \<lparr>cas_candidates = [?c], cas_scan_budget_exhausted = False\<rparr>"
    using pages filters(1,4) best
    by (simp add: ranked_candidates_def str_or_empty_def deploy_terms sat_add_exact usize_max_def Let_def
        FILTERED_SEARCH_MAX_PAGES_def FILTERED_SEARCH_PAGE_SIZE_def)
  have "search_packet demo_search_env ?S ''deploy'' ?options
      = Inr (candidate_packet demo_search_env ''deploy'' ?options
          \<lparr>cas_candidates = [?c], cas_scan_budget_exhausted = False\<rparr>)"
    using fast ranked filters(2,3) by (simp add: search_packet_def options file_filter_scope_def)
  moreover have "sp_results (candidate_packet demo_search_env ''deploy'' ?options
          \<lparr>cas_candidates = [?c], cas_scan_budget_exhausted = False\<rparr>)
      = [clustered_candidate_result demo_search_env ?r]"
    using filters(4,5) by (simp add: candidate_packet_def packet_of_def put_indexed_def Let_def)
  moreover have "spr_session_id (clustered_candidate_result demo_search_env ?r) = Some (Uuid [2])"
    using two_sessions_shown [of ?c] c(2,3) by (simp add: clustered_candidate_result_def)
  ultimately show ?thesis by auto
qed
end
