(* ===== verification/Import_Common.thy ===== *)
theory Import_Common
  imports Store_Events
begin

text \<open>
  What the theories of the provider import share: \<open>CaptureError\<close> (\<open>error.rs\<close> of
  \<open>ctx-history-capture\<close>) with its text, and the JSON values the importer builds: an object is a
  sorted map, so its members are listed by key.
\<close>

section \<open>Errors of the import\<close>

text \<open>The variants with what they wrap; the text of a wrapped library error is the argument \<open>W\<close> of
  \<open>capture_error_text\<close>.\<close>

datatype capture_error =
    CaptureIo
  | CaptureJson
  | CaptureStore store_error
  | CaptureSqlite sql_error
  | CaptureTime
  | CaptureUuid
  | CaptureUnsupportedSchemaVersion u32
  | CaptureInvalidPayload string
  | CaptureInvalidPath string
  | CaptureInvalidTranscriptPath string string
  | CaptureWriterClosed
  | CaptureWorkerPanicked string
  | CaptureSystemIo string
  | CaptureSystemInvariant string
  | CaptureInvalidJsonLine string nat

fun capture_error_text :: "(capture_error \<Rightarrow> string) \<Rightarrow> capture_error \<Rightarrow> string" where
  "capture_error_text W CaptureIo = ''io error: '' @ W CaptureIo"
| "capture_error_text W CaptureJson = ''json error: '' @ W CaptureJson"
| "capture_error_text W (CaptureStore e) = ''store error: '' @ W (CaptureStore e)"
| "capture_error_text W (CaptureSqlite e) = ''sqlite error: '' @ W (CaptureSqlite e)"
| "capture_error_text W CaptureTime = ''time parse error: '' @ W CaptureTime"
| "capture_error_text W CaptureUuid = ''uuid parse error: '' @ W CaptureUuid"
| "capture_error_text W (CaptureUnsupportedSchemaVersion v) =
     ''unsupported capture envelope schema version: '' @ dec (unat v)"
| "capture_error_text W (CaptureInvalidPayload s) = ''invalid capture payload: '' @ s"
| "capture_error_text W (CaptureInvalidPath p) = ''invalid spool path: '' @ W (CaptureInvalidPath p)"
| "capture_error_text W (CaptureInvalidTranscriptPath p reason) =
     ''invalid provider transcript path '' @ W (CaptureInvalidPath p) @ '': '' @ reason"
| "capture_error_text W CaptureWriterClosed = ''spool writer is already closed''"
| "capture_error_text W (CaptureWorkerPanicked w) = w @ '' worker thread panicked''"
| "capture_error_text W (CaptureSystemIo op) =
     ''system I/O error during '' @ op @ '': '' @ W CaptureIo"
| "capture_error_text W (CaptureSystemInvariant s) = ''system invariant failed: '' @ s"
| "capture_error_text W (CaptureInvalidJsonLine p line) =
     ''line '' @ dec line @ '' in '' @ W (CaptureInvalidPath p)
       @ '' is not a valid capture envelope: '' @ W CaptureJson"

text \<open>\<open>?\<close> on a store result inside the importer.\<close>

fun from_store :: "store_error + 'a \<Rightarrow> capture_error + 'a" where
  "from_store (Inl e) = Inl (CaptureStore e)"
| "from_store (Inr x) = Inr x"

lemma from_store_eq_Inr [simp]: "from_store r = Inr x \<longleftrightarrow> r = Inr x"
  by (cases r) auto

lemma from_store_eq_Inl: "from_store r = Inl e \<longleftrightarrow> (\<exists>s. e = CaptureStore s \<and> r = Inl s)"
  by (cases r) auto

section \<open>JSON values\<close>

definition json_object :: "(string \<times> json) list \<Rightarrow> json" where
  "json_object ms = JObj (sort_key fst ms)"

fun json_of_option :: "('a \<Rightarrow> json) \<Rightarrow> 'a option \<Rightarrow> json" where
  "json_of_option f None = JNull"
| "json_of_option f (Some x) = f x"

abbreviation "json_str_opt \<equiv> json_of_option JStr"
abbreviation "json_u64 n \<equiv> JNum (PosInt n)"
abbreviation "json_usize n \<equiv> JNum (PosInt (of_nat n))"
abbreviation "json_uuid X u \<equiv> JStr (uuid_text X u)"
abbreviation "json_time X t \<equiv> JStr (time_text X t)"

text \<open>Members of \<open>None\<close> that the derived serializers skip.\<close>

fun member_if_some :: "string \<Rightarrow> ('a \<Rightarrow> json) \<Rightarrow> 'a option \<Rightarrow> (string \<times> json) list" where
  "member_if_some k f None = []"
| "member_if_some k f (Some x) = [(k, f x)]"

definition checkpoint_json :: "externals \<Rightarrow> provider_cursor_checkpoint \<Rightarrow> json" where
  "checkpoint_json X c =
     json_object [(''stream'', JStr (pcc_stream c)), (''cursor'', JStr (pcc_cursor c)),
       (''observed_at'', json_time X (pcc_observed_at c))]"

definition cursor_range_json :: "externals \<Rightarrow> provider_cursor_range \<Rightarrow> json" where
  "cursor_range_json X r =
     json_object (member_if_some ''before'' (checkpoint_json X) (pcr_before r)
       @ member_if_some ''after'' (checkpoint_json X) (pcr_after r))"

definition artifact_json :: "provider_artifact_descriptor \<Rightarrow> json" where
  "artifact_json a =
     json_object
       ([(''provider_artifact_id'', JStr (pad_provider_artifact_id a)),
         (''kind'', JStr (enum_as_str artifact_kind_table (pad_kind a)))]
        @ member_if_some ''media_type'' JStr (pad_media_type a)
        @ member_if_some ''source_path'' JStr (pad_source_path a)
        @ member_if_some ''preview_text'' JStr (pad_preview_text a)
        @ member_if_some ''byte_size'' json_u64 (pad_byte_size a)
        @ [(''metadata'', pad_metadata a)])"

lemma map_of_sort_key_fst:
  assumes "distinct (map fst xs)"
  shows "map_of (sort_key fst xs) = map_of xs"
proof -
  have "distinct (map fst (sort_key fst xs))" using assms by (simp add: distinct_map)
  with assms show ?thesis by (intro map_of_inject_set [THEN iffD2]) auto
qed

lemma jget_json_object:
  "distinct (map fst ms) \<Longrightarrow> jget (json_object ms) k = map_of ms k"
  by (simp add: json_object_def map_of_sort_key_fst)

section \<open>Actions\<close>

text \<open>An operation of the importer changes the state it is given, also when it then fails: it returns
  its result and the state it leaves. \<open>keeps P m\<close> says that \<open>m\<close> leaves \<open>P\<close> true however it ends.\<close>

type_synonym ('s, 'e, 'a) fallible = "'s \<Rightarrow> ('e + 'a) \<times> 's"

type_synonym ('s, 'a) action = "('s, capture_error, 'a) fallible"

definition return_m :: "'a \<Rightarrow> ('s, 'e, 'a) fallible" where
  "return_m x s = (Inr x, s)"

definition raise_m :: "'e \<Rightarrow> ('s, 'e, 'a) fallible" where
  "raise_m e s = (Inl e, s)"

definition bind_m ::
    "('s, 'e, 'a) fallible \<Rightarrow> ('a \<Rightarrow> ('s, 'e, 'b) fallible) \<Rightarrow> ('s, 'e, 'b) fallible" where
  "bind_m m f s = (case m s of (Inl e, t) \<Rightarrow> (Inl e, t) | (Inr x, t) \<Rightarrow> f x t)"

definition of_result :: "'e + 'a \<Rightarrow> ('s, 'e, 'a) fallible" where
  "of_result r s = (r, s)"

definition read_m :: "('s \<Rightarrow> 'e + 'a) \<Rightarrow> ('s, 'e, 'a) fallible" where
  "read_m f s = (f s, s)"

definition modify_m :: "('s \<Rightarrow> 's) \<Rightarrow> ('s, 'e, unit) fallible" where
  "modify_m f s = (Inr (), f s)"

definition keeps :: "('s \<Rightarrow> bool) \<Rightarrow> ('s, 'e, 'a) fallible \<Rightarrow> bool" where
  "keeps P m \<longleftrightarrow> (\<forall>s. P s \<longrightarrow> P (snd (m s)))"

named_theorems keeps_intros \<open>actions that keep a property of the state\<close>

lemma keepsI: "(\<And>s. P s \<Longrightarrow> P (snd (m s))) \<Longrightarrow> keeps P m"
  by (simp add: keeps_def)

lemma keepsD: "keeps P m \<Longrightarrow> P s \<Longrightarrow> P (snd (m s))"
  by (simp add: keeps_def)

lemma keeps_step: "keeps P m \<Longrightarrow> P s \<Longrightarrow> m s = (r, t) \<Longrightarrow> P t"
  by (drule (1) keepsD) simp

lemma keeps_stepI: "(\<And>s r t. P s \<Longrightarrow> m s = (r, t) \<Longrightarrow> P t) \<Longrightarrow> keeps P m"
  by (rule keepsI) (metis prod.collapse)

lemma keeps_return [keeps_intros]: "keeps P (return_m x)"
  by (simp add: keeps_def return_m_def)

lemma keeps_raise [keeps_intros]: "keeps P (raise_m e)"
  by (simp add: keeps_def raise_m_def)

lemma keeps_of_result [keeps_intros]: "keeps P (of_result r)"
  by (simp add: keeps_def of_result_def)

lemma keeps_read [keeps_intros]: "keeps P (read_m f)"
  by (simp add: keeps_def read_m_def)

lemma keeps_modify: "(\<And>s. P s \<Longrightarrow> P (f s)) \<Longrightarrow> keeps P (modify_m f)"
  by (simp add: keeps_def modify_m_def)

lemma keeps_bind [keeps_intros]:
  assumes "keeps P m" "\<And>x. keeps P (f x)"
  shows "keeps P (bind_m m f)"
proof (rule keepsI)
  fix s assume "P s"
  obtain r t where m: "m s = (r, t)" by force
  with keepsD [OF assms(1) \<open>P s\<close>] have "P t" by simp
  then show "P (snd (bind_m m f s))"
    using m keepsD [OF assms(2)] by (cases r) (auto simp: bind_m_def)
qed

lemma keeps_if [keeps_intros]: "keeps P m \<Longrightarrow> keeps P n \<Longrightarrow> keeps P (if b then m else n)"
  by simp

lemma keeps_case_option [keeps_intros]:
  "keeps P m \<Longrightarrow> (\<And>x. keeps P (f x)) \<Longrightarrow> keeps P (case v of None \<Rightarrow> m | Some x \<Rightarrow> f x)"
  by (cases v) auto

lemma bind_m_Inr:
  "bind_m m f s = (Inr y, t) \<longleftrightarrow> (\<exists>x u. m s = (Inr x, u) \<and> f x u = (Inr y, t))"
  by (auto simp: bind_m_def split: prod.splits sum.splits)

lemma return_m_eq [simp]: "return_m x s = (r, t) \<longleftrightarrow> r = Inr x \<and> t = s"
  by (auto simp: return_m_def)

text \<open>Actions whose only errors are those of the store.\<close>

definition store_errors_only :: "('s, 'a) action \<Rightarrow> bool" where
  "store_errors_only m \<longleftrightarrow> (\<forall>s e t. m s = (Inl e, t) \<longrightarrow> (\<exists>se. e = CaptureStore se))"

definition store_errors :: "(capture_error + 'a) \<Rightarrow> bool" where
  "store_errors r \<longleftrightarrow> (\<forall>e. r = Inl e \<longrightarrow> (\<exists>se. e = CaptureStore se))"

named_theorems store_error_intros \<open>actions and results that fail with store errors only\<close>

lemma store_errors_Inr [store_error_intros]: "store_errors (Inr x)"
  by (simp add: store_errors_def)

lemma store_errors_store [store_error_intros]: "store_errors (Inl (CaptureStore e))"
  by (simp add: store_errors_def)

lemma store_errors_bind [store_error_intros]:
  "store_errors r \<Longrightarrow> (\<And>x. store_errors (f x)) \<Longrightarrow> store_errors (bind_result r f)"
  by (cases r) (auto simp: store_errors_def)

lemma store_errors_from_store [store_error_intros]: "store_errors (from_store r)"
  by (auto simp: store_errors_def from_store_eq_Inl)

lemma store_errors_if [store_error_intros]:
  "store_errors r \<Longrightarrow> store_errors q \<Longrightarrow> store_errors (if b then r else q)"
  by simp

lemma store_errors_option [store_error_intros]:
  "store_errors r \<Longrightarrow> (\<And>x. store_errors (f x)) \<Longrightarrow> store_errors (case v of None \<Rightarrow> r | Some x \<Rightarrow> f x)"
  by (cases v) auto

lemma store_only_return [store_error_intros]: "store_errors_only (return_m x)"
  by (simp add: store_errors_only_def)

lemma store_only_bind [store_error_intros]:
  "store_errors_only m \<Longrightarrow> (\<And>x. store_errors_only (f x)) \<Longrightarrow> store_errors_only (bind_m m f)"
  by (fastforce simp: store_errors_only_def bind_m_def split: prod.splits sum.splits)

lemma store_only_of_result [store_error_intros]: "store_errors r \<Longrightarrow> store_errors_only (of_result r)"
  by (auto simp: store_errors_only_def store_errors_def of_result_def)

lemma store_only_read [store_error_intros]: "(\<And>s. store_errors (f s)) \<Longrightarrow> store_errors_only (read_m f)"
  by (auto simp: store_errors_only_def store_errors_def read_m_def)

lemma store_only_modify [store_error_intros]: "store_errors_only (modify_m f)"
  by (simp add: store_errors_only_def modify_m_def)

lemma store_only_if [store_error_intros]:
  "store_errors_only m \<Longrightarrow> store_errors_only n \<Longrightarrow> store_errors_only (if b then m else n)"
  by simp

lemma store_only_option [store_error_intros]:
  "store_errors_only m \<Longrightarrow> (\<And>x. store_errors_only (f x))
   \<Longrightarrow> store_errors_only (case v of None \<Rightarrow> m | Some x \<Rightarrow> f x)"
  by (cases v) auto

end
