(* ===== verification/Import_Cursors.thy ===== *)
theory Import_Cursors
  imports Import_Common
begin

text \<open>
  The cursors of a source (\<open>provider/importer/cursors.rs\<close>) and the command run of an event
  (\<open>provider/importer/commands.rs\<close>): how far a source has been read, under a stream name that is
  scoped to the source, and the run that a command output records.
\<close>

section \<open>Cursors\<close>

definition provider_cursor_stream :: "capture_provider \<Rightarrow> string \<Rightarrow> string" where
  "provider_cursor_stream provider source_format =
     ''provider:'' @ provider_str provider @ '':'' @ source_format"

definition provider_source_cursor_stream_for_component ::
    "externals \<Rightarrow> capture_provider \<Rightarrow> string \<Rightarrow> string \<times> string \<Rightarrow> string" where
  "provider_source_cursor_stream_for_component X provider source_format component =
     (let key = tuple_text X [Some ''provider-source-cursor-v1'', Some (provider_str provider),
            Some source_format, Some (fst component), Some (snd component)];
          source_id = stable_capture_uuid key ''provider-cursor-source''
      in provider_cursor_stream provider source_format @ '':source:'' @ uuid_simple X source_id)"

definition provider_source_cursor_stream_for_source ::
    "externals \<Rightarrow> capture_provider \<Rightarrow> provider_source_envelope \<Rightarrow> string" where
  "provider_source_cursor_stream_for_source X provider source =
     provider_source_cursor_stream_for_component X provider (pso_source_format source)
       (unwrap_or
         (provider_source_identity_component (pso_source_root source) (pso_raw_source_path source)
            (pso_idempotency_key source) (pso_metadata source))
         (''default'', ''default''))"

definition source_scoped_checkpoint ::
    "externals \<Rightarrow> provider_capture_envelope \<Rightarrow> provider_cursor_checkpoint \<Rightarrow> provider_cursor_checkpoint" where
  "source_scoped_checkpoint X capture checkpoint =
     (if pce_provider capture = CaptureProvider_Custom then checkpoint
      else \<lparr>pcc_stream = provider_source_cursor_stream_for_source X (pce_provider capture) (pce_source capture),
            pcc_cursor = pcc_cursor checkpoint, pcc_observed_at = pcc_observed_at checkpoint\<rparr>)"

definition provider_source_cursor_range ::
    "externals \<Rightarrow> provider_capture_envelope \<Rightarrow> provider_cursor_range option" where
  "provider_source_cursor_range X capture =
     (if pce_provider capture = CaptureProvider_Custom then pso_cursor (pce_source capture)
      else map_option (\<lambda>cursor.
          \<lparr>pcr_before = map_option (source_scoped_checkpoint X capture) (pcr_before cursor),
           pcr_after = map_option (source_scoped_checkpoint X capture) (pcr_after cursor)\<rparr>)
        (pso_cursor (pce_source capture)))"

text \<open>The checkpoint a line leaves: the end of the source's range, else the event's own cursor.\<close>

definition capture_checkpoint ::
    "externals \<Rightarrow> provider_capture_envelope \<Rightarrow> provider_cursor_checkpoint option" where
  "capture_checkpoint X capture =
     or_else
       (Option.bind (pso_cursor (pce_source capture))
         (\<lambda>cursor. map_option (source_scoped_checkpoint X capture) (pcr_after cursor)))
       (Option.bind (pce_event capture)
         (\<lambda>event. map_option
           (\<lambda>cursor.
             \<lparr>pcc_stream = provider_source_cursor_stream_for_source X (pce_provider capture) (pce_source capture),
              pcc_cursor = cursor, pcc_observed_at = pev_occurred_at event\<rparr>)
           (pev_cursor event)))"

definition provider_sync_cursor :: "externals \<Rightarrow> provider_capture_envelope \<Rightarrow> sync_cursor option" where
  "provider_sync_cursor X capture =
     map_option (\<lambda>checkpoint.
       \<lparr>sc_id = stable_capture_uuid
          (''provider-cursor:'' @ provider_str (pce_provider capture) @ '':''
             @ pso_machine_id (pce_source capture) @ '':'' @ pcc_stream checkpoint)
          ''provider-sync-cursor'',
        sc_team_id = None, sc_device_id = pso_machine_id (pce_source capture),
        sc_stream = pcc_stream checkpoint, sc_cursor = pcc_cursor checkpoint,
        sc_last_synced_at = Some (pcc_observed_at checkpoint),
        sc_timestamps = timestamps (pcc_observed_at checkpoint)\<rparr>)
       (capture_checkpoint X capture)"

definition persist_provider_sync_cursor :: "sync_cursor \<Rightarrow> db \<Rightarrow> capture_error + db" where
  "persist_provider_sync_cursor cursor d =
     bind_result (from_store (upsert_sync_cursor cursor d)) (\<lambda>(_, d'). Inr d')"

section \<open>Command runs\<close>

definition provider_command_duration_ms :: "json \<Rightarrow> capture_error + int option" where
  "provider_command_duration_ms payload =
     (case jget payload ''duration_ms'' of
        None \<Rightarrow> Inr None
      | Some v \<Rightarrow>
          if is_null v then Inr None
          else case as_i64 v of
            None \<Rightarrow> Inl (CaptureInvalidPayload ''duration_ms must be an integer'')
          | Some duration \<Rightarrow>
              if duration < 0
              then Inl (CaptureInvalidPayload
                (''duration_ms must be nonnegative, got -'' @ dec (nat (- duration))))
              else Inr (Some duration))"

text \<open>\<open>chrono::Duration::try_milliseconds\<close> takes every magnitude up to the largest \<open>i64\<close>.\<close>

definition try_milliseconds :: "int \<Rightarrow> int option" where
  "try_milliseconds d = (if - i64_max \<le> d \<and> d \<le> i64_max then Some d else None)"

definition provider_event_started_at ::
    "externals \<Rightarrow> provider_event_envelope \<Rightarrow> json \<Rightarrow> capture_error + datetime" where
  "provider_event_started_at X event payload =
     (if pev_event_type event \<noteq> EventType_CommandOutput then Inr (pev_occurred_at event)
      else bind_result (provider_command_duration_ms payload) (\<lambda>duration.
        case duration of
          None \<Rightarrow> Inr (pev_occurred_at event)
        | Some d \<Rightarrow>
            (case try_milliseconds d of
               None \<Rightarrow> Inl (CaptureInvalidPayload
                 (''duration_ms is not representable as milliseconds: '' @ dec (nat d)))
             | Some ms \<Rightarrow>
                 (case checked_sub_millis X (pev_occurred_at event) ms of
                    None \<Rightarrow> Inl (CaptureInvalidPayload
                      (''duration_ms moves command start before representable time: '' @ dec (nat d)))
                  | Some start \<Rightarrow> Inr start))))"

definition validate_provider_event_for_import ::
    "externals \<Rightarrow> provider_event_envelope \<Rightarrow> capture_error + unit" where
  "validate_provider_event_for_import X event =
     bind_result (provider_event_started_at X event (pev_payload event)) (\<lambda>_. Inr ())"

definition provider_command_run_status :: "json \<Rightarrow> run_status" where
  "provider_command_run_status payload =
     (if unwrap_or (Option.bind (jget payload ''timed_out'') as_bool) False then RunStatus_Cancelled
      else case Option.bind (jget payload ''exit_code'') as_i64 of
        None \<Rightarrow> RunStatus_Partial
      | Some code \<Rightarrow> if code = 0 then RunStatus_Succeeded else RunStatus_Failed)"

definition fits_i32 :: "int \<Rightarrow> bool" where
  "fits_i32 v \<longleftrightarrow> - (2 ^ 31) \<le> v \<and> v < 2 ^ 31"

record command_run_input =
  cri_provider :: capture_provider
  cri_provider_session_id :: string
  cri_session_id :: uuid
  cri_source_id :: uuid
  cri_run_source_id :: "uuid option"
  cri_history_record_id :: "uuid option"
  cri_event :: provider_event_envelope
  cri_payload :: json
  cri_event_hash :: string

definition provider_command_run_from_event ::
    "externals \<Rightarrow> command_run_input \<Rightarrow> capture_error + run option" where
  "provider_command_run_from_event X input =
     (let event = cri_event input; payload = cri_payload input
      in if pev_event_type event \<noteq> EventType_CommandOutput then Inr None
         else
           let command_preview = opt_filter (\<lambda>v. trim v \<noteq> []) (jget_str payload ''command'');
               call_id = jget_str payload ''call_id'';
               key = unwrap_or call_id (cri_event_hash input)
           in bind_result (provider_event_started_at X event payload) (\<lambda>started_at. Inr (Some
             \<lparr>rn_id = (case cri_run_source_id input of
                Some source_id \<Rightarrow> provider_source_run_uuid X source_id key
              | None \<Rightarrow> provider_run_uuid (cri_provider input) (cri_provider_session_id input) key),
              rn_history_record_id = cri_history_record_id input,
              rn_session_id = Some (cri_session_id input), rn_run_type = RunType_Command,
              rn_status = provider_command_run_status payload, rn_started_at = started_at,
              rn_ended_at = Some (pev_occurred_at event),
              rn_exit_code = opt_filter fits_i32 (Option.bind (jget payload ''exit_code'') as_i64),
              rn_cwd = None, rn_command_preview = command_preview, rn_input_blob_id = None,
              rn_output_blob_id = None, rn_timestamps = timestamps (pev_occurred_at event),
              rn_source_id = Some (cri_source_id input),
              rn_sync = provider_sync_metadata (pev_fidelity event)
                (json_object
                  [(''provider_session_id'', JStr (cri_provider_session_id input)),
                   (''provider_event_index'', json_u64 (pev_provider_event_index event)),
                   (''provider_event_hash'', JStr (cri_event_hash input)),
                   (''call_id'', json_str_opt call_id),
                   (''source'', JStr ''provider_command_output'')])\<rparr>)))"

end
