(* ===== verification/File_Touches.thy ===== *)
theory File_Touches
  imports Import_Common
begin

text \<open>
  The files an event touches (\<open>provider/file_touches.rs\<close> of \<open>ctx-history-capture\<close>): the headers of
  apply-patch texts anywhere in the payload, else the path members of a structured tool call. The
  lemmas say what a reported path looks like, that a patch is read operation for operation, and how
  the touches of an event are numbered.
\<close>

section \<open>Texts\<close>

text \<open>\<open>str::lines\<close> and \<open>str::rsplit_once\<close>; a carriage return is dropped only before
  the line feed that ends the line.\<close>

definition line_feed :: char where "line_feed = CHR 0x0A"
definition carriage_return :: char where "carriage_return = CHR 0x0D"

fun drop_return :: "string \<Rightarrow> string" where
  "drop_return [] = []"
| "drop_return (c # s) = (if c = carriage_return then s else c # s)"

fun lines_from :: "string \<Rightarrow> string \<Rightarrow> string list" where
  "lines_from acc [] = (if acc = [] then [] else [rev acc])"
| "lines_from acc (c # s) =
     (if c = line_feed then rev (drop_return acc) # lines_from [] s else lines_from (c # acc) s)"

definition text_lines :: "string \<Rightarrow> string list" where
  "text_lines s = lines_from [] s"

definition rsplit_once :: "char \<Rightarrow> string \<Rightarrow> (string \<times> string) option" where
  "rsplit_once c s = map_option (\<lambda>(a, b). (rev b, rev a)) (split_once c (rev s))"

definition ascii_lower :: "string \<Rightarrow> string" where
  "ascii_lower s = map fold_ascii s"

lemma lines_from_line:
  "line_feed \<notin> set l \<Longrightarrow> lines_from acc (l @ line_feed # s) = rev (drop_return (rev l @ acc)) # lines_from [] s"
  by (induction l arbitrary: acc) auto

text \<open>A text of lines that hold no line end.\<close>

lemma text_lines_unlines:
  "list_all (\<lambda>l. line_feed \<notin> set l \<and> carriage_return \<notin> set l) ls \<Longrightarrow>
   text_lines (concat (map (\<lambda>l. l @ [line_feed]) ls)) = ls"
proof (induction ls)
  case Nil
  then show ?case by (simp add: text_lines_def)
next
  case (Cons l ls)
  have "drop_return (rev l) = rev l" using Cons.prems by (cases "rev l") auto
  with Cons show ?case by (simp add: text_lines_def lines_from_line)
qed

section \<open>Paths\<close>

definition last_segment :: "string \<Rightarrow> string" where
  "last_segment s = rev (takeWhile (\<lambda>c. c \<noteq> CHR ''/'' \<and> c \<noteq> CHR 0x5C) (rev s))"

definition has_file_extension :: "string \<Rightarrow> bool" where
  "has_file_extension name \<longleftrightarrow>
     (case rsplit_once (CHR ''.'') name of
        None \<Rightarrow> False
      | Some (stem, ext) \<Rightarrow>
          stem \<noteq> [] \<and> ext \<noteq> [] \<and> length ext \<le> 12 \<and> list_all is_ascii_alphanumeric ext)"

definition looks_like_file_path :: "string \<Rightarrow> bool" where
  "looks_like_file_path v \<longleftrightarrow>
     (if v = [] \<or> length v > 512 \<or> line_feed \<in> set v \<or> carriage_return \<in> set v
          \<or> text_contains ''://'' v \<or> starts_with ''{'' v \<or> starts_with ''['' v
      then False
      else CHR ''/'' \<in> set v \<or> CHR 0x5C \<in> set v \<or> starts_with ''.'' v
        \<or> has_file_extension (last_segment v))"

definition normalize_file_path :: "string \<Rightarrow> string option" where
  "normalize_file_path v =
     (let trimmed = trim_matches (CHR 0x27) (trim_matches (CHR 0x22) (trim v));
          trimmed = unwrap_or (strip_prefix ''file://'' trimmed) trimmed
      in if \<not> looks_like_file_path trimmed then None else Some trimmed)"

definition normalized_key :: "string \<Rightarrow> string" where
  "normalized_key key = map fold_ascii (filter is_ascii_alphanumeric key)"

definition file_path_keys :: "string list" where
  "file_path_keys =
     [''path'', ''file'', ''filepath'', ''filename'', ''targetfile'', ''targetpath'', ''relativepath'',
      ''absolutepath'', ''uri'', ''destinationfile'', ''destinationpath'']"

definition is_file_path_key :: "string \<Rightarrow> bool" where
  "is_file_path_key key \<longleftrightarrow> normalized_key key \<in> set file_path_keys"

definition is_old_file_path_key :: "string \<Rightarrow> bool" where
  "is_old_file_path_key key \<longleftrightarrow>
     normalized_key key \<in> {''oldpath'', ''frompath'', ''sourcepath'', ''originalpath'', ''previouspath''}"

lemma normalize_file_path_looks: "normalize_file_path v = Some p \<Longrightarrow> looks_like_file_path p"
  by (auto simp: normalize_file_path_def Let_def split: if_splits)

section \<open>Drafts of touches\<close>

record file_touch_draft =
  ftd_path :: string
  ftd_old_path :: "string option"
  ftd_change_kind :: "file_change_kind option"
  ftd_confidence :: confidence
  ftd_metadata :: json

definition make_draft ::
    "string \<Rightarrow> string option \<Rightarrow> file_change_kind \<Rightarrow> confidence \<Rightarrow> string \<Rightarrow> file_touch_draft" where
  "make_draft path old_path change_kind confidence source =
     \<lparr>ftd_path = path, ftd_old_path = old_path, ftd_change_kind = Some change_kind,
      ftd_confidence = confidence, ftd_metadata = json_object [(''source'', JStr source)]\<rparr>"

section \<open>Apply-patch texts\<close>

definition flush_pending_patch_update :: "string option \<Rightarrow> file_touch_draft list" where
  "flush_pending_patch_update pending =
     (case pending of
        None \<Rightarrow> []
      | Some path \<Rightarrow>
          [make_draft path None FileChangeKind_Modified Confidence_Explicit ''apply_patch_update''])"

text \<open>One line: the drafts it adds and the update that is pending after it.\<close>

definition patch_line :: "string option \<Rightarrow> string \<Rightarrow> file_touch_draft list \<times> string option" where
  "patch_line pending line =
     (case strip_prefix ''*** Add File: '' line of
        Some path \<Rightarrow>
          (flush_pending_patch_update pending
             @ (case normalize_file_path path of
                  None \<Rightarrow> []
                | Some p \<Rightarrow> [make_draft p None FileChangeKind_Created Confidence_Explicit ''apply_patch_add'']),
           None)
      | None \<Rightarrow>
        (case strip_prefix ''*** Update File: '' line of
           Some path \<Rightarrow> (flush_pending_patch_update pending, normalize_file_path path)
         | None \<Rightarrow>
           (case strip_prefix ''*** Delete File: '' line of
              Some path \<Rightarrow>
                (flush_pending_patch_update pending
                   @ (case normalize_file_path path of
                        None \<Rightarrow> []
                      | Some p \<Rightarrow>
                          [make_draft p None FileChangeKind_Deleted Confidence_Explicit ''apply_patch_delete'']),
                 None)
            | None \<Rightarrow>
              (case strip_prefix ''*** Move to: '' line of
                 Some path \<Rightarrow>
                   ((case normalize_file_path path of
                       None \<Rightarrow> []
                     | Some p \<Rightarrow>
                         [make_draft p pending FileChangeKind_Renamed Confidence_Explicit ''apply_patch_move'']),
                    None)
               | None \<Rightarrow> ([], pending)))))"

fun patch_lines :: "string option \<Rightarrow> string list \<Rightarrow> file_touch_draft list" where
  "patch_lines pending [] = flush_pending_patch_update pending"
| "patch_lines pending (line # rest) =
     (let (drafts, pending') = patch_line pending line in drafts @ patch_lines pending' rest)"

definition parse_apply_patch_file_touches :: "string \<Rightarrow> file_touch_draft list" where
  "parse_apply_patch_file_touches patch = patch_lines None (text_lines patch)"

text \<open>Members are visited in the order of the map.\<close>

lemma size_member [termination_simp]: "m \<in> set ms \<Longrightarrow> size (snd m) < Suc (size_list (size_prod (\<lambda>_. 0) size) ms)"
  by (induction ms) auto

fun collect_patch_file_touches :: "json \<Rightarrow> file_touch_draft list" where
  "collect_patch_file_touches (JStr text) =
     (if text_contains ''*** Begin Patch'' text then parse_apply_patch_file_touches text else [])"
| "collect_patch_file_touches (JArr items) = concat (map collect_patch_file_touches items)"
| "collect_patch_file_touches (JObj ms) = concat (map (\<lambda>m. collect_patch_file_touches (snd m)) ms)"
| "collect_patch_file_touches _ = []"

section \<open>Structured payloads\<close>

definition operation_keys :: "string list" where
  "operation_keys = [''tool'', ''name'', ''action'', ''command'', ''operation'', ''type'']"

definition value_looks_like_file_content :: "json \<Rightarrow> bool" where
  "value_looks_like_file_content v \<longleftrightarrow>
     (case as_str v of
        None \<Rightarrow> False
      | Some text \<Rightarrow> line_feed \<in> set text \<or> length text > 120
          \<or> text_contains ''*** Begin Patch'' text \<or> text_contains ''@@'' text)"

definition operation_haystack :: "(string \<times> json) list \<Rightarrow> string" where
  "operation_haystack ms =
     concat (map (\<lambda>(key, v). ascii_lower key @ '' ''
       @ (if ascii_lower key \<in> set operation_keys
          then case as_str v of None \<Rightarrow> [] | Some text \<Rightarrow> ascii_lower text @ '' ''
          else [])) ms)"

definition inferred_file_change_kind :: "(string \<times> json) list \<Rightarrow> file_change_kind" where
  "inferred_file_change_kind ms =
     (let haystack = operation_haystack ms;
          has = (\<lambda>word. text_contains word haystack)
      in if has ''rename'' \<or> has ''move'' then FileChangeKind_Renamed
         else if has ''delete'' \<or> has ''remove'' then FileChangeKind_Deleted
         else if has ''create'' \<or> has ''write'' \<or> has ''add'' then FileChangeKind_Created
         else if has ''read'' \<or> has ''view'' \<or> has ''open'' then FileChangeKind_Read
         else if list_ex (\<lambda>m. value_looks_like_file_content (snd m)) ms
           \<or> has ''edit'' \<or> has ''patch'' \<or> has ''replace'' \<or> has ''update''
         then FileChangeKind_Modified
         else FileChangeKind_Unknown)"

definition object_operation_hint_kind :: "(string \<times> json) list \<Rightarrow> file_change_kind option" where
  "object_operation_hint_kind ms =
     (if list_ex (\<lambda>(key, v). normalized_key key \<in> set operation_keys
            \<and> (case as_str v of None \<Rightarrow> False | Some text \<Rightarrow> trim text \<noteq> [])) ms
      then opt_filter (\<lambda>kind. kind \<noteq> FileChangeKind_Unknown) (Some (inferred_file_change_kind ms))
      else None)"

fun first_old_path :: "(string \<times> json) list \<Rightarrow> string option" where
  "first_old_path [] = None"
| "first_old_path ((key, v) # ms) =
     or_else (if is_old_file_path_key key then Option.bind (as_str v) normalize_file_path else None)
       (first_old_path ms)"

definition structured_member ::
    "file_change_kind \<Rightarrow> string option \<Rightarrow> string \<times> json \<Rightarrow> file_touch_draft list" where
  "structured_member change_kind old_path = (\<lambda>(key, v).
     if \<not> is_file_path_key key then []
     else case as_str v of
       None \<Rightarrow> []
     | Some raw_path \<Rightarrow>
         if normalized_key key = ''uri'' \<and> \<not> starts_with ''file://'' (trim raw_path) then []
         else case normalize_file_path raw_path of
           None \<Rightarrow> []
         | Some path \<Rightarrow>
             [\<lparr>ftd_path = path, ftd_old_path = old_path, ftd_change_kind = Some change_kind,
               ftd_confidence = Confidence_High,
               ftd_metadata = json_object [(''source'', JStr ''structured_provider_payload''),
                 (''path_key'', JStr key)]\<rparr>])"

definition collect_structured_file_touch_object ::
    "file_change_kind option \<Rightarrow> (string \<times> json) list \<Rightarrow> file_touch_draft list" where
  "collect_structured_file_touch_object inherited ms =
     (let change_kind = unwrap_or inherited (inferred_file_change_kind ms)
      in concat (map (structured_member change_kind (first_old_path ms)) ms))"

fun collect_structured_file_touches_with_context ::
    "json \<Rightarrow> file_change_kind option \<Rightarrow> file_touch_draft list" where
  "collect_structured_file_touches_with_context (JArr items) inherited =
     concat (map (\<lambda>item. collect_structured_file_touches_with_context item inherited) items)"
| "collect_structured_file_touches_with_context (JObj ms) inherited =
     (let object_kind = or_else (object_operation_hint_kind ms) inherited
      in collect_structured_file_touch_object object_kind ms
         @ concat (map (\<lambda>m. collect_structured_file_touches_with_context (snd m) object_kind) ms))"
| "collect_structured_file_touches_with_context _ inherited = []"

definition collect_structured_file_touches :: "json \<Rightarrow> file_touch_draft list" where
  "collect_structured_file_touches v = collect_structured_file_touches_with_context v None"

section \<open>Envelopes\<close>

text \<open>The context is the envelope of a touch without its draft: the fields all touches of an event
  share, with the base index as its touch index.\<close>

record touch_context =
  tc_provider :: capture_provider
  tc_provider_session_id :: string
  tc_source_format :: string
  tc_raw_source_path :: "string option"
  tc_source_root :: "string option"
  tc_occurred_at :: datetime
  tc_provider_event_index :: "u64 option"
  tc_provider_touch_base_index :: u64
  tc_line_number :: nat

definition touch_key :: "file_touch_draft \<Rightarrow> string \<times> string option \<times> string option" where
  "touch_key f =
     (ftd_path f, ftd_old_path f,
      map_option (enum_as_str file_change_kind_table) (ftd_change_kind f))"

definition touch_envelope ::
    "touch_context \<Rightarrow> u64 \<Rightarrow> file_touch_draft \<Rightarrow> provider_file_touched_envelope" where
  "touch_envelope C touch_index f =
     \<lparr>pft_provider = tc_provider C, pft_provider_session_id = tc_provider_session_id C,
      pft_provider_touch_index = touch_index, pft_provider_event_index = tc_provider_event_index C,
      pft_raw_source_path = tc_raw_source_path C, pft_source_root = tc_source_root C,
      pft_path = ftd_path f, pft_change_kind = ftd_change_kind f, pft_old_path = ftd_old_path f,
      pft_line_count_delta = None, pft_confidence = ftd_confidence f,
      pft_occurred_at = tc_occurred_at C, pft_source_format = tc_source_format C,
      pft_metadata = ftd_metadata f\<rparr>"

fun touch_envelopes_from ::
    "touch_context \<Rightarrow> (string \<times> string option \<times> string option) list
     \<Rightarrow> (nat \<times> provider_file_touched_envelope) list \<Rightarrow> file_touch_draft list
     \<Rightarrow> (nat \<times> provider_file_touched_envelope) list" where
  "touch_envelopes_from C seen out [] = out"
| "touch_envelopes_from C seen out (f # fs) =
     (if touch_key f \<in> set seen then touch_envelopes_from C seen out fs
      else touch_envelopes_from C (touch_key f # seen)
        (out @ [(tc_line_number C,
           touch_envelope C (tc_provider_touch_base_index C OR of_nat (length out)) f)]) fs)"

definition provider_file_touch_envelopes ::
    "touch_context \<Rightarrow> file_touch_draft list \<Rightarrow> (nat \<times> provider_file_touched_envelope) list" where
  "provider_file_touch_envelopes C drafts = touch_envelopes_from C [] [] drafts"

definition touching_event_types :: "event_type list" where
  "touching_event_types =
     [EventType_ToolCall, EventType_ToolOutput, EventType_CommandOutput, EventType_FileTouched]"

definition event_type_supports_structured_file_touches :: "event_type \<Rightarrow> bool" where
  "event_type_supports_structured_file_touches t \<longleftrightarrow> t = EventType_ToolCall \<or> t = EventType_FileTouched"

definition file_touch_drafts :: "event_type \<Rightarrow> json \<Rightarrow> file_touch_draft list" where
  "file_touch_drafts event_type v =
     (let drafts = collect_patch_file_touches v
      in if drafts = [] \<and> event_type_supports_structured_file_touches event_type
         then collect_structured_file_touches v else drafts)"

definition provider_file_touches_from_event ::
    "capture_provider \<Rightarrow> string \<Rightarrow> string \<Rightarrow> string option \<Rightarrow> string option
     \<Rightarrow> provider_event_envelope \<Rightarrow> nat \<Rightarrow> (nat \<times> provider_file_touched_envelope) list" where
  "provider_file_touches_from_event provider provider_session_id source_format raw_source_path
       source_root event line_number =
     (if pev_event_type event \<notin> set touching_event_types then []
      else provider_file_touch_envelopes
        \<lparr>tc_provider = provider, tc_provider_session_id = provider_session_id,
         tc_source_format = source_format, tc_raw_source_path = raw_source_path,
         tc_source_root = source_root, tc_occurred_at = pev_occurred_at event,
         tc_provider_event_index = Some (pev_provider_event_index event),
         tc_provider_touch_base_index = push_bit 16 (pev_provider_event_index event),
         tc_line_number = line_number\<rparr>
        (file_touch_drafts (pev_event_type event) (pev_payload event)))"

definition provider_file_touches_from_raw_value ::
    "capture_provider \<Rightarrow> string \<Rightarrow> string \<Rightarrow> string option \<Rightarrow> json
     \<Rightarrow> provider_event_envelope \<Rightarrow> nat \<Rightarrow> (nat \<times> provider_file_touched_envelope) list" where
  "provider_file_touches_from_raw_value provider provider_session_id source_format raw_source_path
       raw_value event line_number =
     (if pev_event_type event \<notin> set touching_event_types then []
      else provider_file_touch_envelopes
        \<lparr>tc_provider = provider, tc_provider_session_id = provider_session_id,
         tc_source_format = source_format, tc_raw_source_path = raw_source_path,
         tc_source_root = raw_source_path, tc_occurred_at = pev_occurred_at event,
         tc_provider_event_index = Some (pev_provider_event_index event),
         tc_provider_touch_base_index = push_bit 16 (pev_provider_event_index event),
         tc_line_number = line_number\<rparr>
        (file_touch_drafts (pev_event_type event) raw_value))"

section \<open>Reading a patch\<close>

text \<open>What a patch says, operation by operation, and its text: a header line for each operation, then
  the lines of its body, none of which starts like a header.\<close>

datatype patch_op = AddFile string | UpdateFile string | DeleteFile string | MoveFile string string

fun op_header :: "patch_op \<Rightarrow> string list" where
  "op_header (AddFile p) = [''*** Add File: '' @ p]"
| "op_header (UpdateFile p) = [''*** Update File: '' @ p]"
| "op_header (DeleteFile p) = [''*** Delete File: '' @ p]"
| "op_header (MoveFile p q) = [''*** Update File: '' @ p, ''*** Move to: '' @ q]"

fun op_draft :: "patch_op \<Rightarrow> file_touch_draft" where
  "op_draft (AddFile p) = make_draft p None FileChangeKind_Created Confidence_Explicit ''apply_patch_add''"
| "op_draft (UpdateFile p) =
     make_draft p None FileChangeKind_Modified Confidence_Explicit ''apply_patch_update''"
| "op_draft (DeleteFile p) =
     make_draft p None FileChangeKind_Deleted Confidence_Explicit ''apply_patch_delete''"
| "op_draft (MoveFile p q) =
     make_draft q (Some p) FileChangeKind_Renamed Confidence_Explicit ''apply_patch_move''"

fun op_paths :: "patch_op \<Rightarrow> string list" where
  "op_paths (AddFile p) = [p]"
| "op_paths (UpdateFile p) = [p]"
| "op_paths (DeleteFile p) = [p]"
| "op_paths (MoveFile p q) = [p, q]"

definition plain_path :: "string \<Rightarrow> bool" where
  "plain_path p \<longleftrightarrow> normalize_file_path p = Some p"

definition body_line :: "string \<Rightarrow> bool" where
  "body_line l \<longleftrightarrow> line_feed \<notin> set l \<and> carriage_return \<notin> set l \<and> \<not> starts_with ''*** '' l"

definition op_ok :: "patch_op \<times> string list \<Rightarrow> bool" where
  "op_ok entry \<longleftrightarrow> list_all plain_path (op_paths (fst entry)) \<and> list_all body_line (snd entry)"

definition patch_text :: "(patch_op \<times> string list) list \<Rightarrow> string" where
  "patch_text entries =
     concat (map (\<lambda>l. l @ [line_feed])
       (''*** Begin Patch'' # concat (map (\<lambda>(p, body). op_header p @ body) entries) @ [''*** End Patch'']))"

lemma patch_line_body: "\<not> starts_with ''*** '' l \<Longrightarrow> patch_line pending l = ([], pending)"
proof -
  assume l: "\<not> starts_with ''*** '' l"
  have "strip_prefix (''*** '' @ p) l = None" for p
    using l by (auto simp: strip_prefix_def starts_with_iff)
  from this [of "''Add File: ''"] this [of "''Update File: ''"] this [of "''Delete File: ''"]
    this [of "''Move to: ''"] show ?thesis
    by (simp add: patch_line_def)
qed

lemma patch_line_ends:
  "patch_line pending ''*** Begin Patch'' = ([], pending)" "patch_line pending ''*** End Patch'' = ([], pending)"
  by (simp_all add: patch_line_def strip_prefix_def starts_with_def)

lemma patch_line_header:
  "plain_path p \<Longrightarrow> patch_line pending (''*** Add File: '' @ p) =
     (flush_pending_patch_update pending @ [op_draft (AddFile p)], None)"
  "plain_path p \<Longrightarrow> patch_line pending (''*** Update File: '' @ p) = (flush_pending_patch_update pending, Some p)"
  "plain_path p \<Longrightarrow> patch_line pending (''*** Delete File: '' @ p) =
     (flush_pending_patch_update pending @ [op_draft (DeleteFile p)], None)"
  "plain_path q \<Longrightarrow> patch_line (Some p) (''*** Move to: '' @ q) = ([op_draft (MoveFile p q)], None)"
  by (simp_all add: patch_line_def plain_path_def strip_prefix_def starts_with_def)

lemma patch_lines_body:
  "list_all body_line body \<Longrightarrow> patch_lines pending (body @ rest) = patch_lines pending rest"
  by (induction body) (auto simp: body_line_def patch_line_body)

lemma patch_lines_entries:
  "list_all op_ok entries \<Longrightarrow>
   patch_lines pending (concat (map (\<lambda>(p, body). op_header p @ body) entries) @ [''*** End Patch''])
   = flush_pending_patch_update pending @ map (op_draft \<circ> fst) entries"
proof (induction entries arbitrary: pending)
  case Nil
  then show ?case by (simp add: patch_line_ends)
next
  case (Cons entry entries)
  obtain p body where entry: "entry = (p, body)" by (cases entry)
  with Cons.prems have ok: "list_all plain_path (op_paths p)" "list_all body_line body" "list_all op_ok entries"
    by (simp_all add: op_ok_def [of "(p, body)"])
  have update: "flush_pending_patch_update (Some q) = [op_draft (UpdateFile q)]" for q
    by (simp add: flush_pending_patch_update_def)
  have none: "flush_pending_patch_update None = []" by (simp add: flush_pending_patch_update_def)
  show ?case
    using ok Cons.IH [OF ok(3)]
    by (cases p) (simp_all del: op_draft.simps
        add: entry patch_line_header [unfolded append_Cons append_Nil] patch_lines_body update none)
qed

lemma header_plain_lines:
  assumes "plain_path p"
  shows "line_feed \<notin> set p \<and> carriage_return \<notin> set p"
  using assms normalize_file_path_looks [of p p]
  by (auto simp: plain_path_def looks_like_file_path_def split: if_splits)

lemma op_lines_plain:
  assumes "op_ok (p, body)"
  shows "list_all (\<lambda>l. line_feed \<notin> set l \<and> carriage_return \<notin> set l) (op_header p @ body)"
  using assms header_plain_lines
  by (cases p) (auto simp: op_ok_def body_line_def list_all_iff line_feed_def carriage_return_def)

section \<open>Numbering\<close>

text \<open>The envelopes are those of the first draft of every key, numbered from the base on.\<close>

fun first_of_keys :: "(string \<times> string option \<times> string option) list \<Rightarrow> file_touch_draft list \<Rightarrow> file_touch_draft list" where
  "first_of_keys seen [] = []"
| "first_of_keys seen (f # fs) =
     (if touch_key f \<in> set seen then first_of_keys seen fs else f # first_of_keys (touch_key f # seen) fs)"

definition number_touches ::
    "touch_context \<Rightarrow> nat \<Rightarrow> file_touch_draft list \<Rightarrow> (nat \<times> provider_file_touched_envelope) list" where
  "number_touches C n fs =
     map (\<lambda>(k, f). (tc_line_number C, touch_envelope C (tc_provider_touch_base_index C OR of_nat k) f))
       (zip [n..<n + length fs] fs)"

lemma number_touches_Cons:
  "number_touches C n (f # fs) =
     (tc_line_number C, touch_envelope C (tc_provider_touch_base_index C OR of_nat n) f) # number_touches C (Suc n) fs"
  by (simp add: number_touches_def upt_rec)

lemma touch_envelopes_from_eq:
  "touch_envelopes_from C seen out fs = out @ number_touches C (length out) (first_of_keys seen fs)"
  by (induction fs arbitrary: seen out) (simp_all add: number_touches_Cons, simp add: number_touches_def)

lemma first_of_keys_set: "set (first_of_keys seen fs) \<subseteq> set fs"
  by (induction fs arbitrary: seen) auto

lemma first_of_keys_keys:
  "distinct (map touch_key (first_of_keys seen fs))
   \<and> touch_key ` set (first_of_keys seen fs) = touch_key ` set fs - set seen"
  by (induction fs arbitrary: seen) auto

lemma provider_file_touch_envelopes_eq:
  "provider_file_touch_envelopes C fs = number_touches C 0 (first_of_keys [] fs)"
  by (simp add: provider_file_touch_envelopes_def touch_envelopes_from_eq)

lemma length_number_touches [simp]: "length (number_touches C n fs) = length fs"
  by (simp add: number_touches_def)

lemma number_touches_nth:
  "k < length fs \<Longrightarrow> number_touches C n fs ! k =
     (tc_line_number C, touch_envelope C (tc_provider_touch_base_index C OR of_nat (n + k)) (fs ! k))"
  by (simp add: number_touches_def)

text \<open>Below the bits of the layout the base and the offset can be read back.\<close>

lemma packed_touch:
  assumes "unat i < 2 ^ 48" "k < 2 ^ 16"
  shows "drop_bit 16 (push_bit 16 i OR of_nat k) = (i :: u64)"
    "take_bit 16 (push_bit 16 i OR of_nat k) = (of_nat k :: u64)"
proof -
  have small: "take_bit 16 (of_nat k :: u64) = of_nat k"
    using assms(2) by (metis of_nat_take_bit take_bit_nat_eq_self)
  have "take_bit 48 i = i"
    using assms(1) by (simp add: word_unat_eq_iff unsigned_take_bit_eq take_bit_nat_eq_self_iff)
  then have high: "bit i n \<Longrightarrow> n < 48" for n by (metis bit_take_bit_iff)
  have "drop_bit 16 (push_bit 16 i) = i"
    by (rule bit_word_eqI) (auto simp: bit_drop_bit_eq bit_push_bit_iff dest: high)
  moreover have "drop_bit 16 (of_nat k :: u64) = 0"
    using small by (metis drop_bit_take_bit diff_self_eq_0 take_bit_0)
  ultimately show "drop_bit 16 (push_bit 16 i OR of_nat k) = i"
    by (simp add: drop_bit_or)
  show "take_bit 16 (push_bit 16 i OR of_nat k) = (of_nat k :: u64)"
    by (simp add: take_bit_or small take_bit_push_bit)
qed

lemma touch_index_parts:
  assumes "(l, t) \<in> set (provider_file_touches_from_event p sid fmt raw root ev n)"
    "unat (pev_provider_event_index ev) < 2 ^ 48"
    "length (provider_file_touches_from_event p sid fmt raw root ev n) \<le> 2 ^ 16"
  shows "drop_bit 16 (pft_provider_touch_index t) = pev_provider_event_index ev"
proof -
  let ?out = "provider_file_touches_from_event p sid fmt raw root ev n"
  from assms(1) obtain k where k: "k < length ?out" "?out ! k = (l, t)" by (auto simp: in_set_conv_nth)
  then have "pft_provider_touch_index t = push_bit 16 (pev_provider_event_index ev) OR of_nat k"
    by (auto simp: provider_file_touches_from_event_def provider_file_touch_envelopes_eq
        number_touches_nth touch_envelope_def split: if_splits)
  with k(1) assms(2,3) packed_touch(1) [of "pev_provider_event_index ev" k] show ?thesis by simp
qed

lemma touch_index_distinct:
  assumes "unat (pev_provider_event_index ev) < 2 ^ 48"
    "length (provider_file_touches_from_event p sid fmt raw root ev n) \<le> 2 ^ 16"
  shows "distinct (map (pft_provider_touch_index \<circ> snd) (provider_file_touches_from_event p sid fmt raw root ev n))"
proof (unfold distinct_conv_nth, intro allI impI)
  let ?out = "provider_file_touches_from_event p sid fmt raw root ev n"
  let ?base = "pev_provider_event_index ev"
  fix i j assume ij: "i < length (map (pft_provider_touch_index \<circ> snd) ?out)"
    "j < length (map (pft_provider_touch_index \<circ> snd) ?out)" "i \<noteq> j"
  have index: "pft_provider_touch_index (snd (?out ! k)) = push_bit 16 ?base OR of_nat k" if "k < length ?out" for k
    using that by (auto simp: provider_file_touches_from_event_def provider_file_touch_envelopes_eq
        number_touches_nth touch_envelope_def split: if_splits)
  have small: "k < 2 ^ 16" if "k < length ?out" for k using that assms(2) by simp
  have "(of_nat i :: u64) \<noteq> of_nat j"
    using ij(3) small [of i] small [of j] ij(1,2)
    by (auto simp: unsigned_of_nat take_bit_nat_eq_self dest!: arg_cong [where f = unat])
  moreover have "take_bit 16 (push_bit 16 ?base OR of_nat k) = (of_nat k :: u64)" if "k < length ?out" for k
    using packed_touch(2) [OF assms(1) small [OF that]] .
  ultimately have "push_bit 16 ?base OR of_nat i \<noteq> (push_bit 16 ?base OR of_nat j :: u64)"
    using ij(1,2) by (metis length_map)
  then show "map (pft_provider_touch_index \<circ> snd) ?out ! i \<noteq> map (pft_provider_touch_index \<circ> snd) ?out ! j"
    using ij(1,2) index by simp
qed

text \<open>The paths of drafts.\<close>

lemma patch_line_paths:
  assumes "patch_line pending line = (drafts, pending')" "\<And>p. pending = Some p \<Longrightarrow> looks_like_file_path p"
  shows "f \<in> set drafts \<Longrightarrow> looks_like_file_path (ftd_path f)"
    "pending' = Some p \<Longrightarrow> looks_like_file_path p"
  using assms
  by (auto simp: patch_line_def flush_pending_patch_update_def make_draft_def normalize_file_path_looks
      split: option.splits)

lemma patch_lines_paths:
  "f \<in> set (patch_lines pending ls) \<Longrightarrow> (\<And>p. pending = Some p \<Longrightarrow> looks_like_file_path p)
   \<Longrightarrow> looks_like_file_path (ftd_path f)"
proof (induction ls arbitrary: pending)
  case Nil
  then show ?case
    by (auto simp: flush_pending_patch_update_def make_draft_def split: option.splits)
next
  case (Cons l ls)
  obtain drafts pending' where line: "patch_line pending l = (drafts, pending')" by force
  with Cons.prems(1) have "f \<in> set drafts \<or> f \<in> set (patch_lines pending' ls)" by auto
  then show ?case
  proof
    assume "f \<in> set drafts"
    then show ?thesis using patch_line_paths(1) [OF line] Cons.prems(2) by blast
  next
    assume "f \<in> set (patch_lines pending' ls)"
    then show ?thesis using Cons.IH patch_line_paths(2) [OF line] Cons.prems(2) by blast
  qed
qed

lemma patch_touch_paths:
  "f \<in> set (collect_patch_file_touches v) \<Longrightarrow> looks_like_file_path (ftd_path f)"
  by (induction v rule: collect_patch_file_touches.induct)
    (auto simp: parse_apply_patch_file_touches_def dest: patch_lines_paths split: if_splits)

lemma structured_object_paths:
  "f \<in> set (collect_structured_file_touch_object kind ms) \<Longrightarrow> looks_like_file_path (ftd_path f)"
  by (auto simp: collect_structured_file_touch_object_def structured_member_def normalize_file_path_looks
      split: if_splits option.splits)

lemma structured_touch_paths:
  "f \<in> set (collect_structured_file_touches_with_context v kind) \<Longrightarrow> looks_like_file_path (ftd_path f)"
  by (induction v kind rule: collect_structured_file_touches_with_context.induct)
    (auto simp: Let_def dest: structured_object_paths)

lemma file_touch_draft_paths:
  "f \<in> set (file_touch_drafts t v) \<Longrightarrow> looks_like_file_path (ftd_path f)"
  by (auto simp: file_touch_drafts_def Let_def collect_structured_file_touches_def
      dest: patch_touch_paths structured_touch_paths split: if_splits)

section \<open>Properties\<close>

text \<open>Concrete inputs for the witnesses.\<close>

definition demo_patch :: "(patch_op \<times> string list) list" where
  "demo_patch = [(MoveFile ''a/b'' ''c/d'', [''@@ -1 +1 @@'', ''+x'']), (DeleteFile ''e.rs'', [])]"

definition demo_touch_event :: "u64 \<Rightarrow> provider_event_envelope" where
  "demo_touch_event i =
     \<lparr>pev_provider_event_index = i, pev_provider_event_hash = None, pev_cursor = None,
      pev_event_type = EventType_ToolCall, pev_role = None, pev_occurred_at = 0,
      pev_fidelity = fidelity_default, pev_idempotency_key = None, pev_artifacts = [],
      pev_payload = JObj [(''path'', JStr ''a/b'')], pev_metadata = JNull\<rparr>"

lemma plain_path_graph:
  assumes "p \<noteq> []" "is_graph (hd p)" "is_graph (last p)" "hd p \<notin> {CHR 0x22, CHR 0x27}"
    "last p \<notin> {CHR 0x22, CHR 0x27}" "\<not> starts_with ''file://'' p" "looks_like_file_path p"
  shows "normalize_file_path p = Some p" "plain_path p"
proof -
  have "dropWhile (\<lambda>x. x = c) p = p \<and> dropWhile (\<lambda>x. x = c) (rev p) = rev p" if "c \<in> {CHR 0x22, CHR 0x27}" for c
    using assms(1,4,5) that by (auto simp: dropWhile_eq_self_iff hd_rev)
  then have "trim_matches c p = p" if "c \<in> {CHR 0x22, CHR 0x27}" for c
    using that by (simp add: trim_matches_def)
  then show "normalize_file_path p = Some p"
    using assms by (simp add: normalize_file_path_def Let_def trim_graph strip_prefix_def)
  then show "plain_path p" by (simp add: plain_path_def)
qed

lemmas path_evals = is_graph_def starts_with_def looks_like_file_path_def line_feed_def
  carriage_return_def last_segment_def has_file_extension_def rsplit_once_def is_ascii_alphanumeric_def

lemma demo_patch_ok: "list_all op_ok demo_patch"
proof -
  have "plain_path ''a/b''" "plain_path ''c/d''" "plain_path ''e.rs''"
    by (rule plain_path_graph; simp add: path_evals)+
  then show ?thesis
    by (simp add: demo_patch_def op_ok_def body_line_def path_evals)
qed

lemma demo_touches:
  "map (pft_provider_touch_index \<circ> snd)
     (provider_file_touches_from_event p sid fmt raw root (demo_touch_event i) n) = [push_bit 16 i]"
proof -
  have path: "normalize_file_path ''a/b'' = Some ''a/b''"
    by (rule plain_path_graph) (simp_all add: path_evals)
  have keys: "normalized_key ''path'' = ''path''"
    by (simp add: normalized_key_def is_ascii_alphanumeric_def fold_ascii_def)
  have "file_touch_drafts EventType_ToolCall (JObj [(''path'', JStr ''a/b'')])
      = [\<lparr>ftd_path = ''a/b'', ftd_old_path = None,
          ftd_change_kind = Some (inferred_file_change_kind [(''path'', JStr ''a/b'')]),
          ftd_confidence = Confidence_High,
          ftd_metadata = json_object [(''source'', JStr ''structured_provider_payload''),
            (''path_key'', JStr ''path'')]\<rparr>]"
    by (simp add: file_touch_drafts_def event_type_supports_structured_file_touches_def
        collect_structured_file_touches_def object_operation_hint_kind_def operation_keys_def keys
        collect_structured_file_touch_object_def structured_member_def is_file_path_key_def
        is_old_file_path_key_def file_path_keys_def path starts_with_def)
  then show ?thesis
    by (simp add: provider_file_touches_from_event_def demo_touch_event_def touching_event_types_def
        provider_file_touch_envelopes_def touch_envelope_def)
qed

text \<open>C19: Every operation of an apply-patch text is reported exactly once, in order, with its path, its
  kind of change and, for a move, the path it came from; the lines of the bodies report nothing.\<close>

theorem patch_touches_exact:
  "list_all op_ok entries \<Longrightarrow>
   parse_apply_patch_file_touches (patch_text entries) = map (op_draft \<circ> fst) entries"
proof -
  assume ok: "list_all op_ok entries"
  let ?lines = "''*** Begin Patch'' # concat (map (\<lambda>(p, body). op_header p @ body) entries) @ [''*** End Patch'']"
  have "list_all (\<lambda>l. line_feed \<notin> set l \<and> carriage_return \<notin> set l) ?lines"
    using ok op_lines_plain by (fastforce simp: list_all_iff line_feed_def carriage_return_def)
  then have "text_lines (patch_text entries) = ?lines"
    unfolding patch_text_def by (rule text_lines_unlines)
  then show ?thesis
    using patch_lines_entries [OF ok, of None]
    by (simp add: parse_apply_patch_file_touches_def patch_line_ends flush_pending_patch_update_def)
qed

theorem patch_touches_exact_witness:
  "map ftd_path (parse_apply_patch_file_touches (patch_text demo_patch)) = [''c/d'', ''e.rs'']
   \<and> map ftd_old_path (parse_apply_patch_file_touches (patch_text demo_patch)) = [Some ''a/b'', None]"
  unfolding patch_touches_exact [OF demo_patch_ok] by (simp add: demo_patch_def make_draft_def)

text \<open>The touches of two different events of a session have different touch indices, and so have
  the touches of one event: an index is the event's index and the number of the touch, packed. The
  bounds are those of the layout.\<close>

theorem touch_indices_are_unique:
  assumes "unat (pev_provider_event_index e1) < 2 ^ 48" "unat (pev_provider_event_index e2) < 2 ^ 48"
    "pev_provider_event_index e1 \<noteq> pev_provider_event_index e2"
    "length (provider_file_touches_from_event p sid fmt raw root e1 m) \<le> 2 ^ 16"
    "length (provider_file_touches_from_event p sid fmt raw root e2 n) \<le> 2 ^ 16"
  shows "distinct (map (pft_provider_touch_index \<circ> snd)
    (provider_file_touches_from_event p sid fmt raw root e1 m
     @ provider_file_touches_from_event p sid fmt raw root e2 n))"
proof -
  have "pft_provider_touch_index t \<noteq> pft_provider_touch_index u"
    if "(k, t) \<in> set (provider_file_touches_from_event p sid fmt raw root e1 m)"
      "(l, u) \<in> set (provider_file_touches_from_event p sid fmt raw root e2 n)" for k t l u
    using touch_index_parts [OF that(1) assms(1,4)] touch_index_parts [OF that(2) assms(2,5)] assms(3)
    by metis
  then show ?thesis
    using touch_index_distinct [OF assms(1,4)] touch_index_distinct [OF assms(2,5)] by fastforce
qed

theorem touch_indices_are_unique_witness:
  "distinct (map (pft_provider_touch_index \<circ> snd)
     (provider_file_touches_from_event CaptureProvider_Claude ''s'' ''f'' None None (demo_touch_event 1) 1
      @ provider_file_touches_from_event CaptureProvider_Claude ''s'' ''f'' None None (demo_touch_event 2) 2))
   \<and> map (pft_provider_touch_index \<circ> snd)
     (provider_file_touches_from_event CaptureProvider_Claude ''s'' ''f'' None None (demo_touch_event 2) 2)
     = [0x20000]"
proof -
  have len: "length (provider_file_touches_from_event p sid fmt raw root (demo_touch_event i) n) \<le> 2 ^ 16"
    for p sid fmt raw root i n
    using arg_cong [OF demo_touches [of p sid fmt raw root i n], of length] by simp
  have index: "pev_provider_event_index (demo_touch_event i) = i" for i by (simp add: demo_touch_event_def)
  have small: "unat (1 :: u64) < 2 ^ 48" "unat (2 :: u64) < 2 ^ 48" "(1 :: u64) \<noteq> 2" by simp_all
  show ?thesis
    by (rule conjI [OF touch_indices_are_unique [OF _ _ _ len len]])
      (simp_all only: index small demo_touches, simp_all)
qed

text \<open>Whatever the payload holds, a reported touch has a path that passed the path test (nonempty,
  at most 512 bytes, on one line), and no two touches of an event agree in path, old path and kind.\<close>

theorem touched_paths_are_paths:
  "list_all (\<lambda>(l, t). looks_like_file_path (pft_path t))
     (provider_file_touches_from_event p sid fmt raw root ev n)
   \<and> distinct (map (\<lambda>(l, t). (pft_path t, pft_old_path t, pft_change_kind t))
       (provider_file_touches_from_event p sid fmt raw root ev n))"
proof (cases "pev_event_type ev \<in> set touching_event_types")
  case True
  let ?fs = "first_of_keys [] (file_touch_drafts (pev_event_type ev) (pev_payload ev))"
  obtain C where out: "provider_file_touches_from_event p sid fmt raw root ev n = number_touches C 0 ?fs"
    using True by (simp add: provider_file_touches_from_event_def provider_file_touch_envelopes_eq)
  have "map (\<lambda>(l, t). (pft_path t, pft_old_path t, pft_change_kind t)) (number_touches C 0 ?fs)
      = map (\<lambda>f. (ftd_path f, ftd_old_path f, ftd_change_kind f)) ?fs"
    by (rule nth_equalityI) (auto simp: number_touches_nth touch_envelope_def)
  moreover have "distinct (map (\<lambda>f. (ftd_path f, ftd_old_path f, ftd_change_kind f)) ?fs)"
    using first_of_keys_keys [of "[]"]
    by (auto simp: distinct_map touch_key_def inj_on_def)
  moreover have "list_all (\<lambda>(l, t). looks_like_file_path (pft_path t)) (number_touches C 0 ?fs)"
    using first_of_keys_set [of "[]"]
    by (auto simp: list_all_length number_touches_nth touch_envelope_def
        intro!: file_touch_draft_paths dest: nth_mem)
  ultimately show ?thesis by (simp add: out)
qed (simp add: provider_file_touches_from_event_def)

end
