(* ===== verification/Native_Events.thy ===== *)
theory Native_Events
  imports Import_Cursors File_Touches
begin

text \<open>
  What the transcript readers share (\<open>provider/native.rs\<close> of \<open>ctx-history-capture\<close>): texts and times out
  of JSON values, capped previews, the policy on what of a tool's output may be retained, and the
  envelopes of an event and a session. The claims are about the policy: no retained text of an output
  shows a patch or a diff, and the kinds of fields that hold output never leave the transcript.
\<close>

section \<open>Third-party functions\<close>

text \<open>\<open>serde_json::from_str\<close> with the text of its error, \<open>chrono\<close>'s parser and constructor, and the
  operations on \<open>f64\<close> the code uses.\<close>

record 'f transcript_lib =
  tl_json :: "string \<Rightarrow> string + json"
  tl_rfc3339 :: "string \<Rightarrow> datetime option"
  tl_from_timestamp_millis :: "int \<Rightarrow> datetime option"
  tl_parse_f64 :: "string \<Rightarrow> 'f option"
  tl_as_f64 :: "jnum \<Rightarrow> 'f option"
  tl_is_finite :: "'f \<Rightarrow> bool"
  tl_abs :: "'f \<Rightarrow> 'f"
  tl_round :: "'f \<Rightarrow> 'f"
  tl_mul :: "'f \<Rightarrow> 'f \<Rightarrow> 'f"
  tl_greater :: "'f \<Rightarrow> 'f \<Rightarrow> bool"
  tl_f64_of :: "int \<Rightarrow> 'f"
  tl_as_i64 :: "'f \<Rightarrow> int"

definition json_of :: "'f transcript_lib \<Rightarrow> string \<Rightarrow> json option" where
  "json_of T s = (case tl_json T s of Inl _ \<Rightarrow> None | Inr v \<Rightarrow> Some v)"

text \<open>Chains of \<open>get(..).or_else(|| get(..))\<close>, and the printing of an \<open>i64\<close>.\<close>

fun first_key :: "json \<Rightarrow> string list \<Rightarrow> json option" where
  "first_key v [] = None"
| "first_key v (k # ks) = or_else (jget v k) (first_key v ks)"

definition dec_int :: "int \<Rightarrow> string" where
  "dec_int i = (if i < 0 then ''-'' @ dec (nat (- i)) else dec (nat i))"

definition json_i64 :: "int \<Rightarrow> json" where
  "json_i64 i = JNum (if i < 0 then NegInt i else PosInt (of_int i))"

fun as_array :: "json \<Rightarrow> json list option" where
  "as_array (JArr vs) = Some vs"
| "as_array _ = None"

fun is_object :: "json \<Rightarrow> bool" where
  "is_object (JObj _) = True"
| "is_object _ = False"

text \<open>\<open>str::parse\<close> for a signed type.\<close>

definition parse_signed :: "int \<Rightarrow> int \<Rightarrow> string \<Rightarrow> int option" where
  "parse_signed low high s =
     (let negative = starts_with ''-'' s;
          ds = (if negative \<or> starts_with ''+'' s then drop 1 s else s);
          v = (if negative then - int (digits_value ds) else int (digits_value ds))
      in if ds = [] \<or> \<not> list_all is_digit ds \<or> v < low \<or> high < v then None else Some v)"

definition parse_i64 :: "string \<Rightarrow> int option" where
  "parse_i64 = parse_signed (- (2 ^ 63)) i64_max"

definition parse_i32 :: "string \<Rightarrow> int option" where
  "parse_i32 = parse_signed (- (2 ^ 31)) (2 ^ 31 - 1)"

section \<open>Previews\<close>

definition PROVIDER_MAX_TEXT_CHARS :: nat where
  "PROVIDER_MAX_TEXT_CHARS = 16000"

definition PROVIDER_MAX_PREVIEW_CHARS :: nat where
  "PROVIDER_MAX_PREVIEW_CHARS = 4000"

definition capped_text :: "string \<Rightarrow> nat \<Rightarrow> string \<times> bool" where
  "capped_text s max_chars = (local_preview s max_chars, char_count s > max_chars)"

definition provider_local_preview :: "string \<Rightarrow> nat \<Rightarrow> string \<times> bool" where
  "provider_local_preview s max_chars = capped_text s max_chars"

definition preview_json :: "string \<Rightarrow> string \<times> bool \<Rightarrow> json" where
  "preview_json key p = json_object [(key, JStr (fst p)), (''truncated'', JBool (snd p))]"

definition provider_capped_json :: "externals \<Rightarrow> json \<Rightarrow> nat \<Rightarrow> json" where
  "provider_capped_json X v max_chars =
     (case v of
        JNull \<Rightarrow> JNull
      | JStr text \<Rightarrow> preview_json ''text'' (provider_local_preview text max_chars)
      | _ \<Rightarrow> preview_json ''json'' (provider_local_preview (value_to_string X v) max_chars))"

fun provider_capped_json_value :: "json \<Rightarrow> nat \<Rightarrow> json" where
  "provider_capped_json_value (JStr text) max_chars =
     (case provider_local_preview text max_chars of
        (text, True) \<Rightarrow> json_object [(''text'', JStr text), (''truncated'', JBool True)]
      | (text, False) \<Rightarrow> JStr text)"
| "provider_capped_json_value (JArr items) max_chars =
     JArr (map (\<lambda>v. provider_capped_json_value v max_chars) items)"
| "provider_capped_json_value (JObj ms) max_chars =
     JObj (map (\<lambda>m. (fst m, provider_capped_json_value (snd m) max_chars)) ms)"
| "provider_capped_json_value v max_chars = v"

definition antigravity_tool_call_text :: "json \<Rightarrow> string option" where
  "antigravity_tool_call_text v =
     Option.bind (as_array v) (\<lambda>calls.
       let names = List.map_filter (\<lambda>call. jget_str call ''name'') calls
       in if names = [] then None else Some (''tool calls: '' @ join '', '' names))"

section \<open>Numbers and times\<close>

definition provider_nonnegative_i64_to_u64 :: "int \<Rightarrow> string \<Rightarrow> capture_error + u64" where
  "provider_nonnegative_i64_to_u64 v field =
     (if v < 0 then Inl (CaptureInvalidPayload (field @ '' must be nonnegative, got '' @ dec_int v))
      else Inr (of_int v))"

definition provider_line_from_index :: "u64 \<Rightarrow> nat" where
  "provider_line_from_index index = min (unat index) usize_max"

definition provider_timestamp_seconds_to_datetime :: "'f transcript_lib \<Rightarrow> 'f \<Rightarrow> datetime option" where
  "provider_timestamp_seconds_to_datetime T v =
     (if \<not> tl_is_finite T v then None
      else
        let millis = (if tl_greater T (tl_abs T v) (tl_f64_of T 1000000000000) then tl_round T v
                      else tl_round T (tl_mul T v (tl_f64_of T 1000)))
        in if tl_greater T (tl_f64_of T (- (2 ^ 63))) millis \<or> tl_greater T millis (tl_f64_of T i64_max) then None
           else tl_from_timestamp_millis T (tl_as_i64 T millis))"

definition provider_timestamp_seconds :: "'f transcript_lib \<Rightarrow> 'f option \<Rightarrow> datetime \<Rightarrow> datetime" where
  "provider_timestamp_seconds T v fallback =
     unwrap_or (Option.bind v (provider_timestamp_seconds_to_datetime T)) fallback"

definition provider_timestamp_millis :: "'f transcript_lib \<Rightarrow> int option \<Rightarrow> datetime \<Rightarrow> datetime" where
  "provider_timestamp_millis T v fallback = unwrap_or (Option.bind v (tl_from_timestamp_millis T)) fallback"

definition provider_required_timestamp_millis :: "'f transcript_lib \<Rightarrow> int \<Rightarrow> string \<Rightarrow> capture_error + datetime" where
  "provider_required_timestamp_millis T v field =
     (case tl_from_timestamp_millis T v of
        Some t \<Rightarrow> Inr t
      | None \<Rightarrow> Inl (CaptureInvalidPayload
          (field @ '' is outside representable timestamp range: '' @ dec_int v)))"

definition provider_timestamp_value :: "'f transcript_lib \<Rightarrow> json option \<Rightarrow> datetime \<Rightarrow> datetime" where
  "provider_timestamp_value T v fallback =
     (case v of
        Some (JStr raw) \<Rightarrow>
          unwrap_or (or_else (tl_rfc3339 T raw)
            (map_option (\<lambda>ts. provider_timestamp_seconds T (Some ts) fallback) (tl_parse_f64 T raw))) fallback
      | Some (JNum n) \<Rightarrow>
          unwrap_or (map_option (\<lambda>ts. provider_timestamp_seconds T (Some ts) fallback) (tl_as_f64 T n)) fallback
      | _ \<Rightarrow> fallback)"

fun provider_timestamp_from_fields :: "'f transcript_lib \<Rightarrow> json \<Rightarrow> string list \<Rightarrow> datetime option" where
  "provider_timestamp_from_fields T v [] = None"
| "provider_timestamp_from_fields T v (field # names) =
     or_else
       (case jget v field of
          Some (JStr text) \<Rightarrow>
            or_else (tl_rfc3339 T text)
              (Option.bind (tl_parse_f64 T text) (provider_timestamp_seconds_to_datetime T))
        | Some (JNum n) \<Rightarrow> Option.bind (tl_as_f64 T n) (provider_timestamp_seconds_to_datetime T)
        | _ \<Rightarrow> None)
       (provider_timestamp_from_fields T v names)"

definition text_id_index :: "string \<Rightarrow> u64 \<Rightarrow> u64" where
  "text_id_index seed offset =
     (let h = fnv1a64 (str_bytes seed) AND 0x0FFFFFFF
      in if unat offset + unat h \<ge> 2 ^ 64 then - 1 else offset + h)"

text \<open>\<open>from_timestamp(value, 0)\<close> is the time of a thousand times as many milliseconds.\<close>

definition task_json_timestamp_number :: "'f transcript_lib \<Rightarrow> int \<Rightarrow> datetime option" where
  "task_json_timestamp_number T v =
     (if v > 10000000000 then tl_from_timestamp_millis T v else tl_from_timestamp_millis T (v * 1000))"

definition task_json_string_field :: "json \<Rightarrow> string list \<Rightarrow> string option" where
  "task_json_string_field v names =
     (case List.map_filter (jget_str v) names of
        [] \<Rightarrow> None
      | text # _ \<Rightarrow> if trim text = [] then None else Some text)"

fun task_json_time_field :: "'f transcript_lib \<Rightarrow> json \<Rightarrow> string list \<Rightarrow> datetime option" where
  "task_json_time_field T v [] = None"
| "task_json_time_field T v (field # names) =
     (case jget v field of
        None \<Rightarrow> task_json_time_field T v names
      | Some x \<Rightarrow>
          or_else
            (or_else
              (Option.bind (as_str x) (\<lambda>text.
                 or_else (tl_rfc3339 T text)
                   (Option.bind (parse_i64 text) (task_json_timestamp_number T))))
              (Option.bind (as_i64 x) (task_json_timestamp_number T)))
            (task_json_time_field T v names))"

section \<open>Texts\<close>

definition provider_json_text :: "'f transcript_lib \<Rightarrow> string \<Rightarrow> json" where
  "provider_json_text T raw = unwrap_or (json_of T raw) (JStr raw)"

definition hermes_decode_content :: "'f transcript_lib \<Rightarrow> string option \<Rightarrow> json" where
  "hermes_decode_content T raw =
     (case raw of
        None \<Rightarrow> JNull
      | Some raw \<Rightarrow>
          (case strip_prefix (CHR 0x00 # ''json:'') raw of
             Some rest \<Rightarrow> provider_json_text T rest
           | None \<Rightarrow> JStr raw))"

definition parse_json_object_string :: "'f transcript_lib \<Rightarrow> string option \<Rightarrow> json" where
  "parse_json_object_string T v = unwrap_or (Option.bind v (json_of T)) JNull"

definition sqlite_bool :: "int option \<Rightarrow> bool" where
  "sqlite_bool v \<longleftrightarrow> unwrap_or v 0 \<noteq> 0"

definition call_kinds :: "string list" where
  "call_kinds = [''tool_use'', ''tool'', ''toolCall'', ''function_call'', ''agent'']"

definition value_text_block :: "json \<Rightarrow> string list" where
  "value_text_block block =
     (case Option.bind (first_key block [''text'', ''content'', ''output'', ''summary'']) as_str of
        Some text \<Rightarrow> [text]
      | None \<Rightarrow>
          (case jget_str block ''type'' of
             None \<Rightarrow> []
           | Some kind \<Rightarrow>
               if kind \<in> set call_kinds
               then [''tool call: ''
                 @ unwrap_or (Option.bind (first_key block [''name'', ''tool'']) as_str) ''tool'']
               else if kind = ''tool_result'' then [''tool result''] else []))"

definition provider_value_text :: "externals \<Rightarrow> json \<Rightarrow> string option" where
  "provider_value_text X v =
     (case v of
        JStr text \<Rightarrow> Some text
      | JArr blocks \<Rightarrow>
          (let parts = concat (map value_text_block blocks)
           in if parts = [] then None else Some (join [line_feed] parts))
      | JObj _ \<Rightarrow> json_text X v
      | JNum _ \<Rightarrow> Some (value_to_string X v)
      | JBool _ \<Rightarrow> Some (value_to_string X v)
      | JNull \<Rightarrow> None)"

fun provider_string_field :: "json \<Rightarrow> string list \<Rightarrow> string option" where
  "provider_string_field v [] = None"
| "provider_string_field v (field # names) =
     or_else (opt_filter (\<lambda>text. trim text \<noteq> []) (jget_str v field)) (provider_string_field v names)"

definition provider_message_id :: "json \<Rightarrow> u64 \<Rightarrow> string" where
  "provider_message_id v fallback_index =
     unwrap_or
       (opt_filter (\<lambda>i. trim i \<noteq> [])
         (Option.bind (first_key v [''id'', ''message_id'', ''messageId'', ''request_id'', ''requestId'']) as_str))
       (''message-'' @ dec (unat fallback_index))"

definition provider_message_parts :: "json \<Rightarrow> json list option" where
  "provider_message_parts v = Option.bind (first_key v [''parts'', ''content'', ''blocks'']) as_array"

definition provider_message_has_part_kind :: "json \<Rightarrow> string list \<Rightarrow> bool" where
  "provider_message_has_part_kind v kinds \<longleftrightarrow>
     (case provider_message_parts v of
        None \<Rightarrow> False
      | Some parts \<Rightarrow>
          list_ex (\<lambda>part. case Option.bind (first_key part [''type'', ''kind'']) as_str of
            None \<Rightarrow> False | Some kind \<Rightarrow> kind \<in> set kinds) parts)"

definition provider_part_text :: "externals \<Rightarrow> json \<Rightarrow> string option" where
  "provider_part_text X part =
     (let kind = unwrap_or (Option.bind (first_key part [''type'', ''kind'']) as_str) []
      in if kind \<in> {''tool_use'', ''tool-use'', ''tool_call'', ''tool-call'', ''function_call''}
         then Some (''tool call: ''
           @ unwrap_or (Option.bind (first_key part [''name'', ''tool'', ''tool_name'', ''toolName'']) as_str) ''tool'')
         else if kind \<in> {''tool_result'', ''tool-result'', ''tool_use_result'', ''function_result''}
         then or_else (Option.bind (first_key part [''content'', ''result'', ''output'']) (provider_value_text X))
           (Some ''tool result'')
         else Option.bind (first_key part [''text'', ''content'', ''thinking'', ''summary'']) (provider_value_text X))"

fun first_block_text :: "externals \<Rightarrow> json \<Rightarrow> string list \<Rightarrow> string option" where
  "first_block_text X v [] = None"
| "first_block_text X v (key # keys) =
     or_else (opt_filter (\<lambda>text. trim text \<noteq> []) (Option.bind (jget v key) (provider_value_text X)))
       (first_block_text X v keys)"

definition provider_block_text :: "externals \<Rightarrow> json \<Rightarrow> string option" where
  "provider_block_text X v =
     (case first_block_text X v
        [''text'', ''content'', ''message'', ''prompt'', ''response'', ''output'', ''summary''] of
        Some text \<Rightarrow> Some text
      | None \<Rightarrow>
          Option.bind (provider_message_parts v) (\<lambda>parts.
            let rendered = List.map_filter (provider_part_text X) parts
            in if rendered = [] then None else Some (join [line_feed] rendered)))"

definition provider_json_without_keys :: "json \<Rightarrow> string list \<Rightarrow> json" where
  "provider_json_without_keys v keys =
     (case v of JObj ms \<Rightarrow> JObj (filter (\<lambda>m. fst m \<notin> set keys) ms) | _ \<Rightarrow> v)"

section \<open>Roles and kinds\<close>

definition provider_role :: "string option \<Rightarrow> event_role" where
  "provider_role v =
     (case v of
        None \<Rightarrow> EventRole_Unknown
      | Some r \<Rightarrow>
          if r = ''user'' then EventRole_User
          else if r = ''assistant'' then EventRole_Assistant
          else if r = ''system'' \<or> r = ''developer'' then EventRole_System
          else if r = ''tool'' \<or> r = ''toolResult'' \<or> r = ''bashExecution'' then EventRole_Tool
          else EventRole_Unknown)"

definition provider_role_from_message :: "json \<Rightarrow> string option \<Rightarrow> event_role" where
  "provider_role_from_message v role_text =
     (case or_else role_text (jget_str v ''kind'') of
        None \<Rightarrow> EventRole_Unknown
      | Some r \<Rightarrow>
          if r \<in> {''user'', ''human'', ''user_prompt'', ''user-prompt''} then EventRole_User
          else if r \<in> {''assistant'', ''agent'', ''ai'', ''model''} then EventRole_Assistant
          else if r \<in> {''system'', ''developer'', ''system_prompt'', ''system-prompt''} then EventRole_System
          else if r \<in> {''tool'', ''tool_result'', ''tool-result'', ''tool_use_result''} then EventRole_Tool
          else EventRole_Unknown)"

definition provider_block_event_type :: "json \<Rightarrow> string option \<Rightarrow> event_type" where
  "provider_block_event_type v role_text =
     (let role = unwrap_or role_text []
      in if text_contains ''tool_result'' role \<or> text_contains ''tool-result'' role
           \<or> provider_message_has_part_kind v [''tool_result'', ''tool-result'']
         then EventType_ToolOutput
         else if text_contains ''tool_use'' role \<or> text_contains ''tool-use'' role
           \<or> provider_message_has_part_kind v [''tool_use'', ''tool-use'', ''tool-call'', ''tool_call'']
         then EventType_ToolCall
         else if role \<in> {''system'', ''developer'', ''system_prompt'', ''system-prompt''} then EventType_Notice
         else EventType_Message)"

section \<open>What may be retained\<close>

definition provider_text_contains_patch_or_diff :: "string \<Rightarrow> bool" where
  "provider_text_contains_patch_or_diff text \<longleftrightarrow>
     text_contains ''*** Begin Patch'' text \<or> text_contains ''diff --git '' text
     \<or> starts_with ''@@'' text \<or> starts_with ''+++ '' text \<or> starts_with ''--- '' text
     \<or> text_contains (line_feed # ''@@'') text \<or> text_contains (line_feed # ''+++ '') text
     \<or> text_contains (line_feed # ''--- '') text"

fun provider_value_contains_patch_or_diff :: "json \<Rightarrow> bool" where
  "provider_value_contains_patch_or_diff (JStr text) = provider_text_contains_patch_or_diff text"
| "provider_value_contains_patch_or_diff (JArr items) =
     (\<exists>v \<in> set items. provider_value_contains_patch_or_diff v)"
| "provider_value_contains_patch_or_diff (JObj ms) =
     (\<exists>m \<in> set ms. provider_value_contains_patch_or_diff (snd m))"
| "provider_value_contains_patch_or_diff _ = False"

definition provider_value_approx_bytes :: "externals \<Rightarrow> json \<Rightarrow> nat" where
  "provider_value_approx_bytes X v =
     (case v of
        JStr text \<Rightarrow> length text
      | _ \<Rightarrow> (case json_text X v of None \<Rightarrow> 0 | Some text \<Rightarrow> length text))"

definition omitted_output :: "nat \<Rightarrow> string" where
  "omitted_output n = ''[output omitted: contains patch or diff content; bytes='' @ dec n @ '']''"

definition provider_output_preview_omitting_patch_diff :: "string \<Rightarrow> string" where
  "provider_output_preview_omitting_patch_diff text =
     (if provider_text_contains_patch_or_diff text then omitted_output (length text) else text)"

definition provider_output_preview_omitting_nested_patch_diff :: "externals \<Rightarrow> json \<Rightarrow> string \<Rightarrow> string" where
  "provider_output_preview_omitting_nested_patch_diff X v text =
     (if provider_value_contains_patch_or_diff v then omitted_output (provider_value_approx_bytes X v)
      else provider_output_preview_omitting_patch_diff text)"

definition provider_status_text_is_failure :: "string \<Rightarrow> bool" where
  "provider_status_text_is_failure status \<longleftrightarrow>
     ascii_lower (trim status)
     \<in> {''failed'', ''failure'', ''error'', ''errored'', ''timeout'', ''timed_out'', ''timedout''}"

definition provider_error_value_indicates_failure :: "json \<Rightarrow> bool" where
  "provider_error_value_indicates_failure v \<longleftrightarrow>
     (case v of
        JNull \<Rightarrow> False
      | JBool b \<Rightarrow> b
      | JStr s \<Rightarrow> trim s \<noteq> []
      | JNum n \<Rightarrow> (case as_i64 v of None \<Rightarrow> False | Some i \<Rightarrow> i \<noteq> 0)
      | JArr vs \<Rightarrow> vs \<noteq> []
      | JObj ms \<Rightarrow> ms \<noteq> [])"

definition provider_output_object_indicates_failure :: "json \<Rightarrow> bool" where
  "provider_output_object_indicates_failure v \<longleftrightarrow>
     (let int_field = (\<lambda>p k. case Option.bind (jget v k) as_i64 of None \<Rightarrow> False | Some i \<Rightarrow> p i)
      in Option.bind (first_key v [''timed_out'', ''timedOut'', ''timeout'']) as_bool = Some True
         \<or> Option.bind (jget v ''success'') as_bool = Some False
         \<or> Option.bind (first_key v [''isError'', ''is_error'']) as_bool = Some True
         \<or> list_ex (int_field (\<lambda>code. code \<noteq> 0)) [''exit_code'', ''exitCode'']
         \<or> list_ex (int_field (\<lambda>code. code \<ge> 400)) [''status_code'', ''statusCode'']
         \<or> list_ex (\<lambda>k. case jget_str v k of None \<Rightarrow> False | Some s \<Rightarrow> provider_status_text_is_failure s)
             [''status'', ''state'', ''outcome'']
         \<or> (case jget v ''error'' of None \<Rightarrow> False | Some e \<Rightarrow> provider_error_value_indicates_failure e))"

fun provider_output_event_is_failure :: "json \<Rightarrow> bool" where
  "provider_output_event_is_failure (JObj ms) =
     (provider_output_object_indicates_failure (JObj ms)
      \<or> (\<exists>m \<in> set ms. provider_output_event_is_failure (snd m)))"
| "provider_output_event_is_failure (JArr items) = (\<exists>v \<in> set items. provider_output_event_is_failure v)"
| "provider_output_event_is_failure _ = False"

datatype text_omission_policy = Omit_None | Omit_Patch_Or_Diff

definition omission_policy_text :: "text_omission_policy \<Rightarrow> string" where
  "omission_policy_text p = (case p of Omit_None \<Rightarrow> ''none'' | Omit_Patch_Or_Diff \<Rightarrow> ''patch_or_diff'')"

record text_retention =
  tr_limit_chars :: "nat option"
  tr_truncated :: bool
  tr_omission_policy :: text_omission_policy
  tr_omission_applied :: bool

definition retention_json :: "text_retention \<Rightarrow> json" where
  "retention_json r =
     json_object
       [(''mode'', JStr (if tr_limit_chars r \<noteq> None then ''bounded'' else ''none'')),
        (''limit_chars'', json_of_option json_usize (tr_limit_chars r)),
        (''truncated'', JBool (tr_truncated r)),
        (''omission_policy'', JStr (omission_policy_text (tr_omission_policy r))),
        (''omission_applied'', JBool (tr_omission_applied r))]"

definition native_event_text_retention_policy :: "event_type \<Rightarrow> json \<Rightarrow> nat option \<times> text_omission_policy" where
  "native_event_text_retention_policy et body =
     (if et \<in> {EventType_Message, EventType_Summary} then (Some PROVIDER_MAX_TEXT_CHARS, Omit_None)
      else if et \<in> {EventType_ToolCall, EventType_CommandStarted, EventType_CommandFinished}
      then (Some PROVIDER_MAX_PREVIEW_CHARS, Omit_None)
      else if et \<in> {EventType_ToolOutput, EventType_CommandOutput} \<and> provider_output_event_is_failure body
      then (Some PROVIDER_MAX_PREVIEW_CHARS, Omit_Patch_Or_Diff)
      else (None, Omit_None))"

definition provider_policy_event_text :: "externals \<Rightarrow> event_type \<Rightarrow> string \<Rightarrow> json \<Rightarrow> string \<times> text_retention" where
  "provider_policy_event_text X et text body =
     (let (limit, policy) = native_event_text_retention_policy et body;
          applied = (policy = Omit_Patch_Or_Diff
            \<and> (provider_value_contains_patch_or_diff body \<or> provider_text_contains_patch_or_diff text));
          kept = (if applied then provider_output_preview_omitting_nested_patch_diff X body text else text);
          (shown, truncated) =
            (case limit of Some n \<Rightarrow> provider_local_preview kept n | None \<Rightarrow> ([], False))
      in (shown,
          \<lparr>tr_limit_chars = limit, tr_truncated = truncated, tr_omission_policy = policy,
           tr_omission_applied = applied\<rparr>))"

text \<open>\<open>provider_normalized_key\<close> and \<open>codex_normalized_key\<close> are the \<open>normalized_key\<close> of the touched
  files.\<close>

definition quiet_event_types :: "event_type list" where
  "quiet_event_types = [EventType_Notice, EventType_FileTouched, EventType_VcsChange, EventType_Artifact]"

definition always_omitted_keys :: "string list" where
  "always_omitted_keys =
     [''output'', ''stdout'', ''stderr'', ''tooloutput'', ''toolresult'', ''toolresults'', ''tooluseresult'',
      ''toolcallstates'', ''commandoutput'', ''executionoutput'', ''result'', ''results'', ''diff'', ''patch'',
      ''oldstring'', ''newstring'', ''oldcontent'', ''newcontent'', ''beforecontent'', ''aftercontent'',
      ''beforetext'', ''aftertext'']"

definition provider_should_omit_body_field :: "event_type \<Rightarrow> string \<Rightarrow> json \<Rightarrow> bool" where
  "provider_should_omit_body_field et given v \<longleftrightarrow>
     (let key = normalized_key given
      in et \<in> set quiet_event_types
           \<and> key \<in> {''text'', ''content'', ''message'', ''prompt'', ''summary'', ''details''}
         \<or> et \<in> {EventType_ToolOutput, EventType_CommandOutput}
           \<and> (key \<in> {''details'', ''text'', ''content'', ''outputpreview''} \<or> key = ''message'' \<and> \<not> is_object v)
         \<or> key \<in> set always_omitted_keys
         \<or> key \<in> {''input'', ''arguments'', ''args'', ''params''} \<and> provider_value_contains_patch_or_diff v)"

definition provider_omitted_body_field :: "externals \<Rightarrow> json \<Rightarrow> json" where
  "provider_omitted_body_field X v =
     json_object [(''field_retention'', json_object
       [(''mode'', JStr ''omitted''), (''original_bytes'', json_usize (provider_value_approx_bytes X v)),
        (''contained_patch_or_diff'', JBool (provider_value_contains_patch_or_diff v))])]"

function provider_filter_body_by_retention_policy ::
    "externals \<Rightarrow> event_type \<Rightarrow> json \<Rightarrow> string option \<Rightarrow> json" where
  "provider_filter_body_by_retention_policy X et v key =
     (if (case key of None \<Rightarrow> False | Some k \<Rightarrow> provider_should_omit_body_field et k v)
      then provider_omitted_body_field X v
      else case v of
          JArr items \<Rightarrow> JArr (map (\<lambda>item. provider_filter_body_by_retention_policy X et item key) items)
        | JObj ms \<Rightarrow>
            JObj (map (\<lambda>m. (fst m, provider_filter_body_by_retention_policy X et (snd m) (Some (fst m)))) ms)
        | _ \<Rightarrow> v)"
  by pat_completeness auto
termination
  by (relation "measure (\<lambda>(X, et, v, key). size v)") (auto simp: size_member less_Suc_eq_le intro: size_list_estimation')

declare provider_filter_body_by_retention_policy.simps [simp del]

definition provider_policy_body :: "externals \<Rightarrow> event_type \<Rightarrow> json \<Rightarrow> json" where
  "provider_policy_body X et body = provider_filter_body_by_retention_policy X et body None"

section \<open>Envelopes\<close>

text \<open>A path is the text it is displayed as.\<close>

record adapter_context =
  ac_machine_id :: string
  ac_source_path :: "string option"
  ac_source_root :: "string option"
  ac_imported_at :: datetime

definition source_root_display :: "adapter_context \<Rightarrow> string option" where
  "source_root_display C = or_else (ac_source_root C) (ac_source_path C)"

record native_event_draft =
  ne_provider :: capture_provider
  ne_source_format :: string
  ne_provider_session_id :: string
  ne_provider_event_index :: u64
  ne_provider_event_hash :: "string option"
  ne_cursor :: string
  ne_event_type :: event_type
  ne_role :: "event_role option"
  ne_occurred_at :: datetime
  ne_text :: string
  ne_body :: json
  ne_metadata :: json

definition native_event :: "externals \<Rightarrow> native_event_draft \<Rightarrow> provider_event_envelope" where
  "native_event X d =
     (let (text, retention) = provider_policy_event_text X (ne_event_type d) (ne_text d) (ne_body d)
      in \<lparr>pev_provider_event_index = ne_provider_event_index d,
          pev_provider_event_hash = ne_provider_event_hash d, pev_cursor = Some (ne_cursor d),
          pev_event_type = ne_event_type d, pev_role = ne_role d, pev_occurred_at = ne_occurred_at d,
          pev_fidelity = Fidelity_Imported,
          pev_idempotency_key = Some (''provider-event:'' @ provider_str (ne_provider d) @ '':''
            @ ne_provider_session_id d @ '':'' @ dec (unat (ne_provider_event_index d))),
          pev_artifacts = [],
          pev_payload = json_object
            [(''text'', JStr text), (''text_retention'', retention_json retention),
             (''source_format'', JStr (ne_source_format d)),
             (''body'', provider_capped_json X (provider_policy_body X (ne_event_type d) (ne_body d))
                PROVIDER_MAX_PREVIEW_CHARS)],
          pev_metadata = ne_metadata d\<rparr>)"

record native_session_draft =
  ns_provider :: capture_provider
  ns_source_format :: string
  ns_provider_session_id :: string
  ns_parent_provider_session_id :: "string option"
  ns_root_provider_session_id :: "string option"
  ns_external_agent_id :: "string option"
  ns_agent_type :: agent_type
  ns_role_hint :: "string option"
  ns_is_primary :: bool
  ns_started_at :: datetime
  ns_ended_at :: "datetime option"
  ns_cwd :: "string option"
  ns_fidelity :: fidelity
  ns_raw_source_path :: string
  ns_trust :: provider_source_trust
  ns_source_metadata :: json
  ns_session_metadata :: json

definition native_provider_capture ::
    "native_session_draft \<Rightarrow> adapter_context \<Rightarrow> provider_event_envelope option \<Rightarrow> provider_capture_envelope" where
  "native_provider_capture d C event =
     \<lparr>pce_schema_version = PROVIDER_CAPTURE_ENVELOPE_SCHEMA_VERSION, pce_provider = ns_provider d,
      pce_source =
        \<lparr>pso_source_format = ns_source_format d, pso_machine_id = ac_machine_id C,
         pso_observed_at = ac_imported_at C, pso_raw_source_path = Some (ns_raw_source_path d),
         pso_source_root = source_root_display C, pso_trust = ns_trust d, pso_fidelity = ns_fidelity d,
         pso_cursor = Option.bind event (\<lambda>e. map_option (\<lambda>cursor.
           \<lparr>pcr_before = None,
            pcr_after = Some \<lparr>pcc_stream = provider_cursor_stream (ns_provider d) (ns_source_format d),
              pcc_cursor = cursor, pcc_observed_at = pev_occurred_at e\<rparr>\<rparr>) (pev_cursor e)),
         pso_idempotency_key = Some (''provider-source:'' @ provider_str (ns_provider d) @ '':''
           @ ns_source_format d @ '':'' @ ns_provider_session_id d),
         pso_metadata = ns_source_metadata d\<rparr>,
      pce_session =
        \<lparr>pse_provider_session_id = ns_provider_session_id d,
         pse_parent_provider_session_id = ns_parent_provider_session_id d,
         pse_root_provider_session_id = ns_root_provider_session_id d,
         pse_external_agent_id = ns_external_agent_id d, pse_agent_type = ns_agent_type d,
         pse_role_hint = ns_role_hint d, pse_is_primary = ns_is_primary d,
         pse_status = SessionStatus_Imported, pse_started_at = ns_started_at d,
         pse_ended_at = ns_ended_at d, pse_cwd = ns_cwd d, pse_fidelity = ns_fidelity d,
         pse_idempotency_key = Some (''provider-session:'' @ provider_str (ns_provider d) @ '':''
           @ ns_provider_session_id d),
         pse_artifacts = [], pse_metadata = ns_session_metadata d\<rparr>,
      pce_event = event\<rparr>"

section \<open>Retained texts\<close>

lemma starts_with_extend: "starts_with p s \<Longrightarrow> starts_with p (s @ t)"
  by (auto simp: starts_with_iff)

lemma text_contains_Nil: "text_contains [] s"
  by (cases s) (simp_all add: starts_with_def)

lemma text_contains_extend: "text_contains p s \<Longrightarrow> text_contains p (s @ t)"
proof (induction s)
  case Nil then show ?case by (simp add: text_contains_Nil)
next
  case (Cons c s) then show ?case using starts_with_extend [of p "c # s" t] by auto
qed

lemma local_preview_prefix: "\<exists>t. s = local_preview s n @ t"
  by (induction s n rule: local_preview.induct) auto

lemma patch_free_preview:
  "\<not> provider_text_contains_patch_or_diff s \<Longrightarrow> \<not> provider_text_contains_patch_or_diff (local_preview s n)"
  using local_preview_prefix [of s n] text_contains_extend starts_with_extend
  unfolding provider_text_contains_patch_or_diff_def by metis

lemma dec_no_needle: "c \<in> set (dec n) \<Longrightarrow> is_digit c"
  using dec_digits [of n] by (simp add: list_all_iff)

lemma starts_with_needs: "starts_with p s \<Longrightarrow> set p \<subseteq> set s"
  by (auto simp: starts_with_iff)

lemma contains_needs: "text_contains p s \<Longrightarrow> set p \<subseteq> set s"
proof (induction s)
  case (Cons a s) then show ?case using starts_with_needs [of p "a # s"] by auto
qed simp

lemma not_in_dec: "\<not> is_digit c \<Longrightarrow> c \<notin> set (dec n)"
  using dec_no_needle by blast

lemma omitted_output_patch_free: "\<not> provider_text_contains_patch_or_diff (omitted_output n)"
proof -
  have star: "CHR ''*'' \<notin> set (omitted_output n)" and minus: "CHR ''-'' \<notin> set (omitted_output n)"
    and feed: "line_feed \<notin> set (omitted_output n)"
    using not_in_dec [of "CHR ''*''" n] not_in_dec [of "CHR ''-''" n] not_in_dec [of line_feed n]
    by (simp_all add: omitted_output_def is_digit_def line_feed_def)
  have "\<not> text_contains ''*** Begin Patch'' (omitted_output n)"
    "\<not> text_contains ''diff --git '' (omitted_output n)"
    "\<not> text_contains (line_feed # ''@@'') (omitted_output n)"
    "\<not> text_contains (line_feed # ''+++ '') (omitted_output n)"
    "\<not> text_contains (line_feed # ''--- '') (omitted_output n)"
    using star minus feed contains_needs by fastforce+
  moreover have "\<not> starts_with ''@@'' (omitted_output n)" "\<not> starts_with ''+++ '' (omitted_output n)"
    "\<not> starts_with ''--- '' (omitted_output n)"
    by (simp_all add: omitted_output_def starts_with_def)
  ultimately show ?thesis by (simp add: provider_text_contains_patch_or_diff_def)
qed

lemma omitting_patch_free: "\<not> provider_text_contains_patch_or_diff (provider_output_preview_omitting_patch_diff s)"
  by (simp add: provider_output_preview_omitting_patch_diff_def omitted_output_patch_free)

lemma omitting_nested_patch_free:
  "\<not> provider_text_contains_patch_or_diff (provider_output_preview_omitting_nested_patch_diff X v s)"
  by (simp add: provider_output_preview_omitting_nested_patch_diff_def omitted_output_patch_free omitting_patch_free)

text \<open>The members of a JSON value, at every depth.\<close>

fun json_members :: "json \<Rightarrow> (string \<times> json) list" where
  "json_members (JObj ms) = ms @ concat (map (\<lambda>m. json_members (snd m)) ms)"
| "json_members (JArr items) = concat (map json_members items)"
| "json_members _ = []"

definition omitted_member :: "externals \<Rightarrow> string \<times> json \<Rightarrow> bool" where
  "omitted_member X m \<longleftrightarrow>
     (normalized_key (fst m) \<in> set always_omitted_keys \<longrightarrow> (\<exists>v. snd m = provider_omitted_body_field X v))"

lemma omitted_field_members:
  "m \<in> set (json_members (provider_omitted_body_field X v)) \<Longrightarrow> omitted_member X m"
  by (auto simp: provider_omitted_body_field_def json_object_def omitted_member_def normalized_key_def
      always_omitted_keys_def is_ascii_alphanumeric_def fold_ascii_def)

lemma filtered_members:
  "m \<in> set (json_members (provider_filter_body_by_retention_policy X et v key)) \<Longrightarrow> omitted_member X m"
proof (induction X et v key arbitrary: m rule: provider_filter_body_by_retention_policy.induct)
  case (1 X et v key)
  show ?case
  proof (cases "case key of None \<Rightarrow> False | Some k \<Rightarrow> provider_should_omit_body_field et k v")
    case True
    then show ?thesis
      using "1.prems" omitted_field_members [of m X v] by (simp add: provider_filter_body_by_retention_policy.simps)
  next
    case False
    have top: "omitted_member X (k, provider_filter_body_by_retention_policy X et w (Some k))" for k w
      by (auto simp: omitted_member_def provider_filter_body_by_retention_policy.simps [of X et w]
          provider_should_omit_body_field_def Let_def)
    obtain k w where m: "m = (k, w)" by (cases m)
    show ?thesis
      using "1.prems" "1.IH" [OF False] False top unfolding m
      by (subst (asm) provider_filter_body_by_retention_policy.simps) (auto split: json.splits)
  qed
qed

text \<open>The text kept of a tool's output shows no patch or diff, whatever the output and however it is
  cut, and in the body kept of any event a field named for output, a result or an edited text holds
  nothing but the record of its omission, at every depth.\<close>

theorem retained_output_has_no_diff:
  "(et = EventType_ToolOutput \<or> et = EventType_CommandOutput \<longrightarrow>
      \<not> provider_text_contains_patch_or_diff (fst (provider_policy_event_text X et text body)))
   \<and> (\<forall>m \<in> set (json_members (provider_policy_body X et body)). omitted_member X m)"
proof
  have "\<not> provider_text_contains_patch_or_diff []"
    by (simp add: provider_text_contains_patch_or_diff_def starts_with_def)
  moreover have "\<not> provider_text_contains_patch_or_diff (local_preview text n)"
    if "\<not> provider_text_contains_patch_or_diff text" for n
    using that by (rule patch_free_preview)
  moreover have "\<not> provider_text_contains_patch_or_diff
      (local_preview (provider_output_preview_omitting_nested_patch_diff X body text) n)" for n
    by (rule patch_free_preview) (rule omitting_nested_patch_free)
  ultimately show "et = EventType_ToolOutput \<or> et = EventType_CommandOutput \<longrightarrow>
      \<not> provider_text_contains_patch_or_diff (fst (provider_policy_event_text X et text body))"
    by (auto simp: provider_policy_event_text_def native_event_text_retention_policy_def Let_def
        provider_local_preview_def capped_text_def)
qed (use filtered_members in \<open>auto simp: provider_policy_body_def\<close>)

theorem retained_output_has_no_diff_witness:
  "\<not> provider_text_contains_patch_or_diff (fst (provider_policy_event_text demo_externals EventType_ToolOutput
      ''diff --git a/f b/f''
      (JObj [(''exit_code'', JNum (PosInt 1)), (''output'', JStr ''diff --git a/f b/f'')])))"
  using retained_output_has_no_diff [of EventType_ToolOutput demo_externals "''diff --git a/f b/f''"
      "JObj [(''exit_code'', JNum (PosInt 1)), (''output'', JStr ''diff --git a/f b/f'')]"]
  by simp

end
