(* ===== verification/Import_Identity.thy ===== *)
theory Import_Identity
  imports Import_Common
begin

text \<open>
  Under which identity a line of a transcript is stored (\<open>identity.rs\<close> and \<open>legacy_identity.rs\<close> of
  \<open>provider/importer\<close>): the id, sequence number and deduplication key of an event, the ids of touched
  files, and the test whether a session written before identities were scoped to sources belongs to
  the source at hand.
\<close>

section \<open>Lookups\<close>

definition provider_event_exists :: "string \<Rightarrow> db \<Rightarrow> capture_error + bool" where
  "provider_event_exists dedupe_key d =
     (case event_id_by_dedupe_key dedupe_key d of
        Inr _ \<Rightarrow> Inr True
      | Inl e \<Rightarrow> if e = Sql QueryReturnedNoRows then Inr False else Inl (CaptureStore e))"

fun not_found_as_none :: "store_error + 'a \<Rightarrow> capture_error + 'a option" where
  "not_found_as_none (Inr x) = Inr (Some x)"
| "not_found_as_none (Inl (NotFound i)) = Inr None"
| "not_found_as_none (Inl e) = Inl (CaptureStore e)"

definition provider_event_by_id :: "uuid \<Rightarrow> db \<Rightarrow> capture_error + event option" where
  "provider_event_by_id i d = not_found_as_none (get_event i d)"

record event_identity =
  ei_id :: uuid
  ei_seq :: u64
  ei_dedupe_key :: string
  ei_run_source_id :: "uuid option"

definition identity_of_event :: "event \<Rightarrow> event_identity option" where
  "identity_of_event e =
     map_option (\<lambda>dedupe_key.
         \<lparr>ei_id = ev_id e, ei_seq = ev_seq e, ei_dedupe_key = dedupe_key,
          ei_run_source_id = ev_capture_source_id e\<rparr>)
       (ev_dedupe_key e)"

definition provider_event_identity_by_id :: "uuid \<Rightarrow> db \<Rightarrow> capture_error + event_identity option" where
  "provider_event_identity_by_id i d =
     bind_result (provider_event_by_id i d) (\<lambda>e. Inr (Option.bind e identity_of_event))"

definition provider_event_identity_by_alias :: "uuid \<Rightarrow> db \<Rightarrow> capture_error + event_identity option" where
  "provider_event_identity_by_alias alias_id d =
     (case event_alias_target_id alias_id d of
        None \<Rightarrow> Inr None
      | Some event_id \<Rightarrow> provider_event_identity_by_id event_id d)"

definition provider_event_id_exists :: "uuid \<Rightarrow> db \<Rightarrow> capture_error + bool" where
  "provider_event_id_exists i d = bind_result (provider_event_by_id i d) (\<lambda>e. Inr (e \<noteq> None))"

definition provider_session_exists :: "uuid \<Rightarrow> db \<Rightarrow> capture_error + bool" where
  "provider_session_exists i d =
     bind_result (not_found_as_none (get_session i d)) (\<lambda>s. Inr (s \<noteq> None))"

section \<open>Identities\<close>

definition provider_source_event_import_identity_with_seq ::
    "externals \<Rightarrow> uuid \<Rightarrow> u64 \<Rightarrow> u64 \<Rightarrow> string \<Rightarrow> event_identity" where
  "provider_source_event_import_identity_with_seq X source_id event_index sequence_index event_hash =
     \<lparr>ei_id = provider_source_event_uuid X source_id event_index,
      ei_seq = provider_source_event_seq X source_id sequence_index,
      ei_dedupe_key = provider_source_event_dedupe_key X source_id event_index event_hash,
      ei_run_source_id = Some source_id\<rparr>"

definition provider_source_event_import_identity ::
    "externals \<Rightarrow> uuid \<Rightarrow> u64 \<Rightarrow> string \<Rightarrow> event_identity" where
  "provider_source_event_import_identity X source_id event_index event_hash =
     provider_source_event_import_identity_with_seq X source_id event_index event_index event_hash"

definition provider_legacy_event_import_identity ::
    "capture_provider \<Rightarrow> string \<Rightarrow> u64 \<Rightarrow> string \<Rightarrow> event_identity" where
  "provider_legacy_event_import_identity provider provider_session_id event_index event_hash =
     \<lparr>ei_id = provider_event_uuid provider provider_session_id event_index,
      ei_seq = provider_event_seq provider provider_session_id event_index,
      ei_dedupe_key = provider_event_dedupe_key provider provider_session_id event_index event_hash,
      ei_run_source_id = None\<rparr>"

definition provider_event_seq_available :: "u64 \<Rightarrow> uuid \<Rightarrow> db \<Rightarrow> capture_error + bool" where
  "provider_event_seq_available seq event_id d =
     (case event_id_by_seq seq d of
        Inr existing_id \<Rightarrow> Inr (existing_id = event_id)
      | Inl e \<Rightarrow> if e = Sql QueryReturnedNoRows then Inr True else Inl (CaptureStore e))"

text \<open>The first sequence number of a list that is free or already the event's own.\<close>

fun first_available_seq :: "uuid \<Rightarrow> db \<Rightarrow> u64 list \<Rightarrow> capture_error + u64 option" where
  "first_available_seq event_id d [] = Inr None"
| "first_available_seq event_id d (seq # seqs) =
     bind_result (provider_event_seq_available seq event_id d)
       (\<lambda>ok. if ok then Inr (Some seq) else first_available_seq event_id d seqs)"

definition seq_candidates :: "u64 \<Rightarrow> u64 \<Rightarrow> u64 list" where
  "seq_candidates event_index sequence_index =
     [sequence_index XOR 0x00080000, event_index, event_index XOR 0x00080000]
     @ map (\<lambda>salt. (sequence_index + of_nat salt) AND 0x000fffff) [1..<1024]"

definition avoid_provider_source_event_seq_collision ::
    "externals \<Rightarrow> event_identity \<Rightarrow> uuid \<Rightarrow> u64 \<Rightarrow> u64 \<Rightarrow> db \<Rightarrow> capture_error + event_identity" where
  "avoid_provider_source_event_seq_collision X i source_id event_index sequence_index d =
     bind_result
       (first_available_seq (ei_id i) d
         (ei_seq i # map (provider_source_event_seq X source_id) (seq_candidates event_index sequence_index)))
       (\<lambda>seq. case seq of None \<Rightarrow> Inr i | Some s \<Rightarrow> Inr (i\<lparr>ei_seq := s\<rparr>))"

text \<open>One identity is tried in three ways: its key is stored, its id is an alias, its id is stored.\<close>

definition try_identity ::
    "event_identity \<Rightarrow> db \<Rightarrow> (capture_error + event_identity) \<Rightarrow> capture_error + event_identity" where
  "try_identity i d otherwise =
     bind_result (provider_event_exists (ei_dedupe_key i) d) (\<lambda>stored.
       if stored then Inr i
       else bind_result (provider_event_identity_by_alias (ei_id i) d) (\<lambda>existing.
         case existing of
           Some e \<Rightarrow> Inr e
         | None \<Rightarrow> bind_result (provider_event_id_exists (ei_id i) d) (\<lambda>present.
             if present then Inr i else otherwise)))"

definition provider_event_import_identity ::
    "externals \<Rightarrow> capture_provider \<Rightarrow> string \<Rightarrow> uuid \<Rightarrow> u64 \<Rightarrow> u64 \<Rightarrow> string \<Rightarrow> u64 option \<Rightarrow> bool
     \<Rightarrow> db \<Rightarrow> capture_error + event_identity" where
  "provider_event_import_identity X provider provider_session_id source_id event_index sequence_index
       event_hash legacy_index allow_legacy d =
     bind_result
       (avoid_provider_source_event_seq_collision X
         (provider_source_event_import_identity_with_seq X source_id event_index sequence_index event_hash)
         source_id event_index sequence_index d)
       (\<lambda>source_identity.
         try_identity source_identity d
           (let with_own_index =
                  (if allow_legacy
                   then try_identity
                     (provider_legacy_event_import_identity provider provider_session_id event_index event_hash)
                     d (Inr source_identity)
                   else Inr source_identity)
            in if allow_legacy
               then case legacy_index of
                 None \<Rightarrow> with_own_index
               | Some index \<Rightarrow>
                   try_identity (provider_source_event_import_identity X source_id index event_hash) d
                     (try_identity
                       (provider_legacy_event_import_identity provider provider_session_id index event_hash)
                       d with_own_index)
               else with_own_index))"

section \<open>Events of Pi, by entry id\<close>

fun json_pointer :: "json \<Rightarrow> string list \<Rightarrow> json option" where
  "json_pointer v [] = Some v"
| "json_pointer v (k # ks) = Option.bind (jget v k) (\<lambda>w. json_pointer w ks)"

definition pi_stored_event_entry_id :: "event \<Rightarrow> string option" where
  "pi_stored_event_entry_id e =
     or_else (Option.bind (json_pointer (ev_payload e) [''body'', ''entry_id'']) as_str)
       (or_else (Option.bind (json_pointer (ev_payload e) [''body'', ''body'', ''id'']) as_str)
         (Option.bind (json_pointer (sm_metadata (ev_sync e)) [''metadata'', ''entry_id'']) as_str))"

type_synonym pi_cache = "uuid \<Rightarrow> (string \<Rightarrow> event_identity option) option"

definition add_pi_identity ::
    "event \<Rightarrow> (string \<Rightarrow> event_identity option) \<Rightarrow> (string \<Rightarrow> event_identity option)" where
  "add_pi_identity e m =
     (case (pi_stored_event_entry_id e, identity_of_event e) of
        (Some entry_id, Some i) \<Rightarrow> (if m entry_id = None then m(entry_id \<mapsto> i) else m)
      | _ \<Rightarrow> m)"

definition pi_identities :: "event list \<Rightarrow> (string \<Rightarrow> event_identity option)" where
  "pi_identities events = foldl (\<lambda>m e. add_pi_identity e m) (\<lambda>_. None) events"

definition pi_existing_event_identity_by_entry_id ::
    "capture_provider \<Rightarrow> uuid \<Rightarrow> string option \<Rightarrow> db \<Rightarrow> pi_cache
     \<Rightarrow> (capture_error + event_identity option) \<times> pi_cache" where
  "pi_existing_event_identity_by_entry_id provider session_id entry_id d cache =
     (if provider \<noteq> CaptureProvider_Pi then (Inr None, cache)
      else case opt_filter (\<lambda>i. trim i \<noteq> []) entry_id of
        None \<Rightarrow> (Inr None, cache)
      | Some entry \<Rightarrow>
          (case cache session_id of
             Some identities \<Rightarrow> (Inr (identities entry), cache)
           | None \<Rightarrow>
               (case events_for_session session_id d of
                  Inl e \<Rightarrow> (Inl (CaptureStore e), cache)
                | Inr events \<Rightarrow>
                    (Inr (pi_identities events entry), cache(session_id \<mapsto> pi_identities events)))))"

section \<open>Touched files\<close>

definition provider_file_touch_event_id ::
    "externals \<Rightarrow> capture_provider \<Rightarrow> string \<Rightarrow> uuid \<Rightarrow> u64 \<Rightarrow> bool \<Rightarrow> db \<Rightarrow> capture_error + uuid option" where
  "provider_file_touch_event_id X provider provider_session_id source_id event_index allow_legacy d =
     bind_result (provider_event_by_id (provider_source_event_uuid X source_id event_index) d) (\<lambda>existing.
       case existing of
         Some e \<Rightarrow> Inr (Some (ev_id e))
       | None \<Rightarrow>
           if \<not> allow_legacy then Inr None
           else bind_result
             (provider_event_by_id (provider_event_uuid provider provider_session_id event_index) d)
             (\<lambda>legacy. Inr (map_option ev_id legacy)))"

definition provider_file_touch_import_id ::
    "externals \<Rightarrow> capture_provider \<Rightarrow> string \<Rightarrow> uuid \<Rightarrow> u64 \<Rightarrow> bool \<Rightarrow> db \<Rightarrow> uuid" where
  "provider_file_touch_import_id X provider provider_session_id source_id touch_index allow_legacy d =
     (let source_touch_id = provider_source_file_touch_uuid X source_id touch_index;
          legacy_touch_id = provider_file_touch_uuid provider provider_session_id touch_index
      in if file_touched_exists source_touch_id d then source_touch_id
         else if \<not> allow_legacy then source_touch_id
         else if file_touched_exists legacy_touch_id d then legacy_touch_id else source_touch_id)"

section \<open>Sessions\<close>

definition source_format_of :: "capture_source \<Rightarrow> string option" where
  "source_format_of s =
     or_else (csd_source_format (cs_descriptor s)) (jget_str (sm_metadata (cs_sync s)) ''source_format'')"

text \<open>The identity that the stored source's own data give.\<close>

definition recomputed_source_identity :: "externals \<Rightarrow> capture_source \<Rightarrow> string option" where
  "recomputed_source_identity X s =
     Option.bind (source_format_of s) (\<lambda>source_format.
       provider_source_identity X (csd_provider (cs_descriptor s)) source_format
         (csd_source_root (cs_descriptor s)) (csd_raw_source_path (cs_descriptor s))
         (jget_str (sm_metadata (cs_sync s)) ''source_idempotency_key'')
         (unwrap_or (jget (sm_metadata (cs_sync s)) ''source_metadata'') (sm_metadata (cs_sync s))))"

definition sources_match :: "externals \<Rightarrow> string \<Rightarrow> capture_source \<Rightarrow> capture_source \<Rightarrow> bool" where
  "sources_match X source_identity existing incoming \<longleftrightarrow>
     (if csd_provider (cs_descriptor existing) \<noteq> csd_provider (cs_descriptor incoming) then False
      else if (case (source_format_of existing, source_format_of incoming) of
                 (Some e, Some i) \<Rightarrow> e \<noteq> i | _ \<Rightarrow> False) then False
      else csd_source_identity (cs_descriptor existing) = Some source_identity
        \<or> recomputed_source_identity X existing = Some source_identity
        \<or> (case (csd_raw_source_path (cs_descriptor existing), csd_raw_source_path (cs_descriptor incoming)) of
             (Some e, Some i) \<Rightarrow> e = i | _ \<Rightarrow> False))"

definition legacy_session_matches_source ::
    "externals \<Rightarrow> session \<Rightarrow> uuid \<Rightarrow> string \<Rightarrow> db \<Rightarrow> capture_error + bool" where
  "legacy_session_matches_source X s source_id source_identity d =
     (case se_capture_source_id s of
        None \<Rightarrow> Inr False
      | Some existing_source_id \<Rightarrow>
          if existing_source_id = source_id then Inr True
          else bind_result (not_found_as_none (get_capture_source existing_source_id d)) (\<lambda>existing.
            case existing of
              None \<Rightarrow> Inr False
            | Some e \<Rightarrow>
                bind_result (not_found_as_none (get_capture_source source_id d)) (\<lambda>incoming.
                  case incoming of
                    None \<Rightarrow> Inr False
                  | Some i \<Rightarrow> Inr (sources_match X source_identity e i))))"

definition provider_import_session_uuid ::
    "externals \<Rightarrow> capture_provider \<Rightarrow> string \<Rightarrow> uuid \<Rightarrow> string option \<Rightarrow> db \<Rightarrow> capture_error + uuid" where
  "provider_import_session_uuid X provider provider_session_id source_id source_identity d =
     (let legacy_session_id = provider_session_uuid provider provider_session_id
      in case source_identity of
           None \<Rightarrow> Inr legacy_session_id
         | Some identity \<Rightarrow>
             if provider = CaptureProvider_Custom then Inr legacy_session_id
             else bind_result (from_store
                 (session_by_capture_source_and_external_session source_id provider provider_session_id d))
               (\<lambda>existing. case existing of
                  Some s \<Rightarrow> Inr (se_id s)
                | None \<Rightarrow>
                    let source_session_id = provider_source_session_uuid identity provider_session_id
                    in bind_result (not_found_as_none (get_session source_session_id d)) (\<lambda>scoped.
                         case scoped of
                           Some _ \<Rightarrow> Inr source_session_id
                         | None \<Rightarrow>
                             bind_result (not_found_as_none (get_session legacy_session_id d)) (\<lambda>legacy.
                               case legacy of
                                 None \<Rightarrow> Inr source_session_id
                               | Some s \<Rightarrow>
                                   bind_result (legacy_session_matches_source X s source_id identity d)
                                     (\<lambda>same. Inr (if same then legacy_session_id else source_session_id))))))"

definition provider_import_edge_uuid ::
    "capture_provider \<Rightarrow> string \<Rightarrow> string option \<Rightarrow> uuid \<Rightarrow> string \<Rightarrow> uuid" where
  "provider_import_edge_uuid provider provider_session_id source_identity session_id edge_kind =
     (if provider \<noteq> CaptureProvider_Custom
         \<and> session_id \<noteq> provider_session_uuid provider provider_session_id
      then case source_identity of
          Some identity \<Rightarrow> provider_source_edge_uuid identity provider_session_id edge_kind
        | None \<Rightarrow> provider_edge_uuid provider provider_session_id edge_kind
      else provider_edge_uuid provider provider_session_id edge_kind)"

text \<open>Identities depend on the events and their aliases only.\<close>

lemma identity_depends_on_events:
  assumes "db_events d = db_events d'" "db_event_aliases d = db_event_aliases d'"
  shows "provider_event_import_identity X provider sid src idx seqidx hash legacy allow d
    = provider_event_import_identity X provider sid src idx seqidx hash legacy allow d'"
proof -
  have seqs: "first_available_seq i d seqs = first_available_seq i d' seqs" for i seqs
    using assms
    by (induction seqs) (simp_all add: provider_event_seq_available_def event_id_by_seq_def cong: if_cong)
  have by_id: "provider_event_by_id i d = provider_event_by_id i d'" for i
    using assms by (simp add: provider_event_by_id_def get_event_def)
  have tried: "try_identity j d r = try_identity j d' r" for j r
    using assms
    by (simp add: try_identity_def provider_event_exists_def event_id_by_dedupe_key_def
        event_with_dedupe_key_def provider_event_identity_by_alias_def event_alias_target_id_def
        provider_event_identity_by_id_def provider_event_id_exists_def by_id
        cong: if_cong option.case_cong)
  show ?thesis
    unfolding provider_event_import_identity_def avoid_provider_source_event_seq_collision_def seqs
    by (simp add: tried cong: if_cong option.case_cong del: first_available_seq.simps)
qed

section \<open>Errors of the lookups\<close>

lemma store_errors_not_found [store_error_intros]: "store_errors (not_found_as_none r)"
  by (cases r rule: not_found_as_none.cases) (auto simp: store_errors_def)

lemma store_errors_exists [store_error_intros]: "store_errors (provider_event_exists k d)"
  by (auto simp: provider_event_exists_def store_errors_def split: sum.splits)

lemma store_errors_by_id [store_error_intros]: "store_errors (provider_event_by_id i d)"
  unfolding provider_event_by_id_def by (intro store_error_intros)

lemma store_errors_session [store_error_intros]: "store_errors (provider_session_exists i d)"
  unfolding provider_session_exists_def by (intro store_error_intros)

lemma store_errors_seq [store_error_intros]: "store_errors (first_available_seq i d seqs)"
proof (induction seqs)
  case (Cons seq seqs)
  have "store_errors (provider_event_seq_available seq i d)"
    by (auto simp: provider_event_seq_available_def store_errors_def split: sum.splits)
  with Cons show ?case by (auto intro!: store_error_intros)
qed (simp add: store_errors_def)

lemma store_errors_try [store_error_intros]: "store_errors r \<Longrightarrow> store_errors (try_identity j d r)"
  unfolding try_identity_def provider_event_identity_by_alias_def provider_event_identity_by_id_def
    provider_event_id_exists_def
  by (intro store_error_intros)

lemma store_errors_identity [store_error_intros]:
  "store_errors (provider_event_import_identity X provider sid src idx seqidx hash legacy allow d)"
  unfolding provider_event_import_identity_def avoid_provider_source_event_seq_collision_def Let_def
  by (intro store_error_intros)

lemma store_errors_session_uuid [store_error_intros]:
  "store_errors (provider_import_session_uuid X provider sid src identity d)"
  unfolding provider_import_session_uuid_def legacy_session_matches_source_def Let_def
  by (intro store_error_intros)

section \<open>An identity once stored is final\<close>

text \<open>A state that has the events of another one, in front, and its aliases.\<close>

definition extends_events :: "db \<Rightarrow> db \<Rightarrow> bool" where
  "extends_events d d' \<longleftrightarrow>
     take (length (db_events d)) (db_events d') = db_events d \<and> db_event_aliases d' = db_event_aliases d"

lemma extends_events_append:
  "extends_events d d' \<Longrightarrow> \<exists>more. db_events d' = db_events d @ more"
  unfolding extends_events_def by (metis append_take_drop_id)

lemma row_with_append: "row_with key k (xs @ ys) = or_else (row_with key k xs) (row_with key k ys)"
  by (simp add: row_with_def find_append)

lemma seq_taken_stays:
  assumes "provider_event_seq_available seq i d = Inr False" "extends_events d d'"
  shows "provider_event_seq_available seq i d' = Inr False"
proof -
  obtain more where more: "db_events d' = db_events d @ more" using extends_events_append [OF assms(2)] by blast
  from assms(1) obtain e where "row_with ev_seq seq (db_events d) = Some e" "ev_id e \<noteq> i"
    by (auto simp: provider_event_seq_available_def event_id_by_seq_def split: option.splits)
  then show ?thesis
    by (simp add: provider_event_seq_available_def event_id_by_seq_def row_with_append more)
qed

lemma seq_available_not_error: "provider_event_seq_available seq i d \<noteq> Inl e"
  by (auto simp: provider_event_seq_available_def event_id_by_seq_def split: option.splits)

text \<open>The search for a number finds the same one when the numbers that were taken still are and the
  one that was found now belongs to the event.\<close>

lemma first_available_seq_stable:
  assumes "first_available_seq i d seqs = Inr (Some s)"
    "\<And>t. provider_event_seq_available t i d = Inr False \<Longrightarrow> provider_event_seq_available t i d' = Inr False"
    "provider_event_seq_available s i d' = Inr True"
  shows "first_available_seq i d' seqs = Inr (Some s)"
  using assms(1)
proof (induction seqs)
  case (Cons t seqs)
  from Cons.prems obtain b where b: "provider_event_seq_available t i d = Inr b"
    by (auto simp: bind_result_eq_Inr)
  show ?case
  proof (cases b)
    case True
    with Cons.prems b assms(3) show ?thesis by simp
  next
    case False
    with Cons b assms(2) [of t] show ?thesis by simp
  qed
qed simp

lemma first_available_seq_ok: "\<exists>r. first_available_seq i d seqs = Inr r"
proof (induction seqs)
  case (Cons s seqs)
  then show ?case using seq_available_not_error [of s i d]
    by (cases "provider_event_seq_available s i d") auto
qed simp

lemma first_available_seq_found:
  "first_available_seq i d seqs = Inr (Some s) \<Longrightarrow> provider_event_seq_available s i d = Inr True"
  by (induction seqs) (auto simp: bind_result_eq_Inr split: if_splits)

lemma first_available_seq_member:
  "first_available_seq i d seqs = Inr (Some s) \<Longrightarrow> s \<in> set seqs"
  by (induction seqs) (auto simp: bind_result_eq_Inr split: if_splits)

text \<open>Every alias leads to an event with a deduplication key.\<close>

definition aliases_keyed :: "db \<Rightarrow> bool" where
  "aliases_keyed d \<longleftrightarrow>
     list_all (\<lambda>(_, t). case row_with ev_id t (db_events d) of
         None \<Rightarrow> False | Some e \<Rightarrow> ev_dedupe_key e \<noteq> None)
       (db_event_aliases d)"

text \<open>Neither the id nor the key of the identity is taken.\<close>

definition identity_free :: "db \<Rightarrow> event_identity \<Rightarrow> bool" where
  "identity_free d i \<longleftrightarrow>
     ei_id i \<notin> set (event_ids d) \<and> Some (ei_dedupe_key i) \<notin> ev_dedupe_key ` set (db_events d)"

lemma provider_event_by_id_Some:
  "provider_event_by_id i d = Inr (Some e) \<Longrightarrow> e \<in> set (db_events d) \<and> ev_id e = resolve_alias (db_event_aliases d) i"
proof -
  assume "provider_event_by_id i d = Inr (Some e)"
  then have "get_event i d = Inr e"
    unfolding provider_event_by_id_def by (cases "get_event i d" rule: not_found_as_none.cases) auto
  then have "row_with ev_id (resolve_alias (db_event_aliases d) i) (db_events d) = Some e"
    by (auto simp: get_event_def event_from_row_def unreadable_def split: option.splits if_splits)
  then show ?thesis by (auto simp: row_with_def dest: find_eq_Some_set)
qed

lemma identity_by_alias_taken:
  "provider_event_identity_by_alias a d = Inr (Some i) \<Longrightarrow> \<not> identity_free d i"
  by (auto simp: provider_event_identity_by_alias_def provider_event_identity_by_id_def bind_result_eq_Inr
      identity_of_event_def identity_free_def bind_eq_Some_conv intro: rev_image_eqI
      dest!: provider_event_by_id_Some split: option.splits)

lemma no_alias_left:
  assumes "aliases_keyed d" "provider_event_identity_by_alias a d = Inr None"
  shows "event_alias_target_id a d = None"
proof (rule ccontr)
  assume "event_alias_target_id a d \<noteq> None"
  then obtain t where t: "map_of (db_event_aliases d) a = Some t" by (auto simp: event_alias_target_id_def)
  have keyed: "\<exists>e. row_with ev_id u (db_events d) = Some e \<and> ev_dedupe_key e \<noteq> None"
    if "(b, u) \<in> set (db_event_aliases d)" for b u
    using assms(1) that by (auto simp: aliases_keyed_def list_all_iff split: option.splits)
  have "\<exists>e. row_with ev_id (resolve_alias (db_event_aliases d) t) (db_events d) = Some e \<and> ev_dedupe_key e \<noteq> None"
    using keyed [OF map_of_SomeD [OF t]] keyed [OF map_of_SomeD]
    by (auto simp: resolve_alias_def split: option.split)
  then have "provider_event_identity_by_id t d \<noteq> Inr None"
    by (auto simp: provider_event_identity_by_id_def provider_event_by_id_def get_event_def
        event_from_row_def unreadable_def identity_of_event_def split: if_splits)
  with assms(2) t show False
    by (simp add: provider_event_identity_by_alias_def event_alias_target_id_def)
qed

text \<open>A free identity is what is left when everything that was tried is not stored.\<close>

lemma try_identity_free:
  assumes "aliases_keyed d" "identity_free d i" "try_identity j d otherwise = Inr i"
  shows "otherwise = Inr i"
proof -
  from assms(3) obtain stored where stored: "provider_event_exists (ei_dedupe_key j) d = Inr stored"
    by (auto simp: try_identity_def bind_result_eq_Inr)
  have "\<not> stored"
  proof
    assume "stored"
    with assms(3) stored have "j = i" by (simp add: try_identity_def)
    with stored \<open>stored\<close> assms(2) show False
      by (auto simp: provider_event_exists_def event_id_by_dedupe_key_def event_with_dedupe_key_def
          identity_free_def row_with_def image_iff dest!: find_eq_Some_set split: option.splits)
  qed
  with assms(3) stored obtain existing
    where existing: "provider_event_identity_by_alias (ei_id j) d = Inr existing"
    by (auto simp: try_identity_def bind_result_eq_Inr)
  have "existing = None"
    using assms(2,3) stored \<open>\<not> stored\<close> existing identity_by_alias_taken [of "ei_id j" d i]
    by (cases existing) (auto simp: try_identity_def)
  with existing have none: "event_alias_target_id (ei_id j) d = None"
    using no_alias_left [OF assms(1)] by blast
  from assms(3) stored \<open>\<not> stored\<close> existing \<open>existing = None\<close> obtain present
    where present: "provider_event_id_exists (ei_id j) d = Inr present"
    by (auto simp: try_identity_def bind_result_eq_Inr)
  have "\<not> present"
  proof
    assume "present"
    with assms(3) stored \<open>\<not> stored\<close> existing \<open>existing = None\<close> present have "j = i"
      by (simp add: try_identity_def)
    moreover from present \<open>present\<close> obtain e where "provider_event_by_id (ei_id j) d = Inr (Some e)"
      by (auto simp: provider_event_id_exists_def bind_result_eq_Inr)
    then have "e \<in> set (db_events d)" "ev_id e = ei_id j"
      using provider_event_by_id_Some none by (auto simp: resolve_alias_def event_alias_target_id_def)
    ultimately show False using assms(2) by (metis identity_free_def image_eqI list.set_map)
  qed
  with assms(3) stored \<open>\<not> stored\<close> existing \<open>existing = None\<close> present show ?thesis
    by (simp add: try_identity_def)
qed

lemma free_identity_is_source:
  assumes "aliases_keyed d" "identity_free d i"
    "provider_event_import_identity X provider sid src idx seqidx hash legacy allow d = Inr i"
  shows "avoid_provider_source_event_seq_collision X
    (provider_source_event_import_identity_with_seq X src idx seqidx hash) src idx seqidx d = Inr i"
proof -
  from assms(3) obtain s where s: "avoid_provider_source_event_seq_collision X
      (provider_source_event_import_identity_with_seq X src idx seqidx hash) src idx seqidx d = Inr s"
    by (auto simp: provider_event_import_identity_def bind_result_eq_Inr)
  note step = try_identity_free [OF assms(1,2)]
  from assms(3) s have "s = i"
    by (auto simp: provider_event_import_identity_def Let_def split: option.splits if_splits dest!: step)
  with s show ?thesis by simp
qed

lemma inserted_event:
  assumes "insert_event_if_absent X U e d = Inr (True, d')"
  shows "\<not> event_insert_ignored d (stored_event e)" "db_events d' = db_events d @ [stored_event e]"
    "db_event_aliases d' = db_event_aliases d"
proof -
  have "\<not> event_insert_ignored d (stored_event e)
      \<and> db_events d' = db_events d @ [stored_event e] \<and> db_event_aliases d' = db_event_aliases d"
    using assms
    by (auto simp: insert_event_if_absent_def Let_def bind_result_eq_Inr guard_sql_eq_Inr
        split: if_splits option.splits)
  then show "\<not> event_insert_ignored d (stored_event e)" "db_events d' = db_events d @ [stored_event e]"
    "db_event_aliases d' = db_event_aliases d" by auto
qed

definition has_identity :: "event_identity \<Rightarrow> event \<Rightarrow> bool" where
  "has_identity i e \<longleftrightarrow> ev_id e = ei_id i \<and> ev_seq e = ei_seq i \<and> ev_dedupe_key e = Some (ei_dedupe_key i)"

lemma stored_event_fields [simp]:
  "ev_id (stored_event e) = ev_id e" "ev_seq (stored_event e) = ev_seq e"
  "ev_dedupe_key (stored_event e) = ev_dedupe_key e"
  by (simp_all add: stored_event_def)

lemma not_ignored_free:
  assumes "\<not> event_insert_ignored d (stored_event e)" "has_identity i e"
  shows "identity_free d i" "row_with ev_seq (ei_seq i) (db_events d) = None"
proof -
  from assms have id_free: "ei_id i \<notin> set (event_ids d)" and conflict: "\<not> event_unique_conflict d (stored_event e)"
    by (auto simp: event_insert_ignored_def has_identity_def)
  then have "ev_id f \<noteq> ev_id e" if "f \<in> set (db_events d)" for f
    using that assms(2) unfolding has_identity_def by (metis image_eqI list.set_map)
  with conflict assms(2) have "ev_seq f \<noteq> ei_seq i \<and> ev_dedupe_key f \<noteq> Some (ei_dedupe_key i)"
    if "f \<in> set (db_events d)" for f
    using that by (auto simp: event_unique_conflict_def has_identity_def list_ex_iff)
  then have "Some (ei_dedupe_key i) \<notin> ev_dedupe_key ` set (db_events d)"
      "\<forall>f \<in> set (db_events d). ev_seq f \<noteq> ei_seq i" by (auto, metis)
  with id_free show "identity_free d i" "row_with ev_seq (ei_seq i) (db_events d) = None"
    by (simp_all add: identity_free_def row_with_def find_eq_None)
qed

lemma extends_trans: "extends_events a b \<Longrightarrow> extends_events b c \<Longrightarrow> extends_events a c"
proof -
  assume ab: "extends_events a b" and bc: "extends_events b c"
  obtain xs ys where "db_events b = db_events a @ xs" "db_events c = db_events b @ ys"
    using extends_events_append [OF ab] extends_events_append [OF bc] by blast
  with ab bc show ?thesis by (simp add: extends_events_def)
qed

lemma stored_identity_found:
  assumes "aliases_keyed d"
    "provider_event_import_identity X provider sid src idx seqidx hash legacy allow d = Inr i"
    "has_identity i e" "insert_event_if_absent X U e d = Inr (True, d')" "extends_events d' d''"
  shows "provider_event_import_identity X provider' sid' src idx seqidx hash legacy' allow' d'' = Inr i"
    "has_identity i e' \<Longrightarrow> event_insert_ignored d'' (stored_event e')"
proof -
  note ins = inserted_event [OF assms(4)]
  note free = not_ignored_free [OF ins(1) assms(3)]
  have ext: "extends_events d d''"
    using extends_trans [OF _ assms(5)] ins by (simp add: extends_events_def)
  obtain more where more: "db_events d'' = db_events d @ stored_event e # more"
    using extends_events_append [OF assms(5)] ins(2) by auto
  let ?base = "provider_source_event_import_identity_with_seq X src idx seqidx hash"
  let ?seqs = "ei_seq ?base # map (provider_source_event_seq X src) (seq_candidates idx seqidx)"
  have source: "avoid_provider_source_event_seq_collision X ?base src idx seqidx d = Inr i"
    by (rule free_identity_is_source [OF assms(1) free(1) assms(2)])
  obtain r where r: "first_available_seq (ei_id ?base) d ?seqs = Inr r" using first_available_seq_ok by blast
  have own: "provider_event_seq_available (ei_seq i) (ei_id i) x = Inr True"
    if "row_with ev_seq (ei_seq i) (db_events x) = None \<or> x = d''" for x
    using that free(2) assms(3)
    by (auto simp: provider_event_seq_available_def event_id_by_seq_def more row_with_append
        has_identity_def) (auto simp: row_with_def)
  have ids: "ei_id ?base = ei_id i"
    using source r
    by (auto simp: avoid_provider_source_event_seq_collision_def bind_result_eq_Inr split: option.splits)
  have "r = Some (ei_seq i)"
  proof (cases r)
    case None
    with source r have "?base = i"
      by (simp add: avoid_provider_source_event_seq_collision_def)
    with r None own [of d] free(2) show ?thesis by simp
  next
    case (Some s)
    with source r show ?thesis by (auto simp: avoid_provider_source_event_seq_collision_def)
  qed
  then have "first_available_seq (ei_id ?base) d'' ?seqs = Inr (Some (ei_seq i))"
    using first_available_seq_stable [OF r [unfolded \<open>r = Some (ei_seq i)\<close>], of d'']
      seq_taken_stays [OF _ ext] own [of d''] ids by simp
  with source r \<open>r = Some (ei_seq i)\<close>
  have again: "avoid_provider_source_event_seq_collision X ?base src idx seqidx d'' = Inr i"
    by (simp add: avoid_provider_source_event_seq_collision_def)
  have "provider_event_exists (ei_dedupe_key i) d'' = Inr True"
  proof -
    have "List.find (\<lambda>r. ev_dedupe_key r = Some (ei_dedupe_key i)) (db_events d'') \<noteq> None"
      using assms(3) by (simp add: more has_identity_def find_eq_None)
    then show ?thesis
      by (auto simp: provider_event_exists_def event_id_by_dedupe_key_def event_with_dedupe_key_def row_with_def)
  qed
  with again show "provider_event_import_identity X provider' sid' src idx seqidx hash legacy' allow' d'' = Inr i"
    by (simp add: provider_event_import_identity_def try_identity_def)
  show "event_insert_ignored d'' (stored_event e')" if "has_identity i e'"
    using that assms(3) by (simp add: event_insert_ignored_def more has_identity_def)
qed

text \<open>In the empty store a line has the identity its source gives it; an event with an identity.\<close>

lemma resolve_in_empty:
  "provider_event_import_identity X provider sid src idx seqidx hash legacy allow empty_db
   = Inr (provider_source_event_import_identity_with_seq X src idx seqidx hash)"
proof -
  have avoid: "avoid_provider_source_event_seq_collision X i src idx seqidx empty_db = Inr i" for i
    by (simp add: avoid_provider_source_event_seq_collision_def provider_event_seq_available_def
        event_id_by_seq_def row_with_def empty_db_def)
  have "try_identity j empty_db r = r" for j r
    by (simp add: try_identity_def provider_event_exists_def event_id_by_dedupe_key_def
        event_with_dedupe_key_def row_with_def empty_db_def provider_event_identity_by_alias_def
        event_alias_target_id_def provider_event_id_exists_def provider_event_by_id_def get_event_def)
  then show ?thesis
    unfolding provider_event_import_identity_def avoid by (simp add: Let_def split: option.split)
qed

definition identity_event :: "event_identity \<Rightarrow> event" where
  "identity_event i =
     \<lparr>ev_id = ei_id i, ev_seq = ei_seq i, ev_history_record_id = None, ev_session_id = None,
      ev_run_id = None, ev_event_type = EventType_Notice, ev_role = None, ev_occurred_at = 0,
      ev_capture_source_id = None, ev_payload = JNull, ev_payload_blob_id = None,
      ev_dedupe_key = Some (ei_dedupe_key i), ev_sync = default_sync_metadata\<rparr>"

lemma notice_projected:
  assumes "ev_event_type e = EventType_Notice"
  shows "\<exists>T'. insert_event_search_projection_for_event X U e T = Inr T'"
proof -
  have "\<not> semantic_lookup_event_parts (ev_event_type e) (ev_role e)"
    using assms by (simp add: semantic_lookup_event_parts_def)
  then show ?thesis
    by (auto simp: insert_event_search_projection_for_event_def insert_projection_rows_eq Let_def
      insert_event_search_projection_for_event_id_def)
qed

lemma identity_event_inserted:
  "\<exists>d'. insert_event_if_absent X U (identity_event i) empty_db = Inr (True, d')"
proof -
  have "\<exists>T'. insert_event_search_projection_for_event X U (identity_event i) T = Inr T'" for T
    by (rule notice_projected) (simp add: identity_event_def)
  then obtain T' where T': "insert_event_search_projection_for_event X U (identity_event i) (db_projection empty_db) = Inr T'"
    by blast
  have fits: "\<not> event_insert_ignored empty_db (stored_event (identity_event i))"
      "event_refs_ok d (stored_event (identity_event i))" for d
    by (simp_all add: event_insert_ignored_def identity_event_def stored_event_def stored_sync_def
        sync_check_def default_sync_metadata_def visibility_default_def sync_state_default_def empty_db_def
        event_unique_conflict_def event_refs_ok_def references_def)
  show ?thesis
    by (simp add: insert_event_if_absent_def Let_def fits guard_sql_def T')
qed

section \<open>Properties\<close>

text \<open>Once an event has been inserted under the identity that the importer resolved for its line, the
  same line is resolved to the same identity in every later state that has added events and kept the
  aliases, whatever its other lines stored; so it is never stored twice.\<close>

theorem stored_identity_is_final:
  assumes "aliases_keyed d"
    "provider_event_import_identity X provider sid src idx seqidx hash legacy allow d = Inr i"
    "has_identity i e" "insert_event_if_absent X U e d = Inr (True, d')" "extends_events d' d''"
  shows "provider_event_import_identity X provider sid src idx seqidx hash legacy allow d'' = Inr i
    \<and> event_insert_ignored d'' (stored_event e)"
  using stored_identity_found [OF assms] assms(3) by blast

theorem stored_identity_is_final_witness:
  "\<exists>i d'. insert_event_if_absent demo_externals demo_unicode (identity_event i) empty_db = Inr (True, d')
     \<and> provider_event_import_identity demo_externals CaptureProvider_Codex ''s'' (Uuid [9]) 3 3 ''h'' None True d' = Inr i
     \<and> event_insert_ignored d' (stored_event (identity_event i))"
proof -
  let ?i = "provider_source_event_import_identity_with_seq demo_externals (Uuid [9]) 3 3 ''h''"
  obtain d' where d': "insert_event_if_absent demo_externals demo_unicode (identity_event ?i) empty_db = Inr (True, d')"
    using identity_event_inserted by blast
  have "aliases_keyed empty_db" by (simp add: aliases_keyed_def empty_db_def)
  moreover have "has_identity ?i (identity_event ?i)" by (simp add: has_identity_def identity_event_def)
  moreover have "extends_events d' d'" by (simp add: extends_events_def)
  ultimately show ?thesis
    using stored_identity_is_final [OF _ resolve_in_empty _ d'] d' by blast
qed

end
