(* ===== verification/Codex_Events.thy ===== *)
theory Codex_Events
  imports Native_Events Import_Identity
begin

text \<open>
  The entries of a Codex transcript as events (\<open>provider/codex/events.rs\<close> of \<open>ctx-history-capture\<close>): the
  header of a session, messages, tool calls with what is shown of their arguments, tool outputs, which
  become events only when they failed, reasoning, summaries and lifecycle notices. A tool output takes
  the name and command of its call from the calls seen before it.
\<close>

section \<open>Headers\<close>

definition CODEX_SESSION_SOURCE_FORMAT :: string where
  "CODEX_SESSION_SOURCE_FORMAT = ''codex_session_jsonl''"

record codex_session_header =
  ch_id :: string
  ch_timestamp :: datetime
  ch_cwd :: "string option"
  ch_originator :: "string option"
  ch_cli_version :: "string option"
  ch_source :: json
  ch_parent_session :: "string option"
  ch_agent_nickname :: "string option"
  ch_agent_role :: "string option"
  ch_model_provider :: "string option"
  ch_raw :: json

record codex_tool_call_context =
  cx_tool_name :: string
  cx_command_preview :: "string option"
  cx_arguments_preview :: "string option"

type_synonym call_contexts = "string \<Rightarrow> codex_tool_call_context option"

definition parse_optional_rfc3339_field ::
    "'f transcript_lib \<Rightarrow> json \<Rightarrow> string \<Rightarrow> capture_error + datetime option" where
  "parse_optional_rfc3339_field T v field =
     (case jget v field of
        None \<Rightarrow> Inr None
      | Some raw_value \<Rightarrow>
          (case as_str raw_value of
             None \<Rightarrow> Inl (CaptureInvalidPayload (field @ '' must be an RFC3339 string''))
           | Some raw \<Rightarrow>
               (case tl_rfc3339 T raw of
                  None \<Rightarrow> Inl (CaptureInvalidPayload (field @ '' is not a valid RFC3339 timestamp''))
                | Some t \<Rightarrow> Inr (Some t))))"

definition codex_session_line_timestamp ::
    "'f transcript_lib \<Rightarrow> json \<Rightarrow> datetime \<Rightarrow> capture_error + datetime" where
  "codex_session_line_timestamp T v fallback =
     bind_result (parse_optional_rfc3339_field T v ''timestamp'') (\<lambda>t. Inr (unwrap_or t fallback))"

definition non_blank_id :: "string option \<Rightarrow> string option" where
  "non_blank_id s = opt_filter (\<lambda>i. trim i \<noteq> []) s"

definition codex_parent_session_id :: "json \<Rightarrow> string option" where
  "codex_parent_session_id source =
     non_blank_id (Option.bind
       (or_else (json_pointer source [''subagent'', ''thread_spawn'', ''parent_thread_id''])
         (or_else (json_pointer source [''thread_spawn'', ''parent_thread_id'']) (jget source ''parent_thread_id'')))
       as_str)"

definition codex_session_header :: "'f transcript_lib \<Rightarrow> json \<Rightarrow> capture_error + codex_session_header" where
  "codex_session_header T v =
     (case jget v ''payload'' of
        None \<Rightarrow> Inl (CaptureInvalidPayload ''codex session_meta missing payload'')
      | Some payload \<Rightarrow>
          (case non_blank_id (jget_str payload ''id'') of
             None \<Rightarrow> Inl (CaptureInvalidPayload ''codex session_meta missing id'')
           | Some i \<Rightarrow>
               (case Option.bind (or_else (jget_str payload ''timestamp'') (jget_str v ''timestamp'')) (tl_rfc3339 T) of
                  None \<Rightarrow> Inl (CaptureInvalidPayload ''codex session_meta missing timestamp'')
                | Some t \<Rightarrow>
                    (let source = unwrap_or (jget payload ''source'') JNull
                     in Inr \<lparr>ch_id = i, ch_timestamp = t, ch_cwd = jget_str payload ''cwd'',
                             ch_originator = jget_str payload ''originator'',
                             ch_cli_version = jget_str payload ''cli_version'', ch_source = source,
                             ch_parent_session = codex_parent_session_id source,
                             ch_agent_nickname = jget_str payload ''agent_nickname'',
                             ch_agent_role = jget_str payload ''agent_role'',
                             ch_model_provider = jget_str payload ''model_provider'', ch_raw = v\<rparr>))))"

fun object_keys :: "json \<Rightarrow> string list option" where
  "object_keys (JObj ms) = Some (map fst ms)"
| "object_keys _ = None"

definition codex_limitations :: "string list" where
  "codex_limitations =
     [''default profile indexes session metadata, user and assistant messages, compacted context summaries, reasoning summaries, tool-call metadata, failed-output diagnostics, file touches, and parent-child session edges where present'',
      ''successful command output, raw diffs, complete tool output, encrypted reasoning content, bootstrap context, lifecycle notices, and binary artifacts remain in the raw transcript referenced by raw_source_path'',
      ''previews are capped before local indexing/export'']"

definition codex_session_capture ::
    "codex_session_header \<Rightarrow> provider_event_envelope option \<Rightarrow> nat \<Rightarrow> datetime \<Rightarrow> adapter_context
     \<Rightarrow> provider_capture_envelope" where
  "codex_session_capture header event line_number occurred_at C =
     (let is_subagent = (ch_parent_session header \<noteq> None)
      in \<lparr>pce_schema_version = PROVIDER_CAPTURE_ENVELOPE_SCHEMA_VERSION,
          pce_provider = CaptureProvider_Codex,
          pce_source =
            \<lparr>pso_source_format = CODEX_SESSION_SOURCE_FORMAT, pso_machine_id = ac_machine_id C,
             pso_observed_at = ac_imported_at C, pso_raw_source_path = ac_source_path C,
             pso_source_root = source_root_display C, pso_trust = ProviderExport,
             pso_fidelity = Fidelity_Imported,
             pso_cursor = Some \<lparr>pcr_before = None,
               pcr_after = Some
                 \<lparr>pcc_stream = provider_cursor_stream CaptureProvider_Codex CODEX_SESSION_SOURCE_FORMAT,
                  pcc_cursor = ''line:'' @ dec line_number, pcc_observed_at = occurred_at\<rparr>\<rparr>,
             pso_idempotency_key = Some (''provider-source:codex:'' @ CODEX_SESSION_SOURCE_FORMAT @ '':''
               @ ch_id header),
             pso_metadata = json_object [(''adapter'', JStr CODEX_SESSION_SOURCE_FORMAT),
               (''source_fidelity'', JStr ''codex_rollout_jsonl'')]\<rparr>,
          pce_session =
            \<lparr>pse_provider_session_id = ch_id header,
             pse_parent_provider_session_id = ch_parent_session header,
             pse_root_provider_session_id = ch_parent_session header,
             pse_external_agent_id = ch_agent_nickname header,
             pse_agent_type = (if is_subagent then AgentType_Subagent else AgentType_Primary),
             pse_role_hint =
               or_else (ch_agent_role header) (if is_subagent then Some ''subagent'' else Some ''primary''),
             pse_is_primary = (\<not> is_subagent), pse_status = SessionStatus_Imported,
             pse_started_at = ch_timestamp header, pse_ended_at = None, pse_cwd = ch_cwd header,
             pse_fidelity = Fidelity_Imported,
             pse_idempotency_key = Some (''provider-session:codex:'' @ ch_id header), pse_artifacts = [],
             pse_metadata = json_object
               [(''source_format'', JStr CODEX_SESSION_SOURCE_FORMAT),
                (''source_fidelity'', JStr ''codex_rollout_jsonl''),
                (''originator'', json_str_opt (ch_originator header)),
                (''cli_version'', json_str_opt (ch_cli_version header)), (''source'', ch_source header),
                (''agent_nickname'', json_str_opt (ch_agent_nickname header)),
                (''agent_role'', json_str_opt (ch_agent_role header)),
                (''model_provider'', json_str_opt (ch_model_provider header)),
                (''parent_session'', json_str_opt (ch_parent_session header)),
                (''raw_session_meta_keys'',
                   json_of_option (\<lambda>ks. JArr (map JStr ks)) (object_keys (ch_raw header))),
                (''import_profile'', JStr ''default''),
                (''limitations'', JArr (map JStr codex_limitations))]\<rparr>,
          pce_event = event\<rparr>)"

section \<open>Texts\<close>

fun first_some :: "('a \<Rightarrow> 'b option) \<Rightarrow> 'a list \<Rightarrow> 'b option" where
  "first_some f [] = None"
| "first_some f (x # xs) = or_else (f x) (first_some f xs)"

lemma first_some_cong [fundef_cong]:
  "xs = ys \<Longrightarrow> (\<And>y. y \<in> set ys \<Longrightarrow> f y = g y) \<Longrightarrow> first_some f xs = first_some g ys"
  by (induction xs arbitrary: ys) auto

definition codex_block_text :: "json \<Rightarrow> string list" where
  "codex_block_text block =
     (case Option.bind (first_key block [''text'', ''input_text'', ''output_text'', ''summary_text'']) as_str of
        Some text \<Rightarrow> [text]
      | None \<Rightarrow> (case jget_str block ''content'' of Some text \<Rightarrow> [text] | None \<Rightarrow> []))"

lemma map_of_size [termination_simp]:
  "map_of ms k = Some v \<Longrightarrow> size v < Suc (size_list (\<lambda>x. Suc (size (snd x))) ms)"
  by (induction ms) (auto split: if_splits)

text \<open>The loop over the keys of an object: the text at a key, or the text of what is there.\<close>

fun codex_content_text :: "json \<Rightarrow> string option" where
  "codex_content_text (JStr text) = Some text"
| "codex_content_text (JArr blocks) =
     (let parts = concat (map codex_block_text blocks)
      in if parts = [] then None else Some (join [line_feed] parts))"
| "codex_content_text (JObj ms) =
     first_some (\<lambda>key. case map_of ms key of
        None \<Rightarrow> None
      | Some v \<Rightarrow> or_else (as_str v) (codex_content_text v))
       [''text'', ''input_text'', ''output_text'', ''summary_text'', ''content'']"
| "codex_content_text _ = None"

definition codex_json_text :: "externals \<Rightarrow> json \<Rightarrow> string option" where
  "codex_json_text X v =
     (case v of
        JNull \<Rightarrow> None
      | JStr text \<Rightarrow> Some text
      | JArr _ \<Rightarrow> json_text X v
      | JObj _ \<Rightarrow> json_text X v
      | _ \<Rightarrow> Some (value_to_string X v))"

definition codex_local_preview :: "string \<Rightarrow> nat \<Rightarrow> string \<times> bool" where
  "codex_local_preview s max_chars = capped_text s max_chars"

definition codex_capped_json :: "externals \<Rightarrow> json \<Rightarrow> nat \<Rightarrow> json" where
  "codex_capped_json X v max_chars =
     (case v of
        JStr text \<Rightarrow> preview_json ''text'' (capped_text text max_chars)
      | _ \<Rightarrow> preview_json ''json'' (capped_text (unwrap_or (json_text X v) ''null'') max_chars))"

definition codex_parse_embedded_json :: "'f transcript_lib \<Rightarrow> json \<Rightarrow> json option" where
  "codex_parse_embedded_json T v =
     (case v of
        JStr text \<Rightarrow> json_of T text
      | JObj _ \<Rightarrow> Some v
      | JArr _ \<Rightarrow> Some v
      | _ \<Rightarrow> None)"

definition text_after :: "string \<Rightarrow> string \<Rightarrow> string option" where
  "text_after marker text = map_option (\<lambda>i. drop (i + length marker) text) (find_text marker text)"

definition codex_exit_code :: "string \<Rightarrow> int option" where
  "codex_exit_code text =
     Option.bind (text_after ''Process exited with code '' text) (\<lambda>tail.
       parse_i32 (takeWhile (\<lambda>c. is_digit c \<or> c = CHR ''-'') tail))"

definition codex_wall_time_ms :: "'f transcript_lib \<Rightarrow> string \<Rightarrow> int option" where
  "codex_wall_time_ms T text =
     Option.bind (text_after ''Wall time: '' text) (\<lambda>tail.
       map_option (\<lambda>seconds. tl_as_i64 T (tl_round T (tl_mul T seconds (tl_f64_of T 1000))))
         (tl_parse_f64 T (takeWhile (\<lambda>c. is_digit c \<or> c = CHR ''.'') tail)))"

definition codex_event_role :: "string \<Rightarrow> event_role" where
  "codex_event_role role =
     (if role = ''user'' then EventRole_User
      else if role = ''assistant'' then EventRole_Assistant
      else if role = ''tool'' then EventRole_Tool
      else if role = ''system'' \<or> role = ''developer'' then EventRole_System
      else EventRole_Unknown)"

section \<open>Events\<close>

definition codex_provider_event ::
    "nat \<Rightarrow> datetime \<Rightarrow> event_type \<Rightarrow> event_role option \<Rightarrow> json \<Rightarrow> json \<Rightarrow> provider_event_envelope" where
  "codex_provider_event line_number occurred_at et role payload metadata =
     \<lparr>pev_provider_event_index = of_nat (line_number - 1), pev_provider_event_hash = None,
      pev_cursor = Some (''line:'' @ dec line_number), pev_event_type = et, pev_role = role,
      pev_occurred_at = occurred_at, pev_fidelity = Fidelity_Imported,
      pev_idempotency_key = Some (''provider-event:codex-session:'' @ dec line_number),
      pev_artifacts = [], pev_payload = payload, pev_metadata = metadata\<rparr>"

definition codex_metadata :: "nat \<Rightarrow> (string \<times> json) list \<Rightarrow> json" where
  "codex_metadata line_number ms =
     json_object ([(''source'', JStr ''codex_session''), (''source_format'', JStr CODEX_SESSION_SOURCE_FORMAT),
       (''line'', json_usize line_number)] @ ms)"

definition codex_message_event :: "json \<Rightarrow> nat \<Rightarrow> datetime \<Rightarrow> provider_event_envelope option" where
  "codex_message_event payload line_number occurred_at =
     (let role_text = unwrap_or (jget_str payload ''role'') ''unknown''
      in if role_text \<notin> {''user'', ''assistant'', ''developer'', ''system''} then None
         else Option.bind (Option.bind (jget payload ''content'') codex_content_text) (\<lambda>content.
           let (text, truncated) = capped_text content PROVIDER_MAX_TEXT_CHARS
           in Some (codex_provider_event line_number occurred_at EventType_Message
                (Some (codex_event_role role_text))
                (json_object
                  [(''item_type'', JStr ''message''), (''message_role'', JStr role_text),
                   (''phase'', json_str_opt (jget_str payload ''phase'')), (''text'', JStr text),
                   (''truncated'', JBool truncated)])
                (codex_metadata line_number
                  [(''import_scope'', JStr ''fast_transcript_index''), (''item_type'', JStr ''message''),
                   (''message_role'', JStr role_text)]))))"

definition codex_reasoning_event :: "json \<Rightarrow> nat \<Rightarrow> datetime \<Rightarrow> provider_event_envelope option" where
  "codex_reasoning_event payload line_number occurred_at =
     Option.bind (or_else (Option.bind (jget payload ''summary'') codex_content_text)
        (jget_str payload ''summary_text'')) (\<lambda>given.
       let (summary, truncated) = codex_local_preview given PROVIDER_MAX_TEXT_CHARS
       in Some (codex_provider_event line_number occurred_at EventType_Summary (Some EventRole_Assistant)
            (json_object
              [(''item_type'', JStr ''reasoning''), (''summary'', JStr summary), (''text'', JStr summary),
               (''truncated'', JBool truncated),
               (''encrypted_content_present'', JBool (jget payload ''encrypted_content'' \<noteq> None))])
            (codex_metadata line_number [(''item_type'', JStr ''reasoning'')])))"

definition codex_lifecycle_body :: "externals \<Rightarrow> json \<Rightarrow> string \<Rightarrow> json" where
  "codex_lifecycle_body X payload msg_type =
     (let preview = unwrap_or
            (Option.bind (first_key payload [''last_agent_message'', ''message'', ''stdout'', ''stderr''])
              (codex_json_text X))
            (''Codex lifecycle: '' @ msg_type);
          (text, truncated) = codex_local_preview preview PROVIDER_MAX_PREVIEW_CHARS
      in json_object
           [(''text'', JStr text), (''event_msg_type'', JStr msg_type),
            (''status'', json_str_opt (jget_str payload ''status'')),
            (''success'', json_of_option JBool (Option.bind (jget payload ''success'') as_bool)),
            (''duration_ms'', json_of_option json_i64 (Option.bind (jget payload ''duration_ms'') as_i64)),
            (''time_to_first_token_ms'',
               json_of_option json_i64 (Option.bind (jget payload ''time_to_first_token_ms'') as_i64)),
            (''truncated'', JBool truncated)])"

section \<open>Tool arguments\<close>

definition codex_tool_name :: "json \<Rightarrow> string \<Rightarrow> string" where
  "codex_tool_name payload item_type =
     unwrap_or (opt_filter (\<lambda>name. trim name \<noteq> [])
       (Option.bind (first_key payload [''name'', ''tool'']) as_str)) item_type"

definition codex_is_command_tool :: "string \<Rightarrow> bool" where
  "codex_is_command_tool tool_name \<longleftrightarrow> tool_name \<in> {''exec_command'', ''shell'', ''bash'', ''command''}"

definition codex_command_preview :: "'f transcript_lib \<Rightarrow> string \<Rightarrow> json option \<Rightarrow> string option" where
  "codex_command_preview T tool_name argument_value =
     (if \<not> codex_is_command_tool tool_name then None
      else Option.bind argument_value (\<lambda>v.
        let parsed = unwrap_or (codex_parse_embedded_json T v) v
        in map_option (\<lambda>command. fst (codex_local_preview command PROVIDER_MAX_PREVIEW_CHARS))
             (or_else (Option.bind (first_key parsed [''cmd'', ''command'', ''shell_command'']) as_str)
               (as_str v))))"

definition codex_value_preview :: "externals \<Rightarrow> json \<Rightarrow> nat \<Rightarrow> string \<times> bool" where
  "codex_value_preview X v max_chars =
     codex_local_preview
       (case v of JStr text \<Rightarrow> text | JNull \<Rightarrow> [] | _ \<Rightarrow> value_to_string X v) max_chars"

definition touch_text :: "file_touch_draft \<Rightarrow> string" where
  "touch_text f =
     (case ftd_change_kind f of
        Some kind \<Rightarrow> enum_as_str file_change_kind_table kind @ '':'' @ ftd_path f
      | None \<Rightarrow> ftd_path f)"

definition codex_file_touch_arguments_preview :: "file_touch_draft list \<Rightarrow> string \<times> bool \<times> bool" where
  "codex_file_touch_arguments_preview file_touches =
     (let paths = join '', '' (map touch_text (take 12 file_touches));
          omitted = sat_sub (length file_touches) 12;
          suffix_text = (if omitted = 0 then [] else '', +'' @ dec omitted @ '' more'')
      in (''file touches: '' @ paths @ suffix_text, omitted > 0, False))"

definition codex_omitted_keys :: "string list" where
  "codex_omitted_keys =
     [''content'', ''text'', ''body'', ''diff'', ''patch'', ''oldstring'', ''newstring'', ''oldcontent'',
      ''newcontent'', ''beforecontent'', ''aftercontent'', ''beforetext'', ''aftertext'', ''replacement'',
      ''oldstr'', ''newstr'', ''inputtext'', ''outputtext'']"

definition codex_tool_argument_key_should_omit :: "string \<Rightarrow> json \<Rightarrow> bool" where
  "codex_tool_argument_key_should_omit given v \<longleftrightarrow>
     (let key = normalized_key given
      in key \<in> set codex_omitted_keys
         \<or> key \<in> {''input'', ''arguments'', ''args'', ''params''} \<and> provider_value_contains_patch_or_diff v)"

function codex_tool_argument_value_with_omissions ::
    "externals \<Rightarrow> json \<Rightarrow> string option \<Rightarrow> json \<times> bool" where
  "codex_tool_argument_value_with_omissions X v key =
     (if (case key of None \<Rightarrow> False | Some k \<Rightarrow> codex_tool_argument_key_should_omit k v)
      then (provider_omitted_body_field X v, True)
      else case v of
          JArr items \<Rightarrow>
            (let rs = map (\<lambda>item. codex_tool_argument_value_with_omissions X item key) items
             in (JArr (map fst rs), list_ex snd rs))
        | JObj ms \<Rightarrow>
            (let rs = map (\<lambda>m. (fst m, codex_tool_argument_value_with_omissions X (snd m) (Some (fst m)))) ms
             in (JObj (map (\<lambda>r. (fst r, fst (snd r))) rs), list_ex (\<lambda>r. snd (snd r)) rs))
        | _ \<Rightarrow> (v, False))"
  by pat_completeness auto
termination
  by (relation "measure (\<lambda>(X, v, key). size v)")
    (auto simp: size_member less_Suc_eq_le intro: size_list_estimation')

declare codex_tool_argument_value_with_omissions.simps [simp del]

definition codex_tool_arguments_preview ::
    "externals \<Rightarrow> 'f transcript_lib \<Rightarrow> json \<Rightarrow> string \<times> bool \<times> bool" where
  "codex_tool_arguments_preview X T v =
     (let parsed = unwrap_or (codex_parse_embedded_json T v) v;
          file_touches = collect_patch_file_touches parsed @ collect_structured_file_touches parsed
      in if file_touches \<noteq> [] then codex_file_touch_arguments_preview file_touches
         else
           let (retained, fields_omitted) = codex_tool_argument_value_with_omissions X parsed None;
               (preview, truncated) = codex_value_preview X retained PROVIDER_MAX_PREVIEW_CHARS
           in (preview, truncated, \<not> fields_omitted))"

definition codex_tool_call_event ::
    "externals \<Rightarrow> 'f transcript_lib \<Rightarrow> json \<Rightarrow> nat \<Rightarrow> datetime \<Rightarrow> call_contexts
     \<Rightarrow> provider_event_envelope option \<times> call_contexts" where
  "codex_tool_call_event X T payload line_number occurred_at calls =
     (let item_type = unwrap_or (jget_str payload ''type'') ''tool_call'';
          tool_name = codex_tool_name payload item_type;
          call_id = jget_str payload ''call_id'';
          argument_value = first_key payload [''arguments'', ''input'', ''action'', ''execution''];
          command_preview = codex_command_preview T tool_name argument_value;
          (arguments_preview, arguments_truncated, raw_arguments_retained) =
            (case argument_value of Some v \<Rightarrow> codex_tool_arguments_preview X T v | None \<Rightarrow> ([], False, False));
          given_text =
            (case command_preview of
               Some command \<Rightarrow> tool_name @ '': '' @ command
             | None \<Rightarrow> if arguments_preview = [] then tool_name @ '' tool call''
                       else tool_name @ '': '' @ arguments_preview);
          (text, text_truncated) = codex_local_preview given_text PROVIDER_MAX_PREVIEW_CHARS;
          calls' = (case call_id of
             None \<Rightarrow> calls
           | Some i \<Rightarrow> calls(i \<mapsto>
               \<lparr>cx_tool_name = tool_name, cx_command_preview = command_preview,
                cx_arguments_preview = (if arguments_preview = [] then None else Some arguments_preview)\<rparr>))
      in (Some (codex_provider_event line_number occurred_at EventType_ToolCall (Some EventRole_Assistant)
            (json_object
              [(''item_type'', JStr item_type), (''tool'', JStr tool_name), (''name'', JStr tool_name),
               (''call_id'', json_str_opt call_id), (''command'', json_str_opt command_preview),
               (''arguments_preview'', JStr arguments_preview),
               (''arguments_truncated'', JBool arguments_truncated),
               (''raw_arguments_retained'', JBool raw_arguments_retained), (''text'', JStr text),
               (''truncated'', JBool (text_truncated \<or> arguments_truncated))])
            (codex_metadata line_number [(''item_type'', JStr item_type), (''tool'', JStr tool_name)])),
          calls'))"

section \<open>Tool outputs\<close>

definition codex_timed_out :: "'f transcript_lib \<Rightarrow> json \<Rightarrow> bool option" where
  "codex_timed_out T payload =
     or_else (Option.bind (jget payload ''timed_out'') as_bool)
       (Option.bind (Option.bind (jget payload ''output'') (codex_parse_embedded_json T)) (\<lambda>v.
          or_else (Option.bind (jget v ''timed_out'') as_bool)
            (Option.bind (json_pointer v [''status'', ''timed_out'']) as_bool)))"

definition codex_output_text :: "externals \<Rightarrow> json \<Rightarrow> string" where
  "codex_output_text X v =
     (case v of JStr text \<Rightarrow> text | JNull \<Rightarrow> [] | _ \<Rightarrow> value_to_string X v)"

definition i32_field :: "(string \<times> json) list \<Rightarrow> string \<Rightarrow> int option" where
  "i32_field ms key = opt_filter fits_i32 (Option.bind (map_of ms key) as_i64)"

fun codex_output_exit_code :: "json \<Rightarrow> int option" where
  "codex_output_exit_code (JObj ms) =
     or_else (first_some (i32_field ms) [''exit_code'', ''exitCode''])
       (first_some (\<lambda>m. codex_output_exit_code (snd m)) ms)"
| "codex_output_exit_code (JArr items) = first_some codex_output_exit_code items"
| "codex_output_exit_code _ = None"

definition text_if :: "'a option \<Rightarrow> ('a \<Rightarrow> string) \<Rightarrow> string" where
  "text_if v f = (case v of None \<Rightarrow> [] | Some x \<Rightarrow> f x)"

text \<open>What of an output makes it an event: a timeout, an exit code other than zero, a field that says so.\<close>

definition codex_output_failed :: "'f transcript_lib \<Rightarrow> json \<Rightarrow> int option \<Rightarrow> bool" where
  "codex_output_failed T payload exit_code \<longleftrightarrow>
     unwrap_or (codex_timed_out T payload) False \<or> (exit_code \<noteq> None \<and> exit_code \<noteq> Some 0)
     \<or> provider_output_event_is_failure payload"

definition output_of :: "json \<Rightarrow> json option" where
  "output_of payload = first_key payload [''output'', ''tools'', ''result'']"

definition output_exit_code :: "externals \<Rightarrow> json \<Rightarrow> int option" where
  "output_exit_code X payload =
     or_else (Option.bind (map_option (codex_output_text X) (output_of payload)) codex_exit_code)
       (codex_output_exit_code payload)"

definition codex_tool_output_event ::
    "externals \<Rightarrow> 'f transcript_lib \<Rightarrow> json \<Rightarrow> nat \<Rightarrow> datetime \<Rightarrow> call_contexts
     \<Rightarrow> provider_event_envelope option" where
  "codex_tool_output_event X T payload line_number occurred_at calls =
     (let item_type = unwrap_or (jget_str payload ''type'') ''tool_output'';
          call_id = jget_str payload ''call_id'';
          context = Option.bind call_id calls;
          tool_name = (case context of Some c \<Rightarrow> cx_tool_name c | None \<Rightarrow> codex_tool_name payload item_type);
          output_text = map_option (codex_output_text X) (output_of payload);
          command_preview = Option.bind context cx_command_preview;
          exit_code = output_exit_code X payload;
          duration_ms = Option.bind output_text (codex_wall_time_ms T);
          output_bytes = (case output_text of None \<Rightarrow> 0 | Some t \<Rightarrow> length t);
          timed_out = unwrap_or (codex_timed_out T payload) False
      in if \<not> codex_output_failed T payload exit_code then None
         else
           let et = (if codex_is_command_tool tool_name then EventType_CommandOutput else EventType_ToolOutput);
               (output_preview, output_truncated) =
                 (case output_text of
                    None \<Rightarrow> ([], False)
                  | Some t \<Rightarrow> codex_local_preview
                      (provider_output_preview_omitting_nested_patch_diff X payload t) PROVIDER_MAX_PREVIEW_CHARS);
               given_text =
                 tool_name @ '' output'' @ text_if command_preview (\<lambda>c. '' for `'' @ c @ ''`'') @ '': ''
                 @ (case exit_code of Some code \<Rightarrow> ''exit_code='' @ dec_int code | None \<Rightarrow> ''exit_code=unknown'')
                 @ text_if duration_ms (\<lambda>ms. '', duration_ms='' @ dec_int ms)
                 @ '', output_bytes='' @ dec output_bytes @ (if timed_out then '', timed_out=true'' else [])
                 @ (if output_preview = [] then [] else '': '' @ output_preview);
               (text, text_truncated) = codex_local_preview given_text PROVIDER_MAX_PREVIEW_CHARS
           in Some (codex_provider_event line_number occurred_at et (Some EventRole_Tool)
                (json_object
                  [(''item_type'', JStr item_type), (''tool'', JStr tool_name), (''name'', JStr tool_name),
                   (''call_id'', json_str_opt call_id), (''command'', json_str_opt command_preview),
                   (''arguments_preview'', json_str_opt (Option.bind context cx_arguments_preview)),
                   (''output_preview'', JStr output_preview), (''output_retention'', JStr ''failed_preview''),
                   (''output_bytes'', json_usize output_bytes), (''output_truncated'', JBool output_truncated),
                   (''exit_code'', json_of_option json_i64 exit_code),
                   (''duration_ms'', json_of_option json_i64 duration_ms), (''timed_out'', JBool timed_out),
                   (''text'', JStr text), (''truncated'', JBool (text_truncated \<or> output_truncated))])
                (codex_metadata line_number [(''item_type'', JStr item_type), (''tool'', JStr tool_name)])))"

section \<open>Lines\<close>

definition call_item_types :: "string list" where
  "call_item_types = [''function_call'', ''custom_tool_call'', ''web_search_call'', ''tool_search_call'']"

definition output_item_types :: "string list" where
  "output_item_types = [''function_call_output'', ''custom_tool_call_output'', ''tool_search_output'']"

definition codex_response_item_event ::
    "externals \<Rightarrow> 'f transcript_lib \<Rightarrow> json \<Rightarrow> nat \<Rightarrow> datetime \<Rightarrow> call_contexts
     \<Rightarrow> provider_event_envelope option \<times> call_contexts" where
  "codex_response_item_event X T payload line_number occurred_at calls =
     (let item_type = unwrap_or (jget_str payload ''type'') ''unknown''
      in if item_type = ''message'' then (codex_message_event payload line_number occurred_at, calls)
         else if item_type \<in> set call_item_types
         then codex_tool_call_event X T payload line_number occurred_at calls
         else if item_type \<in> set output_item_types
         then (codex_tool_output_event X T payload line_number occurred_at calls, calls)
         else if item_type = ''reasoning'' then (codex_reasoning_event payload line_number occurred_at, calls)
         else (Some (codex_provider_event line_number occurred_at EventType_Notice None
                (json_object [(''item_type'', JStr item_type),
                   (''body'', codex_capped_json X payload PROVIDER_MAX_PREVIEW_CHARS)])
                (codex_metadata line_number [(''item_type'', JStr item_type)])), calls))"

definition lifecycle_types :: "string list" where
  "lifecycle_types =
     [''task_started'', ''task_complete'', ''turn_aborted'', ''context_compacted'', ''token_count'',
      ''patch_apply_end'', ''web_search_end'']"

definition entry_type_of :: "json \<Rightarrow> string" where
  "entry_type_of v = unwrap_or (jget_str v ''type'') ''unknown''"

definition codex_session_event ::
    "externals \<Rightarrow> 'f transcript_lib \<Rightarrow> json \<Rightarrow> nat \<Rightarrow> datetime \<Rightarrow> call_contexts
     \<Rightarrow> provider_event_envelope option \<times> call_contexts" where
  "codex_session_event X T v line_number occurred_at calls =
     (let entry_type = entry_type_of v
      in if entry_type = ''response_item''
         then (case jget v ''payload'' of
             None \<Rightarrow> (None, calls)
           | Some payload \<Rightarrow> codex_response_item_event X T payload line_number occurred_at calls)
         else if entry_type = ''compacted''
         then (Option.bind (Option.bind (jget v ''payload'') codex_content_text) (\<lambda>given.
             let (text, truncated) = codex_local_preview given PROVIDER_MAX_TEXT_CHARS
             in Some (codex_provider_event line_number occurred_at EventType_Summary (Some EventRole_System)
                  (json_object [(''entry_type'', JStr entry_type), (''text'', JStr text),
                     (''truncated'', JBool truncated)])
                  (codex_metadata line_number [(''entry_type'', JStr entry_type)]))), calls)
         else if entry_type = ''event_msg''
         then (Option.bind (jget v ''payload'') (\<lambda>payload.
             let msg_type = unwrap_or (jget_str payload ''type'') ''unknown''
             in if msg_type \<in> set lifecycle_types
                then Some (codex_provider_event line_number occurred_at EventType_Notice (Some EventRole_System)
                  (json_object [(''entry_type'', JStr entry_type), (''event_msg_type'', JStr msg_type),
                     (''body'', codex_lifecycle_body X payload msg_type)])
                  (codex_metadata line_number [(''entry_type'', JStr entry_type),
                     (''event_msg_type'', JStr msg_type)]))
                else None), calls)
         else (None, calls))"

definition codex_value_is_tool_call :: "json \<Rightarrow> bool" where
  "codex_value_is_tool_call v \<longleftrightarrow>
     jget_str v ''type'' = Some ''response_item''
     \<and> (case Option.bind (jget v ''payload'') (\<lambda>p. jget_str p ''type'') of
          None \<Rightarrow> False | Some t \<Rightarrow> t = ''function_call'' \<or> t = ''custom_tool_call'')"

record codex_line_capture =
  cl_event :: "provider_event_envelope option"
  cl_files_touched :: "(nat \<times> provider_file_touched_envelope) list"

definition codex_session_line_capture ::
    "externals \<Rightarrow> 'f transcript_lib \<Rightarrow> codex_session_header \<Rightarrow> json \<Rightarrow> call_contexts \<Rightarrow> nat \<Rightarrow> datetime
     \<Rightarrow> string option \<Rightarrow> string option \<Rightarrow> codex_line_capture \<times> call_contexts" where
  "codex_session_line_capture X T header v calls line_number occurred_at raw_source_path source_root =
     (let (event, calls') = codex_session_event X T v line_number occurred_at calls;
          patches = collect_patch_file_touches v;
          drafts =
            (if patches = []
                \<and> ((case event of None \<Rightarrow> False
                    | Some e \<Rightarrow> event_type_supports_structured_file_touches (pev_event_type e))
                   \<or> codex_value_is_tool_call v)
             then collect_structured_file_touches v else patches)
      in (\<lparr>cl_event = event,
           cl_files_touched = provider_file_touch_envelopes
             \<lparr>tc_provider = CaptureProvider_Codex, tc_provider_session_id = ch_id header,
              tc_source_format = CODEX_SESSION_SOURCE_FORMAT, tc_raw_source_path = raw_source_path,
              tc_source_root = source_root, tc_occurred_at = occurred_at,
              tc_provider_event_index = map_option pev_provider_event_index event,
              tc_provider_touch_base_index = push_bit 16 (of_nat line_number),
              tc_line_number = line_number\<rparr> drafts\<rparr>, calls'))"

end
