(* ===== verification/Jsonl_Reader.thy ===== *)
theory Jsonl_Reader
  imports Import_Common File_Touches
begin

text \<open>
  Transcripts as the importers read them (\<open>common/io.rs\<close> of \<open>ctx-history-capture\<close>): the files of a
  directory tree that may be read, and the lines of one file, read through a buffer and cut off at 16
  MiB. The claim on the lines is a refinement: however the buffer happens to be filled, the reader
  gives the lines of the file.
\<close>

section \<open>Reading lines\<close>

text \<open>What a \<open>BufRead\<close> still has to give: the rest of the buffer, then what each refill brings. \<open>None\<close>
  is a read that fails; an empty refill is the end of the file.\<close>

type_synonym reader = "string option list"

definition MAX_PROVIDER_JSONL_LINE_BYTES :: nat where
  "MAX_PROVIDER_JSONL_LINE_BYTES = 16 * 1024 * 1024"

datatype jsonl_read = ReadEof | ReadLine nat | ReadOversized nat

text \<open>\<open>available.iter().position(|byte| *byte == b'\n')\<close>, and what \<open>consume\<close> leaves.\<close>

fun newline_index :: "string \<Rightarrow> nat option" where
  "newline_index [] = None"
| "newline_index (c # cs) = (if c = line_feed then Some 0 else map_option Suc (newline_index cs))"

definition consume :: "nat \<Rightarrow> string \<Rightarrow> reader \<Rightarrow> reader" where
  "consume n chunk rest = (if drop n chunk = [] then rest else Some (drop n chunk) # rest)"

fun discard_provider_jsonl_line :: "reader \<Rightarrow> nat \<Rightarrow> (capture_error + nat) \<times> reader" where
  "discard_provider_jsonl_line [] discarded = (Inr discarded, [])"
| "discard_provider_jsonl_line (None # rest) discarded = (Inl CaptureIo, rest)"
| "discard_provider_jsonl_line (Some available # rest) discarded =
     (if available = [] then (Inr discarded, rest)
      else case newline_index available of
          Some index \<Rightarrow> (Inr (sat_add discarded (index + 1)), consume (index + 1) available rest)
        | None \<Rightarrow> discard_provider_jsonl_line rest (sat_add discarded (length available)))"

definition read_end :: "nat \<Rightarrow> jsonl_read" where
  "read_end seen = (if seen > 0 then ReadLine seen else ReadEof)"

fun read_jsonl_loop :: "reader \<Rightarrow> string \<Rightarrow> nat \<Rightarrow> (capture_error + jsonl_read) \<times> string \<times> reader" where
  "read_jsonl_loop [] buffer seen = (Inr (read_end seen), buffer, [])"
| "read_jsonl_loop (None # rest) buffer seen = (Inl CaptureIo, buffer, rest)"
| "read_jsonl_loop (Some available # rest) buffer seen =
     (if available = [] then (Inr (read_end seen), buffer, rest)
      else case newline_index available of
          Some index \<Rightarrow>
            (let bytes = sat_add seen (index + 1); left = consume (index + 1) available rest
             in if bytes > MAX_PROVIDER_JSONL_LINE_BYTES then (Inr (ReadOversized bytes), [], left)
                else (Inr (ReadLine bytes), buffer @ take (index + 1) available, left))
        | None \<Rightarrow>
            (let bytes = sat_add seen (length available)
             in if bytes > MAX_PROVIDER_JSONL_LINE_BYTES
                then case discard_provider_jsonl_line rest 0 of
                    (Inl e, left) \<Rightarrow> (Inl e, buffer, left)
                  | (Inr discarded, left) \<Rightarrow> (Inr (ReadOversized (sat_add bytes discarded)), [], left)
                else read_jsonl_loop rest (buffer @ available) bytes))"

definition read_provider_jsonl_line_or_skip_oversized ::
    "reader \<Rightarrow> (capture_error + jsonl_read) \<times> string \<times> reader" where
  "read_provider_jsonl_line_or_skip_oversized r = read_jsonl_loop r [] 0"

definition provider_jsonl_line_too_large :: capture_error where
  "provider_jsonl_line_too_large =
     CaptureInvalidPayload
       (''provider JSONL line exceeds max bytes ('' @ dec MAX_PROVIDER_JSONL_LINE_BYTES @ '')'')"

definition read_provider_jsonl_line :: "reader \<Rightarrow> (capture_error + bool) \<times> string \<times> reader" where
  "read_provider_jsonl_line r =
     (case read_provider_jsonl_line_or_skip_oversized r of
        (Inl e, rest) \<Rightarrow> (Inl e, rest)
      | (Inr ReadEof, rest) \<Rightarrow> (Inr False, rest)
      | (Inr (ReadLine _), rest) \<Rightarrow> (Inr True, rest)
      | (Inr (ReadOversized _), rest) \<Rightarrow> (Inl provider_jsonl_line_too_large, rest))"

section \<open>The lines of a file\<close>

fun first_line :: "string \<Rightarrow> string \<times> string" where
  "first_line [] = ([], [])"
| "first_line (c # cs) =
     (if c = line_feed then ([c], cs) else (case first_line cs of (l, rest) \<Rightarrow> (c # l, rest)))"

definition content :: "reader \<Rightarrow> string" where
  "content r = concat (map (\<lambda>c. case c of None \<Rightarrow> [] | Some s \<Rightarrow> s) r)"

definition readable :: "reader \<Rightarrow> bool" where
  "readable r \<longleftrightarrow> (\<forall>c \<in> set r. c \<noteq> None \<and> c \<noteq> Some []) \<and> length (content r) \<le> usize_max"

definition line_read :: "string \<Rightarrow> jsonl_read \<times> string" where
  "line_read line =
     (if line = [] then (ReadEof, [])
      else if length line > MAX_PROVIDER_JSONL_LINE_BYTES then (ReadOversized (length line), [])
      else (ReadLine (length line), line))"

lemma content_simps [simp]:
  "content [] = []" "content (Some s # r) = s @ content r" "content (None # r) = content r"
  by (simp_all add: content_def)

lemma readable_Cons: "readable (Some s # r) \<Longrightarrow> readable r \<and> s \<noteq> []"
  by (auto simp: readable_def)

lemma newline_index_Some:
  "newline_index s = Some i \<Longrightarrow>
     i < length s \<and> first_line (s @ t) = (take (i + 1) s, drop (i + 1) s @ t)"
  by (induction s arbitrary: i) (auto split: if_splits)

lemma newline_index_None: "newline_index s = None \<Longrightarrow> first_line (s @ t) = (s @ fst (first_line t), snd (first_line t))"
  by (induction s) (auto split: if_splits prod.split)

lemma first_line_append: "fst (first_line s) @ snd (first_line s) = s"
  by (induction s) (auto split: prod.split)

lemma first_line_nonempty: "s \<noteq> [] \<Longrightarrow> fst (first_line s) \<noteq> []"
  by (cases s) (auto split: prod.split)

lemma content_consume: "content (consume n s r) = drop n s @ content r"
  by (simp add: consume_def)

lemma readable_consume: "readable (Some s # r) \<Longrightarrow> readable (consume n s r)"
  by (auto simp: readable_def consume_def)

lemma length_first_line: "length (fst (first_line s)) \<le> length s"
  by (induction s) (auto split: prod.split)

lemma discard_reads_line:
  assumes "readable r" "discarded + length (content r) \<le> usize_max"
  shows "\<exists>r'. discard_provider_jsonl_line r discarded
               = (Inr (discarded + length (fst (first_line (content r)))), r')
            \<and> content r' = snd (first_line (content r)) \<and> readable r'"
  using assms
proof (induction r arbitrary: discarded)
  case (Cons c r)
  then obtain s where c: "c = Some s" "s \<noteq> []" by (cases c) (auto simp: readable_def)
  show ?case
  proof (cases "newline_index s")
    case None
    have "discarded + length s \<le> usize_max" using Cons.prems(2) c by simp
    then have sum: "sat_add discarded (length s) = discarded + length s" by (rule sat_add_exact)
    have "readable r" using Cons.prems(1) c readable_Cons by blast
    moreover have "(discarded + length s) + length (content r) \<le> usize_max" using Cons.prems(2) c by simp
    ultimately show ?thesis
      using Cons.IH [of "discarded + length s"] c None newline_index_None [OF None, of "content r"]
      by (auto simp: sum add.assoc)
  next
    case (Some i)
    then have i: "i < length s" "first_line (s @ content r) = (take (i + 1) s, drop (i + 1) s @ content r)"
      using newline_index_Some [OF Some, of "content r"] by auto
    have "discarded + Suc i \<le> usize_max" using Cons.prems(2) c i(1) by simp
    then have "sat_add discarded (Suc i) = discarded + Suc i" by (rule sat_add_exact)
    then show ?thesis
      using c Some i readable_consume [of s r] Cons.prems(1) by (simp add: content_consume)
  qed
qed (simp add: readable_def)

text \<open>The invariant of the loop: the buffer is what has been read of the line.\<close>

lemma read_loop_reads_line:
  assumes "readable r" "length buffer + length (content r) \<le> usize_max"
    "length buffer \<le> MAX_PROVIDER_JSONL_LINE_BYTES"
  shows "\<exists>r'. read_jsonl_loop r buffer (length buffer)
               = (Inr (fst (line_read (buffer @ fst (first_line (content r))))),
                  snd (line_read (buffer @ fst (first_line (content r)))), r')
            \<and> content r' = snd (first_line (content r)) \<and> readable r'"
  using assms
proof (induction r arbitrary: buffer)
  case Nil
  then show ?case by (auto simp: line_read_def read_end_def)
next
  case (Cons c r)
  then obtain s where c: "c = Some s" "s \<noteq> []" by (cases c) (auto simp: readable_def)
  note r = readable_Cons [of s r]
  show ?case
  proof (cases "newline_index s")
    case (Some i)
    then have i: "i < length s" "first_line (s @ content r) = (take (i + 1) s, drop (i + 1) s @ content r)"
      using newline_index_Some [OF Some, of "content r"] by auto
    have "length buffer + Suc i \<le> usize_max" using Cons.prems(2) c i(1) by simp
    then have "sat_add (length buffer) (Suc i) = length buffer + Suc i" by (rule sat_add_exact)
    then show ?thesis
      using c Some i readable_consume [of s r] Cons.prems(1)
      by (auto simp: content_consume line_read_def Let_def)
  next
    case None
    note fl = newline_index_None [OF None, of "content r"]
    have "length buffer + length s \<le> usize_max" using Cons.prems(2) c by simp
    then have sum: "sat_add (length buffer) (length s) = length buffer + length s" by (rule sat_add_exact)
    show ?thesis
    proof (cases "length buffer + length s > MAX_PROVIDER_JSONL_LINE_BYTES")
      case True
      have "length (content r) \<le> usize_max" using Cons.prems(2) c by simp
      then obtain r' where r': "discard_provider_jsonl_line r 0 = (Inr (length (fst (first_line (content r)))), r')"
          "content r' = snd (first_line (content r))" "readable r'"
        using discard_reads_line [of r 0] r Cons.prems(1) c by auto
      have "length buffer + length s + length (fst (first_line (content r))) \<le> usize_max"
        using Cons.prems(2) c length_first_line [of "content r"] by simp
      then have "sat_add (length buffer + length s) (length (fst (first_line (content r))))
          = length buffer + length s + length (fst (first_line (content r)))" by (rule sat_add_exact)
      with True r' show ?thesis using c None by (simp add: sum fl line_read_def)
    next
      case False
      then show ?thesis
        using Cons.IH [of "buffer @ s"] Cons.prems c r None by (simp add: sum fl)
    qed
  qed
qed

text \<open>The importers read until the end or an error; each read but the last takes a byte.\<close>

lemma consume_less: "n > 0 \<Longrightarrow> s \<noteq> [] \<Longrightarrow> length (content (consume n s r)) < length s + length (content r)"
  by (cases s) (auto simp: content_consume)

lemma discard_le:
  "discard_provider_jsonl_line r d = (Inr n, r') \<Longrightarrow> length (content r') \<le> length (content r)"
  by (induction r d rule: discard_provider_jsonl_line.induct)
    (fastforce split: if_splits option.splits dest: newline_index_Some simp: content_consume)+

lemma sat_add_pos: "0 < a \<Longrightarrow> 0 < sat_add b a"
  by (simp add: sat_add_def usize_max_def)

lemma read_loop_less:
  assumes "read_jsonl_loop r buffer seen = (Inr x, b, r')" "x \<noteq> ReadEof"
  shows "length (content r') < length (content r) \<or> (seen > 0 \<and> length (content r') \<le> length (content r))"
  using assms
proof (induction r buffer seen rule: read_jsonl_loop.induct)
  case (3 available rest buffer seen)
  show ?case
  proof (cases "newline_index available")
    case (Some i)
    then have "available \<noteq> []" by auto
    with Some "3.prems" show ?thesis
      using consume_less [of "Suc i" available rest] by (auto simp: Let_def split: if_splits)
  next
    case None
    note pos = sat_add_pos [of "length available" seen]
    from None show ?thesis
      using "3.prems" "3.IH" pos
      by (cases available)
        (auto simp: Let_def read_end_def split: if_splits prod.splits sum.splits dest!: discard_le)
  qed
qed (auto simp: read_end_def split: if_splits)

function file_reads :: "reader \<Rightarrow> (capture_error + jsonl_read \<times> string) list" where
  "file_reads r =
     (case read_provider_jsonl_line_or_skip_oversized r of
        (Inl e, _) \<Rightarrow> [Inl e]
      | (Inr x, buffer, r') \<Rightarrow> (if x = ReadEof then [] else Inr (x, buffer) # file_reads r'))"
  by pat_completeness auto
termination
  by (relation "measure (\<lambda>r. length (content r))")
    (auto simp: read_provider_jsonl_line_or_skip_oversized_def dest: read_loop_less [OF sym])

declare file_reads.simps [simp del]

function file_lines :: "string \<Rightarrow> string list" where
  "file_lines s = (if s = [] then [] else fst (first_line s) # file_lines (snd (first_line s)))"
  by pat_completeness auto
termination
proof (relation "measure length")
  fix s :: string assume "s \<noteq> []"
  then have "fst (first_line s) \<noteq> []" by (rule first_line_nonempty)
  moreover have "length (fst (first_line s)) + length (snd (first_line s)) = length s"
    by (metis first_line_append length_append)
  ultimately show "(snd (first_line s), s) \<in> measure length" by (cases "fst (first_line s)") auto
qed simp

declare file_lines.simps [simp del]

lemma concat_file_lines: "concat (file_lines s) = s"
proof (induction s rule: file_lines.induct)
  case (1 s)
  then show ?case by (subst file_lines.simps) (auto simp: first_line_append)
qed

lemma first_line_feed: "line_feed \<notin> set (butlast (fst (first_line s)))"
  by (induction s) (auto split: prod.splits)

lemma file_lines_feed: "l \<in> set (file_lines s) \<Longrightarrow> l \<noteq> [] \<and> line_feed \<notin> set (butlast l)"
proof (induction s rule: file_lines.induct)
  case (1 s)
  then show ?case
    using first_line_feed [of s] first_line_nonempty [of s] file_lines.simps [of s]
    by (auto split: if_splits)
qed

lemma reads_lines: "readable r \<Longrightarrow> file_reads r = map (\<lambda>l. Inr (line_read l)) (file_lines (content r))"
proof (induction r rule: file_reads.induct)
  case (1 r)
  let ?l = "fst (first_line (content r))"
  have "length (content r) \<le> usize_max" using 1(2) by (simp add: readable_def)
  then obtain r' where r': "read_provider_jsonl_line_or_skip_oversized r
        = (Inr (fst (line_read ?l)), snd (line_read ?l), r')"
      "content r' = snd (first_line (content r))" "readable r'"
    using read_loop_reads_line [of r "[]"] 1(2)
    by (auto simp: read_provider_jsonl_line_or_skip_oversized_def)
  show ?case
  proof (cases "content r = []")
    case True
    then show ?thesis using r' by (simp add: file_reads.simps [of r] file_lines.simps line_read_def)
  next
    case False
    then have l: "fst (line_read ?l) \<noteq> ReadEof" using first_line_nonempty [OF False] by (simp add: line_read_def)
    have "file_reads r' = map (\<lambda>l. Inr (line_read l)) (file_lines (content r'))"
      using "1.IH" [OF r'(1) [symmetric] refl refl l r'(3)] .
    then show ?thesis
      using r' l False by (simp add: file_reads.simps [of r] file_lines.simps [of "content r"])
  qed
qed

text \<open>C0: however a file reaches the reader, cut into whatever nonempty refills, the sequence of reads
  is the lines of its bytes: nothing is lost or split, a line of more than 16 MiB is reported as
  oversized with its length, and only a line feed ends a line.\<close>
theorem reads_are_the_lines:
  assumes "readable r"
  shows "file_reads r = map (\<lambda>l. Inr (line_read l)) (file_lines (content r))
    \<and> concat (file_lines (content r)) = content r
    \<and> (\<forall>l \<in> set (file_lines (content r)). l \<noteq> [] \<and> line_feed \<notin> set (butlast l))"
  using reads_lines [OF assms] concat_file_lines file_lines_feed by blast

theorem reads_are_the_lines_witness:
  "readable [Some ''{a'', Some (''}'' @ [line_feed] @ ''b'')]
   \<and> file_reads [Some ''{a'', Some (''}'' @ [line_feed] @ ''b'')]
       = [Inr (ReadLine 4, ''{a}'' @ [line_feed]), Inr (ReadLine 1, ''b'')]"
proof -
  have r: "readable [Some ''{a'', Some (''}'' @ [line_feed] @ ''b'')]"
    by (simp add: readable_def usize_max_def)
  have "file_lines ''{a}\<newline>b'' = [''{a}\<newline>'', ''b'']"
    by (simp add: file_lines.simps line_feed_def)
  then show ?thesis
    using r reads_are_the_lines [OF r]
    by (simp add: line_read_def MAX_PROVIDER_JSONL_LINE_BYTES_def line_feed_def)
qed

end
