(* ===== verification/Transcript_Tree.thy ===== *)
theory Transcript_Tree
  imports Import_Common File_Touches
begin

text \<open>
  Which files of a directory tree an importer may read (\<open>common/io.rs\<close> of \<open>ctx-history-capture\<close>): the
  regular files named \<open>.jsonl\<close>, and never through a symbolic link. The tree does not change while it is
  walked, and its directories can be read.
\<close>

section \<open>The file system\<close>

text \<open>A link has what it leads to, if anything. A path is the list of the components below the root.\<close>

datatype node =
    RegularFile
  | SpecialFile
  | SymbolicLink "node option"
  | Directory "(string \<times> node) list"

type_synonym path = "string list"

definition display_path :: "path \<Rightarrow> string" where
  "display_path p = (if p = [] then ''/'' else concat (map (\<lambda>c. ''/'' @ c) p))"

text \<open>\<open>symlink_metadata\<close>: links on the way are followed, the last component is not.\<close>

fun symlink_metadata :: "node \<Rightarrow> path \<Rightarrow> node option" where
  "symlink_metadata n [] = Some n"
| "symlink_metadata (Directory es) (c # cs) = (case map_of es c of None \<Rightarrow> None | Some n \<Rightarrow> symlink_metadata n cs)"
| "symlink_metadata (SymbolicLink (Some n)) (c # cs) = symlink_metadata n (c # cs)"
| "symlink_metadata _ (c # cs) = None"

fun is_link :: "node option \<Rightarrow> bool" where
  "is_link (Some (SymbolicLink _)) = True"
| "is_link _ = False"

text \<open>\<open>path.extension() == Some("jsonl")\<close>: a name that is only \<open>.jsonl\<close> has no extension.\<close>

definition is_jsonl :: "path \<Rightarrow> bool" where
  "is_jsonl p \<longleftrightarrow>
     p \<noteq> [] \<and> (case rsplit_once (CHR ''.'') (last p) of
        None \<Rightarrow> False | Some (stem, ext) \<Rightarrow> stem \<noteq> [] \<and> ext = ''jsonl'')"

definition rejected_path :: "path \<Rightarrow> string \<Rightarrow> capture_error + 'a" where
  "rejected_path p reason = Inl (CaptureInvalidTranscriptPath (display_path p) reason)"

definition ensure_provider_path_parents_are_not_symlinks :: "node \<Rightarrow> path \<Rightarrow> capture_error + unit" where
  "ensure_provider_path_parents_are_not_symlinks fs p =
     (if list_ex (\<lambda>k. is_link (symlink_metadata fs (take k p))) [0..<length p]
      then rejected_path p ''symlinked provider transcript path components are rejected''
      else Inr ())"

definition ensure_regular_provider_transcript_file :: "node \<Rightarrow> path \<Rightarrow> capture_error + unit" where
  "ensure_regular_provider_transcript_file fs p =
     (case symlink_metadata fs p of
        None \<Rightarrow> Inl CaptureIo
      | Some (SymbolicLink _) \<Rightarrow> rejected_path p ''symlinked provider transcript files are rejected''
      | Some RegularFile \<Rightarrow> ensure_provider_path_parents_are_not_symlinks fs p
      | Some _ \<Rightarrow> rejected_path p ''provider transcript paths must be regular files'')"

fun is_directory :: "node \<Rightarrow> bool" where
  "is_directory (Directory _) = True"
| "is_directory _ = False"

definition collect_file :: "node \<Rightarrow> path \<Rightarrow> capture_error + path list" where
  "collect_file fs p =
     (if is_jsonl p
      then bind_result (ensure_regular_provider_transcript_file fs p) (\<lambda>_. Inr [p])
      else Inr [])"

fun collect_node :: "node \<Rightarrow> path \<Rightarrow> node \<Rightarrow> capture_error + path list"
  and collect_entries :: "node \<Rightarrow> path \<Rightarrow> (string \<times> node) list \<Rightarrow> capture_error + path list"
where
  "collect_node fs p (SymbolicLink t) =
     rejected_path p ''symlinked provider transcript roots are rejected''"
| "collect_node fs p RegularFile =
     bind_result (ensure_provider_path_parents_are_not_symlinks fs p) (\<lambda>_. collect_file fs p)"
| "collect_node fs p SpecialFile =
     bind_result (ensure_provider_path_parents_are_not_symlinks fs p) (\<lambda>_. Inr [])"
| "collect_node fs p (Directory es) =
     bind_result (ensure_provider_path_parents_are_not_symlinks fs p) (\<lambda>_. collect_entries fs p es)"
| "collect_entries fs p [] = Inr []"
| "collect_entries fs p ((name, n) # es) =
     bind_result (if is_directory n then collect_node fs (p @ [name]) n else collect_file fs (p @ [name]))
       (\<lambda>ps. bind_result (collect_entries fs p es) (\<lambda>qs. Inr (ps @ qs)))"

definition collect_jsonl_paths :: "node \<Rightarrow> path \<Rightarrow> capture_error + path list" where
  "collect_jsonl_paths fs root =
     (case symlink_metadata fs root of None \<Rightarrow> Inl CaptureIo | Some n \<Rightarrow> collect_node fs root n)"

section \<open>What is collected\<close>

text \<open>Reached through directories only.\<close>

fun below :: "node \<Rightarrow> path \<Rightarrow> node option" where
  "below n [] = Some n"
| "below (Directory es) (c # cs) = (case map_of es c of None \<Rightarrow> None | Some n \<Rightarrow> below n cs)"
| "below _ (c # cs) = None"

fun plain_tree :: "node \<Rightarrow> bool" where
  "plain_tree (Directory es) \<longleftrightarrow> distinct (map fst es) \<and> (\<forall>e \<in> set es. plain_tree (snd e))"
| "plain_tree (SymbolicLink (Some n)) \<longleftrightarrow> plain_tree n"
| "plain_tree _ \<longleftrightarrow> True"

lemma below_metadata: "below n p = Some m \<Longrightarrow> symlink_metadata n p = Some m"
  by (induction n p rule: below.induct) (auto split: option.splits)

lemma below_append: "below n (p @ q) = Option.bind (below n p) (\<lambda>m. below m q)"
  by (induction n p rule: below.induct) (auto split: option.splits)

text \<open>A path whose components, but for the last, are no links is reached through directories.\<close>

lemma metadata_below:
  assumes "symlink_metadata n p = Some m" "\<forall>k < length p. \<not> is_link (symlink_metadata n (take k p))"
  shows "below n p = Some m"
  using assms
proof (induction n p rule: below.induct)
  case (2 es c cs)
  have "\<not> is_link (symlink_metadata n' (take k cs))" if "map_of es c = Some n'" "k < length cs" for n' k
    using 2(3) [rule_format, of "Suc k"] that by auto
  with 2 show ?case by (auto split: option.splits)
qed (fastforce+)

lemma parents_ok:
  "ensure_provider_path_parents_are_not_symlinks fs p = Inr u \<longleftrightarrow>
     (\<forall>k < length p. \<not> is_link (symlink_metadata fs (take k p)))"
  by (auto simp: ensure_provider_path_parents_are_not_symlinks_def rejected_path_def list_ex_iff)

lemma regular_below:
  "ensure_regular_provider_transcript_file fs p = Inr u \<longleftrightarrow> below fs p = Some RegularFile"
proof
  assume "ensure_regular_provider_transcript_file fs p = Inr u"
  then show "below fs p = Some RegularFile"
    unfolding ensure_regular_provider_transcript_file_def
    by (auto simp: rejected_path_def parents_ok intro: metadata_below split: option.splits node.splits)
next
  assume b: "below fs p = Some RegularFile"
  have "\<not> is_link (symlink_metadata fs (take k p))" if "k < length p" for k
  proof -
    have "below fs (take k p @ drop k p) = Some RegularFile" using b by simp
    then obtain m where m: "below fs (take k p) = Some m" "below m (drop k p) = Some RegularFile"
      unfolding below_append by (auto simp: bind_eq_Some_conv)
    have "drop k p \<noteq> []" using that by simp
    then have "is_directory m" using m(2) by (cases m; cases "drop k p") auto
    then show ?thesis using below_metadata [OF m(1)] by (cases m) auto
  qed
  then show "ensure_regular_provider_transcript_file fs p = Inr u"
    using below_metadata [OF b]
    by (simp add: ensure_regular_provider_transcript_file_def parents_ok)
qed

definition transcripts :: "path \<Rightarrow> node \<Rightarrow> path set" where
  "transcripts p n = {p @ q | q. is_jsonl (p @ q) \<and> below n q = Some RegularFile}"

lemma transcripts_leaf:
  "\<not> is_directory n \<Longrightarrow> transcripts p n = (if is_jsonl p \<and> n = RegularFile then {p} else {})"
  unfolding transcripts_def
  by (cases n) (auto elim: below.elims intro: exI [of _ "[]"])

lemma transcripts_directory:
  "distinct (map fst es) \<Longrightarrow>
   transcripts p (Directory es) = (\<Union>e \<in> set es. transcripts (p @ [fst e]) (snd e))"
proof (intro equalityI subsetI)
  fix r assume d: "distinct (map fst es)" and "r \<in> transcripts p (Directory es)"
  then obtain q where q: "r = p @ q" "is_jsonl (p @ q)" "below (Directory es) q = Some RegularFile"
    by (auto simp: transcripts_def)
  then obtain c cs n where "q = c # cs" "map_of es c = Some n" "below n cs = Some RegularFile"
    by (cases q) (auto split: option.splits)
  then show "r \<in> (\<Union>e \<in> set es. transcripts (p @ [fst e]) (snd e))"
    using q map_of_SomeD [of es c n] by (fastforce simp: transcripts_def)
next
  fix r assume d: "distinct (map fst es)" and "r \<in> (\<Union>e \<in> set es. transcripts (p @ [fst e]) (snd e))"
  then obtain c n q where e: "(c, n) \<in> set es" "r = p @ c # q" "is_jsonl r" "below n q = Some RegularFile"
    by (auto simp: transcripts_def)
  then show "r \<in> transcripts p (Directory es)"
    using d by (auto simp: transcripts_def intro!: exI [of _ "c # q"])
qed

lemma collect_file_Inr:
  assumes "collect_file fs p = Inr ps" "below fs p = Some n" "\<not> is_directory n"
  shows "set ps = transcripts p n \<and> distinct ps \<and> (is_jsonl p \<longrightarrow> n = RegularFile)"
  using assms
  by (auto simp: collect_file_def transcripts_leaf bind_result_eq_Inr regular_below split: if_splits)

definition under :: "path \<Rightarrow> path set" where
  "under p = {p @ q | q. True}"

lemma transcripts_under: "transcripts p n \<subseteq> under p"
  by (auto simp: transcripts_def under_def)

lemma under_disjoint: "c \<noteq> d \<Longrightarrow> under (p @ [c]) \<inter> under (p @ [d]) = {}"
  by (auto simp: under_def)

lemma collected_paths:
  "collect_node fs p n = Inr ps \<Longrightarrow> below fs p = Some n \<Longrightarrow> plain_tree n \<Longrightarrow>
     set ps = transcripts p n \<and> distinct ps"
  "collect_entries fs p es = Inr ps \<Longrightarrow> \<forall>e \<in> set es. below fs (p @ [fst e]) = Some (snd e) \<Longrightarrow>
     \<forall>e \<in> set es. plain_tree (snd e) \<Longrightarrow> distinct (map fst es) \<Longrightarrow>
     set ps = (\<Union>e \<in> set es. transcripts (p @ [fst e]) (snd e)) \<and> distinct ps"
proof (induction fs p n and fs p es arbitrary: ps and ps rule: collect_node_collect_entries.induct)
  case (1 fs p t) then show ?case by (simp add: rejected_path_def)
next
  case (2 fs p)
  then show ?case using collect_file_Inr [of fs p ps RegularFile] by (auto simp: bind_result_eq_Inr)
next
  case (3 fs p) then show ?case by (auto simp: bind_result_eq_Inr transcripts_leaf)
next
  case (4 fs p es)
  have entries: "below fs (p @ [fst e]) = Some (snd e)" if "e \<in> set es" for e
  proof -
    have "map_of es (fst e) = Some (snd e)"
      using that "4.prems"(3) by (intro map_of_is_SomeI) auto
    then show ?thesis using "4.prems"(2) by (simp add: below_append)
  qed
  obtain u where "ensure_provider_path_parents_are_not_symlinks fs p = Inr u" "collect_entries fs p es = Inr ps"
    using "4.prems"(1) by (auto simp: bind_result_eq_Inr)
  then show ?case
    using "4.IH" [of u ps] "4.prems"(3) entries by (simp add: transcripts_directory)
next
  case (5 fs p) then show ?case by simp
next
  case (6 fs p name n es)
  obtain xs ys where parts: "ps = xs @ ys" "collect_entries fs p es = Inr ys"
      "(if is_directory n then collect_node fs (p @ [name]) n else collect_file fs (p @ [name])) = Inr xs"
    using "6.prems"(1) by (auto simp: bind_result_eq_Inr)
  have x: "set xs = transcripts (p @ [name]) n \<and> distinct xs"
  proof (cases "is_directory n")
    case True with "6.IH"(1) [of xs] parts(3) "6.prems" show ?thesis by simp
  next
    case False with collect_file_Inr [of fs "p @ [name]" xs n] parts(3) "6.prems" show ?thesis by simp
  qed
  have y: "set ys = (\<Union>e \<in> set es. transcripts (p @ [fst e]) (snd e)) \<and> distinct ys"
    using "6.IH"(2) [OF _ parts(2)] parts(3) "6.prems" by (cases "is_directory n") auto
  have "set xs \<inter> transcripts (p @ [fst e]) (snd e) = {}" if "e \<in> set es" for e
  proof -
    have "name \<noteq> fst e" using that "6.prems"(4) by auto
    then show ?thesis
      using x transcripts_under [of "p @ [name]" n] transcripts_under [of "p @ [fst e]" "snd e"]
        under_disjoint [of name "fst e" p] by blast
  qed
  then have "set xs \<inter> set ys = {}" using y by auto
  then show ?case using x y parts(1) by simp
qed

lemma collect_node_not_link: "collect_node fs p n = Inr ps \<Longrightarrow> \<not> is_link (Some n)"
  by (cases n) (simp_all add: rejected_path_def)

lemma collect_node_parents:
  "collect_node fs p n = Inr ps \<Longrightarrow> \<forall>k < length p. \<not> is_link (symlink_metadata fs (take k p))"
  by (cases n) (auto simp: bind_result_eq_Inr parents_ok rejected_path_def)

text \<open>C0: when a walk succeeds, it has each regular file named .jsonl below the root exactly once and
  nothing else, and every file it gives is reached from the top of the file system through directories
  alone, so no symbolic link was followed.\<close>
theorem collected_files_exact:
  assumes "collect_jsonl_paths fs root = Inr ps" "plain_tree fs"
  shows "distinct ps
    \<and> set ps = {p. (\<exists>q. p = root @ q) \<and> is_jsonl p \<and> below fs p = Some RegularFile}"
proof -
  obtain n where n: "symlink_metadata fs root = Some n" "collect_node fs root n = Inr ps"
    using assms(1) by (auto simp: collect_jsonl_paths_def split: option.splits)
  have b: "below fs root = Some n"
    using n collect_node_parents by (intro metadata_below) blast+
  have "plain_tree n" using assms(2) b
    by (induction fs root rule: below.induct) (auto split: option.splits dest!: map_of_SomeD)
  then show ?thesis
    using collected_paths(1) [OF n(2) b] b by (auto simp: transcripts_def below_append)
qed

definition demo_tree :: node where
  "demo_tree =
     Directory [(''s'', Directory [(''a.jsonl'', RegularFile), (''b.txt'', RegularFile),
         (''sub'', Directory [(''c.jsonl'', RegularFile)]),
         (''other'', SymbolicLink (Some (Directory [(''d.jsonl'', RegularFile)])))])]"

theorem collected_files_exact_witness:
  "collect_jsonl_paths demo_tree [''s''] = Inr [[''s'', ''a.jsonl''], [''s'', ''sub'', ''c.jsonl'']]
   \<and> {p. (\<exists>q. p = [''s''] @ q) \<and> is_jsonl p \<and> below demo_tree p = Some RegularFile}
     = {[''s'', ''a.jsonl''], [''s'', ''sub'', ''c.jsonl'']}"
proof -
  have c: "collect_jsonl_paths demo_tree [''s''] = Inr [[''s'', ''a.jsonl''], [''s'', ''sub'', ''c.jsonl'']]"
    by code_simp
  have "plain_tree demo_tree" by (simp add: demo_tree_def)
  from collected_files_exact [OF c this] c show ?thesis by simp
qed

end
