(* ===== verification/Codex_Normalize.thy ===== *)
theory Codex_Normalize
  imports Codex_Events Jsonl_Reader Transcript_Tree
begin

text \<open>
  A Codex transcript as a list of captures (\<open>provider/codex/session.rs\<close> of \<open>ctx-history-capture\<close>): the
  textual filters that drop a line before it is parsed, the scan for a real conversation, and the
  adapter that normalizes a file. A file is the tree it lies in and what reading it gives; it does not
  change while it is imported.
\<close>

section \<open>Filters\<close>

definition contains_bytes :: "string \<Rightarrow> string \<Rightarrow> bool" where
  "contains_bytes haystack needle = text_contains needle haystack"

definition find_bytes :: "string \<Rightarrow> string \<Rightarrow> nat option" where
  "find_bytes haystack needle = (if needle = [] then Some 0 else find_text needle haystack)"

text \<open>The bytes \<open>"key":"text"\<close> of a member with a text, without blanks.\<close>

definition quoted :: "string \<Rightarrow> string" where
  "quoted s = CHR 0x22 # s @ [CHR 0x22]"

definition has_type :: "string \<Rightarrow> string \<Rightarrow> bool" where
  "has_type line t = contains_bytes line (quoted ''type'' @ '':'' @ quoted t)"

definition has_role :: "string \<Rightarrow> string \<Rightarrow> bool" where
  "has_role line r = contains_bytes line (quoted ''role'' @ '':'' @ quoted r)"

definition codex_session_event_msg_may_touch_file :: "string \<Rightarrow> bool" where
  "codex_session_event_msg_may_touch_file line \<longleftrightarrow>
     contains_bytes line (quoted ''patch_apply_end'') \<or> contains_bytes line ''apply_patch''
     \<or> contains_bytes line ''*** Begin Patch'' \<or> contains_bytes line ''changes''"

definition codex_session_line_may_touch_file :: "string \<Rightarrow> bool" where
  "codex_session_line_may_touch_file line \<longleftrightarrow>
     has_type line ''response_item''
     \<and> list_ex (contains_bytes line)
         [''apply_patch'', ''*** Begin Patch'', ''write_file'', ''edit_file'', ''str_replace'', ''file_path'',
          ''TargetFile'']"

definition should_parse_codex_session_line :: "string \<Rightarrow> bool" where
  "should_parse_codex_session_line line \<longleftrightarrow>
     (if has_type line ''session_meta'' \<or> has_type line ''compacted'' then True
      else if has_type line ''event_msg'' then codex_session_event_msg_may_touch_file line
      else if \<not> has_type line ''response_item'' then False
      else if has_type line ''message'' \<and> list_ex (has_role line) [''user'', ''assistant'', ''system'', ''developer'']
      then True
      else if codex_session_line_may_touch_file line then True
      else list_ex (has_type line)
        [''function_call'', ''custom_tool_call'', ''web_search_call'', ''tool_search_call'',
         ''function_call_output'', ''custom_tool_call_output'', ''tool_search_output'', ''reasoning''])"

definition is_codex_tool_output_line :: "string \<Rightarrow> bool" where
  "is_codex_tool_output_line line \<longleftrightarrow> list_ex (has_type line) output_item_types"

definition exit_code_text :: "string \<Rightarrow> string" where
  "exit_code_text tail =
     (case tail of
        c # rest \<Rightarrow> if c = CHR ''-'' then c # takeWhile is_digit rest else takeWhile is_digit tail
      | [] \<Rightarrow> [])"

lemma text_after_shorter: "text_after marker s = Some t \<Longrightarrow> marker \<noteq> [] \<Longrightarrow> length t < length s"
proof -
  assume t: "text_after marker s = Some t" and m: "marker \<noteq> []"
  then obtain i where i: "find_text marker s = Some i" "t = drop (i + length marker) s"
    by (auto simp: text_after_def)
  then obtain r where "drop i s = marker @ r" using find_text_append by blast
  then have "length s - i = length marker + length r" by (metis length_append length_drop)
  then show ?thesis using i(2) m by (cases marker) auto
qed

function codex_tool_output_line_has_nonzero_exit_code :: "string \<Rightarrow> bool" where
  "codex_tool_output_line_has_nonzero_exit_code line \<longleftrightarrow>
     (case text_after ''Process exited with code '' line of
        None \<Rightarrow> False
      | Some tail \<Rightarrow>
          (let code = exit_code_text tail; rest = drop (length code) tail
           in (parse_i32 code \<noteq> None \<and> parse_i32 code \<noteq> Some 0)
              \<or> (rest \<noteq> [] \<and> codex_tool_output_line_has_nonzero_exit_code rest)))"
  by pat_completeness auto
termination
  by (relation "measure length") (auto dest!: text_after_shorter)

declare codex_tool_output_line_has_nonzero_exit_code.simps [simp del]

definition codex_tool_output_line_looks_important :: "'f transcript_lib \<Rightarrow> string \<Rightarrow> bool" where
  "codex_tool_output_line_looks_important T line \<longleftrightarrow>
     contains_bytes line (quoted ''timed_out'' @ '':true'') \<or> contains_bytes line ''timed_out=true''
     \<or> contains_bytes line ''timed out'' \<or> codex_tool_output_line_has_nonzero_exit_code line
     \<or> (case Option.bind (json_of T line) (\<lambda>v. jget v ''payload'') of
          None \<Rightarrow> False | Some payload \<Rightarrow> provider_output_event_is_failure payload)"

definition should_skip_codex_tool_output_line :: "'f transcript_lib \<Rightarrow> string \<Rightarrow> bool" where
  "should_skip_codex_tool_output_line T line \<longleftrightarrow>
     is_codex_tool_output_line line \<and> \<not> codex_tool_output_line_looks_important T line"

definition is_ascii_whitespace :: "char \<Rightarrow> bool" where
  "is_ascii_whitespace c \<longleftrightarrow> c \<in> {CHR '' '', CHR 0x09, CHR 0x0A, CHR 0x0C, CHR 0x0D}"

definition blank_line :: "string \<Rightarrow> bool" where
  "blank_line line \<longleftrightarrow> list_all is_ascii_whitespace line"

section \<open>Files\<close>

record transcript_files =
  tf_tree :: node
  tf_open :: "path \<Rightarrow> capture_error + reader"
  tf_len :: "path \<Rightarrow> u64 option"
  tf_modified_ms :: "path \<Rightarrow> int"

definition open_transcript :: "transcript_files \<Rightarrow> path \<Rightarrow> capture_error + (capture_error + jsonl_read \<times> string) list" where
  "open_transcript F p =
     bind_result (ensure_regular_provider_transcript_file (tf_tree F) p) (\<lambda>_.
       bind_result (tf_open F p) (\<lambda>r. Inr (file_reads r)))"

section \<open>Is there a conversation\<close>

record codex_conversation_scan =
  sn_has_real_conversation :: bool
  sn_has_malformed_header :: bool
  sn_has_malformed_relevant_line :: bool
  sn_oversized_required_header :: bool
  sn_oversized_events :: nat

definition empty_scan :: codex_conversation_scan where
  "empty_scan =
     \<lparr>sn_has_real_conversation = False, sn_has_malformed_header = False,
      sn_has_malformed_relevant_line = False, sn_oversized_required_header = False, sn_oversized_events = 0\<rparr>"

definition codex_event_has_real_conversation_content :: "provider_event_envelope \<Rightarrow> bool" where
  "codex_event_has_real_conversation_content e \<longleftrightarrow>
     pev_event_type e = EventType_Message
     \<and> pev_role e \<in> {Some EventRole_User, Some EventRole_Assistant, Some EventRole_System}
     \<and> (case jget_str (pev_payload e) ''text'' of None \<Rightarrow> False | Some text \<Rightarrow> trim text \<noteq> [])"

definition value_is_conversation :: "json \<Rightarrow> bool" where
  "value_is_conversation v \<longleftrightarrow>
     (case (if jget_str v ''type'' = Some ''response_item'' then jget v ''payload'' else None) of
        None \<Rightarrow> False
      | Some payload \<Rightarrow>
          jget_str payload ''type'' = Some ''message''
          \<and> (case jget_str payload ''role'' of
               None \<Rightarrow> False | Some r \<Rightarrow> r \<in> {''user'', ''assistant'', ''system'', ''developer''})
          \<and> (case Option.bind (jget payload ''content'') codex_content_text of
               None \<Rightarrow> False | Some text \<Rightarrow> trim text \<noteq> []))"

fun conversation_scan_loop ::
    "'f transcript_lib \<Rightarrow> (capture_error + jsonl_read \<times> string) list \<Rightarrow> bool \<Rightarrow> codex_conversation_scan
     \<Rightarrow> capture_error + codex_conversation_scan" where
  "conversation_scan_loop T [] header_seen scan = Inr scan"
| "conversation_scan_loop T (Inl e # reads) header_seen scan = Inl e"
| "conversation_scan_loop T (Inr (ReadOversized n, line) # reads) header_seen scan =
     (if header_seen
      then conversation_scan_loop T reads header_seen
        (scan\<lparr>sn_oversized_events := sat_add (sn_oversized_events scan) 1\<rparr>)
      else Inr (scan\<lparr>sn_oversized_required_header := True\<rparr>))"
| "conversation_scan_loop T (Inr (_, line) # reads) header_seen scan =
     (if blank_line line then conversation_scan_loop T reads header_seen scan
      else case tl_json T line of
          Inl _ \<Rightarrow>
            if should_parse_codex_session_line line then Inr (scan\<lparr>sn_has_malformed_relevant_line := True\<rparr>)
            else conversation_scan_loop T reads header_seen scan
        | Inr v \<Rightarrow>
            if jget_str v ''type'' = Some ''session_meta''
            then (case codex_session_header T v of
                Inr _ \<Rightarrow> conversation_scan_loop T reads True scan
              | Inl _ \<Rightarrow> Inr (scan\<lparr>sn_has_malformed_header := True\<rparr>))
            else if value_is_conversation v then Inr (scan\<lparr>sn_has_real_conversation := True\<rparr>)
            else conversation_scan_loop T reads header_seen scan)"

definition codex_session_file_conversation_scan ::
    "'f transcript_lib \<Rightarrow> transcript_files \<Rightarrow> path \<Rightarrow> capture_error + codex_conversation_scan" where
  "codex_session_file_conversation_scan T F p =
     bind_result (open_transcript F p) (\<lambda>reads. conversation_scan_loop T reads False empty_scan)"

section \<open>Lines\<close>

text \<open>What every importer decides on a line before it looks at its type.\<close>

datatype line_kind =
    Line_Ignored
  | Line_Skipped_Output
  | Line_Malformed string
  | Line_Value json

definition codex_line_kind :: "'f transcript_lib \<Rightarrow> string \<Rightarrow> line_kind" where
  "codex_line_kind T line =
     (if blank_line line then Line_Ignored
      else if \<not> should_parse_codex_session_line line then Line_Ignored
      else if should_skip_codex_tool_output_line T line then Line_Skipped_Output
      else case tl_json T line of Inl e \<Rightarrow> Line_Malformed e | Inr v \<Rightarrow> Line_Value v)"

definition count_skipped_event :: "provider_import_summary \<Rightarrow> provider_import_summary" where
  "count_skipped_event s = s\<lparr>pis_skipped := pis_skipped s + 1, pis_skipped_events := pis_skipped_events s + 1\<rparr>"

definition count_skipped_session :: "provider_import_summary \<Rightarrow> provider_import_summary" where
  "count_skipped_session s =
     s\<lparr>pis_skipped := pis_skipped s + 1, pis_skipped_sessions := pis_skipped_sessions s + 1\<rparr>"

definition fail_line :: "nat \<Rightarrow> string \<Rightarrow> provider_import_summary \<Rightarrow> provider_import_summary" where
  "fail_line line_number error s =
     s\<lparr>pis_failed := pis_failed s + 1,
       pis_failures := pis_failures s @ [\<lparr>pif_line = line_number, pif_error = error\<rparr>]\<rparr>"

section \<open>The adapter\<close>

record normalization_result =
  nr_summary :: provider_import_summary
  nr_captures :: "(nat \<times> provider_capture_envelope) list"
  nr_files_touched :: "(nat \<times> provider_file_touched_envelope) list"

record normalize_state =
  nz_result :: normalization_result
  nz_header :: "codex_session_header option"
  nz_calls :: call_contexts
  nz_real :: bool
  nz_oversized :: nat

definition start_normalize :: normalize_state where
  "start_normalize =
     \<lparr>nz_result = \<lparr>nr_summary = empty_summary, nr_captures = [], nr_files_touched = []\<rparr>, nz_header = None,
      nz_calls = (\<lambda>_. None), nz_real = False, nz_oversized = 0\<rparr>"

definition on_summary ::
    "(provider_import_summary \<Rightarrow> provider_import_summary) \<Rightarrow> normalize_state \<Rightarrow> normalize_state" where
  "on_summary f z = z\<lparr>nz_result := (nz_result z)\<lparr>nr_summary := f (nr_summary (nz_result z))\<rparr>\<rparr>"

definition push_capture :: "nat \<Rightarrow> provider_capture_envelope \<Rightarrow> normalize_state \<Rightarrow> normalize_state" where
  "push_capture line_number c z =
     z\<lparr>nz_result := (nz_result z)\<lparr>nr_captures := nr_captures (nz_result z) @ [(line_number, c)]\<rparr>\<rparr>"

text \<open>The text of an error is what \<open>W\<close> prints for what it wraps.\<close>

definition normalize_value ::
    "externals \<Rightarrow> (capture_error \<Rightarrow> string) \<Rightarrow> 'f transcript_lib \<Rightarrow> adapter_context \<Rightarrow> nat \<Rightarrow> json
     \<Rightarrow> normalize_state \<Rightarrow> normalize_state" where
  "normalize_value X W T C line_number v z =
     (if entry_type_of v = ''session_meta''
      then (case codex_session_header T v of
          Inr header \<Rightarrow>
            push_capture line_number
              (codex_session_capture header None line_number (ch_timestamp header) C)
              (z\<lparr>nz_calls := (\<lambda>_. None), nz_header := Some header\<rparr>)
        | Inl e \<Rightarrow> on_summary (fail_line line_number (capture_error_text W e)) z)
      else case nz_header z of
          None \<Rightarrow>
            on_summary (fail_line line_number ''codex session entry appeared before session_meta'') z
        | Some header \<Rightarrow>
            (case codex_session_line_timestamp T v (ch_timestamp header) of
               Inl e \<Rightarrow> on_summary (fail_line line_number (capture_error_text W e)) z
             | Inr occurred_at \<Rightarrow>
                 (let (capture, calls) = codex_session_line_capture X T header v (nz_calls z) line_number
                        occurred_at (ac_source_path C) (source_root_display C);
                      z1 = z\<lparr>nz_calls := calls\<rparr>;
                      z2 = (case cl_event capture of
                          None \<Rightarrow> z1
                        | Some e \<Rightarrow>
                            (let z3 = (if codex_event_has_real_conversation_content e
                                       then z1\<lparr>nz_real := True\<rparr> else z1)
                             in if pev_event_type e = EventType_Notice then on_summary count_skipped_event z3
                                else push_capture line_number
                                  (codex_session_capture header (Some e) line_number occurred_at C) z3))
                  in z2\<lparr>nz_result := (nz_result z2)\<lparr>nr_files_touched :=
                       nr_files_touched (nz_result z2) @ cl_files_touched capture\<rparr>\<rparr>)))"

definition normalize_line ::
    "externals \<Rightarrow> (capture_error \<Rightarrow> string) \<Rightarrow> 'f transcript_lib \<Rightarrow> adapter_context \<Rightarrow> nat \<Rightarrow> string
     \<Rightarrow> normalize_state \<Rightarrow> normalize_state" where
  "normalize_line X W T C line_number line z =
     (case codex_line_kind T line of
        Line_Ignored \<Rightarrow> z
      | Line_Skipped_Output \<Rightarrow> on_summary count_skipped_event z
      | Line_Malformed e \<Rightarrow> on_summary (fail_line line_number e) z
      | Line_Value v \<Rightarrow> normalize_value X W T C line_number v z)"

definition finish_normalize :: "nat \<Rightarrow> normalize_state \<Rightarrow> normalization_result" where
  "finish_normalize line_number z =
     (if nz_real z then nz_result z
      else
        let summary = nr_summary (nz_result z)
        in \<lparr>nr_summary = (if nz_oversized z = 0 \<and> pis_failed summary = 0
                         then fail_line line_number ''codex session JSONL contained no real message content'' summary
                         else summary),
            nr_captures = [], nr_files_touched = []\<rparr>)"

text \<open>An oversized line before the header ends the file with what has been collected.\<close>

fun normalize_loop ::
    "externals \<Rightarrow> (capture_error \<Rightarrow> string) \<Rightarrow> 'f transcript_lib \<Rightarrow> adapter_context
     \<Rightarrow> (capture_error + jsonl_read \<times> string) list \<Rightarrow> nat \<Rightarrow> normalize_state \<Rightarrow> capture_error + normalization_result" where
  "normalize_loop X W T C [] n z = Inr (finish_normalize n z)"
| "normalize_loop X W T C (Inl e # reads) n z = Inl e"
| "normalize_loop X W T C (Inr (ReadOversized _, _) # reads) n z =
     (if nz_header z = None then Inr (nz_result (on_summary count_skipped_session z))
      else normalize_loop X W T C reads (n + 1)
        (on_summary count_skipped_event (z\<lparr>nz_oversized := sat_add (nz_oversized z) 1\<rparr>)))"
| "normalize_loop X W T C (Inr (_, line) # reads) n z =
     normalize_loop X W T C reads (n + 1) (normalize_line X W T C (n + 1) line z)"

definition normalize_path ::
    "externals \<Rightarrow> (capture_error \<Rightarrow> string) \<Rightarrow> 'f transcript_lib \<Rightarrow> transcript_files \<Rightarrow> path \<Rightarrow> adapter_context
     \<Rightarrow> capture_error + normalization_result" where
  "normalize_path X W T F p C =
     bind_result (open_transcript F p) (\<lambda>reads. normalize_loop X W T C reads 0 start_normalize)"

definition codex_normalization_is_skipped_only :: "normalization_result \<Rightarrow> bool" where
  "codex_normalization_is_skipped_only r \<longleftrightarrow>
     pis_failed (nr_summary r) = 0 \<and> pis_skipped (nr_summary r) > 0
     \<and> nr_captures r = [] \<and> nr_files_touched r = []"

end
