(* ===== verification/Provider_Import.thy ===== *)
theory Provider_Import
  imports Import_Identity Import_Cursors File_Touches Store_Invariant
begin

text \<open>
  The importer (\<open>provider/importer.rs\<close> of \<open>ctx-history-capture\<close>): one line of a transcript, with its
  source, session, parent edge and event; the edges whose parent comes later; one touched file; and
  the policy that drops sessions without a real message. A line is an action on the database and the
  caches of the run, its guards and early returns in the order of the code.
\<close>

section \<open>State\<close>

record pending_edge =
  pe_provider_session_id :: string
  pe_parent_provider_session_id :: "string option"
  pe_session_id :: uuid
  pe_parent_session_id :: uuid
  pe_root_session_id :: "uuid option"
  pe_source_id :: uuid
  pe_source_format :: string
  pe_imported_at :: datetime
  pe_fidelity :: fidelity
  pe_line_number :: nat

record import_caches =
  ic_imported_sessions :: "uuid set"
  ic_processed_sources :: "uuid set"
  ic_processed_sessions :: "uuid set"
  ic_imported_edges :: "uuid set"
  ic_processed_edges :: "uuid set"
  ic_session_exists :: "uuid \<Rightarrow> bool option"
  ic_pi_event_identities :: pi_cache
  ic_pending_edges :: "(uuid \<times> pending_edge) list"

definition empty_caches :: import_caches where
  "empty_caches =
     \<lparr>ic_imported_sessions = {}, ic_processed_sources = {}, ic_processed_sessions = {},
      ic_imported_edges = {}, ic_processed_edges = {}, ic_session_exists = (\<lambda>_. None),
      ic_pi_event_identities = (\<lambda>_. None), ic_pending_edges = []\<rparr>"

record import_state =
  im_db :: db
  im_caches :: import_caches

type_synonym 'a import_action = "(import_state, 'a) action"

definition read_db :: "(db \<Rightarrow> capture_error + 'a) \<Rightarrow> 'a import_action" where
  "read_db f = read_m (\<lambda>s. f (im_db s))"

definition write_db :: "(db \<Rightarrow> store_error + db) \<Rightarrow> unit import_action" where
  "write_db f s =
     (case f (im_db s) of
        Inl e \<Rightarrow> (Inl (CaptureStore e), s)
      | Inr d \<Rightarrow> (Inr (), s\<lparr>im_db := d\<rparr>))"

definition write_db_value :: "(db \<Rightarrow> store_error + ('a \<times> db)) \<Rightarrow> 'a import_action" where
  "write_db_value f s =
     (case f (im_db s) of
        Inl e \<Rightarrow> (Inl (CaptureStore e), s)
      | Inr (x, d) \<Rightarrow> (Inr x, s\<lparr>im_db := d\<rparr>))"

definition update_caches :: "(import_caches \<Rightarrow> import_caches) \<Rightarrow> unit import_action" where
  "update_caches f = modify_m (\<lambda>s. s\<lparr>im_caches := f (im_caches s)\<rparr>)"

text \<open>\<open>BTreeSet::insert\<close>: whether the element is new.\<close>

definition insert_cached ::
    "(import_caches \<Rightarrow> uuid set) \<Rightarrow> (uuid set \<Rightarrow> import_caches \<Rightarrow> import_caches) \<Rightarrow> uuid \<Rightarrow> bool import_action" where
  "insert_cached get put x s =
     (let S = get (im_caches s)
      in (Inr (x \<notin> S), s\<lparr>im_caches := put (insert x S) (im_caches s)\<rparr>))"

definition insert_processed_source :: "uuid \<Rightarrow> bool import_action" where
  "insert_processed_source = insert_cached ic_processed_sources (\<lambda>S c. c\<lparr>ic_processed_sources := S\<rparr>)"

definition insert_processed_session :: "uuid \<Rightarrow> bool import_action" where
  "insert_processed_session = insert_cached ic_processed_sessions (\<lambda>S c. c\<lparr>ic_processed_sessions := S\<rparr>)"

definition insert_imported_session :: "uuid \<Rightarrow> bool import_action" where
  "insert_imported_session = insert_cached ic_imported_sessions (\<lambda>S c. c\<lparr>ic_imported_sessions := S\<rparr>)"

definition insert_processed_edge :: "uuid \<Rightarrow> bool import_action" where
  "insert_processed_edge = insert_cached ic_processed_edges (\<lambda>S c. c\<lparr>ic_processed_edges := S\<rparr>)"

definition insert_imported_edge :: "uuid \<Rightarrow> bool import_action" where
  "insert_imported_edge = insert_cached ic_imported_edges (\<lambda>S c. c\<lparr>ic_imported_edges := S\<rparr>)"

definition cache_session_exists :: "uuid \<Rightarrow> bool \<Rightarrow> unit import_action" where
  "cache_session_exists i b = update_caches (\<lambda>c. c\<lparr>ic_session_exists := (ic_session_exists c)(i \<mapsto> b)\<rparr>)"

definition provider_session_exists_cached :: "uuid \<Rightarrow> bool import_action" where
  "provider_session_exists_cached i s =
     (case ic_session_exists (im_caches s) i of
        Some b \<Rightarrow> (Inr b, s)
      | None \<Rightarrow>
          bind_m (read_db (provider_session_exists i))
            (\<lambda>b. bind_m (cache_session_exists i b) (\<lambda>_. return_m b)) s)"

text \<open>\<open>Some(id) if provider_session_exists_cached(id)? => Some(id), _ => None\<close>.\<close>

definition existing_session :: "uuid option \<Rightarrow> uuid option import_action" where
  "existing_session requested =
     (case requested of
        None \<Rightarrow> return_m None
      | Some i \<Rightarrow> bind_m (provider_session_exists_cached i) (\<lambda>b. return_m (if b then Some i else None)))"

section \<open>Counting\<close>

definition count_session :: "bool \<Rightarrow> provider_import_summary \<Rightarrow> provider_import_summary" where
  "count_session imported s =
     (if imported
      then s\<lparr>pis_imported_sessions := pis_imported_sessions s + 1, pis_imported := pis_imported s + 1\<rparr>
      else s\<lparr>pis_skipped_sessions := pis_skipped_sessions s + 1, pis_skipped := pis_skipped s + 1\<rparr>)"

definition count_edge :: "bool \<Rightarrow> provider_import_summary \<Rightarrow> provider_import_summary" where
  "count_edge imported s =
     (if imported
      then s\<lparr>pis_imported_edges := pis_imported_edges s + 1, pis_imported := pis_imported s + 1\<rparr>
      else s\<lparr>pis_skipped_edges := pis_skipped_edges s + 1, pis_skipped := pis_skipped s + 1\<rparr>)"

definition count_event :: "bool \<Rightarrow> provider_import_summary \<Rightarrow> provider_import_summary" where
  "count_event imported s =
     (if imported
      then s\<lparr>pis_imported_events := pis_imported_events s + 1, pis_imported := pis_imported s + 1\<rparr>
      else s\<lparr>pis_skipped_events := pis_skipped_events s + 1, pis_skipped := pis_skipped s + 1\<rparr>)"

definition count_accepted :: "provider_import_summary \<Rightarrow> provider_import_summary" where
  "count_accepted s = s\<lparr>pis_accepted_content_records := pis_accepted_content_records s + 1\<rparr>"

section \<open>Rows\<close>

text \<open>What a line resolves before it writes its rows.\<close>

record line_ids =
  li_source_id :: uuid
  li_source_identity :: "string option"
  li_session_id :: uuid
  li_parent_session_id :: "uuid option"
  li_root_session_id :: "uuid option"
  li_requested_parent :: "uuid option"
  li_requested_root :: "uuid option"

definition line_source_identity :: "externals \<Rightarrow> provider_capture_envelope \<Rightarrow> string option" where
  "line_source_identity X capture =
     (let source = pce_source capture
      in provider_source_identity X (pce_provider capture) (pso_source_format source) (pso_source_root source)
           (pso_raw_source_path source) (pso_idempotency_key source) (pso_metadata source))"

definition line_source_key :: "externals \<Rightarrow> provider_capture_envelope \<Rightarrow> string" where
  "line_source_key X capture =
     provider_scoped_source_identity_key X (pce_provider capture)
       (pse_provider_session_id (pce_session capture)) (pso_source_format (pce_source capture))
       (pso_raw_source_path (pce_source capture))"

definition line_source_id :: "externals \<Rightarrow> provider_capture_envelope \<Rightarrow> uuid" where
  "line_source_id X capture = stable_capture_uuid (line_source_key X capture) ''source''"

definition source_record :: "externals \<Rightarrow> provider_capture_envelope \<Rightarrow> nat \<Rightarrow> capture_source" where
  "source_record X capture line_number =
     (let session = pce_session capture; source = pce_source capture;
          source_root = provider_source_root (pso_source_root source) (pso_raw_source_path source);
          source_identity = line_source_identity X capture
      in \<lparr>cs_id = line_source_id X capture,
          cs_descriptor =
            \<lparr>csd_kind = CaptureSourceKind_ProviderImport, csd_provider = pce_provider capture,
             csd_machine_id = pso_machine_id source, csd_process_id = None, csd_cwd = pse_cwd session,
             csd_raw_source_path = pso_raw_source_path source,
             csd_source_format = Some (pso_source_format source), csd_source_root = source_root,
             csd_source_identity = source_identity,
             csd_external_session_id = Some (pse_provider_session_id session)\<rparr>,
          cs_started_at = pse_started_at session, cs_ended_at = pse_ended_at session,
          cs_sync = provider_sync_metadata (pso_fidelity source)
            (json_object
              [(''provider_session_id'', JStr (pse_provider_session_id session)),
               (''source_format'', JStr (pso_source_format source)),
               (''source_trust'', JStr (trust_text (pso_trust source))),
               (''cursor'', json_of_option (cursor_range_json X) (provider_source_cursor_range X capture)),
               (''fixture_line'', json_usize line_number),
               (''imported_at'', json_time X (pso_observed_at source)),
               (''source_idempotency_key'', json_str_opt (pso_idempotency_key source)),
               (''source_identity'', json_str_opt source_identity),
               (''source_root'', json_str_opt source_root),
               (''source_identity_key'', JStr (line_source_key X capture)),
               (''source_metadata'', pso_metadata source),
               (''session_metadata'', pse_metadata session)])\<rparr>)"

definition session_record ::
    "externals \<Rightarrow> provider_capture_envelope \<Rightarrow> normalized_provider_import_options \<Rightarrow> nat \<Rightarrow> line_ids \<Rightarrow> session" where
  "session_record X capture options line_number ids =
     (let session = pce_session capture; source = pce_source capture
      in \<lparr>se_id = li_session_id ids, se_history_record_id = opt_history_record_id options,
          se_parent_session_id = li_parent_session_id ids, se_root_session_id = li_root_session_id ids,
          se_capture_source_id = Some (li_source_id ids), se_provider = pce_provider capture,
          se_external_session_id = Some (pse_provider_session_id session),
          se_external_agent_id = pse_external_agent_id session, se_agent_type = pse_agent_type session,
          se_role_hint = pse_role_hint session, se_is_primary = pse_is_primary session,
          se_status = pse_status session, se_transcript_blob_id = None,
          se_started_at = pse_started_at session, se_ended_at = pse_ended_at session,
          se_timestamps = timestamps (pso_observed_at source),
          se_sync = provider_sync_metadata (pse_fidelity session)
            (json_object
              [(''provider_session_id'', JStr (pse_provider_session_id session)),
               (''parent_provider_session_id'', json_str_opt (pse_parent_provider_session_id session)),
               (''root_provider_session_id'', json_str_opt (pse_root_provider_session_id session)),
               (''source_format'', JStr (pso_source_format source)),
               (''source_trust'', JStr (trust_text (pso_trust source))),
               (''fixture_line'', json_usize line_number),
               (''imported_at'', json_time X (pso_observed_at source)),
               (''session_idempotency_key'', json_str_opt (pse_idempotency_key session)),
               (''artifacts'', JArr (map artifact_json (pse_artifacts session))),
               (''metadata'', pse_metadata session)])\<rparr>)"

definition edge_record ::
    "externals \<Rightarrow> provider_capture_envelope \<Rightarrow> nat \<Rightarrow> line_ids \<Rightarrow> uuid \<Rightarrow> uuid \<Rightarrow> session_edge" where
  "edge_record X capture line_number ids edge_id parent_id =
     (let session = pce_session capture; source = pce_source capture
      in \<lparr>sg_id = edge_id, sg_from_session_id = parent_id, sg_to_session_id = li_session_id ids,
          sg_edge_type = SessionEdgeType_ParentChild, sg_confidence = Confidence_Explicit,
          sg_source_id = Some (li_source_id ids), sg_timestamps = timestamps (pso_observed_at source),
          sg_sync = provider_sync_metadata (pse_fidelity session)
            (json_object
              [(''provider_session_id'', JStr (pse_provider_session_id session)),
               (''parent_provider_session_id'', json_str_opt (pse_parent_provider_session_id session)),
               (''source_format'', JStr (pso_source_format source)),
               (''fixture_line'', json_usize line_number),
               (''imported_at'', json_time X (pso_observed_at source))])\<rparr>)"

definition event_record ::
    "externals \<Rightarrow> provider_capture_envelope \<Rightarrow> normalized_provider_import_options \<Rightarrow> nat \<Rightarrow> line_ids
     \<Rightarrow> provider_event_envelope \<Rightarrow> string \<Rightarrow> event_identity \<Rightarrow> run option \<Rightarrow> event" where
  "event_record X capture options line_number ids event event_hash identity command_run =
     (let session = pce_session capture; source = pce_source capture;
          artifacts = JArr (map artifact_json (pev_artifacts event))
      in \<lparr>ev_id = ei_id identity, ev_seq = ei_seq identity,
          ev_history_record_id = opt_history_record_id options, ev_session_id = Some (li_session_id ids),
          ev_run_id = map_option rn_id command_run, ev_event_type = pev_event_type event,
          ev_role = pev_role event, ev_occurred_at = pev_occurred_at event,
          ev_capture_source_id = Some (li_source_id ids),
          ev_payload = json_object
            [(''provider'', JStr (provider_str (pce_provider capture))),
             (''provider_session_id'', JStr (pse_provider_session_id session)),
             (''provider_event_index'', json_u64 (pev_provider_event_index event)),
             (''provider_event_hash'', JStr event_hash), (''cursor'', json_str_opt (pev_cursor event)),
             (''artifacts'', artifacts), (''body'', pev_payload event)],
          ev_payload_blob_id = None, ev_dedupe_key = Some (ei_dedupe_key identity),
          ev_sync = provider_sync_metadata (pev_fidelity event)
            (json_object
              [(''provider_session_id'', JStr (pse_provider_session_id session)),
               (''provider_event_index'', json_u64 (pev_provider_event_index event)),
               (''provider_event_hash'', JStr event_hash), (''cursor'', json_str_opt (pev_cursor event)),
               (''source_format'', JStr (pso_source_format source)),
               (''source_trust'', JStr (trust_text (pso_trust source))),
               (''fixture_line'', json_usize line_number),
               (''imported_at'', json_time X (pso_observed_at source)),
               (''event_idempotency_key'', json_str_opt (pev_idempotency_key event)),
               (''metadata'', pev_metadata event)])\<rparr>)"

section \<open>One line\<close>

definition supported_schema_version :: "u32 \<Rightarrow> bool" where
  "supported_schema_version v \<longleftrightarrow>
     PROVIDER_CAPTURE_ENVELOPE_MIN_SUPPORTED_SCHEMA_VERSION \<le> v \<and> v \<le> PROVIDER_CAPTURE_ENVELOPE_SCHEMA_VERSION"

text \<open>The checks before anything is written.\<close>

definition check_capture :: "externals \<Rightarrow> provider_capture_envelope \<Rightarrow> nat \<Rightarrow> capture_error + unit" where
  "check_capture X capture line_number =
     (if \<not> supported_schema_version (pce_schema_version capture)
      then Inl (CaptureInvalidPayload
        (''unsupported provider capture envelope schema version '' @ dec (unat (pce_schema_version capture))
           @ '' on line '' @ dec line_number))
      else case pce_event capture of
          None \<Rightarrow> Inr ()
        | Some event \<Rightarrow> validate_provider_event_for_import X event)"

definition line_session_uuid :: "externals \<Rightarrow> provider_capture_envelope \<Rightarrow> string \<Rightarrow> uuid import_action" where
  "line_session_uuid X capture provider_session_id =
     read_db (provider_import_session_uuid X (pce_provider capture) provider_session_id
       (line_source_id X capture) (line_source_identity X capture))"

definition optional_action :: "('a \<Rightarrow> 'b import_action) \<Rightarrow> 'a option \<Rightarrow> 'b option import_action" where
  "optional_action f v =
     (case v of None \<Rightarrow> return_m None | Some x \<Rightarrow> bind_m (f x) (\<lambda>y. return_m (Some y)))"

definition resolve_line_ids :: "externals \<Rightarrow> provider_capture_envelope \<Rightarrow> line_ids import_action" where
  "resolve_line_ids X capture =
     (let session = pce_session capture
      in bind_m (line_session_uuid X capture (pse_provider_session_id session)) (\<lambda>session_id.
         bind_m (optional_action (line_session_uuid X capture) (pse_parent_provider_session_id session))
           (\<lambda>requested_parent.
         bind_m (existing_session requested_parent) (\<lambda>parent.
         bind_m (optional_action (line_session_uuid X capture) (pse_root_provider_session_id session))
           (\<lambda>given_root.
         let requested_root = or_else given_root (map_option (\<lambda>_. session_id) requested_parent)
         in bind_m
             (if requested_root = Some session_id then return_m (Some session_id)
              else existing_session requested_root) (\<lambda>root.
            return_m
              \<lparr>li_source_id = line_source_id X capture,
               li_source_identity = line_source_identity X capture, li_session_id = session_id,
               li_parent_session_id = parent, li_root_session_id = root,
               li_requested_parent = requested_parent, li_requested_root = requested_root\<rparr>))))))"

definition import_source_row :: "externals \<Rightarrow> provider_capture_envelope \<Rightarrow> nat \<Rightarrow> unit import_action" where
  "import_source_row X capture line_number =
     bind_m (insert_processed_source (line_source_id X capture)) (\<lambda>fresh.
       if fresh then write_db (upsert_capture_source (source_record X capture line_number)) else return_m ())"

definition import_session_row ::
    "externals \<Rightarrow> provider_capture_envelope \<Rightarrow> normalized_provider_import_options \<Rightarrow> nat \<Rightarrow> line_ids
     \<Rightarrow> provider_import_summary \<Rightarrow> provider_import_summary import_action" where
  "import_session_row X capture options line_number ids summary =
     (let session_id = li_session_id ids
      in bind_m (insert_processed_session session_id) (\<lambda>process_session.
         if \<not> process_session then return_m summary
         else bind_m (provider_session_exists_cached session_id) (\<lambda>known.
           bind_m (write_db (upsert_session (session_record X capture options line_number ids))) (\<lambda>_.
           bind_m (cache_session_exists session_id True) (\<lambda>_.
           if \<not> known
           then bind_m (insert_imported_session session_id) (\<lambda>fresh. return_m (count_session fresh summary))
           else return_m (count_session False summary))))))"

definition add_pending_edge :: "uuid \<Rightarrow> pending_edge \<Rightarrow> unit import_action" where
  "add_pending_edge edge_id e =
     update_caches (\<lambda>c.
       if map_of (ic_pending_edges c) edge_id = None
       then c\<lparr>ic_pending_edges := ic_pending_edges c @ [(edge_id, e)]\<rparr> else c)"

definition import_edge_row ::
    "externals \<Rightarrow> provider_capture_envelope \<Rightarrow> nat \<Rightarrow> line_ids
     \<Rightarrow> provider_import_summary \<Rightarrow> provider_import_summary import_action" where
  "import_edge_row X capture line_number ids summary =
     (let session = pce_session capture;
          edge_id = provider_import_edge_uuid (pce_provider capture) (pse_provider_session_id session)
            (li_source_identity ids) (li_session_id ids) ''parent_child''
      in case li_parent_session_id ids of
           Some parent_id \<Rightarrow>
             bind_m (insert_processed_edge edge_id) (\<lambda>fresh.
               if \<not> fresh then return_m summary
               else bind_m (read_db (\<lambda>d. Inr (session_edge_exists edge_id d))) (\<lambda>was_present.
                 bind_m (write_db (upsert_session_edge (edge_record X capture line_number ids edge_id parent_id)))
                   (\<lambda>_.
                 if \<not> was_present
                 then bind_m (insert_imported_edge edge_id) (\<lambda>fresh. return_m (count_edge fresh summary))
                 else return_m (count_edge False summary))))
         | None \<Rightarrow>
             (case li_requested_parent ids of
                None \<Rightarrow> return_m summary
              | Some parent_id \<Rightarrow>
                  bind_m (add_pending_edge edge_id
                    \<lparr>pe_provider_session_id = pse_provider_session_id session,
                     pe_parent_provider_session_id = pse_parent_provider_session_id session,
                     pe_session_id = li_session_id ids, pe_parent_session_id = parent_id,
                     pe_root_session_id = li_requested_root ids, pe_source_id = li_source_id ids,
                     pe_source_format = pso_source_format (pce_source capture),
                     pe_imported_at = pso_observed_at (pce_source capture),
                     pe_fidelity = pse_fidelity session, pe_line_number = line_number\<rparr>)
                    (\<lambda>_. return_m summary)))"

definition pi_identity_action ::
    "capture_provider \<Rightarrow> uuid \<Rightarrow> string option \<Rightarrow> event_identity option import_action" where
  "pi_identity_action provider session_id entry_id s =
     (let (r, cache) = pi_existing_event_identity_by_entry_id provider session_id entry_id (im_db s)
            (ic_pi_event_identities (im_caches s))
      in (r, s\<lparr>im_caches := (im_caches s)\<lparr>ic_pi_event_identities := cache\<rparr>\<rparr>))"

definition resolve_event_identity ::
    "externals \<Rightarrow> provider_capture_envelope \<Rightarrow> line_ids \<Rightarrow> provider_event_envelope \<Rightarrow> string
     \<Rightarrow> event_identity import_action" where
  "resolve_event_identity X capture ids event event_hash =
     (let provider = pce_provider capture;
          provider_session_id = pse_provider_session_id (pce_session capture);
          pi_entry_id = opt_filter (\<lambda>i. trim i \<noteq> []) (jget_str (pev_metadata event) ''entry_id'');
          legacy_index =
            (if provider = CaptureProvider_Pi \<and> pi_entry_id \<noteq> None then None
             else Option.bind (jget (pev_metadata event) ''legacy_provider_event_index'') as_u64);
          identity_index =
            unwrap_or (Option.bind (jget (pev_metadata event) ''provider_event_identity_index'') as_u64)
              (pev_provider_event_index event)
      in bind_m (pi_identity_action provider (li_session_id ids) pi_entry_id) (\<lambda>known.
         case known of
           Some identity \<Rightarrow> return_m identity
         | None \<Rightarrow>
             read_db (provider_event_import_identity X provider provider_session_id (li_source_id ids)
               identity_index (pev_provider_event_index event) event_hash legacy_index
               (li_session_id ids = provider_session_uuid provider provider_session_id))))"

text \<open>The two ways to write the event; the result is whether it was present, or \<open>None\<close> for a line
  that ends at a payload conflict.\<close>

definition optional_run :: "(run \<Rightarrow> unit import_action) \<Rightarrow> run option \<Rightarrow> unit import_action" where
  "optional_run f r = (case r of None \<Rightarrow> return_m () | Some x \<Rightarrow> f x)"

definition insert_event_row :: "externals \<Rightarrow> unicode \<Rightarrow> run option \<Rightarrow> event \<Rightarrow> bool option import_action" where
  "insert_event_row X U command_run e =
     bind_m (optional_run (\<lambda>r. bind_m (write_db_value (insert_run_if_absent r)) (\<lambda>_. return_m ())) command_run)
       (\<lambda>_. bind_m (write_db_value (insert_event_if_absent X U e)) (\<lambda>inserted. return_m (Some (\<not> inserted))))"

definition upsert_event_row ::
    "externals \<Rightarrow> unicode \<Rightarrow> run option \<Rightarrow> event \<Rightarrow> string \<Rightarrow> bool option import_action" where
  "upsert_event_row X U command_run e dedupe_key =
     bind_m (read_db (provider_event_exists dedupe_key)) (\<lambda>was_present.
     bind_m (optional_run (\<lambda>r. write_db (upsert_run r)) command_run) (\<lambda>_ s.
       case upsert_event X U e (im_db s) of
         Inr (_, d) \<Rightarrow> (Inr (Some was_present), s\<lparr>im_db := d\<rparr>)
       | Inl (Sql QueryReturnedNoRows) \<Rightarrow> (Inr (Some was_present), s)
       | Inl (ProviderEventConflict _ _ _ _ _) \<Rightarrow> (Inr None, s)
       | Inl err \<Rightarrow> (Inl (CaptureStore err), s)))"

definition command_run_of_line ::
    "externals \<Rightarrow> provider_capture_envelope \<Rightarrow> normalized_provider_import_options \<Rightarrow> line_ids
     \<Rightarrow> provider_event_envelope \<Rightarrow> string \<Rightarrow> event_identity \<Rightarrow> capture_error + run option" where
  "command_run_of_line X capture options ids event event_hash identity =
     provider_command_run_from_event X
       \<lparr>cri_provider = pce_provider capture,
        cri_provider_session_id = pse_provider_session_id (pce_session capture),
        cri_session_id = li_session_id ids, cri_source_id = li_source_id ids,
        cri_run_source_id = ei_run_source_id identity,
        cri_history_record_id = opt_history_record_id options, cri_event = event,
        cri_payload = pev_payload event, cri_event_hash = event_hash\<rparr>"

definition import_event_row ::
    "externals \<Rightarrow> unicode \<Rightarrow> provider_capture_envelope \<Rightarrow> normalized_provider_import_options \<Rightarrow> nat \<Rightarrow> line_ids
     \<Rightarrow> provider_event_envelope \<Rightarrow> provider_import_summary \<Rightarrow> provider_import_summary import_action" where
  "import_event_row X U capture options line_number ids event summary =
     bind_m (of_result (case compute_payload_hash X (pev_payload event) of
               None \<Rightarrow> Inl CaptureJson
             | Some h \<Rightarrow> Inr (unwrap_or (pev_provider_event_hash event) h))) (\<lambda>event_hash.
     bind_m (resolve_event_identity X capture ids event event_hash) (\<lambda>identity.
     bind_m (of_result (command_run_of_line X capture options ids event event_hash identity)) (\<lambda>command_run.
       let e = event_record X capture options line_number ids event event_hash identity command_run
       in bind_m
           (if opt_fast_event_inserts options then insert_event_row X U command_run e
            else upsert_event_row X U command_run e (ei_dedupe_key identity))
           (\<lambda>present. return_m
             (case present of
                Some was_present \<Rightarrow> count_accepted (count_event (\<not> was_present) summary)
              | None \<Rightarrow> count_accepted (count_event False summary))))))"

definition import_provider_capture_line ::
    "externals \<Rightarrow> unicode \<Rightarrow> provider_capture_envelope \<Rightarrow> normalized_provider_import_options \<Rightarrow> nat
     \<Rightarrow> provider_import_summary import_action" where
  "import_provider_capture_line X U capture options line_number =
     bind_m (of_result (check_capture X capture line_number)) (\<lambda>_.
     bind_m (import_source_row X capture line_number) (\<lambda>_.
     bind_m (resolve_line_ids X capture) (\<lambda>ids.
     bind_m (import_session_row X capture options line_number ids empty_summary) (\<lambda>summary.
     bind_m (import_edge_row X capture line_number ids summary) (\<lambda>summary.
       case pce_event capture of
         None \<Rightarrow> return_m summary
       | Some event \<Rightarrow> import_event_row X U capture options line_number ids event summary)))))"

section \<open>Edges whose parent came later\<close>

definition resolve_pending_root_session_id :: "pending_edge \<Rightarrow> uuid option import_action" where
  "resolve_pending_root_session_id edge =
     (case pe_root_session_id edge of
        Some root_id \<Rightarrow>
          if root_id = pe_session_id edge then return_m (Some root_id)
          else bind_m (provider_session_exists_cached root_id)
            (\<lambda>b. return_m (Some (if b then root_id else pe_parent_session_id edge)))
      | None \<Rightarrow> return_m (Some (pe_parent_session_id edge)))"

definition update_session_parent :: "pending_edge \<Rightarrow> uuid option \<Rightarrow> unit import_action" where
  "update_session_parent edge root_session_id =
     bind_m (read_db (\<lambda>d. from_store (get_session (pe_session_id edge) d))) (\<lambda>session.
       if se_parent_session_id session = Some (pe_parent_session_id edge)
          \<and> se_root_session_id session = root_session_id
       then return_m ()
       else write_db (upsert_session
         (session\<lparr>se_parent_session_id := Some (pe_parent_session_id edge),
                  se_root_session_id := root_session_id,
                  se_timestamps := (se_timestamps session)\<lparr>et_updated_at := pe_imported_at edge\<rparr>\<rparr>)))"

definition pending_edge_record :: "externals \<Rightarrow> uuid \<Rightarrow> pending_edge \<Rightarrow> session_edge" where
  "pending_edge_record X edge_id edge =
     \<lparr>sg_id = edge_id, sg_from_session_id = pe_parent_session_id edge,
      sg_to_session_id = pe_session_id edge, sg_edge_type = SessionEdgeType_ParentChild,
      sg_confidence = Confidence_Explicit, sg_source_id = Some (pe_source_id edge),
      sg_timestamps = timestamps (pe_imported_at edge),
      sg_sync = provider_sync_metadata (pe_fidelity edge)
        (json_object
          [(''provider_session_id'', JStr (pe_provider_session_id edge)),
           (''parent_provider_session_id'', json_str_opt (pe_parent_provider_session_id edge)),
           (''source_format'', JStr (pe_source_format edge)),
           (''fixture_line'', json_usize (pe_line_number edge)),
           (''imported_at'', json_time X (pe_imported_at edge)),
           (''deferred_edge_resolution'', JBool True)])\<rparr>"

definition edge_processed :: "uuid \<Rightarrow> bool import_action" where
  "edge_processed edge_id = read_m (\<lambda>s. Inr (edge_id \<in> ic_processed_edges (im_caches s)))"

definition resolve_pending_provider_edge ::
    "externals \<Rightarrow> provider_import_summary \<Rightarrow> uuid \<Rightarrow> pending_edge \<Rightarrow> provider_import_summary import_action" where
  "resolve_pending_provider_edge X summary edge_id edge =
     bind_m (edge_processed edge_id) (\<lambda>processed.
       if processed
       then bind_m (resolve_pending_root_session_id edge) (\<lambda>root.
              bind_m (update_session_parent edge root) (\<lambda>_. return_m summary))
       else bind_m (provider_session_exists_cached (pe_parent_session_id edge)) (\<lambda>parent_exists.
         if \<not> parent_exists then return_m (count_edge False summary)
         else bind_m (resolve_pending_root_session_id edge) (\<lambda>root.
           bind_m (update_session_parent edge root) (\<lambda>_.
           bind_m (cache_session_exists (pe_session_id edge) True) (\<lambda>_.
           bind_m (read_db (\<lambda>d. Inr (session_edge_exists edge_id d))) (\<lambda>was_present.
           bind_m (write_db (upsert_session_edge (pending_edge_record X edge_id edge))) (\<lambda>_.
           bind_m (insert_processed_edge edge_id) (\<lambda>_.
             if \<not> was_present
             then bind_m (insert_imported_edge edge_id) (\<lambda>fresh. return_m (count_edge fresh summary))
             else return_m (count_edge False summary)))))))))"

section \<open>Touched files\<close>

definition touched_event_id ::
    "externals \<Rightarrow> provider_file_touched_envelope \<Rightarrow> uuid \<Rightarrow> uuid \<Rightarrow> db \<Rightarrow> capture_error + uuid option" where
  "touched_event_id X t source_id inferred_session_id d =
     (case pft_provider_event_index t of
        None \<Rightarrow> Inr None
      | Some index \<Rightarrow>
          provider_file_touch_event_id X (pft_provider t) (pft_provider_session_id t) source_id index
            (inferred_session_id = provider_session_uuid (pft_provider t) (pft_provider_session_id t)) d)"

definition touched_session_id :: "uuid option \<Rightarrow> uuid \<Rightarrow> db \<Rightarrow> capture_error + uuid" where
  "touched_session_id event_id inferred_session_id d =
     (case event_id of
        None \<Rightarrow> Inr inferred_session_id
      | Some i \<Rightarrow> bind_result (from_store (get_event i d))
          (\<lambda>e. Inr (unwrap_or (ev_session_id e) inferred_session_id)))"

definition file_touched_record ::
    "externals \<Rightarrow> provider_file_touched_envelope \<Rightarrow> normalized_provider_import_options \<Rightarrow> uuid \<Rightarrow> uuid option
     \<Rightarrow> uuid \<Rightarrow> uuid \<Rightarrow> file_touched" where
  "file_touched_record X t options source_id event_id session_id touch_id =
     \<lparr>ft_id = touch_id, ft_history_record_id = opt_history_record_id options, ft_run_id = None,
      ft_event_id = event_id, ft_vcs_workspace_id = None, ft_path = pft_path t,
      ft_change_kind = pft_change_kind t, ft_old_path = pft_old_path t,
      ft_line_count_delta = pft_line_count_delta t, ft_confidence = pft_confidence t,
      ft_timestamps = timestamps (pft_occurred_at t), ft_source_id = Some source_id,
      ft_sync = provider_sync_metadata Fidelity_Imported
        (json_object
          [(''provider'', JStr (provider_str (pft_provider t))),
           (''provider_session_id'', JStr (pft_provider_session_id t)),
           (''provider_touch_index'', json_u64 (pft_provider_touch_index t)),
           (''provider_event_index'', json_of_option json_u64 (pft_provider_event_index t)),
           (''raw_source_path'', json_str_opt (pft_raw_source_path t)),
           (''source_id'', json_uuid X source_id), (''source_format'', JStr (pft_source_format t)),
           (''source_root'', json_str_opt (provider_source_root (pft_source_root t) (pft_raw_source_path t))),
           (''metadata'', pft_metadata t), (''session_id'', json_uuid X session_id)])\<rparr>"

definition import_provider_file_touched_line ::
    "externals \<Rightarrow> provider_file_touched_envelope \<Rightarrow> normalized_provider_import_options \<Rightarrow> unit import_action" where
  "import_provider_file_touched_line X t options =
     (let source_id = provider_scoped_source_uuid X (pft_provider t) (pft_provider_session_id t)
            (pft_source_format t) (pft_raw_source_path t);
          source_identity = provider_source_identity X (pft_provider t) (pft_source_format t)
            (pft_source_root t) (pft_raw_source_path t) None (pft_metadata t)
      in bind_m (read_db (provider_import_session_uuid X (pft_provider t) (pft_provider_session_id t)
            source_id source_identity)) (\<lambda>inferred.
         bind_m (read_db (touched_event_id X t source_id inferred)) (\<lambda>event_id.
         bind_m (read_db (touched_session_id event_id inferred)) (\<lambda>session_id.
         bind_m (read_db (\<lambda>d. Inr (provider_file_touch_import_id X (pft_provider t)
            (pft_provider_session_id t) source_id (pft_provider_touch_index t)
            (session_id = provider_session_uuid (pft_provider t) (pft_provider_session_id t)) d))) (\<lambda>touch_id.
           write_db (upsert_file_touched
             (file_touched_record X t options source_id event_id session_id touch_id)))))))"

section \<open>Sessions without a real message\<close>

definition native_trust :: "provider_source_trust \<Rightarrow> bool" where
  "native_trust t \<longleftrightarrow> t = ProviderNative \<or> t = ProviderExport"

definition provider_policy_session_key ::
    "capture_provider \<Rightarrow> provider_source_trust \<Rightarrow> string \<Rightarrow> string \<Rightarrow> string option \<Rightarrow> string option" where
  "provider_policy_session_key provider trust source_format provider_session_id raw_source_path =
     (if provider = CaptureProvider_Custom \<or> \<not> native_trust trust then None
      else Some (provider_str provider @ [CHR 0x00] @ source_format @ [CHR 0x00] @ provider_session_id
        @ [CHR 0x00] @ unwrap_or raw_source_path []))"

definition provider_capture_policy_session_key :: "provider_capture_envelope \<Rightarrow> string option" where
  "provider_capture_policy_session_key capture =
     provider_policy_session_key (pce_provider capture) (pso_trust (pce_source capture))
       (pso_source_format (pce_source capture)) (pse_provider_session_id (pce_session capture))
       (pso_raw_source_path (pce_source capture))"

definition provider_file_touch_policy_session_key :: "provider_file_touched_envelope \<Rightarrow> string option" where
  "provider_file_touch_policy_session_key t =
     provider_policy_session_key (pft_provider t) ProviderNative (pft_source_format t)
       (pft_provider_session_id t) (pft_raw_source_path t)"

definition provider_event_payload_has_text :: "json \<Rightarrow> bool" where
  "provider_event_payload_has_text payload =
     (case or_else (jget_str payload ''text'')
        (Option.bind (jget payload ''body'') (\<lambda>body. jget_str body ''text'')) of
        None \<Rightarrow> False
      | Some text \<Rightarrow> trim text \<noteq> [])"

definition provider_event_is_real_conversation_message :: "provider_event_envelope \<Rightarrow> bool" where
  "provider_event_is_real_conversation_message event \<longleftrightarrow>
     pev_event_type event = EventType_Message
     \<and> pev_role event \<in> {Some EventRole_User, Some EventRole_Assistant, Some EventRole_System}
     \<and> provider_event_payload_has_text (pev_payload event)"

definition has_real_message :: "provider_capture_envelope \<Rightarrow> bool" where
  "has_real_message capture \<longleftrightarrow>
     (case pce_event capture of None \<Rightarrow> False | Some e \<Rightarrow> provider_event_is_real_conversation_message e)"

definition provider_capture_lines_have_real_message :: "(nat \<times> provider_capture_envelope) list \<Rightarrow> bool" where
  "provider_capture_lines_have_real_message captures \<longleftrightarrow>
     list_all (\<lambda>(_, c). \<not> native_trust (pso_trust (pce_source c)))
       (filter (\<lambda>(_, c). pce_provider c \<noteq> CaptureProvider_Custom) captures)
     \<or> list_ex (\<lambda>(_, c). pce_provider c \<noteq> CaptureProvider_Custom
           \<and> native_trust (pso_trust (pce_source c)) \<and> has_real_message c) captures"

definition native_session_keys :: "(nat \<times> provider_capture_envelope) list \<Rightarrow> string list" where
  "native_session_keys captures =
     remdups (List.map_filter (\<lambda>(_, c). provider_capture_policy_session_key c) captures)"

definition real_session_keys :: "(nat \<times> provider_capture_envelope) list \<Rightarrow> string list" where
  "real_session_keys captures =
     remdups (List.map_filter
       (\<lambda>(_, c). if has_real_message c then provider_capture_policy_session_key c else None) captures)"

definition rejected_session_keys :: "(nat \<times> provider_capture_envelope) list \<Rightarrow> string list" where
  "rejected_session_keys captures =
     filter (\<lambda>k. k \<notin> set (real_session_keys captures)) (native_session_keys captures)"

definition key_rejected :: "string list \<Rightarrow> string option \<Rightarrow> bool" where
  "key_rejected rejected k \<longleftrightarrow> (case k of None \<Rightarrow> False | Some key \<Rightarrow> key \<in> set rejected)"

definition no_real_message_failure :: "nat \<Rightarrow> provider_import_failure" where
  "no_real_message_failure line =
     \<lparr>pif_line = line, pif_error = ''provider source contained no real conversation message''\<rparr>"

definition add_failure :: "provider_import_failure \<Rightarrow> provider_import_summary \<Rightarrow> provider_import_summary" where
  "add_failure f s = s\<lparr>pis_failed := pis_failed s + 1, pis_failures := pis_failures s @ [f]\<rparr>"

definition filter_provider_capture_lines_without_real_session_messages ::
    "provider_import_summary \<Rightarrow> (nat \<times> provider_capture_envelope) list
     \<Rightarrow> (nat \<times> provider_file_touched_envelope) list
     \<Rightarrow> provider_import_summary \<times> (nat \<times> provider_capture_envelope) list
        \<times> (nat \<times> provider_file_touched_envelope) list" where
  "filter_provider_capture_lines_without_real_session_messages summary captures files =
     (let rejected = rejected_session_keys captures
      in if native_session_keys captures = [] \<or> rejected = [] then (summary, captures, files)
         else
           let drop_capture = (\<lambda>(_, c). key_rejected rejected (provider_capture_policy_session_key c));
               drop_file = (\<lambda>(_, t). key_rejected rejected (provider_file_touch_policy_session_key t));
               dropped = filter drop_capture captures;
               s1 = summary\<lparr>pis_skipped_sessions := pis_skipped_sessions summary + length rejected,
                 pis_skipped := pis_skipped summary + length dropped + length (filter drop_file files),
                 pis_skipped_events := pis_skipped_events summary
                   + length (filter (\<lambda>(_, c). pce_event c \<noteq> None) dropped)\<rparr>;
               s2 = (if real_session_keys captures = [] \<and> pis_failed s1 = 0
                     then add_failure (no_real_message_failure 0) s1 else s1)
           in (s2, filter (\<lambda>c. \<not> drop_capture c) captures, filter (\<lambda>t. \<not> drop_file t) files))"

section \<open>What every write keeps\<close>

text \<open>A property of the database that the writes of sources, sessions, edges and runs keep is kept by
  everything a line does before its event (what follows the source row asks only about sessions and
  edges); one that the writes of events, files and cursors keep as
  well is kept by every line, pending edge and touched file, however they end.\<close>

locale session_frame =
  fixes P :: "db \<Rightarrow> bool"
  assumes keeps_session: "upsert_session se d = Inr d' \<Longrightarrow> P d \<Longrightarrow> P d'"
    and keeps_edge: "upsert_session_edge g d = Inr d' \<Longrightarrow> P d \<Longrightarrow> P d'"
begin

definition kept :: "import_state \<Rightarrow> bool" where
  "kept s \<longleftrightarrow> P (im_db s)"

lemma write_kept:
  "(\<And>d d'. f d = Inr d' \<Longrightarrow> P d \<Longrightarrow> P d') \<Longrightarrow> keeps kept (write_db f)"
  by (auto simp: keeps_def kept_def write_db_def split: sum.split)

lemma write_value_kept:
  "(\<And>d x d'. f d = Inr (x, d') \<Longrightarrow> P d \<Longrightarrow> P d') \<Longrightarrow> keeps kept (write_db_value f)"
  by (auto simp: keeps_def kept_def write_db_value_def split: sum.split)

lemma session_written_kept:
  "keeps kept (write_db (upsert_session se))" "keeps kept (write_db (upsert_session_edge g))"
  by (rule write_kept; erule (1) keeps_session keeps_edge)+

lemma caches_kept: "keeps kept (update_caches f)"
  by (auto simp: update_caches_def kept_def intro: keeps_modify)

lemma inserts_kept:
  "keeps kept (insert_processed_source i)" "keeps kept (insert_processed_session i)"
  "keeps kept (insert_imported_session i)" "keeps kept (insert_processed_edge i)"
  "keeps kept (insert_imported_edge i)"
  by (simp_all add: keeps_def kept_def insert_cached_def insert_processed_source_def
      insert_processed_session_def insert_imported_session_def insert_processed_edge_def
      insert_imported_edge_def Let_def)

lemma exists_kept: "keeps kept (provider_session_exists_cached i)"
proof -
  have "keeps kept (bind_m (read_db (provider_session_exists i))
      (\<lambda>b. bind_m (cache_session_exists i b) (\<lambda>_. return_m b)))"
    unfolding read_db_def cache_session_exists_def by (intro keeps_intros caches_kept)
  then show ?thesis
    by (auto simp: keeps_def provider_session_exists_cached_def split: option.split)
qed

lemma pi_kept: "keeps kept (pi_identity_action provider i entry)"
  by (simp add: keeps_def kept_def pi_identity_action_def split: prod.split)

lemmas read_step_kept = keeps_intros session_written_kept caches_kept inserts_kept exists_kept pi_kept

lemma ids_kept: "keeps kept (resolve_line_ids X capture)"
  unfolding resolve_line_ids_def Let_def line_session_uuid_def optional_action_def existing_session_def read_db_def
  by (intro read_step_kept)

lemma session_rows_kept:
  "keeps kept (import_session_row X capture opts n ids summary)"
  "keeps kept (import_edge_row X capture n ids summary)"
  unfolding import_session_row_def import_edge_row_def Let_def add_pending_edge_def
    cache_session_exists_def read_db_def
  by (intro read_step_kept)+

lemma identity_kept: "keeps kept (resolve_event_identity X capture ids ev h)"
  unfolding resolve_event_identity_def Let_def read_db_def by (intro read_step_kept)

lemma pending_edge_kept: "keeps kept (resolve_pending_provider_edge X summary edge_id edge)"
  unfolding resolve_pending_provider_edge_def resolve_pending_root_session_id_def update_session_parent_def
    cache_session_exists_def edge_processed_def read_db_def
  by (intro read_step_kept)

end

locale import_frame = session_frame P for P :: "db \<Rightarrow> bool" +
  assumes keeps_source: "upsert_capture_source src d = Inr d' \<Longrightarrow> P d \<Longrightarrow> P d'"
    and keeps_run: "upsert_run r d = Inr d' \<Longrightarrow> P d \<Longrightarrow> P d'"
    and keeps_new_run: "insert_run_if_absent r d = Inr (b, d') \<Longrightarrow> P d \<Longrightarrow> P d'"
begin

lemma written_kept:
  "keeps kept (write_db (upsert_capture_source src))" "keeps kept (write_db (upsert_run r))"
  "keeps kept (write_db_value (insert_run_if_absent r))"
  by (rule write_kept write_value_kept; erule (1) keeps_source keeps_run keeps_new_run)+

lemmas step_kept = read_step_kept written_kept

lemma rows_kept:
  "keeps kept (import_source_row X capture n)" "keeps kept (import_session_row X capture opts n ids summary)"
  "keeps kept (import_edge_row X capture n ids summary)"
proof -
  show "keeps kept (import_source_row X capture n)"
    unfolding import_source_row_def by (intro step_kept)
qed (rule session_rows_kept)+

lemma run_kept: "keeps kept (optional_run (\<lambda>r. bind_m (write_db_value (insert_run_if_absent r)) (\<lambda>_. return_m ())) r)"
  unfolding optional_run_def by (intro step_kept)

end

locale import_records = import_frame P for P :: "db \<Rightarrow> bool" +
  fixes X :: externals and U :: unicode
  assumes keeps_event: "upsert_event X U e d = Inr (i, d') \<Longrightarrow> P d \<Longrightarrow> P d'"
    and keeps_new_event: "insert_event_if_absent X U e d = Inr (b, d') \<Longrightarrow> P d \<Longrightarrow> P d'"
    and keeps_file: "upsert_file_touched t d = Inr d' \<Longrightarrow> P d \<Longrightarrow> P d'"
begin

lemma insert_event_kept: "keeps kept (insert_event_row X U r e)"
proof -
  have "keeps kept (write_db_value (insert_event_if_absent X U e))"
    by (rule write_value_kept) (erule (1) keeps_new_event)
  then show ?thesis
    unfolding insert_event_row_def by (intro step_kept run_kept)
qed

lemma upsert_event_kept: "keeps kept (upsert_event_row X U r e k)"
proof -
  have attempt: "keeps kept (\<lambda>s. case upsert_event X U e (im_db s) of
         Inr (_, d) \<Rightarrow> (Inr (Some b), s\<lparr>im_db := d\<rparr>)
       | Inl (Sql QueryReturnedNoRows) \<Rightarrow> (Inr (Some b), s)
       | Inl (ProviderEventConflict _ _ _ _ _) \<Rightarrow> (Inr None, s)
       | Inl err \<Rightarrow> (Inl (CaptureStore err), s))" for b
    by (auto simp: keeps_def kept_def keeps_event
        split: sum.split store_error.split sql_error.split)
  show ?thesis
    unfolding upsert_event_row_def optional_run_def read_db_def
    by (intro step_kept attempt)
qed

lemma line_kept: "keeps kept (import_provider_capture_line X U capture opts n)"
  unfolding import_provider_capture_line_def import_event_row_def Let_def
  by (intro step_kept ids_kept rows_kept identity_kept insert_event_kept upsert_event_kept)

lemma file_kept: "keeps kept (import_provider_file_touched_line X t opts)"
proof -
  have "keeps kept (write_db (upsert_file_touched f))" for f
    by (rule write_kept) (erule (1) keeps_file)
  then show ?thesis
    unfolding import_provider_file_touched_line_def Let_def read_db_def by (intro step_kept)
qed

end

locale import_invariant = import_records P X U for P :: "db \<Rightarrow> bool" and X :: externals and U :: unicode +
  assumes keeps_cursor: "upsert_sync_cursor c d = Inr (j, d') \<Longrightarrow> P d \<Longrightarrow> P d'"
begin

lemma cursor_kept: "P d \<Longrightarrow> persist_provider_sync_cursor c d = Inr d' \<Longrightarrow> P d'"
  by (auto simp: persist_provider_sync_cursor_def bind_result_eq_Inr keeps_cursor)

end

interpretation store_kept: import_invariant store_ok X U for X U
  by unfold_locales
    (auto intro: upsert_capture_source_ok upsert_session_ok upsert_session_edge_ok upsert_run_ok
       insert_run_if_absent_ok upsert_event_ok insert_event_if_absent_ok upsert_file_touched_ok
       upsert_sync_cursor_ok)

text \<open>Nothing is lost: every id of every table stays.\<close>

definition rows_kept_from :: "db \<Rightarrow> db \<Rightarrow> bool" where
  "rows_kept_from d0 d \<longleftrightarrow>
     ids_grow d0 d \<and> set (edge_ids d0) \<subseteq> set (edge_ids d) \<and> set (file_ids d0) \<subseteq> set (file_ids d)
     \<and> set (cursor_ids d0) \<subseteq> set (cursor_ids d)"

lemma rows_kept_trans: "rows_kept_from a b \<Longrightarrow> rows_kept_from b c \<Longrightarrow> rows_kept_from a c"
  unfolding rows_kept_from_def ids_grow_def by (elim conjE, intro conjI) (erule (1) subset_trans)+

lemma upserted_ids:
  "keyed_rows key merge \<Longrightarrow> key ` set rows \<subseteq> key ` set (upsert_row key merge r rows)"
  by (simp add: keyed_rows.key_set_upsert subset_insertI)

lemmas kept_ids = upserted_ids [OF sources.keyed_rows_axioms] upserted_ids [OF sessions.keyed_rows_axioms]
  upserted_ids [OF edges.keyed_rows_axioms] upserted_ids [OF runs.keyed_rows_axioms]
  upserted_ids [OF events.keyed_rows_axioms] upserted_ids [OF files.keyed_rows_axioms]

lemma kept_updates:
  "rows_kept_from d d"
  "rows_kept_from d (d\<lparr>db_sources := upsert_row cs_id replace_source src (db_sources d)\<rparr>)"
  "rows_kept_from d (d\<lparr>db_sessions := upsert_row se_id merge_session se (db_sessions d)\<rparr>)"
  "rows_kept_from d (d\<lparr>db_edges := upsert_row sg_id merge_edge g (db_edges d)\<rparr>)"
  "rows_kept_from d (d\<lparr>db_runs := upsert_row rn_id merge_run r (db_runs d)\<rparr>)"
  "rows_kept_from d (d\<lparr>db_runs := db_runs d @ [r]\<rparr>)"
  "rows_kept_from d (d\<lparr>db_events := upsert_row ev_id replace_event e (db_events d), db_projection := T\<rparr>)"
  "rows_kept_from d (d\<lparr>db_events := db_events d @ [e], db_projection := T\<rparr>)"
  "rows_kept_from d (d\<lparr>db_files := upsert_row ft_id merge_file t (db_files d)\<rparr>)"
  "rows_kept_from d (d\<lparr>db_cursors := db_cursors d @ [c]\<rparr>)"
  by (auto simp: rows_kept_from_def ids_grow_def simp del: image_subset_iff
      intro: kept_ids [THEN subsetD])

lemma cursor_update_kept:
  "(\<And>c. sc_id (f c) = sc_id c) \<Longrightarrow> rows_kept_from d (d\<lparr>db_cursors := map f (db_cursors d)\<rparr>)"
  by (simp add: rows_kept_from_def ids_grow_def image_image)

lemma cursor_rows: "upsert_sync_cursor c d = Inr (i, d') \<Longrightarrow> rows_kept_from d d'"
  by (auto simp: upsert_sync_cursor_def Let_def guard_sql_eq_Inr
      intro!: kept_updates cursor_update_kept split: option.splits)

lemma write_event_rows: "write_event X U e d = Inr (i, d') \<Longrightarrow> rows_kept_from d d'"
  unfolding write_event_def Let_def guard_sql_eq_Inr bind_result_eq_Inr
  by (elim conjE exE) (auto simp: bind_result_eq_Inr intro!: kept_updates split: option.splits)

lemma one_write_keeps_rows:
  "upsert_capture_source src d = Inr d' \<Longrightarrow> rows_kept_from d d'"
  "upsert_session se d = Inr d' \<Longrightarrow> rows_kept_from d d'"
  "upsert_session_edge g d = Inr d' \<Longrightarrow> rows_kept_from d d'"
  "upsert_run r d = Inr d' \<Longrightarrow> rows_kept_from d d'"
  "insert_run_if_absent r d = Inr (b, d') \<Longrightarrow> rows_kept_from d d'"
  "upsert_event X U e d = Inr (i, d') \<Longrightarrow> rows_kept_from d d'"
  "insert_event_if_absent X U e d = Inr (b, d') \<Longrightarrow> rows_kept_from d d'"
  "upsert_file_touched t d = Inr d' \<Longrightarrow> rows_kept_from d d'"
  by (auto simp: upsert_capture_source_def upsert_session_def upsert_session_edge_def upsert_run_def
      insert_run_if_absent_def upsert_event_def insert_event_if_absent_def upsert_file_touched_def Let_def
      guard_sql_eq_Inr bind_result_eq_Inr intro: kept_updates write_event_rows split: if_splits option.splits)

interpretation rows_stay: import_invariant "rows_kept_from d0" X U for d0 X U
  by unfold_locales (rule rows_kept_trans, assumption, erule one_write_keeps_rows cursor_rows)+

section \<open>Rejected lines\<close>

lemma store_only_writes [store_error_intros]:
  "store_errors_only (write_db f)" "store_errors_only (write_db_value g)"
  "store_errors_only (update_caches h)"
  "store_errors_only (insert_processed_source i)" "store_errors_only (insert_processed_session i)"
  "store_errors_only (insert_imported_session i)" "store_errors_only (insert_processed_edge i)"
  "store_errors_only (insert_imported_edge i)"
  by (auto simp: store_errors_only_def write_db_def write_db_value_def update_caches_def modify_m_def
      insert_cached_def insert_processed_source_def insert_processed_session_def insert_imported_session_def
      insert_processed_edge_def insert_imported_edge_def Let_def split: sum.splits)

lemma store_only_exists [store_error_intros]: "store_errors_only (provider_session_exists_cached i)"
proof -
  have "store_errors_only (bind_m (read_db (provider_session_exists i))
      (\<lambda>b. bind_m (cache_session_exists i b) (\<lambda>_. return_m b)))"
    unfolding read_db_def cache_session_exists_def by (intro store_error_intros)
  then show ?thesis
    unfolding store_errors_only_def provider_session_exists_cached_def
    by (auto split: option.splits)
qed

lemma store_only_rows [store_error_intros]:
  "store_errors_only (import_source_row X capture n)" "store_errors_only (resolve_line_ids X capture)"
  "store_errors_only (import_session_row X capture opts n ids summary)"
  "store_errors_only (import_edge_row X capture n ids summary)"
  unfolding import_source_row_def resolve_line_ids_def import_session_row_def import_edge_row_def Let_def
    line_session_uuid_def optional_action_def existing_session_def read_db_def add_pending_edge_def
    cache_session_exists_def
  by (intro store_error_intros)+

lemma store_only_event_rows [store_error_intros]:
  "store_errors_only (insert_event_row X U r e)" "store_errors_only (upsert_event_row X U r e k)"
proof -
  show "store_errors_only (insert_event_row X U r e)"
    unfolding insert_event_row_def optional_run_def by (intro store_error_intros)
  have attempt: "store_errors_only (\<lambda>s. case upsert_event X U e (im_db s) of
         Inr (_, d) \<Rightarrow> (Inr (Some b), s\<lparr>im_db := d\<rparr>)
       | Inl (Sql QueryReturnedNoRows) \<Rightarrow> (Inr (Some b), s)
       | Inl (ProviderEventConflict _ _ _ _ _) \<Rightarrow> (Inr None, s)
       | Inl err \<Rightarrow> (Inl (CaptureStore err), s))" for b
    by (auto simp: store_errors_only_def split: sum.splits store_error.splits sql_error.splits)
  show "store_errors_only (upsert_event_row X U r e k)"
    unfolding upsert_event_row_def optional_run_def read_db_def by (intro store_error_intros attempt)
qed

lemma store_only_identity [store_error_intros]:
  "store_errors_only (resolve_event_identity X capture ids ev h)"
proof -
  have "store_errors_only (pi_identity_action p i entry)" for p i entry
    by (auto simp: store_errors_only_def pi_identity_action_def pi_existing_event_identity_by_entry_id_def
        split: prod.splits option.splits sum.splits if_splits)
  then show ?thesis
    unfolding resolve_event_identity_def Let_def read_db_def by (intro store_error_intros)
qed

text \<open>What was checked before the writes does not fail after them.\<close>

lemma command_run_after_check:
  assumes "check_capture X capture n = Inr ()" "pce_event capture = Some ev"
  shows "store_errors (command_run_of_line X capture opts ids ev h i)"
proof -
  obtain t where "provider_event_started_at X ev (pev_payload ev) = Inr t"
    using assms by (auto simp: check_capture_def validate_provider_event_for_import_def bind_result_eq_Inr split: if_splits)
  then show ?thesis
    by (simp add: command_run_of_line_def provider_command_run_from_event_def Let_def store_errors_def)
qed

section \<open>Lines that were imported before\<close>

text \<open>Before its event a line changes neither the events nor their aliases.\<close>

definition events_are :: "event list \<Rightarrow> (uuid \<times> uuid) list \<Rightarrow> db \<Rightarrow> bool" where
  "events_are E A d \<longleftrightarrow> db_events d = E \<and> db_event_aliases d = A"

interpretation same_events: import_frame "events_are E A" for E A
  by unfold_locales
    (auto simp: events_are_def upsert_capture_source_def upsert_session_def upsert_session_edge_def
      upsert_run_def insert_run_if_absent_def Let_def guard_sql_eq_Inr split: if_splits)

lemma same_events_step:
  assumes "\<And>E A. keeps (same_events.kept E A) m" "m s = (r, t)"
  shows "db_events (im_db t) = db_events (im_db s)" "db_event_aliases (im_db t) = db_event_aliases (im_db s)"
  using keepsD [OF assms(1), of "db_events (im_db s)" "db_event_aliases (im_db s)" s] assms(2)
  by (simp_all add: same_events.kept_def events_are_def)

lemma aliases_keyed_cong:
  "db_events d = db_events d' \<Longrightarrow> db_event_aliases d = db_event_aliases d' \<Longrightarrow> aliases_keyed d = aliases_keyed d'"
  by (simp add: aliases_keyed_def)

text \<open>The parts of a line: what it does before its event, and the fast insert of the event.\<close>

lemma line_parts:
  assumes "import_provider_capture_line X U capture opts n s = (Inr summary, t)" "pce_event capture = Some ev"
  obtains u ids summary' where "import_event_row X U capture opts n ids ev summary' u = (Inr summary, t)"
    "db_events (im_db u) = db_events (im_db s)" "db_event_aliases (im_db u) = db_event_aliases (im_db s)"
    "li_source_id ids = line_source_id X capture" "pis_imported_events summary' = 0"
    "pis_skipped_events summary' = 0"
proof -
  from assms obtain s1 s2 ids s3 m1 s4 m2 where steps:
    "import_source_row X capture n s = (Inr (), s1)" "resolve_line_ids X capture s1 = (Inr ids, s2)"
    "import_session_row X capture opts n ids empty_summary s2 = (Inr m1, s3)"
    "import_edge_row X capture n ids m1 s3 = (Inr m2, s4)"
    "import_event_row X U capture opts n ids ev m2 s4 = (Inr summary, t)"
    by (auto simp: import_provider_capture_line_def bind_m_Inr of_result_def)
  note frames = same_events_step [OF same_events.rows_kept(1) steps(1)]
    same_events_step [OF same_events.ids_kept steps(2)]
    same_events_step [OF same_events.rows_kept(2) steps(3)]
    same_events_step [OF same_events.rows_kept(3) steps(4)]
  have "li_source_id ids = line_source_id X capture"
    using steps(2) by (auto simp: resolve_line_ids_def Let_def bind_m_Inr)
  moreover have "pis_imported_events m1 = 0 \<and> pis_skipped_events m1 = 0"
    using steps(3)
    by (auto simp: import_session_row_def Let_def bind_m_Inr count_session_def empty_summary_def split: if_splits)
  then have "pis_imported_events m2 = 0 \<and> pis_skipped_events m2 = 0"
    using steps(4)
    by (auto simp: import_edge_row_def Let_def bind_m_Inr count_edge_def split: if_splits option.splits)
  ultimately show thesis using that steps(5) frames by simp
qed

text \<open>The index under which an event is known, apart from its place in the sequence.\<close>

definition identity_index :: "provider_event_envelope \<Rightarrow> u64" where
  "identity_index ev =
     unwrap_or (Option.bind (jget (pev_metadata ev) ''provider_event_identity_index'') as_u64)
       (pev_provider_event_index ev)"

lemma event_row_parts:
  assumes "import_event_row X U capture opts n ids ev m u = (Inr summary, t)"
    "opt_fast_event_inserts opts" "pce_provider capture \<noteq> CaptureProvider_Pi"
  obtains h0 h legacy allow i e b d where
    "compute_payload_hash X (pev_payload ev) = Some h0" "h = unwrap_or (pev_provider_event_hash ev) h0"
    "provider_event_import_identity X (pce_provider capture) (pse_provider_session_id (pce_session capture))
       (li_source_id ids) (identity_index ev) (pev_provider_event_index ev) h legacy allow d = Inr i"
    "db_events d = db_events (im_db u)" "db_event_aliases d = db_event_aliases (im_db u)"
    "has_identity i e" "insert_event_if_absent X U e d = Inr (b, im_db t)"
    "summary = count_accepted (count_event b m)"
proof -
  from assms(1) obtain h0 where h0: "compute_payload_hash X (pev_payload ev) = Some h0"
    by (auto simp: import_event_row_def bind_m_Inr of_result_def split: option.splits)
  let ?h = "unwrap_or (pev_provider_event_hash ev) h0"
  from assms(1,2) h0 obtain i s1 r present where
    i: "resolve_event_identity X capture ids ev ?h u = (Inr i, s1)" and
    row: "insert_event_row X U r (event_record X capture opts n ids ev ?h i r) s1 = (Inr present, t)" and
    summary: "summary = (case present of
        Some was_present \<Rightarrow> count_accepted (count_event (\<not> was_present) m)
      | None \<Rightarrow> count_accepted (count_event False m))"
    by (auto simp: import_event_row_def bind_m_Inr of_result_def Let_def)
  have "pi_identity_action (pce_provider capture) sid entry u = (Inr None, u)" for sid entry
    using assms(3) by (simp add: pi_identity_action_def pi_existing_event_identity_by_entry_id_def)
  with i assms(3) have
    resolved: "provider_event_import_identity X (pce_provider capture) (pse_provider_session_id (pce_session capture))
       (li_source_id ids) (identity_index ev) (pev_provider_event_index ev) ?h
       (Option.bind (jget (pev_metadata ev) ''legacy_provider_event_index'') as_u64)
       (li_session_id ids = provider_session_uuid (pce_provider capture) (pse_provider_session_id (pce_session capture)))
       (im_db u) = Inr i"
    and "s1 = u"
    by (auto simp: resolve_event_identity_def Let_def bind_m_Inr read_db_def read_m_def identity_index_def)
  from row obtain s2 b where
    runs: "optional_run (\<lambda>r. bind_m (write_db_value (insert_run_if_absent r)) (\<lambda>_. return_m ())) r s1 = (Inr (), s2)"
    and inserted: "write_db_value (insert_event_if_absent X U (event_record X capture opts n ids ev ?h i r)) s2 = (Inr b, t)"
    and "present = Some (\<not> b)"
    by (auto simp: insert_event_row_def bind_m_Inr)
  note frame = same_events_step [OF same_events.run_kept runs, unfolded \<open>s1 = u\<close>]
  have "insert_event_if_absent X U (event_record X capture opts n ids ev ?h i r) (im_db s2) = Inr (b, im_db t)"
    using inserted by (auto simp: write_db_value_def split: sum.splits)
  moreover have "has_identity i (event_record X capture opts n ids ev ?h i r)"
    by (simp add: has_identity_def event_record_def Let_def)
  moreover note resolved [folded identity_depends_on_events [OF frame]]
  ultimately show thesis
    using that [OF h0 refl] frame summary \<open>present = Some (\<not> b)\<close> by simp
qed

section \<open>A concrete line\<close>

definition demo_capture :: provider_capture_envelope where
  "demo_capture =
     \<lparr>pce_schema_version = 2, pce_provider = CaptureProvider_Claude,
      pce_source = \<lparr>pso_source_format = ''f'', pso_machine_id = ''m'', pso_observed_at = 5000000,
        pso_raw_source_path = None, pso_source_root = None, pso_trust = ProviderNative,
        pso_fidelity = Fidelity_Imported, pso_cursor = None, pso_idempotency_key = None, pso_metadata = JNull\<rparr>,
      pce_session = \<lparr>pse_provider_session_id = ''s'', pse_parent_provider_session_id = None,
        pse_root_provider_session_id = None, pse_external_agent_id = None, pse_agent_type = agent_type_default,
        pse_role_hint = None, pse_is_primary = True, pse_status = session_status_default,
        pse_started_at = 1000000, pse_ended_at = None, pse_cwd = None, pse_fidelity = Fidelity_Imported,
        pse_idempotency_key = None, pse_artifacts = [], pse_metadata = JNull\<rparr>,
      pce_event = Some
        \<lparr>pev_provider_event_index = 3, pev_provider_event_hash = Some ''h'', pev_cursor = Some ''9'',
         pev_event_type = EventType_Notice, pev_role = None, pev_occurred_at = 2000000,
         pev_fidelity = Fidelity_Imported, pev_idempotency_key = None, pev_artifacts = [],
         pev_payload = JNull, pev_metadata = JNull\<rparr>\<rparr>"

definition demo_options :: normalized_provider_import_options where
  "demo_options = \<lparr>opt_history_record_id = None, opt_persist_cursors = True, opt_wrap_transaction = True,
     opt_fast_event_inserts = True\<rparr>"

definition empty_state :: import_state where
  "empty_state = \<lparr>im_db = empty_db, im_caches = empty_caches\<rparr>"

abbreviation "demo_session_id \<equiv> provider_session_uuid CaptureProvider_Claude ''s''"
abbreviation "demo_source_id \<equiv> line_source_id demo_externals demo_capture"

lemma demo_fields:
  "pce_provider demo_capture = CaptureProvider_Claude"
  "pse_provider_session_id (pce_session demo_capture) = ''s''"
  "pse_parent_provider_session_id (pce_session demo_capture) = None"
  "pse_root_provider_session_id (pce_session demo_capture) = None"
  by (simp_all add: demo_capture_def)

lemma demo_no_identity: "line_source_identity demo_externals demo_capture = None"
  by (simp add: line_source_identity_def provider_source_identity_def provider_source_identity_component_def
      source_metadata_keys_def demo_capture_def)

definition demo_line_ids :: line_ids where
  "demo_line_ids =
     \<lparr>li_source_id = demo_source_id, li_source_identity = None, li_session_id = demo_session_id,
      li_parent_session_id = None, li_root_session_id = None, li_requested_parent = None,
      li_requested_root = None\<rparr>"

lemma demo_ids: "resolve_line_ids demo_externals demo_capture s = (Inr demo_line_ids, s)"
  by (simp add: resolve_line_ids_def Let_def line_session_uuid_def demo_no_identity read_db_def read_m_def
      provider_import_session_uuid_def optional_action_def existing_session_def bind_m_def return_m_def
      demo_line_ids_def demo_fields)

lemma demo_edge: "import_edge_row demo_externals demo_capture n demo_line_ids m s = (Inr m, s)"
  by (simp add: import_edge_row_def demo_line_ids_def return_m_def)

lemma demo_check: "check_capture demo_externals demo_capture n = Inr ()"
  by (simp add: check_capture_def supported_schema_version_def demo_capture_def
      PROVIDER_CAPTURE_ENVELOPE_MIN_SUPPORTED_SCHEMA_VERSION_def PROVIDER_CAPTURE_ENVELOPE_SCHEMA_VERSION_def
      validate_provider_event_for_import_def provider_event_started_at_def)

lemma visible_sync: "sync_check (provider_sync_metadata f m)" "sync_check (stored_sync (provider_sync_metadata f m))"
  by (simp_all add: sync_check_def provider_sync_metadata_def visibility_default_def sync_state_default_def
      stored_sync_def)

text \<open>The rows of the source and of the session, in a store that has neither sources nor sessions.\<close>

lemma first_source_row:
  "\<exists>s. import_source_row X capture n empty_state = (Inr (), s)
     \<and> db_sources (im_db s) = [stored_source (source_record X capture n)] \<and> db_sessions (im_db s) = []
     \<and> db_events (im_db s) = [] \<and> db_event_aliases (im_db s) = [] \<and> db_session_aliases (im_db s) = []
     \<and> line_source_id X capture \<in> ic_processed_sources (im_caches s) \<and> ic_processed_sessions (im_caches s) = {}
     \<and> ic_imported_sessions (im_caches s) = {} \<and> ic_session_exists (im_caches s) = (\<lambda>_. None)
     \<and> ic_pending_edges (im_caches s) = []"
proof -
  have row: "cs_id (source_record X capture n) = line_source_id X capture"
    "sync_check (cs_sync (source_record X capture n))"
    by (simp_all add: source_record_def Let_def visible_sync)
  then show ?thesis
    by (simp add: import_source_row_def insert_processed_source_def insert_cached_def Let_def bind_m_def
        empty_state_def empty_caches_def write_db_def upsert_capture_source_def guard_sql_def upsert_row_def
        empty_db_def stored_source_def)
qed

lemma first_session_row:
  assumes "source_ids (im_db s) = [li_source_id ids]" "db_sessions (im_db s) = []"
    "ic_processed_sessions (im_caches s) = {}" "ic_session_exists (im_caches s) = (\<lambda>_. None)"
    "ic_imported_sessions (im_caches s) = {}" "db_session_aliases (im_db s) = []"
    "li_parent_session_id ids = None" "li_root_session_id ids = None" "opt_history_record_id options = None"
  shows "\<exists>t. import_session_row X capture options n ids m s = (Inr (count_session True m), t)
      \<and> db_sessions (im_db t) = [stored_session (session_record X capture options n ids)]
      \<and> db_sources (im_db t) = db_sources (im_db s)
      \<and> db_events (im_db t) = db_events (im_db s) \<and> db_event_aliases (im_db t) = db_event_aliases (im_db s)
      \<and> ic_processed_sources (im_caches t) = ic_processed_sources (im_caches s)
      \<and> li_session_id ids \<in> ic_processed_sessions (im_caches t)
      \<and> ic_pending_edges (im_caches t) = ic_pending_edges (im_caches s)"
proof -
  let ?r = "session_record X capture options n ids"
  have row: "se_id ?r = li_session_id ids" "sync_check (se_sync (stored_session ?r))"
    by (simp_all add: session_record_def Let_def visible_sync stored_session_def)
  have refs: "se_history_record_id (stored_session ?r) = None" "se_parent_session_id (stored_session ?r) = None"
    "se_root_session_id (stored_session ?r) = None" "se_capture_source_id (stored_session ?r) = Some (li_source_id ids)"
    "se_transcript_blob_id (stored_session ?r) = None" "se_id (stored_session ?r) = li_session_id ids"
    using assms(7-9) by (simp_all add: session_record_def Let_def stored_session_def)
  have exists: "provider_session_exists (li_session_id ids) (im_db s) = Inr False"
    using assms(2,6) by (simp add: provider_session_exists_def get_session_def resolve_alias_def row_with_def)
  have "\<exists>d. upsert_session ?r (im_db s) = Inr d \<and> db_sessions d = [stored_session ?r]
      \<and> db_sources d = db_sources (im_db s) \<and> db_events d = db_events (im_db s)
      \<and> db_event_aliases d = db_event_aliases (im_db s)"
    using assms(1,2) row refs
    by (simp add: upsert_session_def Let_def identity_trigger_def session_index_conflict_def guard_sql_def
        session_refs_ok_def references_def upsert_row_def)
  then show ?thesis
    using assms(3,4,5) exists
    by (auto simp: import_session_row_def Let_def insert_processed_session_def insert_imported_session_def
        insert_cached_def bind_m_def provider_session_exists_cached_def read_db_def read_m_def write_db_def
        cache_session_exists_def update_caches_def modify_m_def return_m_def)
qed

lemma demo_source_row:
  "\<exists>s. import_source_row demo_externals demo_capture n empty_state = (Inr (), s)
     \<and> source_ids (im_db s) = [demo_source_id] \<and> db_sessions (im_db s) = [] \<and> db_events (im_db s) = []
     \<and> db_event_aliases (im_db s) = [] \<and> db_session_aliases (im_db s) = []
     \<and> demo_source_id \<in> ic_processed_sources (im_caches s) \<and> ic_processed_sessions (im_caches s) = {}
     \<and> ic_imported_sessions (im_caches s) = {} \<and> ic_session_exists (im_caches s) = (\<lambda>_. None)
     \<and> ic_pending_edges (im_caches s) = []"
  using first_source_row [of demo_externals demo_capture n]
  by (fastforce simp: stored_source_def source_record_def Let_def)

lemma demo_session_row:
  assumes "source_ids (im_db s) = [demo_source_id]" "db_sessions (im_db s) = []"
    "ic_processed_sessions (im_caches s) = {}" "ic_session_exists (im_caches s) = (\<lambda>_. None)"
    "ic_imported_sessions (im_caches s) = {}" "db_session_aliases (im_db s) = []"
  shows "\<exists>t. import_session_row demo_externals demo_capture demo_options n demo_line_ids m s
        = (Inr (count_session True m), t)
      \<and> session_ids (im_db t) = [demo_session_id] \<and> source_ids (im_db t) = source_ids (im_db s)
      \<and> db_events (im_db t) = db_events (im_db s) \<and> db_event_aliases (im_db t) = db_event_aliases (im_db s)
      \<and> ic_processed_sources (im_caches t) = ic_processed_sources (im_caches s)
      \<and> demo_session_id \<in> ic_processed_sessions (im_caches t)
      \<and> ic_pending_edges (im_caches t) = ic_pending_edges (im_caches s)"
proof -
  have ids: "li_source_id demo_line_ids = demo_source_id" "li_session_id demo_line_ids = demo_session_id"
    "li_parent_session_id demo_line_ids = None" "li_root_session_id demo_line_ids = None"
    "opt_history_record_id demo_options = None"
    by (simp_all add: demo_line_ids_def demo_options_def)
  from first_session_row [OF assms(1) [folded ids(1)] assms(2-6) ids(3-5), of demo_externals demo_capture n m]
  show ?thesis by (fastforce simp: ids stored_session_def session_record_def Let_def)
qed

text \<open>The event, in a store without events and in the store it leaves.\<close>

lemma no_conflict_with_itself:
  "set keys \<subseteq> {k} \<Longrightarrow> reject_provider_event_hash_conflict keys k = Inr ()"
  by (cases "parse_provider_event_dedupe_key k")
    (auto simp: reject_provider_event_hash_conflict_def Let_def conflict_from_rows conflicting_key_def)

definition demo_event_envelope :: provider_event_envelope where
  "demo_event_envelope = the (pce_event demo_capture)"

lemma demo_event_fields:
  "pce_event demo_capture = Some demo_event_envelope" "pev_event_type demo_event_envelope = EventType_Notice"
  "pev_payload demo_event_envelope = JNull" "pev_metadata demo_event_envelope = JNull"
  "pev_provider_event_hash demo_event_envelope = Some ''h''" "pev_provider_event_index demo_event_envelope = 3"
  by (simp_all add: demo_event_envelope_def demo_capture_def)

abbreviation "demo_record n i \<equiv>
  event_record demo_externals demo_capture demo_options n demo_line_ids demo_event_envelope ''h'' i None"

lemma demo_event_row:
  assumes "provider_event_import_identity demo_externals CaptureProvider_Claude ''s'' demo_source_id 3 3 ''h'' None True
      (im_db s) = Inr i"
    "insert_event_if_absent demo_externals demo_unicode (demo_record n i) (im_db s) = Inr (b, d)"
  shows "\<exists>t. import_event_row demo_externals demo_unicode demo_capture demo_options n demo_line_ids
      demo_event_envelope m s = (Inr (count_accepted (count_event b m)), t) \<and> im_db t = d
    \<and> ic_processed_sources (im_caches t) = ic_processed_sources (im_caches s)
    \<and> ic_processed_sessions (im_caches t) = ic_processed_sessions (im_caches s)
    \<and> ic_pending_edges (im_caches t) = ic_pending_edges (im_caches s)"
proof -
  have pi: "pi_identity_action CaptureProvider_Claude session_id entry s = (Inr None, s)" for session_id entry
    by (simp add: pi_identity_action_def pi_existing_event_identity_by_entry_id_def)
  have run: "command_run_of_line demo_externals demo_capture demo_options demo_line_ids demo_event_envelope ''h'' i = Inr None"
    by (simp add: command_run_of_line_def provider_command_run_from_event_def Let_def demo_event_fields)
  have identity: "resolve_event_identity demo_externals demo_capture demo_line_ids demo_event_envelope ''h'' s = (Inr i, s)"
    using assms(1) pi
    by (simp add: resolve_event_identity_def Let_def bind_m_def read_db_def read_m_def demo_event_fields
        demo_fields demo_line_ids_def)
  have hash: "\<exists>h. compute_payload_hash demo_externals JNull = Some h"
    by (simp add: compute_payload_hash_def demo_externals_def)
  show ?thesis
    using hash assms(2)
    by (auto simp: import_event_row_def bind_m_def of_result_def demo_event_fields identity run Let_def
        demo_options_def [THEN arg_cong [where f = opt_fast_event_inserts], simplified]
        insert_event_row_def optional_run_def return_m_def write_db_value_def)
qed

lemma demo_first_event:
  assumes "source_ids d = [demo_source_id]" "session_ids d = [demo_session_id]" "db_events d = []"
  shows "\<exists>d'. insert_event_if_absent demo_externals demo_unicode (demo_record n i) d = Inr (True, d')
    \<and> db_events d' = [stored_event (demo_record n i)] \<and> db_event_aliases d' = db_event_aliases d"
proof -
  let ?e = "stored_event (demo_record n i)"
  have row: "sync_check (ev_sync ?e)" "ev_history_record_id ?e = None" "ev_session_id ?e = Some demo_session_id"
    "ev_run_id ?e = None" "ev_capture_source_id ?e = Some demo_source_id" "ev_payload_blob_id ?e = None"
    by (simp_all add: event_record_def Let_def stored_event_def visible_sync demo_options_def demo_line_ids_def)
  have "ev_event_type (demo_record n i) = EventType_Notice" by (simp add: event_record_def Let_def demo_event_fields)
  then obtain T where "insert_event_search_projection_for_event demo_externals demo_unicode (demo_record n i)
      (db_projection (d\<lparr>db_events := db_events d @ [?e]\<rparr>)) = Inr T"
    using notice_projected by blast
  moreover have "demo_session_id \<in> se_id ` set (db_sessions d)" "demo_source_id \<in> cs_id ` set (db_sources d)"
    using assms(1,2) by (metis list.set_intros(1) list.set_map)+
  ultimately show ?thesis
    using assms(3) row
    by (simp add: insert_event_if_absent_def Let_def event_insert_ignored_def event_unique_conflict_def
        guard_sql_def event_refs_ok_def references_def)
qed

lemma demo_two_imports:
  "\<exists>m t m' t'. import_provider_capture_line demo_externals demo_unicode demo_capture demo_options 4 empty_state = (Inr m, t)
     \<and> pis_imported_events m = 1
     \<and> import_provider_capture_line demo_externals demo_unicode demo_capture demo_options 7 t = (Inr m', t')
     \<and> length (db_events (im_db t)) = 1 \<and> ic_pending_edges (im_caches t) = [] \<and> pis_failed m = 0"
proof -
  obtain s1 where s1: "import_source_row demo_externals demo_capture 4 empty_state = (Inr (), s1)"
    "source_ids (im_db s1) = [demo_source_id]" "db_sessions (im_db s1) = []" "db_events (im_db s1) = []"
    "db_event_aliases (im_db s1) = []" "db_session_aliases (im_db s1) = []"
    "demo_source_id \<in> ic_processed_sources (im_caches s1)" "ic_processed_sessions (im_caches s1) = {}"
    "ic_imported_sessions (im_caches s1) = {}" "ic_session_exists (im_caches s1) = (\<lambda>_. None)"
    "ic_pending_edges (im_caches s1) = []"
    using demo_source_row by metis
  obtain s2 where s2: "import_session_row demo_externals demo_capture demo_options 4 demo_line_ids empty_summary s1
        = (Inr (count_session True empty_summary), s2)" "session_ids (im_db s2) = [demo_session_id]"
    "source_ids (im_db s2) = [demo_source_id]" "db_events (im_db s2) = []" "db_event_aliases (im_db s2) = []"
    "demo_source_id \<in> ic_processed_sources (im_caches s2)" "demo_session_id \<in> ic_processed_sessions (im_caches s2)"
    "ic_pending_edges (im_caches s2) = []"
    using demo_session_row [OF s1(2,3,8,10,9,6), of 4 empty_summary] s1 by metis
  let ?i = "provider_source_event_import_identity_with_seq demo_externals demo_source_id 3 3 ''h''"
  have resolved: "provider_event_import_identity demo_externals CaptureProvider_Claude ''s'' demo_source_id 3 3 ''h'' None
      True (im_db s2) = Inr ?i"
    using identity_depends_on_events [of "im_db s2" empty_db] resolve_in_empty s2(4,5) by (simp add: empty_db_def)
  obtain d where d: "insert_event_if_absent demo_externals demo_unicode (demo_record 4 ?i) (im_db s2) = Inr (True, d)"
    "db_events d = [stored_event (demo_record 4 ?i)]" "db_event_aliases d = []"
    using demo_first_event [OF s2(3,2,4)] s2(5) by metis
  obtain t where t: "import_event_row demo_externals demo_unicode demo_capture demo_options 4 demo_line_ids
      demo_event_envelope (count_session True empty_summary) s2
      = (Inr (count_accepted (count_event True (count_session True empty_summary))), t)"
    "im_db t = d" "demo_source_id \<in> ic_processed_sources (im_caches t)"
    "demo_session_id \<in> ic_processed_sessions (im_caches t)" "ic_pending_edges (im_caches t) = []"
    using demo_event_row [OF resolved d(1)] s2(6,7,8) by metis
  have first: "import_provider_capture_line demo_externals demo_unicode demo_capture demo_options 4 empty_state
      = (Inr (count_accepted (count_event True (count_session True empty_summary))), t)"
    by (simp add: import_provider_capture_line_def demo_check s1(1) demo_ids s2(1) demo_edge t(1) bind_m_def
        of_result_def demo_event_fields)
  have keyed: "aliases_keyed (im_db s2)" by (simp add: aliases_keyed_def s2(5))
  have has: "has_identity ?i (demo_record k ?i)" for k by (simp add: has_identity_def event_record_def Let_def)
  have ext: "extends_events d d" by (simp add: extends_events_def)
  note found = stored_identity_found [OF keyed resolved has d(1) ext]
  have "insert_event_if_absent demo_externals demo_unicode (demo_record 7 ?i) d = Inr (False, d)"
    using found(2) [OF has, of 7] no_conflict_with_itself [of "dedupe_keys d" "ei_dedupe_key ?i"] d(2) has
    by (simp add: insert_event_if_absent_def Let_def has_identity_def dedupe_keys_def List.map_filter_def)
  then obtain t' where t': "import_event_row demo_externals demo_unicode demo_capture demo_options 7 demo_line_ids
      demo_event_envelope empty_summary t = (Inr (count_accepted (count_event False empty_summary)), t')"
    using demo_event_row [of t ?i 7 False d empty_summary] found(1) t(2) by metis
  have "import_source_row demo_externals demo_capture 7 t = (Inr (), t\<lparr>im_caches := im_caches t\<rparr>)"
    "import_session_row demo_externals demo_capture demo_options 7 demo_line_ids empty_summary t
      = (Inr empty_summary, t\<lparr>im_caches := im_caches t\<rparr>)"
    using t(3,4)
    by (simp_all add: import_source_row_def insert_processed_source_def insert_cached_def Let_def bind_m_def
        insert_absorb import_session_row_def insert_processed_session_def demo_line_ids_def return_m_def)
  then have "import_provider_capture_line demo_externals demo_unicode demo_capture demo_options 7 t
      = (Inr (count_accepted (count_event False empty_summary)), t')"
    by (simp add: import_provider_capture_line_def demo_check demo_ids demo_edge t' bind_m_def of_result_def
        demo_event_fields)
  with first d(2) t(2,5) show ?thesis
    by (simp add: count_accepted_def count_event_def count_session_def empty_summary_def)
qed

section \<open>Properties\<close>

text \<open>A line that is rejected (its error is not one of the store) has changed nothing, neither the
  database nor the caches of the run: everything that can be rejected is checked before the first
  write. The hypothesis is that a JSON value can be serialised.\<close>

theorem rejected_line_changes_nothing:
  assumes "\<forall>v. json_text X v \<noteq> None"
    "import_provider_capture_line X U capture opts n s = (Inl e, t)" "\<forall>se. e \<noteq> CaptureStore se"
  shows "t = s"
proof (cases "check_capture X capture n")
  case (Inl e')
  with assms(2) show ?thesis by (simp add: import_provider_capture_line_def bind_m_def of_result_def)
next
  case (Inr _)
  then have ok: "check_capture X capture n = Inr ()" by simp
  have hashed: "store_errors (case compute_payload_hash X v of None \<Rightarrow> Inl CaptureJson | Some h \<Rightarrow> Inr (f h))" for v f
    using assms(1) by (auto simp: compute_payload_hash_def store_errors_def split: option.splits)
  have event: "store_errors_only (import_event_row X U capture opts n ids ev m)" if "pce_event capture = Some ev" for ids ev m
    unfolding import_event_row_def Let_def
    by (intro store_error_intros hashed command_run_after_check [OF ok that])
  have "store_errors_only (import_provider_capture_line X U capture opts n)"
    unfolding import_provider_capture_line_def
    by (cases "pce_event capture") (auto simp: ok intro!: store_error_intros event)
  with assms(2,3) show ?thesis unfolding store_errors_only_def by blast
qed

theorem rejected_line_changes_nothing_witness:
  "\<exists>e. import_provider_capture_line demo_externals demo_unicode (demo_capture\<lparr>pce_schema_version := 9\<rparr>)
      demo_options 1 empty_state = (Inl e, empty_state)"
proof -
  have total: "\<forall>v. json_text demo_externals v \<noteq> None"
    by (simp add: demo_externals_def split: json.split)
  obtain msg where "check_capture demo_externals (demo_capture\<lparr>pce_schema_version := 9\<rparr>) 1 = Inl (CaptureInvalidPayload msg)"
    by (simp add: check_capture_def supported_schema_version_def
        PROVIDER_CAPTURE_ENVELOPE_MIN_SUPPORTED_SCHEMA_VERSION_def PROVIDER_CAPTURE_ENVELOPE_SCHEMA_VERSION_def)
  then obtain t where "import_provider_capture_line demo_externals demo_unicode (demo_capture\<lparr>pce_schema_version := 9\<rparr>)
      demo_options 1 empty_state = (Inl (CaptureInvalidPayload msg), t)"
    by (simp add: import_provider_capture_line_def bind_m_def of_result_def)
  with rejected_line_changes_nothing [OF total this] show ?thesis by auto
qed

text \<open>C16: A line whose event was imported is skipped by every later import that uses fast inserts: in a
  state that has only added events and kept the aliases, importing the line again, under whatever line
  number, options and caches, adds no event and counts it as skipped. Pi, which looks events up by
  entry id, is left out.\<close>

theorem imported_line_is_skipped:
  assumes "aliases_keyed (im_db s)" "pce_provider capture \<noteq> CaptureProvider_Pi" "pce_event capture = Some ev"
    "opt_fast_event_inserts opts" "opt_fast_event_inserts opts'"
    "import_provider_capture_line X U capture opts n s = (Inr first, t)" "pis_imported_events first = 1"
    "extends_events (im_db t) (im_db s')"
    "import_provider_capture_line X U capture opts' n' s' = (Inr second, t')"
  shows "db_events (im_db t') = db_events (im_db s') \<and> pis_imported_events second = 0
    \<and> pis_skipped_events second = 1"
proof -
  obtain u ids m where u: "import_event_row X U capture opts n ids ev m u = (Inr first, t)"
    "db_events (im_db u) = db_events (im_db s)" "db_event_aliases (im_db u) = db_event_aliases (im_db s)"
    "li_source_id ids = line_source_id X capture" "pis_imported_events m = 0" "pis_skipped_events m = 0"
    by (rule line_parts [OF assms(6,3)])
  obtain u' ids' m' where u': "import_event_row X U capture opts' n' ids' ev m' u' = (Inr second, t')"
    "db_events (im_db u') = db_events (im_db s')" "db_event_aliases (im_db u') = db_event_aliases (im_db s')"
    "li_source_id ids' = line_source_id X capture" "pis_imported_events m' = 0" "pis_skipped_events m' = 0"
    by (rule line_parts [OF assms(9,3)])
  show ?thesis
  proof (rule event_row_parts [OF u(1) assms(4,2)], rule event_row_parts [OF u'(1) assms(5,2)])
    fix h0 h legacy allow i e b d h0' h' legacy' allow' i' e' b' d'
    assume one: "compute_payload_hash X (pev_payload ev) = Some h0" "h = unwrap_or (pev_provider_event_hash ev) h0"
      "provider_event_import_identity X (pce_provider capture) (pse_provider_session_id (pce_session capture))
         (li_source_id ids) (identity_index ev) (pev_provider_event_index ev) h legacy allow d = Inr i"
      "db_events d = db_events (im_db u)" "db_event_aliases d = db_event_aliases (im_db u)"
      "has_identity i e" "insert_event_if_absent X U e d = Inr (b, im_db t)"
      "first = count_accepted (count_event b m)"
    assume two: "compute_payload_hash X (pev_payload ev) = Some h0'" "h' = unwrap_or (pev_provider_event_hash ev) h0'"
      "provider_event_import_identity X (pce_provider capture) (pse_provider_session_id (pce_session capture))
         (li_source_id ids') (identity_index ev) (pev_provider_event_index ev) h' legacy' allow' d' = Inr i'"
      "db_events d' = db_events (im_db u')" "db_event_aliases d' = db_event_aliases (im_db u')"
      "has_identity i' e'" "insert_event_if_absent X U e' d' = Inr (b', im_db t')"
      "second = count_accepted (count_event b' m')"
    have "b" using one(8) assms(7) u(5) by (auto simp: count_accepted_def count_event_def split: if_splits)
    have keyed: "aliases_keyed d" using assms(1) one(4,5) u(2,3) aliases_keyed_cong [of d "im_db s"] by simp
    have ext: "extends_events (im_db t) d'" using assms(8) two(4,5) u'(2,3) by (simp add: extends_events_def)
    note found = stored_identity_found [OF keyed one(3,6) one(7) [unfolded eqTrueI [OF \<open>b\<close>]] ext]
    have "i' = i" using found(1) [of "pce_provider capture" "pse_provider_session_id (pce_session capture)" legacy' allow']
        two(1,2,3) one(1,2) u(4) u'(4) by simp
    with two(6) have "event_insert_ignored d' (stored_event e')" using found(2) by blast
    with two(7) have "\<not> b'" "im_db t' = d'"
      by (auto simp: insert_event_if_absent_def bind_result_eq_Inr split: option.splits)
    then show ?thesis
      using two(4,8) u'(2,5,6) by (simp add: count_accepted_def count_event_def)
  qed
qed

theorem imported_line_is_skipped_witness:
  "\<exists>t m' t'. length (db_events (im_db t)) = 1
     \<and> import_provider_capture_line demo_externals demo_unicode demo_capture demo_options 7 t = (Inr m', t')
     \<and> db_events (im_db t') = db_events (im_db t) \<and> pis_skipped_events m' = 1"
proof -
  obtain m t m' t' where runs:
    "import_provider_capture_line demo_externals demo_unicode demo_capture demo_options 4 empty_state = (Inr m, t)"
    "pis_imported_events m = 1"
    "import_provider_capture_line demo_externals demo_unicode demo_capture demo_options 7 t = (Inr m', t')"
    "length (db_events (im_db t)) = 1"
    using demo_two_imports by blast
  have "aliases_keyed (im_db empty_state)" by (simp add: aliases_keyed_def empty_state_def empty_db_def)
  moreover have "pce_provider demo_capture \<noteq> CaptureProvider_Pi" by (simp add: demo_fields)
  moreover have "extends_events (im_db t) (im_db t)" by (simp add: extends_events_def)
  moreover have "opt_fast_event_inserts demo_options" by (simp add: demo_options_def)
  ultimately show ?thesis
    using imported_line_is_skipped [OF _ _ demo_event_fields(1) _ _ runs(1,2) _ runs(3)] runs(3,4) by blast
qed

end
