(* ===== verification/Import_Transaction.thy ===== *)
theory Import_Transaction
  imports Provider_Import "HOL-Library.AList"
begin

text \<open>
  The transactions of an import (\<open>provider/importer/batches.rs\<close>): the lines of a source, the edges that
  had to wait, the touched files and at last the cursors are written unit by unit; a transaction is
  committed, the write-ahead log truncated and a new one begun after 64 units or 8 MiB. Every call to
  the connection can fail, as a list of outcomes says. The claims are that what is committed is always
  the state after some whole unit, and that a cursor is committed only with everything before it.
\<close>

section \<open>The connection\<close>

text \<open>The outcome of \<open>BEGIN IMMEDIATE\<close>, \<open>COMMIT\<close>, the checkpoint, or a change of the bulk search mode: it
  works, it fails and leaves the transaction as it is, or it fails and the engine has rolled back.
  When the list is used up, calls work. A busy checkpoint is one that fails; \<open>ROLLBACK\<close> works.
  The statements of a unit fail for reasons in the tables only; that the disk refuses one of them is not modelled.\<close>

datatype call_outcome = CallOk | CallFailed store_error | CallAborted store_error

record import_transaction =
  tx_active :: bool
  tx_batch_size :: "nat option"
  tx_units :: nat
  tx_bytes :: nat

text \<open>What the connection sees is the database of the import state; what a crash would leave is
  \<open>bs_committed\<close>.\<close>

record batch_state =
  bs_import :: import_state
  bs_committed :: db
  bs_in_transaction :: bool
  bs_outcomes :: "call_outcome list"

type_synonym 'a batch_action = "(import_transaction \<times> batch_state, 'a) action"

definition set_view :: "db \<Rightarrow> batch_state \<Rightarrow> batch_state" where
  "set_view d b = b\<lparr>bs_import := (bs_import b)\<lparr>im_db := d\<rparr>\<rparr>"

definition roll_back :: "batch_state \<Rightarrow> batch_state" where
  "roll_back b = (set_view (bs_committed b) b)\<lparr>bs_in_transaction := False\<rparr>"

definition next_outcome :: "batch_state \<Rightarrow> call_outcome \<times> batch_state" where
  "next_outcome b =
     (case bs_outcomes b of [] \<Rightarrow> (CallOk, b) | c # cs \<Rightarrow> (c, b\<lparr>bs_outcomes := cs\<rparr>))"

definition connection_call :: "(batch_state \<Rightarrow> batch_state) \<Rightarrow> batch_state \<Rightarrow> (store_error + unit) \<times> batch_state" where
  "connection_call effect b =
     (case next_outcome b of
        (CallOk, b') \<Rightarrow> (Inr (), effect b')
      | (CallFailed e, b') \<Rightarrow> (Inl e, b')
      | (CallAborted e, b') \<Rightarrow> (Inl e, if bs_in_transaction b' then roll_back b' else b'))"

definition begin_immediate_batch :: "batch_state \<Rightarrow> (store_error + unit) \<times> batch_state" where
  "begin_immediate_batch b =
     (if bs_in_transaction b
      then (Inl (Sql (SqlFailure ''cannot start a transaction within a transaction'')), b)
      else connection_call (\<lambda>b. b\<lparr>bs_in_transaction := True\<rparr>) b)"

definition commit_batch :: "batch_state \<Rightarrow> (store_error + unit) \<times> batch_state" where
  "commit_batch b =
     (if \<not> bs_in_transaction b
      then (Inl (Sql (SqlFailure ''cannot commit - no transaction is active'')), b)
      else connection_call (\<lambda>b. b\<lparr>bs_committed := im_db (bs_import b), bs_in_transaction := False\<rparr>) b)"

definition checkpoint_wal_truncate_required :: "batch_state \<Rightarrow> (store_error + unit) \<times> batch_state" where
  "checkpoint_wal_truncate_required b = connection_call (\<lambda>b. b) b"

definition rollback_batch :: "batch_state \<Rightarrow> batch_state" where
  "rollback_batch b = (if bs_in_transaction b then roll_back b else b)"

section \<open>The transaction of an import\<close>

definition IMPORT_TRANSACTION_BATCH_BYTES :: nat where
  "IMPORT_TRANSACTION_BATCH_BYTES = 8 * 1024 * 1024"

definition IMPORT_TRANSACTION_BATCH_UNITS :: nat where
  "IMPORT_TRANSACTION_BATCH_UNITS = 64"

definition provider_transaction_batch_size :: "nat option" where
  "provider_transaction_batch_size =
     (if IMPORT_TRANSACTION_BATCH_UNITS = 0 then None else Some IMPORT_TRANSACTION_BATCH_UNITS)"

definition on_connection :: "(batch_state \<Rightarrow> (store_error + unit) \<times> batch_state) \<Rightarrow> unit batch_action" where
  "on_connection f = (\<lambda>(t, b). case f b of (r, b') \<Rightarrow> (from_store r, (t, b')))"

definition set_transaction :: "(import_transaction \<Rightarrow> import_transaction) \<Rightarrow> unit batch_action" where
  "set_transaction f = (\<lambda>(t, b). (Inr (), (f t, b)))"

definition begin_transaction ::
    "bool \<Rightarrow> nat option \<Rightarrow> batch_state \<Rightarrow> (capture_error + import_transaction) \<times> batch_state" where
  "begin_transaction has_work batch_size b =
     (let t = \<lparr>tx_active = has_work, tx_batch_size = batch_size, tx_units = 0, tx_bytes = 0\<rparr>
      in if has_work
         then case begin_immediate_batch b of
             (Inl e, b') \<Rightarrow> (Inl (CaptureStore e), b')
           | (Inr _, b') \<Rightarrow> (Inr t, b')
         else (Inr t, b))"

definition rollback :: "import_transaction \<times> batch_state \<Rightarrow> import_transaction \<times> batch_state" where
  "rollback = (\<lambda>(t, b). if tx_active t then (t\<lparr>tx_active := False\<rparr>, rollback_batch b) else (t, b))"

text \<open>An action whose error is followed by a rollback.\<close>

definition or_rollback :: "'a batch_action \<Rightarrow> 'a batch_action" where
  "or_rollback m x = (case m x of (Inl e, y) \<Rightarrow> (Inl e, rollback y) | (Inr v, y) \<Rightarrow> (Inr v, y))"

definition rotate :: "unit batch_action" where
  "rotate =
     bind_m (on_connection commit_batch) (\<lambda>_.
     bind_m (set_transaction (\<lambda>t. t\<lparr>tx_active := False\<rparr>)) (\<lambda>_.
     bind_m (on_connection checkpoint_wal_truncate_required) (\<lambda>_.
     bind_m (on_connection begin_immediate_batch) (\<lambda>_.
     set_transaction (\<lambda>t. t\<lparr>tx_active := True, tx_units := 0, tx_bytes := 0\<rparr>)))))"

definition prepare_unit :: "nat \<Rightarrow> unit batch_action" where
  "prepare_unit unit_bytes =
     or_rollback (\<lambda>(t, b).
       if tx_active t \<and> tx_batch_size t \<noteq> None \<and> tx_units t > 0
          \<and> sat_add (tx_bytes t) unit_bytes > IMPORT_TRANSACTION_BATCH_BYTES
       then rotate (t, b) else (Inr (), (t, b)))"

definition record_unit :: "nat \<Rightarrow> unit batch_action" where
  "record_unit unit_bytes = (\<lambda>(t, b).
     if \<not> tx_active t then (Inr (), (t, b))
     else
       let t = t\<lparr>tx_units := sat_add (tx_units t) 1, tx_bytes := sat_add (tx_bytes t) unit_bytes\<rparr>;
           below_unit_limit = (case tx_batch_size t of None \<Rightarrow> True | Some n \<Rightarrow> tx_units t < n);
           below_byte_limit = (tx_batch_size t = None \<or> tx_bytes t < IMPORT_TRANSACTION_BATCH_BYTES)
       in if below_unit_limit \<and> below_byte_limit then (Inr (), (t, b)) else or_rollback rotate (t, b))"

definition commit_transaction :: "unit batch_action" where
  "commit_transaction = (\<lambda>(t, b).
     case (if tx_active t then on_connection commit_batch (t, b) else (Inr (), (t, b))) of
       (Inr _, (t', b')) \<Rightarrow> (Inr (), (t'\<lparr>tx_active := False\<rparr>, b'))
     | (Inl e, y) \<Rightarrow> (Inl e, rollback y))"

section \<open>Units\<close>

text \<open>A unit is its serialized length, where it can be serialized, and what it does: it gives the new
  summary or the error that ends the run. Outside a transaction a statement commits itself.\<close>

record import_unit =
  un_bytes :: "nat option"
  un_run :: "provider_import_summary \<Rightarrow> provider_import_summary import_action"

definition run_on_view :: "'a import_action \<Rightarrow> 'a batch_action" where
  "run_on_view f = (\<lambda>(t, b).
     case f (bs_import b) of
       (r, s) \<Rightarrow>
         (r, (t, let b' = b\<lparr>bs_import := s\<rparr>
            in if bs_in_transaction b then b' else b'\<lparr>bs_committed := im_db s\<rparr>)))"

fun run_units :: "import_unit list \<Rightarrow> provider_import_summary \<Rightarrow> provider_import_summary batch_action" where
  "run_units [] summary = return_m summary"
| "run_units (u # us) summary =
     bind_m (or_rollback (of_result (case un_bytes u of None \<Rightarrow> Inl CaptureJson | Some n \<Rightarrow> Inr n)))
       (\<lambda>unit_bytes.
     bind_m (prepare_unit unit_bytes) (\<lambda>_.
     bind_m (or_rollback (run_on_view (un_run u summary))) (\<lambda>summary'.
     bind_m (record_unit unit_bytes) (\<lambda>_. run_units us summary'))))"

text \<open>Errors of a line that are not the store's are counted and the run goes on.\<close>

definition count_failure ::
    "(capture_error \<Rightarrow> string) \<Rightarrow> nat \<Rightarrow> provider_import_summary \<Rightarrow> 'a import_action
     \<Rightarrow> ('a \<Rightarrow> provider_import_summary) \<Rightarrow> provider_import_summary import_action" where
  "count_failure W line_number summary f ok s =
     (case f s of
        (Inr x, t) \<Rightarrow> (Inr (ok x), t)
      | (Inl (CaptureStore e), t) \<Rightarrow> (Inl (CaptureStore e), t)
      | (Inl e, t) \<Rightarrow>
          (Inr (add_failure \<lparr>pif_line = line_number, pif_error = capture_error_text W e\<rparr> summary), t))"

record serialized_lengths =
  len_capture :: "provider_capture_envelope \<Rightarrow> nat option"
  len_file :: "provider_file_touched_envelope \<Rightarrow> nat option"
  len_cursor :: "sync_cursor \<Rightarrow> nat option"

definition line_unit ::
    "externals \<Rightarrow> unicode \<Rightarrow> (capture_error \<Rightarrow> string) \<Rightarrow> serialized_lengths
     \<Rightarrow> normalized_provider_import_options \<Rightarrow> nat \<times> provider_capture_envelope \<Rightarrow> import_unit" where
  "line_unit X U W L options = (\<lambda>(line_number, capture).
     \<lparr>un_bytes = len_capture L capture,
      un_run = (\<lambda>summary. count_failure W line_number summary
        (import_provider_capture_line X U capture options line_number) (merge_from summary))\<rparr>)"

definition file_unit ::
    "externals \<Rightarrow> (capture_error \<Rightarrow> string) \<Rightarrow> serialized_lengths
     \<Rightarrow> normalized_provider_import_options \<Rightarrow> nat \<times> provider_file_touched_envelope \<Rightarrow> import_unit" where
  "file_unit X W L options = (\<lambda>(line_number, t).
     \<lparr>un_bytes = len_file L t,
      un_run = (\<lambda>summary. count_failure W line_number summary
        (import_provider_file_touched_line X t options) (\<lambda>_. count_accepted summary))\<rparr>)"

definition pending_edge_estimated_len :: "pending_edge \<Rightarrow> nat" where
  "pending_edge_estimated_len e =
     sat_add
       (sat_add
         (sat_add (length (pe_provider_session_id e))
           (case pe_parent_provider_session_id e of None \<Rightarrow> 0 | Some p \<Rightarrow> length p))
         (length (pe_source_format e)))
       256"

definition edge_unit :: "externals \<Rightarrow> uuid \<times> pending_edge \<Rightarrow> import_unit" where
  "edge_unit X = (\<lambda>(edge_id, edge).
     \<lparr>un_bytes = Some (pending_edge_estimated_len edge),
      un_run = (\<lambda>summary. resolve_pending_provider_edge X summary edge_id edge)\<rparr>)"

definition cursor_unit :: "serialized_lengths \<Rightarrow> sync_cursor \<Rightarrow> import_unit" where
  "cursor_unit L cursor =
     \<lparr>un_bytes = len_cursor L cursor,
      un_run = (\<lambda>summary s.
        case persist_provider_sync_cursor cursor (im_db s) of
          Inl e \<Rightarrow> (Inl e, s)
        | Inr d \<Rightarrow> (Inr summary, s\<lparr>im_db := d\<rparr>))\<rparr>"

section \<open>The run\<close>

text \<open>\<open>std::mem::take\<close> of the pending edges, in the order of their ids.\<close>

definition take_pending_edges :: "(uuid \<times> pending_edge) list batch_action" where
  "take_pending_edges = (\<lambda>(t, b).
     (Inr (sort_key fst (ic_pending_edges (im_caches (bs_import b)))),
      (t, b\<lparr>bs_import := (bs_import b)\<lparr>im_caches := (im_caches (bs_import b))\<lparr>ic_pending_edges := []\<rparr>\<rparr>\<rparr>)))"

text \<open>A map by id: of two cursors with one id the later stays.\<close>

definition pending_cursors ::
    "externals \<Rightarrow> normalized_provider_import_options \<Rightarrow> provider_import_summary
     \<Rightarrow> (nat \<times> provider_capture_envelope) list \<Rightarrow> sync_cursor list" where
  "pending_cursors X options summary captures =
     (if opt_persist_cursors options \<and> pis_failed summary = 0
      then map snd (sort_key fst (AList.clearjunk (rev
        (map (\<lambda>c. (sc_id c, c)) (List.map_filter (\<lambda>(_, c). provider_sync_cursor X c) captures)))))
      else [])"

definition resolve_pending_provider_edges_batched ::
    "externals \<Rightarrow> provider_import_summary \<Rightarrow> provider_import_summary batch_action" where
  "resolve_pending_provider_edges_batched X summary =
     bind_m take_pending_edges (\<lambda>pending. run_units (map (edge_unit X) pending) summary)"

definition persist_provider_capture_lines ::
    "externals \<Rightarrow> unicode \<Rightarrow> (capture_error \<Rightarrow> string) \<Rightarrow> serialized_lengths
     \<Rightarrow> normalized_provider_import_options \<Rightarrow> provider_import_summary
     \<Rightarrow> (nat \<times> provider_capture_envelope) list \<Rightarrow> (nat \<times> provider_file_touched_envelope) list
     \<Rightarrow> bool \<Rightarrow> nat option \<Rightarrow> batch_state \<Rightarrow> (capture_error + provider_import_summary) \<times> batch_state" where
  "persist_provider_capture_lines X U W L options summary captures files has_captures batch_size b =
     (let cursors = pending_cursors X options summary captures
      in case begin_transaction (has_captures \<and> opt_wrap_transaction options) batch_size b of
           (Inl e, b') \<Rightarrow> (Inl e, b')
         | (Inr t, b') \<Rightarrow>
             (case
                bind_m (run_units (map (line_unit X U W L options) captures) summary) (\<lambda>s1.
                bind_m (resolve_pending_provider_edges_batched X s1) (\<lambda>s2.
                bind_m (run_units (map (file_unit X W L options) files) s2) (\<lambda>s3.
                bind_m (if pis_failed s3 = 0 then run_units (map (cursor_unit L) cursors) s3 else return_m s3)
                  (\<lambda>s4.
                bind_m commit_transaction (\<lambda>_. return_m s4))))) (t, b') of
                (r, (_, b'')) \<Rightarrow> (r, b'')))"

definition event_file_touches ::
    "(nat \<times> provider_capture_envelope) list \<Rightarrow> (nat \<times> provider_file_touched_envelope) list
     \<Rightarrow> (nat \<times> provider_file_touched_envelope) list" where
  "event_file_touches captures files =
     concat (map (\<lambda>(line_number, capture).
       if pce_provider capture = CaptureProvider_Codex \<or> line_number \<in> fst ` set files then []
       else case pce_event capture of
           None \<Rightarrow> []
         | Some event \<Rightarrow>
             provider_file_touches_from_event (pce_provider capture)
               (pse_provider_session_id (pce_session capture)) (pso_source_format (pce_source capture))
               (pso_raw_source_path (pce_source capture)) (pso_source_root (pce_source capture))
               event line_number) captures)"

text \<open>Bulk search mode changes settings of the full-text tables only; both calls can fail.\<close>

definition import_provider_capture_lines_with_batch_size ::
    "externals \<Rightarrow> unicode \<Rightarrow> (capture_error \<Rightarrow> string) \<Rightarrow> serialized_lengths
     \<Rightarrow> normalized_provider_import_options \<Rightarrow> provider_import_summary
     \<Rightarrow> (nat \<times> provider_capture_envelope) list \<Rightarrow> (nat \<times> provider_file_touched_envelope) list
     \<Rightarrow> nat option \<Rightarrow> bool \<Rightarrow> batch_state \<Rightarrow> (capture_error + provider_import_summary) \<times> batch_state" where
  "import_provider_capture_lines_with_batch_size X U W L options given given_captures given_files
       batch_size suppress_search_merges b =
     (let (summary, captures, files) =
            filter_provider_capture_lines_without_real_session_messages given given_captures given_files
      in if pis_failed summary = 0 \<and> \<not> provider_capture_lines_have_real_message captures
         then (Inr (add_failure
             (no_real_message_failure
               (case captures of (line, _) # _ \<Rightarrow> line
                | [] \<Rightarrow> (case files of (line, _) # _ \<Rightarrow> line | [] \<Rightarrow> 0))) summary), b)
         else
           let files = files @ event_file_touches captures files;
               has_captures = (captures \<noteq> [] \<or> files \<noteq> []);
               bulk = (suppress_search_merges \<and> has_captures \<and> opt_wrap_transaction options);
               (started, b1) = (if bulk then connection_call (\<lambda>b. b) b else (Inr (), b))
           in case started of
                Inl e \<Rightarrow> (Inl (CaptureStore e), b1)
              | Inr _ \<Rightarrow>
                  (let (result, b2) =
                         persist_provider_capture_lines X U W L options summary captures files has_captures
                           batch_size (b1\<lparr>bs_import := (bs_import b1)\<lparr>im_caches := empty_caches\<rparr>\<rparr>);
                       (finished, b3) = (if bulk then connection_call (\<lambda>b. b) b2 else (Inr (), b2))
                   in (case finished of Inl e \<Rightarrow> Inl (CaptureStore e) | Inr _ \<Rightarrow> result, b3)))"

definition import_provider_capture_lines ::
    "externals \<Rightarrow> unicode \<Rightarrow> (capture_error \<Rightarrow> string) \<Rightarrow> serialized_lengths
     \<Rightarrow> normalized_provider_import_options \<Rightarrow> provider_import_summary
     \<Rightarrow> (nat \<times> provider_capture_envelope) list \<Rightarrow> (nat \<times> provider_file_touched_envelope) list
     \<Rightarrow> batch_state \<Rightarrow> (capture_error + provider_import_summary) \<times> batch_state" where
  "import_provider_capture_lines X U W L options summary captures files b =
     import_provider_capture_lines_with_batch_size X U W L options summary captures files
       provider_transaction_batch_size True b"

section \<open>The connection calls\<close>

text \<open>A call that fails has no effect, or the engine has rolled back.\<close>

lemma connection_call_cases:
  assumes "connection_call f b = (r, b')"
  obtains (works) cs where "r = Inr ()" "b' = f (b\<lparr>bs_outcomes := cs\<rparr>)"
    | (fails) e cs where "r = Inl e" "b' = b\<lparr>bs_outcomes := cs\<rparr>"
    | (aborts) e cs where "r = Inl e" "b' = (if bs_in_transaction b then roll_back (b\<lparr>bs_outcomes := cs\<rparr>) else b\<lparr>bs_outcomes := cs\<rparr>)"
proof (cases "bs_outcomes b")
  case Nil
  then have "b\<lparr>bs_outcomes := []\<rparr> = b" by simp
  with Nil assms works [of "[]"] show thesis by (simp add: connection_call_def next_outcome_def)
next
  case (Cons c cs)
  with assms works [of cs] fails [of _ cs] aborts [of _ cs] show thesis
    by (cases c) (auto simp: connection_call_def next_outcome_def split: if_splits)
qed

text \<open>A connection between transactions, after a rollback or a commit, and inside one.\<close>

definition settled :: "batch_state \<Rightarrow> bool" where
  "settled b \<longleftrightarrow> \<not> bs_in_transaction b \<and> im_db (bs_import b) = bs_committed b"

lemma settled_roll_back [simp]: "settled (roll_back b)" "bs_committed (roll_back b) = bs_committed b"
  by (simp_all add: settled_def roll_back_def set_view_def)

lemma settled_rollback_batch:
  "bs_in_transaction b \<or> settled b \<Longrightarrow> settled (rollback_batch b)"
  "bs_committed (rollback_batch b) = bs_committed b"
  by (auto simp: rollback_batch_def)

text \<open>What a rotation does to a transaction that is open: the view is committed and a new transaction
  open, or it failed and, after the rollback, the connection is settled on the old or the new state.\<close>

lemma rotate_spec:
  assumes "or_rollback rotate (t, b) = (r, (t', b'))" "tx_active t" "bs_in_transaction b"
  shows "r = Inr () \<Longrightarrow> tx_active t' \<and> bs_in_transaction b' \<and> bs_import b' = bs_import b
      \<and> bs_committed b' = im_db (bs_import b)"
    and "r = Inl e \<Longrightarrow> \<not> tx_active t' \<and> settled b' \<and> bs_committed b' \<in> {bs_committed b, im_db (bs_import b)}"
proof -
  obtain rc bc where commit: "connection_call
      (\<lambda>b. b\<lparr>bs_committed := im_db (bs_import b), bs_in_transaction := False\<rparr>) b = (rc, bc)" by force
  have all: "(r = Inr () \<longrightarrow> tx_active t' \<and> bs_in_transaction b' \<and> bs_import b' = bs_import b
      \<and> bs_committed b' = im_db (bs_import b))
    \<and> (\<forall>e. r = Inl e \<longrightarrow> \<not> tx_active t' \<and> settled b' \<and> bs_committed b' \<in> {bs_committed b, im_db (bs_import b)})"
  proof (rule connection_call_cases [OF commit])
    fix cs assume c: "rc = Inr ()" "bc = (b\<lparr>bs_outcomes := cs\<rparr>)\<lparr>bs_committed := im_db (bs_import (b\<lparr>bs_outcomes := cs\<rparr>)),
        bs_in_transaction := False\<rparr>"
    obtain rk bk where check: "connection_call (\<lambda>b. b) bc = (rk, bk)" by force
    have bk: "\<not> bs_in_transaction bk" "bs_import bk = bs_import b" "bs_committed bk = im_db (bs_import b)"
      by (rule connection_call_cases [OF check]; simp add: c(2))+
    show ?thesis
    proof (cases rk)
      case (Inl e)
      with assms commit c(1) check bk show ?thesis
        by (auto simp: or_rollback_def rotate_def bind_m_def on_connection_def commit_batch_def
            set_transaction_def checkpoint_wal_truncate_required_def rollback_def settled_def)
    next
      case (Inr _)
      obtain rb bb where start: "connection_call (\<lambda>b. b\<lparr>bs_in_transaction := True\<rparr>) bk = (rb, bb)" by force
      show ?thesis
        by (rule connection_call_cases [OF start])
          (use assms commit c(1) check bk Inr start in
            \<open>auto simp: or_rollback_def rotate_def bind_m_def on_connection_def commit_batch_def
              set_transaction_def checkpoint_wal_truncate_required_def rollback_def settled_def
              begin_immediate_batch_def\<close>)
    qed
  qed (use assms commit in \<open>auto simp: or_rollback_def rotate_def bind_m_def on_connection_def
      commit_batch_def rollback_def settled_rollback_batch rollback_batch_def\<close>)
  then show "r = Inr () \<Longrightarrow> tx_active t' \<and> bs_in_transaction b' \<and> bs_import b' = bs_import b
      \<and> bs_committed b' = im_db (bs_import b)"
    and "r = Inl e \<Longrightarrow> \<not> tx_active t' \<and> settled b' \<and> bs_committed b' \<in> {bs_committed b, im_db (bs_import b)}"
    by blast+
qed

section \<open>The same run without transactions\<close>

text \<open>The states after each unit, and the summary and state at the end if no unit ends the run.\<close>

type_synonym plain_result = "db list \<times> (provider_import_summary \<times> import_state) option"

fun plain_units :: "import_unit list \<Rightarrow> provider_import_summary \<Rightarrow> import_state \<Rightarrow> plain_result" where
  "plain_units [] m s = ([], Some (m, s))"
| "plain_units (u # us) m s =
     (case un_run u m s of
        (Inl e, _) \<Rightarrow> ([], None)
      | (Inr m', s') \<Rightarrow> (let (ds, fin) = plain_units us m' s' in (im_db s' # ds, fin)))"

fun plain_then ::
    "plain_result \<Rightarrow> (provider_import_summary \<Rightarrow> import_state \<Rightarrow> plain_result) \<Rightarrow> plain_result" where
  "plain_then (ds, None) f = (ds, None)"
| "plain_then (ds, Some (m, s)) f = (let (es, fin) = f m s in (ds @ es, fin))"

lemma run_units_spec:
  assumes "run_units us m (t, b) = (r, (t', b'))" "tx_active t" "bs_in_transaction b"
  shows "r = Inr m' \<Longrightarrow> tx_active t' \<and> bs_in_transaction b'
      \<and> snd (plain_units us m (bs_import b)) = Some (m', bs_import b')"
    and "isl r \<Longrightarrow> \<not> tx_active t' \<and> settled b'"
    and "bs_committed b' \<in> {bs_committed b, im_db (bs_import b)} \<union> set (fst (plain_units us m (bs_import b)))"
  using assms
proof (induction us arbitrary: m t b)
  case Nil
  {
    case 1
    then show ?case by (simp add: return_m_def)
  next
    case 2
    then show ?case by (auto simp: return_m_def)
  next
    case 3
    then show ?case by (auto simp: return_m_def)
  }
next
  case (Cons u us)
  have step: "(r = Inr m' \<longrightarrow> tx_active t' \<and> bs_in_transaction b'
        \<and> snd (plain_units (u # us) m (bs_import b)) = Some (m', bs_import b'))
      \<and> (isl r \<longrightarrow> \<not> tx_active t' \<and> settled b')
      \<and> bs_committed b' \<in> {bs_committed b, im_db (bs_import b)} \<union> set (fst (plain_units (u # us) m (bs_import b)))"
    if run: "run_units (u # us) m (t, b) = (r, (t', b'))" and act: "tx_active t" "bs_in_transaction b" for m t b
  proof (cases "un_bytes u")
    case None
    with run act show ?thesis
      by (auto simp: bind_m_def or_rollback_def of_result_def rollback_def settled_rollback_batch)
  next
    case (Some n)
    obtain r1 t1 b1 where prepare: "prepare_unit n (t, b) = (r1, (t1, b1))" by (metis prod_cases3)
    have prepared: "(r1 = Inr () \<longrightarrow> tx_active t1 \<and> bs_in_transaction b1 \<and> bs_import b1 = bs_import b)
        \<and> (\<forall>e. r1 = Inl e \<longrightarrow> \<not> tx_active t1 \<and> settled b1)
        \<and> bs_committed b1 \<in> {bs_committed b, im_db (bs_import b)}"
    proof (cases "tx_batch_size t \<noteq> None \<and> tx_units t > 0 \<and> sat_add (tx_bytes t) n > IMPORT_TRANSACTION_BATCH_BYTES")
      case True
      with prepare act have "or_rollback rotate (t, b) = (r1, (t1, b1))"
        by (simp add: prepare_unit_def or_rollback_def)
      from rotate_spec [OF this act] show ?thesis by (cases r1) auto
    next
      case False
      with prepare act show ?thesis by (auto simp: prepare_unit_def or_rollback_def)
    qed
    show ?thesis
    proof (cases r1)
      case (Inl e)
      with run Some prepare have "r = Inl e" "t' = t1" "b' = b1"
        by (auto simp: bind_m_def or_rollback_def of_result_def)
      with prepared Inl show ?thesis by auto
    next
      case (Inr _)
      obtain r2 s2 where run_u: "un_run u m (bs_import b) = (r2, s2)" by force
      show ?thesis
      proof (cases r2)
        case (Inl e)
        with run Some prepare \<open>r1 = Inr _\<close> prepared run_u act show ?thesis
          by (auto simp: bind_m_def or_rollback_def of_result_def run_on_view_def rollback_def
              settled_rollback_batch)
      next
        case (Inr m2)
        let ?b2 = "b1\<lparr>bs_import := s2\<rparr>"
        obtain r3 t3 b3 where record_: "record_unit n (t1, ?b2) = (r3, (t3, b3))" by (metis prod_cases3)
        have recorded: "(r3 = Inr () \<longrightarrow> tx_active t3 \<and> bs_in_transaction b3 \<and> bs_import b3 = s2)
            \<and> (\<forall>e. r3 = Inl e \<longrightarrow> \<not> tx_active t3 \<and> settled b3)
            \<and> bs_committed b3 \<in> {bs_committed b1, im_db s2}"
        proof -
          let ?t = "t1\<lparr>tx_units := sat_add (tx_units t1) 1, tx_bytes := sat_add (tx_bytes t1) n\<rparr>"
          have act1: "tx_active ?t" "bs_in_transaction ?b2" using prepared \<open>r1 = Inr _\<close> by auto
          have "record_unit n (t1, ?b2) = (Inr (), (?t, ?b2)) \<or> record_unit n (t1, ?b2) = or_rollback rotate (?t, ?b2)"
            using act1 by (auto simp: record_unit_def Let_def)
          then show ?thesis
          proof
            assume "record_unit n (t1, ?b2) = (Inr (), (?t, ?b2))"
            with record_ act1 show ?thesis by auto
          next
            assume "record_unit n (t1, ?b2) = or_rollback rotate (?t, ?b2)"
            with record_ have "or_rollback rotate (?t, ?b2) = (r3, (t3, b3))" by simp
            from rotate_spec [OF this act1] show ?thesis by (cases r3) auto
          qed
        qed
        have whole: "run_units (u # us) m (t, b) = (case r3 of Inl e \<Rightarrow> (Inl e, (t3, b3)) | Inr _ \<Rightarrow> run_units us m2 (t3, b3))"
          using Some prepare \<open>r1 = Inr _\<close> prepared run_u Inr record_
          by (auto simp: bind_m_def or_rollback_def of_result_def run_on_view_def split: sum.split)
        obtain ds fin where rest: "plain_units us m2 s2 = (ds, fin)" by force
        show ?thesis
        proof (cases r3)
          case (Inl e)
          with whole run recorded prepared run_u Inr rest show ?thesis
            using \<open>r2 = Inr m2\<close> by auto
        next
          case (Inr _)
          with whole run have next_: "run_units us m2 (t3, b3) = (r, (t', b'))" by simp
          have act3: "tx_active t3" "bs_in_transaction b3" "bs_import b3 = s2" using recorded Inr by auto
          have plain: "plain_units (u # us) m (bs_import b) = (im_db s2 # ds, fin)"
            by (simp add: run_u \<open>r2 = Inr m2\<close> rest)
          have "r = Inr m' \<Longrightarrow> tx_active t' \<and> bs_in_transaction b' \<and> fin = Some (m', bs_import b')"
            using Cons.IH(1) [OF _ next_ act3(1,2)] rest act3(3) by simp
          moreover have "isl r \<Longrightarrow> \<not> tx_active t' \<and> settled b'"
            using Cons.IH(2) [OF _ next_ act3(1,2)] by blast
          moreover have "bs_committed b' \<in> {bs_committed b3, im_db s2} \<union> set ds"
            using Cons.IH(3) [OF next_ act3(1,2)] rest act3(3) by simp
          moreover have "bs_committed b3 \<in> {bs_committed b, im_db (bs_import b), im_db s2}"
            using recorded prepared by auto
          ultimately show ?thesis unfolding plain by auto
        qed
      qed
    qed
  qed
  {
    case 1
    show ?case using step [OF 1(2,3,4)] 1(1) by simp
  next
    case 2
    show ?case using step [OF 2(2,3,4)] 2(1) by simp
  next
    case 3
    show ?case using step [OF 3(1,2,3)] by simp
  }
qed

text \<open>An action inside a transaction and the run it stands for: it ends like the run with the
  transaction open, or it ended early and is settled; what is committed is the old state, the state at
  its start or one the run passes through.\<close>

definition ends_in :: "import_state \<Rightarrow> plain_result \<Rightarrow> bool" where
  "ends_in s p \<longleftrightarrow> (\<forall>m' s'. snd p = Some (m', s') \<longrightarrow> im_db s' \<in> insert (im_db s) (set (fst p)))"

definition simulates ::
    "provider_import_summary batch_action \<Rightarrow> (import_state \<Rightarrow> plain_result) \<Rightarrow> bool" where
  "simulates M f \<longleftrightarrow>
     (\<forall>s. ends_in s (f s)) \<and>
     (\<forall>t b r t' b'. tx_active t \<longrightarrow> bs_in_transaction b \<longrightarrow> M (t, b) = (r, (t', b')) \<longrightarrow>
        (\<forall>m'. r = Inr m' \<longrightarrow> tx_active t' \<and> bs_in_transaction b' \<and> snd (f (bs_import b)) = Some (m', bs_import b'))
        \<and> (isl r \<longrightarrow> \<not> tx_active t' \<and> settled b')
        \<and> bs_committed b' \<in> {bs_committed b, im_db (bs_import b)} \<union> set (fst (f (bs_import b))))"

lemma simulatesD:
  assumes "simulates M f" "tx_active t" "bs_in_transaction b" "M (t, b) = (r, (t', b'))"
  shows "\<And>m'. r = Inr m' \<Longrightarrow> tx_active t' \<and> bs_in_transaction b' \<and> snd (f (bs_import b)) = Some (m', bs_import b')"
    and "isl r \<Longrightarrow> \<not> tx_active t' \<and> settled b'"
    and "bs_committed b' \<in> {bs_committed b, im_db (bs_import b)} \<union> set (fst (f (bs_import b)))"
  using assms unfolding simulates_def by (metis, metis, metis)

lemma simulates_ends: "simulates M f \<Longrightarrow> ends_in s (f s)"
  by (simp add: simulates_def)

lemma simulatesI:
  assumes "\<And>s. ends_in s (f s)"
    and "\<And>t b r t' b'. tx_active t \<Longrightarrow> bs_in_transaction b \<Longrightarrow> M (t, b) = (r, (t', b')) \<Longrightarrow>
        (\<forall>m'. r = Inr m' \<longrightarrow> tx_active t' \<and> bs_in_transaction b' \<and> snd (f (bs_import b)) = Some (m', bs_import b'))
        \<and> (isl r \<longrightarrow> \<not> tx_active t' \<and> settled b')
        \<and> bs_committed b' \<in> {bs_committed b, im_db (bs_import b)} \<union> set (fst (f (bs_import b)))"
  shows "simulates M f"
  unfolding simulates_def
proof (intro conjI)
  show "\<forall>s. ends_in s (f s)" using assms(1) by blast
  show "\<forall>t b r t' b'. tx_active t \<longrightarrow> bs_in_transaction b \<longrightarrow> M (t, b) = (r, (t', b')) \<longrightarrow>
        (\<forall>m'. r = Inr m' \<longrightarrow> tx_active t' \<and> bs_in_transaction b' \<and> snd (f (bs_import b)) = Some (m', bs_import b'))
        \<and> (isl r \<longrightarrow> \<not> tx_active t' \<and> settled b')
        \<and> bs_committed b' \<in> {bs_committed b, im_db (bs_import b)} \<union> set (fst (f (bs_import b)))"
    by (intro allI impI, rule assms(2))
qed

lemma ends_in_units: "ends_in s (plain_units us m s)"
proof (induction us arbitrary: m s)
  case (Cons u us)
  show ?case
  proof (cases "un_run u m s")
    case (Pair r s')
    obtain ds fin where "plain_units us (projr r) s' = (ds, fin)" by force
    with Cons [of s' "projr r"] Pair show ?thesis by (cases r) (auto simp: ends_in_def)
  qed
qed (simp add: ends_in_def)

lemma simulates_units: "simulates (run_units us m) (plain_units us m)"
proof (rule simulatesI)
  fix t b r t' b'
  assume act: "tx_active t" "bs_in_transaction b" and run: "run_units us m (t, b) = (r, (t', b'))"
  show "(\<forall>m'. r = Inr m' \<longrightarrow> tx_active t' \<and> bs_in_transaction b' \<and> snd (plain_units us m (bs_import b)) = Some (m', bs_import b'))
        \<and> (isl r \<longrightarrow> \<not> tx_active t' \<and> settled b')
        \<and> bs_committed b' \<in> {bs_committed b, im_db (bs_import b)} \<union> set (fst (plain_units us m (bs_import b)))"
    using run_units_spec(1) [OF run act] run_units_spec(2) [OF run act] run_units_spec(3) [OF run act] by blast
qed (rule ends_in_units)

lemma simulates_return: "simulates (return_m m) (\<lambda>s. ([], Some (m, s)))"
  by (rule simulatesI) (auto simp: return_m_def ends_in_def)

lemma simulates_if: "simulates M f \<Longrightarrow> simulates N g \<Longrightarrow> simulates (if c then M else N) (\<lambda>s. if c then f s else g s)"
  by simp

lemma plain_then_eq:
  "plain_then (ds, fin) g = (case fin of None \<Rightarrow> (ds, None) | Some (m, s) \<Rightarrow> (ds @ fst (g m s), snd (g m s)))"
  by (cases fin) (auto split: prod.split)

lemma ends_in_then:
  assumes "ends_in s p" "\<And>m s. ends_in s (g m s)"
  shows "ends_in s (plain_then p g)"
proof -
  obtain ds fin where p: "p = (ds, fin)" by force
  show ?thesis
  proof (cases fin)
    case (Some ms)
    then show ?thesis using assms(1) assms(2) [of "snd ms" "fst ms"] p
      by (auto simp: ends_in_def plain_then_eq split: prod.splits)
  qed (simp add: p ends_in_def)
qed

lemma simulates_bind:
  assumes "simulates M f" "\<And>m. simulates (F m) (g m)"
  shows "simulates (bind_m M F) (\<lambda>s. plain_then (f s) g)"
proof (rule simulatesI)
  show "ends_in s (plain_then (f s) g)" for s
    by (intro ends_in_then simulates_ends [OF assms(1)] simulates_ends [OF assms(2)])
next
  fix t b r t' b' assume act: "tx_active t" "bs_in_transaction b" and run: "bind_m M F (t, b) = (r, (t', b'))"
  obtain r1 t1 b1 where first: "M (t, b) = (r1, (t1, b1))" by (metis prod_cases3)
  note one = simulatesD [OF assms(1) act first]
  obtain ds fin where f: "f (bs_import b) = (ds, fin)" by force
  show "(\<forall>m'. r = Inr m' \<longrightarrow> tx_active t' \<and> bs_in_transaction b' \<and> snd (plain_then (f (bs_import b)) g) = Some (m', bs_import b'))
      \<and> (isl r \<longrightarrow> \<not> tx_active t' \<and> settled b')
      \<and> bs_committed b' \<in> {bs_committed b, im_db (bs_import b)} \<union> set (fst (plain_then (f (bs_import b)) g))"
  proof (cases r1)
    case (Inl e)
    with run first have "r = Inl e" "t' = t1" "b' = b1" by (auto simp: bind_m_def)
    with one(2,3) Inl f show ?thesis by (auto simp: plain_then_eq split: option.split)
  next
    case (Inr m)
    with one(1) f have act1: "tx_active t1" "bs_in_transaction b1" "fin = Some (m, bs_import b1)" by auto
    from run first Inr have second: "F m (t1, b1) = (r, (t', b'))" by (simp add: bind_m_def)
    note two = simulatesD [OF assms(2) act1(1,2) second]
    have view: "im_db (bs_import b1) \<in> insert (im_db (bs_import b)) (set ds)"
      using simulates_ends [OF assms(1), of "bs_import b"] f act1(3) by (simp add: ends_in_def)
    have "bs_committed b1 \<in> {bs_committed b, im_db (bs_import b)} \<union> set ds" using one(3) f by simp
    with view two(3) have "bs_committed b' \<in> {bs_committed b, im_db (bs_import b)} \<union> set (ds @ fst (g m (bs_import b1)))"
      by auto
    with two(1,2) show ?thesis unfolding f act1(3) by (simp add: plain_then_eq)
  qed
qed

definition clear_pending :: "import_state \<Rightarrow> import_state" where
  "clear_pending s = s\<lparr>im_caches := (im_caches s)\<lparr>ic_pending_edges := []\<rparr>\<rparr>"

definition plain_edges :: "externals \<Rightarrow> provider_import_summary \<Rightarrow> import_state \<Rightarrow> plain_result" where
  "plain_edges X m s =
     plain_units (map (edge_unit X) (sort_key fst (ic_pending_edges (im_caches s)))) m (clear_pending s)"

lemma simulates_edges: "simulates (resolve_pending_provider_edges_batched X m) (plain_edges X m)"
proof (rule simulatesI)
  show "ends_in s (plain_edges X m s)" for s
    using ends_in_units [of "clear_pending s"] by (simp add: plain_edges_def ends_in_def clear_pending_def)
next
  fix t b r t' b' assume act: "tx_active t" "bs_in_transaction b"
    and run: "resolve_pending_provider_edges_batched X m (t, b) = (r, (t', b'))"
  let ?us = "map (edge_unit X) (sort_key fst (ic_pending_edges (im_caches (bs_import b))))"
  let ?b = "b\<lparr>bs_import := clear_pending (bs_import b)\<rparr>"
  from run have "run_units ?us m (t, ?b) = (r, (t', b'))"
    by (simp add: resolve_pending_provider_edges_batched_def bind_m_def take_pending_edges_def clear_pending_def)
  note spec = simulatesD [OF simulates_units act(1) _ this]
  show "(\<forall>m'. r = Inr m' \<longrightarrow> tx_active t' \<and> bs_in_transaction b' \<and> snd (plain_edges X m (bs_import b)) = Some (m', bs_import b'))
      \<and> (isl r \<longrightarrow> \<not> tx_active t' \<and> settled b')
      \<and> bs_committed b' \<in> {bs_committed b, im_db (bs_import b)} \<union> set (fst (plain_edges X m (bs_import b)))"
    using spec act(2) by (simp add: plain_edges_def clear_pending_def)
qed

text \<open>The whole run: the records, then the cursors.\<close>

definition plain_records ::
    "externals \<Rightarrow> unicode \<Rightarrow> (capture_error \<Rightarrow> string) \<Rightarrow> serialized_lengths
     \<Rightarrow> normalized_provider_import_options \<Rightarrow> provider_import_summary
     \<Rightarrow> (nat \<times> provider_capture_envelope) list \<Rightarrow> (nat \<times> provider_file_touched_envelope) list
     \<Rightarrow> import_state \<Rightarrow> plain_result" where
  "plain_records X U W L options m captures files s =
     plain_then (plain_units (map (line_unit X U W L options) captures) m s) (\<lambda>m1 s1.
     plain_then (plain_edges X m1 s1) (\<lambda>m2 s2.
     plain_units (map (file_unit X W L options) files) m2 s2))"

definition plain_cursors ::
    "serialized_lengths \<Rightarrow> sync_cursor list \<Rightarrow> provider_import_summary \<Rightarrow> import_state \<Rightarrow> plain_result" where
  "plain_cursors L cursors m s =
     (if pis_failed m = 0 then plain_units (map (cursor_unit L) cursors) m s else ([], Some (m, s)))"

definition plain_import ::
    "externals \<Rightarrow> unicode \<Rightarrow> (capture_error \<Rightarrow> string) \<Rightarrow> serialized_lengths
     \<Rightarrow> normalized_provider_import_options \<Rightarrow> provider_import_summary
     \<Rightarrow> (nat \<times> provider_capture_envelope) list \<Rightarrow> (nat \<times> provider_file_touched_envelope) list
     \<Rightarrow> import_state \<Rightarrow> plain_result" where
  "plain_import X U W L options m captures files s =
     plain_then (plain_records X U W L options m captures files s)
       (plain_cursors L (pending_cursors X options m captures))"

lemma bind_m_assoc: "bind_m (bind_m m f) g = bind_m m (\<lambda>x. bind_m (f x) g)"
  by (auto simp: bind_m_def fun_eq_iff split: prod.split sum.split)

lemma simulates_import:
  "simulates
     (bind_m (run_units (map (line_unit X U W L options) captures) m) (\<lambda>s1.
      bind_m (resolve_pending_provider_edges_batched X s1) (\<lambda>s2.
      bind_m (run_units (map (file_unit X W L options) files) s2) (\<lambda>s3.
      if pis_failed s3 = 0 then run_units (map (cursor_unit L) cursors) s3 else return_m s3))))
     (\<lambda>s. plain_then (plain_records X U W L options m captures files s) (plain_cursors L cursors))"
proof -
  have "simulates
     (bind_m (bind_m (run_units (map (line_unit X U W L options) captures) m) (\<lambda>s1.
      bind_m (resolve_pending_provider_edges_batched X s1) (\<lambda>s2.
      run_units (map (file_unit X W L options) files) s2)))
      (\<lambda>s3. if pis_failed s3 = 0 then run_units (map (cursor_unit L) cursors) s3 else return_m s3))
     (\<lambda>s. plain_then (plain_records X U W L options m captures files s) (plain_cursors L cursors))"
    unfolding plain_records_def plain_cursors_def
    by (intro simulates_bind simulates_units simulates_edges simulates_if simulates_return)
  then show ?thesis by (simp only: bind_m_assoc)
qed


text \<open>The start and the end of a transaction.\<close>

lemma begin_transaction_spec:
  assumes "begin_transaction True n b = (r, b')" "settled b"
  shows "bs_committed b' = bs_committed b" "bs_import b' = bs_import b"
    "r = Inr t \<Longrightarrow> tx_active t \<and> bs_in_transaction b'" "isl r \<Longrightarrow> settled b'"
proof -
  have "\<not> bs_in_transaction b" using assms(2) by (simp add: settled_def)
  obtain rc bc where call: "connection_call (\<lambda>b. b\<lparr>bs_in_transaction := True\<rparr>) b = (rc, bc)" by force
  have r: "r = (case rc of Inl e \<Rightarrow> Inl (CaptureStore e)
      | Inr _ \<Rightarrow> Inr \<lparr>tx_active = True, tx_batch_size = n, tx_units = 0, tx_bytes = 0\<rparr>)" and b': "b' = bc"
    using assms(1) call \<open>\<not> bs_in_transaction b\<close>
    by (auto simp: begin_transaction_def begin_immediate_batch_def split: sum.splits)
  show "bs_committed b' = bs_committed b" "bs_import b' = bs_import b"
    unfolding b' by (rule connection_call_cases [OF call]; simp add: \<open>\<not> bs_in_transaction b\<close>)+
  show "tx_active t \<and> bs_in_transaction b'" if "r = Inr t"
    by (rule connection_call_cases [OF call]) (use that r b' in auto)
  show "settled b'" if "isl r"
    by (rule connection_call_cases [OF call]) (use that r b' assms(2) in \<open>auto simp: settled_def\<close>)
qed

lemma commit_transaction_spec:
  assumes "commit_transaction (t, b) = (r, (t', b'))" "tx_active t" "bs_in_transaction b"
  shows "settled b'" "r = Inr u \<Longrightarrow> bs_committed b' = im_db (bs_import b)"
    "bs_committed b' \<in> {bs_committed b, im_db (bs_import b)}"
proof -
  obtain rc bc where call: "connection_call
      (\<lambda>b. b\<lparr>bs_committed := im_db (bs_import b), bs_in_transaction := False\<rparr>) b = (rc, bc)" by force
  have all: "settled b' \<and> (\<forall>u. r = Inr u \<longrightarrow> bs_committed b' = im_db (bs_import b))
      \<and> bs_committed b' \<in> {bs_committed b, im_db (bs_import b)}"
  proof (rule connection_call_cases [OF call])
    fix cs assume "rc = Inr ()" "bc = (b\<lparr>bs_outcomes := cs\<rparr>)\<lparr>bs_committed := im_db (bs_import (b\<lparr>bs_outcomes := cs\<rparr>)),
        bs_in_transaction := False\<rparr>"
    with assms call show ?thesis
      by (auto simp: commit_transaction_def on_connection_def commit_batch_def settled_def)
  qed (use assms call in \<open>auto simp: commit_transaction_def on_connection_def commit_batch_def rollback_def
      rollback_batch_def\<close>)
  then show "settled b'" "r = Inr u \<Longrightarrow> bs_committed b' = im_db (bs_import b)"
    "bs_committed b' \<in> {bs_committed b, im_db (bs_import b)}" by blast+
qed

text \<open>The run inside its transaction.\<close>

definition import_work ::
    "externals \<Rightarrow> unicode \<Rightarrow> (capture_error \<Rightarrow> string) \<Rightarrow> serialized_lengths
     \<Rightarrow> normalized_provider_import_options \<Rightarrow> provider_import_summary
     \<Rightarrow> (nat \<times> provider_capture_envelope) list \<Rightarrow> (nat \<times> provider_file_touched_envelope) list
     \<Rightarrow> sync_cursor list \<Rightarrow> provider_import_summary batch_action" where
  "import_work X U W L options m captures files cursors =
     bind_m (run_units (map (line_unit X U W L options) captures) m) (\<lambda>s1.
     bind_m (resolve_pending_provider_edges_batched X s1) (\<lambda>s2.
     bind_m (run_units (map (file_unit X W L options) files) s2) (\<lambda>s3.
     if pis_failed s3 = 0 then run_units (map (cursor_unit L) cursors) s3 else return_m s3)))"

lemma persist_is_work:
  "persist_provider_capture_lines X U W L options m captures files has_captures n b =
     (case begin_transaction (has_captures \<and> opt_wrap_transaction options) n b of
        (Inl e, b') \<Rightarrow> (Inl e, b')
      | (Inr t, b') \<Rightarrow>
          (case bind_m (import_work X U W L options m captures files (pending_cursors X options m captures))
              (\<lambda>s4. bind_m commit_transaction (\<lambda>_. return_m s4)) (t, b') of (r, (_, b'')) \<Rightarrow> (r, b'')))"
  unfolding persist_provider_capture_lines_def import_work_def bind_m_assoc Let_def by (rule refl)

lemma persist_transaction:
  assumes "opt_wrap_transaction options" "settled b"
    "persist_provider_capture_lines X U W L options m captures files True n b = (r, b')"
  defines "p \<equiv> plain_import X U W L options m captures files (bs_import b)"
  shows "settled b'" "bs_committed b' \<in> insert (bs_committed b) (set (fst p))"
    "r = Inr m' \<Longrightarrow> \<exists>s'. snd p = Some (m', s') \<and> bs_committed b' = im_db s'"
proof -
  obtain r0 b0 where start: "begin_transaction True n b = (r0, b0)" by force
  note started = begin_transaction_spec [OF start assms(2)]
  have view: "im_db (bs_import b) = bs_committed b" using assms(2) by (simp add: settled_def)
  have all: "settled b' \<and> bs_committed b' \<in> insert (bs_committed b) (set (fst p))
      \<and> (\<forall>m'. r = Inr m' \<longrightarrow> (\<exists>s'. snd p = Some (m', s') \<and> bs_committed b' = im_db s'))"
  proof (cases r0)
    case (Inl e)
    with assms(1,3) start started show ?thesis by (auto simp: persist_is_work)
  next
    case (Inr t)
    let ?work = "import_work X U W L options m captures files (pending_cursors X options m captures)"
    have act: "tx_active t" "bs_in_transaction b0" using started(3) [OF Inr] by simp_all
    obtain r1 t1 b1 where work: "?work (t, b0) = (r1, (t1, b1))" by (metis prod_cases3)
    note sim = simulatesD [OF simulates_import [folded import_work_def] act work,
        folded plain_import_def, unfolded started(1,2), folded p_def]
    have start1: "begin_transaction (True \<and> opt_wrap_transaction options) n b = (Inr t, b0)"
      using start assms(1) Inr by simp
    show ?thesis
    proof (cases r1)
      case (Inl e)
      with assms(3) start1 work have "r = Inl e" "b' = b1"
        by (auto simp: persist_is_work bind_m_def)
      with sim(2,3) Inl view show ?thesis by auto
    next
      case (Inr m1)
      note done1 = sim(1) [OF Inr]
      obtain r2 t2 b2 where commit: "commit_transaction (t1, b1) = (r2, (t2, b2))" by (metis prod_cases3)
      with assms(3) start1 work Inr have r: "r = (case r2 of Inl e \<Rightarrow> Inl e | Inr _ \<Rightarrow> Inr m1)" "b' = b2"
        by (auto simp: persist_is_work bind_m_def return_m_def split: sum.splits)
      note spec = commit_transaction_spec [OF commit] 
      have "im_db (bs_import b1) \<in> insert (bs_committed b) (set (fst p))"
        using simulates_ends [OF simulates_import [of X U W L options captures m files
              "pending_cursors X options m captures"], of "bs_import b"] done1 view
        unfolding ends_in_def p_def plain_import_def by metis
      with spec sim(3) done1 r view show ?thesis by (cases r2) auto
    qed
  qed
  then show "settled b'" "bs_committed b' \<in> insert (bs_committed b) (set (fst p))"
    "r = Inr m' \<Longrightarrow> \<exists>s'. snd p = Some (m', s') \<and> bs_committed b' = im_db s'" by blast+
qed


section \<open>What every write keeps, the whole import keeps\<close>

context import_frame
begin

definition both_kept :: "import_transaction \<times> batch_state \<Rightarrow> bool" where
  "both_kept = (\<lambda>(t, b). kept (bs_import b) \<and> P (bs_committed b))"

lemma call_kept:
  assumes "connection_call f b = (r, b')" "both_kept (t, b)" "\<And>b. both_kept (t, b) \<Longrightarrow> both_kept (t', f b)"
  shows "both_kept (t', b')"
proof -
  have stays: "both_kept (t', b\<lparr>bs_outcomes := cs\<rparr>)" "both_kept (t', roll_back (b\<lparr>bs_outcomes := cs\<rparr>))"
    "both_kept (t, b\<lparr>bs_outcomes := cs\<rparr>)" for cs
    using assms(2) by (auto simp: both_kept_def kept_def roll_back_def set_view_def)
  show ?thesis
    by (rule connection_call_cases [OF assms(1)]) (use stays assms(3) in auto)
qed

lemma connection_kept:
  "keeps both_kept (on_connection begin_immediate_batch)" "keeps both_kept (on_connection commit_batch)"
  "keeps both_kept (on_connection checkpoint_wal_truncate_required)"
proof -
  have one: "keeps both_kept (on_connection (\<lambda>b. if c b then (Inl (e b), b) else connection_call f b))"
    if "\<And>t b. both_kept (t, b) \<Longrightarrow> both_kept (t, f b)" for c e f
    using call_kept [OF _ _ that] by (auto simp: keeps_def on_connection_def split: prod.splits if_splits)
  show "keeps both_kept (on_connection begin_immediate_batch)"
    unfolding begin_immediate_batch_def [abs_def] by (rule one) (simp add: both_kept_def)
  show "keeps both_kept (on_connection commit_batch)"
    unfolding commit_batch_def [abs_def] by (rule one) (simp add: both_kept_def kept_def)
  show "keeps both_kept (on_connection checkpoint_wal_truncate_required)"
    using one [of "\<lambda>b. b" "\<lambda>_. False"] by (simp add: checkpoint_wal_truncate_required_def [abs_def])
qed

lemma transaction_kept: "keeps both_kept (set_transaction f)"
  by (simp add: keeps_def set_transaction_def both_kept_def)

lemma rollback_kept: "both_kept y \<Longrightarrow> both_kept (rollback y)"
  by (auto simp: rollback_def both_kept_def rollback_batch_def kept_def roll_back_def set_view_def split: prod.splits)

lemma or_rollback_kept: "keeps both_kept m \<Longrightarrow> keeps both_kept (or_rollback m)"
  by (rule keeps_stepI)
    (auto simp: or_rollback_def intro: rollback_kept dest: keeps_step split: prod.splits sum.splits)

lemma rotate_kept: "keeps both_kept rotate"
  unfolding rotate_def by (intro keeps_intros connection_kept transaction_kept)

lemma unit_bounds_kept: "keeps both_kept (prepare_unit n)" "keeps both_kept (record_unit n)"
proof -
  note rot = rotate_kept [unfolded keeps_def] or_rollback_kept [OF rotate_kept, unfolded keeps_def]
  show "keeps both_kept (prepare_unit n)"
    unfolding prepare_unit_def by (rule or_rollback_kept) (use rot(1) in \<open>auto simp: keeps_def\<close>)
  show "keeps both_kept (record_unit n)"
    using rot(2) by (auto simp: keeps_def record_unit_def Let_def both_kept_def)
qed

lemma view_kept: "keeps kept f \<Longrightarrow> keeps both_kept (run_on_view f)"
  by (rule keeps_stepI)
    (auto simp: run_on_view_def both_kept_def kept_def Let_def dest: keeps_step split: prod.splits if_splits)

lemma units_kept: "(\<And>u m. u \<in> set us \<Longrightarrow> keeps kept (un_run u m)) \<Longrightarrow> keeps both_kept (run_units us m)"
proof (induction us arbitrary: m)
  case (Cons u us)
  then show ?case
    by (auto intro!: keeps_intros or_rollback_kept unit_bounds_kept view_kept)
qed (auto intro: keeps_intros)

lemma commit_kept: "keeps both_kept commit_transaction"
proof (rule keeps_stepI)
  fix y r z assume y: "both_kept y" and run: "commit_transaction y = (r, z)"
  obtain r1 z1 where first: "(if tx_active (fst y) then on_connection commit_batch y else (Inr (), y)) = (r1, z1)"
    by (rule prod.exhaust)
  have "both_kept z1"
    using first y keeps_step [OF connection_kept(2) y] by (auto split: if_splits)
  then have "both_kept (rollback z1)" "both_kept (t, snd z1)" for t
    by (rule rollback_kept, cases z1) (simp add: both_kept_def)
  with run first show "both_kept z"
    by (cases y; cases z1; cases r1) (auto simp: commit_transaction_def)
qed

lemma counted_kept: "keeps kept f \<Longrightarrow> keeps kept (count_failure W n m f g)"
  by (rule keeps_stepI)
    (auto simp: count_failure_def dest: keeps_step split: prod.splits sum.splits capture_error.splits)

lemma edges_kept: "keeps both_kept (resolve_pending_provider_edges_batched X m)"
proof -
  have "keeps both_kept take_pending_edges"
    by (auto simp: keeps_def take_pending_edges_def both_kept_def kept_def)
  then show ?thesis
    unfolding resolve_pending_provider_edges_batched_def
    by (intro keeps_intros units_kept) (auto simp: edge_unit_def intro: pending_edge_kept)
qed

end

context import_records
begin

lemma record_units_kept:
  "u \<in> set (map (line_unit X U W L opts) captures) \<Longrightarrow> keeps kept (un_run u m)"
  "u \<in> set (map (file_unit X W L opts) files) \<Longrightarrow> keeps kept (un_run u m)"
  by (auto simp: line_unit_def file_unit_def intro!: counted_kept intro: line_kept file_kept)

definition all_kept :: "plain_result \<Rightarrow> bool" where
  "all_kept p \<longleftrightarrow> Ball (set (fst p)) P \<and> (\<forall>m' s'. snd p = Some (m', s') \<longrightarrow> kept s')"

lemma units_all_kept:
  assumes "\<And>u m. u \<in> set us \<Longrightarrow> keeps kept (un_run u m)" "kept s"
  shows "all_kept (plain_units us m s)"
  using assms
proof (induction us arbitrary: m s)
  case (Cons u us)
  obtain r s1 where u: "un_run u m s = (r, s1)" by force
  have s1: "kept s1" using keeps_step [OF Cons.prems(1) Cons.prems(2) u] by simp
  show ?case
  proof (cases r)
    case (Inr m1)
    obtain ds fin where rest: "plain_units us m1 s1 = (ds, fin)" by force
    have "all_kept (ds, fin)"
      using Cons.IH [of s1 m1] Cons.prems(1) s1 by (simp add: rest)
    with s1 show ?thesis by (simp add: u Inr rest kept_def all_kept_def)
  qed (simp add: u all_kept_def)
qed (simp add: all_kept_def)

lemma then_all_kept:
  assumes "all_kept p" "\<And>m s. kept s \<Longrightarrow> all_kept (g m s)"
  shows "all_kept (plain_then p g)"
proof -
  obtain ds fin where p: "p = (ds, fin)" by force
  show ?thesis
  proof (cases fin)
    case (Some ms)
    obtain m s where ms: "ms = (m, s)" by force
    have "kept s" using assms(1) by (simp add: p Some ms all_kept_def)
    with assms(1) assms(2) [of s m] show ?thesis
      by (simp add: p Some ms all_kept_def plain_then_eq) blast
  qed (use assms(1) in \<open>simp add: p all_kept_def\<close>)
qed

lemma edges_all_kept: "kept s \<Longrightarrow> all_kept (plain_edges X m s)"
  unfolding plain_edges_def
  by (rule units_all_kept) (auto simp: edge_unit_def clear_pending_def kept_def intro: pending_edge_kept)

lemma records_all_kept: "kept s \<Longrightarrow> all_kept (plain_records X U W L opts m captures files s)"
  unfolding plain_records_def
  by (intro then_all_kept units_all_kept edges_all_kept; (assumption | erule record_units_kept))

end

context import_frame
begin

lemma both_state: "both_kept (t, b) \<longleftrightarrow> P (bs_committed b) \<and> P (im_db (bs_import b))"
  by (auto simp: both_kept_def kept_def)

lemma begin_kept:
  assumes "begin_transaction has n c = (r, c')" "both_kept (t, c)"
  shows "both_kept (t', c')"
proof -
  have same: "both_kept (u, d) = both_kept (v, d)" for u v d by (simp add: both_state)
  obtain rc cc where call: "on_connection begin_immediate_batch (t, c) = (rc, cc)" by (rule prod.exhaust)
  have "both_kept cc" by (rule keeps_step [OF connection_kept(1) assms(2) call])
  with call have "both_kept (t, snd (begin_immediate_batch c))"
    by (auto simp: on_connection_def split: prod.splits)
  moreover have "c' \<in> {c, snd (begin_immediate_batch c)}"
    using assms(1) by (auto simp: begin_transaction_def Let_def split: if_splits prod.splits sum.splits)
  ultimately show ?thesis using assms(2) by (auto simp: same [of t' c' t])
qed

lemma idle_call_kept:
  assumes "connection_call (\<lambda>b. b) c = (r, c')" "both_kept (t, c)"
  shows "both_kept (t', c')"
  using call_kept [OF assms, of t] by (simp add: both_state)

end

context import_invariant
begin

lemma cursor_units_kept: "u \<in> set (map (cursor_unit L) cursors) \<Longrightarrow> keeps kept (un_run u m)"
  by (auto simp: cursor_unit_def keeps_def kept_def intro: cursor_kept split: sum.splits)

lemma import_kept:
  assumes "import_provider_capture_lines X U W L opts given given_captures given_files b = (r, b')"
    "P (bs_committed b)" "P (im_db (bs_import b))"
  shows "P (bs_committed b') \<and> P (im_db (bs_import b'))"
proof -
  have persist: "P (bs_committed c') \<and> P (im_db (bs_import c'))"
    if run: "persist_provider_capture_lines X U W L opts m captures files has n c = (r', c')"
      and c: "P (bs_committed c)" "P (im_db (bs_import c))" for m captures files has n c r' c'
  proof -
    have body: "keeps both_kept (bind_m (import_work X U W L opts m captures files cursors)
        (\<lambda>s4. bind_m commit_transaction (\<lambda>_. return_m s4)))" for cursors
      unfolding import_work_def
      by (intro keeps_intros units_kept edges_kept commit_kept; erule record_units_kept cursor_units_kept)
    obtain r0 c0 where start: "begin_transaction (has \<and> opt_wrap_transaction opts) n c = (r0, c0)" by force
    have c0: "both_kept (t, c0)" for t
      by (rule begin_kept [OF start, of undefined]) (use c in \<open>simp add: both_state\<close>)
    show ?thesis
    proof (cases r0)
      case (Inl e)
      with run start c0 show ?thesis by (auto simp: persist_is_work both_kept_def kept_def)
    next
      case (Inr t)
      obtain r1 y where y: "bind_m (import_work X U W L opts m captures files (pending_cursors X opts m captures))
        (\<lambda>s4. bind_m commit_transaction (\<lambda>_. return_m s4)) (t, c0) = (r1, y)"
        by (rule prod.exhaust)
      from keeps_step [OF body c0 y] run start Inr y show ?thesis
        by (auto simp: persist_is_work both_kept_def kept_def split: prod.splits)
    qed
  qed
  have calls: "P (bs_committed c') \<and> P (im_db (bs_import c'))"
    if "connection_call (\<lambda>b. b) c = (r', c')" "P (bs_committed c)" "P (im_db (bs_import c))" for c r' c'
    using idle_call_kept [OF that(1), of undefined undefined] that(2,3) by (simp add: both_state)
  show ?thesis
    using assms unfolding import_provider_capture_lines_def import_provider_capture_lines_with_batch_size_def Let_def
    by (auto dest!: persist calls split: prod.splits sum.splits if_splits)
qed

end

text \<open>The records leave the cursors alone; the cursors leave everything else alone.\<close>

interpretation cursors_stay: import_records "\<lambda>d. db_cursors d = C" X U for C X U
  by unfold_locales
    (auto simp: upsert_capture_source_def upsert_session_def upsert_session_edge_def upsert_run_def
      insert_run_if_absent_def upsert_event_def insert_event_if_absent_def upsert_file_touched_def write_event_def
      Let_def guard_sql_eq_Inr bind_result_eq_Inr split: if_splits option.splits)

definition without_cursors :: "db \<Rightarrow> db" where
  "without_cursors d = d\<lparr>db_cursors := []\<rparr>"

lemma cursor_only: "persist_provider_sync_cursor c d = Inr d' \<Longrightarrow> without_cursors d' = without_cursors d"
  by (auto simp: persist_provider_sync_cursor_def bind_result_eq_Inr upsert_sync_cursor_def Let_def
      guard_sql_eq_Inr without_cursors_def split: option.splits)

lemma run_cursor_unit:
  "un_run (cursor_unit L c) m s =
     (case persist_provider_sync_cursor c (im_db s) of Inl e \<Rightarrow> (Inl e, s) | Inr d \<Rightarrow> (Inr m, s\<lparr>im_db := d\<rparr>))"
  by (simp add: cursor_unit_def)

lemma plain_cursors_only:
  "d \<in> set (fst (plain_cursors L cursors m s)) \<Longrightarrow> pis_failed m = 0 \<and> without_cursors d = without_cursors (im_db s)"
proof -
  have "without_cursors d = without_cursors (im_db s)"
    if "d \<in> set (fst (plain_units (map (cursor_unit L) cursors) m s))" for m s
    using that
  proof (induction cursors arbitrary: m s)
    case (Cons c cursors)
    show ?case
    proof (cases "persist_provider_sync_cursor c (im_db s)")
      case (Inr d1)
      with Cons.prems have "d = d1 \<or> d \<in> set (fst (plain_units (map (cursor_unit L) cursors) m (s\<lparr>im_db := d1\<rparr>)))"
        by (auto simp: run_cursor_unit split: prod.splits)
      with Cons.IH [of m "s\<lparr>im_db := d1\<rparr>"] cursor_only [OF Inr] show ?thesis by auto
    qed (use Cons.prems in \<open>auto simp: run_cursor_unit\<close>)
  qed simp
  then show "d \<in> set (fst (plain_cursors L cursors m s)) \<Longrightarrow> pis_failed m = 0 \<and> without_cursors d = without_cursors (im_db s)"
    by (auto simp: plain_cursors_def split: if_splits)
qed


section \<open>A connection that never fails\<close>

definition serializable :: "serialized_lengths \<Rightarrow> bool" where
  "serializable L \<longleftrightarrow> (\<forall>c. len_capture L c \<noteq> None) \<and> (\<forall>f. len_file L f \<noteq> None) \<and> (\<forall>c. len_cursor L c \<noteq> None)"

definition completes ::
    "provider_import_summary batch_action \<Rightarrow> (import_state \<Rightarrow> plain_result) \<Rightarrow> bool" where
  "completes M f \<longleftrightarrow>
     (\<forall>t b. tx_active t \<longrightarrow> bs_in_transaction b \<longrightarrow> bs_outcomes b = [] \<longrightarrow> snd (f (bs_import b)) \<noteq> None \<longrightarrow>
        (\<exists>m' t' b'. M (t, b) = (Inr m', (t', b')) \<and> bs_outcomes b' = []))"

lemma rotate_completes:
  assumes "tx_active t" "bs_in_transaction b" "bs_outcomes b = []"
  shows "\<exists>t' b'. or_rollback rotate (t, b) = (Inr (), (t', b')) \<and> bs_outcomes b' = []"
  using assms
  by (simp add: or_rollback_def rotate_def bind_m_def on_connection_def commit_batch_def connection_call_def
      next_outcome_def set_transaction_def checkpoint_wal_truncate_required_def begin_immediate_batch_def)

lemma unit_bounds_complete:
  assumes "tx_active t" "bs_in_transaction b" "bs_outcomes b = []"
  shows "\<exists>t' b'. prepare_unit n (t, b) = (Inr (), (t', b')) \<and> bs_outcomes b' = [] \<and> tx_active t'
      \<and> bs_in_transaction b' \<and> bs_import b' = bs_import b"
    "\<exists>t' b'. record_unit n (t, b) = (Inr (), (t', b')) \<and> bs_outcomes b' = [] \<and> tx_active t'
      \<and> bs_in_transaction b' \<and> bs_import b' = bs_import b"
proof -
  have rot: "\<exists>t' b'. or_rollback rotate (u, b) = (Inr (), (t', b')) \<and> bs_outcomes b' = [] \<and> tx_active t'
      \<and> bs_in_transaction b' \<and> bs_import b' = bs_import b" if act: "tx_active u" for u
  proof -
    obtain t' b' where r: "or_rollback rotate (u, b) = (Inr (), (t', b'))" "bs_outcomes b' = []"
      using rotate_completes [OF act assms(2,3)] by blast
    with rotate_spec(1) [OF r(1) act assms(2) refl] show ?thesis by blast
  qed
  show "\<exists>t' b'. prepare_unit n (t, b) = (Inr (), (t', b')) \<and> bs_outcomes b' = [] \<and> tx_active t'
      \<and> bs_in_transaction b' \<and> bs_import b' = bs_import b"
    using rot [OF assms(1)] assms by (auto simp: prepare_unit_def or_rollback_def)
  show "\<exists>t' b'. record_unit n (t, b) = (Inr (), (t', b')) \<and> bs_outcomes b' = [] \<and> tx_active t'
      \<and> bs_in_transaction b' \<and> bs_import b' = bs_import b"
    using rot [of "t\<lparr>tx_units := sat_add (tx_units t) 1, tx_bytes := sat_add (tx_bytes t) n\<rparr>"] assms
    by (auto simp: record_unit_def Let_def)
qed

lemma units_complete:
  "(\<And>u. u \<in> set us \<Longrightarrow> un_bytes u \<noteq> None) \<Longrightarrow> completes (run_units us m) (plain_units us m)"
proof (induction us arbitrary: m)
  case Nil
  then show ?case by (simp add: completes_def return_m_def)
next
  case (Cons u us)
  obtain n where n: "un_bytes u = Some n" using Cons.prems [of u] by auto
  have rest: "completes (run_units us m) (plain_units us m)" for m using Cons by simp
  show ?case
    unfolding completes_def
  proof (intro allI impI)
    fix t :: import_transaction and b :: batch_state
  assume act: "tx_active t" "bs_in_transaction b" "bs_outcomes b = []"
      and total: "snd (plain_units (u # us) m (bs_import b)) \<noteq> None"
    obtain t1 b1 where prepare: "prepare_unit n (t, b) = (Inr (), (t1, b1))" and b1: "bs_outcomes b1 = []"
      "tx_active t1" "bs_in_transaction b1" "bs_import b1 = bs_import b"
      using unit_bounds_complete(1) [OF act] by blast
    obtain m2 s2 where u: "un_run u m (bs_import b) = (Inr m2, s2)" "snd (plain_units us m2 s2) \<noteq> None"
      using total by (auto split: prod.splits sum.splits)
    obtain t3 b3 where record_: "record_unit n (t1, b1\<lparr>bs_import := s2\<rparr>) = (Inr (), (t3, b3))" and b3:
      "bs_outcomes b3 = []" "tx_active t3" "bs_in_transaction b3" "bs_import b3 = s2"
      using unit_bounds_complete(2) [of t1 "b1\<lparr>bs_import := s2\<rparr>" n] b1 by auto
    have "run_units (u # us) m (t, b) = run_units us m2 (t3, b3)"
      using n prepare u(1) b1 record_ by (simp add: bind_m_def or_rollback_def of_result_def run_on_view_def)
    then show "\<exists>m' t' b'. run_units (u # us) m (t, b) = (Inr m', (t', b')) \<and> bs_outcomes b' = []"
      using rest [of m2] b3 u(2) unfolding completes_def by metis
  qed
qed

lemma completes_bind:
  assumes "simulates M f" "completes M f" "\<And>m. completes (F m) (g m)"
  shows "completes (bind_m M F) (\<lambda>s. plain_then (f s) g)"
  unfolding completes_def
proof (intro allI impI)
  fix t :: import_transaction and b :: batch_state
  assume act: "tx_active t" "bs_in_transaction b" "bs_outcomes b = []"
    and total: "snd (plain_then (f (bs_import b)) g) \<noteq> None"
  obtain ds fin where f: "f (bs_import b) = (ds, fin)" by force
  have "fin \<noteq> None" using total f by (cases fin) auto
  then obtain m' t' b' where first: "M (t, b) = (Inr m', (t', b'))" "bs_outcomes b' = []"
    using assms(2) act f unfolding completes_def by (metis snd_conv)
  note one = simulatesD(1) [OF assms(1) act(1,2) first(1) refl]
  have "snd (g m' (bs_import b')) \<noteq> None" using total one by (simp add: plain_then_eq f)
  then show "\<exists>m' t' b'. bind_m M F (t, b) = (Inr m', (t', b')) \<and> bs_outcomes b' = []"
    using assms(3) [of m'] one first unfolding completes_def by (simp add: bind_m_def)
qed

lemma edges_complete: "completes (resolve_pending_provider_edges_batched X m) (plain_edges X m)"
  unfolding completes_def
proof (intro allI impI)
  fix t :: import_transaction and b :: batch_state
  assume act: "tx_active t" "bs_in_transaction b" "bs_outcomes b = []"
    and total: "snd (plain_edges X m (bs_import b)) \<noteq> None"
  let ?us = "map (edge_unit X) (sort_key fst (ic_pending_edges (im_caches (bs_import b))))"
  have "completes (run_units ?us m) (plain_units ?us m)"
    by (rule units_complete) (auto simp: edge_unit_def)
  from this [unfolded completes_def, rule_format, of t "b\<lparr>bs_import := clear_pending (bs_import b)\<rparr>"] act total
  show "\<exists>m' t' b'. resolve_pending_provider_edges_batched X m (t, b) = (Inr m', (t', b')) \<and> bs_outcomes b' = []"
    by (simp add: resolve_pending_provider_edges_batched_def bind_m_def take_pending_edges_def clear_pending_def
        plain_edges_def)
qed

lemma import_work_completes:
  assumes "serializable L"
  shows "completes (import_work X U W L options m captures files cursors)
     (\<lambda>s. plain_then (plain_records X U W L options m captures files s) (plain_cursors L cursors))"
proof -
  have lengths: "u \<in> set (map (line_unit X U W L options) captures) \<Longrightarrow> un_bytes u \<noteq> None"
    "u \<in> set (map (file_unit X W L options) files) \<Longrightarrow> un_bytes u \<noteq> None"
    "u \<in> set (map (cursor_unit L) cursors) \<Longrightarrow> un_bytes u \<noteq> None" for u
    using assms by (auto simp: serializable_def line_unit_def file_unit_def cursor_unit_def)
  have cursors: "completes (if pis_failed s3 = 0 then run_units (map (cursor_unit L) cursors) s3 else return_m s3)
      (plain_cursors L cursors s3)" for s3
  proof -
    have "completes (run_units (map (cursor_unit L) cursors) s3) (plain_units (map (cursor_unit L) cursors) s3)"
      by (rule units_complete) (erule lengths(3))
    then show ?thesis by (simp add: plain_cursors_def completes_def return_m_def)
  qed
  have "completes
     (bind_m (bind_m (run_units (map (line_unit X U W L options) captures) m) (\<lambda>s1.
      bind_m (resolve_pending_provider_edges_batched X s1) (\<lambda>s2.
      run_units (map (file_unit X W L options) files) s2)))
      (\<lambda>s3. if pis_failed s3 = 0 then run_units (map (cursor_unit L) cursors) s3 else return_m s3))
     (\<lambda>s. plain_then (plain_records X U W L options m captures files s) (plain_cursors L cursors))"
    unfolding plain_records_def
    by (intro completes_bind simulates_bind simulates_units simulates_edges units_complete edges_complete cursors)
      (erule lengths)+
  then show ?thesis by (simp only: import_work_def bind_m_assoc)
qed

lemma persist_completes:
  assumes "opt_wrap_transaction options" "settled b" "serializable L" "bs_outcomes b = []"
    "snd (plain_import X U W L options m captures files (bs_import b)) \<noteq> None"
  shows "isl (fst (persist_provider_capture_lines X U W L options m captures files True n b)) = False"
proof -
  let ?cursors = "pending_cursors X options m captures"
  let ?t = "\<lparr>tx_active = True, tx_batch_size = n, tx_units = 0, tx_bytes = 0\<rparr>"
  let ?b = "b\<lparr>bs_in_transaction := True\<rparr>"
  have start: "begin_transaction (True \<and> opt_wrap_transaction options) n b = (Inr ?t, ?b)"
    using assms(1,2,4)
    by (simp add: begin_transaction_def begin_immediate_batch_def settled_def connection_call_def next_outcome_def)
  obtain m' t' b' where work: "import_work X U W L options m captures files ?cursors (?t, ?b) = (Inr m', (t', b'))"
    "bs_outcomes b' = []"
    using import_work_completes [OF assms(3), of X U W options m captures files ?cursors, unfolded completes_def,
        rule_format, of ?t ?b] assms(4,5) by (auto simp: plain_import_def)
  have "tx_active t'" "bs_in_transaction b'"
    using simulatesD(1) [OF simulates_import [folded import_work_def] _ _ work(1) refl] by simp_all
  then have "\<exists>y. commit_transaction (t', b') = (Inr (), y)"
    using work(2)
    by (simp add: commit_transaction_def on_connection_def commit_batch_def connection_call_def next_outcome_def)
  then show ?thesis
    using start work(1) by (auto simp: persist_is_work bind_m_def return_m_def)
qed

section \<open>A run of one line with a cursor\<close>

definition demo_batch :: "call_outcome list \<Rightarrow> batch_state" where
  "demo_batch outcomes = \<lparr>bs_import = empty_state, bs_committed = empty_db, bs_in_transaction = False,
     bs_outcomes = outcomes\<rparr>"

definition demo_lengths :: serialized_lengths where
  "demo_lengths = \<lparr>len_capture = (\<lambda>_. Some 900), len_file = (\<lambda>_. Some 90), len_cursor = (\<lambda>_. Some 90)\<rparr>"

abbreviation "demo_plain \<equiv> plain_import demo_externals demo_unicode (\<lambda>_. ''error'') demo_lengths demo_options
  empty_summary [(4, demo_capture)] []"

abbreviation "demo_persist \<equiv> persist_provider_capture_lines demo_externals demo_unicode (\<lambda>_. ''error'') demo_lengths
  demo_options empty_summary [(4, demo_capture)] [] True (Some 64)"

lemma demo_batch_settled:
  "settled (demo_batch cs)" "bs_import (demo_batch cs) = empty_state" "bs_committed (demo_batch cs) = empty_db"
  "bs_outcomes (demo_batch cs) = cs" "opt_wrap_transaction demo_options" "serializable demo_lengths"
  by (simp_all add: settled_def demo_batch_def empty_state_def demo_options_def serializable_def demo_lengths_def)

lemma demo_cursor: "\<exists>c. provider_sync_cursor demo_externals demo_capture = Some c"
  by (simp add: provider_sync_cursor_def capture_checkpoint_def demo_capture_def)

lemma demo_plain_run: "\<exists>ds m' s'. demo_plain empty_state = (ds, Some (m', s')) \<and> db_cursors (im_db s') \<noteq> []"
proof -
  obtain m t where line: "import_provider_capture_line demo_externals demo_unicode demo_capture demo_options 4 empty_state
      = (Inr m, t)" "ic_pending_edges (im_caches t) = []" "pis_failed m = 0"
    using demo_two_imports by blast
  have "cursors_stay.kept [] empty_state" by (simp add: cursors_stay.kept_def empty_state_def empty_db_def)
  from keeps_step [OF cursors_stay.line_kept this line(1)] have none: "db_cursors (im_db t) = []"
    by (simp add: cursors_stay.kept_def)
  let ?m = "merge_from empty_summary m"
  have m: "pis_failed ?m = 0" using line(3) by (simp add: merge_from_def empty_summary_def)
  have records: "plain_records demo_externals demo_unicode (\<lambda>_. ''error'') demo_lengths demo_options
      empty_summary [(4, demo_capture)] [] empty_state = ([im_db t], Some (?m, clear_pending t))"
    by (simp add: plain_records_def line_unit_def count_failure_def line(1,2) plain_then_eq plain_edges_def)
  obtain c where c: "provider_sync_cursor demo_externals demo_capture = Some c" using demo_cursor by blast
  have cursors: "pending_cursors demo_externals demo_options empty_summary [(4, demo_capture)] = [c]"
    by (simp add: pending_cursors_def List.map_filter_def c demo_options_def empty_summary_def)
  obtain d where "persist_provider_sync_cursor c (im_db t) = Inr d" "db_cursors d \<noteq> []"
    by (auto simp: persist_provider_sync_cursor_def upsert_sync_cursor_def Let_def get_sync_cursor_def
        row_with_def none guard_sql_def)
  then show ?thesis
    by (simp add: plain_import_def records plain_then_eq plain_cursors_def cursors m line(3) run_cursor_unit clear_pending_def)
qed

lemma demo_persist_run:
  "\<exists>m' b'. demo_persist (demo_batch []) = (Inr m', b') \<and> db_cursors (bs_committed b') \<noteq> []"
proof -
  obtain ds m s where plain: "demo_plain empty_state = (ds, Some (m, s))" "db_cursors (im_db s) \<noteq> []"
    using demo_plain_run by blast
  obtain r b' where run: "demo_persist (demo_batch []) = (r, b')" by (rule prod.exhaust)
  have "\<not> isl r"
    using persist_completes [OF demo_batch_settled(5,1,6,4), of demo_externals demo_unicode "\<lambda>_. ''error''"
        empty_summary "[(4, demo_capture)]" "[]" "Some 64"] plain(1) run
    by (simp add: demo_batch_settled)
  then obtain m' where "r = Inr m'" by (cases r) auto
  with persist_transaction(3) [OF demo_batch_settled(5,1) run this] plain run
  show ?thesis by (auto simp: demo_batch_settled)
qed

section \<open>Properties\<close>

text \<open>C5: An import in transactions stores whole units only. Whatever calls to the connection fail, and
  wherever the batches were cut, at the end no transaction is open, the connection sees what is
  committed, and that is the old store or the store after some unit of the same import without
  transactions; if the import returns a summary it is the summary and the store at the end of that
  import.\<close>

theorem import_commits_whole_units:
  assumes "opt_wrap_transaction options" "settled b"
    "persist_provider_capture_lines X U W L options m captures files True n b = (r, b')"
  shows "settled b'
    \<and> bs_committed b' \<in> insert (bs_committed b) (set (fst (plain_import X U W L options m captures files (bs_import b))))
    \<and> (\<forall>m'. r = Inr m' \<longrightarrow> (\<exists>s'. snd (plain_import X U W L options m captures files (bs_import b)) = Some (m', s')
          \<and> bs_committed b' = im_db s'))"
  using persist_transaction [OF assms] by blast

theorem import_commits_whole_units_witness:
  "\<exists>r b'. demo_persist (demo_batch [CallOk, CallFailed (Sql (SqlFailure ''disk full''))]) = (r, b') \<and> settled b'
     \<and> bs_committed b' \<in> insert empty_db (set (fst (demo_plain empty_state)))"
proof -
  obtain r b' where run: "demo_persist (demo_batch [CallOk, CallFailed (Sql (SqlFailure ''disk full''))]) = (r, b')"
    by (rule prod.exhaust)
  from import_commits_whole_units [OF demo_batch_settled(5,1) run] run
  show ?thesis by (simp add: demo_batch_settled)
qed

text \<open>C6: Cursors are committed last: if an import changed a committed cursor, then every line, edge and
  touched file of it was stored without a failure, and apart from cursors the committed store is the one
  after all of them. So a cursor never covers a record that a crash can lose.\<close>

theorem cursors_commit_last:
  assumes "opt_wrap_transaction options" "settled b"
    "persist_provider_capture_lines X U W L options m captures files True n b = (r, b')"
    "db_cursors (bs_committed b') \<noteq> db_cursors (bs_committed b)"
  shows "\<exists>m3 s3. snd (plain_records X U W L options m captures files (bs_import b)) = Some (m3, s3)
    \<and> pis_failed m3 = 0 \<and> without_cursors (bs_committed b') = without_cursors (im_db s3)"
proof -
  let ?records = "plain_records X U W L options m captures files (bs_import b)"
  have "cursors_stay.kept (db_cursors (bs_committed b)) (bs_import b)"
    using assms(2) by (simp add: cursors_stay.kept_def settled_def)
  note same = cursors_stay.records_all_kept [OF this, of X U W L options m captures files,
      unfolded cursors_stay.all_kept_def]
  have "bs_committed b' \<in> set (fst (plain_import X U W L options m captures files (bs_import b)))"
    using persist_transaction(2) [OF assms(1-3)] assms(4) by auto
  moreover have "bs_committed b' \<notin> set (fst ?records)" using same assms(4) by auto
  ultimately obtain m3 s3 where "snd ?records = Some (m3, s3)"
    "bs_committed b' \<in> set (fst (plain_cursors L (pending_cursors X options m captures) m3 s3))"
    unfolding plain_import_def by (cases ?records) (auto simp: plain_then_eq split: option.splits)
  then show ?thesis using plain_cursors_only by blast
qed

theorem cursors_commit_last_witness:
  "\<exists>m' b' m3 s3. demo_persist (demo_batch []) = (Inr m', b')
     \<and> snd (plain_records demo_externals demo_unicode (\<lambda>_. ''error'') demo_lengths demo_options empty_summary
         [(4, demo_capture)] [] empty_state) = Some (m3, s3)
     \<and> without_cursors (bs_committed b') = without_cursors (im_db s3)"
proof -
  obtain m' b' where run: "demo_persist (demo_batch []) = (Inr m', b')" "db_cursors (bs_committed b') \<noteq> []"
    using demo_persist_run by blast
  from cursors_commit_last [OF demo_batch_settled(5,1) run(1)] run
  show ?thesis by (auto simp: demo_batch_settled empty_db_def)
qed

text \<open>C18: On a connection that does not fail, an import whose units all end well returns, with the
  summary and the store of the import without transactions, however its units fall into batches.\<close>

theorem undisturbed_import_completes:
  assumes "opt_wrap_transaction options" "settled b" "serializable L" "bs_outcomes b = []"
    "snd (plain_import X U W L options m captures files (bs_import b)) = Some (m', s')"
  shows "\<exists>b'. persist_provider_capture_lines X U W L options m captures files True n b = (Inr m', b')
    \<and> bs_committed b' = im_db s'"
proof -
  obtain r b' where run: "persist_provider_capture_lines X U W L options m captures files True n b = (r, b')"
    by (rule prod.exhaust)
  have "\<not> isl r" using persist_completes [OF assms(1-4), of X U W m captures files n] assms(5) run by simp
  then obtain m1 where "r = Inr m1" by (cases r) auto
  with persist_transaction(3) [OF assms(1,2) run this] assms(5) run show ?thesis by auto
qed

theorem undisturbed_import_completes_witness:
  "\<exists>ds m' s' b'. demo_plain empty_state = (ds, Some (m', s'))
     \<and> demo_persist (demo_batch []) = (Inr m', b') \<and> bs_committed b' = im_db s'"
proof -
  obtain ds m' s' where plain: "demo_plain empty_state = (ds, Some (m', s'))" using demo_plain_run by blast
  then have "snd (demo_plain (bs_import (demo_batch []))) = Some (m', s')" by (simp add: demo_batch_settled)
  from undisturbed_import_completes [OF demo_batch_settled(5,1,6,4) this, of "Some 64"] plain
  show ?thesis by blast
qed

text \<open>C17: However an import ends, in transactions or without, what is committed satisfies every
  constraint of the store and has lost no row: each id of each table is still there.\<close>

theorem import_keeps_the_store:
  assumes "import_provider_capture_lines X U W L options m captures files b = (r, b')"
    "settled b" "store_ok (bs_committed b)"
  shows "store_ok (bs_committed b') \<and> rows_kept_from (bs_committed b) (bs_committed b')"
  using store_kept.import_kept [OF assms(1)] rows_stay.import_kept [OF assms(1), of "bs_committed b"] assms(2,3)
    kept_updates(1) by (simp add: settled_def)

theorem import_keeps_the_store_witness:
  "\<exists>r b'. import_provider_capture_lines demo_externals demo_unicode (\<lambda>_. ''error'') demo_lengths demo_options
       empty_summary [(4, demo_capture)] [] (demo_batch [CallOk, CallOk, CallAborted (Sql (SqlFailure ''io''))]) = (r, b')
     \<and> store_ok (bs_committed b')"
proof -
  obtain r b' where run: "import_provider_capture_lines demo_externals demo_unicode (\<lambda>_. ''error'') demo_lengths
      demo_options empty_summary [(4, demo_capture)] []
      (demo_batch [CallOk, CallOk, CallAborted (Sql (SqlFailure ''io''))]) = (r, b')"
    by (rule prod.exhaust)
  from import_keeps_the_store [OF run demo_batch_settled(1)] run empty_db_ok show ?thesis
    by (simp add: demo_batch_settled)
qed

end
