(* ===== verification/Codex_Import.thy ===== *)
theory Codex_Import
  imports Codex_Normalize Import_Transaction
begin

text \<open>
  The imports of Codex transcripts (\<open>provider/codex/fast_import.rs\<close> and \<open>session.rs\<close> of
  \<open>ctx-history-capture\<close>): one file written line by line in bounded transactions, the tail of a file
  from a byte offset on, several files normalized first, and a whole tree under its bounds.
\<close>

section \<open>Options\<close>

record codex_import_options =
  co_machine_id :: string
  co_source_path :: "path option"
  co_imported_at :: datetime
  co_history_record_id :: "uuid option"
  co_max_session_files :: "nat option"
  co_max_total_bytes :: "u64 option"
  co_fast_event_inserts :: bool

definition adapter_context_of :: "codex_import_options \<Rightarrow> path \<Rightarrow> path option \<Rightarrow> adapter_context" where
  "adapter_context_of options p root =
     \<lparr>ac_machine_id = co_machine_id options, ac_source_path = Some (display_path p),
      ac_source_root = map_option display_path root, ac_imported_at = co_imported_at options\<rparr>"

definition fast_import_options :: "codex_import_options \<Rightarrow> normalized_provider_import_options" where
  "fast_import_options options =
     \<lparr>opt_history_record_id = co_history_record_id options, opt_persist_cursors = False,
      opt_wrap_transaction = False, opt_fast_event_inserts = True\<rparr>"

definition normal_import_options :: "codex_import_options \<Rightarrow> normalized_provider_import_options" where
  "normal_import_options options =
     \<lparr>opt_history_record_id = co_history_record_id options, opt_persist_cursors = False,
      opt_wrap_transaction = True, opt_fast_event_inserts = co_fast_event_inserts options\<rparr>"

text \<open>What the importers are given: the library functions, the texts of wrapped errors, the serialized
  lengths of envelopes, the files.\<close>

record 'f codex_env =
  ce_externals :: externals
  ce_unicode :: unicode
  ce_error_text :: "capture_error \<Rightarrow> string"
  ce_lib :: "'f transcript_lib"
  ce_lengths :: serialized_lengths
  ce_files :: transcript_files
  ce_parallelism :: nat

section \<open>One event\<close>

definition codex_event_record ::
    "externals \<Rightarrow> codex_session_header \<Rightarrow> provider_event_envelope \<Rightarrow> uuid option \<Rightarrow> nat \<Rightarrow> datetime
     \<Rightarrow> uuid \<Rightarrow> uuid \<Rightarrow> string \<Rightarrow> event_identity \<Rightarrow> run option \<Rightarrow> event" where
  "codex_event_record X header event history_record_id line_number imported_at session_id source_id
       event_hash identity command_run =
     \<lparr>ev_id = ei_id identity, ev_seq = ei_seq identity, ev_history_record_id = history_record_id,
      ev_session_id = Some session_id, ev_run_id = map_option rn_id command_run,
      ev_event_type = pev_event_type event, ev_role = pev_role event,
      ev_occurred_at = pev_occurred_at event, ev_capture_source_id = Some source_id,
      ev_payload = json_object
        [(''provider'', JStr (provider_str CaptureProvider_Codex)), (''provider_session_id'', JStr (ch_id header)),
         (''provider_event_index'', json_u64 (pev_provider_event_index event)),
         (''provider_event_hash'', JStr event_hash), (''cursor'', json_str_opt (pev_cursor event)),
         (''artifacts'', JArr (map artifact_json (pev_artifacts event))), (''body'', pev_payload event)],
      ev_payload_blob_id = None, ev_dedupe_key = Some (ei_dedupe_key identity),
      ev_sync = provider_sync_metadata (pev_fidelity event)
        (json_object
          [(''provider_session_id'', JStr (ch_id header)),
           (''provider_event_index'', json_u64 (pev_provider_event_index event)),
           (''provider_event_hash'', JStr event_hash), (''cursor'', json_str_opt (pev_cursor event)),
           (''source_format'', JStr CODEX_SESSION_SOURCE_FORMAT),
           (''source_trust'', JStr (trust_text ProviderExport)), (''fixture_line'', json_usize line_number),
           (''imported_at'', json_time X imported_at),
           (''event_idempotency_key'', json_str_opt (pev_idempotency_key event)),
           (''metadata'', pev_metadata event)])\<rparr>"

definition import_codex_provider_event_fast ::
    "externals \<Rightarrow> unicode \<Rightarrow> codex_session_header \<Rightarrow> provider_event_envelope \<Rightarrow> uuid option \<Rightarrow> nat \<Rightarrow> datetime
     \<Rightarrow> string option \<Rightarrow> string option \<Rightarrow> provider_import_summary import_action" where
  "import_codex_provider_event_fast X U header event history_record_id line_number imported_at
       raw_source_path given_root =
     bind_m (of_result (validate_provider_event_for_import X event)) (\<lambda>_.
     let provider = CaptureProvider_Codex;
         source_id = provider_scoped_source_uuid X provider (ch_id header) CODEX_SESSION_SOURCE_FORMAT
           raw_source_path;
         source_root = provider_source_root given_root raw_source_path;
         source_identity = provider_source_identity X provider CODEX_SESSION_SOURCE_FORMAT source_root
           raw_source_path None JNull
     in bind_m (read_db (provider_import_session_uuid X provider (ch_id header) source_id source_identity))
          (\<lambda>session_id.
        bind_m (of_result (case compute_payload_hash X (pev_payload event) of
                  None \<Rightarrow> Inl CaptureJson
                | Some h \<Rightarrow> Inr (unwrap_or (pev_provider_event_hash event) h))) (\<lambda>event_hash.
        bind_m (read_db (provider_event_import_identity X provider (ch_id header) source_id
            (pev_provider_event_index event) (pev_provider_event_index event) event_hash None
            (session_id = provider_session_uuid provider (ch_id header)))) (\<lambda>identity.
        bind_m (of_result (provider_command_run_from_event X
            \<lparr>cri_provider = provider, cri_provider_session_id = ch_id header, cri_session_id = session_id,
             cri_source_id = source_id, cri_run_source_id = ei_run_source_id identity,
             cri_history_record_id = history_record_id, cri_event = event, cri_payload = pev_payload event,
             cri_event_hash = event_hash\<rparr>)) (\<lambda>command_run.
        bind_m (optional_run (\<lambda>r. bind_m (write_db_value (insert_run_if_absent r)) (\<lambda>_. return_m ()))
            command_run) (\<lambda>_.
        bind_m (write_db_value (insert_event_if_absent X U
            (codex_event_record X header event history_record_id line_number imported_at session_id source_id
              event_hash identity command_run))) (\<lambda>inserted.
          return_m (count_accepted (count_event inserted empty_summary)))))))))"

section \<open>One line\<close>

fun import_touched_files ::
    "externals \<Rightarrow> normalized_provider_import_options \<Rightarrow> (nat \<times> provider_file_touched_envelope) list
     \<Rightarrow> provider_import_summary \<Rightarrow> provider_import_summary import_action" where
  "import_touched_files X options [] summary = return_m summary"
| "import_touched_files X options ((_, t) # ts) summary =
     bind_m (import_provider_file_touched_line X t options)
       (\<lambda>_. import_touched_files X options ts (count_accepted summary))"

text \<open>The header of the session first, once, then the event, then the touched files.\<close>

definition import_codex_content ::
    "'f codex_env \<Rightarrow> codex_import_options \<Rightarrow> adapter_context \<Rightarrow> codex_session_header \<Rightarrow> bool \<Rightarrow> nat
     \<Rightarrow> provider_event_envelope option \<Rightarrow> (nat \<times> provider_file_touched_envelope) list
     \<Rightarrow> provider_import_summary \<Rightarrow> provider_import_summary import_action" where
  "import_codex_content E options C header persisted line_number event files_touched summary =
     bind_m
       (if persisted then return_m summary
        else bind_m (import_provider_capture_line (ce_externals E) (ce_unicode E)
            (codex_session_capture header None line_number (ch_timestamp header) C)
            (fast_import_options options) line_number) (\<lambda>s. return_m (merge_from summary s))) (\<lambda>s1.
     bind_m
       (case event of
          None \<Rightarrow> return_m s1
        | Some e \<Rightarrow> bind_m (import_codex_provider_event_fast (ce_externals E) (ce_unicode E) header e
            (co_history_record_id options) line_number (ac_imported_at C) (ac_source_path C)
            (source_root_display C)) (\<lambda>s. return_m (merge_from s1 s))) (\<lambda>s2.
       import_touched_files (ce_externals E) (fast_import_options options) files_touched s2))"

record fast_state =
  fa_summary :: provider_import_summary
  fa_header :: "codex_session_header option"
  fa_persisted :: bool
  fa_calls :: call_contexts

definition fa_count :: "(provider_import_summary \<Rightarrow> provider_import_summary) \<Rightarrow> fast_state \<Rightarrow> fast_state" where
  "fa_count f a = a\<lparr>fa_summary := f (fa_summary a)\<rparr>"

text \<open>An entry of a session whose header is known; \<open>prefix_text\<close> puts the file before an error.\<close>

definition import_codex_entry ::
    "'f codex_env \<Rightarrow> codex_import_options \<Rightarrow> adapter_context \<Rightarrow> (string \<Rightarrow> string) \<Rightarrow> codex_session_header
     \<Rightarrow> nat \<Rightarrow> string \<Rightarrow> json \<Rightarrow> fast_state \<Rightarrow> fast_state batch_action" where
  "import_codex_entry E options C prefix_text header line_number line v a =
     (let failed = (\<lambda>e a. fa_count (fail_line line_number (prefix_text (capture_error_text (ce_error_text E) e))) a)
      in case codex_session_line_timestamp (ce_lib E) v (ch_timestamp header) of
           Inl e \<Rightarrow> return_m (failed e a)
         | Inr occurred_at \<Rightarrow>
             (let (capture, calls) = codex_session_line_capture (ce_externals E) (ce_lib E) header v (fa_calls a)
                    line_number occurred_at (ac_source_path C) (source_root_display C);
                  a1 = a\<lparr>fa_calls := calls\<rparr>;
                  notice = (case cl_event capture of
                      None \<Rightarrow> False | Some e \<Rightarrow> pev_event_type e = EventType_Notice);
                  event = (if notice then None else cl_event capture);
                  a2 = (if notice then fa_count count_skipped_event a1 else a1)
              in case (case event of None \<Rightarrow> Inr () | Some e \<Rightarrow> validate_provider_event_for_import (ce_externals E) e) of
                   Inl e \<Rightarrow> return_m (failed e a2)
                 | Inr _ \<Rightarrow>
                     if event = None \<and> cl_files_touched capture = [] then return_m a2
                     else
                       bind_m (prepare_unit (length line)) (\<lambda>_.
                       bind_m (run_on_view (import_codex_content E options C header (fa_persisted a2)
                           line_number event (cl_files_touched capture) (fa_summary a2))) (\<lambda>s.
                       bind_m (record_unit (length line)) (\<lambda>_.
                         return_m (a2\<lparr>fa_summary := s, fa_persisted := True\<rparr>))))))"

section \<open>A file\<close>

definition codex_session_file_failure :: "path \<Rightarrow> string \<Rightarrow> string" where
  "codex_session_file_failure p reason = display_path p @ '': '' @ reason"

definition fast_line ::
    "'f codex_env \<Rightarrow> codex_import_options \<Rightarrow> path \<Rightarrow> nat \<Rightarrow> string \<Rightarrow> fast_state \<Rightarrow> fast_state batch_action" where
  "fast_line E options p line_number line a =
     (let failed = (\<lambda>reason. return_m (fa_count (fail_line line_number (codex_session_file_failure p reason)) a))
      in case codex_line_kind (ce_lib E) line of
           Line_Ignored \<Rightarrow> return_m a
         | Line_Skipped_Output \<Rightarrow> return_m (fa_count count_skipped_event a)
         | Line_Malformed e \<Rightarrow> failed e
         | Line_Value v \<Rightarrow>
             if entry_type_of v = ''session_meta''
             then (case codex_session_header (ce_lib E) v of
                 Inr header \<Rightarrow>
                   return_m (a\<lparr>fa_calls := (\<lambda>_. None), fa_header := Some header, fa_persisted := False\<rparr>)
               | Inl e \<Rightarrow> failed (capture_error_text (ce_error_text E) e))
             else (case fa_header a of
                 None \<Rightarrow> failed ''codex session entry appeared before session_meta''
               | Some header \<Rightarrow>
                   import_codex_entry E options (adapter_context_of options p (co_source_path options))
                     (codex_session_file_failure p) header line_number line v a))"

fun fast_loop ::
    "'f codex_env \<Rightarrow> codex_import_options \<Rightarrow> path \<Rightarrow> (capture_error + jsonl_read \<times> string) list \<Rightarrow> nat
     \<Rightarrow> fast_state \<Rightarrow> provider_import_summary batch_action" where
  "fast_loop E options p [] n a = return_m (fa_summary a)"
| "fast_loop E options p (Inl e # reads) n a = raise_m e"
| "fast_loop E options p (Inr (ReadOversized _, _) # reads) n a =
     (if fa_header a = None then return_m (count_skipped_session (fa_summary a))
      else fast_loop E options p reads (n + 1) (fa_count count_skipped_event a))"
| "fast_loop E options p (Inr (_, line) # reads) n a =
     bind_m (fast_line E options p (n + 1) line a) (\<lambda>a'. fast_loop E options p reads (n + 1) a')"

definition start_fast :: "provider_import_summary \<Rightarrow> fast_state" where
  "start_fast summary =
     \<lparr>fa_summary = summary, fa_header = None, fa_persisted = False, fa_calls = (\<lambda>_. None)\<rparr>"

definition count_skipped_events :: "nat \<Rightarrow> provider_import_summary \<Rightarrow> provider_import_summary" where
  "count_skipped_events n s =
     s\<lparr>pis_skipped := sat_add (pis_skipped s) n, pis_skipped_events := sat_add (pis_skipped_events s) n\<rparr>"

definition scan_without_conversation :: "codex_conversation_scan \<Rightarrow> bool" where
  "scan_without_conversation scan \<longleftrightarrow>
     \<not> sn_has_real_conversation scan \<and> \<not> sn_has_malformed_header scan \<and> \<not> sn_has_malformed_relevant_line scan"

definition import_codex_session_path_fast ::
    "'f codex_env \<Rightarrow> codex_import_options \<Rightarrow> path \<Rightarrow> provider_import_summary \<Rightarrow> provider_import_summary batch_action" where
  "import_codex_session_path_fast E options p summary =
     bind_m (of_result (ensure_regular_provider_transcript_file (tf_tree (ce_files E)) p)) (\<lambda>_.
     bind_m (of_result (codex_session_file_conversation_scan (ce_lib E) (ce_files E) p)) (\<lambda>scan.
       if scan_without_conversation scan
       then return_m
         (if sn_oversized_required_header scan then count_skipped_session summary
          else if sn_oversized_events scan > 0 then count_skipped_events (sn_oversized_events scan) summary
          else fail_line 0 (codex_session_file_failure p
            ''codex session JSONL contained no real message content'') summary)
       else bind_m (of_result (bind_result (tf_open (ce_files E) p) (\<lambda>r. Inr (file_reads r))))
         (\<lambda>reads. fast_loop E options p reads 0 (start_fast summary))))"

fun import_paths_fast_loop ::
    "'f codex_env \<Rightarrow> codex_import_options \<Rightarrow> path list \<Rightarrow> provider_import_summary \<Rightarrow> provider_import_summary batch_action" where
  "import_paths_fast_loop E options [] summary = return_m summary"
| "import_paths_fast_loop E options (p # ps) summary =
     bind_m (import_codex_session_path_fast E options p summary)
       (\<lambda>s. import_paths_fast_loop E options ps s)"

text \<open>The work of a run in a transaction of its own: the edges that wait are resolved, then it commits;
  an error rolls back.\<close>

definition in_bounded_transaction ::
    "'f codex_env \<Rightarrow> bool \<Rightarrow> provider_import_summary batch_action \<Rightarrow> batch_state
     \<Rightarrow> (capture_error + provider_import_summary) \<times> batch_state" where
  "in_bounded_transaction E has_work work b =
     (case begin_transaction has_work provider_transaction_batch_size b of
        (Inl e, b') \<Rightarrow> (Inl e, b')
      | (Inr t, b') \<Rightarrow>
          (case or_rollback
             (bind_m work (\<lambda>s1.
              bind_m (resolve_pending_provider_edges_batched (ce_externals E) s1) (\<lambda>s2.
              bind_m commit_transaction (\<lambda>_. return_m s2)))) (t, b') of
             (r, (_, b'')) \<Rightarrow> (r, b'')))"

definition fresh_caches :: "batch_state \<Rightarrow> batch_state" where
  "fresh_caches b = b\<lparr>bs_import := (bs_import b)\<lparr>im_caches := empty_caches\<rparr>\<rparr>"

text \<open>Bulk search mode around a run: it changes settings of the full-text tables only; both calls can
  fail, and the error of the second hides the one of the run.\<close>

definition in_bulk_mode ::
    "(batch_state \<Rightarrow> (capture_error + provider_import_summary) \<times> batch_state) \<Rightarrow> batch_state
     \<Rightarrow> (capture_error + provider_import_summary) \<times> batch_state" where
  "in_bulk_mode run b =
     (case connection_call (\<lambda>b. b) b of
        (Inl e, b1) \<Rightarrow> (Inl (CaptureStore e), b1)
      | (Inr _, b1) \<Rightarrow>
          (let (result, b2) = run b1; (finished, b3) = connection_call (\<lambda>b. b) b2
           in (case finished of Inl e \<Rightarrow> Inl (CaptureStore e) | Inr _ \<Rightarrow> result, b3)))"

definition skipped_by :: "nat \<Rightarrow> provider_import_summary" where
  "skipped_by n = empty_summary\<lparr>pis_skipped_sessions := n, pis_skipped := n\<rparr>"

definition import_codex_session_paths_fast ::
    "'f codex_env \<Rightarrow> codex_import_options \<Rightarrow> path list \<Rightarrow> nat \<Rightarrow> batch_state
     \<Rightarrow> (capture_error + provider_import_summary) \<times> batch_state" where
  "import_codex_session_paths_fast E options ps skipped_by_bounds =
     in_bulk_mode (\<lambda>b. in_bounded_transaction E (ps \<noteq> [])
       (import_paths_fast_loop E options ps (skipped_by skipped_by_bounds)) (fresh_caches b))"

section \<open>The tail of a file\<close>

text \<open>Lines are passed over until the position is past the offset; \<open>None\<close> when the file ends before.\<close>

fun tail_skip ::
    "nat \<Rightarrow> nat \<Rightarrow> nat \<Rightarrow> provider_import_summary \<Rightarrow> (capture_error + jsonl_read \<times> string) list
     \<Rightarrow> capture_error + (nat \<times> (capture_error + jsonl_read \<times> string) list) option \<times> provider_import_summary" where
  "tail_skip start n position summary reads =
     (if \<not> position < start then Inr (Some (n, reads), summary)
      else case reads of
          [] \<Rightarrow> Inr (None, summary)
        | Inl e # _ \<Rightarrow> Inl e
        | Inr (ReadOversized bytes, _) # rest \<Rightarrow>
            tail_skip start (n + 1) (sat_add position bytes) (count_skipped_event summary) rest
        | Inr (ReadLine bytes, _) # rest \<Rightarrow> tail_skip start (n + 1) (sat_add position bytes) summary rest
        | Inr (ReadEof, _) # _ \<Rightarrow> Inr (None, summary))"

definition tail_line ::
    "'f codex_env \<Rightarrow> codex_import_options \<Rightarrow> path \<Rightarrow> codex_session_header \<Rightarrow> nat \<Rightarrow> string \<Rightarrow> fast_state
     \<Rightarrow> fast_state batch_action" where
  "tail_line E options p header line_number line a =
     (case codex_line_kind (ce_lib E) line of
        Line_Ignored \<Rightarrow> return_m a
      | Line_Skipped_Output \<Rightarrow> return_m (fa_count count_skipped_event a)
      | Line_Malformed e \<Rightarrow> return_m (fa_count (fail_line line_number e) a)
      | Line_Value v \<Rightarrow>
          if jget_str v ''type'' = Some ''session_meta'' then return_m a
          else import_codex_entry E options (adapter_context_of options p None) (\<lambda>s. s) header
            line_number line v a)"

fun tail_loop ::
    "'f codex_env \<Rightarrow> codex_import_options \<Rightarrow> path \<Rightarrow> codex_session_header
     \<Rightarrow> (capture_error + jsonl_read \<times> string) list \<Rightarrow> nat \<Rightarrow> fast_state \<Rightarrow> provider_import_summary batch_action" where
  "tail_loop E options p header [] n a = return_m (fa_summary a)"
| "tail_loop E options p header (Inl e # reads) n a = raise_m e"
| "tail_loop E options p header (Inr (ReadOversized _, _) # reads) n a =
     tail_loop E options p header reads (n + 1) (fa_count count_skipped_event a)"
| "tail_loop E options p header (Inr (_, line) # reads) n a =
     bind_m (tail_line E options p header (n + 1) line a) (\<lambda>a'. tail_loop E options p header reads (n + 1) a')"

definition tail_header ::
    "'f codex_env \<Rightarrow> (capture_error + jsonl_read \<times> string) list \<Rightarrow> capture_error + (codex_session_header \<times> nat) option" where
  "tail_header E reads =
     (case reads of
        Inr (ReadLine bytes, line) # _ \<Rightarrow>
          (case tl_json (ce_lib E) line of
             Inl _ \<Rightarrow> Inl CaptureJson
           | Inr v \<Rightarrow> bind_result (codex_session_header (ce_lib E) v) (\<lambda>h. Inr (Some (h, bytes))))
      | Inl e # _ \<Rightarrow> Inl e
      | _ \<Rightarrow> Inr None)"

definition import_codex_session_jsonl_tail_bounded ::
    "'f codex_env \<Rightarrow> codex_import_options \<Rightarrow> path \<Rightarrow> nat \<Rightarrow> batch_state
     \<Rightarrow> (capture_error + provider_import_summary) \<times> batch_state" where
  "import_codex_session_jsonl_tail_bounded E options p start b =
     (case bind_result (tf_open (ce_files E) p) (\<lambda>r. Inr (file_reads r)) of
        Inl e \<Rightarrow> (Inl e, b)
      | Inr reads \<Rightarrow>
          (case reads of
             Inr (ReadOversized _, _) # _ \<Rightarrow> (Inr (count_skipped_session empty_summary), b)
           | _ \<Rightarrow>
             (case tail_header E reads of
                Inl e \<Rightarrow> (Inl e, b)
              | Inr None \<Rightarrow> (Inr empty_summary, b)
              | Inr (Some (header, bytes)) \<Rightarrow>
                  (case tail_skip start 1 bytes empty_summary (tl reads) of
                     Inl e \<Rightarrow> (Inl e, b)
                   | Inr (None, summary) \<Rightarrow> (Inr summary, b)
                   | Inr (Some (n, rest), summary) \<Rightarrow>
                       in_bounded_transaction E True
                         (tail_loop E options p header rest n (start_fast summary)) b))))"

text \<open>\<open>fs::metadata\<close>.\<close>

definition metadata_len :: "'f codex_env \<Rightarrow> path \<Rightarrow> capture_error + u64" where
  "metadata_len E p = (case tf_len (ce_files E) p of None \<Rightarrow> Inl CaptureIo | Some n \<Rightarrow> Inr n)"

section \<open>Several files\<close>

definition import_normalized_provider_captures ::
    "'f codex_env \<Rightarrow> normalization_result \<Rightarrow> normalized_provider_import_options \<Rightarrow> batch_state
     \<Rightarrow> (capture_error + provider_import_summary) \<times> batch_state" where
  "import_normalized_provider_captures E r options b =
     import_provider_capture_lines (ce_externals E) (ce_unicode E) (ce_error_text E) (ce_lengths E) options
       (nr_summary r) (nr_captures r) (nr_files_touched r) b"

definition import_codex_session_jsonl ::
    "'f codex_env \<Rightarrow> path \<Rightarrow> codex_import_options \<Rightarrow> batch_state
     \<Rightarrow> (capture_error + provider_import_summary) \<times> batch_state" where
  "import_codex_session_jsonl E p options b =
     (if co_fast_event_inserts options then import_codex_session_paths_fast E options [p] 0 b
      else
        let source_path = unwrap_or (co_source_path options) p
        in case normalize_path (ce_externals E) (ce_error_text E) (ce_lib E) (ce_files E) p
               \<lparr>ac_machine_id = co_machine_id options, ac_source_path = Some (display_path source_path),
                ac_source_root = None, ac_imported_at = co_imported_at options\<rparr> of
             Inl e \<Rightarrow> (Inl e, b)
           | Inr r \<Rightarrow>
               if codex_normalization_is_skipped_only r then (Inr (nr_summary r), b)
               else import_normalized_provider_captures E r (normal_import_options options) b)"

definition import_codex_session_jsonl_tail ::
    "'f codex_env \<Rightarrow> path \<Rightarrow> nat \<Rightarrow> codex_import_options \<Rightarrow> batch_state
     \<Rightarrow> (capture_error + provider_import_summary) \<times> batch_state" where
  "import_codex_session_jsonl_tail E p start options b =
     (if start = 0 then import_codex_session_jsonl E p options b
      else case bind_result (ensure_regular_provider_transcript_file (tf_tree (ce_files E)) p)
                  (\<lambda>_. metadata_len E p) of
          Inl e \<Rightarrow> (Inl e, b)
        | Inr total_bytes \<Rightarrow>
            if start \<ge> unat total_bytes then (Inr empty_summary, b)
            else in_bulk_mode (\<lambda>b. import_codex_session_jsonl_tail_bounded E options p start (fresh_caches b)) b)"

definition normalize_codex_session_path ::
    "'f codex_env \<Rightarrow> codex_import_options \<Rightarrow> path \<Rightarrow> capture_error + normalization_result" where
  "normalize_codex_session_path E options p =
     normalize_path (ce_externals E) (ce_error_text E) (ce_lib E) (ce_files E) p
       (adapter_context_of options p (co_source_path options))"

text \<open>The workers take runs of the list and stop at their first error; joined in order they give the
  results in the order of the paths, or the first error in that order.\<close>

fun normalize_codex_session_paths_parallel ::
    "'f codex_env \<Rightarrow> codex_import_options \<Rightarrow> path list \<Rightarrow> capture_error + normalization_result list" where
  "normalize_codex_session_paths_parallel E options [] = Inr []"
| "normalize_codex_session_paths_parallel E options (p # ps) =
     bind_result (normalize_codex_session_path E options p) (\<lambda>r.
       bind_result (normalize_codex_session_paths_parallel E options ps) (\<lambda>rs. Inr (r # rs)))"

definition import_parallelism :: "'f codex_env \<Rightarrow> nat \<Rightarrow> nat" where
  "import_parallelism E path_count =
     (if path_count \<le> 1 then 1 else min (min (ce_parallelism E) path_count) 8)"

definition merge_normalized :: "normalization_result list \<Rightarrow> normalization_result" where
  "merge_normalized rs =
     \<lparr>nr_summary = foldl (\<lambda>s r. merge_from s (nr_summary r)) empty_summary rs,
      nr_captures = concat (map nr_captures rs), nr_files_touched = concat (map nr_files_touched rs)\<rparr>"

definition import_codex_chunk ::
    "'f codex_env \<Rightarrow> codex_import_options \<Rightarrow> path list \<Rightarrow> provider_import_summary \<Rightarrow> batch_state
     \<Rightarrow> (capture_error + provider_import_summary) \<times> batch_state" where
  "import_codex_chunk E options chunk merged b =
     (case normalize_codex_session_paths_parallel E options chunk of
        Inl e \<Rightarrow> (Inl e, b)
      | Inr rs \<Rightarrow>
          (let r = merge_normalized rs
           in if codex_normalization_is_skipped_only r then (Inr (merge_from merged (nr_summary r)), b)
              else case import_normalized_provider_captures E r (normal_import_options options) b of
                  (Inl e, b') \<Rightarrow> (Inl e, b')
                | (Inr s, b') \<Rightarrow> (Inr (merge_from merged s), b')))"

text \<open>\<open>paths.chunks(n)\<close> with \<open>n = k + 1\<close>.\<close>

function import_codex_chunks ::
    "'f codex_env \<Rightarrow> codex_import_options \<Rightarrow> nat \<Rightarrow> path list \<Rightarrow> provider_import_summary \<Rightarrow> batch_state
     \<Rightarrow> (capture_error + provider_import_summary) \<times> batch_state" where
  "import_codex_chunks E options k ps merged b =
     (if ps = [] then (Inr merged, b)
      else case import_codex_chunk E options (take (Suc k) ps) merged b of
          (Inl e, b') \<Rightarrow> (Inl e, b')
        | (Inr s, b') \<Rightarrow> import_codex_chunks E options k (drop (Suc k) ps) s b')"
  by pat_completeness auto
termination
  by (relation "measure (\<lambda>(E, options, k, ps, merged, b). length ps)") auto

declare import_codex_chunks.simps [simp del]

definition import_codex_session_paths_parallel_normalized ::
    "'f codex_env \<Rightarrow> codex_import_options \<Rightarrow> path list \<Rightarrow> nat \<Rightarrow> batch_state
     \<Rightarrow> (capture_error + provider_import_summary) \<times> batch_state" where
  "import_codex_session_paths_parallel_normalized E options ps skipped_by_bounds =
     in_bulk_mode (import_codex_chunks E options (max (import_parallelism E (length ps) * 8) 16 - 1) ps
       (skipped_by skipped_by_bounds))"

definition common_prefix :: "path \<Rightarrow> path \<Rightarrow> path" where
  "common_prefix a b = map fst (takeWhile (\<lambda>(x, y). x = y) (zip a b))"

text \<open>Popping the root until it is a prefix of the next parent leaves what they have in common.\<close>

definition codex_common_source_root :: "path list \<Rightarrow> path option" where
  "codex_common_source_root ps =
     (case map butlast (filter (\<lambda>p. p \<noteq> []) ps) of
        [] \<Rightarrow> None
      | root # parents \<Rightarrow> Some (foldl common_prefix root parents))"

fun all_regular :: "node \<Rightarrow> path list \<Rightarrow> capture_error + unit" where
  "all_regular fs [] = Inr ()"
| "all_regular fs (p # ps) = bind_result (ensure_regular_provider_transcript_file fs p) (\<lambda>_. all_regular fs ps)"

definition import_codex_paths_by ::
    "'f codex_env \<Rightarrow> codex_import_options \<Rightarrow> path list \<Rightarrow> nat \<Rightarrow> batch_state
     \<Rightarrow> (capture_error + provider_import_summary) \<times> batch_state" where
  "import_codex_paths_by E options ps skipped_by_bounds b =
     (if co_fast_event_inserts options \<and> length ps \<le> 1
      then import_codex_session_paths_fast E options ps skipped_by_bounds b
      else import_codex_session_paths_parallel_normalized E options ps skipped_by_bounds b)"

definition import_codex_session_paths ::
    "'f codex_env \<Rightarrow> path list \<Rightarrow> codex_import_options \<Rightarrow> batch_state
     \<Rightarrow> (capture_error + provider_import_summary) \<times> batch_state" where
  "import_codex_session_paths E ps options b =
     (case all_regular (tf_tree (ce_files E)) ps of
        Inl e \<Rightarrow> (Inl e, b)
      | Inr _ \<Rightarrow>
          import_codex_paths_by E
            (options\<lparr>co_source_path := or_else (co_source_path options) (codex_common_source_root ps)\<rparr>) ps 0 b)"

section \<open>A tree under its bounds\<close>

text \<open>From the last path back: a path is left out when the limit of files is reached, or its bytes
  would pass the limit; the metadata of an unreadable file count as empty.\<close>

fun select_within_bounds ::
    "'f codex_env \<Rightarrow> nat option \<Rightarrow> nat option \<Rightarrow> path list \<Rightarrow> path list \<Rightarrow> nat \<Rightarrow> path list" where
  "select_within_bounds E max_files max_total [] selected total_bytes = selected"
| "select_within_bounds E max_files max_total (p # ps) selected total_bytes =
     (let len = unat (unwrap_or (tf_len (ce_files E) p) 0)
      in if (case max_files of None \<Rightarrow> False | Some limit \<Rightarrow> length selected \<ge> limit)
           \<or> (case max_total of None \<Rightarrow> False | Some limit \<Rightarrow> sat_add total_bytes len > limit)
         then select_within_bounds E max_files max_total ps selected total_bytes
         else select_within_bounds E max_files max_total ps (selected @ [p]) (sat_add total_bytes len))"

definition apply_codex_session_import_bounds ::
    "'f codex_env \<Rightarrow> nat option \<Rightarrow> u64 option \<Rightarrow> path list \<Rightarrow> path list \<times> nat" where
  "apply_codex_session_import_bounds E max_files max_total given =
     (let ps = sort given
      in if max_files = None \<and> max_total = None then (ps, 0)
         else
           let selected = sort (select_within_bounds E max_files (map_option unat max_total) (rev ps) [] 0)
           in (selected, sat_sub (length ps) (length selected)))"

definition import_codex_session_tree ::
    "'f codex_env \<Rightarrow> path \<Rightarrow> codex_import_options \<Rightarrow> batch_state
     \<Rightarrow> (capture_error + provider_import_summary) \<times> batch_state" where
  "import_codex_session_tree E root options b =
     (case collect_jsonl_paths (tf_tree (ce_files E)) root of
        Inl e \<Rightarrow> (Inl e, b)
      | Inr collected \<Rightarrow>
          (let (ps, skipped) = apply_codex_session_import_bounds E (co_max_session_files options)
                 (co_max_total_bytes options) collected
           in import_codex_paths_by E
                (options\<lparr>co_source_path := or_else (co_source_path options) (Some root)\<rparr>) ps skipped b))"

definition codex_session_paths :: "'f codex_env \<Rightarrow> path \<Rightarrow> capture_error + path list" where
  "codex_session_paths E root =
     bind_result (collect_jsonl_paths (tf_tree (ce_files E)) root) (\<lambda>ps. Inr (sort ps))"

section \<open>What every write keeps, the imports keep\<close>

context import_records
begin

definition over :: "'f codex_env \<Rightarrow> bool" where
  "over E \<longleftrightarrow> ce_externals E = X \<and> ce_unicode E = U"

lemma new_event_kept: "keeps kept (write_db_value (insert_event_if_absent X U e))"
  by (rule write_value_kept) (erule (1) keeps_new_event)

lemma codex_event_kept: "keeps kept (import_codex_provider_event_fast X U header e h n t p r)"
  unfolding import_codex_provider_event_fast_def Let_def read_db_def
  by (intro step_kept run_kept new_event_kept)

lemma touched_files_kept: "keeps kept (import_touched_files X opts ts m)"
proof (induction ts arbitrary: m)
  case (Cons t ts)
  obtain n f where t: "t = (n, f)" by (rule prod.exhaust)
  show ?case unfolding t import_touched_files.simps by (intro step_kept file_kept Cons.IH)
qed (simp add: step_kept)

lemma overD: "over E \<Longrightarrow> ce_externals E = X" "over E \<Longrightarrow> ce_unicode E = U"
  by (simp_all add: over_def)

lemma content_kept:
  assumes "over E"
  shows "keeps kept (import_codex_content E opts C header persisted n e ts m)"
  unfolding import_codex_content_def overD [OF assms]
  by (intro step_kept line_kept codex_event_kept touched_files_kept)

lemma keeps_sum:
  "(\<And>e. r = Inl e \<Longrightarrow> keeps Q (f e)) \<Longrightarrow> (\<And>x. r = Inr x \<Longrightarrow> keeps Q (g x)) \<Longrightarrow>
   keeps Q (case r of Inl e \<Rightarrow> f e | Inr x \<Rightarrow> g x)"
  by (cases r) auto

lemma entry_kept:
  assumes "over E"
  shows "keeps both_kept (import_codex_entry E opts C f header n line v a)"
  unfolding import_codex_entry_def Let_def case_prod_beta
  by (intro keeps_sum keeps_intros unit_bounds_kept view_kept content_kept assms)

lemma lines_kept:
  assumes "over E"
  shows "keeps both_kept (fast_line E opts p n line a)" "keeps both_kept (tail_line E opts p header n line a)"
  using entry_kept [OF assms]
  by (auto simp: fast_line_def tail_line_def Let_def intro!: keeps_intros keeps_sum split: line_kind.split option.split)

lemma loops_kept:
  assumes "over E"
  shows "keeps both_kept (fast_loop E opts p reads n a)" "keeps both_kept (tail_loop E opts p header reads n a)"
proof -
  show "keeps both_kept (fast_loop E opts p reads n a)"
    using assms by (induction E opts p reads n a rule: fast_loop.induct) (auto intro!: keeps_intros lines_kept)
  show "keeps both_kept (tail_loop E opts p header reads n a)"
    using assms by (induction E opts p header reads n a rule: tail_loop.induct) (auto intro!: keeps_intros lines_kept)
qed

lemma paths_kept:
  assumes "over E"
  shows "keeps both_kept (import_paths_fast_loop E opts ps m)"
  using assms
  by (induction E opts ps m rule: import_paths_fast_loop.induct)
    (auto simp: import_codex_session_path_fast_def intro!: keeps_intros loops_kept)

lemma fresh_state: "both_kept (t, fresh_caches b) = both_kept (t, b)"
  by (simp add: both_state fresh_caches_def)

lemma transaction_work_kept:
  assumes "over E" "keeps both_kept work" "in_bounded_transaction E has work b = (r, b')" "both_kept (t, b)"
  shows "both_kept (t', b')"
proof -
  obtain r0 b0 where start: "begin_transaction has provider_transaction_batch_size b = (r0, b0)" by force
  have b0: "both_kept (u, b0)" for u using begin_kept [OF start assms(4)] .
  let ?whole = "or_rollback (bind_m work (\<lambda>s1.
      bind_m (resolve_pending_provider_edges_batched (ce_externals E) s1) (\<lambda>s2.
      bind_m commit_transaction (\<lambda>_. return_m s2))))"
  have whole: "keeps both_kept ?whole"
    unfolding overD [OF assms(1)] by (intro or_rollback_kept keeps_intros assms(2) commit_kept edges_kept)
  show ?thesis
  proof (cases r0)
    case (Inl e)
    then show ?thesis using assms(3) start b0 by (simp add: in_bounded_transaction_def)
  next
    case (Inr u)
    obtain r1 u1 b1 where run: "?whole (u, b0) = (r1, (u1, b1))" by (metis prod.exhaust)
    from keeps_step [OF whole b0 run] assms(3) start Inr run show ?thesis
      by (simp add: in_bounded_transaction_def both_state)
  qed
qed

text \<open>An importer of a connection.\<close>

definition run_kept_by :: "(batch_state \<Rightarrow> 'r \<times> batch_state) \<Rightarrow> bool" where
  "run_kept_by run \<longleftrightarrow> (\<forall>t t' b. both_kept (t, b) \<longrightarrow> both_kept (t', snd (run b)))"

lemma run_kept_byD: "run_kept_by run \<Longrightarrow> both_kept (t, b) \<Longrightarrow> run b = (r, b') \<Longrightarrow> both_kept (t', b')"
  by (force simp: run_kept_by_def)

lemma run_kept_byI:
  "(\<And>t t' b r b'. run b = (r, b') \<Longrightarrow> both_kept (t, b) \<Longrightarrow> both_kept (t', b')) \<Longrightarrow> run_kept_by run"
  unfolding run_kept_by_def by (metis prod.collapse)

lemma bulk_kept:
  assumes "run_kept_by run"
  shows "run_kept_by (in_bulk_mode run)"
proof (rule run_kept_byI)
  fix t t' b r b'
  assume whole: "in_bulk_mode run b = (r, b')" and b: "both_kept (t, b)"
  obtain r1 b1 where first: "connection_call (\<lambda>b. b) b = (r1, b1)" by (rule prod.exhaust)
  have b1: "both_kept (t, b1)" by (rule idle_call_kept [OF first b])
  obtain r2 b2 where second: "run b1 = (r2, b2)" by (rule prod.exhaust)
  have b2: "both_kept (t, b2)" by (rule run_kept_byD [OF assms b1 second])
  obtain r3 b3 where third: "connection_call (\<lambda>b. b) b2 = (r3, b3)" by (rule prod.exhaust)
  have b3: "both_kept (t, b3)" by (rule idle_call_kept [OF third b2])
  have "b' = b1 \<or> b' = b3"
    using whole by (auto simp: in_bulk_mode_def first second third split: sum.splits)
  with b1 b3 show "both_kept (t', b')" by (auto simp: both_state)
qed

lemma fast_paths_kept:
  assumes "over E"
  shows "run_kept_by (import_codex_session_paths_fast E opts ps k)"
  unfolding import_codex_session_paths_fast_def
  by (intro bulk_kept run_kept_byI)
    (erule transaction_work_kept [OF assms paths_kept [OF assms]], simp add: both_state fresh_caches_def)

lemma tail_bounded_kept:
  assumes "over E"
  shows "run_kept_by (\<lambda>b. import_codex_session_jsonl_tail_bounded E opts p start (fresh_caches b))"
proof (rule run_kept_byI)
  fix t t' b r b'
  assume whole: "import_codex_session_jsonl_tail_bounded E opts p start (fresh_caches b) = (r, b')"
    and b: "both_kept (t, b)"
  let ?b = "fresh_caches b"
  have fresh: "both_kept (u, ?b)" for u using b by (simp add: both_state fresh_caches_def)
  consider "b' = ?b" | header rest n s where
      "in_bounded_transaction E True (tail_loop E opts p header rest n s) ?b = (r, b')"
    using whole unfolding import_codex_session_jsonl_tail_bounded_def
    by (auto split: sum.splits list.splits prod.splits jsonl_read.splits option.splits)
  then show "both_kept (t', b')"
    by cases (use fresh transaction_work_kept [OF assms loops_kept(2) [OF assms] _ fresh] in auto)
qed

end

context import_invariant
begin

lemma captures_kept: "over E \<Longrightarrow> run_kept_by (import_normalized_provider_captures E r opts)"
  unfolding import_normalized_provider_captures_def
  by (rule run_kept_byI) (use import_kept in \<open>simp add: overD both_state\<close>)

lemma chunk_kept:
  assumes "over E"
  shows "run_kept_by (import_codex_chunk E opts ps merged)"
  by (rule run_kept_byI)
    (auto simp: import_codex_chunk_def Let_def both_state split: sum.splits if_splits prod.splits
      dest: run_kept_byD [OF captures_kept [OF assms], rotated])

lemma chunks_kept:
  assumes "over E"
  shows "run_kept_by (import_codex_chunks E opts k ps merged)"
proof (induction ps arbitrary: merged rule: length_induct)
  case (1 ps)
  show ?case
  proof (rule run_kept_byI)
    fix t t' b r b'
    assume run: "import_codex_chunks E opts k ps merged b = (r, b')" and b: "both_kept (t, b)"
    show "both_kept (t', b')"
    proof (cases "ps = []")
      case True
      with run b show ?thesis by (simp add: import_codex_chunks.simps both_state)
    next
      case False
      obtain r1 b1 where first: "import_codex_chunk E opts (take (Suc k) ps) merged b = (r1, b1)"
        by (rule prod.exhaust)
      have b1: "both_kept (u, b1)" for u by (rule run_kept_byD [OF chunk_kept [OF assms] b first])
      have rest: "run_kept_by (import_codex_chunks E opts k (drop (Suc k) ps) m)" for m
        using 1 False by simp
      show ?thesis
        using run b1 run_kept_byD [OF rest b1]
        by (subst (asm) import_codex_chunks.simps) (simp add: False first split: sum.splits)
    qed
  qed
qed

lemma by_kept:
  assumes "over E"
  shows "run_kept_by (import_codex_paths_by E opts ps k)"
proof -
  have "run_kept_by (import_codex_session_paths_parallel_normalized E opts ps k)"
    unfolding import_codex_session_paths_parallel_normalized_def by (intro bulk_kept chunks_kept assms)
  with fast_paths_kept [OF assms] show ?thesis
    unfolding run_kept_by_def import_codex_paths_by_def by simp
qed

lemma unchanged_kept: "run_kept_by (\<lambda>b. (r, b))"
  by (simp add: run_kept_by_def both_state)

lemma run_kept_cases:
  "(\<And>e. x = Inl e \<Longrightarrow> run_kept_by (f e)) \<Longrightarrow> (\<And>y. x = Inr y \<Longrightarrow> run_kept_by (g y)) \<Longrightarrow>
   run_kept_by (\<lambda>b. case x of Inl e \<Rightarrow> f e b | Inr y \<Rightarrow> g y b)"
  "(c \<Longrightarrow> run_kept_by run) \<Longrightarrow> (\<not> c \<Longrightarrow> run_kept_by run') \<Longrightarrow> run_kept_by (\<lambda>b. if c then run b else run' b)"
  by (cases x; simp) (cases c; simp)

lemmas run_kept_intros = run_kept_cases unchanged_kept captures_kept by_kept fast_paths_kept

lemma file_import_kept:
  assumes "over E"
  shows "run_kept_by (import_codex_session_jsonl E p opts)"
  unfolding import_codex_session_jsonl_def Let_def by (intro run_kept_intros assms)

lemma tail_import_kept:
  assumes "over E"
  shows "run_kept_by (import_codex_session_jsonl_tail E p start opts)"
  unfolding import_codex_session_jsonl_tail_def
  by (intro run_kept_intros file_import_kept bulk_kept tail_bounded_kept assms)

lemma tree_import_kept:
  assumes "over E"
  shows "run_kept_by (import_codex_session_tree E root opts)"
    "run_kept_by (import_codex_session_paths E ps opts)"
  unfolding import_codex_session_tree_def import_codex_session_paths_def Let_def case_prod_beta
  by (intro run_kept_intros assms)+

end

end
