(* ===== verification/Catalog.thy ===== *)
theory Catalog
  imports Store_Entities
begin

text \<open>
  The catalog of the transcript files on disk (\<open>catalog.rs\<close> of \<open>ctx-history-store\<close>): which files a
  source has, which of them changed since their last import, which still have to be imported. The
  tables are \<open>catalog_sessions\<close>, one row per path, and \<open>source_import_files\<close>, one row per provider,
  root and path. A row holds the struct it was written from, its sizes capped to 63 bits. A query
  without ORDER BY gives its rows in table order. A loop of statements can stop halfway: its result
  comes with the rows written so far.
\<close>

section \<open>Data\<close>

record catalog_session =
  cg_provider :: capture_provider
  cg_source_format :: string
  cg_source_root :: string
  cg_source_path :: string
  cg_external_session_id :: "string option"
  cg_parent_external_session_id :: "string option"
  cg_agent_type :: agent_type
  cg_role_hint :: "string option"
  cg_external_agent_id :: "string option"
  cg_cwd :: "string option"
  cg_session_started_at_ms :: "int option"
  cg_file_size_bytes :: u64
  cg_file_modified_at_ms :: int
  cg_cataloged_at_ms :: int
  cg_metadata :: json

record catalog_source_index_update =
  cu_source_root :: string
  cu_source_path :: string
  cu_file_size_bytes :: u64
  cu_file_modified_at_ms :: int
  cu_file_sha256 :: "string option"
  cu_event_count :: "u64 option"
  cu_indexed_at_ms :: int

record catalog_source_index_state =
  li_file_size_bytes :: "u64 option"
  li_file_modified_at_ms :: "int option"
  li_event_count :: "u64 option"
  li_at_ms :: "int option"
  li_file_sha256 :: "string option"

record source_import_file =
  sf_provider :: capture_provider
  sf_source_format :: string
  sf_source_root :: string
  sf_source_path :: string
  sf_file_size_bytes :: u64
  sf_file_modified_at_ms :: int
  sf_observed_at_ms :: int
  sf_metadata :: json

record source_import_file_index_update =
  su_source_root :: string
  su_source_path :: string
  su_file_size_bytes :: u64
  su_file_modified_at_ms :: int
  su_indexed_at_ms :: int

record catalog_counts =
  cc_total :: nat
  cc_indexed :: nat
  cc_stale :: nat
  cc_pending :: nat
  cc_failed :: nat

record indexed_history_counts =
  hc_sessions :: nat
  hc_events :: nat

definition items :: "indexed_history_counts \<Rightarrow> nat" where
  "items c = sat_add (hc_sessions c) (hc_events c)"

datatype catalog_indexed_status = Pending | Indexed | Failed

section \<open>Rows\<close>

text \<open>The columns \<open>indexed_*\<close> both tables have.\<close>

record file_index =
  ix_at_ms :: "int option"
  ix_file_size_bytes :: "u64 option"
  ix_file_modified_at_ms :: "int option"
  ix_status :: catalog_indexed_status
  ix_error :: "string option"

definition not_indexed :: file_index where
  "not_indexed =
     \<lparr>ix_at_ms = None, ix_file_size_bytes = None, ix_file_modified_at_ms = None, ix_status = Pending,
      ix_error = None\<rparr>"

definition indexed_as :: "int \<Rightarrow> u64 \<Rightarrow> int \<Rightarrow> file_index" where
  "indexed_as at sz modified =
     \<lparr>ix_at_ms = Some at, ix_file_size_bytes = Some sz, ix_file_modified_at_ms = Some modified,
      ix_status = Indexed, ix_error = None\<rparr>"

definition failed_with :: "int \<Rightarrow> string \<Rightarrow> file_index" where
  "failed_with at error =
     \<lparr>ix_at_ms = Some at, ix_file_size_bytes = None, ix_file_modified_at_ms = None, ix_status = Failed,
      ix_error = Some error\<rparr>"

definition never_imported :: catalog_source_index_state where
  "never_imported =
     \<lparr>li_file_size_bytes = None, li_file_modified_at_ms = None, li_event_count = None, li_at_ms = None,
      li_file_sha256 = None\<rparr>"

record catalog_row =
  ct_session :: catalog_session
  ct_is_stale :: bool
  ct_index :: file_index
  ct_indexed_event_count :: "u64 option"
  ct_last_imported :: catalog_source_index_state

record source_import_row =
  sr_file :: source_import_file
  sr_is_stale :: bool
  sr_index :: file_index

definition capped_i64 :: "u64 \<Rightarrow> u64" where
  "capped_i64 v = min v (2 ^ 63 - 1)"

lemma capped_i64_idem [simp]: "capped_i64 (capped_i64 v) = capped_i64 v"
  by (simp add: capped_i64_def)

abbreviation row_path :: "catalog_row \<Rightarrow> string" where
  "row_path r \<equiv> cg_source_path (ct_session r)"

definition of_source :: "capture_provider \<Rightarrow> string \<Rightarrow> catalog_row \<Rightarrow> bool" where
  "of_source provider root r \<longleftrightarrow>
     cg_provider (ct_session r) = provider \<and> cg_source_root (ct_session r) = root"

text \<open>The result of an UPDATE: how many rows matched, and the new table.\<close>

definition update_rows :: "('r \<Rightarrow> bool) \<Rightarrow> ('r \<Rightarrow> 'r) \<Rightarrow> 'r list \<Rightarrow> nat \<times> 'r list" where
  "update_rows matches change rows =
     (length (filter matches rows), map (\<lambda>r. if matches r then change r else r) rows)"

section \<open>Catalog sessions\<close>

definition mark_catalog_source_stale ::
    "capture_provider \<Rightarrow> string \<Rightarrow> int \<Rightarrow> catalog_row list \<Rightarrow> nat \<times> catalog_row list" where
  "mark_catalog_source_stale provider root at rows =
     update_rows (of_source provider root)
       (\<lambda>r. r\<lparr>ct_is_stale := True, ct_session := (ct_session r)\<lparr>cg_cataloged_at_ms := at\<rparr>\<rparr>) rows"

definition stored_catalog_session :: "catalog_session \<Rightarrow> catalog_session" where
  "stored_catalog_session s = s\<lparr>cg_file_size_bytes := capped_i64 (cg_file_size_bytes s)\<rparr>"

definition new_catalog_row :: "catalog_session \<Rightarrow> catalog_row" where
  "new_catalog_row s =
     \<lparr>ct_session = stored_catalog_session s, ct_is_stale = False, ct_index = not_indexed,
      ct_indexed_event_count = None, ct_last_imported = never_imported\<rparr>"

definition same_file :: "catalog_session \<Rightarrow> catalog_session \<Rightarrow> bool" where
  "same_file old new \<longleftrightarrow>
     cg_file_size_bytes old = cg_file_size_bytes new
     \<and> cg_file_modified_at_ms old = cg_file_modified_at_ms new"

text \<open>The second WHEN: the file has grown, and it was imported to its end before.\<close>

definition grew_after_import :: "catalog_row \<Rightarrow> catalog_session \<Rightarrow> bool" where
  "grew_after_import old new \<longleftrightarrow>
     cg_file_size_bytes new > cg_file_size_bytes (ct_session old)
     \<and> ix_status (ct_index old) = Indexed
     \<and> ix_file_size_bytes (ct_index old) = Some (cg_file_size_bytes (ct_session old))
     \<and> ix_file_modified_at_ms (ct_index old) = Some (cg_file_modified_at_ms (ct_session old))
     \<and> li_file_size_bytes (ct_last_imported old) = Some (cg_file_size_bytes (ct_session old))"

definition catalog_row_differs :: "externals \<Rightarrow> catalog_row \<Rightarrow> catalog_session \<Rightarrow> bool" where
  "catalog_row_differs X row new \<longleftrightarrow>
     (let old = ct_session row
      in cg_provider old \<noteq> cg_provider new
         \<or> cg_source_format old \<noteq> cg_source_format new
         \<or> cg_source_root old \<noteq> cg_source_root new
         \<or> cg_external_session_id old \<noteq> cg_external_session_id new
         \<or> cg_parent_external_session_id old \<noteq> cg_parent_external_session_id new
         \<or> cg_agent_type old \<noteq> cg_agent_type new
         \<or> cg_role_hint old \<noteq> cg_role_hint new
         \<or> cg_external_agent_id old \<noteq> cg_external_agent_id new
         \<or> cg_cwd old \<noteq> cg_cwd new
         \<or> cg_session_started_at_ms old \<noteq> cg_session_started_at_ms new
         \<or> cg_file_size_bytes old \<noteq> cg_file_size_bytes new
         \<or> cg_file_modified_at_ms old \<noteq> cg_file_modified_at_ms new
         \<or> ct_is_stale row
         \<or> json_text X (cg_metadata old) \<noteq> json_text X (cg_metadata new))"

definition merge_catalog_row :: "externals \<Rightarrow> catalog_row \<Rightarrow> catalog_row \<Rightarrow> catalog_row" where
  "merge_catalog_row X old excluded =
     (let new = ct_session excluded; same = same_file (ct_session old) new
      in if \<not> catalog_row_differs X old new then old
         else \<lparr>ct_session = new, ct_is_stale = False,
               ct_index = (if same then ct_index old else not_indexed),
               ct_indexed_event_count = (if same then ct_indexed_event_count old else None),
               ct_last_imported =
                 (if same then ct_last_imported old
                  else if grew_after_import old new then ct_last_imported old
                  else never_imported)\<rparr>)"

fun upsert_catalog_sessions ::
    "externals \<Rightarrow> catalog_session list \<Rightarrow> catalog_row list \<Rightarrow> (store_error + unit) \<times> catalog_row list" where
  "upsert_catalog_sessions X [] rows = (Inr (), rows)"
| "upsert_catalog_sessions X (s # ss) rows =
     (case json_text X (cg_metadata s) of
        None \<Rightarrow> (Inl JsonError, rows)
      | Some _ \<Rightarrow> upsert_catalog_sessions X ss
          (upsert_row row_path (merge_catalog_row X) (new_catalog_row s) rows))"

definition list_catalog_sessions_for_source ::
    "capture_provider \<Rightarrow> string \<Rightarrow> catalog_row list \<Rightarrow> catalog_session list" where
  "list_catalog_sessions_for_source provider root rows = map ct_session (filter (of_source provider root) rows)"

definition catalog_source_stale_session_count ::
    "capture_provider \<Rightarrow> string \<Rightarrow> catalog_row list \<Rightarrow> nat" where
  "catalog_source_stale_session_count provider root rows =
     length (filter (\<lambda>r. of_source provider root r \<and> ct_is_stale r) rows)"

definition mark_catalog_source_missing_paths_stale ::
    "capture_provider \<Rightarrow> string \<Rightarrow> string list \<Rightarrow> int \<Rightarrow> catalog_row list \<Rightarrow> nat \<times> catalog_row list" where
  "mark_catalog_source_missing_paths_stale provider root current_paths at rows =
     update_rows (\<lambda>r. of_source provider root r \<and> row_path r \<notin> set current_paths)
       (\<lambda>r. r\<lparr>ct_is_stale := True, ct_session := (ct_session r)\<lparr>cg_cataloged_at_ms := at\<rparr>\<rparr>) rows"

text \<open>The subquery on the sessions: the transcript's session was imported from the same root, or
  from no source.\<close>

definition session_imported :: "db \<Rightarrow> catalog_row \<Rightarrow> bool" where
  "session_imported d r \<longleftrightarrow>
     list_ex (\<lambda>s. se_provider s = cg_provider (ct_session r)
                \<and> cg_external_session_id (ct_session r) \<noteq> None
                \<and> se_external_session_id s = cg_external_session_id (ct_session r)
                \<and> (se_capture_source_id s = None
                   \<or> (case source_of d s of
                        None \<Rightarrow> False
                      | Some source \<Rightarrow>
                          csd_source_root (cs_descriptor source) = Some (cg_source_root (ct_session r)))))
       (db_sessions d)"

definition file_pending :: "u64 \<Rightarrow> int \<Rightarrow> file_index \<Rightarrow> bool" where
  "file_pending sz modified ix \<longleftrightarrow>
     ix_status ix \<noteq> Indexed
     \<or> ix_file_size_bytes ix = None
     \<or> ix_file_modified_at_ms ix = None
     \<or> ix_file_size_bytes ix \<noteq> Some sz
     \<or> ix_file_modified_at_ms ix \<noteq> Some modified"

definition file_indexed :: "u64 \<Rightarrow> int \<Rightarrow> file_index \<Rightarrow> bool" where
  "file_indexed sz modified ix \<longleftrightarrow>
     ix_status ix = Indexed \<and> ix_file_size_bytes ix = Some sz
     \<and> ix_file_modified_at_ms ix = Some modified"

definition catalog_pending_import :: "db \<Rightarrow> catalog_row \<Rightarrow> bool" where
  "catalog_pending_import d r \<longleftrightarrow>
     file_pending (cg_file_size_bytes (ct_session r)) (cg_file_modified_at_ms (ct_session r)) (ct_index r)
     \<or> \<not> session_imported d r"

text \<open>\<open>ORDER BY session_started_at_ms, source_path\<close>: NULL comes first.\<close>

definition started_order :: "int option \<Rightarrow> nat \<times> int" where
  "started_order t = (case t of None \<Rightarrow> (0, 0) | Some ms \<Rightarrow> (1, ms))"

definition list_pending_catalog_sessions ::
    "capture_provider \<Rightarrow> string \<Rightarrow> db \<Rightarrow> catalog_row list \<Rightarrow> catalog_session list" where
  "list_pending_catalog_sessions provider root d rows =
     map ct_session
       (sort_key (\<lambda>r. (started_order (cg_session_started_at_ms (ct_session r)), row_path r))
         (filter (\<lambda>r. of_source provider root r \<and> \<not> ct_is_stale r \<and> catalog_pending_import d r) rows))"

definition live_row_of :: "capture_provider \<Rightarrow> string \<Rightarrow> string \<Rightarrow> catalog_row \<Rightarrow> bool" where
  "live_row_of provider root path r \<longleftrightarrow>
     of_source provider root r \<and> row_path r = path \<and> \<not> ct_is_stale r"

definition mark_catalog_source_indexed ::
    "capture_provider \<Rightarrow> catalog_source_index_update \<Rightarrow> catalog_row list \<Rightarrow> nat \<times> catalog_row list" where
  "mark_catalog_source_indexed provider u rows =
     (let sz = capped_i64 (cu_file_size_bytes u); count = map_option capped_i64 (cu_event_count u)
      in update_rows (live_row_of provider (cu_source_root u) (cu_source_path u))
           (\<lambda>r. r\<lparr>ct_index := indexed_as (cu_indexed_at_ms u) sz (cu_file_modified_at_ms u),
                  ct_indexed_event_count := count,
                  ct_last_imported :=
                    \<lparr>li_file_size_bytes = Some sz, li_file_modified_at_ms = Some (cu_file_modified_at_ms u),
                     li_event_count = count, li_at_ms = Some (cu_indexed_at_ms u),
                     li_file_sha256 = cu_file_sha256 u\<rparr>\<rparr>) rows)"

definition mark_catalog_source_failed ::
    "capture_provider \<Rightarrow> string \<Rightarrow> string \<Rightarrow> string \<Rightarrow> int \<Rightarrow> catalog_row list \<Rightarrow> nat \<times> catalog_row list" where
  "mark_catalog_source_failed provider root path error at rows =
     update_rows (live_row_of provider root path)
       (\<lambda>r. r\<lparr>ct_index := failed_with at error, ct_indexed_event_count := None\<rparr>) rows"

definition catalog_source_index_state ::
    "capture_provider \<Rightarrow> string \<Rightarrow> string \<Rightarrow> catalog_row list \<Rightarrow> catalog_source_index_state option" where
  "catalog_source_index_state provider root path rows =
     map_option ct_last_imported (List.find (live_row_of provider root path) rows)"

section \<open>Files of a source\<close>

definition source_file_key :: "source_import_file \<Rightarrow> capture_provider \<times> string \<times> string" where
  "source_file_key f = (sf_provider f, sf_source_root f, sf_source_path f)"

definition source_row_key :: "source_import_row \<Rightarrow> capture_provider \<times> string \<times> string" where
  "source_row_key r = source_file_key (sr_file r)"

definition of_file_source :: "capture_provider \<Rightarrow> string \<Rightarrow> source_import_row \<Rightarrow> bool" where
  "of_file_source provider root r \<longleftrightarrow>
     sf_provider (sr_file r) = provider \<and> sf_source_root (sr_file r) = root"

definition new_source_import_row :: "source_import_file \<Rightarrow> source_import_row" where
  "new_source_import_row f =
     \<lparr>sr_file = f\<lparr>sf_file_size_bytes := capped_i64 (sf_file_size_bytes f)\<rparr>, sr_is_stale = False,
      sr_index = not_indexed\<rparr>"

text \<open>A row for a whole directory (\<open>inventory_unit\<close> is \<open>source_root\<close>) is the same one only with the
  same metadata.\<close>

definition same_source_file :: "externals \<Rightarrow> source_import_file \<Rightarrow> source_import_file \<Rightarrow> bool" where
  "same_source_file X old new \<longleftrightarrow>
     sf_source_format old = sf_source_format new
     \<and> sf_file_size_bytes old = sf_file_size_bytes new
     \<and> sf_file_modified_at_ms old = sf_file_modified_at_ms new
     \<and> (jget_str (sf_metadata new) ''inventory_unit'' \<noteq> Some ''source_root''
        \<or> json_text X (sf_metadata old) = json_text X (sf_metadata new))"

definition source_row_differs :: "externals \<Rightarrow> source_import_row \<Rightarrow> source_import_file \<Rightarrow> bool" where
  "source_row_differs X row new \<longleftrightarrow>
     (let old = sr_file row
      in sf_source_format old \<noteq> sf_source_format new
         \<or> sf_file_size_bytes old \<noteq> sf_file_size_bytes new
         \<or> sf_file_modified_at_ms old \<noteq> sf_file_modified_at_ms new
         \<or> sr_is_stale row
         \<or> json_text X (sf_metadata old) \<noteq> json_text X (sf_metadata new))"

definition merge_source_row :: "externals \<Rightarrow> source_import_row \<Rightarrow> source_import_row \<Rightarrow> source_import_row" where
  "merge_source_row X old excluded =
     (let new = sr_file excluded
      in if \<not> source_row_differs X old new then old
         else \<lparr>sr_file = new, sr_is_stale = False,
               sr_index = (if same_source_file X (sr_file old) new then sr_index old else not_indexed)\<rparr>)"

fun upsert_source_import_files ::
    "externals \<Rightarrow> source_import_file list \<Rightarrow> source_import_row list \<Rightarrow> (store_error + unit) \<times> source_import_row list" where
  "upsert_source_import_files X [] rows = (Inr (), rows)"
| "upsert_source_import_files X (f # fs) rows =
     (case json_text X (sf_metadata f) of
        None \<Rightarrow> (Inl JsonError, rows)
      | Some _ \<Rightarrow> upsert_source_import_files X fs
          (upsert_row source_row_key (merge_source_row X) (new_source_import_row f) rows))"

definition mark_source_import_missing_paths_stale ::
    "capture_provider \<Rightarrow> string \<Rightarrow> string list \<Rightarrow> int \<Rightarrow> source_import_row list \<Rightarrow> nat \<times> source_import_row list" where
  "mark_source_import_missing_paths_stale provider root current_paths at rows =
     update_rows (\<lambda>r. of_file_source provider root r \<and> \<not> sr_is_stale r
                    \<and> sf_source_path (sr_file r) \<notin> set current_paths)
       (\<lambda>r. r\<lparr>sr_is_stale := True, sr_file := (sr_file r)\<lparr>sf_observed_at_ms := at\<rparr>\<rparr>) rows"

definition source_import_file_pending :: "source_import_row \<Rightarrow> bool" where
  "source_import_file_pending r \<longleftrightarrow>
     file_pending (sf_file_size_bytes (sr_file r)) (sf_file_modified_at_ms (sr_file r)) (sr_index r)"

definition list_pending_source_import_files ::
    "capture_provider \<Rightarrow> string \<Rightarrow> source_import_row list \<Rightarrow> source_import_file list" where
  "list_pending_source_import_files provider root rows =
     map sr_file
       (sort_key (\<lambda>r. sf_source_path (sr_file r))
         (filter (\<lambda>r. of_file_source provider root r \<and> \<not> sr_is_stale r \<and> source_import_file_pending r) rows))"

definition live_file_of :: "capture_provider \<Rightarrow> string \<Rightarrow> string \<Rightarrow> source_import_row \<Rightarrow> bool" where
  "live_file_of provider root path r \<longleftrightarrow>
     of_file_source provider root r \<and> sf_source_path (sr_file r) = path \<and> \<not> sr_is_stale r"

definition mark_source_import_file_indexed ::
    "capture_provider \<Rightarrow> source_import_file_index_update \<Rightarrow> source_import_row list \<Rightarrow> nat \<times> source_import_row list" where
  "mark_source_import_file_indexed provider u rows =
     update_rows (live_file_of provider (su_source_root u) (su_source_path u))
       (\<lambda>r. r\<lparr>sr_index := indexed_as (su_indexed_at_ms u) (capped_i64 (su_file_size_bytes u))
                (su_file_modified_at_ms u)\<rparr>) rows"

definition mark_source_import_file_failed ::
    "capture_provider \<Rightarrow> string \<Rightarrow> string \<Rightarrow> string \<Rightarrow> int \<Rightarrow> source_import_row list \<Rightarrow> nat \<times> source_import_row list" where
  "mark_source_import_file_failed provider root path error at rows =
     update_rows (live_file_of provider root path) (\<lambda>r. r\<lparr>sr_index := failed_with at error\<rparr>) rows"

section \<open>Counts\<close>

definition row_count :: "('r \<Rightarrow> bool) \<Rightarrow> 'r list \<Rightarrow> nat" where
  "row_count p rows = length (filter p rows)"

definition catalog_session_count :: "catalog_row list \<Rightarrow> nat" where
  "catalog_session_count rows = row_count (\<lambda>r. \<not> ct_is_stale r) rows"

text \<open>\<open>catalog_indexed_count_sql\<close>: its own text, not the negation of the pending condition.\<close>

definition catalog_indexed :: "db \<Rightarrow> catalog_row \<Rightarrow> bool" where
  "catalog_indexed d r \<longleftrightarrow>
     \<not> ct_is_stale r
     \<and> file_indexed (cg_file_size_bytes (ct_session r)) (cg_file_modified_at_ms (ct_session r)) (ct_index r)
     \<and> session_imported d r"

definition catalog_session_counts :: "db \<Rightarrow> catalog_row list \<Rightarrow> catalog_counts" where
  "catalog_session_counts d rows =
     \<lparr>cc_total = row_count (\<lambda>r. \<not> ct_is_stale r) rows,
      cc_indexed = row_count (catalog_indexed d) rows,
      cc_stale = row_count ct_is_stale rows,
      cc_pending = row_count (\<lambda>r. \<not> ct_is_stale r \<and> catalog_pending_import d r) rows,
      cc_failed = row_count (\<lambda>r. \<not> ct_is_stale r \<and> ix_status (ct_index r) = Failed) rows\<rparr>"

definition source_import_file_counts :: "source_import_row list \<Rightarrow> catalog_counts" where
  "source_import_file_counts rows =
     \<lparr>cc_total = row_count (\<lambda>r. \<not> sr_is_stale r) rows,
      cc_indexed = row_count (\<lambda>r. \<not> sr_is_stale r
        \<and> file_indexed (sf_file_size_bytes (sr_file r)) (sf_file_modified_at_ms (sr_file r)) (sr_index r)) rows,
      cc_stale = row_count sr_is_stale rows,
      cc_pending = row_count (\<lambda>r. \<not> sr_is_stale r \<and> source_import_file_pending r) rows,
      cc_failed = row_count (\<lambda>r. \<not> sr_is_stale r \<and> ix_status (sr_index r) = Failed) rows\<rparr>"

definition indexed_history_counts :: "db \<Rightarrow> indexed_history_counts" where
  "indexed_history_counts d = \<lparr>hc_sessions = length (db_sessions d), hc_events = length (db_events d)\<rparr>"

definition indexed_history_item_count :: "db \<Rightarrow> nat" where
  "indexed_history_item_count d = items (indexed_history_counts d)"

interpretation catalog_rows: keyed_rows row_path "merge_catalog_row X" for X
  by unfold_locales (simp add: merge_catalog_row_def Let_def)

interpretation source_rows: keyed_rows source_row_key "merge_source_row X" for X
  by unfold_locales (simp add: merge_source_row_def source_row_key_def Let_def)

end
