(* ===== verification/Codex_Catalog.thy ===== *)
theory Codex_Catalog
  imports Codex_Import Catalog
begin

text \<open>
  The scan of a tree of Codex transcripts into the catalog (\<open>provider/codex/catalog.rs\<close> of
  \<open>ctx-history-capture\<close>): which files are new or changed, what the first lines of each say about its
  session, how the work is split among threads, and the transaction that writes the rows.
\<close>

section \<open>Data\<close>

record catalog_summary =
  cy_source_files :: nat
  cy_source_bytes :: nat
  cy_cataloged_sessions :: nat
  cy_cached_sessions :: nat
  cy_parsed_sessions :: nat
  cy_skipped_sessions :: nat
  cy_failed_sessions :: nat
  cy_failures :: "provider_import_failure list"

definition empty_catalog_summary :: catalog_summary where
  "empty_catalog_summary =
     \<lparr>cy_source_files = 0, cy_source_bytes = 0, cy_cataloged_sessions = 0, cy_cached_sessions = 0,
      cy_parsed_sessions = 0, cy_skipped_sessions = 0, cy_failed_sessions = 0, cy_failures = []\<rparr>"

record codex_catalog_options =
  cao_source_root :: "path option"
  cao_cataloged_at :: datetime
  cao_max_session_files :: "nat option"
  cao_max_total_bytes :: "u64 option"
  cao_parallelism :: "nat option"

definition timestamp_millis :: "datetime \<Rightarrow> int" where
  "timestamp_millis t = t div 1000000"

definition catalog_failure :: "string \<Rightarrow> provider_import_failure" where
  "catalog_failure error = \<lparr>pif_line = 0, pif_error = error\<rparr>"

section \<open>One file\<close>

fun session_meta_loop :: "'f transcript_lib \<Rightarrow> (capture_error + jsonl_read \<times> string) list \<Rightarrow> capture_error + json option" where
  "session_meta_loop T [] = Inr None"
| "session_meta_loop T (Inl e # reads) = Inl e"
| "session_meta_loop T (Inr (ReadOversized _, _) # reads) = session_meta_loop T reads"
| "session_meta_loop T (Inr (_, line) # reads) =
     (if CHR ''{'' \<notin> set line \<or> \<not> contains_bytes line (quoted ''session_meta'')
      then session_meta_loop T reads
      else case tl_json T line of
          Inl _ \<Rightarrow> session_meta_loop T reads
        | Inr v \<Rightarrow>
            if jget_str v ''type'' = Some ''session_meta'' then Inr (Some v) else session_meta_loop T reads)"

definition read_codex_session_meta :: "'f codex_env \<Rightarrow> path \<Rightarrow> capture_error + json option" where
  "read_codex_session_meta E p =
     bind_result (tf_open (ce_files E) p) (\<lambda>r. session_meta_loop (ce_lib E) (take 32 (file_reads r)))"

definition codex_source_kind :: "json \<Rightarrow> string option" where
  "codex_source_kind source =
     (case opt_filter (\<lambda>s. trim s \<noteq> []) (as_str source) of
        Some s \<Rightarrow> Some s
      | None \<Rightarrow>
          if json_pointer source [''subagent'', ''thread_spawn''] \<noteq> None then Some ''subagent''
          else if json_pointer source [''thread_spawn''] \<noteq> None then Some ''thread_spawn''
          else Option.bind (object_keys source) (\<lambda>ks. case ks of [] \<Rightarrow> None | k # _ \<Rightarrow> Some k))"

definition file_stem :: "path \<Rightarrow> string option" where
  "file_stem p =
     (if p = [] then None
      else case rsplit_once (CHR ''.'') (last p) of
          Some (stem, _) \<Rightarrow> Some (if stem = [] then last p else stem)
        | None \<Rightarrow> Some (last p))"

definition is_ascii_hexdigit :: "char \<Rightarrow> bool" where
  "is_ascii_hexdigit c \<longleftrightarrow> c \<in> set ''0123456789abcdefABCDEF''"

text \<open>A slice that does not start at a character stops the thread; the scan then fails as a whole. With
  one thread the panic goes on to the caller, for which the same value stands.\<close>

definition worker_panicked :: capture_error where
  "worker_panicked = CaptureWorkerPanicked ''Codex catalog''"

definition codex_session_id_from_path :: "path \<Rightarrow> capture_error + string option" where
  "codex_session_id_from_path p =
     (case file_stem p of
        None \<Rightarrow> Inr None
      | Some stem \<Rightarrow>
          (let whole = (if trim stem = [] then None else Some stem);
               tail = drop (length stem - 36) stem
           in if length stem < 36 then Inr whole
              else if is_continuation (hd tail) then Inl worker_panicked
              else if list_all (\<lambda>c. is_ascii_hexdigit c \<or> c = CHR ''-'') tail then Inr (Some tail)
              else Inr whole))"

definition catalog_codex_session_file ::
    "'f codex_env \<Rightarrow> path \<Rightarrow> string \<Rightarrow> u64 \<Rightarrow> int \<Rightarrow> capture_error + catalog_session" where
  "catalog_codex_session_file E p source_root len cataloged_at_ms =
     bind_result (read_codex_session_meta E p) (\<lambda>session_meta.
       let payload = Option.bind session_meta (\<lambda>v. jget v ''payload'');
           field = (\<lambda>k. Option.bind payload (\<lambda>v. jget_str v k));
           source = unwrap_or (Option.bind payload (\<lambda>v. jget v ''source'')) JNull;
           parent = codex_parent_session_id source;
           started = Option.bind
             (or_else (field ''timestamp'') (Option.bind session_meta (\<lambda>v. jget_str v ''timestamp'')))
             (tl_rfc3339 (ce_lib E));
           agent_type = (if parent \<noteq> None then AgentType_Subagent else AgentType_Primary)
       in bind_result
            (case non_blank_id (field ''id'') of
               Some i \<Rightarrow> Inr (Some i) | None \<Rightarrow> codex_session_id_from_path p) (\<lambda>external_session_id.
          Inr \<lparr>cg_provider = CaptureProvider_Codex, cg_source_format = CODEX_SESSION_SOURCE_FORMAT,
               cg_source_root = source_root, cg_source_path = display_path p,
               cg_external_session_id = external_session_id, cg_parent_external_session_id = parent,
               cg_agent_type = agent_type,
               cg_role_hint = or_else (non_blank_id (field ''agent_role'')) (Some (enum_as_str agent_type_table agent_type)),
               cg_external_agent_id = non_blank_id (field ''agent_nickname''),
               cg_cwd = non_blank_id (field ''cwd''),
               cg_session_started_at_ms = map_option timestamp_millis started,
               cg_file_size_bytes = len, cg_file_modified_at_ms = tf_modified_ms (ce_files E) p,
               cg_cataloged_at_ms = cataloged_at_ms,
               cg_metadata = json_object
                 [(''originator'', json_str_opt (field ''originator'')),
                  (''cli_version'', json_str_opt (field ''cli_version'')),
                  (''model_provider'', json_str_opt (field ''model_provider'')),
                  (''source_kind'', json_str_opt (codex_source_kind source)), (''source'', source),
                  (''catalog_scope'', JStr ''session_meta'')]\<rparr>))"

definition cached_catalog_session_if_unchanged ::
    "catalog_session option \<Rightarrow> u64 \<Rightarrow> int \<Rightarrow> int \<Rightarrow> catalog_session option" where
  "cached_catalog_session_if_unchanged session len modified_at_ms cataloged_at_ms =
     Option.bind session (\<lambda>s.
       if cg_provider s = CaptureProvider_Codex \<and> cg_source_format s = CODEX_SESSION_SOURCE_FORMAT
          \<and> cg_file_size_bytes s = len \<and> cg_file_modified_at_ms s = modified_at_ms
       then Some (s\<lparr>cg_cataloged_at_ms := cataloged_at_ms\<rparr>) else None)"

section \<open>Several files\<close>

record catalog_worker_batch =
  cw_summary :: catalog_summary
  cw_sessions :: "catalog_session list"
  cw_failures :: "string list"

definition empty_worker_batch :: catalog_worker_batch where
  "empty_worker_batch = \<lparr>cw_summary = empty_catalog_summary, cw_sessions = [], cw_failures = []\<rparr>"

definition count_catalog_failure :: "string \<Rightarrow> catalog_worker_batch \<Rightarrow> catalog_worker_batch" where
  "count_catalog_failure error b =
     b\<lparr>cw_summary := (cw_summary b)\<lparr>cy_failed_sessions := cy_failed_sessions (cw_summary b) + 1\<rparr>,
       cw_failures := cw_failures b @ [error]\<rparr>"

definition count_catalog_file :: "u64 \<Rightarrow> catalog_summary \<Rightarrow> catalog_summary" where
  "count_catalog_file len s =
     s\<lparr>cy_source_files := cy_source_files s + 1, cy_source_bytes := sat_add (cy_source_bytes s) (unat len)\<rparr>"

definition count_catalog_session :: "catalog_session \<Rightarrow> catalog_worker_batch \<Rightarrow> catalog_worker_batch" where
  "count_catalog_session session b =
     b\<lparr>cw_summary := (cw_summary b)\<lparr>cy_parsed_sessions := cy_parsed_sessions (cw_summary b) + 1\<rparr>,
       cw_sessions := cw_sessions b @ [session]\<rparr>"

fun catalog_codex_session_chunk ::
    "'f codex_env \<Rightarrow> path list \<Rightarrow> string \<Rightarrow> int \<Rightarrow> catalog_worker_batch \<Rightarrow> capture_error + catalog_worker_batch" where
  "catalog_codex_session_chunk E [] source_root at b = Inr b"
| "catalog_codex_session_chunk E (p # ps) source_root at b =
     (case tf_len (ce_files E) p of
        None \<Rightarrow> catalog_codex_session_chunk E ps source_root at
          (count_catalog_failure (display_path p @ '': '' @ ce_error_text E CaptureIo) b)
      | Some len \<Rightarrow>
          (let b1 = b\<lparr>cw_summary := count_catalog_file len (cw_summary b)\<rparr>
           in case catalog_codex_session_file E p source_root len at of
                Inr session \<Rightarrow>
                  catalog_codex_session_chunk E ps source_root at (count_catalog_session session b1)
              | Inl e \<Rightarrow>
                  if e = worker_panicked then Inl e
                  else catalog_codex_session_chunk E ps source_root at
                    (count_catalog_failure (display_path p @ '': '' @ capture_error_text (ce_error_text E) e) b1)))"

definition catalog_parallelism :: "'f codex_env \<Rightarrow> nat \<Rightarrow> nat option \<Rightarrow> nat" where
  "catalog_parallelism E path_count requested =
     (if path_count \<le> 1 then 1
      else min (min (max (unwrap_or requested (ce_parallelism E)) 1) 32) path_count)"

text \<open>\<open>paths.chunks(n)\<close> with \<open>n = k + 1\<close>.\<close>

function chunks_of :: "nat \<Rightarrow> 'a list \<Rightarrow> 'a list list" where
  "chunks_of k xs = (if xs = [] then [] else take (Suc k) xs # chunks_of k (drop (Suc k) xs))"
  by pat_completeness auto
termination
  by (relation "measure (\<lambda>(k, xs). length xs)") auto

declare chunks_of.simps [simp del]

fun join_workers :: "(capture_error + catalog_worker_batch) list \<Rightarrow> capture_error + catalog_worker_batch list" where
  "join_workers [] = Inr []"
| "join_workers (r # rs) = bind_result r (\<lambda>b. bind_result (join_workers rs) (\<lambda>bs. Inr (b # bs)))"

definition add_worker_batch :: "catalog_summary \<times> catalog_session list \<Rightarrow> catalog_worker_batch
    \<Rightarrow> catalog_summary \<times> catalog_session list" where
  "add_worker_batch = (\<lambda>(s, sessions) b.
     (s\<lparr>cy_source_files := cy_source_files s + cy_source_files (cw_summary b),
        cy_source_bytes := sat_add (cy_source_bytes s) (cy_source_bytes (cw_summary b)),
        cy_parsed_sessions := cy_parsed_sessions s + cy_parsed_sessions (cw_summary b),
        cy_failed_sessions := cy_failed_sessions s + cy_failed_sessions (cw_summary b),
        cy_failures := cy_failures s @ map catalog_failure (cw_failures b)\<rparr>,
      sessions @ cw_sessions b))"

definition catalog_codex_session_paths ::
    "'f codex_env \<Rightarrow> path list \<Rightarrow> string \<Rightarrow> int \<Rightarrow> nat option
     \<Rightarrow> capture_error + catalog_summary \<times> catalog_session list" where
  "catalog_codex_session_paths E ps source_root at requested =
     (let parallelism = catalog_parallelism E (length ps) requested;
          chunk_size = max ((length ps + parallelism - 1) div parallelism) 1;
          chunks = (if parallelism \<le> 1 then [ps] else chunks_of (chunk_size - 1) ps)
      in bind_result (join_workers (map (\<lambda>c. catalog_codex_session_chunk E c source_root at empty_worker_batch) chunks))
           (\<lambda>bs. Inr (foldl add_worker_batch (empty_catalog_summary, []) bs)))"

section \<open>The catalog's connection\<close>

text \<open>What the connection sees of the table, and what is committed. Every call takes the next outcome of
  the list, an error or none; when the list is used up, calls work. Outside a transaction a statement
  commits by itself.\<close>

record catalog_store =
  ks_rows :: "catalog_row list"
  ks_committed :: "catalog_row list"
  ks_in_transaction :: bool
  ks_outcomes :: "store_error option list"

type_synonym 'a catalog_action = "(catalog_store, 'a) action"

definition catalog_call ::
    "(catalog_row list \<Rightarrow> (store_error + 'a) \<times> catalog_row list) \<Rightarrow> 'a catalog_action" where
  "catalog_call f s =
     (let s1 = s\<lparr>ks_outcomes := tl (ks_outcomes s)\<rparr>
      in case (case ks_outcomes s of [] \<Rightarrow> None | c # _ \<Rightarrow> c) of
           Some e \<Rightarrow> (Inl (CaptureStore e), s1)
         | None \<Rightarrow>
             (let (r, rows) = f (ks_rows s);
                  s2 = s1\<lparr>ks_rows := rows, ks_committed := if ks_in_transaction s then ks_committed s else rows\<rparr>
              in (from_store r, s2)))"

definition catalog_read :: "(catalog_row list \<Rightarrow> 'a) \<Rightarrow> 'a catalog_action" where
  "catalog_read f = catalog_call (\<lambda>rows. (Inr (f rows), rows))"

definition catalog_write :: "(catalog_row list \<Rightarrow> nat \<times> catalog_row list) \<Rightarrow> nat catalog_action" where
  "catalog_write f = catalog_call (\<lambda>rows. let (n, rows') = f rows in (Inr n, rows'))"

definition begin_catalog_batch :: "unit catalog_action" where
  "begin_catalog_batch s =
     (case catalog_call (\<lambda>rows. (Inr (), rows)) s of
        (Inl e, t) \<Rightarrow> (Inl e, t)
      | (Inr _, t) \<Rightarrow>
          if ks_in_transaction t
          then (Inl (CaptureStore (Sql (SqlFailure ''cannot start a transaction within a transaction''))), t)
          else (Inr (), t\<lparr>ks_in_transaction := True\<rparr>))"

definition commit_catalog_batch :: "unit catalog_action" where
  "commit_catalog_batch s =
     (case catalog_call (\<lambda>rows. (Inr (), rows)) s of
        (Inl e, t) \<Rightarrow> (Inl e, t)
      | (Inr _, t) \<Rightarrow> (Inr (), t\<lparr>ks_committed := ks_rows t, ks_in_transaction := False\<rparr>))"

definition rollback_catalog_batch :: "catalog_store \<Rightarrow> catalog_store" where
  "rollback_catalog_batch s = s\<lparr>ks_rows := ks_committed s, ks_in_transaction := False\<rparr>"

section \<open>A tree\<close>

text \<open>The paths of the scan: each file unchanged since its row was written, to be parsed, or unreadable.\<close>

record catalog_scan =
  sc_summary :: catalog_summary
  sc_current_paths :: "string list"
  sc_cached :: "catalog_session list"
  sc_to_parse :: "path list"
  sc_unreadable :: "string list"

fun scan_catalog_paths ::
    "'f codex_env \<Rightarrow> (string \<Rightarrow> catalog_session option) \<Rightarrow> int \<Rightarrow> path list \<Rightarrow> catalog_scan \<Rightarrow> catalog_scan" where
  "scan_catalog_paths E existing at [] z = z"
| "scan_catalog_paths E existing at (p # ps) z =
     (case tf_len (ce_files E) p of
        None \<Rightarrow> scan_catalog_paths E existing at ps
          (z\<lparr>sc_summary := (sc_summary z)\<lparr>cy_failed_sessions := cy_failed_sessions (sc_summary z) + 1\<rparr>,
             sc_unreadable := sc_unreadable z @ [display_path p @ '': '' @ ce_error_text E CaptureIo]\<rparr>)
      | Some len \<Rightarrow>
          (let source_path = display_path p;
               z1 = z\<lparr>sc_summary := count_catalog_file len (sc_summary z),
                      sc_current_paths := sc_current_paths z @ [source_path]\<rparr>
           in scan_catalog_paths E existing at ps
                (case cached_catalog_session_if_unchanged (existing source_path) len
                        (tf_modified_ms (ce_files E) p) at of
                   Some session \<Rightarrow>
                     z1\<lparr>sc_summary := (sc_summary z1)\<lparr>cy_cached_sessions := cy_cached_sessions (sc_summary z1) + 1\<rparr>,
                        sc_cached := sc_cached z1 @ [session]\<rparr>
                 | None \<Rightarrow> z1\<lparr>sc_to_parse := sc_to_parse z1 @ [p]\<rparr>)))"

definition start_scan :: "nat \<Rightarrow> catalog_scan" where
  "start_scan skipped_by_bounds =
     \<lparr>sc_summary = empty_catalog_summary\<lparr>cy_skipped_sessions := skipped_by_bounds\<rparr>, sc_current_paths = [],
      sc_cached = [], sc_to_parse = [], sc_unreadable = []\<rparr>"

definition sessions_by_path :: "catalog_session list \<Rightarrow> (string \<times> catalog_session) list" where
  "sessions_by_path sessions = rev (map (\<lambda>s. (cg_source_path s, s)) sessions)"

text \<open>The transaction: the rows of parsed files, those of unchanged files when some rows are stale, then
  the rows of the missing paths. An error rolls back; the error of the commit itself does not.\<close>

definition persist_catalog_sessions ::
    "externals \<Rightarrow> catalog_session list \<Rightarrow> bool \<Rightarrow> string \<Rightarrow> string list \<Rightarrow> int \<Rightarrow> unit catalog_action" where
  "persist_catalog_sessions X sessions mark_missing source_root current_paths at =
     bind_m begin_catalog_batch (\<lambda>_.
       \<lambda>s. case bind_m
              (if sessions \<noteq> [] then catalog_call (upsert_catalog_sessions X sessions) else return_m ())
              (\<lambda>_. if mark_missing
                   then bind_m (catalog_write (mark_catalog_source_missing_paths_stale CaptureProvider_Codex
                          source_root current_paths at)) (\<lambda>_. return_m ())
                   else return_m ()) s of
             (Inr _, t) \<Rightarrow> commit_catalog_batch t
           | (Inl e, t) \<Rightarrow> (Inl e, rollback_catalog_batch t))"

definition catalog_scanned_paths ::
    "'f codex_env \<Rightarrow> codex_catalog_options \<Rightarrow> string \<Rightarrow> (string \<times> catalog_session) list \<Rightarrow> catalog_scan
     \<Rightarrow> catalog_summary catalog_action" where
  "catalog_scanned_paths E options source_root existing z =
     (let at = timestamp_millis (cao_cataloged_at options);
          summary = (sc_summary z)\<lparr>cy_failures := map catalog_failure (sc_unreadable z)\<rparr>;
          missing = list_ex (\<lambda>k. k \<notin> set (sc_current_paths z)) (map fst existing)
      in bind_m (catalog_read (catalog_source_stale_session_count CaptureProvider_Codex source_root)) (\<lambda>stale.
           if sc_to_parse z = [] \<and> sc_unreadable z = [] \<and> length (sc_cached z) = length (sc_current_paths z)
              \<and> length (remdups (map fst existing)) = length (sc_current_paths z) \<and> \<not> missing \<and> stale = 0
           then return_m (summary\<lparr>cy_cataloged_sessions := length (sc_cached z)\<rparr>)
           else bind_m (of_result (catalog_codex_session_paths E (sc_to_parse z) source_root at
                  (cao_parallelism options))) (\<lambda>(scanned, sessions).
             bind_m (persist_catalog_sessions (ce_externals E)
                 (sessions @ (if stale > 0 then sc_cached z else []))
                 (stale > 0 \<or> missing) source_root (sc_current_paths z) at) (\<lambda>_.
               return_m (summary
                 \<lparr>cy_failed_sessions := cy_failed_sessions summary + cy_failed_sessions scanned,
                  cy_failures := cy_failures summary @ cy_failures scanned,
                  cy_parsed_sessions := cy_parsed_sessions summary + cy_parsed_sessions scanned,
                  cy_cataloged_sessions := sat_add (length sessions) (length (sc_cached z))\<rparr>)))))"

definition catalog_codex_session_tree ::
    "'f codex_env \<Rightarrow> path \<Rightarrow> codex_catalog_options \<Rightarrow> catalog_summary catalog_action" where
  "catalog_codex_session_tree E root options =
     (let source_root = display_path (unwrap_or (cao_source_root options) root)
      in bind_m (of_result (collect_jsonl_paths (tf_tree (ce_files E)) root)) (\<lambda>collected.
           let (ps, skipped) = apply_codex_session_import_bounds E (cao_max_session_files options)
                 (cao_max_total_bytes options) collected
           in bind_m (catalog_read (list_catalog_sessions_for_source CaptureProvider_Codex source_root)) (\<lambda>rows.
                let existing = sessions_by_path rows
                in catalog_scanned_paths E options source_root existing
                     (scan_catalog_paths E (map_of existing) (timestamp_millis (cao_cataloged_at options)) ps
                       (start_scan skipped)))))"

definition catalog_codex_session_files ::
    "'f codex_env \<Rightarrow> path list \<Rightarrow> path \<Rightarrow> codex_catalog_options \<Rightarrow> catalog_summary catalog_action" where
  "catalog_codex_session_files E ps root options =
     (let source_root = display_path (unwrap_or (cao_source_root options) root)
      in bind_m (of_result (catalog_codex_session_paths E ps source_root
           (timestamp_millis (cao_cataloged_at options)) (cao_parallelism options))) (\<lambda>(summary, sessions).
         bind_m (if sessions \<noteq> [] then catalog_call (upsert_catalog_sessions (ce_externals E) sessions)
                 else return_m ()) (\<lambda>_.
           return_m (summary\<lparr>cy_cataloged_sessions := length sessions\<rparr>))))"

section \<open>The number of threads\<close>

lemma sat_add_assoc: "sat_add (sat_add a b) c = sat_add a (sat_add b c)"
  by (auto simp: sat_add_def)

definition add_batches :: "catalog_worker_batch \<Rightarrow> catalog_worker_batch \<Rightarrow> catalog_worker_batch" where
  "add_batches a b =
     \<lparr>cw_summary = (cw_summary a)
        \<lparr>cy_source_files := cy_source_files (cw_summary a) + cy_source_files (cw_summary b),
         cy_source_bytes := sat_add (cy_source_bytes (cw_summary a)) (cy_source_bytes (cw_summary b)),
         cy_parsed_sessions := cy_parsed_sessions (cw_summary a) + cy_parsed_sessions (cw_summary b),
         cy_failed_sessions := cy_failed_sessions (cw_summary a) + cy_failed_sessions (cw_summary b)\<rparr>,
      cw_sessions = cw_sessions a @ cw_sessions b, cw_failures = cw_failures a @ cw_failures b\<rparr>"

definition small_bytes :: "catalog_worker_batch \<Rightarrow> bool" where
  "small_bytes b \<longleftrightarrow> cy_source_bytes (cw_summary b) \<le> usize_max"

lemma chunk_append:
  "catalog_codex_session_chunk E (xs @ ys) root at b =
     bind_result (catalog_codex_session_chunk E xs root at b) (catalog_codex_session_chunk E ys root at)"
  by (induction E xs root at b rule: catalog_codex_session_chunk.induct)
    (auto simp: Let_def split: option.split sum.split)

text \<open>A chunk that starts with counts adds what it finds to them.\<close>

lemma chunk_from:
  assumes "small_bytes b"
  shows "catalog_codex_session_chunk E ps root at b
    = bind_result (catalog_codex_session_chunk E ps root at empty_worker_batch) (\<lambda>c. Inr (add_batches b c))"
proof -
  have "\<And>b c. small_bytes b \<Longrightarrow> small_bytes c \<Longrightarrow>
     catalog_codex_session_chunk E ps root at (add_batches b c)
     = bind_result (catalog_codex_session_chunk E ps root at c) (\<lambda>d. Inr (add_batches b d))"
  proof (induction ps)
    case (Cons p ps)
    show ?case
    proof (cases "tf_len (ce_files E) p")
      case None
      have "count_catalog_failure m (add_batches b c) = add_batches b (count_catalog_failure m c)" for m
        by (simp add: count_catalog_failure_def add_batches_def)
      moreover have "small_bytes (count_catalog_failure m c)" for m
        using Cons.prems(2) by (simp add: small_bytes_def count_catalog_failure_def)
      ultimately show ?thesis using None Cons.IH Cons.prems(1) by simp
    next
      case (Some len)
      let ?count = "\<lambda>b. b\<lparr>cw_summary := count_catalog_file len (cw_summary b)\<rparr>"
      have count: "?count (add_batches b c) = add_batches b (?count c)"
        by (simp add: add_batches_def count_catalog_file_def sat_add_assoc)
      have ok: "count_catalog_session s (add_batches b d) = add_batches b (count_catalog_session s d)" for s d
        by (simp add: add_batches_def count_catalog_session_def)
      have bad: "count_catalog_failure m (add_batches b d) = add_batches b (count_catalog_failure m d)" for m d
        by (simp add: count_catalog_failure_def add_batches_def)
      have small: "small_bytes (count_catalog_session s (?count c))" "small_bytes (count_catalog_failure m (?count c))" for s m
        by (simp_all add: small_bytes_def count_catalog_file_def count_catalog_failure_def count_catalog_session_def)
      show ?thesis
      proof (cases "catalog_codex_session_file E p root len at")
        case (Inl e)
        then show ?thesis
          using Some Cons.IH [OF Cons.prems(1) small(2)] by (simp add: count bad Let_def)
      next
        case (Inr session)
        then show ?thesis
          using Some Cons.IH [OF Cons.prems(1) small(1) [of session]] by (simp add: Let_def count ok)
      qed
    qed
  qed simp
  moreover have "add_batches b empty_worker_batch = b" "small_bytes empty_worker_batch"
    using assms
    by (simp_all add: small_bytes_def add_batches_def empty_worker_batch_def empty_catalog_summary_def sat_add_def)
  ultimately show ?thesis using assms by metis
qed

lemma chunk_small:
  "small_bytes b \<Longrightarrow> catalog_codex_session_chunk E ps root at b = Inr c \<Longrightarrow> small_bytes c"
  by (induction E ps root at b rule: catalog_codex_session_chunk.induct)
    (auto simp: Let_def small_bytes_def count_catalog_failure_def count_catalog_file_def count_catalog_session_def
      split: option.splits sum.splits if_splits)

lemma add_two_batches:
  "add_worker_batch acc (add_batches b d) = add_worker_batch (add_worker_batch acc b) d"
  by (simp add: add_worker_batch_def add_batches_def sat_add_assoc case_prod_beta)

lemma join_chunks:
  assumes "cy_source_bytes (fst acc) \<le> usize_max"
  shows "bind_result (join_workers (map (\<lambda>c. catalog_codex_session_chunk E c root at empty_worker_batch) cs))
      (\<lambda>bs. Inr (foldl add_worker_batch acc bs))
    = bind_result (catalog_codex_session_chunk E (concat cs) root at empty_worker_batch)
        (\<lambda>b. Inr (add_worker_batch acc b))"
  using assms
proof (induction cs arbitrary: acc)
  case Nil
  then show ?case
    by (cases acc) (simp add: add_worker_batch_def empty_worker_batch_def empty_catalog_summary_def sat_add_def)
next
  case (Cons c cs)
  have empty: "small_bytes empty_worker_batch"
    by (simp add: small_bytes_def empty_worker_batch_def empty_catalog_summary_def)
  show ?case
  proof (cases "catalog_codex_session_chunk E c root at empty_worker_batch")
    case (Inl e) then show ?thesis by (simp add: chunk_append)
  next
    case (Inr b)
    have b: "small_bytes b" by (rule chunk_small [OF empty Inr])
    have acc: "cy_source_bytes (fst (add_worker_batch acc b)) \<le> usize_max"
      by (simp add: add_worker_batch_def case_prod_beta)
    show ?thesis
      using Cons.IH [OF acc] Inr chunk_from [OF b, of E "concat cs" root at]
      by (cases "join_workers (map (\<lambda>c. catalog_codex_session_chunk E c root at empty_worker_batch) cs)";
          cases "catalog_codex_session_chunk E (concat cs) root at empty_worker_batch")
        (simp_all add: chunk_append add_two_batches)
  qed
qed

lemma concat_chunks: "concat (chunks_of k xs) = xs"
proof (induction k xs rule: chunks_of.induct)
  case (1 k xs)
  then show ?case by (cases "xs = []") (simp_all add: chunks_of.simps [of k xs] chunks_of.simps [of k "[]"])
qed

section \<open>Properties\<close>

text \<open>How many threads scan the files, and which files each of them gets, makes no difference to the
  result: it is that of one thread over all files in their order, its counts, its sessions and its
  failures, or the panic of a thread.\<close>

theorem worker_count_is_invisible:
  "catalog_codex_session_paths E ps root at requested
   = bind_result (catalog_codex_session_chunk E ps root at empty_worker_batch)
       (\<lambda>b. Inr (add_worker_batch (empty_catalog_summary, []) b))"
proof -
  have "cy_source_bytes (fst (empty_catalog_summary, [] :: catalog_session list)) \<le> usize_max"
    by (simp add: empty_catalog_summary_def)
  from join_chunks [OF this, of E root at] show ?thesis
    by (simp add: catalog_codex_session_paths_def Let_def concat_chunks)
qed

end
