(* ===== verification/Codex_Runs.thy ===== *)
theory Codex_Runs
  imports Codex_Import "HOL-Library.Multiset"
begin

text \<open>
  What the imports of Codex transcripts promise, whatever the files hold: what a run may do to the
  store, which files the bounds of a run leave, which lines of a file its tail is, and a half-written
  line that no import ever reads.
\<close>

section \<open>Bounds of a run\<close>

definition bytes_of :: "'f codex_env \<Rightarrow> path list \<Rightarrow> nat" where
  "bytes_of E ps = (\<Sum>p\<leftarrow>ps. unat (unwrap_or (tf_len (ce_files E) p) 0))"

definition within :: "nat option \<Rightarrow> nat \<Rightarrow> bool" where
  "within limit n \<longleftrightarrow> (case limit of None \<Rightarrow> True | Some l \<Rightarrow> n \<le> l)"

definition left_out :: "'f codex_env \<Rightarrow> nat option \<Rightarrow> nat option \<Rightarrow> path list \<Rightarrow> nat \<Rightarrow> path \<Rightarrow> bool" where
  "left_out E max_files max_total selected t p \<longleftrightarrow>
     (case max_files of None \<Rightarrow> False | Some limit \<Rightarrow> length selected \<ge> limit)
     \<or> (case max_total of None \<Rightarrow> False
        | Some limit \<Rightarrow> sat_add t (unat (unwrap_or (tf_len (ce_files E) p) 0)) > limit)"

lemma select_step:
  "left_out E max_files max_total selected t p \<Longrightarrow>
     select_within_bounds E max_files max_total (p # ps) selected t
     = select_within_bounds E max_files max_total ps selected t"
  "\<not> left_out E max_files max_total selected t p \<Longrightarrow>
     select_within_bounds E max_files max_total (p # ps) selected t
     = select_within_bounds E max_files max_total ps (selected @ [p])
         (sat_add t (unat (unwrap_or (tf_len (ce_files E) p) 0)))"
  unfolding left_out_def by (simp_all only: select_within_bounds.simps Let_def if_True if_False)

lemma select_grows: "\<exists>ms. select_within_bounds E max_files max_total ps selected t = selected @ ms"
proof (induction ps arbitrary: selected t)
  case (Cons p ps)
  then show ?case
    by (cases "left_out E max_files max_total selected t p")
      (auto simp: select_step simp del: select_within_bounds.simps, metis append_assoc)
qed simp

text \<open>The total the loop carries is the total of the selected files, cut at the largest \<open>u64\<close>.\<close>

lemma more_paths: "mset ps \<subseteq># add_mset p (mset ps)"
  by (simp add: subseteq_mset_def)

lemma select_keeps:
  assumes "select_within_bounds E max_files max_total ps selected t = result"
    "t = min (bytes_of E selected) usize_max" "within max_files (length selected)" "within max_total t"
  shows "within max_files (length result) \<and> within max_total (min (bytes_of E result) usize_max)
    \<and> (\<exists>more_ps. result = selected @ more_ps \<and> mset more_ps \<subseteq># mset ps)"
  using assms
proof (induction ps arbitrary: selected t)
  case (Cons p ps)
  let ?len = "unat (unwrap_or (tf_len (ce_files E) p) 0)"
  let ?left_out = "left_out E max_files max_total selected t p"
  show ?case
  proof (cases ?left_out)
    case True
    with Cons.prems have "select_within_bounds E max_files max_total ps selected t = result"
      by (simp add: select_step del: select_within_bounds.simps)
    from Cons.IH [OF this Cons.prems(2-4)] show ?thesis
      by (auto intro: subset_mset.order_trans [OF _ more_paths])
  next
    case False
    with Cons.prems(1) have rest: "select_within_bounds E max_files max_total ps (selected @ [p]) (sat_add t ?len) = result"
      by (simp add: select_step del: select_within_bounds.simps)
    have "sat_add t ?len = min (bytes_of E (selected @ [p])) usize_max"
      by (simp add: Cons.prems(2) sat_add_def bytes_of_def)
    moreover have "within max_files (length (selected @ [p]))" "within max_total (sat_add t ?len)"
      using False by (auto simp: within_def left_out_def split: option.splits)
    ultimately obtain ms where "within max_files (length result)"
      "within max_total (min (bytes_of E result) usize_max)" "result = (selected @ [p]) @ ms" "mset ms \<subseteq># mset ps"
      using Cons.IH [OF rest] by blast
    then show ?thesis by (intro conjI exI [of _ "p # ms"]) auto
  qed
qed auto

text \<open>A path is left out for one of the limits, and that limit still stands in its way at the end.\<close>

definition no_room :: "'f codex_env \<Rightarrow> nat option \<Rightarrow> nat option \<Rightarrow> path list \<Rightarrow> path \<Rightarrow> bool" where
  "no_room E max_files max_total selected p \<longleftrightarrow>
     (\<exists>limit. max_files = Some limit \<and> length selected \<ge> limit)
     \<or> (\<exists>limit. max_total = Some limit
          \<and> min (bytes_of E selected + unat (unwrap_or (tf_len (ce_files E) p) 0)) usize_max > limit)"

lemma select_leaves_out:
  assumes "select_within_bounds E max_files max_total ps selected t = result"
    "t = min (bytes_of E selected) usize_max" "p \<in> set ps" "p \<notin> set result"
  shows "no_room E max_files max_total result p"
  using assms
proof (induction ps arbitrary: selected t)
  case (Cons q ps)
  let ?len = "unat (unwrap_or (tf_len (ce_files E) q) 0)"
  let ?left_out = "left_out E max_files max_total selected t q"
  show ?case
  proof (cases ?left_out)
    case True
    with Cons.prems have rest: "select_within_bounds E max_files max_total ps selected t = result"
      by (simp add: select_step del: select_within_bounds.simps)
    show ?thesis
    proof (cases "p \<in> set ps")
      case False
      then have p: "p = q" using Cons.prems(3) by simp
      obtain ms where r: "result = selected @ ms" using select_grows rest by metis
      have "bytes_of E selected \<le> bytes_of E result" by (simp add: r bytes_of_def)
      then show ?thesis
        using True Cons.prems(2) r unfolding no_room_def p sat_add_def left_out_def
        by (force split: option.splits)
    qed (use Cons.IH [OF rest Cons.prems(2) _ Cons.prems(4)] in blast)
  next
    case False
    with Cons.prems(1) have rest: "select_within_bounds E max_files max_total ps (selected @ [q]) (sat_add t ?len) = result"
      by (simp add: select_step del: select_within_bounds.simps)
    have t: "sat_add t ?len = min (bytes_of E (selected @ [q])) usize_max"
      by (simp add: Cons.prems(2) sat_add_def bytes_of_def)
    obtain ms where "result = (selected @ [q]) @ ms" using select_grows rest by metis
    then have "p \<noteq> q" using Cons.prems(4) by auto
    then show ?thesis using Cons.IH [OF rest t _ Cons.prems(4)] Cons.prems(3) by simp
  qed
qed simp

lemma bounds_select:
  assumes "apply_codex_session_import_bounds E max_files max_total given = (ps, skipped)"
    "max_files \<noteq> None \<or> max_total \<noteq> None"
  defines "kept \<equiv> select_within_bounds E max_files (map_option unat max_total) (rev (sort given)) [] 0"
  shows "ps = sort kept" "skipped = length given - length kept"
  using assms by (auto simp: apply_codex_session_import_bounds_def Let_def sat_sub_def)

lemma bytes_of_sort: "bytes_of E (sort ps) = bytes_of E ps"
proof -
  have "sum_list (map f (sort ps)) = sum_list (map f ps)" for f :: "path \<Rightarrow> nat"
    by (metis mset_map mset_sort sum_mset_sum_list)
  then show ?thesis by (simp add: bytes_of_def)
qed


section \<open>The tail of a file\<close>

type_synonym reads = "(capture_error + jsonl_read \<times> string) list"

fun read_bytes :: "capture_error + jsonl_read \<times> string \<Rightarrow> nat" where
  "read_bytes (Inr (ReadLine n, _)) = n"
| "read_bytes (Inr (ReadOversized n, _)) = n"
| "read_bytes _ = 0"

definition total_bytes :: "reads \<Rightarrow> nat" where
  "total_bytes rs = (\<Sum>r\<leftarrow>rs. read_bytes r)"

fun is_line :: "capture_error + jsonl_read \<times> string \<Rightarrow> bool" where
  "is_line (Inr (ReadLine n, _)) = (n > 0)"
| "is_line (Inr (ReadOversized n, _)) = (n > 0)"
| "is_line _ = False"

definition oversized_lines :: "reads \<Rightarrow> nat" where
  "oversized_lines rs = length (filter (\<lambda>r. \<exists>n l. r = Inr (ReadOversized n, l)) rs)"

lemma skip_to_boundary:
  assumes "list_all is_line passed" "position + total_bytes passed = start" "start \<le> usize_max"
  shows "tail_skip start n position s (passed @ rest)
    = Inr (Some (n + length passed, rest), (count_skipped_event ^^ oversized_lines passed) s)"
  using assms
proof (induction passed arbitrary: n position s)
  case Nil
  then show ?case by (simp add: total_bytes_def oversized_lines_def)
next
  case (Cons r passed)
  have before: "position < start" using Cons.prems(1,2) by (cases r rule: is_line.cases) (auto simp: total_bytes_def)
  have moved: "sat_add position (read_bytes r) = position + read_bytes r"
    using Cons.prems(2,3) by (auto simp: sat_add_def total_bytes_def)
  have rest: "position + read_bytes r + total_bytes passed = start"
    using Cons.prems(2) by (simp add: total_bytes_def)
  show ?case
    using Cons.prems(1) before moved Cons.IH [OF _ rest Cons.prems(3)]
    by (cases r rule: is_line.cases) (auto simp: oversized_lines_def funpow_swap1)
qed

text \<open>What is read from an offset within a line starts after that line.\<close>

lemma skip_past_line:
  assumes "list_all is_line passed" "position + total_bytes passed < start"
    "start \<le> position + total_bytes passed + k" "start + k \<le> usize_max"
  shows "tail_skip start n position s (passed @ Inr (ReadLine k, line) # rest)
    = Inr (Some (n + length passed + 1, rest), (count_skipped_event ^^ oversized_lines passed) s)"
  using assms
proof (induction passed arbitrary: n position s)
  case Nil
  then show ?case by (simp add: total_bytes_def oversized_lines_def sat_add_def)
next
  case (Cons r passed)
  have moved: "sat_add position (read_bytes r) = position + read_bytes r"
    using Cons.prems(2,4) by (auto simp: sat_add_def total_bytes_def)
  have "position + read_bytes r + total_bytes passed < start"
    "start \<le> position + read_bytes r + total_bytes passed + k"
    using Cons.prems(2,3) by (simp_all add: total_bytes_def)
  from Cons.IH [OF _ this Cons.prems(4)] show ?case
    using Cons.prems(1,2) moved
    by (cases r rule: is_line.cases) (auto simp: oversized_lines_def funpow_swap1)
qed

section \<open>Lines that are lost\<close>

text \<open>A message line, and what of it is in the file when the writer has flushed its first half.\<close>

definition half_line :: string where
  "half_line = ''{'' @ quoted ''timestamp'' @ '':'' @ quoted ''2025-06-01T10:00:00Z'' @ '',''"

definition whole_line :: string where
  "whole_line = half_line @ quoted ''type'' @ '':'' @ quoted ''response_item'' @ '','' @ quoted ''payload''
     @ '':{'' @ quoted ''type'' @ '':'' @ quoted ''message'' @ '','' @ quoted ''role'' @ '':'' @ quoted ''user'' @ '',''
     @ quoted ''content'' @ '':'' @ quoted ''please continue'' @ ''}}'' @ [line_feed]"

lemma whole_line_texts:
  "\<not> blank_line whole_line" "should_parse_codex_session_line whole_line"
  "\<not> is_codex_tool_output_line whole_line" "0 < length half_line" "length half_line \<le> length whole_line"
  by code_simp+

lemma half_line_ignored: "codex_line_kind T half_line = Line_Ignored"
proof -
  have "\<not> should_parse_codex_session_line half_line" by code_simp
  then show ?thesis by (simp add: codex_line_kind_def)
qed

text \<open>A command that timed out, reported in the text of its output.\<close>

definition timed_out_output :: string where
  "timed_out_output = ''{'' @ quoted ''timed_out'' @ '':true}''"

definition escaped_quotes :: "string \<Rightarrow> string" where
  "escaped_quotes s = concat (map (\<lambda>c. if c = CHR 0x22 then [CHR 0x5C, c] else [c]) s)"

definition timed_out_line :: string where
  "timed_out_line = ''{'' @ quoted ''type'' @ '':'' @ quoted ''response_item'' @ '','' @ quoted ''payload'' @ '':{''
     @ quoted ''type'' @ '':'' @ quoted ''function_call_output'' @ '','' @ quoted ''call_id'' @ '':'' @ quoted ''c1'' @ '',''
     @ quoted ''output'' @ '':'' @ quoted (escaped_quotes timed_out_output) @ ''}}''"

definition timed_out_payload :: json where
  "timed_out_payload = JObj [(''type'', JStr ''function_call_output''), (''call_id'', JStr ''c1''),
     (''output'', JStr timed_out_output)]"

definition timed_out_value :: json where
  "timed_out_value = JObj [(''type'', JStr ''response_item''), (''payload'', timed_out_payload)]"

definition json_of_timed_out :: "'f transcript_lib \<Rightarrow> bool" where
  "json_of_timed_out T \<longleftrightarrow>
     tl_json T timed_out_line = Inr timed_out_value
     \<and> tl_json T timed_out_output = Inr (JObj [(''timed_out'', JBool True)])"

lemma timed_out_line_texts:
  "blank_line timed_out_line = False" "should_parse_codex_session_line timed_out_line"
  "is_codex_tool_output_line timed_out_line"
  "\<not> contains_bytes timed_out_line (quoted ''timed_out'' @ '':true'')"
  "\<not> contains_bytes timed_out_line ''timed_out=true''" "\<not> contains_bytes timed_out_line ''timed out''"
  by code_simp+

lemma no_exit_code: "\<not> codex_tool_output_line_has_nonzero_exit_code timed_out_line"
proof -
  have "text_after ''Process exited with code '' timed_out_line = None" by code_simp
  then show ?thesis by (simp add: codex_tool_output_line_has_nonzero_exit_code.simps)
qed

lemma no_failure_field: "\<not> provider_output_event_is_failure timed_out_payload"
  by (simp add: timed_out_payload_def provider_output_object_indicates_failure_def)

lemma timed_out_skipped:
  assumes "json_of_timed_out T"
  shows "codex_line_kind T timed_out_line = Line_Skipped_Output"
  using assms no_failure_field
  by (simp add: codex_line_kind_def timed_out_line_texts should_skip_codex_tool_output_line_def
      codex_tool_output_line_looks_important_def no_exit_code json_of_timed_out_def json_of_def timed_out_value_def)

section \<open>A small run\<close>

definition header_line :: string where
  "header_line = ''{'' @ quoted ''type'' @ '':'' @ quoted ''session_meta'' @ ''}'' @ [line_feed]"

definition header_value :: json where
  "header_value = JObj [(''type'', JStr ''session_meta''),
     (''payload'', JObj [(''id'', JStr ''s1''), (''timestamp'', JStr ''2025'')])]"

definition demo_lib :: "bool transcript_lib" where
  "demo_lib =
     \<lparr>tl_json = (\<lambda>s. if s = header_line then Inr header_value
        else if s = whole_line then Inr (JObj [(''type'', JStr ''response_item'')])
        else if s = timed_out_line then Inr timed_out_value
        else if s = timed_out_output then Inr (JObj [(''timed_out'', JBool True)])
        else Inl ''syntax''),
      tl_rfc3339 = (\<lambda>_. Some 0), tl_from_timestamp_millis = (\<lambda>_. None), tl_parse_f64 = (\<lambda>_. None),
      tl_as_f64 = (\<lambda>_. None), tl_is_finite = (\<lambda>_. True), tl_abs = (\<lambda>x. x), tl_round = (\<lambda>x. x),
      tl_mul = (\<lambda>x y. x \<and> y), tl_greater = (\<lambda>x y. x \<and> \<not> y), tl_f64_of = (\<lambda>i. i \<noteq> 0),
      tl_as_i64 = (\<lambda>x. if x then 1 else 0)\<rparr>"

definition demo_files :: transcript_files where
  "demo_files =
     \<lparr>tf_tree = demo_tree, tf_open = (\<lambda>_. Inr [Some (header_line @ whole_line)]),
      tf_len = (\<lambda>_. Some 40), tf_modified_ms = (\<lambda>_. 0)\<rparr>"

definition demo_env :: "bool codex_env" where
  "demo_env =
     \<lparr>ce_externals = demo_externals, ce_unicode = demo_unicode, ce_error_text = (\<lambda>_. ''error''),
      ce_lib = demo_lib, ce_lengths = demo_lengths, ce_files = demo_files, ce_parallelism = 4\<rparr>"

definition demo_codex_options :: codex_import_options where
  "demo_codex_options =
     \<lparr>co_machine_id = ''m'', co_source_path = None, co_imported_at = 0, co_history_record_id = None,
      co_max_session_files = None, co_max_total_bytes = None, co_fast_event_inserts = True\<rparr>"

lemma demo_lengths_ok:
  "0 < length header_line" "length header_line \<le> 100" "0 < length whole_line" "length whole_line \<le> 200"
  by code_simp+

lemma demo_reads:
  "file_reads [Some (header_line @ whole_line)]
     = [Inr (ReadLine (length header_line), header_line), Inr (ReadLine (length whole_line), whole_line)]"
proof -
  have "length (header_line @ whole_line) \<le> 300" by code_simp
  then have "readable [Some (header_line @ whole_line)]"
    by (simp add: readable_def usize_max_def header_line_def)
  moreover have "file_lines (header_line @ whole_line) = [header_line, whole_line]" by code_simp
  moreover have "line_read header_line = (ReadLine (length header_line), header_line)"
    "line_read whole_line = (ReadLine (length whole_line), whole_line)"
    using demo_lengths_ok by (auto simp: line_read_def MAX_PROVIDER_JSONL_LINE_BYTES_def)
  ultimately show ?thesis by (simp add: reads_lines)
qed

lemma demo_env_parts [simp]:
  "tf_open (ce_files demo_env) p = Inr [Some (header_line @ whole_line)]" "ce_lib demo_env = demo_lib"
  "tf_len (ce_files demo_env) p = Some 40"
  by (simp_all add: demo_env_def demo_files_def)

lemma demo_lib_json:
  "tl_json demo_lib header_line = Inr header_value"
  "tl_json demo_lib whole_line = Inr (JObj [(''type'', JStr ''response_item'')])"
  "json_of_timed_out demo_lib"
  unfolding json_of_timed_out_def by code_simp+

lemma demo_header:
  "\<exists>h. tail_header demo_env (file_reads [Some (header_line @ whole_line)]) = Inr (Some (h, length header_line))"
proof -
  have "\<exists>h. codex_session_header demo_lib header_value = Inr h"
    by (simp add: codex_session_header_def header_value_def demo_lib_def non_blank_id_def Let_def) code_simp
  then show ?thesis by (auto simp: tail_header_def demo_reads demo_lib_json)
qed

section \<open>Properties\<close>

text \<open>C30: Whatever files a Codex import reads and whichever of its calls to the store fail, a whole
  file, the tail of one, a list of files or a tree, what is committed then satisfies every constraint of
  the store, and no row that was there is lost.\<close>

theorem codex_import_keeps_the_store:
  assumes "import \<in> {import_codex_session_jsonl_tail E p start options, import_codex_session_paths E ps options,
      import_codex_session_tree E root options}"
    "import b = (r, b')" "im_db (bs_import b) = bs_committed b" "store_ok (bs_committed b)"
  shows "store_ok (bs_committed b') \<and> rows_kept_from (bs_committed b) (bs_committed b')"
proof -
  let ?X = "ce_externals E" and ?U = "ce_unicode E"
  have over: "store_kept.over ?X ?U E" "rows_stay.over ?X ?U E"
    by (simp_all add: store_kept.over_def rows_stay.over_def)
  have "store_kept.run_kept_by import"
    using assms(1) store_kept.tail_import_kept [OF over(1)] store_kept.tree_import_kept [OF over(1)] by auto
  from store_kept.run_kept_byD [OF this _ assms(2)] assms(3,4)
  have "store_ok (bs_committed b')" by (simp add: store_kept.both_state)
  moreover have "rows_stay.run_kept_by (bs_committed b) import"
    using assms(1) rows_stay.tail_import_kept [OF over(2)] rows_stay.tree_import_kept [OF over(2)] by auto
  from rows_stay.run_kept_byD [OF this _ assms(2)] assms(3)
  have "rows_kept_from (bs_committed b) (bs_committed b')" by (simp add: rows_stay.both_state kept_updates)
  ultimately show ?thesis ..
qed

theorem codex_import_keeps_the_store_witness:
  "\<exists>r b'. import_codex_session_tree demo_env [''s''] demo_codex_options (demo_batch [CallOk, CallOk, CallFailed (Sql (SqlFailure ''io''))])
       = (r, b') \<and> store_ok (bs_committed b') \<and> rows_kept_from empty_db (bs_committed b')"
proof -
  obtain r b' where run: "import_codex_session_tree demo_env [''s''] demo_codex_options
      (demo_batch [CallOk, CallOk, CallFailed (Sql (SqlFailure ''io''))]) = (r, b')"
    by (rule prod.exhaust)
  from codex_import_keeps_the_store [of "import_codex_session_tree demo_env [''s''] demo_codex_options" demo_env _ _
      demo_codex_options _ "[''s'']", OF _ run] run empty_db_ok show ?thesis
    by (simp add: demo_batch_settled empty_state_def)
qed

text \<open>C32: A line that was half written when the file was imported can be lost for good. If the half has
  no type yet, the import passes over it without a failure, so the file counts as indexed up to the
  middle of the line; the import of the tail from that offset then reads the finished line only to reach
  the offset, and imports what follows it.\<close>

theorem half_written_line_is_lost:
  assumes "tf_open (ce_files E) p = Inr r"
    "file_reads r = Inr (ReadLine n, first)
       # passed @ Inr (ReadLine (length whole_line), whole_line) # rest"
    "list_all is_line passed" "tail_header E (file_reads r) = Inr (Some (header, n))"
    "start = n + total_bytes passed + length half_line" "start + length whole_line \<le> usize_max"
    "tl_json (ce_lib E) whole_line = Inr v"
  shows "codex_line_kind (ce_lib E) half_line = Line_Ignored
    \<and> codex_line_kind (ce_lib E) whole_line = Line_Value v
    \<and> import_codex_session_jsonl_tail_bounded E options p start b =
       in_bounded_transaction E True
         (tail_loop E options p header rest (2 + length passed)
           (start_fast ((count_skipped_event ^^ oversized_lines passed) empty_summary))) b"
proof (intro conjI half_line_ignored)
  show "codex_line_kind (ce_lib E) whole_line = Line_Value v"
    using assms(7) whole_line_texts
    by (simp add: codex_line_kind_def should_skip_codex_tool_output_line_def)
  have "tail_skip start 1 n empty_summary
      (passed @ Inr (ReadLine (length whole_line), whole_line) # rest)
    = Inr (Some (1 + length passed + 1, rest), (count_skipped_event ^^ oversized_lines passed) empty_summary)"
    using assms(5,6) whole_line_texts(4,5) by (intro skip_past_line assms(3)) auto
  then show "import_codex_session_jsonl_tail_bounded E options p start b =
       in_bounded_transaction E True
         (tail_loop E options p header rest (2 + length passed)
           (start_fast ((count_skipped_event ^^ oversized_lines passed) empty_summary))) b"
    using assms(1,4) by (simp add: import_codex_session_jsonl_tail_bounded_def assms(2))
qed

theorem half_written_line_is_lost_witness:
  "\<exists>h. import_codex_session_jsonl_tail_bounded demo_env demo_codex_options [''s'', ''a.jsonl'']
       (length header_line + length half_line) (demo_batch []) =
     in_bounded_transaction demo_env True
       (tail_loop demo_env demo_codex_options [''s'', ''a.jsonl''] h [] 2 (start_fast empty_summary)) (demo_batch [])"
proof -
  obtain h where h: "tail_header demo_env (file_reads [Some (header_line @ whole_line)]) = Inr (Some (h, length header_line))"
    using demo_header by blast
  have "length header_line + length half_line + length whole_line \<le> usize_max"
    using demo_lengths_ok whole_line_texts(5) by (simp add: usize_max_def)
  with half_written_line_is_lost [of demo_env "[''s'', ''a.jsonl'']" _ "length header_line" header_line "[]" "[]",
      OF demo_env_parts(1) _ _ h refl _ demo_lib_json(2) [folded demo_env_parts(2)]]
  show ?thesis by (simp add: demo_reads total_bytes_def oversized_lines_def)
qed

text \<open>C33: A command that timed out is dropped when its output says so in embedded JSON. The event builder
  reads that field and would make a failed output of the line, with \<open>timed_out\<close> set; but the filter
  before it looks for the unescaped text and counts the line as a successful output.\<close>

theorem timed_out_output_is_skipped:
  assumes "json_of_timed_out T"
  shows "codex_line_kind T timed_out_line = Line_Skipped_Output
    \<and> (\<exists>e. codex_session_event X T timed_out_value n t (\<lambda>_. None) = (Some e, \<lambda>_. None)
          \<and> jget (pev_payload e) ''timed_out'' = Some (JBool True))"
proof
  show "codex_line_kind T timed_out_line = Line_Skipped_Output" by (rule timed_out_skipped [OF assms])
  have parsed: "codex_timed_out T timed_out_payload = Some True"
    using assms by (simp add: codex_timed_out_def timed_out_payload_def codex_parse_embedded_json_def
        json_of_def json_of_timed_out_def)
  then have failed: "codex_output_failed T timed_out_payload c" for c by (simp add: codex_output_failed_def)
  obtain e where e: "codex_tool_output_event X T timed_out_payload n t (\<lambda>_. None) = Some e"
    "jget (pev_payload e) ''timed_out'' = Some (JBool True)"
  proof (rule that)
    show "codex_tool_output_event X T timed_out_payload n t (\<lambda>_. None)
        = Some (the (codex_tool_output_event X T timed_out_payload n t (\<lambda>_. None)))"
      by (simp add: codex_tool_output_event_def failed Let_def case_prod_beta)
    show "jget (pev_payload (the (codex_tool_output_event X T timed_out_payload n t (\<lambda>_. None)))) ''timed_out''
        = Some (JBool True)"
      by (simp add: codex_tool_output_event_def failed parsed Let_def case_prod_beta codex_provider_event_def jget_json_object)
  qed
  have "codex_session_event X T timed_out_value n t (\<lambda>_. None)
      = (codex_tool_output_event X T timed_out_payload n t (\<lambda>_. None), \<lambda>_. None)"
    by (simp add: codex_session_event_def entry_type_of_def timed_out_value_def codex_response_item_event_def
        timed_out_payload_def call_item_types_def output_item_types_def)
  with e show "\<exists>e. codex_session_event X T timed_out_value n t (\<lambda>_. None) = (Some e, \<lambda>_. None)
      \<and> jget (pev_payload e) ''timed_out'' = Some (JBool True)"
    by simp
qed

theorem timed_out_output_is_skipped_witness:
  "codex_line_kind demo_lib timed_out_line = Line_Skipped_Output"
  using timed_out_output_is_skipped [OF demo_lib_json(3)] by blast

text \<open>The files a bounded run imports are some of those given, each as often as given, in their
  order, none beyond the limit of files or the limit of bytes (a sum past the largest u64 counts as that
  number); the others are counted as skipped, and each was left out because a limit leaves no room for
  it beside the selected ones.\<close>

theorem bounds_respected:
  assumes "apply_codex_session_import_bounds E max_files max_total given = (ps, skipped)"
  shows "sorted ps \<and> mset ps \<subseteq># mset given \<and> length ps + skipped = length given
    \<and> within max_files (length ps) \<and> within (map_option unat max_total) (min (bytes_of E ps) usize_max)
    \<and> (\<forall>p \<in> set given - set ps. no_room E max_files (map_option unat max_total) ps p)"
proof (cases "max_files = None \<and> max_total = None")
  case True
  then show ?thesis using assms by (auto simp: apply_codex_session_import_bounds_def within_def)
next
  case False
  let ?kept = "select_within_bounds E max_files (map_option unat max_total) (rev (sort given)) [] 0"
  have ps: "ps = sort ?kept" "skipped = length given - length ?kept"
    using bounds_select [OF assms] False by auto
  have "within max_files (length ?kept) \<and> within (map_option unat max_total) (min (bytes_of E ?kept) usize_max)
    \<and> (\<exists>more_ps. ?kept = [] @ more_ps \<and> mset more_ps \<subseteq># mset (rev (sort given)))"
    by (rule select_keeps [OF refl]) (auto simp: bytes_of_def within_def split: option.splits)
  then have in_bounds: "within max_files (length ?kept)" "mset ?kept \<subseteq># mset given"
    "within (map_option unat max_total) (min (bytes_of E ?kept) usize_max)"
    by auto
  have out: "no_room E max_files (map_option unat max_total) ?kept p" if "p \<in> set given" "p \<notin> set ?kept" for p
    by (rule select_leaves_out [OF refl]) (use that in \<open>auto simp: bytes_of_def\<close>)
  then have "\<forall>p \<in> set given - set ps. no_room E max_files (map_option unat max_total) ps p"
    by (auto simp: ps no_room_def bytes_of_sort)
  with in_bounds size_mset_mono [OF in_bounds(2)] show ?thesis
    by (simp add: ps bytes_of_sort)
qed

theorem bounds_respected_witness:
  "\<exists>ps. apply_codex_session_import_bounds demo_env (Some 2) (Some 100) [[''a''], [''c''], [''b'']] = (ps, 1)
     \<and> sorted ps \<and> length ps + 1 = 3 \<and> bytes_of demo_env ps \<le> 100"
proof -
  have run: "apply_codex_session_import_bounds demo_env (Some 2) (Some 100) [[''a''], [''c''], [''b'']]
      = ([[''b''], [''c'']], 1)"
  proof -
    have order: "sort [[''a''], [''c''], [''b'']] = [[''a''], [''b''], [''c'']]" "sort [[''c''], [''b'']] = [[''b''], [''c'']]"
      by code_simp+
    show ?thesis
      by (simp add: apply_codex_session_import_bounds_def Let_def order sat_add_exact sat_sub_def usize_max_def)
  qed
  from bounds_respected [OF run] run show ?thesis by (simp add: bytes_of_def)
qed

text \<open>C31: The import of a tail that starts where a line starts takes exactly the lines from there on,
  under the line numbers they have in the whole file: the header is read from the first line, and of the
  lines passed over only the oversized ones leave a trace, as skipped events.\<close>

theorem tail_is_the_rest:
  assumes "tf_open (ce_files E) p = Inr r" "file_reads r = Inr (ReadLine n, first) # passed @ rest"
    "list_all is_line passed" "start = n + total_bytes passed" "start \<le> usize_max"
    "tail_header E (file_reads r) = Inr (Some (header, n))"
  shows "import_codex_session_jsonl_tail_bounded E options p start b =
    in_bounded_transaction E True
      (tail_loop E options p header rest (1 + length passed)
        (start_fast ((count_skipped_event ^^ oversized_lines passed) empty_summary))) b"
  using assms(6) skip_to_boundary [OF assms(3), of n start 1 empty_summary rest] assms(1,4,5)
  by (simp add: import_codex_session_jsonl_tail_bounded_def assms(2))

theorem tail_is_the_rest_witness:
  "\<forall>p b. \<exists>h. import_codex_session_jsonl_tail_bounded demo_env demo_codex_options p (length header_line) b =
     in_bounded_transaction demo_env True
       (tail_loop demo_env demo_codex_options p h [Inr (ReadLine (length whole_line), whole_line)] 1
         (start_fast empty_summary)) b"
proof (intro allI)
  fix p b
  obtain h where h: "tail_header demo_env (file_reads [Some (header_line @ whole_line)]) = Inr (Some (h, length header_line))"
    using demo_header by blast
  have "length header_line \<le> usize_max" using demo_lengths_ok by (simp add: usize_max_def)
  from tail_is_the_rest [of demo_env p _ "length header_line" header_line "[]", OF demo_env_parts(1) _ _ _ this h]
  show "\<exists>h. import_codex_session_jsonl_tail_bounded demo_env demo_codex_options p (length header_line) b =
     in_bounded_transaction demo_env True
       (tail_loop demo_env demo_codex_options p h [Inr (ReadLine (length whole_line), whole_line)] 1
         (start_fast empty_summary)) b" by (auto simp: demo_reads total_bytes_def oversized_lines_def)
qed

end
