(* ===== verification/Catalog_Refresh.thy ===== *)
theory Catalog_Refresh
  imports Catalog
begin

text \<open>
  What the catalog promises: the states of a row that its operations can reach, what a new scan of a
  directory leaves to import, and the counts shown to the user. The locale \<open>indexed_files\<close> states once
  what holds of both tables of files.
\<close>

section \<open>Tables of files with an index state\<close>

locale indexed_files =
  fixes stale :: "'r \<Rightarrow> bool" and index :: "'r \<Rightarrow> file_index" and sz :: "'r \<Rightarrow> u64"
    and modified :: "'r \<Rightarrow> int" and extra :: "'r \<Rightarrow> bool" and pending :: "'r \<Rightarrow> bool"
  assumes pending_def: "pending r \<longleftrightarrow> file_pending (sz r) (modified r) (index r) \<or> \<not> extra r"
begin

definition done_row :: "'r \<Rightarrow> bool" where
  "done_row r \<longleftrightarrow> file_indexed (sz r) (modified r) (index r) \<and> extra r"

lemma pending_iff: "pending r \<longleftrightarrow> \<not> done_row r"
  by (auto simp: pending_def done_row_def file_pending_def file_indexed_def)

lemma counts_partition:
  "row_count (\<lambda>r. \<not> stale r) rows
   = row_count (\<lambda>r. \<not> stale r \<and> done_row r) rows + row_count (\<lambda>r. \<not> stale r \<and> pending r) rows"
  by (induction rows) (auto simp: row_count_def pending_iff)

lemma failed_pending:
  "row_count (\<lambda>r. \<not> stale r \<and> ix_status (index r) = Failed) rows
   \<le> row_count (\<lambda>r. \<not> stale r \<and> pending r) rows"
  unfolding row_count_def
  by (induction rows) (auto simp: pending_def file_pending_def)

lemma all_rows: "row_count (\<lambda>r. \<not> stale r) rows + row_count stale rows = length rows"
  by (induction rows) (auto simp: row_count_def)

end

interpretation catalog_files: indexed_files ct_is_stale ct_index
    "\<lambda>r. cg_file_size_bytes (ct_session r)" "\<lambda>r. cg_file_modified_at_ms (ct_session r)"
    "session_imported d" "catalog_pending_import d" for d
  by unfold_locales (simp add: catalog_pending_import_def)

interpretation source_files: indexed_files sr_is_stale sr_index
    "\<lambda>r. sf_file_size_bytes (sr_file r)" "\<lambda>r. sf_file_modified_at_ms (sr_file r)"
    "\<lambda>_. True" source_import_file_pending
  by unfold_locales (simp add: source_import_file_pending_def)

section \<open>The states of a row\<close>

definition file_index_ok :: "file_index \<Rightarrow> bool" where
  "file_index_ok ix \<longleftrightarrow>
     (case ix_status ix of
        Pending \<Rightarrow> ix = not_indexed
      | Indexed \<Rightarrow> (\<exists>at sz modified. ix = indexed_as at sz modified)
      | Failed \<Rightarrow> (\<exists>at error. ix = failed_with at error))"

lemma file_index_ok_written [simp]:
  "file_index_ok not_indexed" "file_index_ok (indexed_as at sz modified)" "file_index_ok (failed_with at error)"
  by (auto simp: file_index_ok_def not_indexed_def indexed_as_def failed_with_def)

text \<open>An indexed row is the one the last import left: its index columns are those of the last import.
  Only an indexed row has a count.\<close>

definition catalog_row_ok :: "catalog_row \<Rightarrow> bool" where
  "catalog_row_ok r \<longleftrightarrow>
     file_index_ok (ct_index r)
     \<and> (if ix_status (ct_index r) = Indexed
        then ix_file_size_bytes (ct_index r) = li_file_size_bytes (ct_last_imported r)
             \<and> ix_file_modified_at_ms (ct_index r) = li_file_modified_at_ms (ct_last_imported r)
             \<and> ix_at_ms (ct_index r) = li_at_ms (ct_last_imported r)
             \<and> ct_indexed_event_count r = li_event_count (ct_last_imported r)
        else ct_indexed_event_count r = None)"

definition catalog_ok :: "catalog_row list \<Rightarrow> bool" where
  "catalog_ok rows \<longleftrightarrow> distinct (map row_path rows) \<and> list_all catalog_row_ok rows"

inductive catalog_step :: "externals \<Rightarrow> catalog_row list \<Rightarrow> catalog_row list \<Rightarrow> bool" for X where
  Upserted: "catalog_step X rows (snd (upsert_catalog_sessions X sessions rows))"
| Source_Stale: "catalog_step X rows (snd (mark_catalog_source_stale provider root at rows))"
| Missing_Stale:
    "catalog_step X rows (snd (mark_catalog_source_missing_paths_stale provider root paths at rows))"
| Marked_Indexed: "catalog_step X rows (snd (mark_catalog_source_indexed provider u rows))"
| Marked_Failed: "catalog_step X rows (snd (mark_catalog_source_failed provider root path error at rows))"

lemma statuses [simp]:
  "ix_status not_indexed = Pending" "ix_status (indexed_as at sz modified) = Indexed"
  "ix_status (failed_with at error) = Failed"
  by (simp_all add: not_indexed_def indexed_as_def failed_with_def)

lemma changed_rows_ok:
  assumes "catalog_ok rows" "\<And>r. catalog_row_ok r \<Longrightarrow> matches r \<Longrightarrow> catalog_row_ok (change r)"
    "\<And>r. row_path (change r) = row_path r"
  shows "catalog_ok (snd (update_rows matches change rows))"
proof -
  have "distinct (map row_path (snd (update_rows matches change rows)))"
    using assms(1,3) by (simp add: catalog_ok_def update_rows_def comp_def if_distrib cong: if_cong)
  then show ?thesis
    using assms(1,2) by (auto simp: catalog_ok_def list_all_iff update_rows_def)
qed

lemma new_row_ok: "catalog_row_ok (new_catalog_row s)"
  by (simp add: catalog_row_ok_def new_catalog_row_def)

lemma merged_row_ok: "catalog_row_ok old \<Longrightarrow> catalog_row_ok (merge_catalog_row X old new)"
  by (simp add: catalog_row_ok_def merge_catalog_row_def Let_def)

lemma upsert_row_ok:
  assumes "catalog_ok rows"
  shows "catalog_ok (upsert_row row_path (merge_catalog_row X) (new_catalog_row s) rows)"
  using assms catalog_rows.upsert_member [of _ X "new_catalog_row s" rows]
  unfolding catalog_ok_def list_all_iff
  by (blast intro: catalog_rows.distinct_upsert new_row_ok merged_row_ok)

lemma upsert_sessions_ok: "catalog_ok rows \<Longrightarrow> catalog_ok (snd (upsert_catalog_sessions X ss rows))"
  by (induction ss arbitrary: rows) (auto simp: upsert_row_ok split: option.split)

lemma catalog_step_ok:
  assumes "catalog_step X rows rows'" "catalog_ok rows"
  shows "catalog_ok rows'"
  using assms
proof cases
  case Upserted then show ?thesis using assms(2) by (simp add: upsert_sessions_ok)
next
  case Source_Stale then show ?thesis
    using assms(2) by (auto simp: mark_catalog_source_stale_def catalog_row_ok_def intro!: changed_rows_ok)
next
  case Missing_Stale then show ?thesis
    using assms(2)
    by (auto simp: mark_catalog_source_missing_paths_stale_def catalog_row_ok_def intro!: changed_rows_ok)
next
  case Marked_Indexed then show ?thesis
    using assms(2)
    by (auto simp: mark_catalog_source_indexed_def catalog_row_ok_def indexed_as_def Let_def
        file_index_ok_def intro!: changed_rows_ok)
next
  case Marked_Failed then show ?thesis
    using assms(2) by (auto simp: mark_catalog_source_failed_def catalog_row_ok_def intro!: changed_rows_ok)
qed

text \<open>C0: whatever the catalog operations did, no path is in the table twice, a row is pending with no
  index columns, or indexed with exactly the sz, time and count of its last import, or failed with its
  error and no sz, and only a row whose file is the one last imported counts as indexed.\<close>
theorem reachable_catalog_ok:
  assumes "(catalog_step X)\<^sup>*\<^sup>* [] rows"
  shows "distinct (map row_path rows) \<and> list_all catalog_row_ok rows
    \<and> (\<forall>d. \<forall>r \<in> set rows. catalog_indexed d r \<longrightarrow>
         li_file_size_bytes (ct_last_imported r) = Some (cg_file_size_bytes (ct_session r))
         \<and> li_file_modified_at_ms (ct_last_imported r) = Some (cg_file_modified_at_ms (ct_session r)))"
proof -
  have "catalog_ok rows"
    using assms by (induction rule: rtranclp_induct) (auto simp: catalog_ok_def [of "[]"] intro: catalog_step_ok)
  then show ?thesis
    by (auto simp: catalog_ok_def list_all_iff catalog_row_ok_def catalog_indexed_def file_indexed_def)
qed

theorem reachable_catalog_ok_witness:
  "\<exists>rows. (catalog_step demo_externals)\<^sup>*\<^sup>* [] rows \<and> rows \<noteq> [] \<and> distinct (map row_path rows)
     \<and> list_all catalog_row_ok rows"
proof -
  let ?s = "\<lparr>cg_provider = CaptureProvider_Codex, cg_source_format = ''f'', cg_source_root = ''/r'',
     cg_source_path = ''/r/a.jsonl'', cg_external_session_id = Some ''s1'', cg_parent_external_session_id = None,
     cg_agent_type = AgentType_Primary, cg_role_hint = None, cg_external_agent_id = None, cg_cwd = None,
     cg_session_started_at_ms = Some 1, cg_file_size_bytes = 100, cg_file_modified_at_ms = 5,
     cg_cataloged_at_ms = 6, cg_metadata = JNull\<rparr>"
  let ?rows = "snd (upsert_catalog_sessions demo_externals [?s] [])"
  let ?failed = "snd (mark_catalog_source_failed CaptureProvider_Codex ''/r'' ''/r/a.jsonl'' ''bad'' 7 ?rows)"
  have one: "?rows = [new_catalog_row ?s]" by (simp add: demo_externals_def upsert_row_def row_with_def)
  have "catalog_step demo_externals [] ?rows" "catalog_step demo_externals ?rows ?failed"
    by (rule Upserted, rule Marked_Failed)
  then have "(catalog_step demo_externals)\<^sup>*\<^sup>* [] ?failed" by simp
  from reachable_catalog_ok [OF this] this one show ?thesis
    by (intro exI [of _ ?failed]) (simp add: mark_catalog_source_failed_def update_rows_def)
qed

end
