(* ===== verification/Incremental_Import.thy ===== *)
theory Incremental_Import
  imports Codex_Catalog Codex_Runs Catalog_Refresh
begin

text \<open>
  The incremental import of a tree of Codex transcripts (\<open>commands/import/catalog.rs\<close> and the error
  classes of \<open>commands/import/report.rs\<close> in \<open>ctx-cli\<close>): scan the tree, list the files that are pending,
  import the tail of a file that has grown and whose old part is unchanged, every other file in full,
  and note in the catalog how each of them ended. The clock stands still during a run.
\<close>

section \<open>Errors\<close>

text \<open>An \<open>anyhow\<close> error with its chain of causes.\<close>

datatype import_failure =
    Failed_Capture capture_error
  | Failed_Store store_error
  | Failed_Io
  | Failed_Message string
  | With_Context string import_failure

datatype import_failure_scope = Source_Scope | System_Scope

fun system_capture_error :: "capture_error \<Rightarrow> bool" where
  "system_capture_error (CaptureStore _) = True"
| "system_capture_error (CaptureWorkerPanicked _) = True"
| "system_capture_error (CaptureSystemIo _) = True"
| "system_capture_error (CaptureSystemInvariant _) = True"
| "system_capture_error _ = False"

fun import_error_scope :: "import_failure \<Rightarrow> import_failure_scope" where
  "import_error_scope (Failed_Capture e) = (if system_capture_error e then System_Scope else Source_Scope)"
| "import_error_scope (Failed_Store _) = System_Scope"
| "import_error_scope (With_Context _ f) = import_error_scope f"
| "import_error_scope _ = Source_Scope"

text \<open>The library: the clock, the machine, SHA-256 as hexadecimal text, and the text of the innermost
  cause of an error.\<close>

record 'f import_env =
  iv_codex :: "'f codex_env"
  iv_now :: datetime
  iv_machine_id :: string
  iv_sha256 :: "string \<Rightarrow> string"
  iv_root_text :: "import_failure \<Rightarrow> string"

fun failure_text :: "'f import_env \<Rightarrow> import_failure \<Rightarrow> string" where
  "failure_text V (Failed_Capture e) = capture_error_text (ce_error_text (iv_codex V)) e"
| "failure_text V (Failed_Store e) = ce_error_text (iv_codex V) (CaptureStore e)"
| "failure_text V Failed_Io = ce_error_text (iv_codex V) CaptureIo"
| "failure_text V (Failed_Message m) = m"
| "failure_text V (With_Context c _) = c"

definition is_sqlite_busy_text :: "string \<Rightarrow> bool" where
  "is_sqlite_busy_text error \<longleftrightarrow>
     text_contains ''database is locked'' (ascii_lower error)
     \<or> text_contains ''database table is locked'' (ascii_lower error)"

definition index_busy_text :: string where
  "index_busy_text =
     ''ctx index is busy because another ctx import or search refresh is writing to the local database; retry in a moment, or rerun the search with `--refresh off` to use the existing index''"

definition error_summary :: "'f import_env \<Rightarrow> import_failure \<Rightarrow> string" where
  "error_summary V f =
     (let top = failure_text V f; root = iv_root_text V f
      in if import_error_scope f = System_Scope \<and> (is_sqlite_busy_text top \<or> is_sqlite_busy_text root)
         then index_busy_text
         else if root = top \<or> text_contains root top then top else top @ '': '' @ root)"

section \<open>Checkpoints\<close>

text \<open>\<open>Path::new\<close> of a displayed absolute path.\<close>

function path_of_text :: "string \<Rightarrow> path" where
  "path_of_text s =
     (if s = [] then []
      else let c = takeWhile (\<lambda>x. x \<noteq> CHR ''/'') s; rest = tl (dropWhile (\<lambda>x. x \<noteq> CHR ''/'') s)
           in (if c = [] then path_of_text rest else c # path_of_text rest))"
  by pat_completeness auto
termination
proof (relation "measure length")
  have shorter: "length (tl (dropWhile P s)) < length s" if "s \<noteq> []" for P and s :: string
  proof -
    have "0 < length s" using that by simp
    then show ?thesis using length_dropWhile_le [of P s] unfolding length_tl by linarith
  qed
  show "\<And>s x xa. s \<noteq> [] \<Longrightarrow> x = takeWhile (\<lambda>x. x \<noteq> CHR ''/'') s \<Longrightarrow>
      xa = tl (dropWhile (\<lambda>x. x \<noteq> CHR ''/'') s) \<Longrightarrow> x = [] \<Longrightarrow> (xa, s) \<in> measure length"
    "\<And>s x xa. s \<noteq> [] \<Longrightarrow> x = takeWhile (\<lambda>x. x \<noteq> CHR ''/'') s \<Longrightarrow>
      xa = tl (dropWhile (\<lambda>x. x \<noteq> CHR ''/'') s) \<Longrightarrow> x \<noteq> [] \<Longrightarrow> (xa, s) \<in> measure length"
    using shorter by auto
qed simp

declare path_of_text.simps [simp del]

definition ended_early :: "path \<Rightarrow> nat \<Rightarrow> import_failure" where
  "ended_early p n =
     Failed_Message (''file ended before checkpoint byte offset '' @ dec n @ '': '' @ display_path p)"

text \<open>The loop of reads into a buffer of 8192 bytes; what is hashed is what was read.\<close>

function read_prefix :: "import_failure \<Rightarrow> reader \<Rightarrow> nat \<Rightarrow> string \<Rightarrow> import_failure + string" where
  "read_prefix early r remaining hashed =
     (if remaining = 0 then Inr hashed
      else case r of
          [] \<Rightarrow> Inl early
        | None # _ \<Rightarrow> Inl Failed_Io
        | Some available # rest \<Rightarrow>
            if available = [] then Inl early
            else
              let got = take (min 8192 remaining) available
              in read_prefix early (consume (length got) available rest) (remaining - length got) (hashed @ got))"
  by pat_completeness auto
termination
  by (relation "measure (\<lambda>(early, r, remaining, hashed). remaining)") auto

declare read_prefix.simps [simp del]

definition sha256_file_prefix_hex :: "'f import_env \<Rightarrow> path \<Rightarrow> u64 \<Rightarrow> import_failure + string" where
  "sha256_file_prefix_hex V p byte_count =
     (case tf_open (ce_files (iv_codex V)) p of
        Inl _ \<Rightarrow> Inl Failed_Io
      | Inr r \<Rightarrow>
          bind_result (read_prefix (ended_early p (unat byte_count)) r (unat byte_count) [])
            (\<lambda>bytes. Inr (iv_sha256 V bytes)))"

definition catalog_import_checkpoint_matches ::
    "'f import_env \<Rightarrow> path \<Rightarrow> u64 \<Rightarrow> string option \<Rightarrow> import_failure + bool" where
  "catalog_import_checkpoint_matches V p byte_count expected_sha256 =
     (case expected_sha256 of
        None \<Rightarrow> Inr True
      | Some expected \<Rightarrow>
          bind_result (sha256_file_prefix_hex V p byte_count) (\<lambda>actual. Inr (actual = expected)))"

section \<open>The catalog and the store\<close>

record import_world =
  iw_batch :: batch_state
  iw_catalog :: catalog_store

type_synonym 'a world_action = "(import_world, import_failure, 'a) fallible"

text \<open>A method of the store called directly, and the scan, whose errors are those of the capture crate.\<close>

definition store_call :: "'a catalog_action \<Rightarrow> 'a world_action" where
  "store_call m w =
     (case m (iw_catalog w) of
        (Inl (CaptureStore e), k) \<Rightarrow> (Inl (Failed_Store e), w\<lparr>iw_catalog := k\<rparr>)
      | (Inl e, k) \<Rightarrow> (Inl (Failed_Capture e), w\<lparr>iw_catalog := k\<rparr>)
      | (Inr x, k) \<Rightarrow> (Inr x, w\<lparr>iw_catalog := k\<rparr>))"

definition scan_call :: "string \<Rightarrow> 'a catalog_action \<Rightarrow> 'a world_action" where
  "scan_call c m w =
     (case m (iw_catalog w) of
        (Inl e, k) \<Rightarrow> (Inl (With_Context c (Failed_Capture e)), w\<lparr>iw_catalog := k\<rparr>)
      | (Inr x, k) \<Rightarrow> (Inr x, w\<lparr>iw_catalog := k\<rparr>))"

text \<open>An import of the capture crate, its result as a value.\<close>

definition attempt_import ::
    "(batch_state \<Rightarrow> (capture_error + provider_import_summary) \<times> batch_state)
     \<Rightarrow> (capture_error + provider_import_summary) world_action" where
  "attempt_import run w = (case run (iw_batch w) of (r, b) \<Rightarrow> (Inr r, w\<lparr>iw_batch := b\<rparr>))"

definition now_ms :: "'f import_env \<Rightarrow> int" where
  "now_ms V = timestamp_millis (iv_now V)"

fun mark_catalog_sessions_failed :: "'f import_env \<Rightarrow> catalog_session list \<Rightarrow> string \<Rightarrow> unit world_action" where
  "mark_catalog_sessions_failed V [] error = return_m ()"
| "mark_catalog_sessions_failed V (s # ss) error =
     bind_m (store_call (catalog_write (mark_catalog_source_failed (cg_provider s) (cg_source_root s)
       (cg_source_path s) error (now_ms V)))) (\<lambda>_. mark_catalog_sessions_failed V ss error)"

definition mark_catalog_session_indexed ::
    "'f import_env \<Rightarrow> catalog_session \<Rightarrow> u64 option \<Rightarrow> int \<Rightarrow> unit world_action" where
  "mark_catalog_session_indexed V s event_count at =
     bind_m (of_result
       (case sha256_file_prefix_hex V (path_of_text (cg_source_path s)) (cg_file_size_bytes s) of
          Inl f \<Rightarrow> Inl (With_Context (''hash checkpoint prefix for '' @ cg_source_path s) f)
        | Inr h \<Rightarrow> Inr h)) (\<lambda>h.
     bind_m (store_call (catalog_write (mark_catalog_source_indexed (cg_provider s)
       \<lparr>cu_source_root = cg_source_root s, cu_source_path = cg_source_path s,
        cu_file_size_bytes = cg_file_size_bytes s, cu_file_modified_at_ms = cg_file_modified_at_ms s,
        cu_file_sha256 = Some h, cu_event_count = event_count, cu_indexed_at_ms = at\<rparr>))) (\<lambda>_.
       return_m ()))"

definition summary_events :: "provider_import_summary \<Rightarrow> nat" where
  "summary_events m = sat_add (pis_imported_events m) (pis_skipped_events m)"

fun mark_each_indexed :: "'f import_env \<Rightarrow> catalog_session list \<Rightarrow> u64 option \<Rightarrow> unit world_action" where
  "mark_each_indexed V [] n = return_m ()"
| "mark_each_indexed V (s # ss) n =
     bind_m (mark_catalog_session_indexed V s n (now_ms V)) (\<lambda>_. mark_each_indexed V ss n)"

definition mark_catalog_sessions_indexed ::
    "'f import_env \<Rightarrow> catalog_session list \<Rightarrow> provider_import_summary \<Rightarrow> unit world_action" where
  "mark_catalog_sessions_indexed V sessions m =
     mark_each_indexed V sessions (if length sessions = 1 then Some (of_nat (summary_events m)) else None)"

definition catalog_session_import_failure :: "provider_import_summary \<Rightarrow> string" where
  "catalog_session_import_failure m =
     (case pis_failures m of
        [] \<Rightarrow> ''session import failed''
      | f # _ \<Rightarrow>
          if pif_line f = 0 then pif_error f else ''line '' @ dec (pif_line f) @ '': '' @ pif_error f)"

section \<open>The run\<close>

definition session_import_options :: "'f import_env \<Rightarrow> path \<Rightarrow> uuid \<Rightarrow> codex_import_options" where
  "session_import_options V root record_id =
     \<lparr>co_machine_id = iv_machine_id V, co_source_path = Some root, co_imported_at = iv_now V,
      co_history_record_id = Some record_id, co_max_session_files = None, co_max_total_bytes = None,
      co_fast_event_inserts = True\<rparr>"

definition tail_start_of :: "catalog_source_index_state option \<Rightarrow> catalog_session \<Rightarrow> u64 option" where
  "tail_start_of state s =
     opt_filter (\<lambda>n. n > 0 \<and> n < cg_file_size_bytes s) (Option.bind state li_file_size_bytes)"

definition sat_add_u64 :: "u64 \<Rightarrow> nat \<Rightarrow> u64" where
  "sat_add_u64 a n = of_nat (sat_add (unat a) n)"

text \<open>One pending file: \<open>None\<close> when it has to be imported in full.\<close>

definition import_session_tail ::
    "'f import_env \<Rightarrow> path \<Rightarrow> uuid \<Rightarrow> catalog_session \<Rightarrow> provider_import_summary option world_action" where
  "import_session_tail V root record_id s =
     bind_m (store_call (catalog_read (catalog_source_index_state CaptureProvider_Codex (display_path root)
         (cg_source_path s)))) (\<lambda>state.
       case tail_start_of state s of
         None \<Rightarrow> return_m None
       | Some start \<Rightarrow>
           bind_m (of_result (catalog_import_checkpoint_matches V (path_of_text (cg_source_path s)) start
               (Option.bind state li_file_sha256))) (\<lambda>same_start.
             if \<not> same_start then return_m None
             else bind_m (attempt_import (import_codex_session_jsonl_tail (iv_codex V)
                 (path_of_text (cg_source_path s)) (unat start) (session_import_options V root record_id))) (\<lambda>r.
               case r of
                 Inl e \<Rightarrow>
                   bind_m (mark_catalog_sessions_failed V [s] (failure_text V (Failed_Capture e)))
                     (\<lambda>_. raise_m (Failed_Capture e))
               | Inr m \<Rightarrow>
                   bind_m
                     (if pis_failed m > 0
                      then mark_catalog_sessions_failed V [s]
                        ''tail import failed for one or more appended events''
                      else mark_catalog_session_indexed V s
                        (map_option (\<lambda>n. sat_add_u64 n (summary_events m)) (Option.bind state li_event_count))
                        (now_ms V)) (\<lambda>_. return_m (Some m)))))"

fun import_tails ::
    "'f import_env \<Rightarrow> path \<Rightarrow> uuid \<Rightarrow> catalog_session list \<Rightarrow> provider_import_summary \<Rightarrow> catalog_session list
     \<Rightarrow> (provider_import_summary \<times> catalog_session list) world_action" where
  "import_tails V root record_id [] m full = return_m (m, full)"
| "import_tails V root record_id (s # ss) m full =
     bind_m (import_session_tail V root record_id s) (\<lambda>r.
       case r of
         None \<Rightarrow> import_tails V root record_id ss m (full @ [s])
       | Some t \<Rightarrow> import_tails V root record_id ss (merge_from m t) full)"

definition import_session_in_full ::
    "'f import_env \<Rightarrow> path \<Rightarrow> uuid \<Rightarrow> catalog_session \<Rightarrow> provider_import_summary
     \<Rightarrow> provider_import_summary world_action" where
  "import_session_in_full V root record_id s m =
     bind_m (attempt_import (import_codex_session_paths (iv_codex V) [path_of_text (cg_source_path s)]
         (session_import_options V root record_id))) (\<lambda>r.
       case r of
         Inl e \<Rightarrow>
           (let f = Failed_Capture e; error = error_summary V f
            in bind_m (mark_catalog_sessions_failed V [s] error) (\<lambda>_.
                 if import_error_scope f = System_Scope then raise_m f
                 else return_m (fail_line 0 error m)))
       | Inr t \<Rightarrow>
           bind_m
             (if pis_failed t > 0 then mark_catalog_sessions_failed V [s] (catalog_session_import_failure t)
              else mark_catalog_sessions_indexed V [s] t) (\<lambda>_. return_m (merge_from m t)))"

fun import_in_full ::
    "'f import_env \<Rightarrow> path \<Rightarrow> uuid \<Rightarrow> catalog_session list \<Rightarrow> provider_import_summary
     \<Rightarrow> provider_import_summary world_action" where
  "import_in_full V root record_id [] m = return_m m"
| "import_in_full V root record_id (s # ss) m =
     bind_m (import_session_in_full V root record_id s m) (\<lambda>m'. import_in_full V root record_id ss m')"

text \<open>What comes after the inventory.\<close>

definition pending_sessions :: "path \<Rightarrow> catalog_session list world_action" where
  "pending_sessions root w =
     store_call (catalog_read (list_pending_catalog_sessions CaptureProvider_Codex (display_path root)
       (im_db (bs_import (iw_batch w))))) w"

definition import_pending_sessions ::
    "'f import_env \<Rightarrow> path \<Rightarrow> uuid \<Rightarrow> provider_import_summary \<Rightarrow> provider_import_summary world_action" where
  "import_pending_sessions V root record_id m =
     bind_m (pending_sessions root) (\<lambda>pending.
       if pending = [] then return_m m
       else bind_m (import_tails V root record_id pending m []) (\<lambda>(m', full).
         import_in_full V root record_id full m'))"

definition count_inventory :: "catalog_summary \<Rightarrow> provider_import_summary" where
  "count_inventory c = empty_summary\<lparr>pis_failed := cy_failed_sessions c, pis_failures := cy_failures c\<rparr>"

definition import_incremental_codex_session_tree ::
    "'f import_env \<Rightarrow> path \<Rightarrow> uuid \<Rightarrow> catalog_summary option \<Rightarrow> provider_import_summary world_action" where
  "import_incremental_codex_session_tree V root record_id preinventory_catalog =
     bind_m
       (case preinventory_catalog of
          Some c \<Rightarrow> return_m c
        | None \<Rightarrow> scan_call (''inventory Codex sessions from '' @ display_path root)
            (catalog_codex_session_tree (iv_codex V) root
              \<lparr>cao_source_root = Some root, cao_cataloged_at = iv_now V, cao_max_session_files = None,
               cao_max_total_bytes = None, cao_parallelism = None\<rparr>)) (\<lambda>c.
       import_pending_sessions V root record_id (count_inventory c))"

section \<open>What a run keeps of the store\<close>

context import_invariant
begin

definition world_kept :: "import_world \<Rightarrow> bool" where
  "world_kept w \<longleftrightarrow> P (bs_committed (iw_batch w)) \<and> P (im_db (bs_import (iw_batch w)))"

lemma attempt_kept:
  assumes "run_kept_by run"
  shows "keeps world_kept (attempt_import run)"
proof (rule keepsI)
  fix w assume "world_kept w"
  moreover obtain r b where run: "run (iw_batch w) = (r, b)" by (rule prod.exhaust)
  ultimately show "world_kept (snd (attempt_import run w))"
    using run_kept_byD [OF assms _ run, of undefined undefined]
    by (simp add: attempt_import_def world_kept_def both_state)
qed

lemma calls_kept: "keeps world_kept (store_call m)" "keeps world_kept (scan_call c m)"
  by (auto simp: keeps_def store_call_def scan_call_def world_kept_def
      split: prod.split sum.split capture_error.split)

end

section \<open>What a run keeps of the catalog\<close>

text \<open>An action on the catalog that keeps a property of the table, in what the connection sees and in
  what is committed.\<close>

definition table_kept :: "(catalog_row list \<Rightarrow> bool) \<Rightarrow> catalog_store \<Rightarrow> bool" where
  "table_kept Q k \<longleftrightarrow> Q (ks_rows k) \<and> Q (ks_committed k)"

lemma keeps_catalog_call:
  "(\<And>rows. Q rows \<Longrightarrow> Q (snd (f rows))) \<Longrightarrow> keeps (table_kept Q) (catalog_call f)"
  by (auto simp: keeps_def catalog_call_def table_kept_def Let_def case_prod_beta split: list.split option.split)

lemma keeps_catalog_read: "keeps (table_kept Q) (catalog_read f)"
  unfolding catalog_read_def by (rule keeps_catalog_call) simp

lemma keeps_catalog_write:
  "(\<And>rows. Q rows \<Longrightarrow> Q (snd (f rows))) \<Longrightarrow> keeps (table_kept Q) (catalog_write f)"
  unfolding catalog_write_def by (rule keeps_catalog_call) (simp add: case_prod_beta Let_def)

lemma keeps_catalog_batch:
  "keeps (table_kept Q) begin_catalog_batch" "keeps (table_kept Q) commit_catalog_batch"
  "table_kept Q k \<Longrightarrow> table_kept Q (rollback_catalog_batch k)"
proof -
  have idle: "keeps (table_kept Q) (catalog_call (\<lambda>rows. (Inr (), rows)))"
    by (rule keeps_catalog_call) simp
  have step: "table_kept Q k \<Longrightarrow> catalog_call (\<lambda>rows. (Inr (), rows)) k = (r, t) \<Longrightarrow> table_kept Q t"
    for k t and r :: "capture_error + unit"
    by (rule keeps_step [OF idle])
  have set: "table_kept Q t \<Longrightarrow> table_kept Q (t\<lparr>ks_in_transaction := b\<rparr>)"
    "table_kept Q t \<Longrightarrow> table_kept Q (t\<lparr>ks_committed := ks_rows t, ks_in_transaction := b\<rparr>)" for t b
    by (simp_all add: table_kept_def)
  show "keeps (table_kept Q) begin_catalog_batch"
    unfolding begin_catalog_batch_def
    by (rule keeps_stepI) (auto dest: step intro: set split: prod.splits sum.splits if_splits)
  show "keeps (table_kept Q) commit_catalog_batch"
    unfolding commit_catalog_batch_def
    by (rule keeps_stepI) (auto dest: step intro: set split: prod.splits sum.splits)
qed (simp add: table_kept_def rollback_catalog_batch_def)

lemma keeps_case_sum:
  "(\<And>e. keeps Q (f e)) \<Longrightarrow> (\<And>x. keeps Q (g x)) \<Longrightarrow> keeps Q (case r of Inl e \<Rightarrow> f e | Inr x \<Rightarrow> g x)"
  by (cases r) auto

lemma keeps_on_catalog:
  "keeps (table_kept Q) m \<Longrightarrow> keeps (\<lambda>w. table_kept Q (iw_catalog w)) (store_call m)"
  "keeps (table_kept Q) m \<Longrightarrow> keeps (\<lambda>w. table_kept Q (iw_catalog w)) (scan_call c m)"
  by (auto simp: keeps_def store_call_def scan_call_def split: prod.split sum.split capture_error.split)

lemma keeps_attempt: "keeps (\<lambda>w. table_kept Q (iw_catalog w)) (attempt_import run)"
  by (auto simp: keeps_def attempt_import_def split: prod.split)

text \<open>The scan changes the table with the steps of \<open>catalog_step\<close>.\<close>

lemma scan_kept:
  assumes steps: "\<And>rows rows'. catalog_step (ce_externals E) rows rows' \<Longrightarrow> Q rows \<Longrightarrow> Q rows'"
  shows "keeps (table_kept Q) (catalog_codex_session_tree E root options)"
proof -
  have writes: "keeps (table_kept Q) (catalog_call (upsert_catalog_sessions (ce_externals E) sessions))"
    "keeps (table_kept Q) (catalog_write (mark_catalog_source_missing_paths_stale p r paths at))"
    for sessions p r paths at
    by (rule keeps_catalog_call keeps_catalog_write; erule steps [rotated]; rule catalog_step.intros)+
  have persist: "keeps (table_kept Q) (persist_catalog_sessions (ce_externals E) sessions b r paths at)"
    for sessions b r paths at
  proof -
    have work: "keeps (table_kept Q) (bind_m
        (if sessions \<noteq> [] then catalog_call (upsert_catalog_sessions (ce_externals E) sessions) else return_m ())
        (\<lambda>_. if b then bind_m (catalog_write (mark_catalog_source_missing_paths_stale CaptureProvider_Codex
               r paths at)) (\<lambda>_. return_m ()) else return_m ()))"
      by (intro keeps_intros writes)
    show ?thesis
      unfolding persist_catalog_sessions_def
      by (rule keeps_bind [OF keeps_catalog_batch(1)], rule keepsI)
        (auto split: prod.split sum.split dest: keeps_step [OF work] intro: keeps_catalog_batch(3)
          keepsD [OF keeps_catalog_batch(2)])
  qed
  show ?thesis
    unfolding catalog_codex_session_tree_def catalog_scanned_paths_def Let_def case_prod_beta
    by (intro keeps_intros keeps_catalog_read persist)
qed

section \<open>What every call keeps, the run keeps\<close>

locale incremental_frame =
  fixes W :: "import_world \<Rightarrow> bool" and V :: "'f import_env"
  assumes read_state: "keeps W (store_call (catalog_read (catalog_source_index_state p root path)))"
    and read_pending: "keeps W (store_call (catalog_read (list_pending_catalog_sessions p root d)))"
    and write_failed: "keeps W (store_call (catalog_write (mark_catalog_source_failed p root path error at)))"
    and write_indexed: "keeps W (store_call (catalog_write (mark_catalog_source_indexed p u)))"
    and tail_import: "keeps W (attempt_import (import_codex_session_jsonl_tail (iv_codex V) file_path n options))"
    and full_import: "keeps W (attempt_import (import_codex_session_paths (iv_codex V) paths options))"
    and scan: "keeps W (scan_call c (catalog_codex_session_tree (iv_codex V) tree_root catalog_options))"
begin

lemma failed_kept: "keeps W (mark_catalog_sessions_failed V ss error)"
  by (induction ss) (auto intro: keeps_intros write_failed)

lemma indexed_kept: "keeps W (mark_catalog_session_indexed V s n at)"
  unfolding mark_catalog_session_indexed_def by (intro keeps_intros write_indexed)

lemma one_tail_kept: "keeps W (import_session_tail V root record_id s)"
  unfolding import_session_tail_def
  by (intro keeps_intros keeps_case_sum read_state tail_import failed_kept indexed_kept)

lemma tails_kept: "keeps W (import_tails V root record_id ss m full)"
  by (induction ss arbitrary: m full) (auto intro: keeps_intros one_tail_kept)

lemma one_full_kept: "keeps W (import_session_in_full V root record_id s m)"
  unfolding import_session_in_full_def mark_catalog_sessions_indexed_def Let_def mark_each_indexed.simps
  by (intro keeps_intros keeps_case_sum full_import failed_kept indexed_kept)

lemma in_full_kept: "keeps W (import_in_full V root record_id ss m)"
  by (induction ss arbitrary: m) (auto intro: keeps_intros one_full_kept)

lemma pending_kept: "keeps W (pending_sessions root)"
  using read_pending unfolding keeps_def pending_sessions_def by blast

lemma run_kept: "keeps W (import_incremental_codex_session_tree V root record_id inventory)"
  unfolding import_incremental_codex_session_tree_def import_pending_sessions_def case_prod_beta
  by (intro keeps_intros scan pending_kept tails_kept in_full_kept)

end

text \<open>The history keeps what every write to it keeps, and the catalog is one its steps can reach.\<close>

lemma store_kept_runs:
  "keeps store_kept.world_kept (attempt_import (import_codex_session_jsonl_tail E p n options))"
  "keeps store_kept.world_kept (attempt_import (import_codex_session_paths E ps options))"
proof -
  have "store_kept.over (ce_externals E) (ce_unicode E) E" by (simp add: store_kept.over_def)
  note runs = store_kept.tail_import_kept [OF this] store_kept.tree_import_kept(2) [OF this]
  show "keeps store_kept.world_kept (attempt_import (import_codex_session_jsonl_tail E p n options))"
    "keeps store_kept.world_kept (attempt_import (import_codex_session_paths E ps options))"
    by (rule store_kept.attempt_kept runs)+
qed

lemma rows_stay_runs:
  "keeps (rows_stay.world_kept d) (attempt_import (import_codex_session_jsonl_tail E p n options))"
  "keeps (rows_stay.world_kept d) (attempt_import (import_codex_session_paths E ps options))"
proof -
  have "rows_stay.over (ce_externals E) (ce_unicode E) E" by (simp add: rows_stay.over_def)
  note runs = rows_stay.tail_import_kept [OF this] rows_stay.tree_import_kept(2) [OF this]
  show "keeps (rows_stay.world_kept d) (attempt_import (import_codex_session_jsonl_tail E p n options))"
    "keeps (rows_stay.world_kept d) (attempt_import (import_codex_session_paths E ps options))"
    by (rule rows_stay.attempt_kept runs)+
qed

interpretation store_frame: incremental_frame store_kept.world_kept V for V
  by unfold_locales (rule store_kept.calls_kept store_kept_runs)+

interpretation rows_frame: incremental_frame "rows_stay.world_kept d" V for d V
  by unfold_locales (rule rows_stay.calls_kept rows_stay_runs)+

lemma catalog_ok_steps:
  "keeps (table_kept catalog_ok) (catalog_write (mark_catalog_source_failed p root path error at))"
  "keeps (table_kept catalog_ok) (catalog_write (mark_catalog_source_indexed p u))"
  "keeps (table_kept catalog_ok) (catalog_codex_session_tree E tree_root options)"
  by (rule keeps_catalog_write, erule catalog_step_ok [rotated], rule catalog_step.intros
      | rule scan_kept, erule (1) catalog_step_ok)+

interpretation catalog_frame: incremental_frame "\<lambda>w. table_kept catalog_ok (iw_catalog w)" V for V
  by unfold_locales (rule keeps_on_catalog keeps_attempt catalog_ok_steps keeps_catalog_read)+

section \<open>What a run writes to the catalog\<close>

text \<open>A row a run has marked: failed, or indexed as the session it was listed with, with the hash of that
  much of the file; everything else of the row is as it was.\<close>

definition marked_as :: "'f import_env \<Rightarrow> catalog_session \<Rightarrow> catalog_row \<Rightarrow> bool" where
  "marked_as V s r \<longleftrightarrow>
     (\<exists>at error. ct_index r = failed_with at error)
     \<or> (\<exists>at h. sha256_file_prefix_hex V (path_of_text (cg_source_path s)) (cg_file_size_bytes s) = Inr h
          \<and> ct_index r = indexed_as at (capped_i64 (cg_file_size_bytes s)) (cg_file_modified_at_ms s)
          \<and> li_file_size_bytes (ct_last_imported r) = Some (capped_i64 (cg_file_size_bytes s))
          \<and> li_file_sha256 (ct_last_imported r) = Some h)"

definition row_marked :: "'f import_env \<Rightarrow> catalog_session set \<Rightarrow> catalog_row \<Rightarrow> catalog_row \<Rightarrow> bool" where
  "row_marked V S r0 r \<longleftrightarrow>
     r = r0
     \<or> (ct_session r = ct_session r0 \<and> \<not> ct_is_stale r0 \<and> ct_is_stale r = ct_is_stale r0
        \<and> (\<exists>s \<in> S. row_path r0 = cg_source_path s \<and> marked_as V s r))"

abbreviation rows_marked :: "'f import_env \<Rightarrow> catalog_session set \<Rightarrow> catalog_row list \<Rightarrow> catalog_row list \<Rightarrow> bool" where
  "rows_marked V S \<equiv> list_all2 (row_marked V S)"

abbreviation seen_marked :: "'f import_env \<Rightarrow> catalog_session set \<Rightarrow> catalog_row list \<Rightarrow> import_world \<Rightarrow> bool" where
  "seen_marked V S rows w \<equiv> rows_marked V S rows (ks_rows (iw_catalog w))"

lemma keeps_seen_write:
  assumes "\<And>r0 r. row_marked V S r0 r \<Longrightarrow> matches r \<Longrightarrow> row_marked V S r0 (change r)"
  shows "keeps (seen_marked V S rows) (store_call (catalog_write (update_rows matches change)))"
proof -
  have "rows_marked V S rows rows' \<Longrightarrow> rows_marked V S rows (snd (update_rows matches change rows'))" for rows'
    by (auto simp: update_rows_def list_all2_map2 elim: list_all2_mono intro: assms)
  then show ?thesis
    by (auto simp: keeps_def store_call_def catalog_write_def catalog_call_def Let_def case_prod_beta
        split: prod.splits sum.splits capture_error.splits list.splits option.splits)
qed

lemma keeps_seen_read: "keeps (seen_marked V S rows) (store_call (catalog_read f))"
  by (auto simp: keeps_def store_call_def catalog_read_def catalog_call_def Let_def
      split: prod.splits sum.splits capture_error.splits list.splits option.splits)

lemma keeps_seen_attempt: "keeps (seen_marked V S rows) (attempt_import run)"
  by (auto simp: keeps_def attempt_import_def split: prod.split)

lemma keeps_seen_failed:
  "set ss \<subseteq> S \<Longrightarrow> keeps (seen_marked V S rows) (mark_catalog_sessions_failed V ss error)"
proof (induction ss)
  case (Cons s ss)
  have "keeps (seen_marked V S rows) (store_call (catalog_write (mark_catalog_source_failed (cg_provider s)
      (cg_source_root s) (cg_source_path s) error (now_ms V))))"
    unfolding mark_catalog_source_failed_def
    by (rule keeps_seen_write) (use Cons.prems in \<open>auto simp: row_marked_def marked_as_def live_row_of_def\<close>)
  then show ?case using Cons by (auto intro: keeps_intros)
qed (simp add: keeps_intros)

lemma keeps_seen_indexed:
  assumes "s \<in> S"
  shows "keeps (seen_marked V S rows) (mark_catalog_session_indexed V s n at)"
proof -
  have "keeps (seen_marked V S rows) (store_call (catalog_write (mark_catalog_source_indexed (cg_provider s)
       \<lparr>cu_source_root = cg_source_root s, cu_source_path = cg_source_path s,
        cu_file_size_bytes = cg_file_size_bytes s, cu_file_modified_at_ms = cg_file_modified_at_ms s,
        cu_file_sha256 = Some h, cu_event_count = n, cu_indexed_at_ms = at\<rparr>)))"
    if "sha256_file_prefix_hex V (path_of_text (cg_source_path s)) (cg_file_size_bytes s) = Inr h" for h
    unfolding mark_catalog_source_indexed_def Let_def
    by (rule keeps_seen_write)
      (use assms that in \<open>auto simp: row_marked_def marked_as_def live_row_of_def\<close>)
  then show ?thesis
    unfolding mark_catalog_session_indexed_def
    by (cases "sha256_file_prefix_hex V (path_of_text (cg_source_path s)) (cg_file_size_bytes s)")
      (auto simp: keeps_def of_result_def bind_m_def return_m_def split: prod.splits sum.splits)
qed

lemmas keeps_seen = keeps_seen_read keeps_seen_attempt keeps_seen_failed keeps_seen_indexed

lemma tail_marked:
  "s \<in> S \<Longrightarrow> keeps (seen_marked V S rows) (import_session_tail V root record_id s)"
  unfolding import_session_tail_def
  by (intro keeps_intros keeps_case_sum keeps_seen) simp_all

lemma full_marked:
  "s \<in> S \<Longrightarrow> keeps (seen_marked V S rows) (import_session_in_full V root record_id s m)"
  unfolding import_session_in_full_def mark_catalog_sessions_indexed_def Let_def mark_each_indexed.simps
  by (intro keeps_intros keeps_case_sum keeps_seen) simp_all

lemma all_full_marked:
  "set ss \<subseteq> S \<Longrightarrow> keeps (seen_marked V S rows) (import_in_full V root record_id ss m)"
  by (induction ss arbitrary: m) (auto intro: keeps_intros full_marked)

text \<open>What is left for the full import is among what was pending.\<close>

lemma tails_marked:
  assumes "set ss \<subseteq> S" "set full \<subseteq> S" "import_tails V root record_id ss m full w = (r, w')"
    "seen_marked V S rows w"
  shows "seen_marked V S rows w' \<and> (\<forall>m' full'. r = Inr (m', full') \<longrightarrow> set full' \<subseteq> S)"
  using assms
proof (induction ss arbitrary: m full w)
  case (Cons s ss)
  obtain t w1 where one: "import_session_tail V root record_id s w = (t, w1)" by (rule prod.exhaust)
  have w1: "seen_marked V S rows w1"
    using keeps_step [OF tail_marked Cons.prems(4) one] Cons.prems(1) by simp
  show ?case
  proof (cases t)
    case (Inl f)
    then show ?thesis using Cons.prems(3) one w1 by (auto simp: bind_m_def)
  next
    case (Inr x)
    show ?thesis
    proof (cases x)
      case None
      show ?thesis
        by (rule Cons.IH [of "full @ [s]" m w1, OF _ _ _ w1])
          (use Cons.prems(1-3) one Inr None in \<open>simp_all add: bind_m_def\<close>)
    next
      case (Some m')
      show ?thesis
        by (rule Cons.IH [of full "merge_from m m'" w1, OF _ _ _ w1])
          (use Cons.prems(1-3) one Inr Some in \<open>simp_all add: bind_m_def\<close>)
    qed
  qed
qed simp

section \<open>The bytes a checkpoint covers\<close>

lemma read_prefix_readable:
  "readable r \<Longrightarrow> read_prefix early r n hashed
     = (if n \<le> length (content r) then Inr (hashed @ take n (content r)) else Inl early)"
proof (induction early r n hashed rule: read_prefix.induct)
  case (1 early r n hashed)
  show ?case
  proof (cases "n = 0")
    case True then show ?thesis by (simp add: read_prefix.simps)
  next
    case n: False
    show ?thesis
    proof (cases r)
      case Nil then show ?thesis using n by (simp add: read_prefix.simps)
    next
      case (Cons c rest)
      then obtain available where c: "c = Some available" "available \<noteq> []"
        using "1.prems" by (cases c) (auto simp: readable_def)
      let ?got = "take (min 8192 n) available"
      let ?k = "length ?got"
      have k: "?k \<le> n" "?k \<le> length available" by simp_all
      have got: "take ?k available = ?got" by (metis append_eq_conv_conj append_take_drop_id)
      have rest: "readable (consume ?k available rest)" "content (consume ?k available rest) = drop ?k available @ content rest"
        using "1.prems" Cons c by (simp_all add: readable_consume content_consume)
      have step: "read_prefix early r n hashed
          = read_prefix early (consume ?k available rest) (n - ?k) (hashed @ ?got)"
        unfolding Cons c(1) by (subst read_prefix.simps) (use n c in \<open>simp add: Let_def del: length_take\<close>)
      also have "\<dots> = (if n - ?k \<le> length (drop ?k available @ content rest)
          then Inr ((hashed @ ?got) @ take (n - ?k) (drop ?k available @ content rest)) else Inl early)"
        using "1.IH" [OF n Cons c refl rest(1)] rest(2) by simp
      finally have whole: "read_prefix early r n hashed = (if n - ?k \<le> length (drop ?k available @ content rest)
          then Inr ((hashed @ ?got) @ take (n - ?k) (drop ?k available @ content rest)) else Inl early)" .
      have split: "content r = ?got @ drop ?k available @ content rest"
        using got c Cons by (simp del: length_take) (metis append.assoc append_take_drop_id)
      then have "take n (content r) = ?got @ take (n - ?k) (drop ?k available @ content rest)"
        using k(1) by (simp del: length_take)
      moreover have "n - ?k \<le> length (drop ?k available @ content rest) \<longleftrightarrow> n \<le> length (content r)"
        using k(1) by (simp only: split length_append) linarith
      ultimately show ?thesis using whole by simp
    qed
  qed
qed

section \<open>A small run\<close>

definition demo_import_env :: "bool import_env" where
  "demo_import_env =
     \<lparr>iv_codex = demo_env, iv_now = 5000000, iv_machine_id = ''m'', iv_sha256 = (\<lambda>s. s),
      iv_root_text = (\<lambda>_. ''cause'')\<rparr>"

definition demo_listed :: catalog_session where
  "demo_listed =
     \<lparr>cg_provider = CaptureProvider_Codex, cg_source_format = ''f'', cg_source_root = ''/s'',
      cg_source_path = ''/s/a.jsonl'', cg_external_session_id = Some ''s1'', cg_parent_external_session_id = None,
      cg_agent_type = AgentType_Primary, cg_role_hint = None, cg_external_agent_id = None, cg_cwd = None,
      cg_session_started_at_ms = Some 1, cg_file_size_bytes = 40, cg_file_modified_at_ms = 5,
      cg_cataloged_at_ms = 6, cg_metadata = JNull\<rparr>"

definition demo_world :: "call_outcome list \<Rightarrow> store_error option list \<Rightarrow> import_world" where
  "demo_world calls outcomes =
     \<lparr>iw_batch = demo_batch calls,
      iw_catalog = \<lparr>ks_rows = [new_catalog_row demo_listed], ks_committed = [new_catalog_row demo_listed],
        ks_in_transaction = False, ks_outcomes = outcomes\<rparr>\<rparr>"

section \<open>Properties\<close>

text \<open>C28: An incremental import, whatever it reads and whichever calls fail, on the history or on the
  catalog, leaves a committed store that satisfies every constraint and has all its rows, and a catalog
  without a path twice, each row of it in one of its three states.\<close>

theorem incremental_import_keeps_both:
  assumes "import_incremental_codex_session_tree V root record_id inventory w = (r, w')"
    "im_db (bs_import (iw_batch w)) = bs_committed (iw_batch w)" "store_ok (bs_committed (iw_batch w))"
    "catalog_ok (ks_rows (iw_catalog w))" "catalog_ok (ks_committed (iw_catalog w))"
  shows "store_ok (bs_committed (iw_batch w'))
    \<and> rows_kept_from (bs_committed (iw_batch w)) (bs_committed (iw_batch w'))
    \<and> catalog_ok (ks_rows (iw_catalog w')) \<and> catalog_ok (ks_committed (iw_catalog w'))"
  using keeps_step [OF store_frame.run_kept _ assms(1)]
    keeps_step [OF rows_frame.run_kept [of "bs_committed (iw_batch w)"] _ assms(1)]
    keeps_step [OF catalog_frame.run_kept _ assms(1)] assms(2-5)
  by (simp add: store_kept.world_kept_def rows_stay.world_kept_def table_kept_def kept_updates(1))

theorem incremental_import_keeps_both_witness:
  "\<exists>r w'. import_incremental_codex_session_tree demo_import_env [''s''] (Uuid [1]) None
       (demo_world [CallOk, CallFailed (Sql (SqlFailure ''io''))] [None, Some (Sql (SqlFailure ''busy''))]) = (r, w')
     \<and> store_ok (bs_committed (iw_batch w')) \<and> catalog_ok (ks_rows (iw_catalog w'))"
proof -
  obtain r w' where run: "import_incremental_codex_session_tree demo_import_env [''s''] (Uuid [1]) None
      (demo_world [CallOk, CallFailed (Sql (SqlFailure ''io''))] [None, Some (Sql (SqlFailure ''busy''))]) = (r, w')"
    by (rule prod.exhaust)
  from incremental_import_keeps_both [OF run] run new_row_ok [of demo_listed] empty_db_ok show ?thesis
    by (simp add: demo_world_def demo_batch_settled empty_state_def catalog_ok_def)
qed

text \<open>C29: After its inventory a run changes only rows of files that were pending, and of these only the
  marks: each is as it was, or failed, or indexed with the size and the time it was listed with and the
  hash of that many bytes of the file.\<close>

theorem only_pending_rows_are_marked:
  assumes "import_pending_sessions V root record_id m w = (r, w')"
  shows "rows_marked V (set (list_pending_catalog_sessions CaptureProvider_Codex (display_path root)
      (im_db (bs_import (iw_batch w))) (ks_rows (iw_catalog w))))
    (ks_rows (iw_catalog w)) (ks_rows (iw_catalog w'))"
proof -
  let ?rows = "ks_rows (iw_catalog w)"
  let ?S = "set (list_pending_catalog_sessions CaptureProvider_Codex (display_path root)
      (im_db (bs_import (iw_batch w))) ?rows)"
  have start: "rows_marked V ?S ?rows ?rows" by (simp add: list_all2_same row_marked_def)
  obtain p w1 where p: "pending_sessions root w = (p, w1)" by (rule prod.exhaust)
  have w1: "seen_marked V ?S ?rows w1"
    using keeps_step [OF keeps_seen_read start p [unfolded pending_sessions_def]] .
  show ?thesis
  proof (cases p)
    case (Inl f)
    then show ?thesis using assms p w1 by (simp add: import_pending_sessions_def bind_m_def)
  next
    case (Inr pending)
    have pending: "set pending = ?S"
      using p Inr by (auto simp: pending_sessions_def store_call_def catalog_read_def catalog_call_def Let_def
          from_store_eq_Inr split: prod.splits sum.splits capture_error.splits list.splits option.splits)
    show ?thesis
    proof (cases "pending = []")
      case True
      then show ?thesis using assms p w1 Inr by (simp add: import_pending_sessions_def bind_m_def)
    next
      case False
      obtain t w2 where t: "import_tails V root record_id pending m [] w1 = (t, w2)" by (rule prod.exhaust)
      note tails = tails_marked [OF _ _ t w1]
      show ?thesis
      proof (cases t)
        case (Inl f)
        then show ?thesis using assms p Inr False t tails pending
          by (simp add: import_pending_sessions_def bind_m_def)
      next
        case r: (Inr x)
        obtain m' full where x: "x = (m', full)" by (rule prod.exhaust)
        have "import_in_full V root record_id full m' w2 = (r, w')"
          using assms p Inr False t r x by (simp add: import_pending_sessions_def bind_m_def)
        from keeps_step [OF all_full_marked _ this] tails pending r x show ?thesis by simp
      qed
    qed
  qed
qed

theorem only_pending_rows_are_marked_witness:
  "\<exists>r w'. import_pending_sessions demo_import_env [''s''] (Uuid [1]) empty_summary (demo_world [] []) = (r, w')
     \<and> rows_marked demo_import_env {demo_listed} [new_catalog_row demo_listed] (ks_rows (iw_catalog w'))"
proof -
  obtain r w' where run: "import_pending_sessions demo_import_env [''s''] (Uuid [1]) empty_summary (demo_world [] [])
      = (r, w')" by (rule prod.exhaust)
  have listed: "list_pending_catalog_sessions CaptureProvider_Codex ''/s'' empty_db [new_catalog_row demo_listed]
      = [demo_listed]"
    by (simp add: list_pending_catalog_sessions_def new_catalog_row_def demo_listed_def stored_catalog_session_def
        of_source_def catalog_pending_import_def file_pending_def not_indexed_def capped_i64_def)
  have parts: "ks_rows (iw_catalog (demo_world [] [])) = [new_catalog_row demo_listed]"
    "im_db (bs_import (iw_batch (demo_world [] []))) = empty_db" "display_path [''s''] = ''/s''"
    by (simp_all add: demo_world_def demo_batch_settled empty_state_def display_path_def)
  from only_pending_rows_are_marked [OF run] run show ?thesis
    by (simp only: parts listed list.set) blast
qed

text \<open>The hash of a checkpoint is the hash of the first bytes of the file, as many as were asked for,
  however the reads cut it up; a file that is shorter by now is an error and never a match.\<close>

theorem checkpoint_covers_the_prefix:
  assumes "tf_open (ce_files (iv_codex V)) p = Inr r" "readable r"
  shows "catalog_import_checkpoint_matches V p n (Some h)
    = (if unat n \<le> length (content r) then Inr (iv_sha256 V (take (unat n) (content r)) = h)
       else Inl (ended_early p (unat n)))"
  using assms by (simp add: catalog_import_checkpoint_matches_def sha256_file_prefix_hex_def read_prefix_readable)

theorem checkpoint_covers_the_prefix_witness:
  "catalog_import_checkpoint_matches demo_import_env [''s'', ''a.jsonl''] 4 (Some (take 4 header_line)) = Inr True"
proof -
  have opened: "tf_open (ce_files (iv_codex demo_import_env)) [''s'', ''a.jsonl''] = Inr [Some (header_line @ whole_line)]"
    by (simp add: demo_import_env_def)
  have "4 \<le> length header_line" by code_simp
  moreover have "readable [Some (header_line @ whole_line)]"
    using demo_lengths_ok by (simp add: readable_def usize_max_def)
  ultimately show ?thesis
    using checkpoint_covers_the_prefix [OF opened, of 4 "take 4 header_line"] by (simp add: demo_import_env_def)
qed

end
