(* ===== verification/Effects.thy ===== *)
theory Effects
  imports Import_Common
begin

text \<open>
  Loops over actions, and triples: what holds before an action, after it returned, and after it failed.
  An action that is cut short is an action that fails, so a triple also says in which states a
  process can be killed.
\<close>

section \<open>Loops\<close>

fun for_each :: "('x \<Rightarrow> ('s, 'e, unit) fallible) \<Rightarrow> 'x list \<Rightarrow> ('s, 'e, unit) fallible" where
  "for_each f [] = return_m ()"
| "for_each f (x # xs) = bind_m (f x) (\<lambda>_. for_each f xs)"

lemma keeps_for_each [keeps_intros]: "(\<And>x. keeps P (f x)) \<Longrightarrow> keeps P (for_each f xs)"
  by (induction xs) (auto intro: keeps_intros)

section \<open>Triples\<close>

definition triple ::
    "('s \<Rightarrow> bool) \<Rightarrow> ('s, 'e, 'a) fallible \<Rightarrow> ('a \<Rightarrow> 's \<Rightarrow> bool) \<Rightarrow> ('e \<Rightarrow> 's \<Rightarrow> bool) \<Rightarrow> bool" where
  "triple P m Q R \<longleftrightarrow>
     (\<forall>s. P s \<longrightarrow> (case m s of (Inr x, t) \<Rightarrow> Q x t | (Inl e, t) \<Rightarrow> R e t))"

lemma tripleI:
  "(\<And>s x t. P s \<Longrightarrow> m s = (Inr x, t) \<Longrightarrow> Q x t) \<Longrightarrow> (\<And>s e t. P s \<Longrightarrow> m s = (Inl e, t) \<Longrightarrow> R e t) \<Longrightarrow>
   triple P m Q R"
  by (auto simp: triple_def split: prod.split sum.split)

lemma triple_returned: "triple P m Q R \<Longrightarrow> P s \<Longrightarrow> m s = (Inr x, t) \<Longrightarrow> Q x t"
  by (auto simp: triple_def split: prod.splits)

lemma triple_failed: "triple P m Q R \<Longrightarrow> P s \<Longrightarrow> m s = (Inl e, t) \<Longrightarrow> R e t"
  by (auto simp: triple_def split: prod.splits)

named_theorems triple_intros \<open>the rules of triples, one per way to build an action\<close>

lemma triple_return [triple_intros]: "(\<And>s. P s \<Longrightarrow> Q x s) \<Longrightarrow> triple P (return_m x) Q R"
  by (simp add: triple_def return_m_def)

lemma triple_raise [triple_intros]: "(\<And>s. P s \<Longrightarrow> R e s) \<Longrightarrow> triple P (raise_m e) Q R"
  by (simp add: triple_def raise_m_def)

lemma triple_modify [triple_intros]: "(\<And>s. P s \<Longrightarrow> Q () (f s)) \<Longrightarrow> triple P (modify_m f) Q R"
  by (simp add: triple_def modify_m_def)

lemma triple_bind:
  assumes "triple P m M R" "\<And>x. triple (M x) (f x) Q R"
  shows "triple P (bind_m m f) Q R"
proof (rule tripleI)
  fix s y t assume "P s" "bind_m m f s = (Inr y, t)"
  then show "Q y t"
    using triple_returned [OF assms(1)] triple_returned [OF assms(2)] unfolding bind_m_Inr by blast
next
  fix s e t assume "P s" and run: "bind_m m f s = (Inl e, t)"
  show "R e t"
  proof (cases "m s")
    case (Pair r u)
    then show ?thesis
      using run \<open>P s\<close> triple_failed [OF assms(1)] triple_returned [OF assms(1)] triple_failed [OF assms(2)]
      by (cases r) (simp_all add: bind_m_def, blast)
  qed
qed

lemma triple_conseq:
  "triple P' m Q' R' \<Longrightarrow> (\<And>s. P s \<Longrightarrow> P' s) \<Longrightarrow> (\<And>x s. Q' x s \<Longrightarrow> Q x s) \<Longrightarrow> (\<And>e s. R' e s \<Longrightarrow> R e s) \<Longrightarrow>
   triple P m Q R"
  by (fastforce intro!: tripleI dest: triple_returned triple_failed)

lemma triple_if [triple_intros]:
  "(c \<Longrightarrow> triple P m Q R) \<Longrightarrow> (\<not> c \<Longrightarrow> triple P n Q R) \<Longrightarrow> triple P (if c then m else n) Q R"
  by simp

lemma triple_pre: "(\<And>s. P s \<Longrightarrow> triple (\<lambda>t. t = s) m Q R) \<Longrightarrow> triple P m Q R"
  by (auto simp: triple_def)

text \<open>A loop: what holds is a property of the elements done and the elements left.\<close>

lemma triple_for_each:
  assumes "\<And>ds x xs. ds @ x # xs = all \<Longrightarrow> triple (I ds (x # xs)) (f x) (\<lambda>_. I (ds @ [x]) xs) R"
  shows "ds @ xs = all \<Longrightarrow> triple (I ds xs) (for_each f xs) (\<lambda>_. I all []) R"
proof (induction xs arbitrary: ds)
  case Nil
  then show ?case by (auto intro!: triple_intros)
next
  case (Cons x xs)
  have "triple (I ds (x # xs)) (f x) (\<lambda>_. I (ds @ [x]) xs) R" using assms Cons.prems by blast
  moreover have "triple (I (ds @ [x]) xs) (for_each f xs) (\<lambda>_. I all []) R" using Cons by simp
  ultimately show ?case by (simp add: triple_bind)
qed

end
