(* ===== verification/Record_Tables.thy ===== *)
theory Record_Tables
  imports Store_Invariant Effects
begin

text \<open>
  The tables of the history store that a transcript import does not write: history records with their
  links, artifacts, summaries, workspaces and changes of version control (\<open>records.rs\<close>,
  \<open>artifacts.rs\<close>, \<open>summaries.rs\<close>, \<open>vcs.rs\<close> of \<open>ctx-history-store\<close>) and the search rows of the
  records (\<open>search/projections.rs\<close>). Unlike the tables of \<open>Store_Tables\<close> most of these have a second
  unique key, by which a write finds the row it updates; the locale \<open>identified_rows\<close> says what that
  means for the ids.
\<close>

section \<open>Entities\<close>

datatype history_record_link_target_type =
    LinkTarget_Session | LinkTarget_Run | LinkTarget_Event | LinkTarget_VcsWorkspace |
    LinkTarget_VcsChange | LinkTarget_Artifact

definition link_target_table :: "(history_record_link_target_type \<times> string) list" where
  "link_target_table =
     [(LinkTarget_Session, ''session''), (LinkTarget_Run, ''run''), (LinkTarget_Event, ''event''),
      (LinkTarget_VcsWorkspace, ''vcs_workspace''), (LinkTarget_VcsChange, ''vcs_change''),
      (LinkTarget_Artifact, ''artifact'')]"

datatype history_record_link_type =
    LinkType_Produced | LinkType_Touched | LinkType_References | LinkType_LikelyRelated

definition link_type_table :: "(history_record_link_type \<times> string) list" where
  "link_type_table =
     [(LinkType_Produced, ''produced''), (LinkType_Touched, ''touched''),
      (LinkType_References, ''references''), (LinkType_LikelyRelated, ''likely_related'')]"

interpretation link_target_text: text_enum link_target_table "''HistoryRecordLinkTargetType''"
  by unfold_locales (subst link_target_table_def, (case_tac v; simp), simp_all add: link_target_table_def)

interpretation link_type_text: text_enum link_type_table "''HistoryRecordLinkType''"
  by unfold_locales (subst link_type_table_def, (case_tac v; simp), simp_all add: link_type_table_def)

record history_record =
  hr_id :: uuid
  hr_title :: string
  hr_body :: string
  hr_tags :: "string list"
  hr_kind :: string
  hr_workspace :: "string option"
  hr_created_at :: datetime
  hr_updated_at :: datetime

record vcs_workspace =
  vw_id :: uuid
  vw_kind :: vcs_kind
  vw_root_path :: string
  vw_repo_fingerprint :: string
  vw_primary_remote_url_normalized :: "string option"
  vw_host :: vcs_host
  vw_owner :: "string option"
  vw_name :: "string option"
  vw_monorepo_subpath :: "string option"
  vw_timestamps :: entity_timestamps
  vw_source_id :: "uuid option"
  vw_sync :: sync_metadata

record vcs_change =
  vg_id :: uuid
  vg_vcs_workspace_id :: uuid
  vg_kind :: vcs_change_kind
  vg_change_id :: string
  vg_parent_change_ids :: "string list"
  vg_branch_or_bookmark :: "string option"
  vg_tree_hash :: "string option"
  vg_author_time :: "datetime option"
  vg_confidence :: confidence
  vg_timestamps :: entity_timestamps
  vg_source_id :: "uuid option"
  vg_sync :: sync_metadata

record history_record_link =
  hl_id :: uuid
  hl_history_record_id :: uuid
  hl_target_type :: history_record_link_target_type
  hl_target_id :: uuid
  hl_link_type :: history_record_link_type
  hl_confidence :: confidence
  hl_source_id :: "uuid option"
  hl_timestamps :: entity_timestamps
  hl_sync :: sync_metadata

record artifact =
  ar_id :: uuid
  ar_kind :: artifact_kind
  ar_blob_hash :: string
  ar_blob_path :: string
  ar_byte_size :: u64
  ar_media_type :: "string option"
  ar_preview_text :: "string option"
  ar_timestamps :: entity_timestamps
  ar_source_id :: "uuid option"
  ar_sync :: sync_metadata

record citation_reference =
  ci_target_type :: history_record_link_target_type
  ci_target_id :: uuid
  ci_label :: "string option"

record summary =
  su_id :: uuid
  su_history_record_id :: "uuid option"
  su_session_id :: "uuid option"
  su_kind :: summary_kind
  su_model_or_source :: "string option"
  su_text :: string
  su_citations :: "citation_reference list"
  su_timestamps :: entity_timestamps
  su_source_id :: "uuid option"
  su_sync :: sync_metadata

section \<open>The tables\<close>

text \<open>A row of \<open>history_records\<close> is the record and its \<open>source_id\<close>: the other columns are constants
  or follow from it, and \<open>created_at\<close> and \<open>updated_at\<close> are texts, which hold every digit. The text
  order of such times is the order of the times (years 0 to 9999).\<close>

record record_row =
  rr_record :: history_record
  rr_source_id :: "uuid option"

text \<open>A row of \<open>ctx_history_search\<close>: previews of the title, of the body (in two columns) and of the
  tags; a row of \<open>ctx_history_search_scriptgram\<close>: the tokens.\<close>

record record_search_row =
  rs_record_id :: uuid
  rs_title :: string
  rs_summary :: string
  rs_primary_user_text :: string
  rs_tag_text :: string

text \<open>The tables of \<open>Store_Tables\<close> and these. Their ids are the lists \<open>db_records\<close>, \<open>db_artifacts\<close> and
  \<open>db_workspaces\<close>. A search table may be missing (a build of SQLite without FTS5).\<close>

record history_store =
  hs_db :: db
  hs_records :: "record_row list"
  hs_artifacts :: "artifact list"
  hs_workspaces :: "vcs_workspace list"
  hs_changes :: "vcs_change list"
  hs_links :: "history_record_link list"
  hs_summaries :: "summary list"
  hs_record_search :: "record_search_row list option"
  hs_record_scriptgram :: "(uuid \<times> string) list option"

abbreviation row_id :: "record_row \<Rightarrow> uuid" where
  "row_id r \<equiv> hr_id (rr_record r)"

definition with_records :: "record_row list \<Rightarrow> history_store \<Rightarrow> history_store" where
  "with_records rows t = t\<lparr>hs_records := rows, hs_db := (hs_db t)\<lparr>db_records := map row_id rows\<rparr>\<rparr>"

definition with_artifacts :: "artifact list \<Rightarrow> history_store \<Rightarrow> history_store" where
  "with_artifacts rows t = t\<lparr>hs_artifacts := rows, hs_db := (hs_db t)\<lparr>db_artifacts := map ar_id rows\<rparr>\<rparr>"

definition with_workspaces :: "vcs_workspace list \<Rightarrow> history_store \<Rightarrow> history_store" where
  "with_workspaces rows t = t\<lparr>hs_workspaces := rows, hs_db := (hs_db t)\<lparr>db_workspaces := map vw_id rows\<rparr>\<rparr>"

type_synonym 'a store_action = "(history_store, store_error, 'a) fallible"

text \<open>A statement: it fails and changes nothing, or gives the new tables.\<close>

definition statement :: "(history_store \<Rightarrow> store_error + ('a \<times> history_store)) \<Rightarrow> 'a store_action" where
  "statement f t = (case f t of Inl e \<Rightarrow> (Inl e, t) | Inr (x, t') \<Rightarrow> (Inr x, t'))"

text \<open>A write of the first group of tables.\<close>

definition db_write :: "(db \<Rightarrow> store_error + db) \<Rightarrow> unit store_action" where
  "db_write f = statement (\<lambda>t. bind_result (f (hs_db t)) (\<lambda>d. Inr ((), t\<lparr>hs_db := d\<rparr>)))"

text \<open>\<open>query_row\<close> on the row just written, which wants exactly one.\<close>

fun the_row_id :: "('r \<Rightarrow> uuid) \<Rightarrow> 'r option \<Rightarrow> store_error + uuid" where
  "the_row_id key None = Inl (Sql QueryReturnedNoRows)"
| "the_row_id key (Some r) = Inr (key r)"

locale identified_rows = keyed_rows key merge
  for key :: "'r \<Rightarrow> 'k" and merge :: "'r \<Rightarrow> 'r \<Rightarrow> 'r" +
  fixes ident :: "'r \<Rightarrow> uuid"
  assumes ident_merge: "key old = key new \<Longrightarrow> ident (merge old new) = ident old"
begin

lemma idents_upsert:
  "map ident (upsert_row key merge new rows)
   = (if key new \<in> key ` set rows then map ident rows else map ident rows @ [ident new])"
  by (simp add: upsert_row_def ident_merge cong: map_cong)

lemma distinct_idents:
  assumes "distinct (map ident rows)" "key new \<in> key ` set rows \<or> ident new \<notin> ident ` set rows"
  shows "distinct (map ident (upsert_row key merge new rows))"
  using assms by (auto simp: idents_upsert)

lemma idents_grow: "ident ` set rows \<subseteq> ident ` set (upsert_row key merge new rows)"
proof -
  have "set (map ident rows) \<subseteq> set (map ident (upsert_row key merge new rows))"
    unfolding idents_upsert by auto
  then show ?thesis by simp
qed

end

section \<open>History records\<close>

definition replace_record :: "record_row \<Rightarrow> record_row \<Rightarrow> record_row" where
  "replace_record old new = new\<lparr>rr_source_id := or_else (rr_source_id new) (rr_source_id old)\<rparr>"

interpretation records: keyed_rows row_id replace_record
  by unfold_locales (simp add: replace_record_def)

definition upsert_record_row :: "history_record \<Rightarrow> unit store_action" where
  "upsert_record_row r =
     statement (\<lambda>t. Inr ((), with_records
       (upsert_row row_id replace_record \<lparr>rr_record = r, rr_source_id = None\<rparr> (hs_records t)) t))"

definition tags_text :: "history_record \<Rightarrow> string" where
  "tags_text r = join '' '' (hr_tags r)"

definition search_row_of :: "history_record \<Rightarrow> record_search_row" where
  "search_row_of r =
     \<lparr>rs_record_id = hr_id r, rs_title = local_preview (hr_title r) 512,
      rs_summary = local_preview (hr_body r) 2048, rs_primary_user_text = local_preview (hr_body r) 2048,
      rs_tag_text = local_preview (tags_text r) 1024\<rparr>"

definition record_search_scriptgram_source :: "history_record \<Rightarrow> string" where
  "record_search_scriptgram_source r =
     join '' '' (filter (\<lambda>part. trim part \<noteq> [])
       [local_preview (hr_title r) 512, local_preview (hr_body r) 2048, local_preview (tags_text r) 1024])"

definition scriptgram_rows_of :: "unicode \<Rightarrow> history_record \<Rightarrow> (uuid \<times> string) list" where
  "scriptgram_rows_of U r =
     (let tokens = scriptgram_text U (record_search_scriptgram_source r)
      in if tokens = [] then [] else [(hr_id r, tokens)])"

text \<open>Statements that run one after the other outside a transaction. Each is committed on its own, so when
  one fails the effects of those before it stay. With \<open>Some (n, e)\<close> the database refuses the call after the
  first \<open>n\<close> with the error \<open>e\<close>, whatever its reason (a full disk, a lock); a read that fails between two
  statements is the failure of the second.\<close>

type_synonym db_statement = "history_store \<Rightarrow> store_error + history_store"
type_synonym statement_fault = "(nat \<times> store_error) option"

fun run_statements :: "statement_fault \<Rightarrow> db_statement list \<Rightarrow> unit store_action" where
  "run_statements fault [] t = (Inr (), t)"
| "run_statements fault (f # fs) t =
     (case fault of
        Some (0, e) \<Rightarrow> (Inl e, t)
      | _ \<Rightarrow>
          (case f t of
             Inl e \<Rightarrow> (Inl e, t)
           | Inr t' \<Rightarrow> run_statements (map_option (\<lambda>(n, e). (n - 1, e)) fault) fs t'))"

text \<open>The statements of \<open>upsert_record_search_projection\<close>. Nothing happens without the first table; the
  second may be missing on its own.\<close>

definition change_search_rows :: "(record_search_row list \<Rightarrow> record_search_row list) \<Rightarrow> db_statement" where
  "change_search_rows f t = Inr (t\<lparr>hs_record_search := map_option f (hs_record_search t)\<rparr>)"

definition change_search_grams :: "((uuid \<times> string) list \<Rightarrow> (uuid \<times> string) list) \<Rightarrow> db_statement" where
  "change_search_grams f t = Inr (t\<lparr>hs_record_scriptgram := map_option f (hs_record_scriptgram t)\<rparr>)"

definition record_search_inserts :: "unicode \<Rightarrow> history_record \<Rightarrow> db_statement list" where
  "record_search_inserts U r =
     change_search_rows (\<lambda>rows. rows @ [search_row_of r])
     # map (\<lambda>g. change_search_grams (\<lambda>grams. grams @ [g])) (scriptgram_rows_of U r)"

definition record_search_statements :: "unicode \<Rightarrow> history_record \<Rightarrow> db_statement list" where
  "record_search_statements U r =
     [change_search_rows (filter (\<lambda>s. rs_record_id s \<noteq> hr_id r)),
      change_search_grams (filter (\<lambda>(i, _). i \<noteq> hr_id r))]
     @ record_search_inserts U r"

definition when_searchable :: "unit store_action \<Rightarrow> unit store_action" where
  "when_searchable m t = (if hs_record_search t = None then (Inr (), t) else m t)"

definition upsert_record_search_projection ::
    "unicode \<Rightarrow> statement_fault \<Rightarrow> history_record \<Rightarrow> unit store_action" where
  "upsert_record_search_projection U fault r =
     when_searchable (run_statements fault (record_search_statements U r))"

definition insert_record :: "unicode \<Rightarrow> statement_fault \<Rightarrow> history_record \<Rightarrow> unit store_action" where
  "insert_record U fault r =
     bind_m (statement (\<lambda>t.
         guard_sql (hr_id r \<notin> row_id ` set (hs_records t)) ''UNIQUE''
           (Inr ((), with_records (hs_records t @ [\<lparr>rr_record = r, rr_source_id = None\<rparr>]) t)))) (\<lambda>_.
       upsert_record_search_projection U fault r)"

definition upsert_record :: "unicode \<Rightarrow> statement_fault \<Rightarrow> history_record \<Rightarrow> unit store_action" where
  "upsert_record U fault r = bind_m (upsert_record_row r) (\<lambda>_. upsert_record_search_projection U fault r)"

text \<open>A transaction: \<open>BEGIN\<close> and \<open>COMMIT\<close> may fail with the given errors. \<open>rollback_batch\<close> after an error,
  and the drop of a transaction of rusqlite without a commit, give back the tables of its start; so a statement
  in it that fails for a reason outside the tables has the effect of a failing \<open>COMMIT\<close>.\<close>

definition in_transaction ::
    "store_error option \<Rightarrow> store_error option \<Rightarrow> 'a store_action \<Rightarrow> 'a store_action" where
  "in_transaction begin_error commit_error m t =
     (case begin_error of
        Some e \<Rightarrow> (Inl e, t)
      | None \<Rightarrow>
          (case m t of
             (Inl e, _) \<Rightarrow> (Inl e, t)
           | (Inr x, t') \<Rightarrow> (case commit_error of Some e \<Rightarrow> (Inl e, t) | None \<Rightarrow> (Inr x, t'))))"

definition upsert_records ::
    "unicode \<Rightarrow> store_error option \<Rightarrow> store_error option \<Rightarrow> statement_fault \<Rightarrow> history_record list \<Rightarrow> unit store_action" where
  "upsert_records U begin_error commit_error fault rs =
     (if rs = [] then return_m ()
      else bind_m (in_transaction begin_error commit_error (for_each upsert_record_row rs)) (\<lambda>_.
        when_searchable (run_statements fault (concat (map (record_search_statements U) rs)))))"

text \<open>\<open>delete_orphan_record\<close>. The tables of tags and of edges between records have no writer. A row of
  \<open>event_search_lookup\<close> refers to its record.\<close>

definition orphan_record :: "uuid \<Rightarrow> history_store \<Rightarrow> bool" where
  "orphan_record i t \<longleftrightarrow>
     \<not> list_ex (\<lambda>s. se_history_record_id s = Some i) (db_sessions (hs_db t))
     \<and> \<not> list_ex (\<lambda>r. rn_history_record_id r = Some i) (db_runs (hs_db t))
     \<and> \<not> list_ex (\<lambda>e. ev_history_record_id e = Some i) (db_events (hs_db t))
     \<and> \<not> list_ex (\<lambda>l. hl_history_record_id l = i) (hs_links t)
     \<and> \<not> list_ex (\<lambda>s. su_history_record_id s = Some i) (hs_summaries t)
     \<and> \<not> list_ex (\<lambda>f. ft_history_record_id f = Some i) (db_files (hs_db t))"

definition delete_orphan_row :: "uuid \<Rightarrow> bool store_action" where
  "delete_orphan_row i =
     statement (\<lambda>t.
       if i \<in> row_id ` set (hs_records t) \<and> orphan_record i t
       then guard_sql (\<not> list_ex (\<lambda>r. sr_history_record_id r = Some i) (lookup_rows (hs_db t))) ''FOREIGN KEY''
         (Inr (True, with_records (filter (\<lambda>r. row_id r \<noteq> i) (hs_records t)) t))
       else Inr (False, t))"

definition delete_orphan_record :: "statement_fault \<Rightarrow> uuid \<Rightarrow> bool store_action" where
  "delete_orphan_record fault i =
     bind_m (delete_orphan_row i) (\<lambda>deleted.
       if deleted
       then bind_m (when_searchable
              (run_statements fault [change_search_rows (filter (\<lambda>s. rs_record_id s \<noteq> i))])) (\<lambda>_. return_m True)
       else return_m False)"

definition get_record :: "uuid \<Rightarrow> history_store \<Rightarrow> store_error + history_record" where
  "get_record i t =
     (case row_with row_id i (hs_records t) of
        None \<Rightarrow> Inl (NotFound i)
      | Some r \<Rightarrow> Inr (rr_record r))"

text \<open>\<open>LIMIT\<close> is the limit as a signed 64-bit integer, where a negative one means no limit, and
  \<open>OFFSET\<close> likewise, where a negative one means none.\<close>

definition limited :: "u64 \<Rightarrow> u64 \<Rightarrow> 'a list \<Rightarrow> 'a list" where
  "limited limit offset rows =
     (let rest = (if sint offset < 0 then rows else drop (unat offset) rows)
      in if sint limit < 0 then rest else take (unat limit) rest)"

definition newest_records :: "history_store \<Rightarrow> history_record list" where
  "newest_records t = sort_key (\<lambda>r. (- hr_created_at r, hr_id r)) (map rr_record (hs_records t))"

definition list_records_page :: "u64 \<Rightarrow> u64 \<Rightarrow> history_store \<Rightarrow> history_record list" where
  "list_records_page limit offset t = limited limit offset (newest_records t)"

definition list_records :: "u64 \<Rightarrow> history_store \<Rightarrow> history_record list" where
  "list_records limit t = list_records_page limit 0 t"

section \<open>Workspaces and changes of version control\<close>

definition stored_workspace :: "vcs_workspace \<Rightarrow> vcs_workspace" where
  "stored_workspace w =
     w\<lparr>vw_timestamps := stored_timestamps (vw_timestamps w), vw_sync := stored_sync (vw_sync w)\<rparr>"

definition workspace_key :: "vcs_workspace \<Rightarrow> vcs_kind \<times> string" where
  "workspace_key w = (vw_kind w, vw_repo_fingerprint w)"

definition merge_workspace :: "vcs_workspace \<Rightarrow> vcs_workspace \<Rightarrow> vcs_workspace" where
  "merge_workspace old new =
     new\<lparr>vw_id := vw_id old, vw_timestamps := keep_created (vw_timestamps old) (vw_timestamps new)\<rparr>"

interpretation workspaces: identified_rows workspace_key merge_workspace vw_id
  by unfold_locales (simp_all add: workspace_key_def merge_workspace_def)

text \<open>\<open>ON CONFLICT(kind, repo_fingerprint)\<close>: an id that another row has is an error.\<close>

definition upsert_vcs_workspace :: "vcs_workspace \<Rightarrow> uuid store_action" where
  "upsert_vcs_workspace w =
     bind_m (statement (\<lambda>t.
       let new = stored_workspace w; rows = hs_workspaces t
       in guard_sql (sync_check (vw_sync new)) ''CHECK''
         (guard_sql (workspace_key new \<in> workspace_key ` set rows \<or> vw_id new \<notin> vw_id ` set rows) ''UNIQUE''
           (guard_sql (references (vw_source_id new) (source_ids (hs_db t))) ''FOREIGN KEY''
             (Inr ((), with_workspaces (upsert_row workspace_key merge_workspace new rows) t)))))) (\<lambda>_.
       read_m (\<lambda>t. the_row_id vw_id (row_with workspace_key (workspace_key w) (hs_workspaces t))))"

definition workspace_from_row :: "vcs_workspace \<Rightarrow> store_error + vcs_workspace" where
  "workspace_from_row w = (if readable_u64 (sm_sync_version (vw_sync w)) then Inr w else unreadable)"

definition list_vcs_workspaces :: "history_store \<Rightarrow> store_error + vcs_workspace list" where
  "list_vcs_workspaces t =
     collect_rows workspace_from_row
       (sort_key (\<lambda>w. (et_updated_at (vw_timestamps w), vw_id w)) (hs_workspaces t))"

definition stored_change :: "vcs_change \<Rightarrow> vcs_change" where
  "stored_change c =
     c\<lparr>vg_author_time := map_option stored_time (vg_author_time c),
       vg_timestamps := stored_timestamps (vg_timestamps c), vg_sync := stored_sync (vg_sync c)\<rparr>"

definition change_key :: "vcs_change \<Rightarrow> uuid \<times> vcs_change_kind \<times> string" where
  "change_key c = (vg_vcs_workspace_id c, vg_kind c, vg_change_id c)"

definition merge_change :: "vcs_change \<Rightarrow> vcs_change \<Rightarrow> vcs_change" where
  "merge_change old new =
     new\<lparr>vg_id := vg_id old, vg_timestamps := keep_created (vg_timestamps old) (vg_timestamps new)\<rparr>"

interpretation changes: identified_rows change_key merge_change vg_id
  by unfold_locales (simp_all add: change_key_def merge_change_def)

definition change_refs_ok :: "db \<Rightarrow> vcs_change \<Rightarrow> bool" where
  "change_refs_ok d c \<longleftrightarrow>
     vg_vcs_workspace_id c \<in> set (db_workspaces d) \<and> references (vg_source_id c) (source_ids d)"

definition upsert_vcs_change :: "vcs_change \<Rightarrow> uuid store_action" where
  "upsert_vcs_change c =
     bind_m (statement (\<lambda>t.
       let new = stored_change c; rows = hs_changes t
       in guard_sql (sync_check (vg_sync new)) ''CHECK''
         (guard_sql (change_key new \<in> change_key ` set rows \<or> vg_id new \<notin> vg_id ` set rows) ''UNIQUE''
           (guard_sql (change_refs_ok (hs_db t) new) ''FOREIGN KEY''
             (Inr ((), t\<lparr>hs_changes := upsert_row change_key merge_change new rows\<rparr>)))))) (\<lambda>_.
       read_m (\<lambda>t. the_row_id vg_id (row_with change_key (change_key c) (hs_changes t))))"

definition change_from_row :: "vcs_change \<Rightarrow> store_error + vcs_change" where
  "change_from_row c = (if readable_u64 (sm_sync_version (vg_sync c)) then Inr c else unreadable)"

definition list_vcs_changes :: "history_store \<Rightarrow> store_error + vcs_change list" where
  "list_vcs_changes t =
     collect_rows change_from_row (sort_key (\<lambda>c. (et_updated_at (vg_timestamps c), vg_id c)) (hs_changes t))"

text \<open>The ids a record's links name, of one type.\<close>

definition linked_ids :: "uuid \<Rightarrow> history_record_link_target_type \<Rightarrow> history_store \<Rightarrow> uuid list" where
  "linked_ids record_id target t =
     map hl_target_id
       (filter (\<lambda>l. hl_history_record_id l = record_id \<and> hl_target_type l = target) (hs_links t))"

definition vcs_changes_for_record :: "uuid \<Rightarrow> history_store \<Rightarrow> store_error + vcs_change list" where
  "vcs_changes_for_record record_id t =
     collect_rows change_from_row
       (sort_key (\<lambda>c. (- et_updated_at (vg_timestamps c), vg_id c))
         (filter (\<lambda>c. vg_id c \<in> set (linked_ids record_id LinkTarget_VcsChange t)) (hs_changes t)))"

section \<open>Links of a record\<close>

definition stored_link :: "history_record_link \<Rightarrow> history_record_link" where
  "stored_link l =
     l\<lparr>hl_timestamps := stored_timestamps (hl_timestamps l), hl_sync := stored_sync (hl_sync l)\<rparr>"

definition link_key ::
    "history_record_link \<Rightarrow> uuid \<times> history_record_link_target_type \<times> uuid \<times> history_record_link_type" where
  "link_key l = (hl_history_record_id l, hl_target_type l, hl_target_id l, hl_link_type l)"

definition merge_link :: "history_record_link \<Rightarrow> history_record_link \<Rightarrow> history_record_link" where
  "merge_link old new =
     new\<lparr>hl_id := hl_id old, hl_timestamps := keep_created (hl_timestamps old) (hl_timestamps new)\<rparr>"

interpretation links: identified_rows link_key merge_link hl_id
  by unfold_locales (simp_all add: link_key_def merge_link_def)

definition link_refs_ok :: "db \<Rightarrow> history_record_link \<Rightarrow> bool" where
  "link_refs_ok d l \<longleftrightarrow>
     hl_history_record_id l \<in> set (db_records d) \<and> references (hl_source_id l) (source_ids d)"

definition upsert_history_record_link :: "history_record_link \<Rightarrow> uuid store_action" where
  "upsert_history_record_link l =
     bind_m (statement (\<lambda>t.
       let new = stored_link l; rows = hs_links t
       in guard_sql (sync_check (hl_sync new)) ''CHECK''
         (guard_sql (link_key new \<in> link_key ` set rows \<or> hl_id new \<notin> hl_id ` set rows) ''UNIQUE''
           (guard_sql (link_refs_ok (hs_db t) new) ''FOREIGN KEY''
             (Inr ((), t\<lparr>hs_links := upsert_row link_key merge_link new rows\<rparr>)))))) (\<lambda>_.
       read_m (\<lambda>t. the_row_id hl_id (row_with link_key (link_key l) (hs_links t))))"

definition link_from_row :: "history_record_link \<Rightarrow> store_error + history_record_link" where
  "link_from_row l = (if readable_u64 (sm_sync_version (hl_sync l)) then Inr l else unreadable)"

definition list_history_record_links :: "history_store \<Rightarrow> store_error + history_record_link list" where
  "list_history_record_links t =
     collect_rows link_from_row (sort_key (\<lambda>l. (et_updated_at (hl_timestamps l), hl_id l)) (hs_links t))"

section \<open>Summaries\<close>

definition stored_summary :: "summary \<Rightarrow> summary" where
  "stored_summary s =
     s\<lparr>su_timestamps := stored_timestamps (su_timestamps s), su_sync := stored_sync (su_sync s)\<rparr>"

definition merge_summary :: "summary \<Rightarrow> summary \<Rightarrow> summary" where
  "merge_summary old new = new\<lparr>su_timestamps := keep_created (su_timestamps old) (su_timestamps new)\<rparr>"

interpretation summaries: keyed_rows su_id merge_summary
  by unfold_locales (simp add: merge_summary_def)

definition summary_refs_ok :: "db \<Rightarrow> summary \<Rightarrow> bool" where
  "summary_refs_ok d s \<longleftrightarrow>
     references (su_history_record_id s) (db_records d) \<and> references (su_session_id s) (session_ids d)
     \<and> references (su_source_id s) (source_ids d)"

definition upsert_summary :: "summary \<Rightarrow> unit store_action" where
  "upsert_summary s =
     statement (\<lambda>t.
       let new = stored_summary s
       in guard_sql (sync_check (su_sync new)) ''CHECK''
         (guard_sql (summary_refs_ok (hs_db t) new) ''FOREIGN KEY''
           (Inr ((), t\<lparr>hs_summaries := upsert_row su_id merge_summary new (hs_summaries t)\<rparr>))))"

definition summary_from_row :: "summary \<Rightarrow> store_error + summary" where
  "summary_from_row s = (if readable_u64 (sm_sync_version (su_sync s)) then Inr s else unreadable)"

definition list_summaries :: "history_store \<Rightarrow> store_error + summary list" where
  "list_summaries t =
     collect_rows summary_from_row (sort_key (\<lambda>s. (et_updated_at (su_timestamps s), su_id s)) (hs_summaries t))"

definition summaries_for_record :: "uuid \<Rightarrow> history_store \<Rightarrow> store_error + summary list" where
  "summaries_for_record record_id t =
     collect_rows summary_from_row
       (sort_key (\<lambda>s. (- et_updated_at (su_timestamps s), su_id s))
         (filter (\<lambda>s. su_history_record_id s = Some record_id
                    \<or> in_record_session record_id (hs_db t) (su_session_id s)) (hs_summaries t)))"

section \<open>Artifacts\<close>

definition stored_artifact :: "artifact \<Rightarrow> artifact" where
  "stored_artifact a =
     a\<lparr>ar_timestamps := stored_timestamps (ar_timestamps a), ar_sync := stored_sync (ar_sync a)\<rparr>"

definition artifact_key :: "artifact \<Rightarrow> string \<times> artifact_kind" where
  "artifact_key a = (ar_blob_hash a, ar_kind a)"

definition merge_artifact :: "artifact \<Rightarrow> artifact \<Rightarrow> artifact" where
  "merge_artifact old new =
     new\<lparr>ar_id := ar_id old, ar_kind := ar_kind old, ar_blob_hash := ar_blob_hash old,
         ar_timestamps := keep_created (ar_timestamps old) (ar_timestamps new)\<rparr>"

interpretation artifacts: identified_rows artifact_key merge_artifact ar_id
  by unfold_locales (simp_all add: artifact_key_def merge_artifact_def)

text \<open>\<open>ON CONFLICT DO UPDATE\<close> without a target: the row with the same content, or else the row with
  the same id. (SQLite tests the constraints of a table from the last declared one on.)\<close>

definition write_artifact :: "artifact \<Rightarrow> artifact list \<Rightarrow> artifact list" where
  "write_artifact new rows =
     (if artifact_key new \<in> artifact_key ` set rows then upsert_row artifact_key merge_artifact new rows
      else if ar_id new \<in> ar_id ` set rows
      then map (\<lambda>old. if ar_id old = ar_id new then merge_artifact old new else old) rows
      else rows @ [new])"

definition upsert_artifact :: "artifact \<Rightarrow> uuid store_action" where
  "upsert_artifact a =
     bind_m (statement (\<lambda>t.
       let new = stored_artifact a
       in guard_sql (sync_check (ar_sync new)) ''CHECK''
         (guard_sql (references (ar_source_id new) (source_ids (hs_db t))) ''FOREIGN KEY''
           (Inr ((), with_artifacts (write_artifact new (hs_artifacts t)) t))))) (\<lambda>_.
       read_m (\<lambda>t. the_row_id ar_id (row_with artifact_key (artifact_key a) (hs_artifacts t))))"

definition artifact_from_row :: "artifact \<Rightarrow> store_error + artifact" where
  "artifact_from_row a =
     (if readable_u64 (ar_byte_size a) \<and> readable_u64 (sm_sync_version (ar_sync a)) then Inr a else unreadable)"

definition list_artifacts :: "history_store \<Rightarrow> store_error + artifact list" where
  "list_artifacts t =
     collect_rows artifact_from_row (sort_key (\<lambda>a. (et_updated_at (ar_timestamps a), ar_id a)) (hs_artifacts t))"

definition artifact_ids_of_record :: "uuid \<Rightarrow> history_store \<Rightarrow> uuid set" where
  "artifact_ids_of_record record_id t =
     (let d = hs_db t;
          runs_of = filter (run_of_record record_id d) (db_runs d)
      in Option.these (se_transcript_blob_id ` set (filter (\<lambda>s. se_history_record_id s = Some record_id) (db_sessions d)))
         \<union> Option.these (rn_input_blob_id ` set runs_of) \<union> Option.these (rn_output_blob_id ` set runs_of)
         \<union> Option.these (ev_payload_blob_id ` set (filter (event_of_record record_id d) (db_events d)))
         \<union> set (linked_ids record_id LinkTarget_Artifact t))"

definition artifacts_for_record :: "uuid \<Rightarrow> history_store \<Rightarrow> store_error + artifact list" where
  "artifacts_for_record record_id t =
     collect_rows artifact_from_row
       (sort_key (\<lambda>a. (- et_updated_at (ar_timestamps a), ar_id a))
         (filter (\<lambda>a. ar_id a \<in> artifact_ids_of_record record_id t) (hs_artifacts t)))"

definition legacy_blob_path :: "string \<Rightarrow> bool" where
  "legacy_blob_path p \<longleftrightarrow> like_match None ''blobs/%'' p"

text \<open>\<open>normalize_legacy_blob_paths\<close>: \<open>substr(blob_path, 7)\<close> is the text from its seventh character on.
  A path that matches has six ASCII characters before it.\<close>

definition normalize_legacy_blob_paths :: "history_store \<Rightarrow> history_store" where
  "normalize_legacy_blob_paths t =
     t\<lparr>hs_artifacts := map (\<lambda>a. if legacy_blob_path (ar_blob_path a)
         then a\<lparr>ar_blob_path := ''objects/'' @ drop 6 (ar_blob_path a)\<rparr> else a) (hs_artifacts t)\<rparr>"

end
