(* ===== verification/Record_Search.thy ===== *)
theory Record_Search
  imports Record_Tables
begin

text \<open>
  The search over history records (\<open>records.rs\<close>) and the rebuild of the search tables
  (\<open>search/projections.rs\<close>) of \<open>ctx-history-store\<close>. What FTS5 finds in a table, with its score, is an
  argument. Theorems: the search rows of the records follow the records, a deleted record whose
  grams stay behind makes every search that finds them fail, and a rebuild indexes deleted events.
  A rebuild is a list of statements of which the database may refuse any.
\<close>

section \<open>Statement after statement\<close>

text \<open>What statements do when none is refused.\<close>

fun apply_all :: "db_statement list \<Rightarrow> db_statement" where
  "apply_all [] t = Inr t"
| "apply_all (f # fs) t = bind_result (f t) (apply_all fs)"

lemma apply_all_append: "apply_all (fs @ gs) t = bind_result (apply_all fs t) (apply_all gs)"
  by (induction fs arbitrary: t) (auto simp: bind_result_eq_Inr split: sum.split, (metis bind_result.simps sum.exhaust)+)

lemma run_all: "apply_all fs t = Inr t' \<Longrightarrow> run_statements None fs t = (Inr (), t')"
  by (induction fs arbitrary: t) (auto simp: bind_result_eq_Inr)

lemma run_returned: "run_statements fault fs t = (Inr x, t') \<Longrightarrow> apply_all fs t = Inr t'"
  by (induction fault fs t rule: run_statements.induct) (auto split: option.splits prod.splits nat.splits sum.splits)

lemma run_refused: "run_statements fault fs t = (Inl e, t') \<Longrightarrow> apply_all fs t = Inr u \<Longrightarrow> \<exists>n. fault = Some (n, e)"
  by (induction fault fs t rule: run_statements.induct)
    (auto simp: bind_result_eq_Inr split: option.splits prod.splits nat.splits sum.splits)

lemma statements_kept:
  assumes "\<And>f s s'. f \<in> set fs \<Longrightarrow> P s \<Longrightarrow> f s = Inr s' \<Longrightarrow> P s'" "P t"
  shows "P (snd (run_statements fault fs t))"
  using assms
proof (induction fs arbitrary: fault t)
  case (Cons f fs)
  have "P (snd (run_statements fault' fs s))" if "f t = Inr s" for s fault'
    by (rule Cons.IH) (use Cons.prems that in auto)
  then show ?case using Cons.prems(2) by (auto split: option.split prod.split nat.split sum.split)
qed simp

lemma apply_all_kept:
  "(\<And>f s s'. f \<in> set fs \<Longrightarrow> P s \<Longrightarrow> f s = Inr s' \<Longrightarrow> P s') \<Longrightarrow> P t \<Longrightarrow> apply_all fs t = Inr t' \<Longrightarrow> P t'"
  using statements_kept [of fs P t None] run_all [of fs t t'] by simp

text \<open>What the projection of a record does.\<close>

definition record_projected :: "unicode \<Rightarrow> history_record \<Rightarrow> history_store \<Rightarrow> history_store" where
  "record_projected U r t =
     (case hs_record_search t of
        None \<Rightarrow> t
      | Some rows \<Rightarrow>
          t\<lparr>hs_record_search := Some (filter (\<lambda>s. rs_record_id s \<noteq> hr_id r) rows @ [search_row_of r]),
            hs_record_scriptgram := map_option
              (\<lambda>grams. filter (\<lambda>(i, _). i \<noteq> hr_id r) grams @ scriptgram_rows_of U r) (hs_record_scriptgram t)\<rparr>)"

lemma apply_gram_inserts:
  "apply_all (map (\<lambda>g. change_search_grams (\<lambda>grams. grams @ [g])) gs) t
   = Inr (t\<lparr>hs_record_scriptgram := map_option (\<lambda>grams. grams @ gs) (hs_record_scriptgram t)\<rparr>)"
  by (induction gs arbitrary: t) (simp_all add: change_search_grams_def option.map_comp comp_def option.map_ident)

lemma apply_record_inserts:
  "apply_all (record_search_inserts U r) t
   = Inr (t\<lparr>hs_record_search := map_option (\<lambda>rows. rows @ [search_row_of r]) (hs_record_search t),
       hs_record_scriptgram := map_option (\<lambda>grams. grams @ scriptgram_rows_of U r) (hs_record_scriptgram t)\<rparr>)"
  by (simp add: record_search_inserts_def change_search_rows_def apply_gram_inserts)

lemma apply_record_statements:
  "hs_record_search t \<noteq> None \<Longrightarrow> apply_all (record_search_statements U r) t = Inr (record_projected U r t)"
  by (auto simp: record_search_statements_def apply_record_inserts change_search_rows_def change_search_grams_def
      record_projected_def option.map_comp comp_def)

lemma projected_searchable [simp]: "hs_record_search (record_projected U r t) = None \<longleftrightarrow> hs_record_search t = None"
  by (simp add: record_projected_def split: option.split)

lemma apply_records_statements:
  "hs_record_search t \<noteq> None \<Longrightarrow>
   apply_all (concat (map (record_search_statements U) rs)) t = Inr (fold (record_projected U) rs t)"
proof (induction rs arbitrary: t)
  case (Cons r rs)
  then have "hs_record_search (record_projected U r t) \<noteq> None" by (simp only: projected_searchable not_False_eq_True)
  from Cons.IH [OF this] show ?case
    by (simp only: list.map concat.simps apply_all_append apply_record_statements [OF Cons.prems] bind_result.simps fold_simps)
qed simp

lemma projected_none: "hs_record_search t = None \<Longrightarrow> fold (record_projected U) rs t = t"
  by (induction rs) (simp_all add: record_projected_def)

lemma projection_calm: "upsert_record_search_projection U None r = modify_m (record_projected U r)"
  by (rule ext) (auto simp: upsert_record_search_projection_def when_searchable_def modify_m_def
      run_all apply_record_statements projected_none [of _ U "[r]", simplified])

lemma for_each_modify: "for_each (\<lambda>r. modify_m (f r)) rs = modify_m (fold f rs)"
  by (induction rs) (auto simp: return_m_def modify_m_def bind_m_def fun_eq_iff)

lemma projections_calm:
  "when_searchable (run_statements None (concat (map (record_search_statements U) rs)))
   = for_each (\<lambda>r. modify_m (record_projected U r)) rs"
  by (rule ext) (auto simp: for_each_modify when_searchable_def modify_m_def projected_none
      intro: run_all apply_records_statements)

lemmas record_writes_calm = upsert_record_def insert_record_def upsert_records_def projection_calm projections_calm

section \<open>Rebuilding\<close>

text \<open>A statement on the search tables of the events. The lookup table has the event id as its primary
  key.\<close>

definition change_tables :: "(search_tables \<Rightarrow> store_error + search_tables) \<Rightarrow> db_statement" where
  "change_tables f t =
     bind_result (f (db_projection (hs_db t))) (\<lambda>T. Inr (t\<lparr>hs_db := (hs_db t)\<lparr>db_projection := T\<rparr>\<rparr>))"

definition add_search_row :: "search_row \<Rightarrow> search_tables \<Rightarrow> store_error + search_tables" where
  "add_search_row r T = Inr (T\<lparr>st_search := map_option (\<lambda>rows. rows @ [r]) (st_search T)\<rparr>)"

definition add_scriptgram_row :: "search_row \<Rightarrow> search_tables \<Rightarrow> store_error + search_tables" where
  "add_scriptgram_row r T = Inr (T\<lparr>st_scriptgram := map_option (\<lambda>rows. rows @ [r]) (st_scriptgram T)\<rparr>)"

definition add_lookup_row :: "search_row \<Rightarrow> search_tables \<Rightarrow> store_error + search_tables" where
  "add_lookup_row r T =
     (if sr_event_id r \<in> sr_event_id ` set (unwrap_or (st_lookup T) [])
      then Inl (Sql (SqlFailure ''UNIQUE constraint failed: event_search_lookup.event_id''))
      else Inr (T\<lparr>st_lookup := map_option (\<lambda>rows. rows @ [r]) (st_lookup T)\<rparr>))"

text \<open>The query of a rebuild reads every event, in the order of time, sequence and id; the loop of
  \<open>populate_event_search_projection_from_query\<close> writes up to three rows for each. The flags say which
  tables are there and asked for.\<close>

definition projection_order :: "db \<Rightarrow> (uuid option \<times> event) list" where
  "projection_order d =
     map (\<lambda>e. (resolved_history_record d e, e))
       (sort_key (\<lambda>e. (ev_occurred_at e, sint (ev_seq e), ev_id e)) (db_events d))"

definition event_row_statements ::
    "externals \<Rightarrow> unicode \<Rightarrow> bool \<Rightarrow> bool \<Rightarrow> bool \<Rightarrow> uuid option \<times> event \<Rightarrow> db_statement list" where
  "event_row_statements X U search lookup scriptgram = (\<lambda>(hist, e).
     (let preview = event_search_preview_from_payload X (ev_event_type e) (ev_role e) (ev_payload e)
            RedactionState_SafePreview;
          row = \<lparr>sr_event_id = ev_id e, sr_history_record_id = hist, sr_session_id = ev_session_id e,
                 sr_role = ev_role e, sr_text = preview, sr_rank_bucket = ev_event_type e\<rparr>;
          token_text = scriptgram_text U preview
      in if trim preview = [] then []
         else (if search then [change_tables (add_search_row row)] else [])
           @ (if scriptgram \<and> token_text \<noteq> [] then [change_tables (add_scriptgram_row (row\<lparr>sr_text := token_text\<rparr>))] else [])
           @ (if lookup \<and> semantic_lookup_event_parts (ev_event_type e) (ev_role e)
              then [change_tables (add_lookup_row row)] else [])))"

definition populate_event_search_projection ::
    "externals \<Rightarrow> unicode \<Rightarrow> bool \<Rightarrow> bool \<Rightarrow> bool \<Rightarrow> db \<Rightarrow> db_statement list" where
  "populate_event_search_projection X U search lookup scriptgram d =
     concat (map (event_row_statements X U search lookup scriptgram) (projection_order d))"

definition recount_documents :: "externals \<Rightarrow> event list \<Rightarrow> db_statement" where
  "recount_documents X events = change_tables (\<lambda>T. Inr (refresh_semantic_searchable_item_stats X events T))"

text \<open>The statements of a rebuild. No transaction is around them.\<close>

definition clear_search_tables :: "db_statement list" where
  "clear_search_tables =
     [change_search_rows (\<lambda>_. []), change_search_grams (\<lambda>_. []),
      change_tables (\<lambda>T. Inr (T\<lparr>st_search := map_option (\<lambda>_. []) (st_search T)\<rparr>)),
      change_tables (\<lambda>T. Inr (T\<lparr>st_scriptgram := map_option (\<lambda>_. []) (st_scriptgram T)\<rparr>)),
      change_tables (\<lambda>T. Inr (T\<lparr>st_lookup := map_option (\<lambda>_. []) (st_lookup T)\<rparr>))]"

definition rebuild_statements :: "externals \<Rightarrow> unicode \<Rightarrow> history_store \<Rightarrow> db_statement list" where
  "rebuild_statements X U t =
     (let d = hs_db t; T = db_projection d
      in clear_search_tables
         @ (if st_search T = None \<and> st_lookup T = None then []
            else populate_event_search_projection X U (st_search T \<noteq> None) (st_lookup T \<noteq> None) (st_scriptgram T \<noteq> None) d)
         @ concat (map (record_search_inserts U) (sort_key (\<lambda>r. - hr_created_at r) (map rr_record (hs_records t))))
         @ [recount_documents X (db_events d)])"

definition rebuild_search_projection :: "externals \<Rightarrow> unicode \<Rightarrow> statement_fault \<Rightarrow> unit store_action" where
  "rebuild_search_projection X U fault t = when_searchable (run_statements fault (rebuild_statements X U t)) t"

definition refresh_search_index :: "externals \<Rightarrow> unicode \<Rightarrow> statement_fault \<Rightarrow> unit store_action" where
  "refresh_search_index X U fault = rebuild_search_projection X U fault"

text \<open>The rebuild of \<open>event_search_lookup\<close> alone.\<close>

definition rebuild_event_search_lookup_projection ::
    "externals \<Rightarrow> unicode \<Rightarrow> statement_fault \<Rightarrow> unit store_action" where
  "rebuild_event_search_lookup_projection X U fault t =
     (if st_lookup (db_projection (hs_db t)) = None then (Inr (), t)
      else run_statements fault
        (change_tables (\<lambda>T. Inr (T\<lparr>st_lookup := Some []\<rparr>))
         # populate_event_search_projection X U False True False (hs_db t)) t)"

definition conversation_row :: "search_row \<Rightarrow> bool" where
  "conversation_row r \<longleftrightarrow> semantic_lookup_event_parts (sr_rank_bucket r) (sr_role r)"

definition lookup_candidate :: "externals \<Rightarrow> event \<Rightarrow> bool" where
  "lookup_candidate X e \<longleftrightarrow>
     semantic_lookup_event_parts (ev_event_type e) (ev_role e) \<and> sm_deleted_at (ev_sync e) = None
     \<and> sm_visibility (ev_sync e) \<noteq> Visibility_Withheld \<and> sm_sync_state (ev_sync e) \<noteq> SyncState_Withheld
     \<and> char_count (sql_trim (value_to_string X (ev_payload e))) > 2"

definition event_search_lookup_candidate_count :: "externals \<Rightarrow> history_store \<Rightarrow> nat" where
  "event_search_lookup_candidate_count X t =
     (case st_search (db_projection (hs_db t)) of
        Some (r # rows) \<Rightarrow> length (filter conversation_row (r # rows))
      | _ \<Rightarrow> length (filter (lookup_candidate X) (db_events (hs_db t))))"

definition rows_in :: "'a list option \<Rightarrow> nat" where
  "rows_in table = length (unwrap_or table [])"

definition event_search_projection_needs_backfill :: "externals \<Rightarrow> history_store \<Rightarrow> bool" where
  "event_search_projection_needs_backfill X t \<longleftrightarrow>
     (let T = db_projection (hs_db t)
      in (st_search T \<noteq> None \<or> st_lookup T \<noteq> None) \<and> db_events (hs_db t) \<noteq> []
         \<and> (st_search T = Some []
            \<or> st_lookup T = Some [] \<and> event_search_lookup_candidate_count X t > 0))"

definition ensure_search_projection_initialized :: "externals \<Rightarrow> unicode \<Rightarrow> statement_fault \<Rightarrow> unit store_action" where
  "ensure_search_projection_initialized X U fault t =
     (let d = hs_db t; T = db_projection d
      in if hs_record_search t = None then (Inr (), t)
         else if rows_in (hs_record_search t) + rows_in (st_search T) + rows_in (st_scriptgram T)
                + rows_in (st_lookup T) > 0
         then if st_lookup T = Some [] \<and> event_search_lookup_candidate_count X t > 0
              then rebuild_event_search_lookup_projection X U fault t
              else if st_stat T = None
              then run_statements fault [recount_documents X (db_events d)] t
              else (Inr (), t)
         else if hs_records t \<noteq> [] \<or> db_events d \<noteq> [] then rebuild_search_projection X U fault t
         else (Inr (), t))"

section \<open>Searching\<close>

text \<open>What a \<open>MATCH\<close> finds in each of the tables, with \<open>bm25\<close>; the table of artifacts has no writer.
  A score is a value with a sum and an order.\<close>

record 'f full_text =
  fx_records :: "string \<Rightarrow> record_search_row list \<Rightarrow> (uuid \<times> 'f) list"
  fx_events :: "string \<Rightarrow> search_row list \<Rightarrow> (uuid option \<times> 'f) list"
  fx_record_grams :: "string \<Rightarrow> (uuid \<times> string) list \<Rightarrow> (uuid \<times> 'f) list"
  fx_event_grams :: "string \<Rightarrow> search_row list \<Rightarrow> (uuid option \<times> 'f) list"
  fx_bias :: "'f \<Rightarrow> 'f"

type_synonym 'f term_match = "(uuid \<times> nat) \<times> 'f"

definition known_record :: "(uuid option \<times> 'f) list \<Rightarrow> (uuid \<times> 'f) list" where
  "known_record ms = List.map_filter (\<lambda>(i, f). map_option (\<lambda>i. (i, f)) i) ms"

definition clause_matches ::
    "'f full_text \<Rightarrow> history_store \<Rightarrow> record_search_row list \<Rightarrow> nat \<Rightarrow> string \<Rightarrow> 'f term_match list" where
  "clause_matches M t rows k clause =
     map (\<lambda>(i, f). ((i, k), f))
       (fx_records M clause rows
        @ (case st_search (db_projection (hs_db t)) of
             None \<Rightarrow> [] | Some events \<Rightarrow> known_record (fx_events M clause events)))"

definition gram_matches :: "'f full_text \<Rightarrow> history_store \<Rightarrow> nat \<Rightarrow> string \<Rightarrow> 'f term_match list" where
  "gram_matches M t k clause =
     map (\<lambda>(i, f). ((i, k), fx_bias M f))
       ((case hs_record_scriptgram t of None \<Rightarrow> [] | Some grams \<Rightarrow> fx_record_grams M clause grams)
        @ (case st_scriptgram (db_projection (hs_db t)) of
             None \<Rightarrow> [] | Some events \<Rightarrow> known_record (fx_event_grams M clause events)))"

definition fts_clauses :: "unicode \<Rightarrow> string \<Rightarrow> (nat \<times> string) list" where
  "fts_clauses U query = map (\<lambda>(k, c). (k, encode_utf8 c)) (enumerate 0 (fts_match_clauses U (decode_utf8 query)))"

definition gram_clauses :: "unicode \<Rightarrow> history_store \<Rightarrow> string \<Rightarrow> (nat \<times> string) list" where
  "gram_clauses U t query =
     (if hs_record_scriptgram t \<noteq> None \<or> st_scriptgram (db_projection (hs_db t)) \<noteq> None
      then map (\<lambda>(k, c). (k, encode_utf8 c)) (scriptgram_match_clauses U (decode_utf8 query)) else [])"

text \<open>The common table expressions \<open>matches\<close> and \<open>term_matches\<close>.\<close>

definition all_matches ::
    "'f full_text \<Rightarrow> unicode \<Rightarrow> string \<Rightarrow> history_store \<Rightarrow> record_search_row list \<Rightarrow> 'f term_match list" where
  "all_matches M U query t rows =
     concat (map (\<lambda>(k, c). clause_matches M t rows k c) (fts_clauses U query))
     @ concat (map (\<lambda>(k, c). gram_matches M t k c) (gram_clauses U t query))"

definition best_scores :: "('f::linorder) term_match list \<Rightarrow> 'f term_match list" where
  "best_scores ms =
     map (\<lambda>key. (key, Min (snd ` set (filter (\<lambda>m. fst m = key) ms)))) (remdups (map fst ms))"

definition ranked_records :: "('f::{linorder,plus,zero}) term_match list \<Rightarrow> uuid list" where
  "ranked_records ms =
     (let best = best_scores ms;
          scores = (\<lambda>i. map snd (filter (\<lambda>m. fst (fst m) = i) best))
      in sort_key (\<lambda>i. (- int (length (scores i)), fold (+) (scores i) 0, i)) (remdups (map (fst \<circ> fst) best)))"

text \<open>\<open>search_records_fts\<close>: \<open>None\<close> without the table.\<close>

definition search_records_fts ::
    "('f::{linorder,plus,zero}) full_text \<Rightarrow> unicode \<Rightarrow> string \<Rightarrow> u64 \<Rightarrow> u64 \<Rightarrow> history_store
     \<Rightarrow> store_error + history_record list option" where
  "search_records_fts M U query limit offset t =
     (case hs_record_search t of
        None \<Rightarrow> Inr None
      | Some rows \<Rightarrow>
          if fts_clauses U query = [] \<and> gram_clauses U t query = [] then Inr (Some [])
          else bind_result
            (collect_rows (\<lambda>i. get_record i t) (limited limit offset (ranked_records (all_matches M U query t rows))))
            (\<lambda>rs. Inr (Some rs)))"

definition term_in_record :: "externals \<Rightarrow> history_record \<Rightarrow> string \<Rightarrow> bool" where
  "term_in_record X r term \<longleftrightarrow>
     (let pattern = ''%'' @ term @ ''%''
      in like_match None pattern (hr_title r) \<or> like_match None pattern (hr_body r)
         \<or> like_match None pattern (value_to_string X (JArr (map JStr (hr_tags r)))))"

definition search_records_like ::
    "externals \<Rightarrow> unicode \<Rightarrow> string \<Rightarrow> u64 \<Rightarrow> u64 \<Rightarrow> history_store \<Rightarrow> history_record list" where
  "search_records_like X U query limit offset t =
     (let terms = map encode_utf8 (lexical_query_terms U (decode_utf8 query));
          coverage = (\<lambda>r. length (filter (term_in_record X r) terms))
      in if terms = [] then []
         else limited limit offset
           (sort_key (\<lambda>r. (- int (coverage r), - hr_created_at r, hr_id r))
             (filter (\<lambda>r. list_ex (term_in_record X r) terms) (map rr_record (hs_records t)))))"

definition search_records_page ::
    "('f::{linorder,plus,zero}) full_text \<Rightarrow> externals \<Rightarrow> unicode \<Rightarrow> string \<Rightarrow> u64 \<Rightarrow> u64 \<Rightarrow> history_store
     \<Rightarrow> store_error + history_record list" where
  "search_records_page M X U query limit offset t =
     (if fts_match_query U (decode_utf8 query) = None \<and> scriptgram_match_query U (decode_utf8 query) = None
      then Inr []
      else bind_result (search_records_fts M U query limit offset t) (\<lambda>found.
        case found of
          Some rs \<Rightarrow> Inr rs
        | None \<Rightarrow> Inr (search_records_like X U query limit offset t)))"

definition search_records ::
    "('f::{linorder,plus,zero}) full_text \<Rightarrow> externals \<Rightarrow> unicode \<Rightarrow> string \<Rightarrow> u64 \<Rightarrow> history_store
     \<Rightarrow> store_error + history_record list" where
  "search_records M X U query limit t = search_records_page M X U query limit 0 t"

section \<open>The search rows follow the records\<close>

text \<open>For every id but those in \<open>A\<close> the search table holds the row of the stored record and no other.\<close>

definition in_step_but :: "uuid set \<Rightarrow> history_store \<Rightarrow> bool" where
  "in_step_but A t \<longleftrightarrow>
     (case hs_record_search t of
        None \<Rightarrow> True
      | Some rows \<Rightarrow> \<forall>i. i \<notin> A \<longrightarrow>
          filter (\<lambda>s. rs_record_id s = i) rows
          = map search_row_of (filter (\<lambda>r. hr_id r = i) (map rr_record (hs_records t))))"

lemma rs_record_id_row [simp]: "rs_record_id (search_row_of r) = hr_id r"
  by (simp add: search_row_of_def)

lemma in_step_mono: "in_step_but A t \<Longrightarrow> A \<subseteq> B \<Longrightarrow> in_step_but B t"
  by (auto simp: in_step_but_def split: option.splits)

lemma map_records_upsert:
  "map rr_record (upsert_row row_id replace_record \<lparr>rr_record = r, rr_source_id = src\<rparr> rows)
   = (if hr_id r \<in> row_id ` set rows
      then map (\<lambda>x. if hr_id x = hr_id r then r else x) (map rr_record rows) else map rr_record rows @ [r])"
  by (simp add: upsert_row_def replace_record_def)

lemma other_records_upsert:
  assumes "i \<noteq> hr_id r"
  shows "filter (\<lambda>x. hr_id x = i)
     (map rr_record (upsert_row row_id replace_record \<lparr>rr_record = r, rr_source_id = src\<rparr> rows))
   = filter (\<lambda>x. hr_id x = i) (map rr_record rows)"
proof -
  have "filter (\<lambda>x. hr_id x = i) (map (\<lambda>x. if hr_id x = hr_id r then r else x) xs) = filter (\<lambda>x. hr_id x = i) xs" for xs
    using assms by (induction xs) auto
  then show ?thesis unfolding map_records_upsert using assms by (simp del: map_map)
qed

text \<open>The record of an id, when it is stored once.\<close>

definition stored_once :: "history_record \<Rightarrow> history_store \<Rightarrow> bool" where
  "stored_once r t \<longleftrightarrow> filter (\<lambda>x. hr_id x = hr_id r) (map rr_record (hs_records t)) = [r]"

definition record_search_ok :: "history_store \<Rightarrow> bool" where
  "record_search_ok t \<longleftrightarrow> distinct (map row_id (hs_records t)) \<and> in_step_but {} t"

lemma only_with_key:
  assumes "distinct (map key xs)" "x \<in> set xs"
  shows "filter (\<lambda>y. key y = key x) xs = [x]"
  using assms
proof (induction xs)
  case (Cons y ys)
  show ?case
  proof (cases "y = x")
    case True
    then have "key z \<noteq> key x" if "z \<in> set ys" for z
      using Cons.prems(1) that by (metis distinct.simps(2) image_eqI list.simps(9) set_map)
    then show ?thesis using True by (simp add: filter_empty_conv)
  next
    case False
    then have "x \<in> set ys" "key y \<noteq> key x" using Cons.prems by auto
    then show ?thesis using Cons by simp
  qed
qed simp

lemma stored_once_upsert:
  assumes "distinct (map row_id rows)"
  shows "filter (\<lambda>x. hr_id x = hr_id r)
    (map rr_record (upsert_row row_id replace_record \<lparr>rr_record = r, rr_source_id = src\<rparr> rows)) = [r]"
proof -
  let ?new = "upsert_row row_id replace_record \<lparr>rr_record = r, rr_source_id = src\<rparr> rows"
  have "distinct (map row_id ?new)" by (rule records.distinct_upsert [OF assms])
  then have "distinct (map hr_id (map rr_record ?new))" by (simp add: comp_def)
  moreover have "r \<in> set (map rr_record ?new)" unfolding map_records_upsert by (auto split: if_splits)
  ultimately show ?thesis by (rule only_with_key)
qed

lemma upsert_row_in_step:
  assumes "in_step_but A t" "distinct (map row_id (hs_records t))" "upsert_record_row r t = (x, t')"
  shows "in_step_but (insert (hr_id r) A) t'" "distinct (map row_id (hs_records t'))" "stored_once r t'"
proof -
  let ?rows = "upsert_row row_id replace_record \<lparr>rr_record = r, rr_source_id = None\<rparr> (hs_records t)"
  have t': "t' = with_records ?rows t" using assms(3) by (simp add: upsert_record_row_def statement_def)
  show "in_step_but (insert (hr_id r) A) t'"
    using assms(1) unfolding in_step_but_def t' with_records_def
    by (simp only: history_store.simps other_records_upsert split: option.splits) (auto simp: other_records_upsert)
  show "distinct (map row_id (hs_records t'))"
    using records.distinct_upsert [OF assms(2)] by (simp add: t' with_records_def)
  show "stored_once r t'"
    using stored_once_upsert [OF assms(2)] by (simp add: stored_once_def t' with_records_def)
qed

lemma project_in_step:
  assumes "in_step_but (insert (hr_id r) A) t" "stored_once r t"
  shows "in_step_but A (record_projected U r t)"
proof (cases "hs_record_search t")
  case (Some rows)
  have "filter (\<lambda>s. rs_record_id s = i) (filter (\<lambda>s. rs_record_id s \<noteq> hr_id r) rows @ [search_row_of r])
      = map search_row_of (filter (\<lambda>r. hr_id r = i) (map rr_record (hs_records t)))" if "i \<notin> A" for i
  proof (cases "i = hr_id r")
    case True
    then show ?thesis using assms(2) by (simp add: stored_once_def)
  next
    case False
    then have "filter (\<lambda>s. rs_record_id s = i) (filter (\<lambda>s. rs_record_id s \<noteq> hr_id r) rows)
        = filter (\<lambda>s. rs_record_id s = i) rows"
      by (auto intro: filter_cong)
    then show ?thesis using assms(1) Some that False by (simp add: in_step_but_def)
  qed
  then show ?thesis using Some by (simp add: in_step_but_def record_projected_def)
qed (simp add: in_step_but_def record_projected_def)

lemma project_other_in_step:
  assumes "in_step_but A t" "hr_id r \<in> A"
  shows "in_step_but A (record_projected U r t)"
proof (cases "hs_record_search t")
  case (Some rows)
  have "filter (\<lambda>s. rs_record_id s = i) (filter (\<lambda>s. rs_record_id s \<noteq> hr_id r) rows @ [search_row_of r])
      = map search_row_of (filter (\<lambda>r. hr_id r = i) (map rr_record (hs_records t)))" if "i \<notin> A" for i
  proof -
    have "i \<noteq> hr_id r" using that assms(2) by auto
    then have "filter (\<lambda>s. rs_record_id s = i) (filter (\<lambda>s. rs_record_id s \<noteq> hr_id r) rows)
        = filter (\<lambda>s. rs_record_id s = i) rows"
      by (auto intro: filter_cong)
    then show ?thesis using assms(1) Some that \<open>i \<noteq> hr_id r\<close> by (simp add: in_step_but_def)
  qed
  then show ?thesis using Some by (simp add: in_step_but_def record_projected_def)
qed (simp add: in_step_but_def record_projected_def)

lemma project_records [simp]: "hs_records (record_projected U r t) = hs_records t"
  by (simp add: record_projected_def split: option.splits)

lemma stored_once_project [simp]:
  "stored_once x (record_projected U r t) = stored_once x t"
  by (simp add: stored_once_def)

fun last_ones_stored :: "history_record list \<Rightarrow> history_store \<Rightarrow> bool" where
  "last_ones_stored [] t = True"
| "last_ones_stored (r # rs) t \<longleftrightarrow> (hr_id r \<notin> hr_id ` set rs \<longrightarrow> stored_once r t) \<and> last_ones_stored rs t"

lemma last_ones_project [simp]:
  "last_ones_stored rs (record_projected U r t) = last_ones_stored rs t"
  by (induction rs) auto

lemma bind_modify [simp]: "bind_m (modify_m f) g s = g () (f s)"
  by (simp add: bind_m_def modify_m_def)

lemma project_all_in_step:
  assumes "in_step_but (hr_id ` set rs) t" "last_ones_stored rs t"
    "for_each (\<lambda>r. modify_m (record_projected U r)) rs t = (x, t')"
  shows "in_step_but {} t' \<and> hs_records t' = hs_records t"
  using assms
proof (induction rs arbitrary: t)
  case (Cons r rs)
  let ?t = "record_projected U r t"
  have rest: "for_each (\<lambda>r. modify_m (record_projected U r)) rs ?t = (x, t')"
    using Cons.prems(3) by simp
  have "in_step_but (hr_id ` set rs) ?t"
  proof (cases "hr_id r \<in> hr_id ` set rs")
    case True
    then have "insert (hr_id r) (hr_id ` set rs) = hr_id ` set rs" by (rule insert_absorb)
    then show ?thesis using project_other_in_step [OF _ True] Cons.prems(1) by simp
  next
    case False
    then show ?thesis using project_in_step Cons.prems(1,2) by simp
  qed
  moreover have "last_ones_stored rs ?t" using Cons.prems(2) by simp
  ultimately show ?case using Cons.IH [OF _ _ rest] by simp
qed (auto simp: return_m_def)

lemma stored_once_other:
  assumes "stored_once y t" "hr_id y \<noteq> hr_id r" "upsert_record_row r t = (x, t')"
  shows "stored_once y t'"
  using assms other_records_upsert [OF assms(2), of None "hs_records t"]
  by (auto simp: stored_once_def upsert_record_row_def statement_def with_records_def)

lemma upsert_row_succeeds: "\<exists>t'. upsert_record_row r t = (Inr (), t')"
  by (simp add: upsert_record_row_def statement_def)

lemma stored_once_others:
  "stored_once y t \<Longrightarrow> hr_id y \<notin> hr_id ` set rs \<Longrightarrow> for_each upsert_record_row rs t = (x, t') \<Longrightarrow> stored_once y t'"
proof (induction rs arbitrary: t)
  case (Cons r rs)
  obtain t1 where t1: "upsert_record_row r t = (Inr (), t1)" using upsert_row_succeeds by blast
  have "stored_once y t1" using stored_once_other [OF Cons.prems(1) _ t1] Cons.prems(2) by auto
  then show ?case using Cons.IH Cons.prems(2,3) t1 by (simp add: bind_m_def)
qed (auto simp: return_m_def)

lemma upsert_rows_in_step:
  "in_step_but A t \<Longrightarrow> distinct (map row_id (hs_records t)) \<Longrightarrow> for_each upsert_record_row rs t = (x, t') \<Longrightarrow>
   in_step_but (A \<union> hr_id ` set rs) t' \<and> distinct (map row_id (hs_records t')) \<and> last_ones_stored rs t'"
proof (induction rs arbitrary: A t)
  case (Cons r rs)
  obtain t1 where t1: "upsert_record_row r t = (Inr (), t1)" using upsert_row_succeeds by blast
  have rest: "for_each upsert_record_row rs t1 = (x, t')" using Cons.prems(3) t1 by (simp add: bind_m_def)
  note one = upsert_row_in_step [OF Cons.prems(1,2) t1]
  have "hr_id r \<notin> hr_id ` set rs \<longrightarrow> stored_once r t'" using stored_once_others [OF one(3) _ rest] by simp
  then show ?case using Cons.IH [OF one(1,2) rest] by (simp add: insert_commute Un_insert_right)
qed (auto simp: return_m_def)

lemma in_transaction_cases:
  assumes "in_transaction b c m t = (r, t')"
  obtains e where "r = Inl e" "t' = t" | x where "r = Inr x" "m t = (Inr x, t')" "b = None" "c = None"
  using assms by (auto simp: in_transaction_def split: option.splits prod.splits sum.splits)

lemma upsert_records_ok:
  assumes "record_search_ok t" "upsert_records U b c None rs t = (x, t')"
  shows "record_search_ok t'"
proof (cases "rs = []")
  case True
  then show ?thesis using assms by (auto simp: upsert_records_def projections_calm return_m_def)
next
  case False
  let ?written = "in_transaction b c (for_each upsert_record_row rs)"
  obtain y t1 where t1: "?written t = (y, t1)" by (rule prod.exhaust)
  from this show ?thesis
  proof (cases rule: in_transaction_cases)
    case (1 e)
    then show ?thesis using assms False t1 by (auto simp: upsert_records_def projections_calm bind_m_def)
  next
    case (2 z)
    note rows = upsert_rows_in_step [of "{}", OF _ _ 2(2)]
    have "for_each (\<lambda>r. modify_m (record_projected U r)) rs t1 = (x, t')"
      using assms(2) False t1 2(1) by (simp add: upsert_records_def projections_calm bind_m_def)
    note all = project_all_in_step [OF _ _ this]
    show ?thesis using rows all assms(1) by (simp add: record_search_ok_def)
  qed
qed

lemma upsert_record_ok:
  assumes "record_search_ok t" "upsert_record U None r t = (x, t')" shows "record_search_ok t'"
proof -
  obtain t1 where t1: "upsert_record_row r t = (Inr (), t1)" using upsert_row_succeeds by blast
  then have t': "t' = record_projected U r t1"
    using assms(2) by (simp add: upsert_record_def projection_calm bind_m_def modify_m_def)
  note one = upsert_row_in_step [of "{}", OF _ _ t1]
  show ?thesis using one project_in_step [of r "{}" t1] assms(1) t' by (simp add: record_search_ok_def)
qed

lemma insert_record_ok:
  assumes "record_search_ok t" "insert_record U None r t = (x, t')" shows "record_search_ok t'"
proof (cases "hr_id r \<in> row_id ` set (hs_records t)")
  case True
  then show ?thesis
    using assms by (simp add: insert_record_def projection_calm bind_m_def statement_def guard_sql_def constraint_failed_def)
next
  case False
  then have "upsert_record_row r t = (Inr (), with_records (hs_records t @ [\<lparr>rr_record = r, rr_source_id = None\<rparr>]) t)"
    by (simp add: upsert_record_row_def statement_def upsert_row_def)
  then have "upsert_record U None r t = insert_record U None r t"
    using False by (simp add: upsert_record_def projection_calm insert_record_def projection_calm bind_m_def statement_def guard_sql_def)
  then show ?thesis using upsert_record_ok assms by metis
qed

lemma delete_row_cases:
  assumes "delete_orphan_row i t = (r, t')"
  obtains "t' = t" "r \<noteq> Inr True"
  | "r = Inr True" "t' = with_records (filter (\<lambda>r. row_id r \<noteq> i) (hs_records t)) t"
    "i \<in> row_id ` set (hs_records t)" "orphan_record i t"
  using assms
  by (auto simp: delete_orphan_row_def statement_def guard_sql_def constraint_failed_def split: if_splits)

lemma delete_orphan_cases:
  assumes "delete_orphan_record fault i t = (r, t')"
  obtains "t' = t" "r \<noteq> Inr True"
  | "r = Inr True" "t' = (with_records (filter (\<lambda>r. row_id r \<noteq> i) (hs_records t)) t)
      \<lparr>hs_record_search := map_option (filter (\<lambda>s. rs_record_id s \<noteq> i)) (hs_record_search t)\<rparr>"
    "i \<in> row_id ` set (hs_records t)" "orphan_record i t"
  | e where "r = Inl e" "fault \<noteq> None" "t' = with_records (filter (\<lambda>r. row_id r \<noteq> i) (hs_records t)) t"
    "i \<in> row_id ` set (hs_records t)" "orphan_record i t"
proof -
  obtain x t1 where row: "delete_orphan_row i t = (x, t1)" by (rule prod.exhaust)
  then show ?thesis
  proof (cases rule: delete_row_cases)
    case 1
    then have "t' = t \<and> r \<noteq> Inr True"
      using assms row by (cases x) (auto simp: delete_orphan_record_def bind_m_def return_m_def)
    then show ?thesis using that(1) by blast
  next
    case 2
    let ?fs = "[change_search_rows (filter (\<lambda>s. rs_record_id s \<noteq> i))]"
    obtain y t2 where rest: "when_searchable (run_statements fault ?fs) t1 = (y, t2)" by (rule prod.exhaust)
    show ?thesis
    proof (cases y)
      case (Inl e)
      then have "fault \<noteq> None" "t2 = t1"
        using rest by (auto simp: when_searchable_def change_search_rows_def split: if_splits option.splits prod.splits nat.splits)
      then show ?thesis using that(3) assms row rest 2 Inl by (auto simp: delete_orphan_record_def bind_m_def)
    next
      case (Inr z)
      have "t2 = t1\<lparr>hs_record_search := map_option (filter (\<lambda>s. rs_record_id s \<noteq> i)) (hs_record_search t1)\<rparr>"
        using rest Inr run_returned [of fault ?fs t1 z t2]
        by (cases "hs_record_search t1") (simp_all add: when_searchable_def change_search_rows_def del: run_statements.simps)
      then show ?thesis
        using that(2) assms row rest 2 Inr by (auto simp: delete_orphan_record_def bind_m_def return_m_def with_records_def)
    qed
  qed
qed

lemma delete_orphan_ok:
  assumes "record_search_ok t" "delete_orphan_record None i t = (r, t')" shows "record_search_ok t'"
  using assms(2)
proof (cases rule: delete_orphan_cases)
  case 1
  then show ?thesis using assms by simp
next
  case 2
  have "filter (\<lambda>s. rs_record_id s = j) (filter (\<lambda>s. rs_record_id s \<noteq> i) rows)
      = map search_row_of (filter (\<lambda>r. hr_id r = j) (map rr_record (filter (\<lambda>r. row_id r \<noteq> i) (hs_records t))))"
    if rows: "\<And>j. filter (\<lambda>s. rs_record_id s = j) rows
      = map search_row_of (filter (\<lambda>r. hr_id r = j) (map rr_record (hs_records t)))" for rows j
  proof (cases "j = i")
    case True
    then show ?thesis by (simp add: filter_map comp_def filter_empty_conv)
  next
    case False
    then have "filter (\<lambda>s. rs_record_id s = j) (filter (\<lambda>s. rs_record_id s \<noteq> i) rows) = filter (\<lambda>s. rs_record_id s = j) rows"
      "filter (\<lambda>x. row_id x \<noteq> i \<and> row_id x = j) (hs_records t) = filter (\<lambda>x. row_id x = j) (hs_records t)"
      by (auto intro: filter_cong)
    then show ?thesis using rows [of j] by (simp add: filter_map comp_def)
  qed
  then show ?thesis
    using 2 assms(1)
    by (auto simp: record_search_ok_def in_step_but_def with_records_def distinct_map_filter split: option.splits)
qed simp

text \<open>The tables a rebuild writes.\<close>

definition put_tables :: "search_tables \<Rightarrow> history_store \<Rightarrow> history_store" where
  "put_tables T t = t\<lparr>hs_db := (hs_db t)\<lparr>db_projection := T\<rparr>\<rparr>"

lemma put_tables_simps [simp]:
  "put_tables T (put_tables T' t) = put_tables T t" "db_projection (hs_db (put_tables T t)) = T"
  "hs_record_search (put_tables T t) = hs_record_search t" "hs_records (put_tables T t) = hs_records t"
  "hs_record_scriptgram (put_tables T t) = hs_record_scriptgram t" "db_events (hs_db (put_tables T t)) = db_events (hs_db t)"
  "put_tables (db_projection (hs_db t)) t = t"
  by (simp_all add: put_tables_def)

lemma change_tables_put: "change_tables f t = bind_result (f (db_projection (hs_db t))) (\<lambda>T. Inr (put_tables T t))"
  by (simp add: change_tables_def put_tables_def)

definition record_rows_rebuilt :: "unicode \<Rightarrow> history_store \<Rightarrow> history_store" where
  "record_rows_rebuilt U t =
     (let rs = sort_key (\<lambda>r. - hr_created_at r) (map rr_record (hs_records t))
      in t\<lparr>hs_record_search := map_option (\<lambda>_. map search_row_of rs) (hs_record_search t),
           hs_record_scriptgram := map_option (\<lambda>_. concat (map (scriptgram_rows_of U) rs)) (hs_record_scriptgram t)\<rparr>)"

lemma populate_changes_tables:
  "f \<in> set (populate_event_search_projection X U a b c d) \<Longrightarrow> \<exists>g. f = change_tables g"
  by (auto simp: populate_event_search_projection_def event_row_statements_def Let_def split: if_splits)

lemma populate_applies_to:
  assumes "apply_all (populate_event_search_projection X U a b c d) t = Inr t'"
  shows "\<exists>T. t' = put_tables T t"
proof (rule apply_all_kept [OF _ _ assms])
  show "\<exists>T. t = put_tables T t" by (metis put_tables_simps(7))
  fix f s s' assume f: "f \<in> set (populate_event_search_projection X U a b c d)" "\<exists>T. s = put_tables T t" "f s = Inr s'"
  obtain g where "f = change_tables g" using populate_changes_tables [OF f(1)] by blast
  then show "\<exists>T. s' = put_tables T t" using f(2,3) by (auto simp: change_tables_put bind_result_eq_Inr)
qed

definition record_rows_cleared :: "history_store \<Rightarrow> history_store" where
  "record_rows_cleared t =
     t\<lparr>hs_record_search := map_option (\<lambda>_. []) (hs_record_search t),
       hs_record_scriptgram := map_option (\<lambda>_. []) (hs_record_scriptgram t)\<rparr>"

definition event_rows_cleared :: "search_tables \<Rightarrow> search_tables" where
  "event_rows_cleared T =
     T\<lparr>st_search := map_option (\<lambda>_. []) (st_search T), st_scriptgram := map_option (\<lambda>_. []) (st_scriptgram T),
       st_lookup := map_option (\<lambda>_. []) (st_lookup T)\<rparr>"

abbreviation "tables_of t \<equiv> db_projection (hs_db t)"

lemma apply_clear:
  "apply_all clear_search_tables t = Inr (put_tables (event_rows_cleared (tables_of t)) (record_rows_cleared t))"
  by (simp add: clear_search_tables_def change_search_rows_def change_search_grams_def change_tables_def put_tables_def
      event_rows_cleared_def record_rows_cleared_def)

lemma apply_inserts_of_all:
  "apply_all (concat (map (record_search_inserts U) rs)) t
   = Inr (t\<lparr>hs_record_search := map_option (\<lambda>rows. rows @ map search_row_of rs) (hs_record_search t),
       hs_record_scriptgram := map_option (\<lambda>grams. grams @ concat (map (scriptgram_rows_of U) rs)) (hs_record_scriptgram t)\<rparr>)"
  by (induction rs arbitrary: t)
    (simp_all add: apply_all_append apply_record_inserts option.map_comp comp_def option.map_ident)

lemma rebuild_applies:
  "apply_all (rebuild_statements X U t) t
   = bind_result
       (apply_all (if st_search (tables_of t) = None \<and> st_lookup (tables_of t) = None then []
          else populate_event_search_projection X U (st_search (tables_of t) \<noteq> None) (st_lookup (tables_of t) \<noteq> None)
                 (st_scriptgram (tables_of t) \<noteq> None) (hs_db t))
         (put_tables (event_rows_cleared (tables_of t)) (record_rows_cleared t)))
       (apply_all (concat (map (record_search_inserts U) (sort_key (\<lambda>r. - hr_created_at r) (map rr_record (hs_records t))))
          @ [recount_documents X (db_events (hs_db t))]))"
  unfolding rebuild_statements_def Let_def by (simp only: apply_all_append apply_clear bind_result.simps)

lemma rebuild_end:
  "apply_all (concat (map (record_search_inserts U) (sort_key (\<lambda>r. - hr_created_at r) (map rr_record (hs_records t))))
      @ [recount_documents X es]) (put_tables T (record_rows_cleared t))
   = Inr (put_tables (refresh_semantic_searchable_item_stats X es T) (record_rows_rebuilt U t))"
  by (simp add: apply_all_append apply_inserts_of_all recount_documents_def change_tables_def put_tables_def
      record_rows_rebuilt_def record_rows_cleared_def Let_def option.map_comp comp_def)

lemma rebuild_returned:
  assumes "rebuild_search_projection X U fault t = (Inr x, t')" "hs_record_search t \<noteq> None"
  shows "\<exists>T. t' = put_tables T (record_rows_rebuilt U t)"
proof -
  have "apply_all (rebuild_statements X U t) t = Inr t'"
    using assms by (auto simp: rebuild_search_projection_def when_searchable_def intro: run_returned)
  then show ?thesis unfolding rebuild_applies
    by (auto simp: bind_result_eq_Inr rebuild_end dest!: populate_applies_to split: if_splits)
qed

lemma rebuild_ok:
  assumes "record_search_ok t" "rebuild_search_projection X U fault t = (Inr x, t')" shows "record_search_ok t'"
proof (cases "hs_record_search t")
  case None
  then show ?thesis using assms by (simp add: rebuild_search_projection_def when_searchable_def)
next
  case (Some rows)
  have sorted: "filter (\<lambda>s. rs_record_id s = i) (map search_row_of (sort_key (\<lambda>r. - hr_created_at r) rs))
      = map search_row_of (filter (\<lambda>r. hr_id r = i) rs)" if "distinct (map hr_id rs)" for i rs
  proof (cases "\<exists>r \<in> set rs. hr_id r = i")
    case True
    then obtain r where r: "r \<in> set rs" "hr_id r = i" by blast
    have "distinct (map hr_id (sort_key (\<lambda>r. - hr_created_at r) rs))"
      using that by (simp add: distinct_map)
    from only_with_key [OF this, of r] only_with_key [OF that, of r] r
    show ?thesis by (simp add: filter_map comp_def)
  next
    case False
    then show ?thesis by (simp add: filter_map comp_def filter_empty_conv)
  qed
  obtain T where "t' = put_tables T (record_rows_rebuilt U t)" using rebuild_returned [OF assms(2)] Some by auto
  then show ?thesis using sorted [of "map rr_record (hs_records t)"] assms(1) Some
    by (simp add: record_search_ok_def in_step_but_def record_rows_rebuilt_def Let_def comp_def)
qed

lemma rebuild_lookup_keeps:
  assumes "rebuild_event_search_lookup_projection X U fault t = (x, t')"
  shows "\<exists>T. t' = put_tables T t"
proof -
  let ?P = "\<lambda>s. \<exists>T. s = put_tables T t"
  have start: "?P t" by (metis put_tables_simps(7))
  have "?P (snd (run_statements fault (change_tables (\<lambda>T. Inr (T\<lparr>st_lookup := Some []\<rparr>))
      # populate_event_search_projection X U False True False (hs_db t)) t))"
  proof (rule statements_kept [where P = ?P, OF _ start])
    fix f s s' assume f: "f \<in> set (change_tables (\<lambda>T. Inr (T\<lparr>st_lookup := Some []\<rparr>))
      # populate_event_search_projection X U False True False (hs_db t))" and s: "?P s" "f s = Inr s'"
    from f have "f = change_tables (\<lambda>T. Inr (T\<lparr>st_lookup := Some []\<rparr>))
      \<or> f \<in> set (populate_event_search_projection X U False True False (hs_db t))" by simp
    then obtain g where "f = change_tables g" using populate_changes_tables by blast
    then show "?P s'" using s by (auto simp: change_tables_put bind_result_eq_Inr)
  qed
  then show ?thesis using assms start by (auto simp: rebuild_event_search_lookup_projection_def split: if_splits)
qed

lemma ensure_initialized_ok:
  assumes "record_search_ok t" "ensure_search_projection_initialized X U fault t = (Inr x, t')"
  shows "record_search_ok t'"
proof -
  have put: "record_search_ok (put_tables T t)" for T
    using assms(1) by (simp add: record_search_ok_def in_step_but_def split: option.splits)
  consider "t' = t" | "rebuild_search_projection X U fault t = (Inr x, t')"
    | "rebuild_event_search_lookup_projection X U fault t = (Inr x, t')"
    | "run_statements fault [recount_documents X (db_events (hs_db t))] t = (Inr x, t')"
    using assms(2) unfolding ensure_search_projection_initialized_def Let_def by (metis prod.inject)
  then show ?thesis
  proof cases
    case 4
    from run_returned [OF this] show ?thesis using put by (auto simp: recount_documents_def change_tables_put)
  next
    case 3
    from rebuild_lookup_keeps [OF this] show ?thesis using put by blast
  qed (simp add: assms(1), rule rebuild_ok [OF assms(1)])
qed

text \<open>A rebuild succeeds when the ids of the events are distinct and no statement is refused; it writes a row
  of \<open>event_search\<close> for each event with a preview.\<close>

definition event_search_rows :: "externals \<Rightarrow> uuid option \<times> event \<Rightarrow> search_row list" where
  "event_search_rows X = (\<lambda>(hist, e).
     if trim (event_preview X e) = [] then [] else [preview_row (ev_id e) hist e (event_preview X e)])"

lemma event_row_applies:
  assumes "\<And>r. r \<in> set (unwrap_or (st_lookup (tables_of t)) []) \<Longrightarrow> sr_event_id r \<noteq> ev_id e"
  shows "\<exists>T. apply_all (event_row_statements X U a b c (hist, e)) t = Inr (put_tables T t)
    \<and> (a \<longrightarrow> st_search T = map_option (\<lambda>rows. rows @ event_search_rows X (hist, e)) (st_search (tables_of t)))
    \<and> sr_event_id ` set (unwrap_or (st_lookup T) [])
        \<subseteq> insert (ev_id e) (sr_event_id ` set (unwrap_or (st_lookup (tables_of t)) []))"
proof (cases "trim (event_preview X e) = []")
  case True
  then show ?thesis
    by (intro exI [of _ "tables_of t"]) (auto simp: event_row_statements_def event_search_rows_def option.map_ident)
next
  case False
  have fresh: "ev_id e \<notin> sr_event_id ` set (unwrap_or (st_lookup (tables_of t)) [])" using assms by force
  let ?row = "preview_row (ev_id e) hist e (event_preview X e)" and ?tokens = "scriptgram_text U (event_preview X e)"
  let ?T = "(tables_of t)\<lparr>
    st_search := if a then map_option (\<lambda>rows. rows @ [?row]) (st_search (tables_of t)) else st_search (tables_of t),
    st_scriptgram := if c \<and> ?tokens \<noteq> [] then map_option (\<lambda>rows. rows @ [?row\<lparr>sr_text := ?tokens\<rparr>]) (st_scriptgram (tables_of t))
      else st_scriptgram (tables_of t),
    st_lookup := if b \<and> semantic_lookup_event_parts (ev_event_type e) (ev_role e)
      then map_option (\<lambda>rows. rows @ [?row]) (st_lookup (tables_of t)) else st_lookup (tables_of t)\<rparr>"
  have "apply_all (event_row_statements X U a b c (hist, e)) t = Inr (put_tables ?T t)"
    using False fresh
    by (simp add: event_row_statements_def Let_def change_tables_put add_search_row_def add_scriptgram_row_def
        add_lookup_row_def guard_sql_def preview_row_def)
  moreover have "sr_event_id ` set (unwrap_or (st_lookup ?T) [])
      \<subseteq> insert (ev_id e) (sr_event_id ` set (unwrap_or (st_lookup (tables_of t)) []))"
    by (cases "st_lookup (tables_of t)") auto
  ultimately show ?thesis using False by (intro exI [of _ ?T]) (simp add: event_search_rows_def)
qed

lemma populate_applies:
  assumes "distinct (map (ev_id \<circ> snd) rows)"
    "\<And>r. r \<in> set (unwrap_or (st_lookup (tables_of t)) []) \<Longrightarrow> sr_event_id r \<notin> (ev_id \<circ> snd) ` set rows"
  shows "\<exists>T. apply_all (concat (map (event_row_statements X U a b c) rows)) t = Inr (put_tables T t)
    \<and> (a \<longrightarrow> st_search T = map_option (\<lambda>old. old @ concat (map (event_search_rows X) rows)) (st_search (tables_of t)))"
  using assms
proof (induction rows arbitrary: t)
  case Nil
  show ?case by (rule exI [of _ "tables_of t"]) (simp add: option.map_ident)
next
  case (Cons row rows)
  obtain h e where row: "row = (h, e)" by (rule prod.exhaust)
  have "r \<in> set (unwrap_or (st_lookup (tables_of t)) []) \<Longrightarrow> sr_event_id r \<noteq> ev_id e" for r
    using Cons.prems(2) row by fastforce
  from event_row_applies [OF this, where X = X and U = U and a = a and b = b and c = c and hist = h] obtain T where T:
    "apply_all (event_row_statements X U a b c row) t = Inr (put_tables T t)"
    "a \<Longrightarrow> st_search T = map_option (\<lambda>rows. rows @ event_search_rows X row) (st_search (tables_of t))"
    "sr_event_id ` set (unwrap_or (st_lookup T) []) \<subseteq> insert (ev_id e) (sr_event_id ` set (unwrap_or (st_lookup (tables_of t)) []))"
    unfolding row by blast
  have fresh: "sr_event_id r \<notin> (ev_id \<circ> snd) ` set rows"
    if "r \<in> set (unwrap_or (st_lookup (tables_of (put_tables T t))) [])" for r
  proof -
    have "sr_event_id r = ev_id e \<or> sr_event_id r \<in> sr_event_id ` set (unwrap_or (st_lookup (tables_of t)) [])"
      using T(3) that by auto
    then show ?thesis
    proof
      assume "sr_event_id r = ev_id e"
      then show ?thesis using Cons.prems(1) row by auto
    next
      assume "sr_event_id r \<in> sr_event_id ` set (unwrap_or (st_lookup (tables_of t)) [])"
      then obtain q where q: "q \<in> set (unwrap_or (st_lookup (tables_of t)) [])" "sr_event_id q = sr_event_id r" by auto
      from Cons.prems(2) [OF q(1)] show ?thesis unfolding q(2) by simp
    qed
  qed
  have "distinct (map (ev_id \<circ> snd) rows)" using Cons.prems(1) by (simp add: comp_def)
  from Cons.IH [OF this, of "put_tables T t", OF fresh] obtain T' where T':
    "apply_all (concat (map (event_row_statements X U a b c) rows)) (put_tables T t) = Inr (put_tables T' (put_tables T t))"
    "a \<Longrightarrow> st_search T' = map_option (\<lambda>old. old @ concat (map (event_search_rows X) rows)) (st_search T)"
    by auto
  show ?case
    by (rule exI [of _ T']) (use T(1,2) T' in \<open>auto simp: apply_all_append option.map_comp comp_def\<close>)
qed

lemma rebuild_succeeds:
  assumes "distinct (event_ids (hs_db t))" "hs_record_search t \<noteq> None"
  shows "\<exists>T. apply_all (rebuild_statements X U t) t = Inr (put_tables T (record_rows_rebuilt U t))
    \<and> (st_search (tables_of t) \<noteq> None \<longrightarrow>
        st_search T = Some (concat (map (event_search_rows X) (projection_order (hs_db t)))))"
proof -
  let ?t = "put_tables (event_rows_cleared (tables_of t)) (record_rows_cleared t)"
  have ids: "distinct (map (ev_id \<circ> snd) (projection_order (hs_db t)))"
    using assms(1) by (simp add: projection_order_def comp_def distinct_map)
  have "r \<in> set (unwrap_or (st_lookup (tables_of ?t)) []) \<Longrightarrow> sr_event_id r \<notin> (ev_id \<circ> snd) ` set (projection_order (hs_db t))"
    for r by (cases "st_lookup (tables_of t)") (simp_all add: event_rows_cleared_def)
  note filled = populate_applies [OF ids this, where X = X and U = U]
  show ?thesis
  proof (cases "st_search (tables_of t) = None \<and> st_lookup (tables_of t) = None")
    case True
    then show ?thesis unfolding rebuild_applies by (auto simp: rebuild_end)
  next
    case False
    from filled [where a = "st_search (tables_of t) \<noteq> None" and b = "st_lookup (tables_of t) \<noteq> None"
        and c = "st_scriptgram (tables_of t) \<noteq> None"] obtain T where T:
      "apply_all (populate_event_search_projection X U (st_search (tables_of t) \<noteq> None) (st_lookup (tables_of t) \<noteq> None)
         (st_scriptgram (tables_of t) \<noteq> None) (hs_db t)) ?t = Inr (put_tables T ?t)"
      "st_search (tables_of t) \<noteq> None \<Longrightarrow> st_search T
        = map_option (\<lambda>old. old @ concat (map (event_search_rows X) (projection_order (hs_db t)))) (st_search (tables_of ?t))"
      unfolding populate_event_search_projection_def by blast
    have "apply_all (rebuild_statements X U t) t
        = Inr (put_tables (refresh_semantic_searchable_item_stats X (db_events (hs_db t)) T) (record_rows_rebuilt U t))"
      unfolding rebuild_applies if_not_P [OF False] T(1) bind_result.simps put_tables_simps(1) by (rule rebuild_end)
    moreover have "st_search (tables_of t) \<noteq> None \<Longrightarrow>
        st_search T = Some (concat (map (event_search_rows X) (projection_order (hs_db t))))"
      using T(2) by (auto simp: event_rows_cleared_def)
    ultimately show ?thesis by (intro exI conjI) (assumption, simp add: refresh_semantic_searchable_item_stats_def)
  qed
qed

text \<open>A rebuild of the tables that are there writes what inserting the events one by one had written, errors
  included, when no event is deleted or withheld and none takes its record from elsewhere.\<close>

fun insert_all :: "externals \<Rightarrow> unicode \<Rightarrow> event list \<Rightarrow> search_tables \<Rightarrow> store_error + search_tables" where
  "insert_all X U [] T = Inr T"
| "insert_all X U (e # es) T =
     bind_result (insert_event_search_projection_for_event X U e T) (insert_all X U es)"

definition same_tables :: "bool \<Rightarrow> bool \<Rightarrow> bool \<Rightarrow> search_tables \<Rightarrow> bool" where
  "same_tables a b c T \<longleftrightarrow> (st_search T \<noteq> None) = a \<and> (st_lookup T \<noteq> None) = b \<and> (st_scriptgram T \<noteq> None) = c"

lemma put_tables_same: "tables_of t = T \<Longrightarrow> put_tables T t = t"
  by auto

lemma row_statements_insert:
  assumes "same_tables a b c (tables_of t)" "\<not> event_hidden e"
  shows "apply_all (event_row_statements X U a b c (ev_history_record_id e, e)) t
    = bind_result (insert_event_search_projection_for_event X U e (tables_of t)) (\<lambda>T. Inr (put_tables T t))"
  using assms
  by (cases "st_lookup (tables_of t)"; cases "st_search (tables_of t)"; cases "st_scriptgram (tables_of t)"; cases "tables_of t")
    (auto simp: same_tables_def event_row_statements_def insert_event_search_projection_for_event_def insert_projection_eq
      insert_projection_rows_def Let_def change_tables_put add_search_row_def add_scriptgram_row_def add_lookup_row_def
      put_tables_same)

lemma insert_same_tables:
  "insert_event_search_projection_for_event X U e T = Inr T' \<Longrightarrow> same_tables a b c T' = same_tables a b c T"
  unfolding insert_event_search_projection_for_event_def insert_projection_eq insert_projection_rows_def Let_def same_tables_def
  by (auto split: if_splits option.splits)

theorem rebuild_matches_inserts:
  assumes "same_tables a b c (tables_of t)" "\<forall>e \<in> set events. \<not> event_hidden e"
  shows "apply_all (concat (map (\<lambda>e. event_row_statements X U a b c (ev_history_record_id e, e)) events)) t
    = bind_result (insert_all X U events (tables_of t)) (\<lambda>T. Inr (put_tables T t))"
  using assms
proof (induction events arbitrary: t)
  case (Cons e events)
  show ?case
  proof (cases "insert_event_search_projection_for_event X U e (tables_of t)")
    case (Inl err)
    then show ?thesis using row_statements_insert [OF Cons.prems(1), of e X U] Cons.prems(2) by (simp add: apply_all_append)
  next
    case (Inr T)
    have "same_tables a b c (tables_of (put_tables T t))" using insert_same_tables [OF Inr] Cons.prems(1) by simp
    from Cons.IH [OF this] show ?thesis
      using row_statements_insert [OF Cons.prems(1), of e X U] Cons.prems(2) Inr by (simp add: apply_all_append)
  qed
qed simp

inductive record_step :: "externals \<Rightarrow> unicode \<Rightarrow> history_store \<Rightarrow> history_store \<Rightarrow> bool" for X U where
  insert_one: "insert_record U None r t = (x, t') \<Longrightarrow> record_step X U t t'"
| upsert_one: "upsert_record U None r t = (x, t') \<Longrightarrow> record_step X U t t'"
| upsert_many: "upsert_records U b c None rs t = (x, t') \<Longrightarrow> record_step X U t t'"
| delete_orphan: "delete_orphan_record None i t = (y, t') \<Longrightarrow> record_step X U t t'"
| refresh: "refresh_search_index X U fault t = (Inr x, t') \<Longrightarrow> record_step X U t t'"
| initialise: "ensure_search_projection_initialized X U fault t = (Inr x, t') \<Longrightarrow> record_step X U t t'"

inductive record_history :: "externals \<Rightarrow> unicode \<Rightarrow> history_store \<Rightarrow> bool" for X U where
  fresh: "hs_records t = [] \<Longrightarrow> unwrap_or (hs_record_search t) [] = [] \<Longrightarrow> record_history X U t"
| more_steps: "record_history X U t \<Longrightarrow> record_step X U t t' \<Longrightarrow> record_history X U t'"

lemma record_step_ok: "record_step X U t t' \<Longrightarrow> record_search_ok t \<Longrightarrow> record_search_ok t'"
  by (induction rule: record_step.induct)
    (auto simp: refresh_search_index_def
      intro: insert_record_ok upsert_record_ok upsert_records_ok delete_orphan_ok rebuild_ok ensure_initialized_ok)

lemma record_history_ok: "record_history X U t \<Longrightarrow> record_search_ok t"
proof (induction rule: record_history.induct)
  case (fresh t)
  then show ?case by (cases "hs_record_search t") (simp_all add: record_search_ok_def in_step_but_def)
qed (rule record_step_ok)

section \<open>The claims\<close>

definition demo_record :: history_record where
  "demo_record = \<lparr>hr_id = Uuid [1], hr_title = map char_of [0x61::nat, 0xE6, 0x9D, 0xB1, 0xE4, 0xBA, 0xAC, 0x62], hr_body = [],
     hr_tags = [], hr_kind = ''note'', hr_workspace = None, hr_created_at = 0, hr_updated_at = 0\<rparr>"

definition empty_history :: history_store where
  "empty_history = \<lparr>hs_db = empty_db, hs_records = [], hs_artifacts = [], hs_workspaces = [], hs_changes = [],
     hs_links = [], hs_summaries = [], hs_record_search = Some [], hs_record_scriptgram = Some []\<rparr>"


lemma demo_kinds:
  "run_kind_of demo_unicode 0x6771 = Gram" "run_kind_of demo_unicode 0x4EAC = Gram"
  "\<not> char_is_mark 0x6771" "\<not> char_is_mark 0x4EAC" "\<not> char_is_joiner 0x6771" "\<not> char_is_joiner 0x4EAC"
  "run_kind_of demo_unicode 0x61 = Word" "run_kind_of demo_unicode 0x62 = Word" "uc_alphanumeric demo_unicode 0x61"
  "uc_alphanumeric demo_unicode 0x6771" "uc_alphanumeric demo_unicode 0x4EAC"
  "\<not> is_hangul_jamo 0x6771" "\<not> is_hangul_jamo 0x4EAC" "grammed_char 0x6771" "grammed_char 0x4EAC"
  by (simp_all add: run_kind_of_def char_is_mark_def mark_ranges_def mark_ranges_low_def
    mark_ranges_bmp_def mark_ranges_astral_def char_is_joiner_def
    grammed_char_def is_grammed_def script_from_char_def is_hangul_jamo_def in_ranges_simps demo_unicode_def)

definition tokyo :: string where
  "tokyo = map char_of [0xE6::nat, 0x9D, 0xB1, 0xE4, 0xBA, 0xAC]"

lemma tokyo_cps: "decode_utf8 tokyo = [0x6771, 0x4EAC]"
  by (simp add: decode_utf8_def tokyo_def)

lemma short_text: "length s \<le> n \<Longrightarrow> local_preview s n = s"
  by (rule local_preview_short) (simp add: char_count_def order_trans [OF length_filter_le])

lemma demo_title: "decode_utf8 (hr_title demo_record) = [0x61, 0x6771, 0x4EAC, 0x62]"
  by (simp add: decode_utf8_def demo_record_def)

lemma demo_source: "record_search_scriptgram_source demo_record = hr_title demo_record"
proof -
  have "trim (hr_title demo_record) = hr_title demo_record"
    by (rule trim_graph) (simp_all add: demo_record_def is_graph_def)
  moreover have "hr_title demo_record \<noteq> []" by (simp add: demo_record_def)
  ultimately show ?thesis
    by (simp add: record_search_scriptgram_source_def short_text tags_text_def) (simp add: demo_record_def short_text)
qed

lemma demo_terms: "hd (generated_index_terms demo_unicode [0x61, 0x6771, 0x4EAC, 0x62]) = [0x61]"
  by (simp add: generated_index_terms_def demo_kinds flush_index_run_def)

lemma demo_query: "query_term_clauses demo_unicode [0x6771, 0x4EAC] = [[0x22, 0x6771, 0x4EAC, 0x22]]"
  by (simp add: query_term_clauses_def demo_kinds flush_query_run_def grammed_query_terms_def quoted_fts_term_def
    graphemeish_units_def merge_hangul_jamo_units_def joins_previous_def)


lemma demo_index: "scriptgram_rows_of demo_unicode demo_record \<noteq> []"
proof -
  let ?terms = "generated_index_terms demo_unicode [0x61, 0x6771, 0x4EAC, 0x62]"
  obtain x xs where terms: "?terms = [0x61] # x # xs"
    by (simp add: generated_index_terms_def demo_kinds flush_index_run_def)
  have "contains_grammed_script [0x61, 0x6771, 0x4EAC, 0x62]" by (simp add: contains_grammed_script_def demo_kinds)
  then have "scriptgram_text demo_unicode (hr_title demo_record) \<noteq> []"
    by (simp add: scriptgram_text_def scriptgram_index_text_def demo_title terms encode_utf8_def)
      (simp add: encode_char_def utf8_def)
  then show ?thesis by (simp add: scriptgram_rows_of_def demo_source)
qed

lemma demo_space: "\<not> is_whitespace 0x6771" "\<not> is_whitespace 0x4EAC"
  by (simp_all add: is_whitespace_def)

lemma demo_clause: "scriptgram_match_clauses demo_unicode (decode_utf8 tokyo) = [(0, [0x22, 0x6771, 0x4EAC, 0x22])]"
  by (simp add: demo_space tokyo_cps Let_def scriptgram_match_clauses_def contains_grammed_script_def demo_kinds lexical_query_terms_def
    split_whitespace_def trim_fts_term_def query_term_clause_def demo_query map_filter_def)


text \<open>C37: After any sequence of inserts, upserts one by one or in a batch with failing transactions,
  deletions of orphans, rebuilds and initialisations the search table holds, for every id, exactly the row
  of the record stored under it, and none for an id that is not stored. A transaction may fail; a statement that
  writes the search rows outside one is not refused, and a rebuild or initialisation is one that returns.\<close>

theorem record_search_in_step:
  assumes "record_history X U t" "hs_record_search t = Some rows"
  shows "filter (\<lambda>s. rs_record_id s = i) rows
    = (case row_with row_id i (hs_records t) of None \<Rightarrow> [] | Some r \<Rightarrow> [search_row_of (rr_record r)])"
proof -
  have ok: "distinct (map row_id (hs_records t))"
    "filter (\<lambda>s. rs_record_id s = i) rows = map search_row_of (filter (\<lambda>r. hr_id r = i) (map rr_record (hs_records t)))"
    using record_history_ok [OF assms(1)] assms(2) by (auto simp: record_search_ok_def in_step_but_def)
  show ?thesis
  proof (cases "row_with row_id i (hs_records t)")
    case None
    then have "filter (\<lambda>r. row_id r = i) (hs_records t) = []"
      by (simp add: row_with_def find_None_iff filter_empty_conv)
    then show ?thesis using None ok(2) by (simp add: filter_map comp_def)
  next
    case (Some r)
    then have "r \<in> set (hs_records t)" "row_id r = i" unfolding row_with_def by (auto dest: find_eq_Some_set)
    from only_with_key [OF ok(1) this(1)] this(2) have "filter (\<lambda>r. row_id r = i) (hs_records t) = [r]" by simp
    then show ?thesis using Some ok(2) by (simp add: filter_map comp_def)
  qed
qed

theorem record_search_in_step_witness:
  "\<exists>t. record_history demo_externals demo_unicode t \<and> hs_record_search t = Some [search_row_of demo_record]
     \<and> filter (\<lambda>s. rs_record_id s = Uuid [1]) [search_row_of demo_record] = [search_row_of demo_record]"
proof -
  let ?t = "snd (upsert_record demo_unicode None demo_record empty_history)"
  have "record_history demo_externals demo_unicode empty_history"
    by (rule record_history.fresh) (simp_all add: empty_history_def)
  moreover have step: "record_step demo_externals demo_unicode empty_history ?t"
    by (rule record_step.upsert_one) (rule prod.collapse [symmetric])
  ultimately have history: "record_history demo_externals demo_unicode ?t" by (rule record_history.more_steps)
  have rows: "hs_record_search ?t = Some [search_row_of demo_record]"
    "hs_records ?t = [\<lparr>rr_record = demo_record, rr_source_id = None\<rparr>]"
    by (simp_all add: upsert_record_def projection_calm bind_m_def upsert_record_row_def statement_def with_records_def empty_history_def
      modify_m_def record_projected_def upsert_row_def)
  have "row_with row_id (Uuid [1]) (hs_records ?t) = Some \<lparr>rr_record = demo_record, rr_source_id = None\<rparr>"
    unfolding rows(2) by (simp add: row_with_def demo_record_def)
  then show ?thesis using history rows(1) record_search_in_step [OF history rows(1), of "Uuid [1]"] by auto
qed

lemma ranked_members: "set (ranked_records ms) = (fst \<circ> fst) ` set ms"
  by (auto simp: ranked_records_def best_scores_def Let_def image_iff) force+

lemma collect_missing:
  assumes "i \<in> set ids" "row_with row_id i (hs_records t) = None"
  shows "\<exists>j. collect_rows (\<lambda>i. get_record i t) ids = Inl (NotFound j)"
  using assms(1)
proof (induction ids)
  case (Cons j js)
  show ?case
  proof (cases "row_with row_id j (hs_records t)")
    case None
    then show ?thesis by (simp add: get_record_def)
  next
    case (Some r)
    then have "i \<in> set js" using Cons.prems assms(2) by auto
    from Cons.IH [OF this] show ?thesis using Some by (auto simp: get_record_def)
  qed
qed simp

lemma upsert_record_returned:
  "upsert_record U fault r t = (Inr x, t') \<Longrightarrow> upsert_record U None r t = (Inr x, t')"
  by (auto simp: upsert_record_def bind_m_def upsert_record_search_projection_def when_searchable_def
      split: prod.splits sum.splits if_splits dest!: run_returned intro: run_all)

text \<open>C38: Deleting an orphan record takes its row out of the search table but leaves its grams: as long as
  they are there, every search with a clause that matches them is an error, whatever else it finds.\<close>

theorem deleted_record_breaks_search:
  assumes "upsert_record U None r t = (Inr (), t1)" "delete_orphan_record fault' (hr_id r) t1 = (Inr True, t2)"
    "hs_record_search t = Some rows" "hs_record_scriptgram t \<noteq> None" "scriptgram_rows_of U r \<noteq> []"
    "(k, clause) \<in> set (scriptgram_match_clauses U (decode_utf8 query))"
    "\<And>grams. set (scriptgram_rows_of U r) \<subseteq> set grams \<Longrightarrow>
      hr_id r \<in> fst ` set (fx_record_grams M (encode_utf8 clause) grams)"
    "sint limit < 0 \<or> (\<forall>rows. length (ranked_records (all_matches M U query t2 rows)) \<le> unat limit)"
  shows "\<exists>i. search_records M X U query limit t2 = Inl (NotFound i)"
proof -
  have t1: "hs_record_search t1 \<noteq> None" "\<exists>grams. hs_record_scriptgram t1 = Some (grams @ scriptgram_rows_of U r)"
    using upsert_record_returned [OF assms(1)] assms(3,4)
    by (auto simp: upsert_record_def projection_calm bind_m_def upsert_record_row_def statement_def modify_m_def
        record_projected_def with_records_def)
  obtain rows2 grams where t2: "hs_record_search t2 = Some rows2"
      "hs_record_scriptgram t2 = Some (grams @ scriptgram_rows_of U r)"
      "row_with row_id (hr_id r) (hs_records t2) = None"
    using assms(2)
  proof (cases rule: delete_orphan_cases)
    case 1
    then show ?thesis by simp
  next
    case 2
    show ?thesis using that t1 2(2) by (auto simp: with_records_def row_with_def find_None_iff)
  qed simp
  have clause: "(k, encode_utf8 clause) \<in> set (gram_clauses U t2 query)"
    using assms(6) t2(2) by (force simp: gram_clauses_def)
  have "hr_id r \<in> fst ` set (fx_record_grams M (encode_utf8 clause) (grams @ scriptgram_rows_of U r))"
    using assms(7) by simp
  then have "\<exists>f. ((hr_id r, k), f) \<in> set (gram_matches M t2 k (encode_utf8 clause))"
    unfolding gram_matches_def t2(2) by force
  then have "\<exists>f. ((hr_id r, k), f) \<in> set (all_matches M U query t2 rows2)"
    using clause unfolding all_matches_def by fastforce
  then have "hr_id r \<in> set (ranked_records (all_matches M U query t2 rows2))"
    unfolding ranked_members by force
  moreover have "limited limit 0 (ranked_records (all_matches M U query t2 rows2))
      = ranked_records (all_matches M U query t2 rows2)"
    using assms(8) by (auto simp: limited_def Let_def)
  ultimately obtain i where
    "collect_rows (\<lambda>i. get_record i t2) (limited limit 0 (ranked_records (all_matches M U query t2 rows2))) = Inl (NotFound i)"
    using collect_missing [OF _ t2(3)] by metis
  moreover have "gram_clauses U t2 query \<noteq> []" using clause by auto
  moreover have "scriptgram_match_query U (decode_utf8 query) \<noteq> None"
    using assms(6) by (auto simp: scriptgram_match_query_def Let_def)
  ultimately show ?thesis
    using t2(1) by (auto simp: search_records_def search_records_page_def search_records_fts_def)
qed

definition demo_full_text :: "int full_text" where
  "demo_full_text = \<lparr>fx_records = (\<lambda>_ _. []), fx_events = (\<lambda>_ _. []),
     fx_record_grams = (\<lambda>_ grams. map (\<lambda>(i, _). (i, 0)) grams), fx_event_grams = (\<lambda>_ _. []), fx_bias = (\<lambda>x. x)\<rparr>"

theorem deleted_record_breaks_search_witness:
  "\<exists>t1 t2 i. upsert_record demo_unicode None demo_record empty_history = (Inr (), t1)
     \<and> delete_orphan_record None (hr_id demo_record) t1 = (Inr True, t2)
     \<and> search_records demo_full_text demo_externals demo_unicode tokyo (-1) t2 = Inl (NotFound i)"
proof -
  obtain t1 where t1: "upsert_record demo_unicode None demo_record empty_history = (Inr (), t1)"
    by (simp add: upsert_record_def projection_calm bind_m_def upsert_record_row_def statement_def modify_m_def)
  then have "t1 = record_projected demo_unicode demo_record
      (with_records [\<lparr>rr_record = demo_record, rr_source_id = None\<rparr>] empty_history)"
    by (simp add: upsert_record_def projection_calm bind_m_def upsert_record_row_def statement_def modify_m_def upsert_row_def
      empty_history_def with_records_def)
  then have "\<exists>t2. delete_orphan_record None (hr_id demo_record) t1 = (Inr True, t2)"
    by (simp add: delete_orphan_record_def delete_orphan_row_def bind_m_def return_m_def when_searchable_def change_search_rows_def
      statement_def guard_sql_def orphan_record_def with_records_def empty_history_def
      record_projected_def empty_db_def lookup_rows_def empty_projection_def)
  then obtain t2 where t2: "delete_orphan_record None (hr_id demo_record) t1 = (Inr True, t2)" by blast
  have "\<exists>i. search_records demo_full_text demo_externals demo_unicode tokyo (-1) t2 = Inl (NotFound i)"
  proof (rule deleted_record_breaks_search [OF t1 t2 _ _ demo_index])
    show "hs_record_search empty_history = Some []" "hs_record_scriptgram empty_history \<noteq> None"
      by (simp_all add: empty_history_def)
    show "(0, [0x22, 0x6771, 0x4EAC, 0x22]) \<in> set (scriptgram_match_clauses demo_unicode (decode_utf8 tokyo))"
      by (simp add: demo_clause)
    show "hr_id demo_record \<in> fst ` set (fx_record_grams demo_full_text (encode_utf8 [0x22, 0x6771, 0x4EAC, 0x22]) grams)"
      if "set (scriptgram_rows_of demo_unicode demo_record) \<subseteq> set grams" for grams
    proof -
      obtain tokens where "scriptgram_rows_of demo_unicode demo_record = [(hr_id demo_record, tokens)]"
        using demo_index by (auto simp: scriptgram_rows_of_def Let_def split: if_splits)
      then have "(hr_id demo_record, tokens) \<in> set grams" using that by simp
      then show ?thesis by (force simp: demo_full_text_def)
    qed
    show "sint (- 1 :: u64) < 0 \<or>
      (\<forall>rows. length (ranked_records (all_matches demo_full_text demo_unicode tokyo t2 rows)) \<le> unat (- 1 :: u64))"
      by simp
  qed
  then show ?thesis using t1 t2 by blast
qed

definition deleted_event :: event where
  "deleted_event =
     demo_event\<lparr>ev_event_type := EventType_Message, ev_role := Some EventRole_User,
       ev_sync := default_sync_metadata\<lparr>sm_deleted_at := Some 5\<rparr>\<rparr>"

definition deleted_history :: history_store where
  "deleted_history = empty_history\<lparr>hs_db := empty_db\<lparr>db_events := [deleted_event]\<rparr>\<rparr>"

lemma deleted_preview: "event_preview demo_externals deleted_event = ''hi''" "trim ''hi'' = ''hi''"
proof -
  show t: "trim ''hi'' = ''hi''" by (rule trim_graph) (simp_all add: is_graph_def)
  show "event_preview demo_externals deleted_event = ''hi''"
    by (simp add: deleted_event_def demo_event_def event_search_preview_from_payload_def event_role_is_searchable_conversation_def
        event_payload_text_preview_def event_text_value_preview_def non_blank_def t Let_def is_continuation_def)
qed

text \<open>C27: A rebuild of the search index brings deleted events back. The upsert of a deleted event removes its
  rows from every search table; the query of \<open>rebuild_search_projection\<close> selects every stored event, deleted
  or not, so the rebuild succeeds and \<open>event_search\<close> holds the row of the event again when its preview is not
  blank.\<close>

theorem rebuild_indexes_deleted:
  assumes "e \<in> set (db_events (hs_db t))" "sm_deleted_at (ev_sync e) = Some deleted" "trim (event_preview X e) \<noteq> []"
    "distinct (event_ids (hs_db t))" "hs_record_search t \<noteq> None" "st_search (tables_of t) \<noteq> None"
  shows "(\<exists>T rows. upsert_event_search_projection_for_event X U (ev_id e) e (tables_of t) = Inr T
        \<and> st_search T = Some rows \<and> ev_id e \<notin> sr_event_id ` set rows)
    \<and> (\<exists>t' rows. refresh_search_index X U None t = (Inr (), t') \<and> st_search (tables_of t') = Some rows
        \<and> preview_row (ev_id e) (resolved_history_record (hs_db t) e) e (event_preview X e) \<in> set rows)"
proof
  have hidden: "event_hidden e" using assms(2) by (simp add: event_hidden_def)
  show "\<exists>T rows. upsert_event_search_projection_for_event X U (ev_id e) e (tables_of t) = Inr T
      \<and> st_search T = Some rows \<and> ev_id e \<notin> sr_event_id ` set rows"
    using assms(6) hidden by (auto simp: upsert_projection_eq delete_event_rows_def)
  from rebuild_succeeds [OF assms(4,5), of X U] assms(6) obtain T where T:
    "apply_all (rebuild_statements X U t) t = Inr (put_tables T (record_rows_rebuilt U t))"
    "st_search T = Some (concat (map (event_search_rows X) (projection_order (hs_db t))))" by blast
  have "(resolved_history_record (hs_db t) e, e) \<in> set (projection_order (hs_db t))"
    using assms(1) by (auto simp: projection_order_def)
  then have "preview_row (ev_id e) (resolved_history_record (hs_db t) e) e (event_preview X e)
      \<in> set (concat (map (event_search_rows X) (projection_order (hs_db t))))"
    using assms(3) by (force simp: event_search_rows_def)
  moreover have "refresh_search_index X U None t = (Inr (), put_tables T (record_rows_rebuilt U t))"
    using assms(5) run_all [OF T(1)] by (auto simp: refresh_search_index_def rebuild_search_projection_def when_searchable_def)
  ultimately show "\<exists>t' rows. refresh_search_index X U None t = (Inr (), t') \<and> st_search (tables_of t') = Some rows
      \<and> preview_row (ev_id e) (resolved_history_record (hs_db t) e) e (event_preview X e) \<in> set rows"
    using T(2) by (intro exI conjI) (assumption, simp, assumption)
qed

theorem rebuild_indexes_deleted_witness:
  "\<exists>t' rows. refresh_search_index demo_externals demo_unicode None deleted_history = (Inr (), t')
    \<and> st_search (tables_of t') = Some rows \<and> ev_id deleted_event \<in> sr_event_id ` set rows"
proof -
  have e: "deleted_event \<in> set (db_events (hs_db deleted_history))" "sm_deleted_at (ev_sync deleted_event) = Some 5"
    "distinct (event_ids (hs_db deleted_history))" "hs_record_search deleted_history \<noteq> None"
    "st_search (tables_of deleted_history) \<noteq> None"
    by (simp_all add: deleted_history_def deleted_event_def empty_history_def empty_db_def empty_projection_def)
  have "trim (event_preview demo_externals deleted_event) \<noteq> []" by (simp add: deleted_preview)
  from rebuild_indexes_deleted [OF e(1,2) this e(3-5), of demo_unicode] show ?thesis
    by (metis imageI sr_event_id_preview_row)
qed

end
