(* ===== verification/Archive_Import.thy ===== *)
theory Archive_Import
  imports Record_Search
begin

text \<open>
  Import and export of archives (\<open>archive/mod.rs\<close>, \<open>archive/conflicts.rs\<close>, \<open>archive/import.rs\<close> of
  \<open>ctx-history-store\<close>; \<open>SessionHistoryArchive\<close> of \<open>ctx-history-core\<close>). An import checks the archive
  against itself, then, in one transaction, against the store, and writes every entity; the search
  tables are rebuilt afterwards.
\<close>

record archive =
  sa_schema_version :: u32
  sa_version :: u32
  sa_records :: "history_record list"
  sa_capture_sources :: "capture_source list"
  sa_sessions :: "session list"
  sa_runs :: "run list"
  sa_events :: "event list"
  sa_artifact_records :: "artifact list"
  sa_vcs_workspaces :: "vcs_workspace list"
  sa_vcs_changes :: "vcs_change list"
  sa_history_record_links :: "history_record_link list"
  sa_summaries :: "summary list"
  sa_files_touched :: "file_touched list"

definition default_archive :: archive where
  "default_archive =
     \<lparr>sa_schema_version = 2, sa_version = 2, sa_records = [], sa_capture_sources = [], sa_sessions = [],
      sa_runs = [], sa_events = [], sa_artifact_records = [], sa_vcs_workspaces = [], sa_vcs_changes = [],
      sa_history_record_links = [], sa_summaries = [], sa_files_touched = []\<rparr>"

section \<open>Export\<close>

definition export_archive :: "history_store \<Rightarrow> store_error + archive" where
  "export_archive t =
     (let d = hs_db t
      in bind_result (list_capture_sources d) (\<lambda>sources.
         bind_result (list_sessions d) (\<lambda>sessions.
         bind_result (list_runs d) (\<lambda>runs.
         bind_result (list_events d) (\<lambda>events.
         bind_result (list_artifacts t) (\<lambda>artifacts.
         bind_result (list_vcs_workspaces t) (\<lambda>workspaces.
         bind_result (list_vcs_changes t) (\<lambda>changes.
         bind_result (list_history_record_links t) (\<lambda>links.
         bind_result (list_summaries t) (\<lambda>summaries.
         bind_result (list_files_touched d) (\<lambda>files.
           Inr \<lparr>sa_schema_version = 2, sa_version = 2, sa_records = list_records (-1) t,
             sa_capture_sources = sources, sa_sessions = sessions, sa_runs = runs, sa_events = events,
             sa_artifact_records = artifacts, sa_vcs_workspaces = workspaces, sa_vcs_changes = changes,
             sa_history_record_links = links, sa_summaries = summaries, sa_files_touched = files\<rparr>)))))))))))"

section \<open>Checks of the archive alone\<close>

definition validate_archive_version :: "archive \<Rightarrow> store_error + unit" where
  "validate_archive_version a =
     (if (sa_schema_version a, sa_version a) \<in> {(1, 1), (2, 2)} then Inr ()
      else Inl (UnsupportedArchiveVersion (max (sa_schema_version a) (sa_version a))))"

definition legacy_archive :: "archive \<Rightarrow> bool" where
  "legacy_archive a \<longleftrightarrow> sa_schema_version a < 2 \<and> sa_version a < 2"

text \<open>The first error of a list of checks.\<close>

fun check_all :: "('x \<Rightarrow> 'e + unit) \<Rightarrow> 'x list \<Rightarrow> 'e + unit" where
  "check_all f [] = Inr ()"
| "check_all f (x # xs) = bind_result (f x) (\<lambda>_. check_all f xs)"

text \<open>The maps \<open>seen_seq\<close> and \<open>seen_provider_events\<close> are association lists, the newest entry first.\<close>

type_synonym provider_event_identity = "string \<times> string \<times> string option \<times> u64"

definition event_identity :: "parsed_key \<Rightarrow> provider_event_identity" where
  "event_identity p = (pk_provider p, pk_external_session_id p, pk_source_id p, pk_provider_index p)"

definition seen_hash ::
    "(provider_event_identity \<times> string) list \<Rightarrow> parsed_key \<Rightarrow> store_error + (provider_event_identity \<times> string) list" where
  "seen_hash seen p =
     (case map_of seen (event_identity p) of
        None \<Rightarrow> Inr ((event_identity p, pk_payload_hash p) # seen)
      | Some h \<Rightarrow>
          if h = pk_payload_hash p then Inr seen
          else Inl (ProviderEventConflict (pk_provider p) (pk_external_session_id p) (pk_provider_index p) h
                 (pk_payload_hash p)))"

fun internal_conflicts ::
    "(u64 \<times> event) list \<Rightarrow> (provider_event_identity \<times> string) list \<Rightarrow> event list \<Rightarrow> store_error + unit" where
  "internal_conflicts seqs keys [] = Inr ()"
| "internal_conflicts seqs keys (e # es) =
     (if map_of seqs (ev_seq e) \<noteq> None \<and> map_of seqs (ev_seq e) \<noteq> Some e
      then Inl (ImportConflict ''event'' (ev_id e))
      else bind_result
        (case Option.bind (ev_dedupe_key e) parse_provider_event_dedupe_key of
           None \<Rightarrow> Inr keys
         | Some p \<Rightarrow> seen_hash keys p) (\<lambda>keys.
        internal_conflicts ((ev_seq e, e) # seqs) keys es))"

definition reject_archive_event_internal_conflicts :: "archive \<Rightarrow> store_error + unit" where
  "reject_archive_event_internal_conflicts a = internal_conflicts [] [] (sa_events a)"

section \<open>Blobs of artifacts\<close>

text \<open>The object directory: the file of a hash by its path, whether something is there, whether it is a
  regular file, its content; and SHA-256 as hexadecimal text.\<close>

record blob_dir =
  bd_path :: "string \<Rightarrow> string"
  bd_exists :: "string \<Rightarrow> bool"
  bd_regular :: "string \<Rightarrow> store_error + bool"
  bd_read :: "string \<Rightarrow> store_error + string"
  bd_sha256 :: "string \<Rightarrow> string"

definition object_relative_path :: "string \<Rightarrow> string" where
  "object_relative_path h = ''objects/'' @ take 2 h @ ''/'' @ h"

definition legacy_relative_path :: "string \<Rightarrow> string" where
  "legacy_relative_path h = ''blobs/'' @ take 2 h @ ''/'' @ h"

text \<open>\<open>str::get(..2)\<close>: two bytes, and a character ends there.\<close>

definition has_shard :: "string \<Rightarrow> bool" where
  "has_shard h \<longleftrightarrow> 2 \<le> length h \<and> (length h = 2 \<or> \<not> is_continuation (h ! 2))"

definition expected_archive_blob_path :: "uuid \<Rightarrow> string \<Rightarrow> store_error + string" where
  "expected_archive_blob_path i h =
     (if has_shard h then Inr (object_relative_path h) else Inl (ArchiveArtifactPathMismatch i))"

definition ensure_regular_blob_file :: "blob_dir \<Rightarrow> uuid \<Rightarrow> string \<Rightarrow> store_error + unit" where
  "ensure_regular_blob_file B i h =
     bind_result (bd_regular B h) (\<lambda>regular.
       if regular then Inr () else Inl (ArchiveArtifactNonRegularFile i (bd_path B h)))"

definition validate_archive_artifact_record_blob :: "blob_dir \<Rightarrow> artifact \<Rightarrow> store_error + unit" where
  "validate_archive_artifact_record_blob B a =
     (let h = ar_blob_hash a; i = ar_id a
      in bind_result (expected_archive_blob_path i h) (\<lambda>expected.
         if ar_blob_path a \<noteq> expected \<and> ar_blob_path a \<noteq> legacy_relative_path h
         then Inl (ArchiveArtifactPathMismatch i)
         else if \<not> bd_exists B h then Inl (ArchiveArtifactMissingContent i)
         else bind_result (ensure_regular_blob_file B i h) (\<lambda>_.
              bind_result (bd_read B h) (\<lambda>content.
                if bd_sha256 B content \<noteq> h then Inl (ArchiveArtifactHashMismatch i)
                else if of_nat (length content) \<noteq> ar_byte_size a then Inl (ArchiveArtifactSizeMismatch i)
                else Inr ()))))"

definition validate_archive_artifact_record_blobs :: "blob_dir \<Rightarrow> archive \<Rightarrow> store_error + unit" where
  "validate_archive_artifact_record_blobs B a =
     check_all (validate_archive_artifact_record_blob B) (sa_artifact_records a)"

section \<open>Checks against the store\<close>

definition reject_import_invariant_conflicts :: "archive \<Rightarrow> db \<Rightarrow> store_error + unit" where
  "reject_import_invariant_conflicts a d =
     (if legacy_archive a then Inr ()
      else check_all (\<lambda>e. case ev_dedupe_key e of
               None \<Rightarrow> Inr ()
             | Some k \<Rightarrow> reject_provider_event_hash_conflict (dedupe_keys d) k) (sa_events a))"

text \<open>\<open>reject_entity_conflict\<close> on the row a query found, read with \<open>from_row\<close>.\<close>

definition reject_entity_conflict :: "'a option \<Rightarrow> 'a \<Rightarrow> string \<Rightarrow> uuid \<Rightarrow> store_error + unit" where
  "reject_entity_conflict existing incoming kind i =
     (case existing of
        None \<Rightarrow> Inr ()
      | Some x \<Rightarrow> if x \<noteq> incoming then Inl (ImportConflict kind i) else Inr ())"

definition read_row :: "('r \<Rightarrow> store_error + 'a) \<Rightarrow> 'r option \<Rightarrow> store_error + 'a option" where
  "read_row from_row r =
     (case r of None \<Rightarrow> Inr None | Some r \<Rightarrow> bind_result (from_row r) (\<lambda>x. Inr (Some x)))"

definition no_conflict :: "('r \<Rightarrow> store_error + 'a) \<Rightarrow> 'r option \<Rightarrow> 'a \<Rightarrow> string \<Rightarrow> uuid \<Rightarrow> store_error + unit" where
  "no_conflict from_row r incoming kind i =
     bind_result (read_row from_row r) (\<lambda>existing. reject_entity_conflict existing incoming kind i)"

definition existing_capture_source_by_id :: "uuid \<Rightarrow> db \<Rightarrow> store_error + capture_source option" where
  "existing_capture_source_by_id i d = read_row capture_source_from_row (row_with cs_id i (db_sources d))"

definition existing_session_by_external_session ::
    "capture_provider \<Rightarrow> string \<Rightarrow> db \<Rightarrow> store_error + session list" where
  "existing_session_by_external_session provider ext d =
     collect_rows session_from_row
       (latest_first se_started_at
         (filter (\<lambda>s. se_provider s = provider \<and> se_external_session_id s = Some ext) (db_sessions d)))"

text \<open>The map of the archive's sources: the last one of an id.\<close>

definition archive_source :: "archive \<Rightarrow> uuid \<Rightarrow> capture_source option" where
  "archive_source a i = map_of (rev (map (\<lambda>s. (cs_id s, s)) (sa_capture_sources a))) i"

definition session_source :: "archive \<Rightarrow> uuid option \<Rightarrow> db \<Rightarrow> store_error + capture_source option" where
  "session_source a source_id d =
     (case source_id of
        None \<Rightarrow> Inr None
      | Some i \<Rightarrow>
          (case archive_source a i of
             Some s \<Rightarrow> Inr (Some s)
           | None \<Rightarrow> existing_capture_source_by_id i d))"

definition capture_sources_share_identity :: "capture_source \<Rightarrow> capture_source \<Rightarrow> bool" where
  "capture_sources_share_identity left right \<longleftrightarrow>
     (let l = cs_descriptor left; r = cs_descriptor right
      in csd_provider l = csd_provider r \<and> csd_source_format l = csd_source_format r
         \<and> (csd_source_identity l \<noteq> None \<and> csd_source_identity l = csd_source_identity r
            \<or> (case (csd_raw_source_path l, csd_raw_source_path r) of
                 (Some p, Some q) \<Rightarrow> p = q
               | _ \<Rightarrow> csd_source_root l \<noteq> None \<and> csd_source_root l = csd_source_root r)))"

definition sessions_share_external_source ::
    "capture_source option \<Rightarrow> session \<Rightarrow> session \<Rightarrow> db \<Rightarrow> store_error + bool" where
  "sessions_share_external_source incoming_source incoming existing d =
     (case (se_capture_source_id incoming, se_capture_source_id existing, incoming_source) of
        (Some i, Some j, Some s) \<Rightarrow>
          if i = j then Inr True
          else bind_result (existing_capture_source_by_id j d) (\<lambda>found.
            case found of
              None \<Rightarrow> Inr True
            | Some r \<Rightarrow> Inr (capture_sources_share_identity s r))
      | _ \<Rightarrow> Inr True)"

fun first_sharing ::
    "capture_source option \<Rightarrow> session \<Rightarrow> db \<Rightarrow> session list \<Rightarrow> store_error + session option" where
  "first_sharing src incoming d [] = Inr None"
| "first_sharing src incoming d (x # xs) =
     bind_result (sessions_share_external_source src incoming x d) (\<lambda>share.
       if share then Inr (Some x) else first_sharing src incoming d xs)"

definition existing_source_scoped_session_by_external_session ::
    "archive \<Rightarrow> session \<Rightarrow> db \<Rightarrow> store_error + session option" where
  "existing_source_scoped_session_by_external_session a s d =
     (case se_external_session_id s of
        None \<Rightarrow> Inr None
      | Some ext \<Rightarrow>
          bind_result (session_source a (se_capture_source_id s) d) (\<lambda>src.
          bind_result (existing_session_by_external_session (se_provider s) ext d) (\<lambda>xs.
            first_sharing src s d xs)))"

definition source_conflict :: "history_store \<Rightarrow> capture_source \<Rightarrow> store_error + unit" where
  "source_conflict t s =
     no_conflict capture_source_from_row (row_with cs_id (cs_id s) (db_sources (hs_db t))) s ''capture_source'' (cs_id s)"

definition workspace_conflict :: "history_store \<Rightarrow> vcs_workspace \<Rightarrow> store_error + unit" where
  "workspace_conflict t w =
     bind_result (no_conflict workspace_from_row (row_with vw_id (vw_id w) (hs_workspaces t)) w ''vcs_workspace'' (vw_id w))
       (\<lambda>_. no_conflict workspace_from_row (row_with workspace_key (workspace_key w) (hs_workspaces t)) w
              ''vcs_workspace'' (vw_id w))"

definition artifact_conflict :: "history_store \<Rightarrow> artifact \<Rightarrow> store_error + unit" where
  "artifact_conflict t a =
     bind_result (no_conflict artifact_from_row (row_with ar_id (ar_id a) (hs_artifacts t)) a ''artifact'' (ar_id a))
       (\<lambda>_. no_conflict artifact_from_row (row_with artifact_key (artifact_key a) (hs_artifacts t)) a
              ''artifact'' (ar_id a))"

definition session_conflict :: "archive \<Rightarrow> history_store \<Rightarrow> session \<Rightarrow> store_error + unit" where
  "session_conflict a t s =
     bind_result (no_conflict session_from_row (row_with se_id (se_id s) (db_sessions (hs_db t))) s ''session'' (se_id s))
       (\<lambda>_. bind_result (existing_source_scoped_session_by_external_session a s (hs_db t))
         (\<lambda>existing. reject_entity_conflict existing s ''session'' (se_id s)))"

definition run_conflict :: "history_store \<Rightarrow> run \<Rightarrow> store_error + unit" where
  "run_conflict t r = no_conflict run_from_row (row_with rn_id (rn_id r) (db_runs (hs_db t))) r ''run'' (rn_id r)"

definition event_conflict :: "history_store \<Rightarrow> event \<Rightarrow> store_error + unit" where
  "event_conflict t e =
     (let d = hs_db t
      in bind_result (no_conflict event_from_row (row_with ev_id (ev_id e) (db_events d)) e ''event'' (ev_id e)) (\<lambda>_.
         bind_result (no_conflict event_from_row (row_with ev_seq (ev_seq e) (db_events d)) e ''event'' (ev_id e)) (\<lambda>_.
           case ev_dedupe_key e of
             None \<Rightarrow> Inr ()
           | Some k \<Rightarrow>
               bind_result (reject_provider_event_hash_conflict (dedupe_keys d) k) (\<lambda>_.
                 no_conflict event_from_row (event_with_dedupe_key k d) e ''event'' (ev_id e)))))"

definition change_conflict :: "history_store \<Rightarrow> vcs_change \<Rightarrow> store_error + unit" where
  "change_conflict t c =
     bind_result (no_conflict change_from_row (row_with vg_id (vg_id c) (hs_changes t)) c ''vcs_change'' (vg_id c))
       (\<lambda>_. no_conflict change_from_row (row_with change_key (change_key c) (hs_changes t)) c ''vcs_change'' (vg_id c))"

definition summary_conflict :: "history_store \<Rightarrow> summary \<Rightarrow> store_error + unit" where
  "summary_conflict t s =
     no_conflict summary_from_row (row_with su_id (su_id s) (hs_summaries t)) s ''summary'' (su_id s)"

definition file_conflict :: "history_store \<Rightarrow> file_touched \<Rightarrow> store_error + unit" where
  "file_conflict t f =
     no_conflict file_touched_from_row (row_with ft_id (ft_id f) (db_files (hs_db t))) f ''file_touched'' (ft_id f)"

definition link_conflict :: "history_store \<Rightarrow> history_record_link \<Rightarrow> store_error + unit" where
  "link_conflict t l =
     bind_result (no_conflict link_from_row (row_with hl_id (hl_id l) (hs_links t)) l ''history_record_link'' (hl_id l))
       (\<lambda>_. no_conflict link_from_row (row_with link_key (link_key l) (hs_links t)) l ''history_record_link'' (hl_id l))"

definition reject_rich_import_conflicts :: "archive \<Rightarrow> history_store \<Rightarrow> store_error + unit" where
  "reject_rich_import_conflicts a t =
     (if legacy_archive a then Inr ()
      else
        bind_result (check_all (source_conflict t) (sa_capture_sources a)) (\<lambda>_.
        bind_result (check_all (workspace_conflict t) (sa_vcs_workspaces a)) (\<lambda>_.
        bind_result (check_all (artifact_conflict t) (sa_artifact_records a)) (\<lambda>_.
        bind_result (check_all (session_conflict a t) (sa_sessions a)) (\<lambda>_.
        bind_result (check_all (run_conflict t) (sa_runs a)) (\<lambda>_.
        bind_result (check_all (event_conflict t) (sa_events a)) (\<lambda>_.
        bind_result (check_all (change_conflict t) (sa_vcs_changes a)) (\<lambda>_.
        bind_result (check_all (summary_conflict t) (sa_summaries a)) (\<lambda>_.
        bind_result (check_all (file_conflict t) (sa_files_touched a)) (\<lambda>_.
        check_all (link_conflict t) (sa_history_record_links a)))))))))))"

definition record_conflict :: "history_store \<Rightarrow> history_record \<Rightarrow> store_error + unit" where
  "record_conflict t r =
     (if row_with row_id (hr_id r) (hs_records t) \<noteq> None then Inl (ImportConflict ''record'' (hr_id r)) else Inr ())"

definition reject_import_conflicts :: "archive \<Rightarrow> history_store \<Rightarrow> store_error + unit" where
  "reject_import_conflicts a t =
     bind_result (check_all (record_conflict t) (sa_records a)) (\<lambda>_. reject_rich_import_conflicts a t)"

definition reject_capture_source_import_conflict :: "uuid \<Rightarrow> db \<Rightarrow> store_error + unit" where
  "reject_capture_source_import_conflict i d =
     (if row_with cs_id i (db_sources d) \<noteq> None then Inl (ImportConflict ''capture_source'' i) else Inr ())"

section \<open>Import\<close>

definition captured_source ::
    "uuid \<Rightarrow> capture_source_descriptor \<Rightarrow> datetime \<Rightarrow> fidelity \<Rightarrow> capture_source" where
  "captured_source i descriptor occurred_at fidelity =
     \<lparr>cs_id = i, cs_descriptor = descriptor, cs_started_at = stored_time occurred_at, cs_ended_at = None,
      cs_sync = \<lparr>sm_visibility = Visibility_LocalOnly, sm_fidelity = fidelity, sm_sync_state = SyncState_LocalOnly,
        sm_sync_version = 0, sm_deleted_at = None, sm_metadata = JObj []\<rparr>\<rparr>"

definition merge_captured_source :: "capture_source \<Rightarrow> capture_source \<Rightarrow> capture_source" where
  "merge_captured_source old new =
     old\<lparr>cs_descriptor := cs_descriptor new, cs_started_at := cs_started_at new,
         cs_sync := (cs_sync old)\<lparr>sm_fidelity := sm_fidelity (cs_sync new)\<rparr>\<rparr>"

interpretation captured_sources: keyed_rows cs_id merge_captured_source
  by unfold_locales (simp add: merge_captured_source_def)

definition upsert_capture_source_tx ::
    "uuid \<Rightarrow> capture_source_descriptor \<Rightarrow> datetime \<Rightarrow> fidelity \<Rightarrow> unit store_action" where
  "upsert_capture_source_tx i descriptor occurred_at fidelity =
     db_write (\<lambda>d. Inr (d\<lparr>db_sources :=
       upsert_row cs_id merge_captured_source (captured_source i descriptor occurred_at fidelity) (db_sources d)\<rparr>))"

definition upsert_record_tx :: "uuid option \<Rightarrow> history_record \<Rightarrow> unit store_action" where
  "upsert_record_tx source_id r =
     statement (\<lambda>t.
       guard_sql (references source_id (source_ids (hs_db t))) ''FOREIGN KEY''
         (Inr ((), with_records
           (upsert_row row_id replace_record \<lparr>rr_record = r, rr_source_id = source_id\<rparr> (hs_records t)) t)))"

definition known_event_id :: "event \<Rightarrow> db \<Rightarrow> uuid" where
  "known_event_id e d =
     (case Option.bind (ev_dedupe_key e) (\<lambda>k. event_with_dedupe_key k d) of
        Some existing \<Rightarrow> ev_id existing
      | None \<Rightarrow> ev_id e)"

definition upsert_event_tx :: "event \<Rightarrow> db \<Rightarrow> store_error + db" where
  "upsert_event_tx e d =
     (let new = stored_event (e\<lparr>ev_id := known_event_id e d\<rparr>);
          d1 = d\<lparr>db_events := upsert_row ev_id replace_event new (db_events d)\<rparr>
      in guard_sql (sync_check (ev_sync new)) ''CHECK''
        (guard_sql (\<not> event_unique_conflict d new) ''UNIQUE''
          (guard_sql (event_refs_ok d1 new) ''FOREIGN KEY'' (Inr d1))))"

text \<open>The other functions of \<open>import.rs\<close> repeat, on the transaction, the statement and the parameters of
  the store's own upserts, column by column.\<close>

definition upsert_imported_capture_source_tx :: "capture_source \<Rightarrow> unit store_action" where
  "upsert_imported_capture_source_tx s = db_write (upsert_capture_source s)"

definition upsert_session_tx :: "session \<Rightarrow> unit store_action" where
  "upsert_session_tx s = db_write (upsert_session s)"

definition upsert_run_tx :: "run \<Rightarrow> unit store_action" where
  "upsert_run_tx r = db_write (upsert_run r)"

definition upsert_vcs_workspace_tx :: "vcs_workspace \<Rightarrow> uuid store_action" where
  "upsert_vcs_workspace_tx w = upsert_vcs_workspace w"

definition upsert_artifact_tx :: "artifact \<Rightarrow> uuid store_action" where
  "upsert_artifact_tx x = upsert_artifact x"

definition upsert_vcs_change_tx :: "vcs_change \<Rightarrow> uuid store_action" where
  "upsert_vcs_change_tx c = upsert_vcs_change c"

definition upsert_summary_tx :: "summary \<Rightarrow> unit store_action" where
  "upsert_summary_tx s = upsert_summary s"

definition upsert_file_touched_tx :: "file_touched \<Rightarrow> unit store_action" where
  "upsert_file_touched_tx f = db_write (upsert_file_touched f)"

definition upsert_history_record_link_tx :: "history_record_link \<Rightarrow> uuid store_action" where
  "upsert_history_record_link_tx l = upsert_history_record_link l"

lemmas entity_statements = upsert_imported_capture_source_tx_def upsert_session_tx_def upsert_run_tx_def upsert_vcs_workspace_tx_def upsert_artifact_tx_def
  upsert_vcs_change_tx_def upsert_summary_tx_def upsert_file_touched_tx_def upsert_history_record_link_tx_def

definition drop_result :: "'a store_action \<Rightarrow> unit store_action" where
  "drop_result m = bind_m m (\<lambda>_. return_m ())"

definition import_rich_archive_entities_tx :: "blob_dir \<Rightarrow> archive \<Rightarrow> unit store_action" where
  "import_rich_archive_entities_tx B a =
     (if legacy_archive a then return_m ()
      else
        bind_m (of_result (validate_archive_artifact_record_blobs B a)) (\<lambda>_.
        bind_m (for_each upsert_imported_capture_source_tx (sa_capture_sources a)) (\<lambda>_.
        bind_m (for_each (\<lambda>w. drop_result (upsert_vcs_workspace_tx w)) (sa_vcs_workspaces a)) (\<lambda>_.
        bind_m (for_each (\<lambda>x. drop_result (upsert_artifact_tx x)) (sa_artifact_records a)) (\<lambda>_.
        bind_m (for_each upsert_session_tx (sa_sessions a)) (\<lambda>_.
        bind_m (for_each upsert_run_tx (sa_runs a)) (\<lambda>_.
        bind_m (for_each (\<lambda>e. db_write (upsert_event_tx e)) (sa_events a)) (\<lambda>_.
        bind_m (for_each (\<lambda>c. drop_result (upsert_vcs_change_tx c)) (sa_vcs_changes a)) (\<lambda>_.
        bind_m (for_each upsert_summary_tx (sa_summaries a)) (\<lambda>_.
        bind_m (for_each upsert_file_touched_tx (sa_files_touched a)) (\<lambda>_.
        for_each (\<lambda>l. drop_result (upsert_history_record_link_tx l)) (sa_history_record_links a))))))))))))"

text \<open>Both imports rebuild the search tables after the commit, outside the transaction: \<open>fault\<close> is the statement
  of the rebuild that the database refuses, if any.\<close>

definition import_archive ::
    "externals \<Rightarrow> unicode \<Rightarrow> blob_dir \<Rightarrow> store_error option \<Rightarrow> store_error option \<Rightarrow> statement_fault \<Rightarrow> archive \<Rightarrow> bool
     \<Rightarrow> unit store_action" where
  "import_archive X U B begin_error commit_error fault a overwrite =
     bind_m (of_result (validate_archive_version a)) (\<lambda>_.
     bind_m (of_result (reject_archive_event_internal_conflicts a)) (\<lambda>_.
     bind_m (in_transaction begin_error commit_error (
       bind_m (read_m (\<lambda>t. reject_import_invariant_conflicts a (hs_db t))) (\<lambda>_.
       bind_m (if overwrite then return_m () else read_m (reject_import_conflicts a)) (\<lambda>_.
       bind_m (for_each (upsert_record_tx None) (sa_records a)) (\<lambda>_.
         import_rich_archive_entities_tx B a))))) (\<lambda>_.
     rebuild_search_projection X U fault)))"

definition import_archive_from_capture_source ::
    "externals \<Rightarrow> unicode \<Rightarrow> blob_dir \<Rightarrow> store_error option \<Rightarrow> store_error option \<Rightarrow> statement_fault \<Rightarrow> archive \<Rightarrow> uuid
     \<Rightarrow> capture_source_descriptor \<Rightarrow> datetime \<Rightarrow> fidelity \<Rightarrow> bool \<Rightarrow> unit store_action" where
  "import_archive_from_capture_source X U B begin_error commit_error fault a source_id source occurred_at fidelity overwrite =
     bind_m (of_result (validate_archive_version a)) (\<lambda>_.
     bind_m (of_result (reject_archive_event_internal_conflicts a)) (\<lambda>_.
     bind_m (in_transaction begin_error commit_error (
       bind_m (read_m (\<lambda>t. reject_import_invariant_conflicts a (hs_db t))) (\<lambda>_.
       bind_m (if overwrite then return_m () else read_m (\<lambda>t.
           bind_result (reject_capture_source_import_conflict source_id (hs_db t)) (\<lambda>_. reject_import_conflicts a t))) (\<lambda>_.
       bind_m (upsert_capture_source_tx source_id source occurred_at fidelity) (\<lambda>_.
       bind_m (for_each (upsert_record_tx (Some source_id)) (sa_records a)) (\<lambda>_.
         import_rich_archive_entities_tx B a)))))) (\<lambda>_.
     rebuild_search_projection X U fault)))"

end
