(* ===== verification/Archive_Invariant.thy ===== *)
theory Archive_Invariant
  imports Archive_Import
begin

text \<open>
  The invariant of the whole history store and what keeps it: the operations of \<open>Record_Tables\<close> and
  \<open>Record_Search\<close>, and the import of archives. An import that fails is all
  or nothing, but for the search tables, which it rebuilds after its commit.
\<close>

section \<open>The invariant\<close>

definition record_rows_ok :: "history_store \<Rightarrow> bool" where
  "record_rows_ok t \<longleftrightarrow>
     distinct (map row_id (hs_records t)) \<and> db_records (hs_db t) = map row_id (hs_records t)
     \<and> (\<forall>r \<in> set (hs_records t). references (rr_source_id r) (source_ids (hs_db t)))"

definition artifact_rows_ok :: "history_store \<Rightarrow> bool" where
  "artifact_rows_ok t \<longleftrightarrow>
     distinct (map ar_id (hs_artifacts t)) \<and> distinct (map artifact_key (hs_artifacts t))
     \<and> db_artifacts (hs_db t) = map ar_id (hs_artifacts t)
     \<and> (\<forall>a \<in> set (hs_artifacts t). sync_check (ar_sync a) \<and> references (ar_source_id a) (source_ids (hs_db t)))"

definition workspace_rows_ok :: "history_store \<Rightarrow> bool" where
  "workspace_rows_ok t \<longleftrightarrow>
     distinct (map vw_id (hs_workspaces t)) \<and> distinct (map workspace_key (hs_workspaces t))
     \<and> db_workspaces (hs_db t) = map vw_id (hs_workspaces t)
     \<and> (\<forall>w \<in> set (hs_workspaces t). sync_check (vw_sync w) \<and> references (vw_source_id w) (source_ids (hs_db t)))"

definition change_rows_ok :: "history_store \<Rightarrow> bool" where
  "change_rows_ok t \<longleftrightarrow>
     distinct (map vg_id (hs_changes t)) \<and> distinct (map change_key (hs_changes t))
     \<and> (\<forall>c \<in> set (hs_changes t). sync_check (vg_sync c) \<and> change_refs_ok (hs_db t) c)"

definition link_rows_ok :: "history_store \<Rightarrow> bool" where
  "link_rows_ok t \<longleftrightarrow>
     distinct (map hl_id (hs_links t)) \<and> distinct (map link_key (hs_links t))
     \<and> (\<forall>l \<in> set (hs_links t). sync_check (hl_sync l) \<and> link_refs_ok (hs_db t) l)"

definition summary_rows_ok :: "history_store \<Rightarrow> bool" where
  "summary_rows_ok t \<longleftrightarrow>
     distinct (map su_id (hs_summaries t))
     \<and> (\<forall>s \<in> set (hs_summaries t). sync_check (su_sync s) \<and> summary_refs_ok (hs_db t) s)"

definition history_ok :: "history_store \<Rightarrow> bool" where
  "history_ok t \<longleftrightarrow>
     store_ok (hs_db t) \<and> record_rows_ok t \<and> artifact_rows_ok t \<and> workspace_rows_ok t \<and> change_rows_ok t
     \<and> link_rows_ok t \<and> summary_rows_ok t"

lemmas rows_ok_defs = record_rows_ok_def artifact_rows_ok_def workspace_rows_ok_def change_rows_ok_def
  link_rows_ok_def summary_rows_ok_def

section \<open>Writes\<close>

text \<open>The ids of the tables grow, and those of the new tables stay what their rows say.\<close>

definition new_tables_alike :: "history_store \<Rightarrow> history_store \<Rightarrow> bool" where
  "new_tables_alike t t' \<longleftrightarrow>
     hs_records t' = hs_records t \<and> hs_artifacts t' = hs_artifacts t \<and> hs_workspaces t' = hs_workspaces t
     \<and> hs_changes t' = hs_changes t \<and> hs_links t' = hs_links t \<and> hs_summaries t' = hs_summaries t
     \<and> db_records (hs_db t') = db_records (hs_db t) \<and> db_artifacts (hs_db t') = db_artifacts (hs_db t)
     \<and> db_workspaces (hs_db t') = db_workspaces (hs_db t)"

lemma rows_frame:
  assumes "ids_grow (hs_db t) (hs_db t')"
  shows "hs_records t' = hs_records t \<Longrightarrow> db_records (hs_db t') = db_records (hs_db t) \<Longrightarrow>
      record_rows_ok t \<Longrightarrow> record_rows_ok t'"
    "hs_artifacts t' = hs_artifacts t \<Longrightarrow> db_artifacts (hs_db t') = db_artifacts (hs_db t) \<Longrightarrow>
      artifact_rows_ok t \<Longrightarrow> artifact_rows_ok t'"
    "hs_workspaces t' = hs_workspaces t \<Longrightarrow> db_workspaces (hs_db t') = db_workspaces (hs_db t) \<Longrightarrow>
      workspace_rows_ok t \<Longrightarrow> workspace_rows_ok t'"
    "hs_changes t' = hs_changes t \<Longrightarrow> change_rows_ok t \<Longrightarrow> change_rows_ok t'"
    "hs_links t' = hs_links t \<Longrightarrow> link_rows_ok t \<Longrightarrow> link_rows_ok t'"
    "hs_summaries t' = hs_summaries t \<Longrightarrow> summary_rows_ok t \<Longrightarrow> summary_rows_ok t'"
proof -
  have src: "references r (source_ids (hs_db t)) \<Longrightarrow> references r (source_ids (hs_db t'))"
    and sess: "references r (session_ids (hs_db t)) \<Longrightarrow> references r (session_ids (hs_db t'))"
    and rec: "references r (db_records (hs_db t)) \<Longrightarrow> references r (db_records (hs_db t'))" for r
    using assms unfolding ids_grow_def by (blast intro: references_mono)+
  have recs: "set (db_records (hs_db t)) \<subseteq> set (db_records (hs_db t'))"
    and wss: "set (db_workspaces (hs_db t)) \<subseteq> set (db_workspaces (hs_db t'))"
    using assms unfolding ids_grow_def by blast+
  show "hs_records t' = hs_records t \<Longrightarrow> db_records (hs_db t') = db_records (hs_db t) \<Longrightarrow>
      record_rows_ok t \<Longrightarrow> record_rows_ok t'"
    using src by (simp add: record_rows_ok_def)
  show "hs_artifacts t' = hs_artifacts t \<Longrightarrow> db_artifacts (hs_db t') = db_artifacts (hs_db t) \<Longrightarrow>
      artifact_rows_ok t \<Longrightarrow> artifact_rows_ok t'"
    using src by (simp add: artifact_rows_ok_def)
  show "hs_workspaces t' = hs_workspaces t \<Longrightarrow> db_workspaces (hs_db t') = db_workspaces (hs_db t) \<Longrightarrow>
      workspace_rows_ok t \<Longrightarrow> workspace_rows_ok t'"
    using src by (simp add: workspace_rows_ok_def)
  show "hs_changes t' = hs_changes t \<Longrightarrow> change_rows_ok t \<Longrightarrow> change_rows_ok t'"
    using src wss unfolding change_rows_ok_def change_refs_ok_def by (metis subsetD)
  show "hs_links t' = hs_links t \<Longrightarrow> link_rows_ok t \<Longrightarrow> link_rows_ok t'"
    using src recs unfolding link_rows_ok_def link_refs_ok_def by (metis subsetD)
  show "hs_summaries t' = hs_summaries t \<Longrightarrow> summary_rows_ok t \<Longrightarrow> summary_rows_ok t'"
    using src sess rec by (simp add: summary_rows_ok_def summary_refs_ok_def)
qed

lemma ids_grow_other:
  "set (db_records d) \<subseteq> set rs \<Longrightarrow> set (db_artifacts d) \<subseteq> set bs \<Longrightarrow> set (db_workspaces d) \<subseteq> set ws \<Longrightarrow>
   ids_grow d (d\<lparr>db_records := rs, db_artifacts := bs, db_workspaces := ws\<rparr>)"
  by (simp add: ids_grow_def)

lemma store_ok_other_ids:
  assumes "store_ok d" "ids_grow d d'" "db_sources d' = db_sources d" "db_sessions d' = db_sessions d"
    "db_edges d' = db_edges d" "db_runs d' = db_runs d" "db_events d' = db_events d" "db_files d' = db_files d"
    "db_cursors d' = db_cursors d" "db_projection d' = db_projection d"
  shows "store_ok d'"
  using tables_frame [OF assms(2)] assms by (simp add: store_ok_def)

lemma keeps_statement:
  assumes "\<And>t x t'. P t \<Longrightarrow> f t = Inr (x, t') \<Longrightarrow> P t'"
  shows "keeps P (statement f)"
  by (rule keepsI) (auto simp: statement_def intro: assms split: sum.splits)

lemma keeps_drop_result [keeps_intros]: "keeps P m \<Longrightarrow> keeps P (drop_result m)"
  unfolding drop_result_def by (intro keeps_intros)

text \<open>A write of the first group of tables.\<close>

definition framed_write :: "(db \<Rightarrow> store_error + db) \<Rightarrow> bool" where
  "framed_write f \<longleftrightarrow>
     (\<forall>d d'. store_ok d \<longrightarrow> f d = Inr d' \<longrightarrow>
        store_ok d' \<and> ids_grow d d' \<and> db_records d' = db_records d \<and> db_artifacts d' = db_artifacts d
        \<and> db_workspaces d' = db_workspaces d)"

lemma keeps_db_write:
  assumes "framed_write f" shows "keeps history_ok (db_write f)"
  unfolding db_write_def
proof (rule keeps_statement)
  fix t x t' assume ok: "history_ok t" and "bind_result (f (hs_db t)) (\<lambda>d. Inr ((), t\<lparr>hs_db := d\<rparr>)) = Inr (x, t')"
  then obtain d where d: "f (hs_db t) = Inr d" "t' = t\<lparr>hs_db := d\<rparr>" by (cases "f (hs_db t)") auto
  have f: "store_ok d" "ids_grow (hs_db t) d" "db_records d = db_records (hs_db t)"
    "db_artifacts d = db_artifacts (hs_db t)" "db_workspaces d = db_workspaces (hs_db t)"
    using assms d(1) ok by (auto simp: framed_write_def history_ok_def)
  show "history_ok t'"
    using rows_frame [of t t'] ok f by (simp add: history_ok_def d(2))
qed

lemma framed_writes:
  "framed_write (upsert_capture_source s)" "framed_write (upsert_session s')" "framed_write (upsert_run r)"
  "framed_write (upsert_file_touched f)" "framed_write (upsert_event_tx e)"
proof -
  show "framed_write (upsert_capture_source s)"
    using upsert_capture_source_ok sources.key_set_upsert
    by (fastforce simp: framed_write_def upsert_capture_source_def guard_sql_eq_Inr ids_grow_def)
  show "framed_write (upsert_session s')"
    using upsert_session_ok sessions.key_set_upsert
    by (fastforce simp: framed_write_def upsert_session_def Let_def guard_sql_eq_Inr ids_grow_def split: if_splits)
  show "framed_write (upsert_run r)"
    using upsert_run_ok runs.key_set_upsert
    by (fastforce simp: framed_write_def upsert_run_def Let_def guard_sql_eq_Inr ids_grow_def)
  show "framed_write (upsert_file_touched f)"
    using upsert_file_touched_ok
    by (auto simp: framed_write_def upsert_file_touched_def Let_def guard_sql_eq_Inr ids_grow_def)
  show "framed_write (upsert_event_tx e)"
    unfolding framed_write_def
  proof (intro allI impI)
    fix d d' assume ok: "store_ok d" and wrote: "upsert_event_tx e d = Inr d'"
    let ?new = "stored_event (e\<lparr>ev_id := known_event_id e d\<rparr>)"
    have d': "d' = d\<lparr>db_events := upsert_row ev_id replace_event ?new (db_events d)\<rparr>"
      and "sync_check (ev_sync ?new)" "\<not> event_unique_conflict d ?new" "event_refs_ok d' ?new"
      using wrote by (auto simp: upsert_event_tx_def Let_def guard_sql_eq_Inr)
    note events = events_ok_upsert [OF ok this(2,3,1,4)]
    show "store_ok d' \<and> ids_grow d d' \<and> db_records d' = db_records d \<and> db_artifacts d' = db_artifacts d
        \<and> db_workspaces d' = db_workspaces d"
      using events(1,2) tables_frame [OF events(1)] ok by (simp add: store_ok_def d')
  qed
qed

lemma captured_source_kept: "keeps history_ok (upsert_capture_source_tx i descriptor at fid)"
  unfolding upsert_capture_source_tx_def
proof (rule keeps_db_write)
  let ?new = "captured_source i descriptor at fid"
  show "framed_write (\<lambda>d. Inr (d\<lparr>db_sources := upsert_row cs_id merge_captured_source ?new (db_sources d)\<rparr>))"
    unfolding framed_write_def
  proof (intro allI impI)
    fix d d' assume ok: "store_ok d"
      and "Inr (d\<lparr>db_sources := upsert_row cs_id merge_captured_source ?new (db_sources d)\<rparr>) = Inr d'"
    then have d': "d' = d\<lparr>db_sources := upsert_row cs_id merge_captured_source ?new (db_sources d)\<rparr>" by simp
    have grow: "ids_grow d d'"
      using captured_sources.key_set_upsert [of ?new "db_sources d"] by (auto simp: ids_grow_def d')
    have "sync_check (cs_sync ?new)" by (simp add: captured_source_def sync_check_def)
    moreover have "sync_check (cs_sync (merge_captured_source old ?new)) = sync_check (cs_sync old)" for old
      by (simp add: merge_captured_source_def sync_check_def)
    ultimately have "sources_ok d'"
      using ok captured_sources.distinct_upsert [of "db_sources d" ?new]
      unfolding store_ok_def sources_ok_def d' by (auto dest!: captured_sources.upsert_member)
    then show "store_ok d' \<and> ids_grow d d' \<and> db_records d' = db_records d \<and> db_artifacts d' = db_artifacts d
        \<and> db_workspaces d' = db_workspaces d"
      using grow tables_frame [OF grow] ok by (simp add: store_ok_def d')
  qed
qed

text \<open>Writes of the new tables that carry ids.\<close>

lemma with_records_ok:
  assumes "history_ok t" "distinct (map row_id rows)" "row_id ` set (hs_records t) \<subseteq> row_id ` set rows"
    "\<And>r. r \<in> set rows \<Longrightarrow> references (rr_source_id r) (source_ids (hs_db t))"
  shows "history_ok (with_records rows t)"
proof -
  let ?t = "with_records rows t"
  have grow: "ids_grow (hs_db t) (hs_db ?t)"
    using assms(1,3) by (auto simp: with_records_def ids_grow_def history_ok_def record_rows_ok_def)
  have "store_ok (hs_db ?t)"
    by (rule store_ok_other_ids [OF _ grow]) (use assms(1) in \<open>simp_all add: with_records_def history_ok_def\<close>)
  moreover have "record_rows_ok ?t" using assms(2,4) by (simp add: record_rows_ok_def with_records_def)
  ultimately show ?thesis
    using rows_frame [OF grow] assms(1) by (simp add: history_ok_def with_records_def)
qed

lemma with_artifacts_ok:
  assumes "history_ok t" "distinct (map ar_id rows)" "distinct (map artifact_key rows)"
    "ar_id ` set (hs_artifacts t) \<subseteq> ar_id ` set rows"
    "\<And>a. a \<in> set rows \<Longrightarrow> sync_check (ar_sync a) \<and> references (ar_source_id a) (source_ids (hs_db t))"
  shows "history_ok (with_artifacts rows t)"
proof -
  let ?t = "with_artifacts rows t"
  have grow: "ids_grow (hs_db t) (hs_db ?t)"
    using assms(1,4) by (auto simp: with_artifacts_def ids_grow_def history_ok_def artifact_rows_ok_def)
  have "store_ok (hs_db ?t)"
    by (rule store_ok_other_ids [OF _ grow]) (use assms(1) in \<open>simp_all add: with_artifacts_def history_ok_def\<close>)
  moreover have "artifact_rows_ok ?t" using assms(2,3,5) by (simp add: artifact_rows_ok_def with_artifacts_def)
  ultimately show ?thesis
    using rows_frame [OF grow] assms(1) by (simp add: history_ok_def with_artifacts_def)
qed

lemma with_workspaces_ok:
  assumes "history_ok t" "distinct (map vw_id rows)" "distinct (map workspace_key rows)"
    "vw_id ` set (hs_workspaces t) \<subseteq> vw_id ` set rows"
    "\<And>w. w \<in> set rows \<Longrightarrow> sync_check (vw_sync w) \<and> references (vw_source_id w) (source_ids (hs_db t))"
  shows "history_ok (with_workspaces rows t)"
proof -
  let ?t = "with_workspaces rows t"
  have grow: "ids_grow (hs_db t) (hs_db ?t)"
    using assms(1,4) by (auto simp: with_workspaces_def ids_grow_def history_ok_def workspace_rows_ok_def)
  have "store_ok (hs_db ?t)"
    by (rule store_ok_other_ids [OF _ grow]) (use assms(1) in \<open>simp_all add: with_workspaces_def history_ok_def\<close>)
  moreover have "workspace_rows_ok ?t" using assms(2,3,5) by (simp add: workspace_rows_ok_def with_workspaces_def)
  ultimately show ?thesis
    using rows_frame [OF grow] assms(1) by (simp add: history_ok_def with_workspaces_def)
qed

lemma references_or_else: "references a ids \<Longrightarrow> references b ids \<Longrightarrow> references (or_else a b) ids"
  by (cases a) simp_all

lemma upsert_rows_ok:
  assumes "history_ok t" "references source_id (source_ids (hs_db t))"
  shows "history_ok (with_records (upsert_row row_id replace_record \<lparr>rr_record = r, rr_source_id = source_id\<rparr> (hs_records t)) t)"
proof (rule with_records_ok [OF assms(1)])
  let ?new = "\<lparr>rr_record = r, rr_source_id = source_id\<rparr>"
  have old: "distinct (map row_id (hs_records t))"
    "\<And>x. x \<in> set (hs_records t) \<Longrightarrow> references (rr_source_id x) (source_ids (hs_db t))"
    using assms(1) by (auto simp: history_ok_def record_rows_ok_def)
  show "distinct (map row_id (upsert_row row_id replace_record ?new (hs_records t)))"
    by (rule records.distinct_upsert [OF old(1)])
  show "row_id ` set (hs_records t) \<subseteq> row_id ` set (upsert_row row_id replace_record ?new (hs_records t))"
    unfolding records.key_set_upsert by blast
  show "references (rr_source_id x) (source_ids (hs_db t))"
    if "x \<in> set (upsert_row row_id replace_record ?new (hs_records t))" for x
    using records.upsert_member [OF that]
  proof (elim disjE bexE conjE)
    show ?thesis if "x \<in> set (hs_records t)" using old(2) [OF that] .
    show ?thesis if "x = ?new" using that assms(2) by simp
    show ?thesis if "y \<in> set (hs_records t)" "x = replace_record y ?new" for y
      using references_or_else [OF assms(2) old(2) [OF that(1)]] that(2) by (simp add: replace_record_def)
  qed
qed

lemma record_writes_kept:
  "keeps history_ok (upsert_record_tx src r)" "keeps history_ok (upsert_record_row r)"
proof -
  show "keeps history_ok (upsert_record_tx src r)"
    unfolding upsert_record_tx_def
    by (rule keeps_statement) (auto simp: guard_sql_eq_Inr intro: upsert_rows_ok)
  show "keeps history_ok (upsert_record_row r)"
    unfolding upsert_record_row_def
    by (rule keeps_statement) (auto simp: references_def intro: upsert_rows_ok)
qed

lemma upsert_workspace_kept: "keeps history_ok (upsert_vcs_workspace w)"
  unfolding upsert_vcs_workspace_def
proof (intro keeps_intros keeps_statement)
  fix t t' :: history_store and x :: unit
  let ?new = "stored_workspace w" and ?rows = "hs_workspaces t"
  let ?rows' = "upsert_row workspace_key merge_workspace ?new ?rows"
  assume ok: "history_ok t" and "(let new = ?new; rows = ?rows
       in guard_sql (sync_check (vw_sync new)) ''CHECK''
         (guard_sql (workspace_key new \<in> workspace_key ` set rows \<or> vw_id new \<notin> vw_id ` set rows) ''UNIQUE''
           (guard_sql (references (vw_source_id new) (source_ids (hs_db t))) ''FOREIGN KEY''
             (Inr ((), with_workspaces (upsert_row workspace_key merge_workspace new rows) t))))) = Inr (x, t')"
  then have step: "sync_check (vw_sync ?new)"
      "workspace_key ?new \<in> workspace_key ` set ?rows \<or> vw_id ?new \<notin> vw_id ` set ?rows"
      "references (vw_source_id ?new) (source_ids (hs_db t))" "t' = with_workspaces ?rows' t"
    by (auto simp: Let_def guard_sql_eq_Inr)
  have old: "distinct (map vw_id ?rows)" "distinct (map workspace_key ?rows)"
      "\<And>w. w \<in> set ?rows \<Longrightarrow> sync_check (vw_sync w) \<and> references (vw_source_id w) (source_ids (hs_db t))"
    using ok by (auto simp: history_ok_def workspace_rows_ok_def)
  show "history_ok t'" unfolding step(4)
  proof (rule with_workspaces_ok [OF ok])
    show "distinct (map vw_id ?rows')" by (rule workspaces.distinct_idents [OF old(1) step(2)])
    show "distinct (map workspace_key ?rows')" by (rule workspaces.distinct_upsert [OF old(2)])
    show "vw_id ` set ?rows \<subseteq> vw_id ` set ?rows'" by (rule workspaces.idents_grow)
    show "sync_check (vw_sync v) \<and> references (vw_source_id v) (source_ids (hs_db t))" if "v \<in> set ?rows'" for v
      using workspaces.upsert_member [OF that] old(3) step(1,3) by (auto simp: merge_workspace_def)
  qed
qed

lemma upsert_change_kept: "keeps history_ok (upsert_vcs_change c)"
  unfolding upsert_vcs_change_def
proof (intro keeps_intros keeps_statement)
  fix t t' :: history_store and x :: unit
  let ?new = "stored_change c" and ?rows = "hs_changes t"
  let ?rows' = "upsert_row change_key merge_change ?new ?rows"
  assume ok: "history_ok t" and "(let new = ?new; rows = ?rows
       in guard_sql (sync_check (vg_sync new)) ''CHECK''
         (guard_sql (change_key new \<in> change_key ` set rows \<or> vg_id new \<notin> vg_id ` set rows) ''UNIQUE''
           (guard_sql (change_refs_ok (hs_db t) new) ''FOREIGN KEY''
             (Inr ((), t\<lparr>hs_changes := upsert_row change_key merge_change new rows\<rparr>))))) = Inr (x, t')"
  then have step: "sync_check (vg_sync ?new)" "change_key ?new \<in> change_key ` set ?rows \<or> vg_id ?new \<notin> vg_id ` set ?rows"
      "change_refs_ok (hs_db t) ?new" "t' = t\<lparr>hs_changes := ?rows'\<rparr>"
    by (auto simp: Let_def guard_sql_eq_Inr)
  have old: "distinct (map vg_id ?rows)" "distinct (map change_key ?rows)"
      "\<And>c. c \<in> set ?rows \<Longrightarrow> sync_check (vg_sync c) \<and> change_refs_ok (hs_db t) c"
    using ok by (auto simp: history_ok_def change_rows_ok_def)
  have "sync_check (vg_sync v) \<and> change_refs_ok (hs_db t) v" if "v \<in> set ?rows'" for v
    using changes.upsert_member [OF that] old(3) step(1,3) by (auto simp: merge_change_def change_refs_ok_def)
  then have "change_rows_ok t'"
    using changes.distinct_idents [OF old(1) step(2)] changes.distinct_upsert [OF old(2)]
    by (simp add: change_rows_ok_def step(4))
  moreover have "ids_grow (hs_db t) (hs_db t')" by (simp add: step(4) ids_grow_def)
  ultimately show "history_ok t'" using rows_frame [of t t'] ok by (simp add: history_ok_def step(4))
qed

lemma upsert_link_kept: "keeps history_ok (upsert_history_record_link l)"
  unfolding upsert_history_record_link_def
proof (intro keeps_intros keeps_statement)
  fix t t' :: history_store and x :: unit
  let ?new = "stored_link l" and ?rows = "hs_links t"
  let ?rows' = "upsert_row link_key merge_link ?new ?rows"
  assume ok: "history_ok t" and "(let new = ?new; rows = ?rows
       in guard_sql (sync_check (hl_sync new)) ''CHECK''
         (guard_sql (link_key new \<in> link_key ` set rows \<or> hl_id new \<notin> hl_id ` set rows) ''UNIQUE''
           (guard_sql (link_refs_ok (hs_db t) new) ''FOREIGN KEY''
             (Inr ((), t\<lparr>hs_links := upsert_row link_key merge_link new rows\<rparr>))))) = Inr (x, t')"
  then have step: "sync_check (hl_sync ?new)" "link_key ?new \<in> link_key ` set ?rows \<or> hl_id ?new \<notin> hl_id ` set ?rows"
      "link_refs_ok (hs_db t) ?new" "t' = t\<lparr>hs_links := ?rows'\<rparr>"
    by (auto simp: Let_def guard_sql_eq_Inr)
  have old: "distinct (map hl_id ?rows)" "distinct (map link_key ?rows)"
      "\<And>l. l \<in> set ?rows \<Longrightarrow> sync_check (hl_sync l) \<and> link_refs_ok (hs_db t) l"
    using ok by (auto simp: history_ok_def link_rows_ok_def)
  have "sync_check (hl_sync v) \<and> link_refs_ok (hs_db t) v" if "v \<in> set ?rows'" for v
    using links.upsert_member [OF that] old(3) step(1,3) by (auto simp: merge_link_def link_refs_ok_def)
  then have "link_rows_ok t'"
    using links.distinct_idents [OF old(1) step(2)] links.distinct_upsert [OF old(2)]
    by (simp add: link_rows_ok_def step(4))
  moreover have "ids_grow (hs_db t) (hs_db t')" by (simp add: step(4) ids_grow_def)
  ultimately show "history_ok t'" using rows_frame [of t t'] ok by (simp add: history_ok_def step(4))
qed

lemma upsert_summary_kept: "keeps history_ok (upsert_summary s)"
  unfolding upsert_summary_def
proof (rule keeps_statement)
  fix t t' :: history_store and x :: unit
  let ?new = "stored_summary s" and ?rows = "hs_summaries t"
  let ?rows' = "upsert_row su_id merge_summary ?new ?rows"
  assume ok: "history_ok t" and "(let new = ?new
       in guard_sql (sync_check (su_sync new)) ''CHECK''
         (guard_sql (summary_refs_ok (hs_db t) new) ''FOREIGN KEY''
           (Inr ((), t\<lparr>hs_summaries := upsert_row su_id merge_summary new ?rows\<rparr>)))) = Inr (x, t')"
  then have step: "sync_check (su_sync ?new)" "summary_refs_ok (hs_db t) ?new" "t' = t\<lparr>hs_summaries := ?rows'\<rparr>"
    by (auto simp: Let_def guard_sql_eq_Inr)
  have old: "distinct (map su_id ?rows)" "\<And>s. s \<in> set ?rows \<Longrightarrow> sync_check (su_sync s) \<and> summary_refs_ok (hs_db t) s"
    using ok by (auto simp: history_ok_def summary_rows_ok_def)
  have "sync_check (su_sync v) \<and> summary_refs_ok (hs_db t) v" if "v \<in> set ?rows'" for v
    using summaries.upsert_member [OF that] old(2) step(1,2) by (auto simp: merge_summary_def summary_refs_ok_def)
  then have "summary_rows_ok t'"
    using summaries.distinct_upsert [OF old(1)] by (simp add: summary_rows_ok_def step(3))
  moreover have "ids_grow (hs_db t) (hs_db t')" by (simp add: step(3) ids_grow_def)
  ultimately show "history_ok t'" using rows_frame [of t t'] ok by (simp add: history_ok_def step(3))
qed

lemma map_same: "(\<And>x. f (g x) = f x) \<Longrightarrow> map f (map g xs) = map f xs"
  by simp

lemma write_artifact_rows:
  assumes "distinct (map ar_id rows)" "distinct (map artifact_key rows)"
  shows "distinct (map ar_id (write_artifact new rows))" "distinct (map artifact_key (write_artifact new rows))"
    "ar_id ` set rows \<subseteq> ar_id ` set (write_artifact new rows)"
    "x \<in> set (write_artifact new rows) \<Longrightarrow> x \<in> set rows \<or> x = new \<or> (\<exists>old \<in> set rows. x = merge_artifact old new)"
proof -
  let ?upd = "\<lambda>old. if ar_id old = ar_id new then merge_artifact old new else old"
  have upd: "ar_id (?upd y) = ar_id y" "artifact_key (?upd y) = artifact_key y" for y
    by (simp_all add: merge_artifact_def artifact_key_def)
  have ids: "map ar_id (map ?upd rows) = map ar_id rows" "map artifact_key (map ?upd rows) = map artifact_key rows"
    by (rule map_same, rule upd(1)) (rule map_same, rule upd(2))
  show "distinct (map ar_id (write_artifact new rows))"
  proof (cases "artifact_key new \<in> artifact_key ` set rows")
    case True
    then show ?thesis using artifacts.distinct_idents [OF assms(1)] by (simp add: write_artifact_def)
  next
    case False
    then show ?thesis using assms(1) ids(1) by (simp add: write_artifact_def del: map_map)
  qed
  show "distinct (map artifact_key (write_artifact new rows))"
  proof (cases "artifact_key new \<in> artifact_key ` set rows")
    case True
    then show ?thesis using artifacts.distinct_upsert [OF assms(2)] by (simp add: write_artifact_def)
  next
    case False
    then show ?thesis using assms(2) ids(2) by (simp add: write_artifact_def del: map_map)
  qed
  show "ar_id ` set rows \<subseteq> ar_id ` set (write_artifact new rows)"
  proof (cases "artifact_key new \<in> artifact_key ` set rows")
    case True
    then show ?thesis using artifacts.idents_grow [of rows new] by (simp add: write_artifact_def)
  next
    case False
    have "ar_id ` set (map ?upd rows) = ar_id ` set rows" using ids(1) by (metis set_map)
    then show ?thesis using False by (auto simp: write_artifact_def simp del: set_map)
  qed
  show "x \<in> set (write_artifact new rows) \<Longrightarrow> x \<in> set rows \<or> x = new \<or> (\<exists>old \<in> set rows. x = merge_artifact old new)"
    by (auto simp: write_artifact_def split: if_splits dest: artifacts.upsert_member)
qed

lemma upsert_artifact_kept: "keeps history_ok (upsert_artifact a)"
  unfolding upsert_artifact_def
proof (intro keeps_intros keeps_statement)
  fix t t' :: history_store and x :: unit
  let ?new = "stored_artifact a" and ?rows = "hs_artifacts t"
  let ?rows' = "write_artifact ?new ?rows"
  assume ok: "history_ok t" and "(let new = ?new
       in guard_sql (sync_check (ar_sync new)) ''CHECK''
         (guard_sql (references (ar_source_id new) (source_ids (hs_db t))) ''FOREIGN KEY''
           (Inr ((), with_artifacts (write_artifact new ?rows) t)))) = Inr (x, t')"
  then have step: "sync_check (ar_sync ?new)" "references (ar_source_id ?new) (source_ids (hs_db t))"
      "t' = with_artifacts ?rows' t"
    by (auto simp: Let_def guard_sql_eq_Inr)
  have old: "distinct (map ar_id ?rows)" "distinct (map artifact_key ?rows)"
      "\<And>a. a \<in> set ?rows \<Longrightarrow> sync_check (ar_sync a) \<and> references (ar_source_id a) (source_ids (hs_db t))"
    using ok by (auto simp: history_ok_def artifact_rows_ok_def)
  note rows = write_artifact_rows [OF old(1,2), where new = ?new]
  show "history_ok t'" unfolding step(3)
  proof (rule with_artifacts_ok [OF ok rows(1-3)])
    show "sync_check (ar_sync v) \<and> references (ar_source_id v) (source_ids (hs_db t))" if "v \<in> set ?rows'" for v
      using rows(4) [OF that] old(3) step(1,2) by (auto simp: merge_artifact_def)
  qed
qed

section \<open>Imports\<close>

text \<open>A statement on the search tables leaves everything else alone and keeps the rows of the lookup table
  apart and on stored events.\<close>

definition without_search :: "history_store \<Rightarrow> history_store" where
  "without_search t =
     t\<lparr>hs_record_search := None, hs_record_scriptgram := None,
       hs_db := (hs_db t)\<lparr>db_projection := \<lparr>st_search = None, st_scriptgram = None, st_lookup = None, st_stat = None\<rparr>\<rparr>\<rparr>"

definition lookup_wf :: "uuid set \<Rightarrow> search_tables \<Rightarrow> bool" where
  "lookup_wf ids T \<longleftrightarrow>
     distinct (map sr_event_id (unwrap_or (st_lookup T) [])) \<and> sr_event_id ` set (unwrap_or (st_lookup T) []) \<subseteq> ids"

inductive search_statement :: "uuid set \<Rightarrow> db_statement \<Rightarrow> bool" for ids where
  on_rows: "search_statement ids (change_search_rows f)"
| on_grams: "search_statement ids (change_search_grams g)"
| on_tables: "(\<And>T T'. lookup_wf ids T \<Longrightarrow> h T = Inr T' \<Longrightarrow> lookup_wf ids T') \<Longrightarrow> search_statement ids (change_tables h)"

lemma history_ok_search [simp]:
  "history_ok (t\<lparr>hs_record_search := a\<rparr>) = history_ok t" "history_ok (t\<lparr>hs_record_scriptgram := b\<rparr>) = history_ok t"
  by (simp_all add: history_ok_def rows_ok_defs)

lemma put_tables_ok:
  assumes "history_ok t" "lookup_wf (set (event_ids (hs_db t))) T"
  shows "history_ok (put_tables T t)"
proof -
  let ?d = "(hs_db t)\<lparr>db_projection := T\<rparr>"
  have grow: "ids_grow (hs_db t) (hs_db (t\<lparr>hs_db := ?d\<rparr>))" by (simp add: ids_grow_def)
  have "lookup_ok ?d" using assms(2) by (auto simp: lookup_ok_def lookup_rows_def lookup_wf_def)
  then have "store_ok ?d" using tables_frame [OF grow] assms(1) by (simp add: history_ok_def store_ok_def)
  then show ?thesis using rows_frame [OF grow] assms(1) by (simp add: history_ok_def put_tables_def)
qed

lemma history_lookup_wf: "history_ok t \<Longrightarrow> lookup_wf (set (event_ids (hs_db t))) (tables_of t)"
  by (auto simp: history_ok_def store_ok_def lookup_ok_def lookup_rows_def lookup_wf_def)

lemma without_search_put [simp]: "without_search (put_tables T t) = without_search t"
  by (simp add: without_search_def put_tables_def)

lemma without_search_events: "without_search s = without_search t \<Longrightarrow> db_events (hs_db s) = db_events (hs_db t)"
  by (cases s; cases t; cases "hs_db s"; cases "hs_db t") (simp add: without_search_def)

lemma search_statement_kept:
  assumes "search_statement (set (event_ids (hs_db s))) f" "history_ok s" "f s = Inr s'"
  shows "history_ok s' \<and> without_search s' = without_search s"
  using assms
proof (cases rule: search_statement.cases)
  case (on_tables h)
  then obtain T where "h (tables_of s) = Inr T" "s' = put_tables T s"
    using assms(3) by (auto simp: change_tables_put bind_result_eq_Inr)
  then show ?thesis using on_tables(2) history_lookup_wf [OF assms(2)] put_tables_ok [OF assms(2)] by simp
qed (auto simp: change_search_rows_def change_search_grams_def without_search_def)

lemma search_statements_kept:
  assumes "\<And>f. f \<in> set fs \<Longrightarrow> search_statement (set (event_ids (hs_db t))) f" "history_ok t"
  shows "history_ok (snd (run_statements fault fs t)) \<and> without_search (snd (run_statements fault fs t)) = without_search t"
proof (rule statements_kept [where P = "\<lambda>s. history_ok s \<and> without_search s = without_search t"])
  fix f s s' assume f: "f \<in> set fs" and s: "history_ok s \<and> without_search s = without_search t" "f s = Inr s'"
  have "search_statement (set (event_ids (hs_db s))) f" using assms(1) [OF f] without_search_events s(1) by metis
  from search_statement_kept [OF this] show "history_ok s' \<and> without_search s' = without_search t" using s by simp
qed (simp add: assms(2))

lemma record_search_statement:
  "f \<in> set (record_search_statements U r) \<Longrightarrow> search_statement ids f" "f \<in> set (record_search_inserts U r) \<Longrightarrow> search_statement ids f"
  by (auto simp: record_search_statements_def record_search_inserts_def intro: search_statement.intros)

lemma no_lookup_rows [simp]: "unwrap_or (map_option (\<lambda>_. []) table) [] = []"
  by (cases table) simp_all

lemma event_search_statement:
  assumes "f \<in> set (populate_event_search_projection X U a b c d)"
  shows "search_statement (set (event_ids d)) f"
proof -
  obtain h e where e: "e \<in> set (db_events d)" "f \<in> set (event_row_statements X U a b c (h, e))"
    using assms by (auto simp: populate_event_search_projection_def projection_order_def)
  consider r where "f = change_tables (add_search_row r)" | r where "f = change_tables (add_scriptgram_row r)"
    | r where "f = change_tables (add_lookup_row r)" "sr_event_id r = ev_id e"
    using e(2) by (auto simp: event_row_statements_def Let_def split: if_splits)
  then show ?thesis
  proof cases
    case 1
    show ?thesis unfolding 1 by (rule search_statement.on_tables) (auto simp: add_search_row_def lookup_wf_def)
  next
    case 2
    show ?thesis unfolding 2 by (rule search_statement.on_tables) (auto simp: add_scriptgram_row_def lookup_wf_def)
  next
    case 3
    have "lookup_wf (set (event_ids d)) T'"
      if "lookup_wf (set (event_ids d)) T" "add_lookup_row r T = Inr T'" for T T'
      using that e(1) 3(2) by (cases "st_lookup T") (auto simp: lookup_wf_def add_lookup_row_def image_subset_iff split: if_splits)
    then show ?thesis unfolding 3(1) by (rule search_statement.on_tables)
  qed
qed

lemma rebuild_statement:
  assumes "f \<in> set (rebuild_statements X U t)"
  shows "search_statement (set (event_ids (hs_db t))) f"
proof -
  consider "f \<in> set clear_search_tables" | a b c where "f \<in> set (populate_event_search_projection X U a b c (hs_db t))"
    | r where "f \<in> set (record_search_inserts U r)" | "f = recount_documents X (db_events (hs_db t))"
    using assms by (auto simp: rebuild_statements_def Let_def split: if_splits)
  then show ?thesis
  proof cases
    case 1
    then show ?thesis
      by (auto simp: clear_search_tables_def lookup_wf_def split: option.splits
          intro!: search_statement.on_rows search_statement.on_grams search_statement.on_tables)
  next
    case 4
    then show ?thesis
      by (auto simp: recount_documents_def refresh_semantic_searchable_item_stats_def lookup_wf_def intro!: search_statement.on_tables)
  qed (blast intro: event_search_statement record_search_statement)+
qed

lemma keeps_statements:
  assumes "\<And>t f. f \<in> set (fs t) \<Longrightarrow> search_statement (set (event_ids (hs_db t))) f"
  shows "keeps history_ok (\<lambda>t. run_statements fault (fs t) t)"
  by (rule keepsI) (use search_statements_kept [of "fs t" t for t] assms in blast)

lemma keeps_searchable: "keeps P m \<Longrightarrow> keeps P (when_searchable m)"
  by (simp add: keeps_def when_searchable_def)

lemma rebuild_kept: "keeps history_ok (rebuild_search_projection X U fault)"
proof -
  have "keeps history_ok (\<lambda>t. run_statements fault (rebuild_statements X U t) t)"
    by (rule keeps_statements) (rule rebuild_statement)
  then show ?thesis by (auto simp: keeps_def rebuild_search_projection_def when_searchable_def)
qed

lemma keeps_transaction: "keeps P m \<Longrightarrow> keeps P (in_transaction b c m)"
  by (rule keepsI) (auto simp: in_transaction_def dest: keepsD split: option.splits prod.splits sum.splits)

lemma rich_import_kept: "keeps history_ok (import_rich_archive_entities_tx B a)"
  unfolding import_rich_archive_entities_tx_def entity_statements
  by (intro keeps_intros keeps_db_write framed_writes upsert_workspace_kept upsert_artifact_kept upsert_change_kept
      upsert_summary_kept upsert_link_kept)

lemma archive_import_kept:
  "keeps history_ok (import_archive X U B b c fault a overwrite)"
  "keeps history_ok (import_archive_from_capture_source X U B b c fault a i source at fid overwrite)"
  unfolding import_archive_def import_archive_from_capture_source_def
  by (intro keeps_intros keeps_transaction rich_import_kept record_writes_kept captured_source_kept rebuild_kept)+

section \<open>The other operations\<close>

lemma references_without: "references r ids \<Longrightarrow> r \<noteq> Some i \<Longrightarrow> references r (filter (\<lambda>x. x \<noteq> i) ids)"
  by (auto simp: references_def split: option.splits)

lemma not_list_ex: "\<not> list_ex P xs \<Longrightarrow> x \<in> set xs \<Longrightarrow> \<not> P x"
  by (auto simp: list_ex_iff)

lemma removed_row_ok:
  assumes "history_ok t" "orphan_record i t"
  shows "history_ok (with_records (filter (\<lambda>r. row_id r \<noteq> i) (hs_records t)) t)"
proof -
  let ?d = "hs_db t" and ?rows = "filter (\<lambda>r. row_id r \<noteq> i) (hs_records t)"
  let ?d' = "?d\<lparr>db_records := map row_id ?rows\<rparr>" and ?t = "with_records ?rows t"
  have ids: "map row_id ?rows = filter (\<lambda>x. x \<noteq> i) (db_records ?d)"
    using assms(1) by (simp add: history_ok_def record_rows_ok_def filter_map comp_def)
  note orphan = assms(2) [unfolded orphan_record_def]
  have refs: "references r (db_records ?d) \<Longrightarrow> r \<noteq> Some i \<Longrightarrow> references r (map row_id ?rows)" for r
    unfolding ids by (rule references_without)
  have "sessions_ok ?d'" using assms(1) refs orphan
    by (auto simp: history_ok_def store_ok_def sessions_ok_def session_refs_ok_def dest: not_list_ex simp del: map_map)
  moreover have "runs_ok ?d'" using assms(1) refs orphan
    by (auto simp: history_ok_def store_ok_def runs_ok_def run_refs_ok_def dest: not_list_ex)
  moreover have "events_ok ?d'" using assms(1) refs orphan
    by (auto simp: history_ok_def store_ok_def events_ok_def event_refs_ok_def dest: not_list_ex)
  moreover have "files_ok ?d'" using assms(1) refs orphan
    by (auto simp: history_ok_def store_ok_def files_ok_def file_refs_ok_def dest: not_list_ex)
  moreover have "sources_ok ?d'" "edges_ok ?d'" "cursors_ok ?d'" "lookup_ok ?d'"
    using assms(1) by (simp_all add: history_ok_def store_ok_def sources_ok_def edges_ok_def edge_refs_ok_def cursors_ok_def
      lookup_ok_def lookup_rows_def)
  ultimately have store: "store_ok ?d'" by (simp add: store_ok_def)
  have "record_rows_ok ?t" using assms(1)
    by (simp add: history_ok_def record_rows_ok_def with_records_def distinct_map_filter)
  moreover have "artifact_rows_ok ?t" "workspace_rows_ok ?t"
    using assms(1) by (simp_all add: history_ok_def artifact_rows_ok_def workspace_rows_ok_def with_records_def)
  moreover have "change_rows_ok ?t"
    using assms(1) unfolding history_ok_def change_rows_ok_def change_refs_ok_def with_records_def by simp
  moreover have "link_rows_ok ?t"
    using assms(1) orphan ids unfolding history_ok_def link_rows_ok_def link_refs_ok_def with_records_def
    by (auto dest: not_list_ex)
  moreover have "summary_rows_ok ?t"
    using assms(1) orphan refs unfolding history_ok_def summary_rows_ok_def summary_refs_ok_def with_records_def
    by (auto dest: not_list_ex)
  ultimately show "history_ok ?t" using store by (simp add: history_ok_def with_records_def)
qed

lemma delete_orphan_kept: "keeps history_ok (delete_orphan_record fault i)"
proof (rule keeps_stepI)
  fix t r t' assume ok: "history_ok t" and step: "delete_orphan_record fault i t = (r, t')"
  from step show "history_ok t'"
    by (cases rule: delete_orphan_cases) (use ok removed_row_ok [OF ok] in simp_all)
qed

lemma project_kept:
  "keeps history_ok (upsert_record_search_projection U fault r)"
  "keeps history_ok (when_searchable (run_statements fault (concat (map (record_search_statements U) rs))))"
  unfolding upsert_record_search_projection_def
  by (intro keeps_searchable keeps_statements [where fs = "\<lambda>_. fs" for fs]; auto intro: record_search_statement)+

lemma insert_record_kept: "keeps history_ok (insert_record U fault r)"
  unfolding insert_record_def
proof (intro keeps_bind keeps_statement project_kept)
  fix t t' :: history_store and x :: unit
  assume "history_ok t" "guard_sql (hr_id r \<notin> row_id ` set (hs_records t)) ''UNIQUE''
      (Inr ((), with_records (hs_records t @ [\<lparr>rr_record = r, rr_source_id = None\<rparr>]) t)) = Inr (x, t')"
  moreover have "upsert_row row_id replace_record \<lparr>rr_record = r, rr_source_id = None\<rparr> (hs_records t)
      = hs_records t @ [\<lparr>rr_record = r, rr_source_id = None\<rparr>]" if "hr_id r \<notin> row_id ` set (hs_records t)"
    using that by (simp add: upsert_row_def)
  ultimately show "history_ok t'"
    using upsert_rows_ok [of t None r] by (auto simp: guard_sql_eq_Inr references_def)
qed

lemma record_ops_kept:
  "keeps history_ok (upsert_record U fault r)" "keeps history_ok (upsert_records U b c fault rs)"
  unfolding upsert_record_def upsert_records_def
  by (intro keeps_intros keeps_transaction record_writes_kept project_kept)+

lemma lookup_rebuild_kept: "keeps history_ok (rebuild_event_search_lookup_projection X U fault)"
proof -
  have "search_statement (set (event_ids (hs_db t))) f"
    if "f \<in> set (change_tables (\<lambda>T. Inr (T\<lparr>st_lookup := Some []\<rparr>)) # populate_event_search_projection X U False True False (hs_db t))"
    for t :: history_store and f
    using that event_search_statement by (auto simp: lookup_wf_def intro!: search_statement.on_tables)
  then have "keeps history_ok (\<lambda>t. run_statements fault
      (change_tables (\<lambda>T. Inr (T\<lparr>st_lookup := Some []\<rparr>)) # populate_event_search_projection X U False True False (hs_db t)) t)"
    by (rule keeps_statements)
  then show ?thesis by (auto simp: keeps_def rebuild_event_search_lookup_projection_def)
qed

lemma if_intro: "(c \<Longrightarrow> P) \<Longrightarrow> (\<not> c \<Longrightarrow> Q) \<Longrightarrow> if c then P else Q"
  by simp

lemma ensure_initialised_kept: "keeps history_ok (ensure_search_projection_initialized X U fault)"
proof (rule keepsI)
  fix t :: history_store assume ok: "history_ok t"
  have "search_statement ids (recount_documents X es)" for ids es
    by (auto simp: recount_documents_def refresh_semantic_searchable_item_stats_def lookup_wf_def intro!: search_statement.on_tables)
  then have recounted: "history_ok (snd (run_statements fault [recount_documents X (db_events (hs_db t))] t))"
    using search_statements_kept [of "[recount_documents X (db_events (hs_db t))]", OF _ ok] by simp
  note lookup = keepsD [OF lookup_rebuild_kept ok] and whole = keepsD [OF rebuild_kept ok]
  show "history_ok (snd (ensure_search_projection_initialized X U fault t))"
    unfolding ensure_search_projection_initialized_def Let_def if_distrib [of snd] if_distrib [of history_ok] snd_conv
    by (intro if_intro recounted lookup whole ok)
qed

lemma normalise_kept: "history_ok t \<Longrightarrow> history_ok (normalize_legacy_blob_paths t)"
proof -
  assume ok: "history_ok t"
  let ?f = "\<lambda>a. if legacy_blob_path (ar_blob_path a)
      then a\<lparr>ar_blob_path := ''objects/'' @ drop 6 (ar_blob_path a)\<rparr> else a"
  have same: "map ar_id (map ?f rows) = map ar_id rows" "map artifact_key (map ?f rows) = map artifact_key rows" for rows
    by (rule map_same, simp) (rule map_same, simp add: artifact_key_def)
  have rows: "hs_artifacts (normalize_legacy_blob_paths t) = map ?f (hs_artifacts t)"
    and db: "hs_db (normalize_legacy_blob_paths t) = hs_db t"
    by (simp_all add: normalize_legacy_blob_paths_def)
  have "artifact_rows_ok (normalize_legacy_blob_paths t)"
    using ok unfolding history_ok_def artifact_rows_ok_def rows db same by (auto simp: image_iff)
  then show ?thesis
    using ok rows_frame [of t "normalize_legacy_blob_paths t"]
    by (simp add: history_ok_def normalize_legacy_blob_paths_def ids_grow_def)
qed

section \<open>Claims\<close>

text \<open>One operation on the whole store. A write of the first group of tables is a step of
  \<open>Store_Invariant\<close> that leaves the ids of the others alone.\<close>

inductive history_step :: "externals \<Rightarrow> unicode \<Rightarrow> history_store \<Rightarrow> history_store \<Rightarrow> bool" for X U where
  db_step: "store_step X U (hs_db t) d \<Longrightarrow> db_records d = db_records (hs_db t) \<Longrightarrow>
    db_artifacts d = db_artifacts (hs_db t) \<Longrightarrow> db_workspaces d = db_workspaces (hs_db t) \<Longrightarrow>
    ids_grow (hs_db t) d \<Longrightarrow> history_step X U t (t\<lparr>hs_db := d\<rparr>)"
| record_op: "m \<in> {insert_record U fault r, upsert_record U fault r, upsert_records U b c fault rs} \<Longrightarrow> m t = (x, t') \<Longrightarrow> history_step X U t t'"
| delete_op: "delete_orphan_record fault i t = (y, t') \<Longrightarrow> history_step X U t t'"
| entity_op: "m \<in> {upsert_vcs_workspace w, upsert_vcs_change g, upsert_history_record_link l, upsert_artifact a} \<Longrightarrow>
    m t = (z, t') \<Longrightarrow> history_step X U t t'"
| summary_op: "upsert_summary s t = (x, t') \<Longrightarrow> history_step X U t t'"
| search_op: "m \<in> {rebuild_search_projection X U fault, rebuild_event_search_lookup_projection X U fault,
    ensure_search_projection_initialized X U fault} \<Longrightarrow> m t = (x, t') \<Longrightarrow> history_step X U t t'"
| paths_op: "history_step X U t (normalize_legacy_blob_paths t)"
| archive_op: "m \<in> {import_archive X U B b c fault ar overwrite,
    import_archive_from_capture_source X U B b c fault ar i source at fid overwrite} \<Longrightarrow> m t = (x, t') \<Longrightarrow> history_step X U t t'"

inductive history_reachable :: "externals \<Rightarrow> unicode \<Rightarrow> history_store \<Rightarrow> bool" for X U where
  start_history: "history_reachable X U empty_history"
| next_history: "history_reachable X U t \<Longrightarrow> history_step X U t t' \<Longrightarrow> history_reachable X U t'"

lemma history_step_ok: "history_step X U t t' \<Longrightarrow> history_ok t \<Longrightarrow> history_ok t'"
proof (induction rule: history_step.induct)
  case (db_step t d)
  then have "store_ok d" using store_step_ok by (auto simp: history_ok_def)
  then show ?case using rows_frame [of t "t\<lparr>hs_db := d\<rparr>"] db_step by (simp add: history_ok_def)
next
  case (record_op m fault r b c rs t x t')
  then show ?case using keeps_step [OF insert_record_kept] keeps_step [OF record_ops_kept(1)]
      keeps_step [OF record_ops_kept(2)] by blast
next
  case (entity_op m w g l a t z t')
  then show ?case using keeps_step [OF upsert_workspace_kept] keeps_step [OF upsert_change_kept]
      keeps_step [OF upsert_link_kept] keeps_step [OF upsert_artifact_kept] by blast
next
  case (search_op m fault t x t')
  then show ?case using keeps_step [OF rebuild_kept] keeps_step [OF lookup_rebuild_kept]
      keeps_step [OF ensure_initialised_kept] by blast
next
  case (archive_op m B b c fault ar overwrite i source at fid t x t')
  then consider "import_archive X U B b c fault ar overwrite t = (x, t')"
    | "import_archive_from_capture_source X U B b c fault ar i source at fid overwrite t = (x, t')" by blast
  then show ?case
    by cases (erule keeps_step [OF archive_import_kept(1) archive_op(3)], erule keeps_step [OF archive_import_kept(2) archive_op(3)])
qed (auto intro: keeps_step [OF delete_orphan_kept] keeps_step [OF upsert_summary_kept] normalise_kept)

lemma empty_history_ok: "history_ok empty_history"
  using empty_db_ok by (simp add: history_ok_def rows_ok_defs empty_history_def) (simp add: empty_db_def)

text \<open>C9: Every state the store can reach, with all its tables and whatever fails on the way, satisfies
  every constraint: keys are unique, references point to rows, the ids of the tables agree.\<close>

theorem reachable_history_ok:
  assumes "history_reachable X U t"
  shows "history_ok t"
  using assms by (induction rule: history_reachable.induct) (auto intro: empty_history_ok history_step_ok)

theorem reachable_history_ok_witness:
  "\<exists>t. history_reachable demo_externals demo_unicode t \<and> hs_records t \<noteq> [] \<and> history_ok t"
proof -
  let ?t = "snd (upsert_record demo_unicode None demo_record empty_history)"
  have "history_step demo_externals demo_unicode empty_history ?t"
    by (rule history_step.record_op [where m = "upsert_record demo_unicode None demo_record" and r = demo_record and fault = None])
      (simp, rule prod.collapse [symmetric])
  then have reach: "history_reachable demo_externals demo_unicode ?t"
    by (rule history_reachable.next_history [OF history_reachable.start_history])
  moreover have "hs_records ?t \<noteq> []"
    by (simp add: upsert_record_def projection_calm bind_m_def upsert_record_row_def statement_def with_records_def empty_history_def
      modify_m_def record_projected_def upsert_row_def)
  ultimately show ?thesis using reachable_history_ok [OF reach] by blast
qed

lemma rebuild_failed:
  assumes "history_ok t" "rebuild_search_projection X U fault t = (Inl e, t')"
  shows "\<exists>n u. fault = Some (n, e) \<and> rebuild_search_projection X U None t = (Inr (), u) \<and> without_search t' = without_search u"
proof -
  have searchable: "hs_record_search t \<noteq> None" and run: "run_statements fault (rebuild_statements X U t) t = (Inl e, t')"
    using assms(2) by (auto simp: rebuild_search_projection_def when_searchable_def split: if_splits)
  have "distinct (event_ids (hs_db t))" using assms(1) by (simp add: history_ok_def store_ok_def events_ok_def)
  from rebuild_succeeds [OF this searchable] obtain u where u: "apply_all (rebuild_statements X U t) t = Inr u" by blast
  have all: "rebuild_search_projection X U None t = (Inr (), u)"
    using searchable run_all [OF u] by (auto simp: rebuild_search_projection_def when_searchable_def)
  obtain n where "fault = Some (n, e)" using run_refused [OF run u] by blast
  moreover have "without_search t' = without_search t"
    using search_statements_kept [of "rebuild_statements X U t" t fault, OF rebuild_statement assms(1)] run by simp
  moreover have "without_search u = without_search t"
    using search_statements_kept [of "rebuild_statements X U t" t None, OF rebuild_statement assms(1)] run_all [OF u] by simp
  ultimately show ?thesis using all by simp
qed

lemma failing_import:
  assumes "bind_m (of_result v) (\<lambda>_. bind_m (of_result w) (\<lambda>_.
      bind_m (in_transaction b c m) (\<lambda>_. rebuild_search_projection X U fault))) t = (Inl e, t')"
    "history_ok t" "keeps history_ok m"
  shows "t' = t \<or> (\<exists>n u. fault = Some (n, e) \<and> without_search t' = without_search u
    \<and> bind_m (of_result v) (\<lambda>_. bind_m (of_result w) (\<lambda>_.
        bind_m (in_transaction b c m) (\<lambda>_. rebuild_search_projection X U None))) t = (Inr (), u))"
proof (cases "\<exists>x y. v = Inr x \<and> w = Inr y")
  case False
  then show ?thesis using assms(1) by (cases v; cases w) (auto simp: bind_m_def of_result_def)
next
  case True
  obtain r t1 where t1: "in_transaction b c m t = (r, t1)" by (rule prod.exhaust)
  from this show ?thesis
  proof (cases rule: in_transaction_cases)
    case (1 e')
    then show ?thesis using assms(1) t1 True by (auto simp: bind_m_def of_result_def)
  next
    case (2 x)
    have "history_ok t1" using keeps_step [OF assms(3,2) 2(2)] .
    moreover have "rebuild_search_projection X U fault t1 = (Inl e, t')"
      using assms(1) t1 2(1) True by (auto simp: bind_m_def of_result_def)
    ultimately obtain n u where "fault = Some (n, e)" "rebuild_search_projection X U None t1 = (Inr (), u)"
      "without_search t' = without_search u" using rebuild_failed by blast
    then show ?thesis using t1 2(1) True by (auto simp: bind_m_def of_result_def)
  qed
qed

text \<open>C10: An import of an archive that returns an error is all or nothing. When its version, a conflict, a blob, a
  constraint or a call of the transaction is the reason, the store is exactly as it was. The only other error is
  that of a statement of the rebuild of the search tables, which both imports run after the commit and outside
  the transaction: then the caller gets an error although every row of the archive is stored as by the import
  that succeeds, and nothing but the search tables differs from it.\<close>

theorem failed_import_is_all_or_nothing:
  assumes "history_ok t"
    "run \<in> {\<lambda>f. import_archive X U B b c f a overwrite,
      \<lambda>f. import_archive_from_capture_source X U B b c f a i source at fid overwrite}"
    "run fault t = (Inl e, t')"
  shows "t' = t \<or> (\<exists>n u. fault = Some (n, e) \<and> run None t = (Inr (), u) \<and> without_search t' = without_search u)"
proof -
  consider "run = (\<lambda>f. import_archive X U B b c f a overwrite)"
    | "run = (\<lambda>f. import_archive_from_capture_source X U B b c f a i source at fid overwrite)" using assms(2) by blast
  then show ?thesis
  proof cases
    case 1
    have "keeps history_ok (bind_m (read_m (\<lambda>t. reject_import_invariant_conflicts a (hs_db t))) (\<lambda>_.
        bind_m (if overwrite then return_m () else read_m (reject_import_conflicts a)) (\<lambda>_.
        bind_m (for_each (upsert_record_tx None) (sa_records a)) (\<lambda>_. import_rich_archive_entities_tx B a))))"
      by (intro keeps_intros rich_import_kept record_writes_kept)
    from failing_import [OF assms(3) [unfolded 1 import_archive_def] assms(1) this]
    show ?thesis unfolding 1 import_archive_def by blast
  next
    case 2
    have "keeps history_ok (bind_m (read_m (\<lambda>t. reject_import_invariant_conflicts a (hs_db t))) (\<lambda>_.
        bind_m (if overwrite then return_m () else read_m (\<lambda>t.
          bind_result (reject_capture_source_import_conflict i (hs_db t)) (\<lambda>_. reject_import_conflicts a t))) (\<lambda>_.
        bind_m (upsert_capture_source_tx i source at fid) (\<lambda>_.
        bind_m (for_each (upsert_record_tx (Some i)) (sa_records a)) (\<lambda>_. import_rich_archive_entities_tx B a)))))"
      by (intro keeps_intros rich_import_kept record_writes_kept captured_source_kept)
    from failing_import [OF assms(3) [unfolded 2 import_archive_from_capture_source_def] assms(1) this]
    show ?thesis unfolding 2 import_archive_from_capture_source_def by blast
  qed
qed

text \<open>The database refuses the first statement of the rebuild: the error is returned and the record is there.\<close>

theorem failed_import_is_all_or_nothing_witness:
  "\<exists>B e t' u. import_archive demo_externals demo_unicode B None None (Some (0, e))
      (default_archive\<lparr>sa_schema_version := 1, sa_version := 1, sa_records := [demo_record]\<rparr>) False empty_history = (Inl e, t')
    \<and> hs_records t' \<noteq> [] \<and> without_search t' = without_search u
    \<and> import_archive demo_externals demo_unicode B None None None
        (default_archive\<lparr>sa_schema_version := 1, sa_version := 1, sa_records := [demo_record]\<rparr>) False empty_history = (Inr (), u)"
proof -
  let ?a = "default_archive\<lparr>sa_schema_version := 1, sa_version := 1, sa_records := [demo_record]\<rparr>" and ?e = "Sql (SqlFailure ''disk I/O error'')"
    and ?B = "\<lparr>bd_path = \<lambda>_. [], bd_exists = \<lambda>_. False, bd_regular = \<lambda>_. Inr False, bd_read = \<lambda>_. Inr [],
      bd_sha256 = \<lambda>_. []\<rparr>"
  let ?t = "with_records [\<lparr>rr_record = demo_record, rr_source_id = None\<rparr>] empty_history"
  have failed: "import_archive demo_externals demo_unicode ?B None None (Some (0, ?e)) ?a False empty_history = (Inl ?e, ?t)"
    by (simp add: import_archive_def bind_m_def of_result_def in_transaction_def read_m_def reject_import_conflicts_def
      validate_archive_version_def reject_archive_event_internal_conflicts_def reject_import_invariant_conflicts_def
      legacy_archive_def default_archive_def record_conflict_def reject_rich_import_conflicts_def references_def row_with_def empty_history_def upsert_record_tx_def
      statement_def upsert_row_def with_records_def import_rich_archive_entities_tx_def return_m_def
      rebuild_search_projection_def when_searchable_def rebuild_statements_def clear_search_tables_def guard_sql_def Let_def)
  have stored: "hs_records ?t \<noteq> []" "?t \<noteq> empty_history" by (simp_all add: with_records_def empty_history_def)
  from failed_import_is_all_or_nothing [where run = "\<lambda>f. import_archive demo_externals demo_unicode ?B None None f ?a False"
      and X = demo_externals and U = demo_unicode and B = ?B and b = None and c = None and a = ?a and overwrite = False,
      OF empty_history_ok insertI1 failed] stored
  obtain u where "without_search ?t = without_search u"
    "import_archive demo_externals demo_unicode ?B None None None ?a False empty_history = (Inr (), u)" by blast
  then show ?thesis using failed stored(1) by blast
qed

end
