(* ===== verification/Upgrade_Disk.thy ===== *)
theory Upgrade_Disk
  imports Effects
begin

text \<open>
  The file system as \<open>upgrade/install.rs\<close> of \<open>ctx-cli\<close> uses it. A call may work, fail, or be the last
  one the process makes: then everything done so far stays, and nothing after it happens.
\<close>

section \<open>Files and directories\<close>

text \<open>A path is the list of its components below the root. Two names of one file (hard links) carry the
  same inode. A directory holds the contents of the files below it. Nothing here is a symbolic link.\<close>

type_synonym fs_path = "string list"

datatype disk_node =
    DiskFile nat string
  | DiskDir "(string \<times> string) list"

type_synonym disk = "fs_path \<Rightarrow> disk_node option"

definition path_parent :: "fs_path \<Rightarrow> fs_path option" where
  "path_parent p = (if p = [] then None else Some (butlast p))"

definition path_name :: "fs_path \<Rightarrow> string option" where
  "path_name p = (if p = [] \<or> last p = ''..'' then None else Some (last p))"

definition with_file_name :: "fs_path \<Rightarrow> string \<Rightarrow> fs_path" where
  "with_file_name p n = (if path_name p = None then p else butlast p) @ [n]"

definition path_exists :: "fs_path \<Rightarrow> disk \<Rightarrow> bool" where
  "path_exists p d \<longleftrightarrow> d p \<noteq> None"

section \<open>The state of a process\<close>

datatype path_kind = FileKind | DirectoryKind

record journal_path =
  jp_label :: string
  jp_staged :: fs_path
  jp_target :: fs_path
  jp_backup :: fs_path
  jp_kind :: path_kind

datatype journal_phase = Publishing | Committed

record install_journal =
  ij_schema_version :: u32
  ij_transaction_id :: string
  ij_phase :: journal_phase
  ij_install_path :: fs_path
  ij_paths :: "journal_path list"

text \<open>What the next call does. A copy or the removal of a directory takes more than one step: with
  \<open>Some k\<close> it has done \<open>k\<close> of them. A list that is used up means working calls.\<close>

datatype call_effect =
    Works
  | Fails "nat option"
  | Killed "nat option"

datatype install_error =
    ProcessKilled
  | CallFailed
  | PathMissing
  | BackupExists string
  | BothDirectories string
  | IncompletePublication string
  | RollbackFailures install_error "install_error list"
  | InvalidTransaction string

text \<open>The journal file is replaced by a rename, so it is read whole; its temporary file is never read.
  \<open>ir_had_previous\<close> and \<open>ir_published\<close> are the two mutable fields of each \<open>UnixPublishedPath\<close>, by its
  label.\<close>

record install_run =
  ir_disk :: disk
  ir_journal :: "install_journal option"
  ir_calls :: "call_effect list"
  ir_inode :: nat
  ir_had_previous :: "string \<Rightarrow> bool"
  ir_published :: "string \<Rightarrow> bool"

type_synonym 'a install_action = "(install_run, install_error, 'a) fallible"

section \<open>Calls\<close>

text \<open>\<open>full\<close> is the effect of the whole call, \<open>part k\<close> that of its first \<open>k\<close> steps.\<close>

definition part_done :: "(nat \<Rightarrow> install_run \<Rightarrow> install_run) \<Rightarrow> nat option \<Rightarrow> install_run \<Rightarrow> install_run" where
  "part_done part k s = (case k of None \<Rightarrow> s | Some n \<Rightarrow> part n s)"

definition system_call ::
    "(install_run \<Rightarrow> install_error + install_run) \<Rightarrow> (nat \<Rightarrow> install_run \<Rightarrow> install_run) \<Rightarrow> unit install_action" where
  "system_call full part s =
     (let s' = s\<lparr>ir_calls := drop 1 (ir_calls s)\<rparr>
      in case (case ir_calls s of [] \<Rightarrow> Works | c # _ \<Rightarrow> c) of
           Works \<Rightarrow> (case full s' of Inl e \<Rightarrow> (Inl e, s') | Inr t \<Rightarrow> (Inr (), t))
         | Fails k \<Rightarrow> (Inl CallFailed, part_done part k s')
         | Killed k \<Rightarrow> (Inl ProcessKilled, part_done part k s'))"

text \<open>A call in one step.\<close>

definition one_step :: "(install_run \<Rightarrow> install_error + install_run) \<Rightarrow> unit install_action" where
  "one_step full = system_call full (\<lambda>_ s. s)"

definition on_disk :: "(disk \<Rightarrow> install_error + disk) \<Rightarrow> install_run \<Rightarrow> install_error + install_run" where
  "on_disk f s = bind_result (f (ir_disk s)) (\<lambda>d. Inr (s\<lparr>ir_disk := d\<rparr>))"

text \<open>A call that changes nothing the model holds.\<close>

definition plain_call :: "unit install_action" where
  "plain_call = one_step Inr"

definition put_node :: "fs_path \<Rightarrow> disk_node option \<Rightarrow> install_run \<Rightarrow> install_run" where
  "put_node p n s = s\<lparr>ir_disk := (ir_disk s)(p := n)\<rparr>"

text \<open>\<open>rename(2)\<close>: two names of the same file both stay; a directory replaces only an empty one.\<close>

definition renamed :: "fs_path \<Rightarrow> fs_path \<Rightarrow> disk \<Rightarrow> install_error + disk" where
  "renamed a b d =
     (case d a of
        None \<Rightarrow> Inl PathMissing
      | Some (DiskFile i c) \<Rightarrow>
          (case d b of
             Some (DiskDir _) \<Rightarrow> Inl CallFailed
           | n \<Rightarrow> if n = Some (DiskFile i c) then Inr d else Inr (d(b := Some (DiskFile i c), a := None)))
      | Some (DiskDir es) \<Rightarrow>
          (case d b of
             Some (DiskFile _ _) \<Rightarrow> Inl CallFailed
           | Some (DiskDir (_ # _)) \<Rightarrow> Inl CallFailed
           | _ \<Rightarrow> Inr (d(b := Some (DiskDir es), a := None))))"

definition fs_rename :: "fs_path \<Rightarrow> fs_path \<Rightarrow> unit install_action" where
  "fs_rename a b = one_step (on_disk (renamed a b))"

definition fs_hard_link :: "fs_path \<Rightarrow> fs_path \<Rightarrow> unit install_action" where
  "fs_hard_link a b =
     one_step (on_disk (\<lambda>d. case (d a, d b) of
       (Some (DiskFile i c), None) \<Rightarrow> Inr (d(b := Some (DiskFile i c))) | _ \<Rightarrow> Inl CallFailed))"

text \<open>A copy is a new file, or a new text for every name of the file that is there; cut short, it holds a
  first part of the text.\<close>

definition write_inode :: "nat \<Rightarrow> string \<Rightarrow> disk \<Rightarrow> disk" where
  "write_inode j c d = (\<lambda>p. case d p of
     Some (DiskFile i c') \<Rightarrow> Some (DiskFile i (if i = j then c else c')) | n \<Rightarrow> n)"

definition copied :: "fs_path \<Rightarrow> fs_path \<Rightarrow> (string \<Rightarrow> string) \<Rightarrow> install_run \<Rightarrow> install_run option" where
  "copied a b f s =
     (case (ir_disk s a, ir_disk s b) of
        (Some (DiskFile i c), None) \<Rightarrow>
          Some (s\<lparr>ir_disk := (ir_disk s)(b := Some (DiskFile (ir_inode s) (f c))), ir_inode := Suc (ir_inode s)\<rparr>)
      | (Some (DiskFile i c), Some (DiskFile j _)) \<Rightarrow> Some (s\<lparr>ir_disk := write_inode j (f c) (ir_disk s)\<rparr>)
      | _ \<Rightarrow> None)"

definition fs_copy :: "fs_path \<Rightarrow> fs_path \<Rightarrow> unit install_action" where
  "fs_copy a b =
     system_call (\<lambda>s. case copied a b (\<lambda>c. c) s of None \<Rightarrow> Inl CallFailed | Some t \<Rightarrow> Inr t)
       (\<lambda>k s. unwrap_or (copied a b (take k) s) s)"

definition fs_remove_file :: "fs_path \<Rightarrow> unit install_action" where
  "fs_remove_file p =
     one_step (on_disk (\<lambda>d. case d p of
       None \<Rightarrow> Inl PathMissing | Some (DiskDir _) \<Rightarrow> Inl CallFailed | Some (DiskFile _ _) \<Rightarrow> Inr (d(p := None))))"

text \<open>The files below a directory go one by one.\<close>

definition fs_remove_dir_all :: "fs_path \<Rightarrow> unit install_action" where
  "fs_remove_dir_all p =
     system_call
       (on_disk (\<lambda>d. case d p of
          None \<Rightarrow> Inl PathMissing | Some (DiskFile _ _) \<Rightarrow> Inl CallFailed | Some (DiskDir _) \<Rightarrow> Inr (d(p := None))))
       (\<lambda>k s. case ir_disk s p of Some (DiskDir es) \<Rightarrow> put_node p (Some (DiskDir (drop k es))) s | _ \<Rightarrow> s)"

text \<open>\<open>sync_directory\<close>, and \<open>sync_parent\<close>, which ignores its result. No result that is ignored hides
  that the process is gone.\<close>

definition sync_directory :: "fs_path \<Rightarrow> unit install_action" where
  "sync_directory p = plain_call"

definition caught :: "'a install_action \<Rightarrow> (install_error \<Rightarrow> 'a install_action) \<Rightarrow> 'a install_action" where
  "caught m h s =
     (case m s of
        (Inl e, t) \<Rightarrow> if e = ProcessKilled then (Inl e, t) else h e t
      | (Inr x, t) \<Rightarrow> (Inr x, t))"

definition ignored :: "unit install_action \<Rightarrow> unit install_action" where
  "ignored m = caught m (\<lambda>_. return_m ())"

definition sync_parent :: "fs_path \<Rightarrow> unit install_action" where
  "sync_parent p = ignored (sync_directory p)"

definition if_exists :: "fs_path \<Rightarrow> 'a install_action \<Rightarrow> 'a install_action \<Rightarrow> 'a install_action" where
  "if_exists p m n s = (if path_exists p (ir_disk s) then m s else n s)"

definition when_exists :: "fs_path \<Rightarrow> unit install_action \<Rightarrow> unit install_action" where
  "when_exists p m = if_exists p m (return_m ())"

definition on_parent :: "fs_path \<Rightarrow> (fs_path \<Rightarrow> unit install_action) \<Rightarrow> unit install_action" where
  "on_parent p f = (case path_parent p of None \<Rightarrow> return_m () | Some q \<Rightarrow> f q)"

end
