(* ===== verification/Upgrade_Install.thy ===== *)
theory Upgrade_Install
  imports Upgrade_Disk
begin

text \<open>
  The replacement of an installed \<open>ctx\<close> on Unix (\<open>upgrade/install.rs\<close> of \<open>ctx-cli\<close>): the journal, the
  publication of the staged files, its rollback, and the recovery of an interrupted installation.
  The hooks for tests, which exist in debug builds only, are left out.
\<close>

section \<open>Names\<close>

definition file_name_or :: "string \<Rightarrow> fs_path \<Rightarrow> string" where
  "file_name_or fallback p = unwrap_or (path_name p) fallback"

definition transaction_backup_path :: "fs_path \<Rightarrow> string \<Rightarrow> string \<Rightarrow> fs_path" where
  "transaction_backup_path target unique label =
     with_file_name target
       (''.'' @ file_name_or label target @ ''.ctx-upgrade-'' @ unique @ ''.'' @ label @ ''.previous'')"

definition install_marker_path :: "fs_path \<Rightarrow> fs_path" where
  "install_marker_path p = with_file_name p (file_name_or ''ctx'' p @ ''.install.json'')"

definition backup_path :: "fs_path \<Rightarrow> fs_path" where
  "backup_path target = with_file_name target (file_name_or ''ctx'' target @ ''.previous'')"

definition staged_name :: "string \<Rightarrow> string" where
  "staged_name unique = ''.ctx-upgrade-'' @ unique @ ''.new''"

definition staged_marker_name :: "string \<Rightarrow> string" where
  "staged_marker_name unique = ''.ctx-upgrade-'' @ unique @ ''.install.json.new''"

definition staged_runtime_name :: "string \<Rightarrow> string \<Rightarrow> string" where
  "staged_runtime_name name unique = ''.'' @ name @ ''.ctx-upgrade-'' @ unique @ ''.new''"

abbreviation "runtime_label \<equiv> ''ONNX Runtime sidecar''"
abbreviation "binary_label \<equiv> ''ctx binary''"
abbreviation "marker_label \<equiv> ''ctx install marker''"

section \<open>The journal\<close>

text \<open>\<open>write_install_transaction\<close>: create the directory, create, write and sync the temporary file, rename
  it over the journal, sync the directory; when one of the last five fails, the temporary file goes.\<close>

definition write_install_transaction :: "install_journal \<Rightarrow> unit install_action" where
  "write_install_transaction j =
     bind_m plain_call (\<lambda>_.
       caught
         (bind_m plain_call (\<lambda>_.
          bind_m plain_call (\<lambda>_.
          bind_m plain_call (\<lambda>_.
          bind_m (one_step (\<lambda>s. Inr (s\<lparr>ir_journal := Some j\<rparr>))) (\<lambda>_.
          sync_directory [])))))
         (\<lambda>e. bind_m (ignored plain_call) (\<lambda>_. raise_m e)))"

definition remove_install_transaction :: "unit install_action" where
  "remove_install_transaction =
     bind_m
       (caught
         (bind_m (one_step (\<lambda>s. if ir_journal s = None then Inl PathMissing else Inr (s\<lparr>ir_journal := None\<rparr>)))
           (\<lambda>_. return_m True))
         (\<lambda>e. if e = PathMissing then return_m False else raise_m e))
       (\<lambda>removed. if removed then sync_directory [] else return_m ())"

section \<open>Publication\<close>

definition set_had_previous :: "string \<Rightarrow> bool \<Rightarrow> unit install_action" where
  "set_had_previous l b = modify_m (\<lambda>s. s\<lparr>ir_had_previous := (ir_had_previous s)(l := b)\<rparr>)"

definition set_published :: "string \<Rightarrow> bool \<Rightarrow> unit install_action" where
  "set_published l b = modify_m (\<lambda>s. s\<lparr>ir_published := (ir_published s)(l := b)\<rparr>)"

definition when_m :: "(install_run \<Rightarrow> bool) \<Rightarrow> unit install_action \<Rightarrow> unit install_action" where
  "when_m c m s = (if c s then m s else (Inr (), s))"

definition remove_published_path :: "fs_path \<Rightarrow> path_kind \<Rightarrow> unit install_action" where
  "remove_published_path p kind =
     (case kind of FileKind \<Rightarrow> fs_remove_file p | DirectoryKind \<Rightarrow> fs_remove_dir_all p)"

definition backup_file_for_atomic_replace :: "fs_path \<Rightarrow> fs_path \<Rightarrow> unit install_action" where
  "backup_file_for_atomic_replace target backup =
     caught (fs_hard_link target backup) (\<lambda>_. bind_m (fs_copy target backup) (\<lambda>_. plain_call))"

definition publish :: "journal_path \<Rightarrow> unit install_action" where
  "publish p =
     bind_m (when_exists (jp_backup p) (raise_m (BackupExists (jp_label p)))) (\<lambda>_.
     bind_m (when_exists (jp_target p)
       (bind_m (case jp_kind p of
            FileKind \<Rightarrow> backup_file_for_atomic_replace (jp_target p) (jp_backup p)
          | DirectoryKind \<Rightarrow> fs_rename (jp_target p) (jp_backup p)) (\<lambda>_.
        bind_m (set_had_previous (jp_label p) True) (\<lambda>_.
        on_parent (jp_target p) sync_directory)))) (\<lambda>_.
     bind_m (fs_rename (jp_staged p) (jp_target p)) (\<lambda>_.
     bind_m (set_published (jp_label p) True) (\<lambda>_.
     on_parent (jp_target p) sync_parent))))"

definition rollback_path :: "journal_path \<Rightarrow> unit install_action" where
  "rollback_path p =
     bind_m (when_m (\<lambda>s. ir_published s (jp_label p) \<and> path_exists (jp_target p) (ir_disk s))
       (bind_m (remove_published_path (jp_target p) (jp_kind p)) (\<lambda>_.
        set_published (jp_label p) False))) (\<lambda>_.
     bind_m (when_m (\<lambda>s. ir_had_previous s (jp_label p))
       (bind_m (fs_rename (jp_backup p) (jp_target p)) (\<lambda>_.
        set_had_previous (jp_label p) False))) (\<lambda>_.
     on_parent (jp_target p) sync_parent))"

definition discard_backup :: "journal_path \<Rightarrow> unit install_action" where
  "discard_backup p =
     bind_m (when_m (\<lambda>s. ir_had_previous s (jp_label p))
       (bind_m (remove_published_path (jp_backup p) (jp_kind p)) (\<lambda>_.
        if_exists (jp_backup p) (set_had_previous (jp_label p) True) (set_had_previous (jp_label p) False)))) (\<lambda>_.
     on_parent (jp_target p) sync_directory)"

definition retain_backup_as :: "fs_path \<Rightarrow> journal_path \<Rightarrow> unit install_action" where
  "retain_backup_as durable p =
     when_m (\<lambda>s. ir_had_previous s (jp_label p))
       (bind_m (when_exists durable (fs_remove_file durable)) (\<lambda>_.
        bind_m (fs_rename (jp_backup p) durable) (\<lambda>_.
        bind_m (set_had_previous (jp_label p) False) (\<lambda>_.
        on_parent (jp_target p) sync_directory))))"

text \<open>\<open>rollback_unix_publication\<close> goes on after an error and gathers them.\<close>

fun rollback_unix_publication :: "journal_path list \<Rightarrow> install_error list install_action" where
  "rollback_unix_publication [] = return_m []"
| "rollback_unix_publication (p # ps) =
     bind_m (caught (bind_m (rollback_path p) (\<lambda>_. return_m [])) (\<lambda>e. return_m [e])) (\<lambda>es.
     bind_m (rollback_unix_publication ps) (\<lambda>es'. return_m (es @ es')))"

definition undo_publication :: "journal_path list \<Rightarrow> install_error \<Rightarrow> unit install_action" where
  "undo_publication ps primary =
     bind_m (rollback_unix_publication ps) (\<lambda>es.
       if es \<noteq> [] then raise_m (RollbackFailures primary es)
       else
         bind_m (caught remove_install_transaction (\<lambda>e. raise_m (RollbackFailures primary [e]))) (\<lambda>_.
         raise_m primary))"

text \<open>What \<open>replace_binary\<close> takes from the plan: where \<open>ctx\<close> is, the staged files, and the staged and
  the final path of the runtime, when the release has one.\<close>

record install_plan =
  ip_install_path :: fs_path
  ip_unique :: string
  ip_staged :: fs_path
  ip_marker_staged :: fs_path
  ip_runtime :: "(fs_path \<times> fs_path) option"

definition runtime_entry :: "install_plan \<Rightarrow> journal_path option" where
  "runtime_entry pl =
     map_option (\<lambda>(staged, target).
       \<lparr>jp_label = runtime_label, jp_staged = staged, jp_target = target,
        jp_backup = transaction_backup_path target (ip_unique pl) ''runtime'', jp_kind = DirectoryKind\<rparr>) (ip_runtime pl)"

definition binary_entry :: "install_plan \<Rightarrow> journal_path" where
  "binary_entry pl =
     \<lparr>jp_label = binary_label, jp_staged = ip_staged pl, jp_target = ip_install_path pl,
      jp_backup = transaction_backup_path (ip_install_path pl) (ip_unique pl) ''binary'', jp_kind = FileKind\<rparr>"

definition marker_entry :: "install_plan \<Rightarrow> journal_path" where
  "marker_entry pl =
     (let target = install_marker_path (ip_install_path pl)
      in \<lparr>jp_label = marker_label, jp_staged = ip_marker_staged pl, jp_target = target,
          jp_backup = transaction_backup_path target (ip_unique pl) ''marker'', jp_kind = FileKind\<rparr>)"

fun option_list :: "'a option \<Rightarrow> 'a list" where
  "option_list None = []"
| "option_list (Some x) = [x]"

definition plan_entries :: "install_plan \<Rightarrow> journal_path list" where
  "plan_entries pl = option_list (runtime_entry pl) @ [binary_entry pl, marker_entry pl]"

definition plan_journal :: "install_plan \<Rightarrow> journal_phase \<Rightarrow> install_journal" where
  "plan_journal pl phase =
     \<lparr>ij_schema_version = 1, ij_transaction_id = ip_unique pl, ij_phase = phase,
      ij_install_path = ip_install_path pl, ij_paths = plan_entries pl\<rparr>"

definition replace_binary :: "install_plan \<Rightarrow> unit install_action" where
  "replace_binary pl =
     bind_m (write_install_transaction (plan_journal pl Publishing)) (\<lambda>_.
     bind_m (caught (for_each publish (plan_entries pl)) (undo_publication (rev (plan_entries pl)))) (\<lambda>_.
     bind_m (caught (write_install_transaction (plan_journal pl Committed))
       (undo_publication (rev (plan_entries pl)))) (\<lambda>_.
     bind_m (discard_backup (marker_entry pl)) (\<lambda>_.
     bind_m (for_each discard_backup (option_list (runtime_entry pl))) (\<lambda>_.
     bind_m (retain_backup_as (backup_path (ip_install_path pl)) (binary_entry pl)) (\<lambda>_.
     remove_install_transaction))))))"

text \<open>The end of \<open>apply_artifact\<close>: what a failed replacement leaves staged goes.\<close>

definition remove_staged :: "install_plan \<Rightarrow> unit install_action" where
  "remove_staged pl =
     bind_m (ignored (fs_remove_file (ip_staged pl))) (\<lambda>_.
     bind_m (ignored (fs_remove_file (ip_marker_staged pl))) (\<lambda>_.
     for_each (\<lambda>rt. ignored (fs_remove_dir_all (fst rt))) (option_list (ip_runtime pl))))"

definition install_staged :: "install_plan \<Rightarrow> unit install_action" where
  "install_staged pl =
     bind_m (caught (replace_binary pl) (\<lambda>e. bind_m (remove_staged pl) (\<lambda>_. raise_m e))) (\<lambda>_.
     on_parent (ip_install_path pl) sync_parent)"

section \<open>Recovery\<close>

text \<open>What the recovery reads from its process: the path of the running program, the root of the
  runtimes, the platform.\<close>

record install_env =
  ie_install_path :: "install_error + fs_path"
  ie_runtime_root :: "install_error + fs_path"
  ie_platform :: "install_error + string"

definition entry_with_label :: "string \<Rightarrow> install_journal \<Rightarrow> journal_path option" where
  "entry_with_label l j = find (\<lambda>p. jp_label p = l) (ij_paths j)"

definition ensured :: "bool \<Rightarrow> string \<Rightarrow> install_error + unit" where
  "ensured ok reason = (if ok then Inr () else Inl (InvalidTransaction reason))"

definition is_id_byte :: "char \<Rightarrow> bool" where
  "is_id_byte c \<longleftrightarrow> is_ascii_alphanumeric c \<or> c = CHR ''.'' \<or> c = CHR ''-''"

definition valid_identity :: "install_journal \<Rightarrow> bool" where
  "valid_identity j \<longleftrightarrow>
     ij_schema_version j = 1 \<and> ij_transaction_id j \<noteq> [] \<and> length (ij_transaction_id j) \<le> 128
     \<and> list_all is_id_byte (ij_transaction_id j)"

definition valid_binary :: "install_journal \<Rightarrow> journal_path \<Rightarrow> bool" where
  "valid_binary j p \<longleftrightarrow>
     jp_kind p = FileKind \<and> jp_target p = ij_install_path j
     \<and> jp_staged p = butlast (ij_install_path j) @ [staged_name (ij_transaction_id j)]
     \<and> jp_backup p = transaction_backup_path (ij_install_path j) (ij_transaction_id j) ''binary''"

definition valid_marker :: "install_journal \<Rightarrow> journal_path \<Rightarrow> bool" where
  "valid_marker j p \<longleftrightarrow>
     jp_kind p = FileKind \<and> jp_target p = install_marker_path (ij_install_path j)
     \<and> jp_staged p = butlast (ij_install_path j) @ [staged_marker_name (ij_transaction_id j)]
     \<and> jp_backup p = transaction_backup_path (install_marker_path (ij_install_path j)) (ij_transaction_id j) ''marker''"

definition valid_runtime_paths :: "install_journal \<Rightarrow> journal_path \<Rightarrow> string \<Rightarrow> bool" where
  "valid_runtime_paths j p name \<longleftrightarrow>
     jp_kind p = DirectoryKind
     \<and> jp_staged p = with_file_name (jp_target p) (staged_runtime_name name (ij_transaction_id j))
     \<and> jp_backup p = transaction_backup_path (jp_target p) (ij_transaction_id j) ''runtime''"

definition is_normal :: "string \<Rightarrow> bool" where
  "is_normal c \<longleftrightarrow> c \<noteq> ''.'' \<and> c \<noteq> ''..''"

definition validate_runtime_entry :: "install_env \<Rightarrow> install_journal \<Rightarrow> journal_path \<Rightarrow> install_error + unit" where
  "validate_runtime_entry E j p =
     (case path_name (jp_target p) of
        None \<Rightarrow> Inl (InvalidTransaction ''runtime target has no file name'')
      | Some name \<Rightarrow>
          bind_result (ensured (valid_runtime_paths j p name) ''invalid runtime paths'') (\<lambda>_.
          bind_result (ie_runtime_root E) (\<lambda>root.
            let root = root @ [''onnxruntime'']
            in if take (length root) (jp_target p) \<noteq> root
               then Inl (InvalidTransaction ''runtime is outside the selected runtime root'')
               else
                 let relative = drop (length root) (jp_target p)
                 in if length relative \<noteq> 2 \<or> \<not> list_all is_normal relative
                    then Inl (InvalidTransaction ''invalid runtime identity'')
                    else bind_result (ie_platform E) (\<lambda>platform.
                      ensured (name = platform) ''invalid runtime identity''))))"

definition validate_install_transaction :: "install_env \<Rightarrow> install_journal \<Rightarrow> install_error + unit" where
  "validate_install_transaction E j =
     bind_result (ensured (valid_identity j) ''invalid identity'') (\<lambda>_.
     bind_result (ie_install_path E) (\<lambda>expected.
     bind_result (ensured (ij_install_path j = expected) ''not the current managed install'') (\<lambda>_.
     (case entry_with_label binary_label j of
       None \<Rightarrow> Inl (InvalidTransaction ''missing ctx binary'')
     | Some binary \<Rightarrow>
     (case entry_with_label marker_label j of
       None \<Rightarrow> Inl (InvalidTransaction ''missing ctx install marker'')
     | Some marker \<Rightarrow>
     bind_result (ensured (length (ij_paths j) \<in> {2, 3}) ''unexpected path count'') (\<lambda>_.
     bind_result (ensured (path_parent (ij_install_path j) \<noteq> None) ''install path has no parent'') (\<lambda>_.
     bind_result (ensured (valid_binary j binary) ''invalid binary paths'') (\<lambda>_.
     bind_result (ensured (valid_marker j marker) ''invalid marker paths'') (\<lambda>_.
     (let runtimes = filter (\<lambda>p. jp_label p = runtime_label) (ij_paths j)
     in bind_result (ensured (length (ij_paths j) = 3 \<longrightarrow> length runtimes = 1) ''invalid runtime paths'') (\<lambda>_.
        bind_result (case runtimes of [] \<Rightarrow> Inr () | p # _ \<Rightarrow> validate_runtime_entry E j p) (\<lambda>_.
        ensured (list_all (\<lambda>p. jp_label p \<in> {runtime_label, binary_label, marker_label}) (ij_paths j))
          ''unknown path label''))))))))))))"

definition remove_journal_path :: "fs_path \<Rightarrow> path_kind \<Rightarrow> unit install_action" where
  "remove_journal_path p kind =
     caught (remove_published_path p kind) (\<lambda>e. if e = PathMissing then return_m () else raise_m e)"

definition restore_backup :: "journal_path \<Rightarrow> unit install_action" where
  "restore_backup p =
     if_exists (jp_staged p)
       (if_exists (jp_target p)
         (case jp_kind p of
            FileKind \<Rightarrow> remove_journal_path (jp_backup p) (jp_kind p)
          | DirectoryKind \<Rightarrow> raise_m (BothDirectories (jp_label p)))
         (fs_rename (jp_backup p) (jp_target p)))
       (bind_m (when_exists (jp_target p) (remove_journal_path (jp_target p) (jp_kind p))) (\<lambda>_.
        fs_rename (jp_backup p) (jp_target p)))"

definition rollback_journal_path :: "journal_path \<Rightarrow> unit install_action" where
  "rollback_journal_path p =
     bind_m
       (if_exists (jp_backup p) (restore_backup p)
         (if_exists (jp_staged p) (return_m ())
           (when_exists (jp_target p) (remove_journal_path (jp_target p) (jp_kind p))))) (\<lambda>_.
     bind_m (when_exists (jp_staged p) (remove_journal_path (jp_staged p) (jp_kind p))) (\<lambda>_.
     on_parent (jp_target p) sync_directory))"

definition rollback_journal_paths :: "journal_path list \<Rightarrow> unit install_action" where
  "rollback_journal_paths ps = for_each rollback_journal_path (rev ps)"

definition check_published :: "journal_path \<Rightarrow> unit install_action" where
  "check_published p =
     if_exists (jp_target p)
       (when_exists (jp_staged p) (raise_m (IncompletePublication (jp_label p))))
       (raise_m (IncompletePublication (jp_label p)))"

definition retain_journal_binary_backup :: "journal_path \<Rightarrow> fs_path \<Rightarrow> unit install_action" where
  "retain_journal_binary_backup p durable =
     bind_m (when_exists durable (fs_remove_file durable)) (\<lambda>_. fs_rename (jp_backup p) durable)"

definition finish_committed_path :: "fs_path \<Rightarrow> journal_path \<Rightarrow> unit install_action" where
  "finish_committed_path install_path p =
     when_exists (jp_backup p)
       (bind_m (if jp_label p = binary_label then retain_journal_binary_backup p (backup_path install_path)
                else remove_journal_path (jp_backup p) (jp_kind p)) (\<lambda>_.
        on_parent (jp_target p) sync_directory))"

definition finish_committed_journal :: "install_journal \<Rightarrow> unit install_action" where
  "finish_committed_journal j =
     bind_m (for_each check_published (ij_paths j)) (\<lambda>_.
     for_each (finish_committed_path (ij_install_path j)) (ij_paths j))"

definition recover_interrupted_install :: "install_env \<Rightarrow> bool install_action" where
  "recover_interrupted_install E =
     bind_m plain_call (\<lambda>_.
     bind_m (read_m (\<lambda>s. Inr (ir_journal s))) (\<lambda>journal.
     (case journal of
       None \<Rightarrow> return_m False
     | Some j \<Rightarrow>
         bind_m (of_result (validate_install_transaction E j)) (\<lambda>_.
         bind_m (case ij_phase j of
             Publishing \<Rightarrow> rollback_journal_paths (ij_paths j)
           | Committed \<Rightarrow> finish_committed_journal j) (\<lambda>_.
         bind_m remove_install_transaction (\<lambda>_. return_m True))))))"

end
