(* ===== verification/Upgrade_Recovery.thy ===== *)
theory Upgrade_Recovery
  imports Upgrade_Install
begin

text \<open>
  What an interrupted installation leaves and what the recovery makes of it. A call is executed on the
  part of the state it can see (\<open>sees\<close>); a triple collects the states in which the process can be killed.
\<close>

section \<open>Rules for calls\<close>

definition calls_ok :: "bool \<Rightarrow> call_effect list \<Rightarrow> bool" where
  "calls_ok k cs \<longleftrightarrow> (\<forall>c \<in> set cs. c = Works \<or> k \<and> (\<exists>n. c = Killed n))"

type_synonym run_view = "disk \<times> install_journal option \<times> (string \<Rightarrow> bool)"

definition view :: "install_run \<Rightarrow> run_view" where
  "view s = (ir_disk s, ir_journal s, ir_had_previous s)"

definition sees :: "bool \<Rightarrow> run_view \<Rightarrow> install_run \<Rightarrow> bool" where
  "sees k v s \<longleftrightarrow> view s = v \<and> calls_ok k (ir_calls s)"

definition killed_in :: "(run_view \<Rightarrow> bool) \<Rightarrow> install_error \<Rightarrow> install_run \<Rightarrow> bool" where
  "killed_in S e s \<longleftrightarrow> e = ProcessKilled \<and> S (view s)"

lemma calls_ok_drop: "calls_ok k cs \<Longrightarrow> calls_ok k (drop 1 cs)"
  by (auto simp: calls_ok_def dest: in_set_dropD)

lemma triple_system_call:
  assumes ok: "\<And>s. view s = v \<Longrightarrow> \<exists>t. full s = Inr t \<and> view t = v' \<and> ir_calls t = ir_calls s"
    and part: "\<And>s n. k \<Longrightarrow> view s = v \<Longrightarrow> S (view (part n s))"
    and here: "k \<Longrightarrow> S v"
  shows "triple (sees k v) (system_call full part) (\<lambda>_. sees k v') (killed_in S)"
proof (rule triple_pre)
  fix s assume "sees k v s"
  then have v: "view s = v" and calls: "calls_ok k (ir_calls s)" by (simp_all add: sees_def)
  let ?s = "s\<lparr>ir_calls := drop 1 (ir_calls s)\<rparr>"
  have v': "view ?s = v" using v by (simp add: view_def)
  obtain t where t: "full ?s = Inr t" "view t = v'" "ir_calls t = drop 1 (ir_calls s)" using ok [OF v'] by auto
  have first: "ir_calls s = c # cs \<Longrightarrow> c = Works \<or> k \<and> (\<exists>n. c = Killed n)" for c cs
    using calls by (simp add: calls_ok_def)
  have worked: "sees k v' t" using t calls calls_ok_drop by (simp add: sees_def)
  have killed: "k \<Longrightarrow> S (view (part_done part n ?s))" for n
    using part [OF _ v'] here v' by (simp add: part_done_def split: option.split)
  show "triple (\<lambda>t. t = s) (system_call full part) (\<lambda>_. sees k v') (killed_in S)"
    using t worked killed first
    by (auto simp: triple_def system_call_def Let_def killed_in_def split: list.split)
qed

lemma triple_one_step:
  assumes "\<And>s. view s = v \<Longrightarrow> \<exists>t. full s = Inr t \<and> view t = v' \<and> ir_calls t = ir_calls s" "k \<Longrightarrow> S v"
  shows "triple (sees k v) (one_step full) (\<lambda>_. sees k v') (killed_in S)"
  unfolding one_step_def by (rule triple_system_call) (use assms in auto)

lemma triple_on_disk:
  assumes "f d = Inr d'" "k \<Longrightarrow> S (d, j, h)"
  shows "triple (sees k (d, j, h)) (one_step (on_disk f)) (\<lambda>_. sees k (d', j, h)) (killed_in S)"
  by (rule triple_one_step) (use assms in \<open>auto simp: view_def on_disk_def\<close>)

lemma triple_plain_call: "(k \<Longrightarrow> S v) \<Longrightarrow> triple (sees k v) plain_call (\<lambda>_. sees k v) (killed_in S)"
  unfolding plain_call_def by (rule triple_one_step) auto

lemma triple_rename:
  "renamed a b d = Inr d' \<Longrightarrow> (k \<Longrightarrow> S (d, j, h)) \<Longrightarrow>
   triple (sees k (d, j, h)) (fs_rename a b) (\<lambda>_. sees k (d', j, h)) (killed_in S)"
  unfolding fs_rename_def by (rule triple_on_disk)

lemma triple_hard_link:
  "d a = Some (DiskFile i c) \<Longrightarrow> d b = None \<Longrightarrow> (k \<Longrightarrow> S (d, j, h)) \<Longrightarrow>
   triple (sees k (d, j, h)) (fs_hard_link a b) (\<lambda>_. sees k (d(b := d a), j, h)) (killed_in S)"
  unfolding fs_hard_link_def by (rule triple_on_disk) auto

definition kind_of :: "disk_node \<Rightarrow> path_kind" where
  "kind_of n = (case n of DiskFile _ _ \<Rightarrow> FileKind | DiskDir _ \<Rightarrow> DirectoryKind)"

lemma kind_of_simps [simp]:
  "kind_of (DiskFile i c) = FileKind" "kind_of (DiskDir es) = DirectoryKind"
  by (simp_all add: kind_of_def)

lemma kind_of_eq:
  "kind_of n = FileKind \<longleftrightarrow> (\<exists>i c. n = DiskFile i c)" "kind_of n = DirectoryKind \<longleftrightarrow> (\<exists>es. n = DiskDir es)"
  by (cases n; simp)+

text \<open>A removal that is cut short leaves something of the same kind.\<close>

lemma triple_remove:
  assumes "d p = Some n" "\<And>m. k \<Longrightarrow> kind_of m = kind_of n \<Longrightarrow> S (d(p := Some m), j, h)"
  shows "triple (sees k (d, j, h)) (remove_published_path p (kind_of n)) (\<lambda>_. sees k (d(p := None), j, h)) (killed_in S)"
proof (cases n)
  case (DiskFile i c)
  have "k \<Longrightarrow> S (d, j, h)" using assms(2) [of n] assms(1) by (simp add: fun_upd_idem)
  then show ?thesis unfolding remove_published_path_def DiskFile kind_of_simps path_kind.case fs_remove_file_def
    by (intro triple_on_disk) (use assms(1) DiskFile in auto)
next
  case (DiskDir es)
  have "k \<Longrightarrow> S (d, j, h)" using assms(2) [of n] assms(1) by (simp add: fun_upd_idem)
  then show ?thesis unfolding remove_published_path_def DiskDir kind_of_simps path_kind.case fs_remove_dir_all_def
    by (intro triple_system_call)
      (use assms DiskDir in \<open>auto simp: view_def on_disk_def put_node_def\<close>)
qed

lemma triple_caught: "triple P m Q (killed_in S) \<Longrightarrow> triple P (caught m h) Q (killed_in S)"
  by (fastforce simp: triple_def caught_def killed_in_def split: prod.splits sum.splits)

lemma triple_remove_journal_path:
  assumes "d p = Some n" "kind_of n = kind" "\<And>m. k \<Longrightarrow> kind_of m = kind \<Longrightarrow> S (d(p := Some m), j, h)"
  shows "triple (sees k (d, j, h)) (remove_journal_path p kind) (\<lambda>_. sees k (d(p := None), j, h)) (killed_in S)"
  unfolding remove_journal_path_def by (rule triple_caught) (use assms triple_remove in blast)

lemma triple_sync: "(k \<Longrightarrow> S v) \<Longrightarrow> triple (sees k v) (sync_directory p) (\<lambda>_. sees k v) (killed_in S)"
  unfolding sync_directory_def by (rule triple_plain_call)

lemma triple_on_parent:
  "(\<And>q. triple (sees k v) (f q) (\<lambda>_. sees k v) R) \<Longrightarrow> triple (sees k v) (on_parent p f) (\<lambda>_. sees k v) R"
  unfolding on_parent_def by (auto split: option.split intro: triple_intros)

lemma triple_sync_parent:
  "(k \<Longrightarrow> S v) \<Longrightarrow> triple (sees k v) (on_parent p sync_directory) (\<lambda>_. sees k v) (killed_in S)"
  "(k \<Longrightarrow> S v) \<Longrightarrow> triple (sees k v) (on_parent p sync_parent) (\<lambda>_. sees k v) (killed_in S)"
  unfolding sync_parent_def ignored_def by (intro triple_on_parent triple_caught triple_sync; simp)+

lemma triple_if_exists:
  "(d p \<noteq> None \<Longrightarrow> triple (sees k (d, j, h)) m Q R) \<Longrightarrow> (d p = None \<Longrightarrow> triple (sees k (d, j, h)) n Q R) \<Longrightarrow>
   triple (sees k (d, j, h)) (if_exists p m n) Q R"
  by (auto simp: triple_def if_exists_def path_exists_def sees_def view_def)

lemma triple_when_exists:
  "(d p \<noteq> None \<Longrightarrow> triple (sees k (d, j, h)) m (\<lambda>_. sees k v') R) \<Longrightarrow> (d p = None \<Longrightarrow> v' = (d, j, h)) \<Longrightarrow>
   triple (sees k (d, j, h)) (when_exists p m) (\<lambda>_. sees k v') R"
  unfolding when_exists_def by (rule triple_if_exists) (auto intro: triple_intros)

lemma triple_had_previous:
  "triple (sees k (d, j, h)) (set_had_previous l b) (\<lambda>_. sees k (d, j, h(l := b))) R"
  unfolding set_had_previous_def by (rule triple_modify) (auto simp: sees_def view_def)

lemma triple_set_published: "triple (sees k v) (set_published l b) (\<lambda>_. sees k v) R"
  unfolding set_published_def by (rule triple_modify) (auto simp: sees_def view_def)

lemma triple_when_had:
  "(h l \<Longrightarrow> triple (sees k (d, j, h)) m (\<lambda>_. sees k v') R) \<Longrightarrow> (\<not> h l \<Longrightarrow> v' = (d, j, h)) \<Longrightarrow>
   triple (sees k (d, j, h)) (when_m (\<lambda>s. ir_had_previous s l) m) (\<lambda>_. sees k v') R"
  by (auto simp: triple_def when_m_def sees_def view_def)

section \<open>One path\<close>

text \<open>\<open>New p\<close> is what was staged for an entry, \<open>Old p\<close> what was installed before, if anything.\<close>

definition untouched :: "(journal_path \<Rightarrow> disk_node) \<Rightarrow> (journal_path \<Rightarrow> disk_node option) \<Rightarrow> journal_path \<Rightarrow> disk \<Rightarrow> bool" where
  "untouched New Old p d \<longleftrightarrow>
     d (jp_staged p) = Some (New p) \<and> d (jp_target p) = Old p \<and> d (jp_backup p) = None"

definition backed_up :: "(journal_path \<Rightarrow> disk_node) \<Rightarrow> (journal_path \<Rightarrow> disk_node option) \<Rightarrow> journal_path \<Rightarrow> disk \<Rightarrow> bool" where
  "backed_up New Old p d \<longleftrightarrow>
     Old p \<noteq> None \<and> d (jp_staged p) = Some (New p) \<and> d (jp_backup p) = Old p
     \<and> d (jp_target p) = (if jp_kind p = FileKind then Old p else None)"

definition moved_in :: "(journal_path \<Rightarrow> disk_node) \<Rightarrow> (journal_path \<Rightarrow> disk_node option) \<Rightarrow> journal_path \<Rightarrow> disk \<Rightarrow> bool" where
  "moved_in New Old p d \<longleftrightarrow>
     d (jp_staged p) = None \<and> d (jp_target p) = Some (New p) \<and> d (jp_backup p) = Old p"

definition recoverable :: "(journal_path \<Rightarrow> disk_node) \<Rightarrow> (journal_path \<Rightarrow> disk_node option) \<Rightarrow> journal_path \<Rightarrow> disk \<Rightarrow> bool" where
  "recoverable New Old p d \<longleftrightarrow> untouched New Old p d \<or> backed_up New Old p d \<or> moved_in New Old p d"

text \<open>After the commit: the backup is there, gone, or gone in part.\<close>

definition settled_path :: "(journal_path \<Rightarrow> disk_node) \<Rightarrow> journal_path \<Rightarrow> disk \<Rightarrow> bool" where
  "settled_path New p d \<longleftrightarrow>
     d (jp_staged p) = None \<and> d (jp_target p) = Some (New p)
     \<and> (\<forall>n. d (jp_backup p) = Some n \<longrightarrow> kind_of n = jp_kind p)"

definition slots :: "journal_path \<Rightarrow> fs_path list" where
  "slots p = [jp_staged p, jp_target p, jp_backup p]"

definition same_but :: "fs_path set \<Rightarrow> disk \<Rightarrow> disk \<Rightarrow> bool" where
  "same_but A d d' \<longleftrightarrow> (\<forall>q. q \<notin> A \<longrightarrow> d' q = d q)"

lemma same_but_upd: "same_but A d d' \<Longrightarrow> q \<in> A \<Longrightarrow> same_but A d (d'(q := n))"
  by (simp add: same_but_def)

lemma same_but_refl: "same_but A d d"
  by (simp add: same_but_def)

lemmas path_states = untouched_def backed_up_def moved_in_def recoverable_def settled_path_def slots_def

definition put_paths :: "journal_path \<Rightarrow> disk_node option \<Rightarrow> disk_node option \<Rightarrow> disk_node option \<Rightarrow> disk \<Rightarrow> disk" where
  "put_paths p s t b d = d(jp_staged p := s, jp_target p := t, jp_backup p := b)"

lemma same_but_put: "same_but (set (slots p)) d (put_paths p s t b d)"
  by (simp add: same_but_def put_paths_def slots_def)

lemma put_paths_at:
  assumes "distinct (slots p)"
  shows "put_paths p s t b d (jp_staged p) = s" "put_paths p s t b d (jp_target p) = t" "put_paths p s t b d (jp_backup p) = b"
  using assms by (auto simp: put_paths_def slots_def)

lemma put_paths_put:
  "distinct (slots p) \<Longrightarrow> (put_paths p s t b d)(jp_staged p := s') = put_paths p s' t b d"
  "distinct (slots p) \<Longrightarrow> (put_paths p s t b d)(jp_target p := t') = put_paths p s t' b d"
  "distinct (slots p) \<Longrightarrow> (put_paths p s t b d)(jp_backup p := b') = put_paths p s t b' d"
  by (auto simp: put_paths_def slots_def fun_upd_twist)

lemma as_put_paths:
  "d (jp_staged p) = s \<Longrightarrow> d (jp_target p) = t \<Longrightarrow> d (jp_backup p) = b \<Longrightarrow> put_paths p s t b d = d"
  by (auto simp: put_paths_def)

definition kinds_fit :: "(journal_path \<Rightarrow> disk_node) \<Rightarrow> (journal_path \<Rightarrow> disk_node option) \<Rightarrow> journal_path \<Rightarrow> bool" where
  "kinds_fit New Old p \<longleftrightarrow>
     kind_of (New p) = jp_kind p \<and> (\<forall>n. Old p = Some n \<longrightarrow> kind_of n = jp_kind p)
     \<and> (jp_kind p = FileKind \<longrightarrow> Old p \<noteq> Some (New p))"

lemma renamed_fresh: "d a = Some n \<Longrightarrow> d b = None \<Longrightarrow> a \<noteq> b \<Longrightarrow> renamed a b d = Inr (d(b := Some n, a := None))"
  by (cases n) (auto simp: renamed_def)

lemma renamed_file:
  "d a = Some (DiskFile i c) \<Longrightarrow> d b = Some (DiskFile i' c') \<Longrightarrow> (i, c) \<noteq> (i', c') \<Longrightarrow>
   renamed a b d = Inr (d(b := Some (DiskFile i c), a := None))"
  by (auto simp: renamed_def)

lemma renamed_put:
  assumes "distinct (slots p)"
  shows "renamed (jp_staged p) (jp_target p) (put_paths p (Some n) None b d) = Inr (put_paths p None (Some n) b d)"
    "renamed (jp_target p) (jp_backup p) (put_paths p s (Some n) None d) = Inr (put_paths p s None (Some n) d)"
    "renamed (jp_backup p) (jp_target p) (put_paths p s None (Some n) d) = Inr (put_paths p s (Some n) None d)"
    "kind_of n = FileKind \<Longrightarrow> kind_of m = FileKind \<Longrightarrow> n \<noteq> m \<Longrightarrow>
      renamed (jp_staged p) (jp_target p) (put_paths p (Some n) (Some m) b d) = Inr (put_paths p None (Some n) b d)"
proof -
  show "renamed (jp_staged p) (jp_target p) (put_paths p (Some n) None b d) = Inr (put_paths p None (Some n) b d)"
    "renamed (jp_target p) (jp_backup p) (put_paths p s (Some n) None d) = Inr (put_paths p s None (Some n) d)"
    "renamed (jp_backup p) (jp_target p) (put_paths p s None (Some n) d) = Inr (put_paths p s (Some n) None d)"
    using assms by (subst renamed_fresh; auto simp: put_paths_at put_paths_put slots_def)+
  show "kind_of n = FileKind \<Longrightarrow> kind_of m = FileKind \<Longrightarrow> n \<noteq> m \<Longrightarrow>
      renamed (jp_staged p) (jp_target p) (put_paths p (Some n) (Some m) b d) = Inr (put_paths p None (Some n) b d)"
    using assms by (auto simp: kind_of_eq renamed_def put_paths_at put_paths_put split: if_splits)
qed

text \<open>\<open>publish\<close> moves an entry in; killed on the way, it leaves it recoverable.\<close>

lemma triple_publish:
  assumes dist: "distinct (slots p)" and fit: "kinds_fit New Old p" and start: "untouched New Old p d"
    and S: "\<And>d' h'. k \<Longrightarrow> recoverable New Old p d' \<Longrightarrow> same_but (set (slots p)) d d' \<Longrightarrow> S (d', j, h')"
  shows "triple (sees k (d, j, h)) (publish p)
    (\<lambda>_. sees k (put_paths p None (Some (New p)) (Old p) d, j,
       h(jp_label p := Old p \<noteq> None \<or> h (jp_label p)))) (killed_in S)"
proof -
  define put where "put s t b = put_paths p s t b d" for s t b
  note at = put_paths_at [OF dist, where d = d, folded put_def]
  have d: "d = put (Some (New p)) (Old p) None"
    using start by (simp add: put_def untouched_def as_put_paths)
  have safe: "recoverable New Old p (put s t b) \<Longrightarrow> k \<Longrightarrow> S (put s t b, j, h')" for s t b h'
    using S same_but_put by (simp add: put_def)
  have s0: "k \<Longrightarrow> S (put (Some (New p)) (Old p) None, j, h')" for h'
    by (rule safe) (simp_all add: path_states at)
  have s2: "k \<Longrightarrow> S (put None (Some (New p)) (Old p), j, h')" for h'
    by (rule safe) (simp_all add: path_states at)
  have final: "triple (sees k (put (Some (New p)) t b, j, h'))
      (bind_m (fs_rename (jp_staged p) (jp_target p)) (\<lambda>_.
       bind_m (set_published (jp_label p) True) (\<lambda>_. on_parent (jp_target p) sync_parent)))
      (\<lambda>_. sees k (put None (Some (New p)) (Old p), j, h')) (killed_in S)"
    if "renamed (jp_staged p) (jp_target p) (put (Some (New p)) t b) = Inr (put None (Some (New p)) (Old p))"
      "k \<Longrightarrow> S (put (Some (New p)) t b, j, h')" for t b h'
    by (rule triple_bind [OF triple_rename triple_bind [OF triple_set_published triple_sync_parent(2)]])
      (use that s2 in auto)
  show ?thesis
  proof (cases "Old p")
    case None
    have fresh: "renamed (jp_staged p) (jp_target p) (put (Some (New p)) None None) = Inr (put None (Some (New p)) None)"
      using renamed_put(1) [OF dist] by (simp add: put_def)
    have "triple (sees k (d, j, h)) (publish p) (\<lambda>_. sees k (put None (Some (New p)) (Old p), j, h)) (killed_in S)"
      unfolding publish_def d
      by (rule triple_bind [OF triple_when_exists triple_bind [OF triple_when_exists final]])
        (use None s0 fresh in \<open>auto simp: at\<close>)
    then show ?thesis using None by (simp add: put_def fun_upd_idem)
  next
    case (Some m)
    let ?t = "if jp_kind p = FileKind then Old p else None"
    have s1: "k \<Longrightarrow> S (put (Some (New p)) ?t (Old p), j, h')" for h'
      by (rule safe) (use Some in \<open>simp_all add: path_states at\<close>)
    have linked: "triple (sees k (put (Some (New p)) (Old p) None, j, h))
        (case jp_kind p of
            FileKind \<Rightarrow> backup_file_for_atomic_replace (jp_target p) (jp_backup p)
          | DirectoryKind \<Rightarrow> fs_rename (jp_target p) (jp_backup p))
        (\<lambda>_. sees k (put (Some (New p)) ?t (Old p), j, h)) (killed_in S)"
    proof (cases "jp_kind p")
      case FileKind
      then obtain i c where m: "m = DiskFile i c" using fit Some by (auto simp: kinds_fit_def kind_of_eq)
      have "triple (sees k (put (Some (New p)) (Old p) None, j, h)) (fs_hard_link (jp_target p) (jp_backup p))
          (\<lambda>_. sees k ((put (Some (New p)) (Old p) None)(jp_backup p := put (Some (New p)) (Old p) None (jp_target p)), j, h))
          (killed_in S)"
        by (rule triple_hard_link) (use s0 Some m in \<open>auto simp: at\<close>)
      then show ?thesis using FileKind unfolding backup_file_for_atomic_replace_def
        by (simp add: at) (rule triple_caught, simp add: put_def put_paths_put [OF dist])
    next
      case DirectoryKind
      then show ?thesis
        by (simp, intro triple_rename) (use s0 Some renamed_put(2) [OF dist] in \<open>auto simp: put_def\<close>)
    qed
    have move: "renamed (jp_staged p) (jp_target p) (put (Some (New p)) ?t (Old p)) = Inr (put None (Some (New p)) (Old p))"
      using renamed_put(1,4) [OF dist] fit Some by (cases "jp_kind p") (auto simp: put_def kinds_fit_def)
    have "triple (sees k (d, j, h)) (publish p)
        (\<lambda>_. sees k (put None (Some (New p)) (Old p), j, h(jp_label p := True))) (killed_in S)"
      unfolding publish_def d
      apply (rule triple_bind [OF triple_when_exists triple_bind [OF triple_when_exists final]])
          apply (simp add: at)
         apply (simp add: at)
        apply (rule triple_bind [OF linked])
        apply (rule triple_bind [OF triple_had_previous])
        apply (rule triple_sync_parent(1))
        apply (rule s1, assumption)
       apply (simp add: at Some)
      apply (rule move)
      apply (rule s1, assumption)
      done
    then show ?thesis using Some by (simp add: put_def)
  qed
qed

text \<open>The recovery of a publication that was cut short puts back what was there.\<close>

lemma triple_restored:
  assumes dist: "distinct (slots p)" and fit: "kinds_fit New Old p" and start: "recoverable New Old p d"
  shows "triple (sees False (d, j, h)) (rollback_journal_path p)
    (\<lambda>_. sees False (put_paths p None (Old p) None d, j, h)) (killed_in S)"
proof -
  define put where "put s t b = put_paths p s t b d" for s t b
  note at = put_paths_at [OF dist, where d = d, folded put_def]
  have upd: "(put s t b)(jp_staged p := s') = put s' t b" "(put s t b)(jp_target p := t') = put s t' b"
    "(put s t b)(jp_backup p := b') = put s t b'" for s t b s' t' b'
    by (simp_all add: put_def put_paths_put [OF dist])
  note moves = renamed_put(3) [OF dist, where d = d, folded put_def]
  have rest: "triple (sees False (put (Some (New p)) t None, j, h))
      (bind_m (when_exists (jp_staged p) (remove_journal_path (jp_staged p) (jp_kind p))) (\<lambda>_.
        on_parent (jp_target p) sync_directory)) (\<lambda>_. sees False (put None t None, j, h)) (killed_in S)" for t
    by (rule triple_bind [OF triple_when_exists triple_sync_parent(1)])
      (use triple_remove_journal_path [of "put (Some (New p)) t None" "jp_staged p" "New p" "jp_kind p" False S j h] fit in
        \<open>auto simp: at upd kinds_fit_def\<close>)
  have rest': "triple (sees False (put None t None, j, h))
      (bind_m (when_exists (jp_staged p) (remove_journal_path (jp_staged p) (jp_kind p))) (\<lambda>_.
        on_parent (jp_target p) sync_directory)) (\<lambda>_. sees False (put None t None, j, h)) (killed_in S)" for t
    by (rule triple_bind [OF triple_when_exists triple_sync_parent(1)]) (auto simp: at)
  have "triple (sees False (d, j, h)) (rollback_journal_path p) (\<lambda>_. sees False (put None (Old p) None, j, h)) (killed_in S)"
    using start unfolding recoverable_def
  proof (elim disjE)
    assume "untouched New Old p d"
    then have d: "d = put (Some (New p)) (Old p) None" by (simp add: put_def untouched_def as_put_paths)
    show ?thesis unfolding rollback_journal_path_def d
      by (rule triple_bind [OF _ rest], intro triple_if_exists triple_return) (auto simp: at)
  next
    assume b: "backed_up New Old p d"
    show ?thesis
    proof (cases "jp_kind p")
      case FileKind
      then have d: "d = put (Some (New p)) (Old p) (Old p)"
        using b by (simp add: put_def backed_up_def as_put_paths)
      obtain m where m: "Old p = Some m" "kind_of m = FileKind"
        using b fit FileKind by (auto simp: backed_up_def kinds_fit_def)
      have "triple (sees False (d, j, h)) (remove_journal_path (jp_backup p) (jp_kind p))
          (\<lambda>_. sees False (put (Some (New p)) (Old p) None, j, h)) (killed_in S)"
        using triple_remove_journal_path [of d "jp_backup p" m "jp_kind p" False S j h] m FileKind
        by (simp add: d at upd)
      then show ?thesis unfolding rollback_journal_path_def restore_backup_def d
        by (intro triple_bind [OF _ rest] triple_if_exists) (auto simp: at m FileKind)
    next
      case DirectoryKind
      then have d: "d = put (Some (New p)) None (Old p)"
        using b by (simp add: put_def backed_up_def as_put_paths)
      obtain m where m: "Old p = Some m" using b by (auto simp: backed_up_def)
      show ?thesis unfolding rollback_journal_path_def restore_backup_def d
        by (intro triple_bind [OF _ rest] triple_if_exists triple_rename) (auto simp: at m moves)
    qed
  next
    assume "moved_in New Old p d"
    then have d: "d = put None (Some (New p)) (Old p)" by (simp add: put_def moved_in_def as_put_paths)
    have gone: "triple (sees False (put None (Some (New p)) b, j, h))
        (when_exists (jp_target p) (remove_journal_path (jp_target p) (jp_kind p)))
        (\<lambda>_. sees False (put None None b, j, h)) (killed_in S)" for b
      by (rule triple_when_exists)
        (use triple_remove_journal_path [of "put None (Some (New p)) b" "jp_target p" "New p" "jp_kind p" False S j h] fit in
          \<open>auto simp: at upd kinds_fit_def\<close>)
    show ?thesis
    proof (cases "Old p")
      case None
      then show ?thesis unfolding rollback_journal_path_def d using gone [of None]
        by (intro triple_bind [OF _ rest'] triple_if_exists) (auto simp: at)
    next
      case (Some m)
      show ?thesis unfolding rollback_journal_path_def restore_backup_def d Some
        by (intro triple_bind [OF _ rest'] triple_if_exists triple_bind [OF gone triple_rename]) (auto simp: at moves)
    qed
  qed
  then show ?thesis by (simp add: put_def)
qed

text \<open>The end of a commit: the backup goes, that of the program is kept under its durable name.\<close>

definition kept_backup :: "bool \<Rightarrow> fs_path \<Rightarrow> journal_path \<Rightarrow> disk \<Rightarrow> disk" where
  "kept_backup keep durable p d =
     (if keep \<and> d (jp_backup p) \<noteq> None then d(durable := d (jp_backup p), jp_backup p := None)
      else d(jp_backup p := None))"

definition is_file :: "disk_node option \<Rightarrow> bool" where
  "is_file n \<longleftrightarrow> (\<forall>m. n = Some m \<longrightarrow> kind_of m = FileKind)"

lemma triple_remove_file:
  assumes "d p = Some n" "kind_of n = FileKind" "k \<Longrightarrow> S (d, j, h)"
  shows "triple (sees k (d, j, h)) (fs_remove_file p) (\<lambda>_. sees k (d(p := None), j, h)) (killed_in S)"
  unfolding fs_remove_file_def by (rule triple_on_disk) (use assms in \<open>auto simp: kind_of_eq\<close>)

lemma triple_retain:
  assumes "d b = Some n" "b \<noteq> durable" "is_file (d durable)"
    and "k \<Longrightarrow> S (d, j, h)" "k \<Longrightarrow> S (d(durable := None), j, h)"
  shows "triple (sees k (d, j, h)) (bind_m (when_exists durable (fs_remove_file durable)) (\<lambda>_. fs_rename b durable))
    (\<lambda>_. sees k (d(durable := Some n, b := None), j, h)) (killed_in S)"
proof (rule triple_bind [OF triple_when_exists triple_rename])
  show "triple (sees k (d, j, h)) (fs_remove_file durable) (\<lambda>_. sees k (d(durable := None), j, h)) (killed_in S)"
    if "d durable \<noteq> None"
    using that assms by (auto simp: is_file_def intro: triple_remove_file)
  show "(d(durable := None), j, h) = (d, j, h)" if "d durable = None"
    using that by (simp add: fun_upd_idem)
  show "renamed b durable (d(durable := None)) = Inr (d(durable := Some n, b := None))"
    using assms(1,2) by (simp add: renamed_fresh)
  show "k \<Longrightarrow> S (d(durable := None), j, h)" by fact
qed

lemma triple_finish_committed_path:
  assumes "settled_path New p d" "is_file (d (backup_path ip))" "jp_backup p \<noteq> backup_path ip"
    "jp_label p = binary_label \<Longrightarrow> jp_kind p = FileKind"
  shows "triple (sees False (d, j, h)) (finish_committed_path ip p)
    (\<lambda>_. sees False (kept_backup (jp_label p = binary_label) (backup_path ip) p d, j, h)) (killed_in S)"
proof (cases "d (jp_backup p)")
  case None
  then show ?thesis unfolding finish_committed_path_def kept_backup_def
    by (intro triple_when_exists) (auto simp: fun_upd_idem)
next
  case (Some n)
  then have n: "kind_of n = jp_kind p" using assms(1) by (simp add: settled_path_def)
  show ?thesis
  proof (cases "jp_label p = binary_label")
    case True
    then show ?thesis unfolding finish_committed_path_def retain_journal_binary_backup_def kept_backup_def
      by (intro triple_when_exists)
        (use Some assms in \<open>auto intro!: triple_bind [OF triple_retain] triple_sync_parent\<close>)
  next
    case False
    then show ?thesis unfolding finish_committed_path_def kept_backup_def
      by (intro triple_when_exists)
        (use Some n in \<open>auto intro!: triple_bind [OF triple_remove_journal_path] triple_sync_parent\<close>)
  qed
qed

lemma triple_check_published:
  "settled_path New p d \<Longrightarrow> triple (sees k (d, j, h)) (check_published p) (\<lambda>_. sees k (d, j, h)) R"
  unfolding check_published_def
  by (intro triple_if_exists triple_when_exists) (auto simp: settled_path_def)

section \<open>All paths\<close>

definition apart :: "journal_path list \<Rightarrow> fs_path \<Rightarrow> bool" where
  "apart ps durable \<longleftrightarrow> distinct (durable # concat (map slots ps)) \<and> distinct (map jp_label ps)"

definition staged_for ::
    "(journal_path \<Rightarrow> disk_node) \<Rightarrow> (journal_path \<Rightarrow> disk_node option) \<Rightarrow> journal_path list \<Rightarrow> fs_path \<Rightarrow> bool" where
  "staged_for New Old ps durable \<longleftrightarrow>
     apart ps durable \<and> (\<forall>p \<in> set ps. kinds_fit New Old p \<and> (jp_label p = binary_label \<longrightarrow> jp_kind p = FileKind))"

lemma apart_split:
  assumes "apart ps durable" "ds @ x # xs = ps"
  shows "distinct (slots x)" "durable \<notin> set (slots x)"
    "q \<in> set ds \<union> set xs \<Longrightarrow> r \<in> set (slots q) \<Longrightarrow> r \<notin> set (slots x)"
    "q \<in> set ds \<union> set xs \<Longrightarrow> jp_label q \<noteq> jp_label x"
proof -
  note all = assms(1) [unfolded apart_def assms(2) [symmetric]]
  show "distinct (slots x)" "durable \<notin> set (slots x)" using all by simp_all
  have "(\<Union>a \<in> set ds. set (slots a)) \<inter> set (slots x) = {}" "set (slots x) \<inter> (\<Union>a \<in> set xs. set (slots a)) = {}"
    using all by auto
  then show "q \<in> set ds \<union> set xs \<Longrightarrow> r \<in> set (slots q) \<Longrightarrow> r \<notin> set (slots x)" by blast
  have "jp_label x \<notin> jp_label ` set ds" "jp_label x \<notin> jp_label ` set xs" using all by auto
  then show "q \<in> set ds \<union> set xs \<Longrightarrow> jp_label q \<noteq> jp_label x" by (metis UnE image_eqI)
qed

lemma slots_in: "jp_staged p \<in> set (slots p)" "jp_target p \<in> set (slots p)" "jp_backup p \<in> set (slots p)"
  by (simp_all add: slots_def)

text \<open>A write to the slots of one entry does not change what holds of another.\<close>

lemma other_entry:
  assumes "apart ps durable" "ds @ x # xs = ps" "q \<in> set ds \<union> set xs" "same_but (set (slots x)) d d'"
  shows "d' (jp_staged q) = d (jp_staged q)" "d' (jp_target q) = d (jp_target q)" "d' (jp_backup q) = d (jp_backup q)"
  using assms(4) apart_split(3) [OF assms(1-3)] slots_in [of q] by (auto simp: same_but_def)

lemma durable_apart:
  "apart ps durable \<Longrightarrow> ds @ x # xs = ps \<Longrightarrow> same_but (set (slots x)) d d' \<Longrightarrow> d' durable = d durable"
  using apart_split(2) by (auto simp: same_but_def)

definition safe ::
    "install_plan \<Rightarrow> (journal_path \<Rightarrow> disk_node) \<Rightarrow> (journal_path \<Rightarrow> disk_node option) \<Rightarrow> run_view \<Rightarrow> bool" where
  "safe pl New Old = (\<lambda>(d, j, h).
     is_file (d (backup_path (ip_install_path pl)))
     \<and> (j = None \<and> (\<forall>p \<in> set (plan_entries pl). untouched New Old p d)
        \<or> j = Some (plan_journal pl Publishing) \<and> (\<forall>p \<in> set (plan_entries pl). recoverable New Old p d)
        \<or> j = Some (plan_journal pl Committed) \<and> (\<forall>p \<in> set (plan_entries pl). settled_path New p d)
        \<or> j = None \<and> (\<forall>p \<in> set (plan_entries pl). settled_path New p d)))"

text \<open>The state between two entries of the publication.\<close>

definition half_published ::
    "bool \<Rightarrow> install_plan \<Rightarrow> (journal_path \<Rightarrow> disk_node) \<Rightarrow> (journal_path \<Rightarrow> disk_node option) \<Rightarrow>
     journal_path list \<Rightarrow> journal_path list \<Rightarrow> install_run \<Rightarrow> bool" where
  "half_published k pl New Old ds xs s \<longleftrightarrow>
     (\<exists>d h. sees k (d, Some (plan_journal pl Publishing), h) s \<and> is_file (d (backup_path (ip_install_path pl)))
        \<and> (\<forall>p \<in> set ds. moved_in New Old p d \<and> (h (jp_label p) \<longleftrightarrow> Old p \<noteq> None))
        \<and> (\<forall>p \<in> set xs. untouched New Old p d \<and> \<not> h (jp_label p)))"

lemma triple_exists:
  "(\<And>x. triple (P x) m Q R) \<Longrightarrow> triple (\<lambda>s. \<exists>x. P x s) m Q R"
  by (rule tripleI) (auto dest: triple_returned triple_failed)

lemma triple_assume: "(A \<Longrightarrow> triple P m Q R) \<Longrightarrow> triple (\<lambda>s. P s \<and> A) m Q R"
  by (auto simp: triple_def)

lemma triple_publish_all:
  assumes staged: "staged_for New Old (plan_entries pl) (backup_path (ip_install_path pl))"
  shows "triple (half_published k pl New Old [] (plan_entries pl)) (for_each publish (plan_entries pl))
    (\<lambda>_. half_published k pl New Old (plan_entries pl) []) (killed_in (safe pl New Old))"
proof (rule triple_for_each [of "plan_entries pl" "half_published k pl New Old"])
  fix ds x xs assume split: "ds @ x # xs = plan_entries pl"
  let ?durable = "backup_path (ip_install_path pl)" and ?j = "Some (plan_journal pl Publishing)"
  have apart: "apart (plan_entries pl) ?durable" and fit: "kinds_fit New Old x"
    using staged by (simp_all add: staged_for_def flip: split)
  note other = other_entry [OF apart split] and durable = durable_apart [OF apart split]
  show "triple (half_published k pl New Old ds (x # xs)) (publish x)
      (\<lambda>_. half_published k pl New Old (ds @ [x]) xs) (killed_in (safe pl New Old))"
  proof (rule triple_pre)
    fix s assume "half_published k pl New Old ds (x # xs) s"
    then obtain d h where s: "sees k (d, ?j, h) s" "is_file (d ?durable)"
      and ds: "\<And>p. p \<in> set ds \<Longrightarrow> moved_in New Old p d \<and> (h (jp_label p) \<longleftrightarrow> Old p \<noteq> None)"
      and xs: "\<And>p. p \<in> set xs \<Longrightarrow> untouched New Old p d \<and> \<not> h (jp_label p)"
      and x: "untouched New Old x d" "\<not> h (jp_label x)"
      by (auto simp: half_published_def)
    have one: "triple (sees k (d, ?j, h)) (publish x)
        (\<lambda>_. sees k (put_paths x None (Some (New x)) (Old x) d, ?j, h(jp_label x := Old x \<noteq> None \<or> h (jp_label x))))
        (killed_in (safe pl New Old))"
    proof (rule triple_publish [OF apart_split(1) [OF apart split] fit x(1)])
      fix d' h' assume d': "recoverable New Old x d'" "same_but (set (slots x)) d d'"
      have "recoverable New Old q d'" if "q \<in> set ds \<union> set xs" for q
        using ds xs that other [OF that d'(2)] by (auto simp: path_states)
      then show "safe pl New Old (d', ?j, h')"
        using d' s(2) durable [OF d'(2)] by (auto simp: safe_def simp flip: split)
    qed
    have after: "half_published k pl New Old (ds @ [x]) xs t"
      if "sees k (put_paths x None (Some (New x)) (Old x) d, ?j, h(jp_label x := Old x \<noteq> None \<or> h (jp_label x))) t" for t
      unfolding half_published_def
    proof (intro exI conjI ballI)
      let ?d = "put_paths x None (Some (New x)) (Old x) d"
      note label = apart_split(4) [OF apart split]
      show "is_file (?d ?durable)" using s(2) durable [OF same_but_put] by metis
      fix p
      show "moved_in New Old p ?d" if "p \<in> set (ds @ [x])"
        using that ds other [OF _ same_but_put] put_paths_at [OF apart_split(1) [OF apart split]]
        by (auto simp: moved_in_def)
      show "(h(jp_label x := Old x \<noteq> None \<or> h (jp_label x))) (jp_label p) \<longleftrightarrow> Old p \<noteq> None" if "p \<in> set (ds @ [x])"
        using that ds x(2) label by auto
      show "untouched New Old p ?d" if "p \<in> set xs"
        using that xs other [OF _ same_but_put] by (auto simp: untouched_def)
      show "\<not> (h(jp_label x := Old x \<noteq> None \<or> h (jp_label x))) (jp_label p)" if "p \<in> set xs"
        using that xs label by auto
    qed (rule that)
    show "triple (\<lambda>t. t = s) (publish x) (\<lambda>_. half_published k pl New Old (ds @ [x]) xs)
        (killed_in (safe pl New Old))"
      by (rule triple_conseq [OF one]) (use s(1) after in simp_all)
  qed
qed simp

section \<open>The journal\<close>

lemma triple_write_journal:
  assumes "k \<Longrightarrow> S (d, j0, h)" "k \<Longrightarrow> S (d, Some j, h)"
  shows "triple (sees k (d, j0, h)) (write_install_transaction j) (\<lambda>_. sees k (d, Some j, h)) (killed_in S)"
proof -
  have "triple (sees k (d, j0, h)) (one_step (\<lambda>s. Inr (s\<lparr>ir_journal := Some j\<rparr>))) (\<lambda>_. sees k (d, Some j, h)) (killed_in S)"
    by (rule triple_one_step) (use assms in \<open>auto simp: view_def\<close>)
  note rename = triple_bind [OF this triple_sync]
  show ?thesis unfolding write_install_transaction_def
    by (intro triple_bind [OF triple_plain_call] triple_caught rename) (use assms in auto)
qed

lemma triple_remove_journal:
  assumes "k \<Longrightarrow> S (d, Some j, h)" "k \<Longrightarrow> S (d, None, h)"
  shows "triple (sees k (d, Some j, h)) remove_install_transaction (\<lambda>_. sees k (d, None, h)) (killed_in S)"
proof -
  let ?M = "\<lambda>removed s. removed \<and> sees k (d, None, h) s"
  have "triple (sees k (d, Some j, h))
      (one_step (\<lambda>s. if ir_journal s = None then Inl PathMissing else Inr (s\<lparr>ir_journal := None\<rparr>)))
      (\<lambda>_. sees k (d, None, h)) (killed_in S)"
    by (rule triple_one_step) (use assms in \<open>auto simp: view_def\<close>)
  then have removed: "triple (sees k (d, Some j, h))
      (bind_m (one_step (\<lambda>s. if ir_journal s = None then Inl PathMissing else Inr (s\<lparr>ir_journal := None\<rparr>)))
        (\<lambda>_. return_m True)) ?M (killed_in S)"
    by (rule triple_bind) (auto intro: triple_intros)
  show ?thesis unfolding remove_install_transaction_def
  proof (rule triple_bind [OF triple_caught [OF removed]])
    show "triple (?M x) (if x then sync_directory [] else return_m ()) (\<lambda>_. sees k (d, None, h)) (killed_in S)" for x
      using triple_sync [of k S "(d, None, h)" "[]"] assms by (auto simp: triple_def)
  qed
qed

section \<open>After the commit\<close>

text \<open>\<open>F\<close> are the entries whose backup is still there.\<close>

definition committed ::
    "bool \<Rightarrow> install_plan \<Rightarrow> (journal_path \<Rightarrow> disk_node) \<Rightarrow> (journal_path \<Rightarrow> disk_node option) \<Rightarrow>
     journal_path set \<Rightarrow> install_run \<Rightarrow> bool" where
  "committed k pl New Old F s \<longleftrightarrow>
     (\<exists>d h. sees k (d, Some (plan_journal pl Committed), h) s \<and> is_file (d (backup_path (ip_install_path pl)))
        \<and> (\<forall>p \<in> set (plan_entries pl). settled_path New p d
            \<and> (p \<in> F \<longrightarrow> d (jp_backup p) = Old p \<and> (h (jp_label p) \<longleftrightarrow> Old p \<noteq> None))))"

lemma settled_other:
  assumes "apart ps durable" "ds @ x # xs = ps" "q \<in> set ds \<union> set xs" "same_but (insert durable (set (slots x))) d d'"
  shows "d' (jp_backup q) = d (jp_backup q)" "settled_path New q d' \<longleftrightarrow> settled_path New q d"
proof -
  have "durable \<notin> set (slots q)"
    using assms(1,3) unfolding apart_def assms(2) [symmetric] by auto
  then have "r \<in> set (slots q) \<Longrightarrow> d' r = d r" for r
    using assms(4) apart_split(3) [OF assms(1-3), of r] unfolding same_but_def by (metis insert_iff)
  then show "d' (jp_backup q) = d (jp_backup q)" "settled_path New q d' \<longleftrightarrow> settled_path New q d"
    by (simp_all add: settled_path_def slots_def)
qed

definition entry_kept :: "install_plan \<Rightarrow> (journal_path \<Rightarrow> disk_node) \<Rightarrow> journal_path \<Rightarrow> disk \<Rightarrow> disk \<Rightarrow> bool" where
  "entry_kept pl New x d d' \<longleftrightarrow>
     same_but (insert (backup_path (ip_install_path pl)) (set (slots x))) d d'
     \<and> is_file (d' (backup_path (ip_install_path pl))) \<and> settled_path New x d'"

lemma committed_step:
  assumes staged: "staged_for New Old (plan_entries pl) (backup_path (ip_install_path pl))"
    and x: "x \<in> set (plan_entries pl)" "x \<in> F"
    and step: "\<And>d h S. is_file (d (backup_path (ip_install_path pl))) \<Longrightarrow> settled_path New x d \<Longrightarrow> d (jp_backup x) = Old x \<Longrightarrow>
      (h (jp_label x) \<longleftrightarrow> Old x \<noteq> None) \<Longrightarrow>
      (\<And>d' h'. k \<Longrightarrow> entry_kept pl New x d d' \<Longrightarrow> S (d', Some (plan_journal pl Committed), h')) \<Longrightarrow>
      \<exists>d' b. triple (sees k (d, Some (plan_journal pl Committed), h)) m
          (\<lambda>_. sees k (d', Some (plan_journal pl Committed), h(jp_label x := b))) (killed_in S)
        \<and> entry_kept pl New x d d'"
  shows "triple (committed k pl New Old F) m (\<lambda>_. committed k pl New Old (F - {x})) (killed_in (safe pl New Old))"
proof (rule triple_pre)
  let ?durable = "backup_path (ip_install_path pl)" and ?j = "Some (plan_journal pl Committed)"
  obtain ds xs where split: "ds @ x # xs = plan_entries pl" using x(1) by (metis split_list)
  have apart: "apart (plan_entries pl) ?durable" using staged by (simp add: staged_for_def)
  have others: "p \<in> set (plan_entries pl) \<Longrightarrow> p \<noteq> x \<Longrightarrow> p \<in> set ds \<union> set xs" for p by (auto simp flip: split)
  note other = settled_other [OF apart split]
  fix s assume "committed k pl New Old F s"
  then obtain d h where s: "sees k (d, ?j, h) s" "is_file (d ?durable)"
    and ps: "\<And>p. p \<in> set (plan_entries pl) \<Longrightarrow> settled_path New p d
      \<and> (p \<in> F \<longrightarrow> d (jp_backup p) = Old p \<and> (h (jp_label p) \<longleftrightarrow> Old p \<noteq> None))"
    by (auto simp: committed_def)
  have now: "settled_path New x d" "d (jp_backup x) = Old x" "h (jp_label x) \<longleftrightarrow> Old x \<noteq> None"
    using ps [OF x(1)] x(2) by auto
  have settled: "settled_path New p d'" if "entry_kept pl New x d d'" "p \<in> set (plan_entries pl)" for d' p
    using that ps other(2) [OF others] by (cases "p = x") (auto simp: entry_kept_def)
  then have safe: "safe pl New Old (d', ?j, h')" if "entry_kept pl New x d d'" for d' h'
    using that by (simp add: safe_def entry_kept_def)
  obtain d' b where one: "triple (sees k (d, ?j, h)) m (\<lambda>_. sees k (d', ?j, h(jp_label x := b))) (killed_in (safe pl New Old))"
    and d': "entry_kept pl New x d d'"
    using step [of d h "safe pl New Old"] s(2) now safe by blast
  have same: "same_but (insert ?durable (set (slots x))) d d'" using d' by (simp add: entry_kept_def)
  have after: "committed k pl New Old (F - {x}) t" if "sees k (d', ?j, h(jp_label x := b)) t" for t
    unfolding committed_def
  proof (intro exI conjI ballI impI)
    show "sees k (d', ?j, h(jp_label x := b)) t" by (rule that)
    fix p assume p: "p \<in> set (plan_entries pl)"
    then show "settled_path New p d'" using settled d' by blast
    assume "p \<in> F - {x}"
    then show "d' (jp_backup p) = Old p" "(h(jp_label x := b)) (jp_label p) \<longleftrightarrow> Old p \<noteq> None"
      using p ps other(1) [OF others same] apart_split(4) [OF apart split others] by auto
  qed (use d' in \<open>simp add: entry_kept_def\<close>)
  show "triple (\<lambda>t. t = s) m (\<lambda>_. committed k pl New Old (F - {x})) (killed_in (safe pl New Old))"
    by (rule triple_conseq [OF one]) (use s(1) after in simp_all)
qed

lemma entry_kept_backup:
  assumes "is_file (d (backup_path (ip_install_path pl)))" "settled_path New x d"
    "backup_path (ip_install_path pl) \<notin> set (slots x)" "distinct (slots x)"
  shows "(\<And>m. n = Some m \<Longrightarrow> kind_of m = jp_kind x) \<Longrightarrow> entry_kept pl New x d (d(jp_backup x := n))"
    "is_file f \<Longrightarrow> entry_kept pl New x d (d(backup_path (ip_install_path pl) := f))"
    "is_file f \<Longrightarrow> entry_kept pl New x d (d(backup_path (ip_install_path pl) := f, jp_backup x := None))"
  using assms by (auto simp: entry_kept_def same_but_def settled_path_def slots_def)

lemma triple_discard_backup:
  assumes staged: "staged_for New Old (plan_entries pl) (backup_path (ip_install_path pl))"
    and x: "x \<in> set (plan_entries pl)" "x \<in> F"
  shows "triple (committed k pl New Old F) (discard_backup x) (\<lambda>_. committed k pl New Old (F - {x}))
    (killed_in (safe pl New Old))"
proof (rule committed_step [OF staged x])
  let ?durable = "backup_path (ip_install_path pl)" and ?j = "Some (plan_journal pl Committed)"
  obtain ds xs where split: "ds @ x # xs = plan_entries pl" using x(1) by (metis split_list)
  have apart: "apart (plan_entries pl) ?durable" and fit: "kinds_fit New Old x"
    using staged x(1) by (simp_all add: staged_for_def)
  fix d h and S :: "run_view \<Rightarrow> bool"
  assume d: "is_file (d ?durable)" "settled_path New x d" "d (jp_backup x) = Old x" "h (jp_label x) \<longleftrightarrow> Old x \<noteq> None"
    and S: "\<And>d' h'. k \<Longrightarrow> entry_kept pl New x d d' \<Longrightarrow> S (d', ?j, h')"
  note kept = entry_kept_backup [OF d(1,2) apart_split(2,1) [OF apart split]]
  let ?d = "d(jp_backup x := None)"
  have last: "triple (sees k (?d, ?j, h')) (on_parent (jp_target x) sync_directory) (\<lambda>_. sees k (?d, ?j, h')) (killed_in S)" for h'
    by (rule triple_sync_parent(1)) (rule S, assumption, rule kept(1), simp)
  show "\<exists>d' b. triple (sees k (d, ?j, h)) (discard_backup x) (\<lambda>_. sees k (d', ?j, h(jp_label x := b))) (killed_in S)
      \<and> entry_kept pl New x d d'"
  proof (intro exI conjI)
    show "entry_kept pl New x d ?d" by (rule kept(1)) simp
    show "triple (sees k (d, ?j, h)) (discard_backup x) (\<lambda>_. sees k (?d, ?j, h(jp_label x := False))) (killed_in S)"
      unfolding discard_backup_def
    proof (rule triple_bind [OF triple_when_had last])
      show "(?d, ?j, h(jp_label x := False)) = (d, ?j, h)" if "\<not> h (jp_label x)"
        using that d(3,4) by (simp add: fun_upd_idem)
      assume "h (jp_label x)"
      then obtain n where n: "d (jp_backup x) = Some n" "kind_of n = jp_kind x"
        using d fit by (auto simp: kinds_fit_def)
      have "triple (sees k (d, ?j, h)) (remove_published_path (jp_backup x) (jp_kind x)) (\<lambda>_. sees k (?d, ?j, h)) (killed_in S)"
      proof (subst n(2) [symmetric], rule triple_remove [of d "jp_backup x" n, OF n(1)])
        show "S (d(jp_backup x := Some m), ?j, h)" if "k" "kind_of m = kind_of n" for m
          using that n(2) by (intro S kept(1)) auto
      qed
      then show "triple (sees k (d, ?j, h)) (bind_m (remove_published_path (jp_backup x) (jp_kind x)) (\<lambda>_.
          if_exists (jp_backup x) (set_had_previous (jp_label x) True) (set_had_previous (jp_label x) False)))
          (\<lambda>_. sees k (?d, ?j, h(jp_label x := False))) (killed_in S)"
        by (rule triple_bind) (intro triple_if_exists triple_had_previous, simp)
    qed
  qed
qed

lemma triple_retain_backup:
  assumes staged: "staged_for New Old (plan_entries pl) (backup_path (ip_install_path pl))"
    and x: "x \<in> set (plan_entries pl)" "x \<in> F" and kind: "jp_kind x = FileKind"
  shows "triple (committed k pl New Old F) (retain_backup_as (backup_path (ip_install_path pl)) x)
    (\<lambda>_. committed k pl New Old (F - {x})) (killed_in (safe pl New Old))"
proof (rule committed_step [OF staged x])
  let ?durable = "backup_path (ip_install_path pl)" and ?j = "Some (plan_journal pl Committed)"
  obtain ds xs where split: "ds @ x # xs = plan_entries pl" using x(1) by (metis split_list)
  have apart: "apart (plan_entries pl) ?durable" and fit: "kinds_fit New Old x"
    using staged x(1) by (simp_all add: staged_for_def)
  fix d h and S :: "run_view \<Rightarrow> bool"
  assume d: "is_file (d ?durable)" "settled_path New x d" "d (jp_backup x) = Old x" "h (jp_label x) \<longleftrightarrow> Old x \<noteq> None"
    and S: "\<And>d' h'. k \<Longrightarrow> entry_kept pl New x d d' \<Longrightarrow> S (d', ?j, h')"
  note kept = entry_kept_backup [OF d(1,2) apart_split(2,1) [OF apart split]]
  have ne: "jp_backup x \<noteq> ?durable" using apart_split(2) [OF apart split] by (auto simp: slots_def)
  show "\<exists>d' b. triple (sees k (d, ?j, h)) (retain_backup_as ?durable x) (\<lambda>_. sees k (d', ?j, h(jp_label x := b))) (killed_in S)
      \<and> entry_kept pl New x d d'"
  proof (cases "Old x")
    case None
    have "entry_kept pl New x d (d(jp_backup x := None))" by (rule kept(1)) simp
    then have "entry_kept pl New x d d" using d(3) None by (simp add: fun_upd_idem)
    moreover have "triple (sees k (d, ?j, h)) (retain_backup_as ?durable x) (\<lambda>_. sees k (d, ?j, h(jp_label x := False))) (killed_in S)"
      unfolding retain_backup_as_def by (rule triple_when_had) (use d(4) None in \<open>auto simp: fun_upd_idem\<close>)
    ultimately show ?thesis by blast
  next
    case (Some n)
    have n: "d (jp_backup x) = Some n" "is_file (Some n)" using d(3) Some fit kind by (auto simp: kinds_fit_def is_file_def)
    let ?d = "d(?durable := Some n, jp_backup x := None)"
    have here: "entry_kept pl New x d d"
      using kept(1) [of "d (jp_backup x)"] d(2) by (simp add: settled_path_def)
    have "triple (sees k (d, ?j, h)) (retain_backup_as ?durable x) (\<lambda>_. sees k (?d, ?j, h(jp_label x := False))) (killed_in S)"
      unfolding retain_backup_as_def
    proof (rule triple_when_had)
      have cut: "triple (sees k (d, ?j, h)) (bind_m (when_exists ?durable (fs_remove_file ?durable)) (\<lambda>_.
          fs_rename (jp_backup x) ?durable)) (\<lambda>_. sees k (?d, ?j, h)) (killed_in S)"
        by (rule triple_retain [OF n(1) ne d(1)]) (use S here kept(2) in \<open>auto simp: is_file_def\<close>)
      have sync: "triple (sees k (?d, ?j, h')) (on_parent (jp_target x) sync_directory) (\<lambda>_. sees k (?d, ?j, h')) (killed_in S)" for h'
        by (rule triple_sync_parent(1)) (rule S, assumption, rule kept(3) [OF n(2)])
      note after = triple_bind [OF triple_had_previous sync]
      have assoc: "bind_m a (\<lambda>_. bind_m b f) = bind_m (bind_m a (\<lambda>_. b)) f" for a :: "unit install_action" and b :: "unit install_action" and f :: "unit \<Rightarrow> unit install_action"
        by (rule ext) (auto simp: bind_m_def split: prod.split sum.split)
      show "triple (sees k (d, ?j, h)) (bind_m (when_exists ?durable (fs_remove_file ?durable)) (\<lambda>_.
          bind_m (fs_rename (jp_backup x) ?durable) (\<lambda>_.
          bind_m (set_had_previous (jp_label x) False) (\<lambda>_. on_parent (jp_target x) sync_directory))))
          (\<lambda>_. sees k (?d, ?j, h(jp_label x := False))) (killed_in S)"
        unfolding assoc by (rule triple_bind [OF triple_bind [OF cut triple_had_previous] sync])
    qed (use d(4) Some in simp)
    moreover have "entry_kept pl New x d ?d" by (rule kept(3) [OF n(2)])
    ultimately show ?thesis by blast
  qed
qed

section \<open>The whole replacement\<close>

definition before_install ::
    "bool \<Rightarrow> install_plan \<Rightarrow> (journal_path \<Rightarrow> disk_node) \<Rightarrow> (journal_path \<Rightarrow> disk_node option) \<Rightarrow> install_run \<Rightarrow> bool" where
  "before_install k pl New Old s \<longleftrightarrow>
     (\<exists>d. sees k (d, None, \<lambda>_. False) s \<and> is_file (d (backup_path (ip_install_path pl)))
        \<and> (\<forall>p \<in> set (plan_entries pl). untouched New Old p d))"

definition all_new :: "install_plan \<Rightarrow> (journal_path \<Rightarrow> disk_node) \<Rightarrow> disk \<Rightarrow> bool" where
  "all_new pl New d \<longleftrightarrow> (\<forall>p \<in> set (plan_entries pl). d (jp_target p) = Some (New p))"

definition all_old :: "install_plan \<Rightarrow> (journal_path \<Rightarrow> disk_node option) \<Rightarrow> disk \<Rightarrow> bool" where
  "all_old pl Old d \<longleftrightarrow> (\<forall>p \<in> set (plan_entries pl). d (jp_target p) = Old p)"

lemma moved_in_settled: "kinds_fit New Old p \<Longrightarrow> moved_in New Old p d \<Longrightarrow> settled_path New p d"
  by (auto simp: moved_in_def settled_path_def kinds_fit_def)

lemma triple_write_first:
  "triple (before_install k pl New Old) (write_install_transaction (plan_journal pl Publishing))
    (\<lambda>_. half_published k pl New Old [] (plan_entries pl)) (killed_in (safe pl New Old))"
proof (rule triple_pre)
  let ?durable = "backup_path (ip_install_path pl)"
  fix s assume "before_install k pl New Old s"
  then obtain d where s: "sees k (d, None, \<lambda>_. False) s" and d: "is_file (d ?durable)"
    "\<forall>p \<in> set (plan_entries pl). untouched New Old p d" by (auto simp: before_install_def)
  have one: "triple (sees k (d, None, \<lambda>_. False)) (write_install_transaction (plan_journal pl Publishing))
      (\<lambda>_. sees k (d, Some (plan_journal pl Publishing), \<lambda>_. False)) (killed_in (safe pl New Old))"
    by (rule triple_write_journal) (use d in \<open>simp_all add: safe_def recoverable_def\<close>)
  have after: "half_published k pl New Old [] (plan_entries pl) t"
    if "sees k (d, Some (plan_journal pl Publishing), \<lambda>_. False) t" for t
    using that d by (auto simp: half_published_def)
  show "triple (\<lambda>t. t = s) (write_install_transaction (plan_journal pl Publishing))
      (\<lambda>_. half_published k pl New Old [] (plan_entries pl)) (killed_in (safe pl New Old))"
    by (rule triple_conseq [OF one]) (use s after in simp_all)
qed

lemma triple_commit:
  assumes staged: "staged_for New Old (plan_entries pl) (backup_path (ip_install_path pl))"
  shows "triple (half_published k pl New Old (plan_entries pl) []) (write_install_transaction (plan_journal pl Committed))
    (\<lambda>_. committed k pl New Old (set (plan_entries pl))) (killed_in (safe pl New Old))"
proof (rule triple_pre)
  let ?durable = "backup_path (ip_install_path pl)"
  fix s assume "half_published k pl New Old (plan_entries pl) [] s"
  then obtain d h where s: "sees k (d, Some (plan_journal pl Publishing), h) s" and d: "is_file (d ?durable)"
    "\<forall>p \<in> set (plan_entries pl). moved_in New Old p d \<and> (h (jp_label p) \<longleftrightarrow> Old p \<noteq> None)"
    by (auto simp: half_published_def)
  have settled: "\<forall>p \<in> set (plan_entries pl). settled_path New p d"
    using d(2) staged moved_in_settled by (auto simp: staged_for_def)
  have one: "triple (sees k (d, Some (plan_journal pl Publishing), h)) (write_install_transaction (plan_journal pl Committed))
      (\<lambda>_. sees k (d, Some (plan_journal pl Committed), h)) (killed_in (safe pl New Old))"
    by (rule triple_write_journal) (use d settled in \<open>simp_all add: safe_def recoverable_def\<close>)
  have after: "committed k pl New Old (set (plan_entries pl)) t"
    if "sees k (d, Some (plan_journal pl Committed), h) t" for t
    unfolding committed_def using that d settled unfolding moved_in_def by blast
  show "triple (\<lambda>t. t = s) (write_install_transaction (plan_journal pl Committed))
      (\<lambda>_. committed k pl New Old (set (plan_entries pl))) (killed_in (safe pl New Old))"
    by (rule triple_conseq [OF one]) (use s after in simp_all)
qed

lemma triple_end:
  "triple (committed k pl New Old F) remove_install_transaction
    (\<lambda>_ s. \<exists>d h. sees k (d, None, h) s \<and> all_new pl New d) (killed_in (safe pl New Old))"
proof (rule triple_pre)
  let ?durable = "backup_path (ip_install_path pl)"
  fix s assume "committed k pl New Old F s"
  then obtain d h where s: "sees k (d, Some (plan_journal pl Committed), h) s" and d: "is_file (d ?durable)"
    "\<forall>p \<in> set (plan_entries pl). settled_path New p d" by (auto simp: committed_def)
  have one: "triple (sees k (d, Some (plan_journal pl Committed), h)) remove_install_transaction
      (\<lambda>_. sees k (d, None, h)) (killed_in (safe pl New Old))"
    by (rule triple_remove_journal) (use d in \<open>simp_all add: safe_def\<close>)
  have "all_new pl New d" using d(2) by (simp add: all_new_def settled_path_def)
  then show "triple (\<lambda>t. t = s) remove_install_transaction
      (\<lambda>_ s. \<exists>d h. sees k (d, None, h) s \<and> all_new pl New d) (killed_in (safe pl New Old))"
    by (intro triple_conseq [OF one]) (use s in auto)
qed

lemma plan_entries_members:
  "binary_entry pl \<in> set (plan_entries pl)" "marker_entry pl \<in> set (plan_entries pl)"
  "p \<in> set (option_list (runtime_entry pl)) \<Longrightarrow> p \<in> set (plan_entries pl)"
  by (auto simp: plan_entries_def)

lemma triple_replace_binary:
  assumes staged: "staged_for New Old (plan_entries pl) (backup_path (ip_install_path pl))"
  shows "triple (before_install k pl New Old) (replace_binary pl)
    (\<lambda>_ s. \<exists>d h. sees k (d, None, h) s \<and> all_new pl New d) (killed_in (safe pl New Old))"
proof -
  let ?C = "committed k pl New Old" and ?R = "killed_in (safe pl New Old)"
  have labels: "binary_entry pl \<noteq> marker_entry pl" "p \<in> set (option_list (runtime_entry pl)) \<Longrightarrow>
      p \<noteq> marker_entry pl \<and> p \<noteq> binary_entry pl" for p
    using staged unfolding staged_for_def apart_def plan_entries_def by auto
  have runtime: "triple (?C (F \<union> set (option_list (runtime_entry pl)))) (for_each discard_backup (option_list (runtime_entry pl)))
      (\<lambda>_. ?C (F - set (option_list (runtime_entry pl)))) ?R" for F
  proof (cases "runtime_entry pl")
    case None
    then show ?thesis by (auto intro: triple_intros)
  next
    case (Some p)
    then have "triple (?C (insert p F)) (discard_backup p) (\<lambda>_. ?C (insert p F - {p})) ?R"
      by (intro triple_discard_backup [OF staged]) (auto simp: plan_entries_def)
    then show ?thesis using Some by (auto intro!: triple_bind triple_intros)
  qed
  have set: "set (plan_entries pl) - {marker_entry pl} = {binary_entry pl} \<union> set (option_list (runtime_entry pl))"
    using labels by (auto simp: plan_entries_def)
  have "{binary_entry pl} - set (option_list (runtime_entry pl)) = {binary_entry pl}" using labels by auto
  then have runtime: "triple (?C (set (plan_entries pl) - {marker_entry pl})) (for_each discard_backup (option_list (runtime_entry pl)))
      (\<lambda>_. ?C {binary_entry pl}) ?R"
    using runtime [of "{binary_entry pl}"] by (simp add: set)
  have binary: "triple (?C {binary_entry pl}) (retain_backup_as (backup_path (ip_install_path pl)) (binary_entry pl))
      (\<lambda>_. ?C ({binary_entry pl} - {binary_entry pl})) ?R"
    by (rule triple_retain_backup [OF staged]) (simp_all add: plan_entries_members(1), simp add: binary_entry_def)
  show ?thesis unfolding replace_binary_def
    by (rule triple_bind [OF triple_write_first triple_bind [OF triple_caught [OF triple_publish_all [OF staged]]
        triple_bind [OF triple_caught [OF triple_commit [OF staged]] triple_bind [OF
          triple_discard_backup [OF staged plan_entries_members(2) plan_entries_members(2)]
          triple_bind [OF runtime triple_bind [OF binary triple_end]]]]]])
qed

section \<open>The whole recovery\<close>

definition half_restored ::
    "install_plan \<Rightarrow> (journal_path \<Rightarrow> disk_node) \<Rightarrow> (journal_path \<Rightarrow> disk_node option) \<Rightarrow>
     journal_path list \<Rightarrow> journal_path list \<Rightarrow> install_run \<Rightarrow> bool" where
  "half_restored pl New Old ds xs s \<longleftrightarrow>
     (\<exists>d h. sees False (d, Some (plan_journal pl Publishing), h) s
        \<and> (\<forall>p \<in> set ds. d (jp_target p) = Old p) \<and> (\<forall>p \<in> set xs. recoverable New Old p d))"

abbreviation "never \<equiv> killed_in (\<lambda>_. False)"

lemma apart_rev: "apart (rev ps) durable \<longleftrightarrow> apart ps durable"
proof -
  have "distinct (removeAll [] (map slots (rev ps))) = distinct (removeAll [] (map slots ps))"
    by (simp only: removeAll_filter_not_eq rev_map [symmetric] rev_filter [symmetric] distinct_rev)
  then have "distinct (concat (map slots (rev ps))) = distinct (concat (map slots ps))"
    by (simp add: distinct_concat_iff)
  then show ?thesis by (simp add: apart_def rev_map [symmetric])
qed

lemma triple_rollback_all:
  assumes staged: "staged_for New Old (plan_entries pl) (backup_path (ip_install_path pl))"
  shows "triple (half_restored pl New Old [] (rev (plan_entries pl))) (rollback_journal_paths (plan_entries pl))
    (\<lambda>_. half_restored pl New Old (rev (plan_entries pl)) []) never"
  unfolding rollback_journal_paths_def
proof (rule triple_for_each [of "rev (plan_entries pl)" "half_restored pl New Old"])
  fix ds x xs assume split: "ds @ x # xs = rev (plan_entries pl)"
  let ?durable = "backup_path (ip_install_path pl)" and ?j = "Some (plan_journal pl Publishing)"
  have "x \<in> set (plan_entries pl)" by (metis split in_set_conv_decomp set_rev)
  then have apart: "apart (rev (plan_entries pl)) ?durable" and fit: "kinds_fit New Old x"
    using staged by (simp_all add: staged_for_def apart_rev)
  note other = other_entry [OF apart split _ same_but_put]
  show "triple (half_restored pl New Old ds (x # xs)) (rollback_journal_path x)
      (\<lambda>_. half_restored pl New Old (ds @ [x]) xs) never"
  proof (rule triple_pre)
    fix s assume "half_restored pl New Old ds (x # xs) s"
    then obtain d h where s: "sees False (d, ?j, h) s" and ds: "\<And>p. p \<in> set ds \<Longrightarrow> d (jp_target p) = Old p"
      and xs: "\<And>p. p \<in> set xs \<Longrightarrow> recoverable New Old p d" and x: "recoverable New Old x d"
      by (auto simp: half_restored_def)
    let ?d = "put_paths x None (Old x) None d"
    note one = triple_restored [OF apart_split(1) [OF apart split] fit x, of ?j h "\<lambda>_. False"]
    have after: "half_restored pl New Old (ds @ [x]) xs t" if "sees False (?d, ?j, h) t" for t
      unfolding half_restored_def
    proof (intro exI conjI ballI)
      show "sees False (?d, ?j, h) t" by (rule that)
      show "?d (jp_target p) = Old p" if "p \<in> set (ds @ [x])" for p
        using that ds other put_paths_at [OF apart_split(1) [OF apart split]] by auto
      show "recoverable New Old p ?d" if "p \<in> set xs" for p
        using that xs other by (simp add: path_states)
    qed
    show "triple (\<lambda>t. t = s) (rollback_journal_path x) (\<lambda>_. half_restored pl New Old (ds @ [x]) xs) never"
      by (rule triple_conseq [OF one]) (use s after in simp_all)
  qed
qed simp

text \<open>The finish of a committed journal.\<close>

definition half_finished ::
    "install_plan \<Rightarrow> (journal_path \<Rightarrow> disk_node) \<Rightarrow> journal_path list \<Rightarrow> journal_path list \<Rightarrow> install_run \<Rightarrow> bool" where
  "half_finished pl New ds xs s \<longleftrightarrow>
     (\<exists>d h. sees False (d, Some (plan_journal pl Committed), h) s \<and> is_file (d (backup_path (ip_install_path pl)))
        \<and> (\<forall>p \<in> set (plan_entries pl). settled_path New p d))"

lemma kept_backup_keeps:
  assumes "is_file (d (backup_path (ip_install_path pl)))" "settled_path New x d" "kind_of (New x) = jp_kind x"
    "backup_path (ip_install_path pl) \<notin> set (slots x)" "distinct (slots x)" "b \<longrightarrow> jp_kind x = FileKind"
  shows "entry_kept pl New x d (kept_backup b (backup_path (ip_install_path pl)) x d)"
  using entry_kept_backup [OF assms(1,2,4,5)] assms(2,6)
  by (auto simp: kept_backup_def is_file_def settled_path_def)

lemma triple_finish_all:
  assumes staged: "staged_for New Old (plan_entries pl) (backup_path (ip_install_path pl))"
  shows "triple (half_finished pl New [] (plan_entries pl)) (finish_committed_journal (plan_journal pl Committed))
    (\<lambda>_. half_finished pl New (plan_entries pl) []) never"
proof -
  let ?durable = "backup_path (ip_install_path pl)" and ?j = "Some (plan_journal pl Committed)"
  have checks: "triple (half_finished pl New [] (plan_entries pl)) (for_each check_published (plan_entries pl))
      (\<lambda>_. half_finished pl New (plan_entries pl) []) never"
  proof (rule triple_for_each [of "plan_entries pl" "half_finished pl New"])
    fix ds x xs assume split: "ds @ x # xs = plan_entries pl"
    then have x: "x \<in> set (plan_entries pl)" by (metis in_set_conv_decomp)
    show "triple (half_finished pl New ds (x # xs)) (check_published x) (\<lambda>_. half_finished pl New (ds @ [x]) xs) never"
    proof (rule triple_pre)
      fix s assume "half_finished pl New ds (x # xs) s"
      then obtain d h where s: "sees False (d, ?j, h) s" "is_file (d ?durable)" "\<forall>p \<in> set (plan_entries pl). settled_path New p d"
        by (auto simp: half_finished_def)
      have "settled_path New x d" using s(3) x by blast
      from triple_check_published [OF this, of False ?j h never]
      show "triple (\<lambda>t. t = s) (check_published x) (\<lambda>_. half_finished pl New (ds @ [x]) xs) never"
        by (rule triple_conseq) (use s in \<open>auto simp: half_finished_def\<close>)
    qed
  qed simp
  have finish: "triple (half_finished pl New [] (plan_entries pl)) (for_each (finish_committed_path (ip_install_path pl)) (plan_entries pl))
      (\<lambda>_. half_finished pl New (plan_entries pl) []) never"
  proof (rule triple_for_each [of "plan_entries pl" "half_finished pl New"])
    fix ds x xs assume split: "ds @ x # xs = plan_entries pl"
    then have x: "x \<in> set (plan_entries pl)" by (metis in_set_conv_decomp)
    have apart: "apart (plan_entries pl) ?durable" and fit: "kind_of (New x) = jp_kind x"
      and binary: "jp_label x = binary_label \<longrightarrow> jp_kind x = FileKind"
      using staged x by (simp_all add: staged_for_def kinds_fit_def)
    note apart_x = apart_split(2,1) [OF apart split]
    show "triple (half_finished pl New ds (x # xs)) (finish_committed_path (ip_install_path pl) x)
        (\<lambda>_. half_finished pl New (ds @ [x]) xs) never"
    proof (rule triple_pre)
      fix s assume "half_finished pl New ds (x # xs) s"
      then obtain d h where s: "sees False (d, ?j, h) s" "is_file (d ?durable)" "\<forall>p \<in> set (plan_entries pl). settled_path New p d"
        by (auto simp: half_finished_def)
      have now: "settled_path New x d" using s(3) x by blast
      let ?d = "kept_backup (jp_label x = binary_label) ?durable x d"
      have kept: "entry_kept pl New x d ?d" by (rule kept_backup_keeps [OF s(2) now fit apart_x binary])
      have "jp_backup x \<noteq> ?durable" using apart_x(1) by (auto simp: slots_def)
      note one = triple_finish_committed_path [OF now s(2) this binary [THEN mp], of ?j h "\<lambda>_. False"]
      have settled: "settled_path New p ?d" if "p \<in> set (plan_entries pl)" for p
      proof (cases "p = x")
        case False
        then have "p \<in> set ds \<union> set xs" using that by (auto simp flip: split)
        from settled_other(2) [OF apart split this] kept s(3) that show ?thesis by (auto simp: entry_kept_def)
      qed (use kept in \<open>simp add: entry_kept_def\<close>)
      have "half_finished pl New (ds @ [x]) xs t" if "sees False (?d, ?j, h) t" for t
        using that settled kept by (auto simp: half_finished_def entry_kept_def)
      then show "triple (\<lambda>t. t = s) (finish_committed_path (ip_install_path pl) x)
          (\<lambda>_. half_finished pl New (ds @ [x]) xs) never"
        by (intro triple_conseq [OF one]) (use s in auto)
    qed
  qed simp
  have "half_finished pl New (plan_entries pl) [] = half_finished pl New [] (plan_entries pl)"
    by (simp add: half_finished_def fun_eq_iff)
  then show ?thesis unfolding finish_committed_journal_def using checks finish
    by (simp add: plan_journal_def triple_bind)
qed

section \<open>The names of a plan\<close>

text \<open>What \<open>apply_artifact\<close> makes of a release: the staged files beside the installed ones, the runtime
  below the root that the recovery expects.\<close>

definition runtime_fits :: "install_env \<Rightarrow> install_plan \<Rightarrow> fs_path \<times> fs_path \<Rightarrow> bool" where
  "runtime_fits E pl rt \<longleftrightarrow>
     (\<exists>root version platform. ie_runtime_root E = Inr root \<and> ie_platform E = Inr platform \<and> is_normal version
        \<and> is_normal platform \<and> snd rt = root @ [''onnxruntime'', version, platform]
        \<and> fst rt = with_file_name (snd rt) (staged_runtime_name platform (ip_unique pl))
        \<and> butlast (snd rt) \<noteq> butlast (ip_install_path pl))"

definition plan_fits :: "install_env \<Rightarrow> install_plan \<Rightarrow> bool" where
  "plan_fits E pl \<longleftrightarrow>
     valid_identity (plan_journal pl Publishing)
     \<and> ie_install_path E = Inr (ip_install_path pl) \<and> ip_install_path pl \<noteq> []
     \<and> last (ip_install_path pl) \<noteq> [] \<and> hd (last (ip_install_path pl)) \<noteq> CHR ''.''
     \<and> ip_staged pl = butlast (ip_install_path pl) @ [staged_name (ip_unique pl)]
     \<and> ip_marker_staged pl = butlast (ip_install_path pl) @ [staged_marker_name (ip_unique pl)]
     \<and> (case ip_runtime pl of None \<Rightarrow> True | Some rt \<Rightarrow> runtime_fits E pl rt)"

lemma normal_name: "is_normal n \<Longrightarrow> path_name (q @ [n]) = Some n"
  by (simp add: path_name_def is_normal_def)

lemma with_name: "is_normal n \<Longrightarrow> with_file_name (q @ [n]) m = q @ [m]"
  by (simp add: with_file_name_def normal_name)

lemma plain_name: "n \<noteq> [] \<Longrightarrow> hd n \<noteq> CHR ''.'' \<Longrightarrow> is_normal (n @ m)"
  by (cases n) (auto simp: is_normal_def)

definition backup_name :: "string \<Rightarrow> string \<Rightarrow> string \<Rightarrow> string" where
  "backup_name n unique label = ''.'' @ n @ ''.ctx-upgrade-'' @ unique @ ''.'' @ label @ ''.previous''"

lemma transaction_backup_name:
  "is_normal n \<Longrightarrow> transaction_backup_path (q @ [n]) unique label = q @ [backup_name n unique label]"
  by (simp add: transaction_backup_path_def file_name_or_def normal_name with_name backup_name_def)

lemma plan_validates:
  assumes "plan_fits E pl"
  shows "validate_install_transaction E (plan_journal pl phase) = Inr ()"
proof -
  have id: "valid_identity (plan_journal pl phase)"
    using assms by (simp add: plan_fits_def valid_identity_def plan_journal_def)
  have binary: "entry_with_label binary_label (plan_journal pl phase) = Some (binary_entry pl)"
    and marker: "entry_with_label marker_label (plan_journal pl phase) = Some (marker_entry pl)"
    by (cases "ip_runtime pl"; simp add: entry_with_label_def plan_journal_def plan_entries_def runtime_entry_def
        binary_entry_def marker_entry_def Let_def split_beta)+
  have runtimes: "filter (\<lambda>p. jp_label p = runtime_label) (plan_entries pl) = option_list (runtime_entry pl)"
    by (cases "ip_runtime pl"; simp add: plan_entries_def runtime_entry_def binary_entry_def marker_entry_def Let_def
        split_beta)
  have labels: "list_all (\<lambda>p. jp_label p \<in> {runtime_label, binary_label, marker_label}) (plan_entries pl)"
    by (cases "ip_runtime pl"; simp add: plan_entries_def runtime_entry_def binary_entry_def marker_entry_def Let_def
        split_beta)
  have runtime: "validate_runtime_entry E (plan_journal pl phase) p = Inr ()" if "runtime_entry pl = Some p" for p
  proof -
    have "ip_runtime pl \<noteq> None" using that by (auto simp: runtime_entry_def)
    then obtain rt where rt: "ip_runtime pl = Some rt" by blast
    then obtain root version platform where E: "ie_runtime_root E = Inr root" "ie_platform E = Inr platform"
      and n: "is_normal version" "is_normal platform" and tg: "snd rt = root @ [''onnxruntime'', version, platform]"
      and st: "fst rt = with_file_name (snd rt) (staged_runtime_name platform (ip_unique pl))"
      using assms by (auto simp: plan_fits_def runtime_fits_def)
    have name: "path_name (snd rt) = Some platform"
      using normal_name [OF n(2), of "root @ [''onnxruntime'', version]"] by (simp add: tg)
    have p: "jp_kind p = DirectoryKind" "jp_staged p = fst rt" "jp_target p = snd rt"
      "jp_backup p = transaction_backup_path (snd rt) (ip_unique pl) ''runtime''"
      using that rt by (auto simp: runtime_entry_def split_beta)
    show ?thesis
      by (simp add: validate_runtime_entry_def name p ensured_def valid_runtime_paths_def st plan_journal_def)
        (simp add: E tg n p ensured_def)
  qed
  have count: "length (plan_entries pl) = 2 \<or> length (plan_entries pl) = 3"
    "length (plan_entries pl) = 3 \<longrightarrow> length (option_list (runtime_entry pl)) = 1"
    by (cases "ip_runtime pl"; simp add: plan_entries_def runtime_entry_def)+
  have runtimes_ok: "(case option_list (runtime_entry pl) of [] \<Rightarrow> Inr () | p # _ \<Rightarrow>
      validate_runtime_entry E (plan_journal pl phase) p) = Inr ()"
    using runtime by (cases "runtime_entry pl") simp_all
  have paths: "ij_paths (plan_journal pl phase) = plan_entries pl" "ij_install_path (plan_journal pl phase) = ip_install_path pl"
    by (simp_all add: plan_journal_def)
  have "valid_binary (plan_journal pl phase) (binary_entry pl)" "valid_marker (plan_journal pl phase) (marker_entry pl)"
    using assms by (simp_all add: plan_fits_def valid_binary_def valid_marker_def binary_entry_def marker_entry_def
        plan_journal_def Let_def)
  then show ?thesis
    using assms count labels unfolding validate_install_transaction_def paths runtimes
    by (simp add: runtimes_ok id binary marker ensured_def plan_fits_def path_parent_def Let_def)
qed

text \<open>All these names differ.\<close>

lemma plan_names:
  assumes "n \<noteq> []" "hd n \<noteq> CHR ''.''"
  shows "distinct [n @ ''.previous'', staged_name u, n, backup_name n u ''binary'', staged_marker_name u,
    n @ ''.install.json'', backup_name (n @ ''.install.json'') u ''marker'']"
proof -
  let ?hidden = "\<lambda>s. hd s = CHR ''.''"
  have hidden: "?hidden (staged_name u)" "?hidden (staged_marker_name u)" "?hidden (backup_name m u l)" for m l
    by (simp_all add: staged_name_def staged_marker_name_def backup_name_def)
  have shown: "\<not> ?hidden (n @ m)" for m using assms by simp
  have ends: "last (staged_name u) = CHR ''w''" "last (staged_marker_name u) = CHR ''w''" "last (backup_name m u l) = CHR ''s''" for m l
    by (simp_all add: staged_name_def staged_marker_name_def backup_name_def)
  have "length (staged_name u) \<noteq> length (staged_marker_name u)"
    by (simp add: staged_name_def staged_marker_name_def)
  then have staged: "staged_name u \<noteq> staged_marker_name u" by metis
  have "backup_name n u ''binary'' = a @ ''binary.previous'' \<longrightarrow> backup_name m u ''marker'' = b @ ''marker.previous'' \<longrightarrow>
      backup_name n u ''binary'' \<noteq> backup_name m u ''marker''" for a b m
    by auto
  moreover have "\<exists>a. backup_name m u l = a @ l @ ''.previous''" for m l
    by (rule exI [of _ "''.'' @ m @ ''.ctx-upgrade-'' @ u @ ''.''"]) (simp add: backup_name_def)
  from this [of n "''binary''"] this [of "n @ ''.install.json''" "''marker''"]
  obtain a b where "backup_name n u ''binary'' = a @ ''binary.previous''"
    "backup_name (n @ ''.install.json'') u ''marker'' = b @ ''marker.previous''" by auto
  ultimately have backups: "backup_name n u ''binary'' \<noteq> backup_name (n @ ''.install.json'') u ''marker''" by blast
  have "length (n @ ''.previous'') \<noteq> length (n @ ''.install.json'')" by simp
  then have visible: "n @ ''.previous'' \<noteq> n @ ''.install.json''" by metis
  have differ: "f x \<noteq> f y \<Longrightarrow> x \<noteq> y" for f :: "string \<Rightarrow> char" and x y by auto
  have mixed: "staged_name u \<noteq> backup_name m u l" "staged_marker_name u \<noteq> backup_name m u l" for m l
    by (rule differ [of last]; simp add: ends)+
  have apart: "n @ m \<noteq> staged_name u" "n @ m \<noteq> staged_marker_name u" "n @ m \<noteq> backup_name k u l" for m k l
    by (rule differ [of hd]; use hidden shown in metis)+
  note apart' = apart [of "[]", simplified]
  show ?thesis
    using staged backups visible mixed apart apart' staged [symmetric] backups [symmetric] visible [symmetric]
      mixed [symmetric] apart [symmetric] apart' [symmetric]
    by simp
qed

lemma plan_apart:
  assumes "plan_fits E pl"
  shows "apart (plan_entries pl) (backup_path (ip_install_path pl))"
proof -
  obtain q n where path: "ip_install_path pl = q @ [n]" and n: "n \<noteq> []" "hd n \<noteq> CHR ''.''"
    using assms by (cases "ip_install_path pl" rule: rev_cases) (auto simp: plan_fits_def)
  let ?u = "ip_unique pl"
  note normal = plain_name [OF n, of "[]", simplified] plain_name [OF n]
  have marker: "install_marker_path (ip_install_path pl) = q @ [n @ ''.install.json'']"
    and durable: "backup_path (ip_install_path pl) = q @ [n @ ''.previous'']"
    by (simp_all add: install_marker_path_def backup_path_def file_name_or_def path normal_name with_name normal)
  have own: "slots (binary_entry pl) = map (\<lambda>m. q @ [m]) [staged_name ?u, n, backup_name n ?u ''binary'']"
    "slots (marker_entry pl) = map (\<lambda>m. q @ [m]) [staged_marker_name ?u, n @ ''.install.json'',
      backup_name (n @ ''.install.json'') ?u ''marker'']"
    using assms normal by (simp_all add: slots_def binary_entry_def marker_entry_def plan_fits_def path Let_def
      marker [unfolded path] transaction_backup_name)
  let ?names = "[n @ ''.previous'', staged_name ?u, n, backup_name n ?u ''binary'', staged_marker_name ?u,
    n @ ''.install.json'', backup_name (n @ ''.install.json'') ?u ''marker'']"
  have all: "backup_path (ip_install_path pl) # slots (binary_entry pl) @ slots (marker_entry pl) = map (\<lambda>m. q @ [m]) ?names"
    by (simp add: own durable)
  have distinct: "distinct (map (\<lambda>m. q @ [m]) ?names)"
    unfolding distinct_map using plan_names [OF n, of ?u] by (simp add: inj_on_def)
  show ?thesis
  proof (cases "runtime_entry pl")
    case None
    then have "plan_entries pl = [binary_entry pl, marker_entry pl]" by (simp add: plan_entries_def)
    then show ?thesis using distinct [folded all] by (simp add: apart_def binary_entry_def marker_entry_def Let_def)
  next
    case (Some p)
    then obtain rt where rt: "ip_runtime pl = Some rt" by (auto simp: runtime_entry_def)
    then obtain root version platform where v: "is_normal version" "is_normal platform"
      and tg: "snd rt = root @ [''onnxruntime'', version, platform]"
      and st: "fst rt = with_file_name (snd rt) (staged_runtime_name platform ?u)" and dir: "butlast (snd rt) \<noteq> q"
      using assms path by (auto simp: plan_fits_def runtime_fits_def)
    let ?q = "root @ [''onnxruntime'', version]"
    have tg': "snd rt = ?q @ [platform]" by (simp add: tg)
    have e1: "with_file_name (snd rt) m = ?q @ [m]" for m unfolding tg' by (rule with_name) (use v in auto)
    have e2: "transaction_backup_path (snd rt) ?u l = ?q @ [backup_name platform ?u l]" for l unfolding tg'
      by (rule transaction_backup_name) (use v in auto)
    have p: "slots p = map (\<lambda>m. ?q @ [m]) [staged_runtime_name platform ?u, platform, backup_name platform ?u ''runtime'']"
    proof -
      have "slots p = [fst rt, snd rt, transaction_backup_path (snd rt) ?u ''runtime'']"
        using Some rt by (auto simp: runtime_entry_def split_beta slots_def)
      then show ?thesis unfolding st e1 e2 by (simp only: tg' list.map)
    qed
    have names: "distinct [staged_runtime_name platform ?u, platform, backup_name platform ?u ''runtime'']"
    proof -
      have "last (staged_runtime_name platform ?u) \<noteq> last (backup_name platform ?u ''runtime'')"
        by (simp add: staged_runtime_name_def backup_name_def)
      then have "staged_runtime_name platform ?u \<noteq> backup_name platform ?u ''runtime''" by metis
      moreover have "length (staged_runtime_name platform ?u) > length platform" "length (backup_name platform ?u ''runtime'') > length platform"
        by (simp_all add: staged_runtime_name_def backup_name_def)
      ultimately show ?thesis by auto
    qed
    have d: "?q \<noteq> q" using dir by (simp add: tg' butlast_append)
    have "distinct (slots p)" unfolding p distinct_map using names by (simp add: inj_on_def)
    moreover have "set (slots p) \<inter> set (map (\<lambda>m. q @ [m]) ?names) = {}" using d by (auto simp: p)
    moreover have "plan_entries pl = [p, binary_entry pl, marker_entry pl]" using Some by (simp add: plan_entries_def)
    moreover have "jp_label p = runtime_label" using Some rt by (auto simp: runtime_entry_def split_beta)
    ultimately show ?thesis using distinct unfolding all [symmetric]
      by (auto simp: apart_def binary_entry_def marker_entry_def Let_def)
  qed
qed

section \<open>A killed installation\<close>

definition recovered ::
    "install_plan \<Rightarrow> (journal_path \<Rightarrow> disk_node) \<Rightarrow> (journal_path \<Rightarrow> disk_node option) \<Rightarrow> install_run \<Rightarrow> bool" where
  "recovered pl New Old s \<longleftrightarrow> ir_journal s = None \<and> (all_new pl New (ir_disk s) \<or> all_old pl Old (ir_disk s))"

lemma sees_view: "sees k v s \<Longrightarrow> ir_disk s = fst v \<and> ir_journal s = fst (snd v)"
  by (auto simp: sees_def view_def)

lemma triple_removed_journal:
  assumes "triple P m (\<lambda>_ s. \<exists>d j h. sees False (d, Some j, h) s \<and> good d) never"
  shows "triple P (bind_m m (\<lambda>_. bind_m remove_install_transaction (\<lambda>_. return_m True)))
    (\<lambda>_ s. \<exists>d h. sees False (d, None, h) s \<and> good d) never"
proof (rule triple_bind [OF assms])
  show "triple (\<lambda>s. \<exists>d j h. sees False (d, Some j, h) s \<and> good d) (bind_m remove_install_transaction (\<lambda>_. return_m True))
    (\<lambda>_ s. \<exists>d h. sees False (d, None, h) s \<and> good d) never" for x
  proof (rule triple_pre)
    fix s assume "\<exists>d j h. sees False (d, Some j, h) s \<and> good d"
    then obtain d j h where s: "sees False (d, Some j, h) s" "good d" by blast
    have "triple (sees False (d, Some j, h)) (bind_m remove_install_transaction (\<lambda>_. return_m True))
        (\<lambda>_. sees False (d, None, h)) never"
      by (rule triple_bind [OF triple_remove_journal]) (auto intro: triple_intros)
    then show "triple (\<lambda>t. t = s) (bind_m remove_install_transaction (\<lambda>_. return_m True))
        (\<lambda>_ s. \<exists>d h. sees False (d, None, h) s \<and> good d) never"
      by (rule triple_conseq) (use s in auto)
  qed
qed

lemma triple_resolved:
  assumes staged: "staged_for New Old (plan_entries pl) (backup_path (ip_install_path pl))"
    and safe: "safe pl New Old (d, Some (plan_journal pl phase), h)"
  shows "triple (sees False (d, Some (plan_journal pl phase), h))
    (case phase of Publishing \<Rightarrow> rollback_journal_paths (plan_entries pl)
     | Committed \<Rightarrow> finish_committed_journal (plan_journal pl phase))
    (\<lambda>_ s. \<exists>d j h. sees False (d, Some j, h) s \<and> (all_new pl New d \<or> all_old pl Old d)) never"
proof (cases phase)
  case Publishing
  show ?thesis unfolding Publishing journal_phase.case
    by (rule triple_conseq [OF triple_rollback_all [OF staged]])
       (use safe Publishing in \<open>auto simp: half_restored_def safe_def plan_journal_def all_old_def\<close>)
next
  case Committed
  show ?thesis unfolding Committed journal_phase.case
    by (rule triple_conseq [OF triple_finish_all [OF staged]])
       (use safe Committed in \<open>auto simp: half_finished_def safe_def plan_journal_def all_new_def settled_path_def\<close>)
qed

lemma triple_read:
  "(\<And>s. P s \<Longrightarrow> f s = Inr x) \<Longrightarrow> triple P (g x) Q R \<Longrightarrow> triple P (bind_m (read_m f) g) Q R"
  by (simp add: triple_def bind_m_def read_m_def)

lemma triple_result: "triple P (g x) Q R \<Longrightarrow> r = Inr x \<Longrightarrow> triple P (bind_m (of_result r) g) Q R"
  by (simp add: triple_def bind_m_def of_result_def)

lemma triple_recover:
  assumes fits: "plan_fits E pl"
    and staged: "staged_for New Old (plan_entries pl) (backup_path (ip_install_path pl))"
    and safe: "safe pl New Old (d, j, h)"
  shows "triple (sees False (d, j, h)) (recover_interrupted_install E) (\<lambda>_. recovered pl New Old) never"
proof -
  have good: "sees False (d', None, h') s \<Longrightarrow> all_new pl New d' \<or> all_old pl Old d' \<Longrightarrow> recovered pl New Old s" for d' h' s
    using sees_view [of False "(d', None, h')" s] by (simp add: recovered_def)
  have journal: "sees False (d, j, h) s \<Longrightarrow> Inr (ir_journal s) = (Inr j :: install_error + _)" for s
    using sees_view by fastforce
  show ?thesis unfolding recover_interrupted_install_def
  proof (rule triple_bind [OF triple_plain_call], simp, rule triple_read [OF journal], assumption, cases j)
    case None
    then have "all_new pl New d \<or> all_old pl Old d"
      using safe by (auto simp: safe_def all_new_def all_old_def settled_path_def untouched_def)
    then show "triple (sees False (d, j, h)) (case j of None \<Rightarrow> return_m False | Some j \<Rightarrow> f j) (\<lambda>_. recovered pl New Old) never"
      for f unfolding None option.case by (intro triple_return) (rule good)
  next
    case (Some j')
    then obtain phase where j': "j' = plan_journal pl phase" using safe by (auto simp: safe_def)
    have parts: "ij_phase j' = phase" "ij_paths j' = plan_entries pl" by (simp_all add: j' plan_journal_def)
    note resolved = triple_removed_journal [OF triple_resolved [OF staged safe [unfolded Some j']]]
    show "triple (sees False (d, j, h)) (case j of None \<Rightarrow> return_m False
     | Some j \<Rightarrow>
         bind_m (of_result (validate_install_transaction E j)) (\<lambda>_.
         bind_m (case ij_phase j of
             Publishing \<Rightarrow> rollback_journal_paths (ij_paths j)
           | Committed \<Rightarrow> finish_committed_journal j) (\<lambda>_.
         bind_m remove_install_transaction (\<lambda>_. return_m True)))) (\<lambda>_. recovered pl New Old) never"
      unfolding Some option.case parts
    proof (rule triple_result)
      show "validate_install_transaction E j' = Inr ()" unfolding j' by (rule plan_validates [OF fits])
    qed (use resolved good in \<open>unfold j', auto elim!: triple_conseq\<close>)
  qed
qed

text \<open>What the installation starts from: the staged files are there, no file is in the way, and what
  stands at each target is of the kind that belongs there.\<close>

definition ready_entry :: "journal_path \<Rightarrow> disk \<Rightarrow> bool" where
  "ready_entry p d \<longleftrightarrow>
     (\<exists>n. d (jp_staged p) = Some n \<and> kind_of n = jp_kind p \<and> (jp_kind p = FileKind \<longrightarrow> d (jp_target p) \<noteq> Some n))
     \<and> (\<forall>n. d (jp_target p) = Some n \<longrightarrow> kind_of n = jp_kind p) \<and> d (jp_backup p) = None"

definition ready_to_install :: "install_plan \<Rightarrow> install_run \<Rightarrow> bool" where
  "ready_to_install pl s \<longleftrightarrow>
     ir_journal s = None \<and> ir_had_previous s = (\<lambda>_. False) \<and> is_file (ir_disk s (backup_path (ip_install_path pl)))
     \<and> (\<forall>p \<in> set (plan_entries pl). ready_entry p (ir_disk s))"

definition installed_new :: "install_plan \<Rightarrow> disk \<Rightarrow> disk \<Rightarrow> bool" where
  "installed_new pl d d' \<longleftrightarrow> (\<forall>p \<in> set (plan_entries pl). d' (jp_target p) = d (jp_staged p))"

definition installed_old :: "install_plan \<Rightarrow> disk \<Rightarrow> disk \<Rightarrow> bool" where
  "installed_old pl d d' \<longleftrightarrow> (\<forall>p \<in> set (plan_entries pl). d' (jp_target p) = d (jp_target p))"

abbreviation "new_of s \<equiv> \<lambda>p. the (ir_disk s (jp_staged p))"
abbreviation "old_of s \<equiv> \<lambda>p. ir_disk s (jp_target p)"

lemma plan_kinds: "p \<in> set (plan_entries pl) \<Longrightarrow> jp_label p = binary_label \<Longrightarrow> jp_kind p = FileKind"
  by (cases "ip_runtime pl") (auto simp: plan_entries_def binary_entry_def marker_entry_def runtime_entry_def Let_def split_beta)

lemma ready_staged:
  assumes "plan_fits E pl" "ready_to_install pl s"
  shows "staged_for (new_of s) (old_of s) (plan_entries pl) (backup_path (ip_install_path pl))"
  unfolding staged_for_def
proof (intro conjI ballI impI)
  show "apart (plan_entries pl) (backup_path (ip_install_path pl))" by (rule plan_apart [OF assms(1)])
  fix p assume p: "p \<in> set (plan_entries pl)"
  then show "kinds_fit (new_of s) (old_of s) p"
    using assms(2) unfolding ready_to_install_def ready_entry_def kinds_fit_def by force
  show "jp_label p = binary_label \<Longrightarrow> jp_kind p = FileKind" by (rule plan_kinds [OF p])
qed

lemma ready_before:
  "ready_to_install pl s \<Longrightarrow> calls_ok k (ir_calls s) \<Longrightarrow> before_install k pl (new_of s) (old_of s) s"
  unfolding before_install_def ready_to_install_def ready_entry_def untouched_def sees_def view_def by auto

definition spared :: "install_plan \<Rightarrow> (journal_path \<Rightarrow> disk_node) \<Rightarrow> (journal_path \<Rightarrow> disk_node option) \<Rightarrow> run_view \<Rightarrow> bool" where
  "spared pl New Old v \<longleftrightarrow> safe pl New Old v \<or> fst (snd v) = None \<and> all_new pl New (fst v)"

lemma triple_install_staged:
  assumes staged: "staged_for New Old (plan_entries pl) (backup_path (ip_install_path pl))"
  shows "triple (before_install k pl New Old) (install_staged pl)
    (\<lambda>_ s. \<exists>d h. sees k (d, None, h) s \<and> all_new pl New d) (killed_in (spared pl New Old))"
  unfolding install_staged_def
proof (rule triple_bind)
  show "triple (before_install k pl New Old) (caught (replace_binary pl) (\<lambda>e. bind_m (remove_staged pl) (\<lambda>_. raise_m e)))
      (\<lambda>_ s. \<exists>d h. sees k (d, None, h) s \<and> all_new pl New d) (killed_in (spared pl New Old))"
    by (rule triple_conseq [OF triple_caught [OF triple_replace_binary [OF staged]]]) (auto simp: killed_in_def spared_def)
  show "triple (\<lambda>s. \<exists>d h. sees k (d, None, h) s \<and> all_new pl New d) (on_parent (ip_install_path pl) sync_parent)
      (\<lambda>_ s. \<exists>d h. sees k (d, None, h) s \<and> all_new pl New d) (killed_in (spared pl New Old))" for x
  proof (rule triple_pre)
    fix s assume "\<exists>d h. sees k (d, None, h) s \<and> all_new pl New d"
    then obtain d h where s: "sees k (d, None, h) s" "all_new pl New d" by blast
    have "triple (sees k (d, None, h)) (on_parent (ip_install_path pl) sync_parent) (\<lambda>_. sees k (d, None, h))
        (killed_in (spared pl New Old))"
      by (rule triple_sync_parent(2)) (simp add: spared_def s(2))
    then show "triple (\<lambda>t. t = s) (on_parent (ip_install_path pl) sync_parent)
        (\<lambda>_ s. \<exists>d h. sees k (d, None, h) s \<and> all_new pl New d) (killed_in (spared pl New Old))"
      by (rule triple_conseq) (use s in auto)
  qed
qed

lemma triple_recover_spared:
  assumes fits: "plan_fits E pl"
    and staged: "staged_for New Old (plan_entries pl) (backup_path (ip_install_path pl))"
    and spared: "spared pl New Old (d, j, h)"
  shows "triple (sees False (d, j, h)) (recover_interrupted_install E) (\<lambda>_. recovered pl New Old) never"
proof (cases "safe pl New Old (d, j, h)")
  case False
  then have s: "j = None" "all_new pl New d" using spared by (simp_all add: spared_def)
  have "triple (sees False (d, None, h)) (recover_interrupted_install E) (\<lambda>_. sees False (d, None, h)) never"
    unfolding recover_interrupted_install_def
  proof (rule triple_bind [OF triple_plain_call], simp, rule triple_read)
    show "sees False (d, None, h) s \<Longrightarrow> Inr (ir_journal s) = Inr None" for s using sees_view by fastforce
  qed (auto intro: triple_intros)
  then show ?thesis unfolding s(1)
    by (rule triple_conseq) (use s(2) sees_view in \<open>fastforce simp: recovered_def\<close>)+
qed (rule triple_recover [OF fits staged])

text \<open>Recovery by a process that nothing disturbs.\<close>

definition calm :: "install_run \<Rightarrow> install_run" where
  "calm s = s\<lparr>ir_calls := []\<rparr>"

lemma never_fails: "triple P m Q never \<Longrightarrow> P s \<Longrightarrow> \<exists>x t. m s = (Inr x, t) \<and> Q x t"
  by (cases "m s"; cases "fst (m s)") (auto simp: killed_in_def dest: triple_failed triple_returned)

lemma calm_sees: "sees False (view s) (calm s)"
  by (simp add: sees_def view_def calls_ok_def calm_def)

lemma recovered_from_ready:
  assumes "ready_to_install pl s" "recovered pl (new_of s) (old_of s) u"
  shows "installed_new pl (ir_disk s) (ir_disk u) \<or> installed_old pl (ir_disk s) (ir_disk u)"
proof -
  have "p \<in> set (plan_entries pl) \<Longrightarrow> Some (new_of s p) = ir_disk s (jp_staged p)" for p
    using assms(1) by (fastforce simp: ready_to_install_def ready_entry_def)
  then show ?thesis using assms(2)
    by (simp add: recovered_def all_new_def all_old_def installed_new_def installed_old_def)
qed

text \<open>C39: an installation that is killed at any of its calls, in the middle of a copy or of the removal of a
  directory too, is repaired by the next run: \<open>recover_interrupted_install\<close> succeeds, removes the journal,
  and leaves the binary, the marker and the runtime either all as they were before the installation or all
  new. When the installation reported success they are all new.\<close>

theorem killed_install_recovers:
  assumes fits: "plan_fits E pl" and ready: "ready_to_install pl s"
    and calls: "\<forall>c \<in> set (ir_calls s). c = Works \<or> (\<exists>n. c = Killed n)"
    and run: "install_staged pl s = (r, t)"
  shows "\<exists>b u. recover_interrupted_install E (calm t) = (Inr b, u) \<and> ir_journal u = None
    \<and> (installed_new pl (ir_disk s) (ir_disk u) \<or> r = Inl ProcessKilled \<and> installed_old pl (ir_disk s) (ir_disk u))"
proof -
  let ?New = "new_of s" and ?Old = "old_of s"
  note staged = ready_staged [OF fits ready]
  have before: "before_install True pl ?New ?Old s" using calls by (intro ready_before [OF ready]) (auto simp: calls_ok_def)
  note run' = triple_install_staged [OF staged, of True]
  have spared: "spared pl ?New ?Old (view t)" and result: "r \<noteq> Inl ProcessKilled \<Longrightarrow> ir_journal t = None \<and> all_new pl ?New (ir_disk t)"
  proof -
    consider (killed) "r = Inl ProcessKilled" "spared pl ?New ?Old (view t)"
      | (installed) x d h where "r = Inr x" "sees True (d, None, h) t" "all_new pl ?New d"
      using triple_returned [OF run' before] triple_failed [OF run' before] run by (cases r) (auto simp: killed_in_def)
    then show "spared pl ?New ?Old (view t)" "r \<noteq> Inl ProcessKilled \<Longrightarrow> ir_journal t = None \<and> all_new pl ?New (ir_disk t)"
      by (cases; auto simp: sees_def spared_def view_def)+
  qed
  obtain d j h where v: "view t = (d, j, h)" by (metis prod_cases3)
  obtain b u where u: "recover_interrupted_install E (calm t) = (Inr b, u)" and good: "recovered pl ?New ?Old u"
    using never_fails [OF triple_recover_spared [OF fits staged spared [unfolded v]], of "calm t"] calm_sees [of t] v by auto
  have "installed_new pl (ir_disk s) (ir_disk u)" if "r \<noteq> Inl ProcessKilled"
  proof -
    have "ir_disk u = ir_disk t"
      using u result [OF that]
      by (auto simp: recover_interrupted_install_def bind_m_def plain_call_def one_step_def system_call_def calm_def
          read_m_def return_m_def)
    then show ?thesis using result [OF that] ready
      by (fastforce simp: installed_new_def all_new_def ready_to_install_def ready_entry_def)
  qed
  then show ?thesis using u good recovered_from_ready [OF ready good] by (auto simp: recovered_def)
qed

text \<open>An installation with a runtime, over an older one.\<close>

definition demo_plan :: install_plan where
  "demo_plan =
     \<lparr>ip_install_path = [''bin'', ''ctx''], ip_unique = ''7.9'', ip_staged = [''bin'', staged_name ''7.9''],
      ip_marker_staged = [''bin'', staged_marker_name ''7.9''],
      ip_runtime = Some ([''run'', ''onnxruntime'', ''1'', staged_runtime_name ''x64'' ''7.9''], [''run'', ''onnxruntime'', ''1'', ''x64''])\<rparr>"

definition demo_disk :: disk where
  "demo_disk = map_of
     [([''bin'', ''ctx''], DiskFile 1 ''old''), ([''bin'', ''ctx.install.json''], DiskFile 2 ''old marker''),
      ([''run'', ''onnxruntime'', ''1'', ''x64''], DiskDir [(''lib'', ''old'')]),
      ([''bin'', staged_name ''7.9''], DiskFile 3 ''new''), ([''bin'', staged_marker_name ''7.9''], DiskFile 4 ''new marker''),
      ([''run'', ''onnxruntime'', ''1'', staged_runtime_name ''x64'' ''7.9''], DiskDir [(''lib'', ''new'')])]"

definition demo_run :: "call_effect list \<Rightarrow> install_run" where
  "demo_run cs =
     \<lparr>ir_disk = demo_disk, ir_journal = None, ir_calls = cs, ir_inode = 5, ir_had_previous = (\<lambda>_. False),
      ir_published = (\<lambda>_. False)\<rparr>"

definition demo_env :: install_env where
  "demo_env = \<lparr>ie_install_path = Inr [''bin'', ''ctx''], ie_runtime_root = Inr [''run''], ie_platform = Inr ''x64''\<rparr>"

lemma demo_fits: "plan_fits demo_env demo_plan"
  by (simp add: plan_fits_def demo_plan_def demo_env_def runtime_fits_def valid_identity_def plan_journal_def
      is_id_byte_def is_ascii_alphanumeric_def is_normal_def with_file_name_def path_name_def)

lemma demo_ready: "ready_to_install demo_plan (demo_run cs)"
  by (simp add: ready_to_install_def demo_plan_def demo_run_def demo_disk_def plan_entries_def runtime_entry_def
      binary_entry_def marker_entry_def ready_entry_def install_marker_path_def file_name_or_def path_name_def
      with_file_name_def transaction_backup_path_def backup_path_def staged_name_def staged_marker_name_def
      staged_runtime_name_def is_file_def)

theorem killed_install_recovers_witness:
  "\<exists>b u. recover_interrupted_install demo_env (calm (snd (install_staged demo_plan (demo_run (replicate 9 Works @ [Killed (Some 1)]))))) = (Inr b, u)
    \<and> ir_journal u = None"
  using killed_install_recovers [OF demo_fits demo_ready [of "replicate 9 Works @ [Killed (Some 1)]"], OF _ surjective_pairing]
  by (auto simp: demo_run_def)

section \<open>A failed installation that leaves its journal\<close>

definition cleared :: "fs_path set \<Rightarrow> disk \<Rightarrow> disk" where
  "cleared A d = (\<lambda>q. if q \<in> A then None else d q)"

lemma cleared_insert: "(cleared A d)(q := None) = cleared (insert q A) d"
  by (auto simp: cleared_def)

lemma cleared_gone: "cleared A d q = None \<Longrightarrow> cleared (insert q A) d = cleared A d"
  by (auto simp: cleared_def fun_eq_iff)

lemma triple_clear:
  assumes "\<And>m. d q = Some m \<Longrightarrow> kind_of m = kind"
  shows "triple (sees False (cleared A d, j, h)) (ignored (remove_published_path q kind))
    (\<lambda>_. sees False (cleared (insert q A) d, j, h)) never"
proof (cases "cleared A d q")
  case None
  have "triple (sees False (cleared A d, j, h)) (ignored (remove_published_path q kind)) (\<lambda>_. sees False (cleared A d, j, h)) never"
    using None by (cases kind)
      (auto simp: triple_def ignored_def caught_def remove_published_path_def fs_remove_file_def fs_remove_dir_all_def
        one_step_def system_call_def on_disk_def sees_def view_def calls_ok_def return_m_def split: list.split)
  then show ?thesis using cleared_gone [OF None] by simp
next
  case (Some m)
  then have "kind_of m = kind" using assms by (auto simp: cleared_def split: if_splits)
  then show ?thesis unfolding ignored_def using triple_remove [of "cleared A d", OF Some, of False _ j h]
    by (intro triple_caught) (auto simp: cleared_insert)
qed

lemma triple_strip:
  assumes "jp_staged p \<in> A" "d (jp_backup p) = None" "\<And>m. d (jp_target p) = Some m \<Longrightarrow> kind_of m = jp_kind p"
  shows "triple (sees False (cleared A d, j, h)) (rollback_journal_path p)
    (\<lambda>_. sees False (cleared (insert (jp_target p) A) d, j, h)) never"
proof -
  have gone: "cleared B d (jp_backup p) = None" "A \<subseteq> B \<Longrightarrow> cleared B d (jp_staged p) = None" for B
    using assms(1,2) by (auto simp: cleared_def)
  have target: "triple (sees False (cleared A d, j, h)) (when_exists (jp_target p) (remove_journal_path (jp_target p) (jp_kind p)))
      (\<lambda>_. sees False (cleared (insert (jp_target p) A) d, j, h)) never"
  proof (rule triple_when_exists)
    assume "cleared A d (jp_target p) \<noteq> None"
    then obtain m where m: "cleared A d (jp_target p) = Some m" by blast
    then have "kind_of m = jp_kind p" using assms(3) by (auto simp: cleared_def split: if_splits)
    then show "triple (sees False (cleared A d, j, h)) (remove_journal_path (jp_target p) (jp_kind p))
        (\<lambda>_. sees False (cleared (insert (jp_target p) A) d, j, h)) never"
      using triple_remove_journal_path [of "cleared A d", OF m, of _ False _ j h] by (simp add: cleared_insert)
  qed (simp add: cleared_gone)
  show ?thesis unfolding rollback_journal_path_def
  proof (rule triple_bind, rule triple_if_exists)
    show "triple (sees False (cleared (insert (jp_target p) A) d, j, h))
        (bind_m (when_exists (jp_staged p) (remove_journal_path (jp_staged p) (jp_kind p))) (\<lambda>_. on_parent (jp_target p) sync_directory))
        (\<lambda>_. sees False (cleared (insert (jp_target p) A) d, j, h)) never" for x
      by (rule triple_bind [OF triple_when_exists triple_sync_parent(1)]) (use gone(2) [OF subset_insertI] in auto)
    show "triple (sees False (cleared A d, j, h)) (if_exists (jp_staged p) (return_m ())
        (when_exists (jp_target p) (remove_journal_path (jp_target p) (jp_kind p))))
        (\<lambda>_. sees False (cleared (insert (jp_target p) A) d, j, h)) never"
      by (rule triple_if_exists [OF _ target]) (use gone(2) [OF subset_refl] in auto)
  qed (use gone in auto)
qed

lemma triple_remove_staged:
  assumes "\<And>p. p \<in> set (plan_entries pl) \<Longrightarrow> ready_entry p d"
  shows "triple (sees False (d, j, h)) (remove_staged pl)
    (\<lambda>_. sees False (cleared (jp_staged ` set (plan_entries pl)) d, j, h)) never"
proof -
  have kinds: "p \<in> set (plan_entries pl) \<Longrightarrow> d (jp_staged p) = Some m \<Longrightarrow> kind_of m = jp_kind p" for p m
    using assms by (fastforce simp: ready_entry_def)
  have remove: "fs_remove_file = (\<lambda>q. remove_published_path q FileKind)" "fs_remove_dir_all = (\<lambda>q. remove_published_path q DirectoryKind)"
    by (simp_all add: remove_published_path_def fun_eq_iff)
  have files: "d (ip_staged pl) = Some m \<Longrightarrow> kind_of m = FileKind" "d (ip_marker_staged pl) = Some m \<Longrightarrow> kind_of m = FileKind" for m
    using kinds [OF plan_entries_members(1)] kinds [OF plan_entries_members(2)]
    by (simp_all add: binary_entry_def marker_entry_def Let_def)
  have d: "d = cleared {} d" by (simp add: cleared_def)
  have runtime: "triple (sees False (cleared A d, j, h))
      (for_each (\<lambda>rt. ignored (remove_published_path (fst rt) DirectoryKind)) (option_list (ip_runtime pl)))
      (\<lambda>_. sees False (cleared (A \<union> fst ` set (option_list (ip_runtime pl))) d, j, h)) never" for A
  proof (cases "ip_runtime pl")
    case None
    then show ?thesis by (auto intro: triple_intros)
  next
    case (Some rt)
    then have "\<lparr>jp_label = runtime_label, jp_staged = fst rt, jp_target = snd rt,
        jp_backup = transaction_backup_path (snd rt) (ip_unique pl) ''runtime'', jp_kind = DirectoryKind\<rparr> \<in> set (plan_entries pl)"
      by (simp add: plan_entries_def runtime_entry_def split_beta)
    from kinds [OF this] have dir: "\<And>m. d (fst rt) = Some m \<Longrightarrow> kind_of m = DirectoryKind" by simp
    from triple_clear [of d "fst rt" DirectoryKind A j h, OF dir] show ?thesis using Some by (auto intro!: triple_bind triple_intros)
  qed
  have names: "jp_staged ` set (plan_entries pl) = insert (ip_marker_staged pl) {ip_staged pl} \<union> fst ` set (option_list (ip_runtime pl))"
    by (cases "ip_runtime pl") (auto simp: plan_entries_def binary_entry_def marker_entry_def runtime_entry_def Let_def split_beta)
  show ?thesis unfolding remove_staged_def remove names
    by (subst d) (rule triple_bind [OF triple_clear triple_bind [OF triple_clear runtime]], use files in auto)
qed

lemma triple_strip_all:
  assumes ready: "\<And>p. p \<in> set (plan_entries pl) \<Longrightarrow> ready_entry p d"
  shows "triple (sees False (cleared (jp_staged ` set (plan_entries pl)) d, j, h)) (rollback_journal_paths (plan_entries pl))
    (\<lambda>_. sees False (cleared (jp_staged ` set (plan_entries pl) \<union> jp_target ` set (plan_entries pl)) d, j, h)) never"
proof -
  let ?I = "\<lambda>(ds :: journal_path list) (xs :: journal_path list). sees False (cleared (jp_staged ` set (plan_entries pl) \<union> jp_target ` set ds) d, j, h)"
  have "triple (?I [] (rev (plan_entries pl))) (for_each rollback_journal_path (rev (plan_entries pl)))
      (\<lambda>_. ?I (rev (plan_entries pl)) []) never"
  proof (rule triple_for_each [of "rev (plan_entries pl)" ?I rollback_journal_path never "[]" "rev (plan_entries pl)"])
    fix ds x xs assume "ds @ x # xs = rev (plan_entries pl)"
    then have x: "x \<in> set (plan_entries pl)" by (metis in_set_conv_decomp set_rev)
    show "triple (?I ds (x # xs)) (rollback_journal_path x) (\<lambda>_. ?I (ds @ [x]) xs) never"
      using triple_strip [of x _ d] ready [OF x] x by (simp add: ready_entry_def)
  qed simp
  then show ?thesis by (simp add: rollback_journal_paths_def)
qed

lemma journal_not_synced:
  assumes "ir_calls s = replicate 5 Works @ [Fails None]"
  shows "replace_binary pl s = (Inl CallFailed, s\<lparr>ir_calls := [], ir_journal := Some (plan_journal pl Publishing)\<rparr>)"
proof -
  have "ir_calls s = [Works, Works, Works, Works, Works, Fails None]" using assms by (simp add: numeral_eq_Suc)
  then show ?thesis
    by (simp add: replace_binary_def write_install_transaction_def bind_m_def plain_call_def one_step_def system_call_def
        caught_def sync_directory_def ignored_def part_done_def return_m_def raise_m_def)
qed

lemma not_cleared:
  assumes "apart ps durable" "p \<in> set ps"
  shows "jp_target p \<notin> jp_staged ` set ps"
proof
  assume "jp_target p \<in> jp_staged ` set ps"
  then obtain q where q: "q \<in> set ps" "jp_staged q = jp_target p" by auto
  obtain ds xs where split: "ds @ p # xs = ps" using assms(2) by (metis split_list)
  show False
  proof (cases "q = p")
    case True
    then show ?thesis using apart_split(1) [OF assms(1) split] q(2) by (simp add: slots_def)
  next
    case False
    then have "q \<in> set ds \<union> set xs" using q(1) by (auto simp flip: split)
    moreover have "jp_target p \<in> set (slots q)" "jp_target p \<in> set (slots p)" using q(2) by (simp_all add: slots_def)
    ultimately show ?thesis using apart_split(3) [OF assms(1) split] by fastforce
  qed
qed

text \<open>C40: one failed \<open>fsync\<close> costs the installation. When the sync of the directory fails after the first journal
  was renamed into place, the upgrade returns the error with every target as it was, but the journal stays and
  the staged files are removed; the next run takes the missing staged files for a publication that went through,
  and its recovery, which reports success, deletes the binary, the marker and the runtime.\<close>

theorem failed_sync_costs_the_install:
  assumes fits: "plan_fits E pl" and ready: "ready_to_install pl s"
    and calls: "ir_calls s = replicate 5 Works @ [Fails None]"
    and run: "install_staged pl s = (r, t)"
  shows "r = Inl CallFailed \<and> installed_old pl (ir_disk s) (ir_disk t)
    \<and> (\<exists>u. recover_interrupted_install E (calm t) = (Inr True, u)
        \<and> (\<forall>p \<in> set (plan_entries pl). ir_disk u (jp_target p) = None))"
proof -
  let ?j = "plan_journal pl Publishing" and ?s = "s\<lparr>ir_calls := [], ir_journal := Some (plan_journal pl Publishing)\<rparr>"
  let ?d = "ir_disk s" and ?h = "ir_had_previous s"
  let ?St = "jp_staged ` set (plan_entries pl)" and ?Ta = "jp_target ` set (plan_entries pl)"
  have entries: "p \<in> set (plan_entries pl) \<Longrightarrow> ready_entry p ?d" for p using ready by (simp add: ready_to_install_def)
  have "sees False (?d, Some ?j, ?h) ?s" by (simp add: sees_def view_def calls_ok_def)
  from never_fails [OF triple_remove_staged [OF entries] this] obtain t'
    where t': "remove_staged pl ?s = (Inr (), t')" "sees False (cleared ?St ?d, Some ?j, ?h) t'" by auto
  have "t = t'" "r = Inl CallFailed"
    using run t'(1) by (auto simp: install_staged_def bind_m_def caught_def journal_not_synced [OF calls] raise_m_def)
  note r = this(2) and t = t'(2) [folded this(1)]
  have calm: "sees False (cleared ?St ?d, Some ?j, ?h) (calm t)" using t by (simp add: sees_def view_def calm_def calls_ok_def)
  have phase: "ij_phase ?j = Publishing" "ij_paths ?j = plan_entries pl" by (simp_all add: plan_journal_def)
  have "triple (sees False (cleared ?St ?d, Some ?j, ?h)) (recover_interrupted_install E)
      (\<lambda>x s. x = True \<and> sees False (cleared (?St \<union> ?Ta) ?d, None, ?h) s) never"
    unfolding recover_interrupted_install_def
  proof (rule triple_bind [OF triple_plain_call], simp, rule triple_read)
    show "sees False (cleared ?St ?d, Some ?j, ?h) s \<Longrightarrow> Inr (ir_journal s) = Inr (Some ?j)" for s using sees_view by fastforce
    show "triple (sees False (cleared ?St ?d, Some ?j, ?h)) (case Some ?j of None \<Rightarrow> return_m False | Some j \<Rightarrow>
        bind_m (of_result (validate_install_transaction E j)) (\<lambda>_.
        bind_m (case ij_phase j of Publishing \<Rightarrow> rollback_journal_paths (ij_paths j) | Committed \<Rightarrow> finish_committed_journal j) (\<lambda>_.
        bind_m remove_install_transaction (\<lambda>_. return_m True))))
        (\<lambda>x s. x = True \<and> sees False (cleared (?St \<union> ?Ta) ?d, None, ?h) s) never"
      unfolding option.case phase journal_phase.case
      by (rule triple_result [OF triple_bind [OF triple_strip_all [OF entries]
            triple_bind [OF triple_remove_journal]] plan_validates [OF fits]]) (auto intro: triple_intros)
  qed
  from never_fails [OF this calm] obtain u where u: "recover_interrupted_install E (calm t) = (Inr True, u)"
    "sees False (cleared (?St \<union> ?Ta) ?d, None, ?h) u" by auto
  have "ir_disk u (jp_target p) = None" if "p \<in> set (plan_entries pl)" for p
    using that sees_view [OF u(2)] by (simp add: cleared_def)
  moreover have "installed_old pl ?d (ir_disk t)"
    using sees_view [OF t] not_cleared [OF plan_apart [OF fits]] by (simp add: installed_old_def cleared_def)
  ultimately show ?thesis using r u(1) by blast
qed

theorem failed_sync_costs_the_install_witness:
  "\<exists>u. recover_interrupted_install demo_env (calm (snd (install_staged demo_plan (demo_run (replicate 5 Works @ [Fails None]))))) = (Inr True, u)
    \<and> ir_disk u [''bin'', ''ctx''] = None"
  using failed_sync_costs_the_install [OF demo_fits demo_ready [of "replicate 5 Works @ [Fails None]"], OF _ surjective_pairing]
  by (auto simp: demo_run_def demo_plan_def plan_entries_def binary_entry_def)

end
