(* ===== verification/Spec2Isabelle.thy ===== *)
theory Spec2Isabelle
  imports Store_Invariant Turso_Race Turso_Sync Turso_Project Search_Results Incremental_Import Archive_Invariant
    Upgrade_Recovery
begin

text \<open>
  ctx-remote: a verification library for the history store and the remote sync of ctx.

  The program. ctx collects the transcripts of coding agents. A provider reader turns a
  transcript into capture lines (crate ctx-history-capture), the importer writes them to a local
  SQLite database (crate ctx-history-store), a search projection of the events is kept beside them,
  and the command "ctx turso" (crate ctx-cli, commands/turso.rs) copies events to a remote libSQL
  database that many machines share. Everything that makes a second import or a second push harmless
  rests on stable identifiers and deduplication keys, so the library starts there and follows the
  data to the remote side.

  Conventions. A Rust String is a list of bytes (the type string). A bounded integer of the source
  is a word of its width or an int with the conversion written out. A Result is a sum whose left part
  is the error, an Option is an option. A database is a record of tables, each table a list of rows
  in rowid order, and a statement either fails with an error value or gives a new database. Code that
  is not part of the repository (the uuid, chrono, serde_json and sha2 crates, SQLite's full-text
  matching, the remote server) enters as a parameter: the record externals of Core_Types, or an
  argument of the definition that uses it.

  Theories, in the order of the data.
    Prelude           lemmas on lists, options and maps that the rest shares, the fact collections.
    Rust_Text         std string functions on bytes: trim, split, strip, parse, formatting.
    Text_Enums        the enumerations of ctx-history-core with as_str and from_str; the locale
                      text_enum states the round trip once and is interpreted for every enumeration.
    Core_Types        entity records, capture envelopes, import summaries and options.
    Stable_Ids        fnv1a64, stable UUIDs, sequence numbers and source identities
                      (common/identity.rs, provider/importer/ids.rs).
    Dedupe_Keys       deduplication keys of a provider event: printing, parsing, conflict scan
                      (store/src/events.rs) and the canonical key of the remote side.
    Sql_Text          SQL literals, LIKE patterns, full-text queries, bounded arguments.
    Search_Analyzer   the text analyzer (store/src/search/analyzer.rs).
    Event_Search      previews and rows of the event search projection
                      (store/src/search/projections.rs).
    Store_Tables      the tables, their constraints and the triggers (schema/ddl.rs, indexes.rs).
    Store_Entities    sources, sessions, edges, runs, files, cursors (store/src/*.rs).
    Store_Events      events and their deduplication (store/src/events.rs).
    Store_Tables also holds the locale keyed_rows (look up, insert, replace by a key), interpreted for
                      every table of the library.
    Store_Invariant   the invariant of the database, kept by every operation, and the reachable
                      stores.
    Import_Common     errors of the importer, JSON of the envelopes, actions that thread a state.
    File_Touches      the files an event touched (provider/file_touches.rs).
    Import_Cursors    cursors and command runs (provider/importer/cursors.rs, commands.rs).
    Import_Identity   event and session identities with their legacy forms (identity.rs).
    Provider_Import   one capture line, pending edges, touched files, the policy on sessions without
                      a message (provider/importer.rs); the locales session_frame, import_frame,
                      import_records and import_invariant say what a predicate on the store needs so
                      that the importer keeps it, and are interpreted for the invariant, for "no row
                      is lost", for the events and for the cursors.
    Import_Transaction  units, batches and every outcome of BEGIN, COMMIT and the checkpoint
                      (provider/importer/batches.rs), refined to the same import without transactions.
    Turso_Remote      the remote tables, the statements with text and effect, the export policy.
    Turso_Merge       what a batch of rows adds to the remote tables; the invariant remote_ok.
    Turso_Push        the push loop with every outcome of its remote calls.
    Turso_Race        pushes of several machines, interleaved call by call.
    Turso_Sync        import, checkpoints, the watch loop, adoption of a snapshot.
    Turso_Project     projection of the remote events and the merged search.

    Search_Types      the data of a search and what it takes from outside: floats, full-text queries.
    Search_Filters    filters, file scopes, metadata of hits (crate ctx-history-search: filters.rs,
                      source.rs).
    Search_Ranking    terms, sections, scores, candidates (query.rs, snippets.rs, ranking.rs).
    Search_Packet     the packets: event search, record search, hybrid search, several terms
                      (search.rs, results.rs, packet.rs).
    Search_Snippets   what a snippet shows of a match.
    Search_Results    what a packet satisfies; the locale indexed_results states what it takes to
                      merge results under a key, and is interpreted for the three merges of the code.

    Catalog           the two tables of files on disk, with every operation on them
                      (store/src/catalog.rs).
    Catalog_Refresh   their reachable states, the counts; the locale indexed_files gives the three
                      states of a file and what a refresh does to them, once for both tables.
    Jsonl_Reader      the chunked reader of JSON lines and its limit (common/io.rs).
    Transcript_Tree   the walk of a transcript directory and its guards against links.
    Native_Events     texts, previews, retention policy and the event of a native provider
                      (provider/native.rs, provider/policy.rs).
    Codex_Events      the events of a Codex session line (provider/codex/events.rs).
    Codex_Normalize   sessions, headers, relations and captures of Codex (normalize.rs).
    Codex_Import      the fast import of session files (codex/session.rs).
    Codex_Runs        every entry to it: one file, many, a bounded tree, the tail of a file.
    Codex_Catalog     the scan of a Codex tree into the catalog, with its workers (codex/catalog.rs).
    Incremental_Import  the incremental import of a Codex tree: pending files, checkpoints, tails, marks
                      (ctx-cli: commands/import/catalog.rs, report.rs); the locale incremental_frame
                      is interpreted for the store, its rows and the catalog.

    Record_Tables     the other tables of the store: history records, workspaces, changes, links,
                      summaries, artifacts (records.rs, vcs.rs, summaries.rs, artifacts.rs), with the
                      locale identified_rows (rows with an id and a second key) interpreted for four
                      of them; in_transaction is a transaction of rusqlite, rolled back on an error.
    Record_Search     the search over records and the rebuild of the search tables (records.rs,
                      search/projections.rs), which runs outside a transaction: a list of statements
                      of which the database may refuse any (run_statements in Record_Tables).
    Archive_Import    export of the store as an archive, the checks of an import and both imports
                      (archive/mod.rs, conflicts.rs, import.rs).
    Archive_Invariant  the invariant of the store with all its tables, every operation on them, and
                      the imports that fail.

    Effects           loops over fallible actions and the rules of Hoare triples, one per way to build
                      an action; Record_Tables and the upgrade rest on it.
    Upgrade_Disk      the file system as ctx-cli upgrade/install.rs uses it: files with inodes,
                      directories, and calls of which any may fail or be the last of its process.
    Upgrade_Install   the replacement of the installed binary, marker and runtime on Unix: journal,
                      publication, rollback, recovery (upgrade/install.rs).
    Upgrade_Recovery  what a killed installation leaves, and that the recovery makes it whole; the one
                      failed call after which it does not.

  How the history group fits together. A file on disk is a reader, a list of chunks each of which may
  fail; the reader gives lines, the Codex theories turn a line into captures and hand them to
  Provider_Import in one transaction per chunk. The catalog lists the files with their size and time;
  a file is pending, indexed or failed, and Incremental_Import moves it between these states. A
  prefix of a file that was imported is recognised by its hash, and only the tail is read.

  Fuel and bounds. The push loop recurs on the list of pages left, the watch loop on the list of
  results of its rounds, the projection on a number of rounds; the theorem
  project_appends_above_max proves that one round per batch of pending rows and a last one are
  enough. Outcomes of remote calls are a list, one entry per call: done, refused, or applied with the
  answer lost; a run whose list is exhausted has been killed there. The calls of an import to its
  connection have a list of outcomes too (works, fails, fails and the engine has rolled back), with
  working calls when it is used up; ROLLBACK itself is taken to work. The commits of the catalog have
  such a list of their own. The statements that write search rows outside a transaction take a fault, the
  number of the statement that is refused and its error; a refused statement inside a transaction of the
  archive import has the effect of a refused COMMIT. Inside a unit of the provider importer statements fail
  for reasons in the tables only. The searches count down the pages they may read (20 in the code); what
  happens when the budget is spent is part of the packet and of its theorem. The readers recur on
  their chunks and need no fuel. The clock stands still during one run.

  Not modelled. The readers of the providers other than Codex (thirty JSON and SQLite formats, each an
  extraction into the captures that are modelled), terminal output
  and argument parsing, process handling, discovery of sources, the semantic search (embedding models,
  a vector store of floats, a daemon), the download and verification of a
  release and its Windows installer, the MCP server and the editing of other programs'
  configuration files. The component list of the manifest has the reason for each.
\<close>

end
